(* ===== verification/Prelude.thy ===== *)
theory Prelude
  imports Main "HOL-Library.Word" "HOL-Library.Monad_Syntax"
begin

text \<open>
  The prelude of the Terragraph development: names for the C integer types, byte-addressed
  buffers with explicit faults, little-endian byte encodings, and the list and word lemmas the
  component theories share.

  Conventions. A C pointer that may be NULL is an \<open>option\<close> value. A computation that reads or
  writes a buffer has a result of type \<open>'a option\<close> in which \<open>None\<close> stands for an access outside
  the buffer (undefined behaviour in C), so that "the code stays inside its buffers" is the
  statement that the result is a \<open>Some\<close>.
\<close>

unbundle bit_operations_syntax

section \<open>Names and collections\<close>

type_synonym u8 = "8 word"
type_synonym u16 = "16 word"
type_synonym u32 = "32 word"
type_synonym u64 = "64 word"

named_theorems mem_simps \<open>reads and writes of byte buffers\<close>
named_theorems len_simps \<open>fields and lengths an operation leaves unchanged\<close>
named_theorems step_inv \<open>one operation keeps a component invariant\<close>

section \<open>Byte buffers\<close>

text \<open>\<open>mem_read off n m\<close>: the \<open>n\<close> bytes at offset \<open>off\<close> of buffer \<open>m\<close>.\<close>

definition mem_read :: "nat \<Rightarrow> nat \<Rightarrow> u8 list \<Rightarrow> u8 list option" where
  "mem_read off n m = (if off + n \<le> length m then Some (take n (drop off m)) else None)"

text \<open>\<open>mem_write off bs m\<close>: \<open>memcpy\<close> of the bytes \<open>bs\<close> to offset \<open>off\<close> of buffer \<open>m\<close>.\<close>

definition mem_write :: "nat \<Rightarrow> u8 list \<Rightarrow> u8 list \<Rightarrow> u8 list option" where
  "mem_write off bs m =
     (if off + length bs \<le> length m
      then Some (take off m @ bs @ drop (off + length bs) m) else None)"

lemma mem_write_Some [mem_simps]:
  "mem_write off bs m = Some m' \<longleftrightarrow>
     off + length bs \<le> length m \<and> m' = take off m @ bs @ drop (off + length bs) m"
  by (auto simp: mem_write_def)

lemma mem_read_Some [mem_simps]:
  "mem_read off n m = Some bs \<longleftrightarrow> off + n \<le> length m \<and> bs = take n (drop off m)"
  by (auto simp: mem_read_def)

lemma mem_write_length [len_simps]: "mem_write off bs m = Some m' \<Longrightarrow> length m' = length m"
  by (auto simp: mem_simps)

lemma mem_write_defined: "off + length bs \<le> length m \<Longrightarrow> \<exists>m'. mem_write off bs m = Some m'"
  by (simp add: mem_write_def)

lemma mem_read_defined: "off + n \<le> length m \<Longrightarrow> \<exists>bs. mem_read off n m = Some bs \<and> length bs = n"
  by (simp add: mem_read_def)

lemma mem_read_length [len_simps]: "mem_read off n m = Some bs \<Longrightarrow> length bs = n"
  by (auto simp: mem_simps)

text \<open>A written range reads back; a read elsewhere does not see the write.\<close>

lemma mem_read_write_same:
  "mem_write off bs m = Some m' \<Longrightarrow> mem_read off (length bs) m' = Some bs"
  by (auto simp: mem_simps)

lemma mem_read_write_before:
  assumes "mem_write off bs m = Some m'" and "p + n \<le> off"
  shows "mem_read p n m' = mem_read p n m"
proof -
  have "take n (drop p (take off m @ r)) = take n (drop p m)" if "off \<le> length m" for r
    using assms(2) that by (auto simp: take_drop)
  with assms show ?thesis by (auto simp: mem_read_def mem_simps)
qed

section \<open>Little-endian byte encodings\<close>

fun le_bytes :: "nat \<Rightarrow> nat \<Rightarrow> u8 list" where
  "le_bytes 0 v = []"
| "le_bytes (Suc n) v = of_nat v # le_bytes n (v div 256)"

fun le_val :: "u8 list \<Rightarrow> nat" where
  "le_val [] = 0"
| "le_val (b # bs) = unat b + 256 * le_val bs"

lemma length_le_bytes [simp]: "length (le_bytes n v) = n"
  by (induction n arbitrary: v) auto

lemma take_le_bytes: "k \<le> n \<Longrightarrow> take k (le_bytes n v) = le_bytes k v"
proof (induction n arbitrary: k v)
  case (Suc n)
  then show ?case by (cases k) auto
qed simp

lemma unat_of_nat_u8: "unat (of_nat v :: u8) = v mod 256"
  by (simp add: unat_of_nat)

lemma le_val_le_bytes: "le_val (le_bytes n v) = v mod 256 ^ n"
proof (induction n arbitrary: v)
  case (Suc n)
  then show ?case
    by (simp add: unat_of_nat_u8 mod_mult2_eq)
qed simp

lemma le_val_bound: "le_val bs < 256 ^ length bs"
proof (induction bs)
  case (Cons b bs)
  have "unat b < 256" using unsigned_less [of b, where ?'a = nat] by simp
  with Cons show ?case by simp
qed simp

lemma le_bytes_le_val: "le_bytes (length bs) (le_val bs) = bs"
proof (induction bs)
  case (Cons b bs)
  have b: "unat b < 256" using unsigned_less [of b, where ?'a = nat] by simp
  have "(unat b + 256 * le_val bs) div 256 = le_val bs" using b by simp
  moreover have "(of_nat (unat b + 256 * le_val bs) :: u8) = b"
  proof -
    have "(256 :: u8) = 0" by simp
    then show ?thesis by (simp only: of_nat_add of_nat_mult of_nat_numeral) simp
  qed
  ultimately show ?case using Cons by simp
qed simp

section \<open>Arrays\<close>

text \<open>An element of a C array; an index outside it is a fault.\<close>

definition arr_get :: "'a list \<Rightarrow> nat \<Rightarrow> 'a option" where
  "arr_get xs i = (if i < length xs then Some (xs ! i) else None)"

definition arr_set :: "'a list \<Rightarrow> nat \<Rightarrow> 'a \<Rightarrow> 'a list option" where
  "arr_set xs i x = (if i < length xs then Some (xs[i := x]) else None)"

lemma arr_get_Some [mem_simps]: "arr_get xs i = Some x \<longleftrightarrow> i < length xs \<and> x = xs ! i"
  by (auto simp: arr_get_def)

lemma arr_set_Some [mem_simps]: "arr_set xs i x = Some ys \<longleftrightarrow> i < length xs \<and> ys = xs[i := x]"
  by (auto simp: arr_set_def)

section \<open>Lists\<close>

lemma drop_take_append: "length xs = n \<Longrightarrow> take m (drop n (xs @ ys)) = take m ys"
  by simp

lemma sum_list_map_update:
  fixes f :: "'a \<Rightarrow> 'b :: comm_monoid_add"
  assumes "i < length xs"
  shows "sum_list (map f (xs[i := x])) + f (xs ! i) = sum_list (map f xs) + f x"
  using assms
proof (induction xs arbitrary: i)
  case (Cons y ys)
  then show ?case by (cases i) (simp_all add: ac_simps)
qed simp

section \<open>Words\<close>

lemma unat_add_mod32: "unat (a + b :: u32) = (unat a + unat b) mod 2 ^ 32"
  by (simp add: unat_word_ariths)

lemma unat_u32_less: "unat (x :: u32) < 2 ^ 32"
  using unsigned_less [of x, where ?'a = nat] by simp

lemma unat_Suc_u32: "unat (x :: u32) < 2 ^ 32 - 1 \<Longrightarrow> unat (x + 1) = Suc (unat x)"
  using unat_add_mod32 [of x 1] by simp

lemma unat_pred_u32: "0 < unat (x :: u32) \<Longrightarrow> unat (x - 1) = unat x - 1"
  by (metis unat_gt_0 unat_minus_one)

lemma sint_small_u32:
  assumes "unat (x :: u32) < 2 ^ 31"
  shows "sint x = int (unat x)"
proof -
  have u: "int (unat x) = uint x" by simp
  have "int (unat x) < int (2 ^ 31)" using assms by (simp only: of_nat_less_iff)
  then have "int (unat x) < 2 ^ 31" by simp
  then have "uint x < 2 ^ 31" by (simp only: u)
  moreover have "- (2 ^ 31) \<le> uint x" by (rule order_trans [OF _ uint_nonnegative]) simp
  ultimately have "signed_take_bit 31 (uint x) = uint x"
    by (rule signed_take_bit_int_eq_self [rotated])
  then show ?thesis by (simp add: sint_uint)
qed

text \<open>Running two fallible steps one after the other.\<close>

lemma bind_ok:
  assumes "\<exists>x. m = Some x \<and> P x" and "\<And>x. P x \<Longrightarrow> \<exists>y. f x = Some y \<and> Q y"
  shows "\<exists>y. Option.bind m f = Some y \<and> Q y"
  using assms by auto

text \<open>Comparing the value of a word with a natural number.\<close>

lemma uint_cmp_nat:
  fixes w :: "'a :: len word"
  shows "(uint w \<le> int n) = (unat w \<le> n)" "(int n < uint w) = (n < unat w)"
    "(int n \<le> uint w) = (n \<le> unat w)" "(uint w < int n) = (unat w < n)"
proof -
  have u: "uint w = int (unat w)" by simp
  show "(uint w \<le> int n) = (unat w \<le> n)" "(int n < uint w) = (n < unat w)"
    "(int n \<le> uint w) = (n \<le> unat w)" "(uint w < int n) = (unat w < n)"
    unfolding u by (simp_all only: of_nat_le_iff of_nat_less_iff)
qed

lemma sint_of_nat_u32: "n < 2 ^ 31 \<Longrightarrow> sint (of_nat n :: u32) = int n"
  using sint_small_u32 [of "of_nat n"] by (simp add: unsigned_of_nat take_bit_nat_eq_self)

end
