(* ===== verification/FwParamPack.thy ===== *)
theory FwParamPack
  imports Prelude
begin

text \<open>
  The firmware parameter packs of \<open>wireless-fw-interface/\<dots>/fb_tg_fw_param_pack.[ch]\<close>: the TLV
  encoder and decoder by which the controller hands parameters to the baseband firmware. A pack
  is a two-byte length followed by entries of one id byte and as many value bytes as the table
  \<open>fw_par_cfg_tlvs\<close> gives for the id.

  The pack buffer is memory the caller owns; the handle here carries its contents
  (\<open>pack_buf_pt\<close>) and \<open>pack_data_pt\<close> is the offset of the C pointer into it. An access outside
  the buffer is \<open>None\<close>. The machine is little-endian. Sizes (\<open>size_t\<close>) are naturals: packs are at
  most 512 bytes, and the one subtraction that can wrap is written out. Return values of type
  \<open>int8_t\<close> (\<open>FB_TRUE\<close>/\<open>FB_FALSE\<close>) are \<open>bool\<close>. Debug output is not modelled.
\<close>

section \<open>Data\<close>

type_synonym fwParamId = u32

record fw_par_tlv =
  tlv_name :: string
  tlv_len :: nat

record fw_par_val =
  pv_val :: u32
  pv_flag :: bool

record fw_par_hnd =
  pack_buf_pt :: "u8 list"
  pack_buf_size :: nat
  pack_data_pt :: nat
  pack_data_max_len :: nat
  pack_data_to_decode_len :: nat
  pack_idx :: nat
  cfg_tlvs_pt :: "fw_par_tlv list"

definition FW_PAR_PACK_MAX_SIZE :: nat where
  "FW_PAR_PACK_MAX_SIZE = 512"

text \<open>\<open>FW_PARAM_CONFIGURE_ALL\<close>: name and length in bytes of each parameter, in enum order.\<close>

definition FW_PARAM_CONFIGURE_ALL :: "(string \<times> nat) list" where
  "FW_PARAM_CONFIGURE_ALL =
    [(''eFW_PARAM_GPIO_CONFIG'', 4),
     (''eFW_PARAM_MCS'', 1),
     (''eFW_PARAM_TX_POWER'', 2),
     (''eFW_PARAM_RX_BUFFER'', 1),
     (''eFW_PARAM_BEAM_CONFIG'', 1),
     (''eFW_PARAM_TX_BEAM_INDEX'', 2),
     (''eFW_PARAM_RX_BEAM_INDEX'', 2),
     (''eFW_PARAM_NUM_OF_HB_LOSS_TO_FAIL'', 4),
     (''eFW_PARAM_STATS_LOG_INTERVAL'', 4),
     (''eFW_PARAM_STATS_PRINT_INTERVAL'', 4),
     (''eFW_PARAM_FORCE_GPS_DISABLE'', 1),
     (''eFW_PARAM_LSM_ASC_RSP_TMO'', 2),
     (''eFW_PARAM_LSM_SEND_ASC_REQ_RETRY'', 1),
     (''eFW_PARAM_LSM_ASC_RSP_ACK_TMO'', 2),
     (''eFW_PARAM_LSM_SEND_ASC_RSP_RETRY'', 1),
     (''eFW_PARAM_LSM_REPEAT_ACK_INTERVAL'', 2),
     (''eFW_PARAM_LSM_REPEAT_ACK'', 1),
     (''eFW_PARAM_LSM_FIRST_HEARTB_TMO'', 2),
     (''eFW_PARAM_TX_SLOT0_START'', 2),
     (''eFW_PARAM_TX_SLOT0_END'', 2),
     (''eFW_PARAM_TX_SLOT1_START'', 2),
     (''eFW_PARAM_TX_SLOT1_END'', 2),
     (''eFW_PARAM_TX_SLOT2_START'', 2),
     (''eFW_PARAM_TX_SLOT2_END'', 2),
     (''eFW_PARAM_RX_SLOT0_START'', 2),
     (''eFW_PARAM_RX_SLOT0_END'', 2),
     (''eFW_PARAM_RX_SLOT1_START'', 2),
     (''eFW_PARAM_RX_SLOT1_END'', 2),
     (''eFW_PARAM_RX_SLOT2_START'', 2),
     (''eFW_PARAM_RX_SLOT2_END'', 2),
     (''eFW_PARAM_BF_AGC'', 2),
     (''eFW_PARAM_LINK_AGC'', 2),
     (''eFW_PARAM_RESP_NODE_TYPE'', 1),
     (''eFW_PARAM_TX_GOLAY_INDEX'', 1),
     (''eFW_PARAM_RX_GOLAY_INDEX'', 1),
     (''eFW_PARAM_TPC_ENABLE'', 1),
     (''eFW_PARAM_TPC_REF_RSSI'', 2),
     (''eFW_PARAM_TPC_REF_STF_SNR_STEP1'', 2),
     (''eFW_PARAM_TPC_REF_STF_SNR_STEP2'', 2),
     (''eFW_PARAM_TPC_REF_DEL_POWER_STEP1'', 2),
     (''eFW_PARAM_TPC_REF_DEL_POWER_STEP2'', 2),
     (''eFW_PARAM_BF_MODE'', 1),
     (''eFW_PARAM_TPC_REF_STF_SNR_STEP3'', 2),
     (''eFW_PARAM_TPC_REF_DEL_POWER_STEP3'', 2),
     (''eFW_PARAM_MIN_TX_POWER'', 2),
     (''eFW_PARAM_TPC_ALPHA_UP_RSSI'', 2),
     (''eFW_PARAM_TPC_ALPHA_DOWN_RSSI'', 2),
     (''eFW_PARAM_LA_INV_PER_TARGET'', 2),
     (''eFW_PARAM_LA_CONVERGENCE_FACTOR'', 2),
     (''eFW_PARAM_LA_MAX_MCS'', 1),
     (''eFW_PARAM_LA_MIN_MCS'', 1),
     (''eFW_PARAM_MAX_AGC_ENABLED'', 1),
     (''eFW_PARAM_MAX_AGC_MARGIN'', 1),
     (''eFW_PARAM_NO_LINK_TIMEOUT'', 2),
     (''eFW_PARAM_WSEC_ENABLE'', 1),
     (''eFW_PARAM_KEY0'', 4),
     (''eFW_PARAM_KEY1'', 4),
     (''eFW_PARAM_KEY2'', 4),
     (''eFW_PARAM_KEY3'', 4),
     (''eFW_PARAM_CTRL_SUPERFRAME'', 1),
     (''eFW_PARAM_TPC_ALPHA_UP_TARGET_RSSI'', 2),
     (''eFW_PARAM_CRS_SCALE'', 1),
     (''eFW_PARAM_TPC_ALPHA_DOWN_TARGET_RSSI'', 2),
     (''eFW_PARAM_LA_TPC_LDPC'', 1),
     (''eFW_PARAM_MAX_TX_POWER'', 1),
     (''eFW_PARAM_POLARITY'', 1),
     (''eFW_PARAM_LINK_IMPAIRMENT_ENABLE'', 1),
     (''eFW_PARAM_LINK_IMPAIRMENT_SHORTPENDING'', 2),
     (''eFW_PARAM_LINK_IMPAIRMENT_SHORTUP'', 2),
     (''eFW_PARAM_LINK_IMPAIRMENT_LONGPENDING'', 2),
     (''eFW_PARAM_MAX_TX_POWER_PER_MCS'', 4),
     (''eFW_PARAM_TOPO_SCAN_ENABLE'', 1),
     (''eFW_PARAM_RESTRICT_TO_SF_PARITY'', 1),
     (''eFW_PARAM_MAX_AGC_IF_GAIN_PER_INDEX'', 2),
     (''eFW_PARAM_MAX_AGC_MAX_RF_GAIN'', 1),
     (''eFW_PARAM_MAX_AGC_MIN_RF_GAIN'', 1),
     (''eFW_PARAM_MAX_AGC_MAX_IF_GAIN'', 1),
     (''eFW_PARAM_MAX_AGC_MIN_IF_GAIN'', 1),
     (''eFW_PARAM_MAX_AGC_RAW_SCALE'', 2),
     (''eFW_PARAM_MAX_AGC_RF_SCALE'', 2),
     (''eFW_PARAM_MAX_AGC_RF_HILO'', 2),
     (''eFW_PARAM_MAX_AGC_TARGET_RAW_ADC'', 1),
     (''eFW_PARAM_MAX_AGC_USE_MIN_RSSI'', 1),
     (''eFW_PARAM_MAX_AGC_USE_SAME_STA'', 1),
     (''eFW_PARAM_MAX_AGC_IF_SWEET_MAX'', 1),
     (''eFW_PARAM_MAX_AGC_IF_SWEET_MIN'', 1),
     (''eFW_PARAM_MAX_AGC_MIN_RSSI'', 1),
     (''eFW_PARAM_CB2_ENABLE'', 1),
     (''eFW_PARAM_MAX_TX_POWER_PER_MCS_EDMG'', 4),
     (''eFW_PARAM_MAX_MCS_FALLBACK'', 1),
     (''eFW_PARAM_TX_POWER_TABLE_LINEAR'', 1),
     (''eFW_PARAM_AUTO_PBF_ENABLE'', 1),
     (''eFW_PARAM_LINK_IMPAIR_CONFIG'', 4),
     (''eFW_PARAM_LA_TPC_100_PER'', 2),
     (''eFW_PARAM_IBF_PROCEDURE_TYPE'', 1),
     (''eFW_PARAM_IBF_NUMBER_OF_BEAMS'', 1),
     (''eFW_PARAM_IBF_SET_1_RFIC_BITMAP'', 1),
     (''eFW_PARAM_IBF_SET_2_RFIC_BITMAP'', 1),
     (''eFW_PARAM_IBF_CODEBOOK_VARIANT'', 1),
     (''eFW_PARAM_USE_UPDATE_AWV_FOR_PBF'', 1),
     (''eFW_PARAM_BLER_TO_PER'', 1),
     (''eFW_PARAM_MTPO_ENABLED'', 1),
     (''eFW_PARAM_MTPO_HYSTERESIS'', 2),
     (''eFW_PARAM_IBF_USE_RSSI'', 1),
     (''eFW_PARAM_MCS_TABLE_1_4'', 4),
     (''eFW_PARAM_MCS_TABLE_5_8'', 4),
     (''eFW_PARAM_MCS_TABLE_9_12'', 4),
     (''eFW_PARAM_MCS_TABLE_13_16'', 4),
     (''eFW_PARAM_MAX_TX_POWER_SET1'', 1),
     (''eFW_PARAM_AUTO_PBF_MTPO_TX_POWER'', 1),
     (''eFW_PARAM_RX_MAX_MCS'', 1),
     (''eFW_PARAM_TCP_TUNING_CONFIG'', 2),
     (''eFW_PARAM_HTSF_MSG_INTERVAL'', 1),
     (''eFW_PARAM_HTSF_SYNC_ENABLE'', 1),
     (''eFW_PARAM_HTSF_RF_SYNC_KP_KI'', 4),
     (''eFW_PARAM_HTSF_PPS_SYNC_KP_KI'', 4),
     (''eFW_PARAM_TPC_PB_ENABLE'', 1),
     (''eFW_PARAM_MSDU_PER_MPDU'', 1)]"

definition fw_par_cfg_tlvs :: "fw_par_tlv list" where
  "fw_par_cfg_tlvs = map (\<lambda>(n, l). \<lparr>tlv_name = n, tlv_len = l\<rparr>) FW_PARAM_CONFIGURE_ALL"

definition eFW_PARAM_LIST_LEN :: nat where
  "eFW_PARAM_LIST_LEN = length FW_PARAM_CONFIGURE_ALL"

section \<open>Operations\<close>

definition fw_param_get_str :: "fwParamId \<Rightarrow> string" where
  "fw_param_get_str par_id =
     (if eFW_PARAM_LIST_LEN \<le> unat par_id then ''WrongParamId!''
      else tlv_name (fw_par_cfg_tlvs ! unat par_id))"

definition fw_param_cfg_get_len :: "fwParamId \<Rightarrow> nat" where
  "fw_param_cfg_get_len par_id =
     (if eFW_PARAM_LIST_LEN \<le> unat par_id then 0 else tlv_len (fw_par_cfg_tlvs ! unat par_id))"

text \<open>The result is a fault, NULL (\<open>Some None\<close>) or the initialised handle.\<close>

definition fw_param_get_hnd ::
  "fw_par_hnd option \<Rightarrow> u8 list option \<Rightarrow> nat \<Rightarrow> fw_par_tlv list \<Rightarrow> fw_par_hnd option option" where
  "fw_param_get_hnd par_hnd buf_pt buf_size tlvs_cfg =
     (case (par_hnd, buf_pt) of
        (Some hnd, Some pack_buf) \<Rightarrow>
          (let psize = (if buf_size > FW_PAR_PACK_MAX_SIZE then FW_PAR_PACK_MAX_SIZE
                        else buf_size mod 65536)
           in if psize = 0 then Some None
              else do {
                data_outlen \<leftarrow> mem_read 0 2 pack_buf;
                Some (Some (hnd\<lparr>pack_buf_size := psize,
                                pack_buf_pt := pack_buf,
                                pack_data_pt := 2,
                                pack_data_max_len := (psize + 2 ^ 64 - 2) mod 2 ^ 64,
                                pack_data_to_decode_len := le_val data_outlen,
                                pack_idx := 2,
                                cfg_tlvs_pt := tlvs_cfg\<rparr>))
              })
      | _ \<Rightarrow> Some None)"

definition fw_param_get_hnd_def ::
  "fw_par_hnd option \<Rightarrow> u8 list option \<Rightarrow> nat \<Rightarrow> fw_par_hnd option option" where
  "fw_param_get_hnd_def par_hnd buf_pt buf_size =
     fw_param_get_hnd par_hnd buf_pt buf_size fw_par_cfg_tlvs"

definition fw_param_add ::
  "fw_par_hnd option \<Rightarrow> fwParamId \<Rightarrow> u32 \<Rightarrow> (bool \<times> fw_par_hnd option) option" where
  "fw_param_add hnd_pt par_id val =
     (case hnd_pt of
        None \<Rightarrow> Some (False, None)
      | Some hnd \<Rightarrow>
          if eFW_PARAM_LIST_LEN \<le> unat par_id then Some (False, Some hnd)
          else do {
            tlv \<leftarrow> arr_get (cfg_tlvs_pt hnd) (unat par_id);
            let len = tlv_len tlv;
            if pack_buf_size hnd < pack_idx hnd + len + 1 \<or> 4 < len then Some (False, Some hnd)
            else do {
              m1 \<leftarrow> mem_write (pack_data_pt hnd) [ucast par_id] (pack_buf_pt hnd);
              m2 \<leftarrow> mem_write (pack_data_pt hnd + 1) (take len (le_bytes 4 (unat val))) m1;
              Some (True, Some (hnd\<lparr>pack_buf_pt := m2,
                                    pack_data_pt := pack_data_pt hnd + 1 + len,
                                    pack_idx := pack_idx hnd + 1 + len\<rparr>))
            }
          })"

text \<open>
  \<open>fw_param_get\<close> reads \<open>hnd->pack_data_pt\<close> before it compares \<open>hnd\<close> with NULL, so a NULL handle
  is a fault. Both callers pass storage for the id and the value.
\<close>

definition fw_param_get :: "fw_par_hnd option \<Rightarrow> ((u8 \<times> u32) option \<times> fw_par_hnd) option" where
  "fw_param_get hnd_pt =
     (case hnd_pt of
        None \<Rightarrow> None
      | Some hnd \<Rightarrow>
          let p = pack_data_pt hnd; i = pack_idx hnd; dlen = pack_data_to_decode_len hnd in
          if dlen < i + 1 then Some (None, hnd)
          else do {
            idb \<leftarrow> mem_read p 1 (pack_buf_pt hnd);
            let pid = hd idb;
            if eFW_PARAM_LIST_LEN \<le> unat pid then Some (None, hnd)
            else do {
              let len = tlv_len (fw_par_cfg_tlvs ! unat pid);
              if dlen < len \<or> dlen < i + 1 + len then Some (None, hnd)
              else do {
                bs \<leftarrow> mem_read (p + 1) len (pack_buf_pt hnd);
                Some (Some (pid, of_nat (le_val bs)),
                      hnd\<lparr>pack_data_pt := p + 1 + len, pack_idx := i + 1 + len\<rparr>)
              }
            }
          })"

lemma fw_param_get_progress:
  assumes "fw_param_get (Some h) = Some (Some r, h')"
  shows "pack_data_to_decode_len h' = pack_data_to_decode_len h"
    and "pack_idx h < pack_idx h'" and "pack_idx h' \<le> pack_data_to_decode_len h"
  using assms
  by (auto simp: fw_param_get_def Let_def bind_eq_Some_conv split: if_splits)

lemma fw_param_get_measure:
  assumes "fw_param_get (Some h) = Some (Some r, h')"
  shows "pack_data_to_decode_len h' - pack_idx h' < pack_data_to_decode_len h - pack_idx h"
  using fw_param_get_progress [OF assms] by simp

text \<open>The stack storage of the decoders; \<open>fw_param_get_hnd\<close> writes every field of it.\<close>

definition uninit_hnd :: fw_par_hnd where
  "uninit_hnd = \<lparr>pack_buf_pt = [], pack_buf_size = 0, pack_data_pt = 0, pack_data_max_len = 0,
     pack_data_to_decode_len = 0, pack_idx = 0, cfg_tlvs_pt = []\<rparr>"

text \<open>The loop of \<open>fw_param_get_all\<close>: store every entry until \<open>fw_param_get\<close> returns \<open>FB_FALSE\<close>.\<close>

function fw_param_get_all_loop :: "fw_par_hnd \<Rightarrow> fw_par_val list \<Rightarrow> fw_par_val list option" where
  "fw_param_get_all_loop hnd vals =
     (case fw_param_get (Some hnd) of
        None \<Rightarrow> None
      | Some (None, hnd') \<Rightarrow> Some vals
      | Some (Some (par_id, val), hnd') \<Rightarrow>
          (case arr_set vals (unat par_id) \<lparr>pv_val = val, pv_flag = True\<rparr> of
             None \<Rightarrow> None
           | Some vals' \<Rightarrow> fw_param_get_all_loop hnd' vals'))"
  by pat_completeness auto
termination
  by (relation "measure (\<lambda>(hnd, vals). pack_data_to_decode_len hnd - pack_idx hnd)")
     (auto dest: fw_param_get_measure)

declare fw_param_get_all_loop.simps [simp del]

definition fw_param_get_all ::
  "u8 list option \<Rightarrow> nat \<Rightarrow> fw_par_val list option \<Rightarrow> nat
     \<Rightarrow> (bool \<times> fw_par_val list option) option" where
  "fw_param_get_all buf len vals vals_len =
     (case (buf, vals) of
        (Some b, Some vs) \<Rightarrow>
          if len = 0 \<or> vals_len = 0 then Some (False, vals)
          else do {
            hnd_pt \<leftarrow> fw_param_get_hnd_def (Some uninit_hnd) buf len;
            (case hnd_pt of
               None \<Rightarrow> Some (False, vals)
             | Some hnd \<Rightarrow> do { vs' \<leftarrow> fw_param_get_all_loop hnd vs; Some (True, Some vs') })
          }
      | _ \<Rightarrow> Some (False, vals))"


text \<open>\<open>fw_par_get_by_id\<close>: a match is only taken when the caller gave storage for the value.\<close>

function fw_par_get_by_id_loop ::
  "fwParamId \<Rightarrow> bool \<Rightarrow> fw_par_hnd \<Rightarrow> u32 option option" where
  "fw_par_get_by_id_loop req_par_id has_out hnd =
     (case fw_param_get (Some hnd) of
        None \<Rightarrow> None
      | Some (None, hnd') \<Rightarrow> Some None
      | Some (Some (par_id, val), hnd') \<Rightarrow>
          if par_id = ucast req_par_id \<and> has_out then Some (Some val)
          else fw_par_get_by_id_loop req_par_id has_out hnd')"
  by pat_completeness auto
termination
  by (relation "measure (\<lambda>(_, _, hnd). pack_data_to_decode_len hnd - pack_idx hnd)")
     (auto dest: fw_param_get_measure)

declare fw_par_get_by_id_loop.simps [simp del]

text \<open>\<open>has_out\<close> says whether \<open>val_out\<close> is non-NULL; the value is \<open>Some\<close> when \<open>FB_TRUE\<close>.\<close>

definition fw_par_get_by_id ::
  "fwParamId \<Rightarrow> u8 list option \<Rightarrow> nat \<Rightarrow> bool \<Rightarrow> u32 option option" where
  "fw_par_get_by_id req_par_id buf len has_out =
     (if buf = None \<or> len = 0 then Some None
      else do {
        hnd_pt \<leftarrow> fw_param_get_hnd_def (Some uninit_hnd) buf len;
        (case hnd_pt of None \<Rightarrow> Some None
         | Some hnd \<Rightarrow> fw_par_get_by_id_loop req_par_id has_out hnd)
      })"

definition fw_param_get_pack_pt :: "fw_par_hnd option \<Rightarrow> u8 list option" where
  "fw_param_get_pack_pt hnd_pt = map_option pack_buf_pt hnd_pt"

text \<open>Returns the pack pointer, the value for \<open>*len\<close> and the handle.\<close>

definition fw_param_get_pack ::
  "fw_par_hnd option \<Rightarrow> ((u8 list \<times> nat) option \<times> fw_par_hnd option) option" where
  "fw_param_get_pack hnd_pt =
     (case hnd_pt of
        None \<Rightarrow> Some (None, None)
      | Some hnd \<Rightarrow>
          if pack_buf_size hnd < pack_idx hnd then Some (None, Some hnd)
          else do {
            m \<leftarrow> mem_write 0 (le_bytes 2 (pack_idx hnd)) (pack_buf_pt hnd);
            let idx = ((pack_idx hnd + (4 - 1)) div 4) * 4;
            let hnd' = hnd\<lparr>pack_buf_pt := m, pack_idx := idx\<rparr>;
            Some (Some (m, idx), Some hnd')
          })"

definition fw_param_get_pack_len ::
  "fw_par_hnd option \<Rightarrow> (nat \<times> fw_par_hnd option) option" where
  "fw_param_get_pack_len hnd_pt =
     (case hnd_pt of
        None \<Rightarrow> Some (0, None)
      | Some hnd \<Rightarrow> do {
          (r, hnd') \<leftarrow> fw_param_get_pack (Some hnd);
          Some (case r of None \<Rightarrow> 0 | Some (_, data_len) \<Rightarrow> data_len, hnd')
        })"

definition fw_param_free_hnd :: "fw_par_hnd option \<Rightarrow> bool" where
  "fw_param_free_hnd hnd_pt = (hnd_pt \<noteq> None)"

section \<open>The parameter table\<close>

lemma cfg_lens_value:
  "map snd FW_PARAM_CONFIGURE_ALL =
    [4, 1, 2, 1, 1, 2, 2, 4, 4, 4, 1, 2, 1, 2, 1, 2, 1, 2, 2, 2, 2, 2, 2, 2, 2, 2, 2, 2, 2,
     2, 2, 2, 1, 1, 1, 1, 2, 2, 2, 2, 2, 1, 2, 2, 2, 2, 2, 2, 2, 1, 1, 1, 1, 2, 1, 4, 4, 4,
     4, 1, 2, 1, 2, 1, 1, 1, 1, 2, 2, 2, 4, 1, 1, 2, 1, 1, 1, 1, 2, 2, 2, 1, 1, 1, 1, 1, 1,
     1, 4, 1, 1, 1, 4, 2, 1, 1, 1, 1, 1, 1, 1, 1, 2, 1, 4, 4, 4, 4, 1, 1, 1, 2, 1, 1, 4, 4,
     1, 1]"
  by (simp only: FW_PARAM_CONFIGURE_ALL_def list.map snd_conv)

lemma cfg_tlv_lens: "map tlv_len fw_par_cfg_tlvs = map snd FW_PARAM_CONFIGURE_ALL"
  by (simp add: fw_par_cfg_tlvs_def case_prod_unfold comp_def)

lemma LIST_LEN_value [simp]: "eFW_PARAM_LIST_LEN = 118"
  by (simp only: eFW_PARAM_LIST_LEN_def FW_PARAM_CONFIGURE_ALL_def list.size)

lemma length_cfg_tlvs [simp]: "length fw_par_cfg_tlvs = 118"
  by (simp add: fw_par_cfg_tlvs_def flip: eFW_PARAM_LIST_LEN_def)

lemma cfg_lens_all: "\<forall>l \<in> set (map tlv_len fw_par_cfg_tlvs). l \<in> {1, 2, 4}"
  by (simp add: cfg_tlv_lens cfg_lens_value)

lemma cfg_len_cases:
  assumes "i < 118"
  shows "tlv_len (fw_par_cfg_tlvs ! i) \<in> {1, 2, 4}"
  using assms cfg_lens_all nth_mem [of i fw_par_cfg_tlvs] by simp

lemma cfg_len_le4: "i < 118 \<Longrightarrow> tlv_len (fw_par_cfg_tlvs ! i) \<le> 4"
  using cfg_len_cases [of i] by auto

section \<open>Packs as parameter lists\<close>

text \<open>
  What a pack stands for: the list of its parameters. \<open>param_entry\<close> is the byte image of one of
  them, \<open>store_params\<close> what decoding a list into a value array means.
\<close>

definition param_len :: "fwParamId \<Rightarrow> nat" where
  "param_len par_id = tlv_len (fw_par_cfg_tlvs ! unat par_id)"

definition param_ok :: "fwParamId \<times> u32 \<Rightarrow> bool" where
  "param_ok p = (unat (fst p) < eFW_PARAM_LIST_LEN \<and> unat (snd p) < 256 ^ param_len (fst p))"

definition param_entry :: "fwParamId \<times> u32 \<Rightarrow> u8 list" where
  "param_entry p = ucast (fst p) # le_bytes (param_len (fst p)) (unat (snd p))"

definition store_params :: "(fwParamId \<times> u32) list \<Rightarrow> fw_par_val list \<Rightarrow> fw_par_val list" where
  "store_params ps vals =
     fold (\<lambda>(par_id, v) vs. vs[unat par_id := \<lparr>pv_val = v, pv_flag = True\<rparr>]) ps vals"

text \<open>Adding a list of parameters, all of them accepted.\<close>

fun add_params :: "fw_par_hnd option \<Rightarrow> (fwParamId \<times> u32) list \<Rightarrow> fw_par_hnd option option" where
  "add_params hnd [] = Some hnd"
| "add_params hnd (p # ps) =
     (case fw_param_add hnd (fst p) (snd p) of
        Some (True, hnd') \<Rightarrow> add_params hnd' ps
      | _ \<Rightarrow> None)"

text \<open>The encoder's invariant: data pointer and index agree and lie inside the buffer.\<close>

definition enc_wf :: "fw_par_hnd \<Rightarrow> bool" where
  "enc_wf h \<longleftrightarrow> cfg_tlvs_pt h = fw_par_cfg_tlvs \<and> pack_data_pt h = pack_idx h \<and> 2 \<le> pack_idx h
     \<and> pack_idx h \<le> pack_buf_size h \<and> pack_buf_size h \<le> length (pack_buf_pt h)
     \<and> pack_buf_size h \<le> FW_PAR_PACK_MAX_SIZE"

lemma length_param_entry [simp]: "length (param_entry p) = 1 + param_len (fst p)"
  by (simp add: param_entry_def)

lemma unat_ucast_id: "unat (par_id :: u32) < 256 \<Longrightarrow> unat (ucast par_id :: u8) = unat par_id"
  by (simp add: unsigned_ucast_eq take_bit_eq_mod)

lemma fw_param_get_hnd_enc_wf:
  assumes "fw_param_get_hnd_def par_hnd (Some buf) n = Some (Some h)" and "2 \<le> n" and "n \<le> length buf"
  shows "enc_wf h" "pack_buf_pt h = buf" "pack_idx h = 2" "pack_buf_size h = min n 512"
  using assms
  by (auto simp: fw_param_get_hnd_def_def fw_param_get_hnd_def enc_wf_def FW_PAR_PACK_MAX_SIZE_def
      Let_def bind_eq_Some_conv split: option.splits if_splits)

lemma fw_param_add_enc:
  assumes wf: "enc_wf h" and id: "unat par_id < 118"
    and fits: "pack_idx h + param_len par_id + 1 \<le> pack_buf_size h"
  shows "\<exists>m. fw_param_add (Some h) par_id v =
           Some (True, Some (h\<lparr>pack_buf_pt := m,
                               pack_data_pt := pack_data_pt h + 1 + param_len par_id,
                               pack_idx := pack_idx h + 1 + param_len par_id\<rparr>))
         \<and> length m = length (pack_buf_pt h)
         \<and> take (pack_idx h + 1 + param_len par_id) m
             = take (pack_idx h) (pack_buf_pt h) @ param_entry (par_id, v)"
proof -
  let ?l = "param_len par_id" and ?b = "pack_buf_pt h" and ?i = "pack_idx h"
  have l4: "?l \<le> 4" using cfg_len_le4 [OF id] by (simp add: param_len_def)
  have len: "?i + ?l + 1 \<le> length ?b" using wf fits by (simp add: enc_wf_def)
  obtain m1 where w1: "mem_write ?i [ucast par_id] ?b = Some m1"
    using len mem_write_defined [of ?i "[ucast par_id]" ?b] by auto
  then have m1: "length m1 = length ?b" "take (?i + 1) m1 = take ?i ?b @ [ucast par_id]"
    using len by (auto simp: mem_simps)
  obtain m2 where w2: "mem_write (?i + 1) (le_bytes ?l (unat v)) m1 = Some m2"
    using len m1 mem_write_defined [of "?i + 1" "le_bytes ?l (unat v)" m1] by auto
  have get: "arr_get (cfg_tlvs_pt h) (unat par_id) = Some (fw_par_cfg_tlvs ! unat par_id)"
    using wf id by (simp add: arr_get_def enc_wf_def)
  have p: "pack_data_pt h = ?i" using wf by (simp add: enc_wf_def)
  have add: "fw_param_add (Some h) par_id v =
      Some (True, Some (h\<lparr>pack_buf_pt := m2, pack_data_pt := pack_data_pt h + 1 + ?l,
                          pack_idx := ?i + 1 + ?l\<rparr>))"
    using id fits l4 w1 w2 get
    by (simp add: fw_param_add_def Let_def p take_le_bytes flip: param_len_def)
  have "length m2 = length ?b" using w2 m1(1) by (simp add: mem_write_length)
  moreover have "take (?i + 1 + ?l) m2 = take ?i ?b @ param_entry (par_id, v)"
    using w2 m1 len by (simp add: mem_simps param_entry_def)
  ultimately show ?thesis using add by blast
qed

lemma fw_param_add_full:
  assumes wf: "enc_wf h" and "118 \<le> unat par_id \<or> pack_buf_size h < pack_idx h + param_len par_id + 1"
  shows "fw_param_add (Some h) par_id v = Some (False, Some h)"
  using assms by (auto simp: fw_param_add_def arr_get_def enc_wf_def param_len_def)

lemma enc_wf_add [step_inv]:
  assumes "enc_wf h"
  shows "\<exists>ok h'. fw_param_add (Some h) par_id v = Some (ok, Some h') \<and> enc_wf h'
           \<and> length (pack_buf_pt h') = length (pack_buf_pt h)"
proof (cases "unat par_id < 118 \<and> pack_idx h + param_len par_id + 1 \<le> pack_buf_size h")
  case True
  with fw_param_add_enc [OF assms, of par_id v] assms show ?thesis
    by (auto simp: enc_wf_def)
next
  case False
  with fw_param_add_full [OF assms, of par_id v] assms show ?thesis by auto
qed

lemma fw_param_add_True:
  assumes wf: "enc_wf h" and add: "fw_param_add (Some h) par_id v = Some (True, h2)"
  shows "\<exists>h'. h2 = Some h' \<and> enc_wf h' \<and> pack_buf_size h' = pack_buf_size h
           \<and> unat par_id < 118
           \<and> length (pack_buf_pt h') = length (pack_buf_pt h)
           \<and> take (pack_idx h') (pack_buf_pt h')
               = take (pack_idx h) (pack_buf_pt h) @ param_entry (par_id, v)"
proof -
  have c: "unat par_id < 118 \<and> pack_idx h + param_len par_id + 1 \<le> pack_buf_size h"
    using add fw_param_add_full [OF wf, of par_id v] by force
  then show ?thesis
    using add wf fw_param_add_enc [OF wf, of par_id v] by (auto simp: enc_wf_def)
qed

text \<open>After adding \<open>ps\<close>, the used part of the buffer is what it was followed by their entries.\<close>

lemma add_params_enc:
  assumes "enc_wf h" and "add_params (Some h) ps = Some hr"
  shows "\<exists>h'. hr = Some h' \<and> enc_wf h' \<and> length (pack_buf_pt h') = length (pack_buf_pt h)
           \<and> (\<forall>p \<in> set ps. unat (fst p) < 118)
           \<and> take (pack_idx h') (pack_buf_pt h')
               = take (pack_idx h) (pack_buf_pt h) @ concat (map param_entry ps)"
  using assms
proof (induction ps arbitrary: h)
  case (Cons p ps)
  obtain h2 where add: "fw_param_add (Some h) (fst p) (snd p) = Some (True, h2)"
    and rest: "add_params h2 ps = Some hr"
    using Cons.prems(2) by (auto split: option.splits bool.splits prod.splits)
  from fw_param_add_True [OF Cons.prems(1) add] obtain h1
    where h1: "h2 = Some h1" "enc_wf h1" "unat (fst p) < 118"
      "length (pack_buf_pt h1) = length (pack_buf_pt h)"
      "take (pack_idx h1) (pack_buf_pt h1) = take (pack_idx h) (pack_buf_pt h) @ param_entry p"
    by auto
  from Cons.IH [OF h1(2)] rest h1(1) obtain h'
    where "hr = Some h'" "enc_wf h'" "length (pack_buf_pt h') = length (pack_buf_pt h1)"
      "\<forall>p \<in> set ps. unat (fst p) < 118"
      "take (pack_idx h') (pack_buf_pt h')
        = take (pack_idx h1) (pack_buf_pt h1) @ concat (map param_entry ps)" by auto
  with h1 show ?case by auto
qed auto

section \<open>Decoding\<close>

text \<open>The decoder's view: the bytes still to decode, all of them inside the buffer.\<close>

definition dec_bytes :: "fw_par_hnd \<Rightarrow> u8 list" where
  "dec_bytes h = take (pack_data_to_decode_len h - pack_idx h) (drop (pack_data_pt h) (pack_buf_pt h))"

definition dec_wf :: "fw_par_hnd \<Rightarrow> bool" where
  "dec_wf h \<longleftrightarrow> pack_data_pt h = pack_idx h \<and> pack_data_to_decode_len h \<le> length (pack_buf_pt h)"

lemma fw_param_get_dec_wf:
  assumes "dec_wf h"
  shows "\<exists>r h'. fw_param_get (Some h) = Some (r, h') \<and> dec_wf h'
           \<and> (\<forall>pid v. r = Some (pid, v) \<longrightarrow> unat pid < 118)"
  using assms
  by (auto simp: fw_param_get_def dec_wf_def Let_def mem_read_def)

lemma dec_bytes_Nil: "dec_wf h \<Longrightarrow> dec_bytes h = [] \<Longrightarrow> fw_param_get (Some h) = Some (None, h)"
  by (auto simp: fw_param_get_def dec_bytes_def dec_wf_def Let_def)

lemma fw_param_get_entry:
  assumes wf: "dec_wf h" and ok: "param_ok p" and bytes: "dec_bytes h = param_entry p @ rest"
  shows "\<exists>h'. fw_param_get (Some h) = Some (Some (ucast (fst p), snd p), h') \<and> dec_wf h'
           \<and> dec_bytes h' = rest"
proof -
  let ?i = "pack_idx h" and ?d = "pack_data_to_decode_len h" and ?b = "pack_buf_pt h"
    and ?l = "param_len (fst p)"
  have p: "pack_data_pt h = ?i" and d: "?d \<le> length ?b" using wf by (auto simp: dec_wf_def)
  have id: "unat (fst p) < 118" and v: "unat (snd p) < 256 ^ ?l" using ok by (auto simp: param_ok_def)
  have uid: "unat (ucast (fst p) :: u8) = unat (fst p)" using id by (simp add: unat_ucast_id)
  have "length (dec_bytes h) = ?d - ?i" using d by (simp add: dec_bytes_def p)
  then have len: "?i + 1 + ?l + length rest = ?d" using bytes by simp
  have db: "take (?d - ?i) (drop ?i ?b) = ucast (fst p) # le_bytes ?l (unat (snd p)) @ rest"
    using bytes by (simp add: dec_bytes_def p param_entry_def)
  have r1: "mem_read ?i 1 ?b = Some [ucast (fst p)]"
  proof -
    have "take 1 (take (?d - ?i) (drop ?i ?b)) = [ucast (fst p)]" by (simp add: db)
    moreover have "1 \<le> ?d - ?i" using len by simp
    ultimately show ?thesis using d len by (simp add: mem_simps min_def)
  qed
  have tail: "take (?d - ?i - 1) (drop (?i + 1) ?b) = le_bytes ?l (unat (snd p)) @ rest"
  proof -
    have "drop 1 (take (?d - ?i) (drop ?i ?b)) = le_bytes ?l (unat (snd p)) @ rest" by (simp add: db)
    then show ?thesis by (simp add: drop_take)
  qed
  have r2: "mem_read (?i + 1) ?l ?b = Some (le_bytes ?l (unat (snd p)))"
  proof -
    have "take ?l (take (?d - ?i - 1) (drop (?i + 1) ?b)) = le_bytes ?l (unat (snd p))"
      by (simp only: tail) simp
    moreover have "min ?l (?d - ?i - 1) = ?l" using len by simp
    ultimately show ?thesis using d len by (simp add: mem_simps)
  qed
  have val: "of_nat (le_val (le_bytes ?l (unat (snd p)))) = snd p"
    using v by (simp add: le_val_le_bytes)
  let ?h' = "h\<lparr>pack_data_pt := ?i + 1 + ?l, pack_idx := ?i + 1 + ?l\<rparr>"
  have "fw_param_get (Some h) = Some (Some (ucast (fst p), snd p), ?h')"
    using r1 r2 len id uid val
    by (simp add: fw_param_get_def Let_def p flip: param_len_def)
  moreover have "dec_bytes ?h' = rest"
  proof -
    have "drop ?l (take (?d - ?i - 1) (drop (?i + 1) ?b)) = rest" by (simp only: tail) simp
    then show ?thesis by (simp add: dec_bytes_def drop_take add.commute add.left_commute)
  qed
  ultimately show ?thesis using wf by (auto simp: dec_wf_def)
qed

lemma fw_param_get_all_loop_params:
  assumes "dec_wf h" and "\<forall>p \<in> set ps. param_ok p" and "dec_bytes h = concat (map param_entry ps)"
    and "118 \<le> length vals"
  shows "fw_param_get_all_loop h vals = Some (store_params ps vals)"
  using assms
proof (induction ps arbitrary: h vals)
  case Nil
  then show ?case
    by (simp add: fw_param_get_all_loop.simps [of h vals] dec_bytes_Nil store_params_def)
next
  case (Cons p ps)
  have ok: "param_ok p" using Cons.prems(2) by simp
  then have id: "unat (fst p) < 118" by (simp add: param_ok_def)
  have uid: "unat (ucast (fst p) :: u8) = unat (fst p)" using id by (simp add: unat_ucast_id)
  from fw_param_get_entry [OF Cons.prems(1) ok, of "concat (map param_entry ps)"] Cons.prems(3)
  obtain h' where get: "fw_param_get (Some h) = Some (Some (ucast (fst p), snd p), h')"
    and h': "dec_wf h'" "dec_bytes h' = concat (map param_entry ps)" by auto
  let ?vals = "vals[unat (fst p) := \<lparr>pv_val = snd p, pv_flag = True\<rparr>]"
  have "fw_param_get_all_loop h vals = fw_param_get_all_loop h' ?vals"
    using Cons.prems(4) id
    by (simp add: fw_param_get_all_loop.simps [of h vals] get uid arr_set_def)
  also have "\<dots> = Some (store_params ps ?vals)"
    using Cons.IH [OF h'(1) _ h'(2), of ?vals] Cons.prems(2,4) by simp
  also have "store_params ps ?vals = store_params (p # ps) vals"
    by (simp add: store_params_def case_prod_unfold)
  finally show ?case .
qed

lemma fw_par_get_by_id_loop_params:
  assumes "dec_wf h" and "\<forall>p \<in> set ps. param_ok p" and "dec_bytes h = concat (map param_entry ps)"
    and "unat req < 118"
  shows "fw_par_get_by_id_loop req True h = Some (map_option snd (find (\<lambda>p. fst p = req) ps))"
  using assms
proof (induction ps arbitrary: h)
  case Nil
  then show ?case by (simp add: fw_par_get_by_id_loop.simps [of req True h] dec_bytes_Nil)
next
  case (Cons p ps)
  have ok: "param_ok p" using Cons.prems(2) by simp
  have "unat (fst p) < 118" using ok by (simp add: param_ok_def)
  then have ids: "unat (ucast (fst p) :: u8) = unat (fst p)" "unat (ucast req :: u8) = unat req"
    using Cons.prems(4) by (simp_all add: unat_ucast_id)
  have same: "(ucast (fst p) :: u8) = ucast req \<longleftrightarrow> fst p = req"
    by (simp only: word_unat_eq_iff ids)
  from fw_param_get_entry [OF Cons.prems(1) ok, of "concat (map param_entry ps)"] Cons.prems(3)
  obtain h' where get: "fw_param_get (Some h) = Some (Some (ucast (fst p), snd p), h')"
    and h': "dec_wf h'" "dec_bytes h' = concat (map param_entry ps)" by auto
  have "fw_par_get_by_id_loop req True h' = Some (map_option snd (find (\<lambda>p. fst p = req) ps))"
    using Cons.IH [OF h'(1) _ h'(2)] Cons.prems(2,4) by simp
  then show ?case
    by (simp add: fw_par_get_by_id_loop.simps [of req True h] get same)
qed

lemma fw_param_get_all_loop_safe:
  assumes "dec_wf h" and "118 \<le> length vals"
  shows "\<exists>vals'. fw_param_get_all_loop h vals = Some vals' \<and> length vals' = length vals"
  using assms
proof (induction h vals rule: fw_param_get_all_loop.induct)
  case (1 h vals)
  from fw_param_get_dec_wf [OF "1.prems"(1)] obtain r h'
    where get: "fw_param_get (Some h) = Some (r, h')" and wf: "dec_wf h'"
      and id: "\<forall>pid v. r = Some (pid, v) \<longrightarrow> unat pid < 118" by blast
  show ?case
  proof (cases r)
    case None
    then show ?thesis by (simp add: fw_param_get_all_loop.simps [of h vals] get)
  next
    case (Some pv)
    obtain pid v where pv: "pv = (pid, v)" by (cases pv)
    let ?vals = "vals[unat pid := \<lparr>pv_val = v, pv_flag = True\<rparr>]"
    have set: "arr_set vals (unat pid) \<lparr>pv_val = v, pv_flag = True\<rparr> = Some ?vals"
      using id "1.prems"(2) Some pv by (auto simp: arr_set_def)
    have "\<exists>vals'. fw_param_get_all_loop h' ?vals = Some vals' \<and> length vals' = length ?vals"
      using "1.IH" [OF get _ _ _ set] Some pv wf "1.prems"(2) by simp
    then show ?thesis using get set Some pv by (simp add: fw_param_get_all_loop.simps [of h vals])
  qed
qed

lemma fw_param_get_hnd_dec:
  assumes "0 < len" and "2 \<le> length buf"
  shows "\<exists>h. fw_param_get_hnd_def (Some h0) (Some buf) len = Some (Some h)
           \<and> pack_buf_pt h = buf \<and> pack_data_pt h = 2 \<and> pack_idx h = 2
           \<and> pack_data_to_decode_len h = le_val (take 2 buf)"
  using assms
  by (auto simp: fw_param_get_hnd_def_def fw_param_get_hnd_def FW_PAR_PACK_MAX_SIZE_def Let_def
      mem_read_def mod_if)

text \<open>Closing the pack of an encoder handle: what the decoder sees is what was added.\<close>

lemma pack_decodes:
  assumes hnd: "fw_param_get_hnd_def (Some h0) (Some buf) (length buf) = Some (Some h)"
    and len: "2 \<le> length buf"
    and add: "add_params (Some h) ps = Some h1"
    and pack: "fw_param_get_pack h1 = Some (Some (pack, plen), h2)"
  shows "2 \<le> plen \<and> (\<forall>p \<in> set ps. unat (fst p) < 118) \<and>
         (\<exists>hd. fw_param_get_hnd_def (Some uninit_hnd) (Some pack) plen = Some (Some hd)
           \<and> dec_wf hd \<and> dec_bytes hd = concat (map param_entry ps))"
proof -
  note enc = fw_param_get_hnd_enc_wf [OF hnd len order_refl]
  from add_params_enc [OF enc(1) add] enc obtain he
    where he: "h1 = Some he" "enc_wf he" "length (pack_buf_pt he) = length buf"
      "\<forall>p \<in> set ps. unat (fst p) < 118"
      "take (pack_idx he) (pack_buf_pt he) = take 2 buf @ concat (map param_entry ps)" by auto
  let ?i = "pack_idx he"
  have bounds: "2 \<le> ?i" "?i \<le> 512" "?i \<le> length buf" "\<not> pack_buf_size he < ?i"
    using he by (auto simp: enc_wf_def FW_PAR_PACK_MAX_SIZE_def)
  have p: "pack = le_bytes 2 ?i @ drop 2 (pack_buf_pt he)" "plen = ((?i + 3) div 4) * 4"
    using pack he(1,3) bounds len
    by (auto simp: fw_param_get_pack_def mem_write_def Let_def numeral_2_eq_2 split: if_splits)
  have plen: "2 \<le> plen" using bounds p(2) by simp
  have body: "take (?i - 2) (drop 2 pack) = concat (map param_entry ps)"
  proof -
    have "drop 2 (take ?i (pack_buf_pt he)) = concat (map param_entry ps)"
      using he(5) len by simp
    then show ?thesis by (simp add: p(1) drop_take)
  qed
  have hdr: "take 2 pack = le_bytes 2 ?i" and "length pack = length buf"
    using p(1) he(3) len by auto
  have val: "le_val (take 2 pack) = ?i" using bounds(2) by (simp add: hdr le_val_le_bytes)
  from fw_param_get_hnd_dec [of plen pack uninit_hnd] plen len \<open>length pack = length buf\<close>
  obtain hd where hd: "fw_param_get_hnd_def (Some uninit_hnd) (Some pack) plen = Some (Some hd)"
    "pack_buf_pt hd = pack" "pack_data_pt hd = 2" "pack_idx hd = 2"
    "pack_data_to_decode_len hd = ?i" using val by auto
  then have "dec_wf hd" "dec_bytes hd = concat (map param_entry ps)"
    using bounds body \<open>length pack = length buf\<close> by (auto simp: dec_wf_def dec_bytes_def)
  with hd he(4) plen show ?thesis by blast
qed

lemma tlv_len_nth: "i < 118 \<Longrightarrow> tlv_len (fw_par_cfg_tlvs ! i) = map snd FW_PARAM_CONFIGURE_ALL ! i"
  by (simp flip: cfg_tlv_lens)

lemma params_ok_cfg_len:
  "\<forall>p \<in> set ps. unat (fst p) < 118 \<Longrightarrow>
   \<forall>p \<in> set ps. unat (snd p) < 256 ^ fw_param_cfg_get_len (fst p) \<Longrightarrow> \<forall>p \<in> set ps. param_ok p"
  by (fastforce simp: param_ok_def param_len_def fw_param_cfg_get_len_def split: if_splits)

section \<open>Properties\<close>

text \<open>C6. Round trip: initialise a handle on a buffer, add any list of parameters (each accepted,
  each value fitting the bytes the table gives it), close the pack; then decoding the pack with
  \<open>fw_param_get_all\<close> stores exactly those parameters, in order, and returns \<open>FB_TRUE\<close>.
\<close>

theorem fw_param_pack_roundtrip:
  assumes "fw_param_get_hnd_def (Some h0) (Some buf) (length buf) = Some (Some h)"
    and "2 \<le> length buf"
    and "add_params (Some h) ps = Some h1"
    and "fw_param_get_pack h1 = Some (Some (pack, len), h2)"
    and "\<forall>p \<in> set ps. unat (snd p) < 256 ^ fw_param_cfg_get_len (fst p)"
    and "eFW_PARAM_LIST_LEN \<le> length vals"
  shows "fw_param_get_all (Some pack) len (Some vals) (length vals)
           = Some (True, Some (store_params ps vals))"
proof -
  from pack_decodes [OF assms(1-4)] obtain hd
    where hd: "fw_param_get_hnd_def (Some uninit_hnd) (Some pack) len = Some (Some hd)"
      "dec_wf hd" "dec_bytes hd = concat (map param_entry ps)"
      and l: "2 \<le> len" and ids: "\<forall>p \<in> set ps. unat (fst p) < 118" by blast
  have "fw_param_get_all_loop hd vals = Some (store_params ps vals)"
    using fw_param_get_all_loop_params [OF hd(2) params_ok_cfg_len [OF ids assms(5)] hd(3)] assms(6)
    by simp
  then show ?thesis using hd(1) l assms(6) by (auto simp: fw_param_get_all_def)
qed

lemma cfg_len_0_1 [simp]:
  "tlv_len (fw_par_cfg_tlvs ! 0) = 4" "tlv_len (fw_par_cfg_tlvs ! Suc 0) = 1"
  by (simp_all add: tlv_len_nth cfg_lens_value)

definition example_vals :: "fw_par_val list" where
  "example_vals = replicate 118 \<lparr>pv_val = 0, pv_flag = False\<rparr>"

definition example_params :: "(fwParamId \<times> u32) list" where
  "example_params = [(0, 0x01020304), (1, 9), (0, 7)]"

lemma example_cfg_get: "arr_get fw_par_cfg_tlvs 0 = Some (fw_par_cfg_tlvs ! 0)"
  "arr_get fw_par_cfg_tlvs (Suc 0) = Some (fw_par_cfg_tlvs ! Suc 0)"
  by (simp_all add: arr_get_def)

lemma example_pack:
  "\<exists>h h1 h2 pack len.
     fw_param_get_hnd_def (Some uninit_hnd) (Some (replicate 16 0)) (length (replicate 16 (0 :: u8)))
       = Some (Some h)
     \<and> add_params (Some h) example_params = Some h1
     \<and> fw_param_get_pack h1 = Some (Some (pack, len), h2)"
proof -
  let ?b = "replicate 16 0 :: u8 list"
  let ?h = "uninit_hnd\<lparr>pack_buf_size := 16, pack_buf_pt := ?b, pack_data_pt := 2,
     pack_data_max_len := 14, pack_data_to_decode_len := 0, pack_idx := 2,
     cfg_tlvs_pt := fw_par_cfg_tlvs\<rparr>"
  have "le_val (replicate 2 0) = 0" by (simp add: numeral_2_eq_2)
  then have h: "fw_param_get_hnd_def (Some uninit_hnd) (Some ?b) (length ?b) = Some (Some ?h)"
    by (simp add: fw_param_get_hnd_def_def fw_param_get_hnd_def mem_read_def
        FW_PAR_PACK_MAX_SIZE_def uninit_hnd_def)
  obtain h1 where add: "add_params (Some ?h) example_params = Some (Some h1)"
    "pack_idx h1 = 14" "pack_buf_size h1 = 16" "length (pack_buf_pt h1) = 16"
    by (simp add: example_params_def fw_param_add_def example_cfg_get mem_write_def Let_def)
  obtain pack len h2 where "fw_param_get_pack (Some h1) = Some (Some (pack, len), h2)"
    using add by (simp add: fw_param_get_pack_def mem_write_def Let_def)
  with h add(1) show ?thesis by blast
qed

lemma example_params_fit:
  "\<forall>p \<in> set example_params. unat (snd p) < 256 ^ fw_param_cfg_get_len (fst p)"
  by (simp add: example_params_def fw_param_cfg_get_len_def)

theorem fw_param_pack_roundtrip_witness:
  "\<exists>pack len. fw_param_get_all (Some pack) len (Some example_vals) (length example_vals)
                = Some (True, Some (store_params example_params example_vals))"
proof -
  from example_pack obtain h h1 h2 pack len
    where *: "fw_param_get_hnd_def (Some uninit_hnd) (Some (replicate 16 0))
                (length (replicate 16 (0 :: u8))) = Some (Some h)"
      "add_params (Some h) example_params = Some h1"
      "fw_param_get_pack h1 = Some (Some (pack, len), h2)" by blast
  from fw_param_pack_roundtrip [OF *(1) _ *(2,3) example_params_fit, of example_vals]
  show ?thesis by (auto simp: example_vals_def)
qed

text \<open>The encoder is memory safe and total: on a well-formed handle \<open>fw_param_add\<close> never leaves
  the buffer; it accepts a parameter exactly when the id is known and the entry fits, appending
  its bytes; otherwise it returns \<open>FB_FALSE\<close> and leaves the handle as it was.
\<close>

theorem fw_param_add_correct:
  assumes "enc_wf h"
  shows "\<exists>h'. enc_wf h' \<and>
    fw_param_add (Some h) par_id v =
      Some (unat par_id < eFW_PARAM_LIST_LEN
              \<and> pack_idx h + 1 + fw_param_cfg_get_len par_id \<le> pack_buf_size h, Some h') \<and>
    (if unat par_id < eFW_PARAM_LIST_LEN
          \<and> pack_idx h + 1 + fw_param_cfg_get_len par_id \<le> pack_buf_size h
     then take (pack_idx h') (pack_buf_pt h')
            = take (pack_idx h) (pack_buf_pt h) @ param_entry (par_id, v)
     else h' = h)"
proof (cases "unat par_id < 118 \<and> pack_idx h + param_len par_id + 1 \<le> pack_buf_size h")
  case True
  then have "fw_param_cfg_get_len par_id = param_len par_id"
    by (simp add: fw_param_cfg_get_len_def param_len_def)
  with True fw_param_add_enc [OF assms, of par_id v] assms show ?thesis
    by (auto simp: enc_wf_def add.commute)
next
  case False
  then have "\<not> (unat par_id < 118 \<and> pack_idx h + 1 + fw_param_cfg_get_len par_id \<le> pack_buf_size h)"
    by (auto simp: fw_param_cfg_get_len_def param_len_def)
  with False fw_param_add_full [OF assms, of par_id v] assms show ?thesis by auto
qed

theorem fw_param_add_correct_witness:
  "\<exists>h h'. enc_wf h \<and> fw_param_add (Some h) 0 7 = Some (True, Some h') \<and> enc_wf h'"
proof -
  let ?h = "\<lparr>pack_buf_pt = replicate 8 0, pack_buf_size = 8, pack_data_pt = 2,
     pack_data_max_len = 6, pack_data_to_decode_len = 0, pack_idx = 2,
     cfg_tlvs_pt = fw_par_cfg_tlvs\<rparr>"
  have "enc_wf ?h" by (simp add: enc_wf_def FW_PAR_PACK_MAX_SIZE_def)
  with fw_param_add_correct [OF this, of 0 7] show ?thesis
    by (auto simp: fw_param_cfg_get_len_def)
qed

text \<open>The decoder terminates and is memory safe on any pack whose stored length is not larger
  than the buffer it is in, whatever the entries are, when the value array has a slot for every
  parameter id.
\<close>

theorem fw_param_get_all_safe:
  assumes "2 \<le> length buf" and "le_val (take 2 buf) \<le> length buf" and "0 < len"
    and "eFW_PARAM_LIST_LEN \<le> length vals"
  shows "\<exists>vals'. fw_param_get_all (Some buf) len (Some vals) (length vals) = Some (True, Some vals')
           \<and> length vals' = length vals"
proof -
  from fw_param_get_hnd_dec [OF assms(3,1), of uninit_hnd] obtain h
    where h: "fw_param_get_hnd_def (Some uninit_hnd) (Some buf) len = Some (Some h)"
      and wf: "dec_wf h" using assms(2) by (auto simp: dec_wf_def)
  from fw_param_get_all_loop_safe [OF wf, of vals] assms(4) show ?thesis
    using h assms(3,4) by (auto simp: fw_param_get_all_def)
qed

theorem fw_param_get_all_safe_witness:
  "\<exists>vals'. fw_param_get_all (Some [5, 0, 0xff, 1, 2]) 5 (Some example_vals) (length example_vals)
             = Some (True, Some vals') \<and> length vals' = 118"
  using fw_param_get_all_safe [of "[5, 0, 0xff, 1, 2]" 5 example_vals]
  by (simp add: example_vals_def)

text \<open>Lookup by id in an encoded pack returns the first parameter with that id, and nothing when
  the pack has none.
\<close>

theorem fw_par_get_by_id_first:
  assumes "fw_param_get_hnd_def (Some h0) (Some buf) (length buf) = Some (Some h)"
    and "2 \<le> length buf"
    and "add_params (Some h) ps = Some h1"
    and "fw_param_get_pack h1 = Some (Some (pack, len), h2)"
    and "\<forall>p \<in> set ps. unat (snd p) < 256 ^ fw_param_cfg_get_len (fst p)"
    and "unat req < eFW_PARAM_LIST_LEN"
  shows "fw_par_get_by_id req (Some pack) len True
           = Some (map_option snd (find (\<lambda>p. fst p = req) ps))"
proof -
  from pack_decodes [OF assms(1-4)] obtain hd
    where hd: "fw_param_get_hnd_def (Some uninit_hnd) (Some pack) len = Some (Some hd)"
      "dec_wf hd" "dec_bytes hd = concat (map param_entry ps)"
      and l: "2 \<le> len" and ids: "\<forall>p \<in> set ps. unat (fst p) < 118" by blast
  have "fw_par_get_by_id_loop req True hd = Some (map_option snd (find (\<lambda>p. fst p = req) ps))"
    using fw_par_get_by_id_loop_params [OF hd(2) params_ok_cfg_len [OF ids assms(5)] hd(3)] assms(6)
    by simp
  then show ?thesis using hd(1) l by (auto simp: fw_par_get_by_id_def)
qed

theorem fw_par_get_by_id_first_witness:
  "\<exists>pack len. fw_par_get_by_id 0 (Some pack) len True = Some (Some 0x01020304)"
proof -
  from example_pack obtain h h1 h2 pack len
    where *: "fw_param_get_hnd_def (Some uninit_hnd) (Some (replicate 16 0))
                (length (replicate 16 (0 :: u8))) = Some (Some h)"
      "add_params (Some h) example_params = Some h1"
      "fw_param_get_pack h1 = Some (Some (pack, len), h2)" by blast
  from fw_par_get_by_id_first [OF *(1) _ *(2,3) example_params_fit, of 0]
  have "fw_par_get_by_id 0 (Some pack) len True = Some (Some 0x01020304)"
    by (simp add: example_params_def)
  then show ?thesis by blast
qed

text \<open>The stored length is trusted: a three-byte pack that claims twenty bytes makes the decoder
  read past its buffer (the \<open>len\<close> argument, here the true size, is not compared with it), and a
  value array with fewer slots than parameter ids is written past its end (\<open>vals_len\<close> is only
  compared with zero).
\<close>

theorem fw_param_get_all_unchecked:
  "fw_param_get_all (Some [20, 0, 1]) 3 (Some example_vals) (length example_vals) = None \<and>
   fw_param_get_all (Some [4, 0, 1, 9]) 4 (Some [\<lparr>pv_val = 0, pv_flag = False\<rparr>]) 1 = None"
proof
  from fw_param_get_hnd_dec [of 3 "[20, 0, 1]" uninit_hnd] obtain h
    where h: "fw_param_get_hnd_def (Some uninit_hnd) (Some [20, 0, 1]) 3 = Some (Some h)"
      "pack_buf_pt h = [20, 0, 1]" "pack_data_pt h = 2" "pack_idx h = 2"
      "pack_data_to_decode_len h = 20" by auto
  then have "fw_param_get (Some h) = None"
    by (simp add: fw_param_get_def Let_def mem_read_def)
  then have "fw_param_get_all_loop h example_vals = None"
    by (simp add: fw_param_get_all_loop.simps [of h example_vals])
  with h(1) show "fw_param_get_all (Some [20, 0, 1]) 3 (Some example_vals) (length example_vals) = None"
    by (simp add: fw_param_get_all_def example_vals_def)
next
  let ?x = "\<lparr>pv_val = 0, pv_flag = False\<rparr>"
  from fw_param_get_hnd_dec [of 4 "[4, 0, 1, 9]" uninit_hnd] obtain h
    where h: "fw_param_get_hnd_def (Some uninit_hnd) (Some [4, 0, 1, 9]) 4 = Some (Some h)"
      "pack_buf_pt h = [4, 0, 1, 9]" "pack_data_pt h = 2" "pack_idx h = 2"
      "pack_data_to_decode_len h = 4" by auto
  then obtain h' where "fw_param_get (Some h) = Some (Some (1, 9), h')"
    by (simp add: fw_param_get_def Let_def mem_read_def)
  then have "fw_param_get_all_loop h [?x] = None"
    by (simp add: fw_param_get_all_loop.simps [of h "[?x]"] arr_set_def)
  with h(1) show "fw_param_get_all (Some [4, 0, 1, 9]) 4 (Some [?x]) 1 = None"
    by (simp add: fw_param_get_all_def)
qed

end
