(* ===== verification/DvppCache.thy ===== *)
theory DvppCache
  imports Prelude
begin

text \<open>
  The cache of free packet-buffer descriptors of the direct-vpp kernel module
  (\<open>direct-vpp/allocator.c\<close>, \<open>allocator.h\<close>, \<open>dvpp_descriptor.h\<close>): one ring of 32768 slots per
  thread, indexed by free-running 32-bit read and write counters. The interface its clients rely
  on is a first-in first-out queue, stated as the locale \<open>desc_fifo\<close> and interpreted on the ring.
\<close>

section \<open>Descriptors\<close>

text \<open>
  \<open>segment_desc_t\<close> and \<open>dvpp_desc_t\<close>; \<open>desc_data\<close> is the 64-bit view of the union, whose low
  bytes are \<open>port_id\<close> and \<open>pipe_id\<close> on the little-endian target.
\<close>

record dvpp_desc =
  seg_lo :: "24 word"
  seg_hi :: "4 word"
  seg_flags :: "4 word"
  seg_len :: "14 word"
  seg_eop :: bool
  seg_special :: bool
  seg_offset :: "14 word"
  seg_mflags :: "2 word"
  desc_data :: u64

definition desc_port_id :: "dvpp_desc \<Rightarrow> u8" where
  "desc_port_id d = ucast (desc_data d)"

definition desc_pipe_id :: "dvpp_desc \<Rightarrow> u8" where
  "desc_pipe_id d = ucast (drop_bit 8 (desc_data d))"

definition dvpp_desc_clear :: dvpp_desc where
  "dvpp_desc_clear = \<lparr>seg_lo = 0, seg_hi = 0, seg_flags = 0, seg_len = 0, seg_eop = False,
     seg_special = False, seg_offset = 0, seg_mflags = 0, desc_data = 0\<rparr>"

abbreviation DVPP_NB_BUFFERS :: nat where
  "DVPP_NB_BUFFERS \<equiv> 32768"

text \<open>\<open>struct cache_head\<close>; \<open>slots i\<close> is \<open>cache[i]\<close> for \<open>i < DVPP_MINI_CACHE_SIZE\<close>.\<close>

record cache_head =
  slots :: "nat \<Rightarrow> dvpp_desc"
  rd :: u32
  wr :: u32
  kernel_alloc_fail :: u32

section \<open>Operations\<close>

definition dvpp_cache_size :: "cache_head \<Rightarrow> u32" where
  "dvpp_cache_size c = wr c - rd c"

definition dvpp_cache_enqueue :: "dvpp_desc \<Rightarrow> cache_head \<Rightarrow> cache_head" where
  "dvpp_cache_enqueue b c =
     (let idx = unat (wr c AND (of_nat DVPP_NB_BUFFERS - 1))
      in c\<lparr>slots := (slots c)(idx := b), wr := wr c + 1\<rparr>)"

text \<open>
  \<open>num\<close> is an \<open>int\<close>: the difference of the counters read as a signed number. The result is
  \<open>None\<close> where the code returns 0 and leaves \<open>*b\<close> as it was.
\<close>

definition dvpp_cache_dequeue :: "cache_head \<Rightarrow> dvpp_desc option \<times> cache_head" where
  "dvpp_cache_dequeue c =
     (let num = sint (wr c - rd c)
      in if 0 < num
         then (let idx = unat (rd c AND (of_nat DVPP_NB_BUFFERS - 1))
               in (Some (slots c idx),
                   c\<lparr>slots := (slots c)(idx := dvpp_desc_clear), rd := rd c + 1\<rparr>))
         else (None, c\<lparr>kernel_alloc_fail := kernel_alloc_fail c + 1\<rparr>))"

text \<open>One ring of \<open>dvpp_init_buffers\<close>.\<close>

definition dvpp_init_cache :: cache_head where
  "dvpp_init_cache = \<lparr>slots = (\<lambda>_. dvpp_desc_clear), rd = 0, wr = 0, kernel_alloc_fail = 0\<rparr>"

text \<open>Dequeue \<open>n\<close> times, as a loop of the clients does, collecting the results.\<close>

primrec deq_n :: "('q \<Rightarrow> 'a option \<times> 'q) \<Rightarrow> nat \<Rightarrow> 'q \<Rightarrow> 'a option list \<times> 'q" where
  "deq_n deq 0 q = ([], q)"
| "deq_n deq (Suc n) q =
     (let (x, q1) = deq q; (xs, q2) = deq_n deq n q1 in (x # xs, q2))"

section \<open>The queue a cache stands for\<close>

definition cache_list :: "cache_head \<Rightarrow> dvpp_desc list" where
  "cache_list c = map (\<lambda>i. slots c ((unat (rd c) + i) mod DVPP_NB_BUFFERS)) [0..<unat (wr c - rd c)]"

definition cache_inv :: "cache_head \<Rightarrow> bool" where
  "cache_inv c \<longleftrightarrow> unat (wr c - rd c) \<le> DVPP_NB_BUFFERS"

lemma mask_idx: "unat ((x :: u32) AND 32767) = unat x mod DVPP_NB_BUFFERS"
proof -
  have "x AND mask 15 = x mod 32768" by (simp add: take_bit_eq_mod flip: take_bit_eq_mask)
  then have "x AND 32767 = x mod 32768" by (simp add: mask_eq_exp_minus_1)
  then show ?thesis by (simp add: unat_mod_distrib)
qed

lemma wr_mod: "unat (wr c) mod DVPP_NB_BUFFERS = (unat (rd c) + unat (wr c - rd c)) mod DVPP_NB_BUFFERS"
proof -
  have "unat (wr c) = (unat (rd c) + unat (wr c - rd c)) mod 2 ^ 32"
    using unat_add_mod32 [of "rd c" "wr c - rd c"] by simp
  then show ?thesis by (simp add: mod_mod_cancel)
qed

lemma slot_distinct:
  assumes "i < n" and "n < DVPP_NB_BUFFERS"
  shows "(r + i) mod DVPP_NB_BUFFERS \<noteq> (r + n) mod DVPP_NB_BUFFERS"
proof
  assume "(r + i) mod DVPP_NB_BUFFERS = (r + n) mod DVPP_NB_BUFFERS"
  then have "(r + n) mod DVPP_NB_BUFFERS = (r + i) mod DVPP_NB_BUFFERS" by (rule sym)
  then have "DVPP_NB_BUFFERS dvd (r + n) - (r + i)"
    using assms mod_eq_dvd_iff_nat [of "r + i" "r + n"] by simp
  then show False using assms by (auto dest: dvd_imp_le)
qed

lemma length_cache_list [simp]: "length (cache_list c) = unat (wr c - rd c)"
  by (simp add: cache_list_def)

lemma cache_list_enqueue:
  assumes "unat (wr c - rd c) < DVPP_NB_BUFFERS"
  shows "cache_list (dvpp_cache_enqueue b c) = cache_list c @ [b]"
proof -
  let ?n = "unat (wr c - rd c)"
  have n: "unat (wr c + 1 - rd c) = Suc ?n"
    using assms unat_Suc_u32 [of "wr c - rd c"] by (simp add: algebra_simps)
  show ?thesis
    using slot_distinct [OF _ assms]
    by (auto simp: cache_list_def dvpp_cache_enqueue_def Let_def n mask_idx wr_mod)
qed

lemma cache_size_enqueue:
  "unat (wr c - rd c) < DVPP_NB_BUFFERS \<Longrightarrow> cache_inv (dvpp_cache_enqueue b c)"
  using cache_list_enqueue [of c b] length_cache_list [of "dvpp_cache_enqueue b c"]
  by (simp add: cache_inv_def flip: length_cache_list)

lemma cache_dequeue_Nil:
  assumes "cache_inv c" and "cache_list c = []"
  shows "fst (dvpp_cache_dequeue c) = None" "cache_list (snd (dvpp_cache_dequeue c)) = []"
proof -
  have "unat (wr c - rd c) = 0" using assms(2) by (metis length_cache_list list.size(3))
  then have "wr c - rd c = 0" by (simp add: unat_eq_zero)
  with assms(2) show "fst (dvpp_cache_dequeue c) = None" "cache_list (snd (dvpp_cache_dequeue c)) = []"
    by (auto simp: dvpp_cache_dequeue_def cache_list_def)
qed

lemma cache_dequeue_Cons:
  assumes inv: "cache_inv c" and ne: "cache_list c \<noteq> []"
  shows "fst (dvpp_cache_dequeue c) = Some (hd (cache_list c))"
    and "cache_list (snd (dvpp_cache_dequeue c)) = tl (cache_list c)"
proof -
  let ?n = "unat (wr c - rd c)"
  have n: "0 < ?n" "?n \<le> DVPP_NB_BUFFERS"
    using assms by (auto simp: cache_inv_def simp flip: length_cache_list)
  have "sint (wr c - rd c) = int ?n" by (rule sint_small_u32) (use n in simp)
  then have num: "0 < sint (wr c - rd c)" using n by (simp only: of_nat_0_less_iff)
  have n': "unat (wr c - (rd c + 1)) = ?n - 1"
    using n unat_pred_u32 [of "wr c - rd c"] by (simp add: algebra_simps)
  have r1: "(unat (rd c + 1) + i) mod DVPP_NB_BUFFERS = (unat (rd c) + Suc i) mod DVPP_NB_BUFFERS" for i
  proof -
    have "unat (rd c + 1) mod DVPP_NB_BUFFERS = (unat (rd c) + 1) mod DVPP_NB_BUFFERS"
      by (simp add: unat_add_mod32 mod_mod_cancel)
    then have "(unat (rd c + 1) mod DVPP_NB_BUFFERS + i) mod DVPP_NB_BUFFERS
        = ((unat (rd c) + 1) mod DVPP_NB_BUFFERS + i) mod DVPP_NB_BUFFERS" by (simp only:)
    then show ?thesis by (simp only: mod_add_left_eq) simp
  qed
  have upt: "[0..<?n] = 0 # map Suc [0..<?n - 1]" using n by (simp add: upt_conv_Cons map_Suc_upt)
  have other: "(unat (rd c) + Suc i) mod DVPP_NB_BUFFERS \<noteq> unat (rd c) mod DVPP_NB_BUFFERS"
    if "i < ?n - 1" for i
  proof -
    have "Suc i < DVPP_NB_BUFFERS" using that n by linarith
    then show ?thesis using slot_distinct [of 0 "Suc i" "unat (rd c)"] by auto
  qed
  have cl: "cache_list c = slots c (unat (rd c) mod DVPP_NB_BUFFERS)
      # map (\<lambda>i. slots c ((unat (rd c) + Suc i) mod DVPP_NB_BUFFERS)) [0..<?n - 1]"
    by (simp add: cache_list_def upt)
  show "fst (dvpp_cache_dequeue c) = Some (hd (cache_list c))"
    using num by (simp add: dvpp_cache_dequeue_def Let_def mask_idx cl)
  show "cache_list (snd (dvpp_cache_dequeue c)) = tl (cache_list c)"
    unfolding cl list.sel(3) using num other
    by (auto simp: dvpp_cache_dequeue_def Let_def mask_idx cache_list_def n' r1)
qed

lemma cache_inv_dequeue: "cache_inv c \<Longrightarrow> cache_inv (snd (dvpp_cache_dequeue c))"
  using cache_dequeue_Cons(2) [of c] cache_dequeue_Nil(2) [of c]
  by (cases "cache_list c = []") (auto simp: cache_inv_def simp flip: length_cache_list)

section \<open>The interface the clients rely on\<close>

text \<open>
  A bounded queue: what the allocator and the network driver assume of the descriptor cache.
  Enqueueing is only specified while the queue is below its capacity.
\<close>

locale desc_fifo =
  fixes enq :: "'a \<Rightarrow> 'q \<Rightarrow> 'q"
    and deq :: "'q \<Rightarrow> 'a option \<times> 'q"
    and items :: "'q \<Rightarrow> 'a list"
    and inv :: "'q \<Rightarrow> bool"
    and cap :: nat
  assumes items_enq: "inv q \<Longrightarrow> length (items q) < cap \<Longrightarrow> items (enq x q) = items q @ [x]"
    and inv_enq: "inv q \<Longrightarrow> length (items q) < cap \<Longrightarrow> inv (enq x q)"
    and deq_Nil: "inv q \<Longrightarrow> items q = [] \<Longrightarrow> fst (deq q) = None \<and> items (snd (deq q)) = []"
    and deq_Cons: "inv q \<Longrightarrow> items q \<noteq> [] \<Longrightarrow>
      fst (deq q) = Some (hd (items q)) \<and> items (snd (deq q)) = tl (items q)"
    and inv_deq: "inv q \<Longrightarrow> inv (snd (deq q))"
begin

lemma enq_all:
  assumes "inv q" and "length (items q) + length xs \<le> cap"
  shows "items (fold enq xs q) = items q @ xs \<and> inv (fold enq xs q)"
  using assms
proof (induction xs arbitrary: q)
  case (Cons x xs)
  then have "items (enq x q) = items q @ [x]" "inv (enq x q)"
    by (auto simp: items_enq inv_enq)
  with Cons show ?case by auto
qed simp

lemma deq_all:
  assumes "inv q" and "n \<le> length (items q)"
  shows "fst (deq_n deq n q) = map Some (take n (items q))
       \<and> items (snd (deq_n deq n q)) = drop n (items q) \<and> inv (snd (deq_n deq n q))"
  using assms
proof (induction n arbitrary: q)
  case (Suc n)
  then have ne: "items q \<noteq> []" by auto
  obtain x q1 where d: "deq q = (x, q1)" by (cases "deq q")
  have x: "x = Some (hd (items q))" "items q1 = tl (items q)" "inv q1"
    using deq_Cons [OF Suc.prems(1) ne] inv_deq [OF Suc.prems(1)] d by auto
  with Suc.IH [of q1] Suc.prems(2) ne show ?case
    by (cases "items q") (auto simp: d case_prod_unfold)
qed simp

lemma enq_deq_order:
  assumes "inv q" and "items q = []" and "length xs \<le> cap"
  shows "fst (deq_n deq (length xs) (fold enq xs q)) = map Some xs"
  using enq_all [of q xs] deq_all [of "fold enq xs q" "length xs"] assms by simp

end

interpretation ring: desc_fifo dvpp_cache_enqueue dvpp_cache_dequeue cache_list cache_inv DVPP_NB_BUFFERS
  by unfold_locales
     (auto simp: cache_list_enqueue cache_size_enqueue cache_inv_dequeue
       cache_dequeue_Nil cache_dequeue_Cons)

lemma cache_inv_init: "cache_inv dvpp_init_cache" "cache_list dvpp_init_cache = []"
  by (simp_all add: cache_inv_def dvpp_init_cache_def cache_list_def)

section \<open>Properties\<close>

text \<open>The descriptor cache is a first-in first-out queue: after any list of descriptors that fits
  has been enqueued, dequeueing returns the descriptors in the order they entered, whatever the
  positions of the 32-bit counters are (they wrap).
\<close>

theorem dvpp_cache_fifo:
  assumes "cache_inv c" and "length (cache_list c) + length xs \<le> DVPP_NB_BUFFERS"
    and "n \<le> length (cache_list c) + length xs"
  shows "fst (deq_n dvpp_cache_dequeue n (fold dvpp_cache_enqueue xs c))
           = map Some (take n (cache_list c @ xs))
       \<and> cache_list (snd (deq_n dvpp_cache_dequeue n (fold dvpp_cache_enqueue xs c)))
           = drop n (cache_list c @ xs)"
  using ring.enq_all [OF assms(1,2)] ring.deq_all [of "fold dvpp_cache_enqueue xs c" n] assms(3)
  by simp

text \<open>The counters stand just below their wrap-around here.\<close>

definition example_cache :: cache_head where
  "example_cache = dvpp_init_cache\<lparr>rd := - 1, wr := - 1\<rparr>"

definition example_desc :: "24 word \<Rightarrow> dvpp_desc" where
  "example_desc v = dvpp_desc_clear\<lparr>seg_lo := v\<rparr>"

theorem dvpp_cache_fifo_witness:
  "fst (deq_n dvpp_cache_dequeue 2
     (fold dvpp_cache_enqueue [example_desc 7, example_desc 8, example_desc 9] example_cache))
   = [Some (example_desc 7), Some (example_desc 8)]"
proof -
  have c: "cache_inv example_cache" "cache_list example_cache = []"
    by (simp_all add: example_cache_def cache_inv_def cache_list_def dvpp_init_cache_def)
  show ?thesis
    using dvpp_cache_fifo [OF c(1), of "[example_desc 7, example_desc 8, example_desc 9]" 2] c(2)
    by (simp add: take_Cons')
qed

text \<open>Enqueueing does not check for room: on a full ring the new descriptor overwrites the oldest
  one, the fill level passes the capacity, and the next dequeue returns the newest descriptor.
\<close>

theorem dvpp_cache_overflow_unchecked:
  assumes "length (cache_list c) = DVPP_NB_BUFFERS"
  shows "unat (dvpp_cache_size (dvpp_cache_enqueue b c)) = Suc DVPP_NB_BUFFERS
       \<and> fst (dvpp_cache_dequeue (dvpp_cache_enqueue b c)) = Some b"
proof -
  let ?c = "dvpp_cache_enqueue b c"
  have n: "unat (wr c - rd c) = DVPP_NB_BUFFERS" using assms by simp
  have size: "unat (wr c + 1 - rd c) = Suc DVPP_NB_BUFFERS"
    using n unat_Suc_u32 [of "wr c - rd c"] by (simp add: algebra_simps)
  have fields: "rd ?c = rd c" "wr ?c = wr c + 1"
    "slots ?c = (slots c)(unat (wr c) mod DVPP_NB_BUFFERS := b)"
    by (simp_all add: dvpp_cache_enqueue_def Let_def mask_idx)
  have "unat (wr c) mod DVPP_NB_BUFFERS = unat (rd c) mod DVPP_NB_BUFFERS"
    by (simp add: wr_mod n)
  moreover have "sint (wr c + 1 - rd c) = int (Suc DVPP_NB_BUFFERS)"
    using sint_small_u32 [of "wr c + 1 - rd c"] by (simp only: size) simp
  ultimately show ?thesis
    by (simp add: dvpp_cache_size_def dvpp_cache_dequeue_def fields size mask_idx Let_def)
qed

definition full_cache :: cache_head where
  "full_cache = dvpp_init_cache\<lparr>rd := 5, wr := 5 + 32768\<rparr>"

theorem dvpp_cache_overflow_unchecked_witness:
  "length (cache_list full_cache) = DVPP_NB_BUFFERS
   \<and> fst (dvpp_cache_dequeue (dvpp_cache_enqueue (example_desc 3) full_cache)) = Some (example_desc 3)"
proof -
  have "length (cache_list full_cache) = DVPP_NB_BUFFERS" by (simp add: full_cache_def)
  with dvpp_cache_overflow_unchecked [OF this, of "example_desc 3"] show ?thesis by simp
qed

end
