(* ===== verification/DvppAllocator.thy ===== *)
theory DvppAllocator
  imports DvppCache
begin

text \<open>
  The buffer allocator of the direct-vpp kernel module (\<open>direct-vpp/allocator.c\<close> with the
  structures of \<open>direct_vpp.h\<close>, \<open>allocator.h\<close> and \<open>dvpp_module_interface.h\<close>): descriptor
  allocation and release by the network driver, translation of buffer indices to kernel
  addresses, and the vector-sync operation by which VPP transmits, receives, injects and
  exchanges free buffers with the kernel.

  The module's globals are one state record; its last field is the private state of the network
  driver. The driver is not part of this code: function pointers are numbers (0 is NULL) and the
  record \<open>driver\<close> says what calling one does to the state; a call through NULL is a fault. Kernel memory and socket-buffer
  allocation are the record \<open>kern\<close>. Accesses outside an array are \<open>None\<close>. Spin locks and the
  optional performance counters (\<open>DVPP_PERF\<close>) are compiled out in the modelled configuration.
\<close>

section \<open>State\<close>

abbreviation DVPP_NUM_PORT :: nat where "DVPP_NUM_PORT \<equiv> 4"
abbreviation DVPP_NUM_PIPE_PER_PORT :: nat where "DVPP_NUM_PIPE_PER_PORT \<equiv> 16"
abbreviation DVPP_NUM_THREADS :: nat where "DVPP_NUM_THREADS \<equiv> 4"
abbreviation DVPP_VLEN :: nat where "DVPP_VLEN \<equiv> 256"
abbreviation DVPP_ALLOC_VLEN :: nat where "DVPP_ALLOC_VLEN \<equiv> 1024"
abbreviation DVPP_MAX_NB_BLOCK :: nat where "DVPP_MAX_NB_BLOCK \<equiv> 128"
abbreviation DVPP_THRESHOLD_HIGH :: nat where "DVPP_THRESHOLD_HIGH \<equiv> 8 * 1024"
abbreviation DVPP_DATA_HEADROOM :: "14 word" where "DVPP_DATA_HEADROOM \<equiv> 256"

abbreviation EINVAL :: int where "EINVAL \<equiv> 22"
abbreviation ENODEV :: int where "ENODEV \<equiv> 19"

type_synonym fptr = u64

record dvpp_pipe =
  pipe_enable :: u32
  pipe_addr :: "u8 list"

record dvpp_port =
  port_enable :: u32
  port_pci :: u32
  port_context :: u64
  port_addr :: "u8 list"
  port_pipes :: "dvpp_pipe list"

record dvpp_port_map =
  rx_vector :: "dvpp_desc list list"
  tx_vector :: "dvpp_desc list list"
  alloc_vector :: "u32 list list"
  release_vector :: "u32 list list"
  tx_avail :: "u32 list"

record dvpp_port_maps =
  pmaps :: "dvpp_port_map list"
  cache_level :: "u32 list"
  release_count :: "u32 list"

record dvpp_ops =
  tx_fn :: fptr
  rx_fn :: fptr
  tx_avail_fn :: fptr
  tx_complete_fn :: fptr
  cancel_dma_fn :: fptr
  inject_fn :: fptr

text \<open>The counters of \<open>struct dvpp_stats\<close> that the module writes.\<close>

record dvpp_pipe_stats =
  drops_from_vpp :: u32
  inject_mcast :: u32

record dvpp_port_stats =
  driver_free :: u32
  free_to_vpp :: u32
  vector_sync_rx :: u32
  pkts_from_driver :: u32
  pipe_stats :: "dvpp_pipe_stats list"

text \<open>The scalar members of \<open>struct dvpp_port_list\<close>; its ports are a field of the state.\<close>

record port_list_head =
  nb_ports :: u32
  pipes_per_port :: u32
  mem_size :: u32
  buf_size :: u32

record 'd dvpp_state =
  mini_cache :: "cache_head list"
  dvpp_thread_map :: "u8 list"
  blocks :: "u64 list"
  dvpp_nb_blocks :: u32
  has_user_block_map :: bool
  ports :: "dvpp_port list"
  maps_ptr :: "dvpp_port_maps option"
  ops :: dvpp_ops
  main_stats :: "dvpp_port_stats list"
  user_count :: nat
  platform_client_count :: nat
  poll_wait_exiting :: bool
  poll_wait_state_pending :: bool
  plist_head :: port_list_head
  dvpp_platform :: bool
  drv_state :: 'd

text \<open>What a call through one of the driver's function pointers does.\<close>

record 'd driver =
  call_tx :: "fptr \<Rightarrow> u64 \<Rightarrow> u8 \<Rightarrow> dvpp_desc list \<Rightarrow> nat \<Rightarrow> 'd dvpp_state \<Rightarrow> int \<times> 'd dvpp_state"
  call_rx :: "fptr \<Rightarrow> u64 \<Rightarrow> nat \<Rightarrow> 'd dvpp_state \<Rightarrow> int \<times> dvpp_desc list \<times> 'd dvpp_state"
  call_tx_complete :: "fptr \<Rightarrow> u64 \<Rightarrow> 'd dvpp_state \<Rightarrow> 'd dvpp_state"
  call_tx_avail :: "fptr \<Rightarrow> u64 \<Rightarrow> 'd dvpp_state \<Rightarrow> u32 list \<times> 'd dvpp_state"
  call_cancel_dma :: "fptr \<Rightarrow> u64 \<Rightarrow> 'd dvpp_state \<Rightarrow> 'd dvpp_state"
  call_inject :: "fptr \<Rightarrow> u64 \<Rightarrow> u8 list \<Rightarrow> u8 \<Rightarrow> 'd dvpp_state \<Rightarrow> 'd dvpp_state"

text \<open>Kernel services: memory contents, \<open>alloc_skb\<close>, \<open>skb_try_coalesce\<close>.\<close>

record 'd kern =
  kmem :: "'d dvpp_state \<Rightarrow> u64 \<Rightarrow> u8"
  alloc_skb_ok :: "'d dvpp_state \<Rightarrow> nat \<Rightarrow> bool"
  coalesce_ok :: "u8 list \<Rightarrow> u8 list \<Rightarrow> bool"

record dvpp_vector_sync =
  sync_size :: u16
  sync_code :: u16
  sync_thread :: u8
  sync_port :: u8
  sync_pipe :: u8
  sync_alloc_size :: u16

section \<open>Descriptor allocation by the driver\<close>

definition cache_put :: "dvpp_desc \<Rightarrow> nat \<Rightarrow> 'd dvpp_state \<Rightarrow> 'd dvpp_state option" where
  "cache_put b thread st = do {
     c \<leftarrow> arr_get (mini_cache st) thread;
     Some (st\<lparr>mini_cache := (mini_cache st)[thread := dvpp_cache_enqueue b c]\<rparr>)
   }"

definition cache_take :: "nat \<Rightarrow> 'd dvpp_state \<Rightarrow> (dvpp_desc option \<times> 'd dvpp_state) option" where
  "cache_take thread st = do {
     c \<leftarrow> arr_get (mini_cache st) thread;
     let (d, c') = dvpp_cache_dequeue c;
     Some (d, st\<lparr>mini_cache := (mini_cache st)[thread := c']\<rparr>)
   }"

definition dvpp_port_alloc_mini ::
  "u32 \<Rightarrow> 'd dvpp_state \<Rightarrow> (dvpp_desc option \<times> 'd dvpp_state) option" where
  "dvpp_port_alloc_mini port st = do {
     p \<leftarrow> arr_get (ports st) (unat port);
     if port_enable p \<noteq> 0
     then do {
       t \<leftarrow> arr_get (dvpp_thread_map st) (unat port);
       cache_take (unat t) st
     }
     else Some (None, st)
   }"

definition upd_stats ::
  "nat \<Rightarrow> (dvpp_port_stats \<Rightarrow> dvpp_port_stats) \<Rightarrow> 'd dvpp_state \<Rightarrow> 'd dvpp_state option" where
  "upd_stats port f st = do {
     s \<leftarrow> arr_get (main_stats st) port;
     Some (st\<lparr>main_stats := (main_stats st)[port := f s]\<rparr>)
   }"

definition dvpp_port_free_mini :: "dvpp_desc \<Rightarrow> u32 \<Rightarrow> 'd dvpp_state \<Rightarrow> 'd dvpp_state option" where
  "dvpp_port_free_mini mini port st =
     (if \<not> has_user_block_map st then Some st
      else do {
        st1 \<leftarrow> upd_stats (unat port) (\<lambda>s. s\<lparr>driver_free := driver_free s + 1\<rparr>) st;
        t \<leftarrow> arr_get (dvpp_thread_map st1) (unat port);
        cache_put (mini\<lparr>seg_offset := DVPP_DATA_HEADROOM\<rparr>) (unat t) st1
      })"

section \<open>Initialisation and reclaim\<close>

definition dvpp_init_buffers :: "'d dvpp_state \<Rightarrow> 'd dvpp_state" where
  "dvpp_init_buffers st = st\<lparr>mini_cache := replicate DVPP_NUM_THREADS dvpp_init_cache\<rparr>"

definition init_allocator :: "'d dvpp_state \<Rightarrow> 'd dvpp_state" where
  "init_allocator st = dvpp_init_buffers st"

definition zero_port_map :: dvpp_port_map where
  "zero_port_map =
     \<lparr>rx_vector = replicate DVPP_NUM_THREADS (replicate (DVPP_VLEN + 8) dvpp_desc_clear),
      tx_vector = replicate DVPP_NUM_THREADS (replicate (DVPP_VLEN + 8) dvpp_desc_clear),
      alloc_vector = replicate DVPP_NUM_THREADS (replicate DVPP_ALLOC_VLEN 0),
      release_vector = replicate DVPP_NUM_THREADS (replicate DVPP_VLEN 0),
      tx_avail = replicate DVPP_NUM_PIPE_PER_PORT 0\<rparr>"

definition zero_port_maps :: dvpp_port_maps where
  "zero_port_maps = \<lparr>pmaps = replicate DVPP_NUM_PORT zero_port_map,
     cache_level = replicate DVPP_NUM_THREADS 0, release_count = replicate DVPP_NUM_THREADS 0\<rparr>"

primrec cancel_dma_loop :: "'d driver \<Rightarrow> nat list \<Rightarrow> 'd dvpp_state \<Rightarrow> 'd dvpp_state option" where
  "cancel_dma_loop drv [] st = Some st"
| "cancel_dma_loop drv (i # is) st = do {
     p \<leftarrow> arr_get (ports st) i;
     cancel_dma_loop drv is (call_cancel_dma drv (cancel_dma_fn (ops st)) (port_context p) st)
   }"

definition dvpp_reclaim_user :: "'d driver \<Rightarrow> 'd dvpp_state \<Rightarrow> 'd dvpp_state option" where
  "dvpp_reclaim_user drv st = do {
     let st0 = st\<lparr>has_user_block_map := False\<rparr>;
     st1 \<leftarrow> (if cancel_dma_fn (ops st0) \<noteq> 0 then cancel_dma_loop drv [0..<DVPP_NUM_PORT] st0
             else Some st0);
     let st2 = dvpp_init_buffers st1;
     Some (st2\<lparr>maps_ptr := map_option (\<lambda>_. zero_port_maps) (maps_ptr st2)\<rparr>)
   }"

definition dvpp_free_port_map :: "'d dvpp_state \<Rightarrow> 'd dvpp_state" where
  "dvpp_free_port_map st = st\<lparr>maps_ptr := None\<rparr>"

text \<open>\<open>kzalloc\<close> may fail (\<open>ok\<close>); the function returns 0 in either case.\<close>

definition dvpp_allocate_port_map :: "bool \<Rightarrow> 'd dvpp_state \<Rightarrow> int \<times> 'd dvpp_state" where
  "dvpp_allocate_port_map ok st = (0, st\<lparr>maps_ptr := (if ok then Some zero_port_maps else None)\<rparr>)"

section \<open>Address translation\<close>

definition index_to_block :: "u32 \<Rightarrow> nat" where
  "index_to_block index = unat (drop_bit (21 - 6) index AND (128 - 1))"

definition block_offset :: "u32 \<Rightarrow> u32" where
  "block_offset idx = push_bit 6 idx AND (2 * 1024 * 1024 - 1)"

definition dvpp_desc_kernel_address :: "dvpp_desc \<Rightarrow> 'd dvpp_state \<Rightarrow> u64 option" where
  "dvpp_desc_kernel_address b st = do {
     let idx = ucast (seg_lo b);
     base \<leftarrow> arr_get (blocks st) (index_to_block idx);
     Some (base + ucast (block_offset idx))
   }"

text \<open>As above, and the address is stored in the descriptor.\<close>

definition dvpp_get_desc_kernel_address ::
  "dvpp_desc \<Rightarrow> 'd dvpp_state \<Rightarrow> (u64 \<times> dvpp_desc) option" where
  "dvpp_get_desc_kernel_address b st = do {
     let idx = ucast (seg_lo b);
     base \<leftarrow> arr_get (blocks st) (index_to_block idx);
     let a = base + ucast (block_offset idx);
     Some (a, b\<lparr>desc_data := a\<rparr>)
   }"

definition dvpp_mini_set_kernel_address ::
  "dvpp_desc \<Rightarrow> u32 \<Rightarrow> 'd dvpp_state \<Rightarrow> dvpp_desc option" where
  "dvpp_mini_set_kernel_address b idx st = do {
     base \<leftarrow> arr_get (blocks st) (index_to_block idx);
     Some (b\<lparr>desc_data := base + ucast (block_offset idx)\<rparr>)
   }"

definition free_buffer_pool :: "'d dvpp_state \<Rightarrow> 'd dvpp_state" where
  "free_buffer_pool st = st\<lparr>blocks := replicate DVPP_MAX_NB_BLOCK 0\<rparr>"

text \<open>The loop of \<open>dvpp_remap_user\<close> over the registered pages; \<open>to_virt\<close> is \<open>__phys_to_virt\<close>.\<close>

primrec remap_blocks ::
  "(u64 \<Rightarrow> u64) \<Rightarrow> u64 list \<Rightarrow> nat list \<Rightarrow> u64 list \<Rightarrow> u64 list option" where
  "remap_blocks to_virt pa [] bl = Some bl"
| "remap_blocks to_virt pa (i # is) bl = do {
     a \<leftarrow> arr_get pa i;
     bl' \<leftarrow> arr_set bl i (to_virt a);
     remap_blocks to_virt pa is bl'
   }"

definition dvpp_remap_user ::
  "(u64 \<Rightarrow> u64) \<Rightarrow> u32 \<Rightarrow> u64 list \<Rightarrow> 'd dvpp_state \<Rightarrow> (int \<times> 'd dvpp_state) option" where
  "dvpp_remap_user to_virt n_pages pa st = do {
     bl \<leftarrow> remap_blocks to_virt pa [0..<unat n_pages] (blocks st);
     Some (0, st\<lparr>blocks := bl, has_user_block_map := True\<rparr>)
   }"

section \<open>Vector synchronisation\<close>

text \<open>The shared-memory area of a port; a NULL \<open>_maps\<close> is a fault.\<close>

definition port_map_of :: "nat \<Rightarrow> 'd dvpp_state \<Rightarrow> dvpp_port_map option" where
  "port_map_of port st = do { m \<leftarrow> maps_ptr st; arr_get (pmaps m) port }"

definition upd_maps ::
  "(dvpp_port_maps \<Rightarrow> dvpp_port_maps option) \<Rightarrow> 'd dvpp_state \<Rightarrow> 'd dvpp_state option" where
  "upd_maps f st = do { m \<leftarrow> maps_ptr st; m' \<leftarrow> f m; Some (st\<lparr>maps_ptr := Some m'\<rparr>) }"

definition set_port_map ::
  "nat \<Rightarrow> (dvpp_port_map \<Rightarrow> dvpp_port_map option) \<Rightarrow> 'd dvpp_state \<Rightarrow> 'd dvpp_state option" where
  "set_port_map port f = upd_maps (\<lambda>m. do {
     pm \<leftarrow> arr_get (pmaps m) port;
     pm' \<leftarrow> f pm;
     Some (m\<lparr>pmaps := (pmaps m)[port := pm']\<rparr>) })"

text \<open>\<open>_maps->cache_level[thread] = dvpp_cache_size(cache_id)\<close>.\<close>

definition report_cache_level :: "nat \<Rightarrow> nat \<Rightarrow> 'd dvpp_state \<Rightarrow> 'd dvpp_state option" where
  "report_cache_level thread cache_id st = do {
     c \<leftarrow> arr_get (mini_cache st) cache_id;
     upd_maps (\<lambda>m. do {
       l \<leftarrow> arr_set (cache_level m) thread (dvpp_cache_size c);
       Some (m\<lparr>cache_level := l\<rparr>) }) st
   }"

text \<open>
  \<open>DVPP_VECTOR_SYNC_TRANSMIT\<close>. A packet count below the requested one is charged to the pipe as
  drops; \<open>drops_from_vpp\<close> is a \<open>u32\<close> and the difference wraps when the driver reports an error.
\<close>

definition sync_transmit ::
  "'d driver \<Rightarrow> dvpp_vector_sync \<Rightarrow> 'd dvpp_state \<Rightarrow> (int \<times> 'd dvpp_state) option" where
  "sync_transmit drv sync st = do {
     let port = unat (sync_port sync);
     let pipe = unat (sync_pipe sync);
     pm \<leftarrow> port_map_of port st;
     dvector \<leftarrow> arr_get (tx_vector pm) (unat (sync_thread sync));
     p \<leftarrow> arr_get (ports st) port;
     pp \<leftarrow> arr_get (port_pipes p) pipe;
     let n_tx_pkts = int (unat (sync_size sync));
     if n_tx_pkts \<noteq> 0 \<and> pipe_enable pp \<noteq> 0
     then if tx_fn (ops st) = 0 then None else do {
       let (cnt, st1) = call_tx drv (tx_fn (ops st)) (port_context p) (sync_pipe sync) dvector
                          (unat (sync_size sync)) st;
       st2 \<leftarrow> (if cnt < n_tx_pkts
              then upd_stats port (\<lambda>s. s\<lparr>pipe_stats := (pipe_stats s)[pipe :=
                     (pipe_stats s ! pipe)\<lparr>drops_from_vpp :=
                        drops_from_vpp (pipe_stats s ! pipe) + of_int (n_tx_pkts - cnt)\<rparr>]\<rparr>) st1
              else Some st1);
       Some (cnt, st2)
     }
     else Some (0, st)
   }"

text \<open>\<open>DVPP_VECTOR_SYNC_RECEIVE\<close>, first part: buffers VPP allocated enter the kernel cache.\<close>

definition alloc_desc :: "u32 \<Rightarrow> 'd dvpp_state \<Rightarrow> dvpp_desc option" where
  "alloc_desc v st = do {
     b \<leftarrow> dvpp_mini_set_kernel_address dvpp_desc_clear v st;
     Some (b\<lparr>seg_lo := ucast v, seg_offset := DVPP_DATA_HEADROOM\<rparr>)
   }"

primrec sync_alloc_loop :: "nat \<Rightarrow> u32 list \<Rightarrow> 'd dvpp_state \<Rightarrow> 'd dvpp_state option" where
  "sync_alloc_loop cache_id [] st = Some st"
| "sync_alloc_loop cache_id (v # vs) st = do {
     b \<leftarrow> alloc_desc v st;
     st1 \<leftarrow> cache_put b cache_id st;
     sync_alloc_loop cache_id vs st1
   }"

definition sync_rx_alloc ::
  "nat \<Rightarrow> dvpp_vector_sync \<Rightarrow> 'd dvpp_state \<Rightarrow> 'd dvpp_state option" where
  "sync_rx_alloc cache_id sync st = do {
     let n = unat (sync_alloc_size sync);
     if n = 0 then Some st
     else do {
       pm \<leftarrow> port_map_of (unat (sync_port sync)) st;
       vector \<leftarrow> arr_get (alloc_vector pm) (unat (sync_thread sync));
       if length vector < n then None
       else do {
         st1 \<leftarrow> sync_alloc_loop cache_id (take n vector) st;
         report_cache_level (unat (sync_thread sync)) cache_id st1
       }
     }
   }"

text \<open>Second part: the driver's receive, transmit-completion and queue-level functions.\<close>

definition sync_rx_driver ::
  "'d driver \<Rightarrow> dvpp_vector_sync \<Rightarrow> 'd dvpp_state \<Rightarrow> (int \<times> 'd dvpp_state) option" where
  "sync_rx_driver drv sync st = do {
     let port = unat (sync_port sync);
     let thread = unat (sync_thread sync);
     p \<leftarrow> arr_get (ports st) port;
     pm \<leftarrow> port_map_of port st;
     _ \<leftarrow> arr_get (rx_vector pm) thread;
     let (cnt, ds, st1) = call_rx drv (rx_fn (ops st)) (port_context p) (unat (sync_size sync)) st;
     st2 \<leftarrow> set_port_map port (\<lambda>m. do {
              v \<leftarrow> arr_get (rx_vector m) thread;
              if length v < length ds then None
              else Some (m\<lparr>rx_vector := (rx_vector m)[thread := ds @ drop (length ds) v]\<rparr>) }) st1;
     st3 \<leftarrow> upd_stats port (\<lambda>s. s\<lparr>pkts_from_driver := pkts_from_driver s + of_int cnt\<rparr>) st2;
     p3 \<leftarrow> arr_get (ports st3) port;
     let st4 = (if tx_complete_fn (ops st3) \<noteq> 0
                then call_tx_complete drv (tx_complete_fn (ops st3)) (port_context p3) st3 else st3);
     p4 \<leftarrow> arr_get (ports st4) port;
     st5 \<leftarrow> (if tx_avail_fn (ops st4) \<noteq> 0
            then (let (avail, s) = call_tx_avail drv (tx_avail_fn (ops st4)) (port_context p4) st4
                  in set_port_map port (\<lambda>m. if length avail = length (tx_avail m)
                       then Some (m\<lparr>tx_avail := avail\<rparr>) else None) s)
            else Some st4);
     Some (cnt, st5)
   }"

text \<open>
  Third part: above the high threshold, 256 descriptors go back to VPP. A failed dequeue leaves
  the zeroed local descriptor, so that slot of the vector gets index 0.
\<close>

definition release_index :: "dvpp_desc option \<Rightarrow> u32" where
  "release_index d = (case d of None \<Rightarrow> 0 | Some b \<Rightarrow> ucast (seg_lo b))"

definition set_release_count :: "nat \<Rightarrow> u32 \<Rightarrow> 'd dvpp_state \<Rightarrow> 'd dvpp_state option" where
  "set_release_count thread n = upd_maps (\<lambda>m. do {
     l \<leftarrow> arr_set (release_count m) thread n;
     Some (m\<lparr>release_count := l\<rparr>) })"

definition store_release ::
  "nat \<Rightarrow> nat \<Rightarrow> dvpp_desc option list \<Rightarrow> 'd dvpp_state \<Rightarrow> 'd dvpp_state option" where
  "store_release port thread ds st = do {
     st1 \<leftarrow> set_port_map port (\<lambda>m. do {
              v \<leftarrow> arr_get (release_vector m) thread;
              if length v < length ds then None
              else Some (m\<lparr>release_vector := (release_vector m)[thread :=
                     map release_index ds @ drop (length ds) v]\<rparr>) }) st;
     set_release_count thread (of_nat (length ds)) st1
   }"

definition sync_rx_release ::
  "nat \<Rightarrow> dvpp_vector_sync \<Rightarrow> 'd dvpp_state \<Rightarrow> 'd dvpp_state option" where
  "sync_rx_release cache_id sync st = do {
     let port = unat (sync_port sync);
     let thread = unat (sync_thread sync);
     c \<leftarrow> arr_get (mini_cache st) cache_id;
     st2 \<leftarrow>
       (if DVPP_THRESHOLD_HIGH < unat (dvpp_cache_size c)
        then do {
          let (ds, c') = deq_n dvpp_cache_dequeue DVPP_VLEN c;
          st1 \<leftarrow> upd_stats port (\<lambda>s. s\<lparr>free_to_vpp := free_to_vpp s + of_nat DVPP_VLEN\<rparr>)
                   (st\<lparr>mini_cache := (mini_cache st)[cache_id := c']\<rparr>);
          store_release port thread ds st1
        }
        else set_release_count thread 0 st);
     report_cache_level thread cache_id st2
   }"

definition sync_receive ::
  "'d driver \<Rightarrow> nat \<Rightarrow> dvpp_vector_sync \<Rightarrow> 'd dvpp_state \<Rightarrow> (int \<times> 'd dvpp_state) option" where
  "sync_receive drv cache_id sync st = do {
     let port = unat (sync_port sync);
     st1 \<leftarrow> upd_stats port (\<lambda>s. s\<lparr>vector_sync_rx := vector_sync_rx s + 1\<rparr>) st;
     st2 \<leftarrow> sync_rx_alloc cache_id sync st1;
     p \<leftarrow> arr_get (ports st2) port;
     if port_enable p = 0 \<or> rx_fn (ops st2) = 0 then Some (- ENODEV, st2)
     else do {
       (cnt, st3) \<leftarrow> sync_rx_driver drv sync st2;
       st4 \<leftarrow> sync_rx_release cache_id sync st3;
       Some (cnt, st4)
     }
   }"

text \<open>
  \<open>DVPP_VECTOR_SYNC_INJECT\<close>: segments are copied into socket buffers, the segments of a packet
  coalesced, and a complete packet is handed to the kernel. Leaving the loop early drops the rest.
  \<open>skb_put\<close> cannot fail here: the buffer was allocated 256 bytes longer than the segment.
\<close>

primrec inject_loop ::
  "'d kern \<Rightarrow> 'd driver \<Rightarrow> nat \<Rightarrow> dvpp_desc list \<Rightarrow> u8 list option \<Rightarrow> 'd dvpp_state
     \<Rightarrow> 'd dvpp_state option" where
  "inject_loop k drv 0 ds head st = Some st"
| "inject_loop k drv (Suc n) ds head st =
     (case ds of
        [] \<Rightarrow> None
      | d # ds' \<Rightarrow>
          if DVPP_NUM_PORT \<le> unat (desc_port_id d) \<or> DVPP_NUM_PIPE_PER_PORT \<le> unat (desc_pipe_id d)
          then Some st
          else do {
            p \<leftarrow> arr_get (ports st) (unat (desc_port_id d));
            pp \<leftarrow> arr_get (port_pipes p) (unat (desc_pipe_id d));
            if pipe_enable pp = 0 then Some st
            else do {
              let len = unat (seg_len d);
              if \<not> alloc_skb_ok k st (len + 2 * 128) then Some st
              else do {
                let pre = (if head = None then 14 else 0);
                a \<leftarrow> dvpp_desc_kernel_address d st;
                let src = a + ucast (ucast (seg_offset d) - of_nat pre :: u32);
                let bytes = map (\<lambda>i. kmem k st (src + of_nat i)) [0..<len + pre];
                st1 \<leftarrow> (if bit (kmem k st src) 0
                       then upd_stats (unat (desc_port_id d)) (\<lambda>s. s\<lparr>pipe_stats :=
                              (pipe_stats s)[unat (desc_pipe_id d) :=
                                (pipe_stats s ! unat (desc_pipe_id d))\<lparr>inject_mcast :=
                                   inject_mcast (pipe_stats s ! unat (desc_pipe_id d)) + 1\<rparr>]\<rparr>) st
                       else Some st);
                (case head of
                   Some h \<Rightarrow>
                     if \<not> coalesce_ok k h bytes then Some st1
                     else if seg_eop d
                     then (if inject_fn (ops st1) = 0 then None
                           else inject_loop k drv n ds' None
                            (call_inject drv (inject_fn (ops st1)) (port_context p) (h @ bytes)
                               (desc_pipe_id d) st1))
                     else inject_loop k drv n ds' (Some (h @ bytes)) st1
                 | None \<Rightarrow>
                     if seg_eop d
                     then (if inject_fn (ops st1) = 0 then None
                           else inject_loop k drv n ds' None
                            (call_inject drv (inject_fn (ops st1)) (port_context p) bytes
                               (desc_pipe_id d) st1))
                     else inject_loop k drv n ds' (Some bytes) st1)
              }
            }
          })"

definition sync_inject ::
  "'d kern \<Rightarrow> 'd driver \<Rightarrow> dvpp_vector_sync \<Rightarrow> 'd dvpp_state \<Rightarrow> (int \<times> 'd dvpp_state) option" where
  "sync_inject k drv sync st = do {
     pm \<leftarrow> port_map_of (unat (sync_port sync)) st;
     dvector \<leftarrow> arr_get (tx_vector pm) (unat (sync_thread sync));
     st1 \<leftarrow> inject_loop k drv (unat (sync_size sync)) dvector None st;
     Some (int (unat (sync_size sync)), st1)
   }"

definition dvpp_sync_vector ::
  "'d kern \<Rightarrow> 'd driver \<Rightarrow> dvpp_vector_sync \<Rightarrow> 'd dvpp_state \<Rightarrow> (int \<times> 'd dvpp_state) option" where
  "dvpp_sync_vector k drv sync st =
     (if DVPP_NUM_PORT \<le> unat (sync_port sync) \<or> DVPP_NUM_PIPE_PER_PORT \<le> unat (sync_pipe sync)
      then Some (- EINVAL, st)
      else do {
        t \<leftarrow> arr_get (dvpp_thread_map st) (unat (sync_port sync));
        let cache_id = unat t;
        if sync_code sync = 2 then sync_transmit drv sync st
        else if sync_code sync = 3 then sync_receive drv cache_id sync st
        else if sync_code sync = 4 then sync_inject k drv sync st
        else Some (- EINVAL, st)
      })"

section \<open>Well-formed states\<close>

definition port_map_wf :: "dvpp_port_map \<Rightarrow> bool" where
  "port_map_wf m \<longleftrightarrow>
     length (rx_vector m) = DVPP_NUM_THREADS \<and> (\<forall>v \<in> set (rx_vector m). length v = DVPP_VLEN + 8)
     \<and> length (tx_vector m) = DVPP_NUM_THREADS \<and> (\<forall>v \<in> set (tx_vector m). length v = DVPP_VLEN + 8)
     \<and> length (alloc_vector m) = DVPP_NUM_THREADS
     \<and> (\<forall>v \<in> set (alloc_vector m). length v = DVPP_ALLOC_VLEN)
     \<and> length (release_vector m) = DVPP_NUM_THREADS
     \<and> (\<forall>v \<in> set (release_vector m). length v = DVPP_VLEN)
     \<and> length (tx_avail m) = DVPP_NUM_PIPE_PER_PORT"

definition maps_wf :: "dvpp_port_maps \<Rightarrow> bool" where
  "maps_wf m \<longleftrightarrow> length (pmaps m) = DVPP_NUM_PORT \<and> (\<forall>p \<in> set (pmaps m). port_map_wf p)
     \<and> length (cache_level m) = DVPP_NUM_THREADS \<and> length (release_count m) = DVPP_NUM_THREADS"

definition port_wf :: "dvpp_port \<Rightarrow> bool" where
  "port_wf p \<longleftrightarrow> length (port_pipes p) = DVPP_NUM_PIPE_PER_PORT"

text \<open>
  Array sizes are those of the declarations, every ring holds at most its capacity, and the
  thread map only names existing threads.
\<close>

definition dvpp_wf :: "'d dvpp_state \<Rightarrow> bool" where
  "dvpp_wf st \<longleftrightarrow>
     length (mini_cache st) = DVPP_NUM_THREADS \<and> (\<forall>c \<in> set (mini_cache st). cache_inv c)
     \<and> length (dvpp_thread_map st) = DVPP_NUM_PORT
     \<and> (\<forall>t \<in> set (dvpp_thread_map st). unat t < DVPP_NUM_THREADS)
     \<and> length (blocks st) = DVPP_MAX_NB_BLOCK
     \<and> length (ports st) = DVPP_NUM_PORT \<and> (\<forall>p \<in> set (ports st). port_wf p)
     \<and> length (main_stats st) = DVPP_NUM_PORT
     \<and> (\<forall>m. maps_ptr st = Some m \<longrightarrow> maps_wf m)"

text \<open>The free descriptors cached for a thread.\<close>

definition cached :: "nat \<Rightarrow> 'd dvpp_state \<Rightarrow> dvpp_desc list" where
  "cached t st = cache_list (mini_cache st ! t)"

lemma cache_put_ok:
  assumes "dvpp_wf st" and "t < DVPP_NUM_THREADS" and "length (cached t st) < DVPP_NB_BUFFERS"
  shows "\<exists>st'. cache_put b t st = Some st' \<and> dvpp_wf st' \<and> cached t st' = cached t st @ [b]
           \<and> (\<forall>u. u \<noteq> t \<longrightarrow> cached u st' = cached u st)
           \<and> st' = st\<lparr>mini_cache := mini_cache st'\<rparr>"
proof -
  let ?c = "mini_cache st ! t"
  have inv: "cache_inv ?c" and l: "t < length (mini_cache st)"
    using assms(1,2) by (auto simp: dvpp_wf_def)
  have "cache_list (dvpp_cache_enqueue b ?c) = cache_list ?c @ [b]" "cache_inv (dvpp_cache_enqueue b ?c)"
    using ring.items_enq [OF inv] ring.inv_enq [OF inv] assms(3) by (auto simp: cached_def)
  with assms(1) l show ?thesis
    by (auto simp: cache_put_def arr_get_def cached_def dvpp_wf_def
        dest!: set_update_subset_insert [THEN subsetD])
qed

lemma cache_take_ok:
  assumes "dvpp_wf st" and "t < DVPP_NUM_THREADS"
  shows "\<exists>st'. cache_take t st =
             Some (if cached t st = [] then None else Some (hd (cached t st)), st')
           \<and> dvpp_wf st' \<and> cached t st' = tl (cached t st)
           \<and> (\<forall>u. u \<noteq> t \<longrightarrow> cached u st' = cached u st)
           \<and> st' = st\<lparr>mini_cache := mini_cache st'\<rparr>"
proof -
  let ?c = "mini_cache st ! t"
  have inv: "cache_inv ?c" and l: "t < length (mini_cache st)"
    using assms by (auto simp: dvpp_wf_def)
  obtain d c' where dq: "dvpp_cache_dequeue ?c = (d, c')" by (cases "dvpp_cache_dequeue ?c")
  have "d = (if cached t st = [] then None else Some (hd (cached t st)))"
    and "cache_list c' = tl (cached t st)" and "cache_inv c'"
    using ring.deq_Nil [OF inv] ring.deq_Cons [OF inv] ring.inv_deq [OF inv] dq
    by (cases "cache_list ?c = []"; auto simp: cached_def)+
  with assms(1) l dq show ?thesis
    by (auto simp: cache_take_def arr_get_def cached_def dvpp_wf_def
        dest!: set_update_subset_insert [THEN subsetD])
qed

lemma upd_stats_ok:
  assumes "dvpp_wf st" and "port < DVPP_NUM_PORT"
  shows "\<exists>st'. upd_stats port f st = Some st' \<and> dvpp_wf st'
           \<and> st' = st\<lparr>main_stats := main_stats st'\<rparr>"
  using assms by (auto simp: upd_stats_def arr_get_def dvpp_wf_def)

lemma wf_maps [simp]: "dvpp_wf st \<Longrightarrow> maps_ptr st = Some m \<Longrightarrow> maps_wf m"
  by (simp add: dvpp_wf_def)

lemma upd_maps_ok:
  assumes "dvpp_wf st" and "maps_ptr st = Some m" and "f m = Some m'" and "maps_wf m'"
  shows "upd_maps f st = Some (st\<lparr>maps_ptr := Some m'\<rparr>) \<and> dvpp_wf (st\<lparr>maps_ptr := Some m'\<rparr>)"
  using assms by (auto simp: upd_maps_def dvpp_wf_def)

lemma report_cache_level_ok:
  assumes "dvpp_wf st" and "maps_ptr st = Some m" and "t < DVPP_NUM_THREADS" and "cid < DVPP_NUM_THREADS"
  shows "\<exists>st' m'. report_cache_level t cid st = Some st' \<and> dvpp_wf st'
           \<and> maps_ptr st' = Some m' \<and> st' = st\<lparr>maps_ptr := Some m'\<rparr>
           \<and> m' = m\<lparr>cache_level := (cache_level m)[t := dvpp_cache_size (mini_cache st ! cid)]\<rparr>"
proof -
  let ?m = "m\<lparr>cache_level := (cache_level m)[t := dvpp_cache_size (mini_cache st ! cid)]\<rparr>"
  have mw: "maps_wf m" using assms by simp
  have "arr_get (mini_cache st) cid = Some (mini_cache st ! cid)"
    using assms by (simp add: arr_get_def dvpp_wf_def)
  moreover have "upd_maps (\<lambda>m. do {
       l \<leftarrow> arr_set (cache_level m) t (dvpp_cache_size (mini_cache st ! cid));
       Some (m\<lparr>cache_level := l\<rparr>) }) st = Some (st\<lparr>maps_ptr := Some ?m\<rparr>)
     \<and> dvpp_wf (st\<lparr>maps_ptr := Some ?m\<rparr>)"
    using assms(3) mw by (intro upd_maps_ok [OF assms(1,2)]) (auto simp: arr_set_def maps_wf_def)
  ultimately show ?thesis by (auto simp: report_cache_level_def)
qed

lemma index_to_block_bound: "index_to_block v < DVPP_MAX_NB_BLOCK"
proof -
  have "drop_bit (21 - 6) v AND (128 - 1) \<le> (127 :: u32)" by (simp add: word_and_le1)
  then show ?thesis by (simp add: index_to_block_def word_le_nat_alt)
qed

lemma alloc_desc_ok: "dvpp_wf st \<Longrightarrow> \<exists>b. alloc_desc v st = Some b"
  using index_to_block_bound [of v]
  by (simp add: alloc_desc_def dvpp_mini_set_kernel_address_def arr_get_def dvpp_wf_def)

lemma alloc_desc_cong: "blocks st' = blocks st \<Longrightarrow> alloc_desc v st' = alloc_desc v st"
  by (simp add: alloc_desc_def dvpp_mini_set_kernel_address_def)

lemma sync_alloc_loop_ok:
  assumes "dvpp_wf st" and "t < DVPP_NUM_THREADS" and "length (cached t st) + length vs \<le> DVPP_NB_BUFFERS"
  shows "\<exists>st'. sync_alloc_loop t vs st = Some st' \<and> dvpp_wf st'
           \<and> cached t st' = cached t st @ map (\<lambda>v. the (alloc_desc v st)) vs
           \<and> (\<forall>u. u \<noteq> t \<longrightarrow> cached u st' = cached u st)
           \<and> st' = st\<lparr>mini_cache := mini_cache st'\<rparr>"
  using assms
proof (induction vs arbitrary: st)
  case (Cons v vs)
  obtain b where b: "alloc_desc v st = Some b" using alloc_desc_ok [OF Cons.prems(1)] by blast
  from cache_put_ok [OF Cons.prems(1,2), of b] Cons.prems(3) obtain st1
    where st1: "cache_put b t st = Some st1" "dvpp_wf st1" "cached t st1 = cached t st @ [b]"
      "\<forall>u. u \<noteq> t \<longrightarrow> cached u st1 = cached u st" "st1 = st\<lparr>mini_cache := mini_cache st1\<rparr>" by auto
  have bl: "blocks st1 = blocks st" by (subst st1(5)) simp
  from Cons.IH [OF st1(2) Cons.prems(2)] st1(3) Cons.prems(3) obtain st'
    where st': "sync_alloc_loop t vs st1 = Some st'" "dvpp_wf st'"
      "cached t st' = cached t st1 @ map (\<lambda>v. the (alloc_desc v st1)) vs"
      "\<forall>u. u \<noteq> t \<longrightarrow> cached u st' = cached u st1" "st' = st1\<lparr>mini_cache := mini_cache st'\<rparr>" by auto
  have "st' = st\<lparr>mini_cache := mini_cache st'\<rparr>"
    by (subst st'(5), subst st1(5)) simp
  moreover have "alloc_desc v' st1 = alloc_desc v' st" for v'
    using bl by (rule alloc_desc_cong)
  ultimately show ?case using b st1 st' by auto
qed simp

lemma wf_port_map:
  assumes "dvpp_wf st" and "maps_ptr st = Some m" and "port < DVPP_NUM_PORT"
  shows "port_map_of port st = Some (pmaps m ! port) \<and> port_map_wf (pmaps m ! port)"
  using assms wf_maps [OF assms(1,2)]
  by (auto simp: port_map_of_def arr_get_def maps_wf_def)

lemma sync_rx_alloc_ok:
  assumes wf: "dvpp_wf st" and m: "maps_ptr st = Some m" and p: "unat (sync_port sync) < DVPP_NUM_PORT"
    and t: "unat (sync_thread sync) < DVPP_NUM_THREADS" and cid: "cid < DVPP_NUM_THREADS"
    and n: "unat (sync_alloc_size sync) \<le> DVPP_ALLOC_VLEN"
    and room: "length (cached cid st) + unat (sync_alloc_size sync) \<le> DVPP_NB_BUFFERS"
  shows "\<exists>st' m'. sync_rx_alloc cid sync st = Some st' \<and> dvpp_wf st' \<and> maps_ptr st' = Some m'
           \<and> cached cid st' = cached cid st @ map (\<lambda>v. the (alloc_desc v st))
               (take (unat (sync_alloc_size sync))
                  (alloc_vector (pmaps m ! unat (sync_port sync)) ! unat (sync_thread sync)))
           \<and> (\<forall>u. u \<noteq> cid \<longrightarrow> cached u st' = cached u st)
           \<and> pmaps m' = pmaps m \<and> release_count m' = release_count m
           \<and> st' = st\<lparr>mini_cache := mini_cache st', maps_ptr := Some m'\<rparr>"
proof (cases "unat (sync_alloc_size sync) = 0")
  case True
  with assms show ?thesis by (auto simp: sync_rx_alloc_def)
next
  case False
  let ?pm = "pmaps m ! unat (sync_port sync)" and ?n = "unat (sync_alloc_size sync)"
  let ?v = "alloc_vector ?pm ! unat (sync_thread sync)"
  have pm: "port_map_of (unat (sync_port sync)) st = Some ?pm" "port_map_wf ?pm"
    using wf_port_map [OF wf m p] by auto
  then have v: "arr_get (alloc_vector ?pm) (unat (sync_thread sync)) = Some ?v" "length ?v = DVPP_ALLOC_VLEN"
    using t by (auto simp: arr_get_def port_map_wf_def)
  have "length (cached cid st) + length (take ?n ?v) \<le> DVPP_NB_BUFFERS" using room n v(2) by simp
  from sync_alloc_loop_ok [OF wf cid this] obtain st1
    where st1: "sync_alloc_loop cid (take ?n ?v) st = Some st1" "dvpp_wf st1"
      "cached cid st1 = cached cid st @ map (\<lambda>v. the (alloc_desc v st)) (take ?n ?v)"
      "\<forall>u. u \<noteq> cid \<longrightarrow> cached u st1 = cached u st" "st1 = st\<lparr>mini_cache := mini_cache st1\<rparr>" by blast
  have m1: "maps_ptr st1 = Some m" using m by (subst st1(5)) simp
  from report_cache_level_ok [OF st1(2) m1 t cid] obtain st' m'
    where st': "report_cache_level (unat (sync_thread sync)) cid st1 = Some st'" "dvpp_wf st'"
      "maps_ptr st' = Some m'" "st' = st1\<lparr>maps_ptr := Some m'\<rparr>"
      "m' = m\<lparr>cache_level := (cache_level m)[unat (sync_thread sync) :=
               dvpp_cache_size (mini_cache st1 ! cid)]\<rparr>" by blast
  have c: "cached u st' = cached u st1" for u by (subst st'(4)) (simp add: cached_def)
  have "sync_rx_alloc cid sync st = Some st'"
    using False pm v n st1 st'(1) by (simp add: sync_rx_alloc_def Let_def)
  moreover have "st' = st\<lparr>mini_cache := mini_cache st', maps_ptr := Some m'\<rparr>"
    by (subst st'(4), subst st1(5)) (simp add: st'(4))
  ultimately show ?thesis using st1 st' c by auto
qed

text \<open>Replacing the release vector of one thread keeps the shared area well formed.\<close>

lemma maps_wf_release:
  assumes "maps_wf m" and "p < DVPP_NUM_PORT" and "length v = DVPP_VLEN"
  shows "maps_wf (m\<lparr>pmaps := (pmaps m)[p := (pmaps m ! p)\<lparr>release_vector :=
           (release_vector (pmaps m ! p))[t := v]\<rparr>]\<rparr>)"
proof -
  have "port_map_wf (pmaps m ! p)" using assms by (simp add: maps_wf_def)
  then have "port_map_wf ((pmaps m ! p)\<lparr>release_vector := (release_vector (pmaps m ! p))[t := v]\<rparr>)"
    using assms(3) by (auto simp: port_map_wf_def dest!: set_update_subset_insert [THEN subsetD])
  with assms show ?thesis
    by (auto simp: maps_wf_def dest!: set_update_subset_insert [THEN subsetD])
qed

lemma length_deq_n [simp]: "length (fst (deq_n f n q)) = n"
  by (induction n arbitrary: q) (auto simp: case_prod_unfold Let_def)

lemma set_release_count_ok:
  assumes wf: "dvpp_wf st" and m: "maps_ptr st = Some m" and t: "t < DVPP_NUM_THREADS"
  shows "\<exists>m'. set_release_count t n st = Some (st\<lparr>maps_ptr := Some m'\<rparr>)
           \<and> dvpp_wf (st\<lparr>maps_ptr := Some m'\<rparr>) \<and> pmaps m' = pmaps m \<and> release_count m' ! t = n"
proof -
  let ?m = "m\<lparr>release_count := (release_count m)[t := n]\<rparr>"
  have mw: "maps_wf m" using wf m by simp
  then have "set_release_count t n st = Some (st\<lparr>maps_ptr := Some ?m\<rparr>)
      \<and> dvpp_wf (st\<lparr>maps_ptr := Some ?m\<rparr>)"
    using t unfolding set_release_count_def
    by (intro upd_maps_ok [OF wf m]) (auto simp: arr_set_def maps_wf_def)
  with mw t show ?thesis by (intro exI [of _ ?m]) (auto simp: maps_wf_def)
qed

lemma store_release_ok:
  assumes wf: "dvpp_wf st" and m: "maps_ptr st = Some m" and p: "p < DVPP_NUM_PORT"
    and t: "t < DVPP_NUM_THREADS" and l: "length ds = DVPP_VLEN"
  shows "\<exists>m'. store_release p t ds st = Some (st\<lparr>maps_ptr := Some m'\<rparr>)
           \<and> dvpp_wf (st\<lparr>maps_ptr := Some m'\<rparr>)
           \<and> release_vector (pmaps m' ! p) ! t = map release_index ds
           \<and> release_count m' ! t = of_nat DVPP_VLEN"
proof -
  let ?v = "map release_index ds" and ?pm = "pmaps m ! p"
  let ?m1 = "m\<lparr>pmaps := (pmaps m)[p := ?pm\<lparr>release_vector := (release_vector ?pm)[t := ?v]\<rparr>]\<rparr>"
  have mw: "maps_wf m" and pmw: "port_map_wf ?pm" using wf m p by (auto simp: maps_wf_def dvpp_wf_def)
  have w1: "maps_wf ?m1" by (rule maps_wf_release [OF mw p]) (simp add: l)
  let ?st1 = "st\<lparr>maps_ptr := Some ?m1\<rparr>"
  have s1: "set_port_map p (\<lambda>m. do {
              v \<leftarrow> arr_get (release_vector m) t;
              if length v < length ds then None
              else Some (m\<lparr>release_vector := (release_vector m)[t :=
                     map release_index ds @ drop (length ds) v]\<rparr>) }) st = Some ?st1 \<and> dvpp_wf ?st1"
    unfolding set_port_map_def using w1 mw pmw p t l
    by (intro upd_maps_ok [OF wf m]) (auto simp: arr_get_def maps_wf_def port_map_wf_def)
  from set_release_count_ok [of ?st1 ?m1 t "of_nat DVPP_VLEN"] s1 t obtain m'
    where m': "set_release_count t (of_nat DVPP_VLEN) ?st1 = Some (st\<lparr>maps_ptr := Some m'\<rparr>)"
      "dvpp_wf (st\<lparr>maps_ptr := Some m'\<rparr>)" "pmaps m' = pmaps ?m1" "release_count m' ! t = of_nat DVPP_VLEN"
    by auto
  with s1 l have "store_release p t ds st = Some (st\<lparr>maps_ptr := Some m'\<rparr>)"
    by (simp add: store_release_def)
  with m' mw pmw p t show ?thesis by (auto simp: maps_wf_def port_map_wf_def)
qed

lemma sync_rx_release_ok:
  assumes wf: "dvpp_wf st" and m: "maps_ptr st = Some m" and p: "unat (sync_port sync) < DVPP_NUM_PORT"
    and t: "unat (sync_thread sync) < DVPP_NUM_THREADS" and cid: "cid < DVPP_NUM_THREADS"
  shows "\<exists>st' m'. sync_rx_release cid sync st = Some st' \<and> dvpp_wf st' \<and> maps_ptr st' = Some m'
           \<and> (\<forall>u. u \<noteq> cid \<longrightarrow> cached u st' = cached u st)
           \<and> (if DVPP_THRESHOLD_HIGH < length (cached cid st)
              then cached cid st' = drop DVPP_VLEN (cached cid st)
                \<and> release_vector (pmaps m' ! unat (sync_port sync)) ! unat (sync_thread sync)
                    = map (\<lambda>d. ucast (seg_lo d)) (take DVPP_VLEN (cached cid st))
                \<and> release_count m' ! unat (sync_thread sync) = of_nat DVPP_VLEN
              else cached cid st' = cached cid st
                \<and> release_count m' ! unat (sync_thread sync) = 0)"
proof -
  let ?p = "unat (sync_port sync)" and ?t = "unat (sync_thread sync)" and ?c = "mini_cache st ! cid"
  have inv: "cache_inv ?c" and lc: "cid < length (mini_cache st)"
    using wf cid by (auto simp: dvpp_wf_def)
  have gc: "arr_get (mini_cache st) cid = Some ?c" using lc by (simp add: arr_get_def)
  have size: "unat (dvpp_cache_size ?c) = length (cached cid st)"
    by (simp add: dvpp_cache_size_def cached_def)
  show ?thesis
  proof (cases "DVPP_THRESHOLD_HIGH < length (cached cid st)")
    case True
    obtain ds c' where dq: "deq_n dvpp_cache_dequeue DVPP_VLEN ?c = (ds, c')"
      by (cases "deq_n dvpp_cache_dequeue DVPP_VLEN ?c")
    have d: "ds = map Some (take DVPP_VLEN (cached cid st))"
      "cache_list c' = drop DVPP_VLEN (cached cid st)" "cache_inv c'"
      using ring.deq_all [OF inv, of DVPP_VLEN] True dq by (auto simp: cached_def)
    let ?st0 = "st\<lparr>mini_cache := (mini_cache st)[cid := c']\<rparr>"
    let ?f = "\<lambda>s :: dvpp_port_stats. s\<lparr>free_to_vpp := free_to_vpp s + of_nat DVPP_VLEN\<rparr>"
    have wf0: "dvpp_wf ?st0"
      using wf d(3) by (auto simp: dvpp_wf_def dest!: set_update_subset_insert [THEN subsetD])
    from upd_stats_ok [OF wf0 p, of ?f] obtain st1
      where st1: "upd_stats ?p ?f ?st0 = Some st1" "dvpp_wf st1"
        "st1 = ?st0\<lparr>main_stats := main_stats st1\<rparr>" by blast
    have m1: "maps_ptr st1 = Some m" using m by (subst st1(3)) simp
    from store_release_ok [OF st1(2) m1 p t, of ds] True d(1) obtain m2
      where m2: "store_release ?p ?t ds st1 = Some (st1\<lparr>maps_ptr := Some m2\<rparr>)"
        "dvpp_wf (st1\<lparr>maps_ptr := Some m2\<rparr>)"
        "release_vector (pmaps m2 ! ?p) ! ?t = map release_index ds"
        "release_count m2 ! ?t = of_nat DVPP_VLEN" by auto
    from report_cache_level_ok [OF m2(2) _ t cid, of m2] obtain st' m'
      where st': "report_cache_level ?t cid (st1\<lparr>maps_ptr := Some m2\<rparr>) = Some st'" "dvpp_wf st'"
        "maps_ptr st' = Some m'" "st' = st1\<lparr>maps_ptr := Some m'\<rparr>" "pmaps m' = pmaps m2"
        "release_count m' = release_count m2" by auto
    have mc: "mini_cache st' = (mini_cache st)[cid := c']"
      by (subst st'(4), simp) (subst st1(3), simp)
    have "sync_rx_release cid sync st = Some st'"
      using True size st1(1) m2(1) st'(1) by (simp add: sync_rx_release_def gc dq Let_def)
    moreover have "release_index \<circ> Some = (\<lambda>d. ucast (seg_lo d))"
      by (simp add: release_index_def comp_def)
    ultimately show ?thesis using True st' mc lc d m2 by (auto simp: cached_def)
  next
    case False
    from set_release_count_ok [OF wf m t, of 0] obtain m2
      where m2: "set_release_count ?t 0 st = Some (st\<lparr>maps_ptr := Some m2\<rparr>)"
        "dvpp_wf (st\<lparr>maps_ptr := Some m2\<rparr>)" "release_count m2 ! ?t = 0" by blast
    from report_cache_level_ok [OF m2(2) _ t cid, of m2] obtain st' m'
      where st': "report_cache_level ?t cid (st\<lparr>maps_ptr := Some m2\<rparr>) = Some st'" "dvpp_wf st'"
        "maps_ptr st' = Some m'" "st' = st\<lparr>maps_ptr := Some m'\<rparr>"
        "release_count m' = release_count m2" by auto
    have mc: "mini_cache st' = mini_cache st" by (subst st'(4)) simp
    have "sync_rx_release cid sync st = Some st'"
      using False size m2(1) st'(1) by (simp add: sync_rx_release_def gc Let_def)
    then show ?thesis using False st' mc m2(3) by (auto simp: cached_def)
  qed
qed

section \<open>The network driver\<close>

text \<open>
  What the allocator relies on of a driver: its functions change the module's state only through
  the module's interface, so they keep it well formed and do not unmap the shared area, and the
  receive and queue-level functions stay inside the vectors they are given. Injecting a packet
  into the network stack does not register another driver.
\<close>

definition mapped :: "'d dvpp_state \<Rightarrow> bool" where
  "mapped st \<longleftrightarrow> dvpp_wf st \<and> maps_ptr st \<noteq> None"

definition driver_ok :: "'d driver \<Rightarrow> bool" where
  "driver_ok drv \<longleftrightarrow> (\<forall>st. mapped st \<longrightarrow>
      (\<forall>f c q v n. mapped (snd (call_tx drv f c q v n st)))
      \<and> (\<forall>f c n. mapped (snd (snd (call_rx drv f c n st)))
           \<and> length (fst (snd (call_rx drv f c n st))) \<le> DVPP_VLEN + 8)
      \<and> (\<forall>f c. mapped (call_tx_complete drv f c st))
      \<and> (\<forall>f c. mapped (snd (call_tx_avail drv f c st))
           \<and> length (fst (call_tx_avail drv f c st)) = DVPP_NUM_PIPE_PER_PORT)
      \<and> (\<forall>f c. mapped (call_cancel_dma drv f c st))
      \<and> (\<forall>f c b q. mapped (call_inject drv f c b q st) \<and> ops (call_inject drv f c b q st) = ops st))"

lemma mapped_upd_stats:
  assumes "mapped st" and "port < DVPP_NUM_PORT"
  shows "\<exists>st'. upd_stats port f st = Some st' \<and> mapped st' \<and> ops st' = ops st"
proof -
  from upd_stats_ok [of st port f] assms obtain st'
    where "upd_stats port f st = Some st'" "dvpp_wf st'" "st' = st\<lparr>main_stats := main_stats st'\<rparr>"
    by (auto simp: mapped_def)
  moreover from this(3) have "maps_ptr st' = maps_ptr st" "ops st' = ops st"
    by (metis dvpp_state.select_convs(7,8) dvpp_state.surjective dvpp_state.update_convs(9))+
  ultimately show ?thesis using assms(1) by (auto simp: mapped_def)
qed

lemma mapped_port:
  assumes "mapped st" and "port < DVPP_NUM_PORT"
  shows "arr_get (ports st) port = Some (ports st ! port)
       \<and> (pipe < DVPP_NUM_PIPE_PER_PORT \<longrightarrow>
            arr_get (port_pipes (ports st ! port)) pipe = Some (port_pipes (ports st ! port) ! pipe))
       \<and> (\<exists>pm. port_map_of port st = Some pm \<and> port_map_wf pm)"
  using assms wf_port_map [of st _ port]
  by (auto simp: mapped_def dvpp_wf_def arr_get_def port_wf_def)

lemma mapped_set_port_map:
  assumes "mapped st" and "port < DVPP_NUM_PORT"
    and "\<And>m. port_map_wf m \<Longrightarrow> \<exists>m'. f m = Some m' \<and> port_map_wf m'"
  shows "\<exists>st'. set_port_map port f st = Some st' \<and> mapped st'"
proof -
  obtain m where m: "maps_ptr st = Some m" "dvpp_wf st" using assms(1) by (auto simp: mapped_def)
  then have mw: "maps_wf m" by simp
  then have "port_map_wf (pmaps m ! port)" using assms(2) by (simp add: maps_wf_def)
  then obtain pm' where pm': "f (pmaps m ! port) = Some pm'" "port_map_wf pm'" using assms(3) by blast
  let ?m = "m\<lparr>pmaps := (pmaps m)[port := pm']\<rparr>"
  have "maps_wf ?m"
    using mw pm'(2) by (auto simp: maps_wf_def dest!: set_update_subset_insert [THEN subsetD])
  then have "set_port_map port f st = Some (st\<lparr>maps_ptr := Some ?m\<rparr>) \<and> dvpp_wf (st\<lparr>maps_ptr := Some ?m\<rparr>)"
    unfolding set_port_map_def using mw pm'(1) assms(2)
    by (intro upd_maps_ok [OF m(2,1)]) (auto simp: arr_get_def maps_wf_def)
  then show ?thesis by (auto simp: mapped_def)
qed

lemma driver_ok_calls:
  assumes "driver_ok drv" and "mapped st"
  shows "call_tx drv f c q v n st = (r, st') \<Longrightarrow> mapped st'"
    and "call_rx drv f c n st = (r, ds, st') \<Longrightarrow> mapped st' \<and> length ds \<le> DVPP_VLEN + 8"
    and "mapped (call_tx_complete drv f c st)"
    and "call_tx_avail drv f c st = (av, st') \<Longrightarrow> mapped st' \<and> length av = DVPP_NUM_PIPE_PER_PORT"
    and "mapped (call_cancel_dma drv f c st)"
    and "mapped (call_inject drv f c b q st)" and "ops (call_inject drv f c b q st) = ops st"
  using assms unfolding driver_ok_def by (metis fst_conv snd_conv)+

lemma sync_transmit_safe:
  assumes drv: "driver_ok drv" and st: "mapped st" and p: "unat (sync_port sync) < DVPP_NUM_PORT"
    and q: "unat (sync_pipe sync) < DVPP_NUM_PIPE_PER_PORT"
    and t: "unat (sync_thread sync) < DVPP_NUM_THREADS" and f: "tx_fn (ops st) \<noteq> 0"
  shows "\<exists>r st'. sync_transmit drv sync st = Some (r, st') \<and> mapped st'"
proof -
  let ?p = "unat (sync_port sync)" and ?q = "unat (sync_pipe sync)"
  from mapped_port [OF st p, of ?q] q obtain pm
    where pm: "port_map_of ?p st = Some pm" "port_map_wf pm"
      and port: "arr_get (ports st) ?p = Some (ports st ! ?p)"
        "arr_get (port_pipes (ports st ! ?p)) ?q = Some (port_pipes (ports st ! ?p) ! ?q)" by blast
  obtain dv where dv: "arr_get (tx_vector pm) (unat (sync_thread sync)) = Some dv"
    using pm(2) t by (auto simp: arr_get_def port_map_wf_def)
  obtain cnt st1 where call: "call_tx drv (tx_fn (ops st)) (port_context (ports st ! ?p))
      (sync_pipe sync) dv (unat (sync_size sync)) st = (cnt, st1)" by fastforce
  then have st1: "mapped st1" using driver_ok_calls(1) [OF drv st] by blast
  have upd: "\<exists>r st'. upd_stats ?p f st1 \<bind> (\<lambda>st2. Some (cnt, st2)) = Some (r, st') \<and> mapped st'" for f
    using mapped_upd_stats [OF st1 p, of f] by auto
  show ?thesis
    using st st1 f by (auto simp: sync_transmit_def pm(1) dv port call Let_def intro!: upd)
qed

lemma sync_rx_driver_safe:
  assumes drv: "driver_ok drv" and st: "mapped st" and p: "unat (sync_port sync) < DVPP_NUM_PORT"
    and t: "unat (sync_thread sync) < DVPP_NUM_THREADS"
  shows "\<exists>r st'. sync_rx_driver drv sync st = Some (r, st') \<and> mapped st'"
proof -
  let ?p = "unat (sync_port sync)" and ?t = "unat (sync_thread sync)"
  from mapped_port [OF st p] obtain pm
    where pm: "port_map_of ?p st = Some pm" "port_map_wf pm"
      and port: "arr_get (ports st) ?p = Some (ports st ! ?p)" by blast
  obtain dv where dv: "arr_get (rx_vector pm) ?t = Some dv"
    using pm(2) t by (auto simp: arr_get_def port_map_wf_def)
  obtain cnt ds st1 where call: "call_rx drv (rx_fn (ops st)) (port_context (ports st ! ?p))
      (unat (sync_size sync)) st = (cnt, ds, st1)" by (metis prod.exhaust)
  then have st1: "mapped st1" "length ds \<le> DVPP_VLEN + 8" using driver_ok_calls(2) [OF drv st] by blast+
  let ?f = "\<lambda>m. do {
              v \<leftarrow> arr_get (rx_vector m) ?t;
              if length v < length ds then None
              else Some (m\<lparr>rx_vector := (rx_vector m)[?t := ds @ drop (length ds) v]\<rparr>) }"
  have "\<exists>m'. ?f m = Some m' \<and> port_map_wf m'" if "port_map_wf m" for m
    using that st1(2) t by (auto simp: arr_get_def port_map_wf_def dest!: set_update_subset_insert [THEN subsetD])
  with mapped_set_port_map [OF st1(1) p, of ?f] obtain st2
    where st2: "set_port_map ?p ?f st1 = Some st2" "mapped st2" by blast
  from mapped_upd_stats [OF st2(2) p] obtain st3
    where st3: "upd_stats ?p (\<lambda>s. s\<lparr>pkts_from_driver := pkts_from_driver s + of_int cnt\<rparr>) st2 = Some st3"
      "mapped st3" by blast
  let ?st4 = "if tx_complete_fn (ops st3) \<noteq> 0 then call_tx_complete drv (tx_complete_fn (ops st3))
                 (port_context (ports st3 ! ?p)) st3 else st3"
  have st4: "mapped ?st4" using driver_ok_calls(3) [OF drv st3(2)] st3(2) by simp
  obtain av st5 where av: "call_tx_avail drv (tx_avail_fn (ops ?st4)) (port_context (ports ?st4 ! ?p)) ?st4
      = (av, st5)" by fastforce
  then have st5: "mapped st5" "length av = DVPP_NUM_PIPE_PER_PORT"
    using driver_ok_calls(4) [OF drv st4] by blast+
  let ?g = "\<lambda>m. if length av = length (tx_avail m) then Some (m\<lparr>tx_avail := av\<rparr>) else None"
  have "\<exists>m'. ?g m = Some m' \<and> port_map_wf m'" if "port_map_wf m" for m
    using that st5(2) by (auto simp: port_map_wf_def)
  with mapped_set_port_map [OF st5(1) p, of ?g] obtain st6
    where st6: "set_port_map ?p ?g st5 = Some st6" "mapped st6" by blast
  have p3: "arr_get (ports st3) ?p = Some (ports st3 ! ?p)" using mapped_port [OF st3(2) p] by blast
  have p4: "arr_get (ports ?st4) ?p = Some (ports ?st4 ! ?p)" using mapped_port [OF st4 p] by blast
  have "sync_rx_driver drv sync st =
      Some (cnt, if tx_avail_fn (ops ?st4) \<noteq> 0 then st6 else ?st4)"
    unfolding sync_rx_driver_def Let_def port pm(1) dv call st2(1) st3(1) p3 p4 prod.case Option.bind.simps av
    using st6(1) by simp
  then show ?thesis using st4 st6(2) by auto
qed

lemma inject_loop_safe:
  assumes drv: "driver_ok drv"
  shows "\<lbrakk>mapped st; inject_fn (ops st) \<noteq> 0; n \<le> length ds\<rbrakk> \<Longrightarrow> \<exists>st'. inject_loop k drv n ds head st = Some st' \<and> mapped st'"
proof (induction n arbitrary: ds head st)
  case (Suc n)
  then obtain d ds' where ds: "ds = d # ds'" and n: "n \<le> length ds'" by (cases ds) auto
  let ?p = "unat (desc_port_id d)" and ?q = "unat (desc_pipe_id d)"
  show ?case
  proof (cases "?p < DVPP_NUM_PORT \<and> ?q < DVPP_NUM_PIPE_PER_PORT")
    case True
    then have port: "arr_get (ports st) ?p = Some (ports st ! ?p)"
      "arr_get (port_pipes (ports st ! ?p)) ?q = Some (port_pipes (ports st ! ?p) ! ?q)"
      using mapped_port [OF Suc.prems(1), of ?p ?q] by auto
    obtain a where a: "dvpp_desc_kernel_address d st = Some a"
      using Suc.prems(1) index_to_block_bound [of "ucast (seg_lo d)"]
      by (auto simp: dvpp_desc_kernel_address_def arr_get_def mapped_def dvpp_wf_def Let_def)
    have upd: "\<exists>st1. upd_stats ?p f st = Some st1 \<and> (mapped st1 \<and> inject_fn (ops st1) \<noteq> 0)" for f
      using mapped_upd_stats [OF Suc.prems(1)] True Suc.prems(2) by metis
    have upd': "\<exists>st1. upd_stats ?p f st = Some st1 \<and> mapped st1" for f using upd by blast
    have next_st: "\<exists>st'. inject_loop k drv n ds' h st1 = Some st' \<and> mapped st'"
      "\<exists>st'. inject_loop k drv n ds' h (call_inject drv f c b q st1) = Some st' \<and> mapped st'"
      if "mapped st1" "inject_fn (ops st1) \<noteq> 0" for st1 h f c b q
      using Suc.IH [OF _ _ n] that driver_ok_calls(6,7) [OF drv that(1)] by metis+
    show ?thesis
      using True Suc.prems(1,2)
      by (auto simp add: ds port a Let_def simp del: upt_Suc
          intro!: bind_ok [OF upd] upd' next_st split: option.split)
  qed (use Suc.prems(1) in \<open>auto simp: ds\<close>)
qed simp

lemma sync_inject_safe:
  assumes drv: "driver_ok drv" and st: "mapped st" and p: "unat (sync_port sync) < DVPP_NUM_PORT"
    and t: "unat (sync_thread sync) < DVPP_NUM_THREADS" and n: "unat (sync_size sync) \<le> DVPP_VLEN + 8"
    and f: "inject_fn (ops st) \<noteq> 0"
  shows "\<exists>st'. sync_inject k drv sync st = Some (int (unat (sync_size sync)), st') \<and> mapped st'"
proof -
  from mapped_port [OF st p] obtain pm
    where pm: "port_map_of (unat (sync_port sync)) st = Some pm" "port_map_wf pm" by blast
  obtain dv where dv: "arr_get (tx_vector pm) (unat (sync_thread sync)) = Some dv" "length dv = DVPP_VLEN + 8"
    using pm(2) t by (auto simp: arr_get_def port_map_wf_def)
  from inject_loop_safe [OF drv st f, of _ dv k None] n dv(2) obtain st'
    where "inject_loop k drv (unat (sync_size sync)) dv None st = Some st'" "mapped st'" by metis
  then show ?thesis by (auto simp: sync_inject_def pm(1) dv(1))
qed

lemma sync_receive_safe:
  assumes drv: "driver_ok drv" and st: "mapped st" and p: "unat (sync_port sync) < DVPP_NUM_PORT"
    and t: "unat (sync_thread sync) < DVPP_NUM_THREADS" and cid: "cid < DVPP_NUM_THREADS"
    and n: "unat (sync_alloc_size sync) \<le> DVPP_ALLOC_VLEN"
    and room: "length (cached cid st) + unat (sync_alloc_size sync) \<le> DVPP_NB_BUFFERS"
  shows "\<exists>r st'. sync_receive drv cid sync st = Some (r, st') \<and> mapped st'"
proof -
  let ?p = "unat (sync_port sync)"
  let ?f = "\<lambda>s :: dvpp_port_stats. s\<lparr>vector_sync_rx := vector_sync_rx s + 1\<rparr>"
  have wf: "dvpp_wf st" using st by (simp add: mapped_def)
  from upd_stats_ok [OF wf p, of ?f] obtain st1
    where st1: "upd_stats ?p ?f st = Some st1" "dvpp_wf st1" "st1 = st\<lparr>main_stats := main_stats st1\<rparr>"
    by blast
  have same: "cached cid st1 = cached cid st" "maps_ptr st1 = maps_ptr st"
    by (subst st1(3), simp add: cached_def)+
  then obtain m where m: "maps_ptr st1 = Some m" using st by (auto simp: mapped_def)
  from sync_rx_alloc_ok [OF st1(2) m p t cid n] room same obtain st2
    where st2: "sync_rx_alloc cid sync st1 = Some st2" "mapped st2" by (auto simp: mapped_def)
  from sync_rx_driver_safe [OF drv st2(2) p t] obtain cnt st3 m3
    where st3: "sync_rx_driver drv sync st2 = Some (cnt, st3)" "dvpp_wf st3" "maps_ptr st3 = Some m3"
    by (auto simp: mapped_def)
  from sync_rx_release_ok [OF st3(2,3) p t cid] obtain st4
    where st4: "sync_rx_release cid sync st3 = Some st4" "mapped st4" by (auto simp: mapped_def)
  have port: "arr_get (ports st2) ?p = Some (ports st2 ! ?p)" using mapped_port [OF st2(2) p] by blast
  show ?thesis
    using st1(1) st2 st3(1) st4 port by (auto simp: sync_receive_def Let_def)
qed

lemma wf_thread_map:
  assumes "dvpp_wf st" and "port < DVPP_NUM_PORT"
  shows "arr_get (dvpp_thread_map st) port = Some (dvpp_thread_map st ! port)
       \<and> unat (dvpp_thread_map st ! port) < DVPP_NUM_THREADS"
  using assms by (auto simp: dvpp_wf_def arr_get_def)

section \<open>The module's globals at load time, and a concrete driver\<close>

definition dvpp_globals :: "'d \<Rightarrow> 'd dvpp_state" where
  "dvpp_globals d =
     \<lparr>mini_cache = replicate DVPP_NUM_THREADS dvpp_init_cache,
      dvpp_thread_map = [2, 2, 2, 2],
      blocks = replicate DVPP_MAX_NB_BLOCK 0,
      dvpp_nb_blocks = 0,
      has_user_block_map = False,
      ports = replicate DVPP_NUM_PORT
        \<lparr>port_enable = 0, port_pci = 0, port_context = 0, port_addr = replicate 6 0,
         port_pipes = replicate DVPP_NUM_PIPE_PER_PORT \<lparr>pipe_enable = 0, pipe_addr = replicate 6 0\<rparr>\<rparr>,
      maps_ptr = None,
      ops = \<lparr>tx_fn = 0, rx_fn = 0, tx_avail_fn = 0, tx_complete_fn = 0, cancel_dma_fn = 0, inject_fn = 0\<rparr>,
      main_stats = replicate DVPP_NUM_PORT
        \<lparr>driver_free = 0, free_to_vpp = 0, vector_sync_rx = 0, pkts_from_driver = 0,
         pipe_stats = replicate DVPP_NUM_PIPE_PER_PORT \<lparr>drops_from_vpp = 0, inject_mcast = 0\<rparr>\<rparr>,
      user_count = 0, platform_client_count = 0,
      poll_wait_exiting = False, poll_wait_state_pending = False,
      plist_head = \<lparr>nb_ports = 0, pipes_per_port = 0, mem_size = 0, buf_size = 0\<rparr>,
      dvpp_platform = False,
      drv_state = d\<rparr>"

lemma dvpp_wf_globals: "dvpp_wf (dvpp_globals d)"
  using cache_inv_init by (auto simp: dvpp_wf_def dvpp_globals_def port_wf_def)

lemma maps_wf_zero: "maps_wf zero_port_maps"
  by (auto simp: maps_wf_def port_map_wf_def zero_port_maps_def zero_port_map_def)

text \<open>
  A driver that receives one packet per call, in a buffer it takes from the port's cache, and
  transmits everything it is given; its private state counts its calls.
\<close>

definition sample_driver :: "nat driver" where
  "sample_driver =
     \<lparr>call_tx = (\<lambda>f c q v n st. (int n, st\<lparr>drv_state := drv_state st + 1\<rparr>)),
      call_rx = (\<lambda>f c n st. case dvpp_port_alloc_mini 0 st of
                   Some (Some d, st') \<Rightarrow> (1, [d\<lparr>seg_len := 64, seg_eop := True\<rparr>], st'\<lparr>drv_state := drv_state st + 1\<rparr>)
                 | _ \<Rightarrow> (0, [], st)),
      call_tx_complete = (\<lambda>f c st. st\<lparr>drv_state := drv_state st + 1\<rparr>),
      call_tx_avail = (\<lambda>f c st. (replicate DVPP_NUM_PIPE_PER_PORT 32, st)),
      call_cancel_dma = (\<lambda>f c st. st\<lparr>drv_state := 0\<rparr>),
      call_inject = (\<lambda>f c b q st. st\<lparr>drv_state := drv_state st + 1\<rparr>)\<rparr>"

lemma mapped_drv_state [simp]: "mapped (st\<lparr>drv_state := d\<rparr>) = mapped st"
  by (simp add: mapped_def dvpp_wf_def)

lemma dvpp_port_alloc_mini_mapped:
  assumes "mapped st" and "dvpp_port_alloc_mini port st = Some (d, st')"
  shows "mapped st'"
proof -
  have wf: "dvpp_wf st" using assms(1) by (simp add: mapped_def)
  show ?thesis
  proof (cases "unat port < DVPP_NUM_PORT \<and> port_enable (ports st ! unat port) \<noteq> 0")
    case True
    let ?t = "unat (dvpp_thread_map st ! unat port)"
    have t: "arr_get (dvpp_thread_map st) (unat port) = Some (dvpp_thread_map st ! unat port)"
      "?t < DVPP_NUM_THREADS" using wf_thread_map [OF wf] True by blast+
    have p: "arr_get (ports st) (unat port) = Some (ports st ! unat port)"
      using mapped_port [OF assms(1)] True by blast
    from cache_take_ok [OF wf t(2)] obtain st1
      where "cache_take ?t st = Some (if cached ?t st = [] then None else Some (hd (cached ?t st)), st1)"
        "dvpp_wf st1" "st1 = st\<lparr>mini_cache := mini_cache st1\<rparr>" by blast
    moreover from this(3) have "maps_ptr st1 = maps_ptr st"
      by (metis dvpp_state.select_convs(7) dvpp_state.surjective dvpp_state.update_convs(1))
    ultimately show ?thesis using assms True t(1) p by (auto simp: dvpp_port_alloc_mini_def mapped_def)
  next
    case False
    then show ?thesis using assms
      by (auto simp: dvpp_port_alloc_mini_def arr_get_def mapped_def dvpp_wf_def split: if_splits)
  qed
qed

lemma sample_driver_ok: "driver_ok sample_driver"
  by (auto simp: driver_ok_def sample_driver_def dest: dvpp_port_alloc_mini_mapped
      split: option.split prod.split)

text \<open>A port in service: two ports enabled, the driver registered and the shared area mapped.\<close>

definition sample_state :: "nat dvpp_state" where
  "sample_state =
     (dvpp_globals (0 :: nat))\<lparr>maps_ptr := Some zero_port_maps, has_user_block_map := True,
        ports := (ports (dvpp_globals (0 :: nat)))[0 := (ports (dvpp_globals (0 :: nat)) ! 0)\<lparr>port_enable := 1,
          port_pipes := replicate DVPP_NUM_PIPE_PER_PORT \<lparr>pipe_enable = 1, pipe_addr = replicate 6 0\<rparr>\<rparr>],
        ops := \<lparr>tx_fn = 1, rx_fn = 1, tx_avail_fn = 1, tx_complete_fn = 1, cancel_dma_fn = 1, inject_fn = 1\<rparr>\<rparr>"

lemma sample_state_mapped: "mapped sample_state"
  using dvpp_wf_globals [of 0] maps_wf_zero
  by (auto simp: mapped_def dvpp_wf_def sample_state_def port_wf_def
      dest!: set_update_subset_insert [THEN subsetD])

lemma sample_state_cached [simp]: "cached 2 sample_state = []"
  by (simp add: sample_state_def dvpp_globals_def cached_def cache_inv_init)

lemma sample_state_ops [simp]: "tx_fn (ops sample_state) = 1" "inject_fn (ops sample_state) = 1"
  by (simp_all add: sample_state_def)

lemma sample_state_thread [simp]: "dvpp_thread_map sample_state = [2, 2, 2, 2]"
  by (simp add: sample_state_def dvpp_globals_def)

section \<open>Properties\<close>

lemma sync_vector_ok:
  assumes "driver_ok drv" and "mapped st" and "unat (sync_thread sync) < DVPP_NUM_THREADS"
    and "unat (sync_size sync) \<le> DVPP_VLEN + 8" and "unat (sync_alloc_size sync) \<le> DVPP_ALLOC_VLEN"
    and f: "tx_fn (ops st) \<noteq> 0" "inject_fn (ops st) \<noteq> 0"
    and "unat (sync_port sync) < DVPP_NUM_PORT \<Longrightarrow>
      length (cached (unat (dvpp_thread_map st ! unat (sync_port sync))) st)
        + unat (sync_alloc_size sync) \<le> DVPP_NB_BUFFERS"
  shows "\<exists>r st'. dvpp_sync_vector k drv sync st = Some (r, st') \<and> mapped st'"
proof (cases "unat (sync_port sync) < DVPP_NUM_PORT \<and> unat (sync_pipe sync) < DVPP_NUM_PIPE_PER_PORT")
  case True
  then have p: "unat (sync_port sync) < DVPP_NUM_PORT" by simp
  have "dvpp_wf st" using assms(2) by (simp add: mapped_def)
  note tm = wf_thread_map [OF this p]
  have r: "\<exists>r st'. sync_receive drv (unat (dvpp_thread_map st ! unat (sync_port sync))) sync st = Some (r, st')
      \<and> mapped st'"
    using sync_receive_safe [OF assms(1,2) p assms(3) _ assms(5)] tm assms(8) [OF p] by blast
  show ?thesis
    using True tm r sync_transmit_safe [OF assms(1,2) p _ assms(3) f(1)]
      sync_inject_safe [OF assms(1,2) p assms(3,4) f(2), of k] assms(2)
    by (auto simp: dvpp_sync_vector_def Let_def)
qed (use assms(2) in \<open>auto simp: dvpp_sync_vector_def\<close>)


definition sample_kern :: "nat kern" where
  "sample_kern = \<lparr>kmem = (\<lambda>st a. ucast a), alloc_skb_ok = (\<lambda>st n. True), coalesce_ok = (\<lambda>h b. True)\<rparr>"

definition sample_sync :: dvpp_vector_sync where
  "sample_sync = \<lparr>sync_size = 4, sync_code = 3, sync_thread = 1, sync_port = 0, sync_pipe = 0,
                  sync_alloc_size = 8\<rparr>"


text \<open>A request with a port above 3, a pipe above 15 or an unknown operation code is refused
  with \<open>-EINVAL\<close> and changes nothing; every other request is carried out by the operation its
  code names.\<close>

theorem dvpp_sync_vector_dispatch:
  assumes "dvpp_wf st"
  shows "dvpp_sync_vector k drv sync st =
    (if 4 \<le> sync_port sync \<or> 16 \<le> sync_pipe sync \<or> sync_code sync \<notin> {2, 3, 4} then Some (- EINVAL, st)
     else if sync_code sync = 2 then sync_transmit drv sync st
     else if sync_code sync = 3
     then sync_receive drv (unat (dvpp_thread_map st ! unat (sync_port sync))) sync st
     else sync_inject k drv sync st)"
proof -
  have "4 \<le> sync_port sync \<longleftrightarrow> DVPP_NUM_PORT \<le> unat (sync_port sync)"
    and "16 \<le> sync_pipe sync \<longleftrightarrow> DVPP_NUM_PIPE_PER_PORT \<le> unat (sync_pipe sync)"
    by (simp_all add: word_le_nat_alt)
  then show ?thesis
    using wf_thread_map [OF assms, of "unat (sync_port sync)"]
    by (auto simp: dvpp_sync_vector_def Let_def)
qed

theorem dvpp_sync_vector_dispatch_witness:
  "dvpp_sync_vector sample_kern sample_driver (sample_sync\<lparr>sync_port := 4\<rparr>) sample_state
     = Some (- EINVAL, sample_state)
   \<and> dvpp_sync_vector sample_kern sample_driver (sample_sync\<lparr>sync_code := 7\<rparr>) sample_state
     = Some (- EINVAL, sample_state)"
  using dvpp_sync_vector_dispatch [of sample_state] sample_state_mapped
  by (simp add: mapped_def sample_sync_def)

text \<open>Buffers that VPP hands down with a receive request enter the kernel cache in order,
  behind what it already holds, each with the index VPP gave, the address that index translates
  to and the headroom reset; nothing else of the caches changes.\<close>

theorem sync_rx_alloc_delivers:
  assumes "dvpp_wf st" and "maps_ptr st = Some m" and "unat (sync_port sync) < DVPP_NUM_PORT"
    and "unat (sync_thread sync) < DVPP_NUM_THREADS" and "cid < DVPP_NUM_THREADS"
    and "unat (sync_alloc_size sync) \<le> DVPP_ALLOC_VLEN"
    and "length (cached cid st) + unat (sync_alloc_size sync) \<le> DVPP_NB_BUFFERS"
    and vs: "vs = take (unat (sync_alloc_size sync))
               (alloc_vector (pmaps m ! unat (sync_port sync)) ! unat (sync_thread sync))"
  shows "\<exists>st' ds. sync_rx_alloc cid sync st = Some st' \<and> cached cid st' = cached cid st @ ds
       \<and> map seg_lo ds = map ucast vs \<and> (\<forall>d \<in> set ds. seg_offset d = DVPP_DATA_HEADROOM)
       \<and> map desc_data ds = map (\<lambda>v. blocks st ! index_to_block v + ucast (block_offset v)) vs
       \<and> (\<forall>u. u \<noteq> cid \<longrightarrow> cached u st' = cached u st)"
proof -
  have d: "the (alloc_desc v st) = dvpp_desc_clear\<lparr>desc_data := blocks st ! index_to_block v
      + ucast (block_offset v), seg_lo := ucast v, seg_offset := DVPP_DATA_HEADROOM\<rparr>" for v
    using assms(1) index_to_block_bound [of v]
    by (simp add: alloc_desc_def dvpp_mini_set_kernel_address_def arr_get_def dvpp_wf_def)
  from sync_rx_alloc_ok [OF assms(1-7)] obtain st'
    where "sync_rx_alloc cid sync st = Some st'"
      "cached cid st' = cached cid st @ map (\<lambda>v. the (alloc_desc v st)) vs"
      "\<forall>u. u \<noteq> cid \<longrightarrow> cached u st' = cached u st" unfolding vs by blast
  then show ?thesis
    by (intro exI [of _ st'] exI [of _ "map (\<lambda>v. the (alloc_desc v st)) vs"]) (auto simp: d)
qed

theorem sync_rx_alloc_delivers_witness:
  "\<exists>st' ds. sync_rx_alloc 2 sample_sync sample_state = Some st' \<and> cached 2 st' = ds
       \<and> map seg_lo ds = replicate 8 0"
  using sync_rx_alloc_delivers [of sample_state zero_port_maps sample_sync 2 "replicate 8 0"]
    sample_state_mapped
  by (simp add: mapped_def sample_sync_def)
    (force simp: sample_state_def zero_port_maps_def zero_port_map_def)

text \<open>When the cache holds more than the high threshold, a receive request takes the 256
  oldest buffers off it and publishes exactly their indices, in order, to VPP; otherwise it
  publishes a count of zero and keeps the cache.\<close>

theorem sync_rx_release_returns:
  assumes "dvpp_wf st" and "maps_ptr st = Some m" and "unat (sync_port sync) < DVPP_NUM_PORT"
    and "unat (sync_thread sync) < DVPP_NUM_THREADS" and "cid < DVPP_NUM_THREADS"
  shows "\<exists>st' m'. sync_rx_release cid sync st = Some st' \<and> maps_ptr st' = Some m'
       \<and> (if DVPP_THRESHOLD_HIGH < length (cached cid st)
          then map (\<lambda>d. ucast (seg_lo d)) (cached cid st)
               = release_vector (pmaps m' ! unat (sync_port sync)) ! unat (sync_thread sync)
                 @ map (\<lambda>d. ucast (seg_lo d)) (cached cid st')
             \<and> release_count m' ! unat (sync_thread sync) = 256
          else cached cid st' = cached cid st \<and> release_count m' ! unat (sync_thread sync) = 0)"
proof -
  from sync_rx_release_ok [OF assms] obtain st' m'
    where r: "sync_rx_release cid sync st = Some st'" "maps_ptr st' = Some m'"
      "if DVPP_THRESHOLD_HIGH < length (cached cid st)
       then cached cid st' = drop DVPP_VLEN (cached cid st)
         \<and> release_vector (pmaps m' ! unat (sync_port sync)) ! unat (sync_thread sync)
             = map (\<lambda>d. ucast (seg_lo d)) (take DVPP_VLEN (cached cid st))
         \<and> release_count m' ! unat (sync_thread sync) = of_nat DVPP_VLEN
       else cached cid st' = cached cid st
         \<and> release_count m' ! unat (sync_thread sync) = 0" by metis
  have "map f xs = map f (take n xs) @ map f (drop n xs)" for f :: "dvpp_desc \<Rightarrow> u32" and n xs
    by (metis append_take_drop_id map_append)
  with r show ?thesis by (intro exI [of _ st'] exI [of _ m']) (auto split: if_splits)
qed

text \<open>A cache above the threshold: 8193 buffers.\<close>

definition loaded_state :: "nat dvpp_state" where
  "loaded_state = sample_state\<lparr>mini_cache :=
     (mini_cache sample_state)[2 := dvpp_init_cache\<lparr>wr := 8193\<rparr>]\<rparr>"

lemma loaded_state_ok:
  "dvpp_wf loaded_state" "maps_ptr loaded_state = Some zero_port_maps" "length (cached 2 loaded_state) = 8193"
proof -
  have "cache_inv (dvpp_init_cache\<lparr>wr := 8193\<rparr>)" "length (cache_list (dvpp_init_cache\<lparr>wr := 8193\<rparr>)) = 8193"
    by (simp_all add: cache_inv_def dvpp_init_cache_def cache_list_def)
  moreover have "length (mini_cache sample_state) = 4" by (simp add: sample_state_def dvpp_globals_def)
  ultimately show "dvpp_wf loaded_state" "length (cached 2 loaded_state) = 8193"
    using sample_state_mapped
    by (auto simp: loaded_state_def mapped_def dvpp_wf_def cached_def
        dest!: set_update_subset_insert [THEN subsetD])
qed (simp add: loaded_state_def sample_state_def)

theorem sync_rx_release_returns_witness:
  "\<exists>st' m'. sync_rx_release 2 sample_sync loaded_state = Some st' \<and> maps_ptr st' = Some m'
     \<and> map (\<lambda>d. ucast (seg_lo d)) (cached 2 loaded_state)
         = release_vector (pmaps m' ! 0) ! 1 @ map (\<lambda>d. ucast (seg_lo d)) (cached 2 st')
     \<and> release_count m' ! 1 = 256"
  using sync_rx_release_returns [OF loaded_state_ok(1,2), of sample_sync 2] loaded_state_ok(3)
  by (simp add: sample_sync_def)

text \<open>A 32-bit index keeps 22 significant bits: 7 of the block and 15 of the slot in it.\<close>

lemma index_to_block_unat: "index_to_block v = unat v div 2 ^ 15 mod 2 ^ 7"
proof -
  have "take_bit 32 (unat v) = unat v" by (rule take_bit_nat_eq_self [OF unat_u32_less])
  then have "unat (drop_bit 15 v AND mask 7) = take_bit 7 (drop_bit 15 (unat v))"
    by (simp add: unsigned_take_bit_eq unsigned_drop_bit_eq flip: take_bit_eq_mask)
  moreover have "(128 - 1 :: u32) = mask 7" by (simp add: mask_eq_exp_minus_1)
  ultimately show ?thesis by (simp add: index_to_block_def take_bit_eq_mod drop_bit_eq_div)
qed

lemma block_offset_unat: "unat (block_offset v) = unat v mod 2 ^ 15 * 64"
proof -
  have "unat (push_bit 6 v AND mask 21) = take_bit 21 (take_bit 32 (push_bit 6 (unat v)))"
    by (simp add: unsigned_take_bit_eq unsigned_push_bit_eq flip: take_bit_eq_mask)
  also have "\<dots> = push_bit 6 (take_bit 15 (unat v))" by (simp add: take_bit_push_bit)
  also have "\<dots> = unat v mod 2 ^ 15 * 64" by (simp add: push_bit_eq_mult take_bit_eq_mod)
  finally show ?thesis by (simp add: block_offset_def mask_eq_exp_minus_1)
qed

lemma aligned_room:
  fixes n :: nat
  assumes "n mod 2 ^ 21 = 0" and "n < 2 ^ 64"
  shows "n + 2 ^ 21 \<le> 2 ^ 64"
proof -
  obtain k where k: "n = 2 ^ 21 * k" using assms(1) by (auto simp: mod_eq_0_iff_dvd elim: dvdE)
  with assms(2) have "2 ^ 21 * (k + 1) \<le> (2 ^ 21 * 2 ^ 43 :: nat)" by simp
  with k show ?thesis by simp
qed

lemma aligned_unique:
  fixes n m x y :: nat
  assumes "n + x = m + y" and "x < d" and "y < d" and "n mod d = 0" and "m mod d = 0"
  shows "n = m \<and> x = y"
proof -
  have "(n + x) mod d = x" "(m + y) mod d = y" using assms(2-5) by (simp_all add: mod_add_eq [symmetric])
  with assms(1) show ?thesis by simp
qed

text \<open>Address translation. The address of buffer index \<open>v\<close> lies \<open>64 * (v mod 2^15)\<close> bytes into
  block \<open>v div 2^15\<close>, for every index of the 128 blocks; so, with blocks at distinct addresses
  aligned to 2 MBytes, different indices of those blocks have different addresses.\<close>

theorem dvpp_kernel_address_injective:
  assumes "dvpp_wf st" and "unat (seg_lo a) < 2 ^ 22" and "unat (seg_lo b) < 2 ^ 22"
    and "\<And>i. i < DVPP_MAX_NB_BLOCK \<Longrightarrow> unat (blocks st ! i) mod 2 ^ 21 = 0" and "distinct (blocks st)"
  shows "(dvpp_desc_kernel_address a st = dvpp_desc_kernel_address b st) = (seg_lo a = seg_lo b)
    \<and> (\<exists>x. dvpp_desc_kernel_address a st = Some x
        \<and> unat x = unat (blocks st ! (unat (seg_lo a) div 2 ^ 15)) + 64 * (unat (seg_lo a) mod 2 ^ 15))"
proof -
  let ?B = "\<lambda>d. unat (seg_lo d) div 2 ^ 15" and ?O = "\<lambda>d. unat (seg_lo d) mod 2 ^ 15"
  have len: "length (blocks st) = DVPP_MAX_NB_BLOCK" using assms(1) by (simp add: dvpp_wf_def)
  have main: "?B d < DVPP_MAX_NB_BLOCK \<and> (\<exists>x. dvpp_desc_kernel_address d st = Some x
      \<and> unat x = unat (blocks st ! ?B d) + 64 * ?O d)" if d: "unat (seg_lo d) < 2 ^ 22" for d
  proof -
    have u: "unat (ucast (seg_lo d) :: u32) = unat (seg_lo d)"
      using d by (simp add: unsigned_ucast_eq take_bit_nat_eq_self)
    have B: "?B d < DVPP_MAX_NB_BLOCK" using d by auto
    then have ib: "index_to_block (ucast (seg_lo d)) = ?B d" by (simp add: index_to_block_unat u)
    have bo: "unat (ucast (block_offset (ucast (seg_lo d))) :: u64) = 64 * ?O d"
    proof -
      have b: "unat (block_offset (ucast (seg_lo d))) = 64 * ?O d"
        using block_offset_unat [of "ucast (seg_lo d)", unfolded u] by (simp only: mult.commute)
      have "64 * ?O d < 2 ^ 64" by (rule less_trans [of _ "2 ^ 21"]) simp_all
      then show ?thesis by (simp add: unsigned_ucast_eq b take_bit_nat_eq_self)
    qed
    have lt: "unat (blocks st ! ?B d) < 2 ^ 64" using unsigned_less [of "blocks st ! ?B d", where ?'a = nat] by simp
    have "unat (blocks st ! ?B d) + 64 * ?O d < 2 ^ 64"
    proof -
      have "unat (blocks st ! ?B d) + 2 ^ 21 \<le> 2 ^ 64" by (rule aligned_room [OF assms(4) [OF B] lt])
      moreover have "64 * ?O d < 2 ^ 21" by simp
      ultimately show ?thesis by linarith
    qed
    then show ?thesis using B len ib bo
      by (simp add: dvpp_desc_kernel_address_def Let_def arr_get_def unat_word_ariths(1))
  qed
  from main [OF assms(2)] main [OF assms(3)] obtain x y
    where x: "dvpp_desc_kernel_address a st = Some x" "unat x = unat (blocks st ! ?B a) + 64 * ?O a"
      and y: "dvpp_desc_kernel_address b st = Some y" "unat y = unat (blocks st ! ?B b) + 64 * ?O b"
      and B: "?B a < DVPP_MAX_NB_BLOCK" "?B b < DVPP_MAX_NB_BLOCK" by blast
  have "seg_lo a = seg_lo b" if "x = y"
  proof -
    have eq: "unat (blocks st ! ?B a) + 64 * ?O a = unat (blocks st ! ?B b) + 64 * ?O b"
      using that x y by simp
    have oa: "64 * ?O a < 2 ^ 21" "64 * ?O b < 2 ^ 21" by simp_all
    have "unat (blocks st ! ?B a) = unat (blocks st ! ?B b) \<and> ?O a = ?O b"
      using aligned_unique [OF eq oa assms(4) [OF B(1)] assms(4) [OF B(2)]] by simp
    then have "blocks st ! ?B a = blocks st ! ?B b" "?O a = ?O b" by (simp_all add: word_unat_eq_iff)
    then have "?B a = ?B b" "?O a = ?O b"
      using assms(5) B len by (simp_all add: nth_eq_iff_index_eq)
    then have "unat (seg_lo a) = unat (seg_lo b)" by (metis div_mult_mod_eq)
    then show ?thesis by (simp add: word_unat_eq_iff)
  qed
  moreover have "dvpp_desc_kernel_address a st = dvpp_desc_kernel_address b st" if "seg_lo a = seg_lo b"
    using that by (simp add: dvpp_desc_kernel_address_def)
  ultimately show ?thesis using x y by auto
qed

definition block_state :: "nat dvpp_state" where
  "block_state = sample_state\<lparr>blocks := map (\<lambda>i. of_nat (i * 2 ^ 21)) [0..<DVPP_MAX_NB_BLOCK]\<rparr>"

lemma block_state_ok:
  "dvpp_wf block_state" "i < DVPP_MAX_NB_BLOCK \<Longrightarrow> unat (blocks block_state ! i) = i * 2 ^ 21"
  "distinct (blocks block_state)"
proof -
  have u: "unat (of_nat (i * 2 ^ 21) :: u64) = i * 2 ^ 21" if "i < DVPP_MAX_NB_BLOCK" for i
    using that by (simp add: unsigned_of_nat take_bit_nat_eq_self del: of_nat_mult)
  show "dvpp_wf block_state"
    using sample_state_mapped by (simp add: mapped_def dvpp_wf_def block_state_def del: upt_rec_numeral)
  show "unat (blocks block_state ! i) = i * 2 ^ 21" if "i < DVPP_MAX_NB_BLOCK"
    using u [OF that] that by (simp add: block_state_def del: upt_rec_numeral of_nat_mult)
  have "inj_on (\<lambda>i. of_nat (i * 2 ^ 21) :: u64) (set [0..<DVPP_MAX_NB_BLOCK])"
  proof (rule inj_onI)
    fix x y assume xy: "x \<in> set [0..<DVPP_MAX_NB_BLOCK]" "y \<in> set [0..<DVPP_MAX_NB_BLOCK]"
      "(of_nat (x * 2 ^ 21) :: u64) = of_nat (y * 2 ^ 21)"
    then have "x < DVPP_MAX_NB_BLOCK" "y < DVPP_MAX_NB_BLOCK" by (simp_all only: set_upt atLeastLessThan_iff)
    then have "x * 2 ^ 21 = y * 2 ^ 21" using u [of x] u [of y] xy(3) by metis
    then show "x = y" by simp
  qed
  then show "distinct (blocks block_state)"
    by (simp add: block_state_def distinct_map del: upt_rec_numeral of_nat_mult)
qed

theorem dvpp_kernel_address_injective_witness:
  "dvpp_desc_kernel_address (dvpp_desc_clear\<lparr>seg_lo := 32769\<rparr>) block_state
     \<noteq> dvpp_desc_kernel_address (dvpp_desc_clear\<lparr>seg_lo := 1\<rparr>) block_state"
  using dvpp_kernel_address_injective [of block_state "dvpp_desc_clear\<lparr>seg_lo := 32769\<rparr>"
      "dvpp_desc_clear\<lparr>seg_lo := 1\<rparr>"] block_state_ok
  by simp

text \<open>A descriptor names a buffer by a 24-bit index, which the interface describes as
  reaching 1 GByte; translation keeps 22 bits of it, so an index and the index 4194304 above it
  have the same kernel address.\<close>

theorem dvpp_kernel_address_wraps:
  "dvpp_desc_kernel_address (d\<lparr>seg_lo := seg_lo d + 4194304\<rparr>) st = dvpp_desc_kernel_address d st"
proof -
  let ?i = "ucast (seg_lo d) :: u32" and ?j = "ucast (seg_lo d + 4194304) :: u32"
  have i: "unat ?i = unat (seg_lo d)" and j: "unat ?j = unat (seg_lo d + 4194304)"
    by (simp_all add: unsigned_ucast_eq take_bit_nat_eq_self
        less_trans [OF unsigned_less [where ?'a = nat]])
  have "unat (seg_lo d + 4194304) mod 2 ^ 22 = unat (seg_lo d) mod 2 ^ 22"
    by (simp add: unat_word_ariths(1) mod_mod_cancel)
  then have m: "unat ?j mod 2 ^ 22 = unat ?i mod 2 ^ 22" by (simp only: i j)
  have b: "index_to_block v = unat v mod 2 ^ 22 div 2 ^ 15" for v
    by (simp add: index_to_block_unat mod_mult2_eq [of _ "2 ^ 15" "2 ^ 7", simplified])
  have o: "unat (block_offset v) = unat v mod 2 ^ 22 mod 2 ^ 15 * 64" for v
    by (simp add: block_offset_unat mod_mod_cancel)
  have "block_offset ?j = block_offset ?i" by (simp only: word_unat_eq_iff o m)
  moreover have "index_to_block ?j = index_to_block ?i" by (simp only: b m)
  ultimately show ?thesis by (simp add: dvpp_desc_kernel_address_def Let_def)
qed

text \<open>The driver's view of a port's cache is a queue: a freed descriptor joins the tail with
  its headroom reset, an allocation takes the head, a disabled port allocates nothing, and after
  the user's mapping is gone a freed descriptor is forgotten.\<close>

theorem dvpp_port_alloc_free:
  assumes "dvpp_wf st" and "unat port < DVPP_NUM_PORT"
    and t: "t = unat (dvpp_thread_map st ! unat port)"
    and "length (cached t st) < DVPP_NB_BUFFERS"
  shows "\<exists>st1. dvpp_port_free_mini d port st = Some st1 \<and> dvpp_wf st1
       \<and> cached t st1 = (if has_user_block_map st then cached t st @ [d\<lparr>seg_offset := DVPP_DATA_HEADROOM\<rparr>]
                         else cached t st)
       \<and> (\<exists>st2. dvpp_port_alloc_mini port st1 =
              Some (if port_enable (ports st ! unat port) = 0 \<or> cached t st1 = [] then None
                    else Some (hd (cached t st1)), st2)
            \<and> cached t st2 = (if port_enable (ports st ! unat port) = 0 then cached t st1
                              else tl (cached t st1)))"
proof -
  let ?p = "unat port" and ?b = "d\<lparr>seg_offset := DVPP_DATA_HEADROOM\<rparr>"
  let ?f = "\<lambda>s :: dvpp_port_stats. s\<lparr>driver_free := driver_free s + 1\<rparr>"
  have alloc: "\<exists>st2. dvpp_port_alloc_mini port s =
              Some (if port_enable (ports st ! ?p) = 0 \<or> cached t s = [] then None
                    else Some (hd (cached t s)), st2)
            \<and> cached t st2 = (if port_enable (ports st ! ?p) = 0 then cached t s else tl (cached t s))"
    if s: "dvpp_wf s" "ports s = ports st" "dvpp_thread_map s = dvpp_thread_map st" for s
  proof -
    have g: "arr_get (ports s) ?p = Some (ports st ! ?p)"
      using s(1,2) assms(2) by (simp add: arr_get_def dvpp_wf_def)
    have tm: "arr_get (dvpp_thread_map s) ?p = Some (dvpp_thread_map st ! ?p)" "t < DVPP_NUM_THREADS"
      using wf_thread_map [OF s(1) assms(2)] s(3) t by simp_all
    then show ?thesis using cache_take_ok [OF s(1) tm(2)] t by (auto simp: dvpp_port_alloc_mini_def g)
  qed
  show ?thesis
  proof (cases "has_user_block_map st")
    case True
    from upd_stats_ok [OF assms(1,2), of ?f] obtain s1
      where s1: "upd_stats ?p ?f st = Some s1" "dvpp_wf s1" "s1 = st\<lparr>main_stats := main_stats s1\<rparr>" by blast
    have eq: "cached t s1 = cached t st" "dvpp_thread_map s1 = dvpp_thread_map st" "ports s1 = ports st"
      by (subst s1(3), simp add: cached_def)+
    have tm: "arr_get (dvpp_thread_map s1) ?p = Some (dvpp_thread_map st ! ?p)" "t < DVPP_NUM_THREADS"
      using wf_thread_map [OF s1(2) assms(2)] eq t by simp_all
    from cache_put_ok [OF s1(2) tm(2), of ?b] assms(4) eq(1) obtain st1
      where st1: "cache_put ?b t s1 = Some st1" "dvpp_wf st1" "cached t st1 = cached t st @ [?b]"
        "st1 = s1\<lparr>mini_cache := mini_cache st1\<rparr>" by auto
    have "ports st1 = ports st" "dvpp_thread_map st1 = dvpp_thread_map st"
      by (subst st1(4), simp add: eq)+
    then show ?thesis
      using alloc [OF st1(2)] st1(1-3) s1(1) tm(1) t True by (simp add: dvpp_port_free_mini_def)
  next
    case False
    then show ?thesis using alloc [OF assms(1)] assms(1) by (simp add: dvpp_port_free_mini_def)
  qed
qed

theorem dvpp_port_alloc_free_witness:
  "\<exists>st1 st2. dvpp_port_free_mini (dvpp_desc_clear\<lparr>seg_lo := 9, seg_offset := 3\<rparr>) 0 sample_state = Some st1
     \<and> dvpp_port_alloc_mini 0 st1 = Some (Some (dvpp_desc_clear\<lparr>seg_lo := 9, seg_offset := 256\<rparr>), st2)
     \<and> cached 2 st2 = []"
proof -
  have "dvpp_wf sample_state" "has_user_block_map sample_state"
    "port_enable (ports sample_state ! 0) = 1"
    using sample_state_mapped by (simp_all add: mapped_def sample_state_def dvpp_globals_def)
  then show ?thesis
    using dvpp_port_alloc_free [of sample_state 0 2 "dvpp_desc_clear\<lparr>seg_lo := 9, seg_offset := 3\<rparr>"]
    by auto
qed

text \<open>What the module keeps of its clients, which no call of the driver changes.\<close>

definition clients :: "'d dvpp_state \<Rightarrow> nat \<times> nat \<times> dvpp_ops \<times> bool" where
  "clients st = (user_count st, platform_client_count st, ops st, has_user_block_map st)"

lemma cancel_dma_loop_ok:
  assumes drv: "driver_ok drv" and keep: "\<And>f c st. clients (call_cancel_dma drv f c st) = clients st"
  shows "\<lbrakk>set is \<subseteq> {0..<DVPP_NUM_PORT}; mapped s\<rbrakk> \<Longrightarrow>
     \<exists>s'. cancel_dma_loop drv is s = Some s' \<and> mapped s' \<and> clients s' = clients s"
proof (induction "is" arbitrary: s)
  case (Cons i "is")
  then have "arr_get (ports s) i = Some (ports s ! i)" using mapped_port [of s i] by simp
  moreover have "mapped (call_cancel_dma drv f c s)" for f c
    using driver_ok_calls(5) [OF drv Cons.prems(2)] .
  ultimately show ?case
    using Cons keep by (metis bind.bind_lunit cancel_dma_loop.simps(2) insert_subset list.set(2))
qed simp

lemma reclaim_user_ok:
  assumes "driver_ok drv" and "mapped st"
    and keep: "\<And>f c st. clients (call_cancel_dma drv f c st) = clients st"
  shows "\<exists>st'. dvpp_reclaim_user drv st = Some st' \<and> mapped st' \<and> maps_ptr st' = Some zero_port_maps
       \<and> (\<forall>t < DVPP_NUM_THREADS. cached t st' = [])
       \<and> clients st' = clients (st\<lparr>has_user_block_map := False\<rparr>)"
proof -
  let ?s0 = "st\<lparr>has_user_block_map := False\<rparr>"
  have m0: "mapped ?s0" using assms(2) by (simp add: mapped_def dvpp_wf_def)
  have "set [0..<DVPP_NUM_PORT] \<subseteq> {0..<DVPP_NUM_PORT}" by (simp only: set_upt)
  note l0 = cancel_dma_loop_ok [OF assms(1) keep this m0]
  obtain s1 where s1: "(if cancel_dma_fn (ops ?s0) \<noteq> 0
      then cancel_dma_loop drv [0..<DVPP_NUM_PORT] ?s0 else Some ?s0) = Some s1"
      "mapped s1" "clients s1 = clients ?s0"
    using l0 m0 by (cases "cancel_dma_fn (ops ?s0) \<noteq> 0") (auto simp del: upt_rec_numeral)
  define st' where "st' = (dvpp_init_buffers s1)\<lparr>maps_ptr := Some zero_port_maps\<rparr>"
  have "dvpp_reclaim_user drv st = Some st'"
    using s1(1,2) unfolding dvpp_reclaim_user_def Let_def st'_def
    by (auto simp: mapped_def dvpp_init_buffers_def simp del: upt_rec_numeral split: if_splits)
  moreover have "mapped st'"
    using s1(2) cache_inv_init maps_wf_zero by (auto simp: mapped_def dvpp_wf_def st'_def dvpp_init_buffers_def)
  ultimately show ?thesis using s1(3) cache_inv_init
    by (auto simp: st'_def cached_def dvpp_init_buffers_def clients_def)
qed

text \<open>When the user process goes away the module keeps nothing of its buffers: every cache
  is empty, the shared area is zero, and a descriptor the driver frees afterwards is dropped.\<close>

theorem dvpp_reclaim_user_forgets:
  assumes "driver_ok drv" and "mapped st"
    and "\<And>f c st. clients (call_cancel_dma drv f c st) = clients st"
  shows "\<exists>st'. dvpp_reclaim_user drv st = Some st' \<and> mapped st' \<and> maps_ptr st' = Some zero_port_maps
       \<and> (\<forall>t < DVPP_NUM_THREADS. cached t st' = [])
       \<and> (\<forall>d port. dvpp_port_free_mini d port st' = Some st')"
  using reclaim_user_ok [OF assms] by (auto simp: dvpp_port_free_mini_def clients_def)

theorem dvpp_reclaim_user_forgets_witness:
  "\<exists>st'. dvpp_reclaim_user sample_driver loaded_state = Some st' \<and> cached 2 st' = []"
proof -
  have "mapped loaded_state" using loaded_state_ok by (simp add: mapped_def)
  from dvpp_reclaim_user_forgets [OF sample_driver_ok this] obtain st'
    where "dvpp_reclaim_user sample_driver loaded_state = Some st'" "\<forall>t < DVPP_NUM_THREADS. cached t st' = []"
    by (auto simp: sample_driver_def clients_def)
  then show ?thesis by auto
qed

text \<open>The thread number of a request is not checked: every transmit, receive with buffers, or
  inject request that names thread 4 or above reads outside the shared vectors.\<close>

theorem dvpp_sync_vector_thread_unchecked:
  assumes "dvpp_wf st" and "unat (sync_port sync) < DVPP_NUM_PORT"
    and "unat (sync_pipe sync) < DVPP_NUM_PIPE_PER_PORT" and "DVPP_NUM_THREADS \<le> unat (sync_thread sync)"
    and "sync_code sync = 2 \<or> sync_code sync = 4 \<or> sync_code sync = 3 \<and> sync_alloc_size sync \<noteq> 0"
  shows "dvpp_sync_vector k drv sync st = None"
proof -
  let ?t = "unat (sync_thread sync)"
  have tm: "arr_get (dvpp_thread_map st) (unat (sync_port sync))
      = Some (dvpp_thread_map st ! unat (sync_port sync))" using wf_thread_map [OF assms(1,2)] by blast
  have v: "arr_get (tx_vector pm) ?t = None \<and> arr_get (alloc_vector pm) ?t = None"
    if pm: "port_map_of (unat (sync_port sync)) st' = Some pm" "maps_ptr st' = maps_ptr st" for st' pm
  proof -
    obtain m where m: "maps_ptr st = Some m" using pm by (auto simp: port_map_of_def split: bind_splits)
    with wf_port_map [OF assms(1) m assms(2)] pm have "port_map_wf pm" by (simp add: port_map_of_def)
    with assms(4) show ?thesis by (simp add: arr_get_def port_map_wf_def)
  qed
  from upd_stats_ok [OF assms(1,2)] obtain st1
    where st1: "upd_stats (unat (sync_port sync)) (\<lambda>s. s\<lparr>vector_sync_rx := vector_sync_rx s + 1\<rparr>) st = Some st1"
      "st1 = st\<lparr>main_stats := main_stats st1\<rparr>" by blast
  have m1: "maps_ptr st1 = maps_ptr st" by (subst st1(2)) simp
  consider "sync_code sync = 2" | "sync_code sync = 4" | "sync_code sync = 3" "sync_alloc_size sync \<noteq> 0"
    using assms(5) by blast
  then show ?thesis
  proof cases
    case 1 then show ?thesis using assms(2,3) tm v [of st]
      by (cases "port_map_of (unat (sync_port sync)) st") (auto simp: dvpp_sync_vector_def sync_transmit_def Let_def)
  next
    case 2 then show ?thesis using assms(2,3) tm v [of st]
      by (cases "port_map_of (unat (sync_port sync)) st") (auto simp: dvpp_sync_vector_def sync_inject_def)
  next
    case 3 then show ?thesis using assms(2,3) tm v [of st1] m1 st1(1)
      by (cases "port_map_of (unat (sync_port sync)) st1")
        (auto simp: dvpp_sync_vector_def sync_receive_def sync_rx_alloc_def Let_def unat_eq_zero)
  qed
qed

theorem dvpp_sync_vector_thread_unchecked_witness:
  "dvpp_sync_vector sample_kern sample_driver (sample_sync\<lparr>sync_thread := 4\<rparr>) sample_state = None"
  by (rule dvpp_sync_vector_thread_unchecked)
    (use sample_state_mapped in \<open>simp_all add: mapped_def sample_sync_def\<close>)

end
