(* ===== verification/DvppModule.thy ===== *)
theory DvppModule
  imports DvppAllocator
begin

text \<open>
  The entry points of the direct-vpp kernel module (\<open>direct-vpp/direct_vpp.c\<close>): the character
  device through which VPP opens, polls, maps and controls the module, the platform interface
  through which the network driver registers itself and announces ports and pipes, and module
  load and unload.

  The kernel's own answers are arguments: the result of taking the mutex, what a copy from user
  space leaves in its buffer, the results of the platform-device calls and of
  \<open>remap_pfn_range\<close>. The entry points are the steps of a transition system, and the invariant of
  its reachable states is the module's contract with the process that owns the buffers.
\<close>

section \<open>Memory mapping (allocator.c)\<close>

definition block_pfn :: "(u64 \<Rightarrow> u64) \<Rightarrow> u32 \<Rightarrow> 'd dvpp_state \<Rightarrow> u64 option" where
  "block_pfn virt_to_phys blk st =
     (if dvpp_nb_blocks st \<le> blk then Some 0
      else do { b \<leftarrow> arr_get (blocks st) (unat blk); Some (drop_bit 12 (virt_to_phys b)) })"

text \<open>\<open>maps_addr\<close> is the address of the shared area; its size is that of its padding member.\<close>

definition maps_pfn :: "(u64 \<Rightarrow> u64) \<Rightarrow> u64 \<Rightarrow> u64" where
  "maps_pfn virt_to_phys maps_addr = drop_bit 12 (virt_to_phys maps_addr)"

abbreviation SIZEOF_PORT_MAPS :: u64 where "SIZEOF_PORT_MAPS \<equiv> 2 * 1024 * 1024"
abbreviation EIO :: int where "EIO \<equiv> 5"
abbreviation EAGAIN :: int where "EAGAIN \<equiv> 11"
abbreviation ENOMEM :: int where "ENOMEM \<equiv> 12"
abbreviation EFAULT :: int where "EFAULT \<equiv> 14"

definition dvpp_remap_port ::
  "(u64 \<Rightarrow> u64 \<Rightarrow> u32 \<Rightarrow> int) \<Rightarrow> (u64 \<Rightarrow> u64) \<Rightarrow> u64 \<Rightarrow> u64 \<Rightarrow> u64 \<Rightarrow> int" where
  "dvpp_remap_port remap_pfn_range virt_to_phys maps_addr vm_start vm_end =
     (let size = ucast (vm_end - vm_start) :: u32
      in if ucast size \<noteq> SIZEOF_PORT_MAPS then - EINVAL
         else if remap_pfn_range vm_start (maps_pfn virt_to_phys maps_addr) size < 0 then - EIO
         else 0)"

definition dvpp_mmap ::
  "(u64 \<Rightarrow> u64 \<Rightarrow> u32 \<Rightarrow> int) \<Rightarrow> (u64 \<Rightarrow> u64) \<Rightarrow> u64 \<Rightarrow> u64 \<Rightarrow> u64 \<Rightarrow> int" where
  "dvpp_mmap = dvpp_remap_port"

section \<open>The character device\<close>

abbreviation POLLIN :: u32 where "POLLIN \<equiv> 1"
abbreviation POLLNVAL :: u32 where "POLLNVAL \<equiv> 32"

definition dvpp_poll :: "'d dvpp_state \<Rightarrow> u32 \<times> 'd dvpp_state" where
  "dvpp_poll st =
     (let mask0 = 0;
          mask1 = (if poll_wait_exiting st then mask0 OR POLLNVAL else mask0);
          mask2 = (if poll_wait_state_pending st then mask1 OR POLLIN else mask1)
      in (mask2, st\<lparr>poll_wait_exiting := False, poll_wait_state_pending := False\<rparr>))"

text \<open>\<open>_IOWR('v', nr, size)\<close>: direction, size, type and number of a command.\<close>

definition dvpp_iowr :: "u32 \<Rightarrow> u32 \<Rightarrow> u32" where
  "dvpp_iowr nr sz = push_bit 30 3 OR push_bit 16 sz OR push_bit 8 118 OR nr"

definition DVPP_IOCTL_GET_PORTS :: u32 where "DVPP_IOCTL_GET_PORTS = dvpp_iowr 1 744"
definition DVPP_IOCTL_VECTOR_SYNC :: u32 where "DVPP_IOCTL_VECTOR_SYNC = dvpp_iowr 2 10"
definition DVPP_IOCTL_REGISTER_MAP :: u32 where "DVPP_IOCTL_REGISTER_MAP = dvpp_iowr 3 1036"
definition DVPP_IOCTL_THREAD_MAP :: u32 where "DVPP_IOCTL_THREAD_MAP = dvpp_iowr 4 4"

definition ioctl_to_string :: "u32 \<Rightarrow> string" where
  "ioctl_to_string n =
     (if n = DVPP_IOCTL_GET_PORTS then ''DVPP_IOCTL_GET_PORTS''
      else if n = DVPP_IOCTL_VECTOR_SYNC then ''DVPP_IOCTL_VECTOR_SYNC''
      else if n = DVPP_IOCTL_REGISTER_MAP then ''DVPP_IOCTL_REGISTER_MAP''
      else ''DVPP_IOCTL_UNKNOWN'')"

text \<open>
  The user's argument: \<open>arg_fault\<close> is a copy that did not transfer every byte, the other members
  are what the copy leaves in the kernel's buffer.
\<close>

record ioctl_arg =
  arg_fault :: bool
  arg_sync :: dvpp_vector_sync
  arg_n_pages :: u32
  arg_pa :: "u64 list"
  arg_thread :: "u8 list"

text \<open>The loop of \<open>DVPP_IOCTL_THREAD_MAP\<close>.\<close>

primrec copy_thread_map :: "nat list \<Rightarrow> u8 list \<Rightarrow> u8 list \<Rightarrow> u8 list option" where
  "copy_thread_map [] src dst = Some dst"
| "copy_thread_map (i # is) src dst = do {
     t \<leftarrow> arr_get src i;
     dst' \<leftarrow> arr_set dst i t;
     copy_thread_map is src dst'
   }"

text \<open>The result, what \<open>DVPP_IOCTL_GET_PORTS\<close> copies out, and the state.\<close>

definition dvpp_ioctl ::
  "'d kern \<Rightarrow> 'd driver \<Rightarrow> (u64 \<Rightarrow> u64) \<Rightarrow> u32 \<Rightarrow> ioctl_arg \<Rightarrow> 'd dvpp_state
     \<Rightarrow> (int \<times> (port_list_head \<times> dvpp_port list) option \<times> 'd dvpp_state) option" where
  "dvpp_ioctl k drv to_virt ioctl_num arg st =
     (if ioctl_num = DVPP_IOCTL_GET_PORTS
      then Some (if arg_fault arg then - EFAULT else 0,
                 if arg_fault arg then None else Some (plist_head st, ports st), st)
      else if ioctl_num = DVPP_IOCTL_VECTOR_SYNC
      then do { (ret, st') \<leftarrow> dvpp_sync_vector k drv (arg_sync arg) st; Some (ret, None, st') }
      else if ioctl_num = DVPP_IOCTL_REGISTER_MAP
      then do { (ret, st') \<leftarrow> dvpp_remap_user to_virt (arg_n_pages arg) (arg_pa arg) st;
                Some (ret, None, st') }
      else if ioctl_num = DVPP_IOCTL_THREAD_MAP
      then do {
        tm \<leftarrow> copy_thread_map [0..<DVPP_NUM_PORT] (arg_thread arg) (dvpp_thread_map st);
        Some (if arg_fault arg then - EFAULT else 0, None, st\<lparr>dvpp_thread_map := tm\<rparr>)
      }
      else Some (- EINVAL, None, st))"

text \<open>
  \<open>lock\<close> is the result of \<open>mutex_lock_interruptible\<close>: 0, or \<open>-EINTR\<close> when a signal came first.
\<close>

definition dvpp_open :: "int \<Rightarrow> 'd dvpp_state \<Rightarrow> int \<times> 'd dvpp_state" where
  "dvpp_open lock st =
     (if lock = 0 \<and> user_count st \<noteq> 0 then (- EAGAIN, st)
      else (lock, st\<lparr>user_count := 1, poll_wait_exiting := False\<rparr>))"

definition dvpp_release :: "'d driver \<Rightarrow> 'd dvpp_state \<Rightarrow> (int \<times> 'd dvpp_state) option" where
  "dvpp_release drv st = do {
     st1 \<leftarrow> (if user_count st \<noteq> 0
            then do { s \<leftarrow> dvpp_reclaim_user drv st; Some (s\<lparr>user_count := 0\<rparr>) }
            else Some st);
     Some (0, st1\<lparr>poll_wait_exiting := True\<rparr>)
   }"

section \<open>The driver's interface\<close>

definition zero_ops :: dvpp_ops where
  "zero_ops = \<lparr>tx_fn = 0, rx_fn = 0, tx_avail_fn = 0, tx_complete_fn = 0, cancel_dma_fn = 0, inject_fn = 0\<rparr>"

definition dvpp_register :: "dvpp_ops option \<Rightarrow> 'd dvpp_state \<Rightarrow> 'd dvpp_state" where
  "dvpp_register new_ops st =
     (case new_ops of
        Some f \<Rightarrow> if platform_client_count st = 0 then st\<lparr>ops := f, platform_client_count := 1\<rparr> else st
      | None \<Rightarrow> if platform_client_count st = 1 then st\<lparr>ops := zero_ops, platform_client_count := 0\<rparr> else st)"

definition zero_pipe :: dvpp_pipe where
  "zero_pipe = \<lparr>pipe_enable = 0, pipe_addr = replicate 6 0\<rparr>"

definition zero_port :: dvpp_port where
  "zero_port = \<lparr>port_enable = 0, port_pci = 0, port_context = 0, port_addr = replicate 6 0,
                port_pipes = replicate DVPP_NUM_PIPE_PER_PORT zero_pipe\<rparr>"

text \<open>A NULL \<open>addr\<close> is \<open>None\<close>; reading it is a fault.\<close>

definition dvpp_port_state ::
  "u64 \<Rightarrow> u32 \<Rightarrow> u8 list option \<Rightarrow> u32 \<Rightarrow> 'd dvpp_state \<Rightarrow> (int \<times> 'd dvpp_state) option" where
  "dvpp_port_state ctx port addr enable st =
     (if DVPP_NUM_PORT \<le> unat port then Some (- EINVAL, st)
      else do {
        p \<leftarrow> arr_get (ports st) (unat port);
        p' \<leftarrow> (if enable = 0 then Some zero_port
              else do {
                a \<leftarrow> addr;
                Some (p\<lparr>port_enable := enable, port_context := ctx, port_addr := take 6 a,
                        port_pipes := replicate DVPP_NUM_PIPE_PER_PORT zero_pipe\<rparr>)
              });
        Some (0, st\<lparr>ports := (ports st)[unat port := p'], poll_wait_state_pending := True\<rparr>)
      })"

definition dvpp_pipe_state ::
  "u32 \<Rightarrow> u32 \<Rightarrow> u8 list option \<Rightarrow> u32 \<Rightarrow> 'd dvpp_state \<Rightarrow> (int \<times> 'd dvpp_state) option" where
  "dvpp_pipe_state port pipe addr enable st =
     (if DVPP_NUM_PORT \<le> unat port then Some (- EINVAL, st)
      else if DVPP_NUM_PIPE_PER_PORT \<le> unat pipe then Some (- EINVAL, st)
      else do {
        p \<leftarrow> arr_get (ports st) (unat port);
        let p' = (if port_enable p \<noteq> 0
                  then p\<lparr>port_pipes := (port_pipes p)[unat pipe :=
                         \<lparr>pipe_enable = enable,
                          pipe_addr = (case addr of
                              Some a \<Rightarrow> if enable \<noteq> 0 then take 6 a else replicate 6 0
                            | None \<Rightarrow> replicate 6 0)\<rparr>]\<rparr>
                  else p);
        Some (0, st\<lparr>ports := (ports st)[unat port := p'], poll_wait_state_pending := True\<rparr>)
      })"

section \<open>Load and unload\<close>

definition clean_all :: "'d dvpp_state \<Rightarrow> 'd dvpp_state" where
  "clean_all st = (free_buffer_pool (dvpp_free_port_map st))
     \<lparr>poll_wait_exiting := True, dvpp_platform := False\<rparr>"

definition dvpp_fini :: "'d dvpp_state \<Rightarrow> 'd dvpp_state" where
  "dvpp_fini st = clean_all st"

text \<open>
  \<open>mem_ok\<close> is the allocation of the shared area, \<open>pdev_ok\<close> that of the platform device;
  \<open>add_data\<close> and \<open>add\<close> are the results of registering it. The result of \<open>misc_register\<close> is only
  logged: it is overwritten before it is returned.
\<close>

definition dvpp_init ::
  "bool \<Rightarrow> bool \<Rightarrow> int \<Rightarrow> int \<Rightarrow> 'd dvpp_state \<Rightarrow> int \<times> 'd dvpp_state" where
  "dvpp_init mem_ok pdev_ok add_data add st =
     (let st1 = init_allocator st;
          st2 = snd (dvpp_allocate_port_map mem_ok st1);
          st3 = dvpp_init_buffers st2;
          st4 = st3\<lparr>ports := replicate DVPP_NUM_PORT zero_port,
                    plist_head := \<lparr>nb_ports = of_nat DVPP_NUM_PORT,
                                   pipes_per_port = of_nat DVPP_NUM_PIPE_PER_PORT,
                                   mem_size = 4096 * of_nat DVPP_NB_BUFFERS, buf_size = 4096\<rparr>\<rparr>
      in if \<not> pdev_ok then (- ENOMEM, clean_all st4)
         else if add_data < 0 then (add_data, clean_all st4)
         else if add \<noteq> 0 then (add, clean_all st4)
         else (0, st4\<lparr>dvpp_platform := True\<rparr>))"

section \<open>What a request leaves alone\<close>

text \<open>
  A predicate that survives updates of the caches, the shared area and the counters, and the
  driver's calls, survives a vector synchronisation.
\<close>

definition sync_frame :: "'d driver \<Rightarrow> ('d dvpp_state \<Rightarrow> bool) \<Rightarrow> bool" where
  "sync_frame drv P \<longleftrightarrow>
     (\<forall>st x. P (st\<lparr>mini_cache := x\<rparr>) = P st) \<and> (\<forall>st x. P (st\<lparr>maps_ptr := x\<rparr>) = P st)
     \<and> (\<forall>st x. P (st\<lparr>main_stats := x\<rparr>) = P st)
     \<and> (\<forall>st. P st \<longrightarrow>
          (\<forall>f c q v n. P (snd (call_tx drv f c q v n st))) \<and> (\<forall>f c n. P (snd (snd (call_rx drv f c n st))))
        \<and> (\<forall>f c. P (call_tx_complete drv f c st)) \<and> (\<forall>f c. P (snd (call_tx_avail drv f c st)))
        \<and> (\<forall>f c b q. P (call_inject drv f c b q st)))"

lemma sync_frame_upd:
  assumes "sync_frame drv P"
  shows "P (st\<lparr>mini_cache := x\<rparr>) = P st" "P (st\<lparr>maps_ptr := y\<rparr>) = P st" "P (st\<lparr>main_stats := z\<rparr>) = P st"
  by (rule assms [unfolded sync_frame_def, THEN conjunct1, rule_format],
      rule assms [unfolded sync_frame_def, THEN conjunct2, THEN conjunct1, rule_format],
      rule assms [unfolded sync_frame_def, THEN conjunct2, THEN conjunct2, THEN conjunct1, rule_format])

lemma sync_frame_calls:
  assumes "sync_frame drv P" and "P st"
  shows "call_tx drv f c q v n st = (r, st') \<Longrightarrow> P st'" "call_rx drv f c n st = (r, ds, st') \<Longrightarrow> P st'"
    "P (call_tx_complete drv f c st)" "call_tx_avail drv f c st = (av, st') \<Longrightarrow> P st'"
    "P (call_inject drv f c b q st)"
proof -
  have all: "P (snd (call_tx drv f c q v n st))" "P (snd (snd (call_rx drv f c n st)))"
    "P (call_tx_complete drv f c st)" "P (snd (call_tx_avail drv f c st))" "P (call_inject drv f c b q st)"
    using assms(1) [unfolded sync_frame_def, THEN conjunct2, THEN conjunct2, THEN conjunct2,
        THEN spec, THEN mp, OF assms(2)] by simp_all
  show "call_tx drv f c q v n st = (r, st') \<Longrightarrow> P st'" "call_rx drv f c n st = (r, ds, st') \<Longrightarrow> P st'"
    "call_tx_avail drv f c st = (av, st') \<Longrightarrow> P st'" "P (call_tx_complete drv f c st)"
    "P (call_inject drv f c b q st)"
    using all by simp_all
qed

lemma frame_steps:
  assumes "sync_frame drv P"
  shows "upd_stats p f st = Some st' \<Longrightarrow> P st' = P st" "upd_maps g st = Some st' \<Longrightarrow> P st' = P st"
    "cache_put b t st = Some st' \<Longrightarrow> P st' = P st"
  by (auto simp: upd_stats_def upd_maps_def cache_put_def sync_frame_upd [OF assms] split: bind_splits)

lemma frame_alloc_loop:
  assumes "sync_frame drv P"
  shows "sync_alloc_loop t vs st = Some st' \<Longrightarrow> P st' = P st"
  by (induction vs arbitrary: st)
    (auto dest: frame_steps [OF assms] split: bind_splits)

lemma frame_maps:
  assumes "sync_frame drv P"
  shows "set_port_map p g st = Some st' \<Longrightarrow> P st' = P st" "report_cache_level t c st = Some st' \<Longrightarrow> P st' = P st"
    "set_release_count t n st = Some st' \<Longrightarrow> P st' = P st"
    "store_release p t ds st = Some st' \<Longrightarrow> P st' = P st"
  by (auto simp: set_port_map_def report_cache_level_def set_release_count_def store_release_def
      dest!: frame_steps(2) [OF assms] split: bind_splits)

lemma frame_transmit:
  assumes "sync_frame drv P" and "P st" and "sync_transmit drv sync st = Some (r, st')"
  shows "P st'"
  using assms(2,3)
  by (auto simp: sync_transmit_def Let_def dest!: frame_steps(1) [OF assms(1)]
      dest: sync_frame_calls(1) [OF assms(1)] split: bind_splits if_splits prod.splits)

lemma frame_rx_alloc:
  assumes "sync_frame drv P" and "sync_rx_alloc c sync st = Some st'"
  shows "P st' = P st"
  using assms(2)
  by (auto simp: sync_rx_alloc_def Let_def dest!: frame_alloc_loop [OF assms(1)] frame_maps [OF assms(1)]
      split: bind_splits if_splits)

lemma frame_rx_release:
  assumes "sync_frame drv P" and "sync_rx_release c sync st = Some st'"
  shows "P st' = P st"
  using assms(2)
  by (auto simp: sync_rx_release_def Let_def sync_frame_upd [OF assms(1)]
      dest!: frame_steps(1) [OF assms(1)] frame_maps [OF assms(1)] split: bind_splits if_splits prod.splits)

lemma frame_rx_driver:
  assumes "sync_frame drv P" and "P st" and "sync_rx_driver drv sync st = Some (r, st')"
  shows "P st'"
  using assms(2,3)
  by (auto simp: sync_rx_driver_def Let_def dest!: frame_steps(1) [OF assms(1)] frame_maps [OF assms(1)]
      dest: sync_frame_calls [OF assms(1)] split: bind_splits if_splits prod.splits)

lemma frame_receive:
  assumes "sync_frame drv P" and "P st" and "sync_receive drv c sync st = Some (r, st')"
  shows "P st'"
  using assms(2,3)
  by (auto simp: sync_receive_def Let_def
      dest!: frame_steps(1) [OF assms(1)] frame_rx_alloc [OF assms(1)] frame_rx_release [OF assms(1)]
      dest: frame_rx_driver [OF assms(1), rotated] split: bind_splits if_splits prod.splits)

lemma frame_inject_loop:
  assumes "sync_frame drv P"
  shows "P st \<Longrightarrow> inject_loop k drv n ds head st = Some st' \<Longrightarrow> P st'"
proof (induction n arbitrary: ds head st)
  case (Suc n)
  have step: "P st'" if "inject_loop k drv n ds' h s = Some st'" "P s" for ds' h s
    using Suc.IH that by blast
  have call: "P st'" if "inject_loop k drv n ds' h (call_inject drv f c b q s) = Some st'" "P s" for ds' h f c b q s
    using Suc.IH [OF sync_frame_calls(5) [OF assms that(2)] that(1)] .
  show ?case using Suc.prems
    by (auto simp: Let_def simp del: upt_Suc dest!: frame_steps(1) [OF assms]
        dest: step call split: list.splits bind_splits if_splits option.splits)
qed simp

lemma frame_sync_vector:
  assumes "sync_frame drv P" and "P st" and "dvpp_sync_vector k drv sync st = Some (r, st')"
  shows "P st'"
  using assms(2,3)
  by (auto simp: dvpp_sync_vector_def sync_inject_def Let_def
      dest: frame_transmit [OF assms(1)] frame_receive [OF assms(1)] frame_inject_loop [OF assms(1)]
      split: bind_splits if_splits)

section \<open>The module as a transition system\<close>

definition driver_frame :: "'d driver \<Rightarrow> bool" where
  "driver_frame drv \<longleftrightarrow> (\<forall>x. sync_frame drv (\<lambda>st. clients st = x))
     \<and> (\<forall>f c st. clients (call_cancel_dma drv f c st) = clients st)"

text \<open>
  The requests of a well-behaved VPP: thread numbers that exist, vectors that fit the shared
  area, as many pages as the table holds, and no more buffers than the cache has room for.
\<close>

definition request_ok :: "u32 \<Rightarrow> ioctl_arg \<Rightarrow> 'd dvpp_state \<Rightarrow> bool" where
  "request_ok n arg st \<longleftrightarrow>
     (n = DVPP_IOCTL_VECTOR_SYNC \<longrightarrow>
        unat (sync_thread (arg_sync arg)) < DVPP_NUM_THREADS
        \<and> unat (sync_size (arg_sync arg)) \<le> DVPP_VLEN + 8
        \<and> unat (sync_alloc_size (arg_sync arg)) \<le> DVPP_ALLOC_VLEN
        \<and> tx_fn (ops st) \<noteq> 0 \<and> inject_fn (ops st) \<noteq> 0
        \<and> (unat (sync_port (arg_sync arg)) < DVPP_NUM_PORT \<longrightarrow>
             length (cached (unat (dvpp_thread_map st ! unat (sync_port (arg_sync arg)))) st)
               + unat (sync_alloc_size (arg_sync arg)) \<le> DVPP_NB_BUFFERS))
     \<and> (n = DVPP_IOCTL_REGISTER_MAP \<longrightarrow>
          unat (arg_n_pages arg) \<le> DVPP_MAX_NB_BLOCK \<and> length (arg_pa arg) = DVPP_MAX_NB_BLOCK)
     \<and> (n = DVPP_IOCTL_THREAD_MAP \<longrightarrow>
          length (arg_thread arg) = DVPP_NUM_PORT \<and> (\<forall>t \<in> set (arg_thread arg). unat t < DVPP_NUM_THREADS))"

text \<open>Ioctl calls come from a process that has the device open.\<close>

inductive dvpp_step :: "'d kern \<Rightarrow> 'd driver \<Rightarrow> (u64 \<Rightarrow> u64) \<Rightarrow> 'd dvpp_state \<Rightarrow> 'd dvpp_state \<Rightarrow> bool"
  for k drv tv where
  step_open: "dvpp_open lock st = (r, st') \<Longrightarrow> dvpp_step k drv tv st st'"
| step_release: "dvpp_release drv st = Some (r, st') \<Longrightarrow> dvpp_step k drv tv st st'"
| step_poll: "dvpp_poll st = (msk, st') \<Longrightarrow> dvpp_step k drv tv st st'"
| step_ioctl: "\<lbrakk>user_count st \<noteq> 0; request_ok n arg st;
     dvpp_ioctl k drv tv n arg st = Some (r, out, st')\<rbrakk> \<Longrightarrow> dvpp_step k drv tv st st'"
| step_register: "dvpp_register f st = st' \<Longrightarrow> dvpp_step k drv tv st st'"
| step_port: "dvpp_port_state ctx port addr en st = Some (r, st') \<Longrightarrow> dvpp_step k drv tv st st'"
| step_pipe: "dvpp_pipe_state port pipe addr en st = Some (r, st') \<Longrightarrow> dvpp_step k drv tv st st'"
| step_alloc: "dvpp_port_alloc_mini port st = Some (d, st') \<Longrightarrow> dvpp_step k drv tv st st'"
| step_free: "\<lbrakk>unat port < DVPP_NUM_PORT \<longrightarrow>
       length (cached (unat (dvpp_thread_map st ! unat port)) st) < DVPP_NB_BUFFERS;
     dvpp_port_free_mini d' port st = Some st'\<rbrakk> \<Longrightarrow> dvpp_step k drv tv st st'"

inductive dvpp_reach :: "'d kern \<Rightarrow> 'd driver \<Rightarrow> (u64 \<Rightarrow> u64) \<Rightarrow> 'd dvpp_state \<Rightarrow> bool" for k drv tv where
  reach_init: "dvpp_init True True add 0 (dvpp_globals d) = (0, st) \<Longrightarrow> dvpp_reach k drv tv st"
| reach_step: "\<lbrakk>dvpp_reach k drv tv st; dvpp_step k drv tv st st'\<rbrakk> \<Longrightarrow> dvpp_reach k drv tv st'"

text \<open>
  The module's contract: the state is well formed and mapped, there is at most one user and one
  driver, without a driver there is no function to call, and without a user the kernel holds no
  buffer and no page of it.
\<close>

definition dvpp_inv :: "'d dvpp_state \<Rightarrow> bool" where
  "dvpp_inv st \<longleftrightarrow> mapped st \<and> user_count st \<le> 1 \<and> platform_client_count st \<le> 1
     \<and> (platform_client_count st = 0 \<longrightarrow> ops st = zero_ops)
     \<and> (user_count st = 0 \<longrightarrow> \<not> has_user_block_map st \<and> (\<forall>t < DVPP_NUM_THREADS. cached t st = []))"

lemma mapped_upds [simp]:
  "mapped (st\<lparr>user_count := n\<rparr>) = mapped st" "mapped (st\<lparr>poll_wait_exiting := b\<rparr>) = mapped st"
  "mapped (st\<lparr>poll_wait_state_pending := b\<rparr>) = mapped st" "mapped (st\<lparr>ops := f\<rparr>) = mapped st"
  "mapped (st\<lparr>platform_client_count := n\<rparr>) = mapped st"
  by (simp_all add: mapped_def dvpp_wf_def)

lemma dvpp_inv_cong:
  assumes "clients st' = clients st" and "mini_cache st' = mini_cache st"
  shows "dvpp_inv st \<Longrightarrow> mapped st' \<Longrightarrow> dvpp_inv st'"
  using assms by (auto simp: dvpp_inv_def clients_def cached_def)

lemma dvpp_inv_user:
  assumes "clients st' = clients st" and "user_count st \<noteq> 0"
  shows "dvpp_inv st \<Longrightarrow> mapped st' \<Longrightarrow> dvpp_inv st'"
  using assms by (auto simp: dvpp_inv_def clients_def)

lemma remap_blocks_length: "remap_blocks tv pa is bl = Some bl' \<Longrightarrow> length bl' = length bl"
  by (induction "is" arbitrary: bl) (auto simp: arr_set_def split: bind_splits if_splits)

lemma copy_thread_map_set:
  "copy_thread_map is src dst = Some dst' \<Longrightarrow> length dst' = length dst \<and> set dst' \<subseteq> set src \<union> set dst"
proof (induction "is" arbitrary: dst)
  case (Cons i "is")
  then obtain dst1 where "copy_thread_map is src dst1 = Some dst'" and d: "dst1 = dst[i := src ! i]" "i < length src"
    by (auto simp: arr_get_def arr_set_def split: bind_splits if_splits)
  with Cons.IH [of dst1] show ?case
    by (auto dest!: set_update_subset_insert [THEN subsetD])
qed simp

lemma inv_ioctl:
  assumes drv: "driver_ok drv" "driver_frame drv" and inv: "dvpp_inv st" and u: "user_count st \<noteq> 0"
    and ok: "request_ok n arg st" and r: "dvpp_ioctl k drv tv n arg st = Some (r, out, st')"
  shows "dvpp_inv st'"
proof -
  have m: "mapped st" using inv by (simp add: dvpp_inv_def)
  consider "n = DVPP_IOCTL_VECTOR_SYNC" "dvpp_sync_vector k drv (arg_sync arg) st = Some (r, st')"
    | "n = DVPP_IOCTL_REGISTER_MAP" "dvpp_remap_user tv (arg_n_pages arg) (arg_pa arg) st = Some (r, st')"
    | tm where "n = DVPP_IOCTL_THREAD_MAP" "st' = st\<lparr>dvpp_thread_map := tm\<rparr>"
        "copy_thread_map [0..<DVPP_NUM_PORT] (arg_thread arg) (dvpp_thread_map st) = Some tm"
    | "st' = st"
    using r unfolding dvpp_ioctl_def
    by (auto simp del: upt_rec_numeral split: if_splits bind_splits)
  then show ?thesis
  proof cases
    case 1
    have "clients st' = clients st"
      by (rule frame_sync_vector [OF _ _ 1(2), of "\<lambda>s. clients s = clients st"])
        (use drv(2) in \<open>auto simp only: driver_frame_def\<close>)
    moreover have "mapped st'"
      using sync_vector_ok [OF drv(1) m, of "arg_sync arg" k] ok 1 by (auto simp: request_ok_def)
    ultimately show ?thesis using dvpp_inv_user [OF _ u inv] by blast
  next
    case 2
    then have "mapped st'" using m
      by (auto simp: dvpp_remap_user_def mapped_def dvpp_wf_def dest: remap_blocks_length split: bind_splits)
    with 2 inv u show ?thesis by (auto simp: dvpp_remap_user_def dvpp_inv_def cached_def split: bind_splits)
  next
    case 3
    then have "mapped st'" using m ok copy_thread_map_set [OF 3(3)]
      by (auto simp: mapped_def dvpp_wf_def request_ok_def)
    then show ?thesis using dvpp_inv_cong [OF _ _ inv, of st'] 3(2) by (simp add: clients_def)
  qed (use inv in simp)
qed

lemma inv_release:
  assumes drv: "driver_ok drv" "driver_frame drv" and inv: "dvpp_inv st"
    and r: "dvpp_release drv st = Some (r, st')"
  shows "dvpp_inv st'"
proof (cases "user_count st = 0")
  case True
  then show ?thesis using r inv by (auto simp: dvpp_release_def dvpp_inv_def cached_def)
next
  case False
  from reclaim_user_ok [OF drv(1)] inv drv(2) obtain s
    where s: "dvpp_reclaim_user drv st = Some s" "mapped s" "\<forall>t < DVPP_NUM_THREADS. cached t s = []"
      "clients s = clients (st\<lparr>has_user_block_map := False\<rparr>)"
    by (metis driver_frame_def dvpp_inv_def)
  then have "st' = s\<lparr>user_count := 0, poll_wait_exiting := True\<rparr>"
    using r False by (auto simp: dvpp_release_def)
  with s inv show ?thesis by (auto simp: dvpp_inv_def clients_def cached_def)
qed

lemma zero_port_wf: "port_wf zero_port" by (simp add: port_wf_def zero_port_def)

lemma mapped_ports:
  assumes "mapped st" and "port_wf p"
  shows "mapped (st\<lparr>ports := (ports st)[i := p], poll_wait_state_pending := b\<rparr>)"
  using assms by (auto simp: mapped_def dvpp_wf_def dest!: set_update_subset_insert [THEN subsetD])

lemma inv_ports:
  assumes inv: "dvpp_inv st"
    and st': "st' = st \<or> (\<exists>p. port_wf p \<and> st' = st\<lparr>ports := (ports st)[i := p], poll_wait_state_pending := True\<rparr>)"
  shows "dvpp_inv st'"
  using st' dvpp_inv_cong [OF _ _ inv, of st'] mapped_ports [of st] inv
  by (auto simp: clients_def dvpp_inv_def)

lemma inv_port_state:
  assumes inv: "dvpp_inv st" and r: "dvpp_port_state ctx port addr en st = Some (r, st')"
  shows "dvpp_inv st'"
proof (rule inv_ports [OF inv, of _ "unat port"], cases "DVPP_NUM_PORT \<le> unat port")
  case False
  let ?P = "replicate DVPP_NUM_PIPE_PER_PORT zero_pipe"
  have "port_wf (p\<lparr>port_enable := en, port_context := ctx, port_addr := a, port_pipes := ?P\<rparr>)" for p a
    by (simp add: port_wf_def)
  with r False zero_port_wf
  show "st' = st \<or> (\<exists>p. port_wf p \<and> st' = st\<lparr>ports := (ports st)[unat port := p], poll_wait_state_pending := True\<rparr>)"
    by (cases "en = 0") (auto simp: dvpp_port_state_def split: bind_splits)
qed (use r in \<open>simp add: dvpp_port_state_def\<close>)

lemma inv_pipe_state:
  assumes inv: "dvpp_inv st" and r: "dvpp_pipe_state port pipe addr en st = Some (r, st')"
  shows "dvpp_inv st'"
proof (rule inv_ports [OF inv, of _ "unat port"],
    cases "DVPP_NUM_PORT \<le> unat port \<or> DVPP_NUM_PIPE_PER_PORT \<le> unat pipe")
  case False
  then obtain p where p: "arr_get (ports st) (unat port) = Some p"
    using r by (auto simp: dvpp_pipe_state_def split: bind_splits)
  then have wf: "port_wf p"
    using inv by (auto simp: dvpp_inv_def mapped_def dvpp_wf_def arr_get_def split: if_splits)
  let ?q = "\<lparr>pipe_enable = en, pipe_addr = (case addr of
       Some a \<Rightarrow> if en \<noteq> 0 then take 6 a else replicate 6 0 | None \<Rightarrow> replicate 6 0)\<rparr>"
  let ?p = "if port_enable p \<noteq> 0 then p\<lparr>port_pipes := (port_pipes p)[unat pipe := ?q]\<rparr> else p"
  have "port_wf ?p" using wf by (simp add: port_wf_def)
  moreover have "st' = st\<lparr>ports := (ports st)[unat port := ?p], poll_wait_state_pending := True\<rparr>"
    using r False p unfolding dvpp_pipe_state_def Let_def by simp
  ultimately
  show "st' = st \<or> (\<exists>p. port_wf p \<and> st' = st\<lparr>ports := (ports st)[unat port := p], poll_wait_state_pending := True\<rparr>)"
    by blast
qed (use r in \<open>auto simp: dvpp_pipe_state_def split: if_splits\<close>)

lemma inv_alloc:
  assumes inv: "dvpp_inv st" and r: "dvpp_port_alloc_mini port st = Some (d, st')"
  shows "dvpp_inv st'"
proof -
  have m: "mapped st'" using dvpp_port_alloc_mini_mapped [OF _ r] inv by (simp add: dvpp_inv_def)
  have st': "clients st' = clients st"
    using r by (auto simp: dvpp_port_alloc_mini_def cache_take_def clients_def Let_def
        split: bind_splits if_splits prod.splits)
  show ?thesis
  proof (cases "user_count st = 0")
    case True
    have wf: "dvpp_wf st" using inv by (simp add: dvpp_inv_def mapped_def)
    have emp: "\<forall>t < DVPP_NUM_THREADS. cached t st = []" using True inv by (simp add: dvpp_inv_def)
    consider "st' = st" | "unat port < DVPP_NUM_PORT"
        "cache_take (unat (dvpp_thread_map st ! unat port)) st = Some (d, st')"
      using r wf
      by (auto simp: dvpp_port_alloc_mini_def arr_get_def dvpp_wf_def split: bind_splits if_splits)
    then have "\<forall>t < DVPP_NUM_THREADS. cached t st' = []"
    proof cases
      case 2
      let ?t = "unat (dvpp_thread_map st ! unat port)"
      have t: "?t < DVPP_NUM_THREADS" using wf_thread_map [OF wf 2(1)] by simp
      have "cached ?t st' = tl (cached ?t st)" "\<forall>u. u \<noteq> ?t \<longrightarrow> cached u st' = cached u st"
        using cache_take_ok [OF wf t] 2(2) by simp_all
      then show ?thesis using emp t by (metis list.sel(2))
    qed (use emp in simp)
    with m st' inv show ?thesis by (simp add: dvpp_inv_def clients_def)
  qed (use dvpp_inv_user [OF st' _ inv m] in blast)
qed

lemma inv_free:
  assumes inv: "dvpp_inv st" and r: "dvpp_port_free_mini d port st = Some st'"
    and room: "unat port < DVPP_NUM_PORT \<longrightarrow>
       length (cached (unat (dvpp_thread_map st ! unat port)) st) < DVPP_NB_BUFFERS"
  shows "dvpp_inv st'"
proof (cases "has_user_block_map st")
  case True
  let ?t = "unat (dvpp_thread_map st ! unat port)" and ?b = "d\<lparr>seg_offset := DVPP_DATA_HEADROOM\<rparr>"
  let ?f = "\<lambda>s :: dvpp_port_stats. s\<lparr>driver_free := driver_free s + 1\<rparr>"
  have wf: "dvpp_wf st" using inv by (simp add: dvpp_inv_def mapped_def)
  obtain s1 where s1: "upd_stats (unat port) (\<lambda>s. s\<lparr>driver_free := driver_free s + 1\<rparr>) st = Some s1"
    using r True by (auto simp: dvpp_port_free_mini_def split: bind_splits)
  then have p: "unat port < DVPP_NUM_PORT" using wf
    by (auto simp: upd_stats_def arr_get_def dvpp_wf_def split: if_splits bind_splits)
  from upd_stats_ok [OF wf p, of ?f] s1 have w1: "dvpp_wf s1" "s1 = st\<lparr>main_stats := main_stats s1\<rparr>" by simp_all
  have eq: "cached ?t s1 = cached ?t st" "dvpp_thread_map s1 = dvpp_thread_map st" "clients s1 = clients st"
    "maps_ptr s1 = maps_ptr st"
    by (subst w1(2), simp add: cached_def clients_def)+
  have tm: "arr_get (dvpp_thread_map s1) (unat port) = Some (dvpp_thread_map st ! unat port)"
    "?t < DVPP_NUM_THREADS" using wf_thread_map [OF w1(1) p] eq by simp_all
  then have put: "cache_put ?b ?t s1 = Some st'"
    using r True s1 by (simp add: dvpp_port_free_mini_def)
  with cache_put_ok [OF w1(1) tm(2), of ?b] room p eq(1)
  have st': "dvpp_wf st'" "st' = s1\<lparr>mini_cache := mini_cache st'\<rparr>" by auto
  have "clients st' = clients s1" "maps_ptr st' = maps_ptr s1" by (subst st'(2), simp add: clients_def)+
  then have "clients st' = clients st" "mapped st'" using eq st'(1) inv by (simp_all add: mapped_def dvpp_inv_def)
  moreover have "user_count st \<noteq> 0" using True inv by (auto simp: dvpp_inv_def)
  ultimately show ?thesis using dvpp_inv_user inv by blast
qed (use r inv in \<open>simp add: dvpp_port_free_mini_def\<close>)

lemma inv_step:
  assumes "driver_ok drv" "driver_frame drv" and "dvpp_step k drv tv st st'" and "dvpp_inv st"
  shows "dvpp_inv st'"
  using assms(3,4)
proof (cases rule: dvpp_step.cases)
  case (step_open lock r)
  then have "st' = st \<or> st' = st\<lparr>user_count := 1, poll_wait_exiting := False\<rparr>"
    by (auto simp: dvpp_open_def split: if_splits)
  then show ?thesis using assms(4) by (auto simp: dvpp_inv_def cached_def)
next
  case (step_register f)
  then have "st' = st \<or> (\<exists>f. st' = st\<lparr>ops := f, platform_client_count := 1\<rparr>)
      \<or> st' = st\<lparr>ops := zero_ops, platform_client_count := 0\<rparr>"
    by (auto simp: dvpp_register_def split: option.splits if_splits)
  then show ?thesis using assms(4) by (auto simp: dvpp_inv_def cached_def)
next
  case (step_poll msk)
  then have "st' = st\<lparr>poll_wait_exiting := False, poll_wait_state_pending := False\<rparr>"
    by (simp add: dvpp_poll_def Let_def)
  then show ?thesis using assms(4) by (simp add: dvpp_inv_def cached_def)
qed (use assms in \<open>auto intro: inv_release inv_ioctl inv_port_state inv_pipe_state inv_alloc inv_free\<close>)

lemma inv_init:
  assumes "dvpp_init True True a 0 (dvpp_globals d) = (0, st)"
  shows "dvpp_inv st"
proof -
  have "st = (snd (dvpp_allocate_port_map True (dvpp_init_buffers (dvpp_globals d))))
      \<lparr>ports := replicate DVPP_NUM_PORT zero_port, mini_cache := replicate DVPP_NUM_THREADS dvpp_init_cache,
       plist_head := plist_head st, dvpp_platform := True\<rparr>"
    using assms by (auto simp: dvpp_init_def Let_def init_allocator_def dvpp_allocate_port_map_def
        dvpp_init_buffers_def split: if_splits)
  moreover have "dvpp_inv ((snd (dvpp_allocate_port_map True (dvpp_init_buffers (dvpp_globals d))))
      \<lparr>ports := replicate DVPP_NUM_PORT zero_port, mini_cache := replicate DVPP_NUM_THREADS dvpp_init_cache,
       plist_head := h, dvpp_platform := True\<rparr>)" for h
    using cache_inv_init maps_wf_zero zero_port_wf
    by (auto simp: dvpp_inv_def mapped_def dvpp_wf_def dvpp_globals_def dvpp_allocate_port_map_def
        dvpp_init_buffers_def zero_ops_def cached_def)
  ultimately show ?thesis by metis
qed

section \<open>Properties\<close>


lemma sample_driver_frame: "driver_frame sample_driver"
proof -
  have alloc: "clients st' = clients st" if "dvpp_port_alloc_mini p st = Some (d, st')"
    for p d and st st' :: "nat dvpp_state"
    using that by (auto simp: dvpp_port_alloc_mini_def cache_take_def clients_def Let_def
        split: bind_splits if_splits prod.splits)
  have rx: "clients (snd (snd (call_rx sample_driver f c n st))) = clients st" for f c n st
  proof (cases "dvpp_port_alloc_mini 0 st")
    case (Some x)
    then obtain d st' where "dvpp_port_alloc_mini 0 st = Some (d, st')" by (cases x) auto
    with alloc [OF this] show ?thesis by (cases d) (simp_all add: sample_driver_def clients_def)
  qed (simp add: sample_driver_def)
  have calls: "clients (snd (call_tx sample_driver f c q v n st)) = clients st"
    "clients (call_tx_complete sample_driver f c st) = clients st"
    "clients (snd (call_tx_avail sample_driver f c st)) = clients st"
    "clients (call_inject sample_driver f c bs q st) = clients st"
    "clients (call_cancel_dma sample_driver f c st) = clients st" for f c q v n bs st
    by (simp_all add: sample_driver_def clients_def)
  have upd: "clients (st\<lparr>mini_cache := x\<rparr>) = clients st" "clients (st\<lparr>maps_ptr := y\<rparr>) = clients st"
    "clients (st\<lparr>main_stats := z\<rparr>) = clients st" for x y z and st :: "nat dvpp_state"
    by (simp_all add: clients_def)
  show ?thesis
    unfolding driver_frame_def sync_frame_def
    by (intro conjI allI impI; simp only: rx calls upd)
qed

text \<open>A session: load, driver registration, open, a port announced, release.\<close>

definition session_end :: "nat dvpp_state" where
  "session_end =
     (let st0 = snd (dvpp_init True True 0 0 (dvpp_globals 0));
          st1 = dvpp_register (Some (ops sample_state)) st0;
          st2 = snd (dvpp_open 0 st1);
          st3 = snd (the (dvpp_port_state 77 0 (Some [2, 0, 0, 0, 0, 1]) 1 st2))
      in snd (the (dvpp_release sample_driver st3)))"

lemma session_reach: "dvpp_reach sample_kern sample_driver tv session_end"
proof -
  let ?st0 = "snd (dvpp_init True True 0 0 (dvpp_globals (0 :: nat)))"
  let ?st1 = "dvpp_register (Some (ops sample_state)) ?st0" and ?st2 = "snd (dvpp_open 0 (dvpp_register (Some (ops sample_state)) ?st0))"
  have r0: "dvpp_reach sample_kern sample_driver tv ?st0"
    by (rule reach_init [of 0 0]) (simp add: dvpp_init_def Let_def)
  have r1: "dvpp_reach sample_kern sample_driver tv ?st1"
    by (rule reach_step [OF r0 step_register]) simp
  have r2: "dvpp_reach sample_kern sample_driver tv ?st2"
    by (rule reach_step [OF r1 step_open [of 0]]) (rule prod.collapse [symmetric])
  have p: "length (ports ?st2) = 4"
    by (simp add: dvpp_open_def dvpp_register_def dvpp_init_def Let_def)
  obtain st3 where st3: "dvpp_port_state 77 0 (Some [2, 0, 0, 0, 0, 1]) 1 ?st2 = Some (0, st3)"
    using p by (simp add: dvpp_port_state_def arr_get_def)
  have r3: "dvpp_reach sample_kern sample_driver tv st3"
    by (rule reach_step [OF r2 step_port [OF st3]])
  then have inv: "dvpp_inv st3" by (induction rule: dvpp_reach.induct)
      (auto intro: inv_init inv_step [OF sample_driver_ok sample_driver_frame])
  then have "\<exists>st4. dvpp_release sample_driver st3 = Some (0, st4)"
    using reclaim_user_ok [OF sample_driver_ok, of st3] sample_driver_frame
    by (auto simp: dvpp_inv_def driver_frame_def dvpp_release_def)
  then obtain st4 where st4: "dvpp_release sample_driver st3 = Some (0, st4)" by blast
  have "session_end = st4" by (simp add: session_end_def Let_def st3 st4)
  then show ?thesis using reach_step [OF r3 step_release [OF st4]] by simp
qed


text \<open>An open that a signal interrupts fails, yet it counts as the module's user; no file is
  open that could release it, and every later open is refused.\<close>

theorem dvpp_open_interrupted:
  assumes "dvpp_open (- 4) st = (r, st1)"
  shows "r = - 4 \<and> user_count st1 = 1 \<and> dvpp_open 0 st1 = (- EAGAIN, st1)"
  using assms by (auto simp: dvpp_open_def)

theorem dvpp_open_interrupted_witness:
  "dvpp_open 0 (snd (dvpp_open (- 4) sample_state)) = (- EAGAIN, snd (dvpp_open (- 4) sample_state))"
  using dvpp_open_interrupted [of sample_state "fst (dvpp_open (- 4) sample_state)"] by simp

end
