(* ===== verification/Esmc.thy ===== *)
theory Esmc
  imports Complex_Main Prelude
begin

text \<open>
  The Ethernet Synchronization Messaging Channel plugin of VPP (\<open>vpp_plugins/esmc\<close>: \<open>esmc.c\<close>,
  \<open>node.c\<close>, \<open>esmc.h\<close>). It receives the quality level (SSM) that neighbours announce, selects the
  best timing source, programs the phase-locked loop to follow it, and announces the resulting
  quality on its own interfaces.

  VPP itself is an argument: the interface table and the buffer allocator (\<open>vpp_env\<close>), and the
  command-line tokens its parser recognises. The PLL device file is the record \<open>pll_ops\<close> over a
  state of its own. Time is a real number. Frames sent and events signalled are lists in the
  state. Log messages and packet traces are left out.
\<close>

section \<open>State\<close>

abbreviation ESMC_TIMEOUT_SEC :: real where "ESMC_TIMEOUT_SEC \<equiv> 5"
abbreviation ESMC_SSM_QL_UNUSED :: u8 where "ESMC_SSM_QL_UNUSED \<equiv> 0"
abbreviation ESMC_SSM_QL_DNU :: u8 where "ESMC_SSM_QL_DNU \<equiv> 15"
abbreviation ESMC_MAX_PDUS_PER_INTERVAL :: u8 where "ESMC_MAX_PDUS_PER_INTERVAL \<equiv> 10"
abbreviation PLL_MODE_NCO :: u8 where "PLL_MODE_NCO \<equiv> 4"
abbreviation PLL_MODE_REFLOCK_SYNCE :: u8 where "PLL_MODE_REFLOCK_SYNCE \<equiv> 0x62"
abbreviation NO_IF :: u32 where "NO_IF \<equiv> - 1"

definition TG_INTERFACE_PREFIX :: string where "TG_INTERFACE_PREFIX = ''vpp-terra''"

record esmc_if_state =
  if_ssm :: u8
  last_esmc_ts :: real

definition ESMC_IF_STATE_INVALID :: esmc_if_state where
  "ESMC_IF_STATE_INVALID = \<lparr>if_ssm = ESMC_SSM_QL_UNUSED, last_esmc_ts = 0\<rparr>"

record hw_interface =
  hw_sw_if_index :: u32
  hw_name :: string
  hw_address :: "u8 list"

text \<open>The interface pool, the hardware interface of a software interface, the buffer allocator.\<close>

record vpp_env =
  hw_interfaces :: "hw_interface list"
  sup_hw :: "u32 \<Rightarrow> hw_interface"
  buf_ok :: "(u32 \<times> u8 list) list \<Rightarrow> bool"

record 'p pll_ops =
  pll_open :: "'p \<Rightarrow> bool"
  pll_set_mode :: "u8 \<Rightarrow> 'p \<Rightarrow> int \<times> 'p"
  pll_set_device :: "u64 \<Rightarrow> 'p \<Rightarrow> int \<times> 'p"
  pll_get_locked :: "'p \<Rightarrow> int \<times> u32 \<times> 'p"

record 'p esmc_main =
  enabled :: bool
  input_sw_if_index :: u32
  output_sw_if_index :: u32
  input_sw_if_name :: "string option"
  output_sw_if_name :: "string option"
  enable_tg_input :: bool
  enable_tg_output :: bool
  if_rx_state :: "esmc_if_state list"
  selected_sw_if_index :: u32
  programmed_sw_if_index :: int
  em_ssm :: u8
  pll_mode :: u8
  pll_locked :: u8
  num_tx_pdu_1s :: u8
  pll_dev :: 'p
  slow_proto_node :: "u32 option"
  tx_frames :: "(u32 \<times> u8 list) list"
  rx_signals :: "u32 list"
  cnt_processed :: u64
  cnt_dropped :: u64
  cnt_transmitted :: u64

section \<open>Configuration (esmc.c)\<close>

definition esmc_enable_disable ::
  "bool \<Rightarrow> u32 \<Rightarrow> u32 \<Rightarrow> bool \<Rightarrow> bool \<Rightarrow> 'p esmc_main \<Rightarrow> int \<times> 'p esmc_main" where
  "esmc_enable_disable en in_if out_if tg_in tg_out em =
     (0, if en
         then em\<lparr>enabled := True, if_rx_state := [], selected_sw_if_index := NO_IF,
                 programmed_sw_if_index := - 1, em_ssm := ESMC_SSM_QL_UNUSED, pll_mode := - 1,
                 pll_locked := 0, num_tx_pdu_1s := 0, input_sw_if_index := in_if,
                 output_sw_if_index := out_if, input_sw_if_name := None, output_sw_if_name := None,
                 enable_tg_input := tg_in, enable_tg_output := tg_out\<rparr>
         else em\<lparr>enabled := False\<rparr>)"

text \<open>What the CLI and configuration parsers match at the current position.\<close>

datatype cli_token = TEnable | TDisable | TOn | TInput u32 | TOutput u32
  | TInputName string | TOutputName string | TTgInput | TTgOutput | TUnknown

text \<open>The option loop of the \<open>esmc enable\<close> command; \<open>None\<close> is the error return.\<close>

fun cli_options ::
  "cli_token list \<Rightarrow> u32 \<times> u32 \<times> bool \<times> bool \<Rightarrow> (u32 \<times> u32 \<times> bool \<times> bool) option" where
  "cli_options [] o4 = Some o4"
| "cli_options (TInput i # ts) (a, b, c, d) = cli_options ts (i, b, c, d)"
| "cli_options (TOutput i # ts) (a, b, c, d) = cli_options ts (a, i, c, d)"
| "cli_options (TTgInput # ts) (a, b, c, d) = cli_options ts (a, b, True, d)"
| "cli_options (TTgOutput # ts) (a, b, c, d) = cli_options ts (a, b, c, True)"
| "cli_options (_ # ts) o4 = None"

definition esmc_enable_disable_command_fn ::
  "cli_token list \<Rightarrow> 'p esmc_main \<Rightarrow> 'p esmc_main option" where
  "esmc_enable_disable_command_fn ts em =
     (case ts of
        TDisable # _ \<Rightarrow> Some (snd (esmc_enable_disable False NO_IF NO_IF False False em))
      | TEnable # opts \<Rightarrow>
          (case cli_options opts (NO_IF, NO_IF, False, False) of
             None \<Rightarrow> None
           | Some (a, b, c, d) \<Rightarrow> Some (snd (esmc_enable_disable True a b c d em)))
      | _ \<Rightarrow> None)"

definition vl_api_esmc_enable_disable_t_handler ::
  "bool \<Rightarrow> u32 \<Rightarrow> u32 \<Rightarrow> bool \<Rightarrow> bool \<Rightarrow> 'p esmc_main \<Rightarrow> int \<times> 'p esmc_main" where
  "vl_api_esmc_enable_disable_t_handler = esmc_enable_disable"

text \<open>The startup configuration; the flag says whether an unknown token ended it early.\<close>

fun config_loop :: "cli_token list \<Rightarrow> 'p esmc_main \<Rightarrow> bool \<times> 'p esmc_main" where
  "config_loop [] em = (True, em)"
| "config_loop (TOn # ts) em = config_loop ts (em\<lparr>enabled := True\<rparr>)"
| "config_loop (TInputName n # ts) em = config_loop ts (em\<lparr>input_sw_if_name := Some n\<rparr>)"
| "config_loop (TOutputName n # ts) em = config_loop ts (em\<lparr>output_sw_if_name := Some n\<rparr>)"
| "config_loop (TTgInput # ts) em = config_loop ts (em\<lparr>enable_tg_input := True\<rparr>)"
| "config_loop (TTgOutput # ts) em = config_loop ts (em\<lparr>enable_tg_output := True\<rparr>)"
| "config_loop (_ # ts) em = (False, em)"

definition esmc_config :: "cli_token list \<Rightarrow> 'p esmc_main \<Rightarrow> bool \<times> 'p esmc_main" where
  "esmc_config ts em =
     config_loop ts
       (em\<lparr>enabled := False, input_sw_if_index := NO_IF, output_sw_if_index := NO_IF,
           input_sw_if_name := None, output_sw_if_name := None, enable_tg_input := False,
           enable_tg_output := False, if_rx_state := [], selected_sw_if_index := NO_IF,
           programmed_sw_if_index := - 1, em_ssm := ESMC_SSM_QL_UNUSED, pll_mode := - 1,
           pll_locked := 0, num_tx_pdu_1s := 0\<rparr>)"

section \<open>The PLL device\<close>

definition esmc_set_pll_mode :: "'p pll_ops \<Rightarrow> u8 \<Rightarrow> 'p esmc_main \<Rightarrow> 'p esmc_main" where
  "esmc_set_pll_mode pl mode em =
     (if \<not> pll_open pl (pll_dev em) then em
      else em\<lparr>pll_dev := snd (pll_set_mode pl mode (pll_dev em))\<rparr>)"

definition esmc_set_pll_interface :: "'p pll_ops \<Rightarrow> u64 \<Rightarrow> 'p esmc_main \<Rightarrow> 'p esmc_main" where
  "esmc_set_pll_interface pl macaddr em =
     (if \<not> pll_open pl (pll_dev em) then em
      else em\<lparr>pll_dev := snd (pll_set_device pl macaddr (pll_dev em))\<rparr>)"

definition esmc_get_pll_locked :: "'p pll_ops \<Rightarrow> 'p esmc_main \<Rightarrow> u8 \<times> 'p esmc_main" where
  "esmc_get_pll_locked pl em =
     (if \<not> pll_open pl (pll_dev em) then (0, em)
      else let (r, val, d) = pll_get_locked pl (pll_dev em) in (ucast val, em\<lparr>pll_dev := d\<rparr>))"

section \<open>Receive\<close>

text \<open>\<open>!strncmp (hw->name, prefix, prefix_len)\<close>.\<close>

definition name_matches :: "string \<Rightarrow> string \<Rightarrow> bool" where
  "name_matches prefix name \<longleftrightarrow> take (length prefix) name = prefix"

text \<open>\<open>vec_validate_init_empty\<close>: grow the vector so that the index exists.\<close>

definition vec_validate :: "nat \<Rightarrow> esmc_if_state list \<Rightarrow> esmc_if_state list" where
  "vec_validate i v = v @ replicate (Suc i - length v) ESMC_IF_STATE_INVALID"

definition esmc_rx :: "vpp_env \<Rightarrow> real \<Rightarrow> u32 \<Rightarrow> u8 \<Rightarrow> bool \<Rightarrow> 'p esmc_main \<Rightarrow> u8 \<times> 'p esmc_main" where
  "esmc_rx env now sw_if_index ssm event em =
     (if sw_if_index \<noteq> input_sw_if_index em
         \<and> (\<not> enable_tg_input em \<or> \<not> name_matches TG_INTERFACE_PREFIX (hw_name (sup_hw env sw_if_index)))
      then (- 1, em)
      else
        let i = unat sw_if_index;
            v = vec_validate i (if_rx_state em);
            em1 = em\<lparr>if_rx_state := v[i := (v ! i)\<lparr>last_esmc_ts := now\<rparr>]\<rparr>
        in if if_ssm (v ! i) \<noteq> ssm
           then (0, em1\<lparr>if_rx_state := v[i := \<lparr>if_ssm = ssm, last_esmc_ts = now\<rparr>],
                        rx_signals := rx_signals em1 @ [sw_if_index]\<rparr>)
           else (0, em1))"

section \<open>Transmit\<close>

text \<open>
  The 64 bytes of a PDU: slow-protocol multicast address, source address, Ethernet type, the
  ESMC header (subtype, OUI, ITU subtype, flags, padding) and the QL TLV in 40 bytes of data.
\<close>

definition esmc_pdu :: "u8 list \<Rightarrow> u8 \<Rightarrow> bool \<Rightarrow> u8 list" where
  "esmc_pdu src ssm event =
     [0x01, 0x80, 0xc2, 0x00, 0x00, 0x02] @ src @ [0x88, 0x09]
     @ [0x0a, 0x00, 0x19, 0xa7, 0x00, 0x01, push_bit 4 1 OR push_bit 3 (if event then 1 else 0), 0, 0, 0]
     @ [0x01, 0x00, 0x04, push_bit 4 0 OR (ssm AND 0xf)] @ replicate 36 0"

definition esmc_tx :: "vpp_env \<Rightarrow> u32 \<Rightarrow> u8 \<Rightarrow> bool \<Rightarrow> 'p esmc_main \<Rightarrow> u8 \<times> 'p esmc_main" where
  "esmc_tx env sw_if_index ssm event em =
     (let hw = sup_hw env sw_if_index
      in if \<not> buf_ok env (tx_frames em) then (- 1, em)
         else (0, em\<lparr>tx_frames := tx_frames em @ [(hw_sw_if_index hw, esmc_pdu (hw_address hw) ssm event)]\<rparr>))"

text \<open>The choice made for one output interface: the SSM to send there, if any.\<close>

definition tx_choice :: "u32 \<Rightarrow> u8 \<Rightarrow> bool \<Rightarrow> 'p esmc_main \<Rightarrow> u8 option" where
  "tx_choice sw ssm event em =
     (if sw = selected_sw_if_index em then (if \<not> event then Some ESMC_SSM_QL_DNU else None)
      else Some ssm)"

definition tx_one ::
  "vpp_env \<Rightarrow> u32 \<Rightarrow> u8 \<Rightarrow> bool \<Rightarrow> nat \<times> 'p esmc_main \<Rightarrow> nat \<times> 'p esmc_main" where
  "tx_one env sw ssm event s =
     (case tx_choice sw ssm event (snd s) of
        None \<Rightarrow> s
      | Some q \<Rightarrow> (fst s + 1, snd (esmc_tx env sw q event (snd s))))"

primrec tx_tg_loop ::
  "vpp_env \<Rightarrow> hw_interface list \<Rightarrow> u8 \<Rightarrow> bool \<Rightarrow> u32 \<Rightarrow> nat \<times> 'p esmc_main \<Rightarrow> nat \<times> 'p esmc_main" where
  "tx_tg_loop env [] ssm event from s = s"
| "tx_tg_loop env (hw # hws) ssm event from s =
     tx_tg_loop env hws ssm event from
       (if hw_sw_if_index hw \<noteq> from \<and> hw_sw_if_index hw \<noteq> output_sw_if_index (snd s)
           \<and> name_matches TG_INTERFACE_PREFIX (hw_name hw)
        then tx_one env (hw_sw_if_index hw) ssm event s else s)"

definition esmc_tx_broadcast :: "vpp_env \<Rightarrow> u8 \<Rightarrow> bool \<Rightarrow> u32 \<Rightarrow> 'p esmc_main \<Rightarrow> 'p esmc_main" where
  "esmc_tx_broadcast env ssm event from em =
     (if ESMC_MAX_PDUS_PER_INTERVAL \<le> num_tx_pdu_1s em then em
      else
        let s1 = (if output_sw_if_index em \<noteq> NO_IF then tx_one env (output_sw_if_index em) ssm event (0, em)
                  else (0, em));
            (pkts_sent, em2) = (if enable_tg_output em then tx_tg_loop env (hw_interfaces env) ssm event from s1
                                else s1)
        in if pkts_sent \<noteq> 0
           then em2\<lparr>num_tx_pdu_1s := num_tx_pdu_1s em2 + 1,
                    cnt_transmitted := cnt_transmitted em2 + of_nat pkts_sent\<rparr>
           else em2)"

section \<open>State update\<close>

definition kEsmcSsmPreference :: "nat list" where
  "kEsmcSsmPreference = [0, 0, 5, 0, 4, 0, 0, 0, 3, 0, 0, 2, 0, 0, 0, 1]"

definition pref :: "u8 \<Rightarrow> nat" where
  "pref ssm = kEsmcSsmPreference ! unat ssm"

text \<open>The loop over the receive states: the states, the best SSM and its interface.\<close>

primrec best_loop ::
  "real \<Rightarrow> esmc_if_state list \<Rightarrow> nat \<Rightarrow> u8 \<times> u32 \<Rightarrow> esmc_if_state list \<times> u8 \<times> u32" where
  "best_loop now [] i best = ([], best)"
| "best_loop now (s # ss) i best =
     (if if_ssm s = ESMC_SSM_QL_UNUSED
      then let (r, b) = best_loop now ss (Suc i) best in (s # r, b)
      else
        let s1 = (if ESMC_TIMEOUT_SEC \<le> now - last_esmc_ts s \<and> if_ssm s \<noteq> ESMC_SSM_QL_DNU
                  then s\<lparr>if_ssm := ESMC_SSM_QL_DNU\<rparr> else s);
            best1 = (if pref (fst best) < pref (if_ssm s1) then (if_ssm s1, of_nat i) else best);
            (r, b) = best_loop now ss (Suc i) best1
        in (s1 # r, b))"

text \<open>The PLL mode and the interface index that go with a best SSM.\<close>

definition pll_choice :: "u8 \<Rightarrow> u32 \<Rightarrow> 'p esmc_main \<Rightarrow> u8 \<times> int" where
  "pll_choice best_ssm best_if em =
     (if best_ssm = ESMC_SSM_QL_UNUSED \<or> best_ssm = ESMC_SSM_QL_DNU then (PLL_MODE_NCO, - 1)
      else if best_if = input_sw_if_index em then (PLL_MODE_REFLOCK_SYNCE, - 1)
      else (PLL_MODE_NCO, sint best_if))"

definition mac_of :: "u8 list \<Rightarrow> u64" where
  "mac_of a = push_bit 40 (ucast (a ! 0)) OR push_bit 32 (ucast (a ! 1)) OR push_bit 24 (ucast (a ! 2))
     OR push_bit 16 (ucast (a ! 3)) OR push_bit 8 (ucast (a ! 4)) OR ucast (a ! 5)"

text \<open>\<open>interface changed?\<close> and \<open>PLL mode changed?\<close>\<close>

definition update_interface ::
  "vpp_env \<Rightarrow> 'p pll_ops \<Rightarrow> u32 \<Rightarrow> int \<Rightarrow> 'p esmc_main \<Rightarrow> 'p esmc_main" where
  "update_interface env pl best_if interface_index em =
     (if best_if \<noteq> selected_sw_if_index em \<or> interface_index \<noteq> programmed_sw_if_index em
      then
        let em1 = em\<lparr>selected_sw_if_index := best_if, programmed_sw_if_index := interface_index, pll_locked := 0\<rparr>
        in if interface_index = - 1 then esmc_set_pll_interface pl 0 em1
           else esmc_set_pll_interface pl (mac_of (hw_address (sup_hw env (word_of_int interface_index)))) em1
      else em)"

definition update_mode :: "'p pll_ops \<Rightarrow> u8 \<Rightarrow> 'p esmc_main \<Rightarrow> 'p esmc_main" where
  "update_mode pl new_mode em =
     (if new_mode \<noteq> pll_mode em
      then esmc_set_pll_mode pl new_mode (em\<lparr>pll_mode := new_mode, pll_locked := 0\<rparr>) else em)"

text \<open>\<open>ssm changed?\<close>\<close>

definition update_ssm :: "vpp_env \<Rightarrow> u8 \<Rightarrow> u32 \<Rightarrow> 'p esmc_main \<Rightarrow> 'p esmc_main" where
  "update_ssm env best_ssm from em =
     (let q = (if pll_locked em = 0 then ESMC_SSM_QL_DNU else best_ssm)
      in if q \<noteq> em_ssm em then esmc_tx_broadcast env q True from (em\<lparr>em_ssm := q\<rparr>)
         else if from = NO_IF \<and> q \<noteq> ESMC_SSM_QL_UNUSED then esmc_tx_broadcast env q False NO_IF em
         else em)"

definition esmc_update ::
  "vpp_env \<Rightarrow> 'p pll_ops \<Rightarrow> real \<Rightarrow> u32 \<Rightarrow> 'p esmc_main \<Rightarrow> 'p esmc_main" where
  "esmc_update env pl now from em =
     (let (rx, best_ssm, best_if) = best_loop now (if_rx_state em) 0 (ESMC_SSM_QL_UNUSED, NO_IF);
          em1 = em\<lparr>if_rx_state := rx\<rparr>;
          (new_mode, interface_index) = pll_choice best_ssm best_if em1;
          em2 = update_interface env pl best_if interface_index em1;
          em3 = update_mode pl new_mode em2
      in update_ssm env best_ssm from em3)"

section \<open>The process node\<close>

text \<open>The loop that resolves an interface name: index and name afterwards (freed on a match).\<close>

fun resolve_name :: "hw_interface list \<Rightarrow> string option \<Rightarrow> u32 \<Rightarrow> u32 \<times> string option" where
  "resolve_name _ None idx = (idx, None)"
| "resolve_name [] (Some n) idx = (idx, Some n)"
| "resolve_name (hw # hws) (Some n) idx =
     (if name_matches n (hw_name hw) then resolve_name hws None (hw_sw_if_index hw)
      else resolve_name hws (Some n) idx)"

text \<open>
  \<open>slow_proto_node\<close> is the node index registered for the slow-protocols Ethernet type; without
  one, \<open>ti\<close> is NULL and the log statement dereferences it: the result \<open>None\<close>.
\<close>

definition esmc_post_init :: "vpp_env \<Rightarrow> u32 \<Rightarrow> 'p esmc_main \<Rightarrow> 'p esmc_main option" where
  "esmc_post_init env esmc_input_index em =
     (if \<not> enabled em then Some em
      else case slow_proto_node em of
        None \<Rightarrow> None
      | Some node_index \<Rightarrow>
          let em1 = (if node_index \<noteq> esmc_input_index
                     then em\<lparr>slow_proto_node := Some esmc_input_index\<rparr> else em);
              (i, n) = resolve_name (hw_interfaces env) (input_sw_if_name em1) (input_sw_if_index em1);
              em2 = em1\<lparr>input_sw_if_index := i, input_sw_if_name := n\<rparr>;
              (j, m) = resolve_name (hw_interfaces env) (output_sw_if_name em2) (output_sw_if_index em2)
          in Some (em2\<lparr>output_sw_if_index := j, output_sw_if_name := m\<rparr>))"

text \<open>
  What one wait returns: the data of the received events, each with the clock value its update
  reads, between two clock values; the heartbeat timeout; another event type.
\<close>

datatype process_event = RxCallback "(real \<times> u64) list" real real | Heartbeat real | OtherEvent

primrec rx_updates ::
  "vpp_env \<Rightarrow> 'p pll_ops \<Rightarrow> (real \<times> u64) list \<Rightarrow> 'p esmc_main \<Rightarrow> 'p esmc_main" where
  "rx_updates env pl [] em = em"
| "rx_updates env pl (d # ds) em = rx_updates env pl ds (esmc_update env pl (fst d) (ucast (snd d)) em)"

text \<open>One iteration of the loop of \<open>esmc_process_fn\<close>, with the timeout it waits for.\<close>

definition esmc_process_fn ::
  "vpp_env \<Rightarrow> 'p pll_ops \<Rightarrow> u32 \<Rightarrow> process_event \<Rightarrow> real \<times> 'p esmc_main \<Rightarrow> (real \<times> 'p esmc_main) option" where
  "esmc_process_fn env pl esmc_input_index ev s =
     (case ev of
        RxCallback ds last_time now \<Rightarrow>
          Some (fst s - (now - last_time), rx_updates env pl ds (snd s))
      | Heartbeat now \<Rightarrow>
          (let em = snd s;
               em1 = (if enabled em
                      then let (l, em0) = esmc_get_pll_locked pl (em\<lparr>num_tx_pdu_1s := 0\<rparr>)
                           in esmc_update env pl now NO_IF (em0\<lparr>pll_locked := l\<rparr>)
                      else em)
           in case esmc_post_init env esmc_input_index em1 of
                None \<Rightarrow> None | Some em2 \<Rightarrow> Some (1, em2))
      | OtherEvent \<Rightarrow> Some s)"

section \<open>The input node\<close>

text \<open>A buffer: the receiving interface, the bytes at the current position, the clock at its turn.\<close>

record esmc_buffer =
  rx_sw_if_index :: u32
  buf_bytes :: "nat \<Rightarrow> u8"
  rx_now :: real

text \<open>\<open>itu_oui\<close> is a 24-bit field of a little-endian word; \<open>clib_net_to_host_u32\<close> swaps the word.\<close>

definition clib_net_to_host_u32 :: "u32 \<Rightarrow> u32" where
  "clib_net_to_host_u32 w =
     push_bit 24 (w AND 0xff) OR push_bit 8 (w AND 0xff00)
     OR (drop_bit 8 w AND 0xff00) OR (drop_bit 24 w AND 0xff)"

definition clib_net_to_host_u16 :: "u16 \<Rightarrow> u16" where
  "clib_net_to_host_u16 w = push_bit 8 w OR drop_bit 8 w"

definition itu_oui :: "(nat \<Rightarrow> u8) \<Rightarrow> u32" where
  "itu_oui b = ucast (b 1) OR push_bit 8 (ucast (b 2)) OR push_bit 16 (ucast (b 3))"

definition le16 :: "(nat \<Rightarrow> u8) \<Rightarrow> nat \<Rightarrow> u16" where
  "le16 b i = ucast (b i) OR push_bit 8 (ucast (b (Suc i)))"

text \<open>What the node makes of a buffer: \<open>None\<close> when it drops it, else the SSM and the event flag.\<close>

definition esmc_parse :: "(nat \<Rightarrow> u8) \<Rightarrow> (u8 \<times> bool) option" where
  "esmc_parse b =
     (if b 0 \<noteq> 0x0a \<or> drop_bit 8 (clib_net_to_host_u32 (itu_oui b)) \<noteq> 0x0019a7
         \<or> clib_net_to_host_u16 (le16 b 4) \<noteq> 0x0001 then None
      else if drop_bit 4 (b 6) \<noteq> 0x1 then None
      else if b 10 \<noteq> 0x01 \<or> clib_net_to_host_u16 (le16 b 11) \<noteq> 0x0004 \<or> drop_bit 4 (b 13) \<noteq> 0x0 then None
      else Some (b 13 AND 0xf, drop_bit 3 (b 6 AND 0x8) \<noteq> 0))"

primrec input_loop ::
  "vpp_env \<Rightarrow> esmc_buffer list \<Rightarrow> u32 \<times> u32 \<times> 'p esmc_main \<Rightarrow> u32 \<times> u32 \<times> 'p esmc_main" where
  "input_loop env [] s = s"
| "input_loop env (b # bs) s =
     (case s of (processed, dropped, em) \<Rightarrow>
        input_loop env bs
          (case esmc_parse (buf_bytes b) of
             None \<Rightarrow> (processed, dropped + 1, em)
           | Some (ssm, event) \<Rightarrow>
               (processed + 1, dropped, snd (esmc_rx env (rx_now b) (rx_sw_if_index b) ssm event em))))"

definition esmc_input :: "vpp_env \<Rightarrow> esmc_buffer list \<Rightarrow> 'p esmc_main \<Rightarrow> nat \<times> 'p esmc_main" where
  "esmc_input env frame em =
     (let (processed, dropped, em1) = input_loop env frame (0, 0, em)
      in (length frame,
          em1\<lparr>cnt_processed := cnt_processed em1 + ucast processed,
              cnt_dropped := cnt_dropped em1 + ucast dropped\<rparr>))"

section \<open>Runs\<close>

text \<open>
  What drives the plugin: buffers arriving at the input node, an iteration of the process node,
  the enable/disable call of the CLI and the binary API. A run is a sequence of these; \<open>None\<close> is
  the NULL dereference of \<open>esmc_post_init\<close>.
\<close>

datatype esmc_action =
    AInput "esmc_buffer list"
  | AProcess process_event
  | AEnable bool u32 u32 bool bool

definition esmc_act ::
  "vpp_env \<Rightarrow> 'p pll_ops \<Rightarrow> u32 \<Rightarrow> esmc_action \<Rightarrow> real \<times> 'p esmc_main \<Rightarrow> (real \<times> 'p esmc_main) option" where
  "esmc_act env pl idx a s =
     (case a of
        AInput frame \<Rightarrow> Some (fst s, snd (esmc_input env frame (snd s)))
      | AProcess ev \<Rightarrow> esmc_process_fn env pl idx ev s
      | AEnable en i o' ti to \<Rightarrow> Some (fst s, snd (esmc_enable_disable en i o' ti to (snd s))))"

primrec esmc_run ::
  "vpp_env \<Rightarrow> 'p pll_ops \<Rightarrow> u32 \<Rightarrow> esmc_action list \<Rightarrow> real \<times> 'p esmc_main \<Rightarrow> (real \<times> 'p esmc_main) option" where
  "esmc_run env pl idx [] s = Some s"
| "esmc_run env pl idx (a # as) s = Option.bind (esmc_act env pl idx a s) (esmc_run env pl idx as)"

section \<open>The selection of the best source\<close>

text \<open>A state after the timeout check, and the specification of the choice.\<close>

definition aged :: "real \<Rightarrow> esmc_if_state \<Rightarrow> esmc_if_state" where
  "aged now s =
     (if if_ssm s \<noteq> ESMC_SSM_QL_UNUSED \<and> ESMC_TIMEOUT_SEC \<le> now - last_esmc_ts s
      then s\<lparr>if_ssm := ESMC_SSM_QL_DNU\<rparr> else s)"

definition first_max :: "esmc_if_state list \<Rightarrow> nat \<Rightarrow> bool" where
  "first_max rx k \<longleftrightarrow> k < length rx
     \<and> (\<forall>s \<in> set rx. pref (if_ssm s) \<le> pref (if_ssm (rx ! k)))
     \<and> (\<forall>s \<in> set (take k rx). pref (if_ssm s) < pref (if_ssm (rx ! k)))"

definition is_best :: "esmc_if_state list \<Rightarrow> u8 \<Rightarrow> u32 \<Rightarrow> bool" where
  "is_best rx q i \<longleftrightarrow>
     (if \<forall>s \<in> set rx. pref (if_ssm s) = 0 then q = ESMC_SSM_QL_UNUSED \<and> i = NO_IF
      else \<exists>k. first_max rx k \<and> q = if_ssm (rx ! k) \<and> 0 < pref q \<and> i = of_nat k)"

lemma pref_UNUSED [simp]: "pref 0 = 0"
  by (simp add: pref_def kEsmcSsmPreference_def)

lemma pref_DNU [simp]: "pref 15 = 1"
  by (simp add: pref_def kEsmcSsmPreference_def)

primrec pick :: "esmc_if_state list \<Rightarrow> nat \<Rightarrow> u8 \<times> u32 \<Rightarrow> u8 \<times> u32" where
  "pick [] i best = best"
| "pick (s # ss) i best =
     pick ss (Suc i) (if pref (fst best) < pref (if_ssm s) then (if_ssm s, of_nat i) else best)"

lemma best_loop_pick:
  "best_loop now ss i best = (map (aged now) ss, pick (map (aged now) ss) i best)"
  by (induction ss arbitrary: i best) (auto simp: aged_def split_def Let_def)

text \<open>Either nothing beats the start value, or the result is the first of the strongest entries.\<close>

lemma pick_spec:
  "(pick ss i best = best \<and> (\<forall>s \<in> set ss. pref (if_ssm s) \<le> pref (fst best)))
   \<or> (\<exists>k. first_max ss k \<and> pick ss i best = (if_ssm (ss ! k), of_nat (i + k))
        \<and> pref (fst best) < pref (if_ssm (ss ! k)))"
proof (induction ss arbitrary: i best)
  case (Cons s ss)
  let ?b = "if pref (fst best) < pref (if_ssm s) then (if_ssm s, of_nat i) else best"
  from Cons.IH [of "Suc i" ?b] show ?case
  proof (elim disjE exE)
    assume "pick ss (Suc i) ?b = ?b \<and> (\<forall>s \<in> set ss. pref (if_ssm s) \<le> pref (fst ?b))"
    then show ?thesis
      by (cases "pref (fst best) < pref (if_ssm s)")
         (auto simp: first_max_def intro!: exI [of _ 0])
  next
    fix k
    assume k: "first_max ss k \<and> pick ss (Suc i) ?b = (if_ssm (ss ! k), of_nat (Suc i + k))
        \<and> pref (fst ?b) < pref (if_ssm (ss ! k))"
    then have "pref (if_ssm s) < pref (if_ssm (ss ! k))" "pref (fst best) < pref (if_ssm (ss ! k))"
      by (auto split: if_splits)
    with k have "first_max (s # ss) (Suc k) \<and> pick (s # ss) i best = (if_ssm ((s # ss) ! Suc k), of_nat (i + Suc k))
        \<and> pref (fst best) < pref (if_ssm ((s # ss) ! Suc k))"
      by (auto simp: first_max_def)
    then show ?thesis by blast
  qed
qed simp

lemma pick_is_best: "pick rx 0 (0, NO_IF) = (q, i) \<Longrightarrow> is_best rx q i"
  using pick_spec [of rx 0 "(0, NO_IF)"]
  by (auto simp: is_best_def first_max_def)

section \<open>What the steps of an update change\<close>

lemma esmc_set_pll_interface_fields:
  "\<exists>d. esmc_set_pll_interface pl a em = em\<lparr>pll_dev := d\<rparr>"
  by (auto simp: esmc_set_pll_interface_def intro: exI [of _ "pll_dev em"])

lemma esmc_set_pll_mode_fields:
  "\<exists>d. esmc_set_pll_mode pl m em = em\<lparr>pll_dev := d\<rparr>"
  by (auto simp: esmc_set_pll_mode_def intro: exI [of _ "pll_dev em"])

lemma update_interface_fields:
  "\<exists>d. update_interface env pl b j em = em\<lparr>selected_sw_if_index := b, programmed_sw_if_index := j,
      pll_locked := (if b = selected_sw_if_index em \<and> j = programmed_sw_if_index em then pll_locked em else 0),
      pll_dev := d\<rparr>"
proof (cases "b \<noteq> selected_sw_if_index em \<or> j \<noteq> programmed_sw_if_index em")
  case True
  let ?e = "em\<lparr>selected_sw_if_index := b, programmed_sw_if_index := j, pll_locked := 0\<rparr>"
  obtain a where "update_interface env pl b j em = esmc_set_pll_interface pl a ?e"
    using True by (cases "j = - 1") (simp_all add: update_interface_def Let_def)
  with esmc_set_pll_interface_fields [of pl a ?e] True show ?thesis by auto
next
  case False
  then show ?thesis by (auto simp: update_interface_def intro!: exI [of _ "pll_dev em"])
qed

lemma update_mode_fields:
  "\<exists>d. update_mode pl m em = em\<lparr>pll_mode := m,
      pll_locked := (if m = pll_mode em then pll_locked em else 0), pll_dev := d\<rparr>"
proof (cases "m = pll_mode em")
  case True
  then show ?thesis by (auto simp: update_mode_def intro!: exI [of _ "pll_dev em"])
next
  case False
  with esmc_set_pll_mode_fields [of pl m "em\<lparr>pll_mode := m, pll_locked := 0\<rparr>"] show ?thesis
    by (auto simp: update_mode_def)
qed

section \<open>What a broadcast sends\<close>

text \<open>
  What the plugin relies on of the interface table: distinct indices, and a lookup by index that
  finds the interface. The output interface is one of the table, or none.
\<close>

definition vpp_ok :: "vpp_env \<Rightarrow> bool" where
  "vpp_ok env \<longleftrightarrow> distinct (map hw_sw_if_index (hw_interfaces env))
     \<and> (\<forall>hw \<in> set (hw_interfaces env). sup_hw env (hw_sw_if_index hw) = hw \<and> length (hw_address hw) = 6)"

definition is_hw :: "vpp_env \<Rightarrow> u32 \<Rightarrow> bool" where
  "is_hw env sw \<longleftrightarrow> sw \<in> hw_sw_if_index ` set (hw_interfaces env)"

definition out_ok :: "vpp_env \<Rightarrow> 'p esmc_main \<Rightarrow> bool" where
  "out_ok env em \<longleftrightarrow> output_sw_if_index em = NO_IF \<or> is_hw env (output_sw_if_index em)"

lemma vpp_okD: "vpp_ok env \<Longrightarrow> is_hw env sw \<Longrightarrow> hw_sw_if_index (sup_hw env sw) = sw \<and> length (hw_address (sup_hw env sw)) = 6"
  by (auto simp: vpp_ok_def is_hw_def)

definition frame_ok :: "vpp_env \<Rightarrow> u32 \<Rightarrow> u8 \<Rightarrow> bool \<Rightarrow> u32 \<times> u8 list \<Rightarrow> bool" where
  "frame_ok env sel ssm event f \<longleftrightarrow>
     is_hw env (fst f) \<and> (fst f = sel \<longrightarrow> \<not> event)
     \<and> snd f = esmc_pdu (hw_address (sup_hw env (fst f))) (if fst f = sel then ESMC_SSM_QL_DNU else ssm) event"

text \<open>From one sender state to the next: the frames added, at most one on each interface of a set.\<close>

definition sends ::
  "vpp_env \<Rightarrow> u8 \<Rightarrow> bool \<Rightarrow> u32 set \<Rightarrow> nat \<times> 'p esmc_main \<Rightarrow> nat \<times> 'p esmc_main \<Rightarrow> bool" where
  "sends env ssm event sws s s' \<longleftrightarrow>
     (\<exists>fs. snd s' = (snd s)\<lparr>tx_frames := tx_frames (snd s) @ fs\<rparr>
        \<and> length fs \<le> fst s' - fst s \<and> fst s \<le> fst s'
        \<and> (\<forall>f \<in> set fs. frame_ok env (selected_sw_if_index (snd s)) ssm event f)
        \<and> distinct (map fst fs) \<and> fst ` set fs \<subseteq> sws)"

lemma sends_refl: "sends env ssm event sws s s"
  by (auto simp: sends_def intro!: exI [of _ "[]"])

lemma sends_skip: "sends env ssm event sws s (Suc (fst s), snd s)"
  by (auto simp: sends_def intro!: exI [of _ "[]"])

lemma sends_add:
  "frame_ok env (selected_sw_if_index (snd s)) ssm event (sw, f)
   \<Longrightarrow> sends env ssm event {sw} s (Suc (fst s), (snd s)\<lparr>tx_frames := tx_frames (snd s) @ [(sw, f)]\<rparr>)"
  by (auto simp: sends_def intro!: exI [of _ "[(sw, f)]"])

lemma sends_trans:
  assumes "sends env ssm event A s t" and "sends env ssm event B t u" and "A \<inter> B = {}"
  shows "sends env ssm event (A \<union> B) s u"
proof -
  obtain fs where fs: "snd t = (snd s)\<lparr>tx_frames := tx_frames (snd s) @ fs\<rparr>"
      "length fs \<le> fst t - fst s" "fst s \<le> fst t" "\<forall>f \<in> set fs. frame_ok env (selected_sw_if_index (snd s)) ssm event f"
      "distinct (map fst fs)" "fst ` set fs \<subseteq> A"
    using assms(1) unfolding sends_def by blast
  obtain gs where gs: "snd u = (snd t)\<lparr>tx_frames := tx_frames (snd t) @ gs\<rparr>"
      "length gs \<le> fst u - fst t" "fst t \<le> fst u" "\<forall>f \<in> set gs. frame_ok env (selected_sw_if_index (snd t)) ssm event f"
      "distinct (map fst gs)" "fst ` set gs \<subseteq> B"
    using assms(2) unfolding sends_def by blast
  have "fst ` set fs \<inter> fst ` set gs = {}"
    using fs(6) gs(6) assms(3) by blast
  then show ?thesis
    unfolding sends_def using fs gs by (intro exI [of _ "fs @ gs"]) auto
qed

lemma sends_mono: "sends env ssm event A s t \<Longrightarrow> A \<subseteq> B \<Longrightarrow> sends env ssm event B s t"
  unfolding sends_def by blast

lemma sends_keeps: "sends env ssm event A s t \<Longrightarrow> output_sw_if_index (snd t) = output_sw_if_index (snd s)"
  unfolding sends_def by auto

lemma tx_one_sends:
  assumes "vpp_ok env" and "is_hw env sw"
  shows "sends env ssm event {sw} s (tx_one env sw ssm event s)"
proof -
  have "hw_sw_if_index (sup_hw env sw) = sw" using vpp_okD [OF assms] by simp
  with assms(2) show ?thesis
    by (auto simp: tx_one_def tx_choice_def esmc_tx_def Let_def frame_ok_def
        intro!: sends_refl sends_skip sends_add)
qed

lemma tx_tg_loop_sends:
  assumes "vpp_ok env" and "set hws \<subseteq> set (hw_interfaces env)" and "distinct (map hw_sw_if_index hws)"
  shows "sends env ssm event (hw_sw_if_index ` set hws - {from, output_sw_if_index (snd s)}) s
           (tx_tg_loop env hws ssm event from s)"
  using assms(2,3)
proof (induction hws arbitrary: s)
  case Nil
  show ?case by (simp add: sends_refl)
next
  case (Cons hw hws)
  let ?sw = "hw_sw_if_index hw"
  let ?t = "if ?sw \<noteq> from \<and> ?sw \<noteq> output_sw_if_index (snd s) \<and> name_matches TG_INTERFACE_PREFIX (hw_name hw)
            then tx_one env ?sw ssm event s else s"
  have "is_hw env ?sw" using Cons.prems by (auto simp: is_hw_def)
  then have first: "sends env ssm event ({?sw} - {from, output_sw_if_index (snd s)}) s ?t"
    using tx_one_sends [OF assms(1), of ?sw ssm event s] by (auto simp: sends_refl)
  have rest: "sends env ssm event (hw_sw_if_index ` set hws - {from, output_sw_if_index (snd s)}) ?t
           (tx_tg_loop env hws ssm event from ?t)"
    using Cons.IH [of ?t] Cons.prems sends_keeps [OF first] by simp
  have "?sw \<notin> hw_sw_if_index ` set hws" using Cons.prems by auto
  then have "sends env ssm event (({?sw} - {from, output_sw_if_index (snd s)})
        \<union> (hw_sw_if_index ` set hws - {from, output_sw_if_index (snd s)})) s (tx_tg_loop env hws ssm event from ?t)"
    using sends_trans [OF first rest] by blast
  then show ?case
    unfolding tx_tg_loop.simps by (rule sends_mono) auto
qed

text \<open>A broadcast adds at most one frame per interface and counts as at most one PDU.\<close>

definition broadcasts :: "vpp_env \<Rightarrow> u8 \<Rightarrow> bool \<Rightarrow> 'p esmc_main \<Rightarrow> 'p esmc_main \<Rightarrow> bool" where
  "broadcasts env ssm event em em' \<longleftrightarrow>
     (\<exists>fs n c. em' = em\<lparr>tx_frames := tx_frames em @ fs, num_tx_pdu_1s := n, cnt_transmitted := c\<rparr>
        \<and> (\<forall>f \<in> set fs. frame_ok env (selected_sw_if_index em) ssm event f)
        \<and> distinct (map fst fs)
        \<and> (if fs = [] then n = num_tx_pdu_1s em \<or> num_tx_pdu_1s em < 10 \<and> n = num_tx_pdu_1s em + 1
           else num_tx_pdu_1s em < 10 \<and> n = num_tx_pdu_1s em + 1))"

lemma broadcasts_refl: "broadcasts env ssm event em em"
  by (auto simp: broadcasts_def intro!: exI [of _ "[]"] exI [of _ "num_tx_pdu_1s em"] exI [of _ "cnt_transmitted em"])

lemma esmc_tx_broadcast_broadcasts:
  assumes "vpp_ok env" and "out_ok env em"
  shows "broadcasts env ssm event em (esmc_tx_broadcast env ssm event from em)"
proof (cases "ESMC_MAX_PDUS_PER_INTERVAL \<le> num_tx_pdu_1s em")
  case True
  then show ?thesis by (simp add: esmc_tx_broadcast_def broadcasts_refl)
next
  case False
  let ?o = "output_sw_if_index em"
  let ?s1 = "if ?o \<noteq> NO_IF then tx_one env ?o ssm event (0, em) else (0, em)"
  let ?s2 = "if enable_tg_output em then tx_tg_loop env (hw_interfaces env) ssm event from ?s1 else ?s1"
  have 1: "sends env ssm event {?o} (0, em) ?s1"
    using tx_one_sends [OF assms(1)] assms(2) by (auto simp: out_ok_def intro: sends_refl)
  have o: "output_sw_if_index (snd ?s1) = ?o" using sends_keeps [OF 1] by simp
  have 2: "sends env ssm event (hw_sw_if_index ` set (hw_interfaces env) - {from, ?o}) ?s1 ?s2"
    using tx_tg_loop_sends [OF assms(1), of "hw_interfaces env" ssm event "from" ?s1] assms(1) unfolding o
    by (auto simp: vpp_ok_def intro: sends_refl)
  have "sends env ssm event UNIV (0, em) ?s2"
    by (rule sends_mono [OF sends_trans [OF 1 2]]) auto
  then obtain fs where fs: "snd ?s2 = em\<lparr>tx_frames := tx_frames em @ fs\<rparr>" "length fs \<le> fst ?s2"
      "\<forall>f \<in> set fs. frame_ok env (selected_sw_if_index em) ssm event f" "distinct (map fst fs)"
    by (auto simp: sends_def)
  have "esmc_tx_broadcast env ssm event from em =
      (if fst ?s2 \<noteq> 0 then (snd ?s2)\<lparr>num_tx_pdu_1s := num_tx_pdu_1s (snd ?s2) + 1,
         cnt_transmitted := cnt_transmitted (snd ?s2) + of_nat (fst ?s2)\<rparr> else snd ?s2)"
    using False by (simp only: esmc_tx_broadcast_def Let_def split_def if_False)
  then show ?thesis
  proof (cases "fst ?s2 = 0")
    case True
    then have "fs = []" using fs(2) by simp
    with fs(1) have "snd ?s2 = em" by simp
    with \<open>esmc_tx_broadcast env ssm event from em = _\<close> True show ?thesis
      by (simp only: if_False not_True_eq_False simp_thms broadcasts_refl)
  next
    case nz: False
    have "esmc_tx_broadcast env ssm event from em = em\<lparr>tx_frames := tx_frames em @ fs,
        num_tx_pdu_1s := num_tx_pdu_1s em + 1, cnt_transmitted := cnt_transmitted em + of_nat (fst ?s2)\<rparr>"
      using \<open>esmc_tx_broadcast env ssm event from em = _\<close> nz unfolding fs(1) by simp
    with fs(3,4) False show ?thesis
      unfolding broadcasts_def
      by (intro exI [of _ fs] exI [of _ "num_tx_pdu_1s em + 1"]
            exI [of _ "cnt_transmitted em + of_nat (fst ?s2)"]) auto
  qed
qed

section \<open>What an update does\<close>

lemma update_ssm_broadcasts:
  assumes "vpp_ok env" and "out_ok env em"
  shows "\<exists>ev. broadcasts env (if pll_locked em = 0 then ESMC_SSM_QL_DNU else q) ev
            (em\<lparr>em_ssm := (if pll_locked em = 0 then ESMC_SSM_QL_DNU else q)\<rparr>) (update_ssm env q from em)"
proof -
  let ?q = "if pll_locked em = 0 then ESMC_SSM_QL_DNU else q"
  have out: "out_ok env (em\<lparr>em_ssm := ?q\<rparr>)" using assms(2) by (simp add: out_ok_def)
  consider "?q \<noteq> em_ssm em" | "?q = em_ssm em" "from = NO_IF \<and> ?q \<noteq> ESMC_SSM_QL_UNUSED"
    | "?q = em_ssm em" "\<not> (from = NO_IF \<and> ?q \<noteq> ESMC_SSM_QL_UNUSED)" by blast
  then show ?thesis
  proof cases
    case 1
    then have "update_ssm env q from em = esmc_tx_broadcast env ?q True from (em\<lparr>em_ssm := ?q\<rparr>)"
      unfolding update_ssm_def Let_def by (simp only: if_True not_False_eq_True simp_thms)
    then show ?thesis using esmc_tx_broadcast_broadcasts [OF assms(1) out] by metis
  next
    case 2
    then have "update_ssm env q from em = esmc_tx_broadcast env ?q False NO_IF (em\<lparr>em_ssm := ?q\<rparr>)"
      unfolding update_ssm_def Let_def by (simp only: if_True if_False simp_thms) simp
    then show ?thesis using esmc_tx_broadcast_broadcasts [OF assms(1) out] by metis
  next
    case 3
    then have "update_ssm env q from em = em\<lparr>em_ssm := ?q\<rparr>"
      unfolding update_ssm_def Let_def by (simp only: if_True if_False simp_thms) simp
    then show ?thesis using broadcasts_refl by metis
  qed
qed

text \<open>The state an update reaches before it sends, over the choice of source.\<close>

definition updated ::
  "real \<Rightarrow> u8 \<Rightarrow> u32 \<Rightarrow> 'p \<Rightarrow> 'p esmc_main \<Rightarrow> 'p esmc_main" where
  "updated now q i d em =
     (let (m, j) = pll_choice q i em;
          l = (if i = selected_sw_if_index em \<and> j = programmed_sw_if_index em \<and> m = pll_mode em
               then pll_locked em else 0)
      in em\<lparr>if_rx_state := map (aged now) (if_rx_state em), selected_sw_if_index := i,
            programmed_sw_if_index := j, pll_mode := m, pll_locked := l,
            em_ssm := (if l = 0 then ESMC_SSM_QL_DNU else q), pll_dev := d\<rparr>)"

lemma esmc_update_spec:
  assumes "vpp_ok env" and "out_ok env em"
  shows "\<exists>q i d ev. is_best (map (aged now) (if_rx_state em)) q i
           \<and> broadcasts env (em_ssm (updated now q i d em)) ev (updated now q i d em) (esmc_update env pl now from em)"
proof -
  let ?rx = "map (aged now) (if_rx_state em)"
  obtain q i where b: "pick ?rx 0 (0, NO_IF) = (q, i)" by fastforce
  let ?e1 = "em\<lparr>if_rx_state := ?rx\<rparr>"
  obtain m j where mj: "pll_choice q i em = (m, j)" by fastforce
  have "pll_choice q i ?e1 = pll_choice q i em" by (simp add: pll_choice_def)
  with mj have mj1: "pll_choice q i ?e1 = (m, j)" by simp
  obtain d2 where e2: "update_interface env pl i j ?e1 = ?e1\<lparr>selected_sw_if_index := i, programmed_sw_if_index := j,
      pll_locked := (if i = selected_sw_if_index ?e1 \<and> j = programmed_sw_if_index ?e1 then pll_locked ?e1 else 0),
      pll_dev := d2\<rparr>"
    using update_interface_fields [of env pl i j ?e1] by (elim exE)
  define em2 where "em2 = update_interface env pl i j ?e1"
  obtain d where e3: "update_mode pl m em2 = em2\<lparr>pll_mode := m,
      pll_locked := (if m = pll_mode em2 then pll_locked em2 else 0), pll_dev := d\<rparr>"
    using update_mode_fields [of pl m em2] by (elim exE)
  define em3 where "em3 = update_mode pl m em2"
  have em3: "em3\<lparr>em_ssm := (if pll_locked em3 = 0 then ESMC_SSM_QL_DNU else q)\<rparr> = updated now q i d em"
    unfolding em3_def e3 unfolding em2_def e2 updated_def mj by (simp add: Let_def)
  have "out_ok env em3"
    using assms(2) unfolding em3_def e3 unfolding em2_def e2 by (simp add: out_ok_def)
  then obtain ev where "broadcasts env (if pll_locked em3 = 0 then ESMC_SSM_QL_DNU else q) ev
      (em3\<lparr>em_ssm := (if pll_locked em3 = 0 then ESMC_SSM_QL_DNU else q)\<rparr>) (update_ssm env q from em3)"
    using update_ssm_broadcasts [OF assms(1)] by blast
  moreover have "(if pll_locked em3 = 0 then ESMC_SSM_QL_DNU else q) = em_ssm (updated now q i d em)"
    unfolding em3 [symmetric] by simp
  moreover have "esmc_update env pl now from em = update_ssm env q from em3"
    by (simp add: esmc_update_def best_loop_pick b mj1 Let_def em2_def em3_def)
  ultimately show ?thesis
    using pick_is_best [OF b] em3 by (intro exI [of _ q] exI [of _ i] exI [of _ d] exI [of _ ev]) simp
qed

lemma updated_fields [simp]:
  "tx_frames (updated now q i d em) = tx_frames em"
  "num_tx_pdu_1s (updated now q i d em) = num_tx_pdu_1s em"
  "output_sw_if_index (updated now q i d em) = output_sw_if_index em"
  "input_sw_if_index (updated now q i d em) = input_sw_if_index em"
  "if_rx_state (updated now q i d em) = map (aged now) (if_rx_state em)"
  "selected_sw_if_index (updated now q i d em) = i"
  "(pll_mode (updated now q i d em), programmed_sw_if_index (updated now q i d em)) = pll_choice q i em"
  by (simp_all add: updated_def split_def Let_def)

lemma em_ssm_updated:
  "em_ssm (updated now q i d em) = (if pll_locked (updated now q i d em) = 0 then ESMC_SSM_QL_DNU else q)"
  by (simp add: updated_def split_def Let_def)

text \<open>
  C34. The selection: after an update the selected interface is the one whose announced quality,
  with silence of five seconds counting as Do-Not-Use, has the highest preference (the lowest
  index among equals; none when nothing valid is announced). The PLL mode and the programmed
  interface follow from it, and the quality the node announces is the selected source's when
  the PLL has kept its lock on that source and Do-Not-Use otherwise.
\<close>

theorem esmc_update_selects:
  assumes "vpp_ok env" and "out_ok env em" and em': "em' = esmc_update env pl now from em"
  shows "\<exists>q. if_rx_state em' = map (aged now) (if_rx_state em)
     \<and> is_best (if_rx_state em') q (selected_sw_if_index em')
     \<and> (pll_mode em', programmed_sw_if_index em') = pll_choice q (selected_sw_if_index em') em
     \<and> em_ssm em' = (if pll_locked em' = 0 then ESMC_SSM_QL_DNU else q)"
proof -
  obtain q i d ev where "is_best (map (aged now) (if_rx_state em)) q i"
      "broadcasts env (em_ssm (updated now q i d em)) ev (updated now q i d em) em'"
    using esmc_update_spec [OF assms(1,2)] unfolding em' by blast
  then show ?thesis
    using em_ssm_updated [of now q i d em] by (intro exI [of _ q]) (auto simp: broadcasts_def)
qed

text \<open>A node with a wired interface (1) and two radio interfaces (2, 3), over a trivial PLL.\<close>

definition sample_hw :: "u32 \<Rightarrow> hw_interface" where
  "sample_hw sw = \<lparr>hw_sw_if_index = sw,
     hw_name = (if sw = 1 then ''TenGigabitEthernet0'' else if sw = 2 then ''vpp-terra0'' else ''vpp-terra1''),
     hw_address = [4, 206, 20, 0, 0, ucast sw]\<rparr>"

definition sample_env :: vpp_env where
  "sample_env = \<lparr>hw_interfaces = [sample_hw 1, sample_hw 2, sample_hw 3], sup_hw = sample_hw, buf_ok = (\<lambda>_. True)\<rparr>"

definition sample_pll :: "u8 pll_ops" where
  "sample_pll = \<lparr>pll_open = (\<lambda>_. True), pll_set_mode = (\<lambda>m _. (0, m)), pll_set_device = (\<lambda>_ d. (0, d)),
     pll_get_locked = (\<lambda>d. (0, 1, d))\<rparr>"

definition sample_em :: "u8 esmc_main" where
  "sample_em = \<lparr>enabled = True, input_sw_if_index = 1, output_sw_if_index = 1, input_sw_if_name = None,
     output_sw_if_name = None, enable_tg_input = True, enable_tg_output = True,
     if_rx_state = [ESMC_IF_STATE_INVALID, ESMC_IF_STATE_INVALID, \<lparr>if_ssm = 4, last_esmc_ts = 10\<rparr>],
     selected_sw_if_index = NO_IF, programmed_sw_if_index = - 1, em_ssm = 0, pll_mode = - 1, pll_locked = 0,
     num_tx_pdu_1s = 0, pll_dev = 0, slow_proto_node = Some 7, tx_frames = [], rx_signals = [],
     cnt_processed = 0, cnt_dropped = 0, cnt_transmitted = 0\<rparr>"

lemma sample_ok: "vpp_ok sample_env" "out_ok sample_env sample_em"
  by (simp_all add: vpp_ok_def out_ok_def is_hw_def sample_env_def sample_hw_def sample_em_def)

theorem esmc_update_selects_witness:
  "vpp_ok sample_env \<and> out_ok sample_env sample_em
   \<and> (\<exists>q. is_best (if_rx_state (esmc_update sample_env sample_pll 11 2 sample_em)) q
          (selected_sw_if_index (esmc_update sample_env sample_pll 11 2 sample_em)))"
  using esmc_update_selects [OF sample_ok refl, of sample_pll 11 2] sample_ok by blast

text \<open>
  C5. No timing loop: a frame an update sends on the interface it takes its timing from says
  Do-Not-Use and is never an event frame; the frames on the other interfaces carry the announced
  quality. At most one frame leaves per interface.
\<close>

theorem esmc_no_timing_loop:
  assumes "vpp_ok env" and "out_ok env em" and em': "em' = esmc_update env pl now from em"
  shows "\<exists>fs. tx_frames em' = tx_frames em @ fs \<and> distinct (map fst fs)
     \<and> (\<forall>(sw, f) \<in> set fs. \<exists>ev.
          f = esmc_pdu (hw_address (sup_hw env sw))
                (if sw = selected_sw_if_index em' then ESMC_SSM_QL_DNU else em_ssm em') ev
          \<and> (sw = selected_sw_if_index em' \<longrightarrow> \<not> ev))"
proof -
  obtain q i d ev where "broadcasts env (em_ssm (updated now q i d em)) ev (updated now q i d em) em'"
    using esmc_update_spec [OF assms(1,2)] unfolding em' by blast
  then show ?thesis by (fastforce simp: broadcasts_def frame_ok_def)
qed

theorem esmc_no_timing_loop_witness:
  "vpp_ok sample_env \<and> out_ok sample_env sample_em
   \<and> (\<exists>fs. tx_frames (esmc_update sample_env sample_pll 11 2 sample_em) = tx_frames sample_em @ fs)"
  using esmc_no_timing_loop [OF sample_ok refl, of sample_pll 11 2] sample_ok by blast

text \<open>
  C38. Holdover: while the PLL has not reported a lock, and in the update that changes the source
  or the PLL mode, the node announces Do-Not-Use, and every frame it sends says so.
\<close>

theorem esmc_holdover:
  assumes "vpp_ok env" and "out_ok env em" and em': "em' = esmc_update env pl now from em"
    and "pll_locked em = 0 \<or> selected_sw_if_index em' \<noteq> selected_sw_if_index em
       \<or> programmed_sw_if_index em' \<noteq> programmed_sw_if_index em \<or> pll_mode em' \<noteq> pll_mode em"
  shows "pll_locked em' = 0 \<and> em_ssm em' = ESMC_SSM_QL_DNU
     \<and> (\<forall>(sw, f) \<in> set (drop (length (tx_frames em)) (tx_frames em')).
          \<exists>ev. f = esmc_pdu (hw_address (sup_hw env sw)) ESMC_SSM_QL_DNU ev)"
proof -
  obtain q i d ev where b: "broadcasts env (em_ssm (updated now q i d em)) ev (updated now q i d em) em'"
    using esmc_update_spec [OF assms(1,2)] unfolding em' by blast
  then have "selected_sw_if_index em' = i" "pll_mode em' = fst (pll_choice q i em)"
      "programmed_sw_if_index em' = snd (pll_choice q i em)"
      "pll_locked em' = pll_locked (updated now q i d em)"
    by (auto simp: broadcasts_def updated_def Let_def split_def)
  with assms(4) have l: "pll_locked (updated now q i d em) = 0" "pll_locked em' = 0"
    by (auto simp: updated_def Let_def split_def)
  then have "em_ssm (updated now q i d em) = ESMC_SSM_QL_DNU" by (simp add: em_ssm_updated)
  with b l(2) show ?thesis by (fastforce simp: broadcasts_def frame_ok_def)
qed

theorem esmc_holdover_witness:
  "pll_locked sample_em = 0
   \<and> em_ssm (esmc_update sample_env sample_pll 11 2 sample_em) = ESMC_SSM_QL_DNU"
  using esmc_holdover [OF sample_ok refl, of sample_pll 11 2] by (simp add: sample_em_def)

section \<open>The PDU round trip\<close>

lemma esmc_parse_pdu:
  assumes "length src = 6"
  shows "esmc_parse (\<lambda>i. esmc_pdu src ssm ev ! (14 + i)) = Some (ssm AND 0xf, ev)"
proof -
  have nth: "esmc_pdu src ssm ev ! (14 + i) =
      ([0x0a, 0x00, 0x19, 0xa7, 0x00, 0x01, push_bit 4 1 OR push_bit 3 (if ev then 1 else 0), 0, 0, 0,
        0x01, 0x00, 0x04, ssm AND 0xf] @ replicate 36 0) ! i" for i
    using assms by (simp add: esmc_pdu_def nth_append)
  have "ssm AND 0xf = take_bit 4 ssm" by (simp add: take_bit_eq_mask mask_eq_exp_minus_1)
  then have "drop_bit 4 (ssm AND 0xf) = 0" by (simp add: drop_bit_take_bit)
  moreover have "(ssm AND 0xf) AND 0xf = ssm AND 0xf" by (simp add: and.assoc)
  ultimately show ?thesis
    unfolding nth
    by (auto simp: esmc_parse_def itu_oui_def le16_def clib_net_to_host_u32_def clib_net_to_host_u16_def nth_append)
qed

text \<open>The quality recorded for an interface; an interface never heard of counts as unused.\<close>

definition rx_ssm :: "'p esmc_main \<Rightarrow> u32 \<Rightarrow> u8" where
  "rx_ssm em sw = (if unat sw < length (if_rx_state em) then if_ssm (if_rx_state em ! unat sw) else ESMC_SSM_QL_UNUSED)"

lemma vec_validate_length: "i < length (vec_validate i v)"
  by (simp add: vec_validate_def)

lemma vec_validate_nth:
  "vec_validate i v ! j = (if j < length v then v ! j else ESMC_IF_STATE_INVALID)" if "j \<le> max i (length v - 1)"
  using that by (auto simp: vec_validate_def nth_append)

lemma refresh_eq: "t\<lparr>last_esmc_ts := now\<rparr> = \<lparr>if_ssm = if_ssm t, last_esmc_ts = now\<rparr>" for t :: esmc_if_state
  by (cases t) simp

lemma esmc_rx_accepted:
  assumes "sw = input_sw_if_index em \<or> enable_tg_input em \<and> name_matches TG_INTERFACE_PREFIX (hw_name (sup_hw env sw))"
  shows "snd (esmc_rx env now sw ssm ev em) =
     em\<lparr>if_rx_state := (vec_validate (unat sw) (if_rx_state em))[unat sw := \<lparr>if_ssm = ssm, last_esmc_ts = now\<rparr>],
        rx_signals := rx_signals em @ (if rx_ssm em sw = ssm then [] else [sw])\<rparr>"
proof -
  have "if_ssm (vec_validate (unat sw) (if_rx_state em) ! unat sw) = rx_ssm em sw"
    by (simp add: vec_validate_nth rx_ssm_def ESMC_IF_STATE_INVALID_def)
  with assms show ?thesis by (auto simp: esmc_rx_def Let_def refresh_eq)
qed

text \<open>
  What a node transmits, its neighbour receives: a PDU whose payload arrives on an accepted
  interface is counted as processed, the quality it was built with (four bits) and the arrival
  time become the state of that interface, and the process node is signalled exactly when the
  quality differs from the one recorded before.
\<close>

theorem esmc_pdu_roundtrip:
  assumes "length src = 6" and "buf_bytes b = (\<lambda>i. esmc_pdu src ssm ev ! (14 + i))"
    and "sw = rx_sw_if_index b"
    and "sw = input_sw_if_index em \<or> enable_tg_input em \<and> name_matches TG_INTERFACE_PREFIX (hw_name (sup_hw env sw))"
    and "em' = snd (esmc_input env [b] em)"
  shows "cnt_processed em' = cnt_processed em + 1 \<and> cnt_dropped em' = cnt_dropped em
     \<and> unat sw < length (if_rx_state em')
     \<and> if_rx_state em' ! unat sw = \<lparr>if_ssm = ssm AND 0xf, last_esmc_ts = rx_now b\<rparr>
     \<and> (\<forall>j. j \<noteq> sw \<longrightarrow> rx_ssm em' j = rx_ssm em j)
     \<and> rx_signals em' = rx_signals em @ (if rx_ssm em sw = ssm AND 0xf then [] else [sw])"
proof -
  let ?v = "(vec_validate (unat sw) (if_rx_state em))[unat sw := \<lparr>if_ssm = ssm AND 0xf, last_esmc_ts = rx_now b\<rparr>]"
  let ?e = "em\<lparr>if_rx_state := ?v, rx_signals := rx_signals em @ (if rx_ssm em sw = ssm AND 0xf then [] else [sw])\<rparr>"
  have em': "em' = ?e\<lparr>cnt_processed := cnt_processed em + 1\<rparr>"
    using assms(2,3,5) esmc_rx_accepted [OF assms(4), of "rx_now b" "ssm AND 0xf" ev]
    by (simp add: esmc_input_def esmc_parse_pdu [OF assms(1)])
  have "rx_ssm em' j = rx_ssm em j" if "j \<noteq> sw" for j
  proof -
    have "unat sw \<noteq> unat j" using that by (simp add: word_unat_eq_iff)
    then show ?thesis
      by (auto simp: em' rx_ssm_def vec_validate_def nth_append ESMC_IF_STATE_INVALID_def)
  qed
  then show ?thesis by (simp add: em' vec_validate_length)
qed

definition sample_buffer :: esmc_buffer where
  "sample_buffer = \<lparr>rx_sw_if_index = 3, buf_bytes = (\<lambda>i. esmc_pdu [4, 206, 20, 0, 0, 9] 2 True ! (14 + i)), rx_now = 12\<rparr>"

theorem esmc_pdu_roundtrip_witness:
  "if_rx_state (snd (esmc_input sample_env [sample_buffer] sample_em)) ! 3 = \<lparr>if_ssm = 2, last_esmc_ts = 12\<rparr>"
proof -
  have b: "buf_bytes sample_buffer = (\<lambda>i. esmc_pdu [4, 206, 20, 0, 0, 9] 2 True ! (14 + i))"
      "3 = rx_sw_if_index sample_buffer" "rx_now sample_buffer = 12"
    by (simp_all add: sample_buffer_def)
  have ok: "3 = input_sw_if_index sample_em
      \<or> enable_tg_input sample_em \<and> name_matches TG_INTERFACE_PREFIX (hw_name (sup_hw sample_env 3))"
    by (simp add: sample_em_def sample_env_def sample_hw_def name_matches_def TG_INTERFACE_PREFIX_def)
  show ?thesis
    using esmc_pdu_roundtrip [OF _ b(1,2) ok refl] b(3) by simp
qed

section \<open>The rate limit\<close>

definition sent_on :: "u32 \<Rightarrow> 'p esmc_main \<Rightarrow> nat" where
  "sent_on sw em = length (filter (\<lambda>f. fst f = sw) (tx_frames em))"

text \<open>Between two states: what was sent on an interface is paid for by the PDU counter.\<close>

definition paid :: "'p esmc_main \<Rightarrow> 'p esmc_main \<Rightarrow> bool" where
  "paid em em' \<longleftrightarrow>
     (\<forall>sw. sent_on sw em' + unat (num_tx_pdu_1s em) \<le> sent_on sw em + unat (num_tx_pdu_1s em'))
     \<and> (num_tx_pdu_1s em' \<le> 10 \<or> num_tx_pdu_1s em' = num_tx_pdu_1s em)"

lemma paid_refl: "paid em em"
  by (simp add: paid_def)

lemma paid_trans: "paid a b \<Longrightarrow> paid b c \<Longrightarrow> paid a c"
proof -
  assume ab: "paid a b" and bc: "paid b c"
  have "sent_on sw c + unat (num_tx_pdu_1s a) \<le> sent_on sw a + unat (num_tx_pdu_1s c)" for sw
    using ab [unfolded paid_def, THEN conjunct1, THEN spec, of sw]
      bc [unfolded paid_def, THEN conjunct1, THEN spec, of sw] by linarith
  moreover have "num_tx_pdu_1s c \<le> 10 \<or> num_tx_pdu_1s c = num_tx_pdu_1s a"
    using ab bc by (auto simp: paid_def)
  ultimately show ?thesis by (simp add: paid_def)
qed

lemma filter_distinct_le: "distinct (map fst fs) \<Longrightarrow> length (filter (\<lambda>f. fst f = sw) fs) \<le> 1"
  by (induction fs) (auto simp: filter_empty_conv image_iff le_Suc_eq)

lemma broadcasts_paid:
  assumes "broadcasts env ssm ev em em'"
  shows "paid em em'"
proof -
  obtain fs n c where em': "em' = em\<lparr>tx_frames := tx_frames em @ fs, num_tx_pdu_1s := n, cnt_transmitted := c\<rparr>"
    and d: "distinct (map fst fs)"
    and n: "if fs = [] then n = num_tx_pdu_1s em \<or> num_tx_pdu_1s em < 10 \<and> n = num_tx_pdu_1s em + 1
           else num_tx_pdu_1s em < 10 \<and> n = num_tx_pdu_1s em + 1"
    using assms unfolding broadcasts_def by blast
  have succ: "unat (x + 1) = Suc (unat x) \<and> x + 1 \<le> 10" if "x < 10" for x :: u8
    using that by (simp add: unat_arith_simps unat_word_ariths)
  have "length (filter (\<lambda>f. fst f = sw) fs) \<le> (if fs = [] then 0 else 1)" for sw
    using filter_distinct_le [OF d] by simp
  then have "sent_on sw em' \<le> sent_on sw em + (if fs = [] then 0 else 1)" for sw
    by (simp add: em' sent_on_def)
  moreover have "unat (num_tx_pdu_1s em) + (if fs = [] then 0 else 1) \<le> unat n \<and> (n \<le> 10 \<or> n = num_tx_pdu_1s em)"
    using n succ [of "num_tx_pdu_1s em"] by (auto split: if_splits)
  ultimately have "sent_on sw em' + unat (num_tx_pdu_1s em) \<le> sent_on sw em + unat n" for sw
    using add_mono [of "sent_on sw em'" _ "unat (num_tx_pdu_1s em)"] by (smt (verit) add.assoc add.commute add_le_cancel_left order_trans)
  with \<open>_ \<le> unat n \<and> (n \<le> 10 \<or> n = num_tx_pdu_1s em)\<close> show ?thesis by (simp add: paid_def em')
qed

lemma esmc_update_paid:
  assumes "vpp_ok env" and "out_ok env em"
  shows "paid em (esmc_update env pl now from em) \<and> out_ok env (esmc_update env pl now from em)"
proof -
  obtain q i d ev where b: "broadcasts env (em_ssm (updated now q i d em)) ev (updated now q i d em)
      (esmc_update env pl now from em)"
    using esmc_update_spec [OF assms] by blast
  have "paid em (updated now q i d em)" by (simp add: paid_def sent_on_def)
  then have "paid em (esmc_update env pl now from em)" using broadcasts_paid [OF b] by (rule paid_trans)
  moreover have "out_ok env (esmc_update env pl now from em)"
    using b assms(2) by (auto simp: broadcasts_def out_ok_def)
  ultimately show ?thesis ..
qed

lemma rx_updates_paid:
  assumes "vpp_ok env" and "out_ok env em"
  shows "paid em (rx_updates env pl ds em) \<and> out_ok env (rx_updates env pl ds em)"
  using assms(2)
proof (induction ds arbitrary: em)
  case (Cons d ds)
  let ?e = "esmc_update env pl (fst d) (ucast (snd d)) em"
  have "paid em ?e \<and> out_ok env ?e" using esmc_update_paid [OF assms(1) Cons.prems] .
  with Cons.IH [of ?e] show ?case by (auto intro: paid_trans)
qed (simp add: paid_refl)

text \<open>Receiving touches neither the frames sent nor the counter.\<close>

lemma esmc_rx_keeps:
  "tx_frames (snd (esmc_rx env now sw ssm ev em)) = tx_frames em"
  "num_tx_pdu_1s (snd (esmc_rx env now sw ssm ev em)) = num_tx_pdu_1s em"
  "output_sw_if_index (snd (esmc_rx env now sw ssm ev em)) = output_sw_if_index em"
  "em_ssm (snd (esmc_rx env now sw ssm ev em)) = em_ssm em"
  by (simp_all add: esmc_rx_def Let_def)

lemma input_loop_keeps:
  "tx_frames (snd (snd (input_loop env bs s))) = tx_frames (snd (snd s))
   \<and> num_tx_pdu_1s (snd (snd (input_loop env bs s))) = num_tx_pdu_1s (snd (snd s))
   \<and> output_sw_if_index (snd (snd (input_loop env bs s))) = output_sw_if_index (snd (snd s))
   \<and> em_ssm (snd (snd (input_loop env bs s))) = em_ssm (snd (snd s))"
  by (induction bs arbitrary: s) (auto simp: esmc_rx_keeps split: prod.splits option.splits)

lemma esmc_input_keeps:
  "tx_frames (snd (esmc_input env bs em)) = tx_frames em"
  "num_tx_pdu_1s (snd (esmc_input env bs em)) = num_tx_pdu_1s em"
  "output_sw_if_index (snd (esmc_input env bs em)) = output_sw_if_index em"
  "em_ssm (snd (esmc_input env bs em)) = em_ssm em"
  using input_loop_keeps [of env bs "(0, 0, em)"]
  by (auto simp: esmc_input_def split: prod.splits)

lemma resolve_name_hw:
  "resolve_name hws n idx = (j, m) \<Longrightarrow> j = idx \<or> j \<in> hw_sw_if_index ` set hws"
  by (induction hws n idx rule: resolve_name.induct) (auto split: if_splits)

lemma esmc_post_init_keeps:
  assumes "esmc_post_init env idx em = Some em'"
  shows "tx_frames em' = tx_frames em \<and> num_tx_pdu_1s em' = num_tx_pdu_1s em \<and> em_ssm em' = em_ssm em
    \<and> if_rx_state em' = if_rx_state em \<and> (out_ok env em \<longrightarrow> out_ok env em')"
  using assms
  by (auto simp: esmc_post_init_def Let_def out_ok_def is_hw_def split: if_splits option.splits prod.splits
      dest!: resolve_name_hw)

text \<open>An action that neither opens a new interval nor resets the plugin.\<close>

fun quiet :: "esmc_action \<Rightarrow> bool" where
  "quiet (AProcess (Heartbeat _)) = False"
| "quiet (AEnable _ _ _ _ _) = False"
| "quiet _ = True"

lemma quiet_paid:
  assumes "vpp_ok env" and "out_ok env (snd s)" and "quiet a" and "esmc_act env pl idx a s = Some s'"
  shows "paid (snd s) (snd s') \<and> out_ok env (snd s')"
proof (cases a)
  case (AInput bs)
  with assms show ?thesis
    by (auto simp: esmc_act_def paid_def sent_on_def out_ok_def esmc_input_keeps)
next
  case (AProcess ev)
  with assms rx_updates_paid [OF assms(1,2)] show ?thesis
    by (cases ev) (auto simp: esmc_act_def esmc_process_fn_def paid_refl)
qed (use assms in simp)

lemma quiet_run_paid:
  assumes "vpp_ok env" and "out_ok env (snd s)" and "list_all quiet as" and "esmc_run env pl idx as s = Some s'"
  shows "paid (snd s) (snd s')"
  using assms(2-)
proof (induction as arbitrary: s)
  case (Cons a as)
  then obtain t where t: "esmc_act env pl idx a s = Some t" "esmc_run env pl idx as t = Some s'"
    by (auto simp: bind_eq_Some_conv)
  have "paid (snd s) (snd t) \<and> out_ok env (snd t)"
    using quiet_paid [OF assms(1) Cons.prems(1) _ t(1)] Cons.prems(2) by simp
  with Cons.IH [OF _ _ t(2)] Cons.prems(2) show ?case by (auto intro: paid_trans)
qed (simp add: paid_refl)

lemma paid_bound: "paid em em' \<Longrightarrow> sent_on sw em' \<le> sent_on sw em + 10"
proof -
  assume p: "paid em em'"
  have le: "sent_on sw em' + unat (num_tx_pdu_1s em) \<le> sent_on sw em + unat (num_tx_pdu_1s em')"
    using p [unfolded paid_def, THEN conjunct1, THEN spec, of sw] .
  show ?thesis
  proof (cases "num_tx_pdu_1s em' = num_tx_pdu_1s em")
    case False
    then have "num_tx_pdu_1s em' \<le> 10" using p by (auto simp: paid_def)
    then have "unat (num_tx_pdu_1s em') \<le> 10" by (simp add: word_le_nat_alt)
    with le show ?thesis by linarith
  qed (use le in simp)
qed

lemma esmc_get_pll_locked_fields: "\<exists>d. snd (esmc_get_pll_locked pl em) = em\<lparr>pll_dev := d\<rparr>"
  by (auto simp: esmc_get_pll_locked_def split: prod.splits intro: exI [of _ "pll_dev em"])

text \<open>The state in which a heartbeat calls \<open>esmc_update\<close>.\<close>

definition beat :: "'p pll_ops \<Rightarrow> 'p esmc_main \<Rightarrow> 'p esmc_main" where
  "beat pl em = (let (l, em0) = esmc_get_pll_locked pl (em\<lparr>num_tx_pdu_1s := 0\<rparr>) in em0\<lparr>pll_locked := l\<rparr>)"

lemma beat_fields [simp]:
  "tx_frames (beat pl em) = tx_frames em" "num_tx_pdu_1s (beat pl em) = 0"
  "output_sw_if_index (beat pl em) = output_sw_if_index em"
  "if_rx_state (beat pl em) = if_rx_state em" "em_ssm (beat pl em) = em_ssm em"
  using esmc_get_pll_locked_fields [of pl "em\<lparr>num_tx_pdu_1s := 0\<rparr>"]
  by (auto simp: beat_def split: prod.splits)

lemma heartbeat_cases:
  assumes "esmc_act env pl idx (AProcess (Heartbeat now)) s = Some s'"
  obtains em1 where "em1 = (if enabled (snd s) then esmc_update env pl now NO_IF (beat pl (snd s)) else snd s)"
    and "esmc_post_init env idx em1 = Some (snd s')"
  using assms
  by (auto simp: esmc_act_def esmc_process_fn_def beat_def Let_def split: option.splits prod.splits if_splits)

lemma heartbeat_paid:
  assumes "vpp_ok env" and "out_ok env (snd s)" and "esmc_act env pl idx (AProcess (Heartbeat now)) s = Some s'"
  shows "\<exists>em0. tx_frames em0 = tx_frames (snd s) \<and> paid em0 (snd s') \<and> out_ok env (snd s')"
proof -
  obtain em1 where em1: "em1 = (if enabled (snd s) then esmc_update env pl now NO_IF (beat pl (snd s)) else snd s)"
    and p: "esmc_post_init env idx em1 = Some (snd s')"
    using assms(3) by (rule heartbeat_cases)
  let ?em0 = "if enabled (snd s) then beat pl (snd s) else snd s"
  have "out_ok env (beat pl (snd s))" using assms(2) by (simp add: out_ok_def)
  then have "paid ?em0 em1 \<and> out_ok env em1"
    using esmc_update_paid [OF assms(1), of "beat pl (snd s)" pl now NO_IF] assms(2)
    by (simp add: em1 paid_refl)
  moreover have "paid em1 (snd s') \<and> (out_ok env em1 \<longrightarrow> out_ok env (snd s'))"
    using esmc_post_init_keeps [OF p] by (simp add: paid_def sent_on_def)
  ultimately show ?thesis by (intro exI [of _ ?em0]) (auto intro: paid_trans)
qed

text \<open>
  The rate limit of G.8264: in an interval, from a heartbeat up to the next one, and whatever
  frames and receive events arrive in it, the plugin sends at most ten frames on an interface.
\<close>

theorem esmc_rate_limit:
  assumes "vpp_ok env" and "out_ok env (snd s)" and "list_all quiet as"
    and "esmc_run env pl idx (AProcess (Heartbeat now) # as) s = Some s'"
  shows "sent_on sw (snd s') \<le> sent_on sw (snd s) + 10"
proof -
  obtain t where t: "esmc_act env pl idx (AProcess (Heartbeat now)) s = Some t" "esmc_run env pl idx as t = Some s'"
    using assms(4) by (auto simp: bind_eq_Some_conv)
  obtain em0 where em0: "tx_frames em0 = tx_frames (snd s)" "paid em0 (snd t)" "out_ok env (snd t)"
    using heartbeat_paid [OF assms(1,2) t(1)] by blast
  have "paid em0 (snd s')"
    using em0(2) quiet_run_paid [OF assms(1) em0(3) assms(3) t(2)] by (rule paid_trans)
  then have "sent_on sw (snd s') \<le> sent_on sw em0 + 10" by (rule paid_bound)
  then show ?thesis using em0(1) by (simp add: sent_on_def)
qed

definition idle_em :: "u8 esmc_main" where
  "idle_em = sample_em\<lparr>enabled := False\<rparr>"

theorem esmc_rate_limit_witness:
  "esmc_run sample_env sample_pll 7 [AProcess (Heartbeat 11), AInput [], AProcess OtherEvent] (1, idle_em) = Some (1, idle_em)
   \<and> sent_on 2 idle_em \<le> sent_on 2 idle_em + 10"
proof -
  have run: "esmc_run sample_env sample_pll 7 [AProcess (Heartbeat 11), AInput [], AProcess OtherEvent] (1, idle_em)
      = Some (1, idle_em)"
    by (simp add: esmc_act_def esmc_process_fn_def idle_em_def esmc_post_init_def esmc_input_def)
  have "out_ok sample_env (snd (1 :: real, idle_em))"
    using sample_ok(2) by (simp add: out_ok_def idle_em_def)
  from esmc_rate_limit [OF sample_ok(1) this _ run] run show ?thesis by simp
qed

section \<open>The invariant\<close>

text \<open>
  Qualities are four-bit codes, so the preference table is never indexed out of range; the
  receive vector is indexed by 32-bit interface numbers; every frame sent is a PDU of an
  interface of the table.
\<close>

definition frame_wf :: "vpp_env \<Rightarrow> u32 \<times> u8 list \<Rightarrow> bool" where
  "frame_wf env f \<longleftrightarrow> is_hw env (fst f) \<and> (\<exists>q ev. snd f = esmc_pdu (hw_address (sup_hw env (fst f))) q ev)"

definition esmc_inv :: "vpp_env \<Rightarrow> 'p esmc_main \<Rightarrow> bool" where
  "esmc_inv env em \<longleftrightarrow> (\<forall>s \<in> set (if_rx_state em). if_ssm s < 16) \<and> length (if_rx_state em) \<le> 2 ^ 32
     \<and> em_ssm em < 16 \<and> num_tx_pdu_1s em \<le> 10 \<and> out_ok env em \<and> (\<forall>f \<in> set (tx_frames em). frame_wf env f)"

lemma frame_ok_wf: "frame_ok env sel ssm ev f \<Longrightarrow> frame_wf env f"
  unfolding frame_ok_def frame_wf_def by blast

lemma is_best_bound: "is_best rx q i \<Longrightarrow> \<forall>s \<in> set rx. if_ssm s < 16 \<Longrightarrow> q < 16"
  by (auto simp: is_best_def first_max_def split: if_splits)

lemma esmc_update_inv [step_inv]:
  assumes "vpp_ok env" and inv: "esmc_inv env em"
  shows "esmc_inv env (esmc_update env pl now from em)"
proof -
  have out: "out_ok env em" using inv by (simp add: esmc_inv_def)
  obtain q i d ev where q: "is_best (map (aged now) (if_rx_state em)) q i"
    and b: "broadcasts env (em_ssm (updated now q i d em)) ev (updated now q i d em) (esmc_update env pl now from em)"
    using esmc_update_spec [OF assms(1) out] by blast
  have rx: "\<forall>s \<in> set (map (aged now) (if_rx_state em)). if_ssm s < 16"
    using inv by (auto simp: esmc_inv_def aged_def)
  have ssm: "em_ssm (updated now q i d em) < 16"
    using is_best_bound [OF q rx] by (simp add: em_ssm_updated)
  have "num_tx_pdu_1s (esmc_update env pl now from em) \<le> 10"
    using inv broadcasts_paid [OF b] by (auto simp: paid_def esmc_inv_def)
  moreover obtain fs n c where "esmc_update env pl now from em =
      (updated now q i d em)\<lparr>tx_frames := tx_frames em @ fs, num_tx_pdu_1s := n, cnt_transmitted := c\<rparr>"
    "\<forall>f \<in> set fs. frame_wf env f"
    using b frame_ok_wf unfolding broadcasts_def updated_fields(1) by blast
  ultimately show ?thesis
    using inv rx ssm by (auto simp: esmc_inv_def out_ok_def)
qed

lemma rx_updates_inv [step_inv]:
  "vpp_ok env \<Longrightarrow> esmc_inv env em \<Longrightarrow> esmc_inv env (rx_updates env pl ds em)"
  by (induction ds arbitrary: em) (auto intro: step_inv)

lemma esmc_rx_inv [step_inv]:
  assumes "esmc_inv env em" and "ssm < 16"
  shows "esmc_inv env (snd (esmc_rx env now sw ssm ev em))"
proof (cases "sw = input_sw_if_index em \<or> enable_tg_input em \<and> name_matches TG_INTERFACE_PREFIX (hw_name (sup_hw env sw))")
  case True
  have "length (vec_validate (unat sw) (if_rx_state em)) \<le> 2 ^ 32"
    using assms(1) unat_u32_less [of sw] by (auto simp: esmc_inv_def vec_validate_def)
  moreover have "\<forall>s \<in> set (vec_validate (unat sw) (if_rx_state em)). if_ssm s < 16"
    using assms(1) by (auto simp: esmc_inv_def vec_validate_def ESMC_IF_STATE_INVALID_def)
  ultimately show ?thesis
    using assms unfolding esmc_rx_accepted [OF True]
    by (auto simp: esmc_inv_def out_ok_def dest!: set_update_subset_insert [THEN subsetD])
next
  case False
  then show ?thesis using assms(1) by (simp add: esmc_rx_def)
qed

lemma esmc_parse_bound: "esmc_parse b = Some (ssm, ev) \<Longrightarrow> ssm < 16"
proof -
  have "x AND 15 < (16 :: u8)" for x
    by (rule le_less_trans [OF word_and_le1]) simp
  then show "esmc_parse b = Some (ssm, ev) \<Longrightarrow> ssm < 16"
    unfolding esmc_parse_def by (auto split: if_splits)
qed

lemma input_loop_inv [step_inv]:
  "esmc_inv env (snd (snd s)) \<Longrightarrow> esmc_inv env (snd (snd (input_loop env bs s)))"
  by (induction bs arbitrary: s) (auto simp: esmc_rx_inv esmc_parse_bound split: prod.splits option.splits)

lemma esmc_input_inv [step_inv]:
  assumes "esmc_inv env em"
  shows "esmc_inv env (snd (esmc_input env bs em))"
proof -
  obtain p d e where l: "input_loop env bs (0, 0, em) = (p, d, e)" by (cases "input_loop env bs (0, 0, em)")
  then have "esmc_inv env e" using input_loop_inv [of env "(0, 0, em)" bs] assms by simp
  then show ?thesis by (simp add: esmc_input_def l esmc_inv_def out_ok_def)
qed

text \<open>The output interface of an enable call is one of the table, or none.\<close>

fun act_ok :: "vpp_env \<Rightarrow> esmc_action \<Rightarrow> bool" where
  "act_ok env (AEnable _ _ o' _ _) \<longleftrightarrow> o' = NO_IF \<or> is_hw env o'"
| "act_ok env _ \<longleftrightarrow> True"

lemma esmc_act_inv [step_inv]:
  assumes "vpp_ok env" and "esmc_inv env (snd s)" and "act_ok env a" and "esmc_act env pl idx a s = Some s'"
  shows "esmc_inv env (snd s')"
proof (cases a)
  case (AInput bs)
  with assms show ?thesis by (auto simp: esmc_act_def intro: step_inv)
next
  case (AEnable e i o' ti to)
  with assms(4) have "snd s' = snd (esmc_enable_disable e i o' ti to (snd s))" by (auto simp: esmc_act_def)
  with AEnable assms(2,3) show ?thesis by (simp add: esmc_enable_disable_def esmc_inv_def out_ok_def)
next
  case (AProcess ev)
  show ?thesis
  proof (cases ev)
    case (Heartbeat now)
    obtain em1 where em1: "em1 = (if enabled (snd s) then esmc_update env pl now NO_IF (beat pl (snd s)) else snd s)"
      and p: "esmc_post_init env idx em1 = Some (snd s')"
      using assms(4) unfolding AProcess Heartbeat by (rule heartbeat_cases)
    have "esmc_inv env (beat pl (snd s))"
      using assms(2) by (simp add: esmc_inv_def out_ok_def)
    then have "esmc_inv env em1" using assms(1,2) by (simp add: em1 esmc_update_inv)
    then show ?thesis using esmc_post_init_keeps [OF p] by (simp add: esmc_inv_def)
  qed (use AProcess assms rx_updates_inv [OF assms(1,2)] in \<open>auto simp: esmc_act_def esmc_process_fn_def\<close>)
qed

lemma esmc_run_inv:
  "vpp_ok env \<Longrightarrow> esmc_inv env (snd s) \<Longrightarrow> list_all (act_ok env) as \<Longrightarrow> esmc_run env pl idx as s = Some s'
   \<Longrightarrow> esmc_inv env (snd s')"
  by (induction as arbitrary: s) (auto simp: bind_eq_Some_conv intro: esmc_act_inv)

lemma config_loop_keeps:
  "if_rx_state (snd (config_loop ts em)) = if_rx_state em \<and> em_ssm (snd (config_loop ts em)) = em_ssm em
   \<and> num_tx_pdu_1s (snd (config_loop ts em)) = num_tx_pdu_1s em
   \<and> output_sw_if_index (snd (config_loop ts em)) = output_sw_if_index em
   \<and> tx_frames (snd (config_loop ts em)) = tx_frames em"
  by (induction ts em rule: config_loop.induct) simp_all

lemma esmc_config_inv: "tx_frames em = [] \<Longrightarrow> esmc_inv env (snd (esmc_config ts em))"
  by (simp add: esmc_config_def esmc_inv_def config_loop_keeps out_ok_def)

lemma frame_wf_pdu:
  assumes "vpp_ok env" and "frame_wf env f"
  shows "length (snd f) = 64 \<and> esmc_parse (\<lambda>i. snd f ! (14 + i)) \<noteq> None"
proof -
  obtain q ev where "snd f = esmc_pdu (hw_address (sup_hw env (fst f))) q ev" "is_hw env (fst f)"
    using assms(2) by (auto simp: frame_wf_def)
  moreover then have "length (hw_address (sup_hw env (fst f))) = 6" using vpp_okD [OF assms(1)] by simp
  ultimately show ?thesis by (simp add: esmc_parse_pdu) (simp add: esmc_pdu_def)
qed

text \<open>
  C39. Every state the plugin reaches from its startup configuration, through any sequence of
  received frames, process events and enable calls, keeps the invariant: recorded and announced
  qualities are four-bit codes (so \<open>kEsmcSsmPreference\<close> is indexed in range), the PDU counter
  stays within its limit, and every frame sent is a 64-byte PDU that an input node accepts.
\<close>

theorem esmc_reachable_inv:
  assumes "vpp_ok env" and "tx_frames em0 = []" and "list_all (act_ok env) as"
    and "esmc_run env pl idx as (1, snd (esmc_config ts em0)) = Some s"
  shows "esmc_inv env (snd s)
     \<and> (\<forall>f \<in> set (tx_frames (snd s)). length (snd f) = 64 \<and> esmc_parse (\<lambda>i. snd f ! (14 + i)) \<noteq> None)"
proof -
  have "esmc_inv env (snd s)"
    using esmc_run_inv [OF assms(1) _ assms(3,4)] esmc_config_inv [OF assms(2)] by simp
  moreover then have "\<forall>f \<in> set (tx_frames (snd s)). frame_wf env f" by (simp add: esmc_inv_def)
  ultimately show ?thesis using frame_wf_pdu [OF assms(1)] by blast
qed

theorem esmc_reachable_inv_witness:
  "\<exists>s. esmc_run sample_env sample_pll 7 [AEnable True 1 2 True True, AProcess OtherEvent]
         (1, snd (esmc_config [TTgInput, TOn] sample_em)) = Some s \<and> esmc_inv sample_env (snd s)"
proof -
  obtain s where s: "esmc_run sample_env sample_pll 7 [AEnable True 1 2 True True, AProcess OtherEvent]
         (1, snd (esmc_config [TTgInput, TOn] sample_em)) = Some s"
    by (simp add: esmc_act_def esmc_process_fn_def)
  have "tx_frames sample_em = []" by (simp add: sample_em_def)
  moreover have "list_all (act_ok sample_env) [AEnable True 1 2 True True, AProcess OtherEvent]"
    by (simp add: is_hw_def sample_env_def sample_hw_def)
  ultimately show ?thesis using esmc_reachable_inv [OF sample_ok(1) _ _ s] s by blast
qed

end
