(* ===== verification/Zl3079x.thy ===== *)
theory Zl3079x
  imports Prelude
begin

text \<open>
  The driver of the Microsemi ZL3079x network synchroniser
  (\<open>microsemi-dpll/src/fb_tgd_zl3079x.c\<close>): paged register access over I2C, configuration of the
  phase-locked loops at probe time, the software loop filter that follows the timing of a radio
  link, and the ioctl interface by which the ESMC plugin steers it and asks for its lock state.

  The I2C controller with the chip behind it is the record \<open>i2c_ops\<close> over a state of its own;
  every transfer returns a negative error or a result. The host is little-endian. Signed C
  integers are words read with \<open>sint\<close>; the kernel is built with wrapping signed arithmetic.
\<close>

section \<open>Register access\<close>

record 'd i2c_ops =
  write_byte_data :: "u8 \<Rightarrow> u8 \<Rightarrow> 'd \<Rightarrow> int \<times> 'd"
  read_byte_data :: "u8 \<Rightarrow> 'd \<Rightarrow> int \<times> 'd"
  read_word_data :: "u8 \<Rightarrow> 'd \<Rightarrow> int \<times> 'd"
  write_block_data :: "u8 \<Rightarrow> u8 list \<Rightarrow> 'd \<Rightarrow> int \<times> 'd"

abbreviation ZL_REG_PAGE_SEL :: u8 where "ZL_REG_PAGE_SEL \<equiv> 0x7f"
abbreviation ZL_REG_ID :: u16 where "ZL_REG_ID \<equiv> 1"
abbreviation ZL_REG_HP_CTRL_1 :: u16 where "ZL_REG_HP_CTRL_1 \<equiv> 0x480"
abbreviation ZL_REG_DPLL_MB_MASK :: u16 where "ZL_REG_DPLL_MB_MASK \<equiv> 0x602"
abbreviation ZL_REG_DPLL_MB_SEM :: u16 where "ZL_REG_DPLL_MB_SEM \<equiv> 0x604"
abbreviation ZL_REG_DPLL_BW_FIXED :: u16 where "ZL_REG_DPLL_BW_FIXED \<equiv> 0x605"
abbreviation ZL_REG_DPLL_BW_VAR :: u16 where "ZL_REG_DPLL_BW_VAR \<equiv> 0x606"
abbreviation ZL_REG_DPLL_PSL :: u16 where "ZL_REG_DPLL_PSL \<equiv> 0x608"
abbreviation ZL_REG_DPLL_GP_OUT_WIDTH_0 :: u16 where "ZL_REG_DPLL_GP_OUT_WIDTH_0 \<equiv> 0x426"
abbreviation ZL_DPLL_MODE_NCO :: u8 where "ZL_DPLL_MODE_NCO \<equiv> 4"
abbreviation ZL_DPLL_MODE_REFLOCK_GPS :: u8 where "ZL_DPLL_MODE_REFLOCK_GPS \<equiv> 2"
abbreviation ZL_DPLL_MODE_REFLOCK_SYNCE :: u8 where "ZL_DPLL_MODE_REFLOCK_SYNCE \<equiv> 0x62"

text \<open>\<open>if ((ret = m) < 0) return ret;\<close>\<close>

definition chk :: "int \<times> 'd \<Rightarrow> (int \<Rightarrow> 'd \<Rightarrow> int \<times> 'd) \<Rightarrow> int \<times> 'd" where
  "chk m f = (case m of (ret, d) \<Rightarrow> if ret < 0 then (ret, d) else f ret d)"

text \<open>The bytes of a value in big-endian order, the last \<open>n\<close> of them.\<close>

definition be_bytes :: "nat \<Rightarrow> u64 \<Rightarrow> u8 list" where
  "be_bytes n v = rev (map (\<lambda>i. ucast (drop_bit (8 * i) v)) [0..<n])"

definition swap16 :: "u16 \<Rightarrow> u16" where
  "swap16 w = push_bit 8 w OR drop_bit 8 w"

definition reg_in_page :: "u16 \<Rightarrow> u8" where
  "reg_in_page reg = ucast (reg AND 0x7f)"

definition tgd_zl_page_sel :: "'d i2c_ops \<Rightarrow> u16 \<Rightarrow> 'd \<Rightarrow> int \<times> 'd" where
  "tgd_zl_page_sel io reg d = write_byte_data io ZL_REG_PAGE_SEL (ucast (drop_bit 7 reg)) d"

definition tgd_zl_read_reg8 :: "'d i2c_ops \<Rightarrow> u16 \<Rightarrow> 'd \<Rightarrow> int \<times> 'd" where
  "tgd_zl_read_reg8 io reg d =
     chk (tgd_zl_page_sel io reg d) (\<lambda>_ d1. read_byte_data io (reg_in_page reg) d1)"

definition tgd_zl_read_reg16 :: "'d i2c_ops \<Rightarrow> u16 \<Rightarrow> 'd \<Rightarrow> int \<times> 'd" where
  "tgd_zl_read_reg16 io reg d =
     chk (tgd_zl_page_sel io reg d) (\<lambda>_ d1.
     chk (read_word_data io (reg_in_page reg) d1) (\<lambda>ret d2.
       (uint (swap16 (word_of_int ret)), d2)))"

definition tgd_zl_write_reg8 :: "'d i2c_ops \<Rightarrow> u16 \<Rightarrow> u8 \<Rightarrow> 'd \<Rightarrow> int \<times> 'd" where
  "tgd_zl_write_reg8 io reg v d =
     chk (tgd_zl_page_sel io reg d) (\<lambda>_ d1. write_byte_data io (reg_in_page reg) v d1)"

definition tgd_zl_write_reg16 :: "'d i2c_ops \<Rightarrow> u16 \<Rightarrow> u32 \<Rightarrow> 'd \<Rightarrow> int \<times> 'd" where
  "tgd_zl_write_reg16 io reg v d =
     chk (tgd_zl_page_sel io reg d) (\<lambda>_ d1.
       write_block_data io (reg_in_page reg) (be_bytes 2 (ucast v)) d1)"

definition tgd_zl_write_reg32 :: "'d i2c_ops \<Rightarrow> u16 \<Rightarrow> u32 \<Rightarrow> 'd \<Rightarrow> int \<times> 'd" where
  "tgd_zl_write_reg32 io reg v d =
     chk (tgd_zl_page_sel io reg d) (\<lambda>_ d1.
       write_block_data io (reg_in_page reg) (be_bytes 4 (ucast v)) d1)"

definition tgd_zl_write_reg48 :: "'d i2c_ops \<Rightarrow> u16 \<Rightarrow> u64 \<Rightarrow> 'd \<Rightarrow> int \<times> 'd" where
  "tgd_zl_write_reg48 io reg v d =
     chk (tgd_zl_page_sel io reg d) (\<lambda>_ d1.
       write_block_data io (reg_in_page reg) (drop 2 (be_bytes 8 v)) d1)"

section \<open>DPLL operations\<close>

definition tgd_zl_set_mode :: "'d i2c_ops \<Rightarrow> int \<Rightarrow> u8 \<Rightarrow> 'd \<Rightarrow> int \<times> 'd" where
  "tgd_zl_set_mode io dpll mode d = tgd_zl_write_reg8 io (word_of_int (0x210 + dpll * 4)) mode d"

definition tgd_zl_get_dpll_state_refsel :: "'d i2c_ops \<Rightarrow> int \<Rightarrow> 'd \<Rightarrow> int \<times> 'd" where
  "tgd_zl_get_dpll_state_refsel io dpll d = tgd_zl_read_reg8 io (word_of_int (0x120 + dpll * 1)) d"

definition tgd_zl_get_dpll_status :: "'d i2c_ops \<Rightarrow> int \<Rightarrow> 'd \<Rightarrow> int \<times> 'd" where
  "tgd_zl_get_dpll_status io dpll d = tgd_zl_read_reg8 io (word_of_int (0x118 + dpll * 1)) d"

definition tgd_zl_set_synth1_dpll :: "'d i2c_ops \<Rightarrow> int \<Rightarrow> 'd \<Rightarrow> int \<times> 'd" where
  "tgd_zl_set_synth1_dpll io dpll d =
     chk (tgd_zl_read_reg8 io ZL_REG_HP_CTRL_1 d) (\<lambda>ret d1.
       let v = (word_of_int ret :: u32) AND NOT 0x30;
           v' = v OR (if dpll = 0 then 0 else 0x10)
       in tgd_zl_write_reg8 io ZL_REG_HP_CTRL_1 (ucast v') d1)"

definition tgd_zl_dpll_mailbox_wait :: "'d i2c_ops \<Rightarrow> 'd \<Rightarrow> int \<times> 'd" where
  "tgd_zl_dpll_mailbox_wait io d =
     (let (ret, d1) = tgd_zl_read_reg8 io ZL_REG_DPLL_MB_SEM d
      in if ret > 0 then (- 1, d1) else (ret, d1))"

definition tgd_zl_set_dpll_config :: "'d i2c_ops \<Rightarrow> int \<Rightarrow> u8 \<Rightarrow> u16 \<Rightarrow> 'd \<Rightarrow> int \<times> 'd" where
  "tgd_zl_set_dpll_config io dpll bw_var psl d =
     chk (tgd_zl_write_reg16 io ZL_REG_DPLL_MB_MASK (push_bit (nat dpll) 1) d) (\<lambda>_ d1.
     chk (tgd_zl_write_reg8 io ZL_REG_DPLL_MB_SEM 2 d1) (\<lambda>_ d2.
     chk (tgd_zl_dpll_mailbox_wait io d2) (\<lambda>_ d3.
     chk (tgd_zl_write_reg8 io ZL_REG_DPLL_BW_FIXED 7 d3) (\<lambda>_ d4.
     chk (tgd_zl_write_reg8 io ZL_REG_DPLL_BW_VAR bw_var d4) (\<lambda>_ d5.
     chk (tgd_zl_write_reg16 io ZL_REG_DPLL_PSL (ucast psl) d5) (\<lambda>_ d6.
     chk (tgd_zl_write_reg8 io ZL_REG_DPLL_MB_SEM 1 d6) (\<lambda>_ d7.
     chk (tgd_zl_dpll_mailbox_wait io d7) (\<lambda>ret d8. (ret, d8)))))))))"

section \<open>Driver state\<close>

text \<open>The module parameters.\<close>

record zl_params =
  pll_kp :: u32
  pll_ki :: u32
  tgd_device_param :: int
  pps_source_gps :: bool

record 'd zl_priv =
  client :: 'd
  nco_update_count :: u32
  nco_update_errors :: u32
  last_rxStartUs :: u32
  last_htsf_ns :: u64
  txRxDiffInit :: u32
  initDone :: bool
  tgd_device :: int
  tgd_device_mac :: u64
  ffo_est_q48 :: u64
  htsf_rx_count :: u32
  gps_dpll_index :: int
  synce_dpll_index :: int
  synce_dpll_mode :: u8

abbreviation PLL_MAX_FFO :: int where "PLL_MAX_FFO \<equiv> 2111062325"
abbreviation PLL_KP :: int where "PLL_KP \<equiv> 1495060"
abbreviation PLL_KI :: int where "PLL_KI \<equiv> 19853"
abbreviation PLL_LOCK_COUNT :: u32 where "PLL_LOCK_COUNT \<equiv> 390"
abbreviation PLL_RESET_TIME_US :: u32 where "PLL_RESET_TIME_US \<equiv> 1000000"

definition default_params :: zl_params where
  "default_params = \<lparr>pll_kp = word_of_int PLL_KP, pll_ki = word_of_int PLL_KI,
                     tgd_device_param = - 1, pps_source_gps = True\<rparr>"

text \<open>
  \<open>ret\<close> receives the value of the comparison, not of the write: the closing parenthesis of the
  assignment stands behind \<open>< 0\<close>.
\<close>

definition tgd_zl_send_offset :: "'d i2c_ops \<Rightarrow> int \<Rightarrow> u64 \<Rightarrow> 'd zl_priv \<Rightarrow> int \<times> 'd zl_priv" where
  "tgd_zl_send_offset io dpll offset priv =
     (let (w, d) = tgd_zl_write_reg48 io (word_of_int (0x300 + dpll * 0x20)) offset (client priv);
          ret = (if w < 0 then 1 else 0);
          priv1 = priv\<lparr>client := d\<rparr>
      in if ret \<noteq> 0 then (ret, priv1\<lparr>nco_update_errors := nco_update_errors priv1 + 1\<rparr>)
         else (ret, priv1\<lparr>nco_update_count := nco_update_count priv1 + 1\<rparr>))"

section \<open>Loop filter\<close>

text \<open>All of it in 64-bit arithmetic; \<open>u64\<close> and \<open>s64\<close> share their bits.\<close>

definition tgd_zl_get_freq_offset ::
  "zl_params \<Rightarrow> u32 \<Rightarrow> u32 \<Rightarrow> 'd zl_priv \<Rightarrow> u64 \<times> 'd zl_priv" where
  "tgd_zl_get_freq_offset p delta_t_us phase_offset_ns priv =
     (let ki = drop_bit 40 (scast (pll_ki p) * ucast delta_t_us * 1099512) :: u64;
          est0 = ki * scast phase_offset_ns + ffo_est_q48 priv;
          out0 = scast (pll_kp p) * scast phase_offset_ns + est0;
          (est1, out1) = (if PLL_MAX_FFO < sint out0
                          then (est0 + (word_of_int PLL_MAX_FFO - out0), word_of_int PLL_MAX_FFO)
                          else (est0, out0));
          (est2, out2) = (if sint out1 < - PLL_MAX_FFO
                          then (est1 + (word_of_int (- PLL_MAX_FFO) - out1), word_of_int (- PLL_MAX_FFO))
                          else (est1, out1))
      in (out2, priv\<lparr>ffo_est_q48 := est2\<rparr>))"

definition reset_pll :: "'d zl_priv \<Rightarrow> 'd zl_priv" where
  "reset_pll priv = priv\<lparr>last_rxStartUs := 0, last_htsf_ns := 0, txRxDiffInit := 0,
                         initDone := False, htsf_rx_count := 0\<rparr>"

definition tgd_zl_htsf_info_handler ::
  "'d i2c_ops \<Rightarrow> zl_params \<Rightarrow> int \<Rightarrow> u64 \<Rightarrow> u32 \<Rightarrow> u32 \<Rightarrow> u64 \<Rightarrow> 'd zl_priv \<Rightarrow> 'd zl_priv" where
  "tgd_zl_htsf_info_handler io p devidx macaddr txRxDiffNs rxStartUs now_ns priv =
     (if devidx \<noteq> tgd_device_param p \<and> macaddr \<noteq> tgd_device_mac priv then priv
      else
        let deltaUs = rxStartUs - last_rxStartUs priv;
            priv1 = (if (initDone priv \<and> PLL_RESET_TIME_US < deltaUs) \<or> tgd_device priv \<noteq> tgd_device_param p
                     then reset_pll (priv\<lparr>tgd_device := tgd_device_param p\<rparr>) else priv)
        in if \<not> initDone priv1
           then priv1\<lparr>txRxDiffInit := txRxDiffNs, last_rxStartUs := rxStartUs,
                      last_htsf_ns := now_ns, initDone := True\<rparr>
           else
             let (ffo, priv2) = tgd_zl_get_freq_offset p (rxStartUs - last_rxStartUs priv1)
                                  (txRxDiffInit priv1 - txRxDiffNs) priv1;
                 (_, priv3) = tgd_zl_send_offset io (synce_dpll_index priv2) (- ffo) priv2;
                 priv4 = priv3\<lparr>last_rxStartUs := rxStartUs, last_htsf_ns := now_ns\<rparr>
             in if htsf_rx_count priv4 \<le> PLL_LOCK_COUNT
                then priv4\<lparr>htsf_rx_count := htsf_rx_count priv4 + 1\<rparr> else priv4)"

section \<open>Ioctl\<close>

definition zl_ioc :: "u32 \<Rightarrow> u32 \<Rightarrow> u32 \<Rightarrow> u32" where
  "zl_ioc dir nr sz = push_bit 30 dir OR push_bit 16 sz OR push_bit 8 0xfb OR nr"

definition ZL_IOCTL_SET_MODE :: u32 where "ZL_IOCTL_SET_MODE = zl_ioc 1 1 4"
definition ZL_IOCTL_SET_DEVICE :: u32 where "ZL_IOCTL_SET_DEVICE = zl_ioc 1 2 8"
definition ZL_IOCTL_GET_LOCKED :: u32 where "ZL_IOCTL_GET_LOCKED = zl_ioc 2 3 4"

text \<open>The argument as a number, the MAC it points to if readable, and whether it is writable.\<close>

record zl_arg =
  zl_arg_val :: u64
  zl_arg_mac :: "u64 option"
  zl_arg_writable :: bool

text \<open>The lock state \<open>ZL_IOCTL_GET_LOCKED\<close> computes; \<open>Inl\<close> is an early error return.\<close>

definition zl_get_locked :: "'d i2c_ops \<Rightarrow> u64 \<Rightarrow> 'd zl_priv \<Rightarrow> (int + bool) \<times> 'd zl_priv" where
  "zl_get_locked io now_ns priv =
     (if synce_dpll_mode priv = ZL_DPLL_MODE_NCO
      then (Inr ((tgd_device priv \<noteq> - 1 \<or> tgd_device_mac priv \<noteq> 0)
                 \<and> PLL_LOCK_COUNT < htsf_rx_count priv
                 \<and> now_ns - last_htsf_ns priv < 1000000 * 1000), priv)
      else if synce_dpll_mode priv = ZL_DPLL_MODE_REFLOCK_SYNCE
      then
        let (state, d1) = tgd_zl_get_dpll_state_refsel io (synce_dpll_index priv) (client priv)
        in if state < 0 then (Inl (- 14), priv\<lparr>client := d1\<rparr>)
           else
             let (status, d2) = tgd_zl_get_dpll_status io (synce_dpll_index priv) d1
             in if status < 0 then (Inl (- 14), priv\<lparr>client := d2\<rparr>)
                else (Inr (state = 0x64 \<and> status = 0x5), priv\<lparr>client := d2\<rparr>)
      else (Inr False, priv))"

definition tgd_zl_ioctl ::
  "'d i2c_ops \<Rightarrow> u32 \<Rightarrow> zl_arg \<Rightarrow> u64 \<Rightarrow> 'd zl_priv \<Rightarrow> int \<times> u8 option \<times> 'd zl_priv" where
  "tgd_zl_ioctl io cmd arg now_ns priv =
     (if cmd = ZL_IOCTL_SET_MODE
      then
        let mode = ucast (zl_arg_val arg);
            (ret, d) = tgd_zl_set_mode io (synce_dpll_index priv) mode (client priv)
        in if ret < 0 then (- 14, None, priv\<lparr>client := d\<rparr>)
           else (0, None, priv\<lparr>client := d, synce_dpll_mode := mode\<rparr>)
      else if cmd = ZL_IOCTL_SET_DEVICE
      then
        (case zl_arg_mac arg of
           None \<Rightarrow> (- 14, None, priv)
         | Some macaddr \<Rightarrow>
             if tgd_device_mac priv \<noteq> macaddr
             then (0, None, reset_pll (priv\<lparr>tgd_device_mac := macaddr\<rparr>))
             else (0, None, priv))
      else if cmd = ZL_IOCTL_GET_LOCKED
      then
        (case zl_get_locked io now_ns priv of
           (Inl e, priv1) \<Rightarrow> (e, None, priv1)
         | (Inr locked, priv1) \<Rightarrow>
             if zl_arg_writable arg then (0, Some (if locked then 1 else 0), priv1)
             else (- 14, None, priv1))
      else (- 25, None, priv))"

section \<open>Probe and remove\<close>

definition zero_priv :: "'d \<Rightarrow> 'd zl_priv" where
  "zero_priv d = \<lparr>client = d, nco_update_count = 0, nco_update_errors = 0, last_rxStartUs = 0,
     last_htsf_ns = 0, txRxDiffInit = 0, initDone = False, tgd_device = 0, tgd_device_mac = 0,
     ffo_est_q48 = 0, htsf_rx_count = 0, gps_dpll_index = 0, synce_dpll_index = 0, synce_dpll_mode = 0\<rparr>"

text \<open>The register writes of \<open>tgd_zl_probe\<close>, for the given pair of DPLL indices.\<close>

definition probe_config :: "'d i2c_ops \<Rightarrow> int \<Rightarrow> int \<Rightarrow> 'd \<Rightarrow> int \<times> 'd" where
  "probe_config io gps synce d =
     chk (tgd_zl_write_reg32 io ZL_REG_DPLL_GP_OUT_WIDTH_0 0x08f0d180 d) (\<lambda>_ d1.
     chk (if gps \<noteq> - 1
          then chk (tgd_zl_set_mode io gps ZL_DPLL_MODE_REFLOCK_GPS d1) (\<lambda>_ d2.
               tgd_zl_set_dpll_config io gps 0x4f 0x0375 d2)
          else (0, d1)) (\<lambda>_ d3.
     chk (tgd_zl_set_mode io synce ZL_DPLL_MODE_NCO d3) (\<lambda>_ d4.
     chk (tgd_zl_set_dpll_config io synce 0x96 0x1d4c d4) (\<lambda>_ d5.
     tgd_zl_set_synth1_dpll io synce d5))))"

text \<open>
  \<open>func_ok\<close> and \<open>alloc_ok\<close> are the answers of \<open>i2c_check_functionality\<close> and the allocation. The
  result is the return value, the chip and the new value of \<open>g_priv\<close>, \<open>None\<close> when unchanged.
\<close>

definition tgd_zl_probe ::
  "'d i2c_ops \<Rightarrow> zl_params \<Rightarrow> bool \<Rightarrow> bool \<Rightarrow> 'd \<Rightarrow> int \<times> 'd \<times> 'd zl_priv option" where
  "tgd_zl_probe io p func_ok alloc_ok d =
     (if \<not> func_ok then (- 19, d, None)
      else if \<not> alloc_ok then (- 12, d, None)
      else
        let (chip_id, d1) = tgd_zl_read_reg16 io ZL_REG_ID d
        in if chip_id < 0 then (- 5, d1, None)
           else if chip_id \<noteq> 0x0ECF \<and> chip_id \<noteq> 0x0ED1 \<and> chip_id \<noteq> 0x0ED3 then (- 19, d1, None)
           else
             let (gps, synce) = (if pps_source_gps p then (0, 1) else (- 1, 0));
                 (ret, d2) = probe_config io gps synce d1
             in if ret < 0 then (ret, d2, None)
                else (0, d2, Some ((zero_priv d2)\<lparr>gps_dpll_index := gps, synce_dpll_index := synce,
                                    synce_dpll_mode := ZL_DPLL_MODE_NCO\<rparr>)))"

section \<open>The loop filter as integer arithmetic\<close>

text \<open>
  One step of a proportional-integral controller with saturated output; the integrator is moved
  by what the saturation cut off (anti-windup), so it always is the output less the
  proportional term.
\<close>

definition pi_step :: "int \<Rightarrow> int \<Rightarrow> int \<Rightarrow> int \<Rightarrow> int \<Rightarrow> int \<times> int" where
  "pi_step lim kp ki x est =
     (let out = max (- lim) (min lim (kp * x + (ki * x + est))) in (out, out - kp * x))"

text \<open>The integral gain for an update interval, and the largest value of the integrator.\<close>

definition ki_of :: "u32 \<Rightarrow> int" where
  "ki_of delta = PLL_KI * uint delta * 1099512 div 2 ^ 40"

abbreviation EST_MAX :: int where "EST_MAX \<equiv> PLL_MAX_FFO + PLL_KP * 2 ^ 31"

lemma sint_of_int_64: "- (2 ^ 63) \<le> i \<Longrightarrow> i < 2 ^ 63 \<Longrightarrow> sint (word_of_int i :: u64) = i"
  by (simp add: signed_of_int signed_take_bit_int_eq_self)

lemma uint_of_int_64: "0 \<le> i \<Longrightarrow> i < 18446744073709551616 \<Longrightarrow> uint (word_of_int i :: u64) = i"
  by (simp add: unsigned_of_int take_bit_int_eq_self)

lemma drop_bit_div_64: "drop_bit n (w :: u64) = word_of_int (uint w div 2 ^ n)"
proof -
  have "take_bit 64 (uint w) = uint w" by (rule take_bit_int_eq_self) (simp_all add: uint_bounded [of w, simplified])
  then have "uint (drop_bit n w) = uint w div 2 ^ n"
    unfolding unsigned_drop_bit_eq by (simp add: drop_bit_eq_div)
  then show ?thesis by (metis word_of_int_uint)
qed

lemma sint_u32_bounds: "- (2 ^ 31) \<le> sint (x :: u32)" "sint (x :: u32) < 2 ^ 31"
  using sint_ge [of x] sint_lt [of x] by simp_all

lemma ki_of_bounds:
  assumes "delta \<le> PLL_RESET_TIME_US"
  shows "0 \<le> ki_of delta" "ki_of delta \<le> 19853"
    and "drop_bit 40 (scast (word_of_int PLL_KI :: u32) * ucast delta * 1099512) = (word_of_int (ki_of delta) :: u64)"
proof -
  have d: "uint delta \<le> 1000000" using assms by (simp add: word_le_def)
  let ?n = "PLL_KI * uint delta * 1099512"
  have n: "0 \<le> ?n" "?n \<le> 19853 * 1000000 * 1099512" using d by simp_all
  have "?n div 2 ^ 40 \<le> 19853 * 1000000 * 1099512 div 2 ^ 40" by (rule zdiv_mono1 [OF n(2)]) simp
  then show "ki_of delta \<le> 19853" unfolding ki_of_def by simp
  show "0 \<le> ki_of delta" unfolding ki_of_def using n(1) by (subst pos_imp_zdiv_nonneg_iff) simp_all
  have s: "scast (word_of_int PLL_KI :: u32) = (word_of_int PLL_KI :: u64)"
    by simp
  have "(scast (word_of_int PLL_KI :: u32) * ucast delta * 1099512 :: u64) = word_of_int ?n"
    unfolding s ucast_eq by (simp only: of_int_mult of_int_numeral)
  moreover have "uint (word_of_int ?n :: u64) = ?n"
    using n by (intro uint_of_int_64) linarith+
  ultimately show "drop_bit 40 (scast (word_of_int PLL_KI :: u32) * ucast delta * 1099512)
      = (word_of_int (ki_of delta) :: u64)"
    unfolding ki_of_def by (metis drop_bit_div_64)
qed

lemma abs_mult_bound:
  fixes a x :: int
  assumes "0 \<le> a" and "a \<le> b" and "- c \<le> x" and "x \<le> c"
  shows "- (b * c) \<le> a * x" "a * x \<le> b * c"
proof -
  have c: "0 \<le> c" using assms(3,4) by linarith
  have "a * x \<le> a * c" using assms(1,4) by (rule mult_left_mono [rotated])
  also have "\<dots> \<le> b * c" using assms(2) c by (rule mult_right_mono)
  finally show "a * x \<le> b * c" .
  have "a * (- x) \<le> a * c" using assms(1,3) by (intro mult_left_mono) linarith+
  also have "\<dots> \<le> b * c" using assms(2) c by (rule mult_right_mono)
  finally show "- (b * c) \<le> a * x" by simp
qed

lemma freq_offset_pi:
  assumes "delta \<le> PLL_RESET_TIME_US" and "\<bar>sint (ffo_est_q48 priv)\<bar> \<le> EST_MAX"
    and "pll_kp p = word_of_int PLL_KP" and "pll_ki p = word_of_int PLL_KI"
    and "tgd_zl_get_freq_offset p delta x priv = (out, priv')"
  shows "(sint out, sint (ffo_est_q48 priv'))
           = pi_step PLL_MAX_FFO PLL_KP (ki_of delta) (sint x) (sint (ffo_est_q48 priv))"
    and "\<bar>sint out\<bar> \<le> PLL_MAX_FFO" and "\<bar>sint (ffo_est_q48 priv')\<bar> \<le> EST_MAX"
    and "priv' = priv\<lparr>ffo_est_q48 := ffo_est_q48 priv'\<rparr>"
proof -
  let ?e = "sint (ffo_est_q48 priv)" and ?x = "sint x" and ?k = "ki_of delta"
  note kb = ki_of_bounds [OF assms(1)]
  have xb: "- (2 ^ 31) \<le> ?x" "?x \<le> 2 ^ 31" using sint_u32_bounds [of x] by simp_all
  have kx: "- (19853 * 2 ^ 31) \<le> ?k * ?x" "?k * ?x \<le> 19853 * 2 ^ 31"
    by (rule abs_mult_bound [OF kb(1,2) xb])+
  have px: "- (PLL_KP * 2 ^ 31) \<le> PLL_KP * ?x" "PLL_KP * ?x \<le> PLL_KP * 2 ^ 31"
    by (rule abs_mult_bound [OF _ _ xb]; simp)+
  have eb: "- EST_MAX \<le> ?e" "?e \<le> EST_MAX" using assms(2) by linarith+
  let ?i = "?k * ?x + ?e" let ?o = "PLL_KP * ?x + ?i"
  have e_word: "ffo_est_q48 priv = word_of_int ?e" by simp
  have est0: "word_of_int ?k * scast x + ffo_est_q48 priv = (word_of_int ?i :: u64)"
    by (subst e_word) (simp only: scast_eq of_int_mult of_int_add)
  have out0: "scast (word_of_int PLL_KP :: u32) * scast x + word_of_int ?i = (word_of_int ?o :: u64)"
  proof -
    have "scast (word_of_int PLL_KP :: u32) = (word_of_int PLL_KP :: u64)" by simp
    then show ?thesis by (simp only: scast_eq [of x] of_int_mult of_int_add)
  qed
  have so: "sint (word_of_int ?o :: u64) = ?o" by (rule sint_of_int_64) (use kx px eb in simp_all)
  have sm: "sint (word_of_int PLL_MAX_FFO :: u64) = PLL_MAX_FFO"
    "sint (word_of_int (- PLL_MAX_FFO) :: u64) = - PLL_MAX_FFO" by (rule sint_of_int_64; simp)+
  have si: "sint (word_of_int ?i :: u64) = ?i" by (rule sint_of_int_64) (use kx eb in simp_all)
  have up: "word_of_int ?i + (word_of_int c - word_of_int ?o) = (word_of_int (c - PLL_KP * ?x) :: u64)" for c
    by (simp only: of_int_diff of_int_add of_int_mult) (simp add: algebra_simps)
  have sc: "sint (word_of_int (c - PLL_KP * ?x) :: u64) = c - PLL_KP * ?x" if "\<bar>c\<bar> \<le> PLL_MAX_FFO" for c
    by (rule sint_of_int_64) (use px that in simp_all)
  define o2 where "o2 = max (- PLL_MAX_FFO) (min PLL_MAX_FFO ?o)"
  have res: "out = word_of_int o2 \<and> priv' = priv\<lparr>ffo_est_q48 := word_of_int (o2 - PLL_KP * ?x)\<rparr>"
  proof -
    have "tgd_zl_get_freq_offset p delta x priv
        = (let (est1, out1) = (if PLL_MAX_FFO < ?o then (word_of_int (PLL_MAX_FFO - PLL_KP * ?x), word_of_int PLL_MAX_FFO)
                               else (word_of_int ?i, word_of_int ?o));
               (est2, out2) = (if sint out1 < - PLL_MAX_FFO
                               then (est1 + (word_of_int (- PLL_MAX_FFO) - out1), word_of_int (- PLL_MAX_FFO))
                               else (est1, out1))
           in (out2, priv\<lparr>ffo_est_q48 := est2\<rparr>))"
      unfolding tgd_zl_get_freq_offset_def assms(3,4) kb(3) est0 out0 so up Let_def ..
    moreover have "?i = ?o - PLL_KP * ?x" by simp
    ultimately show ?thesis
      using assms(5) unfolding o2_def
      by (cases "PLL_MAX_FFO < ?o"; cases "?o < - PLL_MAX_FFO")
        (simp_all only: if_True if_False so sm up Let_def prod.case, auto simp: max_def min_def)
  qed
  have ob: "\<bar>o2\<bar> \<le> PLL_MAX_FFO" by (simp add: o2_def abs_le_iff max_def min_def)
  have "sint out = o2" unfolding res [THEN conjunct1] by (rule sint_of_int_64) (use ob in simp_all)
  moreover have e': "sint (ffo_est_q48 priv') = o2 - PLL_KP * ?x" using res sc [OF ob] by simp
  ultimately show "(sint out, sint (ffo_est_q48 priv')) = pi_step PLL_MAX_FFO PLL_KP ?k ?x ?e"
    "\<bar>sint out\<bar> \<le> PLL_MAX_FFO"
    using ob by (simp_all add: pi_step_def Let_def o2_def)
  show "\<bar>sint (ffo_est_q48 priv')\<bar> \<le> EST_MAX" unfolding e' using ob px by (simp add: abs_le_iff)
  show "priv' = priv\<lparr>ffo_est_q48 := ffo_est_q48 priv'\<rparr>" using res by simp
qed

section \<open>The lock counter\<close>

text \<open>With the default gains, the integrator stays in range and the counter below its cap.\<close>

definition zl_inv :: "'d zl_priv \<Rightarrow> bool" where
  "zl_inv priv \<longleftrightarrow> \<bar>sint (ffo_est_q48 priv)\<bar> \<le> EST_MAX \<and> htsf_rx_count priv \<le> PLL_LOCK_COUNT + 1
     \<and> (\<not> initDone priv \<longrightarrow> htsf_rx_count priv = 0)"

definition gains_ok :: "zl_params \<Rightarrow> bool" where
  "gains_ok p \<longleftrightarrow> pll_kp p = word_of_int PLL_KP \<and> pll_ki p = word_of_int PLL_KI"

lemma send_offset_frame:
  assumes "tgd_zl_send_offset io dpll off priv = (r, priv')"
  shows "ffo_est_q48 priv' = ffo_est_q48 priv" "htsf_rx_count priv' = htsf_rx_count priv"
    "initDone priv' = initDone priv" "tgd_device_mac priv' = tgd_device_mac priv"
    "tgd_device priv' = tgd_device priv" "last_rxStartUs priv' = last_rxStartUs priv"
    "synce_dpll_mode priv' = synce_dpll_mode priv" "r = 0 \<or> r = 1"
  using assms by (auto simp: tgd_zl_send_offset_def Let_def split: prod.splits if_splits)

text \<open>A message the handler acts on: of the selected device or of the selected MAC.\<close>

definition htsf_accepted :: "zl_params \<Rightarrow> int \<Rightarrow> u64 \<Rightarrow> 'd zl_priv \<Rightarrow> bool" where
  "htsf_accepted p devidx mac priv \<longleftrightarrow> devidx = tgd_device_param p \<or> mac = tgd_device_mac priv"

definition htsf_resets :: "zl_params \<Rightarrow> u32 \<Rightarrow> 'd zl_priv \<Rightarrow> bool" where
  "htsf_resets p rxs priv \<longleftrightarrow>
     (initDone priv \<and> PLL_RESET_TIME_US < rxs - last_rxStartUs priv) \<or> tgd_device priv \<noteq> tgd_device_param p"

lemma handler_cases:
  assumes g: "gains_ok p" and inv: "zl_inv priv"
    and h: "tgd_zl_htsf_info_handler io p devidx mac diff rxs now priv = priv'"
  shows "if \<not> htsf_accepted p devidx mac priv then priv' = priv
     else if htsf_resets p rxs priv \<or> \<not> initDone priv
     then zl_inv priv' \<and> initDone priv' \<and> htsf_rx_count priv' = 0 \<and> last_rxStartUs priv' = rxs
       \<and> tgd_device priv' = tgd_device_param p \<and> tgd_device_mac priv' = tgd_device_mac priv
     else zl_inv priv' \<and> initDone priv' \<and> last_rxStartUs priv' = rxs
       \<and> htsf_rx_count priv' = (if htsf_rx_count priv \<le> PLL_LOCK_COUNT then htsf_rx_count priv + 1
                               else htsf_rx_count priv)
       \<and> tgd_device priv' = tgd_device_param p \<and> tgd_device_mac priv' = tgd_device_mac priv"
proof (cases "htsf_accepted p devidx mac priv \<and> \<not> htsf_resets p rxs priv \<and> initDone priv")
  case False
  show ?thesis
  proof (cases "htsf_accepted p devidx mac priv")
    case True
    then have acc: "\<not> (devidx \<noteq> tgd_device_param p \<and> mac \<noteq> tgd_device_mac priv)"
      by (simp add: htsf_accepted_def)
    define p1 where "p1 = (if htsf_resets p rxs priv then reset_pll (priv\<lparr>tgd_device := tgd_device_param p\<rparr>) else priv)"
    have i: "\<not> initDone p1" using False True by (auto simp: p1_def reset_pll_def)
    have "priv' = p1\<lparr>txRxDiffInit := diff, last_rxStartUs := rxs, last_htsf_ns := now, initDone := True\<rparr>"
      using h i unfolding tgd_zl_htsf_info_handler_def Let_def if_not_P [OF acc] htsf_resets_def [symmetric]
        p1_def [symmetric] by simp
    moreover have "tgd_device p1 = tgd_device_param p" "tgd_device_mac p1 = tgd_device_mac priv"
      "htsf_rx_count p1 = 0" "ffo_est_q48 p1 = ffo_est_q48 priv"
      using inv False True by (auto simp: p1_def reset_pll_def zl_inv_def htsf_resets_def)
    ultimately show ?thesis using inv False True by (simp add: zl_inv_def)
  next
    case na: False
    then show ?thesis using h by (simp add: tgd_zl_htsf_info_handler_def htsf_accepted_def)
  qed
next
  case True
  then have acc: "\<not> (devidx \<noteq> tgd_device_param p \<and> mac \<noteq> tgd_device_mac priv)"
    and nr: "\<not> ((initDone priv \<and> PLL_RESET_TIME_US < rxs - last_rxStartUs priv) \<or> tgd_device priv \<noteq> tgd_device_param p)"
    and i: "initDone priv" by (auto simp: htsf_accepted_def htsf_resets_def)
  obtain ffo p2 where f: "tgd_zl_get_freq_offset p (rxs - last_rxStartUs priv) (txRxDiffInit priv - diff) priv
      = (ffo, p2)" by fastforce
  have d: "rxs - last_rxStartUs priv \<le> PLL_RESET_TIME_US" using nr i by (simp add: not_less)
  note ff = freq_offset_pi [OF d _ _ _ f]
  have e2: "\<bar>sint (ffo_est_q48 p2)\<bar> \<le> EST_MAX" "p2 = priv\<lparr>ffo_est_q48 := ffo_est_q48 p2\<rparr>"
    using ff(3,4) inv g by (simp_all add: zl_inv_def gains_ok_def)
  have p2: "htsf_rx_count p2 = htsf_rx_count priv" "tgd_device p2 = tgd_device priv"
    "tgd_device_mac p2 = tgd_device_mac priv" "initDone p2" by (subst e2(2), simp add: i)+
  obtain r p3 where s: "tgd_zl_send_offset io (synce_dpll_index p2) (- ffo) p2 = (r, p3)" by fastforce
  note sf = send_offset_frame [OF s]
  let ?p4 = "p3\<lparr>last_rxStartUs := rxs, last_htsf_ns := now\<rparr>"
  have "priv' = (if htsf_rx_count ?p4 \<le> PLL_LOCK_COUNT then ?p4\<lparr>htsf_rx_count := htsf_rx_count ?p4 + 1\<rparr> else ?p4)"
    using h unfolding tgd_zl_htsf_info_handler_def Let_def if_not_P [OF acc] if_not_P [OF nr]
    by (simp add: i f s)
  moreover have "htsf_rx_count priv + 1 \<le> PLL_LOCK_COUNT + 1" if "htsf_rx_count priv \<le> PLL_LOCK_COUNT"
    using that by (simp add: word_le_nat_alt unat_word_ariths)
  ultimately show ?thesis
    using True e2(1) p2 sf nr inv by (simp add: zl_inv_def)
qed

section \<open>The chip's registers\<close>

text \<open>
  What the driver relies on of the chip, read from the register accesses of the driver: page
  register 0x7f selects which 128 registers the other addresses reach, a transfer that reports an
  error changes nothing, and the mailbox semaphore (0x604) is the one register the chip itself
  changes. \<open>regs\<close> and \<open>page\<close> read the registers and the page out of the chip's state.
\<close>

definition zl_addr :: "u8 \<Rightarrow> u8 \<Rightarrow> nat" where
  "zl_addr pg r = unat pg * 128 + unat r"

definition same_regs :: "(nat \<Rightarrow> u8) \<Rightarrow> (nat \<Rightarrow> u8) \<Rightarrow> bool" where
  "same_regs f g \<longleftrightarrow> (\<forall>a. a \<noteq> 0x604 \<longrightarrow> f a = g a)"

definition i2c_ok :: "'d i2c_ops \<Rightarrow> ('d \<Rightarrow> nat \<Rightarrow> u8) \<Rightarrow> ('d \<Rightarrow> u8) \<Rightarrow> bool" where
  "i2c_ok io regs page \<longleftrightarrow>
     (\<forall>v d r d'. write_byte_data io ZL_REG_PAGE_SEL v d = (r, d') \<longrightarrow>
        same_regs (regs d') (regs d) \<and> page d' = (if r < 0 then page d else v))
     \<and> (\<forall>a v d r d'. a < 0x7f \<longrightarrow> write_byte_data io a v d = (r, d') \<longrightarrow> page d' = page d
          \<and> same_regs (regs d') (if r < 0 then regs d else (regs d)(zl_addr (page d) a := v)))
     \<and> (\<forall>a d r d'. read_byte_data io a d = (r, d') \<longrightarrow> page d' = page d \<and> same_regs (regs d') (regs d)
          \<and> (0 \<le> r \<and> zl_addr (page d) a \<noteq> 0x604 \<longrightarrow> r = uint (regs d (zl_addr (page d) a))))
     \<and> (\<forall>a d r d'. read_word_data io a d = (r, d') \<longrightarrow> page d' = page d \<and> same_regs (regs d') (regs d)
          \<and> (0 \<le> r \<longrightarrow> r = uint (regs d (zl_addr (page d) a)) + 256 * uint (regs d (Suc (zl_addr (page d) a)))))
     \<and> (\<forall>a bs d r d'. unat a + length bs \<le> 0x7f \<longrightarrow> write_block_data io a bs d = (r, d') \<longrightarrow> page d' = page d
          \<and> same_regs (regs d') (if r < 0 then regs d else
              (\<lambda>x. if zl_addr (page d) a \<le> x \<and> x < zl_addr (page d) a + length bs
                   then bs ! (x - zl_addr (page d) a) else regs d x)))"

lemma same_regs_trans: "same_regs f g \<Longrightarrow> same_regs g h \<Longrightarrow> same_regs f h"
  by (simp add: same_regs_def)

lemma i2c_okD:
  assumes ok: "i2c_ok io regs page"
  shows "write_byte_data io ZL_REG_PAGE_SEL v d = (r, d') \<Longrightarrow>
      same_regs (regs d') (regs d) \<and> page d' = (if r < 0 then page d else v)"
    and "\<lbrakk>a < 0x7f; write_byte_data io a v d = (r, d')\<rbrakk> \<Longrightarrow> page d' = page d
      \<and> same_regs (regs d') (if r < 0 then regs d else (regs d)(zl_addr (page d) a := v))"
    and "read_byte_data io a d = (r, d') \<Longrightarrow> page d' = page d \<and> same_regs (regs d') (regs d)
      \<and> (0 \<le> r \<and> zl_addr (page d) a \<noteq> 0x604 \<longrightarrow> r = uint (regs d (zl_addr (page d) a)))"
    and "\<lbrakk>unat a + length bs \<le> 0x7f; write_block_data io a bs d = (r, d')\<rbrakk> \<Longrightarrow> page d' = page d
      \<and> same_regs (regs d') (if r < 0 then regs d else
          (\<lambda>x. if zl_addr (page d) a \<le> x \<and> x < zl_addr (page d) a + length bs
               then bs ! (x - zl_addr (page d) a) else regs d x))"
  by (rule ok [unfolded i2c_ok_def, THEN conjunct1, rule_format], assumption,
      rule ok [unfolded i2c_ok_def, THEN conjunct2, THEN conjunct1, rule_format], assumption+,
      rule ok [unfolded i2c_ok_def, THEN conjunct2, THEN conjunct2, THEN conjunct1, rule_format], assumption,
      rule ok [unfolded i2c_ok_def, THEN conjunct2, THEN conjunct2, THEN conjunct2, THEN conjunct2, rule_format],
      assumption+)

lemma write_reg8_ok:
  assumes ok: "i2c_ok io regs page" and w: "tgd_zl_write_reg8 io reg v d = (r, d')" and r: "0 \<le> r"
    and a: "reg_in_page reg < 0x7f"
  shows "same_regs (regs d') ((regs d)(zl_addr (ucast (drop_bit 7 reg)) (reg_in_page reg) := v))"
proof -
  obtain r1 d1 where p: "write_byte_data io ZL_REG_PAGE_SEL (ucast (drop_bit 7 reg)) d = (r1, d1)" by fastforce
  with w r have r1: "0 \<le> r1" "write_byte_data io (reg_in_page reg) v d1 = (r, d')"
    by (auto simp: tgd_zl_write_reg8_def tgd_zl_page_sel_def chk_def split: if_splits)
  have s1: "same_regs (regs d1) (regs d)" "page d1 = ucast (drop_bit 7 reg)"
    using i2c_okD(1) [OF ok p] r1(1) by simp_all
  have "same_regs (regs d') ((regs d1)(zl_addr (page d1) (reg_in_page reg) := v))"
    using i2c_okD(2) [OF ok a r1(2)] r by simp
  with s1 show ?thesis by (auto simp: same_regs_def)
qed

lemma write_block_ok:
  assumes ok: "i2c_ok io regs page" and r: "0 \<le> r" and a: "unat (reg_in_page reg) + length bs \<le> 0x7f"
    and w: "chk (tgd_zl_page_sel io reg d) (\<lambda>_ d1. write_block_data io (reg_in_page reg) bs d1) = (r, d')"
    and A: "A = zl_addr (ucast (drop_bit 7 reg)) (reg_in_page reg)"
  shows "same_regs (regs d') (\<lambda>x. if A \<le> x \<and> x < A + length bs then bs ! (x - A) else regs d x)"
proof -
  obtain r1 d1 where p: "write_byte_data io ZL_REG_PAGE_SEL (ucast (drop_bit 7 reg)) d = (r1, d1)" by fastforce
  with w r have r1: "0 \<le> r1" "write_block_data io (reg_in_page reg) bs d1 = (r, d')"
    by (auto simp: tgd_zl_page_sel_def chk_def split: if_splits)
  have s1: "same_regs (regs d1) (regs d)" "page d1 = ucast (drop_bit 7 reg)"
    using i2c_okD(1) [OF ok p] r1(1) by simp_all
  have "same_regs (regs d') (if r < 0 then regs d1 else
      (\<lambda>x. if zl_addr (page d1) (reg_in_page reg) \<le> x \<and> x < zl_addr (page d1) (reg_in_page reg) + length bs
           then bs ! (x - zl_addr (page d1) (reg_in_page reg)) else regs d1 x))"
    using i2c_okD(4) [OF ok a r1(2)] by blast
  then have "same_regs (regs d') (\<lambda>x. if A \<le> x \<and> x < A + length bs then bs ! (x - A) else regs d1 x)"
    unfolding A s1(2) using r by simp
  with s1(1) show ?thesis by (simp add: same_regs_def)
qed

lemma read_reg8_ok:
  assumes ok: "i2c_ok io regs page" and w: "tgd_zl_read_reg8 io reg d = (r, d')"
  shows "same_regs (regs d') (regs d)"
proof -
  obtain r1 d1 where p: "write_byte_data io ZL_REG_PAGE_SEL (ucast (drop_bit 7 reg)) d = (r1, d1)" by fastforce
  have s1: "same_regs (regs d1) (regs d)" using i2c_okD(1) [OF ok p] by blast
  consider "d' = d1" | "read_byte_data io (reg_in_page reg) d1 = (r, d')"
    using w p by (auto simp: tgd_zl_read_reg8_def tgd_zl_page_sel_def chk_def split: if_splits)
  then show ?thesis
  proof cases
    case 2
    then have "same_regs (regs d') (regs d1)" using i2c_okD(3) [OF ok] by blast
    with s1 show ?thesis using same_regs_trans by blast
  qed (use s1 in simp)
qed

lemma mailbox_wait_ok:
  assumes "i2c_ok io regs page" and "tgd_zl_dpll_mailbox_wait io d = (r, d')"
  shows "same_regs (regs d') (regs d)"
proof -
  obtain r1 d1 where p: "tgd_zl_read_reg8 io ZL_REG_DPLL_MB_SEM d = (r1, d1)" by fastforce
  then have "d' = d1" using assms(2) by (simp add: tgd_zl_dpll_mailbox_wait_def split: if_splits)
  then show ?thesis using read_reg8_ok [OF assms(1) p] by simp
qed

lemma chk_nonneg:
  assumes "chk m f = (r, d')" and "0 \<le> r"
  obtains r1 d1 where "m = (r1, d1)" "0 \<le> r1" "f r1 d1 = (r, d')"
  using assms by (cases m) (auto simp: chk_def split: if_splits)

text \<open>The register contents after a successful configuration of a DPLL.\<close>

definition dpll_config_regs :: "int \<Rightarrow> u8 \<Rightarrow> u16 \<Rightarrow> (nat \<Rightarrow> u8) \<Rightarrow> nat \<Rightarrow> u8" where
  "dpll_config_regs dpll bw psl f =
     f(0x602 := 0, 0x603 := push_bit (nat dpll) 1, 0x605 := 7, 0x606 := bw,
       0x608 := ucast (drop_bit 8 psl), 0x609 := ucast psl)"

lemma be_bytes_2: "be_bytes 2 v = [ucast (drop_bit 8 v), ucast v]"
  by (simp add: be_bytes_def upt_rec)

lemma u16_bytes:
  "(ucast (drop_bit 8 (ucast (ucast (w :: u16) :: u32) :: u64)) :: u8) = ucast (drop_bit 8 w)"
  "(ucast (ucast (ucast (w :: u16) :: u32) :: u64) :: u8) = ucast w"
  by (rule bit_word_eqI, simp add: bit_simps, rule bit_word_eqI, simp add: bit_simps)

lemma set_dpll_config_ok:
  assumes ok: "i2c_ok io regs page" and d: "dpll = 0 \<or> dpll = 1"
    and c: "tgd_zl_set_dpll_config io dpll bw psl d0 = (r, d')" and r: "0 \<le> r"
  shows "same_regs (regs d') (dpll_config_regs dpll bw psl (regs d0))"
proof -
  obtain r1 d1 r2 d2 r3 d3 r4 d4 r5 d5 r6 d6 r7 d7 where
    s: "tgd_zl_write_reg16 io ZL_REG_DPLL_MB_MASK (push_bit (nat dpll) 1) d0 = (r1, d1)" "0 \<le> r1"
      "tgd_zl_write_reg8 io ZL_REG_DPLL_MB_SEM 2 d1 = (r2, d2)" "0 \<le> r2"
      "tgd_zl_dpll_mailbox_wait io d2 = (r3, d3)" "0 \<le> r3"
      "tgd_zl_write_reg8 io ZL_REG_DPLL_BW_FIXED 7 d3 = (r4, d4)" "0 \<le> r4"
      "tgd_zl_write_reg8 io ZL_REG_DPLL_BW_VAR bw d4 = (r5, d5)" "0 \<le> r5"
      "tgd_zl_write_reg16 io ZL_REG_DPLL_PSL (ucast psl) d5 = (r6, d6)" "0 \<le> r6"
      "tgd_zl_write_reg8 io ZL_REG_DPLL_MB_SEM 1 d6 = (r7, d7)" "0 \<le> r7"
      "tgd_zl_dpll_mailbox_wait io d7 = (r, d')"
    using c r unfolding tgd_zl_set_dpll_config_def
    by (elim chk_nonneg) (auto elim!: chk_nonneg)
  have w1: "same_regs (regs d1) ((regs d0)(0x602 := 0, 0x603 := push_bit (nat dpll) 1))"
    using write_block_ok [OF ok s(2) _ s(1) [unfolded tgd_zl_write_reg16_def] refl] d
    by (auto simp: same_regs_def be_bytes_2 reg_in_page_def zl_addr_def fun_eq_iff less_Suc_eq)
  have w2: "same_regs (regs d2) (regs d1)"
    using write_reg8_ok [OF ok s(3,4)] by (simp add: same_regs_def reg_in_page_def zl_addr_def)
  have w3: "same_regs (regs d3) (regs d2)" by (rule mailbox_wait_ok [OF ok s(5)])
  have w4: "same_regs (regs d4) ((regs d3)(0x605 := 7))"
    using write_reg8_ok [OF ok s(7,8)] by (simp add: reg_in_page_def zl_addr_def)
  have w5: "same_regs (regs d5) ((regs d4)(0x606 := bw))"
    using write_reg8_ok [OF ok s(9,10)] by (simp add: reg_in_page_def zl_addr_def)
  have w6: "same_regs (regs d6) ((regs d5)(0x608 := ucast (drop_bit 8 psl), 0x609 := ucast psl))"
    using write_block_ok [OF ok s(12) _ s(11) [unfolded tgd_zl_write_reg16_def] refl]
    by (auto simp: same_regs_def be_bytes_2 u16_bytes reg_in_page_def zl_addr_def fun_eq_iff less_Suc_eq)
  have w7: "same_regs (regs d7) (regs d6)"
    using write_reg8_ok [OF ok s(13,14)] by (simp add: same_regs_def reg_in_page_def zl_addr_def)
  have w8: "same_regs (regs d') (regs d7)" by (rule mailbox_wait_ok [OF ok s(15)])
  show ?thesis
    using w1 w2 w3 w4 w5 w6 w7 w8 by (simp add: same_regs_def dpll_config_regs_def)
qed

section \<open>The driver as a transition system\<close>

inductive zl_step :: "'d i2c_ops \<Rightarrow> zl_params \<Rightarrow> 'd zl_priv \<Rightarrow> 'd zl_priv \<Rightarrow> bool" for io p where
  step_htsf: "tgd_zl_htsf_info_handler io p devidx mac diff rxs now priv = priv' \<Longrightarrow> zl_step io p priv priv'"
| step_zl_ioctl: "tgd_zl_ioctl io cmd arg now priv = (r, out, priv') \<Longrightarrow> zl_step io p priv priv'"

inductive zl_reach :: "'d i2c_ops \<Rightarrow> zl_params \<Rightarrow> 'd zl_priv \<Rightarrow> bool" for io p where
  reach_probe: "tgd_zl_probe io p func_ok alloc_ok d = (r, d', Some priv) \<Longrightarrow> zl_reach io p priv"
| reach_zl_step: "\<lbrakk>zl_reach io p priv; zl_step io p priv priv'\<rbrakk> \<Longrightarrow> zl_reach io p priv'"

lemma zl_inv_upd [simp]:
  "zl_inv (priv\<lparr>client := d\<rparr>) = zl_inv priv" "zl_inv (priv\<lparr>synce_dpll_mode := m\<rparr>) = zl_inv priv"
  "zl_inv (priv\<lparr>tgd_device_mac := a\<rparr>) = zl_inv priv"
  by (simp_all add: zl_inv_def)

lemma zl_inv_reset: "zl_inv priv \<Longrightarrow> zl_inv (reset_pll priv)"
  by (simp add: zl_inv_def reset_pll_def)

lemma get_locked_frame: "zl_get_locked io now priv = (x, priv') \<Longrightarrow> priv' = priv\<lparr>client := client priv'\<rparr>"
  by (auto simp: zl_get_locked_def Let_def split: if_splits prod.splits)

lemma inv_zl_ioctl:
  assumes "zl_inv priv" and "tgd_zl_ioctl io cmd arg now priv = (r, out, priv')"
  shows "zl_inv priv'"
proof -
  have "zl_inv p1" if "zl_get_locked io now priv = (x, p1)" for x p1
    using get_locked_frame [OF that] assms(1) zl_inv_upd(1) by metis
  then show ?thesis
    using assms
    by (auto simp: tgd_zl_ioctl_def Let_def zl_inv_reset split: if_splits prod.splits option.splits sum.splits)
qed

lemma inv_zl_step:
  assumes "gains_ok p" and "zl_step io p priv priv'" and "zl_inv priv"
  shows "zl_inv priv'"
  using assms(2)
proof cases
  case (step_htsf devidx mac diff rxs now)
  from handler_cases [OF assms(1,3) this] assms(3) show ?thesis by (auto split: if_splits)
next
  case (step_zl_ioctl cmd arg now r out)
  then show ?thesis using inv_zl_ioctl [OF assms(3)] by blast
qed

lemma reach_zl_inv:
  assumes "gains_ok p" and "zl_reach io p priv"
  shows "zl_inv priv"
  using assms(2)
proof induction
  case (reach_probe func_ok alloc_ok d r d' priv)
  then show ?case
    by (auto simp: tgd_zl_probe_def zl_inv_def zero_priv_def Let_def split: if_splits prod.splits)
qed (use inv_zl_step [OF assms(1)] in blast)

text \<open>A run of messages from the selected radio: time difference, receive time and clock.\<close>

primrec htsf_run ::
  "'d i2c_ops \<Rightarrow> zl_params \<Rightarrow> u64 \<Rightarrow> (u32 \<times> u32 \<times> u64) list \<Rightarrow> 'd zl_priv \<Rightarrow> 'd zl_priv" where
  "htsf_run io p mac [] priv = priv"
| "htsf_run io p mac (m # ms) priv =
     htsf_run io p mac ms (tgd_zl_htsf_info_handler io p (- 2) mac (fst m) (fst (snd m)) (snd (snd m)) priv)"

primrec gaps_ok :: "u32 \<Rightarrow> (u32 \<times> u32 \<times> u64) list \<Rightarrow> bool" where
  "gaps_ok prev [] = True"
| "gaps_ok prev (m # ms) \<longleftrightarrow> fst (snd m) - prev \<le> PLL_RESET_TIME_US \<and> gaps_ok (fst (snd m)) ms"

lemma htsf_run_count:
  assumes g: "gains_ok p"
  shows "\<lbrakk>zl_inv priv; initDone priv; tgd_device priv = tgd_device_param p; tgd_device_mac priv = mac;
      gaps_ok (last_rxStartUs priv) ms\<rbrakk> \<Longrightarrow>
     unat (htsf_rx_count (htsf_run io p mac ms priv)) = min (unat (htsf_rx_count priv) + length ms) 391
     \<and> tgd_device_mac (htsf_run io p mac ms priv) = mac"
proof (induction ms arbitrary: priv)
  case Nil
  then have "unat (htsf_rx_count priv) \<le> 391" by (simp add: zl_inv_def word_le_nat_alt)
  then show ?case using Nil by simp
next
  case (Cons m ms)
  obtain q where q: "tgd_zl_htsf_info_handler io p (- 2) mac (fst m) (fst (snd m)) (snd (snd m)) priv = q" by simp
  have "htsf_accepted p (- 2) mac priv" "\<not> htsf_resets p (fst (snd m)) priv"
    using Cons.prems by (auto simp: htsf_accepted_def htsf_resets_def not_less)
  with handler_cases [OF g Cons.prems(1) q] Cons.prems(2,4)
  have q': "zl_inv q" "initDone q" "last_rxStartUs q = fst (snd m)" "tgd_device q = tgd_device_param p"
    "tgd_device_mac q = mac"
    "htsf_rx_count q = (if htsf_rx_count priv \<le> PLL_LOCK_COUNT then htsf_rx_count priv + 1 else htsf_rx_count priv)"
    by auto
  have c: "unat (htsf_rx_count q) = min (unat (htsf_rx_count priv) + 1) 391"
  proof -
    have "unat (htsf_rx_count priv) \<le> 391" using Cons.prems(1) by (simp add: zl_inv_def word_le_nat_alt)
    then show ?thesis by (auto simp: q'(6) word_le_nat_alt unat_word_ariths)
  qed
  have "gaps_ok (last_rxStartUs q) ms" using Cons.prems(5) q'(3) by simp
  from Cons.IH [OF q'(1,2,4,5) this] c show ?case by (simp add: q)
qed

lemma handler_mode:
  "synce_dpll_mode (tgd_zl_htsf_info_handler io p devidx mac diff rxs now priv) = synce_dpll_mode priv"
proof -
  have f: "synce_dpll_mode p2 = synce_dpll_mode q" if "tgd_zl_get_freq_offset p a b q = (x, p2)" for a b q x p2
    using that by (auto simp: tgd_zl_get_freq_offset_def Let_def split: prod.splits)
  have s: "synce_dpll_mode p2 = synce_dpll_mode q" if "tgd_zl_send_offset io a b q = (x, p2)" for a b q x p2
    using send_offset_frame(7) [OF that] .
  show ?thesis
    by (auto simp: tgd_zl_htsf_info_handler_def Let_def reset_pll_def split: prod.splits dest!: f s)
qed

lemma htsf_run_mode: "synce_dpll_mode (htsf_run io p mac ms priv) = synce_dpll_mode priv"
  by (induction ms arbitrary: priv) (simp_all add: handler_mode)

lemma handler_last:
  assumes "tgd_device_mac priv = mac"
  shows "last_htsf_ns (tgd_zl_htsf_info_handler io p devidx mac diff rxs now priv) = now"
    and "tgd_device_mac (tgd_zl_htsf_info_handler io p devidx mac diff rxs now priv) = mac"
proof -
  have f: "tgd_device_mac p2 = tgd_device_mac q" if "tgd_zl_get_freq_offset p a b q = (x, p2)" for a b q x p2
    using that by (auto simp: tgd_zl_get_freq_offset_def Let_def split: prod.splits)
  have s: "tgd_device_mac p2 = tgd_device_mac q" if "tgd_zl_send_offset io a b q = (x, p2)" for a b q x p2
    using send_offset_frame(4) [OF that] .
  show "last_htsf_ns (tgd_zl_htsf_info_handler io p devidx mac diff rxs now priv) = now"
    "tgd_device_mac (tgd_zl_htsf_info_handler io p devidx mac diff rxs now priv) = mac"
    using assms by (auto simp: tgd_zl_htsf_info_handler_def Let_def reset_pll_def split: prod.splits dest!: f s)
qed

lemma htsf_run_last:
  "\<lbrakk>tgd_device_mac priv = mac; ms \<noteq> []\<rbrakk> \<Longrightarrow> last_htsf_ns (htsf_run io p mac ms priv) = snd (snd (last ms))"
proof (induction ms arbitrary: priv)
  case (Cons m ms)
  then show ?case
    using handler_last [OF Cons.prems(1)] by (cases "ms = []") simp_all
qed simp

section \<open>A chip\<close>

record zl_chip =
  chip_page :: u8
  chip_regs :: "nat \<Rightarrow> u8"

definition sample_i2c :: "zl_chip i2c_ops" where
  "sample_i2c =
     \<lparr>write_byte_data = (\<lambda>a v c. (0, if a = ZL_REG_PAGE_SEL then c\<lparr>chip_page := v\<rparr>
        else c\<lparr>chip_regs := (chip_regs c)(zl_addr (chip_page c) a :=
                 if zl_addr (chip_page c) a = 0x604 then 0 else v)\<rparr>)),
      read_byte_data = (\<lambda>a c. (uint (chip_regs c (zl_addr (chip_page c) a)), c)),
      read_word_data = (\<lambda>a c. (uint (chip_regs c (zl_addr (chip_page c) a))
        + 256 * uint (chip_regs c (Suc (zl_addr (chip_page c) a))), c)),
      write_block_data = (\<lambda>a bs c. (0, c\<lparr>chip_regs := (\<lambda>x.
        if zl_addr (chip_page c) a \<le> x \<and> x < zl_addr (chip_page c) a + length bs
        then bs ! (x - zl_addr (chip_page c) a) else chip_regs c x)\<rparr>))\<rparr>"

lemma sample_i2c_ok: "i2c_ok sample_i2c chip_regs chip_page"
  by (auto simp: i2c_ok_def sample_i2c_def same_regs_def)

definition sample_chip :: zl_chip where
  "sample_chip = \<lparr>chip_page = 0, chip_regs = (\<lambda>_. 0)(1 := 0x0e, 2 := 0xd1)\<rparr>"

definition sample_priv :: "zl_chip zl_priv" where
  "sample_priv = (zero_priv sample_chip)\<lparr>tgd_device := - 1, synce_dpll_mode := ZL_DPLL_MODE_NCO,
     synce_dpll_index := 1, tgd_device_mac := 0xabc\<rparr>"

lemma sample_gains: "gains_ok default_params" by (simp add: gains_ok_def default_params_def)

lemma sample_priv_ok: "zl_inv sample_priv" "\<not> initDone sample_priv" "tgd_device sample_priv = tgd_device_param default_params"
  "tgd_device_mac sample_priv = 0xabc" "synce_dpll_mode sample_priv = ZL_DPLL_MODE_NCO"
  by (simp_all add: zl_inv_def sample_priv_def zero_priv_def default_params_def)

section \<open>Properties\<close>

text \<open>C13. The loop filter. With the default gains and an interval of at most one second, the 64-bit
  arithmetic of \<open>tgd_zl_get_freq_offset\<close> never overflows and is one step of a saturating
  proportional-integral controller with anti-windup: the offset is within 7.5 parts per million
  and the integrator stays within the bound the next step needs.\<close>

theorem zl_loop_filter:
  assumes "delta \<le> PLL_RESET_TIME_US" and "\<bar>sint (ffo_est_q48 priv)\<bar> \<le> EST_MAX"
    and "pll_kp p = word_of_int PLL_KP" and "pll_ki p = word_of_int PLL_KI"
    and "tgd_zl_get_freq_offset p delta x priv = (out, priv')"
  shows "(sint out, sint (ffo_est_q48 priv'))
           = pi_step PLL_MAX_FFO PLL_KP (PLL_KI * uint delta * 1099512 div 2 ^ 40) (sint x) (sint (ffo_est_q48 priv))
       \<and> \<bar>sint out\<bar> \<le> PLL_MAX_FFO \<and> \<bar>sint (ffo_est_q48 priv')\<bar> \<le> EST_MAX"
  using freq_offset_pi [OF assms] by (simp add: ki_of_def)

theorem zl_loop_filter_witness:
  "sint (fst (tgd_zl_get_freq_offset default_params 25600 (word_of_int (- 2000)) sample_priv)) = - 2111062325"
proof -
  obtain out priv' where f: "tgd_zl_get_freq_offset default_params 25600 (word_of_int (- 2000)) sample_priv
      = (out, priv')" by fastforce
  have "sint (word_of_int (- 2000) :: u32) = - 2000" by simp
  with zl_loop_filter [OF _ _ _ _ f] f show ?thesis
    by (simp add: default_params_def sample_priv_def zero_priv_def pi_step_def)
qed

text \<open>In every state the driver reaches, by radio messages and ioctl calls in any order, the
  integrator is within its bound, so no message can overflow the filter, and the message counter
  is at most one above the lock threshold and zero until a phase reference is set.\<close>

theorem zl_reachable_inv:
  assumes "pll_kp p = word_of_int PLL_KP" and "pll_ki p = word_of_int PLL_KI" and "zl_reach io p priv"
  shows "\<bar>sint (ffo_est_q48 priv)\<bar> \<le> EST_MAX \<and> htsf_rx_count priv \<le> 391
       \<and> (\<not> initDone priv \<longrightarrow> htsf_rx_count priv = 0)"
  using reach_zl_inv [OF _ assms(3)] assms(1,2) by (simp add: gains_ok_def zl_inv_def)

text \<open>Lock is reported after exactly 392 messages: the first sets the phase reference, and with
  no gap above one second between messages the count then grows by one each until 391, which is
  when \<open>ZL_IOCTL_GET_LOCKED\<close> answers 1 in NCO mode, as long as the last one is under a second old.\<close>

theorem zl_lock_acquired:
  assumes "gains_ok p" and "zl_inv priv" and "\<not> initDone priv" and "tgd_device priv = tgd_device_param p"
    and "tgd_device_mac priv = mac" and "mac \<noteq> 0" and "synce_dpll_mode priv = ZL_DPLL_MODE_NCO"
    and "gaps_ok (fst (snd m)) ms"
    and "now - snd (snd (last (m # ms))) < 1000000 * 1000"
  shows "unat (htsf_rx_count (htsf_run io p mac (m # ms) priv)) = min (length ms) 391
       \<and> fst (zl_get_locked io now (htsf_run io p mac (m # ms) priv)) = Inr (391 \<le> length ms)"
proof -
  obtain q where q: "tgd_zl_htsf_info_handler io p (- 2) mac (fst m) (fst (snd m)) (snd (snd m)) priv = q" by simp
  have "htsf_accepted p (- 2) mac priv" using assms(5) by (simp add: htsf_accepted_def)
  with handler_cases [OF assms(1,2) q] assms(3,5)
  have q': "zl_inv q" "initDone q" "last_rxStartUs q = fst (snd m)" "tgd_device q = tgd_device_param p"
    "tgd_device_mac q = mac" "htsf_rx_count q = 0" by auto
  from htsf_run_count [OF assms(1) q'(1,2,4,5), of ms io] assms(8) q'(3,6)
  have c: "unat (htsf_rx_count (htsf_run io p mac ms q)) = min (length ms) 391"
    "tgd_device_mac (htsf_run io p mac ms q) = mac" by auto
  have "synce_dpll_mode (htsf_run io p mac ms q) = ZL_DPLL_MODE_NCO"
    using assms(7) unfolding htsf_run_mode q [symmetric] handler_mode .
  moreover have "last_htsf_ns (htsf_run io p mac ms q) = snd (snd (last (m # ms)))"
    using htsf_run_last [OF assms(5), of "m # ms" io p] q by simp
  ultimately show ?thesis using c assms(6,9) by (auto simp: zl_get_locked_def q word_less_nat_alt)
qed

lemma gaps_replicate: "gaps_ok t (replicate n (d, t, k))"
  by (induction n) simp_all

theorem zl_lock_acquired_witness:
  "fst (zl_get_locked sample_i2c 1000
       (htsf_run sample_i2c default_params 0xabc (replicate 392 (0, 5, 1000)) sample_priv)) = Inr True"
proof -
  have "replicate 392 (0, 5, 1000) = (0, 5, 1000) # replicate 391 (0 :: u32, 5 :: u32, 1000 :: u64)"
    by (simp add: numeral_eq_Suc)
  moreover have "last ((0, 5, 1000) # replicate 391 (0 :: u32, 5 :: u32, 1000 :: u64)) = (0, 5, 1000)" by simp
  ultimately show ?thesis
    using zl_lock_acquired [OF sample_gains sample_priv_ok(1-4) _ sample_priv_ok(5),
        of "(0, 5, 1000)" "replicate 391 (0, 5, 1000)" 1000 sample_i2c] gaps_replicate
    by simp
qed

lemma sample_writes:
  "\<exists>d'. tgd_zl_write_reg8 sample_i2c r8 v8 d = (0, d')"
  "\<exists>d'. tgd_zl_write_reg16 sample_i2c r16 v16 d = (0, d')"
  "\<exists>d'. tgd_zl_write_reg32 sample_i2c r32 v32 d = (0, d')"
  by (simp_all add: tgd_zl_write_reg8_def tgd_zl_write_reg16_def tgd_zl_write_reg32_def tgd_zl_page_sel_def
      chk_def sample_i2c_def)

lemma sample_mailbox:
  "tgd_zl_write_reg8 sample_i2c ZL_REG_DPLL_MB_SEM v d = (0, d1) \<Longrightarrow>
      \<exists>d2. tgd_zl_dpll_mailbox_wait sample_i2c d1 = (0, d2)"
  by (auto simp: tgd_zl_write_reg8_def tgd_zl_dpll_mailbox_wait_def tgd_zl_read_reg8_def tgd_zl_page_sel_def
      chk_def sample_i2c_def reg_in_page_def zl_addr_def)

lemma sample_config: "\<exists>d'. tgd_zl_set_dpll_config sample_i2c dp bw psl d = (0, d')"
proof -
  obtain d1 where 1: "tgd_zl_write_reg16 sample_i2c ZL_REG_DPLL_MB_MASK (push_bit (nat dp) 1) d = (0, d1)"
    using sample_writes(2) by blast
  obtain d2 where 2: "tgd_zl_write_reg8 sample_i2c ZL_REG_DPLL_MB_SEM 2 d1 = (0, d2)" using sample_writes(1) by blast
  obtain d3 where 3: "tgd_zl_dpll_mailbox_wait sample_i2c d2 = (0, d3)" using sample_mailbox [OF 2] by blast
  obtain d4 where 4: "tgd_zl_write_reg8 sample_i2c ZL_REG_DPLL_BW_FIXED 7 d3 = (0, d4)" using sample_writes(1) by blast
  obtain d5 where 5: "tgd_zl_write_reg8 sample_i2c ZL_REG_DPLL_BW_VAR bw d4 = (0, d5)" using sample_writes(1) by blast
  obtain d6 where 6: "tgd_zl_write_reg16 sample_i2c ZL_REG_DPLL_PSL (ucast psl) d5 = (0, d6)" using sample_writes(2) by blast
  obtain d7 where 7: "tgd_zl_write_reg8 sample_i2c ZL_REG_DPLL_MB_SEM 1 d6 = (0, d7)" using sample_writes(1) by blast
  obtain d8 where 8: "tgd_zl_dpll_mailbox_wait sample_i2c d7 = (0, d8)" using sample_mailbox [OF 7] by blast
  show ?thesis by (simp add: tgd_zl_set_dpll_config_def chk_def 1 2 3 4 5 6 7 8 del: push_bit_of_1)
qed

lemma sample_probe:
  "\<exists>d' priv. tgd_zl_probe sample_i2c default_params True True sample_chip = (0, d', Some priv)"
proof -
  have id: "tgd_zl_read_reg16 sample_i2c ZL_REG_ID sample_chip = (0x0ED1, sample_chip)"
    by (simp add: tgd_zl_read_reg16_def tgd_zl_page_sel_def chk_def sample_i2c_def sample_chip_def
        reg_in_page_def zl_addr_def swap16_def)
  have sy: "\<exists>d'. tgd_zl_set_synth1_dpll sample_i2c dp d = (0, d')" for dp d
    by (simp add: tgd_zl_set_synth1_dpll_def tgd_zl_read_reg8_def tgd_zl_write_reg8_def tgd_zl_page_sel_def
        chk_def sample_i2c_def Let_def)
  obtain d1 where 1: "tgd_zl_write_reg32 sample_i2c ZL_REG_DPLL_GP_OUT_WIDTH_0 0x08f0d180 sample_chip = (0, d1)"
    using sample_writes(3) by blast
  obtain d2 where 2: "tgd_zl_set_mode sample_i2c 0 ZL_DPLL_MODE_REFLOCK_GPS d1 = (0, d2)"
    using sample_writes(1) unfolding tgd_zl_set_mode_def by blast
  obtain d3 where 3: "tgd_zl_set_dpll_config sample_i2c 0 0x4f 0x0375 d2 = (0, d3)" using sample_config by blast
  obtain d4 where 4: "tgd_zl_set_mode sample_i2c 1 ZL_DPLL_MODE_NCO d3 = (0, d4)"
    using sample_writes(1) unfolding tgd_zl_set_mode_def by blast
  obtain d5 where 5: "tgd_zl_set_dpll_config sample_i2c 1 0x96 0x1d4c d4 = (0, d5)" using sample_config by blast
  obtain d6 where 6: "tgd_zl_set_synth1_dpll sample_i2c 1 d5 = (0, d6)" using sy by blast
  have "probe_config sample_i2c 0 1 sample_chip = (0, d6)"
    by (simp add: probe_config_def chk_def 1 2 3 4 5 6)
  then show ?thesis by (simp add: tgd_zl_probe_def id default_params_def)
qed

theorem zl_reachable_inv_witness:
  "\<exists>priv. zl_reach sample_i2c default_params priv \<and> htsf_rx_count priv \<le> 391"
proof -
  from sample_probe obtain d' priv
    where "tgd_zl_probe sample_i2c default_params True True sample_chip = (0, d', Some priv)" by blast
  from reach_probe [OF this] zl_reachable_inv [of default_params sample_i2c priv] show ?thesis
    by (auto simp: default_params_def)
qed

text \<open>Lock is lost at once when the selected radio changes: by a message after a gap of more
  than one second, or by selecting another MAC address with \<open>ZL_IOCTL_SET_DEVICE\<close>.\<close>

theorem zl_lock_lost:
  assumes "gains_ok p" and "zl_inv priv" and "synce_dpll_mode priv = ZL_DPLL_MODE_NCO"
  shows "(tgd_device_mac priv = mac \<and> initDone priv \<and> PLL_RESET_TIME_US < rxs - last_rxStartUs priv
       \<longrightarrow> fst (zl_get_locked io now' (tgd_zl_htsf_info_handler io p devidx mac diff rxs now priv)) = Inr False)
    \<and> (zl_arg_mac arg = Some mac' \<and> mac' \<noteq> tgd_device_mac priv
       \<longrightarrow> (\<exists>priv'. tgd_zl_ioctl io ZL_IOCTL_SET_DEVICE arg now priv = (0, None, priv')
          \<and> fst (zl_get_locked io now' priv') = Inr False))"
proof (intro conjI impI)
  assume a: "tgd_device_mac priv = mac \<and> initDone priv \<and> PLL_RESET_TIME_US < rxs - last_rxStartUs priv"
  obtain q where q: "tgd_zl_htsf_info_handler io p devidx mac diff rxs now priv = q" by simp
  have "htsf_accepted p devidx mac priv" "htsf_resets p rxs priv"
    using a by (auto simp: htsf_accepted_def htsf_resets_def)
  with handler_cases [OF assms(1,2) q] have "htsf_rx_count q = 0" by simp
  moreover have "synce_dpll_mode q = ZL_DPLL_MODE_NCO" unfolding q [symmetric] handler_mode by (rule assms(3))
  ultimately show "fst (zl_get_locked io now' (tgd_zl_htsf_info_handler io p devidx mac diff rxs now priv)) = Inr False"
    by (simp add: q zl_get_locked_def)
next
  assume "zl_arg_mac arg = Some mac' \<and> mac' \<noteq> tgd_device_mac priv"
  then show "\<exists>priv'. tgd_zl_ioctl io ZL_IOCTL_SET_DEVICE arg now priv = (0, None, priv')
          \<and> fst (zl_get_locked io now' priv') = Inr False"
    using assms(3)
    by (auto simp: tgd_zl_ioctl_def reset_pll_def zl_get_locked_def ZL_IOCTL_SET_MODE_def ZL_IOCTL_SET_DEVICE_def zl_ioc_def)
qed

theorem zl_lock_lost_witness:
  "\<exists>priv'. tgd_zl_ioctl sample_i2c ZL_IOCTL_SET_DEVICE \<lparr>zl_arg_val = 0, zl_arg_mac = Some 7, zl_arg_writable = True\<rparr>
       0 sample_priv = (0, None, priv') \<and> fst (zl_get_locked sample_i2c 0 priv') = Inr False"
  using zl_lock_lost [OF sample_gains sample_priv_ok(1,5), where io = sample_i2c and mac' = 7 and now = 0 and now' = 0
      and arg = "\<lparr>zl_arg_val = 0, zl_arg_mac = Some 7, zl_arg_writable = True\<rparr>"] sample_priv_ok(4) by simp

text \<open>A DPLL configuration that reports success has written exactly the mailbox mask of that DPLL,
  the variable-bandwidth selector, the bandwidth and the phase-slope limit, big-endian, and no
  other register of the chip.\<close>

theorem zl_set_dpll_config_registers:
  assumes "i2c_ok io regs page" and "dpll = 0 \<or> dpll = 1"
    and "tgd_zl_set_dpll_config io dpll bw psl d = (r, d')" and "0 \<le> r" and "a \<noteq> 0x604"
  shows "regs d' a = (if a = 0x602 then 0 else if a = 0x603 then (if dpll = 0 then 1 else 2)
     else if a = 0x605 then 7 else if a = 0x606 then bw
     else if a = 0x608 then ucast (drop_bit 8 psl) else if a = 0x609 then ucast psl else regs d a)"
  using set_dpll_config_ok [OF assms(1-4)] assms(2,5) by (auto simp: same_regs_def dpll_config_regs_def)

theorem zl_set_dpll_config_registers_witness:
  "\<exists>r d'. tgd_zl_set_dpll_config sample_i2c 1 0x96 0x1d4c sample_chip = (r, d') \<and> chip_regs d' 0x608 = 0x1d"
proof -
  obtain r d' where c: "tgd_zl_set_dpll_config sample_i2c 1 0x96 0x1d4c sample_chip = (r, d')" by fastforce
  have "\<exists>d'. tgd_zl_set_dpll_config sample_i2c 1 0x96 0x1d4c sample_chip = (0, d')" by (rule sample_config)
  then have "0 \<le> r" using c by auto
  from zl_set_dpll_config_registers [OF sample_i2c_ok _ c this, where a = 1544] c show ?thesis by simp
qed

text \<open>\<open>tgd_zl_send_offset\<close> never reports an error: it returns 1 when the write fails and 0 when it
  succeeds, so the caller's test for a negative result never fires; the statistics are right.\<close>

theorem zl_send_offset_result:
  "fst (tgd_zl_send_offset io dpll off priv)
     = (if fst (tgd_zl_write_reg48 io (word_of_int (0x300 + dpll * 0x20)) off (client priv)) < 0 then 1 else 0)
   \<and> nco_update_errors (snd (tgd_zl_send_offset io dpll off priv))
     = nco_update_errors priv + of_int (fst (tgd_zl_send_offset io dpll off priv))"
  by (auto simp: tgd_zl_send_offset_def Let_def split: prod.splits)

end
