(* ===== verification/SyncE.thy ===== *)
theory SyncE
  imports Esmc Zl3079x
begin

text \<open>
  The timing path of a node: the ESMC plugin of VPP decides which interface to follow, and the
  PLL driver (\<open>fb_tgd_zl3079x.c\<close>), reached through its device file, follows it. The locale
  \<open>pll_contract\<close> is what the plugin relies on of the three ioctls; its interpretation shows that
  the driver's ioctl handler provides it, whatever the I2C bus does. The lemmas of the locale give
  the agreement between the plugin's record of the PLL and the PLL itself.
\<close>

section \<open>The PLL through an update\<close>

definition prog_mac :: "vpp_env \<Rightarrow> int \<Rightarrow> u64" where
  "prog_mac env j = (if j = - 1 then 0 else mac_of (hw_address (sup_hw env (word_of_int j))))"

lemma tx_one_pll:
  "pll_dev (snd (tx_one env sw ssm ev s)) = pll_dev (snd s)
   \<and> programmed_sw_if_index (snd (tx_one env sw ssm ev s)) = programmed_sw_if_index (snd s)
   \<and> pll_mode (snd (tx_one env sw ssm ev s)) = pll_mode (snd s)
   \<and> selected_sw_if_index (snd (tx_one env sw ssm ev s)) = selected_sw_if_index (snd s)"
  by (simp add: tx_one_def esmc_tx_def Let_def split: option.splits)

lemma tx_tg_loop_pll:
  "pll_dev (snd (tx_tg_loop env hws ssm ev from s)) = pll_dev (snd s)
   \<and> programmed_sw_if_index (snd (tx_tg_loop env hws ssm ev from s)) = programmed_sw_if_index (snd s)
   \<and> pll_mode (snd (tx_tg_loop env hws ssm ev from s)) = pll_mode (snd s)
   \<and> selected_sw_if_index (snd (tx_tg_loop env hws ssm ev from s)) = selected_sw_if_index (snd s)"
  by (induction hws arbitrary: s) (simp_all add: tx_one_pll)

lemma esmc_tx_broadcast_pll:
  "pll_dev (esmc_tx_broadcast env ssm ev from em) = pll_dev em
   \<and> programmed_sw_if_index (esmc_tx_broadcast env ssm ev from em) = programmed_sw_if_index em
   \<and> pll_mode (esmc_tx_broadcast env ssm ev from em) = pll_mode em
   \<and> selected_sw_if_index (esmc_tx_broadcast env ssm ev from em) = selected_sw_if_index em"
  by (simp add: esmc_tx_broadcast_def Let_def split_def tx_one_pll tx_tg_loop_pll)

lemma update_ssm_keeps:
  "pll_dev (update_ssm env q from em) = pll_dev em"
  "programmed_sw_if_index (update_ssm env q from em) = programmed_sw_if_index em"
  "pll_mode (update_ssm env q from em) = pll_mode em"
  "selected_sw_if_index (update_ssm env q from em) = selected_sw_if_index em"
  by (simp_all add: update_ssm_def Let_def esmc_tx_broadcast_pll)

lemma update_mode_pll_mode: "pll_mode (update_mode pl m em) = m"
  using update_mode_fields [of pl m em] by auto

lemma update_mode_programmed: "programmed_sw_if_index (update_mode pl m em) = programmed_sw_if_index em"
  using update_mode_fields [of pl m em] by auto

lemma update_mode_selected: "selected_sw_if_index (update_mode pl m em) = selected_sw_if_index em"
  using update_mode_fields [of pl m em] by auto

lemma update_interface_programmed: "programmed_sw_if_index (update_interface env pl b j em) = j"
  using update_interface_fields [of env pl b j em] by auto

lemma update_interface_pll_mode: "pll_mode (update_interface env pl b j em) = pll_mode em"
  using update_interface_fields [of env pl b j em] by auto

lemma esmc_update_steps:
  "\<exists>q i m j em1. esmc_update env pl now from em = update_ssm env q from (update_mode pl m (update_interface env pl i j em1))
     \<and> pll_dev em1 = pll_dev em \<and> programmed_sw_if_index em1 = programmed_sw_if_index em
     \<and> pll_mode em1 = pll_mode em \<and> m \<noteq> - 1"
proof -
  let ?em1 = "em\<lparr>if_rx_state := map (aged now) (if_rx_state em)\<rparr>"
  obtain q i where b: "pick (map (aged now) (if_rx_state em)) 0 (0, NO_IF) = (q, i)" by fastforce
  obtain m j where mj: "pll_choice q i ?em1 = (m, j)" by fastforce
  then have "m \<noteq> - 1" by (auto simp: pll_choice_def split: if_splits)
  moreover have "esmc_update env pl now from em = update_ssm env q from (update_mode pl m (update_interface env pl i j ?em1))"
    by (simp add: esmc_update_def best_loop_pick b mj Let_def)
  ultimately show ?thesis by (intro exI [of _ q] exI [of _ i] exI [of _ m] exI [of _ j] exI [of _ ?em1]) simp
qed

section \<open>The contract of the device file\<close>

text \<open>
  Selecting a source always succeeds; it sets the source and leaves the mode. Changing the mode
  leaves the source, and sets the mode when it reports success. Reading the lock state leaves both.
\<close>

locale pll_contract =
  fixes pl :: "'p pll_ops"
    and device_mac :: "'p \<Rightarrow> u64"
    and device_mode :: "'p \<Rightarrow> u8"
  assumes opens: "pll_open pl d"
    and set_device_mac: "device_mac (snd (pll_set_device pl m d)) = m"
    and set_device_mode: "device_mode (snd (pll_set_device pl m d)) = device_mode d"
    and set_mode_mac: "device_mac (snd (pll_set_mode pl k d)) = device_mac d"
    and set_mode_mode: "fst (pll_set_mode pl k d) = 0 \<Longrightarrow> device_mode (snd (pll_set_mode pl k d)) = k"
    and get_locked_mac: "device_mac (snd (snd (pll_get_locked pl d))) = device_mac d"
    and get_locked_mode: "device_mode (snd (snd (pll_get_locked pl d))) = device_mode d"
begin

lemmas contract = opens set_device_mac set_device_mode set_mode_mac set_mode_mode get_locked_mac get_locked_mode

lemma set_pll_interface_mac: "device_mac (pll_dev (esmc_set_pll_interface pl a em)) = a"
  by (simp add: esmc_set_pll_interface_def contract)

lemma set_pll_interface_mode: "device_mode (pll_dev (esmc_set_pll_interface pl a em)) = device_mode (pll_dev em)"
  by (simp add: esmc_set_pll_interface_def contract)

lemma set_pll_mode_mac: "device_mac (pll_dev (esmc_set_pll_mode pl k em)) = device_mac (pll_dev em)"
  by (simp add: esmc_set_pll_mode_def contract)

lemma set_pll_mode_mode:
  "fst (pll_set_mode pl k (pll_dev em)) = 0 \<Longrightarrow> device_mode (pll_dev (esmc_set_pll_mode pl k em)) = k"
  by (simp add: esmc_set_pll_mode_def contract)

lemma get_pll_locked_keeps:
  "device_mac (pll_dev (snd (esmc_get_pll_locked pl em))) = device_mac (pll_dev em)
   \<and> device_mode (pll_dev (snd (esmc_get_pll_locked pl em))) = device_mode (pll_dev em)"
  using get_locked_mac [of "pll_dev em"] get_locked_mode [of "pll_dev em"]
  by (simp add: esmc_get_pll_locked_def split_def Let_def)

text \<open>The source the plugin means to have programmed.\<close>

lemma update_interface_mac:
  "device_mac (pll_dev em) = prog_mac env (programmed_sw_if_index em)
   \<Longrightarrow> device_mac (pll_dev (update_interface env pl b j em)) = prog_mac env j"
  by (auto simp: update_interface_def Let_def set_pll_interface_mac prog_mac_def)

lemma update_mode_mac: "device_mac (pll_dev (update_mode pl m em)) = device_mac (pll_dev em)"
  by (simp add: update_mode_def set_pll_mode_mac)

lemma update_interface_mode: "device_mode (pll_dev (update_interface env pl b j em)) = device_mode (pll_dev em)"
  by (simp add: update_interface_def Let_def set_pll_interface_mode)

lemma update_mode_mode:
  assumes "\<And>d. fst (pll_set_mode pl m d) = 0" and "m = pll_mode em \<Longrightarrow> device_mode (pll_dev em) = m"
  shows "device_mode (pll_dev (update_mode pl m em)) = m"
  using assms by (simp add: update_mode_def set_pll_mode_mode)

lemma esmc_update_mac:
  assumes "device_mac (pll_dev em) = prog_mac env (programmed_sw_if_index em)"
    and "em' = esmc_update env pl now from em"
  shows "device_mac (pll_dev em') = prog_mac env (programmed_sw_if_index em')"
proof -
  obtain q i m j em1 where u: "em' = update_ssm env q from (update_mode pl m (update_interface env pl i j em1))"
      and em1: "pll_dev em1 = pll_dev em" "programmed_sw_if_index em1 = programmed_sw_if_index em"
    using assms(2) esmc_update_steps by metis
  have "device_mac (pll_dev (update_interface env pl i j em1)) = prog_mac env j"
    using update_interface_mac assms(1) em1 by metis
  then show ?thesis
    by (simp add: u update_ssm_keeps update_mode_mac update_mode_programmed update_interface_programmed)
qed

lemma esmc_update_mode:
  assumes "\<And>k d. fst (pll_set_mode pl k d) = 0"
    and "pll_mode em = - 1 \<or> device_mode (pll_dev em) = pll_mode em"
    and "em' = esmc_update env pl now from em"
  shows "device_mode (pll_dev em') = pll_mode em'"
proof -
  obtain q i m j em1 where u: "em' = update_ssm env q from (update_mode pl m (update_interface env pl i j em1))"
      and em1: "pll_dev em1 = pll_dev em" "pll_mode em1 = pll_mode em" and m: "m \<noteq> - 1"
    using assms(3) esmc_update_steps by metis
  have "device_mode (pll_dev (update_mode pl m (update_interface env pl i j em1))) = m"
    by (rule update_mode_mode)
       (use assms(1,2) m em1 in \<open>auto simp: update_interface_mode update_interface_pll_mode\<close>)
  then show ?thesis by (simp add: u update_ssm_keeps update_mode_pll_mode)
qed

end

section \<open>The driver provides it\<close>

text \<open>The file operations of \<open>/dev/zl3079x\<close>: a call that fails to copy leaves \<open>val\<close> at 0.\<close>

definition zl_pll :: "'d i2c_ops \<Rightarrow> u64 \<Rightarrow> 'd zl_priv pll_ops" where
  "zl_pll io now_ns =
     \<lparr>pll_open = (\<lambda>_. True),
      pll_set_mode = (\<lambda>m d. let (r, _, d') = tgd_zl_ioctl io ZL_IOCTL_SET_MODE
                               \<lparr>zl_arg_val = ucast m, zl_arg_mac = None, zl_arg_writable = True\<rparr> now_ns d
                            in (r, d')),
      pll_set_device = (\<lambda>a d. let (r, _, d') = tgd_zl_ioctl io ZL_IOCTL_SET_DEVICE
                               \<lparr>zl_arg_val = 0, zl_arg_mac = Some a, zl_arg_writable = True\<rparr> now_ns d
                            in (r, d')),
      pll_get_locked = (\<lambda>d. let (r, v, d') = tgd_zl_ioctl io ZL_IOCTL_GET_LOCKED
                               \<lparr>zl_arg_val = 0, zl_arg_mac = None, zl_arg_writable = True\<rparr> now_ns d
                            in (r, case v of None \<Rightarrow> 0 | Some b \<Rightarrow> ucast b, d'))\<rparr>"

lemma ucast_u8_u64 [simp]: "ucast (ucast k :: u64) = (k :: u8)"
  by transfer (simp add: take_bit_take_bit)

lemma zl_ioctl_numbers [simp]:
  "ZL_IOCTL_SET_DEVICE \<noteq> ZL_IOCTL_SET_MODE" "ZL_IOCTL_GET_LOCKED \<noteq> ZL_IOCTL_SET_MODE"
  "ZL_IOCTL_GET_LOCKED \<noteq> ZL_IOCTL_SET_DEVICE"
  by (simp_all add: ZL_IOCTL_SET_DEVICE_def ZL_IOCTL_SET_MODE_def ZL_IOCTL_GET_LOCKED_def zl_ioc_def)

lemma zl_get_locked_client: "\<exists>d. snd (zl_get_locked io now priv) = priv\<lparr>client := d\<rparr>"
  by (auto simp: zl_get_locked_def Let_def split: prod.splits intro: exI [of _ "client priv"])

interpretation zl: pll_contract "zl_pll io now_ns" tgd_device_mac synce_dpll_mode for io now_ns
proof
  fix d :: "'a zl_priv" and m :: u64 and k :: u8
  show "pll_open (zl_pll io now_ns) d" by (simp add: zl_pll_def)
  show "tgd_device_mac (snd (pll_set_device (zl_pll io now_ns) m d)) = m"
    and "synce_dpll_mode (snd (pll_set_device (zl_pll io now_ns) m d)) = synce_dpll_mode d"
    by (simp_all add: zl_pll_def tgd_zl_ioctl_def reset_pll_def)
  show "tgd_device_mac (snd (pll_set_mode (zl_pll io now_ns) k d)) = tgd_device_mac d"
    by (simp add: zl_pll_def tgd_zl_ioctl_def split_def Let_def)
  show "fst (pll_set_mode (zl_pll io now_ns) k d) = 0
      \<Longrightarrow> synce_dpll_mode (snd (pll_set_mode (zl_pll io now_ns) k d)) = k"
    by (simp add: zl_pll_def tgd_zl_ioctl_def split_def Let_def split: if_splits)
  obtain c where "snd (zl_get_locked io now_ns d) = d\<lparr>client := c\<rparr>"
    using zl_get_locked_client [of io now_ns d] by (elim exE)
  then show "tgd_device_mac (snd (snd (pll_get_locked (zl_pll io now_ns) d))) = tgd_device_mac d"
    and "synce_dpll_mode (snd (snd (pll_get_locked (zl_pll io now_ns) d))) = synce_dpll_mode d"
    by (auto simp: zl_pll_def tgd_zl_ioctl_def split: prod.splits sum.splits)
qed

section \<open>The timing path\<close>

text \<open>What a change of source does in the driver: the filter starts over.\<close>

lemma zl_set_device:
  "snd (pll_set_device (zl_pll io now_ns) a d)
     = (if tgd_device_mac d \<noteq> a then reset_pll (d\<lparr>tgd_device_mac := a\<rparr>) else d)"
  by (simp add: zl_pll_def tgd_zl_ioctl_def)

lemma zl_set_mode_count: "htsf_rx_count (snd (pll_set_mode (zl_pll io now_ns) k d)) = htsf_rx_count d"
  by (simp add: zl_pll_def tgd_zl_ioctl_def split_def Let_def)


definition sample_node :: "zl_chip zl_priv esmc_main" where
  "sample_node = \<lparr>enabled = True, input_sw_if_index = 1, output_sw_if_index = 1, input_sw_if_name = None,
     output_sw_if_name = None, enable_tg_input = True, enable_tg_output = True,
     if_rx_state = [ESMC_IF_STATE_INVALID, ESMC_IF_STATE_INVALID, \<lparr>if_ssm = 4, last_esmc_ts = 10\<rparr>],
     selected_sw_if_index = NO_IF, programmed_sw_if_index = - 1, em_ssm = 0, pll_mode = - 1, pll_locked = 0,
     num_tx_pdu_1s = 0, pll_dev = sample_priv\<lparr>tgd_device_mac := 0\<rparr>, slow_proto_node = Some 7, tx_frames = [],
     rx_signals = [], cnt_processed = 0, cnt_dropped = 0, cnt_transmitted = 0\<rparr>"


text \<open>
  Enabling the plugin again forgets the programmed interface without telling the PLL. When no
  interface announces a quality afterwards, the updates see nothing to change: the plugin has no
  source selected and the driver goes on following the radio that was selected before.
\<close>

theorem synce_reenable_stale:
  assumes "em1 = snd (esmc_enable_disable True in_if out_if tg_in tg_out em)"
    and "em' = esmc_update env (zl_pll io now_ns) now from em1"
  shows "selected_sw_if_index em' = NO_IF \<and> programmed_sw_if_index em' = - 1
     \<and> tgd_device_mac (pll_dev em') = tgd_device_mac (pll_dev em)"
proof -
  let ?em2 = "em1\<lparr>if_rx_state := []\<rparr>"
  have em1: "if_rx_state em1 = []" "selected_sw_if_index em1 = NO_IF" "programmed_sw_if_index em1 = - 1"
      "pll_dev em1 = pll_dev em"
    by (simp_all add: assms(1) esmc_enable_disable_def)
  then have "update_interface env (zl_pll io now_ns) NO_IF (- 1) ?em2 = ?em2"
    by (simp add: update_interface_def)
  then have u: "em' = update_ssm env 0 from (update_mode (zl_pll io now_ns) PLL_MODE_NCO ?em2)"
    by (simp add: assms(2) esmc_update_def em1 pll_choice_def Let_def)
  have "selected_sw_if_index (update_mode (zl_pll io now_ns) PLL_MODE_NCO ?em2) = NO_IF"
    by (simp add: update_mode_selected em1)
  then show ?thesis
    by (simp add: u update_ssm_keeps update_mode_programmed zl.update_mode_mac em1)
qed

theorem synce_reenable_stale_witness:
  "tgd_device_mac (pll_dev (esmc_update sample_env (zl_pll sample_i2c 0) 11 NO_IF
      (snd (esmc_enable_disable True 1 1 True True (sample_node\<lparr>pll_dev := sample_priv\<rparr>))))) = 0xabc"
  using synce_reenable_stale [OF refl refl, where em = "sample_node\<lparr>pll_dev := sample_priv\<rparr>" and in_if = 1
      and out_if = 1 and tg_in = True and tg_out = True and env = sample_env and io = sample_i2c and now_ns = 0
      and now = 11] sample_priv_ok(4) by simp

end
