(* ===== verification/Wriop.thy ===== *)
theory Wriop
  imports Prelude
begin

text \<open>
  Access to the 1588 timer of the network controller from the PTP plugin
  (\<open>vpp_plugins/ptptc/ptptc/dpaa2_wriop.c\<close>). The mapped registers are hardware: reading and
  writing one is the record \<open>wriop_ops\<close> over a device state, and \<open>wriop_ok\<close> states what the
  reference manual and the comments of the code say of the registers used. A register block that
  was not mapped is \<open>None\<close>; dereferencing it is the outer \<open>None\<close> of a result.
\<close>

record 'r wriop_ops =
  wr_read :: "u32 \<Rightarrow> 'r \<Rightarrow> u32 \<times> 'r"
  wr_write :: "u32 \<Rightarrow> u32 \<Rightarrow> 'r \<Rightarrow> 'r"

abbreviation WRIOP_TMR_CTRL :: u32 where "WRIOP_TMR_CTRL \<equiv> 0x15080"
abbreviation WRIOP_TMR_STAT :: u32 where "WRIOP_TMR_STAT \<equiv> 0x15094"
abbreviation WRIOP_TMR_TMASK :: u32 where "WRIOP_TMR_TMASK \<equiv> 0x15088"
abbreviation WRIOP_TMR_CNT_H :: u32 where "WRIOP_TMR_CNT_H \<equiv> 0x15098"
abbreviation WRIOP_TMR_CNT_L :: u32 where "WRIOP_TMR_CNT_L \<equiv> 0x1509c"
abbreviation WRIOP_TMR_ADD :: u32 where "WRIOP_TMR_ADD \<equiv> 0x150A0"
abbreviation WRIOP_TMR_OFF_H :: u32 where "WRIOP_TMR_OFF_H \<equiv> 0x150B0"
abbreviation WRIOP_TMR_OFF_L :: u32 where "WRIOP_TMR_OFF_L \<equiv> 0x150B4"
abbreviation WRIOP_TMR_ETTS1_H :: u32 where "WRIOP_TMR_ETTS1_H \<equiv> 0x150E0"
abbreviation WRIOP_TMR_ETTS1_L :: u32 where "WRIOP_TMR_ETTS1_L \<equiv> 0x150E4"
abbreviation WRIOP_SINGLE_STEP :: u32 where "WRIOP_SINGLE_STEP \<equiv> 0x30c0"

section \<open>Operations\<close>

text \<open>The mapping, over the results of the allocator, of \<open>open\<close> and of \<open>mmap\<close>.\<close>

definition dpaa2_wriop_reg_init :: "bool \<Rightarrow> int \<Rightarrow> 'r option \<Rightarrow> 'r option" where
  "dpaa2_wriop_reg_init malloc_ok fd mm =
     (if \<not> malloc_ok then None else if fd = - 1 then None
      else case mm of None \<Rightarrow> None | Some d \<Rightarrow> Some d)"

definition dpaa2_wriop_reg_read ::
  "'r wriop_ops \<Rightarrow> u32 \<Rightarrow> 'r option \<Rightarrow> (u32 \<times> 'r option) option" where
  "dpaa2_wriop_reg_read io addr reg =
     (case reg of None \<Rightarrow> None | Some d \<Rightarrow> let (v, d') = wr_read io addr d in Some (v, Some d'))"

definition dpaa2_wriop_reg_write ::
  "'r wriop_ops \<Rightarrow> u32 \<Rightarrow> u32 \<Rightarrow> 'r option \<Rightarrow> 'r option option" where
  "dpaa2_wriop_reg_write io addr val reg =
     (case reg of None \<Rightarrow> None | Some d \<Rightarrow> Some (Some (wr_write io addr val d)))"

definition dpaa2_disable_1588_interrupts :: "'r wriop_ops \<Rightarrow> 'r option \<Rightarrow> 'r option option" where
  "dpaa2_disable_1588_interrupts io reg = dpaa2_wriop_reg_write io WRIOP_TMR_TMASK 0 reg"

definition dpaa2_set_pps_offset :: "'r wriop_ops \<Rightarrow> u64 \<Rightarrow> 'r option \<Rightarrow> 'r option option" where
  "dpaa2_set_pps_offset io value reg = do {
     r1 \<leftarrow> dpaa2_wriop_reg_write io WRIOP_TMR_OFF_H (ucast (drop_bit 32 value)) reg;
     dpaa2_wriop_reg_write io WRIOP_TMR_OFF_L (ucast (value AND 0xffffffff)) r1
   }"

text \<open>Two registers read in order, low half first.\<close>

definition read_pair ::
  "'r wriop_ops \<Rightarrow> u32 \<Rightarrow> u32 \<Rightarrow> 'r option \<Rightarrow> (u64 \<times> 'r option) option" where
  "read_pair io lo hi reg = do {
     (l, r1) \<leftarrow> dpaa2_wriop_reg_read io lo reg;
     (h, r2) \<leftarrow> dpaa2_wriop_reg_read io hi r1;
     Some (ucast l OR push_bit 32 (ucast h), r2)
   }"

definition dpaa2_get_pps_offset :: "'r wriop_ops \<Rightarrow> 'r option \<Rightarrow> (u64 \<times> 'r option) option" where
  "dpaa2_get_pps_offset io reg =
     (if reg = None then Some (- 1, reg) else read_pair io WRIOP_TMR_OFF_L WRIOP_TMR_OFF_H reg)"

definition dpaa2_get_current_timestamp :: "'r wriop_ops \<Rightarrow> 'r option \<Rightarrow> (u64 \<times> 'r option) option" where
  "dpaa2_get_current_timestamp io reg =
     (if reg = None then Some (- 1, reg) else read_pair io WRIOP_TMR_CNT_L WRIOP_TMR_CNT_H reg)"

definition dpaa2_set_timestamp_counter :: "'r wriop_ops \<Rightarrow> u64 \<Rightarrow> 'r option \<Rightarrow> 'r option option" where
  "dpaa2_set_timestamp_counter io value reg = do {
     r1 \<leftarrow> dpaa2_wriop_reg_write io WRIOP_TMR_CNT_L (ucast (value AND 0xffffffff)) reg;
     dpaa2_wriop_reg_write io WRIOP_TMR_CNT_H (ucast (drop_bit 32 value AND 0xffffffff)) r1
   }"

definition dpaa2_get_current_timestamp_with_offset ::
  "'r wriop_ops \<Rightarrow> 'r option \<Rightarrow> (u64 \<times> 'r option) option" where
  "dpaa2_get_current_timestamp_with_offset io reg =
     (if reg = None then Some (- 1, reg)
      else do {
        (value, r1) \<leftarrow> dpaa2_get_current_timestamp io reg;
        (offs, r2) \<leftarrow> dpaa2_get_pps_offset io r1;
        Some (value + offs, r2)
      })"

text \<open>
  The do-while loop that drains the buffer of external timestamps; a device that keeps the valid
  bit set makes it run forever, which is \<open>None\<close>.
\<close>

partial_function (option) pps_loop :: "'r wriop_ops \<Rightarrow> 'r option \<Rightarrow> (u64 \<times> 'r option) option" where
  "pps_loop io reg =
     Option.bind (read_pair io WRIOP_TMR_ETTS1_L WRIOP_TMR_ETTS1_H reg) (\<lambda>(value, r1).
     Option.bind (dpaa2_wriop_reg_read io WRIOP_TMR_STAT r1) (\<lambda>(status, r2).
     if bit status 24 then pps_loop io r2 else Some (value, r2)))"

definition dpaa2_get_pps_timestamp :: "'r wriop_ops \<Rightarrow> 'r option \<Rightarrow> (u64 \<times> 'r option) option" where
  "dpaa2_get_pps_timestamp io reg =
     (if reg = None then Some (- 1, reg)
      else do {
        (status, r1) \<leftarrow> dpaa2_wriop_reg_read io WRIOP_TMR_STAT reg;
        if \<not> bit status 24 then Some (- 1, r1) else pps_loop io r1
      })"

definition dpaa2_get_pps_addend :: "'r wriop_ops \<Rightarrow> 'r option \<Rightarrow> (u32 \<times> 'r option) option" where
  "dpaa2_get_pps_addend io reg = dpaa2_wriop_reg_read io WRIOP_TMR_ADD reg"

definition dpaa2_set_pps_addend :: "'r wriop_ops \<Rightarrow> u32 \<Rightarrow> 'r option \<Rightarrow> 'r option option" where
  "dpaa2_set_pps_addend io value reg = dpaa2_wriop_reg_write io WRIOP_TMR_ADD value reg"

definition dpaa2_get_ctrl :: "'r wriop_ops \<Rightarrow> 'r option \<Rightarrow> (u32 \<times> 'r option) option" where
  "dpaa2_get_ctrl io reg = dpaa2_wriop_reg_read io WRIOP_TMR_CTRL reg"

definition dpaa2_set_ctrl :: "'r wriop_ops \<Rightarrow> u32 \<Rightarrow> 'r option \<Rightarrow> 'r option option" where
  "dpaa2_set_ctrl io value reg = dpaa2_wriop_reg_write io WRIOP_TMR_CTRL value reg"

definition single_step_value :: "bool \<Rightarrow> u16 \<Rightarrow> bool \<Rightarrow> u32" where
  "single_step_value enable offset checksum =
     (let v0 = push_bit 8 (ucast offset) AND 0x0000ff00;
          v1 = (if enable then v0 OR 0x80000000 else v0)
      in if checksum then v1 OR 0x00000080 else v1)"

definition dpaa2_set_single_step ::
  "'r wriop_ops \<Rightarrow> bool \<Rightarrow> u16 \<Rightarrow> bool \<Rightarrow> 'r option \<Rightarrow> 'r option option" where
  "dpaa2_set_single_step io enable offset checksum reg =
     (if reg = None then Some reg
      else dpaa2_wriop_reg_write io WRIOP_SINGLE_STEP (single_step_value enable offset checksum) reg)"

section \<open>The registers\<close>

text \<open>
  Plain registers hold what was written. The status register tells whether a timestamp is
  buffered; the low half of the oldest can be read without effect, reading the high half removes
  it. Reading the low half of the counter latches the high half.
\<close>

definition plain :: "u32 set" where
  "plain = {WRIOP_TMR_CTRL, WRIOP_TMR_TMASK, WRIOP_TMR_ADD, WRIOP_TMR_OFF_H, WRIOP_TMR_OFF_L, WRIOP_SINGLE_STEP}"

definition wriop_ok ::
  "'r wriop_ops \<Rightarrow> ('r \<Rightarrow> u32 \<Rightarrow> u32) \<Rightarrow> ('r \<Rightarrow> u64 list) \<Rightarrow> ('r \<Rightarrow> u64) \<Rightarrow> bool" where
  "wriop_ok io view fifo cnt \<longleftrightarrow>
     (\<forall>d. \<forall>a \<in> plain. fst (wr_read io a d) = view d a \<and> view (snd (wr_read io a d)) = view d
        \<and> fifo (snd (wr_read io a d)) = fifo d)
     \<and> (\<forall>d v. \<forall>a \<in> plain. view (wr_write io a v d) = (view d)(a := v) \<and> fifo (wr_write io a v d) = fifo d)
     \<and> (\<forall>d. (bit (fst (wr_read io WRIOP_TMR_STAT d)) 24 \<longleftrightarrow> fifo d \<noteq> [])
        \<and> view (snd (wr_read io WRIOP_TMR_STAT d)) = view d \<and> fifo (snd (wr_read io WRIOP_TMR_STAT d)) = fifo d)
     \<and> (\<forall>d t ts. fifo d = t # ts \<longrightarrow> fst (wr_read io WRIOP_TMR_ETTS1_L d) = ucast t
        \<and> view (snd (wr_read io WRIOP_TMR_ETTS1_L d)) = view d \<and> fifo (snd (wr_read io WRIOP_TMR_ETTS1_L d)) = t # ts)
     \<and> (\<forall>d t ts. fifo d = t # ts \<longrightarrow> fst (wr_read io WRIOP_TMR_ETTS1_H d) = ucast (drop_bit 32 t)
        \<and> view (snd (wr_read io WRIOP_TMR_ETTS1_H d)) = view d \<and> fifo (snd (wr_read io WRIOP_TMR_ETTS1_H d)) = ts)
     \<and> (\<forall>d. fst (wr_read io WRIOP_TMR_CNT_L d) = ucast (cnt d)
        \<and> fst (wr_read io WRIOP_TMR_CNT_H (snd (wr_read io WRIOP_TMR_CNT_L d))) = ucast (drop_bit 32 (cnt d)))
     \<and> (\<forall>d. \<forall>a \<in> {WRIOP_TMR_CNT_L, WRIOP_TMR_CNT_H}. view (snd (wr_read io a d)) = view d
        \<and> fifo (snd (wr_read io a d)) = fifo d)"

lemma wriop_plain:
  assumes "wriop_ok io view fifo cnt" and "a \<in> plain"
  shows "fst (wr_read io a d) = view d a" "view (snd (wr_read io a d)) = view d" "fifo (snd (wr_read io a d)) = fifo d"
    "view (wr_write io a v d) = (view d)(a := v)" "fifo (wr_write io a v d) = fifo d"
  using assms unfolding wriop_ok_def by simp_all

lemma wriop_stat:
  assumes "wriop_ok io view fifo cnt"
  shows "bit (fst (wr_read io WRIOP_TMR_STAT d)) 24 \<longleftrightarrow> fifo d \<noteq> []"
    "view (snd (wr_read io WRIOP_TMR_STAT d)) = view d" "fifo (snd (wr_read io WRIOP_TMR_STAT d)) = fifo d"
  using assms unfolding wriop_ok_def by simp_all

lemma wriop_etts:
  assumes "wriop_ok io view fifo cnt" and "fifo d = t # ts"
  shows "fst (wr_read io WRIOP_TMR_ETTS1_L d) = ucast t" "view (snd (wr_read io WRIOP_TMR_ETTS1_L d)) = view d"
    "fifo (snd (wr_read io WRIOP_TMR_ETTS1_L d)) = t # ts"
    "fst (wr_read io WRIOP_TMR_ETTS1_H d) = ucast (drop_bit 32 t)"
    "view (snd (wr_read io WRIOP_TMR_ETTS1_H d)) = view d" "fifo (snd (wr_read io WRIOP_TMR_ETTS1_H d)) = ts"
  using assms unfolding wriop_ok_def by simp_all

lemma wriop_cnt:
  assumes "wriop_ok io view fifo cnt"
  shows "fst (wr_read io WRIOP_TMR_CNT_L d) = ucast (cnt d)"
    "fst (wr_read io WRIOP_TMR_CNT_H (snd (wr_read io WRIOP_TMR_CNT_L d))) = ucast (drop_bit 32 (cnt d))"
    "view (snd (wr_read io WRIOP_TMR_CNT_L d)) = view d" "fifo (snd (wr_read io WRIOP_TMR_CNT_L d)) = fifo d"
    "view (snd (wr_read io WRIOP_TMR_CNT_H d)) = view d" "fifo (snd (wr_read io WRIOP_TMR_CNT_H d)) = fifo d"
  using assms unfolding wriop_ok_def by simp_all

lemma plain_regs [simp]:
  "WRIOP_TMR_CTRL \<in> plain" "WRIOP_TMR_TMASK \<in> plain" "WRIOP_TMR_ADD \<in> plain" "WRIOP_TMR_OFF_H \<in> plain"
  "WRIOP_TMR_OFF_L \<in> plain" "WRIOP_SINGLE_STEP \<in> plain"
  by (simp_all add: plain_def)

lemma halves: "ucast (ucast t :: u32) OR push_bit 32 (ucast (ucast (drop_bit 32 t) :: u32)) = (t :: u64)"
  by (rule bit_word_eqI) (auto simp: bit_simps)

lemma halves_and: "ucast (ucast (t AND 0xffffffff) :: u32) OR push_bit 32 (ucast (ucast (drop_bit 32 t) :: u32)) = (t :: u64)"
proof -
  have m: "(0xffffffff :: u64) = mask 32" by (simp add: mask_eq_exp_minus_1)
  have "ucast (t AND 0xffffffff) = (ucast t :: u32)"
    unfolding m by (rule bit_word_eqI) (auto simp: bit_simps)
  then show ?thesis by (simp add: halves)
qed

definition pps_offset :: "(u32 \<Rightarrow> u32) \<Rightarrow> u64" where
  "pps_offset v = ucast (v WRIOP_TMR_OFF_L) OR push_bit 32 (ucast (v WRIOP_TMR_OFF_H))"

lemma read_pair_eq:
  "read_pair io lo hi (Some d) =
     (let (l, d1) = wr_read io lo d; (h, d2) = wr_read io hi d1
      in Some (ucast l OR push_bit 32 (ucast h), Some d2))"
  by (simp add: read_pair_def dpaa2_wriop_reg_read_def split_def Let_def)

lemma get_offset_view:
  assumes "wriop_ok io view fifo cnt"
  shows "\<exists>d'. dpaa2_get_pps_offset io (Some d) = Some (pps_offset (view d), Some d') \<and> view d' = view d \<and> fifo d' = fifo d"
  by (auto simp: dpaa2_get_pps_offset_def read_pair_eq pps_offset_def Let_def split_def wriop_plain [OF assms])

lemma set_offset_view:
  assumes "wriop_ok io view fifo cnt"
  shows "\<exists>d'. dpaa2_set_pps_offset io v (Some d) = Some (Some d')
    \<and> pps_offset (view d') = v \<and> fifo d' = fifo d
    \<and> (\<forall>a. a \<noteq> WRIOP_TMR_OFF_H \<and> a \<noteq> WRIOP_TMR_OFF_L \<longrightarrow> view d' a = view d a)"
  by (auto simp: dpaa2_set_pps_offset_def dpaa2_wriop_reg_write_def pps_offset_def wriop_plain [OF assms] halves_and)

lemma get_timestamp_cnt:
  assumes "wriop_ok io view fifo cnt"
  shows "\<exists>d'. dpaa2_get_current_timestamp io (Some d) = Some (cnt d, Some d') \<and> view d' = view d \<and> fifo d' = fifo d"
  by (auto simp: dpaa2_get_current_timestamp_def read_pair_eq Let_def split_def wriop_cnt [OF assms] halves)

lemma get_timestamp_offset:
  assumes "wriop_ok io view fifo cnt"
  shows "\<exists>d'. dpaa2_get_current_timestamp_with_offset io (Some d) = Some (cnt d + pps_offset (view d), Some d')
     \<and> view d' = view d \<and> fifo d' = fifo d"
proof -
  obtain d1 where d1: "dpaa2_get_current_timestamp io (Some d) = Some (cnt d, Some d1)" "view d1 = view d" "fifo d1 = fifo d"
    using get_timestamp_cnt [OF assms] by blast
  obtain d2 where "dpaa2_get_pps_offset io (Some d1) = Some (pps_offset (view d1), Some d2)" "view d2 = view d1" "fifo d2 = fifo d1"
    using get_offset_view [OF assms] by blast
  with d1 show ?thesis by (simp add: dpaa2_get_current_timestamp_with_offset_def)
qed

lemma pps_loop_last:
  assumes ok: "wriop_ok io view fifo cnt"
  shows "fifo d \<noteq> [] \<Longrightarrow> \<exists>d'. pps_loop io (Some d) = Some (last (fifo d), Some d') \<and> view d' = view d \<and> fifo d' = []"
proof (induction "fifo d" arbitrary: d)
  case (Cons t ts)
  let ?d1 = "snd (wr_read io WRIOP_TMR_ETTS1_L d)"
  let ?d2 = "snd (wr_read io WRIOP_TMR_ETTS1_H ?d1)"
  let ?d3 = "snd (wr_read io WRIOP_TMR_STAT ?d2)"
  have t: "fifo d = t # ts" using Cons.hyps by simp
  note l = wriop_etts [OF ok t]
  note h = wriop_etts [OF ok l(3)]
  have v: "read_pair io WRIOP_TMR_ETTS1_L WRIOP_TMR_ETTS1_H (Some d) = Some (t, Some ?d2)"
    by (simp add: read_pair_eq Let_def split_def l h halves)
  have s: "dpaa2_wriop_reg_read io WRIOP_TMR_STAT (Some ?d2) = Some (fst (wr_read io WRIOP_TMR_STAT ?d2), Some ?d3)"
    by (simp add: dpaa2_wriop_reg_read_def split_def Let_def)
  have d3: "view ?d3 = view d" "fifo ?d3 = ts" by (simp_all add: wriop_stat [OF ok] h l)
  have step: "pps_loop io (Some d) = (if ts \<noteq> [] then pps_loop io (Some ?d3) else Some (t, Some ?d3))"
    by (subst pps_loop.simps) (simp add: v s wriop_stat(1) [OF ok] h(6))
  show ?case
  proof (cases "ts = []")
    case True
    then show ?thesis using step d3 t by simp
  next
    case False
    with Cons.hyps(1) [of ?d3] d3 step t show ?thesis by auto
  qed
qed simp

lemma pps_timestamp_last:
  assumes "wriop_ok io view fifo cnt"
  shows "\<exists>d'. dpaa2_get_pps_timestamp io (Some d) = Some (if fifo d = [] then - 1 else last (fifo d), Some d')
     \<and> view d' = view d \<and> fifo d' = []"
proof -
  let ?d1 = "snd (wr_read io WRIOP_TMR_STAT d)"
  have "dpaa2_get_pps_timestamp io (Some d) = (if fifo d = [] then Some (- 1, Some ?d1) else pps_loop io (Some ?d1))"
    by (simp add: dpaa2_get_pps_timestamp_def dpaa2_wriop_reg_read_def split_def Let_def wriop_stat(1) [OF assms])
  then show ?thesis
    using pps_loop_last [OF assms, of ?d1] by (auto simp: wriop_stat [OF assms])
qed

text \<open>
  C37. The external timestamp: the polling loop ends, and the call returns the most recent of the
  buffered timestamps and leaves the buffer empty; all ones mean that none was buffered (or that
  the registers are not mapped).
\<close>

theorem wriop_pps_timestamp:
  assumes "wriop_ok io view fifo cnt"
  shows "\<exists>d'. dpaa2_get_pps_timestamp io (Some d) = Some (if fifo d = [] then - 1 else last (fifo d), Some d')
     \<and> view d' = view d \<and> fifo d' = []"
  using assms by (rule pps_timestamp_last)

text \<open>A timer: plain registers, the buffered timestamps, the counter and its latch.\<close>

record timer =
  tm_regs :: "u32 \<Rightarrow> u32"
  tm_fifo :: "u64 list"
  tm_cnt :: u64
  tm_latch :: u32

definition timer_ops :: "timer wriop_ops" where
  "timer_ops =
     \<lparr>wr_read = (\<lambda>a d.
        if a = WRIOP_TMR_STAT then (if tm_fifo d = [] then 0 else 0x1000000, d)
        else if a = WRIOP_TMR_ETTS1_L then (case tm_fifo d of [] \<Rightarrow> 0 | t # _ \<Rightarrow> ucast t, d)
        else if a = WRIOP_TMR_ETTS1_H
        then (case tm_fifo d of [] \<Rightarrow> (0, d) | t # ts \<Rightarrow> (ucast (drop_bit 32 t), d\<lparr>tm_fifo := ts\<rparr>))
        else if a = WRIOP_TMR_CNT_L
        then (ucast (tm_cnt d), d\<lparr>tm_latch := ucast (drop_bit 32 (tm_cnt d)), tm_cnt := tm_cnt d + 5\<rparr>)
        else if a = WRIOP_TMR_CNT_H then (tm_latch d, d)
        else (tm_regs d a, d)),
      wr_write = (\<lambda>a v d. d\<lparr>tm_regs := (tm_regs d)(a := v)\<rparr>)\<rparr>"

lemma timer_ok: "wriop_ok timer_ops tm_regs tm_fifo tm_cnt"
  by (auto simp: wriop_ok_def timer_ops_def plain_def bit_numeral_rec)

definition sample_timer :: timer where
  "sample_timer = \<lparr>tm_regs = (\<lambda>_. 0), tm_fifo = [5, 1000000007], tm_cnt = 2000000000, tm_latch = 0\<rparr>"

theorem wriop_pps_timestamp_witness:
  "\<exists>d'. dpaa2_get_pps_timestamp timer_ops (Some sample_timer) = Some (1000000007, Some d') \<and> tm_fifo d' = []"
  using wriop_pps_timestamp [OF timer_ok, of sample_timer] by (auto simp: sample_timer_def)

end
