(* ===== verification/GpsSync.thy ===== *)
theory GpsSync
  imports Wriop "HOL-Library.Signed_Division"
begin

text \<open>
  The GPS discipline of the PTP plugin (\<open>vpp_plugins/ptptc/ptptc/gps_sync.c\<close>): sentences of gpsd
  arrive on a socket, the time of each \<open>$GPRMC\<close> is compared with the hardware timestamp of the
  pulse per second, and frequency and phase of the timer are corrected.

  Signed 64-bit arithmetic is that of 64-bit words read with \<open>sint\<close>; C division truncates. Strings
  are lists of characters without their terminating zero. The static variables of \<open>handle_pps\<close>
  are the record \<open>gps_static\<close>. The socket calls and the offset of the local time zone are
  arguments. Debug messages are left out.
\<close>

section \<open>Frequency\<close>

abbreviation NSEC_PER_SEC :: int where "NSEC_PER_SEC \<equiv> 1000000000"
abbreviation ADDEND_MIN :: u32 where "ADDEND_MIN \<equiv> 3067800000"
abbreviation ADDEND_MAX :: u32 where "ADDEND_MAX \<equiv> 3067899999"

definition sdiv64 :: "u64 \<Rightarrow> u64 \<Rightarrow> u64" where
  "sdiv64 a b = word_of_int (sint a sdiv sint b)"

definition get_drift_scale_factor :: "u64 \<Rightarrow> u32 \<Rightarrow> u32" where
  "get_drift_scale_factor drift_ns addend =
     (let observed_freq = word_of_int NSEC_PER_SEC + drift_ns;
          scaled_addend = ucast addend :: u64
      in if observed_freq = 0 then addend
         else ucast (sdiv64 (scaled_addend * word_of_int NSEC_PER_SEC) observed_freq))"

section \<open>Sentences\<close>

text \<open>\<open>strtok_r\<close> for one delimiter: the next token and what is left.\<close>

definition strtok :: "char \<Rightarrow> string \<Rightarrow> (string \<times> string) option" where
  "strtok c s =
     (let t = dropWhile (\<lambda>x. x = c) s
      in if t = [] then None
         else Some (takeWhile (\<lambda>x. x \<noteq> c) t, tl (dropWhile (\<lambda>x. x \<noteq> c) t)))"

text \<open>The loop over the fields: the time of day is field 1, the date field 9.\<close>

function field_loop ::
  "nat \<Rightarrow> bool \<Rightarrow> string \<Rightarrow> string option \<Rightarrow> string option \<Rightarrow> string option \<times> string option" where
  "field_loop field token rest timeofday datestr =
     (if field < 9 \<and> token
      then
        let (tok, rest1) = (case strtok CHR '','' rest of None \<Rightarrow> (None, rest) | Some (t, r) \<Rightarrow> (Some t, r))
        in field_loop (Suc field) (tok \<noteq> None) rest1
             (if Suc field = 1 then tok else timeofday) (if Suc field = 9 then tok else datestr)
      else (timeofday, datestr))"
  by pat_completeness auto
termination by (relation "measure (\<lambda>(field, _). 9 - field)") auto

declare field_loop.simps [simp del]

text \<open>\<open>strptime\<close> for two-digit numbers: at most two digits, within the bounds.\<close>

definition is_digit :: "char \<Rightarrow> bool" where
  "is_digit c \<longleftrightarrow> 48 \<le> (of_char c :: nat) \<and> (of_char c :: nat) \<le> 57"

definition digit_val :: "char \<Rightarrow> int" where
  "digit_val c = of_char c - 48"

definition get_number :: "int \<Rightarrow> int \<Rightarrow> string \<Rightarrow> (int \<times> string) option" where
  "get_number lo hi s =
     (case dropWhile (\<lambda>c. c = CHR '' '') s of
        [] \<Rightarrow> None
      | c # cs \<Rightarrow>
          if \<not> is_digit c then None
          else
            let (v, r) = (case cs of
                            [] \<Rightarrow> (digit_val c, cs)
                          | c' # cs' \<Rightarrow>
                              if digit_val c * 10 \<le> hi \<and> is_digit c' then (digit_val c * 10 + digit_val c', cs')
                              else (digit_val c, cs))
            in if v < lo \<or> hi < v then None else Some (v, r))"

record tm =
  tm_mday :: int
  tm_mon :: int
  tm_year :: int
  tm_hour :: int
  tm_min :: int
  tm_sec :: int

definition tm_zero :: tm where
  "tm_zero = \<lparr>tm_mday = 0, tm_mon = 0, tm_year = 0, tm_hour = 0, tm_min = 0, tm_sec = 0\<rparr>"

text \<open>\<open>strptime (s, "%d%m%y %H%M%S", &tm)\<close>: it stops at the first conversion that fails.\<close>

definition strptime_date :: "string \<Rightarrow> tm" where
  "strptime_date s =
     (case get_number 1 31 s of None \<Rightarrow> tm_zero
      | Some (d, s1) \<Rightarrow> let t1 = tm_zero\<lparr>tm_mday := d\<rparr> in
     (case get_number 1 12 s1 of None \<Rightarrow> t1
      | Some (m, s2) \<Rightarrow> let t2 = t1\<lparr>tm_mon := m - 1\<rparr> in
     (case get_number 0 99 s2 of None \<Rightarrow> t2
      | Some (y, s3) \<Rightarrow> let t3 = t2\<lparr>tm_year := if 69 \<le> y then y else y + 100\<rparr> in
     (case get_number 0 23 (dropWhile (\<lambda>c. c = CHR '' '') s3) of None \<Rightarrow> t3
      | Some (h, s4) \<Rightarrow> let t4 = t3\<lparr>tm_hour := h\<rparr> in
     (case get_number 0 59 s4 of None \<Rightarrow> t4
      | Some (mi, s5) \<Rightarrow> let t5 = t4\<lparr>tm_min := mi\<rparr> in
     (case get_number 0 61 s5 of None \<Rightarrow> t5
      | Some (sec, s6) \<Rightarrow> t5\<lparr>tm_sec := sec\<rparr>))))))"

text \<open>\<open>mktime\<close>: seconds since the epoch of a broken-down time of the Gregorian calendar.\<close>

definition is_leap :: "int \<Rightarrow> bool" where
  "is_leap y \<longleftrightarrow> y mod 4 = 0 \<and> (y mod 100 \<noteq> 0 \<or> y mod 400 = 0)"

definition leaps_before :: "int \<Rightarrow> int" where
  "leaps_before y = (y - 1) div 4 - (y - 1) div 100 + (y - 1) div 400"

definition days_before_month :: "int \<Rightarrow> int \<Rightarrow> int" where
  "days_before_month y m =
     [0, 31, 59, 90, 120, 151, 181, 212, 243, 273, 304, 334] ! nat m + (if 2 \<le> m \<and> is_leap y then 1 else 0)"

definition mktime :: "int \<Rightarrow> tm \<Rightarrow> int" where
  "mktime utc_offset t =
     (let y = 1900 + tm_year t;
          days = 365 * (y - 1970) + (leaps_before y - leaps_before 1970) + days_before_month y (tm_mon t) + tm_mday t - 1
      in days * 86400 + tm_hour t * 3600 + tm_min t * 60 + tm_sec t - utc_offset)"

text \<open>
  The outer \<open>None\<close> is a write outside \<open>date_field\<close>: with a date of more than 20 characters the
  size of the second \<open>strncpy\<close> wraps around. The inner \<open>None\<close> is the result -1.
\<close>

definition parse_msg_time :: "int \<Rightarrow> string \<Rightarrow> u64 option option" where
  "parse_msg_time utc_offset buf =
     (if take 6 buf \<noteq> ''$GPRMC'' then Some None
      else
        case strtok CHR '','' buf of
          None \<Rightarrow> Some None
        | Some (tok, rest) \<Rightarrow>
            (case field_loop 0 True rest None None of
               (Some timeofday, Some datestr) \<Rightarrow>
                 if 20 < length datestr then None
                 else
                   let date_field = take 19 (datestr @ timeofday);
                       secs = mktime utc_offset (strptime_date date_field)
                   in Some (Some (word_of_int secs * word_of_int NSEC_PER_SEC))
             | _ \<Rightarrow> Some None))"

section \<open>The pulse\<close>

record gps_static =
  first_time :: bool
  last_offset :: u64
  synced_offset :: u64
  offset_adjust_ns :: u64
  last_offset_adjust :: u64

definition gps_static_init :: gps_static where
  "gps_static_init = \<lparr>first_time = True, last_offset = 0, synced_offset = 0, offset_adjust_ns = 0,
     last_offset_adjust = 0\<rparr>"

definition abs64 :: "u64 \<Rightarrow> int" where
  "abs64 a = sint (if sint a < 0 then - a else a)"

text \<open>The filter constants \<open>(alpha_scale, alpha_freq, alpha_offset)\<close>.\<close>

definition filter_constants :: "u64 \<Rightarrow> u64 \<Rightarrow> u64 \<times> u64 \<times> u64" where
  "filter_constants offset adjust =
     (if 1000 < abs64 offset \<or> 1000 < abs64 adjust then (1, 1, 1) else (256, 26, 77))"

definition clamp_addend :: "u32 \<Rightarrow> u32" where
  "clamp_addend a =
     (let a1 = (if a < ADDEND_MIN then ADDEND_MIN else a)
      in if ADDEND_MAX < a1 then ADDEND_MAX else a1)"

text \<open>The frequency correction: read the addend, scale it, clamp it, write it back.\<close>

definition correct_frequency ::
  "'r wriop_ops \<Rightarrow> u64 \<Rightarrow> 'r option \<Rightarrow> 'r option option" where
  "correct_frequency io ffo_adjust_ppb regs = do {
     (pps_addend, r1) \<leftarrow> dpaa2_get_pps_addend io regs;
     dpaa2_set_pps_addend io (clamp_addend (get_drift_scale_factor ffo_adjust_ppb pps_addend)) r1
   }"

text \<open>The phase correction, when the last one is more than 0.9 seconds ago.\<close>

definition correct_phase ::
  "'r wriop_ops \<Rightarrow> u64 \<Rightarrow> u64 \<Rightarrow> u64 \<Rightarrow> u64 \<Rightarrow> gps_static \<Rightarrow> 'r option \<Rightarrow> (gps_static \<times> 'r option) option" where
  "correct_phase io pps_nsecs offset alpha_offset alpha_scale g regs =
     (if 900000000 < sint (pps_nsecs - last_offset_adjust g)
      then
        let adj = sdiv64 (alpha_offset * offset) alpha_scale
        in do {
          r1 \<leftarrow> dpaa2_set_pps_offset io (synced_offset g + adj) regs;
          Some (g\<lparr>offset_adjust_ns := adj, last_offset_adjust := pps_nsecs\<rparr>, r1)
        }
      else Some (g\<lparr>offset_adjust_ns := 0\<rparr>, regs))"

definition handle_pps ::
  "'r wriop_ops \<Rightarrow> u64 \<Rightarrow> gps_static \<Rightarrow> 'r option \<Rightarrow> (gps_static \<times> 'r option) option" where
  "handle_pps io pps_nsecs g regs =
     (if first_time g
      then do {
        (latched, r1) \<leftarrow> dpaa2_get_pps_timestamp io regs;
        Some (g\<lparr>first_time := False\<rparr>, r1)
      }
      else do {
        (latched, r1) \<leftarrow> dpaa2_get_pps_timestamp io regs;
        if latched = - 1 then Some (g, r1)
        else do {
          (current, r2) \<leftarrow> dpaa2_get_current_timestamp_with_offset io r1;
          let offset = pps_nsecs - latched;
              offset_diff = offset - last_offset g
          in do {
            (pps_addend0, r3) \<leftarrow> dpaa2_get_pps_addend io r2;
            if 100000 < abs64 offset_diff
            then Some (g\<lparr>last_offset := offset, offset_adjust_ns := 0\<rparr>, r3)
            else
              let (alpha_scale, alpha_freq, alpha_offset) = filter_constants offset (offset_adjust_ns g);
                  offset_change_ppb = offset_diff + offset_adjust_ns g;
                  ffo_adjust_ppb = sdiv64 (- 1 * alpha_freq * offset_change_ppb) alpha_scale
              in do {
                r4 \<leftarrow> correct_frequency io ffo_adjust_ppb r3;
                (g1, r5) \<leftarrow> correct_phase io pps_nsecs offset alpha_offset alpha_scale g r4;
                Some (g1\<lparr>synced_offset := synced_offset g1 + offset_adjust_ns g1, last_offset := offset\<rparr>, r5)
              }
          }
        }
      })"

section \<open>The socket\<close>

text \<open>
  \<open>held\<close> is the text kept at the start of \<open>read_buf\<close> for the next call, of length \<open>offset\<close>.
\<close>

record gps_main =
  sockfd :: int
  held :: string
  clib_file_index :: u32

definition cstr :: "string \<Rightarrow> string" where
  "cstr s = takeWhile (\<lambda>c. c \<noteq> CHR 0x00) s"

text \<open>\<open>strrchr (s, '\n')\<close>: the text before the last newline and the text after it.\<close>

definition split_last :: "string \<Rightarrow> (string \<times> string) option" where
  "split_last s =
     (if CHR 0x0A \<in> set s
      then Some (rev (tl (dropWhile (\<lambda>c. c \<noteq> CHR 0x0A) (rev s))), rev (takeWhile (\<lambda>c. c \<noteq> CHR 0x0A) (rev s)))
      else None)"

text \<open>
  The buffer after a read, split: the text whose lines are handled now, and the partial line
  that is held for the next call.
\<close>

definition split_report :: "string \<Rightarrow> string \<times> string option" where
  "split_report buf =
     (if buf \<noteq> [] \<and> last buf \<noteq> CHR 0x0A
      then (case split_last (cstr buf) of
              None \<Rightarrow> (cstr buf, None)
            | Some (a, p) \<Rightarrow> (a, Some (cstr (drop (Suc (length a)) buf))))
      else (cstr buf, None))"

function tokens :: "string \<Rightarrow> string list" where
  "tokens s = (case strtok CHR 0x0A s of None \<Rightarrow> [] | Some (t, r) \<Rightarrow> t # tokens r)"
  by pat_completeness auto
termination
proof (relation "measure length", goal_cases)
  case (2 s a t r)
  then have "dropWhile (\<lambda>x. x = CHR 0x0A) s \<noteq> []" "r = tl (dropWhile (\<lambda>x. x \<noteq> CHR 0x0A) (dropWhile (\<lambda>x. x = CHR 0x0A) s))"
    by (auto simp: strtok_def Let_def split: if_splits)
  moreover have "length (tl (dropWhile P t)) < length t" if "t \<noteq> []" for P and t :: string
    using that length_dropWhile_le [of P t] by (cases t) (auto intro: le_less_trans [OF diff_le_self])
  ultimately have "length r < length (dropWhile (\<lambda>x. x = CHR 0x0A) s)" by blast
  also have "\<dots> \<le> length s" by (rule length_dropWhile_le)
  finally show ?case by simp
qed simp

declare tokens.simps [simp del]

primrec handle_lines ::
  "'r wriop_ops \<Rightarrow> int \<Rightarrow> string list \<Rightarrow> gps_static \<times> 'r option \<Rightarrow> (gps_static \<times> 'r option) option" where
  "handle_lines io utc [] s = Some s"
| "handle_lines io utc (l # ls) s = do {
     t \<leftarrow> parse_msg_time utc l;
     s1 \<leftarrow> (case t of None \<Rightarrow> Some s | Some gps_time \<Rightarrow> handle_pps io gps_time (fst s) (snd s));
     handle_lines io utc ls s1
   }"

text \<open>The result of \<open>recv\<close>: the error number, or the bytes received.\<close>

definition gps_report_ready ::
  "'r wriop_ops \<Rightarrow> int \<Rightarrow> int + string \<Rightarrow> gps_main \<Rightarrow> gps_static \<times> 'r option
   \<Rightarrow> (int \<times> gps_main \<times> gps_static \<times> 'r option) option" where
  "gps_report_ready io utc received gm s =
     (case received of
        Inl errno \<Rightarrow> Some (errno, gm\<lparr>held := []\<rparr>, s)
      | Inr chunk \<Rightarrow>
          let (area, part) = split_report (held gm @ chunk)
          in do {
            s1 \<leftarrow> handle_lines io utc (tokens area) s;
            Some (0, gm\<lparr>held := (case part of None \<Rightarrow> [] | Some p \<Rightarrow> p)\<rparr>, s1)
          })"

section \<open>Turning the discipline on and off\<close>

definition reset_timer_defaults :: "'r wriop_ops \<Rightarrow> 'r option \<Rightarrow> 'r option option" where
  "reset_timer_defaults io regs = do {
     r1 \<leftarrow> dpaa2_set_pps_offset io 0 regs;
     r2 \<leftarrow> dpaa2_set_pps_addend io 0xb6db6db7 r1;
     dpaa2_disable_1588_interrupts io r2
   }"

text \<open>\<open>connect_to_gpsd\<close> over the results of \<open>socket\<close> and \<open>connect\<close> (an error number, or none).\<close>

definition connect_to_gpsd :: "int \<Rightarrow> int option \<Rightarrow> int" where
  "connect_to_gpsd fd err = (case err of Some rc \<Rightarrow> - rc | None \<Rightarrow> fd)"

definition gps_sync_enable ::
  "'r wriop_ops \<Rightarrow> int \<Rightarrow> int option \<Rightarrow> u32 \<Rightarrow> gps_main \<Rightarrow> 'r option \<Rightarrow> (int \<times> gps_main \<times> 'r option) option" where
  "gps_sync_enable io fd err file_index gm regs =
     (if sockfd gm \<noteq> 0 then Some (0, gm, regs)
      else do {
        r1 \<leftarrow> reset_timer_defaults io regs;
        let fd' = connect_to_gpsd fd err
        in if fd' < 0 then Some (fd', gm, r1)
           else Some (0, \<lparr>sockfd = fd', held = [], clib_file_index = file_index\<rparr>, r1)
      })"

definition gps_sync_disable ::
  "'r wriop_ops \<Rightarrow> gps_main \<Rightarrow> 'r option \<Rightarrow> (gps_main \<times> 'r option) option" where
  "gps_sync_disable io gm regs = do {
     r1 \<leftarrow> reset_timer_defaults io regs;
     Some (if sockfd gm = 0 then gm else \<lparr>sockfd = 0, held = [], clib_file_index = 0\<rparr>, r1)
   }"

section \<open>What a pulse does\<close>

lemma sdiv64_1 [simp]: "sdiv64 a 1 = a"
  by (simp add: sdiv64_def)

lemma clamp_addend_bounds: "ADDEND_MIN \<le> clamp_addend a \<and> clamp_addend a \<le> ADDEND_MAX"
  by (auto simp: clamp_addend_def Let_def)

lemma get_addend_view:
  assumes "wriop_ok io view fifo cnt"
  shows "\<exists>d'. dpaa2_get_pps_addend io (Some d) = Some (view d WRIOP_TMR_ADD, Some d') \<and> view d' = view d \<and> fifo d' = fifo d"
  by (auto simp: dpaa2_get_pps_addend_def dpaa2_wriop_reg_read_def split_def Let_def wriop_plain [OF assms])

lemma correct_frequency_view:
  assumes "wriop_ok io view fifo cnt"
  shows "\<exists>d'. correct_frequency io f (Some d) = Some (Some d') \<and> fifo d' = fifo d
     \<and> view d' = (view d)(WRIOP_TMR_ADD := clamp_addend (get_drift_scale_factor f (view d WRIOP_TMR_ADD)))"
proof -
  obtain d1 where "dpaa2_get_pps_addend io (Some d) = Some (view d WRIOP_TMR_ADD, Some d1)" "view d1 = view d" "fifo d1 = fifo d"
    using get_addend_view [OF assms] by blast
  then show ?thesis
    by (auto simp: correct_frequency_def dpaa2_set_pps_addend_def dpaa2_wriop_reg_write_def wriop_plain [OF assms])
qed

text \<open>The phase correction as a function of the static variables.\<close>

definition phase_static :: "u64 \<Rightarrow> u64 \<Rightarrow> u64 \<Rightarrow> u64 \<Rightarrow> gps_static \<Rightarrow> gps_static" where
  "phase_static t offset ao as g =
     (if 900000000 < sint (t - last_offset_adjust g)
      then g\<lparr>offset_adjust_ns := sdiv64 (ao * offset) as, last_offset_adjust := t\<rparr>
      else g\<lparr>offset_adjust_ns := 0\<rparr>)"

lemma correct_phase_view:
  assumes "wriop_ok io view fifo cnt"
  shows "\<exists>d'. correct_phase io t offset ao as g (Some d) = Some (phase_static t offset ao as g, Some d') \<and> fifo d' = fifo d
     \<and> view d' WRIOP_TMR_ADD = view d WRIOP_TMR_ADD
     \<and> (pps_offset (view d) = synced_offset g \<or> 900000000 < sint (t - last_offset_adjust g)
        \<longrightarrow> pps_offset (view d') = synced_offset g + offset_adjust_ns (phase_static t offset ao as g))"
proof (cases "900000000 < sint (t - last_offset_adjust g)")
  case True
  obtain d' where "dpaa2_set_pps_offset io (synced_offset g + sdiv64 (ao * offset) as) (Some d) = Some (Some d')"
      "pps_offset (view d') = synced_offset g + sdiv64 (ao * offset) as" "fifo d' = fifo d"
      "\<forall>a. a \<noteq> WRIOP_TMR_OFF_H \<and> a \<noteq> WRIOP_TMR_OFF_L \<longrightarrow> view d' a = view d a"
    using set_offset_view [OF assms] by blast
  with True show ?thesis by (simp add: correct_phase_def phase_static_def Let_def)
next
  case False
  then show ?thesis by (simp add: correct_phase_def phase_static_def)
qed

text \<open>The whole handler: what it computes from the latched timestamp and the addend.\<close>

definition pulse_ignored :: "u64 \<Rightarrow> gps_static \<Rightarrow> u64 list \<Rightarrow> bool" where
  "pulse_ignored t g ts \<longleftrightarrow> first_time g \<or> ts = [] \<or> last ts = - 1 \<or> 100000 < abs64 (t - last ts - last_offset g)"

definition pulse_static :: "u64 \<Rightarrow> u64 \<Rightarrow> gps_static \<Rightarrow> gps_static" where
  "pulse_static t latched g =
     (let offset = t - latched;
          (as, af, ao) = filter_constants offset (offset_adjust_ns g);
          g1 = phase_static t offset ao as g
      in g1\<lparr>synced_offset := synced_offset g + offset_adjust_ns g1, last_offset := offset\<rparr>)"

definition pulse_ffo :: "u64 \<Rightarrow> u64 \<Rightarrow> gps_static \<Rightarrow> u64" where
  "pulse_ffo t latched g =
     (let offset = t - latched;
          (as, af, ao) = filter_constants offset (offset_adjust_ns g)
      in sdiv64 (- 1 * af * (offset - last_offset g + offset_adjust_ns g)) as)"

lemma synced_phase [simp]: "synced_offset (phase_static t x ao as g) = synced_offset g"
  by (simp add: phase_static_def)

lemma handle_pps_ignored:
  assumes "wriop_ok io view fifo cnt" and "pulse_ignored t g (fifo d)"
  shows "\<exists>g' d'. handle_pps io t g (Some d) = Some (g', Some d') \<and> fifo d' = [] \<and> view d' = view d
     \<and> synced_offset g' = synced_offset g \<and> \<not> first_time g'"
proof -
  obtain d1 where d1: "dpaa2_get_pps_timestamp io (Some d) = Some (if fifo d = [] then - 1 else last (fifo d), Some d1)"
      "view d1 = view d" "fifo d1 = []"
    using pps_timestamp_last [OF assms(1)] by blast
  obtain d2 where d2: "dpaa2_get_current_timestamp_with_offset io (Some d1) = Some (cnt d1 + pps_offset (view d1), Some d2)"
      "view d2 = view d1" "fifo d2 = fifo d1"
    using get_timestamp_offset [OF assms(1)] by blast
  obtain d3 where d3: "dpaa2_get_pps_addend io (Some d2) = Some (view d2 WRIOP_TMR_ADD, Some d3)" "view d3 = view d2" "fifo d3 = fifo d2"
    using get_addend_view [OF assms(1)] by blast
  show ?thesis
    using assms(2) d1 d2 d3 by (auto simp: handle_pps_def pulse_ignored_def Let_def)
qed

lemma handle_pps_taken:
  assumes "wriop_ok io view fifo cnt" and "\<not> pulse_ignored t g (fifo d)"
  shows "\<exists>d'. handle_pps io t g (Some d) = Some (pulse_static t (last (fifo d)) g, Some d') \<and> fifo d' = []
     \<and> view d' WRIOP_TMR_ADD = clamp_addend (get_drift_scale_factor (pulse_ffo t (last (fifo d)) g) (view d WRIOP_TMR_ADD))
     \<and> (pps_offset (view d) = synced_offset g \<or> 900000000 < sint (t - last_offset_adjust g)
          \<longrightarrow> pps_offset (view d') = synced_offset (pulse_static t (last (fifo d)) g))"
proof -
  let ?l = "last (fifo d)"
  let ?o = "t - ?l"
  obtain as af ao where fc: "filter_constants ?o (offset_adjust_ns g) = (as, af, ao)" by (metis prod.exhaust)
  have ne: "\<not> first_time g" "fifo d \<noteq> []" "?l \<noteq> - 1" "\<not> 100000 < abs64 (?o - last_offset g)"
    using assms(2) by (auto simp: pulse_ignored_def)
  obtain d1 where d1: "dpaa2_get_pps_timestamp io (Some d) = Some (?l, Some d1)" "view d1 = view d" "fifo d1 = []"
    using pps_timestamp_last [OF assms(1), of d] ne(2) by auto
  obtain d2 where d2: "dpaa2_get_current_timestamp_with_offset io (Some d1) = Some (cnt d1 + pps_offset (view d1), Some d2)"
      "view d2 = view d1" "fifo d2 = fifo d1"
    using get_timestamp_offset [OF assms(1)] by blast
  obtain d3 where d3: "dpaa2_get_pps_addend io (Some d2) = Some (view d2 WRIOP_TMR_ADD, Some d3)" "view d3 = view d2" "fifo d3 = fifo d2"
    using get_addend_view [OF assms(1)] by blast
  have ffo: "pulse_ffo t ?l g = sdiv64 (- 1 * af * (?o - last_offset g + offset_adjust_ns g)) as"
    by (simp add: pulse_ffo_def Let_def fc)
  obtain d4 where d4: "correct_frequency io (pulse_ffo t ?l g) (Some d3) = Some (Some d4)" "fifo d4 = fifo d3"
      "view d4 = (view d3)(WRIOP_TMR_ADD := clamp_addend (get_drift_scale_factor (pulse_ffo t ?l g) (view d3 WRIOP_TMR_ADD)))"
    using correct_frequency_view [OF assms(1)] by blast
  obtain d5 where d5: "correct_phase io t ?o ao as g (Some d4) = Some (phase_static t ?o ao as g, Some d5)" "fifo d5 = fifo d4"
      "view d5 WRIOP_TMR_ADD = view d4 WRIOP_TMR_ADD"
      "pps_offset (view d4) = synced_offset g \<or> 900000000 < sint (t - last_offset_adjust g)
        \<longrightarrow> pps_offset (view d5) = synced_offset g + offset_adjust_ns (phase_static t ?o ao as g)"
    using correct_phase_view [OF assms(1)] by blast
  have "pps_offset (view d4) = pps_offset (view d)" by (simp add: d1 d2 d3 d4 pps_offset_def)
  moreover have "handle_pps io t g (Some d) = Some (pulse_static t ?l g, Some d5)"
    using ne d1(1) d2(1) d3(1) d4(1) d5(1) unfolding ffo
    by (simp add: handle_pps_def Let_def fc pulse_static_def)
  ultimately show ?thesis using d1 d2 d3 d4 d5 by (simp add: pulse_static_def Let_def fc)
qed

text \<open>
  C35. A pulse, on every branch. The handler returns and drains the timestamp buffer. It ignores the
  first pulse after start, a pulse without timestamp and one that jumps by more than 100
  microseconds, and then leaves the timer registers alone. Otherwise it leaves the frequency
  word within its bounds, and when the clock is off by more than a microsecond it takes the whole
  offset over at once. The offset register and the static \<open>synced_offset\<close> stay equal.
\<close>

theorem gps_pulse:
  assumes "wriop_ok io view fifo cnt"
  shows "\<exists>g' d'. handle_pps io t g (Some d) = Some (g', Some d') \<and> fifo d' = [] \<and> \<not> first_time g'
     \<and> (pps_offset (view d) = synced_offset g \<longrightarrow> pps_offset (view d') = synced_offset g')
     \<and> (if pulse_ignored t g (fifo d) then view d' = view d
        else ADDEND_MIN \<le> view d' WRIOP_TMR_ADD \<and> view d' WRIOP_TMR_ADD \<le> ADDEND_MAX
          \<and> (1000 < abs64 (t - last (fifo d)) \<and> 900000000 < sint (t - last_offset_adjust g)
             \<longrightarrow> synced_offset g' = synced_offset g + (t - last (fifo d))))"
proof (cases "pulse_ignored t g (fifo d)")
  case True
  then show ?thesis using handle_pps_ignored [OF assms True] by auto
next
  case False
  then have "\<not> first_time (pulse_static t (last (fifo d)) g)"
    by (simp add: pulse_ignored_def pulse_static_def Let_def split_def phase_static_def)
  moreover have "synced_offset (pulse_static t (last (fifo d)) g) = synced_offset g + (t - last (fifo d))"
    if "1000 < abs64 (t - last (fifo d))" "900000000 < sint (t - last_offset_adjust g)"
    using that by (simp add: pulse_static_def Let_def filter_constants_def phase_static_def)
  ultimately show ?thesis
    using handle_pps_taken [OF assms False] clamp_addend_bounds False by fastforce
qed

definition sample_static :: gps_static where
  "sample_static = \<lparr>first_time = False, last_offset = 4999999000, synced_offset = 0, offset_adjust_ns = 0,
     last_offset_adjust = 0\<rparr>"

theorem gps_pulse_witness:
  "\<exists>g' d'. handle_pps timer_ops 6000000007 sample_static (Some sample_timer) = Some (g', Some d')
     \<and> pps_offset (tm_regs d') = synced_offset g' \<and> synced_offset g' = 5000000000"
proof -
  have "\<not> pulse_ignored 6000000007 sample_static (tm_fifo sample_timer)"
    "1000 < abs64 (6000000007 - last (tm_fifo sample_timer))"
    "900000000 < sint (6000000007 - last_offset_adjust sample_static)"
    "pps_offset (tm_regs sample_timer) = synced_offset sample_static"
    "synced_offset sample_static + (6000000007 - last (tm_fifo sample_timer)) = 5000000000"
    by (simp_all add: pulse_ignored_def sample_static_def sample_timer_def abs64_def pps_offset_def)
  with gps_pulse [OF timer_ok, of 6000000007 sample_static sample_timer] show ?thesis by auto
qed

section \<open>Restarting the discipline\<close>

lemma reset_defaults_view:
  assumes "wriop_ok io view fifo cnt"
  shows "\<exists>d'. reset_timer_defaults io (Some d) = Some (Some d') \<and> pps_offset (view d') = 0
     \<and> view d' WRIOP_TMR_ADD = 0xb6db6db7 \<and> fifo d' = fifo d"
proof -
  obtain d1 where "dpaa2_set_pps_offset io 0 (Some d) = Some (Some d1)" "pps_offset (view d1) = 0" "fifo d1 = fifo d"
    using set_offset_view [OF assms] by blast
  then show ?thesis
    by (simp add: reset_timer_defaults_def dpaa2_set_pps_addend_def dpaa2_disable_1588_interrupts_def
        dpaa2_wriop_reg_write_def wriop_plain [OF assms]) (simp add: pps_offset_def)
qed

text \<open>
  Disabling and enabling the discipline clears the offset register but keeps the static
  \<open>synced_offset\<close>: the first phase correction afterwards loads the register with the forgotten
  offset plus the correction, not with the correction.
\<close>

theorem gps_restart_stale:
  assumes "wriop_ok io view fifo cnt"
    and "gps_sync_disable io gm (Some d) = Some (gm1, Some d1)"
    and "view d2 = view d1" and "\<not> pulse_ignored t g (fifo d2)" and "900000000 < sint (t - last_offset_adjust g)"
    and "handle_pps io t g (Some d2) = Some (g', Some d3)"
  shows "pps_offset (view d1) = 0 \<and> pps_offset (view d3) = synced_offset g + offset_adjust_ns g'"
proof -
  obtain d' where "reset_timer_defaults io (Some d) = Some (Some d')" "pps_offset (view d') = 0"
    using reset_defaults_view [OF assms(1)] by blast
  with assms(2) have "pps_offset (view d1) = 0" by (simp add: gps_sync_disable_def)
  moreover have "g' = pulse_static t (last (fifo d2)) g \<and> pps_offset (view d3) = synced_offset g'"
    using handle_pps_taken [OF assms(1,4)] assms(5,6) by auto
  ultimately show ?thesis by (simp add: pulse_static_def Let_def split_def)
qed

theorem gps_restart_stale_witness:
  "\<exists>d1 g' d3. gps_sync_disable timer_ops \<lparr>sockfd = 5, held = [], clib_file_index = 1\<rparr> (Some sample_timer)
        = Some (\<lparr>sockfd = 0, held = [], clib_file_index = 0\<rparr>, Some d1)
     \<and> handle_pps timer_ops 6000000007 (sample_static\<lparr>synced_offset := 77\<rparr>) (Some d1) = Some (g', Some d3)
     \<and> pps_offset (tm_regs d3) = 77 + offset_adjust_ns g'"
proof -
  let ?g = "sample_static\<lparr>synced_offset := 77\<rparr>"
  obtain d1 where r: "reset_timer_defaults timer_ops (Some sample_timer) = Some (Some d1)" "tm_fifo d1 = tm_fifo sample_timer"
    using reset_defaults_view [OF timer_ok] by blast
  then have dis: "gps_sync_disable timer_ops \<lparr>sockfd = 5, held = [], clib_file_index = 1\<rparr> (Some sample_timer)
        = Some (\<lparr>sockfd = 0, held = [], clib_file_index = 0\<rparr>, Some d1)"
    by (simp add: gps_sync_disable_def)
  have ni: "\<not> pulse_ignored 6000000007 ?g (tm_fifo d1)" "900000000 < sint (6000000007 - last_offset_adjust ?g)"
    by (simp_all add: r(2) pulse_ignored_def sample_static_def sample_timer_def abs64_def)
  obtain d3 where h: "handle_pps timer_ops 6000000007 ?g (Some d1) = Some (pulse_static 6000000007 (last (tm_fifo d1)) ?g, Some d3)"
    using handle_pps_taken [OF timer_ok ni(1)] by blast
  from gps_restart_stale [OF timer_ok dis refl ni h] dis h show ?thesis by auto
qed

section \<open>The frequency word\<close>

lemma sdiv_nonneg: "0 \<le> a \<Longrightarrow> 0 < b \<Longrightarrow> a sdiv b = a div (b :: int)"
  by (cases "a = 0") (simp_all add: signed_divide_int_def)

lemma sint_word_of_int_64: "- (2 ^ 63) \<le> x \<Longrightarrow> x < 2 ^ 63 \<Longrightarrow> sint (word_of_int x :: u64) = x"
  by (simp add: sint_sbintrunc' signed_take_bit_int_eq_self)

lemma ucast_down_of_int: "ucast (word_of_int x :: u64) = (word_of_int x :: u32)"
  by transfer (simp add: take_bit_take_bit)

lemma div_bounds: "0 < f \<Longrightarrow> n div f * f \<le> n \<and> n < (n div f + 1) * (f :: int)"
proof -
  assume "0 < f"
  then have "n mod f < f" "0 \<le> n mod f" by simp_all
  moreover have "(n div f + 1) * f = n div f * f + f" by (simp add: distrib_right)
  ultimately show ?thesis using div_mult_mod_eq [of n f] by linarith
qed

lemma drift_scale:
  assumes "\<bar>sint drift\<bar> \<le> 200000000"
  shows "get_drift_scale_factor drift addend = word_of_int (uint addend * NSEC_PER_SEC div (NSEC_PER_SEC + sint drift))"
proof -
  have a: "0 \<le> uint addend" "uint addend < 2 ^ 32" using uint_lt2p [of addend] by simp_all
  have d: "word_of_int NSEC_PER_SEC + drift = (word_of_int (NSEC_PER_SEC + sint drift) :: u64)" by simp
  have f: "sint (word_of_int (NSEC_PER_SEC + sint drift) :: u64) = NSEC_PER_SEC + sint drift"
    by (rule sint_word_of_int_64) (use assms in \<open>auto simp: abs_le_iff\<close>)
  then have nz: "(word_of_int (NSEC_PER_SEC + sint drift) :: u64) \<noteq> 0"
    using assms by (auto simp: abs_le_iff)
  have m: "ucast addend * word_of_int NSEC_PER_SEC = (word_of_int (uint addend * NSEC_PER_SEC) :: u64)"
    by (simp only: ucast_eq of_int_mult)
  have p: "sint (word_of_int (uint addend * NSEC_PER_SEC) :: u64) = uint addend * NSEC_PER_SEC"
    by (rule sint_word_of_int_64 [OF order_trans [of _ 0]]) (use a(2) in simp_all)
  show ?thesis
    using assms a nz unfolding get_drift_scale_factor_def Let_def d m sdiv64_def f p
    by (simp add: sdiv_nonneg abs_le_iff ucast_down_of_int)
qed

text \<open>
  The frequency word: for a measured drift of up to 200 parts per million the 64-bit
  computation does not overflow, and the new word is the old one times the target frequency over
  the observed one, rounded down: the timer then runs at its nominal frequency to within one step.
\<close>

theorem gps_drift_scale:
  assumes "\<bar>sint drift\<bar> \<le> 200000" and "addend \<le> ADDEND_MAX" and "q = uint (get_drift_scale_factor drift addend)"
  shows "q * (NSEC_PER_SEC + sint drift) \<le> uint addend * NSEC_PER_SEC
     \<and> uint addend * NSEC_PER_SEC < (q + 1) * (NSEC_PER_SEC + sint drift)"
proof -
  let ?f = "NSEC_PER_SEC + sint drift"
  let ?n = "uint addend * NSEC_PER_SEC"
  have f: "999800000 \<le> ?f" using assms(1) by (simp add: abs_le_iff)
  have a: "uint addend \<le> 3067899999" using assms(2) by (simp add: word_le_def)
  have "?n div ?f \<le> ?n div 999800000" by (rule zdiv_mono2) (use f in simp_all)
  also have "\<dots> < 2 ^ 32" using a by simp
  finally have u: "?n div ?f < 2 ^ 32" .
  have "0 \<le> ?n div ?f" using f by (simp add: pos_imp_zdiv_nonneg_iff)
  with u have "q = ?n div ?f"
    unfolding assms(3) using drift_scale [of drift addend] assms(1)
    by (simp add: uint_word_of_int take_bit_int_eq_self)
  then show ?thesis using f div_bounds [of ?f ?n] by simp
qed

theorem gps_drift_scale_witness:
  "uint (get_drift_scale_factor (- 1000) 3067833783) * 999999000 \<le> 3067833783 * 1000000000"
  using gps_drift_scale [of "- 1000" 3067833783, OF _ _ refl] by simp

section \<open>Lines of the socket\<close>

abbreviation NL :: char where "NL \<equiv> CHR 0x0A"
abbreviation NUL :: char where "NUL \<equiv> CHR 0x00"

lemma tokens_Nil [simp]: "tokens [] = []"
  by (subst tokens.simps) (simp add: strtok_def)

lemma tokens_NL [simp]: "tokens (NL # s) = tokens s"
  by (subst (1 2) tokens.simps) (simp add: strtok_def)

lemma take_word: "c \<notin> set w \<Longrightarrow> takeWhile (\<lambda>x. x \<noteq> c) (w @ c # r) = w \<and> dropWhile (\<lambda>x. x \<noteq> c) (w @ c # r) = c # r"
  by (induction w) auto

lemma take_end: "c \<notin> set w \<Longrightarrow> takeWhile (\<lambda>x. x \<noteq> c) w = w \<and> dropWhile (\<lambda>x. x \<noteq> c) w = []"
  by (induction w) auto

lemma strtok_word:
  assumes "w \<noteq> []" and "c \<notin> set w"
  shows "strtok c (w @ c # r) = Some (w, r)"
proof -
  have "dropWhile (\<lambda>x. x = c) (w @ c # r) = w @ c # r" using assms by (cases w) auto
  then show ?thesis using take_word [OF assms(2), of r] by (simp add: strtok_def Let_def)
qed

lemma strtok_end:
  assumes "w \<noteq> []" and "c \<notin> set w"
  shows "strtok c w = Some (w, [])"
proof -
  have "dropWhile (\<lambda>x. x = c) w = w" using assms by (cases w) auto
  then show ?thesis using take_end [OF assms(2)] assms(1) unfolding strtok_def Let_def by (simp only: list.sel if_False)
qed

lemma tokens_word: "w \<noteq> [] \<Longrightarrow> NL \<notin> set w \<Longrightarrow> tokens (w @ NL # r) = w # tokens r"
  by (subst tokens.simps) (simp add: strtok_word)

lemma tokens_append: "tokens (a @ NL # b) = tokens a @ tokens b"
proof (induction a rule: length_induct)
  case (1 a)
  show ?case
  proof (cases a)
    case (Cons x xs)
    show ?thesis
    proof (cases "x = NL")
      case True
      with Cons 1 show ?thesis by simp
    next
      case False
      let ?w = "takeWhile (\<lambda>c. c \<noteq> NL) a"
      let ?r = "dropWhile (\<lambda>c. c \<noteq> NL) a"
      have a: "a = ?w @ ?r" by simp
      have w: "?w \<noteq> []" "NL \<notin> set ?w" using Cons False by (auto dest: set_takeWhileD)
      show ?thesis
      proof (cases ?r)
        case Nil
        then have "a = ?w" using a append_Nil2 by metis
        then have "tokens a = [?w]" using w by (subst tokens.simps) (simp add: strtok_end)
        then show ?thesis using tokens_word [OF w, of b] \<open>a = ?w\<close> by simp
      next
        case (Cons y r)
        then have "y = NL" using hd_dropWhile [of "\<lambda>c. c \<noteq> NL" a] by simp
        then have a': "a = ?w @ NL # r" using a Cons by simp
        then have "length r < length a" by (metis length_append length_Cons add_Suc_right less_Suc_eq_le le_add2)
        then have "tokens (r @ NL # b) = tokens r @ tokens b" using 1 by blast
        then have "tokens (?w @ NL # r @ NL # b) = tokens (?w @ NL # r) @ tokens b"
          using tokens_word [OF w] by simp
        then show ?thesis using a' by (metis append.assoc append_Cons)
      qed
    qed
  qed simp
qed

text \<open>The complete lines of a text, and what follows the last of them.\<close>

definition cut :: "string \<Rightarrow> string \<times> string" where
  "cut s = (case split_last s of None \<Rightarrow> ([], s) | Some p \<Rightarrow> p)"

lemma split_last_eq: "NL \<notin> set h \<Longrightarrow> split_last (a @ NL # h) = Some (a, h)"
  by (simp add: split_last_def takeWhile_append dropWhile_append)

lemma cut_eq: "NL \<notin> set h \<Longrightarrow> cut (a @ NL # h) = (a, h)"
  by (simp add: cut_def split_last_eq)

lemma cut_none: "NL \<notin> set h \<Longrightarrow> cut h = ([], h)"
  by (simp add: cut_def split_last_def)

lemma last_NL: "NL \<in> set s \<Longrightarrow> \<exists>a h. s = a @ NL # h \<and> NL \<notin> set h"
  by (rule split_list_last)

lemma cstr_id: "NUL \<notin> set s \<Longrightarrow> cstr s = s"
  unfolding cstr_def by (rule takeWhile_eq_all_conv [THEN iffD2]) auto

lemma split_report_eq:
  assumes "NL \<notin> set h" and "NUL \<notin> set (a @ NL # h)"
  shows "tokens (fst (split_report (a @ NL # h))) = tokens a
    \<and> (case snd (split_report (a @ NL # h)) of None \<Rightarrow> [] | Some p \<Rightarrow> p) = h"
proof (cases "h = []")
  case True
  then show ?thesis using assms(2) by (simp add: split_report_def cstr_id tokens_append)
next
  case False
  then have "last (a @ NL # h) \<noteq> NL" using assms(1) last_in_set [of h] by (metis last_append last_ConsR list.discI)
  moreover have "NUL \<notin> set h" using assms(2) by simp
  ultimately show ?thesis
    using assms by (simp add: split_report_def cstr_id [OF assms(2)] split_last_eq cstr_id)
qed

lemma handle_lines_append:
  "handle_lines io utc (xs @ ys) s = Option.bind (handle_lines io utc xs s) (handle_lines io utc ys)"
  by (induction xs arbitrary: s) (auto split: bind_splits)

text \<open>The handler called for one chunk after another.\<close>

primrec report_run ::
  "'r wriop_ops \<Rightarrow> int \<Rightarrow> string list \<Rightarrow> gps_main \<times> gps_static \<times> 'r option \<Rightarrow> (gps_main \<times> gps_static \<times> 'r option) option" where
  "report_run io utc [] s = Some s"
| "report_run io utc (c # cs) s =
     Option.bind (gps_report_ready io utc (Inr c) (fst s) (snd s)) (\<lambda>(_, s1). report_run io utc cs s1)"

lemma report_run_cut:
  assumes "\<forall>c \<in> set cs. NL \<in> set c \<and> NUL \<notin> set c" and "NUL \<notin> set (held gm)" and "NL \<notin> set (held gm)"
  shows "report_run io utc cs (gm, s) =
     map_option (\<lambda>s'. (gm\<lparr>held := snd (cut (held gm @ concat cs))\<rparr>, s'))
       (handle_lines io utc (tokens (fst (cut (held gm @ concat cs)))) s)"
  using assms
proof (induction cs arbitrary: gm s)
  case Nil
  then show ?case by (simp add: cut_none)
next
  case (Cons c cs)
  then have "NL \<in> set (held gm @ c)" by simp
  then obtain a h where ah: "held gm @ c = a @ NL # h" "NL \<notin> set h" using last_NL by metis
  have nul: "NUL \<notin> set (a @ NL # h)" using Cons.prems ah(1) by (metis Un_iff list.set_intros(1) set_append)
  have nulh: "NUL \<notin> set h" using nul by simp
  let ?gm = "gm\<lparr>held := h\<rparr>"
  have step: "gps_report_ready io utc (Inr c) gm s = map_option (\<lambda>s1. (0, ?gm, s1)) (handle_lines io utc (tokens a) s)"
    using split_report_eq [OF ah(2) nul]
    by (auto simp: gps_report_ready_def ah(1) split_def Let_def split: bind_splits)
  have IH: "report_run io utc cs (?gm, s1) =
      map_option (\<lambda>s'. (?gm\<lparr>held := snd (cut (h @ concat cs))\<rparr>, s')) (handle_lines io utc (tokens (fst (cut (h @ concat cs)))) s1)" for s1
    using Cons.IH [of ?gm s1] Cons.prems nulh ah(2) by simp
  have cut: "tokens (fst (cut (a @ NL # h @ concat cs))) = tokens a @ tokens (fst (cut (h @ concat cs)))
      \<and> snd (cut (a @ NL # h @ concat cs)) = snd (cut (h @ concat cs))"
  proof (cases "NL \<in> set (h @ concat cs)")
    case True
    then obtain b k where "h @ concat cs = b @ NL # k" "NL \<notin> set k" using last_NL by metis
    then show ?thesis using cut_eq [of k b] cut_eq [of k "a @ NL # b"] by (simp add: tokens_append)
  next
    case False
    then show ?thesis using cut_eq [OF False, of a] by (simp add: cut_none)
  qed
  have "held gm @ concat (c # cs) = a @ NL # h @ concat cs" using ah(1) by simp
  then show ?case
    using cut by (cases "handle_lines io utc (tokens a) s") (simp_all add: step IH handle_lines_append del: concat.simps append_assoc)
qed

text \<open>
  Lines are reassembled: as long as every read contains a newline, the sentences handled do not
  depend on how the stream of gpsd is cut into reads. They are the complete lines of the whole
  stream, in order, each once, and the rest is held for the next read.
\<close>

theorem gps_lines_reassembled:
  assumes "\<forall>c \<in> set cs. NL \<in> set c \<and> NUL \<notin> set c" and "held gm = []"
  shows "report_run io utc cs (gm, s) =
     map_option (\<lambda>s'. (gm\<lparr>held := snd (cut (concat cs))\<rparr>, s'))
       (handle_lines io utc (tokens (fst (cut (concat cs)))) s)"
  using report_run_cut [OF assms(1), of gm io utc s] assms(2) by simp

theorem gps_lines_reassembled_witness:
  "report_run timer_ops 0 [''A'' @ [NL] @ ''B'', ''C'' @ [NL]] (\<lparr>sockfd = 5, held = [], clib_file_index = 1\<rparr>, gps_static_init, Some sample_timer)
     = Some (\<lparr>sockfd = 5, held = [], clib_file_index = 1\<rparr>, gps_static_init, Some sample_timer)"
proof -
  let ?cs = "[''A'' @ [NL] @ ''B'', ''C'' @ [NL]]"
  have "cut (concat ?cs) = (''A'' @ [NL] @ ''BC'', [])" using cut_eq [of "[]" "''A'' @ [NL] @ ''BC''"] by simp
  moreover have "tokens (''A'' @ [NL] @ ''BC'') = [''A'', ''BC'']"
    using tokens_word [of "''A''" "''BC''"] by (simp add: tokens.simps [of "''BC''"] strtok_end)
  ultimately show ?thesis
    using gps_lines_reassembled [of ?cs "\<lparr>sockfd = 5, held = [], clib_file_index = 1\<rparr>" timer_ops 0 "(gps_static_init, Some sample_timer)"]
    by (simp add: parse_msg_time_def)
qed

section \<open>The time of a sentence\<close>

definition d2 :: "nat \<Rightarrow> string" where
  "d2 n = [''0123456789'' ! (n div 10), ''0123456789'' ! (n mod 10)]"

primrec csv :: "string list \<Rightarrow> string \<Rightarrow> string" where
  "csv [] t = t"
| "csv (f # fs) t = f @ CHR '','' # csv fs t"

definition field_ok :: "string \<Rightarrow> bool" where
  "field_ok f \<longleftrightarrow> f \<noteq> [] \<and> CHR '','' \<notin> set f"

lemma strtok_csv: "field_ok f \<Longrightarrow> strtok CHR '','' (csv (f # fs) t) = Some (f, csv fs t)"
  by (simp add: field_ok_def strtok_word)

lemma field_loop_csv:
  assumes "list_all field_ok fs" and "length fs = 9 - k" and "k \<le> 9"
  shows "field_loop k True (csv fs t) tod date = (if k = 0 then Some (hd fs) else tod, if k < 9 then Some (last fs) else date)"
  using assms
proof (induction fs arbitrary: k tod date)
  case Nil
  then show ?case by (subst field_loop.simps) simp
next
  case (Cons f fs)
  then have k: "k < 9" "length fs = 9 - Suc k" by auto
  have "field_loop k True (csv (f # fs) t) tod date =
      field_loop (Suc k) True (csv fs t) (if Suc k = 1 then Some f else tod) (if Suc k = 9 then Some f else date)"
    using k Cons.prems(1) by (subst field_loop.simps) (simp add: strtok_csv del: csv.simps)
  also have "\<dots> = (if Suc k = 0 then Some (hd fs) else if Suc k = 1 then Some f else tod,
      if Suc k < 9 then Some (last fs) else if Suc k = 9 then Some f else date)"
    by (rule Cons.IH) (use Cons.prems k in auto)
  finally show ?case using k by auto
qed

lemma digit_char:
  assumes "d < 10"
  shows "is_digit (''0123456789'' ! d) \<and> digit_val (''0123456789'' ! d) = int d \<and> ''0123456789'' ! d \<noteq> CHR '' ''"
proof -
  from assms have "d \<in> {0, 1, 2, 3, 4, 5, 6, 7, 8, 9}" by auto
  then show ?thesis by (elim insertE) (simp_all add: is_digit_def digit_val_def)
qed

lemma get_number_d2:
  assumes "n < 100" and "lo \<le> int n" and "int n \<le> hi"
  shows "get_number lo hi (d2 n @ r) = Some (int n, r)"
proof -
  have a: "n div 10 < 10" "n mod 10 < 10" using assms(1) by auto
  note h = digit_char [OF a(1)] and l = digit_char [OF a(2)]
  have "int (n div 10) * 10 \<le> hi" using assms(3) by linarith
  moreover have "int (n div 10) * 10 + int (n mod 10) = int n" by (simp add: zdiv_int zmod_int)
  ultimately show ?thesis using assms h l by (simp add: get_number_def d2_def)
qed

lemma d2_no_space: "n < 100 \<Longrightarrow> dropWhile (\<lambda>c. c = CHR '' '') (d2 n @ r) = d2 n @ r"
  using digit_char [of "n div 10"] by (simp add: d2_def)

lemma strptime_d2:
  assumes "1 \<le> d" "d \<le> 31" "1 \<le> mo" "mo \<le> 12" "y \<le> 99" "h \<le> 23" "mi \<le> 59" "sec \<le> 61"
  shows "strptime_date (d2 d @ d2 mo @ d2 y @ d2 h @ d2 mi @ d2 sec @ r) =
     \<lparr>tm_mday = int d, tm_mon = int mo - 1, tm_year = (if 69 \<le> int y then int y else int y + 100),
      tm_hour = int h, tm_min = int mi, tm_sec = int sec\<rparr>"
  using assms by (simp add: strptime_date_def get_number_d2 d2_no_space Let_def tm_zero_def)

text \<open>
  The time of a sentence: a \<open>$GPRMC\<close> sentence with nine non-empty fields, of which the first
  is the time of day and the ninth the date, is read as exactly that time, in nanoseconds.
\<close>

theorem gps_parse_time:
  assumes "list_all field_ok fs" and "length fs = 9"
    and "hd fs = d2 h @ d2 mi @ d2 sec @ frac" and "last fs = d2 d @ d2 mo @ d2 y"
    and "1 \<le> d \<and> d \<le> 31 \<and> 1 \<le> mo \<and> mo \<le> 12 \<and> y \<le> 99 \<and> h \<le> 23 \<and> mi \<le> 59 \<and> sec \<le> 61"
  shows "parse_msg_time utc (''$GPRMC'' @ CHR '','' # csv fs t) =
     Some (Some (word_of_int (mktime utc
       \<lparr>tm_mday = int d, tm_mon = int mo - 1, tm_year = (if 69 \<le> int y then int y else int y + 100),
        tm_hour = int h, tm_min = int mi, tm_sec = int sec\<rparr>) * word_of_int NSEC_PER_SEC))"
proof -
  have tok: "strtok CHR '','' (''$GPRMC'' @ CHR '','' # csv fs t) = Some (''$GPRMC'', csv fs t)"
    by (rule strtok_word) simp_all
  have loop: "field_loop 0 True (csv fs t) None None = (Some (hd fs), Some (last fs))"
    using field_loop_csv [OF assms(1), of 0] assms(2) by simp
  have len: "length (last fs) = 6" by (simp add: assms(4) d2_def)
  have date: "take 19 (last fs @ hd fs) = d2 d @ d2 mo @ d2 y @ d2 h @ d2 mi @ d2 sec @ take 7 frac"
    by (simp add: assms(3,4) d2_def)
  have "take 6 (''$GPRMC'' @ CHR '','' # csv fs t) = ''$GPRMC''" by simp
  then show ?thesis
    unfolding parse_msg_time_def tok option.case prod.case loop
    using assms(5) by (simp add: len date strptime_d2 Let_def del: append.simps take_append)
qed

definition sample_fields :: "string list" where
  "sample_fields = [''123519'', ''A'', ''4807.038'', ''N'', ''01131.000'', ''E'', ''022.4'', ''084.4'', ''230394'']"

theorem gps_parse_time_witness:
  "parse_msg_time 0 (''$GPRMC'' @ CHR '','' # csv sample_fields ''003.1,W*6A'') = Some (Some (764426119 * 1000000000))"
proof -
  have "list_all field_ok sample_fields" "length sample_fields = 9"
    "hd sample_fields = d2 12 @ d2 35 @ d2 19 @ []" "last sample_fields = d2 23 @ d2 3 @ d2 94"
    by (simp_all add: sample_fields_def field_ok_def d2_def)
  note gps_parse_time [OF this, of 0 "''003.1,W*6A''"]
  moreover have "mktime 0 \<lparr>tm_mday = 23, tm_mon = 2, tm_year = 94, tm_hour = 12, tm_min = 35, tm_sec = 19\<rparr> = 764426119"
    by (simp add: mktime_def leaps_before_def days_before_month_def is_leap_def)
  ultimately show ?thesis by simp
qed

text \<open>
  An empty field shifts the others, because \<open>strtok_r\<close> skips it: without the course, the magnetic
  variation is read as the date, and the time of the sentence is lost.
\<close>

lemma gps_empty_field_shifts:
  "parse_msg_time 0 ''$GPRMC,123519,A,4807.038,N,01131.000,E,022.4,,230394,003.1,W*6A''
     = Some (Some (- 2209075200 * 1000000000))"
proof -
  have "parse_msg_time 0 (''$GPRMC'' @ CHR '','' # csv [''123519'', ''A'', ''4807.038'', ''N'', ''01131.000'', ''E'', ''022.4'',
      ''230394'', ''003.1''] ''W*6A'') = Some (Some (- 2209075200 * 1000000000))"
    by (simp add: parse_msg_time_def strtok_def field_loop.simps strptime_date_def get_number_def is_digit_def digit_val_def
        tm_zero_def mktime_def leaps_before_def days_before_month_def is_leap_def)
  then show ?thesis
    by (simp add: parse_msg_time_def strtok_def field_loop.simps)
qed

end
