(* ===== verification/Ptptc.thy ===== *)
theory Ptptc
  imports GpsSync
begin

text \<open>
  The PTP transparent clock plugin of VPP (\<open>vpp_plugins/ptptc/ptptc/node.c\<close>, \<open>ptptc.c\<close>). On
  ingress it stores the receive timestamp of a PTP event message in the message; on egress it
  recovers the timestamp and hands it to the hardware, or adds the residence time to the
  correction field.

  A packet buffer is the record \<open>ptp_buf\<close>: the flags the code tests as booleans, the bytes from
  the current position as a function. VPP and DPDK are the record \<open>ptp_env\<close>: locating the UDP
  header, computing the checksum, the next node of the feature arc, the reset of an mbuf, and
  the double-precision product of the clock correction, as the 64-bit integer it is cast to.
  Traces and debug messages are left out.
\<close>

section \<open>Packets\<close>

record ptp_buf =
  arc_index :: u32
  rewrite_len :: nat
  ext_hdr_valid :: bool
  csum_computed :: bool
  csum_correct :: bool
  offload_udp :: bool
  ol_ptp :: bool
  ol_cksum_bad :: bool
  ol_tx_tmst :: bool
  dyn_ts :: u64
  bytes :: "nat \<Rightarrow> u8"

record ptp_env =
  ip6_locate_udp :: "(nat \<Rightarrow> u8) \<Rightarrow> nat \<Rightarrow> nat option"
  l4_checksum :: "(nat \<Rightarrow> u8) \<Rightarrow> nat \<Rightarrow> u16"
  feature_next :: "ptp_buf \<Rightarrow> nat"
  mbuf_reset :: "ptp_buf \<Rightarrow> ptp_buf"
  clk_adj :: "u32 \<Rightarrow> u32 \<Rightarrow> u64"

definition get_be16 :: "(nat \<Rightarrow> u8) \<Rightarrow> nat \<Rightarrow> u16" where
  "get_be16 b i = push_bit 8 (ucast (b i)) OR ucast (b (i + 1))"

definition put_be16 :: "(nat \<Rightarrow> u8) \<Rightarrow> nat \<Rightarrow> u16 \<Rightarrow> nat \<Rightarrow> u8" where
  "put_be16 b i v = b(i := ucast (drop_bit 8 v), i + 1 := ucast v)"

definition get_be32 :: "(nat \<Rightarrow> u8) \<Rightarrow> nat \<Rightarrow> u32" where
  "get_be32 b i = push_bit 24 (ucast (b i)) OR push_bit 16 (ucast (b (i + 1)))
     OR push_bit 8 (ucast (b (i + 2))) OR ucast (b (i + 3))"

definition put_be32 :: "(nat \<Rightarrow> u8) \<Rightarrow> nat \<Rightarrow> u32 \<Rightarrow> nat \<Rightarrow> u8" where
  "put_be32 b i v = b(i := ucast (drop_bit 24 v), i + 1 := ucast (drop_bit 16 v), i + 2 := ucast (drop_bit 8 v), i + 3 := ucast v)"

text \<open>A 64-bit field in the byte order of the host, and \<open>clib_host_to_net_u64\<close>.\<close>

definition get_le64 :: "(nat \<Rightarrow> u8) \<Rightarrow> nat \<Rightarrow> u64" where
  "get_le64 b i = ucast (b i) OR push_bit 8 (ucast (b (i + 1))) OR push_bit 16 (ucast (b (i + 2)))
     OR push_bit 24 (ucast (b (i + 3))) OR push_bit 32 (ucast (b (i + 4))) OR push_bit 40 (ucast (b (i + 5)))
     OR push_bit 48 (ucast (b (i + 6))) OR push_bit 56 (ucast (b (i + 7)))"

definition put_le64 :: "(nat \<Rightarrow> u8) \<Rightarrow> nat \<Rightarrow> u64 \<Rightarrow> nat \<Rightarrow> u8" where
  "put_le64 b i v = (\<lambda>j. if i \<le> j \<and> j < i + 8 then ucast (drop_bit (8 * (j - i)) v) else b j)"

definition get_be64 :: "(nat \<Rightarrow> u8) \<Rightarrow> nat \<Rightarrow> u64" where
  "get_be64 b i = push_bit 56 (ucast (b i)) OR push_bit 48 (ucast (b (i + 1))) OR push_bit 40 (ucast (b (i + 2)))
     OR push_bit 32 (ucast (b (i + 3))) OR push_bit 24 (ucast (b (i + 4))) OR push_bit 16 (ucast (b (i + 5)))
     OR push_bit 8 (ucast (b (i + 6))) OR ucast (b (i + 7))"

definition clib_host_to_net_u64 :: "u64 \<Rightarrow> u64" where
  "clib_host_to_net_u64 v = get_be64 (put_le64 (\<lambda>_. 0) 0 v) 0"

section \<open>Plugin state\<close>

record 'r ptptc_main =
  enable_sw_if_name :: "string option"
  ports :: "int list"
  use_hw_timestamping :: bool
  timing_offset :: u32
  clk_offset_ppb :: u32
  wriop_regs :: "'r option"
  gm :: gps_main
  egress_index :: u32
  rx_checksum_offload_capa :: bool
  rx_ptp_classify_offload_capa :: bool

section \<open>Timestamps\<close>

abbreviation PTP_EVENT :: u16 where "PTP_EVENT \<equiv> 319"
abbreviation PTP_TYPE_SYNC :: u8 where "PTP_TYPE_SYNC \<equiv> 0"
abbreviation PTP_TYPE_DELAY_REQ :: u8 where "PTP_TYPE_DELAY_REQ \<equiv> 1"

text \<open>Offsets in \<open>struct ptp_header\<close>.\<close>

abbreviation correction_field :: nat where "correction_field \<equiv> 8"
abbreviation message_type_specific :: nat where "message_type_specific \<equiv> 16"

definition vlib_set_timestamp :: "ptp_env \<Rightarrow> u64 \<Rightarrow> ptp_buf \<Rightarrow> ptp_buf" where
  "vlib_set_timestamp env timestamp b =
     (let b1 = (if \<not> ext_hdr_valid b then (mbuf_reset env b)\<lparr>ext_hdr_valid := True\<rparr> else b)
      in b1\<lparr>ol_tx_tmst := True, dyn_ts := timestamp\<rparr>)"

definition validate_checksum :: "ptp_env \<Rightarrow> nat \<Rightarrow> nat \<Rightarrow> ptp_buf \<Rightarrow> ptp_buf" where
  "validate_checksum env ip udp b =
     (if get_be16 (bytes b) (udp + 6) = 0 then b\<lparr>csum_computed := True, csum_correct := True\<rparr>
      else b\<lparr>csum_computed := True, csum_correct := csum_correct b \<or> l4_checksum env (bytes b) ip = 0\<rparr>)"

text \<open>
  The result tells whether the checksum has to be computed again; the number counts the packet
  as handled. \<open>h\<close> is the position of the PTP header.
\<close>

definition ptptc_set_timestamp ::
  "ptp_env \<Rightarrow> 'r wriop_ops \<Rightarrow> nat \<Rightarrow> ptp_buf \<Rightarrow> 'r ptptc_main \<Rightarrow> (bool \<times> nat \<times> ptp_buf \<times> 'r ptptc_main) option" where
  "ptptc_set_timestamp env io h b pmp =
     (let message_type = bytes b h AND 0x0f
      in if message_type = PTP_TYPE_SYNC \<or> message_type = PTP_TYPE_DELAY_REQ
         then
           if arc_index b \<noteq> egress_index pmp
           then Some (True, 1, b\<lparr>bytes := put_be32 (bytes b) (h + message_type_specific) (ucast (dyn_ts b))\<rparr>, pmp)
           else do {
             (cur_ts, regs) \<leftarrow> dpaa2_get_current_timestamp_with_offset io (wriop_regs pmp);
             let recover_ts_low = get_be32 (bytes b) (h + message_type_specific);
                 diff = ucast cur_ts - recover_ts_low;
                 recover_ts = cur_ts - ucast diff - scast (timing_offset pmp) + clk_adj env diff (clk_offset_ppb pmp);
                 b1 = b\<lparr>bytes := put_be32 (bytes b) (h + message_type_specific) 0\<rparr>;
                 pmp1 = pmp\<lparr>wriop_regs := regs\<rparr>
             in if use_hw_timestamping pmp
                then Some (False, 1, vlib_set_timestamp env recover_ts b1, pmp1)
                else
                  let c = get_le64 (bytes b1) (h + correction_field)
                            + clib_host_to_net_u64 (push_bit 16 (cur_ts - recover_ts))
                  in Some (True, 1, b1\<lparr>bytes := put_le64 (bytes b1) (h + correction_field) c\<rparr>, pmp1)
           }
         else Some (False, 0, b, pmp))"

section \<open>The node\<close>

datatype ptp_error = NoError | UdpLength | UdpChecksum

text \<open>
  The offload flags of an ingress packet: \<open>None\<close> when the packet is passed on, otherwise what
  \<open>good_l4_csum\<close> is afterwards. \<open>bad\<close> is the checksum flag that is tested and \<open>carry\<close> tells whether
  the outcome is stored in the variable of this packet; both differ for the second packet of a
  pair, which tests \<open>ol_flags0\<close> and assigns \<open>good_l4_csum0\<close>.
\<close>

definition ptptc_offload :: "'r ptptc_main \<Rightarrow> bool \<Rightarrow> bool \<Rightarrow> ptp_buf \<Rightarrow> bool option" where
  "ptptc_offload pmp bad carry b =
     (if arc_index b \<noteq> egress_index pmp
      then
        if rx_ptp_classify_offload_capa pmp \<and> \<not> ol_ptp b then None
        else if rx_checksum_offload_capa pmp then (if bad then None else Some carry)
        else Some False
      else Some False)"

text \<open>From the IPv6 header on: the error, the handled count, the packet and the plugin.\<close>

definition ptptc_update ::
  "ptp_env \<Rightarrow> 'r wriop_ops \<Rightarrow> bool \<Rightarrow> bool \<Rightarrow> ptp_buf \<Rightarrow> 'r ptptc_main
   \<Rightarrow> (ptp_error \<times> nat \<times> ptp_buf \<times> 'r ptptc_main) option" where
  "ptptc_update env io zero_csum good0 b pmp =
     (let ip = (if arc_index b = egress_index pmp then rewrite_len b else 0)
      in case ip6_locate_udp env (bytes b) ip of
           None \<Rightarrow> Some (NoError, 0, b, pmp)
         | Some udp_offset \<Rightarrow>
             let udp = ip + udp_offset
             in if get_be16 (bytes b) (ip + 4) < get_be16 (bytes b) (udp + 4) then Some (UdpLength, 0, b, pmp)
                else if get_be16 (bytes b) (udp + 2) \<noteq> PTP_EVENT then Some (NoError, 0, b, pmp)
                else
                  let good1 = (good0 \<or> csum_correct b \<or> offload_udp b);
                      (good2, b1) = (if \<not> good1 \<and> \<not> csum_computed b
                                     then let b' = validate_checksum env ip udp b in (csum_correct b', b')
                                     else (good1, b))
                  in if \<not> good2 then Some (UdpChecksum, 0, b1, pmp)
                     else do {
                       (recompute, n, b2, pmp1) \<leftarrow> ptptc_set_timestamp env io (udp + 8) b1 pmp;
                       let b3 = (if recompute
                                 then
                                   let m = (if zero_csum then put_be16 (bytes b2) (udp + 6) 0 else bytes b2)
                                   in b2\<lparr>bytes := put_be16 m (udp + 6) (l4_checksum env m ip)\<rparr>
                                 else b2)
                       in Some (NoError, n, b3, pmp1)
                     })"

definition ptptc_one ::
  "ptp_env \<Rightarrow> 'r wriop_ops \<Rightarrow> bool \<Rightarrow> bool option \<Rightarrow> ptp_buf \<Rightarrow> 'r ptptc_main
   \<Rightarrow> (ptp_error \<times> nat \<times> ptp_buf \<times> 'r ptptc_main) option" where
  "ptptc_one env io zero_csum offload b pmp =
     (case offload of None \<Rightarrow> Some (NoError, 0, b, pmp)
      | Some good0 \<Rightarrow> ptptc_update env io zero_csum good0 b pmp)"

text \<open>
  A packet leaves with the index of its next node: 0 (drop) when it has an error. The three
  variants: alone, first of a pair, second of a pair. \<open>junk\<close> stands for the uninitialised
  \<open>ol_flags0\<close> when the first packet of the pair is on egress.
\<close>

definition ptptc_single where
  "ptptc_single env io b pmp =
     ptptc_one env io False (ptptc_offload pmp (ol_cksum_bad b) True b) b pmp"

definition ptptc_first where
  "ptptc_first env io b pmp =
     ptptc_one env io True (ptptc_offload pmp (ol_cksum_bad b) True b) b pmp"

definition ptptc_second where
  "ptptc_second env io junk b0 b pmp =
     ptptc_one env io True
       (ptptc_offload pmp (if arc_index b0 \<noteq> egress_index pmp then ol_cksum_bad b0 else junk) False b) b pmp"

definition next_of :: "ptp_env \<Rightarrow> ptp_buf \<Rightarrow> ptp_error \<Rightarrow> nat" where
  "next_of env b e = (if e = NoError then feature_next env b else 0)"

text \<open>
  The node: in pairs while at least four packets are left and the next frame has room for two,
  otherwise one at a time; \<open>room n\<close> tells whether it has room when \<open>n\<close> packets are left.
\<close>

fun ptptc_node_loop ::
  "ptp_env \<Rightarrow> 'r wriop_ops \<Rightarrow> (nat \<Rightarrow> bool) \<Rightarrow> bool \<Rightarrow> ptp_buf list \<Rightarrow> 'r ptptc_main
   \<Rightarrow> (nat \<times> (nat \<times> ptp_buf) list \<times> 'r ptptc_main) option" where
  "ptptc_node_loop env io room junk [] pmp = Some (0, [], pmp)"
| "ptptc_node_loop env io room junk (b0 # bs) pmp =
     (case bs of
        b1 # b2 # b3 # r \<Rightarrow>
          if room (length (b0 # bs))
          then do {
            (e0, n0, b0', pmp0) \<leftarrow> ptptc_first env io b0 pmp;
            (e1, n1, b1', pmp1) \<leftarrow> ptptc_second env io junk b0 b1 pmp0;
            (n, out, pmp2) \<leftarrow> ptptc_node_loop env io room junk (b2 # b3 # r) pmp1;
            Some (n0 + n1 + n, (next_of env b0 e0, b0') # (next_of env b1 e1, b1') # out, pmp2)
          }
          else do {
            (e0, n0, b0', pmp0) \<leftarrow> ptptc_single env io b0 pmp;
            (n, out, pmp1) \<leftarrow> ptptc_node_loop env io room junk bs pmp0;
            Some (n0 + n, (next_of env b0 e0, b0') # out, pmp1)
          }
      | _ \<Rightarrow> do {
            (e0, n0, b0', pmp0) \<leftarrow> ptptc_single env io b0 pmp;
            (n, out, pmp1) \<leftarrow> ptptc_node_loop env io room junk bs pmp0;
            Some (n0 + n, (next_of env b0 e0, b0') # out, pmp1)
          })"

section \<open>Configuration (ptptc.c)\<close>

text \<open>
  The single-step register blocks of the output ports: \<open>map_port\<close> is the result of mapping one,
  \<open>steps\<close> the values written, in order. \<open>None\<close> is an error return.
\<close>

definition ptptc_port_enable_single_step ::
  "(int \<Rightarrow> bool) \<Rightarrow> int \<Rightarrow> (int \<times> u32) list \<Rightarrow> (int \<times> u32) list option" where
  "ptptc_port_enable_single_step map_port port steps =
     (if \<not> map_port port then None else Some (steps @ [(port, single_step_value True 70 True)]))"

definition ptptc_port_command_fn ::
  "(int \<Rightarrow> bool) \<Rightarrow> int option \<Rightarrow> (int \<times> u32) list \<times> 'r ptptc_main \<Rightarrow> bool \<times> (int \<times> u32) list \<times> 'r ptptc_main" where
  "ptptc_port_command_fn map_port arg s =
     (case arg of
        None \<Rightarrow> (True, s)
      | Some port \<Rightarrow>
          (case ptptc_port_enable_single_step map_port port (fst s) of
             None \<Rightarrow> (False, s)
           | Some steps \<Rightarrow> (True, steps, (snd s)\<lparr>use_hw_timestamping := True\<rparr>)))"

definition ptptc_offset_command_fn :: "u32 option \<Rightarrow> 'r ptptc_main \<Rightarrow> 'r ptptc_main" where
  "ptptc_offset_command_fn arg pmp = (case arg of None \<Rightarrow> pmp | Some x \<Rightarrow> pmp\<lparr>timing_offset := x\<rparr>)"

definition ptptc_clk_offset_command_fn :: "u32 option \<Rightarrow> 'r ptptc_main \<Rightarrow> 'r ptptc_main" where
  "ptptc_clk_offset_command_fn arg pmp = (case arg of None \<Rightarrow> pmp | Some x \<Rightarrow> pmp\<lparr>clk_offset_ppb := x\<rparr>)"

text \<open>
  \<open>hardware\<close> tells whether an index is a used hardware interface, \<open>arc\<close> is the index of the
  interface-output arc; the feature calls are recorded as the list of interfaces switched.
\<close>

definition ptptc_enable_disable ::
  "(u32 \<Rightarrow> bool) \<Rightarrow> u32 \<Rightarrow> u32 \<Rightarrow> bool \<Rightarrow> (u32 \<times> bool) list \<times> 'r ptptc_main \<Rightarrow> bool \<times> (u32 \<times> bool) list \<times> 'r ptptc_main" where
  "ptptc_enable_disable hardware arc sw_if_index en s =
     (if \<not> hardware sw_if_index then (False, s)
      else (True, fst s @ [(sw_if_index, en)], (snd s)\<lparr>egress_index := arc\<rparr>))"

datatype ptp_token = PDisable | PGpsSync | PRxChecksum | PRxClassify | PInterface u32

text \<open>The options of \<open>ptptc enable-disable\<close>: interface, enable, GPS synchronisation.\<close>

fun ptp_options :: "ptp_token list \<Rightarrow> u32 \<times> bool \<times> bool \<Rightarrow> 'r ptptc_main \<Rightarrow> (u32 \<times> bool \<times> bool) \<times> 'r ptptc_main" where
  "ptp_options [] o3 pmp = (o3, pmp)"
| "ptp_options (PDisable # ts) (i, e, g) pmp = ptp_options ts (i, False, g) pmp"
| "ptp_options (PGpsSync # ts) (i, e, g) pmp = ptp_options ts (i, e, True) pmp"
| "ptp_options (PRxChecksum # ts) o3 pmp = ptp_options ts o3 (pmp\<lparr>rx_checksum_offload_capa := True\<rparr>)"
| "ptp_options (PRxClassify # ts) o3 pmp = ptp_options ts o3 (pmp\<lparr>rx_ptp_classify_offload_capa := True\<rparr>)"
| "ptp_options (PInterface j # ts) (i, e, g) pmp = ptp_options ts (j, e, g) pmp"

definition ptptc_enable_disable_command_fn ::
  "'r wriop_ops \<Rightarrow> int \<Rightarrow> int option \<Rightarrow> u32 \<Rightarrow> (u32 \<Rightarrow> bool) \<Rightarrow> u32 \<Rightarrow> ptp_token list \<Rightarrow> (u32 \<times> bool) list \<times> 'r ptptc_main
   \<Rightarrow> (bool \<times> (u32 \<times> bool) list \<times> 'r ptptc_main) option" where
  "ptptc_enable_disable_command_fn io fd err file_index hardware arc ts s =
     (let ((i, en, gps), pmp1) = ptp_options ts (- 1, True, False)
             ((snd s)\<lparr>rx_checksum_offload_capa := False, rx_ptp_classify_offload_capa := False\<rparr>)
      in if i = - 1 then Some (False, fst s, pmp1)
         else do {
           pmp2 \<leftarrow> (if \<not> gps then Some pmp1
                   else if en
                   then map_option (\<lambda>(_, g, r). pmp1\<lparr>gm := g, wriop_regs := r\<rparr>)
                          (gps_sync_enable io fd err file_index (gm pmp1) (wriop_regs pmp1))
                   else map_option (\<lambda>(g, r). pmp1\<lparr>gm := g, wriop_regs := r\<rparr>)
                          (gps_sync_disable io (gm pmp1) (wriop_regs pmp1)));
           Some (ptptc_enable_disable hardware arc i en (fst s, pmp2))
         })"

text \<open>The loop over the configured ports stops at the first error.\<close>

primrec enable_ports :: "(int \<Rightarrow> bool) \<Rightarrow> int list \<Rightarrow> (int \<times> u32) list \<Rightarrow> bool \<times> (int \<times> u32) list" where
  "enable_ports map_port [] steps = (True, steps)"
| "enable_ports map_port (p # ps) steps =
     (case ptptc_port_enable_single_step map_port p steps of
        None \<Rightarrow> (False, steps) | Some steps1 \<Rightarrow> enable_ports map_port ps steps1)"

definition ptptc_interface_add_del_function ::
  "(int \<Rightarrow> bool) \<Rightarrow> (u32 \<Rightarrow> bool) \<Rightarrow> u32 \<Rightarrow> (u32 \<Rightarrow> u32 \<times> string) \<Rightarrow> u32 \<Rightarrow> bool
   \<Rightarrow> (int \<times> u32) list \<times> (u32 \<times> bool) list \<times> 'r ptptc_main \<Rightarrow> bool \<times> (int \<times> u32) list \<times> (u32 \<times> bool) list \<times> 'r ptptc_main" where
  "ptptc_interface_add_del_function map_port hardware arc sup_hw sw_if_index is_add s =
     (case s of (steps, feats, pmp) \<Rightarrow>
        if \<not> is_add then (True, s)
        else case enable_sw_if_name pmp of
          None \<Rightarrow> (True, s)
        | Some name \<Rightarrow>
            let (hw_index, hw_name) = sup_hw sw_if_index
            in if take (length name) hw_name \<noteq> name then (True, s)
               else
                 let pmp1 = pmp\<lparr>enable_sw_if_name := None\<rparr>
                 in if ports pmp1 = []
                    then let (ok, feats1, pmp2) = ptptc_enable_disable hardware arc hw_index True (feats, pmp1)
                         in (ok, steps, feats1, pmp2)
                    else
                      let (ok, steps1) = enable_ports map_port (ports pmp1) steps;
                          pmp2 = pmp1\<lparr>ports := []\<rparr>
                      in if \<not> ok then (False, steps1, feats, pmp2)
                         else let (ok', feats1, pmp3) = ptptc_enable_disable hardware arc hw_index True
                                                          (feats, pmp2\<lparr>use_hw_timestamping := True\<rparr>)
                              in (ok', steps1, feats1, pmp3))"

datatype ptp_cfg = CInterface string | CPort int | COffset u32 | CClkOffset u32 | CRxChecksum | CRxClassify | CUnknown

fun ptp_config_loop :: "ptp_cfg list \<Rightarrow> 'r ptptc_main \<Rightarrow> bool \<times> 'r ptptc_main" where
  "ptp_config_loop [] pmp = (True, pmp)"
| "ptp_config_loop (CInterface n # ts) pmp = ptp_config_loop ts (pmp\<lparr>enable_sw_if_name := Some n\<rparr>)"
| "ptp_config_loop (CPort i # ts) pmp = ptp_config_loop ts (pmp\<lparr>ports := ports pmp @ [i]\<rparr>)"
| "ptp_config_loop (COffset x # ts) pmp = ptp_config_loop ts (pmp\<lparr>timing_offset := x\<rparr>)"
| "ptp_config_loop (CClkOffset x # ts) pmp = ptp_config_loop ts (pmp\<lparr>clk_offset_ppb := x\<rparr>)"
| "ptp_config_loop (CRxChecksum # ts) pmp = ptp_config_loop ts (pmp\<lparr>rx_checksum_offload_capa := True\<rparr>)"
| "ptp_config_loop (CRxClassify # ts) pmp = ptp_config_loop ts (pmp\<lparr>rx_ptp_classify_offload_capa := True\<rparr>)"
| "ptp_config_loop (CUnknown # ts) pmp = (False, pmp)"

definition ptptc_config :: "ptp_cfg list \<Rightarrow> 'r ptptc_main \<Rightarrow> bool \<times> 'r ptptc_main" where
  "ptptc_config ts pmp =
     ptp_config_loop ts
       (pmp\<lparr>enable_sw_if_name := None, ports := [], use_hw_timestamping := False, timing_offset := 0,
            clk_offset_ppb := 0, rx_checksum_offload_capa := False, rx_ptp_classify_offload_capa := False,
            egress_index := 0\<rparr>)"

text \<open>\<open>symbol\<close> tells whether DPDK exports the timestamp registration.\<close>

definition ptptc_init :: "'r option \<Rightarrow> bool \<Rightarrow> 'r ptptc_main \<Rightarrow> bool \<times> 'r ptptc_main" where
  "ptptc_init regs symbol pmp =
     (symbol, pmp\<lparr>wriop_regs := regs, gm := \<lparr>sockfd = 0, held = [], clib_file_index = 0\<rparr>,
        enable_sw_if_name := None, ports := [], use_hw_timestamping := False, timing_offset := 0,
        clk_offset_ppb := 0\<rparr>)"

section \<open>Words and bytes\<close>

lemma get_put_be32 [simp]: "get_be32 (put_be32 b i v) i = v"
proof (rule bit_word_eqI)
  fix n assume "n < LENGTH(32)"
  then consider "n < 8" | "8 \<le> n" "n < 16" | "16 \<le> n" "n < 24" | "24 \<le> n" "n < 32" by fastforce
  then show "bit (get_be32 (put_be32 b i v) i) n \<longleftrightarrow> bit v n"
    by cases (auto simp: get_be32_def put_be32_def bit_simps)
qed

lemma get_be32_cong: "(\<And>k. k < 4 \<Longrightarrow> b (i + k) = c (j + k)) \<Longrightarrow> get_be32 b i = get_be32 c j"
proof -
  assume e: "\<And>k. k < 4 \<Longrightarrow> b (i + k) = c (j + k)"
  show ?thesis using e [of 0] e [of 1] e [of 2] e [of 3] by (simp add: get_be32_def)
qed

lemma take_bit_diff_64: "take_bit 32 (take_bit 64 a - take_bit 64 b) = take_bit 32 (a - b :: int)"
proof -
  have "take_bit 32 (take_bit 64 a - take_bit 64 b) = take_bit 32 (take_bit 32 (take_bit 64 a) - take_bit 32 (take_bit 64 b))"
    by (simp only: take_bit_diff)
  also have "\<dots> = take_bit 32 (take_bit 32 a - take_bit 32 b)" by (simp add: take_bit_take_bit)
  also have "\<dots> = take_bit 32 (a - b)" by (simp only: take_bit_diff)
  finally show ?thesis .
qed

lemma ucast_diff: "(ucast cur - ucast ts :: u32) = ucast (cur - ts :: u64)"
  by transfer (simp add: take_bit_diff_64 take_bit_take_bit)

lemma residence:
  fixes cur ts :: u64
  assumes "uint (cur - ts) < 2 ^ 32"
  shows "cur - ucast (ucast cur - ucast ts :: u32) = ts"
proof -
  have "take_bit 32 (cur - ts) = cur - ts"
    using assms by (intro word_uint_eqI) (simp add: unsigned_take_bit_eq take_bit_int_eq_self)
  then have "ucast (ucast (cur - ts) :: u32) = cur - ts" by (simp add: unsigned_ucast_eq)
  then show ?thesis by (simp add: ucast_diff)
qed

lemma bit_be_le:
  assumes "r < 8" and "m < 8"
  shows "bit (get_be64 (put_le64 b i v) i) (8 * m + r) \<longleftrightarrow> bit v (r + (56 - 8 * m))"
proof -
  from assms(2) have "m \<in> {0, 1, 2, 3, 4, 5, 6, 7}" by auto
  with assms(1) show ?thesis
    by (elim insertE) (auto simp: get_be64_def put_le64_def bit_simps ac_simps)
qed

lemma get_be_le_swap: "get_be64 (put_le64 b i (clib_host_to_net_u64 x)) i = x"
proof (rule bit_word_eqI)
  fix n assume "n < LENGTH(64)"
  then have "n = 8 * (n div 8) + n mod 8" "n mod 8 < 8" "n div 8 < 8" by simp_all
  then obtain m r where n: "n = 8 * m + r" "r < 8" "m < 8" by blast
  have "bit (clib_host_to_net_u64 x) (8 * (7 - m) + r) \<longleftrightarrow> bit x (r + (56 - 8 * (7 - m)))"
    unfolding clib_host_to_net_u64_def by (rule bit_be_le) (use n in auto)
  moreover have "r + (56 - 8 * m) = 8 * (7 - m) + r" "r + (56 - 8 * (7 - m)) = n" using n by auto
  ultimately show "bit (get_be64 (put_le64 b i (clib_host_to_net_u64 x)) i) n \<longleftrightarrow> bit x n"
    using bit_be_le [OF n(2,3), of b i "clib_host_to_net_u64 x"] n(1) by simp
qed

section \<open>The residence time\<close>

text \<open>What the plugin relies on of the mbuf reset and of the floating-point unit.\<close>

definition ptp_env_ok :: "ptp_env \<Rightarrow> bool" where
  "ptp_env_ok env \<longleftrightarrow> (\<forall>b. bytes (mbuf_reset env b) = bytes b) \<and> (\<forall>x. clk_adj env x 0 = 0)"

definition is_event :: "ptp_buf \<Rightarrow> nat \<Rightarrow> bool" where
  "is_event b h \<longleftrightarrow> bytes b h AND 0x0f = PTP_TYPE_SYNC \<or> bytes b h AND 0x0f = PTP_TYPE_DELAY_REQ"

lemma put_be32_other: "j < i \<or> i + 4 \<le> j \<Longrightarrow> put_be32 b i v j = b j"
  by (auto simp: put_be32_def)

lemma put_le64_other: "j < i \<or> i + 8 \<le> j \<Longrightarrow> put_le64 b i v j = b j"
  by (auto simp: put_le64_def)

lemma put_be16_other: "j < i \<or> i + 2 \<le> j \<Longrightarrow> put_be16 b i v j = b j"
  by (auto simp: put_be16_def)

lemma vlib_set_timestamp_fields:
  "ptp_env_ok env \<Longrightarrow> bytes (vlib_set_timestamp env t b) = bytes b"
  "dyn_ts (vlib_set_timestamp env t b) = t" "ol_tx_tmst (vlib_set_timestamp env t b)"
  by (simp_all add: vlib_set_timestamp_def Let_def ptp_env_ok_def)

text \<open>Egress in terms of the current time of the timer.\<close>

lemma set_timestamp_egress:
  assumes "wriop_ok io view fifo cnt" and "ptp_env_ok env" and "is_event b h"
    and "arc_index b = egress_index pmp" and "wriop_regs pmp = Some d" and "clk_offset_ppb pmp = 0"
    and cur: "cur = cnt d + pps_offset (view d)"
    and rec: "rec = cur - ucast (ucast cur - get_be32 (bytes b) (h + message_type_specific) :: u32) - scast (timing_offset pmp)"
  shows "\<exists>b' pmp'. ptptc_set_timestamp env io h b pmp = Some (\<not> use_hw_timestamping pmp, 1, b', pmp')
     \<and> get_be32 (bytes b') (h + message_type_specific) = 0
     \<and> (use_hw_timestamping pmp \<longrightarrow> dyn_ts b' = rec \<and> ol_tx_tmst b')
     \<and> (\<not> use_hw_timestamping pmp \<longrightarrow> bytes b' = put_le64 (put_be32 (bytes b) (h + message_type_specific) 0) (h + correction_field)
          (get_le64 (put_be32 (bytes b) (h + message_type_specific) 0) (h + correction_field)
            + clib_host_to_net_u64 (push_bit 16 (cur - rec))))"
proof -
  obtain d' where d': "dpaa2_get_current_timestamp_with_offset io (Some d) = Some (cur, Some d')"
    using get_timestamp_offset [OF assms(1), of d] unfolding cur by blast
  let ?m = "put_be32 (bytes b) (h + message_type_specific) 0"
  have adj: "clk_adj env x 0 = 0" for x using assms(2) by (simp add: ptp_env_ok_def)
  have ev: "bytes b h AND 0x0f = PTP_TYPE_SYNC \<or> bytes b h AND 0x0f = PTP_TYPE_DELAY_REQ"
    using assms(3) by (simp add: is_event_def)
  have "get_be32 (put_le64 ?m (h + correction_field) x) (h + message_type_specific) = get_be32 ?m (h + message_type_specific)" for x
    by (rule get_be32_cong) (simp add: put_le64_other)
  then have sw: "get_be32 (put_le64 ?m (h + correction_field) x) (h + message_type_specific) = 0" for x by simp
  show ?thesis
  proof (cases "use_hw_timestamping pmp")
    case True
    then have "ptptc_set_timestamp env io h b pmp =
        Some (False, 1, vlib_set_timestamp env rec (b\<lparr>bytes := ?m\<rparr>), pmp\<lparr>wriop_regs := Some d'\<rparr>)"
      using ev assms(4,5,6) unfolding ptptc_set_timestamp_def Let_def by (simp add: d' adj rec)
    with True show ?thesis by (simp add: vlib_set_timestamp_fields(1) [OF assms(2)] vlib_set_timestamp_fields(2,3))
  next
    case False
    then have "ptptc_set_timestamp env io h b pmp =
        Some (True, 1, b\<lparr>bytes := put_le64 ?m (h + correction_field)
            (get_le64 ?m (h + correction_field) + clib_host_to_net_u64 (push_bit 16 (cur - rec)))\<rparr>, pmp\<lparr>wriop_regs := Some d'\<rparr>)"
      using ev assms(4,5,6) unfolding ptptc_set_timestamp_def Let_def by (simp add: d' adj rec)
    with False sw show ?thesis by simp
  qed
qed

text \<open>Ingress followed by egress of the same message: the low half of the receive time survives.\<close>

lemma ingress_stores:
  assumes "arc_index b0 \<noteq> egress_index pmp0" and "is_event b0 h0"
    and "ptptc_set_timestamp env io h0 b0 pmp0 = Some (r, n, b1, pmp1)"
    and "\<forall>k < 34. bytes b2 (h + k) = bytes b1 (h0 + k)"
  shows "is_event b2 h \<and> get_be32 (bytes b2) (h + message_type_specific) = ucast (dyn_ts b0)
     \<and> (\<forall>k < 16. bytes b2 (h + k) = bytes b0 (h0 + k))"
proof -
  have b1: "bytes b1 = put_be32 (bytes b0) (h0 + message_type_specific) (ucast (dyn_ts b0))"
    using assms(1-3) by (auto simp: ptptc_set_timestamp_def is_event_def Let_def)
  have low: "bytes b2 (h + k) = bytes b0 (h0 + k)" if "k < 16" for k
    using assms(4) that by (simp add: b1 put_be32_other)
  have "get_be32 (bytes b2) (h + message_type_specific) = get_be32 (bytes b1) (h0 + message_type_specific)"
    by (rule get_be32_cong) (use assms(4) in \<open>simp add: add.assoc\<close>)
  then have "get_be32 (bytes b2) (h + message_type_specific) = ucast (dyn_ts b0)" by (simp add: b1)
  moreover have "is_event b2 h" using low [of 0] assms(2) by (simp add: is_event_def)
  ultimately show ?thesis using low by blast
qed

text \<open>
  C15. The transparent clock, hardware mode. A PTP event message that entered the node at time \<open>ts\<close>
  and leaves it less than \<open>2 ^ 32\<close> nanoseconds later is handed to the hardware with exactly that
  time (less the configured cable delay), although the message carries only 32 bits of it; the
  borrowed field of the message is cleared.
\<close>

theorem ptptc_residence_hw:
  assumes "wriop_ok io view fifo cnt" and "ptp_env_ok env"
    and "arc_index b0 \<noteq> egress_index pmp0" and "is_event b0 h0"
    and "ptptc_set_timestamp env io h0 b0 pmp0 = Some (r, n, b1, pmp1)"
    and "\<forall>k < 34. bytes b2 (h + k) = bytes b1 (h0 + k)" and "arc_index b2 = egress_index pmp2"
    and "wriop_regs pmp2 = Some d" and "clk_offset_ppb pmp2 = 0" and "use_hw_timestamping pmp2"
    and "uint (cnt d + pps_offset (view d) - dyn_ts b0) < 2 ^ 32"
  shows "\<exists>b3 pmp3. ptptc_set_timestamp env io h b2 pmp2 = Some (False, 1, b3, pmp3)
     \<and> dyn_ts b3 = dyn_ts b0 - scast (timing_offset pmp2) \<and> ol_tx_tmst b3
     \<and> get_be32 (bytes b3) (h + message_type_specific) = 0"
proof -
  note i = ingress_stores [OF assms(3-6)]
  then have ev: "is_event b2 h" by simp
  from set_timestamp_egress [OF assms(1,2) ev assms(7-9) refl refl] assms(10) i residence [OF assms(11)]
  show ?thesis by auto
qed

text \<open>
  The transparent clock, software mode. When the correction field of such a message is zero on
  arrival, it leaves with the residence time in it, in units of \<open>2 ^ -16\<close> nanoseconds.
\<close>

theorem ptptc_residence_sw:
  assumes "wriop_ok io view fifo cnt" and "ptp_env_ok env"
    and "arc_index b0 \<noteq> egress_index pmp0" and "is_event b0 h0" and "\<forall>k < 16. k \<ge> 8 \<longrightarrow> bytes b0 (h0 + k) = 0"
    and "ptptc_set_timestamp env io h0 b0 pmp0 = Some (r, n, b1, pmp1)"
    and "\<forall>k < 34. bytes b2 (h + k) = bytes b1 (h0 + k)" and "arc_index b2 = egress_index pmp2"
    and "wriop_regs pmp2 = Some d" and "clk_offset_ppb pmp2 = 0" and "\<not> use_hw_timestamping pmp2"
    and "timing_offset pmp2 = 0" and "uint (cnt d + pps_offset (view d) - dyn_ts b0) < 2 ^ 32"
  shows "\<exists>b3 pmp3. ptptc_set_timestamp env io h b2 pmp2 = Some (True, 1, b3, pmp3)
     \<and> get_be64 (bytes b3) (h + correction_field) = push_bit 16 (cnt d + pps_offset (view d) - dyn_ts b0)
     \<and> get_be32 (bytes b3) (h + message_type_specific) = 0"
proof -
  note i = ingress_stores [OF assms(3,4,6,7)]
  then have ev: "is_event b2 h" by simp
  have zero: "bytes b2 j = 0" if "h + 8 \<le> j" "j < h + 16" for j
  proof -
    have "j = h + (j - h)" "8 \<le> j - h" "j - h < 16" using that by linarith+
    then obtain k where "j = h + k" "8 \<le> k" "k < 16" by blast
    then show ?thesis using i assms(5) by simp
  qed
  have z: "get_le64 (put_be32 (bytes b2) (h + message_type_specific) 0) (h + correction_field) = 0"
    by (simp add: get_le64_def put_be32_other zero)
  from set_timestamp_egress [OF assms(1,2) ev assms(8-10) refl refl] assms(11,12) i residence [OF assms(13)] z
  show ?thesis by (auto simp: get_be_le_swap)
qed

definition sample_penv :: ptp_env where
  "sample_penv = \<lparr>ip6_locate_udp = (\<lambda>b i. if b (i + 6) = 17 then Some 40 else None), l4_checksum = (\<lambda>_ _. 0),
     feature_next = (\<lambda>_. 3), mbuf_reset = (\<lambda>b. b\<lparr>ol_ptp := False, ol_cksum_bad := False\<rparr>),
     clk_adj = (\<lambda>d p. if p = 0 then 0 else ucast d)\<rparr>"

definition sample_pbuf :: ptp_buf where
  "sample_pbuf = \<lparr>arc_index = 2, rewrite_len = 14, ext_hdr_valid = True, csum_computed = False, csum_correct = True,
     offload_udp = False, ol_ptp = True, ol_cksum_bad = False, ol_tx_tmst = False, dyn_ts = 1999999000,
     bytes = (\<lambda>i. if i = 6 then 17 else if i = 42 then 1 else if i = 43 then 63 else 0)\<rparr>"

definition sample_pmp :: "timer ptptc_main" where
  "sample_pmp = \<lparr>enable_sw_if_name = None, ports = [], use_hw_timestamping = True, timing_offset = 0, clk_offset_ppb = 0,
     wriop_regs = Some sample_timer, gm = \<lparr>sockfd = 0, held = [], clib_file_index = 0\<rparr>, egress_index = 1,
     rx_checksum_offload_capa = True, rx_ptp_classify_offload_capa = False\<rparr>"

lemma sample_penv_ok: "ptp_env_ok sample_penv"
  by (simp add: ptp_env_ok_def sample_penv_def)

lemma sample_ingress:
  "arc_index sample_pbuf \<noteq> egress_index sample_pmp" "is_event sample_pbuf 48"
  "\<exists>b1. ptptc_set_timestamp sample_penv timer_ops 48 sample_pbuf sample_pmp = Some (True, 1, b1, sample_pmp)
     \<and> bytes b1 = put_be32 (bytes sample_pbuf) 64 1999999000"
  by (simp_all add: sample_pbuf_def sample_pmp_def is_event_def ptptc_set_timestamp_def)

lemma sample_residence: "uint (tm_cnt sample_timer + pps_offset (tm_regs sample_timer) - dyn_ts sample_pbuf) < 2 ^ 32"
  by (simp add: sample_timer_def sample_pbuf_def pps_offset_def)

theorem ptptc_residence_hw_witness:
  "\<exists>b2 b3 pmp3. ptptc_set_timestamp sample_penv timer_ops 48 (b2\<lparr>arc_index := 1\<rparr>) sample_pmp = Some (False, 1, b3, pmp3)
     \<and> dyn_ts b3 = 1999999000"
proof -
  obtain b1 where b1: "ptptc_set_timestamp sample_penv timer_ops 48 sample_pbuf sample_pmp = Some (True, 1, b1, sample_pmp)"
    using sample_ingress(3) by blast
  have "\<forall>k < 34. bytes (b1\<lparr>arc_index := 1\<rparr>) (48 + k) = bytes b1 (48 + k)"
    "arc_index (b1\<lparr>arc_index := 1\<rparr>) = egress_index sample_pmp" "wriop_regs sample_pmp = Some sample_timer"
    "clk_offset_ppb sample_pmp = 0" "use_hw_timestamping sample_pmp"
    by (simp_all add: sample_pmp_def)
  from ptptc_residence_hw [OF timer_ok sample_penv_ok sample_ingress(1,2) b1 this sample_residence]
  show ?thesis by (auto simp: sample_pmp_def sample_pbuf_def)
qed

theorem ptptc_residence_sw_witness:
  "\<exists>b2 b3 pmp3. ptptc_set_timestamp sample_penv timer_ops 48 (b2\<lparr>arc_index := 1\<rparr>) (sample_pmp\<lparr>use_hw_timestamping := False\<rparr>)
        = Some (True, 1, b3, pmp3) \<and> get_be64 (bytes b3) (48 + correction_field) = push_bit 16 1000"
proof -
  let ?pmp = "sample_pmp\<lparr>use_hw_timestamping := False\<rparr>"
  obtain b1 where b1: "ptptc_set_timestamp sample_penv timer_ops 48 sample_pbuf sample_pmp = Some (True, 1, b1, sample_pmp)"
    using sample_ingress(3) by blast
  have z: "\<forall>k < 16. k \<ge> 8 \<longrightarrow> bytes sample_pbuf (48 + k) = 0" by (simp add: sample_pbuf_def)
  have "\<forall>k < 34. bytes (b1\<lparr>arc_index := 1\<rparr>) (48 + k) = bytes b1 (48 + k)"
    "arc_index (b1\<lparr>arc_index := 1\<rparr>) = egress_index ?pmp" "wriop_regs ?pmp = Some sample_timer"
    "clk_offset_ppb ?pmp = 0" "\<not> use_hw_timestamping ?pmp" "timing_offset ?pmp = 0"
    by (simp_all add: sample_pmp_def)
  from ptptc_residence_sw [OF timer_ok sample_penv_ok sample_ingress(1,2) z b1 this sample_residence]
  show ?thesis by (auto simp: sample_timer_def sample_pbuf_def pps_offset_def)
qed

text \<open>
  With a correction already in the field the sum is taken on the byte-swapped value, and a carry
  goes the wrong way: 128 ns plus 128 ns is written as \<open>2 ^ -8\<close> ns.
\<close>

lemma ptptc_correction_carry:
  "get_be64 b i = 0x800000 \<Longrightarrow> get_le64 b i = clib_host_to_net_u64 0x800000
   \<Longrightarrow> get_be64 (put_le64 b i (get_le64 b i + clib_host_to_net_u64 (push_bit 16 128))) i = 0x100"
proof -
  assume "get_le64 b i = clib_host_to_net_u64 0x800000"
  moreover have "clib_host_to_net_u64 0x800000 = 0x800000000000"
    by (simp add: clib_host_to_net_u64_def get_be64_def put_le64_def)
  moreover have "clib_host_to_net_u64 0x100 = 0x1000000000000"
    by (simp add: clib_host_to_net_u64_def get_be64_def put_le64_def)
  ultimately have "get_le64 b i + clib_host_to_net_u64 (push_bit 16 128) = clib_host_to_net_u64 0x100" by simp
  then show ?thesis using get_be_le_swap by simp
qed

section \<open>What the node changes\<close>

lemma timestamp_total: "\<exists>v r. dpaa2_get_current_timestamp_with_offset io reg = Some (v, r)"
  by (cases reg) (simp_all add: dpaa2_get_current_timestamp_with_offset_def dpaa2_get_current_timestamp_def
      dpaa2_get_pps_offset_def read_pair_eq Let_def split_def)

lemma set_timestamp_frame:
  assumes "ptp_env_ok env"
  shows "\<exists>rc n b' pmp'. ptptc_set_timestamp env io h b pmp = Some (rc, n, b', pmp') \<and> n \<le> 1
     \<and> (n = 0 \<longrightarrow> \<not> rc \<and> b' = b) \<and> (\<forall>j. j < h + 8 \<or> h + 20 \<le> j \<longrightarrow> bytes b' j = bytes b j)"
proof -
  obtain v r where "dpaa2_get_current_timestamp_with_offset io (wriop_regs pmp) = Some (v, r)"
    using timestamp_total by blast
  then show ?thesis
    by (auto simp: ptptc_set_timestamp_def Let_def vlib_set_timestamp_fields(1) [OF assms] put_be32_other put_le64_other)
qed

text \<open>The bytes of a PTP event message the node may write: checksum, correction, borrowed field.\<close>

definition touched :: "nat \<Rightarrow> nat \<Rightarrow> bool" where
  "touched udp j \<longleftrightarrow> udp + 6 \<le> j \<and> j < udp + 8 \<or> udp + 16 \<le> j \<and> j < udp + 28"

definition frame_rule :: "ptp_env \<Rightarrow> ptp_buf \<Rightarrow> ptp_buf \<Rightarrow> bool" where
  "frame_rule env b b' \<longleftrightarrow> bytes b' = bytes b
     \<or> (\<exists>ip u. ip6_locate_udp env (bytes b) ip = Some u \<and> get_be16 (bytes b) (ip + u + 2) = PTP_EVENT
          \<and> (\<forall>j. \<not> touched (ip + u) j \<longrightarrow> bytes b' j = bytes b j))"

lemma ptptc_update_frame:
  assumes "ptp_env_ok env"
  shows "\<exists>e n b' pmp'. ptptc_update env io z good b pmp = Some (e, n, b', pmp') \<and> n \<le> 1
     \<and> (e \<noteq> NoError \<longrightarrow> n = 0) \<and> (n = 0 \<longrightarrow> bytes b' = bytes b) \<and> frame_rule env b b'"
proof -
  let ?ip = "if arc_index b = egress_index pmp then rewrite_len b else 0"
  consider (none) "ip6_locate_udp env (bytes b) ?ip = None"
    | (short) u where "ip6_locate_udp env (bytes b) ?ip = Some u" "get_be16 (bytes b) (?ip + 4) < get_be16 (bytes b) (?ip + u + 4)"
    | (port) u where "ip6_locate_udp env (bytes b) ?ip = Some u" "\<not> get_be16 (bytes b) (?ip + 4) < get_be16 (bytes b) (?ip + u + 4)"
        "get_be16 (bytes b) (?ip + u + 2) \<noteq> PTP_EVENT"
    | (ptp) u where "ip6_locate_udp env (bytes b) ?ip = Some u" "\<not> get_be16 (bytes b) (?ip + 4) < get_be16 (bytes b) (?ip + u + 4)"
        "get_be16 (bytes b) (?ip + u + 2) = PTP_EVENT"
    by (metis not_None_eq)
  then show ?thesis
  proof cases
    case none
    then show ?thesis by (simp add: ptptc_update_def Let_def frame_rule_def)
  next
    case short
    then show ?thesis by (simp add: ptptc_update_def Let_def frame_rule_def)
  next
    case port
    then show ?thesis by (simp add: ptptc_update_def Let_def frame_rule_def)
  next
    case ptp
    let ?udp = "?ip + u"
    let ?good = "good \<or> csum_correct b \<or> offload_udp b"
    let ?v = "validate_checksum env ?ip ?udp b"
    obtain good2 b1 where gb: "(if \<not> ?good \<and> \<not> csum_computed b then (csum_correct ?v, ?v) else (?good, b)) = (good2, b1)"
      by (metis prod.exhaust)
    have b1: "bytes b1 = bytes b"
      using gb by (auto simp: validate_checksum_def split: if_splits)
    obtain rc n b2 pmp' where s: "ptptc_set_timestamp env io (?udp + 8) b1 pmp = Some (rc, n, b2, pmp')" "n \<le> 1"
        "n = 0 \<longrightarrow> \<not> rc \<and> b2 = b1" "\<forall>j. j < ?udp + 8 + 8 \<or> ?udp + 8 + 20 \<le> j \<longrightarrow> bytes b2 j = bytes b1 j"
      using set_timestamp_frame [OF assms] by blast
    let ?m = "if z then put_be16 (bytes b2) (?udp + 6) 0 else bytes b2"
    let ?b3 = "if rc then b2\<lparr>bytes := put_be16 ?m (?udp + 6) (l4_checksum env ?m ?ip)\<rparr> else b2"
    have u: "ptptc_update env io z good b pmp = (if \<not> good2 then Some (UdpChecksum, 0, b1, pmp) else Some (NoError, n, ?b3, pmp'))"
      using ptp gb s(1) unfolding ptptc_update_def Let_def by simp
    have "\<not> touched ?udp j \<Longrightarrow> bytes ?b3 j = bytes b j" for j
      using s(4) b1 by (auto simp: touched_def put_be16_other)
    then have "frame_rule env b ?b3" using ptp(1,3) unfolding frame_rule_def by blast
    moreover have "n = 0 \<longrightarrow> bytes ?b3 = bytes b" using s(3) b1 by simp
    ultimately show ?thesis using u s(2) b1 by (cases good2) (auto simp: frame_rule_def)
  qed
qed

lemma ptptc_one_frame:
  assumes "ptp_env_ok env"
  shows "\<exists>e n b' pmp'. ptptc_one env io z off b pmp = Some (e, n, b', pmp') \<and> n \<le> 1
     \<and> (e \<noteq> NoError \<longrightarrow> n = 0) \<and> (n = 0 \<longrightarrow> bytes b' = bytes b) \<and> frame_rule env b b'"
  using ptptc_update_frame [OF assms] by (cases off) (auto simp: ptptc_one_def frame_rule_def)

definition forwarded :: "ptp_env \<Rightarrow> ptp_buf \<Rightarrow> nat \<times> ptp_buf \<Rightarrow> bool" where
  "forwarded env b nb \<longleftrightarrow> frame_rule env b (snd nb)
     \<and> (fst nb = feature_next env b \<or> fst nb = 0 \<and> bytes (snd nb) = bytes b)"

lemma ptptc_one_forwarded:
  assumes "ptp_env_ok env"
  shows "\<exists>e n b' pmp'. ptptc_one env io z off b pmp = Some (e, n, b', pmp') \<and> n \<le> 1 \<and> forwarded env b (next_of env b e, b')"
  using ptptc_one_frame [OF assms, of io z off b pmp] by (fastforce simp: forwarded_def next_of_def)

lemma node_loop_forwarded:
  assumes ok: "ptp_env_ok env"
  shows "\<exists>n out pmp'. ptptc_node_loop env io room junk bs pmp = Some (n, out, pmp') \<and> n \<le> length bs
     \<and> list_all2 (forwarded env) bs out"
proof (induction bs arbitrary: pmp rule: length_induct)
  case (1 bs)
  have IH: "\<exists>n out pmp'. ptptc_node_loop env io room junk r pmp = Some (n, out, pmp') \<and> n \<le> length r
     \<and> list_all2 (forwarded env) r out" if "length r < length bs" for r pmp
    using 1 that by blast
  have single: "\<exists>n out pmp'. Option.bind (ptptc_single env io b0 pmp) (\<lambda>(e0, n0, b0', pmp0).
        Option.bind (ptptc_node_loop env io room junk r pmp0) (\<lambda>(n, out, pmp1).
          Some (n0 + n, (next_of env b0 e0, b0') # out, pmp1))) = Some (n, out, pmp')
      \<and> n \<le> length (b0 # r) \<and> list_all2 (forwarded env) (b0 # r) out" if bs: "bs = b0 # r" for b0 r
  proof -
    obtain e0 n0 b0' pmp0 where a: "ptptc_single env io b0 pmp = Some (e0, n0, b0', pmp0)" "n0 \<le> 1"
        "forwarded env b0 (next_of env b0 e0, b0')"
      using ptptc_one_forwarded [OF ok] unfolding ptptc_single_def by blast
    obtain n out pmp1 where "ptptc_node_loop env io room junk r pmp0 = Some (n, out, pmp1)" "n \<le> length r"
        "list_all2 (forwarded env) r out"
      using IH [of r pmp0] bs by auto
    with a show ?thesis by simp
  qed
  show ?case
  proof (cases bs)
    case (Cons b0 r)
    show ?thesis
    proof (cases "\<exists>b1 b2 b3 r'. r = b1 # b2 # b3 # r' \<and> room (length bs)")
      case True
      then obtain b1 b2 b3 r' where r: "r = b1 # b2 # b3 # r'" "room (length bs)" by blast
      obtain e0 n0 b0' pmp0 where a: "ptptc_first env io b0 pmp = Some (e0, n0, b0', pmp0)" "n0 \<le> 1"
          "forwarded env b0 (next_of env b0 e0, b0')"
        using ptptc_one_forwarded [OF ok] unfolding ptptc_first_def by blast
      obtain e1 n1 b1' pmp1 where b: "ptptc_second env io junk b0 b1 pmp0 = Some (e1, n1, b1', pmp1)" "n1 \<le> 1"
          "forwarded env b1 (next_of env b1 e1, b1')"
        using ptptc_one_forwarded [OF ok] unfolding ptptc_second_def by blast
      obtain n out pmp2 where c: "ptptc_node_loop env io room junk (b2 # b3 # r') pmp1 = Some (n, out, pmp2)"
          "n \<le> length (b2 # b3 # r')" "list_all2 (forwarded env) (b2 # b3 # r') out"
        using IH [of "b2 # b3 # r'" pmp1] Cons r(1) by auto
      have "ptptc_node_loop env io room junk bs pmp
          = Some (n0 + n1 + n, (next_of env b0 e0, b0') # (next_of env b1 e1, b1') # out, pmp2)"
        using r(2) unfolding Cons r(1) ptptc_node_loop.simps(2) [of env io room junk b0]
        by (simp add: a(1) b(1) c(1) del: ptptc_node_loop.simps)
      with a b c show ?thesis unfolding Cons r(1) by simp
    next
      case False
      then have "ptptc_node_loop env io room junk bs pmp = Option.bind (ptptc_single env io b0 pmp) (\<lambda>(e0, n0, b0', pmp0).
        Option.bind (ptptc_node_loop env io room junk r pmp0) (\<lambda>(n, out, pmp1).
          Some (n0 + n, (next_of env b0 e0, b0') # out, pmp1)))"
        unfolding Cons ptptc_node_loop.simps(2) [of env io room junk b0 r] by (auto split: list.split)
      with single [OF Cons] Cons show ?thesis by simp
    qed
  qed simp
qed

text \<open>
  The node forwards every packet of a frame once and in order, and rewrites nothing but the
  checksum, the correction field and the borrowed field of UDP packets to the PTP event port. A
  packet leaves by its next feature; one that is dropped instead is unchanged.
\<close>

theorem ptptc_node_frame:
  assumes "ptp_env_ok env"
  shows "\<exists>n out pmp'. ptptc_node_loop env io room junk bs pmp = Some (n, out, pmp') \<and> n \<le> length bs
     \<and> length out = length bs \<and> list_all2 (forwarded env) bs out"
  using node_loop_forwarded [OF assms] by (metis list_all2_lengthD)

theorem ptptc_node_frame_witness:
  "\<exists>n out pmp'. ptptc_node_loop sample_penv timer_ops (\<lambda>_. True) False [sample_pbuf, sample_pbuf] sample_pmp = Some (n, out, pmp')
     \<and> length out = 2"
  using ptptc_node_frame [OF sample_penv_ok, of timer_ops "\<lambda>_. True" False "[sample_pbuf, sample_pbuf]" sample_pmp]
  by (metis length_Cons list.size(3) numeral_2_eq_2)

text \<open>
  The second packet of a pair is judged by the offload flag of the first: with checksum
  offload, after a first packet with a bad checksum the second one is passed on without its
  timestamp, although processed alone it is handled.
\<close>

theorem ptptc_second_unstamped:
  assumes "rx_checksum_offload_capa pmp" and "arc_index b0 \<noteq> egress_index pmp" and "arc_index b1 \<noteq> egress_index pmp"
    and "ol_cksum_bad b0" and "\<not> ol_cksum_bad b1" and "ol_ptp b1"
    and "ip6_locate_udp env (bytes b1) 0 = Some u" and "get_be16 (bytes b1) (u + 4) \<le> get_be16 (bytes b1) 4"
    and "get_be16 (bytes b1) (u + 2) = PTP_EVENT" and "is_event b1 (u + 8)"
  shows "ptptc_second env io junk b0 b1 pmp = Some (NoError, 0, b1, pmp)
     \<and> (\<exists>b'. ptptc_single env io b1 pmp = Some (NoError, 1, b', pmp))"
proof -
  have off: "ptptc_offload pmp False True b1 = Some True" using assms by (simp add: ptptc_offload_def)
  have "ptptc_offload pmp True False b1 = None" using assms by (simp add: ptptc_offload_def)
  then have "ptptc_second env io junk b0 b1 pmp = Some (NoError, 0, b1, pmp)"
    using assms(2,4) by (simp add: ptptc_second_def ptptc_one_def)
  moreover have "\<exists>b'. ptptc_update env io False True b1 pmp = Some (NoError, 1, b', pmp)"
    using assms by (simp add: ptptc_update_def Let_def ptptc_set_timestamp_def is_event_def not_less)
  ultimately show ?thesis using assms(5) off by (simp add: ptptc_single_def ptptc_one_def)
qed

theorem ptptc_second_unstamped_witness:
  "ptptc_second sample_penv timer_ops False (sample_pbuf\<lparr>ol_cksum_bad := True\<rparr>) sample_pbuf sample_pmp
     = Some (NoError, 0, sample_pbuf, sample_pmp)"
proof -
  have "ip6_locate_udp sample_penv (bytes sample_pbuf) 0 = Some 40"
    "get_be16 (bytes sample_pbuf) (40 + 4) \<le> get_be16 (bytes sample_pbuf) 4" "get_be16 (bytes sample_pbuf) (40 + 2) = PTP_EVENT"
    "is_event sample_pbuf (40 + 8)"
    by (simp_all add: sample_penv_def sample_pbuf_def get_be16_def is_event_def)
  with ptptc_second_unstamped [of sample_pmp "sample_pbuf\<lparr>ol_cksum_bad := True\<rparr>" sample_pbuf sample_penv 40 timer_ops False]
  show ?thesis by (simp add: sample_pmp_def sample_pbuf_def)
qed

end
