(* ===== verification/Amsdu.thy ===== *)
theory Amsdu
  imports Prelude
begin

text \<open>
  Aggregated frames of the Terragraph wireless driver (\<open>fb_terragraph/fb_tgd_amsdu.c\<close>) and the
  routing backend that receives them (\<open>fb_tgd_route_linux.c\<close>). A Terragraph A-MSDU is an Ethernet
  header with type \<open>0x89FB\<close>, a six byte header with the number of subframes, the table of the
  lengths of all subframes but the last, and the subframes, each without its addresses.

  A socket buffer is the record \<open>sk_buff\<close> over its linear memory: an access outside that memory and
  the panics of \<open>skb_push\<close> and \<open>skb_put\<close> are the value \<open>None\<close> of a step. The allocator
  \<open>dev_alloc_skb\<close> of the kernel is a parameter, and so is what \<open>memcpy\<close> does when its regions overlap,
  which the language leaves undefined and the encapsulation relies on. A frame that is freed is dropped
  from the result.
\<close>

section \<open>Socket buffers\<close>

record sk_buff =
  sb_head :: "u8 list"
  sb_data :: nat
  sb_len :: nat
  sb_mac :: nat
  sb_dev :: nat
  sb_priority :: u32

definition skb_bytes :: "sk_buff \<Rightarrow> u8 list" where
  "skb_bytes s = take (sb_len s) (drop (sb_data s) (sb_head s))"

definition skb_wf :: "sk_buff \<Rightarrow> bool" where
  "skb_wf s \<longleftrightarrow> sb_data s + sb_len s \<le> length (sb_head s)"

text \<open>\<open>skb_pull\<close> returns NULL, here \<open>None\<close>, when the buffer is shorter than asked.\<close>

definition skb_pull :: "sk_buff \<Rightarrow> nat \<Rightarrow> sk_buff option" where
  "skb_pull s n = (if sb_len s < n then None
                   else Some (s\<lparr>sb_data := sb_data s + n, sb_len := sb_len s - n\<rparr>))"

definition skb_push :: "sk_buff \<Rightarrow> nat \<Rightarrow> sk_buff option" where
  "skb_push s n = (if sb_data s < n then None
                   else Some (s\<lparr>sb_data := sb_data s - n, sb_len := sb_len s + n\<rparr>))"

definition skb_put :: "sk_buff \<Rightarrow> nat \<Rightarrow> sk_buff option" where
  "skb_put s n = (if length (sb_head s) < sb_data s + sb_len s + n then None
                  else Some (s\<lparr>sb_len := sb_len s + n\<rparr>))"

definition skb_reserve :: "sk_buff \<Rightarrow> nat \<Rightarrow> sk_buff" where
  "skb_reserve s n = s\<lparr>sb_data := sb_data s + n\<rparr>"

text \<open>What the kernel promises of a buffer it allocates: it is empty and has room for the size
  asked for. The first argument of an allocator numbers the calls.\<close>

type_synonym skb_alloc = "nat \<Rightarrow> nat \<Rightarrow> sk_buff option"

definition alloc_ok :: "skb_alloc \<Rightarrow> bool" where
  "alloc_ok alloc \<longleftrightarrow>
     (\<forall>c n s. alloc c n = Some s \<longrightarrow> sb_len s = 0 \<and> sb_data s + n \<le> length (sb_head s))"

definition be16 :: "u8 list \<Rightarrow> nat" where
  "be16 bs = 256 * unat (bs ! 0) + unat (bs ! 1)"

definition ETH_P_PAE :: "u8 list" where "ETH_P_PAE = [0x88, 0x8E]"
definition ETH_P_TGAMSDU :: "u8 list" where "ETH_P_TGAMSDU = [0x89, 0xFB]"

section \<open>Encapsulation\<close>

definition skb_store :: "nat \<Rightarrow> u8 list \<Rightarrow> sk_buff \<Rightarrow> sk_buff option" where
  "skb_store off bs s = do { h \<leftarrow> mem_write off bs (sb_head s); Some (s\<lparr>sb_head := h\<rparr>) }"

text \<open>
  \<open>memcpy\<close> of \<open>n\<close> bytes within a memory. For regions that overlap it is undefined; what the one in use
  does then is the argument \<open>ov\<close>.
\<close>

type_synonym overlap_copy = "nat \<Rightarrow> nat \<Rightarrow> nat \<Rightarrow> u8 list \<Rightarrow> u8 list option"

definition memcpy :: "overlap_copy \<Rightarrow> nat \<Rightarrow> nat \<Rightarrow> nat \<Rightarrow> u8 list \<Rightarrow> u8 list option" where
  "memcpy ov dst src n h =
     (if dst + n \<le> src \<or> src + n \<le> dst then do { bs \<leftarrow> mem_read src n h; mem_write dst bs h } else ov dst src n h)"

definition tgd_amsdu_encapsulate :: "overlap_copy \<Rightarrow> sk_buff \<Rightarrow> sk_buff option" where
  "tgd_amsdu_encapsulate ov skb = do {
     proto \<leftarrow> mem_read (sb_mac skb + 12) 2 (sb_head skb);
     if proto = ETH_P_PAE then Some skb
     else do {
       s \<leftarrow> skb_push skb 8;
       h \<leftarrow> memcpy ov (sb_data s) (sb_mac skb) 12 (sb_head s);
       let s = s\<lparr>sb_head := h\<rparr>;
       s \<leftarrow> skb_store (sb_data s + 12) ETH_P_TGAMSDU s;
       s \<leftarrow> skb_store (sb_data s + 14) [0] s;
       s \<leftarrow> skb_store (sb_data s + 15) [6] s;
       s \<leftarrow> skb_store (sb_data s + 16) [1] s;
       skb_store (sb_data s + 17) [0, 0, 0] s
     }
   }"

section \<open>Decapsulation\<close>

text \<open>Every subframe but the last is copied to a new buffer, behind the addresses of the aggregate;
  the last one stays in the received buffer, and the addresses move in front of it. The offset of
  the Ethernet header of the aggregate is \<open>ehdr\<close>.\<close>

definition copy_subframe :: "nat \<Rightarrow> sk_buff \<Rightarrow> nat \<Rightarrow> sk_buff \<Rightarrow> sk_buff option" where
  "copy_subframe ehdr skb subframe_len frame = do {
     frame \<leftarrow> skb_put (skb_reserve frame 14) subframe_len;
     payload \<leftarrow> mem_read (sb_data skb) subframe_len (sb_head skb);
     frame \<leftarrow> skb_store (sb_data frame) payload frame;
     frame \<leftarrow> skb_push frame 12;
     eth \<leftarrow> mem_read ehdr 12 (sb_head skb);
     skb_store (sb_data frame) eth frame
   }"

definition last_subframe :: "nat \<Rightarrow> sk_buff \<Rightarrow> sk_buff option" where
  "last_subframe ehdr skb = do {
     frame \<leftarrow> skb_push skb 12;
     eth \<leftarrow> mem_read ehdr 12 (sb_head frame);
     skb_store (sb_data frame) eth frame
   }"

text \<open>The loop over the subframes; \<open>sub_len\<close> is the offset of the next entry of the length table.
  A negative result has freed every frame.\<close>

fun decap_loop ::
  "skb_alloc \<Rightarrow> nat \<Rightarrow> nat \<Rightarrow> nat \<Rightarrow> sk_buff \<Rightarrow> sk_buff list \<Rightarrow> (int \<times> sk_buff list) option" where
  "decap_loop alloc 0 ehdr sub_len skb fs = Some (0, fs)"
| "decap_loop alloc (Suc count) ehdr sub_len skb fs = do {
     (subframe_len, sub_len') \<leftarrow>
       (if 0 < count then do { l \<leftarrow> mem_read sub_len 2 (sb_head skb); Some (be16 l, sub_len + 2) }
        else Some (sb_len skb, sub_len));
     if subframe_len < 2 \<or> sb_len skb < subframe_len then Some (- 1, [])
     else if count = 0 then do {
       frame \<leftarrow> last_subframe ehdr skb;
       decap_loop alloc count ehdr sub_len' skb (fs @ [frame])
     }
     else case alloc count (subframe_len + 14) of
       None \<Rightarrow> Some (- 1, [])
     | Some frame \<Rightarrow> do {
         frame \<leftarrow> copy_subframe ehdr skb subframe_len frame;
         (case skb_pull skb subframe_len of
            None \<Rightarrow> Some (- 1, [])
          | Some skb' \<Rightarrow> decap_loop alloc count ehdr sub_len' skb'
              (fs @ [frame\<lparr>sb_dev := sb_dev skb', sb_priority := sb_priority skb'\<rparr>]))
       }
   }"

text \<open>The size of the length table, \<open>(agg_cnt - 1) << 1\<close>: an \<open>int\<close> converted to the unsigned
  argument of \<open>skb_pull\<close>.\<close>

definition table_bytes :: "nat \<Rightarrow> nat" where
  "table_bytes agg_cnt = unat (push_bit 1 (of_nat agg_cnt - 1 :: u32))"

definition tgd_amsdu_decapsulate :: "skb_alloc \<Rightarrow> sk_buff \<Rightarrow> (int \<times> sk_buff list) option" where
  "tgd_amsdu_decapsulate alloc skb =
     (let ehdr = sb_data skb in
      case skb_pull skb 14 of
        None \<Rightarrow> Some (- 1, [])
      | Some s1 \<Rightarrow>
        (case skb_pull s1 6 of
           None \<Rightarrow> Some (- 1, [])
         | Some s2 \<Rightarrow> do {
             c \<leftarrow> mem_read (sb_data s1 + 2) 1 (sb_head s2);
             let agg_cnt = unat (c ! 0);
             (case skb_pull s2 (table_bytes agg_cnt) of
                None \<Rightarrow> Some (- 1, [])
              | Some s3 \<Rightarrow> decap_loop alloc agg_cnt ehdr (sb_data s2) s3 [])
           }))"

section \<open>The Linux routing backend\<close>

text \<open>The frames handed to the network stack, in order.\<close>

definition fb_tgd_rt_linux_rx :: "skb_alloc \<Rightarrow> sk_buff \<Rightarrow> sk_buff list option" where
  "fb_tgd_rt_linux_rx alloc skb = do {
     proto \<leftarrow> mem_read (sb_data skb + 12) 2 (sb_head skb);
     if proto \<noteq> ETH_P_TGAMSDU then Some [skb]
     else do {
       (ret, fs) \<leftarrow> tgd_amsdu_decapsulate alloc skb;
       Some (if ret \<noteq> 0 then [] else fs)
     }
   }"

section \<open>The format\<close>

text \<open>The subframes of an aggregate over plain byte lists: the lengths of the table, then the rest.\<close>

fun split_subframes :: "nat list \<Rightarrow> u8 list \<Rightarrow> u8 list list option" where
  "split_subframes [] bs = (if length bs < 2 then None else Some [bs])"
| "split_subframes (l # ls) bs =
     (if l < 2 \<or> length bs < l then None
      else map_option ((#) (take l bs)) (split_subframes ls (drop l bs)))"

fun len_table :: "nat \<Rightarrow> u8 list \<Rightarrow> nat list" where
  "len_table 0 bs = []"
| "len_table (Suc n) bs = be16 (take 2 bs) # len_table n (drop 2 bs)"

text \<open>The Ethernet frames an A-MSDU stands for; \<open>None\<close> when it is malformed.\<close>

definition amsdu_frames :: "u8 list \<Rightarrow> u8 list list option" where
  "amsdu_frames bs =
     (if length bs < 20 then None
      else let n = unat (bs ! 16) in
        if n = 0 \<or> length bs < 18 + 2 * n then None
        else map_option (map (\<lambda>p. take 12 bs @ p))
               (split_subframes (len_table (n - 1) (drop 20 bs)) (drop (18 + 2 * n) bs)))"

text \<open>The sender's side of the format: the aggregate of the payloads \<open>ps\<close> between the same two
  stations.\<close>

definition be16_bytes :: "nat \<Rightarrow> u8 list" where
  "be16_bytes n = [of_nat (n div 256), of_nat n]"

definition amsdu_aggregate :: "u8 list \<Rightarrow> u8 list list \<Rightarrow> u8 list" where
  "amsdu_aggregate addrs ps =
     addrs @ ETH_P_TGAMSDU @ [0, 6, of_nat (length ps), 0, 0, 0]
     @ concat (map (be16_bytes \<circ> length) (butlast ps)) @ concat ps"

section \<open>Lemmas on socket buffers\<close>

lemmas skb_simps = skb_pull_def skb_push_def skb_put_def skb_reserve_def skb_store_def
  skb_bytes_def skb_wf_def mem_write_def mem_read_def

lemma skb_bytes_update [simp]:
  "skb_bytes (s\<lparr>sb_dev := d, sb_priority := p\<rparr>) = skb_bytes s"
  by (simp add: skb_bytes_def)

lemma length_skb_bytes: "skb_wf s \<Longrightarrow> length (skb_bytes s) = sb_len s"
  by (simp add: skb_bytes_def skb_wf_def)

text \<open>Writing \<open>bs\<close> in front of what is already there.\<close>

lemma take_drop_write_before:
  assumes "off + length bs \<le> length h"
  shows "take (length bs + n) (drop off (take off h @ bs @ drop (off + length bs) h)) =
         bs @ take n (drop (off + length bs) h)"
  using assms by simp

lemma last_subframe_ok:
  assumes "skb_wf skb" and "12 \<le> sb_data skb" and "ehdr + 12 \<le> length (sb_head skb)"
  shows "\<exists>f. last_subframe ehdr skb = Some f \<and>
             skb_bytes f = take 12 (drop ehdr (sb_head skb)) @ skb_bytes skb"
proof -
  define eth where "eth = take 12 (drop ehdr (sb_head skb))"
  have l: "length eth = 12" using assms by (simp add: eth_def)
  show ?thesis
    using assms l take_drop_write_before [of "sb_data skb - 12" eth "sb_head skb" "sb_len skb"]
    by (simp add: last_subframe_def skb_simps eth_def [symmetric] add.commute)
qed

lemma copy_subframe_ok:
  assumes "sb_len f0 = 0" and "sb_data f0 + (l + 14) \<le> length (sb_head f0)"
    and "sb_data skb + l \<le> length (sb_head skb)" and "ehdr + 12 \<le> length (sb_head skb)"
  shows "\<exists>f. copy_subframe ehdr skb l f0 = Some f \<and>
             skb_bytes f = take 12 (drop ehdr (sb_head skb)) @ take l (drop (sb_data skb) (sb_head skb))"
proof -
  define eth where "eth = take 12 (drop ehdr (sb_head skb))"
  define pl where "pl = take l (drop (sb_data skb) (sb_head skb))"
  define h where "h = take (sb_data f0 + 14) (sb_head f0) @ pl @ drop (sb_data f0 + 14 + l) (sb_head f0)"
  have le: "length eth = 12" and lp: "length pl = l" using assms by (simp_all add: eth_def pl_def)
  have lh: "length h = length (sb_head f0)" using assms lp by (simp add: h_def)
  have "take l (drop (sb_data f0 + 14) h) = pl" using assms lp by (simp add: h_def)
  then show ?thesis
    using assms le lp lh take_drop_write_before [of "sb_data f0 + 2" eth h l]
    by (simp add: copy_subframe_def skb_simps eth_def [symmetric] pl_def [symmetric] h_def [symmetric]
        add.commute add.left_commute)
qed

section \<open>Decapsulation implements the format\<close>

text \<open>The outcome of a decapsulation: the frames of the format, or an error without frames, which
  needs a malformed aggregate or an allocation that failed; \<open>k\<close> frames need \<open>k - 1\<close> allocations.\<close>

definition decap_outcome ::
  "skb_alloc \<Rightarrow> nat \<Rightarrow> sk_buff list \<Rightarrow> u8 list list option \<Rightarrow> (int \<times> sk_buff list) option \<Rightarrow> bool" where
  "decap_outcome alloc k fs frames res \<longleftrightarrow>
     (\<exists>gs. res = Some (0, gs) \<and> frames = Some (drop (length fs) (map skb_bytes gs)) \<and>
           take (length fs) gs = fs) \<or>
     res = Some (- 1, []) \<and> (frames = None \<or> (\<exists>c n. 0 < c \<and> c < k \<and> alloc c n = None))"

lemma decap_outcome_more:
  assumes "decap_outcome alloc k (fs @ [f]) frames res"
  shows "decap_outcome alloc (Suc k) fs (map_option ((#) (skb_bytes f)) frames) res"
proof -
  have "drop (length fs) (map skb_bytes gs) = skb_bytes f # drop (Suc (length fs)) (map skb_bytes gs)
        \<and> take (length fs) gs = fs"
    if "take (Suc (length fs)) gs = fs @ [f]" for gs
  proof -
    have "gs = (fs @ [f]) @ drop (Suc (length fs)) gs" using that by (metis append_take_drop_id)
    then obtain r where "gs = fs @ f # r" by auto
    then show ?thesis by simp
  qed
  then show ?thesis using assms by (fastforce simp: decap_outcome_def intro: less_SucI)
qed

lemma skb_pull_bytes:
  assumes "skb_wf s" and "n \<le> sb_len s"
  shows "\<exists>s'. skb_pull s n = Some s' \<and> skb_wf s' \<and> skb_bytes s' = drop n (skb_bytes s) \<and>
              sb_head s' = sb_head s \<and> sb_data s' = sb_data s + n \<and> sb_len s' = sb_len s - n"
  using assms by (simp add: skb_simps drop_take add.commute)

lemma skb_pull_short: "sb_len s < n \<Longrightarrow> skb_pull s n = None"
  by (simp add: skb_pull_def)

lemma decap_loop_refines:
  assumes "alloc_ok alloc" and "skb_wf skb" and "ehdr + 12 \<le> sb_data skb"
    and "sub + 2 * n \<le> length (sb_head skb)"
  shows "decap_outcome alloc (Suc n) fs
           (map_option (map (\<lambda>p. take 12 (drop ehdr (sb_head skb)) @ p))
              (split_subframes (len_table n (drop sub (sb_head skb))) (skb_bytes skb)))
           (decap_loop alloc (Suc n) ehdr sub skb fs)"
  using assms
proof (induction n arbitrary: skb sub fs)
  case 0
  then have e: "ehdr + 12 \<le> length (sb_head skb)" "12 \<le> sb_data skb" by (auto simp: skb_wf_def)
  show ?case
  proof (cases "sb_len skb < 2")
    case True
    then show ?thesis using 0 by (auto simp: decap_outcome_def length_skb_bytes)
  next
    case False
    with 0 e show ?thesis
      using last_subframe_ok [of skb ehdr] by (auto simp: decap_outcome_def length_skb_bytes)
  qed
next
  case (Suc n)
  let ?h = "sb_head skb" and ?l = "be16 (take 2 (drop sub (sb_head skb)))"
  have rd: "mem_read sub 2 ?h = Some (take 2 (drop sub ?h))" using Suc.prems(4) by (simp add: mem_read_def)
  have e: "ehdr + 12 \<le> length ?h" using Suc.prems by (auto simp: skb_wf_def)
  have ln: "length (skb_bytes skb) = sb_len skb" using Suc.prems(2) by (rule length_skb_bytes)
  consider "?l < 2 \<or> sb_len skb < ?l" | "2 \<le> ?l" "?l \<le> sb_len skb" "alloc (Suc n) (?l + 14) = None"
    | f0 where "2 \<le> ?l" "?l \<le> sb_len skb" "alloc (Suc n) (?l + 14) = Some f0"
    by (cases "alloc (Suc n) (?l + 14)") force+
  then show ?case
  proof cases
    case 1
    then show ?thesis using rd ln by (auto simp: decap_outcome_def)
  next
    case 2
    then show ?thesis using rd ln by (auto simp: decap_outcome_def)
  next
    case 3
    from Suc.prems(1) 3(3) have f0: "sb_len f0 = 0" "sb_data f0 + (?l + 14) \<le> length (sb_head f0)"
      by (auto simp: alloc_ok_def)
    have fit: "sb_data skb + ?l \<le> length ?h" using Suc.prems(2) 3(2) by (simp add: skb_wf_def)
    obtain f where f: "copy_subframe ehdr skb ?l f0 = Some f"
      "skb_bytes f = take 12 (drop ehdr ?h) @ take ?l (drop (sb_data skb) ?h)"
      using copy_subframe_ok [OF f0 fit e] by blast
    obtain s' where s': "skb_pull skb ?l = Some s'" "skb_wf s'" "skb_bytes s' = drop ?l (skb_bytes skb)"
      "sb_head s' = ?h" "sb_data s' = sb_data skb + ?l"
      using skb_pull_bytes [OF Suc.prems(2) 3(2)] by blast
    let ?f = "f\<lparr>sb_dev := sb_dev s', sb_priority := sb_priority s'\<rparr>"
    have tk: "take ?l (drop (sb_data skb) ?h) = take ?l (skb_bytes skb)"
      using 3(2) by (simp add: skb_bytes_def)
    have "decap_outcome alloc (Suc n) (fs @ [?f])
           (map_option (map (\<lambda>p. take 12 (drop ehdr ?h) @ p))
              (split_subframes (len_table n (drop (sub + 2) ?h)) (drop ?l (skb_bytes skb))))
           (decap_loop alloc (Suc n) ehdr (sub + 2) s' (fs @ [?f]))"
      using Suc.IH [of s' "sub + 2" "fs @ [?f]"] Suc.prems s' by simp
    from decap_outcome_more [OF this] show ?thesis
      using 3 rd f s' ln tk
      by (simp add: option.map_comp comp_def add.commute del: decap_loop.simps(2))
        (simp add: add.commute)
  qed
qed

lemma len_table_take: "2 * n \<le> k \<Longrightarrow> len_table n (take k bs) = len_table n bs"
proof (induction n arbitrary: k bs)
  case (Suc n)
  then show ?case using Suc.IH [of "k - 2" "drop 2 bs"] by (simp add: drop_take min_def)
qed simp

lemma table_size:
  assumes "n < 256"
  shows "table_bytes n = (if n = 0 then 2 ^ 32 - 2 else 2 * (n - 1))"
proof (cases n)
  case 0
  then show ?thesis by (simp add: table_bytes_def)
next
  case (Suc m)
  have "push_bit 1 (of_nat m :: u32) = of_nat (2 * m)" by (simp add: push_bit_eq_mult)
  then have "unat (push_bit 1 (of_nat m :: u32)) = 2 * m mod 2 ^ 32" by (simp only: unat_of_nat) simp
  with Suc assms show ?thesis by (simp add: table_bytes_def)
qed

lemma decapsulate_steps:
  assumes "skb_wf skb" and "20 \<le> sb_len skb" and "sb_len skb < 2 ^ 31"
  defines "n \<equiv> unat (skb_bytes skb ! 16)"
  shows "tgd_amsdu_decapsulate alloc skb =
           (if n = 0 \<or> sb_len skb < 18 + 2 * n then Some (- 1, [])
            else decap_loop alloc n (sb_data skb) (sb_data skb + 20)
                   (skb\<lparr>sb_data := sb_data skb + (18 + 2 * n), sb_len := sb_len skb - (18 + 2 * n)\<rparr>) [])"
proof -
  have nth: "sb_head skb ! (sb_data skb + 16) = skb_bytes skb ! 16"
    using assms by (simp add: skb_bytes_def skb_wf_def)
  have tk: "take 1 (drop (sb_data skb + 16) (sb_head skb)) = [skb_bytes skb ! 16]"
    using assms nth by (simp add: take_Suc_conv_app_nth skb_wf_def)
  have n: "n < 256" using unsigned_less [of "skb_bytes skb ! 16", where ?'a = nat] by (simp add: n_def)
  have ts: "table_bytes n = (if n = 0 then 2 ^ 32 - 2 else 2 * (n - 1))"
    using table_size [OF n] .
  have rd: "mem_read (sb_data skb + 16) 1 (sb_head skb) = Some [skb_bytes skb ! 16]"
    using assms(1,2) tk by (simp add: mem_read_def skb_wf_def)
  show ?thesis
  proof (cases "n = 0")
    case True
    then show ?thesis using assms(2,3) rd ts
      by (simp add: tgd_amsdu_decapsulate_def skb_pull_def n_def add.commute Let_def)
  next
    case False
    then obtain k where k: "n = Suc k" by (cases n) auto
    have "table_bytes (Suc k) = 2 * k" using ts k by simp
    then show ?thesis using assms(2,3) rd
      by (auto simp: tgd_amsdu_decapsulate_def skb_pull_def n_def [symmetric] k ac_simps Let_def
          simp del: decap_loop.simps)
  qed
qed

lemma decapsulate_outcome:
  assumes "alloc_ok alloc" and "skb_wf skb" and "sb_len skb < 2 ^ 31"
  shows "decap_outcome alloc (unat (skb_bytes skb ! 16)) [] (amsdu_frames (skb_bytes skb))
           (tgd_amsdu_decapsulate alloc skb)"
proof -
  let ?bs = "skb_bytes skb" let ?n = "unat (?bs ! 16)"
  have ln: "length ?bs = sb_len skb" using assms(2) by (rule length_skb_bytes)
  consider "sb_len skb < 20" | "20 \<le> sb_len skb" "?n = 0 \<or> sb_len skb < 18 + 2 * ?n"
    | "20 \<le> sb_len skb" "0 < ?n" "18 + 2 * ?n \<le> sb_len skb" by force
  then show ?thesis
  proof cases
    case 1
    then have "tgd_amsdu_decapsulate alloc skb = Some (- 1, [])"
      by (cases "sb_len skb < 14") (auto simp: tgd_amsdu_decapsulate_def skb_pull_def)
    with 1 ln show ?thesis by (simp add: amsdu_frames_def decap_outcome_def)
  next
    case 2
    then show ?thesis using decapsulate_steps [OF assms(2) 2(1) assms(3)] ln
      by (auto simp: amsdu_frames_def Let_def decap_outcome_def)
  next
    case 3
    let ?s = "skb\<lparr>sb_data := sb_data skb + (18 + 2 * ?n), sb_len := sb_len skb - (18 + 2 * ?n)\<rparr>"
    have wf: "skb_wf ?s" using assms(2) 3(3) by (simp add: skb_wf_def)
    have tab: "sb_data skb + 20 + 2 * (?n - 1) \<le> length (sb_head ?s)"
      using assms(2) 3 by (simp add: skb_wf_def)
    have "decap_outcome alloc ?n []
            (map_option (map (\<lambda>p. take 12 (drop (sb_data skb) (sb_head skb)) @ p))
               (split_subframes (len_table (?n - 1) (drop (sb_data skb + 20) (sb_head skb))) (skb_bytes ?s)))
            (decap_loop alloc (Suc (?n - 1)) (sb_data skb) (sb_data skb + 20) ?s [])"
      using decap_loop_refines [OF assms(1) wf _ tab, of "sb_data skb" "[]"] 3(2) by simp
    moreover have "take 12 (drop (sb_data skb) (sb_head skb)) = take 12 ?bs"
      using 3(1) by (simp add: skb_bytes_def)
    moreover have "len_table (?n - 1) (drop (sb_data skb + 20) (sb_head skb)) = len_table (?n - 1) (drop 20 ?bs)"
    proof -
      have "drop 20 ?bs = take (sb_len skb - 20) (drop (sb_data skb + 20) (sb_head skb))"
        by (simp add: skb_bytes_def drop_take add.commute)
      moreover have "2 * (?n - 1) \<le> sb_len skb - 20" using 3 by simp
      ultimately show ?thesis by (simp only: len_table_take)
    qed
    moreover have "skb_bytes ?s = drop (18 + 2 * ?n) ?bs"
      by (simp add: skb_bytes_def drop_take add.commute)
    ultimately have "decap_outcome alloc ?n [] (amsdu_frames ?bs) (tgd_amsdu_decapsulate alloc skb)"
      using 3 ln decapsulate_steps [OF assms(2) 3(1) assms(3), of alloc]
      by (simp add: amsdu_frames_def Let_def)
    then show ?thesis .
  qed
qed

text \<open>
  C26. \<open>tgd_amsdu_decapsulate\<close> implements the A-MSDU format: on every received buffer, whatever its
  bytes, it stays inside its buffers, and either delivers exactly the frames the aggregate stands
  for, in order, or returns an error and delivers none; the error needs a malformed aggregate or the
  failure of one of the allocations for all but the last subframe.
\<close>

theorem amsdu_decap_refines:
  assumes "alloc_ok alloc" and "skb_wf skb" and "sb_len skb < 2 ^ 31"
  shows "(\<exists>fs. tgd_amsdu_decapsulate alloc skb = Some (0, fs) \<and>
               amsdu_frames (skb_bytes skb) = Some (map skb_bytes fs)) \<or>
         tgd_amsdu_decapsulate alloc skb = Some (- 1, []) \<and>
         (amsdu_frames (skb_bytes skb) = None \<or>
          (\<exists>c n. 0 < c \<and> c < unat (skb_bytes skb ! 16) \<and> alloc c n = None))"
  using decapsulate_outcome [OF assms] by (simp add: decap_outcome_def)

section \<open>Round trips\<close>

lemma skb_store_next:
  "Option.bind (skb_store off a s) (\<lambda>s. Option.bind (skb_store (off + length a) b s) f) =
   Option.bind (skb_store off (a @ b) s) f"
  by (auto simp: skb_store_def mem_write_def ac_simps)

lemma skb_store_data: "skb_store off bs s = Some s' \<Longrightarrow> sb_data s' = sb_data s"
  by (auto simp: skb_store_def mem_write_def split: if_splits)

lemma skb_store_next_data:
  assumes "off = sb_data s" and "k = length a"
  shows "Option.bind (skb_store off a s) (\<lambda>s. Option.bind (skb_store (sb_data s + k) b s) f) =
         Option.bind (skb_store off (a @ b) s) f"
    and "Option.bind (skb_store off a s) (\<lambda>s. skb_store (sb_data s + k) b s) =
         skb_store off (a @ b) s"
proof -
  have "Option.bind (skb_store off a s) (\<lambda>s. Option.bind (skb_store (sb_data s + k) b s) g)
      = Option.bind (skb_store off (a @ b) s) g" for g :: "sk_buff \<Rightarrow> 'c option"
    using skb_store_next [of off a s b g] assms
    by (cases "skb_store off a s") (auto simp: skb_store_data)
  note this [of f] this
  then show "Option.bind (skb_store off a s) (\<lambda>s. Option.bind (skb_store (sb_data s + k) b s) f) =
         Option.bind (skb_store off (a @ b) s) f" by simp
  show "Option.bind (skb_store off a s) (\<lambda>s. skb_store (sb_data s + k) b s) = skb_store off (a @ b) s"
    using skb_store_next [of off a s b Some] assms
    by (cases "skb_store off a s") (auto simp: skb_store_data)
qed

text \<open>Reading the protocol of a frame.\<close>

lemma read_proto:
  assumes "skb_wf s" and "14 \<le> sb_len s"
  shows "mem_read (sb_data s + 12) 2 (sb_head s) = Some (take 2 (drop 12 (skb_bytes s)))"
proof -
  have "2 \<le> sb_len s - 12" using assms(2) by simp
  then show ?thesis
    using assms by (simp add: mem_read_def skb_wf_def skb_bytes_def drop_take min_def add.commute)
qed

text \<open>
  Copying byte by byte from the lowest address on, or from the highest. The first is right when the
  destination is below the source, however the regions overlap.
\<close>

fun copy_up :: "nat \<Rightarrow> nat \<Rightarrow> nat \<Rightarrow> u8 list \<Rightarrow> u8 list option" where
  "copy_up dst src 0 h = Some h"
| "copy_up dst src (Suc n) h =
     (if dst < length h \<and> src < length h then copy_up (Suc dst) (Suc src) n (h[dst := h ! src]) else None)"

fun copy_down :: "nat \<Rightarrow> nat \<Rightarrow> nat \<Rightarrow> u8 list \<Rightarrow> u8 list option" where
  "copy_down dst src 0 h = Some h"
| "copy_down dst src (Suc n) h =
     (if dst + n < length h \<and> src + n < length h then copy_down dst src n (h[dst + n := h ! (src + n)]) else None)"

definition memcpy_upward :: "overlap_copy \<Rightarrow> bool" where
  "memcpy_upward ov \<longleftrightarrow> (\<forall>dst src n h. dst < src \<longrightarrow> ov dst src n h = copy_up dst src n h)"

lemma copy_up_eq:
  "dst < src \<Longrightarrow> src + n \<le> length h \<Longrightarrow> copy_up dst src n h = Some (take dst h @ take n (drop src h) @ drop (dst + n) h)"
proof (induction n arbitrary: dst src h)
  case (Suc n)
  let ?h = "h[dst := h ! src]"
  have "copy_up (Suc dst) (Suc src) n ?h = Some (take (Suc dst) ?h @ take n (drop (Suc src) ?h) @ drop (Suc dst + n) ?h)"
    using Suc.prems by (intro Suc.IH) simp_all
  moreover have "take (Suc dst) ?h = take dst h @ [h ! src]" using Suc.prems by (simp add: take_Suc_conv_app_nth)
  moreover have "take (Suc n) (drop src h) = h ! src # take n (drop (Suc src) h)"
    using Suc.prems by (simp add: Cons_nth_drop_Suc [symmetric])
  ultimately show ?case using Suc.prems by simp
qed simp

lemma memcpy_below:
  assumes "memcpy_upward ov" and "dst < src" and "src + n \<le> length h"
  shows "memcpy ov dst src n h = mem_write dst (take n (drop src h)) h"
  using assms copy_up_eq [OF assms(2,3)] by (auto simp: memcpy_def memcpy_upward_def mem_read_def mem_write_def)

text \<open>What encapsulation does to the bytes of a frame that is not EAPOL.\<close>

lemma encapsulate_bytes:
  assumes up: "memcpy_upward ov"
  assumes "skb_wf skb" and "14 \<le> sb_len skb" and "sb_mac skb = sb_data skb" and "8 \<le> sb_data skb"
    and "take 2 (drop 12 (skb_bytes skb)) \<noteq> ETH_P_PAE"
  shows "\<exists>s. tgd_amsdu_encapsulate ov skb = Some s \<and> skb_wf s \<and> sb_len s = sb_len skb + 8 \<and>
             skb_bytes s = amsdu_aggregate (take 12 (skb_bytes skb)) [drop 12 (skb_bytes skb)]"
proof -
  let ?h = "sb_head skb" and ?d = "sb_data skb"
  let ?s = "skb\<lparr>sb_data := ?d - 8, sb_len := sb_len skb + 8\<rparr>"
  define eth where "eth = take 12 (drop ?d ?h)"
  define new where "new = eth @ ETH_P_TGAMSDU @ [0, 6, 1, 0, 0, 0]"
  have le: "length eth = 12" using assms by (simp add: eth_def skb_wf_def)
  have ln: "length new = 20" using le by (simp add: new_def ETH_P_TGAMSDU_def)
  have bs: "drop 12 (skb_bytes skb) = take (sb_len skb - 12) (drop (?d + 12) ?h)"
    by (simp add: skb_bytes_def drop_take add.commute)
  note asms = assms(2-)
  have cp: "Option.bind (memcpy ov (?d - 8) ?d 12 ?h) (\<lambda>h. f (?s\<lparr>sb_head := h\<rparr>)) = Option.bind (skb_store (?d - 8) eth ?s) f" for f
    using memcpy_below [OF up, of "?d - 8" ?d 12 ?h] asms by (simp add: skb_store_def eth_def skb_wf_def)
  have "tgd_amsdu_encapsulate ov skb =
      do { s \<leftarrow> skb_store (?d - 8) eth ?s;
           s \<leftarrow> skb_store (sb_data s + 12) ETH_P_TGAMSDU s;
           s \<leftarrow> skb_store (sb_data s + 14) [0] s;
           s \<leftarrow> skb_store (sb_data s + 15) [6] s;
           s \<leftarrow> skb_store (sb_data s + 16) [1] s;
           skb_store (sb_data s + 17) [0, 0, 0] s }"
    unfolding cp [symmetric] using asms read_proto [OF asms(1,2)]
    by (simp add: tgd_amsdu_encapsulate_def skb_push_def Let_def)
  also have "\<dots> = skb_store (?d - 8) new ?s"
    by (simp add: skb_store_next_data le new_def ETH_P_TGAMSDU_def)
  finally have enc: "tgd_amsdu_encapsulate ov skb = skb_store (?d - 8) new ?s" .
  have "take (20 + (sb_len skb - 12)) (drop (?d - 8) (take (?d - 8) ?h @ new @ drop (?d - 8 + 20) ?h)) =
        new @ take (sb_len skb - 12) (drop (?d - 8 + 20) ?h)"
    using take_drop_write_before [of "?d - 8" new ?h] asms ln by (simp add: skb_wf_def)
  moreover have "20 + (sb_len skb - 12) = sb_len skb + 8" "?d - 8 + 20 = ?d + 12" using assms by auto
  ultimately have "take (sb_len skb + 8) (drop (?d - 8) (take (?d - 8) ?h @ new @ drop (?d + 12) ?h)) =
        new @ drop 12 (skb_bytes skb)" by (simp only: bs)
  moreover have "take 12 (skb_bytes skb) = eth" using assms by (simp add: skb_bytes_def eth_def)
  ultimately have "take (sb_len skb + 8) (drop (?d - 8) (take (?d - 8) ?h @ new @ drop (?d + 12) ?h)) =
        amsdu_aggregate (take 12 (skb_bytes skb)) [drop 12 (skb_bytes skb)]"
    by (simp add: new_def amsdu_aggregate_def)
  moreover have "skb_store (?d - 8) new ?s =
      Some (?s\<lparr>sb_head := take (?d - 8) ?h @ new @ drop (?d + 12) ?h\<rparr>)"
    using asms(1,2,4) ln by (simp add: skb_store_def mem_write_def skb_wf_def add.commute)
  ultimately show ?thesis
    unfolding enc using asms(1,2,4) ln
    by (simp add: skb_wf_def skb_bytes_def add.commute del: take_append drop_append)
qed

lemma len_table_aggregate:
  assumes "\<forall>p \<in> set qs. length p < 2 ^ 16"
  shows "len_table (length qs) (concat (map (be16_bytes \<circ> length) qs) @ r) = map length qs"
  using assms
proof (induction qs)
  case (Cons q qs)
  then have "length q div 256 < 256" by (simp add: less_mult_imp_div_less)
  then have "be16 (be16_bytes (length q)) = length q"
    by (simp add: be16_def be16_bytes_def unat_of_nat)
  with Cons show ?case by (simp add: be16_bytes_def)
qed simp

lemma split_concat:
  assumes "ps \<noteq> []" and "\<forall>p \<in> set ps. 2 \<le> length p"
  shows "split_subframes (map length (butlast ps)) (concat ps) = Some ps"
  using assms by (induction ps) (auto simp: not_less)

lemma length_be16_table: "length (concat (map (be16_bytes \<circ> length) qs)) = 2 * length qs"
  by (induction qs) (auto simp: be16_bytes_def)

lemma frames_of_aggregate:
  assumes "length addrs = 12" and "ps \<noteq> []" and "length ps < 256"
    and "\<forall>p \<in> set ps. 2 \<le> length p" and "\<forall>p \<in> set (butlast ps). length p < 2 ^ 16"
  shows "amsdu_frames (amsdu_aggregate addrs ps) = Some (map ((@) addrs) ps)"
proof -
  let ?a = "amsdu_aggregate addrs ps" let ?t = "concat (map (be16_bytes \<circ> length) (butlast ps))"
  have hd: "?a = (addrs @ ETH_P_TGAMSDU @ [0, 6, of_nat (length ps), 0, 0, 0]) @ ?t @ concat ps"
    by (simp add: amsdu_aggregate_def)
  have l20: "length (addrs @ ETH_P_TGAMSDU @ [0 :: u8, 6, of_nat (length ps), 0, 0, 0]) = 20"
    using assms(1) by (simp add: ETH_P_TGAMSDU_def)
  have lt: "length ?t = 2 * (length ps - 1)" by (simp add: length_be16_table)
  have n16: "?a ! 16 = of_nat (length ps)"
    using assms(1) by (simp add: amsdu_aggregate_def ETH_P_TGAMSDU_def nth_append)
  have n: "unat (?a ! 16) = length ps" using assms(3) by (simp add: n16 unat_of_nat)
  have d20: "drop 20 ?a = ?t @ concat ps" using l20 by (simp add: hd del: append_assoc)
  have "18 + 2 * length ps = 20 + length ?t" using assms(2) lt by (cases ps) auto
  then have dp: "drop (18 + 2 * length ps) ?a = concat ps"
    using d20 by (simp only: drop_drop [symmetric] add.commute [of 20]) simp
  have len: "length ?a = 18 + 2 * length ps + length (concat ps)"
    using \<open>18 + 2 * length ps = 20 + length ?t\<close> l20 by (simp only: hd length_append)
  have tab: "len_table (length ps - 1) (drop 20 ?a) = map length (butlast ps)"
    using len_table_aggregate [OF assms(5)] by (simp add: d20)
  have "take 12 ?a = addrs" using assms(1) by (simp add: amsdu_aggregate_def)
  then show ?thesis
    using assms(2) n tab dp len split_concat [OF assms(2,4)]
    by (cases ps) (simp_all add: amsdu_frames_def Let_def)
qed

lemma rx_aggregate:
  assumes "alloc_ok alloc" and "\<forall>c n. 0 < c \<and> c < length ps \<longrightarrow> alloc c n \<noteq> None"
    and "skb_wf skb" and "sb_len skb < 2 ^ 31" and "skb_bytes skb = amsdu_aggregate addrs ps"
    and "length addrs = 12" and "ps \<noteq> []" and "length ps < 256"
    and "\<forall>p \<in> set ps. 2 \<le> length p" and "\<forall>p \<in> set (butlast ps). length p < 2 ^ 16"
  shows "\<exists>fs. fb_tgd_rt_linux_rx alloc skb = Some fs \<and> map skb_bytes fs = map ((@) addrs) ps"
proof -
  let ?b = "skb_bytes skb"
  have n: "unat (?b ! 16) = length ps"
    using assms(5,6,8) by (simp add: amsdu_aggregate_def ETH_P_TGAMSDU_def nth_append unat_of_nat)
  have "12 \<le> length ?b" "take 2 (drop 12 ?b) = ETH_P_TGAMSDU" "14 \<le> sb_len skb"
    using assms(5,6) length_skb_bytes [OF assms(3)] by (simp_all add: amsdu_aggregate_def ETH_P_TGAMSDU_def)
  then have "mem_read (sb_data skb + 12) 2 (sb_head skb) = Some ETH_P_TGAMSDU"
    using read_proto [OF assms(3)] by simp
  moreover have "decap_outcome alloc (length ps) [] (Some (map ((@) addrs) ps)) (tgd_amsdu_decapsulate alloc skb)"
    using decapsulate_outcome [OF assms(1,3,4)] frames_of_aggregate [OF assms(6-10)] n by (simp add: assms(5))
  moreover have no_err: "\<not> (\<exists>c n. 0 < c \<and> c < length ps \<and> alloc c n = None)"
    using assms(2) by blast
  ultimately show ?thesis
    by (auto simp: decap_outcome_def fb_tgd_rt_linux_rx_def simp del: not_None_eq)
qed

text \<open>
  The receiving backend inverts aggregation: an A-MSDU of up to 255 subframes is delivered as
  those subframes, each behind the addresses of the aggregate, complete and in order, when the
  kernel has the memory for them.
\<close>

theorem amsdu_deaggregates:
  assumes "alloc_ok alloc" and "\<forall>c n. 0 < c \<and> c < length ps \<longrightarrow> alloc c n \<noteq> None"
    and "skb_wf skb" and "sb_len skb < 2 ^ 31" and "skb_bytes skb = amsdu_aggregate addrs ps"
    and "length addrs = 12" and "ps \<noteq> []" and "length ps < 256"
    and "\<forall>p \<in> set ps. 2 \<le> length p" and "\<forall>p \<in> set (butlast ps). length p < 2 ^ 16"
  shows "\<exists>fs. fb_tgd_rt_linux_rx alloc skb = Some fs \<and> map skb_bytes fs = map ((@) addrs) ps"
  using assms by (rule rx_aggregate)


section \<open>Instances\<close>

text \<open>An allocator and a received aggregate of two subframes.\<close>

definition plain_alloc :: skb_alloc where
  "plain_alloc c n = Some \<lparr>sb_head = replicate (n + 2) 0, sb_data = 2, sb_len = 0, sb_mac = 0,
                           sb_dev = 0, sb_priority = 0\<rparr>"

lemma plain_alloc_ok: "alloc_ok plain_alloc"
  by (simp add: alloc_ok_def plain_alloc_def)

definition sample_skb :: sk_buff where
  "sample_skb = \<lparr>sb_head = amsdu_aggregate (replicate 12 7) [[8, 0, 1], [8, 0, 2, 3]], sb_data = 0,
                 sb_len = 29, sb_mac = 0, sb_dev = 3, sb_priority = 5\<rparr>"

definition sample_frame :: sk_buff where
  "sample_frame = \<lparr>sb_head = replicate 8 0 @ replicate 12 7 @ [8, 0, 1, 2], sb_data = 8,
                   sb_len = 16, sb_mac = 8, sb_dev = 3, sb_priority = 5\<rparr>"

definition numbered_frame :: sk_buff where
  "numbered_frame = \<lparr>sb_head = replicate 8 0 @ [1, 2, 3, 4, 5, 6, 7, 8, 9, 10, 11, 12, 8, 0], sb_data = 8,
                     sb_len = 14, sb_mac = 8, sb_dev = 0, sb_priority = 0\<rparr>"

lemma sample_skb_facts:
  "skb_wf sample_skb" "sb_len sample_skb < 2 ^ 31"
  "skb_bytes sample_skb = amsdu_aggregate (replicate 12 7) [[8, 0, 1], [8, 0, 2, 3]]"
  by (simp_all add: sample_skb_def skb_wf_def skb_bytes_def amsdu_aggregate_def ETH_P_TGAMSDU_def
      be16_bytes_def)

theorem amsdu_decap_refines_witness:
  "(\<exists>fs. tgd_amsdu_decapsulate plain_alloc sample_skb = Some (0, fs) \<and>
         amsdu_frames (skb_bytes sample_skb) = Some (map skb_bytes fs)) \<or>
   tgd_amsdu_decapsulate plain_alloc sample_skb = Some (- 1, []) \<and>
   amsdu_frames (skb_bytes sample_skb) = None"
  using amsdu_decap_refines [OF plain_alloc_ok sample_skb_facts(1,2)] by (simp add: plain_alloc_def)

theorem amsdu_deaggregates_witness:
  "\<exists>fs. fb_tgd_rt_linux_rx plain_alloc sample_skb = Some fs \<and>
        map skb_bytes fs = [replicate 12 7 @ [8, 0, 1], replicate 12 7 @ [8, 0, 2, 3]]"
  using amsdu_deaggregates [OF plain_alloc_ok _ sample_skb_facts] by (simp add: plain_alloc_def)


text \<open>With a copy from the highest address down, some bytes of the addresses are overwritten before they are read.\<close>

lemma downward_copy_damages:
  "\<exists>skb s f. skb_wf skb \<and> 14 \<le> sb_len skb \<and> sb_mac skb = sb_data skb \<and> 8 \<le> sb_data skb \<and>
     tgd_amsdu_encapsulate copy_down skb = Some s \<and> fb_tgd_rt_linux_rx plain_alloc s = Some [f] \<and> skb_bytes f \<noteq> skb_bytes skb"
proof -
  have "case tgd_amsdu_encapsulate copy_down numbered_frame of None \<Rightarrow> False
    | Some s \<Rightarrow> (case fb_tgd_rt_linux_rx plain_alloc s of Some [f] \<Rightarrow> skb_bytes f \<noteq> skb_bytes numbered_frame | _ \<Rightarrow> False)"
    by code_simp
  then obtain s f where "tgd_amsdu_encapsulate copy_down numbered_frame = Some s" "fb_tgd_rt_linux_rx plain_alloc s = Some [f]"
    "skb_bytes f \<noteq> skb_bytes numbered_frame" by (auto split: option.splits list.splits)
  then show ?thesis by (intro exI [of _ numbered_frame] exI [of _ s] exI [of _ f]) (simp add: numbered_frame_def skb_wf_def)
qed

end
