(* ===== verification/Pfifofc.thy ===== *)
theory Pfifofc
  imports Prelude
begin

text \<open>
  The queueing discipline of the Terragraph radio interface (\<open>qdisc-mod/src/fb_qdisc_pfifofc.c\<close>
  with \<open>fb_tg_qdisc_pfifofc_if.h\<close>): four packet queues in strict priority, each with a
  two-level flow-control signal to the network device, raised and lowered with hysteresis.

  The kernel's packet lists and queue statistics are not part of this code: they are the record
  \<open>skb_ops\<close>, and \<open>skb_ops_ok\<close> states what the kernel documents of them. The netdev callback is
  a number (0 is NULL) and the state keeps the list of its calls.
\<close>

section \<open>Kernel interface\<close>

record skb =
  skb_priority :: u32
  skb_pkt_len :: u32
  skb_id :: nat

text \<open>\<open>'q\<close> is \<open>struct qdisc_skb_head\<close>, \<open>'k\<close> the statistics of \<open>struct Qdisc\<close> with the free list.\<close>

record ('q, 'k) skb_ops =
  head_init :: 'q
  list_qlen :: "'q \<Rightarrow> u32"
  list_head :: "'q \<Rightarrow> skb option"
  enqueue_tail :: "skb \<Rightarrow> 'k \<Rightarrow> 'q \<Rightarrow> int \<times> 'k \<times> 'q"
  dequeue_head :: "'q \<Rightarrow> skb option \<times> 'q"
  reset_queue :: "'q \<Rightarrow> 'q"
  qdisc_drop :: "skb \<Rightarrow> 'k \<Rightarrow> int \<times> 'k"
  backlog_dec :: "skb \<Rightarrow> 'k \<Rightarrow> 'k"
  qdisc_bstats_update :: "skb \<Rightarrow> 'k \<Rightarrow> 'k"
  get_backlog :: "'k \<Rightarrow> u32"
  set_backlog :: "u32 \<Rightarrow> 'k \<Rightarrow> 'k"

definition skb_ops_ok :: "('q, 'k) skb_ops \<Rightarrow> ('q \<Rightarrow> skb list) \<Rightarrow> bool" where
  "skb_ops_ok ko items \<longleftrightarrow>
     items (head_init ko) = []
     \<and> (\<forall>q. list_qlen ko q = of_nat (length (items q)))
     \<and> (\<forall>q. list_head ko q = (case items q of [] \<Rightarrow> None | s # _ \<Rightarrow> Some s))
     \<and> (\<forall>s k q. \<exists>k' q'. enqueue_tail ko s k q = (0, k', q') \<and> items q' = items q @ [s]
           \<and> get_backlog ko k' = get_backlog ko k + skb_pkt_len s)
     \<and> (\<forall>q. fst (dequeue_head ko q) = (case items q of [] \<Rightarrow> None | s # _ \<Rightarrow> Some s)
           \<and> items (snd (dequeue_head ko q)) = tl (items q))
     \<and> (\<forall>q. items (reset_queue ko q) = [])
     \<and> (\<forall>s k. \<exists>k'. qdisc_drop ko s k = (1, k') \<and> get_backlog ko k' = get_backlog ko k)
     \<and> (\<forall>s k. get_backlog ko (backlog_dec ko s k) = get_backlog ko k - skb_pkt_len s)
     \<and> (\<forall>s k. get_backlog ko (qdisc_bstats_update ko s k) = get_backlog ko k)
     \<and> (\<forall>b k. get_backlog ko (set_backlog ko b k) = b)"

section \<open>State\<close>

abbreviation PFIFOFC_BANDS :: nat where "PFIFOFC_BANDS \<equiv> 4"
abbreviation DROP_PROB :: int where "DROP_PROB \<equiv> 100"

datatype fc_level = ALL_OFF | RED_ON | ALL_ON

record band_stats =
  total_pkts :: u64
  dropped_pkts :: u64

record tgd_pfifofc_qopt =
  max_queue_len :: u32
  qlen_red_on :: u32
  qlen_red_off :: u32
  qlen_all_on :: u32
  qlen_all_off :: u32

text \<open>\<open>struct pfifofc_priv\<close> with the members of \<open>struct Qdisc\<close> it uses.\<close>

record ('q, 'k) qdisc =
  qd_qlen :: u32
  qd_kern :: 'k
  tx_prio_queue_len :: u16
  tx_qlen_red_on :: u16
  tx_qlen_red_off :: u16
  tx_qlen_all_on :: u16
  tx_qlen_all_off :: u16
  fc :: "fc_level list"
  bandq :: "'q list"
  bstats :: "band_stats list"
  dev_fc_cb :: u64
  fc_calls :: "(fc_level \<times> int \<times> u32) list"

definition prio2fourband :: "nat list" where
  "prio2fourband = [2, 3, 3, 2, 1, 1, 0, 0, 1, 1, 1, 1, 1, 1, 1, 1]"

definition band_of :: "u32 \<Rightarrow> nat" where
  "band_of prio = prio2fourband ! unat (prio AND 15)"

section \<open>Operations\<close>

definition pfifofc_signal_fc :: "nat \<Rightarrow> fc_level \<Rightarrow> u32 \<Rightarrow> ('q, 'k) qdisc \<Rightarrow> ('q, 'k) qdisc" where
  "pfifofc_signal_fc band color priority st =
     (let st1 = st\<lparr>fc := (fc st)[band := color]\<rparr>
      in if dev_fc_cb st1 \<noteq> 0 then st1\<lparr>fc_calls := fc_calls st1 @ [(color, DROP_PROB, priority)]\<rparr>
         else st1)"

definition pfifofc_enqueue ::
  "('q, 'k) skb_ops \<Rightarrow> skb \<Rightarrow> ('q, 'k) qdisc \<Rightarrow> int \<times> ('q, 'k) qdisc" where
  "pfifofc_enqueue ko skb st =
     (let band = band_of (skb_priority skb);
          qlen = sint (list_qlen ko (bandq st ! band))
      in if qlen < uint (tx_prio_queue_len st)
         then
           let st1 = (if uint (tx_qlen_red_on st) \<le> qlen
                      then if qlen < uint (tx_qlen_all_off st) \<and> fc st ! band \<noteq> RED_ON
                           then pfifofc_signal_fc band RED_ON (skb_priority skb) st
                           else if uint (tx_qlen_all_on st) \<le> qlen \<and> fc st ! band \<noteq> ALL_ON
                           then pfifofc_signal_fc band ALL_ON (skb_priority skb) st
                           else st
                      else st);
               st2 = st1\<lparr>qd_qlen := qd_qlen st1 + 1,
                         bstats := (bstats st1)[band := (bstats st1 ! band)
                           \<lparr>total_pkts := total_pkts (bstats st1 ! band) + 1\<rparr>]\<rparr>;
               (ret, k, q) = enqueue_tail ko skb (qd_kern st2) (bandq st2 ! band)
           in (ret, st2\<lparr>qd_kern := k, bandq := (bandq st2)[band := q]\<rparr>)
         else
           let st1 = st\<lparr>bstats := (bstats st)[band := (bstats st ! band)
                          \<lparr>dropped_pkts := dropped_pkts (bstats st ! band) + 1\<rparr>]\<rparr>;
               (ret, k) = qdisc_drop ko skb (qd_kern st1)
           in (ret, st1\<lparr>qd_kern := k\<rparr>))"

text \<open>The do-while loop of \<open>pfifofc_dequeue\<close>: the packet, the band counter and the lists.\<close>

function deq_scan :: "('q, 'k) skb_ops \<Rightarrow> nat \<Rightarrow> 'q list \<Rightarrow> skb option \<times> nat \<times> 'q list" where
  "deq_scan ko band qs =
     (let (s, q) = dequeue_head ko (qs ! band);
          qs' = qs[band := q]
      in if s = None
         then if Suc band < PFIFOFC_BANDS then deq_scan ko (Suc band) qs' else (None, Suc band, qs')
         else (s, band, qs'))"
  by pat_completeness auto
termination by (relation "measure (\<lambda>(ko, band, qs). PFIFOFC_BANDS - band)") auto

declare deq_scan.simps [simp del]

definition pfifofc_dequeue ::
  "('q, 'k) skb_ops \<Rightarrow> ('q, 'k) qdisc \<Rightarrow> skb option \<times> ('q, 'k) qdisc" where
  "pfifofc_dequeue ko st =
     (let (s, band, qs) = deq_scan ko 0 (bandq st);
          st0 = st\<lparr>bandq := qs\<rparr>
      in case s of
           None \<Rightarrow> (None, st0)
         | Some skb \<Rightarrow>
             let qlen = sint (list_qlen ko (qs ! band));
                 st1 = st0\<lparr>qd_qlen := qd_qlen st0 - 1,
                           qd_kern := qdisc_bstats_update ko skb (backlog_dec ko skb (qd_kern st0))\<rparr>;
                 st2 = (if qlen \<le> uint (tx_qlen_red_off st1) \<and> fc st1 ! band \<noteq> ALL_OFF
                        then pfifofc_signal_fc band ALL_OFF (skb_priority skb) st1
                        else if uint (tx_qlen_red_on st1) \<le> qlen \<and> qlen \<le> uint (tx_qlen_all_off st1)
                             \<and> fc st1 ! band \<noteq> RED_ON
                        then pfifofc_signal_fc band RED_ON (skb_priority skb) st1
                        else st1)
             in (Some skb, st2))"

text \<open>The for loop of \<open>pfifofc_peek\<close> over the bands that are left.\<close>

primrec peek_loop :: "('q, 'k) skb_ops \<Rightarrow> nat list \<Rightarrow> 'q list \<Rightarrow> skb option \<Rightarrow> skb option" where
  "peek_loop ko [] qs s = s"
| "peek_loop ko (b # bs) qs s =
     (if s \<noteq> None then s else peek_loop ko bs qs (list_head ko (qs ! b)))"

definition pfifofc_peek :: "('q, 'k) skb_ops \<Rightarrow> ('q, 'k) qdisc \<Rightarrow> skb option" where
  "pfifofc_peek ko st = peek_loop ko [0..<PFIFOFC_BANDS] (bandq st) None"

primrec reset_loop ::
  "('q, 'k) skb_ops \<Rightarrow> nat list \<Rightarrow> ('q, 'k) qdisc \<Rightarrow> ('q, 'k) qdisc" where
  "reset_loop ko [] st = st"
| "reset_loop ko (b # bs) st =
     reset_loop ko bs (st\<lparr>bandq := (bandq st)[b := reset_queue ko (bandq st ! b)],
                         fc := (fc st)[b := ALL_OFF]\<rparr>)"

definition pfifofc_reset :: "('q, 'k) skb_ops \<Rightarrow> ('q, 'k) qdisc \<Rightarrow> ('q, 'k) qdisc" where
  "pfifofc_reset ko st =
     (let st1 = reset_loop ko [0..<PFIFOFC_BANDS] st
      in st1\<lparr>qd_kern := set_backlog ko 0 (qd_kern st1), qd_qlen := 0\<rparr>)"

definition set_limits :: "tgd_pfifofc_qopt \<Rightarrow> ('q, 'k) qdisc \<Rightarrow> ('q, 'k) qdisc" where
  "set_limits opt st =
     st\<lparr>tx_prio_queue_len := ucast (max_queue_len opt),
        tx_qlen_red_on := ucast (qlen_red_on opt), tx_qlen_red_off := ucast (qlen_red_off opt),
        tx_qlen_all_on := ucast (qlen_all_on opt), tx_qlen_all_off := ucast (qlen_all_off opt)\<rparr>"

text \<open>A netlink attribute is its length and the options found at its data; \<open>-EINVAL\<close> is -22.\<close>

definition pfifofc_tune ::
  "u64 \<times> tgd_pfifofc_qopt \<Rightarrow> ('q, 'k) qdisc \<Rightarrow> int \<times> ('q, 'k) qdisc" where
  "pfifofc_tune attr st =
     (if fst attr < 20 then (- 22, st) else (0, set_limits (snd attr) st))"

primrec init_loop ::
  "('q, 'k) skb_ops \<Rightarrow> nat list \<Rightarrow> ('q, 'k) qdisc \<Rightarrow> ('q, 'k) qdisc" where
  "init_loop ko [] st = st"
| "init_loop ko (b # bs) st =
     init_loop ko bs (st\<lparr>bandq := (bandq st)[b := head_init ko], fc := (fc st)[b := ALL_OFF]\<rparr>)"

definition pfifofc_init ::
  "('q, 'k) skb_ops \<Rightarrow> (u64 \<times> tgd_pfifofc_qopt) option \<Rightarrow> ('q, 'k) qdisc \<Rightarrow> int \<times> ('q, 'k) qdisc" where
  "pfifofc_init ko opt st =
     (let (ret, st1) =
            (case opt of
               Some attr \<Rightarrow> pfifofc_tune attr st
             | None \<Rightarrow> (0, st\<lparr>tx_prio_queue_len := 640, tx_qlen_red_on := 320, tx_qlen_red_off := 320 - 80,
                             tx_qlen_all_on := 520, tx_qlen_all_off := 520 - 80\<rparr>))
      in if ret \<noteq> 0 then (ret, st1)
         else (0, init_loop ko [0..<PFIFOFC_BANDS] (st1\<lparr>dev_fc_cb := 0\<rparr>)))"

text \<open>\<open>put_ok\<close> and \<open>len\<close> are the results of \<open>nla_put\<close> and the length of the message.\<close>

definition pfifofc_dump ::
  "bool \<Rightarrow> int \<Rightarrow> ('q, 'k) qdisc \<Rightarrow> int \<times> tgd_pfifofc_qopt option" where
  "pfifofc_dump put_ok len st =
     (let opt = \<lparr>max_queue_len = ucast (tx_prio_queue_len st),
                 qlen_red_on = ucast (tx_qlen_red_on st), qlen_red_off = ucast (tx_qlen_red_off st),
                 qlen_all_on = ucast (tx_qlen_all_on st), qlen_all_off = ucast (tx_qlen_all_off st)\<rparr>
      in if put_ok then (len, Some opt) else (- 1, None))"

text \<open>Per band: current, dropped and total packets; then bytes and packets of the qdisc.\<close>

definition pfifofc_dump_stats ::
  "('q, 'k) skb_ops \<Rightarrow> ('q, 'k) qdisc \<Rightarrow> (u32 \<times> u64 \<times> u64) list \<times> u32 \<times> u32" where
  "pfifofc_dump_stats ko st =
     (map (\<lambda>b. (list_qlen ko (bandq st ! b), dropped_pkts (bstats st ! b), total_pkts (bstats st ! b)))
          [0..<PFIFOFC_BANDS],
      get_backlog ko (qd_kern st), qd_qlen st)"

definition qdisc_dev_register_flow_control_cb ::
  "u64 \<Rightarrow> tgd_pfifofc_qopt option \<Rightarrow> ('q, 'k) qdisc \<Rightarrow> ('q, 'k) qdisc" where
  "qdisc_dev_register_flow_control_cb fn_ptr tune st =
     (let st1 = st\<lparr>dev_fc_cb := fn_ptr\<rparr>
      in case tune of None \<Rightarrow> st1 | Some t \<Rightarrow> set_limits t st1)"

section \<open>Specification\<close>

text \<open>Strict priority over lists of packets: the first packet of the first band that has one.\<close>

fun prio_deq :: "skb list list \<Rightarrow> skb option \<times> skb list list" where
  "prio_deq [] = (None, [])"
| "prio_deq ((s # q) # qs) = (Some s, q # qs)"
| "prio_deq ([] # qs) = (let (s, qs') = prio_deq qs in (s, [] # qs'))"

definition prio_enq :: "nat \<Rightarrow> skb \<Rightarrow> skb list list \<Rightarrow> int \<times> skb list list" where
  "prio_enq limit s qs =
     (let b = band_of (skb_priority s)
      in if length (qs ! b) < limit then (0, qs[b := qs ! b @ [s]]) else (1, qs))"

lemma prio_deq_None: "\<forall>i < length qs. qs ! i = [] \<Longrightarrow> prio_deq qs = (None, qs)"
  by (induction qs rule: prio_deq.induct) (force simp: nth_Cons')+

lemma prio_deq_Some:
  "\<lbrakk>b < length qs; \<forall>i < b. qs ! i = []; qs ! b = s # q\<rbrakk> \<Longrightarrow> prio_deq qs = (Some s, qs[b := q])"
proof (induction qs arbitrary: b rule: prio_deq.induct)
  case (2 x xs qs)
  then show ?case by (cases b) auto
next
  case (3 qs)
  then obtain b' where b: "b = Suc b'" by (cases b) auto
  have "\<forall>i < b'. qs ! i = []" using 3(3) b by (metis Suc_less_eq nth_Cons_Suc)
  then show ?case using 3 b by simp
qed simp

text \<open>What the netdev believes of a band: the colour of the last call for one of its priorities.\<close>

definition signalled :: "nat \<Rightarrow> (fc_level \<times> int \<times> u32) list \<Rightarrow> fc_level" where
  "signalled b calls =
     fold (\<lambda>(c, p, prio) level. if band_of prio = b then c else level) calls ALL_OFF"

section \<open>Invariant\<close>

definition limits_ok :: "('q, 'k) qdisc \<Rightarrow> bool" where
  "limits_ok st \<longleftrightarrow> tx_qlen_red_off st < tx_qlen_red_on st \<and> tx_qlen_red_on st < tx_qlen_all_off st
     \<and> tx_qlen_all_off st < tx_qlen_all_on st"

text \<open>The flow-control level of a band against its number of packets.\<close>

definition level_ok :: "('q, 'k) qdisc \<Rightarrow> fc_level \<Rightarrow> nat \<Rightarrow> bool" where
  "level_ok st c n \<longleftrightarrow>
     (case c of
        ALL_OFF \<Rightarrow> n \<le> unat (tx_qlen_red_on st)
      | RED_ON \<Rightarrow> unat (tx_qlen_red_off st) < n \<and> n \<le> unat (tx_qlen_all_on st)
      | ALL_ON \<Rightarrow> unat (tx_qlen_all_off st) < n)"

definition bands :: "('q \<Rightarrow> skb list) \<Rightarrow> ('q, 'k) qdisc \<Rightarrow> skb list list" where
  "bands items st = map items (bandq st)"

definition pf_inv :: "('q, 'k) skb_ops \<Rightarrow> ('q \<Rightarrow> skb list) \<Rightarrow> ('q, 'k) qdisc \<Rightarrow> bool" where
  "pf_inv ko items st \<longleftrightarrow>
     length (bandq st) = PFIFOFC_BANDS \<and> length (fc st) = PFIFOFC_BANDS
     \<and> length (bstats st) = PFIFOFC_BANDS \<and> limits_ok st
     \<and> (\<forall>b < PFIFOFC_BANDS. length (bands items st ! b) \<le> unat (tx_prio_queue_len st)
          \<and> level_ok st (fc st ! b) (length (bands items st ! b))
          \<and> (\<forall>s \<in> set (bands items st ! b). band_of (skb_priority s) = b))
     \<and> qd_qlen st = of_nat (sum_list (map length (bands items st)))
     \<and> get_backlog ko (qd_kern st) = sum_list (map (\<lambda>q. sum_list (map skb_pkt_len q)) (bands items st))"

lemma band_of_bound: "band_of p < PFIFOFC_BANDS"
proof -
  have "p AND 15 \<le> 15" by (rule word_and_le1)
  then have i: "unat (p AND 15) < length prio2fourband" by (simp add: word_le_nat_alt prio2fourband_def)
  have "\<forall>b \<in> set prio2fourband. b < PFIFOFC_BANDS" by (simp add: prio2fourband_def)
  with i show ?thesis unfolding band_of_def by (metis nth_mem)
qed

lemma skb_ops_calls:
  assumes "skb_ops_ok ko items"
  shows "\<exists>k' q'. enqueue_tail ko s k q = (0, k', q') \<and> items q' = items q @ [s]
           \<and> get_backlog ko k' = get_backlog ko k + skb_pkt_len s"
    and "\<exists>k'. qdisc_drop ko s k = (1, k') \<and> get_backlog ko k' = get_backlog ko k"
    and "get_backlog ko (backlog_dec ko s k) = get_backlog ko k - skb_pkt_len s"
    and "get_backlog ko (qdisc_bstats_update ko s k) = get_backlog ko k"
    and "get_backlog ko (set_backlog ko x k) = x" and "items (reset_queue ko q) = []"
    and "items (head_init ko) = []"
  using assms unfolding skb_ops_ok_def by simp_all

lemma dequeue_head_ok:
  assumes "skb_ops_ok ko items" and "dequeue_head ko q = (s, q')"
  shows "s = (case items q of [] \<Rightarrow> None | x # _ \<Rightarrow> Some x)" "items q' = tl (items q)"
  using assms unfolding skb_ops_ok_def by (metis fst_conv, metis snd_conv)

lemma deq_scan_spec:
  assumes ko: "skb_ops_ok ko items"
  shows "\<lbrakk>deq_scan ko b qs = (s, b', qs'); b < PFIFOFC_BANDS; length qs = PFIFOFC_BANDS\<rbrakk> \<Longrightarrow>
     (s = None \<longrightarrow> (\<forall>i. b \<le> i \<longrightarrow> i < PFIFOFC_BANDS \<longrightarrow> items (qs ! i) = []) \<and> map items qs' = map items qs)
     \<and> (\<forall>x. s = Some x \<longrightarrow> b \<le> b' \<and> b' < PFIFOFC_BANDS
          \<and> (\<forall>i. b \<le> i \<longrightarrow> i < b' \<longrightarrow> items (qs ! i) = [])
          \<and> items (qs ! b') = x # items (qs' ! b') \<and> map items qs' = (map items qs)[b' := items (qs' ! b')])"
proof (induction "PFIFOFC_BANDS - b" arbitrary: b qs rule: less_induct)
  case less
  obtain s0 q0 where d: "dequeue_head ko (qs ! b) = (s0, q0)" by fastforce
  note q0 = dequeue_head_ok [OF ko d]
  show ?case
  proof (cases "items (qs ! b)")
    case Nil
    let ?qs = "qs[b := q0]"
    have s0: "s0 = None" and m: "map items ?qs = map items qs"
      using q0 Nil less.prems(3) by (simp_all add: map_update list_update_same_conv less.prems(2))
    have it: "items (?qs ! i) = items (qs ! i)" if "i < PFIFOFC_BANDS" for i
      using m that less.prems(3) by (metis length_list_update nth_map)
    show ?thesis
    proof (cases "Suc b < PFIFOFC_BANDS")
      case True
      then have scan: "deq_scan ko (Suc b) ?qs = (s, b', qs')"
        using less.prems(1) d s0 by (simp add: deq_scan.simps [of ko b])
      have "PFIFOFC_BANDS - Suc b < PFIFOFC_BANDS - b" and l: "length ?qs = PFIFOFC_BANDS"
        using less.prems(2,3) by simp_all
      note IH = less.hyps [OF this(1) scan True l]
      have emp: "items (qs ! i) = []" if "b \<le> i" "i < PFIFOFC_BANDS" "Suc b \<le> i \<Longrightarrow> items (?qs ! i) = []" for i
        using that Nil it [OF that(2)] by (cases "i = b") simp_all
      show ?thesis
      proof (cases s)
        case None
        then have "\<forall>i. Suc b \<le> i \<longrightarrow> i < PFIFOFC_BANDS \<longrightarrow> items (?qs ! i) = []" "map items qs' = map items ?qs"
          using IH by blast+
        then show ?thesis using None m emp by simp
      next
        case (Some x)
        have r: "Suc b \<le> b'" "b' < PFIFOFC_BANDS" "\<forall>i. Suc b \<le> i \<longrightarrow> i < b' \<longrightarrow> items (?qs ! i) = []"
          "items (?qs ! b') = x # items (qs' ! b')" "map items qs' = (map items ?qs)[b' := items (qs' ! b')]"
          using IH [THEN conjunct2, rule_format, OF Some] by blast+
        then have "\<forall>i. b \<le> i \<longrightarrow> i < b' \<longrightarrow> items (qs ! i) = []" using emp by simp
        then show ?thesis using Some r(1,2) r(4,5) [unfolded m it [OF r(2)]] by simp
      qed
    next
      case False
      then have "s = None" "qs' = ?qs" "b = 3"
        using less.prems d s0 by (simp_all add: deq_scan.simps [of ko b])
      moreover have "items (qs ! i) = []" if "b \<le> i" "i < PFIFOFC_BANDS" for i
      proof -
        have "i = b" using that \<open>b = 3\<close> by simp
        then show ?thesis using Nil by simp
      qed
      ultimately show ?thesis using m by simp
    qed
  next
    case (Cons x r)
    then have "s = Some x" "b' = b" "qs' = qs[b := q0]"
      using less.prems(1) d q0 by (auto simp: deq_scan.simps [of ko b])
    then show ?thesis using Cons q0(2) less.prems(2,3) by (simp add: map_update)
  qed
qed

lemma deq_scan_refines:
  assumes "skb_ops_ok ko items" and "deq_scan ko 0 qs = (s, b, qs')" and "length qs = PFIFOFC_BANDS"
  shows "prio_deq (map items qs) = (s, map items qs')"
proof (cases s)
  case None
  then show ?thesis using deq_scan_spec [OF assms(1,2)] assms(3) by (simp add: prio_deq_None)
next
  case (Some x)
  then show ?thesis
    using deq_scan_spec [OF assms(1,2)] assms(3) prio_deq_Some [of b "map items qs" x "items (qs' ! b)"]
    by simp
qed

lemma peek_refines:
  assumes "skb_ops_ok ko items"
  shows "peek_loop ko bs qs s = (if s \<noteq> None then s else fst (prio_deq (map (\<lambda>b. items (qs ! b)) bs)))"
proof (induction bs arbitrary: s)
  case (Cons b bs)
  have "list_head ko (qs ! b) = (case items (qs ! b) of [] \<Rightarrow> None | x # _ \<Rightarrow> Some x)"
    using assms by (simp add: skb_ops_ok_def)
  then show ?case using Cons by (cases "items (qs ! b)") (auto simp: case_prod_unfold Let_def)
qed simp

section \<open>Flow-control levels\<close>

text \<open>The level a band gets when a packet joins \<open>n\<close> others, and when one leaves \<open>n\<close> behind.\<close>

definition enq_level :: "('q, 'k) qdisc \<Rightarrow> fc_level \<Rightarrow> nat \<Rightarrow> fc_level" where
  "enq_level st c n =
     (if n < unat (tx_qlen_red_on st) then c
      else if n < unat (tx_qlen_all_off st) then RED_ON
      else if unat (tx_qlen_all_on st) \<le> n then ALL_ON else c)"

definition deq_level :: "('q, 'k) qdisc \<Rightarrow> fc_level \<Rightarrow> nat \<Rightarrow> fc_level" where
  "deq_level st c n =
     (if n \<le> unat (tx_qlen_red_off st) then ALL_OFF
      else if unat (tx_qlen_red_on st) \<le> n \<and> n \<le> unat (tx_qlen_all_off st) then RED_ON else c)"

definition signal_change :: "nat \<Rightarrow> fc_level \<Rightarrow> u32 \<Rightarrow> ('q, 'k) qdisc \<Rightarrow> ('q, 'k) qdisc" where
  "signal_change b c p st = (if fc st ! b \<noteq> c then pfifofc_signal_fc b c p st else st)"

lemma level_ok_enq: "\<lbrakk>limits_ok st; level_ok st c n\<rbrakk> \<Longrightarrow> level_ok st (enq_level st c n) (Suc n)"
  by (cases c) (auto simp: level_ok_def enq_level_def limits_ok_def word_less_nat_alt)

lemma level_ok_deq: "\<lbrakk>limits_ok st; level_ok st c (Suc n)\<rbrakk> \<Longrightarrow> level_ok st (deq_level st c n) n"
  by (cases c) (auto simp: level_ok_def deq_level_def limits_ok_def word_less_nat_alt)

lemma signal_change_simps [simp]:
  "bandq (signal_change b c p st) = bandq st" "bstats (signal_change b c p st) = bstats st"
  "qd_qlen (signal_change b c p st) = qd_qlen st" "qd_kern (signal_change b c p st) = qd_kern st"
  "tx_prio_queue_len (signal_change b c p st) = tx_prio_queue_len st"
  "tx_qlen_red_on (signal_change b c p st) = tx_qlen_red_on st"
  "tx_qlen_red_off (signal_change b c p st) = tx_qlen_red_off st"
  "tx_qlen_all_on (signal_change b c p st) = tx_qlen_all_on st"
  "tx_qlen_all_off (signal_change b c p st) = tx_qlen_all_off st"
  "dev_fc_cb (signal_change b c p st) = dev_fc_cb st"
  by (simp_all add: signal_change_def pfifofc_signal_fc_def Let_def)

lemma level_ok_upd [simp]:
  "level_ok (st\<lparr>bandq := q\<rparr>) c n = level_ok st c n" "level_ok (st\<lparr>bstats := x\<rparr>) c n = level_ok st c n"
  "level_ok (st\<lparr>qd_kern := k\<rparr>) c n = level_ok st c n"
  by (cases c; simp add: level_ok_def)+

lemma signal_change_fc [simp]: "fc (signal_change b c p st) = (fc st)[b := c]"
  by (auto simp: signal_change_def pfifofc_signal_fc_def Let_def)

lemma signal_change_calls:
  "fc_calls (signal_change b c p st) =
     fc_calls st @ (if fc st ! b \<noteq> c \<and> dev_fc_cb st \<noteq> 0 then [(c, DROP_PROB, p)] else [])"
  by (simp add: signal_change_def pfifofc_signal_fc_def Let_def)

lemma pf_inv_len:
  assumes "skb_ops_ok ko items" and "pf_inv ko items st" and "b < PFIFOFC_BANDS"
  shows "sint (list_qlen ko (bandq st ! b)) = int (length (bands items st ! b))"
proof -
  have "length (bands items st ! b) < 2 ^ 16"
    using assms(2,3) unsigned_less [of "tx_prio_queue_len st", where ?'a = nat]
    by (auto simp: pf_inv_def intro: le_less_trans)
  moreover have "list_qlen ko (bandq st ! b) = of_nat (length (bands items st ! b))"
    using assms by (simp add: skb_ops_ok_def bands_def pf_inv_def)
  ultimately show ?thesis by (simp add: sint_of_nat_u32)
qed

section \<open>Enqueue and dequeue\<close>

lemma enqueue_accept:
  assumes ko: "skb_ops_ok ko items" and inv: "pf_inv ko items st" and b: "b = band_of (skb_priority s)"
    and n: "n = length (bands items st ! b)" and room: "n < unat (tx_prio_queue_len st)"
  shows "\<exists>k q. pfifofc_enqueue ko s st =
             (0, (signal_change b (enq_level st (fc st ! b) n) (skb_priority s) st)
                 \<lparr>qd_qlen := qd_qlen st + 1,
                  bstats := (bstats st)[b := (bstats st ! b)\<lparr>total_pkts := total_pkts (bstats st ! b) + 1\<rparr>],
                  qd_kern := k, bandq := (bandq st)[b := q]\<rparr>)
           \<and> items q = items (bandq st ! b) @ [s]
           \<and> get_backlog ko k = get_backlog ko (qd_kern st) + skb_pkt_len s"
proof -
  have bb: "b < PFIFOFC_BANDS" using b band_of_bound by simp
  have qlen: "sint (list_qlen ko (bandq st ! b)) = int n" using pf_inv_len [OF ko inv bb] n by simp
  obtain k q where e: "enqueue_tail ko s (qd_kern st) (bandq st ! b) = (0, k, q)"
    "items q = items (bandq st ! b) @ [s]" "get_backlog ko k = get_backlog ko (qd_kern st) + skb_pkt_len s"
    using skb_ops_calls(1) [OF ko] by blast
  let ?st1 = "if uint (tx_qlen_red_on st) \<le> int n
                      then if int n < uint (tx_qlen_all_off st) \<and> fc st ! b \<noteq> RED_ON
                           then pfifofc_signal_fc b RED_ON (skb_priority s) st
                           else if uint (tx_qlen_all_on st) \<le> int n \<and> fc st ! b \<noteq> ALL_ON
                           then pfifofc_signal_fc b ALL_ON (skb_priority s) st
                           else st
                      else st"
  have lim: "limits_ok st" using inv by (simp add: pf_inv_def)
  have s1: "?st1 = signal_change b (enq_level st (fc st ! b) n) (skb_priority s) st"
    using lim unfolding uint_cmp_nat
    by (auto simp: signal_change_def enq_level_def limits_ok_def word_less_nat_alt)
  show ?thesis
    using room e unfolding pfifofc_enqueue_def Let_def b [symmetric] qlen s1
    by (intro exI [of _ k] exI [of _ q]) (simp add: uint_cmp_nat)
qed

lemma enqueue_reject:
  assumes ko: "skb_ops_ok ko items" and inv: "pf_inv ko items st" and b: "b = band_of (skb_priority s)"
    and full: "unat (tx_prio_queue_len st) \<le> length (bands items st ! b)"
  shows "\<exists>k. pfifofc_enqueue ko s st =
             (1, st\<lparr>bstats := (bstats st)[b := (bstats st ! b)\<lparr>dropped_pkts := dropped_pkts (bstats st ! b) + 1\<rparr>],
                    qd_kern := k\<rparr>)
           \<and> get_backlog ko k = get_backlog ko (qd_kern st)"
proof -
  have bb: "b < PFIFOFC_BANDS" using b band_of_bound by simp
  obtain k where k: "qdisc_drop ko s (qd_kern st) = (1, k)" "get_backlog ko k = get_backlog ko (qd_kern st)"
    using skb_ops_calls(2) [OF ko] by blast
  show ?thesis
    using full k unfolding pfifofc_enqueue_def Let_def b [symmetric] pf_inv_len [OF ko inv bb] uint_cmp_nat
    by (intro exI [of _ k]) simp
qed

lemma dequeue_some:
  assumes ko: "skb_ops_ok ko items" and inv: "pf_inv ko items st"
    and scan: "deq_scan ko 0 (bandq st) = (Some s, b, qs)"
  shows "pfifofc_dequeue ko st =
     (Some s, (signal_change b (deq_level st (fc st ! b) (length (items (qs ! b)))) (skb_priority s) st)
        \<lparr>bandq := qs, qd_qlen := qd_qlen st - 1,
         qd_kern := qdisc_bstats_update ko s (backlog_dec ko s (qd_kern st))\<rparr>)"
proof -
  have l: "length (bandq st) = PFIFOFC_BANDS" using inv by (simp add: pf_inv_def)
  have sp: "b < PFIFOFC_BANDS" "items (bandq st ! b) = s # items (qs ! b)"
    using deq_scan_spec [OF ko scan _ l] by simp_all
  let ?n = "length (items (qs ! b))"
  have "Suc ?n = length (bands items st ! b)" using sp l by (simp add: bands_def)
  also have "\<dots> < 2 ^ 16"
    using inv sp(1) unsigned_less [of "tx_prio_queue_len st", where ?'a = nat]
    by (auto simp: pf_inv_def intro: le_less_trans)
  finally have qlen: "sint (list_qlen ko (qs ! b)) = int ?n"
    using ko by (simp add: skb_ops_ok_def sint_of_nat_u32)
  have lim: "limits_ok st" using inv by (simp add: pf_inv_def)
  let ?st = "st\<lparr>bandq := qs, qd_qlen := qd_qlen st - 1,
         qd_kern := qdisc_bstats_update ko s (backlog_dec ko s (qd_kern st))\<rparr>"
  have "(if int ?n \<le> uint (tx_qlen_red_off st) \<and> fc st ! b \<noteq> ALL_OFF
         then pfifofc_signal_fc b ALL_OFF (skb_priority s) ?st
         else if uint (tx_qlen_red_on st) \<le> int ?n \<and> int ?n \<le> uint (tx_qlen_all_off st) \<and> fc st ! b \<noteq> RED_ON
         then pfifofc_signal_fc b RED_ON (skb_priority s) ?st else ?st)
     = (signal_change b (deq_level st (fc st ! b) ?n) (skb_priority s) st)
        \<lparr>bandq := qs, qd_qlen := qd_qlen st - 1,
         qd_kern := qdisc_bstats_update ko s (backlog_dec ko s (qd_kern st))\<rparr>"
    using lim unfolding uint_cmp_nat
    by (auto simp: signal_change_def deq_level_def limits_ok_def word_less_nat_alt pfifofc_signal_fc_def Let_def)
  then show ?thesis
    by (simp add: pfifofc_dequeue_def Let_def scan qlen cong: if_cong split del: if_split)
qed

lemma dequeue_none:
  assumes "deq_scan ko 0 (bandq st) = (None, b, qs)"
  shows "pfifofc_dequeue ko st = (None, st\<lparr>bandq := qs\<rparr>)"
  by (simp add: pfifofc_dequeue_def assms)

section \<open>Preservation\<close>

lemma pf_inv_update:
  assumes inv: "pf_inv ko items st" and b: "b < PFIFOFC_BANDS"
    and bs: "bands items st' = (bands items st)[b := xs]" and f: "fc st' = (fc st)[b := c]"
    and l: "length (bandq st') = PFIFOFC_BANDS" "length (bstats st') = PFIFOFC_BANDS"
    and lim: "tx_prio_queue_len st' = tx_prio_queue_len st" "tx_qlen_red_on st' = tx_qlen_red_on st"
      "tx_qlen_red_off st' = tx_qlen_red_off st" "tx_qlen_all_on st' = tx_qlen_all_on st"
      "tx_qlen_all_off st' = tx_qlen_all_off st"
    and xs: "length xs \<le> unat (tx_prio_queue_len st)" "level_ok st c (length xs)"
      "\<forall>s \<in> set xs. band_of (skb_priority s) = b"
    and n: "qd_qlen st' + of_nat (length (bands items st ! b)) = qd_qlen st + of_nat (length xs)"
    and k: "get_backlog ko (qd_kern st') + sum_list (map skb_pkt_len (bands items st ! b))
             = get_backlog ko (qd_kern st) + sum_list (map skb_pkt_len xs)"
  shows "pf_inv ko items st'"
proof -
  let ?B = "bands items st" and ?w = "\<lambda>q. sum_list (map skb_pkt_len q)"
  have lb: "length ?B = PFIFOFC_BANDS" using inv by (simp add: bands_def pf_inv_def)
  have s1: "sum_list (map length (?B[b := xs])) + length (?B ! b) = sum_list (map length ?B) + length xs"
    by (rule sum_list_map_update) (simp add: lb b)
  have s2: "sum_list (map ?w (?B[b := xs])) + ?w (?B ! b) = sum_list (map ?w ?B) + ?w xs"
    by (rule sum_list_map_update) (simp add: lb b)
  have "qd_qlen st = of_nat (sum_list (map length ?B))"
    and kk: "get_backlog ko (qd_kern st) = sum_list (map ?w ?B)" using inv by (simp_all add: pf_inv_def)
  then have "qd_qlen st' + of_nat (length (?B ! b))
      = of_nat (sum_list (map length (?B[b := xs])) + length (?B ! b))" using n s1 by simp
  then have q: "qd_qlen st' = of_nat (sum_list (map length (bands items st')))" by (simp add: bs)
  have "get_backlog ko (qd_kern st') + ?w (?B ! b) = sum_list (map ?w (?B[b := xs])) + ?w (?B ! b)"
    using k kk s2 by simp
  then have w: "get_backlog ko (qd_kern st') = sum_list (map ?w (bands items st'))" by (simp add: bs)
  have lv: "level_ok st' = level_ok st" unfolding fun_eq_iff level_ok_def lim by simp
  have "length (bands items st' ! i) \<le> unat (tx_prio_queue_len st')
      \<and> level_ok st' (fc st' ! i) (length (bands items st' ! i))
      \<and> (\<forall>s \<in> set (bands items st' ! i). band_of (skb_priority s) = i)" if "i < PFIFOFC_BANDS" for i
    using that inv xs b lb by (cases "i = b") (simp_all add: bs f lv lim(1) pf_inv_def)
  then show ?thesis using inv l q w f lim by (simp add: pf_inv_def limits_ok_def)
qed

lemma inv_enqueue:
  assumes ko: "skb_ops_ok ko items" and inv: "pf_inv ko items st"
  shows "pf_inv ko items (snd (pfifofc_enqueue ko s st))"
proof -
  let ?b = "band_of (skb_priority s)"
  let ?xs = "bands items st ! ?b" and ?c = "fc st ! ?b"
  have b: "?b < PFIFOFC_BANDS" by (rule band_of_bound)
  have l: "length (bandq st) = PFIFOFC_BANDS" "length (fc st) = PFIFOFC_BANDS"
    "length (bstats st) = PFIFOFC_BANDS" "limits_ok st" using inv by (auto simp: pf_inv_def)
  have at_b: "length ?xs \<le> unat (tx_prio_queue_len st)" "level_ok st ?c (length ?xs)"
    "\<forall>t \<in> set ?xs. band_of (skb_priority t) = ?b" using inv b by (auto simp: pf_inv_def)
  have it: "items (bandq st ! ?b) = ?xs" using b l by (simp add: bands_def)
  show ?thesis
  proof (cases "length ?xs < unat (tx_prio_queue_len st)")
    case True
    from enqueue_accept [OF ko inv refl refl True] obtain k q
      where e: "pfifofc_enqueue ko s st =
             (0, (signal_change ?b (enq_level st ?c (length ?xs)) (skb_priority s) st)
                 \<lparr>qd_qlen := qd_qlen st + 1,
                  bstats := (bstats st)[?b := (bstats st ! ?b)\<lparr>total_pkts := total_pkts (bstats st ! ?b) + 1\<rparr>],
                  qd_kern := k, bandq := (bandq st)[?b := q]\<rparr>)" (is "_ = (0, ?st')")
        "items q = ?xs @ [s]" "get_backlog ko k = get_backlog ko (qd_kern st) + skb_pkt_len s"
      using it by auto
    have bs: "bands items ?st' = (bands items st)[?b := ?xs @ [s]]"
      using e(2) by (simp add: bands_def map_update)
    have "level_ok st (enq_level st ?c (length ?xs)) (length (?xs @ [s]))"
      using level_ok_enq [OF l(4) at_b(2)] by simp
    then have "pf_inv ko items ?st'"
      by (intro pf_inv_update [OF inv b bs]) (use True e(3) l at_b in simp_all)
    then show ?thesis by (simp add: e(1))
  next
    case False
    then obtain k where e: "pfifofc_enqueue ko s st =
             (1, st\<lparr>bstats := (bstats st)[?b := (bstats st ! ?b)\<lparr>dropped_pkts := dropped_pkts (bstats st ! ?b) + 1\<rparr>],
                    qd_kern := k\<rparr>)" "get_backlog ko k = get_backlog ko (qd_kern st)"
      using enqueue_reject [OF ko inv refl] by (meson not_less)
    have "bands items (st\<lparr>bstats := x, qd_kern := k\<rparr>) = bands items st" for x by (simp add: bands_def)
    with e inv show ?thesis by (simp add: pf_inv_def limits_ok_def)
  qed
qed

lemma inv_dequeue:
  assumes ko: "skb_ops_ok ko items" and inv: "pf_inv ko items st"
  shows "pf_inv ko items (snd (pfifofc_dequeue ko st))"
proof -
  have l: "length (bandq st) = PFIFOFC_BANDS" "length (fc st) = PFIFOFC_BANDS"
    "length (bstats st) = PFIFOFC_BANDS" "limits_ok st" using inv by (auto simp: pf_inv_def)
  obtain so b qs where scan: "deq_scan ko 0 (bandq st) = (so, b, qs)" by (metis prod.exhaust)
  note sp = deq_scan_spec [OF ko scan _ l(1)]
  show ?thesis
  proof (cases so)
    case None
    then have "map items qs = map items (bandq st)" using sp by simp
    then have bs: "bands items (st\<lparr>bandq := qs\<rparr>) = bands items st" and lq: "length qs = PFIFOFC_BANDS"
      using l(1) by (auto simp: bands_def dest: map_eq_imp_length_eq)
    show ?thesis
      using inv bs lq dequeue_none [of ko st b qs] scan None
      by (simp add: pf_inv_def limits_ok_def)
  next
    case (Some s)
    then have q: "b < PFIFOFC_BANDS" "items (bandq st ! b) = s # items (qs ! b)"
      "map items qs = (map items (bandq st))[b := items (qs ! b)]" using sp by simp_all
    have lq: "length qs = PFIFOFC_BANDS" using arg_cong [OF q(3), of length] l(1) by simp
    have xs: "bands items st ! b = s # items (qs ! b)" using q l by (simp add: bands_def)
    have at_b: "level_ok st (fc st ! b) (Suc (length (items (qs ! b))))"
      "Suc (length (items (qs ! b))) \<le> unat (tx_prio_queue_len st)"
      "\<forall>t \<in> set (s # items (qs ! b)). band_of (skb_priority t) = b"
      using inv q(1) xs by (auto simp: pf_inv_def)
    let ?st' = "(signal_change b (deq_level st (fc st ! b) (length (items (qs ! b)))) (skb_priority s) st)
        \<lparr>bandq := qs, qd_qlen := qd_qlen st - 1,
         qd_kern := qdisc_bstats_update ko s (backlog_dec ko s (qd_kern st))\<rparr>"
    have bs: "bands items ?st' = (bands items st)[b := items (qs ! b)]" using q(3) by (simp add: bands_def)
    have "pf_inv ko items ?st'"
      by (intro pf_inv_update [OF inv q(1) bs])
        (use l lq at_b xs level_ok_deq [OF l(4) at_b(1)] skb_ops_calls(3,4) [OF ko] in simp_all)
    then show ?thesis using dequeue_some [OF ko inv, of s b qs] scan Some by simp
  qed
qed

section \<open>Initial state and reset\<close>

lemma init_loop_bands:
  "bandq (init_loop ko bs st) = fold (\<lambda>b qs. qs[b := head_init ko]) bs (bandq st)"
  "fc (init_loop ko bs st) = fold (\<lambda>b qs. qs[b := ALL_OFF]) bs (fc st)"
  "init_loop ko bs st = st\<lparr>bandq := bandq (init_loop ko bs st), fc := fc (init_loop ko bs st)\<rparr>"
  by (induction bs arbitrary: st) simp_all

lemma init_loop_limit [simp]: "tx_prio_queue_len (init_loop ko bs st) = tx_prio_queue_len st"
  by (induction bs arbitrary: st) simp_all

lemma fold_set_all:
  assumes "length xs = PFIFOFC_BANDS"
  shows "fold (\<lambda>b qs. qs[b := x]) [0..<PFIFOFC_BANDS] xs = replicate PFIFOFC_BANDS x"
  using assms by (auto simp: list_eq_iff_nth_eq nth_list_update less_Suc_eq numeral_eq_Suc upt_rec)

lemma pf_inv_init:
  assumes ko: "skb_ops_ok ko items" and l: "length (bandq st) = PFIFOFC_BANDS"
    "length (fc st) = PFIFOFC_BANDS" "length (bstats st) = PFIFOFC_BANDS"
    and z: "qd_qlen st = 0" "get_backlog ko (qd_kern st) = 0"
    and r: "pfifofc_init ko None st = (r, st')"
  shows "r = 0 \<and> pf_inv ko items st' \<and> bands items st' = replicate PFIFOFC_BANDS []
     \<and> fc_calls st' = fc_calls st \<and> fc st' = replicate PFIFOFC_BANDS ALL_OFF"
proof -
  let ?st1 = "st\<lparr>tx_prio_queue_len := 640, tx_qlen_red_on := 320, tx_qlen_red_off := 320 - 80,
                 tx_qlen_all_on := 520, tx_qlen_all_off := 520 - 80, dev_fc_cb := 0\<rparr>"
  have "st' = init_loop ko [0..<PFIFOFC_BANDS] ?st1" "r = 0"
    using r by (auto simp: pfifofc_init_def simp del: upt_rec_numeral)
  moreover have "init_loop ko [0..<PFIFOFC_BANDS] ?st1
      = ?st1\<lparr>bandq := replicate PFIFOFC_BANDS (head_init ko), fc := replicate PFIFOFC_BANDS ALL_OFF\<rparr>"
    by (subst init_loop_bands(3), subst init_loop_bands(1), subst init_loop_bands(2))
      (simp add: fold_set_all l del: upt_rec_numeral)
  moreover have "pf_inv ko items
      (?st1\<lparr>bandq := replicate PFIFOFC_BANDS (head_init ko), fc := replicate PFIFOFC_BANDS ALL_OFF\<rparr>)"
    using l z skb_ops_calls(7) [OF ko]
    by (simp add: pf_inv_def bands_def limits_ok_def level_ok_def sum_list_replicate)
  ultimately show ?thesis using skb_ops_calls(7) [OF ko] by (simp add: bands_def)
qed

lemma reset_loop_bands:
  "\<lbrakk>skb_ops_ok ko items; length (bandq st) = PFIFOFC_BANDS\<rbrakk> \<Longrightarrow>
     map items (bandq (reset_loop ko bs st)) = fold (\<lambda>b qs. qs[b := []]) bs (map items (bandq st))"
  "fc (reset_loop ko bs st) = fold (\<lambda>b qs. qs[b := ALL_OFF]) bs (fc st)"
  by (induction bs arbitrary: st) (simp_all add: map_update skb_ops_calls)

lemma reset_loop_frame: "\<exists>qs fs. reset_loop ko bs st = st\<lparr>bandq := qs, fc := fs\<rparr>"
proof (induction bs arbitrary: st)
  case Nil
  show ?case by (intro exI [of _ "bandq st"] exI [of _ "fc st"]) simp
next
  case (Cons b bs)
  from Cons.IH [of "st\<lparr>bandq := (bandq st)[b := reset_queue ko (bandq st ! b)], fc := (fc st)[b := ALL_OFF]\<rparr>"]
  show ?case by fastforce
qed

lemma inv_reset:
  assumes ko: "skb_ops_ok ko items" and inv: "pf_inv ko items st"
  shows "pf_inv ko items (pfifofc_reset ko st) \<and> bands items (pfifofc_reset ko st) = replicate PFIFOFC_BANDS []
     \<and> fc (pfifofc_reset ko st) = replicate PFIFOFC_BANDS ALL_OFF
     \<and> fc_calls (pfifofc_reset ko st) = fc_calls st"
proof -
  let ?r = "reset_loop ko [0..<PFIFOFC_BANDS] st"
  have l: "length (bandq st) = PFIFOFC_BANDS" "length (fc st) = PFIFOFC_BANDS"
    "length (bstats st) = PFIFOFC_BANDS" "limits_ok st" using inv by (auto simp: pf_inv_def)
  have b: "map items (bandq ?r) = replicate PFIFOFC_BANDS []" "fc ?r = replicate PFIFOFC_BANDS ALL_OFF"
    using reset_loop_bands(1) [OF ko l(1)] reset_loop_bands(2) [of ko _ st] l
    by (simp_all add: fold_set_all del: upt_rec_numeral)
  then have lb: "length (bandq ?r) = PFIFOFC_BANDS" by (metis length_map length_replicate)
  obtain qs fs where r: "?r = st\<lparr>bandq := qs, fc := fs\<rparr>" using reset_loop_frame by blast
  with b lb have q: "map items qs = replicate PFIFOFC_BANDS []" "fs = replicate PFIFOFC_BANDS ALL_OFF"
    "length qs = PFIFOFC_BANDS" by simp_all
  have "pfifofc_reset ko st = st\<lparr>bandq := qs, fc := fs, qd_kern := set_backlog ko 0 (qd_kern st), qd_qlen := 0\<rparr>"
    by (simp add: pfifofc_reset_def Let_def r del: upt_rec_numeral)
  then show ?thesis
    using q l skb_ops_calls(5) [OF ko] inv
    by (simp add: pf_inv_def bands_def limits_ok_def level_ok_def sum_list_replicate)
qed

section \<open>Runs\<close>

datatype pf_op = Enq skb | Deq

text \<open>A sequence of operations: the packets accepted, the packets delivered and the state.\<close>

fun pf_run :: "('q, 'k) skb_ops \<Rightarrow> pf_op list \<Rightarrow> ('q, 'k) qdisc \<Rightarrow> skb list \<times> skb list \<times> ('q, 'k) qdisc" where
  "pf_run ko [] st = ([], [], st)"
| "pf_run ko (Enq s # os) st =
     (let (r, st1) = pfifofc_enqueue ko s st; (acc, out, st2) = pf_run ko os st1
      in (if r = 0 then s # acc else acc, out, st2))"
| "pf_run ko (Deq # os) st =
     (let (d, st1) = pfifofc_dequeue ko st; (acc, out, st2) = pf_run ko os st1
      in (acc, (case d of None \<Rightarrow> out | Some s \<Rightarrow> s # out), st2))"

abbreviation of_band :: "nat \<Rightarrow> skb list \<Rightarrow> skb list" where
  "of_band b \<equiv> filter (\<lambda>s. band_of (skb_priority s) = b)"

lemma enqueue_refines:
  assumes ko: "skb_ops_ok ko items" and inv: "pf_inv ko items st" and e: "pfifofc_enqueue ko s st = (r, st')"
  shows "(r, bands items st') = prio_enq (unat (tx_prio_queue_len st)) s (bands items st)"
proof -
  let ?b = "band_of (skb_priority s)"
  have b: "?b < PFIFOFC_BANDS" by (rule band_of_bound)
  have l: "length (bandq st) = PFIFOFC_BANDS" using inv by (simp add: pf_inv_def)
  have it: "items (bandq st ! ?b) = bands items st ! ?b" using b l by (simp add: bands_def)
  show ?thesis
  proof (cases "length (bands items st ! ?b) < unat (tx_prio_queue_len st)")
    case True
    with enqueue_accept [OF ko inv refl refl True] e it show ?thesis
      by (auto simp: prio_enq_def bands_def map_update Let_def)
  next
    case False
    with enqueue_reject [OF ko inv refl, of s] e show ?thesis
      by (auto simp: prio_enq_def bands_def Let_def)
  qed
qed

lemma dequeue_refines:
  assumes ko: "skb_ops_ok ko items" and inv: "pf_inv ko items st"
  shows "(fst (pfifofc_dequeue ko st), bands items (snd (pfifofc_dequeue ko st))) = prio_deq (bands items st)"
proof -
  have l: "length (bandq st) = PFIFOFC_BANDS" using inv by (simp add: pf_inv_def)
  obtain so b qs where scan: "deq_scan ko 0 (bandq st) = (so, b, qs)" by (metis prod.exhaust)
  with deq_scan_refines [OF ko scan l] dequeue_some [OF ko inv] dequeue_none [of ko st b qs]
  show ?thesis by (cases so) (simp_all add: bands_def)
qed

lemma prio_deq_bands:
  "prio_deq qs = (None, qs') \<Longrightarrow> qs' = qs \<and> (\<forall>q \<in> set qs. q = [])"
  "prio_deq qs = (Some s, qs') \<Longrightarrow> \<exists>b. b < length qs \<and> (\<forall>i < b. qs ! i = []) \<and> qs ! b = s # qs' ! b
     \<and> qs' = qs[b := qs' ! b]"
proof (induction qs arbitrary: qs' rule: prio_deq.induct)
  case (3 qs)
  { case 1 then show ?case using 3(1) by (auto split: prod.splits) }
  { case 2
    then obtain r where r: "prio_deq qs = (Some s, r)" "qs' = [] # r" by (auto split: prod.splits)
    with 3(2) obtain b where b: "b < length qs" "\<forall>i < b. qs ! i = []" "qs ! b = s # r ! b" "r = qs[b := r ! b]"
      by blast
    have "([] # qs) ! i = []" if "i < Suc b" for i using b(2) that by (cases i) auto
    then show ?case using b r by (intro exI [of _ "Suc b"]) simp }
qed auto

lemma run_fifo:
  assumes ko: "skb_ops_ok ko items"
  shows "\<lbrakk>pf_inv ko items st; pf_run ko os st = (acc, out, st')\<rbrakk> \<Longrightarrow>
     pf_inv ko items st' \<and> (\<forall>b < PFIFOFC_BANDS.
       of_band b out @ bands items st' ! b = bands items st ! b @ of_band b acc)"
proof (induction os arbitrary: st acc out)
  case (Cons op os)
  have lb: "length (bands items st) = PFIFOFC_BANDS" using Cons.prems(1) by (simp add: pf_inv_def bands_def)
  show ?case
  proof (cases op)
    case (Enq s)
    obtain r st1 where e: "pfifofc_enqueue ko s st = (r, st1)" by fastforce
    obtain acc1 out1 where run: "pf_run ko os st1 = (acc1, out1, st')"
      and ao: "acc = (if r = 0 then s # acc1 else acc1)" "out = out1"
      using Cons.prems(2) e by (auto simp: Enq split: prod.splits)
    have i1: "pf_inv ko items st1" using inv_enqueue [OF ko Cons.prems(1), of s] e by simp
    note IH = Cons.IH [OF i1 run]
    have ref: "(r, bands items st1) = prio_enq (unat (tx_prio_queue_len st)) s (bands items st)"
      by (rule enqueue_refines [OF ko Cons.prems(1) e])
    have step: "bands items st1 ! b @ of_band b acc1 = bands items st ! b @ of_band b acc"
      if "b < PFIFOFC_BANDS" for b
    proof -
      have "bands items st1 ! b = bands items st ! b @ of_band b (if r = 0 then [s] else [])"
        using ref that lb by (auto simp: prio_enq_def Let_def nth_list_update split: if_splits)
      then show ?thesis using ao(1) by simp
    qed
    then show ?thesis using IH ao(2) by simp
  next
    case Deq
    obtain d st1 where e: "pfifofc_dequeue ko st = (d, st1)" by fastforce
    obtain out1 where run: "pf_run ko os st1 = (acc, out1, st')"
      and ao: "out = (case d of None \<Rightarrow> out1 | Some s \<Rightarrow> s # out1)"
      using Cons.prems(2) e by (auto simp: Deq split: prod.splits)
    have i1: "pf_inv ko items st1" using inv_dequeue [OF ko Cons.prems(1)] e by simp
    note IH = Cons.IH [OF i1 run]
    have ref: "prio_deq (bands items st) = (d, bands items st1)"
      using dequeue_refines [OF ko Cons.prems(1)] e by simp
    have step: "of_band b (case d of None \<Rightarrow> [] | Some s \<Rightarrow> [s]) @ bands items st1 ! b = bands items st ! b"
      if b: "b < PFIFOFC_BANDS" for b
    proof (cases d)
      case None
      then show ?thesis using prio_deq_bands(1) [of "bands items st"] ref by simp
    next
      case (Some s)
      then obtain b0 where b0: "b0 < PFIFOFC_BANDS" "bands items st ! b0 = s # bands items st1 ! b0"
        "bands items st1 = (bands items st)[b0 := bands items st1 ! b0]"
        using prio_deq_bands(2) [of "bands items st" s "bands items st1"] ref lb by auto
      have "band_of (skb_priority s) = b0" using Cons.prems(1) b0(1,2) by (auto simp: pf_inv_def)
      then show ?thesis using Some b0 by (cases "b = b0") (simp, metis (mono_tags, lifting) filter.simps append_Nil nth_list_update_neq option.simps(5))
    qed
    have "of_band b out = of_band b (case d of None \<Rightarrow> [] | Some s \<Rightarrow> [s]) @ of_band b out1" for b
      using ao by (cases d) simp_all
    then show ?thesis using IH step by (metis append_assoc)
  qed
qed simp

text \<open>While a callback is registered, the netdev's view of every band is the band's level.\<close>

definition sig_ok :: "('q, 'k) qdisc \<Rightarrow> bool" where
  "sig_ok st \<longleftrightarrow> dev_fc_cb st \<noteq> 0 \<and> (\<forall>b < PFIFOFC_BANDS. signalled b (fc_calls st) = fc st ! b)"

lemma signalled_snoc:
  "signalled b (calls @ [(c, p, prio)]) = (if band_of prio = b then c else signalled b calls)"
  by (simp add: signalled_def)

lemma sig_ok_change:
  assumes "sig_ok st" and "length (fc st) = PFIFOFC_BANDS" and "band_of prio = b"
  shows "sig_ok (signal_change b c prio st)"
  using assms band_of_bound [of prio]
  by (auto simp: sig_ok_def signal_change_calls signalled_snoc nth_list_update)

lemma sig_ok_upd [simp]:
  "sig_ok (st\<lparr>qd_qlen := a\<rparr>) = sig_ok st" "sig_ok (st\<lparr>bstats := x\<rparr>) = sig_ok st"
  "sig_ok (st\<lparr>qd_kern := k\<rparr>) = sig_ok st" "sig_ok (st\<lparr>bandq := q\<rparr>) = sig_ok st"
  by (simp_all add: sig_ok_def)

lemma sig_enqueue:
  assumes ko: "skb_ops_ok ko items" and inv: "pf_inv ko items st" and sg: "sig_ok st"
  shows "sig_ok (snd (pfifofc_enqueue ko s st))"
proof (cases "length (bands items st ! band_of (skb_priority s)) < unat (tx_prio_queue_len st)")
  case True
  have "length (fc st) = PFIFOFC_BANDS" using inv by (simp add: pf_inv_def)
  with enqueue_accept [OF ko inv refl refl True] sg show ?thesis
    by (auto intro!: sig_ok_change)
next
  case False
  then have "unat (tx_prio_queue_len st) \<le> length (bands items st ! band_of (skb_priority s))" by simp
  from enqueue_reject [OF ko inv refl this] sg show ?thesis by auto
qed

lemma sig_dequeue:
  assumes ko: "skb_ops_ok ko items" and inv: "pf_inv ko items st" and sg: "sig_ok st"
  shows "sig_ok (snd (pfifofc_dequeue ko st))"
proof -
  have l: "length (bandq st) = PFIFOFC_BANDS" "length (fc st) = PFIFOFC_BANDS"
    using inv by (simp_all add: pf_inv_def)
  obtain so b qs where scan: "deq_scan ko 0 (bandq st) = (so, b, qs)" by (metis prod.exhaust)
  show ?thesis
  proof (cases so)
    case None
    then show ?thesis using dequeue_none [of ko st b qs] scan sg by simp
  next
    case (Some s)
    then have "b < PFIFOFC_BANDS" "items (bandq st ! b) = s # items (qs ! b)"
      using deq_scan_spec [OF ko scan _ l(1)] by simp_all
    then have "band_of (skb_priority s) = b" using inv l(1) by (auto simp: pf_inv_def bands_def)
    then show ?thesis using dequeue_some [OF ko inv, of s b qs] scan Some sg l(2)
      by (auto intro!: sig_ok_change)
  qed
qed

lemma run_sig:
  assumes ko: "skb_ops_ok ko items"
  shows "\<lbrakk>pf_inv ko items st; sig_ok st; pf_run ko os st = (acc, out, st')\<rbrakk> \<Longrightarrow> pf_inv ko items st' \<and> sig_ok st'"
proof (induction os arbitrary: st acc out)
  case (Cons op os)
  show ?case
  proof (cases op)
    case (Enq s)
    then obtain acc1 out1 where "pf_run ko os (snd (pfifofc_enqueue ko s st)) = (acc1, out1, st')"
      using Cons.prems(3) by (auto split: prod.splits)
    then show ?thesis
      using Cons.IH inv_enqueue [OF ko Cons.prems(1)] sig_enqueue [OF ko Cons.prems(1,2)] by blast
  next
    case Deq
    then obtain acc1 out1 where "pf_run ko os (snd (pfifofc_dequeue ko st)) = (acc1, out1, st')"
      using Cons.prems(3) by (auto split: prod.splits)
    then show ?thesis
      using Cons.IH inv_dequeue [OF ko Cons.prems(1)] sig_dequeue [OF ko Cons.prems(1,2)] by blast
  qed
qed simp

section \<open>The kernel's lists as lists\<close>

definition list_ops :: "(skb list, u32 \<times> nat) skb_ops" where
  "list_ops =
     \<lparr>head_init = [], list_qlen = (\<lambda>q. of_nat (length q)),
      list_head = (\<lambda>q. case q of [] \<Rightarrow> None | s # _ \<Rightarrow> Some s),
      enqueue_tail = (\<lambda>s k q. (0, (fst k + skb_pkt_len s, snd k), q @ [s])),
      dequeue_head = (\<lambda>q. case q of [] \<Rightarrow> (None, []) | s # r \<Rightarrow> (Some s, r)),
      reset_queue = (\<lambda>q. []), qdisc_drop = (\<lambda>s k. (1, (fst k, snd k + 1))),
      backlog_dec = (\<lambda>s k. (fst k - skb_pkt_len s, snd k)), qdisc_bstats_update = (\<lambda>s k. k),
      get_backlog = fst, set_backlog = (\<lambda>b k. (b, snd k))\<rparr>"

lemma list_ops_ok: "skb_ops_ok list_ops id"
  by (auto simp: skb_ops_ok_def list_ops_def split: list.split)

text \<open>A zeroed qdisc, initialised with the default limits and given a callback.\<close>

definition blank_qdisc :: "(skb list, u32 \<times> nat) qdisc" where
  "blank_qdisc = \<lparr>qd_qlen = 0, qd_kern = (0, 0), tx_prio_queue_len = 0, tx_qlen_red_on = 0,
     tx_qlen_red_off = 0, tx_qlen_all_on = 0, tx_qlen_all_off = 0,
     fc = replicate PFIFOFC_BANDS ALL_OFF, bandq = replicate PFIFOFC_BANDS [],
     bstats = replicate PFIFOFC_BANDS \<lparr>total_pkts = 0, dropped_pkts = 0\<rparr>,
     dev_fc_cb = 0, fc_calls = []\<rparr>"

definition fresh_qdisc :: "(skb list, u32 \<times> nat) qdisc" where
  "fresh_qdisc = qdisc_dev_register_flow_control_cb 1 None (snd (pfifofc_init list_ops None blank_qdisc))"

lemma pf_inv_cb: "pf_inv ko items (st\<lparr>dev_fc_cb := c\<rparr>) = pf_inv ko items st"
proof -
  have "level_ok (st\<lparr>dev_fc_cb := c\<rparr>) x n = level_ok st x n" for x n
    by (cases x) (simp_all add: level_ok_def)
  then show ?thesis by (simp add: pf_inv_def bands_def limits_ok_def)
qed

lemma fresh_qdisc_ok: "pf_inv list_ops id fresh_qdisc" "sig_ok fresh_qdisc"
  "bands id fresh_qdisc = replicate PFIFOFC_BANDS []"
proof -
  obtain r st where i: "pfifofc_init list_ops None blank_qdisc = (r, st)" by fastforce
  have st: "pf_inv list_ops id st" "bands id st = replicate PFIFOFC_BANDS []"
    "fc_calls st = []" "fc st = replicate PFIFOFC_BANDS ALL_OFF"
    using pf_inv_init [OF list_ops_ok _ _ _ _ _ i]
    by (simp_all add: blank_qdisc_def) (simp_all add: list_ops_def)
  have f: "fresh_qdisc = st\<lparr>dev_fc_cb := 1\<rparr>"
    by (simp add: fresh_qdisc_def qdisc_dev_register_flow_control_cb_def i)
  show "pf_inv list_ops id fresh_qdisc" by (simp only: f pf_inv_cb st)
  show "sig_ok fresh_qdisc" by (simp add: f sig_ok_def st signalled_def)
  show "bands id fresh_qdisc = replicate PFIFOFC_BANDS []" using st by (simp add: f bands_def)
qed

section \<open>Properties\<close>

text \<open>C12. Every operation implements strict priority over four bounded queues: enqueue appends to
  the band of the packet's priority while it holds less than the limit and otherwise drops,
  dequeue takes the first packet of the first band that has one, peek shows that packet.\<close>

theorem pfifofc_refines:
  assumes ko: "skb_ops_ok ko items" and inv: "pf_inv ko items st"
  shows "(fst (pfifofc_enqueue ko s st), bands items (snd (pfifofc_enqueue ko s st)))
           = prio_enq (unat (tx_prio_queue_len st)) s (bands items st)
       \<and> (fst (pfifofc_dequeue ko st), bands items (snd (pfifofc_dequeue ko st))) = prio_deq (bands items st)
       \<and> pfifofc_peek ko st = fst (prio_deq (bands items st))
       \<and> pf_inv ko items (snd (pfifofc_enqueue ko s st)) \<and> pf_inv ko items (snd (pfifofc_dequeue ko st))"
proof -
  have "length (bandq st) = PFIFOFC_BANDS" using inv by (simp add: pf_inv_def)
  then have "map (\<lambda>b. items (bandq st ! b)) [0..<PFIFOFC_BANDS] = bands items st"
    by (intro nth_equalityI) (simp_all add: bands_def del: upt_rec_numeral)
  then have "pfifofc_peek ko st = fst (prio_deq (bands items st))"
    using peek_refines [OF ko] by (simp add: pfifofc_peek_def del: upt_rec_numeral)
  then show ?thesis
    using enqueue_refines [OF ko inv, of s] dequeue_refines [OF ko inv] inv_enqueue [OF ko inv]
      inv_dequeue [OF ko inv] by simp
qed

theorem pfifofc_refines_witness:
  "pfifofc_peek list_ops fresh_qdisc = None
   \<and> bands id (snd (pfifofc_enqueue list_ops \<lparr>skb_priority = 6, skb_pkt_len = 100, skb_id = 1\<rparr> fresh_qdisc))
       = [[\<lparr>skb_priority = 6, skb_pkt_len = 100, skb_id = 1\<rparr>], [], [], []]"
proof -
  have "band_of 6 = 0" by (simp add: band_of_def prio2fourband_def)
  moreover have bands4: "bands id fresh_qdisc = [[], [], [], []]"
    unfolding fresh_qdisc_ok(3) by (simp add: eval_nat_numeral)
  moreover have "tx_prio_queue_len fresh_qdisc = 640"
    by (simp add: fresh_qdisc_def qdisc_dev_register_flow_control_cb_def pfifofc_init_def)
  ultimately show ?thesis
    using pfifofc_refines [OF list_ops_ok fresh_qdisc_ok(1),
        of "\<lparr>skb_priority = 6, skb_pkt_len = 100, skb_id = 1\<rparr>"]
    by (simp add: bands4 prio_enq_def Let_def)
qed

text \<open>No packet is lost, duplicated or reordered within a band: over any sequence of operations
  the packets delivered from a band, followed by those still queued, are those it held at the
  start followed by those accepted.\<close>

theorem pfifofc_band_fifo:
  assumes "skb_ops_ok ko items" and "pf_inv ko items st" and "pf_run ko os st = (acc, out, st')"
    and "b < PFIFOFC_BANDS"
  shows "of_band b out @ bands items st' ! b = bands items st ! b @ of_band b acc"
  using run_fifo [OF assms(1-3)] assms(4) by blast

theorem pfifofc_band_fifo_witness:
  "\<exists>acc out st'. pf_run list_ops [Enq \<lparr>skb_priority = 0, skb_pkt_len = 60, skb_id = 1\<rparr>, Deq] fresh_qdisc
        = (acc, out, st')
     \<and> of_band 2 out @ bands id st' ! 2 = of_band 2 acc"
proof -
  obtain acc out st' where r: "pf_run list_ops [Enq \<lparr>skb_priority = 0, skb_pkt_len = 60, skb_id = 1\<rparr>, Deq]
      fresh_qdisc = (acc, out, st')" by (metis prod.exhaust)
  from pfifofc_band_fifo [OF list_ops_ok fresh_qdisc_ok(1) r, of 2] r show ?thesis
    by (auto simp: fresh_qdisc_ok(3))
qed

text \<open>Flow control with hysteresis. With ordered limits, after any sequence of operations every
  band holds at most the configured maximum and its level fits its length: no signal up to the
  RED-on limit, RED between RED-off and ALL-on, ALL above ALL-off. When the netdev has registered
  a callback, the last level it was told for the band is that level.\<close>

theorem pfifofc_flow_control:
  assumes "skb_ops_ok ko items" and "pf_inv ko items st" and "sig_ok st"
    and "pf_run ko os st = (acc, out, st')" and "b < PFIFOFC_BANDS"
  shows "length (bands items st' ! b) \<le> unat (tx_prio_queue_len st')
       \<and> level_ok st' (fc st' ! b) (length (bands items st' ! b))
       \<and> signalled b (fc_calls st') = fc st' ! b
       \<and> qd_qlen st' = of_nat (sum_list (map length (bands items st')))"
  using run_sig [OF assms(1-4)] assms(5) by (simp add: pf_inv_def sig_ok_def)

theorem pfifofc_flow_control_witness:
  "\<exists>acc out st'. pf_run list_ops (replicate 400 (Enq \<lparr>skb_priority = 6, skb_pkt_len = 9, skb_id = 0\<rparr>))
        fresh_qdisc = (acc, out, st')
     \<and> level_ok st' (fc st' ! 0) (length (bands id st' ! 0)) \<and> signalled 0 (fc_calls st') = fc st' ! 0"
proof -
  obtain acc out st' where r: "pf_run list_ops
      (replicate 400 (Enq \<lparr>skb_priority = 6, skb_pkt_len = 9, skb_id = 0\<rparr>)) fresh_qdisc = (acc, out, st')"
    by (metis prod.exhaust)
  have "(0 :: nat) < PFIFOFC_BANDS" by simp
  from pfifofc_flow_control [OF list_ops_ok fresh_qdisc_ok(1,2) r this] r show ?thesis by blast
qed

text \<open>A reset empties the bands and clears their levels but does not call the netdev: a band
  whose last signal was not ALL\_OFF keeps that signal at the netdev.\<close>

theorem pfifofc_reset_silent:
  assumes "skb_ops_ok ko items" and "pf_inv ko items st" and "sig_ok st" and "b < PFIFOFC_BANDS"
  shows "pf_inv ko items (pfifofc_reset ko st) \<and> bands items (pfifofc_reset ko st) ! b = []
       \<and> fc (pfifofc_reset ko st) ! b = ALL_OFF
       \<and> signalled b (fc_calls (pfifofc_reset ko st)) = fc st ! b"
  using inv_reset [OF assms(1,2)] assms(3,4) by (simp add: sig_ok_def)

theorem pfifofc_reset_silent_witness:
  "pf_inv list_ops id (pfifofc_reset list_ops fresh_qdisc)
   \<and> signalled 3 (fc_calls (pfifofc_reset list_ops fresh_qdisc)) = fc fresh_qdisc ! 3"
  using pfifofc_reset_silent [OF list_ops_ok fresh_qdisc_ok(1,2), of 3] by simp

end
