(* ===== verification/TerraLink.thy ===== *)
theory TerraLink
  imports Amsdu Pfifofc
begin

text \<open>
  The link table of the Terragraph wireless driver: the virtual network devices of a radio
  (\<open>fb_terragraph/fb_tgd_terragraph_linux.c\<close>, \<open>fb_tgd_terragraph.h\<close>) and the wrapper around the
  vendor's backhaul driver (\<open>fb_tgd_backhaul.c\<close>).

  The private data of a device, its network device and its wireless device are the record
  \<open>dev_priv\<close>; a device is named by its position in the device list. The vendor driver is the
  parameter \<open>bh_ops\<close>, over a context of its own type; a context that is NULL is \<open>None\<close>. Counters are
  kept per CPU as in the code, and an operation that counts is given the CPU it runs on. The routing
  backend is the Linux backend, which ignores link state and flow control.
\<close>

section \<open>Types\<close>

type_synonym mac = "u8 list"

datatype tgLinkStatus = TG_LINKINIT | TG_LINKDOWN | TG_LINKUP | TG_LINKPAUSE

text \<open>The type of authentication is a byte of an event: values the enumeration does not name are
  kept apart.\<close>

datatype tgWsecAuthType = TGF_WSEC_DISABLE | TGF_WSEC_PSK | TGF_WSEC_EAP | TGF_WSEC_OTHER u8

datatype terra_stats =
    RX_PACKETS | RX_DROP_PACKETS | RX_BYTES | TX_PACKETS | TX_BYTES | RX_ERR_NO_MDATA
  | TX_FROM_LINUX | TX_FROM_NSS | TX_ERR | TX_TGD_ERR | LINK_SUSPEND | LINK_RESUME
  | TX_TGD_TX_STOPPED | TX_FROM_LNX_DATA_COS | TX_FROM_LNX_CTRL_COS | TX_FROM_NSS_DATA_COS
  | TX_FROM_NSS_CTRL_COS | TX_ERR_WLAN_BUSY | TX_PACKETS_COS0 | TX_PACKETS_COS1 | TX_PACKETS_COS2
  | TX_PACKETS_COS3 | TX_TGD_FLOW_ON | TX_TGD_FLOW_OFF | RX_TGD_RX_STOPPED

datatype nl_sdn_stats =
    NL_MSG_SEND | NL_MSG_SEND_ERR | NL_NOTIF | NL_MSG_RCVD | NL_CMD_TGINIT | NL_CMD_SET_NODECONFIG
  | NL_CMD_SET_BMFMCONFIG | NL_CMD_SET_DBGMASK | NL_CMD_GRANTALLOC | NL_CMD_GET_STATS
  | NL_CMD_PASSTHRU_SB | NL_CMD_SET_DRVR_CONFIG | NL_EVENTS | NL_NB_INIT_RESP | NL_NB_NODE_CFG_RESP
  | NL_NB_START_BF_SCAN_RESP | NL_NB_UPDATE_LINK_REQ | NL_NB_ADD_LINK_REQ | NL_NB_DEL_LINK_REQ
  | NL_NB_PASSTHRU | NL_NB_GPS_START_TIME_ACQUISITION | NL_NB_GPS_STOP_TIME_ACQUISITION
  | NL_CMD_DEV_ALLOC | NL_NB_LINK_INFO | NL_NB_GPS_GET_SELF_POS

text \<open>Notifications to user space over netlink: a device is named by its position. The last one is
  the call of the timestamp handler of the PLL driver.\<close>

datatype nl_msg =
    Nl_tginit u64 u8 "u8 list" | Nl_bmfmconfig u8 | Nl_passthru "u8 list"
  | Nl_link_status "nat option" mac u8 u8 u8 u8 | Nl_wsec_status nat u8
  | Htsf_info u64 "u8 list"

text \<open>The client state of the GPS driver: whether time updates were requested, and whether they are
  passed on to the firmware.\<close>

record gps_client =
  fw_synced :: bool
  send_to_fw :: bool

abbreviation TGD_LINK_INVALID :: int where "TGD_LINK_INVALID \<equiv> - 1"

record bh_link_stats =
  bytes_sent :: u64
  bytes_pending :: u64
  pkts_sent :: u64
  pkts_pending :: u64
  pkts_recved :: u64
  bytes_recved :: u64
  tx_err :: u64
  rx_err :: u64
  pkts_enqueued :: u64
  bytes_enqueued :: u64
  bytes_sent_failed :: u64
  bytes_enqueue_failed :: u64
  bytes_sent_pad :: u64
  bytes_sent_failed_pad :: u64
  bytes_enqueued_pad :: u64
  bytes_enqueue_fail_pad :: u64

definition zero_stats :: bh_link_stats where
  "zero_stats = \<lparr>bytes_sent = 0, bytes_pending = 0, pkts_sent = 0, pkts_pending = 0, pkts_recved = 0,
     bytes_recved = 0, tx_err = 0, rx_err = 0, pkts_enqueued = 0, bytes_enqueued = 0,
     bytes_sent_failed = 0, bytes_enqueue_failed = 0, bytes_sent_pad = 0, bytes_sent_failed_pad = 0,
     bytes_enqueued_pad = 0, bytes_enqueue_fail_pad = 0\<rparr>"

text \<open>What the driver tells cfg80211 and user space.\<close>

datatype wiphy_event =
    Disconnected | Del_sta mac | Connect_result mac "u8 list" "u8 list" | New_sta mac u32 "u8 list"
  | Inform_bss mac "u8 list" | Unlink_bss mac | Disassoc_req mac | Wsec_linkup

record wiphy_priv =
  ap_started :: bool
  tg_connected :: bool
  wsec_auth :: tgWsecAuthType
  m4_sent :: bool
  m4_delay_cnt :: u8
  params_key_len :: nat
  params_key :: "u8 list"
  pmac :: mac
  sinfo_gen :: u32
  supp_rsnie_len :: nat
  auth_rsnie_len :: nat
  supp_rsnie :: "u8 list"
  auth_rsnie :: "u8 list"
  current_bss :: bool
  key_work_queued :: bool
  wiphy_events :: "wiphy_event list"

record dev_priv =
  tx_link :: int
  rx_link :: int
  peer_index :: int
  dev_index :: int
  pae_closed :: bool
  m4_pending :: bool
  link_sta_addr :: mac
  link_state :: tgLinkStatus
  link_stats :: bh_link_stats
  pcpu_stats :: "(terra_stats \<Rightarrow> u64) list"
  carrier :: bool
  tx_stopped :: "bool list"
  dev_addr :: mac
  mtu :: int
  wiphy :: wiphy_priv

record bh_link_info_desc =
  ld_peerIndex :: int
  ld_rxLinkId :: int
  ld_txLinkId :: int

record bh_data_txd =
  td_peerIndex :: int
  td_txLinkId :: int
  td_lifetime :: int

text \<open>The operations of the vendor driver. \<open>op_link_stats\<close> is \<open>None\<close> when the code it returns is not
  zero.\<close>

record 'b bh_ops =
  op_add_link_info :: "bh_link_info_desc \<Rightarrow> 'b \<Rightarrow> int \<times> 'b"
  op_delete_link_info :: "bh_link_info_desc \<Rightarrow> 'b \<Rightarrow> int \<times> 'b"
  op_tx_data :: "sk_buff \<Rightarrow> bh_data_txd \<Rightarrow> 'b \<Rightarrow> 'b"
  op_link_stats :: "int \<Rightarrow> 'b \<Rightarrow> bh_link_stats option"
  op_set_key :: "int \<Rightarrow> mac \<Rightarrow> u8 list \<Rightarrow> 'b \<Rightarrow> int \<times> 'b"
  op_ioctl :: "u8 list \<Rightarrow> 'b \<Rightarrow> int \<times> u8 list \<times> 'b"
  op_prio_mq_map :: "nat list"

record 'b terra_driver =
  bh_ctx :: "'b option"
  devs :: "dev_priv list"
  link_count :: int
  max_link_count :: int
  fc_enable :: bool
  rx_event_enable :: bool
  rx_event_q :: "u8 list list"
  drv_mac_addr :: mac
  drv_macaddr :: u64
  gps_state :: "gps_client option"
  nl_stats :: "nl_sdn_stats \<Rightarrow> u32"
  nl_log :: "nl_msg list"

abbreviation EINVAL :: int where "EINVAL \<equiv> 22"

section \<open>Counters\<close>

definition terra_dev_stats_inc :: "nat \<Rightarrow> terra_stats \<Rightarrow> u64 \<Rightarrow> dev_priv \<Rightarrow> dev_priv" where
  "terra_dev_stats_inc cpu k len p =
     p\<lparr>pcpu_stats := (pcpu_stats p)[cpu := (pcpu_stats p ! cpu)(k := (pcpu_stats p ! cpu) k + len)]\<rparr>"

section \<open>MAC addresses as numbers\<close>

definition TGD_CONVERT_MACADDR_TO_LONG :: "mac \<Rightarrow> u64" where
  "TGD_CONVERT_MACADDR_TO_LONG a =
     push_bit (5 * 8) (ucast (a ! 0)) OR push_bit (4 * 8) (ucast (a ! 1)) OR
     push_bit (3 * 8) (ucast (a ! 2)) OR push_bit (2 * 8) (ucast (a ! 3)) OR
     push_bit (1 * 8) (ucast (a ! 4)) OR ucast (a ! 5)"

definition TGD_CONVERT_LONG_TO_MACADDR :: "u64 \<Rightarrow> mac" where
  "TGD_CONVERT_LONG_TO_MACADDR v =
     [ucast (drop_bit (5 * 8) v AND 0xFF), ucast (drop_bit (4 * 8) v AND 0xFF),
      ucast (drop_bit (3 * 8) v AND 0xFF), ucast (drop_bit (2 * 8) v AND 0xFF),
      ucast (drop_bit (1 * 8) v AND 0xFF), ucast (v AND 0xFF)]"

section \<open>The backhaul wrapper\<close>

definition fb_tgd_bh_add_link_info ::
  "'b bh_ops \<Rightarrow> bh_link_info_desc \<Rightarrow> 'b terra_driver \<Rightarrow> int \<times> 'b terra_driver" where
  "fb_tgd_bh_add_link_info ops ldesc drv =
     (case bh_ctx drv of
        None \<Rightarrow> (- EINVAL, drv)
      | Some b \<Rightarrow> (let (r, b') = op_add_link_info ops ldesc b in (r, drv\<lparr>bh_ctx := Some b'\<rparr>)))"

definition fb_tgd_bh_delete_link_info ::
  "'b bh_ops \<Rightarrow> bh_link_info_desc \<Rightarrow> 'b terra_driver \<Rightarrow> int \<times> 'b terra_driver" where
  "fb_tgd_bh_delete_link_info ops ldesc drv =
     (case bh_ctx drv of
        Some b \<Rightarrow> (let (r, b') = op_delete_link_info ops ldesc b in (r, drv\<lparr>bh_ctx := Some b'\<rparr>))
      | None \<Rightarrow> (- EINVAL, drv))"

text \<open>\<open>tx_data\<close> is called without a check of the context: a NULL context is a fault.\<close>

definition fb_tgd_bh_tx_data ::
  "'b bh_ops \<Rightarrow> dev_priv \<Rightarrow> sk_buff \<Rightarrow> 'b terra_driver \<Rightarrow> (int \<times> 'b terra_driver) option" where
  "fb_tgd_bh_tx_data ops priv skb drv =
     (case bh_ctx drv of
        None \<Rightarrow> None
      | Some b \<Rightarrow> Some (0, drv\<lparr>bh_ctx := Some (op_tx_data ops skb
          \<lparr>td_peerIndex = peer_index priv, td_txLinkId = tx_link priv, td_lifetime = 20000\<rparr> b)\<rparr>))"

definition fb_tgd_bh_ioctl ::
  "'b bh_ops \<Rightarrow> u8 list \<Rightarrow> 'b terra_driver \<Rightarrow> int \<times> u8 list option \<times> 'b terra_driver" where
  "fb_tgd_bh_ioctl ops req drv =
     (case bh_ctx drv of
        Some b \<Rightarrow> (let (r, resp, b') = op_ioctl ops req b in (r, Some resp, drv\<lparr>bh_ctx := Some b'\<rparr>))
      | None \<Rightarrow> (- EINVAL, None, drv))"

definition fb_tgd_bh_set_key ::
  "'b bh_ops \<Rightarrow> dev_priv \<Rightarrow> mac \<Rightarrow> u8 list \<Rightarrow> 'b terra_driver \<Rightarrow> int \<times> 'b terra_driver" where
  "fb_tgd_bh_set_key ops priv dest_mac key drv =
     (case bh_ctx drv of
        Some b \<Rightarrow> (let (r, b') = op_set_key ops (peer_index priv) dest_mac key b
                    in (r, drv\<lparr>bh_ctx := Some b'\<rparr>))
      | None \<Rightarrow> (- EINVAL, drv))"

text \<open>\<open>reg\<close> is the result of the vendor's registration: the code and, on success, the context.\<close>

definition fb_tgd_bh_register_client :: "int \<times> 'b option \<Rightarrow> 'b terra_driver \<Rightarrow> int \<times> 'b terra_driver" where
  "fb_tgd_bh_register_client reg drv = (fst reg, drv\<lparr>bh_ctx := snd reg\<rparr>)"

definition fb_tgd_bh_unregister_client :: "'b terra_driver \<Rightarrow> int \<times> 'b terra_driver" where
  "fb_tgd_bh_unregister_client drv =
     (if bh_ctx drv = None then (0, drv) else (0, drv\<lparr>bh_ctx := None\<rparr>))"

text \<open>The assignments of the update leave \<open>rx_err\<close> alone.\<close>

definition copy_link_stats :: "bh_link_stats \<Rightarrow> bh_link_stats \<Rightarrow> bh_link_stats" where
  "copy_link_stats cur old = old\<lparr>
     bytes_sent := bytes_sent cur, pkts_sent := pkts_sent cur, tx_err := tx_err cur,
     pkts_enqueued := pkts_enqueued cur, bytes_enqueued := bytes_enqueued cur,
     pkts_pending := pkts_pending cur, bytes_pending := bytes_pending cur,
     bytes_sent_failed := bytes_sent_failed cur, bytes_enqueue_failed := bytes_enqueue_failed cur,
     bytes_sent_pad := bytes_sent_pad cur, bytes_sent_failed_pad := bytes_sent_failed_pad cur,
     bytes_enqueued_pad := bytes_enqueued_pad cur,
     bytes_enqueue_fail_pad := bytes_enqueue_fail_pad cur,
     bytes_recved := bytes_recved cur, pkts_recved := pkts_recved cur\<rparr>"

definition tgd_terra_update_link_stats :: "'b bh_ops \<Rightarrow> 'b option \<Rightarrow> dev_priv \<Rightarrow> dev_priv" where
  "tgd_terra_update_link_stats ops ctx priv =
     (case ctx of
        None \<Rightarrow> priv
      | Some b \<Rightarrow>
          if 0 \<le> tx_link priv
          then (case op_link_stats ops (peer_index priv) b of
                  None \<Rightarrow> priv
                | Some cur \<Rightarrow> priv\<lparr>link_stats := copy_link_stats cur (link_stats priv)\<rparr>)
          else priv)"

text \<open>The count of pending packets is converted to \<open>int\<close>.\<close>

definition tgd_link_pkts_pending :: "'b bh_ops \<Rightarrow> 'b option \<Rightarrow> dev_priv \<Rightarrow> int" where
  "tgd_link_pkts_pending ops ctx priv =
     (case ctx of
        None \<Rightarrow> - 1
      | Some b \<Rightarrow>
          if 0 \<le> tx_link priv
          then (case op_link_stats ops (peer_index priv) b of
                  None \<Rightarrow> - 1
                | Some cur \<Rightarrow> sint (ucast (pkts_pending cur) :: u32))
          else - 1)"

definition upd_dev :: "nat \<Rightarrow> (dev_priv \<Rightarrow> dev_priv) \<Rightarrow> 'b terra_driver \<Rightarrow> 'b terra_driver" where
  "upd_dev i f drv = drv\<lparr>devs := (devs drv)[i := f (devs drv ! i)]\<rparr>"

text \<open>Counters of a link are added to those of the device when the link goes away.\<close>

definition spill_stats :: "nat \<Rightarrow> dev_priv \<Rightarrow> dev_priv" where
  "spill_stats cpu p =
     (let s = link_stats p in
      (terra_dev_stats_inc cpu RX_BYTES (bytes_recved s) \<circ>
       terra_dev_stats_inc cpu RX_PACKETS (pkts_recved s) \<circ>
       terra_dev_stats_inc cpu TX_BYTES (bytes_sent s) \<circ>
       terra_dev_stats_inc cpu TX_PACKETS (pkts_sent s) \<circ>
       terra_dev_stats_inc cpu TX_ERR (tx_err s)) p)\<lparr>link_stats := zero_stats\<rparr>"

definition fb_tgd_bh_del_links_info ::
  "'b bh_ops \<Rightarrow> nat \<Rightarrow> nat \<Rightarrow> 'b terra_driver \<Rightarrow> 'b terra_driver" where
  "fb_tgd_bh_del_links_info ops cpu i drv =
     (let drv1 = upd_dev i (tgd_terra_update_link_stats ops (bh_ctx drv)) drv;
          p = devs drv1 ! i;
          drv2 = (if 0 \<le> tx_link p \<or> 0 \<le> rx_link p
                  then snd (fb_tgd_bh_delete_link_info ops
                         \<lparr>ld_peerIndex = peer_index p, ld_rxLinkId = rx_link p, ld_txLinkId = tx_link p\<rparr> drv1)
                  else drv1)
      in upd_dev i (\<lambda>p. spill_stats cpu (p\<lparr>tx_link := TGD_LINK_INVALID, rx_link := TGD_LINK_INVALID,
                                            link_state := TG_LINKINIT\<rparr>)) drv2)"

definition fb_tgd_bh_add_links_info ::
  "'b bh_ops \<Rightarrow> nat \<Rightarrow> u8 \<Rightarrow> u8 \<Rightarrow> 'b terra_driver \<Rightarrow> int \<times> 'b terra_driver" where
  "fb_tgd_bh_add_links_info ops i rxLink txLink drv =
     (let drv1 = upd_dev i (\<lambda>p. p\<lparr>rx_link := uint rxLink, tx_link := uint txLink\<rparr>) drv
      in (0, snd (fb_tgd_bh_add_link_info ops
                \<lparr>ld_peerIndex = peer_index (devs drv1 ! i), ld_rxLinkId = uint rxLink,
                 ld_txLinkId = uint txLink\<rparr> drv1)))"

definition fb_tgd_bh_select_queue :: "'b bh_ops \<Rightarrow> bool \<Rightarrow> nat \<Rightarrow> nat option" where
  "fb_tgd_bh_select_queue ops tgd_enable_pfifofc priority =
     (if tgd_enable_pfifofc then Some 0 else arr_get (op_prio_mq_map ops) priority)"

section \<open>The link table\<close>

text \<open>Position of the first element with a property: the loops over the device list.\<close>

fun find_idx :: "('a \<Rightarrow> bool) \<Rightarrow> 'a list \<Rightarrow> nat option" where
  "find_idx P [] = None"
| "find_idx P (x # xs) = (if P x then Some 0 else map_option Suc (find_idx P xs))"

text \<open>The drivers of all radios; key 0 asks for the first.\<close>

definition tgd_find_fb_drv :: "u64 \<Rightarrow> 'b terra_driver list \<Rightarrow> nat option" where
  "tgd_find_fb_drv key drvs = find_idx (\<lambda>d. key = 0 \<or> drv_macaddr d = key) drvs"

definition tgd_terra_find_net_device_by_mac :: "'b terra_driver \<Rightarrow> mac option \<Rightarrow> nat option" where
  "tgd_terra_find_net_device_by_mac drv m =
     (case m of None \<Rightarrow> None | Some a \<Rightarrow> find_idx (\<lambda>p. link_sta_addr p = a) (devs drv))"

definition tgd_terra_find_net_device_by_link :: "'b terra_driver \<Rightarrow> int \<Rightarrow> nat option" where
  "tgd_terra_find_net_device_by_link drv link_id =
     find_idx (\<lambda>p. link_id = tx_link p \<or> link_id = rx_link p) (devs drv)"

definition tgd_terra_lookup_link_by_mac_addr :: "'b terra_driver \<Rightarrow> mac option \<Rightarrow> nat option" where
  "tgd_terra_lookup_link_by_mac_addr drv m = tgd_terra_find_net_device_by_mac drv m"

definition tgd_terra_del_link_info ::
  "'b bh_ops \<Rightarrow> nat \<Rightarrow> mac option \<Rightarrow> 'b terra_driver \<Rightarrow> int \<times> 'b terra_driver" where
  "tgd_terra_del_link_info ops cpu m drv =
     (case tgd_terra_find_net_device_by_mac drv m of
        None \<Rightarrow> (- 1, drv)
      | Some i \<Rightarrow> (0, fb_tgd_bh_del_links_info ops cpu i drv))"

text \<open>One status change: the device and the number the link count changes by.\<close>

definition link_status_step :: "tgLinkStatus \<Rightarrow> dev_priv \<Rightarrow> int \<times> dev_priv" where
  "link_status_step new p = (case new of
     TG_LINKUP \<Rightarrow>
       (if link_state p \<noteq> TG_LINKPAUSE then 1 else 0,
        p\<lparr>carrier := True, tx_stopped := map (\<lambda>_. False) (tx_stopped p), link_state := new\<rparr>)
   | TG_LINKPAUSE \<Rightarrow>
       (0, p\<lparr>link_state := (if link_state p \<noteq> TG_LINKINIT then new else link_state p),
              carrier := False, tx_stopped := map (\<lambda>_. True) (tx_stopped p)\<rparr>)
   | TG_LINKDOWN \<Rightarrow>
       (if link_state p \<noteq> TG_LINKINIT then - 1 else 0,
        p\<lparr>carrier := False, tx_stopped := map (\<lambda>_. True) (tx_stopped p),
          link_state := (if link_state p \<noteq> TG_LINKINIT then new else link_state p)\<rparr>)
   | TG_LINKINIT \<Rightarrow> (0, p))"

definition tgd_terra_set_link_status ::
  "mac option \<Rightarrow> tgLinkStatus \<Rightarrow> 'b terra_driver \<Rightarrow> int \<times> 'b terra_driver" where
  "tgd_terra_set_link_status m new drv =
     (case tgd_terra_find_net_device_by_mac drv m of
        None \<Rightarrow> (- 1, drv)
      | Some i \<Rightarrow>
          (0, (upd_dev i (snd \<circ> link_status_step new) drv)
                \<lparr>link_count := link_count drv + fst (link_status_step new (devs drv ! i))\<rparr>))"

definition tgd_set_if_mac_addr :: "mac \<Rightarrow> 'b terra_driver \<Rightarrow> 'b terra_driver" where
  "tgd_set_if_mac_addr a drv =
     drv\<lparr>drv_mac_addr := a, drv_macaddr := TGD_CONVERT_MACADDR_TO_LONG a,
         devs := map (\<lambda>p. p\<lparr>dev_addr := a\<rparr>) (devs drv)\<rparr>"

definition zero_mac :: mac where "zero_mac = replicate 6 0"

text \<open>The search for a device for a peer; \<open>avail\<close> is the first inactive device seen so far.\<close>

fun reserve_scan :: "mac \<Rightarrow> nat \<Rightarrow> nat option \<Rightarrow> dev_priv list \<Rightarrow> nat option" where
  "reserve_scan a i avail [] = avail"
| "reserve_scan a i avail (p # ps) =
     (if link_state p \<noteq> TG_LINKINIT then reserve_scan a (Suc i) avail ps
      else if link_sta_addr p = a then Some i
      else if link_sta_addr p = zero_mac then Some i
      else reserve_scan a (Suc i) (if avail = None then Some i else avail) ps)"

definition tgd_terra_dev_reserve :: "mac \<Rightarrow> 'b terra_driver \<Rightarrow> nat option \<times> 'b terra_driver" where
  "tgd_terra_dev_reserve a drv =
     (case reserve_scan a 0 None (devs drv) of
        Some i \<Rightarrow> (Some i, upd_dev i (\<lambda>p. p\<lparr>link_sta_addr := a\<rparr>) drv)
      | None \<Rightarrow> (None, drv))"

definition tgd_terra_set_link_mac_addr ::
  "'b bh_ops \<Rightarrow> mac \<Rightarrow> u8 \<Rightarrow> u8 \<Rightarrow> 'b terra_driver \<Rightarrow> 'b terra_driver" where
  "tgd_terra_set_link_mac_addr ops a rxLink txLink drv =
     (case tgd_terra_dev_reserve a drv of
        (None, drv1) \<Rightarrow> drv1
      | (Some i, drv1) \<Rightarrow>
          (let drv2 = upd_dev i (\<lambda>p. p\<lparr>link_state := TG_LINKDOWN\<rparr>) drv1;
               (r, drv3) = fb_tgd_bh_add_links_info ops i rxLink txLink drv2
           in if r \<noteq> 0 then upd_dev i (\<lambda>p. p\<lparr>link_state := TG_LINKINIT\<rparr>) drv3 else drv3))"

section \<open>Statistics of a device\<close>

text \<open>The report of a link: counters, addresses, state, and the statistics of its qdisc.\<close>

record link_report =
  lr_stats :: bh_link_stats
  lr_dst_mac_addr :: mac
  lr_src_mac_addr :: mac
  lr_dev_index :: int
  lr_link_state :: tgLinkStatus
  lr_link :: int
  lr_qdisc :: "((u32 \<times> u64 \<times> u64) list \<times> u32 \<times> u32) option"

definition tgd_terra_link_stats ::
  "'b bh_ops \<Rightarrow> 'b option \<Rightarrow> (('q, 'k) skb_ops \<times> ('q, 'k) qdisc) option \<Rightarrow> dev_priv \<Rightarrow> link_report \<times> dev_priv" where
  "tgd_terra_link_stats ops ctx qd priv =
     (let p = tgd_terra_update_link_stats ops ctx priv
      in (\<lparr>lr_stats = link_stats p, lr_dst_mac_addr = link_sta_addr p, lr_src_mac_addr = dev_addr p,
           lr_dev_index = dev_index p, lr_link_state = link_state p, lr_link = tx_link p,
           lr_qdisc = map_option (\<lambda>(ko, q). pfifofc_dump_stats ko q) qd\<rparr>, p))"

definition add_pcpu :: "(terra_stats \<Rightarrow> u64) \<Rightarrow> bh_link_stats \<Rightarrow> bh_link_stats" where
  "add_pcpu t s = s\<lparr>pkts_sent := pkts_sent s + t TX_PACKETS, bytes_sent := bytes_sent s + t TX_BYTES,
     pkts_recved := pkts_recved s + t RX_PACKETS, bytes_recved := bytes_recved s + t RX_BYTES,
     tx_err := tx_err s + t TX_ERR\<rparr>"

definition tgd_terra_get_net_if_stat ::
  "'b bh_ops \<Rightarrow> 'b option \<Rightarrow> (('q, 'k) skb_ops \<times> ('q, 'k) qdisc) option \<Rightarrow> dev_priv \<Rightarrow> link_report \<times> dev_priv" where
  "tgd_terra_get_net_if_stat ops ctx qd priv =
     (let (r, p) = tgd_terra_link_stats ops ctx qd priv
      in (r\<lparr>lr_stats := fold add_pcpu (pcpu_stats p) (lr_stats r)\<rparr>, p))"

record rtnl_stats =
  rx_packets64 :: u64
  tx_packets64 :: u64
  rx_bytes64 :: u64
  tx_bytes64 :: u64
  tx_errors64 :: u64

definition tgd_terra_stats64 ::
  "'b bh_ops \<Rightarrow> 'b option \<Rightarrow> (('q, 'k) skb_ops \<times> ('q, 'k) qdisc) option \<Rightarrow> dev_priv \<Rightarrow> rtnl_stats \<times> dev_priv" where
  "tgd_terra_stats64 ops ctx qd priv =
     (let (r, p) = tgd_terra_get_net_if_stat ops ctx qd priv; s = lr_stats r
      in (\<lparr>rx_packets64 = pkts_recved s, tx_packets64 = pkts_sent s, rx_bytes64 = bytes_recved s,
           tx_bytes64 = bytes_sent s, tx_errors64 = tx_err s\<rparr>, p))"

definition ethtool_op_get_terra_stats ::
  "'b bh_ops \<Rightarrow> 'b option \<Rightarrow> (('q, 'k) skb_ops \<times> ('q, 'k) qdisc) option \<Rightarrow> dev_priv \<Rightarrow> u64 list \<times> dev_priv" where
  "ethtool_op_get_terra_stats ops ctx qd priv =
     (let (r, p) = tgd_terra_link_stats ops ctx qd priv; s = lr_stats r
      in ([pkts_recved s, pkts_sent s, bytes_recved s, bytes_sent s, rx_err s, tx_err s], p))"

text \<open>The smallest MTU of an Ethernet device is 68.\<close>

definition tgd_terra_change_mtu :: "int \<Rightarrow> dev_priv \<Rightarrow> int \<times> dev_priv" where
  "tgd_terra_change_mtu new_mtu p =
     (if new_mtu < 68 \<or> 7900 < new_mtu then (- EINVAL, p) else (0, p\<lparr>mtu := new_mtu\<rparr>))"

definition tgd_terra_stop_device :: "'b bh_ops \<Rightarrow> nat \<Rightarrow> nat \<Rightarrow> 'b terra_driver \<Rightarrow> 'b terra_driver" where
  "tgd_terra_stop_device ops cpu i drv =
     fb_tgd_bh_del_links_info ops cpu i
       (upd_dev i (\<lambda>p. p\<lparr>carrier := False, tx_stopped := map (\<lambda>_. True) (tx_stopped p)\<rparr>) drv)"

section \<open>Creation of devices\<close>

definition no_wiphy :: wiphy_priv where
  "no_wiphy = \<lparr>ap_started = False, tg_connected = False, wsec_auth = TGF_WSEC_DISABLE, m4_sent = False,
     m4_delay_cnt = 0, params_key_len = 0, params_key = replicate 64 0, pmac = zero_mac, sinfo_gen = 0,
     supp_rsnie_len = 0, auth_rsnie_len = 0, supp_rsnie = replicate 48 0, auth_rsnie = replicate 48 0,
     current_bss = False, key_work_queued = False, wiphy_events = []\<rparr>"

text \<open>\<open>ret\<close> is the combined result of the allocations and registrations with the kernel: when it is
  not zero the device is deleted again; \<open>def_mtu\<close> is the module parameter for the MTU. The carrier is off and the four queues are stopped until the
  link comes up.\<close>

definition tgd_terra_create_device ::
  "int \<Rightarrow> nat \<Rightarrow> int \<Rightarrow> int \<Rightarrow> int \<Rightarrow> int \<Rightarrow> 'b terra_driver \<Rightarrow> int \<times> 'b terra_driver" where
  "tgd_terra_create_device ret ncpu def_mtu num_of_virt_links idx peer drv =
     (if ret \<noteq> 0 then (ret, drv)
      else (0, drv\<lparr>devs := devs drv @ [\<lparr>tx_link = TGD_LINK_INVALID, rx_link = TGD_LINK_INVALID,
        peer_index = peer, dev_index = num_of_virt_links * idx + peer, pae_closed = False,
        m4_pending = False, link_sta_addr = zero_mac, link_state = TG_LINKINIT,
        link_stats = zero_stats, pcpu_stats = replicate ncpu (\<lambda>_. 0), carrier = False,
        tx_stopped = replicate 4 True, dev_addr = drv_mac_addr drv,
        mtu = (if 68 \<le> def_mtu \<and> def_mtu \<le> 7900 then def_mtu else 1500),
        wiphy = no_wiphy\<rparr>]\<rparr>))"

section \<open>Invariant of the link table\<close>

definition dev_ok :: "dev_priv \<Rightarrow> bool" where
  "dev_ok p \<longleftrightarrow>
     (tx_link p = - 1 \<and> rx_link p = - 1 \<or> 0 \<le> tx_link p \<and> tx_link p < 256 \<and> 0 \<le> rx_link p \<and> rx_link p < 256) \<and>
     (link_state p = TG_LINKINIT \<longrightarrow> tx_link p = - 1) \<and>
     (link_sta_addr p = zero_mac \<longrightarrow> link_state p = TG_LINKINIT) \<and>
     length (link_sta_addr p) = 6 \<and> length (tx_stopped p) = 4"

fun zeros_last :: "mac list \<Rightarrow> bool" where
  "zeros_last [] = True"
| "zeros_last (m # ms) \<longleftrightarrow> (m = zero_mac \<longrightarrow> (\<forall>x \<in> set ms. x = zero_mac)) \<and> zeros_last ms"

definition table_ok :: "'b terra_driver \<Rightarrow> bool" where
  "table_ok drv \<longleftrightarrow> (\<forall>p \<in> set (devs drv). dev_ok p) \<and> zeros_last (map link_sta_addr (devs drv))"

lemma find_idx_Some:
  "find_idx P xs = Some i \<Longrightarrow> i < length xs \<and> P (xs ! i) \<and> (\<forall>j < i. \<not> P (xs ! j))"
proof (induction xs arbitrary: i)
  case (Cons x xs)
  then show ?case by (cases i) (auto split: if_splits simp: less_Suc_eq_0_disj)
qed simp

lemma find_idx_None: "find_idx P xs = None \<longleftrightarrow> (\<forall>x \<in> set xs. \<not> P x)"
  by (induction xs) auto

lemma length_upd_dev [len_simps]: "length (devs (upd_dev i f drv)) = length (devs drv)"
  by (simp add: upd_dev_def)

lemma upd_dev_nth: "i < length (devs drv) \<Longrightarrow> devs (upd_dev i f drv) ! i = f (devs drv ! i)"
  by (simp add: upd_dev_def)

lemma upd_dev_other: "j \<noteq> i \<Longrightarrow> devs (upd_dev i f drv) ! j = devs drv ! j"
  by (simp add: upd_dev_def)

lemma table_ok_upd:
  assumes "table_ok drv" and "i < length (devs drv)" and "dev_ok (f (devs drv ! i))"
    and "link_sta_addr (f (devs drv ! i)) = link_sta_addr (devs drv ! i)"
  shows "table_ok (upd_dev i f drv)"
proof -
  have "map link_sta_addr (devs (upd_dev i f drv)) = map link_sta_addr (devs drv)"
    using assms(2,4) by (simp add: upd_dev_def map_update list_update_same_conv)
  moreover have "\<forall>p \<in> set (devs (upd_dev i f drv)). dev_ok p"
    using assms(1,3) by (auto simp: upd_dev_def table_ok_def dest: set_update_subset_insert [THEN subsetD])
  ultimately show ?thesis using assms(1) by (simp add: table_ok_def)
qed

lemma table_ok_nth: "table_ok drv \<Longrightarrow> i < length (devs drv) \<Longrightarrow> dev_ok (devs drv ! i)"
  by (auto simp: table_ok_def)

lemma table_ok_cong: "devs drv' = devs drv \<Longrightarrow> table_ok drv' = table_ok drv"
  by (simp add: table_ok_def)

text \<open>Fields of a device that counting does not touch.\<close>

lemma stats_inc_fields [simp]:
  "tx_link (terra_dev_stats_inc c k n p) = tx_link p" "rx_link (terra_dev_stats_inc c k n p) = rx_link p"
  "link_state (terra_dev_stats_inc c k n p) = link_state p"
  "link_sta_addr (terra_dev_stats_inc c k n p) = link_sta_addr p"
  "link_stats (terra_dev_stats_inc c k n p) = link_stats p"
  "tx_stopped (terra_dev_stats_inc c k n p) = tx_stopped p"
  "carrier (terra_dev_stats_inc c k n p) = carrier p"
  "pae_closed (terra_dev_stats_inc c k n p) = pae_closed p"
  "m4_pending (terra_dev_stats_inc c k n p) = m4_pending p"
  "wiphy (terra_dev_stats_inc c k n p) = wiphy p"
  "peer_index (terra_dev_stats_inc c k n p) = peer_index p"
  "length (pcpu_stats (terra_dev_stats_inc c k n p)) = length (pcpu_stats p)"
  by (simp_all add: terra_dev_stats_inc_def)

lemma stats_inc_ok [simp]: "dev_ok (terra_dev_stats_inc c k n p) = dev_ok p"
  by (simp add: dev_ok_def)

lemma spill_fields [simp]:
  "tx_link (spill_stats c p) = tx_link p" "rx_link (spill_stats c p) = rx_link p"
  "link_state (spill_stats c p) = link_state p" "link_sta_addr (spill_stats c p) = link_sta_addr p"
  "tx_stopped (spill_stats c p) = tx_stopped p" "link_stats (spill_stats c p) = zero_stats"
  "pae_closed (spill_stats c p) = pae_closed p" "carrier (spill_stats c p) = carrier p"
  by (simp_all add: spill_stats_def Let_def)

lemma update_link_stats_fields [simp]:
  "tx_link (tgd_terra_update_link_stats ops ctx p) = tx_link p"
  "rx_link (tgd_terra_update_link_stats ops ctx p) = rx_link p"
  "link_state (tgd_terra_update_link_stats ops ctx p) = link_state p"
  "link_sta_addr (tgd_terra_update_link_stats ops ctx p) = link_sta_addr p"
  "tx_stopped (tgd_terra_update_link_stats ops ctx p) = tx_stopped p"
  "pcpu_stats (tgd_terra_update_link_stats ops ctx p) = pcpu_stats p"
  "carrier (tgd_terra_update_link_stats ops ctx p) = carrier p"
  "pae_closed (tgd_terra_update_link_stats ops ctx p) = pae_closed p"
  by (simp_all add: tgd_terra_update_link_stats_def split: option.splits)

lemma bh_wrapper_devs [simp]:
  "devs (snd (fb_tgd_bh_delete_link_info ops l drv)) = devs drv"
  "devs (snd (fb_tgd_bh_add_link_info ops l drv)) = devs drv"
  by (simp_all add: fb_tgd_bh_delete_link_info_def fb_tgd_bh_add_link_info_def split_def Let_def split: option.splits)

lemma del_links_info_devs:
  assumes "i < length (devs drv)"
  shows "devs (fb_tgd_bh_del_links_info ops cpu i drv) =
           (devs drv)[i := spill_stats cpu ((tgd_terra_update_link_stats ops (bh_ctx drv) (devs drv ! i))
              \<lparr>tx_link := TGD_LINK_INVALID, rx_link := TGD_LINK_INVALID, link_state := TG_LINKINIT\<rparr>)]"
  using assms by (simp add: fb_tgd_bh_del_links_info_def upd_dev_def Let_def)

lemma table_ok_del:
  assumes "table_ok drv" and "i < length (devs drv)"
  shows "table_ok (fb_tgd_bh_del_links_info ops cpu i drv)"
proof -
  let ?f = "\<lambda>p. spill_stats cpu ((tgd_terra_update_link_stats ops (bh_ctx drv) p)
              \<lparr>tx_link := TGD_LINK_INVALID, rx_link := TGD_LINK_INVALID, link_state := TG_LINKINIT\<rparr>)"
  have "dev_ok (devs drv ! i)" using assms by (rule table_ok_nth)
  then have "dev_ok (?f (devs drv ! i))" by (simp add: dev_ok_def)
  then have "table_ok (upd_dev i ?f drv)" using assms by (intro table_ok_upd) auto
  moreover have "devs (fb_tgd_bh_del_links_info ops cpu i drv) = devs (upd_dev i ?f drv)"
    using assms(2) by (simp add: del_links_info_devs upd_dev_def)
  ultimately show ?thesis by (simp add: table_ok_def)
qed

lemma find_mac_Some:
  assumes "tgd_terra_find_net_device_by_mac drv m = Some i"
  shows "i < length (devs drv) \<and> m = Some (link_sta_addr (devs drv ! i))"
  using assms by (auto simp: tgd_terra_find_net_device_by_mac_def split: option.splits dest: find_idx_Some)

lemma link_status_ok:
  assumes "dev_ok p" and "link_sta_addr p \<noteq> zero_mac"
  shows "dev_ok (snd (link_status_step new p))"
  using assms by (auto simp: dev_ok_def link_status_step_def split: tgLinkStatus.splits)

lemma link_status_addr [simp]: "link_sta_addr (snd (link_status_step new p)) = link_sta_addr p"
  by (simp add: link_status_step_def split: tgLinkStatus.splits)

lemma table_ok_set_status:
  assumes "table_ok drv" and "m \<noteq> Some zero_mac"
  shows "table_ok (snd (tgd_terra_set_link_status m new drv))"
proof (cases "tgd_terra_find_net_device_by_mac drv m")
  case None
  then show ?thesis using assms by (simp add: tgd_terra_set_link_status_def)
next
  case (Some i)
  have i: "i < length (devs drv)" "link_sta_addr (devs drv ! i) \<noteq> zero_mac"
    using find_mac_Some [OF Some] assms(2) by auto
  have "dev_ok (devs drv ! i)" using assms(1) i(1) by (rule table_ok_nth)
  then have "table_ok (upd_dev i (snd \<circ> link_status_step new) drv)"
    using assms(1) i by (intro table_ok_upd) (simp_all add: link_status_ok)
  then show ?thesis using Some by (simp add: tgd_terra_set_link_status_def table_ok_def)
qed

lemma table_ok_del_link:
  "table_ok drv \<Longrightarrow> table_ok (snd (tgd_terra_del_link_info ops cpu m drv))"
  by (auto simp: tgd_terra_del_link_info_def table_ok_del dest: find_mac_Some split: option.splits)

section \<open>Reservation of a device\<close>

text \<open>The order the comments of \<open>tgd_terra_dev_reserve\<close> ask for: among the inactive devices, one
  used for this peer before, then one never used, then any.\<close>

definition reserve_spec :: "mac \<Rightarrow> dev_priv list \<Rightarrow> nat option" where
  "reserve_spec a ds =
     (case find_idx (\<lambda>p. link_state p = TG_LINKINIT \<and> link_sta_addr p = a) ds of
        Some i \<Rightarrow> Some i
      | None \<Rightarrow>
          (case find_idx (\<lambda>p. link_state p = TG_LINKINIT \<and> link_sta_addr p = zero_mac) ds of
             Some i \<Rightarrow> Some i
           | None \<Rightarrow> find_idx (\<lambda>p. link_state p = TG_LINKINIT) ds))"

lemma find_idx_all_None: "(\<And>x. x \<in> set xs \<Longrightarrow> \<not> P x) \<Longrightarrow> find_idx P xs = None"
  by (simp add: find_idx_None)

lemma map_option_plus:
  "map_option ((+) (Suc i)) z = map_option (\<lambda>x. Suc (i + x)) z" "map_option ((+) (0 :: nat)) y = y"
  by (cases z; simp) (cases y; simp)

lemma reserve_scan_eq:
  assumes "zeros_last (map link_sta_addr ds)" and "a \<noteq> zero_mac"
  shows "reserve_scan a i avail ds =
    (case find_idx (\<lambda>p. link_state p = TG_LINKINIT \<and> link_sta_addr p = a) ds of
       Some k \<Rightarrow> Some (i + k)
     | None \<Rightarrow>
         (case find_idx (\<lambda>p. link_state p = TG_LINKINIT \<and> link_sta_addr p = zero_mac) ds of
            Some k \<Rightarrow> Some (i + k)
          | None \<Rightarrow> (case avail of Some v \<Rightarrow> Some v
                    | None \<Rightarrow> map_option ((+) i) (find_idx (\<lambda>p. link_state p = TG_LINKINIT) ds))))"
  using assms
proof (induction ds arbitrary: i avail)
  case (Cons p ds)
  consider "link_state p \<noteq> TG_LINKINIT"
    | "link_state p = TG_LINKINIT" "link_sta_addr p = a"
    | "link_state p = TG_LINKINIT" "link_sta_addr p \<noteq> a" "link_sta_addr p = zero_mac"
    | "link_state p = TG_LINKINIT" "link_sta_addr p \<noteq> a" "link_sta_addr p \<noteq> zero_mac" by blast
  then show ?case
  proof cases
    case 1
    with Cons show ?thesis
      by (auto simp: comp_def option.map_comp map_option_plus split: option.splits)
  next
    case 2
    then show ?thesis by simp
  next
    case 3
    then have "find_idx (\<lambda>p. link_state p = TG_LINKINIT \<and> link_sta_addr p = a) ds = None"
      using Cons.prems by (intro find_idx_all_None) auto
    with 3 show ?thesis by simp
  next
    case 4
    with Cons show ?thesis by (auto split: option.splits)
  qed
qed (simp split: option.splits)

lemma reserve_scan_spec:
  assumes "zeros_last (map link_sta_addr ds)" and "a \<noteq> zero_mac"
  shows "reserve_scan a 0 None ds = reserve_spec a ds"
  unfolding reserve_scan_eq [OF assms] reserve_spec_def by (simp add: map_option_plus split: option.splits)

lemma reserve_scan_init:
  assumes "zeros_last (map link_sta_addr ds)" and "a \<noteq> zero_mac" and "reserve_scan a 0 None ds = Some i"
  shows "i < length ds \<and> link_state (ds ! i) = TG_LINKINIT"
  using assms(3) unfolding reserve_scan_spec [OF assms(1,2)] reserve_spec_def
  by (auto split: option.splits dest: find_idx_Some)

text \<open>The address of the reserved device may change; the unused devices stay at the end.\<close>

lemma zeros_last_update:
  assumes "zeros_last ms" and "a \<noteq> zero_mac"
    and "i < length ms" and "\<forall>j < i. ms ! j \<noteq> zero_mac"
  shows "zeros_last (ms[i := a])"
  using assms
proof (induction ms arbitrary: i)
  case (Cons m ms)
  then show ?case
  proof (cases i)
    case (Suc k)
    have "m \<noteq> zero_mac" using Cons.prems(4) Suc by force
    moreover have "\<forall>j < k. ms ! j \<noteq> zero_mac" using Cons.prems(4) Suc by force
    ultimately show ?thesis using Cons Suc by simp
  qed simp
qed simp

lemma zeros_last_later:
  "zeros_last ms \<Longrightarrow> j < i \<Longrightarrow> i < length ms \<Longrightarrow> ms ! j = zero_mac \<Longrightarrow> ms ! i = zero_mac"
proof (induction ms arbitrary: i j)
  case (Cons m ms)
  obtain k where k: "i = Suc k" "k < length ms" using Cons.prems by (cases i) auto
  show ?case
  proof (cases j)
    case 0
    then have "\<forall>x \<in> set ms. x = zero_mac" using Cons.prems(1,4) by simp
    then show ?thesis using k by simp
  next
    case (Suc l)
    then show ?thesis using Cons.IH [of l k] Cons.prems k by simp
  qed
qed simp

lemma reserve_no_zero_before:
  assumes "table_ok drv" and "a \<noteq> zero_mac" and "reserve_scan a 0 None (devs drv) = Some i" and "j < i"
  shows "link_sta_addr (devs drv ! j) \<noteq> zero_mac"
proof
  assume z: "link_sta_addr (devs drv ! j) = zero_mac"
  have zl: "zeros_last (map link_sta_addr (devs drv))" using assms(1) by (simp add: table_ok_def)
  have i: "i < length (devs drv)" using reserve_scan_init [OF zl assms(2,3)] by simp
  have iz: "link_sta_addr (devs drv ! i) = zero_mac"
    using zeros_last_later [OF zl assms(4)] i z assms(4) by simp
  have "dev_ok (devs drv ! j)" using assms(1) i assms(4) by (intro table_ok_nth) auto
  then have jz: "link_state (devs drv ! j) = TG_LINKINIT" using z by (simp add: dev_ok_def)
  let ?Z = "\<lambda>p. link_state p = TG_LINKINIT \<and> link_sta_addr p = zero_mac"
  have spec: "reserve_spec a (devs drv) = Some i"
    using assms(3) unfolding reserve_scan_spec [OF zl assms(2)] .
  have "devs drv ! j \<in> set (devs drv)" using assms(4) i by simp
  then have "find_idx ?Z (devs drv) \<noteq> None" using jz z unfolding find_idx_None by blast
  then have "find_idx ?Z (devs drv) = Some i"
  proof (cases "find_idx (\<lambda>p. link_state p = TG_LINKINIT \<and> link_sta_addr p = a) (devs drv)")
    case None
    then show ?thesis using spec \<open>find_idx ?Z (devs drv) \<noteq> None\<close> by (auto simp: reserve_spec_def)
  next
    case (Some k)
    then have "k = i" using spec by (simp add: reserve_spec_def)
    with find_idx_Some [OF Some] iz assms(2) show ?thesis by simp
  qed
  then have "\<not> ?Z (devs drv ! j)" using assms(4) by (blast dest: find_idx_Some)
  then show False using jz z by simp
qed

lemma table_ok_reserve:
  assumes "table_ok drv" and "a \<noteq> zero_mac" and "length a = 6"
  shows "table_ok (snd (tgd_terra_dev_reserve a drv))"
proof (cases "reserve_scan a 0 None (devs drv)")
  case None
  then show ?thesis using assms by (simp add: tgd_terra_dev_reserve_def)
next
  case (Some i)
  have zl: "zeros_last (map link_sta_addr (devs drv))" using assms(1) by (simp add: table_ok_def)
  have i: "i < length (devs drv)" "link_state (devs drv ! i) = TG_LINKINIT"
    using reserve_scan_init [OF zl assms(2) Some] by auto
  let ?p = "(devs drv ! i)\<lparr>link_sta_addr := a\<rparr>"
  have "dev_ok (devs drv ! i)" using assms(1) i(1) by (rule table_ok_nth)
  then have p: "dev_ok ?p" using i(2) assms(3) by (auto simp: dev_ok_def)
  have "zeros_last ((map link_sta_addr (devs drv))[i := a])"
    using zl assms(2) i(1) reserve_no_zero_before [OF assms(1,2) Some] by (intro zeros_last_update) auto
  moreover have "\<forall>q \<in> set ((devs drv)[i := ?p]). dev_ok q"
    using assms(1) p by (auto simp: table_ok_def dest: set_update_subset_insert [THEN subsetD])
  ultimately show ?thesis
    using Some by (simp add: tgd_terra_dev_reserve_def upd_dev_def table_ok_def map_update)
qed

lemma reserve_result:
  assumes "table_ok drv" and "a \<noteq> zero_mac" and "tgd_terra_dev_reserve a drv = (Some i, drv')"
  shows "i < length (devs drv) \<and> link_state (devs drv ! i) = TG_LINKINIT \<and>
         drv' = upd_dev i (\<lambda>p. p\<lparr>link_sta_addr := a\<rparr>) drv"
  using assms(3) reserve_scan_init [of "devs drv" a i] assms(1,2)
  by (auto simp: tgd_terra_dev_reserve_def table_ok_def split: option.splits)

text \<open>The device a new link goes to, and what becomes of it.\<close>

lemma set_link_mac_addr_devs:
  assumes "table_ok drv" and "a \<noteq> zero_mac" and "tgd_terra_dev_reserve a drv = (Some i, drv')"
  shows "devs (tgd_terra_set_link_mac_addr ops a rx tx drv) =
           (devs drv)[i := (devs drv ! i)\<lparr>link_sta_addr := a, link_state := TG_LINKDOWN,
                                         rx_link := uint rx, tx_link := uint tx\<rparr>]"
  using reserve_result [OF assms] assms(3)
  by (simp add: tgd_terra_set_link_mac_addr_def fb_tgd_bh_add_links_info_def upd_dev_def Let_def)

lemma uint_u8_less: "uint (x :: u8) < 256"
  using uint_lt2p [of x] by simp

lemma table_ok_set_link_mac:
  assumes "table_ok drv" and "a \<noteq> zero_mac" and "length a = 6"
  shows "table_ok (tgd_terra_set_link_mac_addr ops a rx tx drv)"
proof -
  obtain r drv' where r: "tgd_terra_dev_reserve a drv = (r, drv')" by fastforce
  show ?thesis
  proof (cases r)
    case None
    then have "drv' = drv" using r by (simp add: tgd_terra_dev_reserve_def split: option.splits)
    then show ?thesis using None r assms by (simp add: tgd_terra_set_link_mac_addr_def)
  next
    case (Some i)
    let ?f = "\<lambda>p. p\<lparr>link_state := TG_LINKDOWN, rx_link := uint rx, tx_link := uint tx\<rparr>"
    have res: "i < length (devs drv)" "drv' = upd_dev i (\<lambda>p. p\<lparr>link_sta_addr := a\<rparr>) drv"
      using reserve_result [OF assms(1,2)] r Some by auto
    have ok': "table_ok drv'" using table_ok_reserve [OF assms] r by simp
    have i': "i < length (devs drv')" using res by (simp add: len_simps)
    have p': "dev_ok (devs drv' ! i)" "link_sta_addr (devs drv' ! i) = a"
      using table_ok_nth [OF ok' i'] res by (simp_all add: upd_dev_nth)
    have "table_ok (upd_dev i ?f drv')"
      using ok' i' p' assms(2) by (intro table_ok_upd) (auto simp: dev_ok_def uint_u8_less)
    moreover have "devs (tgd_terra_set_link_mac_addr ops a rx tx drv) = devs (upd_dev i ?f drv')"
      using set_link_mac_addr_devs [OF assms(1,2)] r Some res by (simp add: upd_dev_def)
    ultimately show ?thesis by (simp add: table_ok_def)
  qed
qed

lemma table_ok_create:
  assumes "table_ok drv"
  shows "table_ok (snd (tgd_terra_create_device ret ncpu mtu0 nv idx peer drv))"
proof -
  have "zeros_last ms \<Longrightarrow> zeros_last (ms @ [zero_mac])" for ms by (induction ms) auto
  then show ?thesis using assms by (simp add: tgd_terra_create_device_def table_ok_def dev_ok_def zero_mac_def)
qed

lemma table_ok_if_mac: "table_ok drv \<Longrightarrow> table_ok (tgd_set_if_mac_addr a drv)"
  by (simp add: tgd_set_if_mac_addr_def table_ok_def comp_def dev_ok_def)

section \<open>Conservation of the counters\<close>

definition dev_total :: "terra_stats \<Rightarrow> dev_priv \<Rightarrow> u64" where
  "dev_total k p = (\<Sum>t\<leftarrow>pcpu_stats p. t k)"

lemma dev_total_inc:
  assumes "cpu < length (pcpu_stats p)"
  shows "dev_total k (terra_dev_stats_inc cpu j n p) = dev_total k p + (if k = j then n else 0)"
proof -
  let ?t = "pcpu_stats p ! cpu"
  have "dev_total k (terra_dev_stats_inc cpu j n p) + ?t k = dev_total k p + (?t(j := ?t j + n)) k"
    using sum_list_map_update [OF assms, of "\<lambda>t. t k"] by (simp add: dev_total_def terra_dev_stats_inc_def)
  then have "dev_total k (terra_dev_stats_inc cpu j n p) + ?t k =
      (dev_total k p + (if k = j then n else 0)) + ?t k" by (simp add: ac_simps)
  then show ?thesis by simp
qed

lemma dev_total_cong: "pcpu_stats p = pcpu_stats q \<Longrightarrow> dev_total k p = dev_total k q"
  by (simp add: dev_total_def)

lemma fold_add_pcpu:
  "fold add_pcpu ts s = s\<lparr>pkts_sent := pkts_sent s + (\<Sum>t\<leftarrow>ts. t TX_PACKETS),
     bytes_sent := bytes_sent s + (\<Sum>t\<leftarrow>ts. t TX_BYTES),
     pkts_recved := pkts_recved s + (\<Sum>t\<leftarrow>ts. t RX_PACKETS),
     bytes_recved := bytes_recved s + (\<Sum>t\<leftarrow>ts. t RX_BYTES),
     tx_err := tx_err s + (\<Sum>t\<leftarrow>ts. t TX_ERR)\<rparr>"
  by (induction ts arbitrary: s) (simp_all add: add_pcpu_def ac_simps)

lemma stats64_eq:
  "fst (tgd_terra_stats64 ops ctx qd p) =
     (let s = link_stats (tgd_terra_update_link_stats ops ctx p)
      in \<lparr>rx_packets64 = pkts_recved s + dev_total RX_PACKETS p,
          tx_packets64 = pkts_sent s + dev_total TX_PACKETS p,
          rx_bytes64 = bytes_recved s + dev_total RX_BYTES p,
          tx_bytes64 = bytes_sent s + dev_total TX_BYTES p,
          tx_errors64 = tx_err s + dev_total TX_ERR p\<rparr>)"
  by (simp add: tgd_terra_stats64_def tgd_terra_get_net_if_stat_def tgd_terra_link_stats_def Let_def
      split_def fold_add_pcpu dev_total_def)

lemma spill_total:
  assumes "cpu < length (pcpu_stats p)"
  shows "dev_total k (spill_stats cpu p) = dev_total k p +
     (let s = link_stats p in
      (if k = RX_BYTES then bytes_recved s else if k = RX_PACKETS then pkts_recved s
       else if k = TX_BYTES then bytes_sent s else if k = TX_PACKETS then pkts_sent s
       else if k = TX_ERR then tx_err s else 0))"
proof -
  have "dev_total k (spill_stats cpu p) = dev_total k
      ((terra_dev_stats_inc cpu RX_BYTES (bytes_recved (link_stats p)) \<circ>
       terra_dev_stats_inc cpu RX_PACKETS (pkts_recved (link_stats p)) \<circ>
       terra_dev_stats_inc cpu TX_BYTES (bytes_sent (link_stats p)) \<circ>
       terra_dev_stats_inc cpu TX_PACKETS (pkts_sent (link_stats p)) \<circ>
       terra_dev_stats_inc cpu TX_ERR (tx_err (link_stats p))) p)"
    by (simp add: spill_stats_def Let_def dev_total_def)
  then show ?thesis using assms by (simp add: dev_total_inc Let_def)
qed

lemma update_link_stats_invalid [simp]:
  "tx_link p < 0 \<Longrightarrow> tgd_terra_update_link_stats ops ctx p = p"
  by (simp add: tgd_terra_update_link_stats_def split: option.splits)

text \<open>
  Deleting a link loses no traffic count: the interface statistics read after the link is gone
  are those read before, since the counters of the link move to the device, on whatever CPU the
  deletion runs and whether or not the vendor driver still answers.
\<close>

theorem terra_stats_conserved:
  assumes "i < length (devs drv)" and "cpu < length (pcpu_stats (devs drv ! i))"
  shows "let drv' = fb_tgd_bh_del_links_info ops cpu i drv
         in fst (tgd_terra_stats64 ops (bh_ctx drv') qd (devs drv' ! i)) =
            fst (tgd_terra_stats64 ops (bh_ctx drv) qd (devs drv ! i)) \<and>
            link_stats (devs drv' ! i) = zero_stats"
proof -
  define u where "u = tgd_terra_update_link_stats ops (bh_ctx drv) (devs drv ! i)"
  define v where "v = u\<lparr>tx_link := TGD_LINK_INVALID, rx_link := TGD_LINK_INVALID, link_state := TG_LINKINIT\<rparr>"
  define w where "w = spill_stats cpu v"
  have w: "devs (fb_tgd_bh_del_links_info ops cpu i drv) ! i = w"
    using assms(1) by (simp add: del_links_info_devs w_def v_def u_def)
  have t: "dev_total k v = dev_total k (devs drv ! i)" for k
    by (rule dev_total_cong) (simp add: v_def u_def)
  have "cpu < length (pcpu_stats v)" using assms(2) by (simp add: v_def u_def)
  then have tot: "dev_total k w = dev_total k (devs drv ! i) +
     (let s = link_stats u in
      (if k = RX_BYTES then bytes_recved s else if k = RX_PACKETS then pkts_recved s
       else if k = TX_BYTES then bytes_sent s else if k = TX_PACKETS then pkts_sent s
       else if k = TX_ERR then tx_err s else 0))" for k
    using spill_total [of cpu v k] by (simp add: w_def t) (simp add: v_def)
  have upd: "tgd_terra_update_link_stats ops c w = w" for c
    by (rule update_link_stats_invalid) (simp add: w_def v_def)
  have z: "link_stats w = zero_stats" by (simp add: w_def)
  show ?thesis
    unfolding Let_def w stats64_eq upd z tot u_def [symmetric] by (simp add: zero_stats_def ac_simps)
qed

section \<open>Addresses\<close>

lemma mac_byte:
  fixes a b c d e f :: u8
  defines "v \<equiv> push_bit 40 (ucast a) OR push_bit 32 (ucast b) OR push_bit 24 (ucast c) OR
     push_bit 16 (ucast d) OR push_bit 8 (ucast e) OR ucast f :: u64"
  shows "ucast (drop_bit 40 v AND 0xFF) = a" "ucast (drop_bit 32 v AND 0xFF) = b"
    "ucast (drop_bit 24 v AND 0xFF) = c" "ucast (drop_bit 16 v AND 0xFF) = d"
    "ucast (drop_bit 8 v AND 0xFF) = e" "ucast (v AND 0xFF) = f"
proof -
  have m: "(0xFF :: u64) = mask 8" by (simp add: mask_eq_exp_minus_1)
  have z: "\<not> bit x n" if "8 \<le> n" for x :: u8 and n using that by (simp add: bit_word.abs_eq impossible_bit)
  show "ucast (drop_bit 40 v AND 0xFF) = a" "ucast (drop_bit 32 v AND 0xFF) = b"
    "ucast (drop_bit 24 v AND 0xFF) = c" "ucast (drop_bit 16 v AND 0xFF) = d"
    "ucast (drop_bit 8 v AND 0xFF) = e" "ucast (v AND 0xFF) = f"
    unfolding m v_def by (rule bit_word_eqI; simp add: bit_simps z)+
qed

text \<open>
  The two encodings of an address agree: the number of an address of six bytes, by which user
  space names a radio and a peer, converts back to the address, so that two radios with different
  addresses have different keys.
\<close>

theorem terra_macaddr_roundtrip:
  assumes "length m = 6"
  shows "TGD_CONVERT_LONG_TO_MACADDR (TGD_CONVERT_MACADDR_TO_LONG m) = m"
proof -
  obtain a b c d e f where m: "m = [a, b, c, d, e, f]"
    using assms by (auto simp: numeral_eq_Suc length_Suc_conv)
  show ?thesis
    using mac_byte [of a b c d e f]
    by (simp add: m TGD_CONVERT_LONG_TO_MACADDR_def TGD_CONVERT_MACADDR_TO_LONG_def numeral_2_eq_2
        numeral_3_eq_3)
qed

end
