(* ===== verification/TerraPort.thy ===== *)
theory TerraPort
  imports TerraLink
begin

text \<open>
  Link security of the Terragraph wireless driver (\<open>fb_terragraph/fb_tgd_cfg80211.c\<close>): the interface
  to cfg80211, by which the supplicant and the authenticator of user space secure a link. The port
  of a device is closed (\<open>pae_closed\<close>) until the four-way handshake is done, and a key of the
  supplicant is given to the radio only once its last message has left.

  Calls into cfg80211, and messages to user space and firmware, are appended to \<open>wiphy_events\<close>; the
  BSS the kernel keeps for the device is the field \<open>current_bss\<close>, which only the kernel changes.
  Reads of received bytes outside of the event or frame are the value \<open>None\<close>.
\<close>

abbreviation ENODEV :: int where "ENODEV \<equiv> 19"
abbreviation ENOLINK :: int where "ENOLINK \<equiv> 67"
abbreviation EIO :: int where "EIO \<equiv> 5"
abbreviation EOPNOTSUPP :: int where "EOPNOTSUPP \<equiv> 95"

abbreviation TGD_MIN_RSN_IE_SIZE :: nat where "TGD_MIN_RSN_IE_SIZE \<equiv> 22"
abbreviation TGD_MAX_RSN_IE_SIZE :: nat where "TGD_MAX_RSN_IE_SIZE \<equiv> 48"
abbreviation TGD_MAX_KEY_IX :: nat where "TGD_MAX_KEY_IX \<equiv> 4"
abbreviation TGD_MAX_KEY_LEN :: nat where "TGD_MAX_KEY_LEN \<equiv> 64"
abbreviation TGD_M4_MAX_DELAY_CNT :: u8 where "TGD_M4_MAX_DELAY_CNT \<equiv> 13"
abbreviation WLAN_EID_RSN :: u8 where "WLAN_EID_RSN \<equiv> 48"

section \<open>Port and notifications\<close>

definition upd_wiphy :: "(wiphy_priv \<Rightarrow> wiphy_priv) \<Rightarrow> dev_priv \<Rightarrow> dev_priv" where
  "upd_wiphy f p = p\<lparr>wiphy := f (wiphy p)\<rparr>"

definition notify :: "wiphy_event list \<Rightarrow> dev_priv \<Rightarrow> dev_priv" where
  "notify es = upd_wiphy (\<lambda>w. w\<lparr>wiphy_events := wiphy_events w @ es\<rparr>)"

definition tgd_wiphy_pae_get_authorized :: "dev_priv \<Rightarrow> bool" where
  "tgd_wiphy_pae_get_authorized p \<longleftrightarrow> \<not> pae_closed p"

definition tgd_wiphy_pae_set_authorized :: "bool \<Rightarrow> dev_priv \<Rightarrow> dev_priv" where
  "tgd_wiphy_pae_set_authorized authorized p =
     (if (\<not> authorized) = pae_closed p then p else p\<lparr>pae_closed := \<not> authorized\<rparr>)"

definition tgd_cfg80211_disauth :: "dev_priv \<Rightarrow> dev_priv" where
  "tgd_cfg80211_disauth = tgd_wiphy_pae_set_authorized False"

definition cfg80211_disassoc :: "dev_priv \<Rightarrow> dev_priv" where
  "cfg80211_disassoc p =
     (if tg_connected (wiphy p) then notify [Disassoc_req (pmac (wiphy p))] p else p)"

text \<open>The flush asserts that the device is not an access point.\<close>

definition tgd_cfg80211_scan_flush :: "dev_priv \<Rightarrow> dev_priv option" where
  "tgd_cfg80211_scan_flush p =
     (if ap_started (wiphy p) then None else Some (notify [Unlink_bss (pmac (wiphy p))] p))"

definition tgd_cfg80211_notify_disconnect :: "dev_priv \<Rightarrow> dev_priv option" where
  "tgd_cfg80211_notify_disconnect p =
     (if \<not> ap_started (wiphy p)
      then do { p \<leftarrow> tgd_cfg80211_scan_flush p; Some (notify [Disconnected] p) }
      else Some (notify [Del_sta (pmac (wiphy p))] p))"

definition tgd_cfg80211_notify_connect :: "dev_priv \<Rightarrow> dev_priv" where
  "tgd_cfg80211_notify_connect p =
     (let w = wiphy p in
      if current_bss w then p
      else if \<not> ap_started w
      then notify [Connect_result (pmac w) (take (supp_rsnie_len w) (supp_rsnie w))
                     (take (auth_rsnie_len w) (auth_rsnie w))] p
      else notify [New_sta (pmac w) (sinfo_gen w) (take (supp_rsnie_len w) (supp_rsnie w))]
             (upd_wiphy (\<lambda>w. w\<lparr>sinfo_gen := sinfo_gen w + 1\<rparr>) p))"

section \<open>Information elements\<close>

text \<open>The first RSN element among the bytes from \<open>ies\<close> up to \<open>ies_end\<close> of an event: whether it is
  valid, and where it starts.\<close>

function tgd_cfg80211_find_rsnie :: "u8 list \<Rightarrow> nat \<Rightarrow> nat \<Rightarrow> (bool \<times> nat option) option" where
  "tgd_cfg80211_find_rsnie ev ies ies_end =
     (if ies < ies_end then
        if ies_end < ies + 2 then Some (False, None)
        else do {
          h \<leftarrow> mem_read ies 2 ev;
          let ie_tot_len = unat (h ! 1) + 2;
          if h ! 0 \<noteq> WLAN_EID_RSN then tgd_cfg80211_find_rsnie ev (ies + (unat (h ! 1) + 2)) ies_end
          else if ies_end < ie_tot_len + ies then Some (False, Some ies)
          else if ie_tot_len < TGD_MIN_RSN_IE_SIZE \<or> TGD_MAX_RSN_IE_SIZE < ie_tot_len
          then Some (False, Some ies)
          else Some (True, Some ies)
        }
      else Some (False, None))"
  by auto
termination by (relation "measure (\<lambda>(ev, ies, ies_end). ies_end - ies)") auto

declare tgd_cfg80211_find_rsnie.simps [simp del]

text \<open>The association request comes from the authenticator, the response from the supplicant.
  Elements that are not valid are dropped. The result is (supplicant, authenticator).\<close>

definition tgd_cfg80211_parse_rsnies ::
  "u8 list \<Rightarrow> nat \<Rightarrow> u8 \<Rightarrow> u8 \<Rightarrow> (nat option \<times> nat option) option" where
  "tgd_cfg80211_parse_rsnies ev ies assocReqIeLen assocRespIeLen = do {
     (auth_valid, auth) \<leftarrow> tgd_cfg80211_find_rsnie ev ies (ies + unat assocReqIeLen);
     (supp_valid, supp) \<leftarrow> tgd_cfg80211_find_rsnie ev (ies + unat assocReqIeLen)
                              (ies + unat assocReqIeLen + unat assocRespIeLen);
     Some (if supp_valid then supp else None, if auth_valid then auth else None)
   }"

text \<open>An element is copied to a buffer of 48 bytes; its length is the second byte plus two, kept in
  a byte.\<close>

definition copy_rsnie :: "u8 list \<Rightarrow> nat option \<Rightarrow> u8 list \<Rightarrow> (nat \<times> u8 list) option" where
  "copy_rsnie ev ie buf =
     (case ie of
        None \<Rightarrow> Some (0, buf)
      | Some off \<Rightarrow> do {
          l \<leftarrow> mem_read (off + 1) 1 ev;
          let n = unat (l ! 0 + 2);
          bs \<leftarrow> mem_read off n ev;
          buf' \<leftarrow> mem_write 0 bs buf;
          Some (n, buf')
        })"

definition tgd_cfg80211_update_rsnie_info ::
  "u8 list \<Rightarrow> nat option \<Rightarrow> nat option \<Rightarrow> tgWsecAuthType \<Rightarrow> dev_priv \<Rightarrow> dev_priv option" where
  "tgd_cfg80211_update_rsnie_info ev supp auth wsec p = do {
     (sl, sb) \<leftarrow> copy_rsnie ev supp (supp_rsnie (wiphy p));
     (al, ab) \<leftarrow> copy_rsnie ev auth (auth_rsnie (wiphy p));
     Some (upd_wiphy (\<lambda>w. w\<lparr>supp_rsnie_len := sl, supp_rsnie := sb, auth_rsnie_len := al,
                             auth_rsnie := ab, wsec_auth := wsec\<rparr>) p)
   }"

section \<open>Events of the radio link\<close>

text \<open>The end of a connect event: the peer is recorded, and the port is closed when the four-way
  handshake has to come first.\<close>

definition connect_port :: "mac \<Rightarrow> tgWsecAuthType \<Rightarrow> dev_priv \<Rightarrow> dev_priv" where
  "connect_port peer wsec p =
     (let p = upd_wiphy (\<lambda>w. w\<lparr>pmac := peer, tg_connected := True\<rparr>) p;
          p = (if wsec \<noteq> TGF_WSEC_DISABLE
               then (let p = tgd_wiphy_pae_set_authorized False p
                     in if \<not> ap_started (wiphy p) then p\<lparr>m4_pending := True\<rparr> else p)
               else tgd_wiphy_pae_set_authorized True p)
      in if ap_started (wiphy p) then tgd_cfg80211_notify_connect p else p)"

definition tgd_cfg80211_evt_tg_connect ::
  "u8 list \<Rightarrow> nat \<Rightarrow> mac \<Rightarrow> u8 \<Rightarrow> u8 \<Rightarrow> tgWsecAuthType \<Rightarrow> dev_priv \<Rightarrow> dev_priv option" where
  "tgd_cfg80211_evt_tg_connect ev ies peer reqLen respLen wsec p = do {
     (supp, auth) \<leftarrow> tgd_cfg80211_parse_rsnies ev ies reqLen respLen;
     if tg_connected (wiphy p) \<and> wsec_auth (wiphy p) = wsec \<and> pmac (wiphy p) = peer then Some p
     else do {
       p \<leftarrow> (if tg_connected (wiphy p)
             then tgd_cfg80211_notify_disconnect (upd_wiphy (\<lambda>w. w\<lparr>tg_connected := False\<rparr>) p)
             else Some p);
       p \<leftarrow> tgd_cfg80211_update_rsnie_info ev supp auth wsec p;
       Some (connect_port peer wsec p)
     }
   }"

definition tgd_cfg80211_evt_tg_disconnect :: "dev_priv \<Rightarrow> dev_priv option" where
  "tgd_cfg80211_evt_tg_disconnect p =
     (if \<not> tg_connected (wiphy p) then Some p
      else do {
        p \<leftarrow> tgd_cfg80211_notify_disconnect (upd_wiphy (\<lambda>w. w\<lparr>tg_connected := False\<rparr>) p);
        Some (if wsec_auth (wiphy p) \<noteq> TGF_WSEC_DISABLE
              then upd_wiphy (\<lambda>w. w\<lparr>m4_sent := False, wsec_auth := TGF_WSEC_DISABLE\<rparr>)
                     (tgd_wiphy_pae_set_authorized False p)
              else p)
      })"

section \<open>Keys\<close>

definition tgd_cfg80211_set_key ::
  "'b bh_ops \<Rightarrow> nat \<Rightarrow> u8 list \<Rightarrow> 'b terra_driver \<Rightarrow> int \<times> 'b terra_driver" where
  "tgd_cfg80211_set_key ops i key drv =
     fb_tgd_bh_set_key ops (devs drv ! i) (pmac (wiphy (devs drv ! i))) key drv"

text \<open>The delayed work; \<open>key_work_queued\<close> tells whether it is pending.\<close>

definition tgd_set_key_worker :: "'b bh_ops \<Rightarrow> nat \<Rightarrow> 'b terra_driver \<Rightarrow> 'b terra_driver" where
  "tgd_set_key_worker ops i drv =
     (let drv1 = upd_dev i (upd_wiphy (\<lambda>w. w\<lparr>key_work_queued := False,
                                             m4_delay_cnt := m4_delay_cnt w + 1\<rparr>)) drv;
          p = devs drv1 ! i; w = wiphy p
      in if tgd_link_pkts_pending ops (bh_ctx drv1) p \<noteq> 0 \<and> m4_delay_cnt w < TGD_M4_MAX_DELAY_CNT
         then upd_dev i (upd_wiphy (\<lambda>w. w\<lparr>key_work_queued := True\<rparr>)) drv1
         else snd (tgd_cfg80211_set_key ops i (take (params_key_len w) (params_key w))
                (upd_dev i (\<lambda>p. p\<lparr>m4_pending := False\<rparr>) drv1)))"

definition tgd_cfg80211_evt_m4_sent :: "dev_priv \<Rightarrow> dev_priv" where
  "tgd_cfg80211_evt_m4_sent p =
     (if \<not> tg_connected (wiphy p) \<or> ap_started (wiphy p) then p
      else upd_wiphy (\<lambda>w. w\<lparr>m4_sent := True,
              key_work_queued := (if params_key_len w \<noteq> 0 then True else key_work_queued w)\<rparr>)
             (p\<lparr>m4_pending := False\<rparr>))"

text \<open>Recognition of the last message of the handshake. The length check uses the size of a pointer
  to the Ethernet header, eight bytes, instead of the size of the header.\<close>

definition tgd_cfg80211_is_4way_m4 :: "sk_buff \<Rightarrow> bool option" where
  "tgd_cfg80211_is_4way_m4 skb =
     (if sb_len skb < 8 + 4 + 5 then Some False
      else do {
        t \<leftarrow> mem_read (sb_data skb + 15) 1 (sb_head skb);
        if t ! 0 \<noteq> 3 then Some False
        else do {
          k \<leftarrow> mem_read (sb_data skb + 18) 1 (sb_head skb);
          if k ! 0 \<noteq> 254 \<and> k ! 0 \<noteq> 2 then Some False
          else do {
            b \<leftarrow> mem_read (sb_data skb + 19) 2 (sb_head skb);
            Some ((of_nat (be16 b) :: u16) AND (0x08 OR 0x800 OR 0x100 OR 0x400 OR 0x80 OR 0x200)
                    = 0x08 OR 0x100 OR 0x200)
          }
        }
      })"

record key_params =
  kp_key :: "u8 list"
  kp_cipher_gcmp :: bool

definition tgd_cfg80211_add_key ::
  "'b bh_ops \<Rightarrow> nat \<Rightarrow> nat \<Rightarrow> bool \<Rightarrow> mac \<Rightarrow> key_params \<Rightarrow> 'b terra_driver \<Rightarrow> int \<times> 'b terra_driver" where
  "tgd_cfg80211_add_key ops i key_index is_pairwise mac_addr params drv =
     (let p = devs drv ! i; w = wiphy p; klen = length (kp_key params) in
      if \<not> is_pairwise then (0, drv)
      else if TGD_MAX_KEY_IX < key_index then (- EINVAL, drv)
      else if \<not> kp_cipher_gcmp params then (- EINVAL, drv)
      else if \<not> tg_connected w \<or> pmac w \<noteq> mac_addr then (- ENODEV, drv)
      else if TGD_MAX_KEY_LEN < klen then (- EINVAL, drv)
      else
        let drv1 = (if \<not> ap_started w
                    then upd_dev i (upd_wiphy (\<lambda>w. w\<lparr>params_key_len := klen,
                           params_key := kp_key params @ drop klen (params_key w), m4_delay_cnt := 0\<rparr>)) drv
                    else drv)
        in if \<not> ap_started w \<and> (\<not> m4_sent w \<or> tgd_link_pkts_pending ops (bh_ctx drv1) (devs drv1 ! i) \<noteq> 0)
           then (0, upd_dev i (upd_wiphy (\<lambda>w. w\<lparr>key_work_queued := True\<rparr>)) drv1)
           else let (err, drv2) = tgd_cfg80211_set_key ops i (kp_key params) drv1
                in (if err \<noteq> 0 then - EIO else 0, drv2))"

definition tgd_cfg80211_del_key ::
  "'b bh_ops \<Rightarrow> nat \<Rightarrow> bool \<Rightarrow> 'b terra_driver \<Rightarrow> int \<times> 'b terra_driver" where
  "tgd_cfg80211_del_key ops i is_pairwise drv =
     (if \<not> is_pairwise then (0, drv)
      else
        let drv1 = upd_dev i (\<lambda>p. upd_wiphy (\<lambda>w. w\<lparr>m4_sent := False\<rparr>) (p\<lparr>m4_pending := False\<rparr>)) drv;
            drv2 = (if \<not> ap_started (wiphy (devs drv1 ! i))
                    then snd (tgd_cfg80211_set_key ops i []
                      (upd_dev i (upd_wiphy (\<lambda>w. w\<lparr>params_key_len := 0, key_work_queued := False,
                         params_key := replicate TGD_MAX_KEY_LEN 0\<rparr>)) drv1))
                    else drv1)
        in (0, upd_dev i (tgd_wiphy_pae_set_authorized False) drv2))"

section \<open>Requests of cfg80211\<close>

definition ssid_ie :: "u8 list" where
  "ssid_ie = [0, 10, 116, 101, 114, 114, 97, 103, 114, 97, 112, 104]"

definition tgd_cfg80211_scan_result :: "dev_priv \<Rightarrow> dev_priv option" where
  "tgd_cfg80211_scan_result p =
     (let w = wiphy p; ie = ssid_ie @ take (auth_rsnie_len w) (auth_rsnie w) in
      if ap_started w \<or> TGD_MAX_RSN_IE_SIZE + length ssid_ie < length ie then None
      else Some (notify [Inform_bss (pmac w) ie] p))"

definition tgd_cfg80211_scan :: "bool \<Rightarrow> dev_priv \<Rightarrow> (int \<times> dev_priv) option" where
  "tgd_cfg80211_scan is_station p =
     (if \<not> is_station then Some (- EOPNOTSUPP, p)
      else if \<not> tg_connected (wiphy p) then Some (- ENOLINK, p)
      else do { p \<leftarrow> tgd_cfg80211_scan_result p; Some (0, p) })"

definition tgd_cfg80211_connect :: "dev_priv \<Rightarrow> int \<times> dev_priv" where
  "tgd_cfg80211_connect p =
     (if \<not> tg_connected (wiphy p) then (- ENOLINK, p) else (0, tgd_cfg80211_notify_connect p))"

definition tgd_cfg80211_disconnect :: "dev_priv \<Rightarrow> int \<times> dev_priv" where
  "tgd_cfg80211_disconnect p =
     (if \<not> tg_connected (wiphy p) then (0, p)
      else (0, cfg80211_disassoc (tgd_cfg80211_disauth (notify [Disconnected] p))))"

definition tgd_cfg80211_start_ap :: "dev_priv \<Rightarrow> dev_priv" where
  "tgd_cfg80211_start_ap p =
     (let p = upd_wiphy (\<lambda>w. w\<lparr>ap_started := True\<rparr>) p
      in if tg_connected (wiphy p) then tgd_cfg80211_notify_connect p else p)"

definition tgd_cfg80211_stop_ap :: "dev_priv \<Rightarrow> dev_priv" where
  "tgd_cfg80211_stop_ap = upd_wiphy (\<lambda>w. w\<lparr>ap_started := False\<rparr>)"

definition tgd_cfg80211_del_station :: "dev_priv \<Rightarrow> dev_priv" where
  "tgd_cfg80211_del_station p = cfg80211_disassoc (tgd_cfg80211_disauth p)"

text \<open>The two bits of the station flags the code looks at: whether the authorized flag is in the
  mask, and whether it is set.\<close>

definition tgd_cfg80211_change_station :: "mac \<Rightarrow> bool \<Rightarrow> bool \<Rightarrow> dev_priv \<Rightarrow> dev_priv" where
  "tgd_cfg80211_change_station m in_mask authorized p =
     (if m = zero_mac then p
      else if \<not> in_mask then p
      else if authorized then notify [Wsec_linkup] (tgd_wiphy_pae_set_authorized True p)
      else tgd_wiphy_pae_set_authorized False p)"

section \<open>Bounds of the information elements\<close>

definition wiphy_ok :: "wiphy_priv \<Rightarrow> bool" where
  "wiphy_ok w \<longleftrightarrow> length (supp_rsnie w) = 48 \<and> length (auth_rsnie w) = 48 \<and>
     supp_rsnie_len w \<le> 48 \<and> auth_rsnie_len w \<le> 48 \<and>
     length (params_key w) = 64 \<and> params_key_len w \<le> 64"

text \<open>An RSN element that lies completely in the event and fits the buffer.\<close>

definition rsnie_at :: "u8 list \<Rightarrow> nat \<Rightarrow> bool" where
  "rsnie_at ev off \<longleftrightarrow> off + 2 \<le> length ev \<and> ev ! off = WLAN_EID_RSN \<and>
     22 \<le> unat (ev ! (off + 1)) + 2 \<and> unat (ev ! (off + 1)) + 2 \<le> 48 \<and>
     off + (unat (ev ! (off + 1)) + 2) \<le> length ev"

lemma mem_read_2: "off + 2 \<le> length ev \<Longrightarrow> mem_read off 2 ev = Some [ev ! off, ev ! (off + 1)]"
  by (simp add: mem_read_def numeral_2_eq_2 take_Suc_conv_app_nth)

lemma mem_read_1: "off < length ev \<Longrightarrow> mem_read off 1 ev = Some [ev ! off]"
  by (simp add: mem_read_def take_Suc_conv_app_nth)

lemma find_rsnie_ok:
  assumes "ies_end \<le> length ev"
  shows "\<exists>v r. tgd_cfg80211_find_rsnie ev ies ies_end = Some (v, r) \<and>
               (v \<longrightarrow> (\<exists>off. r = Some off \<and> ies \<le> off \<and> rsnie_at ev off))"
  using assms
proof (induction ev ies ies_end rule: tgd_cfg80211_find_rsnie.induct)
  case (1 ev ies ies_end)
  show ?case
  proof (cases "ies < ies_end \<and> ies + 2 \<le> ies_end")
    case False
    then have "tgd_cfg80211_find_rsnie ev ies ies_end = Some (False, None)"
      by (auto simp: tgd_cfg80211_find_rsnie.simps [of ev ies ies_end])
    then show ?thesis by blast
  next
    case True
    let ?t = "unat (ev ! (ies + 1)) + 2"
    have rd: "mem_read ies 2 ev = Some [ev ! ies, ev ! (ies + 1)]"
      using True 1(2) by (intro mem_read_2) simp
    show ?thesis
    proof (cases "ev ! ies = WLAN_EID_RSN")
      case True
      then show ?thesis
        using rd \<open>ies < ies_end \<and> ies + 2 \<le> ies_end\<close> 1(2)
        by (auto simp: tgd_cfg80211_find_rsnie.simps [of ev ies ies_end] rsnie_at_def)
    next
      case False
      have "\<exists>v r. tgd_cfg80211_find_rsnie ev (ies + ?t) ies_end = Some (v, r) \<and>
               (v \<longrightarrow> (\<exists>off. r = Some off \<and> ies + ?t \<le> off \<and> rsnie_at ev off))"
        using 1(1) [OF _ _ rd refl] True False 1(2) by simp
      then show ?thesis
        using rd True False
        by (auto simp: tgd_cfg80211_find_rsnie.simps [of ev ies ies_end])
    qed
  qed
qed

lemma parse_rsnies_ok:
  assumes "ies + unat reqLen + unat respLen \<le> length ev"
  shows "\<exists>s a. tgd_cfg80211_parse_rsnies ev ies reqLen respLen = Some (s, a) \<and>
               (\<forall>off. s = Some off \<longrightarrow> rsnie_at ev off) \<and> (\<forall>off. a = Some off \<longrightarrow> rsnie_at ev off)"
proof -
  have l: "ies + unat reqLen \<le> length ev" using assms by simp
  from find_rsnie_ok [OF l, of ies] find_rsnie_ok [OF assms, of "ies + unat reqLen"]
  show ?thesis by (auto simp: tgd_cfg80211_parse_rsnies_def)
qed

lemma copy_rsnie_ok:
  assumes "\<forall>off. ie = Some off \<longrightarrow> rsnie_at ev off" and "length buf = 48"
  shows "\<exists>n b. copy_rsnie ev ie buf = Some (n, b) \<and> n \<le> 48 \<and> length b = 48 \<and>
               take n b = (case ie of None \<Rightarrow> [] | Some off \<Rightarrow> take (unat (ev ! (off + 1)) + 2) (drop off ev))"
proof (cases ie)
  case None
  then show ?thesis using assms by (simp add: copy_rsnie_def)
next
  case (Some off)
  with assms(1) have at: "rsnie_at ev off" by simp
  let ?n = "unat (ev ! (off + 1)) + 2"
  have "unat (ev ! (off + 1) + 2) = ?n"
    using at by (simp add: rsnie_at_def unat_word_ariths)
  moreover have "mem_read off ?n ev = Some (take ?n (drop off ev))" "length (take ?n (drop off ev)) = ?n"
    "?n \<le> 48" "off + 1 < length ev"
    using at by (auto simp: rsnie_at_def mem_read_def)
  ultimately show ?thesis
    using Some assms(2) mem_read_1 [of "off + 1" ev]
    by (simp add: copy_rsnie_def mem_write_def)
qed

lemma pae_set_fields [simp]:
  "wiphy (tgd_wiphy_pae_set_authorized b p) = wiphy p"
  "pae_closed (tgd_wiphy_pae_set_authorized b p) = (\<not> b)"
  "link_state (tgd_wiphy_pae_set_authorized b p) = link_state p"
  "link_sta_addr (tgd_wiphy_pae_set_authorized b p) = link_sta_addr p"
  "tx_link (tgd_wiphy_pae_set_authorized b p) = tx_link p"
  "rx_link (tgd_wiphy_pae_set_authorized b p) = rx_link p"
  "tx_stopped (tgd_wiphy_pae_set_authorized b p) = tx_stopped p"
  by (auto simp: tgd_wiphy_pae_set_authorized_def)

lemma upd_wiphy_fields [simp]:
  "wiphy (upd_wiphy f p) = f (wiphy p)" "pae_closed (upd_wiphy f p) = pae_closed p"
  "link_state (upd_wiphy f p) = link_state p" "link_sta_addr (upd_wiphy f p) = link_sta_addr p"
  "tx_link (upd_wiphy f p) = tx_link p" "rx_link (upd_wiphy f p) = rx_link p"
  "tx_stopped (upd_wiphy f p) = tx_stopped p" "peer_index (upd_wiphy f p) = peer_index p"
  by (simp_all add: upd_wiphy_def)

text \<open>Operations of this theory change the wireless part of a device and its port, never its link.\<close>

definition same_link :: "dev_priv \<Rightarrow> dev_priv \<Rightarrow> bool" where
  "same_link p q \<longleftrightarrow> link_state q = link_state p \<and> link_sta_addr q = link_sta_addr p \<and>
     tx_link q = tx_link p \<and> rx_link q = rx_link p \<and> length (tx_stopped q) = length (tx_stopped p)"

lemma same_link_ok: "same_link p q \<Longrightarrow> dev_ok p \<Longrightarrow> dev_ok q"
  by (simp add: same_link_def dev_ok_def)

lemma notify_fields [simp]:
  "pae_closed (notify es p) = pae_closed p"
  "ap_started (wiphy (notify es p)) = ap_started (wiphy p)"
  "tg_connected (wiphy (notify es p)) = tg_connected (wiphy p)"
  "wsec_auth (wiphy (notify es p)) = wsec_auth (wiphy p)"
  "wiphy_ok (wiphy (notify es p)) = wiphy_ok (wiphy p)"
  "same_link q (notify es p) = same_link q p"
  by (simp_all add: notify_def wiphy_ok_def same_link_def)

lemma notify_connect_fields [simp]:
  "pae_closed (tgd_cfg80211_notify_connect p) = pae_closed p"
  "wiphy_ok (wiphy (tgd_cfg80211_notify_connect p)) = wiphy_ok (wiphy p)"
  "same_link q (tgd_cfg80211_notify_connect p) = same_link q p"
  "wsec_auth (wiphy (tgd_cfg80211_notify_connect p)) = wsec_auth (wiphy p)"
  by (simp_all add: tgd_cfg80211_notify_connect_def Let_def) (simp_all add: wiphy_ok_def same_link_def)

lemma connect_port_fields [simp]:
  "pae_closed (connect_port peer wsec p) = (wsec \<noteq> TGF_WSEC_DISABLE)"
  "wiphy_ok (wiphy (connect_port peer wsec p)) = wiphy_ok (wiphy p)"
  "same_link q (connect_port peer wsec p) = same_link q p"
  "wsec_auth (wiphy (connect_port peer wsec p)) = wsec_auth (wiphy p)"
  by (simp_all add: connect_port_def Let_def) (auto simp: wiphy_ok_def same_link_def)

lemma notify_disconnect_ok:
  "\<exists>q. tgd_cfg80211_notify_disconnect p = Some q \<and> pae_closed q = pae_closed p \<and> same_link p q \<and>
       (wiphy_ok (wiphy q) = wiphy_ok (wiphy p)) \<and> ap_started (wiphy q) = ap_started (wiphy p) \<and>
       wsec_auth (wiphy q) = wsec_auth (wiphy p)"
  by (simp add: tgd_cfg80211_notify_disconnect_def tgd_cfg80211_scan_flush_def)
    (simp add: same_link_def)

lemma update_rsnie_ok:
  assumes "wiphy_ok (wiphy p)" and "\<forall>off. s = Some off \<longrightarrow> rsnie_at ev off"
    and "\<forall>off. a = Some off \<longrightarrow> rsnie_at ev off"
  shows "\<exists>q. tgd_cfg80211_update_rsnie_info ev s a wsec p = Some q \<and> wiphy_ok (wiphy q) \<and>
             pae_closed q = pae_closed p \<and> same_link p q \<and> ap_started (wiphy q) = ap_started (wiphy p) \<and>
             wsec_auth (wiphy q) = wsec"
proof -
  from assms(1) have l: "length (supp_rsnie (wiphy p)) = 48" "length (auth_rsnie (wiphy p)) = 48"
    by (simp_all add: wiphy_ok_def)
  from copy_rsnie_ok [OF assms(2) l(1)] copy_rsnie_ok [OF assms(3) l(2)] assms(1)
  show ?thesis by (auto simp: tgd_cfg80211_update_rsnie_info_def wiphy_ok_def same_link_def)
qed

text \<open>A connect event: it is complete, keeps the buffers, and decides the port.\<close>

lemma evt_tg_connect_ok:
  assumes "wiphy_ok (wiphy p)" and "ies + unat reqLen + unat respLen \<le> length ev"
  shows "\<exists>q. tgd_cfg80211_evt_tg_connect ev ies peer reqLen respLen wsec p = Some q \<and>
             wiphy_ok (wiphy q) \<and> same_link p q \<and>
             (if tg_connected (wiphy p) \<and> wsec_auth (wiphy p) = wsec \<and> pmac (wiphy p) = peer then q = p
              else pae_closed q = (wsec \<noteq> TGF_WSEC_DISABLE) \<and> wsec_auth (wiphy q) = wsec)"
proof -
  obtain s a where sa: "tgd_cfg80211_parse_rsnies ev ies reqLen respLen = Some (s, a)"
    "\<forall>off. s = Some off \<longrightarrow> rsnie_at ev off" "\<forall>off. a = Some off \<longrightarrow> rsnie_at ev off"
    using parse_rsnies_ok [OF assms(2)] by blast
  show ?thesis
  proof (cases "tg_connected (wiphy p) \<and> wsec_auth (wiphy p) = wsec \<and> pmac (wiphy p) = peer")
    case True
    then show ?thesis using sa(1) assms(1) by (simp add: tgd_cfg80211_evt_tg_connect_def same_link_def)
  next
    case False
    let ?d = "upd_wiphy (\<lambda>w. w\<lparr>tg_connected := False\<rparr>) p"
    have "wiphy_ok (wiphy ?d)" using assms(1) by (simp add: wiphy_ok_def)
    moreover have "same_link p ?d" by (simp add: same_link_def)
    ultimately obtain p1 where p1:
      "(if tg_connected (wiphy p) then tgd_cfg80211_notify_disconnect ?d else Some p) = Some p1"
      "wiphy_ok (wiphy p1)" "same_link p p1"
      using notify_disconnect_ok [of ?d] assms(1)
      by (cases "tg_connected (wiphy p)") (auto simp: same_link_def)
    obtain p2 where p2: "tgd_cfg80211_update_rsnie_info ev s a wsec p1 = Some p2" "wiphy_ok (wiphy p2)"
      "same_link p1 p2" "wsec_auth (wiphy p2) = wsec"
      using update_rsnie_ok [OF p1(2) sa(2,3)] by blast
    have "same_link p p2" using p1(3) p2(3) by (simp add: same_link_def)
    then show ?thesis
      using sa(1) False p1(1) p2 by (auto simp: tgd_cfg80211_evt_tg_connect_def)
  qed
qed

lemma evt_tg_disconnect_ok:
  "\<exists>q. tgd_cfg80211_evt_tg_disconnect p = Some q \<and> same_link p q \<and>
       (wiphy_ok (wiphy q) = wiphy_ok (wiphy p)) \<and> (pae_closed p \<longrightarrow> pae_closed q) \<and>
       (tg_connected (wiphy p) \<and> wsec_auth (wiphy p) \<noteq> TGF_WSEC_DISABLE \<longrightarrow> pae_closed q)"
proof -
  let ?d = "upd_wiphy (\<lambda>w. w\<lparr>tg_connected := False\<rparr>) p"
  obtain q where "tgd_cfg80211_notify_disconnect ?d = Some q" "pae_closed q = pae_closed p" "same_link ?d q"
    "wiphy_ok (wiphy q) = wiphy_ok (wiphy ?d)" "wsec_auth (wiphy q) = wsec_auth (wiphy p)"
    using notify_disconnect_ok [of ?d] by auto
  then show ?thesis
    by (auto simp: tgd_cfg80211_evt_tg_disconnect_def same_link_def wiphy_ok_def)
qed

text \<open>
  A connect event of the radio is handled within its bounds: when the event holds the bytes it
  announces, both association elements are searched without reading past them, a valid RSN element
  is copied within the 48 bytes kept for it, and the handler completes. Unless it repeats the
  present connection, which leaves the device alone, the port ends up closed exactly when the link
  is to be secured.
\<close>

theorem terra_connect_bounds:
  assumes "wiphy_ok (wiphy p)" and "ies + unat reqLen + unat respLen \<le> length ev"
  shows "\<exists>q. tgd_cfg80211_evt_tg_connect ev ies peer reqLen respLen wsec p = Some q \<and>
             wiphy_ok (wiphy q) \<and>
             (if tg_connected (wiphy p) \<and> wsec_auth (wiphy p) = wsec \<and> pmac (wiphy p) = peer then q = p
              else pae_closed q = (wsec \<noteq> TGF_WSEC_DISABLE) \<and> wsec_auth (wiphy q) = wsec)"
  using evt_tg_connect_ok [OF assms] by blast

section \<open>The key reaches the radio\<close>

text \<open>Runs of the delayed work, each with the context the vendor driver has at that time, until it
  is no longer queued.\<close>

fun key_worker_runs :: "'b bh_ops \<Rightarrow> nat \<Rightarrow> 'b list \<Rightarrow> 'b terra_driver \<Rightarrow> 'b terra_driver option" where
  "key_worker_runs ops i [] drv = None"
| "key_worker_runs ops i (b # bs) drv =
     (let drv1 = tgd_set_key_worker ops i (drv\<lparr>bh_ctx := Some b\<rparr>)
      in if key_work_queued (wiphy (devs drv1 ! i)) then key_worker_runs ops i bs drv1 else Some drv1)"

text \<open>The key the driver keeps for the device, as the vendor driver is given it.\<close>

definition key_given :: "'b bh_ops \<Rightarrow> dev_priv \<Rightarrow> 'b \<Rightarrow> 'b" where
  "key_given ops p b = snd (op_set_key ops (peer_index p) (pmac (wiphy p))
                              (take (params_key_len (wiphy p)) (params_key (wiphy p))) b)"

lemma key_worker_step:
  assumes "i < length (devs drv)"
  shows "let drv1 = tgd_set_key_worker ops i (drv\<lparr>bh_ctx := Some b\<rparr>);
             p = devs drv ! i; q = devs drv1 ! i
         in i < length (devs drv1) \<and> m4_delay_cnt (wiphy q) = m4_delay_cnt (wiphy p) + 1 \<and>
            key_given ops q = key_given ops p \<and>
            (if key_work_queued (wiphy q) then m4_delay_cnt (wiphy p) + 1 < TGD_M4_MAX_DELAY_CNT
             else bh_ctx drv1 = Some (key_given ops p b) \<and> \<not> m4_pending q)"
  using assms
  by (simp add: tgd_set_key_worker_def Let_def upd_dev_def tgd_cfg80211_set_key_def
      fb_tgd_bh_set_key_def key_given_def split_def)
    (simp add: fun_eq_iff key_given_def upd_wiphy_def)

lemma key_worker_runs_ends:
  assumes "i < length (devs drv)" and "unat (m4_delay_cnt (wiphy (devs drv ! i))) < 13"
    and "length bs = 13 - unat (m4_delay_cnt (wiphy (devs drv ! i)))"
  shows "\<exists>drv' b. key_worker_runs ops i bs drv = Some drv' \<and> b \<in> set bs \<and>
                  bh_ctx drv' = Some (key_given ops (devs drv ! i) b) \<and>
                  \<not> key_work_queued (wiphy (devs drv' ! i))"
  using assms
proof (induction bs arbitrary: drv)
  case (Cons b bs)
  let ?p = "devs drv ! i" let ?d = "tgd_set_key_worker ops i (drv\<lparr>bh_ctx := Some b\<rparr>)"
  let ?q = "devs ?d ! i"
  have st: "i < length (devs ?d)" "m4_delay_cnt (wiphy ?q) = m4_delay_cnt (wiphy ?p) + 1"
    "key_given ops ?q = key_given ops ?p"
    "key_work_queued (wiphy ?q) \<Longrightarrow> m4_delay_cnt (wiphy ?p) + 1 < TGD_M4_MAX_DELAY_CNT"
    "\<not> key_work_queued (wiphy ?q) \<Longrightarrow> bh_ctx ?d = Some (key_given ops ?p b)"
    using key_worker_step [OF Cons.prems(1), of ops b] by (auto simp: Let_def split: if_splits)
  have u: "unat (m4_delay_cnt (wiphy ?q)) = Suc (unat (m4_delay_cnt (wiphy ?p)))"
    using Cons.prems(2) st(2) by (simp add: unat_word_ariths)
  show ?case
  proof (cases "key_work_queued (wiphy ?q)")
    case False
    then show ?thesis using st(5) by (auto simp: Let_def)
  next
    case True
    then have "unat (m4_delay_cnt (wiphy ?q)) < 13" using st(2,4) by (simp add: word_less_nat_alt)
    then have "\<exists>drv' b. key_worker_runs ops i bs ?d = Some drv' \<and> b \<in> set bs \<and>
        bh_ctx drv' = Some (key_given ops ?q b) \<and> \<not> key_work_queued (wiphy (devs drv' ! i))"
      using Cons.IH [OF st(1)] Cons.prems(3) u by simp
    then show ?thesis using True st(3) by (auto simp: Let_def)
  qed
qed simp

text \<open>
  C33. A new key of a supplicant reaches the radio: once \<open>tgd_cfg80211_add_key\<close> has queued the key,
  the delayed work gives exactly that key to the vendor driver for the connected peer within
  thirteen runs, however long packets stay pending, and is then no longer queued.
\<close>

theorem terra_key_installed:
  assumes "i < length (devs drv)"
    and "tgd_cfg80211_add_key ops i kx True peer params drv = (0, drv1)"
    and "key_work_queued (wiphy (devs drv1 ! i))" and "\<not> key_work_queued (wiphy (devs drv ! i))"
    and "length bs = 13"
  shows "\<exists>drv2 b. key_worker_runs ops i bs drv1 = Some drv2 \<and> b \<in> set bs \<and>
           bh_ctx drv2 = Some (snd (op_set_key ops (peer_index (devs drv ! i)) peer (kp_key params) b)) \<and>
           \<not> key_work_queued (wiphy (devs drv2 ! i))"
proof -
  let ?p = "devs drv ! i" let ?q = "devs drv1 ! i" let ?n = "length (kp_key params)"
  have q: "i < length (devs drv1) \<and> peer_index ?q = peer_index ?p \<and> pmac (wiphy ?q) = peer \<and>
      params_key_len (wiphy ?q) = ?n \<and>
      params_key (wiphy ?q) = kp_key params @ drop ?n (params_key (wiphy ?p)) \<and>
      m4_delay_cnt (wiphy ?q) = 0"
    using assms(1-4)
    by (auto simp: tgd_cfg80211_add_key_def Let_def upd_dev_def split_def tgd_cfg80211_set_key_def
        fb_tgd_bh_set_key_def split: if_splits option.splits)
  then have "key_given ops ?q = (\<lambda>b. snd (op_set_key ops (peer_index ?p) peer (kp_key params) b))"
    by (simp add: key_given_def fun_eq_iff)
  moreover have "\<exists>drv' b. key_worker_runs ops i bs drv1 = Some drv' \<and> b \<in> set bs \<and>
       bh_ctx drv' = Some (key_given ops ?q b) \<and> \<not> key_work_queued (wiphy (devs drv' ! i))"
    using q assms(5) by (intro key_worker_runs_ends) auto
  ultimately show ?thesis by simp
qed

end
