(* ===== verification/TerraData.thy ===== *)
theory TerraData
  imports TerraPort
begin

text \<open>
  The data path and the firmware events of the Terragraph wireless driver: transmission, reception
  and flow control (\<open>fb_terragraph/fb_tgd_terragraph_linux.c\<close>), the queue of firmware events and
  their handler (\<open>fb_tgd_fw_if.c\<close>), and the GPS client (\<open>fb_tgd_gps_if.c\<close>). The driver as a whole is
  the function \<open>terra_exec\<close> over the requests that reach it from the network stack, the vendor
  driver, cfg80211 and the firmware.

  The bytes of an event are read with bounds: a field that lies behind the end of the event is the
  value \<open>None\<close>. Frames handed to the vendor driver and to the network stack are the output of a step.
\<close>

section \<open>Transmission\<close>

definition cos_stat :: "nat \<Rightarrow> terra_stats" where
  "cos_stat qid = (if qid = 0 then TX_PACKETS_COS0 else if qid = 1 then TX_PACKETS_COS1
                   else if qid = 2 then TX_PACKETS_COS2 else TX_PACKETS_COS3)"

text \<open>A frame that is dropped is freed; a frame that may go to the vendor driver is returned with the
  address of the peer as destination. \<open>queue_mapping\<close> is the queue the stack has chosen for it. The
  second half looks at the protocol: the last message of a handshake, and the port.\<close>

definition m4_check :: "sk_buff \<Rightarrow> u8 list \<Rightarrow> dev_priv \<Rightarrow> dev_priv option" where
  "m4_check skb proto p =
     (if m4_pending p \<and> proto = ETH_P_PAE
      then do { m4 \<leftarrow> tgd_cfg80211_is_4way_m4 skb; Some (if m4 then tgd_cfg80211_evt_m4_sent p else p) }
      else Some p)"

definition tx_port_check :: "nat \<Rightarrow> nat \<Rightarrow> sk_buff \<Rightarrow> dev_priv \<Rightarrow> (sk_buff option \<times> dev_priv) option" where
  "tx_port_check cpu qid skb p = do {
     proto \<leftarrow> mem_read (sb_data skb + 12) 2 (sb_head skb);
     p \<leftarrow> m4_check skb proto p;
     if pae_closed p \<and> proto \<noteq> ETH_P_PAE
     then Some (None, terra_dev_stats_inc cpu TX_TGD_TX_STOPPED 1 p)
     else do {
       skb' \<leftarrow> skb_store (sb_data skb) (link_sta_addr p) skb;
       Some (Some skb', terra_dev_stats_inc cpu (cos_stat qid) 1 p)
     }
   }"

definition tgd_terra_bh_tx_pre ::
  "nat \<Rightarrow> nat \<Rightarrow> sk_buff \<Rightarrow> dev_priv \<Rightarrow> (sk_buff option \<times> dev_priv) option" where
  "tgd_terra_bh_tx_pre cpu queue_mapping skb p =
     (if sb_len skb < 14 then Some (None, terra_dev_stats_inc cpu TX_TGD_ERR 1 p)
      else if \<not> carrier p \<or> link_state p \<noteq> TG_LINKUP \<or> tx_link p < 0
      then Some (None, terra_dev_stats_inc cpu TX_TGD_ERR 1 p)
      else do {
        let qid = (if length (tx_stopped p) \<le> queue_mapping then 0 else queue_mapping);
        stopped \<leftarrow> arr_get (tx_stopped p) qid;
        if stopped then Some (None, terra_dev_stats_inc cpu TX_TGD_TX_STOPPED 1 p)
        else tx_port_check cpu qid skb p
      })"

definition tgd_terra_bh_tx_post ::
  "'b bh_ops \<Rightarrow> nat \<Rightarrow> nat \<Rightarrow> sk_buff \<Rightarrow> 'b terra_driver \<Rightarrow> 'b terra_driver option" where
  "tgd_terra_bh_tx_post ops cpu i skb drv = do {
     (ret, drv) \<leftarrow> fb_tgd_bh_tx_data ops (devs drv ! i) skb drv;
     Some (if ret < 0 then upd_dev i (terra_dev_stats_inc cpu TX_TGD_ERR 1) drv else drv)
   }"

text \<open>The frames given to the vendor driver, none or one.\<close>

definition tgd_terra_bh_tx_common ::
  "'b bh_ops \<Rightarrow> nat \<Rightarrow> nat \<Rightarrow> nat \<Rightarrow> sk_buff \<Rightarrow> 'b terra_driver \<Rightarrow> (sk_buff list \<times> 'b terra_driver) option" where
  "tgd_terra_bh_tx_common ops cpu i queue_mapping skb drv = do {
     (res, p) \<leftarrow> tgd_terra_bh_tx_pre cpu queue_mapping skb (devs drv ! i);
     let drv = upd_dev i (\<lambda>_. p) drv;
     (case res of
        None \<Rightarrow> Some ([], drv)
      | Some skb' \<Rightarrow> do { drv \<leftarrow> tgd_terra_bh_tx_post ops cpu i skb' drv; Some ([skb'], drv) })
   }"

text \<open>Packets other than IPv6 keep their priority; \<open>dsfield\<close> is the traffic class of an IPv6 packet.\<close>

definition tgd_terra_set_skb_priority :: "u8 option \<Rightarrow> u32 \<Rightarrow> u32" where
  "tgd_terra_set_skb_priority dsfield priority =
     (case dsfield of
        None \<Rightarrow> priority
      | Some ds \<Rightarrow> if drop_bit 2 ds = 0x30 then 5 else 0)"

definition tgd_terra_select_queue ::
  "'b bh_ops \<Rightarrow> bool \<Rightarrow> u8 option \<Rightarrow> sk_buff \<Rightarrow> (nat \<times> sk_buff) option" where
  "tgd_terra_select_queue ops tgd_enable_pfifofc dsfield skb =
     (let skb = skb\<lparr>sb_priority := tgd_terra_set_skb_priority dsfield (sb_priority skb)\<rparr>
      in do { q \<leftarrow> fb_tgd_bh_select_queue ops tgd_enable_pfifofc (unat (sb_priority skb)); Some (q, skb) })"

section \<open>Reception\<close>

text \<open>The frames given to the network stack.\<close>

definition tgd_terra_rx_data_handler ::
  "skb_alloc \<Rightarrow> nat \<Rightarrow> nat \<Rightarrow> sk_buff \<Rightarrow> 'b terra_driver \<Rightarrow> (sk_buff list \<times> 'b terra_driver) option" where
  "tgd_terra_rx_data_handler alloc cpu i skb drv = do {
     proto \<leftarrow> mem_read (sb_data skb + 12) 2 (sb_head skb);
     if pae_closed (devs drv ! i) \<and> proto \<noteq> ETH_P_PAE
     then Some ([], upd_dev i (terra_dev_stats_inc cpu RX_TGD_RX_STOPPED 1) drv)
     else do { fs \<leftarrow> fb_tgd_rt_linux_rx alloc (skb\<lparr>sb_dev := i\<rparr>); Some (fs, drv) }
   }"

section \<open>Flow control\<close>

text \<open>The queue number is used as an index of the queues of the device without a check.\<close>

definition tgd_flow_control_common ::
  "nat \<Rightarrow> int \<Rightarrow> nat \<Rightarrow> bool \<Rightarrow> bool \<Rightarrow> dev_priv \<Rightarrow> dev_priv option" where
  "tgd_flow_control_common cpu link qid stop_tx fc_enabled p =
     (if fc_enabled \<and> tx_link p = link then do {
        stopped \<leftarrow> arr_get (tx_stopped p) qid;
        Some (if stop_tx
              then (if \<not> stopped
                    then terra_dev_stats_inc cpu LINK_SUSPEND 1 (p\<lparr>tx_stopped := (tx_stopped p)[qid := True]\<rparr>)
                    else p)
              else if link_state p = TG_LINKUP
              then (if stopped
                    then (terra_dev_stats_inc cpu LINK_RESUME 1 p)\<lparr>tx_stopped := (tx_stopped p)[qid := False]\<rparr>
                    else p)
              else p)
      }
      else Some p)"

definition fb_tgd_bh_flow_control ::
  "bool \<Rightarrow> nat \<Rightarrow> nat \<Rightarrow> int \<Rightarrow> nat \<Rightarrow> bool \<Rightarrow> 'b terra_driver \<Rightarrow> 'b terra_driver option" where
  "fb_tgd_bh_flow_control enable_flow_control cpu i link qid stop_tx drv =
     (if enable_flow_control
      then do { p \<leftarrow> tgd_flow_control_common cpu link qid stop_tx (fc_enable drv) (devs drv ! i);
                Some (upd_dev i (\<lambda>_. p) drv) }
      else Some drv)"

text \<open>The callback of the pfifofc queueing discipline.\<close>

definition netdev_tx_flow_control :: "nat \<Rightarrow> fc_level \<Rightarrow> dev_priv \<Rightarrow> dev_priv" where
  "netdev_tx_flow_control cpu color p =
     (case color of
        ALL_ON \<Rightarrow> terra_dev_stats_inc cpu TX_TGD_FLOW_ON 1 p
      | ALL_OFF \<Rightarrow> terra_dev_stats_inc cpu TX_TGD_FLOW_OFF 1 p
      | RED_ON \<Rightarrow> p)"

section \<open>The GPS client\<close>

definition tgd_gps_start_fw_sync :: "int \<Rightarrow> gps_client option \<Rightarrow> int \<times> gps_client option" where
  "tgd_gps_start_fw_sync start_ret sc =
     (case sc of
        None \<Rightarrow> (- 1, sc)
      | Some c \<Rightarrow> if fw_synced c then (0, sc)
                  else if start_ret = - 1 then (- 1, sc)
                  else (0, Some (c\<lparr>fw_synced := True\<rparr>)))"

definition tgd_gps_stop_fw_sync :: "gps_client option \<Rightarrow> int \<times> gps_client option" where
  "tgd_gps_stop_fw_sync sc =
     (case sc of
        None \<Rightarrow> (- 1, sc)
      | Some c \<Rightarrow> if \<not> fw_synced c then (0, sc) else (0, Some (c\<lparr>fw_synced := False\<rparr>)))"

definition tgd_gps_send_to_fw :: "int \<Rightarrow> bool \<Rightarrow> gps_client option \<Rightarrow> gps_client option" where
  "tgd_gps_send_to_fw start_ret enable sc =
     (if sc = None then sc
      else let (r, sc') = (if enable then tgd_gps_start_fw_sync start_ret sc else tgd_gps_stop_fw_sync sc)
           in if r \<noteq> 0 then sc' else map_option (\<lambda>c. c\<lparr>send_to_fw := enable\<rparr>) sc')"

section \<open>Firmware events\<close>

abbreviation TGD_MAX_EVENT_SIZE :: nat where "TGD_MAX_EVENT_SIZE \<equiv> 1024"

text \<open>An event the vendor driver delivers; \<open>alloc\<close> tells whether the copy could be allocated.\<close>

definition tgd_terra_rx_event_handler :: "bool \<Rightarrow> u8 list option \<Rightarrow> 'b terra_driver \<Rightarrow> 'b terra_driver" where
  "tgd_terra_rx_event_handler alloc event_data drv =
     (case event_data of
        None \<Rightarrow> drv
      | Some ev \<Rightarrow>
          if TGD_MAX_EVENT_SIZE < length ev then drv
          else if length ev = 0 then drv
          else if \<not> rx_event_enable drv then drv
          else if \<not> alloc then drv
          else drv\<lparr>rx_event_q := rx_event_q drv @ [ev]\<rparr>)"

definition tgd_fb_flush_event_q :: "'b terra_driver \<Rightarrow> 'b terra_driver" where
  "tgd_fb_flush_event_q drv = drv\<lparr>rx_event_q := []\<rparr>"

text \<open>What the handler takes from its surroundings: the bytes its stack buffers happen to hold, the
  result of starting the GPS synchronisation, the position the GPS driver reports, and whether a
  handler of timestamps is registered.\<close>

record terra_env =
  stack_bytes :: "nat \<Rightarrow> u8"
  gps_start_ret :: int
  gps_self_pos :: "u8 list option"
  frame_alloc :: skb_alloc
  htsf_registered :: bool

definition nl_inc :: "nl_sdn_stats \<Rightarrow> 'b terra_driver \<Rightarrow> 'b terra_driver" where
  "nl_inc k drv = drv\<lparr>nl_stats := (nl_stats drv)(k := nl_stats drv k + 1)\<rparr>"

definition nl_notify :: "nl_msg \<Rightarrow> 'b terra_driver \<Rightarrow> 'b terra_driver" where
  "nl_notify m drv = drv\<lparr>nl_log := nl_log drv @ [m]\<rparr>"

text \<open>The reply to a request to delete a link; neither the padding nor the error code is set.\<close>

definition tgd_send_link_del_resp :: "'b bh_ops \<Rightarrow> terra_env \<Rightarrow> mac \<Rightarrow> 'b terra_driver \<Rightarrow> 'b terra_driver" where
  "tgd_send_link_del_resp ops env m drv =
     snd (snd (fb_tgd_bh_ioctl ops ([105] @ map (stack_bytes env) [1, 2, 3, 4] @ m) drv))"

definition tgd_send_gps_pos :: "'b bh_ops \<Rightarrow> terra_env \<Rightarrow> u8 list \<Rightarrow> 'b terra_driver \<Rightarrow> 'b terra_driver" where
  "tgd_send_gps_pos ops env pos drv =
     snd (snd (fb_tgd_bh_ioctl ops ([118] @ map (stack_bytes env) [1, 2, 3] @ pos) drv))"

definition to_link_status :: "u8 \<Rightarrow> tgLinkStatus" where
  "to_link_status b = (if b = 2 then TG_LINKDOWN else if b = 3 then TG_LINKUP
                       else if b = 4 then TG_LINKPAUSE else TG_LINKINIT)"

definition to_wsec :: "u8 \<Rightarrow> tgWsecAuthType" where
  "to_wsec b = (if b = 0 then TGF_WSEC_DISABLE else if b = 1 then TGF_WSEC_PSK
                else if b = 2 then TGF_WSEC_EAP else TGF_WSEC_OTHER b)"

text \<open>\<open>TG_NB_UPDATE_LINK_REQ\<close>: the device is looked up first, then the status is set, user space is
  told, and the connection is handed to cfg80211. \<open>h\<close> are the fields of the event before its
  information elements.\<close>

definition update_link_port ::
  "u8 list \<Rightarrow> u8 list \<Rightarrow> nat option \<Rightarrow> 'b terra_driver \<Rightarrow> 'b terra_driver option" where
  "update_link_port ev h dev drv =
     (case dev of
        None \<Rightarrow> Some drv
      | Some i \<Rightarrow>
          if h ! 0 = 3 then do {
            p \<leftarrow> tgd_cfg80211_evt_tg_connect ev 17 (take 6 (drop 1 h)) (h ! 10) (h ! 11) (to_wsec (h ! 12))
                  (devs drv ! i);
            let drv = upd_dev i (\<lambda>_. p) drv;
            Some (if to_wsec (h ! 12) = TGF_WSEC_DISABLE
                  then nl_notify (Nl_wsec_status i (h ! 12)) drv else drv)
          }
          else if h ! 0 = 2 then do {
            p \<leftarrow> tgd_cfg80211_evt_tg_disconnect (devs drv ! i);
            Some (upd_dev i (\<lambda>_. p) drv)
          }
          else Some drv)"

definition handle_update_link :: "u8 list \<Rightarrow> 'b terra_driver \<Rightarrow> 'b terra_driver option" where
  "handle_update_link ev drv = do {
     h \<leftarrow> mem_read 4 13 ev;
     let addr = take 6 (drop 1 h);
     let dev = tgd_terra_lookup_link_by_mac_addr drv (Some addr);
     let drv = snd (tgd_terra_set_link_status (Some addr) (to_link_status (h ! 0)) drv);
     let drv = nl_notify (Nl_link_status dev addr (h ! 7) (h ! 0) (h ! 8) (h ! 9)) drv;
     update_link_port ev h dev drv
   }"

definition tgd_fw_msg_handler ::
  "'b bh_ops \<Rightarrow> terra_env \<Rightarrow> nat \<Rightarrow> u8 list \<Rightarrow> 'b terra_driver \<Rightarrow> 'b terra_driver option" where
  "tgd_fw_msg_handler ops env cpu ev drv = do {
     let drv = nl_inc NL_EVENTS drv;
     t \<leftarrow> mem_read 0 1 ev;
     let event_type = t ! 0;
     if event_type = 101 then do {
       h \<leftarrow> mem_read 4 31 ev;
       Some (nl_notify (Nl_tginit (TGD_CONVERT_MACADDR_TO_LONG (take 6 (drop 1 h))) (h ! 0) (drop 15 h))
              (nl_inc NL_NB_INIT_RESP drv))
     }
     else if event_type = 113 then do {
       e \<leftarrow> mem_read 11 1 ev;
       Some (nl_notify (Nl_bmfmconfig (e ! 0)) (nl_inc NL_NB_START_BF_SCAN_RESP drv))
     }
     else if event_type = 103 then handle_update_link ev (nl_inc NL_NB_UPDATE_LINK_REQ drv)
     else if event_type = 102 then do {
       h \<leftarrow> mem_read 4 8 ev;
       Some (tgd_terra_set_link_mac_addr ops (take 6 h) (h ! 6) (h ! 7) (nl_inc NL_NB_LINK_INFO drv))
     }
     else if event_type = 104 then do {
       m \<leftarrow> mem_read 4 6 ev;
       Some (tgd_send_link_del_resp ops env m
               (snd (tgd_terra_del_link_info ops cpu (Some m) (nl_inc NL_NB_DEL_LINK_REQ drv))))
     }
     else if event_type = 106 then Some (nl_notify (Nl_passthru ev) (nl_inc NL_NB_PASSTHRU drv))
     else if event_type = 109
     then Some ((nl_inc NL_NB_GPS_START_TIME_ACQUISITION drv)
                 \<lparr>gps_state := tgd_gps_send_to_fw (gps_start_ret env) True (gps_state drv)\<rparr>)
     else if event_type = 110
     then Some ((nl_inc NL_NB_GPS_STOP_TIME_ACQUISITION drv)
                 \<lparr>gps_state := tgd_gps_send_to_fw (gps_start_ret env) False (gps_state drv)\<rparr>)
     else if event_type = 117 then
       (let drv = nl_inc NL_NB_GPS_GET_SELF_POS drv
        in case (gps_state drv, gps_self_pos env) of
             (Some _, Some pos) \<Rightarrow> Some (tgd_send_gps_pos ops env pos drv)
           | _ \<Rightarrow> Some drv)
     else if event_type = 119 then do {
       h \<leftarrow> mem_read 4 12 ev;
       Some (if htsf_registered env then nl_notify (Htsf_info (drv_macaddr drv) h) drv else drv)
     }
     else Some drv
   }"

text \<open>The work function: events are taken from the head of the queue and handled until it is empty.\<close>

fun process_events ::
  "'b bh_ops \<Rightarrow> terra_env \<Rightarrow> nat \<Rightarrow> u8 list list \<Rightarrow> 'b terra_driver \<Rightarrow> 'b terra_driver option" where
  "process_events ops env cpu [] drv = Some drv"
| "process_events ops env cpu (ev # evs) drv = do {
     drv \<leftarrow> tgd_fw_msg_handler ops env cpu ev (drv\<lparr>rx_event_q := evs\<rparr>);
     process_events ops env cpu evs drv
   }"

definition tgd_process_fb_events ::
  "'b bh_ops \<Rightarrow> terra_env \<Rightarrow> nat \<Rightarrow> 'b terra_driver \<Rightarrow> 'b terra_driver option" where
  "tgd_process_fb_events ops env cpu drv = process_events ops env cpu (rx_event_q drv) drv"

section \<open>Shutdown\<close>

text \<open>Up to the point where the vendor driver is left: events stop, flow control is off, every device
  is stopped, and the client is unregistered. Then the devices are freed.\<close>

definition cleanup_stop :: "'b bh_ops \<Rightarrow> terra_env \<Rightarrow> nat \<Rightarrow> 'b terra_driver \<Rightarrow> 'b terra_driver" where
  "cleanup_stop ops env cpu drv =
     (let drv = (tgd_fb_flush_event_q (drv\<lparr>rx_event_enable := False\<rparr>))\<lparr>fc_enable := False\<rparr>;
          drv = (if devs drv \<noteq> []
                 then snd (snd (fb_tgd_bh_ioctl ops ([116] @ map (stack_bytes env) [1, 2, 3]) drv)) else drv);
          drv = fold (tgd_terra_stop_device ops cpu) [0..<length (devs drv)] drv
      in snd (fb_tgd_bh_unregister_client (drv\<lparr>gps_state := None\<rparr>)))"

definition tgd_terra_cleanup :: "'b bh_ops \<Rightarrow> terra_env \<Rightarrow> nat \<Rightarrow> 'b terra_driver \<Rightarrow> 'b terra_driver" where
  "tgd_terra_cleanup ops env cpu drv = (cleanup_stop ops env cpu drv)\<lparr>devs := []\<rparr>"

section \<open>The driver\<close>

text \<open>Requests: from the network stack (\<open>Tx\<close>), the vendor driver (\<open>Rx\<close>, \<open>Flow\<close>, \<open>Set_mac\<close>), the
  qdisc (\<open>Qdisc_fc\<close>), the firmware (\<open>Fw_event\<close>), netlink (\<open>Dev_alloc\<close>), cfg80211, and the delayed key
  work; the first argument names the device. \<open>Kernel_bss\<close> is the kernel setting its current BSS.\<close>

datatype terra_op =
    Tx nat sk_buff nat
  | Rx nat sk_buff
  | Flow nat int nat bool
  | Qdisc_fc nat fc_level
  | Set_mac mac
  | Fw_event "u8 list"
  | Dev_alloc mac
  | Add_key nat nat bool mac key_params
  | Del_key nat bool
  | Key_work nat
  | Scan nat bool
  | Connect nat
  | Disconnect nat
  | Start_ap nat
  | Stop_ap nat
  | Del_station nat
  | Change_station nat mac bool bool
  | Kernel_bss nat bool
  | Get_stats nat
  | Change_mtu nat int

datatype terra_out = To_radio nat sk_buff | To_stack nat sk_buff

definition on_dev :: "nat \<Rightarrow> (dev_priv \<Rightarrow> dev_priv) \<Rightarrow> 'b terra_driver \<Rightarrow> (terra_out list \<times> 'b terra_driver) option" where
  "on_dev i f drv = Some ([], upd_dev i f drv)"

definition terra_exec ::
  "'b bh_ops \<Rightarrow> terra_env \<Rightarrow> nat \<Rightarrow> terra_op \<Rightarrow> 'b terra_driver \<Rightarrow> (terra_out list \<times> 'b terra_driver) option" where
  "terra_exec ops env cpu req drv = (case req of
     Tx i skb q \<Rightarrow> do { (fs, d) \<leftarrow> tgd_terra_bh_tx_common ops cpu i q skb drv; Some (map (To_radio i) fs, d) }
   | Rx i skb \<Rightarrow> do { (fs, d) \<leftarrow> tgd_terra_rx_data_handler (frame_alloc env) cpu i skb drv;
                      Some (map (To_stack i) fs, d) }
   | Flow i link qid stop \<Rightarrow> do { d \<leftarrow> fb_tgd_bh_flow_control True cpu i link qid stop drv; Some ([], d) }
   | Qdisc_fc i color \<Rightarrow> on_dev i (netdev_tx_flow_control cpu color) drv
   | Set_mac a \<Rightarrow> Some ([], tgd_set_if_mac_addr a drv)
   | Fw_event ev \<Rightarrow> do { d \<leftarrow> tgd_fw_msg_handler ops env cpu ev drv; Some ([], d) }
   | Dev_alloc a \<Rightarrow> Some ([], snd (tgd_terra_dev_reserve a (nl_inc NL_CMD_DEV_ALLOC (nl_inc NL_MSG_RCVD drv))))
   | Add_key i kx pw m ps \<Rightarrow> Some ([], snd (tgd_cfg80211_add_key ops i kx pw m ps drv))
   | Del_key i pw \<Rightarrow> Some ([], snd (tgd_cfg80211_del_key ops i pw drv))
   | Key_work i \<Rightarrow> Some ([], if key_work_queued (wiphy (devs drv ! i)) then tgd_set_key_worker ops i drv else drv)
   | Scan i st \<Rightarrow> do { (r, p) \<leftarrow> tgd_cfg80211_scan st (devs drv ! i); on_dev i (\<lambda>_. p) drv }
   | Connect i \<Rightarrow> on_dev i (snd \<circ> tgd_cfg80211_connect) drv
   | Disconnect i \<Rightarrow> on_dev i (snd \<circ> tgd_cfg80211_disconnect) drv
   | Start_ap i \<Rightarrow> on_dev i tgd_cfg80211_start_ap drv
   | Stop_ap i \<Rightarrow> on_dev i tgd_cfg80211_stop_ap drv
   | Del_station i \<Rightarrow> on_dev i tgd_cfg80211_del_station drv
   | Change_station i m msk au \<Rightarrow> on_dev i (tgd_cfg80211_change_station m msk au) drv
   | Kernel_bss i b \<Rightarrow> on_dev i (upd_wiphy (\<lambda>w. w\<lparr>current_bss := b\<rparr>)) drv
   | Get_stats i \<Rightarrow> on_dev i (tgd_terra_update_link_stats ops (bh_ctx drv)) drv
   | Change_mtu i m \<Rightarrow> on_dev i (snd \<circ> tgd_terra_change_mtu m) drv)"

fun terra_run ::
  "'b bh_ops \<Rightarrow> terra_env \<Rightarrow> nat \<Rightarrow> terra_op list \<Rightarrow> 'b terra_driver \<Rightarrow> (terra_out list \<times> 'b terra_driver) option" where
  "terra_run ops env cpu [] drv = Some ([], drv)"
| "terra_run ops env cpu (r # rs) drv = do {
     (o1, d1) \<leftarrow> terra_exec ops env cpu r drv;
     (o2, d2) \<leftarrow> terra_run ops env cpu rs d1;
     Some (o1 @ o2, d2)
   }"

section \<open>The link table under every request\<close>

lemma same_link_refl [simp]: "same_link p p"
  by (simp add: same_link_def)

lemma same_link_trans: "same_link p q \<Longrightarrow> same_link q r \<Longrightarrow> same_link p r"
  by (simp add: same_link_def)

lemma same_link_inc [simp]: "same_link p (terra_dev_stats_inc c k n q) = same_link p q"
  by (simp add: same_link_def)

lemma nth_upd: "j < length xs \<Longrightarrow> xs[i := x] ! j = (if i = j then x else xs ! j)"
  by (auto simp: nth_list_update)

lemma same_link_upd:
  "same_link (devs drv ! i) (f (devs drv ! i)) \<Longrightarrow> list_all2 same_link (devs drv) (devs (upd_dev i f drv))"
  by (auto simp: upd_dev_def list_all2_conv_all_nth nth_upd)

lemma same_link_all_refl: "devs drv' = devs drv \<Longrightarrow> list_all2 same_link (devs drv) (devs drv')"
  by (simp add: list_all2_same)

lemma same_link_all_trans:
  "list_all2 same_link xs ys \<Longrightarrow> list_all2 same_link ys zs \<Longrightarrow> list_all2 same_link xs zs"
  by (rule list_all2_trans) (rule same_link_trans)

lemma table_ok_same:
  assumes "list_all2 same_link (devs drv) (devs drv')" and "table_ok drv"
  shows "table_ok drv'"
proof -
  have "map link_sta_addr (devs drv') = map link_sta_addr (devs drv)"
    using assms(1) by (auto simp: list_all2_conv_all_nth same_link_def intro!: nth_equalityI)
  moreover have "dev_ok q" if qs: "q \<in> set (devs drv')" for q
  proof -
    obtain j where "j < length (devs drv')" and q: "devs drv' ! j = q"
      using qs unfolding in_set_conv_nth by blast
    then have j: "j < length (devs drv)" by (simp only: list_all2_lengthD [OF assms(1)])
    have "same_link (devs drv ! j) q" using list_all2_nthD [OF assms(1) j] q by simp
    then show ?thesis using table_ok_nth [OF assms(2) j] by (rule same_link_ok)
  qed
  ultimately show ?thesis using assms(2) by (simp add: table_ok_def)
qed

lemma m4_sent_same [simp]: "same_link p (tgd_cfg80211_evt_m4_sent p)"
  by (simp add: tgd_cfg80211_evt_m4_sent_def same_link_def)

text \<open>What can become of a frame: it is dropped and counted, or it goes on with the address of the
  peer, counted for its queue.\<close>

lemma m4_check_cases:
  "m4_check skb proto p = Some p1 \<Longrightarrow> p1 = p \<or> p1 = tgd_cfg80211_evt_m4_sent p"
  by (auto simp: m4_check_def bind_eq_Some_conv split: if_splits)

lemma tx_pre_cases:
  assumes "tgd_terra_bh_tx_pre cpu q skb p = Some (r, p')"
  obtains (err) "r = None" "p' = terra_dev_stats_inc cpu TX_TGD_ERR 1 p"
      "sb_len skb < 14 \<or> \<not> carrier p \<or> link_state p \<noteq> TG_LINKUP \<or> tx_link p < 0"
    | (stopped) "r = None" "p' = terra_dev_stats_inc cpu TX_TGD_TX_STOPPED 1 p"
    | (closed) p1 where "r = None" "p' = terra_dev_stats_inc cpu TX_TGD_TX_STOPPED 1 p1"
      "p1 = p \<or> p1 = tgd_cfg80211_evt_m4_sent p"
    | (pass) p1 qid skb' where "r = Some skb'" "p' = terra_dev_stats_inc cpu (cos_stat qid) 1 p1"
      "p1 = p \<or> p1 = tgd_cfg80211_evt_m4_sent p" "14 \<le> sb_len skb" "carrier p" "link_state p = TG_LINKUP"
      "0 \<le> tx_link p" "qid < length (tx_stopped p)" "\<not> tx_stopped p ! qid"
      "qid = (if q < length (tx_stopped p) then q else 0)"
      "pae_closed p \<Longrightarrow> mem_read (sb_data skb + 12) 2 (sb_head skb) = Some ETH_P_PAE"
      "skb_store (sb_data skb) (link_sta_addr p) skb = Some skb'"
proof -
  let ?qid = "if length (tx_stopped p) \<le> q then 0 else q"
  consider "sb_len skb < 14 \<or> \<not> carrier p \<or> link_state p \<noteq> TG_LINKUP \<or> tx_link p < 0"
    | "14 \<le> sb_len skb" "carrier p" "link_state p = TG_LINKUP" "0 \<le> tx_link p" by fastforce
  then show thesis
  proof cases
    case 1
    then show thesis using assms by (intro err) (auto simp: tgd_terra_bh_tx_pre_def split: if_splits)
  next
    case 2
    then obtain st where st: "arr_get (tx_stopped p) ?qid = Some st"
      using assms by (auto simp: tgd_terra_bh_tx_pre_def Let_def bind_eq_Some_conv split: if_splits)
    then have q: "?qid < length (tx_stopped p)" "st = tx_stopped p ! ?qid" by (auto simp: mem_simps)
    show thesis
    proof (cases st)
      case True
      then show thesis using assms 2 st by (intro stopped) (auto simp: tgd_terra_bh_tx_pre_def Let_def)
    next
      case False
      then have "tx_port_check cpu ?qid skb p = Some (r, p')"
        using assms 2 st by (simp add: tgd_terra_bh_tx_pre_def Let_def)
      then obtain proto p1 where m: "mem_read (sb_data skb + 12) 2 (sb_head skb) = Some proto"
        "p1 = p \<or> p1 = tgd_cfg80211_evt_m4_sent p"
        "(if pae_closed p1 \<and> proto \<noteq> ETH_P_PAE
          then Some (None, terra_dev_stats_inc cpu TX_TGD_TX_STOPPED 1 p1)
          else do { skb' \<leftarrow> skb_store (sb_data skb) (link_sta_addr p1) skb;
                    Some (Some skb', terra_dev_stats_inc cpu (cos_stat ?qid) 1 p1) }) = Some (r, p')"
        unfolding tx_port_check_def by (blast elim!: bind_eq_Some_conv [THEN iffD1, elim_format] dest: m4_check_cases)
      have p1: "pae_closed p1 = pae_closed p" "link_sta_addr p1 = link_sta_addr p"
        using m(2) by (auto simp: tgd_cfg80211_evt_m4_sent_def split: if_splits)
      show thesis
      proof (cases "pae_closed p1 \<and> proto \<noteq> ETH_P_PAE")
        case True
        then show thesis using m by (intro closed) auto
      next
        case cl: False
        then obtain skb' where "skb_store (sb_data skb) (link_sta_addr p1) skb = Some skb'" "r = Some skb'"
          "p' = terra_dev_stats_inc cpu (cos_stat ?qid) 1 p1"
          using m(3) by (auto simp: bind_eq_Some_conv)
        then show thesis using 2 q False m p1 cl by (intro pass [of skb' ?qid p1]) auto
      qed
    qed
  qed
qed

lemma tx_pre_same:
  assumes "tgd_terra_bh_tx_pre cpu q skb p = Some (r, p')"
  shows "same_link p p'"
  using assms by (cases rule: tx_pre_cases) auto

lemma tx_data_devs: "fb_tgd_bh_tx_data ops p skb drv = Some (r, drv') \<Longrightarrow> devs drv' = devs drv \<and> r = 0"
  by (auto simp: fb_tgd_bh_tx_data_def split: option.splits)

text \<open>A request to transmit: what becomes of the device and what goes out.\<close>

lemma tx_common_cases:
  assumes "tgd_terra_bh_tx_common ops cpu i q skb drv = Some (fs, drv')"
  shows "\<exists>r p. tgd_terra_bh_tx_pre cpu q skb (devs drv ! i) = Some (r, p) \<and>
               devs drv' = (devs drv)[i := p] \<and> fs = (case r of None \<Rightarrow> [] | Some s \<Rightarrow> [s])"
proof -
  obtain r p where rp: "tgd_terra_bh_tx_pre cpu q skb (devs drv ! i) = Some (r, p)"
    using assms by (auto simp: tgd_terra_bh_tx_common_def bind_eq_Some_conv)
  have "devs drv' = (devs drv)[i := p] \<and> fs = (case r of None \<Rightarrow> [] | Some s \<Rightarrow> [s])"
  proof (cases r)
    case None
    then show ?thesis using assms rp by (auto simp: tgd_terra_bh_tx_common_def upd_dev_def Let_def)
  next
    case (Some s)
    then obtain d k where "fb_tgd_bh_tx_data ops (devs (upd_dev i (\<lambda>_. p) drv) ! i) s (upd_dev i (\<lambda>_. p) drv)
        = Some (k, d)" "fs = [s]" "drv' = (if k < 0 then upd_dev i (terra_dev_stats_inc cpu TX_TGD_ERR 1) d else d)"
      using assms rp
      by (auto simp: tgd_terra_bh_tx_common_def tgd_terra_bh_tx_post_def Let_def bind_eq_Some_conv)
    then show ?thesis using Some by (auto simp: upd_dev_def dest!: tx_data_devs)
  qed
  then show ?thesis using rp by blast
qed

lemma bh_key_devs [simp]: "devs (snd (fb_tgd_bh_set_key ops p m k drv)) = devs drv"
  by (simp add: fb_tgd_bh_set_key_def split_def Let_def split: option.splits)

lemma bh_ioctl_devs [simp]: "devs (snd (snd (fb_tgd_bh_ioctl ops b drv))) = devs drv"
  by (simp add: fb_tgd_bh_ioctl_def split_def Let_def split: option.splits)

lemma nl_devs [simp]: "devs (nl_inc k drv) = devs drv" "devs (nl_notify m drv) = devs drv"
  by (simp_all add: nl_inc_def nl_notify_def)

lemma send_devs [simp]:
  "devs (tgd_send_link_del_resp ops env m drv) = devs drv" "devs (tgd_send_gps_pos ops env b drv) = devs drv"
  by (simp_all add: tgd_send_link_del_resp_def tgd_send_gps_pos_def)

lemma add_key_same: "list_all2 same_link (devs drv) (devs (snd (tgd_cfg80211_add_key ops i kx pw m ps drv)))"
  by (auto simp: tgd_cfg80211_add_key_def Let_def upd_dev_def tgd_cfg80211_set_key_def split_def
      list_all2_conv_all_nth nth_upd same_link_def)

lemma del_key_same: "list_all2 same_link (devs drv) (devs (snd (tgd_cfg80211_del_key ops i pw drv)))"
  by (auto simp: tgd_cfg80211_del_key_def Let_def upd_dev_def tgd_cfg80211_set_key_def
      list_all2_conv_all_nth nth_upd same_link_def)

lemma key_worker_same: "list_all2 same_link (devs drv) (devs (tgd_set_key_worker ops i drv))"
  by (auto simp: tgd_set_key_worker_def Let_def upd_dev_def tgd_cfg80211_set_key_def
      list_all2_conv_all_nth nth_upd same_link_def)

lemma port_ops_same [simp]:
  "same_link p (snd (tgd_cfg80211_connect p))" "same_link p (snd (tgd_cfg80211_disconnect p))"
  "same_link p (tgd_cfg80211_start_ap p)" "same_link p (tgd_cfg80211_stop_ap p)"
  "same_link p (tgd_cfg80211_del_station p)" "same_link p (tgd_cfg80211_change_station m msk au p)"
  "same_link p (netdev_tx_flow_control cpu color p)" "same_link p (snd (tgd_terra_change_mtu n p))"
  "same_link p (upd_wiphy f p)" "same_link p (tgd_terra_update_link_stats ops ctx p)"
  by (simp_all add: tgd_cfg80211_connect_def tgd_cfg80211_disconnect_def tgd_cfg80211_start_ap_def
      tgd_cfg80211_stop_ap_def tgd_cfg80211_del_station_def tgd_cfg80211_change_station_def
      cfg80211_disassoc_def tgd_cfg80211_disauth_def netdev_tx_flow_control_def tgd_terra_change_mtu_def
      Let_def split: fc_level.splits) (simp_all add: same_link_def notify_def)

lemma scan_same: "tgd_cfg80211_scan st p = Some (r, q) \<Longrightarrow> same_link p q"
  by (auto simp: tgd_cfg80211_scan_def tgd_cfg80211_scan_result_def Let_def bind_eq_Some_conv split: if_splits)

lemma flow_same: "tgd_flow_control_common cpu link qid stop en p = Some q \<Longrightarrow> same_link p q"
  by (auto simp: tgd_flow_control_common_def bind_eq_Some_conv same_link_def split: if_splits)

lemma evt_connect_same:
  assumes "tgd_cfg80211_evt_tg_connect ev ies peer rl sl wsec p = Some q"
  shows "same_link p q \<and> (wsec \<noteq> TGF_WSEC_DISABLE \<longrightarrow> pae_closed p \<longrightarrow> pae_closed q)"
proof -
  have upd: "same_link p1 p2" if "tgd_cfg80211_update_rsnie_info ev s a wsec p1 = Some p2" for s a p1 p2
    using that by (auto simp: tgd_cfg80211_update_rsnie_info_def bind_eq_Some_conv)
  have dis: "same_link p p2"
    if "tgd_cfg80211_notify_disconnect (upd_wiphy f p) = Some p2" for p2 f
    using notify_disconnect_ok [of "upd_wiphy f p"] that by (auto simp: same_link_def)
  show ?thesis
    using assms
    by (auto simp: tgd_cfg80211_evt_tg_connect_def bind_eq_Some_conv intro: same_link_trans
        dest!: upd dis split: if_splits)
qed

lemma evt_disconnect_same:
  assumes "tgd_cfg80211_evt_tg_disconnect p = Some q"
  shows "same_link p q \<and> (pae_closed p \<longrightarrow> pae_closed q)"
  using evt_tg_disconnect_ok [of p] assms by auto

text \<open>Addresses in requests are those of peers: six bytes, not all zero.\<close>

definition req_ok :: "terra_op \<Rightarrow> bool" where
  "req_ok req \<longleftrightarrow> (case req of
     Dev_alloc a \<Rightarrow> length a = 6 \<and> a \<noteq> zero_mac
   | Fw_event ev \<Rightarrow>
       (ev ! 0 = 102 \<longrightarrow> take 6 (drop 4 ev) \<noteq> zero_mac) \<and> (ev ! 0 = 103 \<longrightarrow> take 6 (drop 5 ev) \<noteq> zero_mac)
   | _ \<Rightarrow> True)"

lemma update_link_port_same:
  assumes "update_link_port ev h dev drv = Some drv'"
  shows "list_all2 same_link (devs drv) (devs drv')"
proof -
  have "list_all2 same_link (devs drv) (devs (upd_dev i (\<lambda>_. p) drv))"
    if "same_link (devs drv ! i) p" for i p using same_link_upd [of drv i "\<lambda>_. p"] that by simp
  then show ?thesis
    using assms
    by (auto simp: update_link_port_def Let_def bind_eq_Some_conv list_all2_same
        dest!: evt_connect_same evt_disconnect_same split: option.splits if_splits)
qed

lemma update_link_ok:
  assumes "handle_update_link ev drv = Some drv'" and "table_ok drv" and "take 6 (drop 5 ev) \<noteq> zero_mac"
  shows "table_ok drv'"
proof -
  from assms(1) obtain h where h: "mem_read 4 13 ev = Some h" by (auto simp: handle_update_link_def bind_eq_Some_conv)
  then have addr: "take 6 (drop 1 h) = take 6 (drop 5 ev)" by (auto simp: mem_simps drop_take)
  define d where "d = snd (tgd_terra_set_link_status (Some (take 6 (drop 1 h))) (to_link_status (h ! 0)) drv)"
  have "table_ok d" unfolding d_def using assms(2,3) addr by (intro table_ok_set_status) auto
  then have "table_ok (nl_notify m d)" for m by (simp add: table_ok_def)
  moreover obtain dev m where "update_link_port ev h dev (nl_notify m d) = Some drv'"
    using assms(1) h unfolding handle_update_link_def Let_def d_def by auto
  ultimately show ?thesis using update_link_port_same table_ok_same by blast
qed

lemma fw_event_type:
  assumes "tgd_fw_msg_handler ops env cpu ev drv = Some drv'"
  shows "mem_read 0 1 ev = Some [ev ! 0]"
proof -
  have "ev \<noteq> []" using assms by (auto simp: tgd_fw_msg_handler_def mem_read_def)
  then show ?thesis using mem_read_1 [of 0 ev] by simp
qed

lemma fw_handler_ok:
  assumes "tgd_fw_msg_handler ops env cpu ev drv = Some drv'" and "table_ok drv" and "req_ok (Fw_event ev)"
  shows "table_ok drv'"
proof -
  note t = fw_event_type [OF assms(1)]
  have n: "table_ok (nl_inc k x) = table_ok x" "table_ok (nl_notify m x) = table_ok x"
    "table_ok (x\<lparr>gps_state := g\<rparr>) = table_ok x"
    "table_ok (tgd_send_link_del_resp ops env b x) = table_ok x"
    "table_ok (tgd_send_gps_pos ops env b x) = table_ok x" for k m g b and x :: "'a terra_driver"
    by (simp_all add: table_ok_def)
  consider "ev ! 0 = 103" | "ev ! 0 = 102" | "ev ! 0 = 104" | "ev ! 0 \<noteq> 103" "ev ! 0 \<noteq> 102" "ev ! 0 \<noteq> 104"
    by blast
  then show ?thesis
  proof cases
    case 1
    then show ?thesis using assms t
      by (auto simp: tgd_fw_msg_handler_def Let_def req_ok_def n elim!: update_link_ok)
  next
    case 2
    then obtain h where h: "mem_read 4 8 ev = Some h"
      "drv' = tgd_terra_set_link_mac_addr ops (take 6 h) (h ! 6) (h ! 7) (nl_inc NL_NB_LINK_INFO (nl_inc NL_EVENTS drv))"
      using assms(1) t by (auto simp: tgd_fw_msg_handler_def Let_def bind_eq_Some_conv)
    then have "take 6 h = take 6 (drop 4 ev)" "length (take 6 h) = 6" by (auto simp: mem_simps)
    then show ?thesis
      using assms(2,3) 2 h(2) by (auto simp: req_ok_def n intro!: table_ok_set_link_mac)
  next
    case 3
    then show ?thesis using assms t
      by (auto simp: tgd_fw_msg_handler_def Let_def n bind_eq_Some_conv intro!: table_ok_del_link)
  next
    case 4
    then show ?thesis using assms t
      by (auto simp: tgd_fw_msg_handler_def Let_def n bind_eq_Some_conv split: if_splits option.splits)
  qed
qed

lemma table_ok_upd_same:
  "table_ok drv \<Longrightarrow> same_link (devs drv ! i) (f (devs drv ! i)) \<Longrightarrow> table_ok (upd_dev i f drv)"
  using same_link_upd table_ok_same by blast

lemma tx_common_ok:
  assumes "tgd_terra_bh_tx_common ops cpu i q skb drv = Some (fs, drv')" and "table_ok drv"
  shows "table_ok drv'"
proof -
  obtain r p where rp: "tgd_terra_bh_tx_pre cpu q skb (devs drv ! i) = Some (r, p)" "devs drv' = (devs drv)[i := p]"
    using tx_common_cases [OF assms(1)] by blast
  have "table_ok (upd_dev i (\<lambda>_. p) drv)"
    using assms(2) tx_pre_same [OF rp(1)] by (intro table_ok_upd_same) auto
  then show ?thesis using rp(2) by (simp add: table_ok_def upd_dev_def)
qed

lemma terra_exec_ok:
  assumes "terra_exec ops env cpu req drv = Some (out, drv')" and "table_ok drv" and "req_ok req"
  shows "table_ok drv'"
proof -
  have n: "table_ok (nl_inc k x) = table_ok x" for k and x :: "'a terra_driver" by (simp add: table_ok_def)
  note upd = table_ok_upd_same [OF assms(2)]
  show ?thesis
  proof (cases req)
    case (Tx i skb q)
    then show ?thesis using assms by (auto simp: terra_exec_def bind_eq_Some_conv elim!: tx_common_ok)
  next
    case (Rx i skb)
    then show ?thesis using assms
      by (auto simp: terra_exec_def tgd_terra_rx_data_handler_def bind_eq_Some_conv split: if_splits intro!: upd)
  next
    case (Flow i link qid stop)
    then show ?thesis using assms
      by (auto simp: terra_exec_def fb_tgd_bh_flow_control_def bind_eq_Some_conv intro!: upd dest: flow_same)
  next
    case (Fw_event ev)
    then show ?thesis using assms by (auto simp: terra_exec_def bind_eq_Some_conv elim!: fw_handler_ok)
  next
    case (Dev_alloc a)
    then show ?thesis using assms by (auto simp: terra_exec_def req_ok_def n intro!: table_ok_reserve)
  next
    case (Set_mac a)
    then show ?thesis using assms by (auto simp: terra_exec_def table_ok_if_mac)
  next
    case (Add_key i kx pw m ps)
    then show ?thesis using assms table_ok_same [OF add_key_same] by (auto simp: terra_exec_def)
  next
    case (Del_key i pw)
    then show ?thesis using assms table_ok_same [OF del_key_same] by (auto simp: terra_exec_def)
  next
    case (Key_work i)
    then show ?thesis using assms table_ok_same [OF key_worker_same]
      by (auto simp: terra_exec_def split: if_splits)
  next
    case (Scan i st)
    then show ?thesis using assms
      by (auto simp: terra_exec_def on_dev_def bind_eq_Some_conv intro!: upd dest: scan_same)
  qed (use assms in \<open>auto simp: terra_exec_def on_dev_def intro!: upd\<close>)
qed

text \<open>States the driver reaches: devices are created, then requests come in any order, on any CPU.\<close>

inductive terra_reach :: "'b bh_ops \<Rightarrow> 'b terra_driver \<Rightarrow> bool" for ops :: "'b bh_ops" where
  probe: "devs drv = [] \<Longrightarrow> terra_reach ops drv"
| create: "terra_reach ops drv \<Longrightarrow>
           terra_reach ops (snd (tgd_terra_create_device ret ncpu mtu0 nv idx peer drv))"
| step: "terra_reach ops drv \<Longrightarrow> req_ok req \<Longrightarrow> terra_exec ops env cpu req drv = Some (out, drv') \<Longrightarrow>
         terra_reach ops drv'"

lemma terra_reach_table_ok: "terra_reach ops drv \<Longrightarrow> table_ok drv"
proof (induction rule: terra_reach.induct)
  case (probe drv)
  then show ?case by (simp add: table_ok_def)
next
  case (create drv ret ncpu mtu0 nv idx peer)
  then show ?case by (simp add: table_ok_create)
next
  case (step drv req env cpu out drv')
  then show ?case using terra_exec_ok by blast
qed

section \<open>What changes the state of a link\<close>

lemma states_same: "list_all2 same_link xs ys \<Longrightarrow> map link_state ys = map link_state xs"
  by (induction rule: list_all2_induct) (auto simp: same_link_def)

lemma states_upd_same: "same_link (devs drv ! i) (f (devs drv ! i)) \<Longrightarrow> map link_state (devs (upd_dev i f drv)) = map link_state (devs drv)"
  using same_link_upd states_same by blast

lemma reserve_states: "map link_state (devs (snd (tgd_terra_dev_reserve a drv))) = map link_state (devs drv)"
proof -
  have "map link_state (devs (upd_dev i (\<lambda>p. p\<lparr>link_sta_addr := a\<rparr>) drv)) = map link_state (devs drv)" for i
    by (cases "i < length (devs drv)") (simp_all add: upd_dev_def map_update list_update_same_conv list_update_beyond)
  then show ?thesis by (simp add: tgd_terra_dev_reserve_def split: option.splits)
qed

lemma tx_common_states:
  assumes "tgd_terra_bh_tx_common ops cpu i q skb drv = Some (fs, drv')"
  shows "map link_state (devs drv') = map link_state (devs drv)"
proof -
  obtain r p where rp: "tgd_terra_bh_tx_pre cpu q skb (devs drv ! i) = Some (r, p)" "devs drv' = (devs drv)[i := p]"
    using tx_common_cases [OF assms] by blast
  then show ?thesis using states_upd_same [of drv i "\<lambda>_. p"] tx_pre_same [OF rp(1)] by (simp add: upd_dev_def)
qed

text \<open>A request that is not an event of the firmware leaves the state of every link as it is.\<close>

lemma exec_states:
  assumes "terra_exec ops env cpu req drv = Some (out, drv')" and "\<And>ev. req \<noteq> Fw_event ev"
  shows "map link_state (devs drv') = map link_state (devs drv)"
proof -
  note upd = states_upd_same [of drv]
  show ?thesis
  proof (cases req)
    case (Tx i skb q)
    then show ?thesis using assms by (auto simp: terra_exec_def bind_eq_Some_conv elim!: tx_common_states)
  next
    case (Rx i skb)
    then show ?thesis using assms
      by (auto simp: terra_exec_def tgd_terra_rx_data_handler_def bind_eq_Some_conv split: if_splits intro!: upd)
  next
    case (Flow i link qid stop)
    then show ?thesis using assms
      by (auto simp: terra_exec_def fb_tgd_bh_flow_control_def bind_eq_Some_conv intro!: upd dest: flow_same)
  next
    case (Dev_alloc a)
    then show ?thesis using assms by (auto simp: terra_exec_def reserve_states)
  next
    case (Set_mac a)
    then show ?thesis using assms by (auto simp: terra_exec_def tgd_set_if_mac_addr_def)
  next
    case (Add_key i kx pw m ps)
    then show ?thesis using assms states_same [OF add_key_same] by (auto simp: terra_exec_def)
  next
    case (Del_key i pw)
    then show ?thesis using assms states_same [OF del_key_same] by (auto simp: terra_exec_def)
  next
    case (Key_work i)
    then show ?thesis using assms states_same [OF key_worker_same] by (auto simp: terra_exec_def split: if_splits)
  next
    case (Scan i st)
    then show ?thesis using assms
      by (auto simp: terra_exec_def on_dev_def bind_eq_Some_conv intro!: upd dest: scan_same)
  qed (use assms in \<open>auto simp: terra_exec_def on_dev_def intro!: upd\<close>)
qed

text \<open>
  A device gets a link only by LINK_INFO (102), which names its new peer and leaves the link down, or by
  UPDATE_LINK (103) with status up (3) for its peer; it loses it only by DEL_LINK (104) for its peer.
\<close>

definition link_change :: "terra_op \<Rightarrow> dev_priv \<Rightarrow> dev_priv \<Rightarrow> bool" where
  "link_change req p p' \<longleftrightarrow>
     (link_state p = TG_LINKINIT \<and> link_state p' \<noteq> TG_LINKINIT \<longrightarrow> (\<exists>ev. req = Fw_event ev \<and>
        (ev ! 0 = 102 \<and> link_sta_addr p' = take 6 (drop 4 ev) \<and> link_state p' = TG_LINKDOWN \<or>
         ev ! 0 = 103 \<and> ev ! 4 = 3 \<and> link_sta_addr p = take 6 (drop 5 ev) \<and> link_state p' = TG_LINKUP))) \<and>
     (link_state p \<noteq> TG_LINKINIT \<and> link_state p' = TG_LINKINIT \<longrightarrow> (\<exists>ev. req = Fw_event ev \<and>
        ev ! 0 = 104 \<and> link_sta_addr p = take 6 (drop 4 ev)))"

lemma link_change_same: "link_state p' = link_state p \<Longrightarrow> link_change req p p'"
  by (simp add: link_change_def)

lemma set_link_status_change:
  assumes "i < length (devs drv)"
  shows "let q = devs (snd (tgd_terra_set_link_status (Some a) s drv)) ! i; p = devs drv ! i in
    link_state q = link_state p \<or> link_sta_addr p = a \<and> s = TG_LINKUP \<and> link_state q = TG_LINKUP \<or>
    link_state p \<noteq> TG_LINKINIT \<and> link_state q \<noteq> TG_LINKINIT"
  using assms
  by (auto simp: tgd_terra_set_link_status_def tgd_terra_find_net_device_by_mac_def upd_dev_def nth_upd link_status_step_def Let_def
      dest!: find_idx_Some split: option.splits tgLinkStatus.splits)

lemma set_link_mac_change:
  assumes "i < length (devs drv)"
  shows "let q = devs (tgd_terra_set_link_mac_addr ops a rl xl drv) ! i in
    link_state q = link_state (devs drv ! i) \<or> link_sta_addr q = a \<and> link_state q = TG_LINKDOWN"
  using assms
  by (auto simp: tgd_terra_set_link_mac_addr_def tgd_terra_dev_reserve_def fb_tgd_bh_add_links_info_def fb_tgd_bh_add_link_info_def
      upd_dev_def nth_upd Let_def split_def split: option.splits)

lemma del_link_change:
  assumes "i < length (devs drv)"
  shows "let q = devs (snd (tgd_terra_del_link_info ops cpu (Some a) drv)) ! i; p = devs drv ! i in
    link_state q = link_state p \<or> link_sta_addr p = a \<and> link_state q = TG_LINKINIT"
  using assms
  by (auto simp: tgd_terra_del_link_info_def tgd_terra_find_net_device_by_mac_def fb_tgd_bh_del_links_info_def
      fb_tgd_bh_delete_link_info_def upd_dev_def nth_upd Let_def split_def spill_stats_def
      dest!: find_idx_Some split: option.splits)

lemma update_link_change:
  assumes "handle_update_link ev drv = Some drv'" and "i < length (devs drv)" and "ev ! 0 = 103"
  shows "link_change (Fw_event ev) (devs drv ! i) (devs drv' ! i)"
proof -
  from assms(1) obtain h where h: "mem_read 4 13 ev = Some h" by (auto simp: handle_update_link_def bind_eq_Some_conv)
  then have addr: "take 6 (drop 1 h) = take 6 (drop 5 ev)" "h ! 0 = ev ! 4" by (auto simp: mem_simps drop_take)
  let ?d = "snd (tgd_terra_set_link_status (Some (take 6 (drop 1 h))) (to_link_status (h ! 0)) drv)"
  obtain dev m where u: "update_link_port ev h dev (nl_notify m ?d) = Some drv'"
    using assms(1) h unfolding handle_update_link_def Let_def by auto
  have len: "length (devs ?d) = length (devs drv)"
    by (simp add: tgd_terra_set_link_status_def upd_dev_def split: option.splits)
  have "map link_state (devs drv') = map link_state (devs ?d)" using states_same [OF update_link_port_same [OF u]] by simp
  then have "link_state (devs drv' ! i) = link_state (devs ?d ! i)"
    using assms(2) len by (metis length_map nth_map)
  then show ?thesis
    using set_link_status_change [OF assms(2), of "take 6 (drop 1 h)" "to_link_status (h ! 0)"] addr assms(3)
    by (auto simp: link_change_def Let_def to_link_status_def split: if_splits)
qed

lemma fw_handler_change:
  assumes "tgd_fw_msg_handler ops env cpu ev drv = Some drv'" and "i < length (devs drv)"
  shows "link_change (Fw_event ev) (devs drv ! i) (devs drv' ! i)"
proof -
  note t = fw_event_type [OF assms(1)]
  consider "ev ! 0 = 103" | "ev ! 0 = 102" | "ev ! 0 = 104" | "ev ! 0 \<noteq> 103" "ev ! 0 \<noteq> 102" "ev ! 0 \<noteq> 104"
    by blast
  then show ?thesis
  proof cases
    case 1
    then have "handle_update_link ev (nl_inc NL_NB_UPDATE_LINK_REQ (nl_inc NL_EVENTS drv)) = Some drv'"
      using assms(1) t by (auto simp: tgd_fw_msg_handler_def Let_def)
    from update_link_change [OF this] show ?thesis using assms(2) 1 by simp
  next
    case 2
    then obtain h where h: "mem_read 4 8 ev = Some h"
      "drv' = tgd_terra_set_link_mac_addr ops (take 6 h) (h ! 6) (h ! 7) (nl_inc NL_NB_LINK_INFO (nl_inc NL_EVENTS drv))"
      using assms(1) t by (auto simp: tgd_fw_msg_handler_def Let_def bind_eq_Some_conv)
    then have "take 6 h = take 6 (drop 4 ev)" by (auto simp: mem_simps)
    then show ?thesis
      using set_link_mac_change [of i "nl_inc NL_NB_LINK_INFO (nl_inc NL_EVENTS drv)" ops "take 6 h" "h ! 6" "h ! 7"] assms(2) 2 h(2)
      by (auto simp: link_change_def Let_def)
  next
    case 3
    then obtain m where m: "mem_read 4 6 ev = Some m"
      "devs drv' = devs (snd (tgd_terra_del_link_info ops cpu (Some m) (nl_inc NL_NB_DEL_LINK_REQ (nl_inc NL_EVENTS drv))))"
      using assms(1) t by (auto simp: tgd_fw_msg_handler_def Let_def bind_eq_Some_conv)
    then have "m = take 6 (drop 4 ev)" by (auto simp: mem_simps)
    then show ?thesis
      using del_link_change [of i "nl_inc NL_NB_DEL_LINK_REQ (nl_inc NL_EVENTS drv)" ops cpu m] assms(2) 3 m(2)
      by (auto simp: link_change_def Let_def)
  next
    case 4
    then have "devs drv' = devs drv" using assms(1) t
      by (auto simp: tgd_fw_msg_handler_def Let_def bind_eq_Some_conv split: if_splits option.splits)
    then show ?thesis by (simp add: link_change_same)
  qed
qed

lemma exec_change:
  assumes "terra_exec ops env cpu req drv = Some (out, drv')" and "i < length (devs drv)"
  shows "link_change req (devs drv ! i) (devs drv' ! i)"
proof (cases "\<exists>ev. req = Fw_event ev")
  case True
  then show ?thesis using assms fw_handler_change by (auto simp: terra_exec_def bind_eq_Some_conv)
next
  case False
  then have "map link_state (devs drv') = map link_state (devs drv)" using exec_states [OF assms(1)] by blast
  then have "link_state (devs drv' ! i) = link_state (devs drv ! i)" using assms(2) by (metis length_map nth_map)
  then show ?thesis by (rule link_change_same)
qed

text \<open>
  C16. The link table stays consistent through every sequence of requests within \<open>req_ok\<close>: LINK_INFO, UPDATE_LINK
  and DEV_ALLOC carry the address of a peer, which is not zero (the code does not check that; the zero address marks
  devices that were never used, and with it the table would not stay consistent). In every state that is reached, a
  device without a link has neither a transmit nor a receive link, the identifiers of a link are bytes and set
  together, an unused device is inactive, and the devices never used stand behind those that were. And whatever
  request comes next, a device becomes active only by LINK_INFO, which gives it its peer and leaves the link
  down, or by an UPDATE_LINK that reports the link of its peer up; it becomes inactive only by DEL_LINK for its peer.
\<close>

theorem terra_link_table_inv:
  assumes "terra_reach ops drv"
  shows "(\<forall>p \<in> set (devs drv).
            (tx_link p = - 1 \<and> rx_link p = - 1 \<or>
             0 \<le> tx_link p \<and> tx_link p < 256 \<and> 0 \<le> rx_link p \<and> rx_link p < 256) \<and>
            (link_state p = TG_LINKINIT \<longrightarrow> tx_link p = - 1) \<and>
            (link_sta_addr p = zero_mac \<longrightarrow> link_state p = TG_LINKINIT)) \<and>
         zeros_last (map link_sta_addr (devs drv)) \<and>
         (\<forall>env cpu req out drv' i. terra_exec ops env cpu req drv = Some (out, drv') \<and> i < length (devs drv) \<longrightarrow>
            link_change req (devs drv ! i) (devs drv' ! i))"
  using terra_reach_table_ok [OF assms] by (simp add: table_ok_def dev_ok_def) (blast intro: exec_change)

text \<open>
  In every state the driver reaches, a peer is given a device in the documented order: an
  inactive device it used before, otherwise the first one never used, otherwise the first inactive
  one. The single pass of the code would not do so on an arbitrary table, where an unused device
  could come before the one the peer had.
\<close>

theorem terra_reserve_order:
  assumes "terra_reach ops drv" and "a \<noteq> zero_mac"
  shows "fst (tgd_terra_dev_reserve a drv) = reserve_spec a (devs drv)"
proof -
  have "zeros_last (map link_sta_addr (devs drv))"
    using terra_reach_table_ok [OF assms(1)] by (simp add: table_ok_def)
  from reserve_scan_spec [OF this assms(2)] show ?thesis
    by (simp add: tgd_terra_dev_reserve_def split: option.splits)
qed

section \<open>The closed port\<close>

definition is_eapol :: "sk_buff \<Rightarrow> bool" where
  "is_eapol skb \<longleftrightarrow> mem_read (sb_data skb + 12) 2 (sb_head skb) = Some ETH_P_PAE"

text \<open>The requests that may open the port of a device: the authorization by the supplicant or
  authenticator, and a link that comes up without security.\<close>

definition opens :: "nat \<Rightarrow> terra_op \<Rightarrow> bool" where
  "opens i req \<longleftrightarrow> (case req of
     Change_station j m msk au \<Rightarrow> j = i \<and> msk \<and> au
   | Fw_event ev \<Rightarrow> ev ! 0 = 103 \<and> ev ! 4 = 3 \<and> ev ! 16 = 0
   | _ \<Rightarrow> False)"

text \<open>Closed ports stay closed.\<close>

definition ports_kept :: "'b terra_driver \<Rightarrow> 'b terra_driver \<Rightarrow> bool" where
  "ports_kept drv drv' \<longleftrightarrow> list_all2 (\<lambda>p q. pae_closed p \<longrightarrow> pae_closed q) (devs drv) (devs drv')"

lemma ports_kept_nth:
  "ports_kept drv drv' \<Longrightarrow> i < length (devs drv) \<Longrightarrow> pae_closed (devs drv ! i) \<Longrightarrow>
   length (devs drv') = length (devs drv) \<and> pae_closed (devs drv' ! i)"
  by (auto simp: ports_kept_def list_all2_conv_all_nth)

lemma ports_kept_upd:
  "(pae_closed (devs drv ! i) \<Longrightarrow> pae_closed (f (devs drv ! i))) \<Longrightarrow> ports_kept drv (upd_dev i f drv)"
  by (auto simp: ports_kept_def upd_dev_def list_all2_conv_all_nth nth_upd)

lemma ports_kept_refl: "devs drv' = devs drv \<Longrightarrow> ports_kept drv drv'"
  by (simp add: ports_kept_def list_all2_same)

lemma ports_kept_same [simp]: "ports_kept drv drv"
  by (simp add: ports_kept_refl)

lemma ports_kept_trans: "ports_kept a b \<Longrightarrow> ports_kept b c \<Longrightarrow> ports_kept a c"
  by (simp add: ports_kept_def list_all2_conv_all_nth)

lemma ports_kept_map:
  "length (devs drv') = length (devs drv) \<Longrightarrow>
   (\<And>j. j < length (devs drv) \<Longrightarrow> pae_closed (devs drv ! j) \<Longrightarrow> pae_closed (devs drv' ! j)) \<Longrightarrow>
   ports_kept drv drv'"
  by (simp add: ports_kept_def list_all2_conv_all_nth)

lemma port_fields [simp]:
  "pae_closed (snd (link_status_step new p)) = pae_closed p"
  "pae_closed (tgd_cfg80211_evt_m4_sent p) = pae_closed p"
  "pae_closed (netdev_tx_flow_control cpu color p) = pae_closed p"
  "pae_closed (snd (tgd_terra_change_mtu n p)) = pae_closed p"
  "pae_closed (snd (tgd_cfg80211_connect p)) = pae_closed p"
  "pae_closed (tgd_cfg80211_start_ap p) = pae_closed p"
  "pae_closed (tgd_cfg80211_stop_ap p) = pae_closed p"
  "pae_closed (tgd_cfg80211_del_station p)"
  by (auto simp: link_status_step_def tgd_cfg80211_evt_m4_sent_def netdev_tx_flow_control_def
      tgd_terra_change_mtu_def tgd_cfg80211_connect_def tgd_cfg80211_start_ap_def tgd_cfg80211_stop_ap_def
      tgd_cfg80211_del_station_def cfg80211_disassoc_def tgd_cfg80211_disauth_def Let_def
      split: tgLinkStatus.splits fc_level.splits)

lemma disconnect_port: "pae_closed p \<Longrightarrow> pae_closed (snd (tgd_cfg80211_disconnect p))"
  by (simp add: tgd_cfg80211_disconnect_def cfg80211_disassoc_def tgd_cfg80211_disauth_def)

lemma tx_pre_port: "tgd_terra_bh_tx_pre cpu q skb p = Some (r, p') \<Longrightarrow> pae_closed p' = pae_closed p"
  by (erule tx_pre_cases) auto

lemma set_status_port: "ports_kept drv (snd (tgd_terra_set_link_status m new drv))"
  by (auto simp: tgd_terra_set_link_status_def upd_dev_def nth_upd intro!: ports_kept_map split: option.splits)

lemma del_link_port: "ports_kept drv (snd (tgd_terra_del_link_info ops cpu m drv))"
  by (auto simp: tgd_terra_del_link_info_def del_links_info_devs nth_upd intro!: ports_kept_map
      dest!: find_mac_Some split: option.splits)

lemma reserve_port: "ports_kept drv (snd (tgd_terra_dev_reserve a drv))"
  by (auto simp: tgd_terra_dev_reserve_def intro!: ports_kept_upd split: option.splits)

lemma set_link_mac_port: "ports_kept drv (tgd_terra_set_link_mac_addr ops a rx tx drv)"
  by (auto simp: tgd_terra_set_link_mac_addr_def tgd_terra_dev_reserve_def fb_tgd_bh_add_links_info_def
      upd_dev_def nth_upd Let_def intro!: ports_kept_map split: option.splits)

lemma key_ops_port:
  "ports_kept drv (snd (tgd_cfg80211_add_key ops i kx pw m ps drv))"
  "ports_kept drv (snd (tgd_cfg80211_del_key ops i pw drv))"
  "ports_kept drv (tgd_set_key_worker ops i drv)"
  by (auto simp: tgd_cfg80211_add_key_def tgd_cfg80211_del_key_def tgd_set_key_worker_def Let_def upd_dev_def
      tgd_cfg80211_set_key_def split_def nth_upd intro!: ports_kept_map)

lemma flow_port:
  assumes "fb_tgd_bh_flow_control en cpu i link qid stop drv = Some drv'"
  shows "ports_kept drv drv'"
proof -
  have "pae_closed q = pae_closed p"
    if "tgd_flow_control_common cpu link qid stop (fc_enable drv) p = Some q" for p q
    using that by (auto simp: tgd_flow_control_common_def bind_eq_Some_conv split: if_splits)
  then show ?thesis using assms
    by (auto simp: fb_tgd_bh_flow_control_def bind_eq_Some_conv intro!: ports_kept_upd split: if_splits)
qed

lemma update_link_port_kept:
  assumes "update_link_port ev h dev drv = Some drv'" and "\<not> (h ! 0 = 3 \<and> h ! 12 = 0)"
  shows "ports_kept drv drv'"
proof -
  have w: "to_wsec b = TGF_WSEC_DISABLE \<longleftrightarrow> b = 0" for b by (simp add: to_wsec_def)
  show ?thesis
    using assms
    by (auto simp: update_link_port_def Let_def bind_eq_Some_conv w intro!: ports_kept_upd
        dest!: evt_connect_same evt_disconnect_same split: option.splits if_splits)
qed

lemma update_link_kept:
  assumes "handle_update_link ev drv = Some drv'" and "\<not> (ev ! 4 = 3 \<and> ev ! 16 = 0)"
  shows "ports_kept drv drv'"
proof -
  from assms(1) obtain h where h: "mem_read 4 13 ev = Some h" by (auto simp: handle_update_link_def bind_eq_Some_conv)
  then have f: "h ! 0 = ev ! 4" "h ! 12 = ev ! 16" by (auto simp: mem_simps)
  define d where "d = snd (tgd_terra_set_link_status (Some (take 6 (drop 1 h))) (to_link_status (h ! 0)) drv)"
  have d: "ports_kept drv d" unfolding d_def by (rule set_status_port)
  obtain dev m where u: "update_link_port ev h dev (nl_notify m d) = Some drv'"
    using assms(1) h unfolding handle_update_link_def Let_def d_def by auto
  have "ports_kept d (nl_notify m d)" by (rule ports_kept_refl) simp
  moreover have "ports_kept (nl_notify m d) drv'" using update_link_port_kept [OF u] assms(2) f by simp
  ultimately show ?thesis using d ports_kept_trans by blast
qed

lemma fw_handler_kept:
  assumes "tgd_fw_msg_handler ops env cpu ev drv = Some drv'" and "\<not> (ev ! 0 = 103 \<and> ev ! 4 = 3 \<and> ev ! 16 = 0)"
  shows "ports_kept drv drv'"
proof -
  note t = fw_event_type [OF assms(1)]
  have n: "ports_kept drv (nl_inc k (nl_inc l drv))" "ports_kept drv (nl_inc l drv)" for k l
    by (rule ports_kept_refl, simp)+
  note tr = ports_kept_trans [OF n(1)]
  consider "ev ! 0 = 103" | "ev ! 0 = 102" | "ev ! 0 = 104" | "ev ! 0 \<noteq> 103" "ev ! 0 \<noteq> 102" "ev ! 0 \<noteq> 104"
    by blast
  then show ?thesis
  proof cases
    case 1
    then have "handle_update_link ev (nl_inc NL_NB_UPDATE_LINK_REQ (nl_inc NL_EVENTS drv)) = Some drv'"
      using assms(1) t by (simp add: tgd_fw_msg_handler_def Let_def)
    from tr [OF update_link_kept [OF this]] show ?thesis using assms(2) 1 by simp
  next
    case 2
    then obtain a r l where "drv' = tgd_terra_set_link_mac_addr ops a r l (nl_inc NL_NB_LINK_INFO (nl_inc NL_EVENTS drv))"
      using assms(1) t by (auto simp: tgd_fw_msg_handler_def Let_def bind_eq_Some_conv)
    then show ?thesis by (simp add: tr [OF set_link_mac_port])
  next
    case 3
    then obtain m where "drv' = tgd_send_link_del_resp ops env m
        (snd (tgd_terra_del_link_info ops cpu (Some m) (nl_inc NL_NB_DEL_LINK_REQ (nl_inc NL_EVENTS drv))))"
      using assms(1) t by (auto simp: tgd_fw_msg_handler_def Let_def bind_eq_Some_conv)
    then have "devs drv' = devs (snd (tgd_terra_del_link_info ops cpu (Some m)
        (nl_inc NL_NB_DEL_LINK_REQ (nl_inc NL_EVENTS drv))))" by simp
    then show ?thesis using tr [OF del_link_port] by (simp add: ports_kept_def)
  next
    case 4
    then have "devs drv' = devs drv" using assms(1) t
      by (auto simp: tgd_fw_msg_handler_def Let_def bind_eq_Some_conv split: if_splits option.splits)
    then show ?thesis by (rule ports_kept_refl)
  qed
qed

text \<open>The destination address is written in front of the protocol.\<close>

lemma store_keeps_proto:
  assumes "skb_store (sb_data s) a s = Some s'" and "length a = 6" and "is_eapol s"
  shows "is_eapol s'"
proof -
  let ?h = "take (sb_data s) (sb_head s) @ a @ drop (sb_data s + length a) (sb_head s)"
  have s': "s' = s\<lparr>sb_head := ?h\<rparr>" "sb_data s + 6 \<le> length (sb_head s)"
    using assms(1,2) by (auto simp: skb_store_def mem_write_def split: if_splits)
  have "length ?h = length (sb_head s)" "drop (sb_data s + 12) ?h = drop (sb_data s + 12) (sb_head s)"
    using s'(2) assms(2) by (simp_all add: add.commute)
  then have "mem_read (sb_data s + 12) 2 ?h = mem_read (sb_data s + 12) 2 (sb_head s)"
    by (simp only: mem_read_def)
  then show ?thesis using assms(3) by (simp add: is_eapol_def s'(1))
qed

lemma tx_closed:
  assumes "tgd_terra_bh_tx_common ops cpu i q skb drv = Some (fs, drv')" and "pae_closed (devs drv ! i)"
    and "length (link_sta_addr (devs drv ! i)) = 6" and "f \<in> set fs"
  shows "is_eapol f"
proof -
  obtain r p where rp: "tgd_terra_bh_tx_pre cpu q skb (devs drv ! i) = Some (r, p)"
    "fs = (case r of None \<Rightarrow> [] | Some s \<Rightarrow> [s])" using tx_common_cases [OF assms(1)] by blast
  from rp(1) show ?thesis
  proof (cases rule: tx_pre_cases)
    case (pass p1 qid skb')
    then show ?thesis
      using assms(2-4) rp(2) store_keeps_proto [of skb "link_sta_addr (devs drv ! i)" skb']
      by (simp add: is_eapol_def)
  qed (use rp(2) assms(4) in auto)
qed

lemma rx_closed:
  assumes "tgd_terra_rx_data_handler alloc cpu i skb drv = Some (fs, drv')" and "pae_closed (devs drv ! i)"
    and "f \<in> set fs"
  shows "is_eapol f"
proof -
  obtain proto where pr: "mem_read (sb_data skb + 12) 2 (sb_head skb) = Some proto"
    using assms(1) by (auto simp: tgd_terra_rx_data_handler_def bind_eq_Some_conv)
  show ?thesis
  proof (cases "proto = ETH_P_PAE")
    case True
    have "ETH_P_PAE \<noteq> ETH_P_TGAMSDU" by (simp add: ETH_P_PAE_def ETH_P_TGAMSDU_def)
    then show ?thesis using assms True pr
      by (auto simp: tgd_terra_rx_data_handler_def fb_tgd_rt_linux_rx_def is_eapol_def)
  next
    case False
    then show ?thesis using assms pr by (auto simp: tgd_terra_rx_data_handler_def)
  qed
qed

text \<open>One request with a closed port.\<close>

lemma exec_closed:
  assumes "terra_exec ops env cpu req drv = Some (out, drv')" and "table_ok drv"
    and "i < length (devs drv)" and "pae_closed (devs drv ! i)" and "\<not> opens i req"
  shows "length (devs drv') = length (devs drv) \<and> pae_closed (devs drv' ! i) \<and>
         (\<forall>f. To_radio i f \<in> set out \<or> To_stack i f \<in> set out \<longrightarrow> is_eapol f)"
proof -
  have len6: "length (link_sta_addr (devs drv ! i)) = 6"
    using table_ok_nth [OF assms(2,3)] by (simp add: dev_ok_def)
  note kn = ports_kept_nth [OF _ assms(3,4)]
  have fin: ?thesis if "ports_kept drv drv' \<and> out = []" using kn [of drv'] that by simp
  show ?thesis
  proof (cases req)
    case (Tx j skb q)
    then obtain fs where tx: "tgd_terra_bh_tx_common ops cpu j q skb drv = Some (fs, drv')" "out = map (To_radio j) fs"
      using assms(1) by (auto simp: terra_exec_def bind_eq_Some_conv)
    obtain r p where rp: "tgd_terra_bh_tx_pre cpu q skb (devs drv ! j) = Some (r, p)" "devs drv' = (devs drv)[j := p]"
      using tx_common_cases [OF tx(1)] by blast
    then have "pae_closed (devs drv' ! i)" "length (devs drv') = length (devs drv)"
      using assms(3,4) tx_pre_port [OF rp(1)] by (auto simp: nth_upd)
    then show ?thesis using tx tx_closed [OF tx(1)] assms(4) len6 by auto
  next
    case (Rx j skb)
    then obtain fs where rx: "tgd_terra_rx_data_handler (frame_alloc env) cpu j skb drv = Some (fs, drv')"
      "out = map (To_stack j) fs" using assms(1) by (auto simp: terra_exec_def bind_eq_Some_conv)
    have "ports_kept drv drv'" using rx(1)
      by (auto simp: tgd_terra_rx_data_handler_def bind_eq_Some_conv intro!: ports_kept_upd split: if_splits)
    from kn [OF this] show ?thesis using rx rx_closed [OF rx(1)] assms(4) by auto
  next
    case (Flow j link qid stop)
    then have "ports_kept drv drv' \<and> out = []" using assms(1)
      by (auto simp: terra_exec_def bind_eq_Some_conv dest: flow_port)
    then show ?thesis by (rule fin)
  next
    case (Fw_event ev)
    then have "tgd_fw_msg_handler ops env cpu ev drv = Some drv' \<and> out = []"
      using assms(1) by (auto simp: terra_exec_def bind_eq_Some_conv)
    then have "ports_kept drv drv' \<and> out = []"
      using fw_handler_kept [of ops env cpu ev drv drv'] assms(5) Fw_event by (simp add: opens_def)
    then show ?thesis by (rule fin)
  next
    case (Change_station j m msk au)
    then have "devs drv' = (devs drv)[j := tgd_cfg80211_change_station m msk au (devs drv ! j)] \<and> out = []"
      using assms(1) by (auto simp: terra_exec_def on_dev_def upd_dev_def)
    moreover have "j = i \<Longrightarrow> pae_closed (tgd_cfg80211_change_station m msk au (devs drv ! j))"
      using assms(4,5) Change_station by (auto simp: opens_def tgd_cfg80211_change_station_def)
    ultimately show ?thesis using assms(3,4) by (auto simp: nth_upd)
  next
    case (Dev_alloc a)
    have "ports_kept drv (nl_inc NL_CMD_DEV_ALLOC (nl_inc NL_MSG_RCVD drv))" by (rule ports_kept_refl) simp
    then have "ports_kept drv drv' \<and> out = []"
      using Dev_alloc assms(1) ports_kept_trans [OF _ reserve_port] by (auto simp: terra_exec_def)
    then show ?thesis by (rule fin)
  next
    case (Set_mac a)
    then have "ports_kept drv drv' \<and> out = []" using assms(1)
      by (auto simp: terra_exec_def tgd_set_if_mac_addr_def intro!: ports_kept_map)
    then show ?thesis by (rule fin)
  next
    case (Scan j st)
    then have "ports_kept drv drv' \<and> out = []" using assms(1)
      by (auto simp: terra_exec_def on_dev_def tgd_cfg80211_scan_def tgd_cfg80211_scan_result_def
          bind_eq_Some_conv Let_def intro!: ports_kept_upd split: if_splits)
    then show ?thesis by (rule fin)
  next
    case (Key_work j)
    then have "ports_kept drv drv' \<and> out = []" using assms(1) key_ops_port
      by (auto simp: terra_exec_def)
    then show ?thesis by (rule fin)
  qed ((rule fin, (use assms(1) in \<open>auto simp: terra_exec_def on_dev_def
      intro!: key_ops_port ports_kept_upd disconnect_port\<close>) [1])+)
qed

text \<open>
  C1. Nothing but authentication frames passes a closed port. Through any sequence of requests that
  contains neither the authorization of the device nor the report of a link without security, the
  port stays closed, and every frame that goes to the radio or to the network stack for that device
  is an EAPOL frame, whatever frames, link events, key operations and flow control come in between.
\<close>

theorem terra_port_secure:
  assumes "terra_reach ops drv" and "terra_run ops env cpu reqs drv = Some (out, drv')"
    and "\<forall>r \<in> set reqs. req_ok r \<and> \<not> opens i r"
    and "i < length (devs drv)" and "pae_closed (devs drv ! i)"
  shows "pae_closed (devs drv' ! i) \<and>
         (\<forall>f. To_radio i f \<in> set out \<or> To_stack i f \<in> set out \<longrightarrow> is_eapol f)"
  using terra_reach_table_ok [OF assms(1)] assms(2-5)
proof (induction reqs arbitrary: drv out)
  case (Cons r rs)
  obtain o1 d1 o2 where e: "terra_exec ops env cpu r drv = Some (o1, d1)"
    "terra_run ops env cpu rs d1 = Some (o2, drv')" "out = o1 @ o2"
    using Cons.prems(2) by (auto simp: bind_eq_Some_conv)
  have s: "length (devs d1) = length (devs drv)" "pae_closed (devs d1 ! i)"
    "\<forall>f. To_radio i f \<in> set o1 \<or> To_stack i f \<in> set o1 \<longrightarrow> is_eapol f"
    using exec_closed [OF e(1) Cons.prems(1,4,5)] Cons.prems(3) by auto
  have "table_ok d1" using terra_exec_ok [OF e(1) Cons.prems(1)] Cons.prems(3) by simp
  from Cons.IH [OF this e(2)] show ?case using Cons.prems(3,4) s e(3) by auto
qed simp

end
