(* ===== verification/TerraSb.thy ===== *)
theory TerraSb
  imports TerraData
begin

text \<open>
  The requests of the Terragraph wireless driver to the firmware (\<open>fb_terragraph/fb_tgd_fw_if.c\<close>) and the
  thread that reports the queues of the links (\<open>fb_tgd_queue_stats.c\<close>).

  A request is built in a buffer on the stack or heap, which holds arbitrary bytes at first
  (\<open>stack_bytes\<close>), and handed to the vendor driver; every write is checked against the size of the
  buffer, and \<open>None\<close> is a write outside of it. The result is the error code in the response, or what the
  stack held if there was no response. The report thread takes its clock readings and the largest
  unsigned long (\<open>ulong_max\<close>, 32 or 64 bits) as arguments. Its log messages are left out.
\<close>

section \<open>Handlers of timestamps\<close>

abbreviation EEXIST :: int where "EEXIST \<equiv> 17"

definition tgd_register_htsf_info_handler :: "'h \<Rightarrow> 'h option \<Rightarrow> int \<times> 'h option" where
  "tgd_register_htsf_info_handler h cur = (if cur = None then (0, Some h) else (- EEXIST, cur))"

definition tgd_unregister_htsf_info_handler :: "'h \<Rightarrow> 'h option \<Rightarrow> int \<times> 'h option" where
  "tgd_unregister_htsf_info_handler h cur = (if cur = Some h then (0, None) else (- EINVAL, cur))"

section \<open>Requests\<close>

abbreviation VENDOR_IOCTL_MAX_SIZE :: nat where "VENDOR_IOCTL_MAX_SIZE \<equiv> 1024"
abbreviation LOCAL_IOCTL_BUF_SIZE :: nat where "LOCAL_IOCTL_BUF_SIZE \<equiv> 512"

definition req_buf :: "terra_env \<Rightarrow> nat \<Rightarrow> u8 list" where
  "req_buf env n = map (stack_bytes env) [0..<n]"

text \<open>The error code of the response lies behind its type and padding.\<close>

definition rsp_errCode :: "terra_env \<Rightarrow> u8 list option \<Rightarrow> u8" where
  "rsp_errCode env rsp = (case rsp of
     Some r \<Rightarrow> if 4 < length r then r ! 4 else stack_bytes env 4
   | None \<Rightarrow> stack_bytes env 4)"

definition sb_ioctl :: "'b bh_ops \<Rightarrow> terra_env \<Rightarrow> u8 list \<Rightarrow> 'b terra_driver \<Rightarrow> u8 \<times> 'b terra_driver" where
  "sb_ioctl ops env req drv = (let (r, rsp, drv) = fb_tgd_bh_ioctl ops req drv in (rsp_errCode env rsp, drv))"

text \<open>The variable part of a request: its length at \<open>off\<close>, and then the bytes.\<close>

definition add_var_data :: "nat \<Rightarrow> nat \<Rightarrow> nat \<Rightarrow> nat \<Rightarrow> u8 list \<Rightarrow> u8 list \<Rightarrow> (int \<times> u8 list) option" where
  "add_var_data off hdr_size max_buf_size len data buf = do {
     buf \<leftarrow> mem_write off (le_bytes 4 0) buf;
     if len = 0 then Some (0, buf)
     else if hdr_size + len > max_buf_size then Some (- 1, buf)
     else do {
       src \<leftarrow> mem_read 0 len data;
       buf \<leftarrow> mem_write (off + 4) src buf;
       buf \<leftarrow> mem_write off (le_bytes 4 len) buf;
       Some (0, buf) } }"

definition var_len :: "nat \<Rightarrow> u8 list \<Rightarrow> nat option" where
  "var_len off buf = map_option le_val (mem_read off 4 buf)"

definition tgd_send_fw_init :: "'b bh_ops \<Rightarrow> terra_env \<Rightarrow> nat \<Rightarrow> u8 list \<Rightarrow> 'b terra_driver \<Rightarrow> (u8 \<times> 'b terra_driver) option" where
  "tgd_send_fw_init ops env len data drv = do {
     buf \<leftarrow> mem_write 0 [100] (req_buf env LOCAL_IOCTL_BUF_SIZE);
     (rc, buf) \<leftarrow> add_var_data 4 8 LOCAL_IOCTL_BUF_SIZE len data buf;
     n \<leftarrow> var_len 4 buf;
     req \<leftarrow> mem_read 0 (8 + n) buf;
     Some (sb_ioctl ops env req drv) }"

definition tgd_send_disassoc_req :: "'b bh_ops \<Rightarrow> terra_env \<Rightarrow> mac \<Rightarrow> 'b terra_driver \<Rightarrow> (u8 \<times> 'b terra_driver) option" where
  "tgd_send_disassoc_req ops env a drv = do {
     buf \<leftarrow> mem_write 0 [114] (req_buf env LOCAL_IOCTL_BUF_SIZE);
     buf \<leftarrow> mem_write 4 a buf;
     req \<leftarrow> mem_read 0 10 buf;
     Some (sb_ioctl ops env req drv) }"

definition tgd_send_bmfm_cfg_req ::
  "'b bh_ops \<Rightarrow> terra_env \<Rightarrow> mac \<Rightarrow> u8 \<Rightarrow> nat \<Rightarrow> u8 list \<Rightarrow> 'b terra_driver \<Rightarrow> (u8 \<times> 'b terra_driver) option" where
  "tgd_send_bmfm_cfg_req ops env a bf_role len data drv = do {
     buf \<leftarrow> mem_write 0 [112] (req_buf env LOCAL_IOCTL_BUF_SIZE);
     buf \<leftarrow> mem_write 4 a buf;
     buf \<leftarrow> mem_write 10 [bf_role] buf;
     (rc, buf) \<leftarrow> add_var_data 11 15 LOCAL_IOCTL_BUF_SIZE len data buf;
     n \<leftarrow> var_len 11 buf;
     req \<leftarrow> mem_read 0 (15 + n) buf;
     Some (sb_ioctl ops env req drv) }"

record timespec =
  tv_sec :: u64
  tv_nsec :: u64

definition tgd_send_gps_time :: "'b bh_ops \<Rightarrow> terra_env \<Rightarrow> timespec \<Rightarrow> 'b terra_driver \<Rightarrow> (u8 \<times> 'b terra_driver) option" where
  "tgd_send_gps_time ops env t drv = do {
     buf \<leftarrow> mem_write 0 [111] (req_buf env 100);
     buf \<leftarrow> mem_write 4 (le_bytes 4 (unat (ucast (tv_sec t) :: u32))) buf;
     buf \<leftarrow> mem_write 8 (le_bytes 4 (unat (ucast (drop_bit 32 (tv_sec t)) :: u32))) buf;
     buf \<leftarrow> mem_write 12 (le_bytes 4 (unat (ucast (tv_nsec t) :: u32))) buf;
     req \<leftarrow> mem_read 0 16 buf;
     Some (sb_ioctl ops env req drv) }"

text \<open>The request for pass-through data is allocated with the size of its data; \<open>alloc\<close> tells if there was memory.\<close>

definition tgd_send_passthrough_to_fw ::
  "'b bh_ops \<Rightarrow> terra_env \<Rightarrow> bool \<Rightarrow> u8 list \<Rightarrow> nat \<Rightarrow> 'b terra_driver \<Rightarrow> (int \<times> 'b terra_driver) option" where
  "tgd_send_passthrough_to_fw ops env alloc data len drv =
     (if \<not> alloc then Some (- 1, drv)
      else do {
        buf \<leftarrow> mem_write 0 [107] (req_buf env (8 + len));
        (rc, buf) \<leftarrow> add_var_data 4 8 VENDOR_IOCTL_MAX_SIZE len data buf;
        n \<leftarrow> var_len 4 buf;
        req \<leftarrow> mem_read 0 (8 + n) buf;
        let (e, drv) = sb_ioctl ops env req drv;
        Some (uint e, drv) })"

definition tgd_send_fw_shutdown :: "'b bh_ops \<Rightarrow> terra_env \<Rightarrow> 'b terra_driver \<Rightarrow> 'b terra_driver option" where
  "tgd_send_fw_shutdown ops env drv = do {
     buf \<leftarrow> mem_write 0 [116] (req_buf env LOCAL_IOCTL_BUF_SIZE);
     req \<leftarrow> mem_read 0 4 buf;
     Some (snd (sb_ioctl ops env req drv)) }"

section \<open>Statistics of the links for user space\<close>

text \<open>
  A record of \<open>fb_tgd_link_stats_t\<close> has 72 bytes: the fields lie at the offsets below; \<open>pipe\<close> at offset 0 and the
  padding at 12 and 69 are never written and keep what the memory held.
\<close>

abbreviation LINK_STATS_SIZE :: nat where "LINK_STATS_SIZE \<equiv> 72"

definition int_bytes :: "int \<Rightarrow> u8 list" where
  "int_bytes x = le_bytes 4 (unat (word_of_int x :: u32))"

definition link_state_code :: "tgLinkStatus \<Rightarrow> int" where
  "link_state_code s = (case s of TG_LINKINIT \<Rightarrow> 1 | TG_LINKDOWN \<Rightarrow> 2 | TG_LINKUP \<Rightarrow> 3 | TG_LINKPAUSE \<Rightarrow> 4)"

definition put_link_stats :: "nat \<Rightarrow> link_report \<Rightarrow> u8 list \<Rightarrow> u8 list option" where
  "put_link_stats at lstats buf = do {
     buf \<leftarrow> mem_write (at + 4) (int_bytes (lr_link lstats)) buf;
     buf \<leftarrow> mem_write (at + 8) (int_bytes (link_state_code (lr_link_state lstats))) buf;
     buf \<leftarrow> mem_write (at + 16) (le_bytes 8 (unat (pkts_recved (lr_stats lstats)))) buf;
     buf \<leftarrow> mem_write (at + 24) (le_bytes 8 (unat (pkts_sent (lr_stats lstats)))) buf;
     buf \<leftarrow> mem_write (at + 32) (le_bytes 8 (unat (bytes_recved (lr_stats lstats)))) buf;
     buf \<leftarrow> mem_write (at + 40) (le_bytes 8 (unat (bytes_sent (lr_stats lstats)))) buf;
     buf \<leftarrow> mem_write (at + 48) (le_bytes 8 (unat (tx_err (lr_stats lstats)))) buf;
     buf \<leftarrow> mem_write (at + 62) (take 6 (lr_dst_mac_addr lstats)) buf;
     buf \<leftarrow> mem_write (at + 56) (take 6 (lr_src_mac_addr lstats)) buf;
     mem_write (at + 68) [word_of_int (lr_dev_index lstats)] buf }"

text \<open>The counters of every device that is visited are brought up to date. The qdisc is not part of these statistics.\<close>

definition net_if_stat :: "'b bh_ops \<Rightarrow> 'b option \<Rightarrow> dev_priv \<Rightarrow> link_report \<times> dev_priv" where
  "net_if_stat ops ctx p = tgd_terra_get_net_if_stat ops ctx (None :: ((unit, unit) skb_ops \<times> (unit, unit) qdisc) option) p"

text \<open>
  The records lie in the buffer \<open>buf\<close> from \<open>at\<close> on, where the caller promises \<open>nl_max_size\<close> bytes; \<open>sz\<close> of them
  are used by \<open>num_link\<close> records. A write outside the buffer is a fault. The result is the size, the number of
  links, the buffer, and the devices that were visited with the others behind them.
\<close>

fun get_stats_loop ::
  "'b bh_ops \<Rightarrow> 'b option \<Rightarrow> nat \<Rightarrow> nat \<Rightarrow> nat \<Rightarrow> nat \<Rightarrow> u8 list \<Rightarrow> dev_priv list \<Rightarrow> (nat \<times> nat \<times> u8 list \<times> dev_priv list) option" where
  "get_stats_loop ops ctx nl_max_size at sz num_link buf [] = Some (sz, num_link, buf, [])"
| "get_stats_loop ops ctx nl_max_size at sz num_link buf (p # ps) =
     (let (lstats, p) = net_if_stat ops ctx p in
      if link_state p = TG_LINKINIT then do {
        (s, n, buf, ps) \<leftarrow> get_stats_loop ops ctx nl_max_size at sz num_link buf ps;
        Some (s, n, buf, p # ps) }
      else if nl_max_size - sz < LINK_STATS_SIZE then Some (sz, num_link, buf, p # ps)
      else do {
        buf \<leftarrow> put_link_stats (at + sz) lstats buf;
        (s, n, buf, ps) \<leftarrow> get_stats_loop ops ctx nl_max_size at (sz + LINK_STATS_SIZE) (num_link + 1) buf ps;
        Some (s, n, buf, p # ps) })"

definition tgd_get_stats ::
  "'b bh_ops \<Rightarrow> nat \<Rightarrow> u8 list \<Rightarrow> nat \<Rightarrow> 'b terra_driver \<Rightarrow> ((nat \<times> nat \<times> u8 list) \<times> 'b terra_driver) option" where
  "tgd_get_stats ops at nl_buffer nl_max_size drv = do {
     (sz, num_link, buf, ps) \<leftarrow> get_stats_loop ops (bh_ctx drv) nl_max_size at 0 0 nl_buffer (devs drv);
     Some ((sz, num_link, buf), drv\<lparr>devs := ps\<rparr>) }"

lemma put_link_stats_defined:
  assumes "at + LINK_STATS_SIZE \<le> length buf"
  shows "\<exists>buf'. put_link_stats at lstats buf = Some buf' \<and> length buf' = length buf"
  using assms by (auto simp: put_link_stats_def mem_write_def int_bytes_def min_def)

text \<open>The buffer the caller promises is enough: the loop stops before the record that does not fit.\<close>

lemma get_stats_loop_fits:
  assumes "sz \<le> nl_max_size" and "at + nl_max_size \<le> length buf"
  shows "\<exists>s n buf' ps'. get_stats_loop ops ctx nl_max_size at sz num_link buf ps = Some (s, n, buf', ps') \<and>
    s \<le> nl_max_size \<and> length buf' = length buf \<and> s = sz + LINK_STATS_SIZE * (n - num_link) \<and> num_link \<le> n \<and>
    length ps' = length ps \<and> (\<forall>i < length ps. ps' ! i = ps ! i \<or> ps' ! i = snd (net_if_stat ops ctx (ps ! i)))"
  using assms
proof (induction ps arbitrary: sz num_link buf)
  case (Cons p ps)
  obtain r q where q: "net_if_stat ops ctx p = (r, q)" by fastforce
  have nth: "\<forall>i < length (p # ps). (q # ps') ! i = (p # ps) ! i \<or> (q # ps') ! i = snd (net_if_stat ops ctx ((p # ps) ! i))"
    if "\<forall>i < length ps. ps' ! i = ps ! i \<or> ps' ! i = snd (net_if_stat ops ctx (ps ! i))" for ps'
    using that q by (auto simp: nth_Cons split: nat.splits)
  consider (skip) "link_state q = TG_LINKINIT" | (full) "link_state q \<noteq> TG_LINKINIT" "nl_max_size - sz < LINK_STATS_SIZE"
    | (put) "link_state q \<noteq> TG_LINKINIT" "\<not> nl_max_size - sz < LINK_STATS_SIZE" by blast
  then show ?case
  proof cases
    case skip
    with Cons.IH [OF Cons.prems, of num_link] q nth show ?thesis by fastforce
  next
    case full
    with q Cons.prems nth [of ps] show ?thesis by simp
  next
    case put
    then have "at + sz + LINK_STATS_SIZE \<le> length buf" using Cons.prems by linarith
    then obtain buf1 where b: "put_link_stats (at + sz) r buf = Some buf1" "length buf1 = length buf"
      using put_link_stats_defined [of "at + sz" buf r] by blast
    have le: "sz + LINK_STATS_SIZE \<le> nl_max_size" "at + nl_max_size \<le> length buf1" using put Cons.prems b by auto
    obtain s n buf' ps' where h: "get_stats_loop ops ctx nl_max_size at (sz + LINK_STATS_SIZE) (num_link + 1) buf1 ps =
        Some (s, n, buf', ps')" "s \<le> nl_max_size" "length buf' = length buf1"
      "s = sz + LINK_STATS_SIZE + LINK_STATS_SIZE * (n - (num_link + 1))" "num_link + 1 \<le> n"
      "length ps' = length ps" "\<forall>i < length ps. ps' ! i = ps ! i \<or> ps' ! i = snd (net_if_stat ops ctx (ps ! i))"
      using Cons.IH [OF le, of "num_link + 1"] by blast
    have "LINK_STATS_SIZE * (n - num_link) = LINK_STATS_SIZE + LINK_STATS_SIZE * (n - (num_link + 1))"
      using h(5) by (simp add: algebra_simps)
    then show ?thesis using q put b h nth [OF h(7)] by simp
  qed
qed simp

section \<open>The report of the queues\<close>

abbreviation QUEUE_STATS_MAX_LINKS :: nat where "QUEUE_STATS_MAX_LINKS \<equiv> 16"

record tgSbQueueStats =
  bytesPending :: u32
  arrivalRate :: u32
  dstMacAddr :: mac

record cumul_stats =
  tot_arrived_bytes :: u64
  avg_arrived_bytes_per_ms :: u64
  tlast :: timespec

record stats_thread_data =
  queue_stats :: "tgSbQueueStats list"
  cumulative_stats :: "cumul_stats list"

definition queue_stats_bytes :: "tgSbQueueStats \<Rightarrow> u8 list" where
  "queue_stats_bytes q = le_bytes 4 (unat (bytesPending q)) @ le_bytes 4 (unat (arrivalRate q)) @ dstMacAddr q"

text \<open>A request of 228 bytes: the event with room for the statistics of 16 links.\<close>

definition tgd_send_queue_stats ::
  "'b bh_ops \<Rightarrow> terra_env \<Rightarrow> tgSbQueueStats list \<Rightarrow> nat \<Rightarrow> 'b terra_driver \<Rightarrow> (u8 \<times> 'b terra_driver) option" where
  "tgd_send_queue_stats ops env qs numLinks drv =
     (if numLinks = 0 then Some (0, drv)
      else do {
        buf \<leftarrow> mem_write 0 [115] (req_buf env 228);
        let n = min QUEUE_STATS_MAX_LINKS numLinks;
        src \<leftarrow> mem_read 0 (14 * n) (concat (map queue_stats_bytes qs));
        buf \<leftarrow> mem_write 4 src buf;
        req \<leftarrow> mem_read 0 (4 + 14 * n) buf;
        Some (sb_ioctl ops env req drv) })"

definition timespec_to_millis :: "timespec \<Rightarrow> u64" where
  "timespec_to_millis t = tv_sec t * 1000 + ucast ((ucast (tv_nsec t) + 500000) div 1000000 :: u32)"

definition ROUND_DIV64 :: "u64 \<Rightarrow> u64 \<Rightarrow> u64" where
  "ROUND_DIV64 x y = (x + y div 2) div y"

definition QUEUE_STATS_UPDATE_ARRIVAL_RATE :: "u64 \<Rightarrow> u64 \<Rightarrow> u64" where
  "QUEUE_STATS_UPDATE_ARRIVAL_RATE now old = drop_bit 3 now + drop_bit 3 (7 * old)"

definition zero_queue_stats :: tgSbQueueStats where
  "zero_queue_stats = \<lparr>bytesPending = 0, arrivalRate = 0, dstMacAddr = zero_mac\<rparr>"

definition link_arrived :: "bh_link_stats \<Rightarrow> u64" where
  "link_arrived s = bytes_enqueued_pad s + bytes_enqueued s + bytes_enqueue_fail_pad s + bytes_enqueue_failed s"

text \<open>The time since the last sample, and what arrived since then with the average that is continued.\<close>

definition delta_millis :: "timespec \<Rightarrow> timespec \<Rightarrow> u64" where
  "delta_millis tnow t0 =
     (let d = timespec_to_millis tnow - timespec_to_millis t0 in if d = 0 then 1 else d)"

definition arrived_since :: "u64 \<Rightarrow> cumul_stats \<Rightarrow> u64 \<times> u64" where
  "arrived_since tot cum =
     (if tot_arrived_bytes cum > tot then (0, tot) else (avg_arrived_bytes_per_ms cum, tot - tot_arrived_bytes cum))"

text \<open>The rate that is reported for an average, a rate and a number of bytes.\<close>

definition reported_rate :: "u64 \<Rightarrow> u64 \<Rightarrow> u64 \<Rightarrow> u64 \<Rightarrow> u32" where
  "reported_rate ulong_max avg now arrived =
     (if avg \<noteq> 0 then ucast (min avg ulong_max)
      else if now \<noteq> 0 then ucast (min now ulong_max)
      else if arrived \<noteq> 0 then 1 else 0)"

definition link_report_of :: "'b bh_ops \<Rightarrow> 'b option \<Rightarrow> dev_priv \<Rightarrow> link_report \<times> dev_priv" where
  "link_report_of ops ctx p = tgd_terra_link_stats ops ctx (None :: ((unit, unit) skb_ops \<times> (unit, unit) qdisc) option) p"

definition queue_stats_link ::
  "u64 \<Rightarrow> 'b bh_ops \<Rightarrow> 'b option \<Rightarrow> timespec \<Rightarrow> timespec \<Rightarrow> dev_priv \<Rightarrow> cumul_stats \<Rightarrow> dev_priv \<times> cumul_stats \<times> tgSbQueueStats" where
  "queue_stats_link ulong_max ops ctx tnow tlast' p cum =
     (if link_state p \<noteq> TG_LINKUP then (p, cum, zero_queue_stats)
      else
        let d = delta_millis tnow (tlast cum);
            (r, p) = link_report_of ops ctx p;
            tot = link_arrived (lr_stats r);
            (old, arrived) = arrived_since tot cum;
            now = ROUND_DIV64 arrived d;
            avg = QUEUE_STATS_UPDATE_ARRIVAL_RATE now old
        in (p, \<lparr>tot_arrived_bytes = tot, avg_arrived_bytes_per_ms = avg, tlast = tlast'\<rparr>,
            \<lparr>bytesPending = ucast (min (bytes_pending (lr_stats r)) ulong_max),
             arrivalRate = reported_rate ulong_max avg now arrived, dstMacAddr = lr_dst_mac_addr r\<rparr>))"

text \<open>The loop over the devices; \<open>clock\<close> gives the two readings for each link.\<close>

fun queue_stats_links ::
  "u64 \<Rightarrow> 'b bh_ops \<Rightarrow> 'b option \<Rightarrow> (nat \<Rightarrow> timespec \<times> timespec) \<Rightarrow> nat \<Rightarrow> dev_priv list \<Rightarrow> stats_thread_data \<Rightarrow>
   dev_priv list \<times> stats_thread_data" where
  "queue_stats_links ulong_max ops ctx clock k [] d = ([], d)"
| "queue_stats_links ulong_max ops ctx clock k (p # ps) d =
     (if QUEUE_STATS_MAX_LINKS \<le> k then let (ps, d) = queue_stats_links ulong_max ops ctx clock k ps d in (p # ps, d)
      else
        let (p, cum, sb) = queue_stats_link ulong_max ops ctx (fst (clock k)) (snd (clock k)) p (cumulative_stats d ! k);
            (ps, d) = queue_stats_links ulong_max ops ctx clock (Suc k) ps
                        (d\<lparr>queue_stats := (queue_stats d)[k := sb], cumulative_stats := (cumulative_stats d)[k := cum]\<rparr>)
        in (p # ps, d))"

text \<open>One pass of the thread.\<close>

definition queue_stats_thread_main ::
  "u64 \<Rightarrow> 'b bh_ops \<Rightarrow> terra_env \<Rightarrow> (nat \<Rightarrow> timespec \<times> timespec) \<Rightarrow> stats_thread_data \<Rightarrow> 'b terra_driver \<Rightarrow>
   (stats_thread_data \<times> 'b terra_driver) option" where
  "queue_stats_thread_main ulong_max ops env clock d drv = do {
     let (ps, d) = queue_stats_links ulong_max ops (bh_ctx drv) clock 0 (devs drv) d;
     (e, drv) \<leftarrow> tgd_send_queue_stats ops env (queue_stats d) (min QUEUE_STATS_MAX_LINKS (length ps)) (drv\<lparr>devs := ps\<rparr>);
     Some (d, drv) }"

text \<open>Starting the thread: without the feature, without memory, without a thread; and the first readings of the clock.\<close>

definition fb_tgd_queue_stats_init :: "bool \<Rightarrow> bool \<Rightarrow> int \<Rightarrow> (nat \<Rightarrow> timespec) \<Rightarrow> int \<times> stats_thread_data option" where
  "fb_tgd_queue_stats_init enable alloc thread_err clock =
     (if \<not> enable then (0, None)
      else if \<not> alloc then (- 12, None)
      else if thread_err \<noteq> 0 then (thread_err, None)
      else (0, Some \<lparr>queue_stats = replicate QUEUE_STATS_MAX_LINKS zero_queue_stats,
                     cumulative_stats = map (\<lambda>i. \<lparr>tot_arrived_bytes = 0, avg_arrived_bytes_per_ms = 0, tlast = clock i\<rparr>)
                                          [0..<QUEUE_STATS_MAX_LINKS]\<rparr>))"

definition fb_tgd_queue_stats_exit :: "stats_thread_data option \<Rightarrow> stats_thread_data option" where
  "fb_tgd_queue_stats_exit ctx = None"

section \<open>What the firmware is sent\<close>

text \<open>The variable part a request of at most \<open>max_size\<close> bytes carries: all of the data, or none of it.\<close>

definition var_payload :: "nat \<Rightarrow> nat \<Rightarrow> u8 list \<Rightarrow> u8 list" where
  "var_payload hdr max_size data = (if hdr + length data \<le> max_size then data else [])"

lemma length_req_buf [simp]: "length (req_buf env n) = n"
  by (simp add: req_buf_def)

lemma var_request:
  assumes "off + 4 = hdr" and "hdr \<le> length buf" and "hdr + length (var_payload hdr m data) \<le> length buf" and "m < 2 ^ 32"
  obtains rc buf' where "add_var_data off hdr m (length data) data buf = Some (rc, buf')"
    "var_len off buf' = Some (length (var_payload hdr m data))"
    "mem_read 0 (hdr + length (var_payload hdr m data)) buf' =
       Some (take off buf @ le_bytes 4 (length (var_payload hdr m data)) @ var_payload hdr m data)"
proof -
  let ?p = "var_payload hdr m data"
  let ?b = "take off buf @ le_bytes 4 (length ?p) @ ?p @ drop (hdr + length ?p) buf"
  have small: "length ?p < 256 ^ 4" using assms(4) by (auto simp: var_payload_def)
  have "\<exists>rc. add_var_data off hdr m (length data) data buf = Some (rc, ?b)"
    using assms(1-3) by (auto simp: add_var_data_def mem_write_def mem_read_def var_payload_def add.commute add.left_commute)
  moreover have "var_len off ?b = Some (length ?p)"
    using assms(1-3) small by (simp add: var_len_def mem_read_def le_val_le_bytes)
  moreover have "mem_read 0 (hdr + length ?p) ?b = Some (take off buf @ le_bytes 4 (length ?p) @ ?p)"
    using assms(1-3) by (simp add: mem_read_def)
  ultimately show thesis using that by blast
qed

definition sb_pad :: "terra_env \<Rightarrow> u8 list" where
  "sb_pad env = map (stack_bytes env) [1, 2, 3]"

lemma length_sb_pad [simp]: "length (sb_pad env) = 3"
  by (simp add: sb_pad_def)

lemma take_req_buf:
  "4 \<le> n \<Longrightarrow> take 4 (ty # drop (Suc 0) (req_buf env n)) = ty # sb_pad env"
  by (simp add: req_buf_def sb_pad_def take_map drop_map upt_rec [of 1] upt_rec [of 2] upt_rec [of 3] numeral_eq_Suc)

lemma type_write: "1 \<le> n \<Longrightarrow> mem_write 0 [ty] (req_buf env n) = Some (ty # drop (Suc 0) (req_buf env n))"
  by (simp add: mem_write_def)

lemma send_fw_init_eq:
  "tgd_send_fw_init ops env (length data) data drv =
     Some (sb_ioctl ops env (100 # sb_pad env @ le_bytes 4 (length (var_payload 8 LOCAL_IOCTL_BUF_SIZE data)) @
             var_payload 8 LOCAL_IOCTL_BUF_SIZE data) drv)"
proof -
  let ?b = "100 # drop (Suc 0) (req_buf env LOCAL_IOCTL_BUF_SIZE)"
  have l: "length ?b = 512" by simp
  have p: "8 + length (var_payload 8 LOCAL_IOCTL_BUF_SIZE data) \<le> 512" by (simp add: var_payload_def)
  obtain rc buf' where v: "add_var_data 4 8 LOCAL_IOCTL_BUF_SIZE (length data) data ?b = Some (rc, buf')"
    "var_len 4 buf' = Some (length (var_payload 8 LOCAL_IOCTL_BUF_SIZE data))"
    "mem_read 0 (8 + length (var_payload 8 LOCAL_IOCTL_BUF_SIZE data)) buf' =
       Some (take 4 ?b @ le_bytes 4 (length (var_payload 8 LOCAL_IOCTL_BUF_SIZE data)) @ var_payload 8 LOCAL_IOCTL_BUF_SIZE data)"
    by (rule var_request [of 4 8 ?b LOCAL_IOCTL_BUF_SIZE data]) (use l p in auto)
  show ?thesis
    using v take_req_buf [of LOCAL_IOCTL_BUF_SIZE 100 env] by (simp del: take_Suc_Cons take_drop add: tgd_send_fw_init_def type_write)
qed

lemma send_passthrough_eq:
  "tgd_send_passthrough_to_fw ops env alloc data (length data) drv =
     (if \<not> alloc then Some (- 1, drv)
      else let (e, d) = sb_ioctl ops env (107 # sb_pad env @ le_bytes 4 (length (var_payload 8 VENDOR_IOCTL_MAX_SIZE data)) @
             var_payload 8 VENDOR_IOCTL_MAX_SIZE data) drv in Some (uint e, d))"
proof -
  let ?b = "107 # drop (Suc 0) (req_buf env (8 + length data))"
  have l: "length ?b = 8 + length data" by simp
  have p: "8 + length (var_payload 8 VENDOR_IOCTL_MAX_SIZE data) \<le> 8 + length data" by (simp add: var_payload_def)
  obtain rc buf' where v: "add_var_data 4 8 VENDOR_IOCTL_MAX_SIZE (length data) data ?b = Some (rc, buf')"
    "var_len 4 buf' = Some (length (var_payload 8 VENDOR_IOCTL_MAX_SIZE data))"
    "mem_read 0 (8 + length (var_payload 8 VENDOR_IOCTL_MAX_SIZE data)) buf' =
       Some (take 4 ?b @ le_bytes 4 (length (var_payload 8 VENDOR_IOCTL_MAX_SIZE data)) @ var_payload 8 VENDOR_IOCTL_MAX_SIZE data)"
    by (rule var_request [of 4 8 ?b VENDOR_IOCTL_MAX_SIZE data]) (use l p in auto)
  show ?thesis
    using v take_req_buf [of "8 + length data" 107 env]
    by (simp del: take_Suc_Cons take_drop add: tgd_send_passthrough_to_fw_def type_write)
qed

lemma mac_write:
  assumes "length a = 6" and "length b = 512" and "take 4 b = h"
  shows "mem_write 4 a b = Some (h @ a @ drop 10 b)"
  using assms by (simp add: mem_write_def)

lemma send_disassoc_eq:
  assumes "length a = 6"
  shows "tgd_send_disassoc_req ops env a drv = Some (sb_ioctl ops env (114 # sb_pad env @ a) drv)"
proof -
  let ?b = "114 # drop (Suc 0) (req_buf env LOCAL_IOCTL_BUF_SIZE)"
  have t: "take 4 ?b = 114 # sb_pad env" using take_req_buf [of LOCAL_IOCTL_BUF_SIZE 114 env] by simp
  have w: "mem_write 4 a ?b = Some ((114 # sb_pad env) @ a @ drop 10 ?b)"
    using mac_write [OF assms _ t] by simp
  show ?thesis using w assms
    by (simp add: tgd_send_disassoc_req_def type_write mem_read_def sb_pad_def)
qed

lemma send_bmfm_eq:
  assumes "length a = 6"
  shows "tgd_send_bmfm_cfg_req ops env a role (length data) data drv =
     Some (sb_ioctl ops env (112 # sb_pad env @ a @ [role] @ le_bytes 4 (length (var_payload 15 LOCAL_IOCTL_BUF_SIZE data)) @
             var_payload 15 LOCAL_IOCTL_BUF_SIZE data) drv)"
proof -
  let ?h = "112 # sb_pad env" and ?c = "112 # drop (Suc 0) (req_buf env LOCAL_IOCTL_BUF_SIZE)"
  let ?b = "?h @ a @ [role] @ drop 11 ?c"
  have t: "take 4 ?c = ?h" using take_req_buf [of LOCAL_IOCTL_BUF_SIZE 112 env] by simp
  have w1: "mem_write 4 a ?c = Some (?h @ a @ drop 10 ?c)" using mac_write [OF assms _ t] by simp
  have w2: "mem_write 10 [role] (?h @ a @ drop 10 ?c) = Some ?b"
    using assms by (simp add: mem_write_def sb_pad_def)
  have l: "length ?b = 512" using assms by (simp add: sb_pad_def)
  have p: "15 + length (var_payload 15 LOCAL_IOCTL_BUF_SIZE data) \<le> 512" by (simp add: var_payload_def)
  obtain rc buf' where v: "add_var_data 11 15 LOCAL_IOCTL_BUF_SIZE (length data) data ?b = Some (rc, buf')"
    "var_len 11 buf' = Some (length (var_payload 15 LOCAL_IOCTL_BUF_SIZE data))"
    "mem_read 0 (15 + length (var_payload 15 LOCAL_IOCTL_BUF_SIZE data)) buf' =
       Some (take 11 ?b @ le_bytes 4 (length (var_payload 15 LOCAL_IOCTL_BUF_SIZE data)) @ var_payload 15 LOCAL_IOCTL_BUF_SIZE data)"
    by (rule var_request [of 11 15 ?b LOCAL_IOCTL_BUF_SIZE data]) (use l p in auto)
  have "take 11 ?b = ?h @ a @ [role]" using assms by (simp add: sb_pad_def)
  with v w1 w2 assms show ?thesis by (simp add: tgd_send_bmfm_cfg_req_def type_write)
qed

lemma send_gps_time_eq:
  "\<exists>req. tgd_send_gps_time ops env t drv = Some (sb_ioctl ops env req drv) \<and>
     req = 111 # sb_pad env @ le_bytes 4 (unat (ucast (tv_sec t) :: u32)) @
       le_bytes 4 (unat (ucast (drop_bit 32 (tv_sec t)) :: u32)) @ le_bytes 4 (unat (ucast (tv_nsec t) :: u32))"
proof -
  let ?b = "111 # drop (Suc 0) (req_buf env 100)"
  have t: "take 4 ?b = 111 # sb_pad env" using take_req_buf [of 100 111 env] by simp
  have l: "length ?b = 100" by simp
  show ?thesis using t l
    by (simp del: take_Suc_Cons add: tgd_send_gps_time_def type_write mem_write_def mem_read_def sb_pad_def)
qed

section \<open>The report\<close>

lemma avg_bound:
  assumes "now \<le> R" and "old \<le> R" and "unat R * 7 < 2 ^ 64"
  shows "QUEUE_STATS_UPDATE_ARRIVAL_RATE now old \<le> R"
proof -
  have a: "unat now \<le> unat R" "unat old \<le> unat R" using assms(1,2) by (simp_all add: word_le_nat_alt)
  then have o: "unat (7 * old) = 7 * unat old"
    using assms(3) by (simp add: unat_mult_lem [THEN iffD1] unat_word_ariths)
  have d: "unat (drop_bit 3 (w :: u64)) = unat w div 8" for w by (simp add: drop_bit_eq_div unat_div)
  have s: "unat now div 8 + (7 * unat old) div 8 \<le> unat R" using a by linarith
  then have "unat (QUEUE_STATS_UPDATE_ARRIVAL_RATE now old) = unat now div 8 + (7 * unat old) div 8"
    using d o unsigned_less [of R, where ?'a = nat]
    by (simp add: QUEUE_STATS_UPDATE_ARRIVAL_RATE_def unat_plus_if_size word_size)
  with s show ?thesis by (simp add: word_le_nat_alt)
qed

lemma ucast_small: "x < 0x100000000 \<Longrightarrow> unat (ucast (x :: u64) :: u32) = unat x"
  by (simp add: unsigned_ucast_eq take_bit_nat_eq_self word_less_nat_alt)

lemma reported_rate_ok:
  assumes "avg \<le> R" and "now \<le> R" and "R < 0x100000000" and "R \<le> ulong_max" and "1 \<le> R"
  shows "unat (reported_rate ulong_max avg now arrived) \<le> unat R"
    and "reported_rate ulong_max avg now arrived = 0 \<longleftrightarrow> avg = 0 \<and> now = 0 \<and> arrived = 0"
proof -
  have s: "avg < 0x100000000" "now < 0x100000000" "min avg ulong_max = avg" "min now ulong_max = now"
    using assms by auto
  have u: "unat (1 :: u32) \<le> unat R" using assms(5) by (simp add: word_le_nat_alt)
  show "unat (reported_rate ulong_max avg now arrived) \<le> unat R"
    using s assms(1,2) u by (auto simp: reported_rate_def ucast_small word_le_nat_alt)
  have z: "(ucast (x :: u64) :: u32) = 0 \<longleftrightarrow> x = 0" if "x < 0x100000000" for x
    using ucast_small [OF that] by (metis unat_eq_zero unat_0)
  show "reported_rate ulong_max avg now arrived = 0 \<longleftrightarrow> avg = 0 \<and> now = 0 \<and> arrived = 0"
    using s z by (auto simp: reported_rate_def)
qed

text \<open>A pass treats every device on its own, with the slot of its position.\<close>

definition link_slot ::
  "u64 \<Rightarrow> 'b bh_ops \<Rightarrow> 'b option \<Rightarrow> (nat \<Rightarrow> timespec \<times> timespec) \<Rightarrow> nat \<Rightarrow> dev_priv \<Rightarrow> cumul_stats \<Rightarrow>
   dev_priv \<times> cumul_stats \<times> tgSbQueueStats" where
  "link_slot um ops ctx clock j p cum = queue_stats_link um ops ctx (fst (clock j)) (snd (clock j)) p cum"

definition pass_of ::
  "u64 \<Rightarrow> 'b bh_ops \<Rightarrow> 'b option \<Rightarrow> (nat \<Rightarrow> timespec \<times> timespec) \<Rightarrow> nat \<Rightarrow> dev_priv list \<Rightarrow> stats_thread_data \<Rightarrow>
   dev_priv list \<Rightarrow> stats_thread_data \<Rightarrow> bool" where
  "pass_of um ops ctx clock k ps d ps' d' \<longleftrightarrow>
     length ps' = length ps \<and> length (queue_stats d') = 16 \<and> length (cumulative_stats d') = 16 \<and>
     (\<forall>j < k. queue_stats d' ! j = queue_stats d ! j \<and> cumulative_stats d' ! j = cumulative_stats d ! j) \<and>
     (\<forall>j. k \<le> j \<longrightarrow> j < 16 \<longrightarrow> j - k < length ps \<longrightarrow>
        link_slot um ops ctx clock j (ps ! (j - k)) (cumulative_stats d ! j) =
          (ps' ! (j - k), cumulative_stats d' ! j, queue_stats d' ! j))"

lemma queue_stats_links_pass:
  assumes "queue_stats_links um ops ctx clock k ps d = (ps', d')"
    and "length (queue_stats d) = 16" and "length (cumulative_stats d) = 16"
  shows "pass_of um ops ctx clock k ps d ps' d'"
  using assms
proof (induction ps arbitrary: k d ps' d')
  case Nil
  then show ?case by (simp add: pass_of_def)
next
  case (Cons p ps)
  show ?case
  proof (cases "16 \<le> k")
    case True
    then obtain qs where "ps' = p # qs" "queue_stats_links um ops ctx clock k ps d = (qs, d')"
      using Cons.prems(1) by (auto split: prod.splits)
    then show ?thesis using Cons.IH [of k d qs d'] Cons.prems True by (simp add: pass_of_def)
  next
    case False
    obtain q cum sb where
      s: "queue_stats_link um ops ctx (fst (clock k)) (snd (clock k)) p (cumulative_stats d ! k) = (q, cum, sb)"
      by (cases "queue_stats_link um ops ctx (fst (clock k)) (snd (clock k)) p (cumulative_stats d ! k)") auto
    let ?d = "d\<lparr>queue_stats := (queue_stats d)[k := sb], cumulative_stats := (cumulative_stats d)[k := cum]\<rparr>"
    obtain qs e where r: "queue_stats_links um ops ctx clock (Suc k) ps ?d = (qs, e)" by fastforce
    have e: "ps' = q # qs" "d' = e" using Cons.prems(1) False s r by simp_all
    have IH: "pass_of um ops ctx clock (Suc k) ps ?d qs e" using Cons.IH [OF r] Cons.prems by simp
    have "link_slot um ops ctx clock j ((p # ps) ! (j - k)) (cumulative_stats d ! j) =
            (ps' ! (j - k), cumulative_stats d' ! j, queue_stats d' ! j)"
      if j: "k \<le> j" "j < 16" "j - k < length (p # ps)" for j
    proof (cases "j = k")
      case True
      then show ?thesis using IH s e Cons.prems False by (simp add: link_slot_def pass_of_def)
    next
      case False
      then have "j - k = Suc (j - Suc k)" using j by simp
      then show ?thesis using IH e False j by (simp add: pass_of_def)
    qed
    then show ?thesis using IH e by (simp add: pass_of_def)
  qed
qed

text \<open>What a device received since the last pass, and the rate of it.\<close>

definition since_last :: "'b bh_ops \<Rightarrow> 'b option \<Rightarrow> dev_priv \<Rightarrow> cumul_stats \<Rightarrow> u64" where
  "since_last ops ctx p cum = snd (arrived_since (link_arrived (lr_stats (fst (link_report_of ops ctx p)))) cum)"

definition link_rate :: "'b bh_ops \<Rightarrow> 'b option \<Rightarrow> timespec \<Rightarrow> dev_priv \<Rightarrow> cumul_stats \<Rightarrow> u64" where
  "link_rate ops ctx tnow p cum = ROUND_DIV64 (since_last ops ctx p cum) (delta_millis tnow (tlast cum))"

lemma report_addr: "lr_dst_mac_addr (fst (link_report_of ops ctx p)) = link_sta_addr p"
  by (simp add: link_report_of_def tgd_terra_link_stats_def Let_def)

lemma idle_rate: "ROUND_DIV64 0 (delta_millis t u) = 0"
proof -
  let ?d = "delta_millis t u"
  have "?d \<noteq> 0" by (simp add: delta_millis_def Let_def)
  then have "unat ?d div 2 < unat ?d" by (simp add: unat_gt_0)
  then show ?thesis by (simp add: ROUND_DIV64_def unat_eq_zero [symmetric] unat_div)
qed

lemma link_slot_bounds:
  assumes R: "1 \<le> R" "R < 0x100000000" "R \<le> um"
    and up: "link_state p = TG_LINKUP"
    and avg: "avg_arrived_bytes_per_ms cum \<le> R" and rate: "link_rate ops ctx (fst (clock j)) p cum \<le> R"
    and s: "link_slot um ops ctx clock j p cum = (q, cum', sb)"
  shows "avg_arrived_bytes_per_ms cum' \<le> R \<and> dstMacAddr sb = link_sta_addr p \<and> unat (arrivalRate sb) \<le> unat R \<and>
         (arrivalRate sb = 0 \<longleftrightarrow> avg_arrived_bytes_per_ms cum' = 0 \<and> since_last ops ctx p cum = 0)"
proof -
  let ?tot = "link_arrived (lr_stats (fst (link_report_of ops ctx p)))"
  obtain old arr where a: "arrived_since ?tot cum = (old, arr)" by fastforce
  have arr: "arr = since_last ops ctx p cum" using a by (simp add: since_last_def)
  have old: "old \<le> R" using a avg by (auto simp: arrived_since_def split: if_splits)
  let ?now = "ROUND_DIV64 arr (delta_millis (fst (clock j)) (tlast cum))"
  have now: "?now \<le> R" using rate arr by (simp add: link_rate_def)
  let ?avg = "QUEUE_STATS_UPDATE_ARRIVAL_RATE ?now old"
  have "unat R < 2 ^ 32" using R(2) by (simp add: word_less_nat_alt)
  then have b: "?avg \<le> R" using avg_bound [OF now old] by simp
  have c: "avg_arrived_bytes_per_ms cum' = ?avg" "dstMacAddr sb = link_sta_addr p"
    "arrivalRate sb = reported_rate um ?avg ?now arr"
    using s up a by (auto simp: link_slot_def queue_stats_link_def Let_def split_def report_addr)
  have "?now = 0" if "arr = 0" using that idle_rate by simp
  then show ?thesis using c b arr reported_rate_ok [OF b now R(2,3,1), of arr] by auto
qed

lemma length_queue_bytes:
  "\<forall>q \<in> set qs. length (dstMacAddr q) = 6 \<Longrightarrow> length (concat (map queue_stats_bytes qs)) = 14 * length qs"
  by (induction qs) (auto simp: queue_stats_bytes_def)

lemma send_queue_stats_eq:
  assumes "0 < n" and "n \<le> 16" and "n \<le> length qs" and "\<forall>q \<in> set (take n qs). length (dstMacAddr q) = 6"
  shows "tgd_send_queue_stats ops env qs n drv =
           Some (sb_ioctl ops env (115 # sb_pad env @ concat (map queue_stats_bytes (take n qs))) drv)"
proof -
  let ?b = "115 # drop (Suc 0) (req_buf env 228)" and ?s = "concat (map queue_stats_bytes (take n qs))"
  have t: "take 4 ?b = 115 # sb_pad env" using take_req_buf [of 228 115 env] by simp
  have l: "length ?s = 14 * n" using length_queue_bytes [of "take n qs"] assms(3,4) by simp
  have "concat (map queue_stats_bytes qs) = ?s @ concat (map queue_stats_bytes (drop n qs))"
    by (metis append_take_drop_id concat_append map_append)
  then have r: "mem_read 0 (14 * n) (concat (map queue_stats_bytes qs)) = Some ?s" using l by (simp add: mem_read_def)
  have w: "mem_write 4 ?s ?b = Some ((115 # sb_pad env) @ ?s @ drop (4 + 14 * n) ?b)"
    using t l assms(2) by (simp add: mem_write_def)
  have "length (115 # sb_pad env @ ?s) = 4 + 14 * n" using l by simp
  then have "mem_read 0 (4 + 14 * n) ((115 # sb_pad env @ ?s) @ drop (4 + 14 * n) ?b) = Some (115 # sb_pad env @ ?s)"
    using assms(2) by (simp only: mem_read_def length_append drop_0 take_append) simp
  with r w assms(1,2) show ?thesis by (simp add: tgd_send_queue_stats_def type_write min_def)
qed

text \<open>
  C36. One pass of the report thread: the firmware is sent the entries of the first 16 devices, in order. A device
  that is not up has an entry of zeros and its history is kept. For a device that is up the entry names its peer;
  if the average and the new rate are at most R, the reported rate and the new average are at most R too, and
  the reported rate is 0 only if nothing arrived and the average has died out.
\<close>

theorem queue_report:
  assumes "length (queue_stats d) = 16" and "length (cumulative_stats d) = 16"
    and "devs drv \<noteq> []" and "table_ok drv"
    and R: "1 \<le> R" "R < 0x100000000" "R \<le> ulong_max"
    and avg: "\<forall>j < min 16 (length (devs drv)). avg_arrived_bytes_per_ms (cumulative_stats d ! j) \<le> R"
    and rate: "\<forall>j < min 16 (length (devs drv)).
      link_rate ops (bh_ctx drv) (fst (clock j)) (devs drv ! j) (cumulative_stats d ! j) \<le> R"
  shows "\<exists>d' ps. queue_stats_thread_main ulong_max ops env clock d drv =
      Some (d', snd (sb_ioctl ops env
        (115 # sb_pad env @ concat (map queue_stats_bytes (take (min 16 (length (devs drv))) (queue_stats d')))) (drv\<lparr>devs := ps\<rparr>))) \<and>
    (\<forall>j < min 16 (length (devs drv)).
       let p = devs drv ! j; cum = cumulative_stats d ! j; cum' = cumulative_stats d' ! j; e = queue_stats d' ! j in
       if link_state p = TG_LINKUP
       then dstMacAddr e = link_sta_addr p \<and> avg_arrived_bytes_per_ms cum' \<le> R \<and> unat (arrivalRate e) \<le> unat R \<and>
            (arrivalRate e = 0 \<longleftrightarrow> avg_arrived_bytes_per_ms cum' = 0 \<and> since_last ops (bh_ctx drv) p cum = 0)
       else e = zero_queue_stats \<and> cum' = cum)"
proof -
  let ?n = "min 16 (length (devs drv))"
  obtain ps d' where l: "queue_stats_links ulong_max ops (bh_ctx drv) clock 0 (devs drv) d = (ps, d')" by fastforce
  have P: "pass_of ulong_max ops (bh_ctx drv) clock 0 (devs drv) d ps d'"
    using queue_stats_links_pass [OF l] assms(1,2) by simp
  have slot: "link_slot ulong_max ops (bh_ctx drv) clock j (devs drv ! j) (cumulative_stats d ! j) =
      (ps ! j, cumulative_stats d' ! j, queue_stats d' ! j)" if "j < ?n" for j
    using P that by (simp add: pass_of_def)
  have each: "let p = devs drv ! j; cum = cumulative_stats d ! j; cum' = cumulative_stats d' ! j; e = queue_stats d' ! j in
       if link_state p = TG_LINKUP
       then dstMacAddr e = link_sta_addr p \<and> avg_arrived_bytes_per_ms cum' \<le> R \<and> unat (arrivalRate e) \<le> unat R \<and>
            (arrivalRate e = 0 \<longleftrightarrow> avg_arrived_bytes_per_ms cum' = 0 \<and> since_last ops (bh_ctx drv) p cum = 0)
       else e = zero_queue_stats \<and> cum' = cum" if "j < ?n" for j
    using link_slot_bounds [OF R _ avg [rule_format, OF that] rate [rule_format, OF that] slot [OF that]] slot [OF that]
    by (auto simp: Let_def link_slot_def queue_stats_link_def)
  have m: "length (dstMacAddr e) = 6" if h: "e \<in> set (take ?n (queue_stats d'))" for e
  proof -
    obtain j where j: "j < ?n" "e = queue_stats d' ! j" using h P by (auto simp: in_set_conv_nth pass_of_def)
    have "length (link_sta_addr (devs drv ! j)) = 6" using assms(4) j(1) table_ok_nth [of drv j] by (simp add: dev_ok_def)
    then show ?thesis using each [OF j(1)] j(2) by (auto simp: Let_def zero_queue_stats_def zero_mac_def split: if_splits)
  qed
  have "tgd_send_queue_stats ops env (queue_stats d') ?n (drv\<lparr>devs := ps\<rparr>) =
     Some (sb_ioctl ops env (115 # sb_pad env @ concat (map queue_stats_bytes (take ?n (queue_stats d')))) (drv\<lparr>devs := ps\<rparr>))"
    using send_queue_stats_eq [of ?n "queue_stats d'"] m assms(3) P by (simp add: pass_of_def)
  moreover have "length ps = length (devs drv)" using P by (simp add: pass_of_def)
  ultimately show ?thesis using l each
    by (intro exI [of _ d'] exI [of _ ps]) (simp add: queue_stats_thread_main_def split_def)
qed

end
