(* ===== verification/TerraDriver.thy ===== *)
theory TerraDriver
  imports TerraData
begin

text \<open>
  What the Terragraph wireless driver promises as a whole: every frame is accounted for, a link
  comes up on the device reserved for its peer, events are handled in order, and nothing reaches the
  vendor driver after the shutdown. Instances for the theorems on the driver stand at the end.
\<close>

section \<open>Transmission is complete\<close>

lemma m4_check_total:
  assumes "sb_data skb + 21 \<le> length (sb_head skb)"
  shows "\<exists>p1. m4_check skb proto p = Some p1"
proof -
  have "tgd_cfg80211_is_4way_m4 skb \<noteq> None"
    using assms mem_read_1 [of "sb_data skb + 15" "sb_head skb"] mem_read_1 [of "sb_data skb + 18" "sb_head skb"]
      mem_read_2 [of "sb_data skb + 19" "sb_head skb"]
    by (auto simp: tgd_cfg80211_is_4way_m4_def)
  then show ?thesis by (auto simp: m4_check_def)
qed

lemma tx_pre_total:
  assumes "sb_data skb + 21 \<le> length (sb_head skb)" and "dev_ok p"
  shows "\<exists>r p'. tgd_terra_bh_tx_pre cpu q skb p = Some (r, p')"
proof -
  let ?qid = "if length (tx_stopped p) \<le> q then 0 else q"
  have q: "?qid < length (tx_stopped p)" using assms(2) by (auto simp: dev_ok_def)
  obtain proto where pr: "mem_read (sb_data skb + 12) 2 (sb_head skb) = Some proto"
    using assms(1) by (auto simp: mem_read_def)
  obtain p1 where p1: "m4_check skb proto p = Some p1" using m4_check_total [OF assms(1)] by blast
  have "link_sta_addr p1 = link_sta_addr p"
    using m4_check_cases [OF p1] m4_sent_same [of p] by (auto simp: same_link_def)
  then have "length (link_sta_addr p1) = 6" using assms(2) by (simp add: dev_ok_def)
  then have "\<exists>s. skb_store (sb_data skb) (link_sta_addr p1) skb = Some s"
    using assms(1) by (simp add: skb_store_def mem_write_def)
  then have "\<exists>r p'. tx_port_check cpu ?qid skb p = Some (r, p')"
    using pr p1 by (auto simp: tx_port_check_def)
  then show ?thesis using q by (auto simp: tgd_terra_bh_tx_pre_def Let_def arr_get_def)
qed

lemma tx_common_total:
  assumes "sb_data skb + 21 \<le> length (sb_head skb)" and "dev_ok (devs drv ! i)" and "bh_ctx drv \<noteq> None"
  shows "\<exists>fs drv'. tgd_terra_bh_tx_common ops cpu i q skb drv = Some (fs, drv')"
proof -
  obtain r p where rp: "tgd_terra_bh_tx_pre cpu q skb (devs drv ! i) = Some (r, p)"
    using tx_pre_total [OF assms(1,2)] by blast
  obtain b where "bh_ctx drv = Some b" using assms(3) by blast
  then show ?thesis using rp
    by (cases r) (simp_all add: tgd_terra_bh_tx_common_def tgd_terra_bh_tx_post_def fb_tgd_bh_tx_data_def
        upd_dev_def Let_def)
qed

lemma dev_total_m4 [simp]: "dev_total k (tgd_cfg80211_evt_m4_sent p) = dev_total k p"
  "length (pcpu_stats (tgd_cfg80211_evt_m4_sent p)) = length (pcpu_stats p)"
  by (simp_all add: tgd_cfg80211_evt_m4_sent_def dev_total_def upd_wiphy_def)

lemma store_bytes:
  assumes "skb_store (sb_data s) a s = Some s'" and "skb_wf s" and "length a \<le> sb_len s"
  shows "skb_bytes s' = a @ drop (length a) (skb_bytes s)"
  using assms by (auto simp: skb_store_def mem_write_def skb_bytes_def skb_wf_def drop_take ac_simps
      split: if_splits)

text \<open>
  C9. Every frame handed to the driver is accounted for. In any state the driver reaches while the
  vendor driver is registered, transmission of a frame with at least 21 bytes of buffer behind its
  start completes in one of three ways: the frame goes to the vendor driver with the address of the
  peer as its destination and the rest of its bytes unchanged, and the counter of its queue goes up
  by one; or it is dropped and exactly one of the two drop counters goes up. It goes out only on a
  link that is up, over a queue that is not stopped.
\<close>

theorem terra_tx_accounted:
  assumes "terra_reach ops drv" and "bh_ctx drv \<noteq> None" and "i < length (devs drv)"
    and "cpu < length (pcpu_stats (devs drv ! i))"
    and "skb_wf skb" and "sb_data skb + 21 \<le> length (sb_head skb)"
  shows "\<exists>fs drv' k. tgd_terra_bh_tx_common ops cpu i q skb drv = Some (fs, drv') \<and>
           (\<forall>j. dev_total j (devs drv' ! i) = dev_total j (devs drv ! i) + (if j = k then 1 else 0)) \<and>
           (fs = [] \<and> k \<in> {TX_TGD_ERR, TX_TGD_TX_STOPPED} \<or>
            (\<exists>f qid. fs = [f] \<and> k = cos_stat qid \<and>
               skb_bytes f = link_sta_addr (devs drv ! i) @ drop 6 (skb_bytes skb) \<and>
               carrier (devs drv ! i) \<and> link_state (devs drv ! i) = TG_LINKUP \<and>
               0 \<le> tx_link (devs drv ! i) \<and> \<not> tx_stopped (devs drv ! i) ! qid))"
proof -
  have dok: "dev_ok (devs drv ! i)" by (rule table_ok_nth [OF terra_reach_table_ok [OF assms(1)] assms(3)])
  then have len6: "length (link_sta_addr (devs drv ! i)) = 6" by (simp add: dev_ok_def)
  obtain fs drv' where tx: "tgd_terra_bh_tx_common ops cpu i q skb drv = Some (fs, drv')"
    using tx_common_total [OF assms(6) dok assms(2)] by blast
  obtain r p where rp: "tgd_terra_bh_tx_pre cpu q skb (devs drv ! i) = Some (r, p)"
    "devs drv' = (devs drv)[i := p]" "fs = (case r of None \<Rightarrow> [] | Some s \<Rightarrow> [s])"
    using tx_common_cases [OF tx] by blast
  then have p: "devs drv' ! i = p" using assms(3) by simp
  note tot = dev_total_inc assms(4)
  from rp(1) show ?thesis
  proof (cases rule: tx_pre_cases)
    case err
    then show ?thesis using tx rp(3) p tot by (intro exI [of _ TX_TGD_ERR] exI conjI) auto
  next
    case stopped
    then show ?thesis using tx rp(3) p tot by (intro exI [of _ TX_TGD_TX_STOPPED] exI conjI) auto
  next
    case (closed p1)
    then show ?thesis using tx rp(3) p tot by (intro exI [of _ TX_TGD_TX_STOPPED] exI conjI) auto
  next
    case (pass p1 qid skb')
    have "skb_bytes skb' = link_sta_addr (devs drv ! i) @ drop 6 (skb_bytes skb)"
      using store_bytes [OF pass(12) assms(5)] len6 pass(4) by simp
    then show ?thesis using tx rp(3) p tot pass
      by (intro exI [of _ fs] exI [of _ drv'] exI [of _ "cos_stat qid"]) auto
  qed
qed

section \<open>A link comes up\<close>

lemma find_idx_SomeI:
  "i < length xs \<Longrightarrow> P (xs ! i) \<Longrightarrow> (\<And>j. j < i \<Longrightarrow> \<not> P (xs ! j)) \<Longrightarrow> find_idx P xs = Some i"
proof (induction xs arbitrary: i)
  case (Cons x xs)
  show ?case
  proof (cases i)
    case (Suc k)
    have "\<not> P x" using Cons.prems(3) [of 0] Suc by simp
    moreover have "\<not> P (xs ! j)" if "j < k" for j using Cons.prems(3) [of "Suc j"] Suc that by simp
    ultimately show ?thesis using Cons.IH [of k] Cons.prems(1,2) Suc by simp
  qed (use Cons.prems(2) in simp)
qed simp

text \<open>The reserved device is the first with the address of the peer, when no active one has it.\<close>

lemma reserved_first:
  assumes "table_ok drv" and "a \<noteq> zero_mac" and "tgd_terra_dev_reserve a drv = (Some i, drv1)"
    and "\<forall>p \<in> set (devs drv). link_sta_addr p = a \<longrightarrow> link_state p = TG_LINKINIT" and "j < i"
  shows "link_sta_addr (devs drv ! j) \<noteq> a"
proof
  assume j: "link_sta_addr (devs drv ! j) = a"
  let ?P = "\<lambda>p. link_state p = TG_LINKINIT \<and> link_sta_addr p = a"
  have i: "i < length (devs drv)" using reserve_result [OF assms(1-3)] by simp
  have "zeros_last (map link_sta_addr (devs drv))" using assms(1) by (simp add: table_ok_def)
  then have spec: "reserve_spec a (devs drv) = Some i"
    using reserve_scan_spec [of "devs drv" a] assms(2,3)
    by (simp add: tgd_terra_dev_reserve_def split: option.splits)
  have "?P (devs drv ! j)" using j assms(4,5) i by simp
  then have "find_idx ?P (devs drv) \<noteq> None" using i assms(5) unfolding find_idx_None by fastforce
  then have "find_idx ?P (devs drv) = Some i" using spec by (auto simp: reserve_spec_def)
  then show False using find_idx_Some \<open>?P (devs drv ! j)\<close> assms(5) by blast
qed

text \<open>
  A link comes up on the device reserved for its peer. When the firmware announces the links of
  a peer that no active device serves and a device is free, and then reports the link up, the peer
  is found at that device, which is active with the announced links, its carrier on and its four
  queues open; every other device is as before. The next announcement of the same peer after its
  link is deleted reserves the same device.
\<close>

theorem terra_link_up:
  assumes "terra_reach ops drv" and "a \<noteq> zero_mac"
    and "\<forall>p \<in> set (devs drv). link_sta_addr p = a \<longrightarrow> link_state p = TG_LINKINIT"
    and "fst (tgd_terra_dev_reserve a drv) = Some i" and "length a = 6"
  shows "let drv1 = tgd_terra_set_link_mac_addr ops a rx tx drv;
             drv2 = snd (tgd_terra_set_link_status (Some a) TG_LINKUP drv1);
             p = devs drv2 ! i;
             drv3 = snd (tgd_terra_del_link_info ops cpu (Some a) drv2)
         in tgd_terra_lookup_link_by_mac_addr drv2 (Some a) = Some i \<and>
            link_state p = TG_LINKUP \<and> carrier p \<and> tx_stopped p = replicate 4 False \<and>
            tx_link p = uint tx \<and> rx_link p = uint rx \<and>
            (\<forall>j. j \<noteq> i \<longrightarrow> devs drv2 ! j = devs drv ! j) \<and>
            fst (tgd_terra_dev_reserve a drv3) = Some i"
proof -
  note tok = terra_reach_table_ok [OF assms(1)]
  obtain d where r: "tgd_terra_dev_reserve a drv = (Some i, d)" using assms(4) by (cases "tgd_terra_dev_reserve a drv") auto
  have i: "i < length (devs drv)" using reserve_result [OF tok assms(2) r] by simp
  note before = reserved_first [OF tok assms(2) r assms(3)]
  define drv1 where "drv1 = tgd_terra_set_link_mac_addr ops a rx tx drv"
  let ?p1 = "(devs drv ! i)\<lparr>link_sta_addr := a, link_state := TG_LINKDOWN, rx_link := uint rx, tx_link := uint tx\<rparr>"
  have d1: "devs drv1 = (devs drv)[i := ?p1]" unfolding drv1_def by (rule set_link_mac_addr_devs [OF tok assms(2) r])
  have f1: "tgd_terra_find_net_device_by_mac drv1 (Some a) = Some i"
    unfolding tgd_terra_find_net_device_by_mac_def using i before
    by (auto simp: d1 intro!: find_idx_SomeI)
  define drv2 where "drv2 = snd (tgd_terra_set_link_status (Some a) TG_LINKUP drv1)"
  let ?p2 = "snd (link_status_step TG_LINKUP ?p1)"
  have d2: "devs drv2 = (devs drv)[i := ?p2]"
    using f1 i by (simp add: drv2_def tgd_terra_set_link_status_def upd_dev_def d1)
  have f2: "tgd_terra_find_net_device_by_mac drv2 (Some a) = Some i"
    unfolding tgd_terra_find_net_device_by_mac_def using i before
    by (auto simp: d2 link_status_step_def intro!: find_idx_SomeI)
  define drv3 where "drv3 = snd (tgd_terra_del_link_info ops cpu (Some a) drv2)"
  have d3: "devs drv3 = (devs drv)[i := devs drv3 ! i]" "link_sta_addr (devs drv3 ! i) = a"
    "link_state (devs drv3 ! i) = TG_LINKINIT"
    using f2 i by (simp_all add: drv3_def tgd_terra_del_link_info_def del_links_info_devs d2 link_status_step_def)
  have "table_ok drv3" unfolding drv3_def drv2_def drv1_def
    using tok assms(2,5) by (intro table_ok_del_link table_ok_set_status table_ok_set_link_mac) auto
  then have "zeros_last (map link_sta_addr (devs drv3))" by (simp add: table_ok_def)
  moreover have "find_idx (\<lambda>p. link_state p = TG_LINKINIT \<and> link_sta_addr p = a) (devs drv3) = Some i"
    using i before d3(2,3) by (subst d3(1)) (auto intro!: find_idx_SomeI)
  ultimately have "fst (tgd_terra_dev_reserve a drv3) = Some i"
    using reserve_scan_spec assms(2) by (simp add: tgd_terra_dev_reserve_def reserve_spec_def)
  moreover have "length (tx_stopped (devs drv ! i)) = 4" using table_ok_nth [OF tok i] by (simp add: dev_ok_def)
  ultimately show ?thesis
    unfolding Let_def drv1_def [symmetric] drv2_def [symmetric] drv3_def [symmetric]
    using f2 i by (simp add: d2 tgd_terra_lookup_link_by_mac_addr_def link_status_step_def map_replicate_const)
qed

section \<open>Events are handled in order\<close>

definition event_ok :: "u8 list \<Rightarrow> bool" where
  "event_ok ev \<longleftrightarrow> ev \<noteq> [] \<and> length ev \<le> TGD_MAX_EVENT_SIZE"

text \<open>Handling a list of events one after the other.\<close>

fun handle_all ::
  "'b bh_ops \<Rightarrow> terra_env \<Rightarrow> nat \<Rightarrow> u8 list list \<Rightarrow> 'b terra_driver \<Rightarrow> 'b terra_driver option" where
  "handle_all ops env cpu [] drv = Some drv"
| "handle_all ops env cpu (ev # evs) drv = do {
     drv \<leftarrow> tgd_fw_msg_handler ops env cpu ev drv;
     handle_all ops env cpu evs drv
   }"

text \<open>The handler neither reads nor changes the queue.\<close>

lemma queue_frame [simp]:
  "tgd_terra_set_link_status m st (drv\<lparr>rx_event_q := q\<rparr>) =
     apsnd (\<lambda>d. d\<lparr>rx_event_q := q\<rparr>) (tgd_terra_set_link_status m st drv)"
  "tgd_terra_set_link_mac_addr ops a rx tx (drv\<lparr>rx_event_q := q\<rparr>) =
     (tgd_terra_set_link_mac_addr ops a rx tx drv)\<lparr>rx_event_q := q\<rparr>"
  "tgd_terra_del_link_info ops cpu m (drv\<lparr>rx_event_q := q\<rparr>) =
     apsnd (\<lambda>d. d\<lparr>rx_event_q := q\<rparr>) (tgd_terra_del_link_info ops cpu m drv)"
  "upd_dev i f (drv\<lparr>rx_event_q := q\<rparr>) = (upd_dev i f drv)\<lparr>rx_event_q := q\<rparr>"
  "nl_inc k (drv\<lparr>rx_event_q := q\<rparr>) = (nl_inc k drv)\<lparr>rx_event_q := q\<rparr>"
  "nl_notify n (drv\<lparr>rx_event_q := q\<rparr>) = (nl_notify n drv)\<lparr>rx_event_q := q\<rparr>"
  "tgd_send_link_del_resp ops env b (drv\<lparr>rx_event_q := q\<rparr>) =
     (tgd_send_link_del_resp ops env b drv)\<lparr>rx_event_q := q\<rparr>"
  "tgd_send_gps_pos ops env b (drv\<lparr>rx_event_q := q\<rparr>) = (tgd_send_gps_pos ops env b drv)\<lparr>rx_event_q := q\<rparr>"
  "tgd_terra_lookup_link_by_mac_addr (drv\<lparr>rx_event_q := q\<rparr>) m = tgd_terra_lookup_link_by_mac_addr drv m"
  by (auto simp: tgd_terra_set_link_status_def tgd_terra_set_link_mac_addr_def tgd_terra_del_link_info_def
      nl_inc_def nl_notify_def tgd_send_link_del_resp_def tgd_send_gps_pos_def fb_tgd_bh_ioctl_def
      tgd_terra_lookup_link_by_mac_addr_def tgd_terra_find_net_device_by_mac_def upd_dev_def
      tgd_terra_dev_reserve_def fb_tgd_bh_add_links_info_def fb_tgd_bh_add_link_info_def Let_def split_def
      fb_tgd_bh_del_links_info_def fb_tgd_bh_delete_link_info_def split: option.splits)

lemma map_bind: "map_option f (Option.bind x g) = Option.bind x (\<lambda>a. map_option f (g a))"
  by (cases x) auto

lemma update_link_frame:
  "update_link_port ev h dev (drv\<lparr>rx_event_q := q\<rparr>) =
     map_option (\<lambda>d. d\<lparr>rx_event_q := q\<rparr>) (update_link_port ev h dev drv)"
  by (simp add: update_link_port_def Let_def map_bind if_distrib [of "\<lambda>d. d\<lparr>rx_event_q := q\<rparr>"] cong: if_cong
      split: option.splits)

lemma handle_update_frame:
  "handle_update_link ev (drv\<lparr>rx_event_q := q\<rparr>) =
     map_option (\<lambda>d. d\<lparr>rx_event_q := q\<rparr>) (handle_update_link ev drv)"
  by (simp add: handle_update_link_def Let_def map_bind update_link_frame)

lemma queue_gps: "(drv\<lparr>rx_event_q := q\<rparr>)\<lparr>gps_state := g\<rparr> = (drv\<lparr>gps_state := g\<rparr>)\<lparr>rx_event_q := q\<rparr>"
  by simp

lemma handler_frame:
  "tgd_fw_msg_handler ops env cpu ev (drv\<lparr>rx_event_q := q\<rparr>) =
     map_option (\<lambda>d. d\<lparr>rx_event_q := q\<rparr>) (tgd_fw_msg_handler ops env cpu ev drv)"
  by (simp add: tgd_fw_msg_handler_def Let_def map_bind handle_update_frame queue_gps
      if_distrib [of "map_option _"] if_distrib [of "\<lambda>d. d\<lparr>rx_event_q := q\<rparr>"] cong: if_cong split: option.splits)

lemma bind_map: "Option.bind (map_option f x) g = Option.bind x (\<lambda>a. g (f a))"
  by (cases x) auto

lemma handle_all_frame:
  "handle_all ops env cpu evs (drv\<lparr>rx_event_q := q\<rparr>) =
     map_option (\<lambda>d. d\<lparr>rx_event_q := q\<rparr>) (handle_all ops env cpu evs drv)"
  by (induction evs arbitrary: drv) (simp_all add: handler_frame map_bind bind_map)

lemma process_events_all:
  assumes "evs \<noteq> []"
  shows "process_events ops env cpu evs drv = map_option (\<lambda>d. d\<lparr>rx_event_q := []\<rparr>) (handle_all ops env cpu evs drv)"
  using assms
proof (induction evs arbitrary: drv rule: list_nonempty_induct)
  case (single ev)
  then show ?case by (simp add: handler_frame map_bind bind_map)
next
  case (cons ev evs)
  then show ?case by (simp add: handler_frame handle_all_frame map_bind bind_map option.map_comp comp_def)
qed

text \<open>
  C32. Every event the vendor driver delivers while events are enabled, if it is neither empty nor
  longer than 1024 bytes, is handled exactly once and in the order of arrival, after those already
  waiting; the others are dropped, and the queue is empty afterwards.
\<close>

theorem terra_events_in_order:
  assumes "rx_event_enable drv" and "rx_event_q drv @ filter event_ok evs \<noteq> []"
  shows "tgd_process_fb_events ops env cpu (fold (\<lambda>ev. tgd_terra_rx_event_handler True (Some ev)) evs drv) =
         map_option (\<lambda>d. d\<lparr>rx_event_q := []\<rparr>)
           (handle_all ops env cpu (rx_event_q drv @ filter event_ok evs) drv)"
proof -
  have q: "fold (\<lambda>ev. tgd_terra_rx_event_handler True (Some ev)) evs drv =
      drv\<lparr>rx_event_q := rx_event_q drv @ filter event_ok evs\<rparr>"
    using assms(1)
    by (induction evs arbitrary: drv) (auto simp: tgd_terra_rx_event_handler_def event_ok_def)
  show ?thesis
    unfolding q tgd_process_fb_events_def
    by (simp add: process_events_all [OF assms(2)] handle_all_frame option.map_comp comp_def)
qed

section \<open>Shutdown\<close>

lemma unregister_fields [simp]:
  "bh_ctx (snd (fb_tgd_bh_unregister_client drv)) = None" "devs (snd (fb_tgd_bh_unregister_client drv)) = devs drv"
  "fc_enable (snd (fb_tgd_bh_unregister_client drv)) = fc_enable drv"
  "rx_event_enable (snd (fb_tgd_bh_unregister_client drv)) = rx_event_enable drv"
  "rx_event_q (snd (fb_tgd_bh_unregister_client drv)) = rx_event_q drv"
  by (simp_all add: fb_tgd_bh_unregister_client_def)

lemma stop_device_fields [simp]:
  "fc_enable (tgd_terra_stop_device ops cpu i drv) = fc_enable drv"
  "rx_event_enable (tgd_terra_stop_device ops cpu i drv) = rx_event_enable drv"
  "rx_event_q (tgd_terra_stop_device ops cpu i drv) = rx_event_q drv"
  by (simp_all add: tgd_terra_stop_device_def fb_tgd_bh_del_links_info_def fb_tgd_bh_delete_link_info_def
      upd_dev_def Let_def split_def split: option.splits)

definition dev_stopped :: "dev_priv \<Rightarrow> bool" where
  "dev_stopped p \<longleftrightarrow> \<not> carrier p \<and> link_state p = TG_LINKINIT \<and> tx_link p = - 1 \<and> rx_link p = - 1 \<and>
     link_stats p = zero_stats"

lemma stop_device_devs:
  assumes "i < length (devs drv)"
  shows "\<exists>p. devs (tgd_terra_stop_device ops cpu i drv) = (devs drv)[i := p] \<and> dev_stopped p"
  using assms
  by (simp add: tgd_terra_stop_device_def del_links_info_devs upd_dev_def dev_stopped_def)
    (rule exI, rule conjI, rule refl, simp)

lemma stop_all:
  assumes "n \<le> length (devs drv)"
  shows "length (devs (fold (tgd_terra_stop_device ops cpu) [0..<n] drv)) = length (devs drv) \<and>
         (\<forall>i < n. dev_stopped (devs (fold (tgd_terra_stop_device ops cpu) [0..<n] drv) ! i))"
  using assms
proof (induction n)
  case (Suc n)
  let ?d = "fold (tgd_terra_stop_device ops cpu) [0..<n] drv"
  have ih: "length (devs ?d) = length (devs drv)" "\<forall>i < n. dev_stopped (devs ?d ! i)" using Suc by simp_all
  obtain p where p: "devs (tgd_terra_stop_device ops cpu n ?d) = (devs ?d)[n := p]" "dev_stopped p"
    using stop_device_devs [of n ?d ops cpu] ih(1) Suc.prems by auto
  then show ?case using ih Suc.prems by (auto simp: less_Suc_eq nth_upd)
qed simp

lemma stop_fold_fields [simp]:
  "fc_enable (fold (tgd_terra_stop_device ops cpu) is drv) = fc_enable drv"
  "rx_event_enable (fold (tgd_terra_stop_device ops cpu) is drv) = rx_event_enable drv"
  "rx_event_q (fold (tgd_terra_stop_device ops cpu) is drv) = rx_event_q drv"
  by (induction "is" arbitrary: drv) simp_all

lemma ioctl_fields [simp]:
  "fc_enable (snd (snd (fb_tgd_bh_ioctl ops b drv))) = fc_enable drv"
  "rx_event_enable (snd (snd (fb_tgd_bh_ioctl ops b drv))) = rx_event_enable drv"
  "rx_event_q (snd (snd (fb_tgd_bh_ioctl ops b drv))) = rx_event_q drv"
  by (simp_all add: fb_tgd_bh_ioctl_def split_def Let_def split: option.splits)

lemma cleanup_stop_state:
  "let drv' = cleanup_stop ops env cpu drv
   in bh_ctx drv' = None \<and> \<not> rx_event_enable drv' \<and> rx_event_q drv' = [] \<and> \<not> fc_enable drv' \<and>
      length (devs drv') = length (devs drv) \<and> (\<forall>i < length (devs drv). dev_stopped (devs drv' ! i))"
proof -
  define d where "d = (let drv = (tgd_fb_flush_event_q (drv\<lparr>rx_event_enable := False\<rparr>))\<lparr>fc_enable := False\<rparr>
    in if devs drv \<noteq> [] then snd (snd (fb_tgd_bh_ioctl ops ([116] @ map (stack_bytes env) [1, 2, 3]) drv)) else drv)"
  have d: "devs d = devs drv" "\<not> fc_enable d" "\<not> rx_event_enable d" "rx_event_q d = []"
    by (simp_all add: d_def Let_def tgd_fb_flush_event_q_def)
  have c: "cleanup_stop ops env cpu drv = snd (fb_tgd_bh_unregister_client
      ((fold (tgd_terra_stop_device ops cpu) [0..<length (devs d)] d)\<lparr>gps_state := None\<rparr>))"
    by (simp only: cleanup_stop_def d_def Let_def)
  show ?thesis unfolding c Let_def using stop_all [of "length (devs d)" d ops cpu] d by simp
qed

text \<open>
  C28. After the shutdown has left the vendor driver nothing reaches it any more: until the devices
  are freed, a frame the network stack still sends is dropped without touching the context that is
  gone, a flow-control call changes no queue, and an event is neither queued nor handled; every
  device is without a link and its counters have been saved.
\<close>

theorem terra_cleanup_quiet:
  "let drv' = cleanup_stop ops env cpu drv
   in (\<forall>i < length (devs drv).
         link_state (devs drv' ! i) = TG_LINKINIT \<and> tx_link (devs drv' ! i) = - 1 \<and>
         link_stats (devs drv' ! i) = zero_stats \<and>
         (\<forall>c q skb. \<exists>d. tgd_terra_bh_tx_common ops c i q skb drv' = Some ([], d) \<and> bh_ctx d = None) \<and>
         (\<forall>c link qid stop. fb_tgd_bh_flow_control True c i link qid stop drv' = Some drv')) \<and>
      (\<forall>al ev. tgd_terra_rx_event_handler al ev drv' = drv') \<and>
      tgd_process_fb_events ops env cpu drv' = Some drv'"
proof -
  define drv' where "drv' = cleanup_stop ops env cpu drv"
  have s: "bh_ctx drv' = None" "\<not> rx_event_enable drv'" "rx_event_q drv' = []" "\<not> fc_enable drv'"
    "\<And>i. i < length (devs drv) \<Longrightarrow> dev_stopped (devs drv' ! i)"
    using cleanup_stop_state [of ops env cpu drv] by (auto simp: Let_def drv'_def)
  have tx: "\<exists>d. tgd_terra_bh_tx_common ops c i q skb drv' = Some ([], d) \<and> bh_ctx d = None"
    if "i < length (devs drv)" for c i q skb
    using s(1) s(5) [OF that]
    by (simp add: tgd_terra_bh_tx_common_def tgd_terra_bh_tx_pre_def dev_stopped_def upd_dev_def Let_def)
  have fl: "fb_tgd_bh_flow_control True c i link qid stop drv' = Some drv'" for c i link qid stop
    using s(4) by (simp add: fb_tgd_bh_flow_control_def tgd_flow_control_common_def upd_dev_def)
  have ev: "tgd_terra_rx_event_handler al ev drv' = drv'" for al ev
    using s(2) by (simp add: tgd_terra_rx_event_handler_def split: option.splits)
  show ?thesis
    unfolding Let_def drv'_def [symmetric]
    using s tx fl ev by (auto simp: dev_stopped_def tgd_process_fb_events_def)
qed

section \<open>Instances\<close>

text \<open>A vendor driver that records the keys it is given, and a driver with two devices.\<close>

definition sample_ops :: "u8 list list bh_ops" where
  "sample_ops = \<lparr>op_add_link_info = (\<lambda>d b. (0, b)), op_delete_link_info = (\<lambda>d b. (0, b)),
     op_tx_data = (\<lambda>s t b. b), op_link_stats = (\<lambda>i b. Some (zero_stats\<lparr>pkts_sent := 3\<rparr>)),
     op_set_key = (\<lambda>i m k b. (0, b @ [k])), op_ioctl = (\<lambda>r b. (0, [], b)),
     op_prio_mq_map = replicate 16 0\<rparr>"

definition sample_env :: terra_env where
  "sample_env = \<lparr>stack_bytes = (\<lambda>_. 0), gps_start_ret = 0, gps_self_pos = None, frame_alloc = plain_alloc,
                 htsf_registered = True\<rparr>"

definition no_devs :: "u8 list list terra_driver" where
  "no_devs = \<lparr>bh_ctx = Some [], devs = [], link_count = 0, max_link_count = 2, fc_enable = True,
     rx_event_enable = True, rx_event_q = [], drv_mac_addr = replicate 6 1, drv_macaddr = 0,
     gps_state = None, nl_stats = (\<lambda>_. 0), nl_log = []\<rparr>"

definition two_devs :: "u8 list list terra_driver" where
  "two_devs = snd (tgd_terra_create_device 0 1 (- 1) 2 0 1 (snd (tgd_terra_create_device 0 1 (- 1) 2 0 0 no_devs)))"

definition two_closed :: "u8 list list terra_driver" where
  "two_closed = upd_dev 0 tgd_cfg80211_del_station two_devs"

lemma two_devs_reach: "terra_reach sample_ops two_devs"
  unfolding two_devs_def by (intro terra_reach.create terra_reach.probe) (simp add: no_devs_def)

lemma two_closed_reach: "terra_reach sample_ops two_closed"
  by (rule terra_reach.step [OF two_devs_reach, of "Del_station 0" sample_env 0 "[]"])
    (simp_all add: req_ok_def terra_exec_def on_dev_def two_closed_def)

lemmas two_simps = two_closed_def two_devs_def no_devs_def tgd_terra_create_device_def upd_dev_def
  tgd_cfg80211_del_station_def tgd_cfg80211_disauth_def cfg80211_disassoc_def tgd_wiphy_pae_set_authorized_def
  no_wiphy_def zero_mac_def sample_ops_def sample_env_def

theorem terra_link_table_inv_witness:
  "tx_link (devs two_closed ! 0) = - 1 \<and> rx_link (devs two_closed ! 1) = - 1 \<and>
   zeros_last (map link_sta_addr (devs two_closed))"
  using terra_link_table_inv [OF two_closed_reach] by (simp add: two_simps)

theorem terra_reserve_order_witness:
  "fst (tgd_terra_dev_reserve (replicate 6 9) two_closed) = reserve_spec (replicate 6 9) (devs two_closed) \<and>
   fst (tgd_terra_dev_reserve (replicate 6 9) two_closed) = Some 0"
proof
  show "fst (tgd_terra_dev_reserve (replicate 6 9) two_closed) = reserve_spec (replicate 6 9) (devs two_closed)"
    by (rule terra_reserve_order [OF two_closed_reach]) (simp add: zero_mac_def)
  show "fst (tgd_terra_dev_reserve (replicate 6 9) two_closed) = Some 0"
    by (simp add: tgd_terra_dev_reserve_def two_simps)
qed

definition eapol_frame :: sk_buff where
  "eapol_frame = \<lparr>sb_head = replicate 12 7 @ [0x88, 0x8E, 1, 2], sb_data = 0, sb_len = 16, sb_mac = 0,
                  sb_dev = 0, sb_priority = 0\<rparr>"

definition mixed_reqs :: "terra_op list" where
  "mixed_reqs = [Rx 0 sample_frame, Tx 0 sample_frame 0, Rx 0 eapol_frame, Del_key 0 True]"

lemma sample_run:
  "\<exists>drv'. terra_run sample_ops sample_env 0 mixed_reqs two_closed = Some ([To_stack 0 eapol_frame], drv')"
  by (simp add: mixed_reqs_def terra_exec_def tgd_terra_rx_data_handler_def tgd_terra_bh_tx_common_def
      tgd_terra_bh_tx_pre_def fb_tgd_rt_linux_rx_def
      sample_frame_def eapol_frame_def two_simps mem_read_def ETH_P_PAE_def ETH_P_TGAMSDU_def Let_def)

theorem terra_port_secure_witness:
  "\<exists>drv'. terra_run sample_ops sample_env 0 mixed_reqs two_closed = Some ([To_stack 0 eapol_frame], drv') \<and>
     pae_closed (devs drv' ! 0) \<and> is_eapol eapol_frame"
proof -
  obtain drv' where r: "terra_run sample_ops sample_env 0 mixed_reqs two_closed = Some ([To_stack 0 eapol_frame], drv')"
    using sample_run by blast
  have "pae_closed (devs two_closed ! 0)" "0 < length (devs two_closed)" by (simp_all add: two_simps)
  then show ?thesis using terra_port_secure [OF two_closed_reach r, of 0] r
    by (auto simp: req_ok_def opens_def mixed_reqs_def)
qed

lemma terra_run_reach:
  assumes "terra_reach ops drv" and "terra_run ops env cpu reqs drv = Some (out, drv')" and "\<forall>r \<in> set reqs. req_ok r"
  shows "terra_reach ops drv'"
  using assms
proof (induction reqs arbitrary: drv out)
  case (Cons r rs)
  then obtain o1 d1 o2 where "terra_exec ops env cpu r drv = Some (o1, d1)" "terra_run ops env cpu rs d1 = Some (o2, drv')"
    by (auto simp: bind_eq_Some_conv)
  then show ?case using Cons terra_reach.step by fastforce
qed simp

text \<open>The first device with a link that is up, after the two events of the firmware.\<close>

definition peer9 :: mac where "peer9 = [9, 9, 9, 9, 9, 9]"

definition up_events :: "terra_op list" where
  "up_events = [Fw_event ([102, 0, 0, 0] @ peer9 @ [4, 5]), Fw_event ([103, 0, 0, 0, 3] @ peer9 @ [0, 0, 0, 0, 0, 0])]"

definition one_up :: "u8 list list terra_driver" where
  "one_up = (case terra_run sample_ops sample_env 0 up_events two_devs of Some (out, d) \<Rightarrow> d | None \<Rightarrow> two_devs)"

lemma up_run: "\<exists>out. terra_run sample_ops sample_env 0 up_events two_devs = Some (out, one_up)"
proof -
  have "terra_run sample_ops sample_env 0 up_events two_devs \<noteq> None" by code_simp
  then show ?thesis by (auto simp: one_up_def)
qed

lemma one_up_devs:
  "length (devs one_up) = 2" "tx_link (devs one_up ! 0) = 5" "carrier (devs one_up ! 0)" 
  "link_state (devs one_up ! 0) = TG_LINKUP" "length (pcpu_stats (devs one_up ! 0)) = 1"  "bh_ctx one_up \<noteq> None"
  by code_simp+

lemma peer9_facts: "peer9 \<noteq> zero_mac" "length peer9 = 6"
  by code_simp+

lemma one_up_reach: "terra_reach sample_ops one_up"
proof -
  obtain out where "terra_run sample_ops sample_env 0 up_events two_devs = Some (out, one_up)" using up_run by blast
  then show ?thesis
    by (rule terra_run_reach [OF two_devs_reach])
      (use peer9_facts in \<open>simp add: up_events_def req_ok_def\<close>)
qed

definition long_frame :: sk_buff where
  "long_frame = \<lparr>sb_head = replicate 8 0 @ replicate 12 7 @ [8, 0] @ replicate 20 6, sb_data = 8,
                 sb_len = 34, sb_mac = 8, sb_dev = 0, sb_priority = 0\<rparr>"

theorem terra_tx_accounted_witness:
  "\<exists>f drv' k. tgd_terra_bh_tx_common sample_ops 0 0 1 long_frame one_up = Some ([f], drv') \<and>
     skb_bytes f = peer9 @ drop 6 (skb_bytes long_frame) \<and>
     dev_total k (devs drv' ! 0) = dev_total k (devs one_up ! 0) + 1"
proof -
  have "map_option (map skb_bytes \<circ> fst) (tgd_terra_bh_tx_common sample_ops 0 0 1 long_frame one_up) =
      Some [peer9 @ drop 6 (skb_bytes long_frame)]"
    by code_simp
  then show ?thesis
    using terra_tx_accounted [OF one_up_reach one_up_devs(6), of 0 0 long_frame 1] one_up_devs
    by (auto simp: long_frame_def skb_wf_def)
qed

theorem terra_link_up_witness:
  "let drv1 = tgd_terra_set_link_mac_addr sample_ops peer9 4 5 two_closed;
       drv2 = snd (tgd_terra_set_link_status (Some peer9) TG_LINKUP drv1)
   in tgd_terra_lookup_link_by_mac_addr drv2 (Some peer9) = Some 0 \<and>
      link_state (devs drv2 ! 0) = TG_LINKUP \<and> tx_link (devs drv2 ! 0) = 5"
proof -
  have "fst (tgd_terra_dev_reserve peer9 two_closed) = Some 0"
    "\<forall>p \<in> set (devs two_closed). link_sta_addr p = peer9 \<longrightarrow> link_state p = TG_LINKINIT"
    by code_simp+
  from terra_link_up [OF two_closed_reach peer9_facts(1) this(2,1) peer9_facts(2), of 4 5 0]
  show ?thesis by (simp add: Let_def)
qed

theorem terra_events_in_order_witness:
  "tgd_process_fb_events sample_ops sample_env 0
     (fold (\<lambda>ev. tgd_terra_rx_event_handler True (Some ev)) [[106, 1], [], [106, 2]] two_devs) =
   map_option (\<lambda>d. d\<lparr>rx_event_q := []\<rparr>) (handle_all sample_ops sample_env 0 [[106, 1], [106, 2]] two_devs)"
proof -
  have "rx_event_enable two_devs" "rx_event_q two_devs = []" by code_simp+
  then show ?thesis
    using terra_events_in_order [of two_devs "[[106, 1], [], [106, 2]]" sample_ops sample_env 0]
    by (simp add: event_ok_def)
qed

definition no_qdisc :: "((unit, unit) skb_ops \<times> (unit, unit) qdisc) option" where "no_qdisc = None"

theorem terra_stats_conserved_witness:
  "let drv' = fb_tgd_bh_del_links_info sample_ops 0 0 one_up;
       st = fst (tgd_terra_stats64 sample_ops (bh_ctx one_up) no_qdisc (devs one_up ! 0))
   in fst (tgd_terra_stats64 sample_ops (bh_ctx drv') no_qdisc (devs drv' ! 0)) = st \<and> tx_packets64 st = 3"
proof -
  have "tx_packets64 (fst (tgd_terra_stats64 sample_ops (bh_ctx one_up) no_qdisc (devs one_up ! 0))) = 3"
    by code_simp
  then show ?thesis
    using terra_stats_conserved [of 0 one_up 0 sample_ops no_qdisc] one_up_devs by (simp add: Let_def)
qed

theorem terra_macaddr_roundtrip_witness:
  "TGD_CONVERT_LONG_TO_MACADDR (TGD_CONVERT_MACADDR_TO_LONG peer9) = peer9"
  by (rule terra_macaddr_roundtrip [OF peer9_facts(2)])

text \<open>A connect event with an RSN element in the association request only.\<close>

definition connect_event :: "u8 list" where
  "connect_event = [48, 20] @ replicate 20 1 @ [0, 1, 65]"

theorem terra_connect_bounds_witness:
  "\<exists>q. tgd_cfg80211_evt_tg_connect connect_event 0 peer9 22 3 TGF_WSEC_PSK (devs two_devs ! 0) = Some q \<and>
       wiphy_ok (wiphy q) \<and> pae_closed q \<and> wsec_auth (wiphy q) = TGF_WSEC_PSK"
proof -
  have "wiphy_ok (wiphy (devs two_devs ! 0))" "\<not> tg_connected (wiphy (devs two_devs ! 0))"
    "0 + unat (22 :: u8) + unat (3 :: u8) \<le> length connect_event" by code_simp+
  with terra_connect_bounds [of "devs two_devs ! 0" 0 22 3 connect_event peer9 TGF_WSEC_PSK]
  show ?thesis by simp
qed

definition connected :: "u8 list list terra_driver" where
  "connected = upd_dev 0 (connect_port peer9 TGF_WSEC_PSK) one_up"

definition new_key :: key_params where
  "new_key = \<lparr>kp_key = [1, 2, 3], kp_cipher_gcmp = True\<rparr>"

theorem terra_key_installed_witness:
  "\<exists>drv2. key_worker_runs sample_ops 0 (replicate 13 [])
            (snd (tgd_cfg80211_add_key sample_ops 0 1 True peer9 new_key connected)) = Some drv2 \<and>
          bh_ctx drv2 = Some [[1, 2, 3]]"
proof -
  let ?r = "tgd_cfg80211_add_key sample_ops 0 1 True peer9 new_key connected"
  have "fst ?r = 0" "key_work_queued (wiphy (devs (snd ?r) ! 0))"
    "\<not> key_work_queued (wiphy (devs connected ! 0))" "0 < length (devs connected)"
    by code_simp+
  with terra_key_installed [of 0 connected sample_ops 1 peer9 new_key "snd ?r" "replicate 13 []"]
  show ?thesis by (cases ?r) (auto simp: sample_ops_def new_key_def)
qed

theorem terra_cleanup_quiet_witness:
  "let drv' = cleanup_stop sample_ops sample_env 0 one_up
   in link_state (devs drv' ! 0) = TG_LINKINIT \<and>
      (\<exists>d. tgd_terra_bh_tx_common sample_ops 0 0 1 long_frame drv' = Some ([], d) \<and> bh_ctx d = None) \<and>
      tgd_process_fb_events sample_ops sample_env 0 drv' = Some drv'"
proof -
  have "0 < length (devs one_up)" using one_up_devs(1) by simp
  then show ?thesis using terra_cleanup_quiet [of sample_ops sample_env 0 one_up] by (simp add: Let_def)
qed

end
