(* ===== verification/TerraNl.thy ===== *)
theory TerraNl
  imports TerraSb TerraDriver
begin

text \<open>
  The netlink interface of the Terragraph wireless driver (\<open>fb_terragraph/fb_tgd_nlsdn.c\<close>, the attributes and
  commands of \<open>fb_tgd_nlsdn_common.h\<close>) and its GPS client (\<open>fb_tgd_gps_if.c\<close>).

  The state holds the drivers of all radios, the debug mask and the socket buffers of messages: a buffer
  is allocated, filled, and freed or handed to netlink, which consumes it; using a buffer that is gone is a
  fault (\<open>None\<close>). What the kernel decides (memory, room in a message, delivery), the names of the devices and
  the answers of the GPS driver are a record of parameters. The attributes of a command arrive as a map, one
  value for each type, after the kernel has checked them against the policy. Log messages are left out.
\<close>

section \<open>Attributes and commands\<close>

datatype tgd_nlsdn_attrs =
    ATTR_UNSPEC | ATTR_SUCCESS | ATTR_MACADDR | ATTR_LINK_STATUS | ATTR_GPSSTAT | ATTR_POLARITY | ATTR_TXOFFSET
  | ATTR_RXOFFSET | ATTR_TXDURATION | ATTR_RXDURATION | ATTR_NUMGRANTS | ATTR_DBGMASK | ATTR_STATS | ATTR_VARDATA
  | ATTR_BMFMROLE | ATTR_PASSTHRU_TYPE | ATTR_RESP_MODE | ATTR_IFINDEX | ATTR_LINK_DOWN_CAUSE | ATTR_WSEC_STATUS
  | ATTR_PASSTHRU_NOACK | ATTR_RADIO_MACADDR | ATTR_SELF_NODE_TYPE | ATTR_PEER_NODE_TYPE | ATTR_UPDOWN_STATUS
  | ATTR_PAD | ATTR_GPS_TIME_S | ATTR_GPS_TIME_NS

datatype tgd_nlsdn_commands =
    CMD_UNSPEC | CMD_NOTIFY | CMD_TGINIT | CMD_NOTIFY_TGINIT | CMD_NOTIFY_DRVR_RSP | CMD_SET_NODECONFIG
  | CMD_NOTIFY_NODECONFIG | CMD_NOTIFY_LINK_STATUS | CMD_NOTIFY_ASSOC | CMD_GRANTALLOC | CMD_NOTIFY_GRANTALLOC
  | CMD_SET_DBGMASK | CMD_GET_STATS | CMD_SET_DRVR_CONFIG | CMD_PASSTHRU_NB | CMD_PASSTHRU_SB | CMD_BF_SCAN
  | CMD_SET_BMFMCONFIG | CMD_NOTIFY_BMFMCONFIG | CMD_DRVRSTAT_NB | CMD_DEV_ALLOC | CMD_DEV_ALLOC_RSP
  | CMD_NOTIFY_WSEC_STATUS | CMD_NOTIFY_WSEC_LINKUP_STATUS | CMD_NOTIFY_DEV_UPDOWN_STATUS | CMD_SET_GPS_TIME
  | CMD_SET_GPS_POS

text \<open>The number of an attribute is its place in the enumeration.\<close>

definition attr_enum :: "tgd_nlsdn_attrs list" where
  "attr_enum = [ATTR_UNSPEC, ATTR_SUCCESS, ATTR_MACADDR, ATTR_LINK_STATUS, ATTR_GPSSTAT, ATTR_POLARITY, ATTR_TXOFFSET,
     ATTR_RXOFFSET, ATTR_TXDURATION, ATTR_RXDURATION, ATTR_NUMGRANTS, ATTR_DBGMASK, ATTR_STATS, ATTR_VARDATA,
     ATTR_BMFMROLE, ATTR_PASSTHRU_TYPE, ATTR_RESP_MODE, ATTR_IFINDEX, ATTR_LINK_DOWN_CAUSE, ATTR_WSEC_STATUS,
     ATTR_PASSTHRU_NOACK, ATTR_RADIO_MACADDR, ATTR_SELF_NODE_TYPE, ATTR_PEER_NODE_TYPE, ATTR_UPDOWN_STATUS,
     ATTR_PAD, ATTR_GPS_TIME_S, ATTR_GPS_TIME_NS]"

datatype nla_type = NLA_UNSPEC | NLA_U8 | NLA_U32 | NLA_U64

text \<open>The table of the policy has no line for the padding attribute; the places behind its end are zero.\<close>

definition tgd_nlsdn_policy :: "nla_type list" where
  "tgd_nlsdn_policy = [NLA_UNSPEC, NLA_U8, NLA_U64, NLA_U8, NLA_U8, NLA_U8, NLA_U32, NLA_U32, NLA_U32, NLA_U32, NLA_U32,
     NLA_U32, NLA_UNSPEC, NLA_UNSPEC, NLA_U32, NLA_U8, NLA_U32, NLA_U32, NLA_U32, NLA_U8, NLA_U8, NLA_U64, NLA_U8, NLA_U8,
     NLA_U8, NLA_U64, NLA_U64]"

definition nla_minlen :: "nla_type \<Rightarrow> nat" where
  "nla_minlen t = (case t of NLA_UNSPEC \<Rightarrow> 0 | NLA_U8 \<Rightarrow> 1 | NLA_U32 \<Rightarrow> 4 | NLA_U64 \<Rightarrow> 8)"

definition attr_minlen :: "tgd_nlsdn_attrs \<Rightarrow> nat" where
  "attr_minlen a = (case find_idx (\<lambda>x. x = a) attr_enum of
     Some i \<Rightarrow> if i < length tgd_nlsdn_policy then nla_minlen (tgd_nlsdn_policy ! i) else 0
   | None \<Rightarrow> 0)"

record genl_info =
  snd_seq :: u32
  snd_portid :: u32
  attrs :: "tgd_nlsdn_attrs \<Rightarrow> u8 list option"

definition attrs_valid :: "genl_info \<Rightarrow> bool" where
  "attrs_valid info \<longleftrightarrow> list_all (\<lambda>a. case attrs info a of Some b \<Rightarrow> attr_minlen a \<le> length b | None \<Rightarrow> True) attr_enum"

text \<open>Reading a value. The read of 64 bits copies what is there and clears the rest.\<close>

definition nla_get_u8 :: "u8 list \<Rightarrow> u8 option" where
  "nla_get_u8 b = map_option (\<lambda>r. r ! 0) (mem_read 0 1 b)"

definition nla_get_u32 :: "u8 list \<Rightarrow> u32 option" where
  "nla_get_u32 b = map_option (\<lambda>r. of_nat (le_val r)) (mem_read 0 4 b)"

definition nla_get_u64 :: "u8 list \<Rightarrow> u64" where
  "nla_get_u64 b = of_nat (le_val (take 8 b))"

section \<open>Messages\<close>

type_synonym nl_attr = "tgd_nlsdn_attrs \<times> u8 list"

record nlskb =
  nlh_seq :: u32
  nlh_cmd :: tgd_nlsdn_commands
  nlh_attrs :: "nl_attr list"

datatype nl_dest = Unicast u32 | Multicast

text \<open>What the kernel, the vendor driver and the GPS driver contribute while a command is handled: the
  allocation of the message and its header, the result of adding an attribute and of sending, memory for
  the other buffers in the order they are asked for, the names and indices of the devices, the version of the vendor driver, and the answer of the GPS driver with its
  length.\<close>

record nl_kernel =
  k_new :: bool
  k_hdr :: bool
  k_put :: "nlskb \<Rightarrow> nl_attr \<Rightarrow> int"
  k_send :: "nl_dest \<Rightarrow> nlskb \<Rightarrow> int"
  k_alloc :: "nat \<Rightarrow> bool"
  k_ifname :: "nat \<Rightarrow> u8 list"
  k_ifindex :: "nat \<Rightarrow> u32"
  k_vendor_version :: u32
  k_gps :: "u8 list \<Rightarrow> int \<times> u8 list"

record 'b nlsdn =
  nl_drivers :: "'b terra_driver list"
  nl_skbs :: "nat \<Rightarrow> nlskb option"
  nl_next :: nat
  nl_out :: "(nl_dest \<times> nlskb) list"
  tgd_dbg_enable_level :: u32

record tgd_nlmsg =
  tgd_cmd :: tgd_nlsdn_commands
  tgd_info :: "genl_info option"
  tgd_skb :: nat

abbreviation ENOMEM :: int where "ENOMEM \<equiv> 12"
abbreviation ESRCH :: int where "ESRCH \<equiv> 3"
abbreviation EBUSY :: int where "EBUSY \<equiv> 16"
abbreviation EMSGSIZE :: int where "EMSGSIZE \<equiv> 90"
abbreviation ERANGE :: int where "ERANGE \<equiv> 34"

definition nlmsg_free :: "nat \<Rightarrow> 'b nlsdn \<Rightarrow> 'b nlsdn option" where
  "nlmsg_free i st = do { s \<leftarrow> nl_skbs st i; Some (st\<lparr>nl_skbs := (nl_skbs st)(i := None)\<rparr>) }"

definition nla_put :: "nl_kernel \<Rightarrow> nat \<Rightarrow> nl_attr \<Rightarrow> 'b nlsdn \<Rightarrow> (int \<times> 'b nlsdn) option" where
  "nla_put k i a st = do {
     s \<leftarrow> nl_skbs st i;
     Some (if k_put k s a \<noteq> 0 then (k_put k s a, st)
           else (0, st\<lparr>nl_skbs := (nl_skbs st)(i \<mapsto> s\<lparr>nlh_attrs := nlh_attrs s @ [a]\<rparr>)\<rparr>)) }"

text \<open>A chain of attributes ends at the first error.\<close>

fun nla_puts :: "nl_kernel \<Rightarrow> nat \<Rightarrow> nl_attr list \<Rightarrow> 'b nlsdn \<Rightarrow> (int \<times> 'b nlsdn) option" where
  "nla_puts k i [] st = Some (0, st)"
| "nla_puts k i (a # as) st = do {
     (err, st) \<leftarrow> nla_put k i a st;
     if err \<noteq> 0 then Some (err, st) else nla_puts k i as st }"

definition tgd_new_genl_message :: "nl_kernel \<Rightarrow> tgd_nlmsg \<Rightarrow> 'b nlsdn \<Rightarrow> (int \<times> tgd_nlmsg \<times> 'b nlsdn) option" where
  "tgd_new_genl_message k msg st =
     (let seq = (case tgd_info msg of Some info \<Rightarrow> snd_seq info + 1 | None \<Rightarrow> 0) in
      if \<not> k_new k then Some (- ENOMEM, msg, st)
      else
        let i = nl_next st;
            s = \<lparr>nlh_seq = seq, nlh_cmd = tgd_cmd msg, nlh_attrs = []\<rparr>;
            st = st\<lparr>nl_skbs := (nl_skbs st)(i \<mapsto> s), nl_next := i + 1\<rparr>;
            msg = msg\<lparr>tgd_skb := i\<rparr>
        in if \<not> k_hdr k then do { st \<leftarrow> nlmsg_free i st; Some (- ENOMEM, msg, st) }
           else Some (0, msg, st))"

definition upd_drv :: "nat \<Rightarrow> ('b terra_driver \<Rightarrow> 'b terra_driver) \<Rightarrow> 'b nlsdn \<Rightarrow> 'b nlsdn" where
  "upd_drv d f st = st\<lparr>nl_drivers := (nl_drivers st)[d := f (nl_drivers st ! d)]\<rparr>"

text \<open>The kernel consumes the buffer whatever the result of sending is.\<close>

definition genlmsg_send :: "nl_kernel \<Rightarrow> nl_dest \<Rightarrow> nat \<Rightarrow> 'b nlsdn \<Rightarrow> (int \<times> 'b nlsdn) option" where
  "genlmsg_send k dest i st = do {
     s \<leftarrow> nl_skbs st i;
     Some (k_send k dest s, st\<lparr>nl_skbs := (nl_skbs st)(i := None), nl_out := nl_out st @ [(dest, s)]\<rparr>) }"

definition tgd_send_genl_message :: "nl_kernel \<Rightarrow> tgd_nlmsg \<Rightarrow> nat \<Rightarrow> 'b nlsdn \<Rightarrow> (int \<times> 'b nlsdn) option" where
  "tgd_send_genl_message k msg d st = do {
     (err, st) \<leftarrow> nla_put k (tgd_skb msg) (ATTR_RADIO_MACADDR, le_bytes 8 (unat (drv_macaddr (nl_drivers st ! d)))) st;
     (err, st) \<leftarrow>
       (if err \<noteq> 0 then do { st \<leftarrow> nlmsg_free (tgd_skb msg) st; Some (err, st) }
        else do {
          let st = upd_drv d (nl_inc NL_MSG_SEND) st;
          (err, st) \<leftarrow> genlmsg_send k (case tgd_info msg of Some info \<Rightarrow> Unicast (snd_portid info) | None \<Rightarrow> Multicast)
                          (tgd_skb msg) st;
          Some (if err = - ESRCH then 0 else err, st) });
     Some (err, if err \<noteq> 0 then upd_drv d (nl_inc NL_MSG_SEND_ERR) st else st) }"

text \<open>The message of a handler before its buffer is allocated.\<close>

definition TGD_NLMSG_INIT :: "tgd_nlsdn_commands \<Rightarrow> genl_info option \<Rightarrow> tgd_nlmsg" where
  "TGD_NLMSG_INIT cmd info = \<lparr>tgd_cmd = cmd, tgd_info = info, tgd_skb = 0\<rparr>"

section \<open>Notifications\<close>

text \<open>The callback packs the attributes.\<close>

definition tgd_nlsdn_trigger_notify ::
  "nl_kernel \<Rightarrow> tgd_nlsdn_commands \<Rightarrow> (tgd_nlmsg \<Rightarrow> 'b nlsdn \<Rightarrow> (int \<times> 'b nlsdn) option) \<Rightarrow> nat \<Rightarrow> 'b nlsdn \<Rightarrow> 'b nlsdn option" where
  "tgd_nlsdn_trigger_notify k cmd cb_fn d st = do {
     (err, msg, st) \<leftarrow> tgd_new_genl_message k (TGD_NLMSG_INIT cmd None) st;
     if err \<noteq> 0 then Some st
     else do {
       (err, st) \<leftarrow> cb_fn msg st;
       if err \<noteq> 0 then nlmsg_free (tgd_skb msg) st
       else do { (r, st) \<leftarrow> tgd_send_genl_message k msg d st; Some st } } }"

definition tgd_nlsdn_tginit_msg ::
  "nl_kernel \<Rightarrow> u64 \<Rightarrow> u8 \<Rightarrow> u8 list \<Rightarrow> tgd_nlmsg \<Rightarrow> 'b nlsdn \<Rightarrow> (int \<times> 'b nlsdn) option" where
  "tgd_nlsdn_tginit_msg k macaddr errCode vendorStr msg st =
     nla_puts k (tgd_skb msg) [(ATTR_MACADDR, le_bytes 8 (unat macaddr)), (ATTR_SUCCESS, [errCode]), (ATTR_VARDATA, vendorStr)] st"

definition tgd_nlsdn_bmfmconfig_msg :: "nl_kernel \<Rightarrow> u8 \<Rightarrow> tgd_nlmsg \<Rightarrow> 'b nlsdn \<Rightarrow> (int \<times> 'b nlsdn) option" where
  "tgd_nlsdn_bmfmconfig_msg k errCode msg st = nla_put k (tgd_skb msg) (ATTR_SUCCESS, [errCode]) st"

definition tgd_nlsdn_linkup_status_msg ::
  "nl_kernel \<Rightarrow> u8 list \<Rightarrow> mac \<Rightarrow> u8 \<Rightarrow> u8 \<Rightarrow> u8 \<Rightarrow> u8 \<Rightarrow> tgd_nlmsg \<Rightarrow> 'b nlsdn \<Rightarrow> (int \<times> 'b nlsdn) option" where
  "tgd_nlsdn_linkup_status_msg k ifname addr cause status sta peer msg st = do {
     (err, st) \<leftarrow> (if ifname \<noteq> [] then nla_put k (tgd_skb msg) (ATTR_VARDATA, ifname @ [0]) st else Some (0, st));
     if err \<noteq> 0 then Some (err, st)
     else nla_puts k (tgd_skb msg)
       [(ATTR_MACADDR, le_bytes 8 (unat (TGD_CONVERT_MACADDR_TO_LONG addr))), (ATTR_LINK_STATUS, [status]),
        (ATTR_LINK_DOWN_CAUSE, le_bytes 4 (unat cause)), (ATTR_SELF_NODE_TYPE, [sta]), (ATTR_PEER_NODE_TYPE, [peer])] st }"

definition tgd_nlsdn_wsec_status_msg ::
  "nl_kernel \<Rightarrow> u8 list \<Rightarrow> u8 \<Rightarrow> tgd_nlmsg \<Rightarrow> 'b nlsdn \<Rightarrow> (int \<times> 'b nlsdn) option" where
  "tgd_nlsdn_wsec_status_msg k ifname status msg st = do {
     (err, st) \<leftarrow> (if ifname \<noteq> [] then nla_put k (tgd_skb msg) (ATTR_VARDATA, ifname @ [0]) st else Some (0, st));
     if err \<noteq> 0 then Some (err, st)
     else nla_put k (tgd_skb msg) (ATTR_WSEC_STATUS, [status]) st }"

definition tgd_nlsdn_stats_passthrough :: "nl_kernel \<Rightarrow> u8 list \<Rightarrow> tgd_nlmsg \<Rightarrow> 'b nlsdn \<Rightarrow> (int \<times> 'b nlsdn) option" where
  "tgd_nlsdn_stats_passthrough k event_data msg st =
     (if event_data \<noteq> [] then nla_put k (tgd_skb msg) (ATTR_VARDATA, event_data) st else Some (0, st))"

text \<open>A name is copied to a field of 16 bytes, with the terminator.\<close>

abbreviation TGD_IFNAME_SZ :: nat where "TGD_IFNAME_SZ \<equiv> 16"

definition strscpy :: "nat \<Rightarrow> u8 list \<Rightarrow> u8 list" where
  "strscpy n s = take (n - 1) s"

text \<open>The calls of the firmware message handler; a timestamp does not go through netlink.\<close>

definition notify :: "nl_kernel \<Rightarrow> nl_msg \<Rightarrow> nat \<Rightarrow> 'b nlsdn \<Rightarrow> 'b nlsdn option" where
  "notify k m d st = (case m of
     Nl_tginit a e v \<Rightarrow> tgd_nlsdn_trigger_notify k CMD_NOTIFY_TGINIT (tgd_nlsdn_tginit_msg k a e v) d st
   | Nl_bmfmconfig e \<Rightarrow> tgd_nlsdn_trigger_notify k CMD_NOTIFY_BMFMCONFIG (tgd_nlsdn_bmfmconfig_msg k e) d st
   | Nl_passthru ev \<Rightarrow> tgd_nlsdn_trigger_notify k CMD_PASSTHRU_NB (tgd_nlsdn_stats_passthrough k ev) d st
   | Nl_link_status dev a cause status sta peer \<Rightarrow>
       tgd_nlsdn_trigger_notify k CMD_NOTIFY_LINK_STATUS (tgd_nlsdn_linkup_status_msg k
         (case dev of Some i \<Rightarrow> strscpy TGD_IFNAME_SZ (k_ifname k i) | None \<Rightarrow> []) a cause status sta peer) d st
   | Nl_wsec_status i status \<Rightarrow>
       tgd_nlsdn_trigger_notify k CMD_NOTIFY_WSEC_STATUS
         (tgd_nlsdn_wsec_status_msg k (strscpy TGD_IFNAME_SZ (k_ifname k i)) status) d st
   | Htsf_info _ _ \<Rightarrow> Some st)"

fun notify_all :: "nl_kernel \<Rightarrow> nl_msg list \<Rightarrow> nat \<Rightarrow> 'b nlsdn \<Rightarrow> 'b nlsdn option" where
  "notify_all k [] d st = Some st"
| "notify_all k (m # ms) d st = do { st \<leftarrow> notify k m d st; notify_all k ms d st }"

definition tgd_nlsdn_push_gps_stat_nb :: "nl_kernel \<Rightarrow> nat \<Rightarrow> u8 list \<Rightarrow> 'b nlsdn \<Rightarrow> (int \<times> 'b nlsdn) option" where
  "tgd_nlsdn_push_gps_stat_nb k d buf st =
     (if buf = [] then Some (- 1, st)
      else do {
        (err, msg, st) \<leftarrow> tgd_new_genl_message k (TGD_NLMSG_INIT CMD_DRVRSTAT_NB None) st;
        if err \<noteq> 0 then Some (err, st)
        else do {
          (err, st) \<leftarrow> nla_put k (tgd_skb msg) (ATTR_VARDATA, buf) st;
          if err \<noteq> 0 then do { st \<leftarrow> nlmsg_free (tgd_skb msg) st; Some (err, st) }
          else do { (r, st) \<leftarrow> tgd_send_genl_message k msg d st; Some (0, st) } } })"

definition tgd_nlsdn_send_wsec_linkup_status :: "nl_kernel \<Rightarrow> nat \<Rightarrow> u8 list \<Rightarrow> 'b nlsdn \<Rightarrow> (int \<times> 'b nlsdn) option" where
  "tgd_nlsdn_send_wsec_linkup_status k d buf st =
     (if buf = [] then Some (- 1, st)
      else do {
        (err, msg, st) \<leftarrow> tgd_new_genl_message k (TGD_NLMSG_INIT CMD_NOTIFY_WSEC_LINKUP_STATUS None) st;
        if err \<noteq> 0 then Some (err, st)
        else do {
          (err, st) \<leftarrow> nla_put k (tgd_skb msg) (ATTR_VARDATA, buf) st;
          if err \<noteq> 0 then do { st \<leftarrow> nlmsg_free (tgd_skb msg) st; Some (err, st) }
          else do { (r, st) \<leftarrow> tgd_send_genl_message k msg d st; Some (0, st) } } })"

definition tgd_nlsdn_send_device_updown_status :: "nl_kernel \<Rightarrow> nat \<Rightarrow> u8 \<Rightarrow> 'b nlsdn \<Rightarrow> (int \<times> 'b nlsdn) option" where
  "tgd_nlsdn_send_device_updown_status k d status st = do {
     (err, msg, st) \<leftarrow> tgd_new_genl_message k (TGD_NLMSG_INIT CMD_NOTIFY_DEV_UPDOWN_STATUS None) st;
     if err \<noteq> 0 then Some (err, st)
     else do {
       (err, st) \<leftarrow> nla_put k (tgd_skb msg) (ATTR_UPDOWN_STATUS, [status]) st;
       if err \<noteq> 0 then do { st \<leftarrow> nlmsg_free (tgd_skb msg) st; Some (err, st) }
       else do { (r, st) \<leftarrow> tgd_send_genl_message k msg d st; Some (0, st) } } }"

section \<open>Commands\<close>

abbreviation MAX_VAR_DATA_LEN :: nat where "MAX_VAR_DATA_LEN \<equiv> 512"
abbreviation SB_PASSTHROUGH_MAX :: nat where "SB_PASSTHROUGH_MAX \<equiv> 1024"
abbreviation DRIVER_CFG_HDR_SIZE :: nat where "DRIVER_CFG_HDR_SIZE \<equiv> 2"
abbreviation GPS_RSP_MAX_SIZE :: nat where "GPS_RSP_MAX_SIZE \<equiv> 512"
abbreviation PASSTHRU_SUCCESS_CODE :: int where "PASSTHRU_SUCCESS_CODE \<equiv> 101"
abbreviation TGC_VALID_DBG_MASK_BITS :: u32 where "TGC_VALID_DBG_MASK_BITS \<equiv> 0x00070007"
abbreviation FB_TGD_BH_API_VERSION :: nat where "FB_TGD_BH_API_VERSION \<equiv> 0x80000"

definition tgd_nl_get_fb_drv :: "genl_info \<Rightarrow> 'b nlsdn \<Rightarrow> nat option" where
  "tgd_nl_get_fb_drv info st = (case attrs info ATTR_RADIO_MACADDR of
     None \<Rightarrow> None | Some na \<Rightarrow> tgd_find_fb_drv (nla_get_u64 na) (nl_drivers st))"

text \<open>No data and data of the wrong size are the empty list.\<close>

definition tgd_get_nl_var_data :: "genl_info \<Rightarrow> nat \<Rightarrow> u8 list" where
  "tgd_get_nl_var_data info var_max_len = (case attrs info ATTR_VARDATA of
     None \<Rightarrow> [] | Some na \<Rightarrow> if length na = 0 \<or> var_max_len < length na then [] else na)"

definition NL_CMD_STATS_INC :: "nat \<Rightarrow> nl_sdn_stats \<Rightarrow> 'b nlsdn \<Rightarrow> 'b nlsdn" where
  "NL_CMD_STATS_INC d k st = upd_drv d (nl_inc k \<circ> nl_inc NL_MSG_RCVD) st"

text \<open>An operation on one driver.\<close>

definition on_drv :: "nat \<Rightarrow> ('b terra_driver \<Rightarrow> ('a \<times> 'b terra_driver) option) \<Rightarrow> 'b nlsdn \<Rightarrow> ('a \<times> 'b nlsdn) option" where
  "on_drv d f st = do { (x, drv) \<leftarrow> f (nl_drivers st ! d); Some (x, upd_drv d (\<lambda>_. drv) st) }"

definition tgd_nlsdn_tginit ::
  "nl_kernel \<Rightarrow> 'b bh_ops \<Rightarrow> terra_env \<Rightarrow> genl_info \<Rightarrow> 'b nlsdn \<Rightarrow> (int \<times> 'b nlsdn) option" where
  "tgd_nlsdn_tginit k ops env info st = (case tgd_nl_get_fb_drv info st of
     None \<Rightarrow> Some (1, st)
   | Some d \<Rightarrow> do {
       let st = NL_CMD_STATS_INC d NL_CMD_TGINIT st;
       let nl_var_data = tgd_get_nl_var_data info MAX_VAR_DATA_LEN;
       (ret, st) \<leftarrow> on_drv d (tgd_send_fw_init ops env (length nl_var_data) nl_var_data) st;
       (err, msg, st) \<leftarrow> tgd_new_genl_message k (TGD_NLMSG_INIT CMD_TGINIT (Some info)) st;
       if err \<noteq> 0 then Some (err, st)
       else do {
         (err, st) \<leftarrow> nla_put k (tgd_skb msg) (ATTR_SUCCESS, [ret]) st;
         if err \<noteq> 0 then do { st \<leftarrow> nlmsg_free (tgd_skb msg) st; Some (err, st) }
         else do { (r, st) \<leftarrow> tgd_send_genl_message k msg d st; Some (0, st) } } })"

text \<open>The role is checked after the other attributes; an attribute that does not fit gives its own code.\<close>

definition tgd_nlsdn_set_bmfmconfig ::
  "nl_kernel \<Rightarrow> 'b bh_ops \<Rightarrow> terra_env \<Rightarrow> genl_info \<Rightarrow> 'b nlsdn \<Rightarrow> (int \<times> 'b nlsdn) option" where
  "tgd_nlsdn_set_bmfmconfig k ops env info st = (case tgd_nl_get_fb_drv info st of
     None \<Rightarrow> Some (1, st)
   | Some d \<Rightarrow>
      (let st = NL_CMD_STATS_INC d NL_CMD_SET_BMFMCONFIG st in
       case attrs info ATTR_BMFMROLE of
         None \<Rightarrow> Some (1, st)
       | Some na \<Rightarrow> do {
           bf_role \<leftarrow> nla_get_u32 na;
           case attrs info ATTR_MACADDR of
             None \<Rightarrow> Some (1, st)
           | Some na \<Rightarrow>
              (let ethaddr = TGD_CONVERT_LONG_TO_MACADDR (nla_get_u64 na);
                   nl_var_data = tgd_get_nl_var_data info MAX_VAR_DATA_LEN in
               if bf_role = 0 \<or> bf_role = 1 then do {
                 (ret, st) \<leftarrow> on_drv d (tgd_send_bmfm_cfg_req ops env ethaddr (ucast bf_role) (length nl_var_data) nl_var_data) st;
                 (err, msg, st) \<leftarrow> tgd_new_genl_message k (TGD_NLMSG_INIT CMD_SET_BMFMCONFIG (Some info)) st;
                 if err \<noteq> 0 then Some (err, st)
                 else do {
                   (err, st) \<leftarrow> nla_put k (tgd_skb msg) (ATTR_SUCCESS, [ret]) st;
                   if err \<noteq> 0 then do { st \<leftarrow> nlmsg_free (tgd_skb msg) st; Some (- EMSGSIZE, st) }
                   else do { (r, st) \<leftarrow> tgd_send_genl_message k msg d st; Some (0, st) } } }
               else Some (- 1, st)) }))"

definition set_debug_mask :: "u32 \<Rightarrow> 'b nlsdn \<Rightarrow> u32 \<times> 'b nlsdn" where
  "set_debug_mask new_dbg_mask st =
     (if new_dbg_mask AND 0xF0000000 \<noteq> 0 then (tgd_dbg_enable_level st, st)
      else (tgd_dbg_enable_level st, st\<lparr>tgd_dbg_enable_level := new_dbg_mask\<rparr>))"

definition tgd_nlsdn_set_dbgmask :: "nl_kernel \<Rightarrow> genl_info \<Rightarrow> 'b nlsdn \<Rightarrow> (int \<times> 'b nlsdn) option" where
  "tgd_nlsdn_set_dbgmask k info st = (case tgd_nl_get_fb_drv info st of
     None \<Rightarrow> Some (1, st)
   | Some d \<Rightarrow>
      (let st = NL_CMD_STATS_INC d NL_CMD_SET_DBGMASK st in
       case attrs info ATTR_DBGMASK of
         None \<Rightarrow> Some (1, st)
       | Some na \<Rightarrow> do {
           dbg_mask \<leftarrow> nla_get_u32 na;
           let (curr_mask, st) = set_debug_mask (if dbg_mask AND NOT TGC_VALID_DBG_MASK_BITS \<noteq> 0 then 0xFFFFFFFF else dbg_mask) st;
           (err, msg, st) \<leftarrow> tgd_new_genl_message k (TGD_NLMSG_INIT CMD_SET_DBGMASK (Some info)) st;
           if err \<noteq> 0 then Some (err, st)
           else do {
             (err, st) \<leftarrow> nla_puts k (tgd_skb msg) [(ATTR_DBGMASK, le_bytes 4 (unat curr_mask)), (ATTR_SUCCESS, [0])] st;
             if err \<noteq> 0 then do { st \<leftarrow> nlmsg_free (tgd_skb msg) st; Some (err, st) }
             else do { (r, st) \<leftarrow> tgd_send_genl_message k msg d st; Some (0, st) } } }))"

definition tgd_nlsdn_grantalloc :: "genl_info \<Rightarrow> 'b nlsdn \<Rightarrow> (int \<times> 'b nlsdn) option" where
  "tgd_nlsdn_grantalloc info st = (case tgd_nl_get_fb_drv info st of
     None \<Rightarrow> Some (1, st)
   | Some d \<Rightarrow> Some (0, NL_CMD_STATS_INC d NL_CMD_GRANTALLOC st))"

text \<open>The number of links is at the start of the answer; the records follow after eight bytes.\<close>

abbreviation TGD_STATS_SIZE :: nat where "TGD_STATS_SIZE \<equiv> 8"

definition tgd_nlsdn_get_stats ::
  "nl_kernel \<Rightarrow> 'b bh_ops \<Rightarrow> terra_env \<Rightarrow> genl_info \<Rightarrow> 'b nlsdn \<Rightarrow> (int \<times> 'b nlsdn) option" where
  "tgd_nlsdn_get_stats k ops env info st = (case tgd_nl_get_fb_drv info st of
     None \<Rightarrow> Some (1, st)
   | Some d \<Rightarrow>
      (let st = NL_CMD_STATS_INC d NL_CMD_GET_STATS st;
           link_count = max_link_count (nl_drivers st ! d);
           dat_buf_size = LINK_STATS_SIZE * nat link_count in
       if \<not> k_alloc k 0 then Some (- ENOMEM, st)
       else do {
         stat_data \<leftarrow> mem_write 0 (int_bytes 0) (req_buf env (dat_buf_size + TGD_STATS_SIZE));
         ((ret_len, stat_data), st) \<leftarrow> (if link_count > 0
            then do {
              ((ret_len, ret_link_count, stat_data), st) \<leftarrow> on_drv d (tgd_get_stats ops TGD_STATS_SIZE stat_data dat_buf_size) st;
              stat_data \<leftarrow> mem_write 0 (int_bytes (int ret_link_count)) stat_data;
              Some ((ret_len, stat_data), st) }
            else Some ((0, stat_data), st));
         (err, msg, st) \<leftarrow> tgd_new_genl_message k (TGD_NLMSG_INIT CMD_GET_STATS (Some info)) st;
         if err \<noteq> 0 then Some (err, st)
         else do {
           stats \<leftarrow> mem_read 0 (ret_len + TGD_STATS_SIZE) stat_data;
           (err, st) \<leftarrow> nla_puts k (tgd_skb msg) [(ATTR_STATS, stats), (ATTR_SUCCESS, [0])] st;
           if err \<noteq> 0 then do { st \<leftarrow> nlmsg_free (tgd_skb msg) st; Some (err, st) }
           else do {
             (r, st) \<leftarrow> tgd_send_genl_message k msg d st;
             Some (if 0 < ret_len then 0 else - 1, st) } } }))"

definition tgd_nlsdn_send_sb_passthrough ::
  "nl_kernel \<Rightarrow> 'b bh_ops \<Rightarrow> terra_env \<Rightarrow> genl_info \<Rightarrow> 'b nlsdn \<Rightarrow> (int \<times> 'b nlsdn) option" where
  "tgd_nlsdn_send_sb_passthrough k ops env info st = (case tgd_nl_get_fb_drv info st of
     None \<Rightarrow> Some (1, st)
   | Some d \<Rightarrow> do {
       let st = NL_CMD_STATS_INC d NL_CMD_PASSTHRU_SB st;
       let nl_var_data = tgd_get_nl_var_data info SB_PASSTHROUGH_MAX;
       (ret, st) \<leftarrow> (if nl_var_data \<noteq> [] then do {
            (err, st) \<leftarrow> on_drv d (tgd_send_passthrough_to_fw ops env (k_alloc k 0) nl_var_data (length nl_var_data)) st;
            Some (if err = PASSTHRU_SUCCESS_CODE then 0 else 1 :: u8, st) }
          else Some (1, st));
       noack \<leftarrow> (case attrs info ATTR_PASSTHRU_NOACK of None \<Rightarrow> Some 0 | Some na \<Rightarrow> nla_get_u8 na);
       if noack \<noteq> 0 then Some (0, st)
       else do {
         (err, msg, st) \<leftarrow> tgd_new_genl_message k (TGD_NLMSG_INIT CMD_PASSTHRU_SB (Some info)) st;
         if err \<noteq> 0 then Some (err, st)
         else do {
           (err, st) \<leftarrow> nla_put k (tgd_skb msg) (ATTR_SUCCESS, [ret]) st;
           if err \<noteq> 0 then do { st \<leftarrow> nlmsg_free (tgd_skb msg) st; Some (err, st) }
           else do {
             (err, st) \<leftarrow> (case attrs info ATTR_PASSTHRU_TYPE of
                None \<Rightarrow> Some (0, st)
              | Some na \<Rightarrow> do { b \<leftarrow> nla_get_u8 na; nla_put k (tgd_skb msg) (ATTR_PASSTHRU_TYPE, [b]) st });
             if err \<noteq> 0 then do { st \<leftarrow> nlmsg_free (tgd_skb msg) st; Some (err, st) }
             else do { (r, st) \<leftarrow> tgd_send_genl_message k msg d st; Some (0, st) } } } } })"

section \<open>Driver configuration\<close>

definition tgd_gps_get_nl_rsp :: "nl_kernel \<Rightarrow> gps_client option \<Rightarrow> u8 list \<Rightarrow> int \<times> u8 list" where
  "tgd_gps_get_nl_rsp k sc cmd = (if sc = None then (- 1, []) else k_gps k cmd)"

definition err_msg :: "u8 list" where
  "err_msg = map (of_char :: char \<Rightarrow> u8) ''Unknown Driver Config Command'' @ [0]"

text \<open>The data of the answer by the type of the command: the error of adding it, and the code of the answer.\<close>

definition drv_cfg_put :: "nl_kernel \<Rightarrow> tgd_nlmsg \<Rightarrow> nat \<Rightarrow> u8 list \<Rightarrow> 'b nlsdn \<Rightarrow> ((int \<times> u8) \<times> 'b nlsdn) option" where
  "drv_cfg_put k msg d data st =
     (let ret = (if length data < DRIVER_CFG_HDR_SIZE then - 1 else 0);
          type = (if length data < DRIVER_CFG_HDR_SIZE then 0 else le_val (take 2 data)) in
      if type = 1 then do { (err, st) \<leftarrow> nla_put k (tgd_skb msg) (ATTR_VARDATA, data) st; Some ((err, ret), st) }
      else if type = 2 then do {
        (err, st) \<leftarrow> nla_put k (tgd_skb msg)
           (ATTR_VARDATA, le_bytes 4 FB_TGD_BH_API_VERSION @ le_bytes 4 (unat (k_vendor_version k))) st;
        Some ((err, ret), st) }
      else if type = 3 then
        if \<not> k_alloc k 1 then Some ((0, ret), st)
        else let (ret_len, buf) = tgd_gps_get_nl_rsp k (gps_state (nl_drivers st ! d)) data in
             if ret_len \<le> 0 then Some ((0, - 1), st)
             else do {
               rsp \<leftarrow> (if GPS_RSP_MAX_SIZE < nat ret_len then None else mem_read 0 (nat ret_len) buf);
               (err, st) \<leftarrow> nla_put k (tgd_skb msg) (ATTR_VARDATA, rsp) st;
               Some ((err, ret), st) }
      else do { (err, st) \<leftarrow> nla_put k (tgd_skb msg) (ATTR_VARDATA, err_msg) st; Some ((err, ret), st) })"

definition tgd_handle_drv_cfg_data :: "nl_kernel \<Rightarrow> nat \<Rightarrow> u8 list \<Rightarrow> 'b nlsdn \<Rightarrow> (int \<times> 'b nlsdn) option" where
  "tgd_handle_drv_cfg_data k d data st = do {
     (err, msg, st) \<leftarrow> tgd_new_genl_message k (TGD_NLMSG_INIT CMD_NOTIFY_DRVR_RSP None) st;
     if err \<noteq> 0 then Some (err, st)
     else do {
       ((err, ret), st) \<leftarrow> drv_cfg_put k msg d data st;
       if err \<noteq> 0 then do { st \<leftarrow> nlmsg_free (tgd_skb msg) st; Some (err, st) }
       else do {
         (err, st) \<leftarrow> nla_put k (tgd_skb msg) (ATTR_SUCCESS, [ret]) st;
         if err \<noteq> 0 then do { st \<leftarrow> nlmsg_free (tgd_skb msg) st; Some (err, st) }
         else do { (r, st) \<leftarrow> tgd_send_genl_message k msg d st; Some (0, st) } } } }"

definition tgd_nlsdn_handle_drvr_config :: "nl_kernel \<Rightarrow> genl_info \<Rightarrow> 'b nlsdn \<Rightarrow> (int \<times> 'b nlsdn) option" where
  "tgd_nlsdn_handle_drvr_config k info st = (case tgd_nl_get_fb_drv info st of
     None \<Rightarrow> Some (1, st)
   | Some d \<Rightarrow>
      (let st = NL_CMD_STATS_INC d NL_CMD_SET_DRVR_CONFIG st;
           nl_var_data = tgd_get_nl_var_data info SB_PASSTHROUGH_MAX in
       if nl_var_data = [] then Some (- 1, st)
       else if \<not> k_alloc k 0 then Some (0, st)
       else do {
         (err, st) \<leftarrow> tgd_handle_drv_cfg_data k d nl_var_data st;
         Some (0, st) }))"

section \<open>Devices and GPS\<close>

definition tgd_nlsdn_dev_alloc :: "nl_kernel \<Rightarrow> genl_info \<Rightarrow> 'b nlsdn \<Rightarrow> (int \<times> 'b nlsdn) option" where
  "tgd_nlsdn_dev_alloc k info st = (case tgd_nl_get_fb_drv info st of
     None \<Rightarrow> Some (1, st)
   | Some d \<Rightarrow>
      (let st = NL_CMD_STATS_INC d NL_CMD_DEV_ALLOC st in
       case attrs info ATTR_MACADDR of
         None \<Rightarrow> Some (1, st)
       | Some na \<Rightarrow> do {
           let macaddr = nla_get_u64 na;
           (dev, st) \<leftarrow> on_drv d (\<lambda>drv. Some (tgd_terra_dev_reserve (TGD_CONVERT_LONG_TO_MACADDR macaddr) drv)) st;
           case dev of
             None \<Rightarrow> Some (- EBUSY, st)
           | Some i \<Rightarrow> do {
               (err, msg, st) \<leftarrow> tgd_new_genl_message k (TGD_NLMSG_INIT CMD_DEV_ALLOC_RSP (Some info)) st;
               if err \<noteq> 0 then Some (err, st)
               else do {
                 (err, st) \<leftarrow> nla_puts k (tgd_skb msg)
                    [(ATTR_MACADDR, le_bytes 8 (unat macaddr)), (ATTR_IFINDEX, le_bytes 4 (unat (k_ifindex k i))),
                     (ATTR_VARDATA, k_ifname k i @ [0]), (ATTR_SUCCESS, [1])] st;
                 if err \<noteq> 0 then do { st \<leftarrow> nlmsg_free (tgd_skb msg) st; Some (err, st) }
                 else do { (r, st) \<leftarrow> tgd_send_genl_message k msg d st; Some (0, st) } } } }))"

definition tgd_nlsdn_set_gps_time ::
  "'b bh_ops \<Rightarrow> terra_env \<Rightarrow> genl_info \<Rightarrow> 'b nlsdn \<Rightarrow> (int \<times> 'b nlsdn) option" where
  "tgd_nlsdn_set_gps_time ops env info st = (case tgd_nl_get_fb_drv info st of
     None \<Rightarrow> Some (1, st)
   | Some d \<Rightarrow> (case attrs info ATTR_GPS_TIME_S of
       None \<Rightarrow> Some (1, st)
     | Some s \<Rightarrow> (case attrs info ATTR_GPS_TIME_NS of
         None \<Rightarrow> Some (1, st)
       | Some ns \<Rightarrow> do {
           (e, st) \<leftarrow> on_drv d (tgd_send_gps_time ops env \<lparr>tv_sec = nla_get_u64 s, tv_nsec = nla_get_u64 ns\<rparr>) st;
           Some (0, st) })))"

text \<open>Latitude, longitude and height lie at bytes 4 to 15 of the position, the accuracy at the end of its 32 bytes.\<close>

definition tgd_nlsdn_set_gps_pos ::
  "'b bh_ops \<Rightarrow> terra_env \<Rightarrow> genl_info \<Rightarrow> 'b nlsdn \<Rightarrow> (int \<times> 'b nlsdn) option" where
  "tgd_nlsdn_set_gps_pos ops env info st = (case tgd_nl_get_fb_drv info st of
     None \<Rightarrow> Some (1, st)
   | Some d \<Rightarrow>
      (let nl_var_data = tgd_get_nl_var_data info SB_PASSTHROUGH_MAX in
       if nl_var_data = [] then Some (- 1, st)
       else do {
         pos \<leftarrow> mem_read 4 12 nl_var_data;
         acc \<leftarrow> mem_read 28 4 nl_var_data;
         Some (0, upd_drv d (tgd_send_gps_pos ops env (pos @ acc)) st) }))"

text \<open>The client of the GPS driver: it is set up if GPS is enabled and a GPS driver is there.\<close>

definition tgd_gps_dev_init :: "bool \<Rightarrow> bool \<Rightarrow> bool \<Rightarrow> int \<Rightarrow> 'b terra_driver \<Rightarrow> int \<times> 'b terra_driver" where
  "tgd_gps_dev_init tgd_enable_gps tgd_gps_ops alloc init_client drv =
     (if \<not> tgd_enable_gps \<or> \<not> tgd_gps_ops then (0, drv)
      else if \<not> alloc then (- ENOMEM, drv)
      else if init_client \<noteq> 0 then (init_client, drv)
      else (0, drv\<lparr>gps_state := Some \<lparr>fw_synced = False, send_to_fw = False\<rparr>\<rparr>))"

definition tgd_gps_dev_exit :: "'b terra_driver \<Rightarrow> 'b terra_driver" where
  "tgd_gps_dev_exit drv = drv\<lparr>gps_state := None\<rparr>"

abbreviation TGD_GPS_API_VERSION :: u32 where "TGD_GPS_API_VERSION \<equiv> 1"

text \<open>\<open>pdata\<close> is the version and the operations of the GPS driver.\<close>

definition tg_gps_probe :: "(u32 \<times> 'o) option \<Rightarrow> 'o option \<Rightarrow> int \<times> 'o option" where
  "tg_gps_probe pdata cur = (case pdata of
     None \<Rightarrow> (- ENODEV, cur)
   | Some (v, gops) \<Rightarrow> if v \<noteq> TGD_GPS_API_VERSION then (- 1, cur) else (0, Some gops))"

definition tg_gps_remove :: "'o option \<Rightarrow> int \<times> 'o option" where
  "tg_gps_remove cur = (0, None)"

definition tgd_gps_time_update :: "'b bh_ops \<Rightarrow> terra_env \<Rightarrow> timespec \<Rightarrow> 'b terra_driver \<Rightarrow> (unit \<times> 'b terra_driver) option" where
  "tgd_gps_time_update ops env ts drv = (case gps_state drv of
     Some sc \<Rightarrow> if send_to_fw sc then do { (e, drv) \<leftarrow> tgd_send_gps_time ops env ts drv; Some ((), drv) } else Some ((), drv)
   | None \<Rightarrow> None)"

definition tgd_gps_stat_update :: "nl_kernel \<Rightarrow> nat \<Rightarrow> u8 list \<Rightarrow> 'b nlsdn \<Rightarrow> 'b nlsdn option" where
  "tgd_gps_stat_update k d stats_buf st = map_option snd (tgd_nlsdn_push_gps_stat_nb k d stats_buf st)"

section \<open>The family\<close>

text \<open>The table of operations; a notification has no handler for a request.\<close>

definition tgd_nlsdn_ops ::
  "nl_kernel \<Rightarrow> 'b bh_ops \<Rightarrow> terra_env \<Rightarrow> tgd_nlsdn_commands \<Rightarrow> (genl_info \<Rightarrow> 'b nlsdn \<Rightarrow> (int \<times> 'b nlsdn) option) option" where
  "tgd_nlsdn_ops k ops env cmd = (case cmd of
     CMD_TGINIT \<Rightarrow> Some (tgd_nlsdn_tginit k ops env)
   | CMD_GRANTALLOC \<Rightarrow> Some tgd_nlsdn_grantalloc
   | CMD_SET_DBGMASK \<Rightarrow> Some (tgd_nlsdn_set_dbgmask k)
   | CMD_GET_STATS \<Rightarrow> Some (tgd_nlsdn_get_stats k ops env)
   | CMD_PASSTHRU_SB \<Rightarrow> Some (tgd_nlsdn_send_sb_passthrough k ops env)
   | CMD_SET_DRVR_CONFIG \<Rightarrow> Some (tgd_nlsdn_handle_drvr_config k)
   | CMD_SET_BMFMCONFIG \<Rightarrow> Some (tgd_nlsdn_set_bmfmconfig k ops env)
   | CMD_DEV_ALLOC \<Rightarrow> Some (tgd_nlsdn_dev_alloc k)
   | CMD_SET_GPS_TIME \<Rightarrow> Some (tgd_nlsdn_set_gps_time ops env)
   | CMD_SET_GPS_POS \<Rightarrow> Some (tgd_nlsdn_set_gps_pos ops env)
   | _ \<Rightarrow> None)"

text \<open>A request as the kernel treats it: the handler is called with attributes that obey the policy.\<close>

definition genl_rcv ::
  "nl_kernel \<Rightarrow> 'b bh_ops \<Rightarrow> terra_env \<Rightarrow> tgd_nlsdn_commands \<Rightarrow> genl_info \<Rightarrow> 'b nlsdn \<Rightarrow> (int \<times> 'b nlsdn) option" where
  "genl_rcv k ops env cmd info st = (case tgd_nlsdn_ops k ops env cmd of
     None \<Rightarrow> Some (- EOPNOTSUPP, st)
   | Some doit \<Rightarrow> if attrs_valid info then doit info st else Some (- ERANGE, st))"

text \<open>A firmware event: the handler of the driver runs, and the notifications it asks for are sent.\<close>

definition nl_fw_event ::
  "nl_kernel \<Rightarrow> 'b bh_ops \<Rightarrow> terra_env \<Rightarrow> nat \<Rightarrow> nat \<Rightarrow> u8 list \<Rightarrow> 'b nlsdn \<Rightarrow> 'b nlsdn option" where
  "nl_fw_event k ops env cpu d ev st = do {
     let drv = nl_drivers st ! d;
     drv' \<leftarrow> tgd_fw_msg_handler ops env cpu ev drv;
     notify_all k (drop (length (nl_log drv)) (nl_log drv')) d (upd_drv d (\<lambda>_. drv') st) }"

text \<open>Requests of user space, notifications of the message handler, and calls of the GPS driver, of the link
  security and of the life cycle. The GPS driver calls only a client that is registered.\<close>

datatype nl_op =
    Request tgd_nlsdn_commands genl_info | Notice nat nl_msg | Gps_time nat timespec | Gps_stat nat "u8 list"
  | Linkup nat "u8 list" | Updown nat u8

definition nl_exec ::
  "nl_kernel \<Rightarrow> 'b bh_ops \<Rightarrow> terra_env \<Rightarrow> nl_op \<Rightarrow> 'b nlsdn \<Rightarrow> 'b nlsdn option" where
  "nl_exec k ops env op st = (case op of
     Request cmd info \<Rightarrow> map_option snd (genl_rcv k ops env cmd info st)
   | Notice d m \<Rightarrow> notify_all k [m] d st
   | Gps_time d ts \<Rightarrow> if gps_state (nl_drivers st ! d) = None then Some st
                     else map_option snd (on_drv d (tgd_gps_time_update ops env ts) st)
   | Gps_stat d buf \<Rightarrow> tgd_gps_stat_update k d buf st
   | Linkup d buf \<Rightarrow> map_option snd (tgd_nlsdn_send_wsec_linkup_status k d buf st)
   | Updown d s \<Rightarrow> map_option snd (tgd_nlsdn_send_device_updown_status k d s st))"

text \<open>A sequence of operations, each with what the kernel does meanwhile.\<close>

fun nl_run :: "'b bh_ops \<Rightarrow> (nl_kernel \<times> terra_env \<times> nl_op) list \<Rightarrow> 'b nlsdn \<Rightarrow> 'b nlsdn option" where
  "nl_run ops [] st = Some st"
| "nl_run ops ((k, env, op) # xs) st = do { st \<leftarrow> nl_exec k ops env op st; nl_run ops xs st }"

section \<open>The common form of the answers\<close>

text \<open>
  Every handler ends in the same way: a message, its attributes, and on an error the message is freed. The
  lemmas below show that of each of them, so that this is proved safe once.
\<close>

definition nl_answer ::
  "nl_kernel \<Rightarrow> tgd_nlsdn_commands \<Rightarrow> genl_info option \<Rightarrow> nl_attr list \<Rightarrow> nat \<Rightarrow> 'b nlsdn \<Rightarrow> (int \<times> bool \<times> 'b nlsdn) option" where
  "nl_answer k cmd info as d st = do {
     (err, msg, st) \<leftarrow> tgd_new_genl_message k (TGD_NLMSG_INIT cmd info) st;
     if err \<noteq> 0 then Some (err, False, st)
     else do {
       (err, st) \<leftarrow> nla_puts k (tgd_skb msg) as st;
       if err \<noteq> 0 then do { st \<leftarrow> nlmsg_free (tgd_skb msg) st; Some (err, True, st) }
       else do { (r, st) \<leftarrow> tgd_send_genl_message k msg d st; Some (0, False, st) } } }"

definition nl_reply ::
  "nl_kernel \<Rightarrow> tgd_nlsdn_commands \<Rightarrow> genl_info option \<Rightarrow> nl_attr list \<Rightarrow> nat \<Rightarrow> 'b nlsdn \<Rightarrow> (int \<times> 'b nlsdn) option" where
  "nl_reply k cmd info as d st = map_option (\<lambda>(err, _, st). (err, st)) (nl_answer k cmd info as d st)"

lemma nl_reply_split:
  "nl_reply k cmd info as d st = do {
     (err, msg, st) \<leftarrow> tgd_new_genl_message k (TGD_NLMSG_INIT cmd info) st;
     if err \<noteq> 0 then Some (err, st)
     else do {
       (err, st) \<leftarrow> nla_puts k (tgd_skb msg) as st;
       if err \<noteq> 0 then do { st \<leftarrow> nlmsg_free (tgd_skb msg) st; Some (err, st) }
       else do { (r, st) \<leftarrow> tgd_send_genl_message k msg d st; Some (0, st) } } }"
  by (auto simp: nl_reply_def nl_answer_def map_option_bind split: option.splits prod.splits intro!: bind_option_cong)

lemma nla_puts_one: "nla_puts k i [a] st = nla_put k i a st"
  by (cases "nla_put k i a st") auto

lemma nla_puts_append:
  "nla_puts k i (as @ bs) st = do { (err, st) \<leftarrow> nla_puts k i as st; if err \<noteq> 0 then Some (err, st) else nla_puts k i bs st }"
  by (induction as arbitrary: st) (auto split: option.splits prod.splits intro!: bind_option_cong)

text \<open>The attributes of a notification.\<close>

definition ifname_attr :: "u8 list \<Rightarrow> nl_attr list" where
  "ifname_attr name = (if name = [] then [] else [(ATTR_VARDATA, name @ [0])])"

definition notify_of :: "nl_kernel \<Rightarrow> nl_msg \<Rightarrow> (tgd_nlsdn_commands \<times> nl_attr list) option" where
  "notify_of k m = (case m of
     Nl_tginit a e v \<Rightarrow>
       Some (CMD_NOTIFY_TGINIT, [(ATTR_MACADDR, le_bytes 8 (unat a)), (ATTR_SUCCESS, [e]), (ATTR_VARDATA, v)])
   | Nl_bmfmconfig e \<Rightarrow> Some (CMD_NOTIFY_BMFMCONFIG, [(ATTR_SUCCESS, [e])])
   | Nl_passthru ev \<Rightarrow> Some (CMD_PASSTHRU_NB, if ev = [] then [] else [(ATTR_VARDATA, ev)])
   | Nl_link_status dev a cause status sta peer \<Rightarrow>
       Some (CMD_NOTIFY_LINK_STATUS, ifname_attr (case dev of Some i \<Rightarrow> strscpy TGD_IFNAME_SZ (k_ifname k i) | None \<Rightarrow> []) @
         [(ATTR_MACADDR, le_bytes 8 (unat (TGD_CONVERT_MACADDR_TO_LONG a))), (ATTR_LINK_STATUS, [status]),
          (ATTR_LINK_DOWN_CAUSE, le_bytes 4 (unat cause)), (ATTR_SELF_NODE_TYPE, [sta]), (ATTR_PEER_NODE_TYPE, [peer])])
   | Nl_wsec_status i status \<Rightarrow>
       Some (CMD_NOTIFY_WSEC_STATUS, ifname_attr (strscpy TGD_IFNAME_SZ (k_ifname k i)) @ [(ATTR_WSEC_STATUS, [status])])
   | Htsf_info _ _ \<Rightarrow> None)"

lemma trigger_notify_eq:
  assumes "\<And>msg st. cb msg st = nla_puts k (tgd_skb msg) as st"
  shows "tgd_nlsdn_trigger_notify k cmd cb d st = map_option snd (nl_reply k cmd None as d st)"
  by (auto simp: tgd_nlsdn_trigger_notify_def nl_reply_split assms map_option_bind comp_def split: option.splits prod.splits
      intro!: bind_option_cong)

lemma ifname_puts:
  "nla_puts k i (ifname_attr name @ as) st = do {
     (err, st) \<leftarrow> (if name \<noteq> [] then nla_put k i (ATTR_VARDATA, name @ [0]) st else Some (0, st));
     if err \<noteq> 0 then Some (err, st) else nla_puts k i as st }"
  by (simp add: ifname_attr_def)

lemma notify_eq:
  "notify k m d st = (case notify_of k m of
     Some (cmd, as) \<Rightarrow> map_option snd (nl_reply k cmd None as d st) | None \<Rightarrow> Some st)"
proof (cases m)
  case (Nl_link_status dev a cause status sta peer)
  then show ?thesis
    by (simp add: notify_def notify_of_def, intro trigger_notify_eq)
      (simp add: tgd_nlsdn_linkup_status_msg_def ifname_puts del: nla_puts.simps)
next
  case (Nl_wsec_status i status)
  then show ?thesis
    by (simp add: notify_def notify_of_def, intro trigger_notify_eq)
      (unfold tgd_nlsdn_wsec_status_msg_def ifname_puts nla_puts_one, rule refl)
next
  case (Nl_passthru ev)
  then show ?thesis
    by (simp add: notify_def notify_of_def, intro impI conjI trigger_notify_eq)
      (simp_all add: tgd_nlsdn_stats_passthrough_def nla_puts_one del: nla_puts.simps(2))
next
  case (Nl_tginit a e v)
  then show ?thesis
    by (simp add: notify_def notify_of_def, intro trigger_notify_eq) (simp add: tgd_nlsdn_tginit_msg_def)
next
  case (Nl_bmfmconfig e)
  then show ?thesis
    by (simp add: notify_def notify_of_def, intro trigger_notify_eq)
      (simp add: tgd_nlsdn_bmfmconfig_msg_def nla_puts_one del: nla_puts.simps)
qed (simp add: notify_def notify_of_def)

lemma gps_stat_nb_eq:
  "tgd_nlsdn_push_gps_stat_nb k d buf st =
     (if buf = [] then Some (- 1, st) else nl_reply k CMD_DRVRSTAT_NB None [(ATTR_VARDATA, buf)] d st)"
  unfolding tgd_nlsdn_push_gps_stat_nb_def nl_reply_split nla_puts_one ..

lemma linkup_status_eq:
  "tgd_nlsdn_send_wsec_linkup_status k d buf st =
     (if buf = [] then Some (- 1, st) else nl_reply k CMD_NOTIFY_WSEC_LINKUP_STATUS None [(ATTR_VARDATA, buf)] d st)"
  unfolding tgd_nlsdn_send_wsec_linkup_status_def nl_reply_split nla_puts_one ..

lemma updown_status_eq:
  "tgd_nlsdn_send_device_updown_status k d status st =
     nl_reply k CMD_NOTIFY_DEV_UPDOWN_STATUS None [(ATTR_UPDOWN_STATUS, [status])] d st"
  unfolding tgd_nlsdn_send_device_updown_status_def nl_reply_split nla_puts_one ..

lemma tginit_eq:
  "tgd_nlsdn_tginit k ops env info st = (case tgd_nl_get_fb_drv info st of
     None \<Rightarrow> Some (1, st)
   | Some d \<Rightarrow> do {
       let st = NL_CMD_STATS_INC d NL_CMD_TGINIT st;
       let nl_var_data = tgd_get_nl_var_data info MAX_VAR_DATA_LEN;
       (ret, st) \<leftarrow> on_drv d (tgd_send_fw_init ops env (length nl_var_data) nl_var_data) st;
       nl_reply k CMD_TGINIT (Some info) [(ATTR_SUCCESS, [ret])] d st })"
  unfolding tgd_nlsdn_tginit_def nl_reply_split nla_puts_one ..

text \<open>The end of the handler for beamforming, where an attribute that does not fit gives a code of its own.\<close>

lemma bmfm_end_eq:
  "do { (err, msg, st) \<leftarrow> tgd_new_genl_message k (TGD_NLMSG_INIT cmd info) st;
        if err \<noteq> 0 then Some (err, st)
        else do {
          (err, st) \<leftarrow> nla_put k (tgd_skb msg) a st;
          if err \<noteq> 0 then do { st \<leftarrow> nlmsg_free (tgd_skb msg) st; Some (- EMSGSIZE, st) }
          else do { (r, st) \<leftarrow> tgd_send_genl_message k msg d st; Some (0, st) } } } =
   do { (err, put_failed, st) \<leftarrow> nl_answer k cmd info [a] d st; Some (if put_failed then - EMSGSIZE else err, st) }"
  by (auto simp: nl_answer_def nla_puts_one split: option.splits prod.splits simp del: nla_puts.simps intro!: bind_option_cong)

lemma dbgmask_eq:
  "tgd_nlsdn_set_dbgmask k info st = (case tgd_nl_get_fb_drv info st of
     None \<Rightarrow> Some (1, st)
   | Some d \<Rightarrow>
      (let st = NL_CMD_STATS_INC d NL_CMD_SET_DBGMASK st in
       case attrs info ATTR_DBGMASK of
         None \<Rightarrow> Some (1, st)
       | Some na \<Rightarrow> do {
           dbg_mask \<leftarrow> nla_get_u32 na;
           let (curr_mask, st) = set_debug_mask (if dbg_mask AND NOT TGC_VALID_DBG_MASK_BITS \<noteq> 0 then 0xFFFFFFFF else dbg_mask) st;
           nl_reply k CMD_SET_DBGMASK (Some info) [(ATTR_DBGMASK, le_bytes 4 (unat curr_mask)), (ATTR_SUCCESS, [0])] d st }))"
  unfolding tgd_nlsdn_set_dbgmask_def nl_reply_split ..

text \<open>The answer to a pass-through request, once its subtype can be read.\<close>

definition passthru_sub :: "genl_info \<Rightarrow> nl_attr list option" where
  "passthru_sub info = (case attrs info ATTR_PASSTHRU_TYPE of
     None \<Rightarrow> Some [] | Some na \<Rightarrow> map_option (\<lambda>b. [(ATTR_PASSTHRU_TYPE, [b])]) (nla_get_u8 na))"

lemma passthru_end_eq:
  assumes "passthru_sub info = Some sub"
  shows "do { (err, msg, st) \<leftarrow> tgd_new_genl_message k (TGD_NLMSG_INIT cmd (Some info)) st;
        if err \<noteq> 0 then Some (err, st)
        else do {
          (err, st) \<leftarrow> nla_put k (tgd_skb msg) a st;
          if err \<noteq> 0 then do { st \<leftarrow> nlmsg_free (tgd_skb msg) st; Some (err, st) }
          else do {
            (err, st) \<leftarrow> (case attrs info ATTR_PASSTHRU_TYPE of
               None \<Rightarrow> Some (0, st)
             | Some na \<Rightarrow> do { b \<leftarrow> nla_get_u8 na; nla_put k (tgd_skb msg) (ATTR_PASSTHRU_TYPE, [b]) st });
            if err \<noteq> 0 then do { st \<leftarrow> nlmsg_free (tgd_skb msg) st; Some (err, st) }
            else do { (r, st) \<leftarrow> tgd_send_genl_message k msg d st; Some (0, st) } } } } =
    nl_reply k cmd (Some info) (a # sub) d st"
proof -
  have "(case attrs info ATTR_PASSTHRU_TYPE of None \<Rightarrow> Some (0, s)
     | Some na \<Rightarrow> do { b \<leftarrow> nla_get_u8 na; nla_put k i (ATTR_PASSTHRU_TYPE, [b]) s }) = nla_puts k i sub s" for i and s :: "'a nlsdn"
    using assms by (auto simp: passthru_sub_def nla_puts_one split: option.splits simp del: nla_puts.simps(2))
  then show ?thesis
    by (auto simp: nl_reply_split split: option.splits prod.splits intro!: bind_option_cong)
qed

text \<open>The attributes of the answer to a configuration command and the code it carries.\<close>

definition drv_cfg_answer :: "nl_kernel \<Rightarrow> u8 list \<Rightarrow> 'b terra_driver \<Rightarrow> (nl_attr list \<times> u8) option" where
  "drv_cfg_answer k data drv =
     (let ret = (if length data < DRIVER_CFG_HDR_SIZE then - 1 else 0);
          type = (if length data < DRIVER_CFG_HDR_SIZE then 0 else le_val (take 2 data)) in
      if type = 1 then Some ([(ATTR_VARDATA, data)], ret)
      else if type = 2 then
        Some ([(ATTR_VARDATA, le_bytes 4 FB_TGD_BH_API_VERSION @ le_bytes 4 (unat (k_vendor_version k)))], ret)
      else if type = 3 then
        if \<not> k_alloc k 1 then Some ([], ret)
        else let (ret_len, buf) = tgd_gps_get_nl_rsp k (gps_state drv) data in
             if ret_len \<le> 0 then Some ([], - 1)
             else do {
               rsp \<leftarrow> (if GPS_RSP_MAX_SIZE < nat ret_len then None else mem_read 0 (nat ret_len) buf);
               Some ([(ATTR_VARDATA, rsp)], ret) }
      else Some ([(ATTR_VARDATA, err_msg)], ret))"

lemma drv_cfg_put_eq:
  "drv_cfg_put k msg d data st = do {
     (as, ret) \<leftarrow> drv_cfg_answer k data (nl_drivers st ! d);
     (err, st) \<leftarrow> nla_puts k (tgd_skb msg) as st;
     Some ((err, ret), st) }"
  by (auto simp: drv_cfg_put_def drv_cfg_answer_def nla_puts_one Let_def split: prod.splits option.splits
      simp del: nla_puts.simps(2) intro!: bind_option_cong)

lemma new_message_drivers: "tgd_new_genl_message k m st = Some (err, msg, st') \<Longrightarrow> nl_drivers st' = nl_drivers st"
  by (auto simp: tgd_new_genl_message_def nlmsg_free_def Let_def split: if_splits option.splits)

lemma drv_cfg_data_eq:
  assumes "drv_cfg_answer k data (nl_drivers st ! d) = Some (as, ret)"
  shows "tgd_handle_drv_cfg_data k d data st = nl_reply k CMD_NOTIFY_DRVR_RSP None (as @ [(ATTR_SUCCESS, [ret])]) d st"
proof (cases "tgd_new_genl_message k (TGD_NLMSG_INIT CMD_NOTIFY_DRVR_RSP None) st")
  case (Some x)
  obtain err msg s where x: "x = (err, msg, s)" by (cases x)
  have "drv_cfg_answer k data (nl_drivers s ! d) = Some (as, ret)" using assms new_message_drivers Some x by metis
  then show ?thesis using Some x
    by (auto simp: tgd_handle_drv_cfg_data_def drv_cfg_put_eq nl_reply_split nla_puts_append nla_puts_one
        split: option.splits prod.splits simp del: nla_puts.simps intro!: bind_option_cong)
qed (simp add: tgd_handle_drv_cfg_data_def nl_reply_split)

lemma dev_alloc_eq:
  "tgd_nlsdn_dev_alloc k info st = (case tgd_nl_get_fb_drv info st of
     None \<Rightarrow> Some (1, st)
   | Some d \<Rightarrow>
      (let st = NL_CMD_STATS_INC d NL_CMD_DEV_ALLOC st in
       case attrs info ATTR_MACADDR of
         None \<Rightarrow> Some (1, st)
       | Some na \<Rightarrow> do {
           let macaddr = nla_get_u64 na;
           (dev, st) \<leftarrow> on_drv d (\<lambda>drv. Some (tgd_terra_dev_reserve (TGD_CONVERT_LONG_TO_MACADDR macaddr) drv)) st;
           case dev of
             None \<Rightarrow> Some (- EBUSY, st)
           | Some i \<Rightarrow> nl_reply k CMD_DEV_ALLOC_RSP (Some info)
               [(ATTR_MACADDR, le_bytes 8 (unat macaddr)), (ATTR_IFINDEX, le_bytes 4 (unat (k_ifindex k i))),
                (ATTR_VARDATA, k_ifname k i @ [0]), (ATTR_SUCCESS, [1])] d st }))"
  unfolding tgd_nlsdn_dev_alloc_def nl_reply_split ..

section \<open>Messages are sent or freed\<close>

text \<open>What a handled message leaves of the drivers: everything but the counters.\<close>

definition drv_core :: "'b terra_driver \<Rightarrow> 'b terra_driver" where
  "drv_core drv = drv\<lparr>nl_stats := (\<lambda>_. 0)\<rparr>"

definition same_drivers :: "'b nlsdn \<Rightarrow> 'b nlsdn \<Rightarrow> bool" where
  "same_drivers st st' \<longleftrightarrow> map drv_core (nl_drivers st') = map drv_core (nl_drivers st)"

text \<open>The message of an answer, with the address of the radio at its end.\<close>

definition answer_msg ::
  "tgd_nlsdn_commands \<Rightarrow> genl_info option \<Rightarrow> nl_attr list \<Rightarrow> 'b terra_driver \<Rightarrow> nl_dest \<times> nlskb" where
  "answer_msg cmd info as drv =
     (case info of Some i \<Rightarrow> Unicast (snd_portid i) | None \<Rightarrow> Multicast,
      \<lparr>nlh_seq = (case info of Some i \<Rightarrow> snd_seq i + 1 | None \<Rightarrow> 0), nlh_cmd = cmd,
       nlh_attrs = as @ [(ATTR_RADIO_MACADDR, le_bytes 8 (unat (drv_macaddr drv)))]\<rparr>)"

lemma drv_core_inc [simp]: "drv_core (nl_inc k drv) = drv_core drv"
  by (simp add: drv_core_def nl_inc_def)

lemma same_drivers_refl [simp]: "same_drivers st st"
  by (simp add: same_drivers_def)

lemma same_drivers_upd:
  assumes "drv_core (f (nl_drivers st ! d)) = drv_core (nl_drivers st ! d)"
  shows "same_drivers st (upd_drv d f st)"
  using assms by (cases "d < length (nl_drivers st)")
    (simp_all add: same_drivers_def upd_drv_def map_update list_update_same_conv list_update_beyond)

lemma same_drivers_trans: "same_drivers a b \<Longrightarrow> same_drivers b c \<Longrightarrow> same_drivers a c"
  by (simp add: same_drivers_def)

lemma same_drivers_cong: "nl_drivers b = nl_drivers a \<Longrightarrow> same_drivers a b"
  by (simp add: same_drivers_def)

lemma upd_drv_fields [simp]:
  "nl_skbs (upd_drv d f st) = nl_skbs st" "nl_out (upd_drv d f st) = nl_out st" "nl_next (upd_drv d f st) = nl_next st"
  "tgd_dbg_enable_level (upd_drv d f st) = tgd_dbg_enable_level st"
  "length (nl_drivers (upd_drv d f st)) = length (nl_drivers st)"
  by (simp_all add: upd_drv_def)

lemma nla_puts_eq:
  assumes "nl_skbs st i = Some s"
  obtains err s' where "nla_puts k i as st = Some (err, st\<lparr>nl_skbs := (nl_skbs st)(i \<mapsto> s')\<rparr>)"
    "err = 0 \<longrightarrow> s' = s\<lparr>nlh_attrs := nlh_attrs s @ as\<rparr>" "(\<forall>t a. k_put k t a = 0) \<longrightarrow> err = 0"
proof -
  have "\<exists>err s'. nla_puts k i as st = Some (err, st\<lparr>nl_skbs := (nl_skbs st)(i \<mapsto> s')\<rparr>) \<and>
      (err = 0 \<longrightarrow> s' = s\<lparr>nlh_attrs := nlh_attrs s @ as\<rparr>) \<and> ((\<forall>t a. k_put k t a = 0) \<longrightarrow> err = 0)"
    using assms
  proof (induction as arbitrary: st s)
    case Nil
    then show ?case by (intro exI [of _ 0] exI [of _ s]) (simp add: fun_upd_idem)
  next
    case (Cons a as)
    show ?case
    proof (cases "k_put k s a = 0")
      case True
      let ?s = "s\<lparr>nlh_attrs := nlh_attrs s @ [a]\<rparr>"
      let ?st = "st\<lparr>nl_skbs := (nl_skbs st)(i \<mapsto> ?s)\<rparr>"
      have h: "nl_skbs ?st i = Some ?s" by simp
      have "nla_put k i a st = Some (0, ?st)" using Cons.prems True by (simp add: nla_put_def)
      moreover obtain err s' where "nla_puts k i as ?st = Some (err, ?st\<lparr>nl_skbs := (nl_skbs ?st)(i \<mapsto> s')\<rparr>)"
        "err = 0 \<longrightarrow> s' = ?s\<lparr>nlh_attrs := nlh_attrs ?s @ as\<rparr>" "(\<forall>t a. k_put k t a = 0) \<longrightarrow> err = 0"
        using Cons.IH [OF h] by blast
      moreover have "?st\<lparr>nl_skbs := (nl_skbs ?st)(i \<mapsto> s')\<rparr> = st\<lparr>nl_skbs := (nl_skbs st)(i \<mapsto> s')\<rparr>" by simp
      ultimately show ?thesis by (intro exI [of _ err] exI [of _ s']) (simp add: fun_upd_def)
    next
      case False
      then show ?thesis using Cons.prems
        by (cases a) (intro exI [of _ "k_put k s a"] exI [of _ s], auto simp: nla_put_def fun_upd_idem)
    qed
  qed
  then show thesis using that by blast
qed

text \<open>Sending ends with the message consumed or freed.\<close>

lemma send_genl_message_eq:
  assumes "nl_skbs st (tgd_skb msg) = Some s"
  obtains err st' where "tgd_send_genl_message k msg d st = Some (err, st')"
    "nl_skbs st' = (nl_skbs st)(tgd_skb msg := None)" "nl_next st' = nl_next st" "same_drivers st st'"
    "tgd_dbg_enable_level st' = tgd_dbg_enable_level st"
    "let s' = s\<lparr>nlh_attrs := nlh_attrs s @ [(ATTR_RADIO_MACADDR, le_bytes 8 (unat (drv_macaddr (nl_drivers st ! d))))]\<rparr>;
         m = (case tgd_info msg of Some info \<Rightarrow> Unicast (snd_portid info) | None \<Rightarrow> Multicast, s')
     in nl_out st' = nl_out st @ [m] \<or> nl_out st' = nl_out st \<and> \<not> (\<forall>t a. k_put k t a = 0)"
proof -
  let ?a = "(ATTR_RADIO_MACADDR, le_bytes 8 (unat (drv_macaddr (nl_drivers st ! d))))"
  have inc: "same_drivers st (upd_drv d (nl_inc x) st)" for x and st :: "'a nlsdn"
    by (simp add: same_drivers_upd)
  have cong: "same_drivers st (st\<lparr>nl_skbs := h, nl_out := out\<rparr>)" "same_drivers st (st\<lparr>nl_skbs := h\<rparr>)" for h out and st :: "'a nlsdn"
    by (simp_all add: same_drivers_def)
  show thesis
  proof (cases "k_put k s ?a = 0")
    case True
    let ?s = "s\<lparr>nlh_attrs := nlh_attrs s @ [?a]\<rparr>"
    let ?dest = "case tgd_info msg of Some info \<Rightarrow> Unicast (snd_portid info) | None \<Rightarrow> Multicast"
    let ?u = "upd_drv d (nl_inc NL_MSG_SEND) (st\<lparr>nl_skbs := (nl_skbs st)(tgd_skb msg \<mapsto> ?s)\<rparr>)"
    let ?v = "?u\<lparr>nl_skbs := (nl_skbs ?u)(tgd_skb msg := None), nl_out := nl_out ?u @ [(?dest, ?s)]\<rparr>"
    let ?e = "if k_send k ?dest ?s = - ESRCH then 0 else k_send k ?dest ?s"
    have "tgd_send_genl_message k msg d st = Some (?e, if ?e \<noteq> 0 then upd_drv d (nl_inc NL_MSG_SEND_ERR) ?v else ?v)"
      using assms True by (simp add: tgd_send_genl_message_def nla_put_def genlmsg_send_def Let_def)
    moreover have "same_drivers st ?v"
      by (rule same_drivers_trans [OF cong(2) [of st "(nl_skbs st)(tgd_skb msg \<mapsto> ?s)"]
            same_drivers_trans [OF inc [of _ NL_MSG_SEND] cong(1)]])
    moreover from this have "same_drivers st (upd_drv d (nl_inc NL_MSG_SEND_ERR) ?v)"
      by (rule same_drivers_trans [OF _ inc])
    ultimately show thesis using that by (simp add: Let_def split: if_splits)
  next
    case False
    let ?v = "st\<lparr>nl_skbs := (nl_skbs st)(tgd_skb msg := None)\<rparr>"
    have "tgd_send_genl_message k msg d st = Some (k_put k s ?a, upd_drv d (nl_inc NL_MSG_SEND_ERR) ?v)"
      using assms False by (simp add: tgd_send_genl_message_def nla_put_def nlmsg_free_def)
    moreover have "same_drivers st (upd_drv d (nl_inc NL_MSG_SEND_ERR) ?v)"
      by (rule same_drivers_trans [OF cong(2) inc])
    ultimately show thesis using that False by (auto simp: Let_def)
  qed
qed

definition nl_room :: "nl_kernel \<Rightarrow> bool" where
  "nl_room k \<longleftrightarrow> k_new k \<and> k_hdr k \<and> (\<forall>t a. k_put k t a = 0)"

lemma nl_answer_eq:
  assumes "nl_skbs st = Map.empty"
  obtains err f st' where "nl_answer k cmd info as d st = Some (err, f, st')"
    "nl_skbs st' = Map.empty" "same_drivers st st'" "tgd_dbg_enable_level st' = tgd_dbg_enable_level st"
    "nl_out st' = nl_out st @ [answer_msg cmd info as (nl_drivers st ! d)] \<or> nl_out st' = nl_out st \<and> \<not> nl_room k"
    "nl_room k \<longrightarrow> err = 0"
proof (cases "k_new k \<and> k_hdr k")
  case False
  then have "nl_answer k cmd info as d st = Some (- ENOMEM, False, st) \<or>
      nl_answer k cmd info as d st = Some (- ENOMEM, False, st\<lparr>nl_skbs := (nl_skbs st)(nl_next st := None), nl_next := nl_next st + 1\<rparr>)"
    by (auto simp: nl_answer_def tgd_new_genl_message_def nlmsg_free_def Let_def)
  then show thesis using that False assms by (auto simp: nl_room_def same_drivers_def)
next
  case True
  let ?i = "nl_next st"
  let ?s = "\<lparr>nlh_seq = (case info of Some i \<Rightarrow> snd_seq i + 1 | None \<Rightarrow> 0), nlh_cmd = cmd, nlh_attrs = []\<rparr>"
  let ?st = "st\<lparr>nl_skbs := (nl_skbs st)(?i \<mapsto> ?s), nl_next := ?i + 1\<rparr>"
  have h: "nl_skbs ?st ?i = Some ?s" by simp
  have new: "tgd_new_genl_message k (TGD_NLMSG_INIT cmd info) st =
      Some (0, \<lparr>tgd_cmd = cmd, tgd_info = info, tgd_skb = ?i\<rparr>, ?st)"
    using True by (simp add: tgd_new_genl_message_def TGD_NLMSG_INIT_def Let_def split: option.splits)
  obtain err s where p: "nla_puts k ?i as ?st = Some (err, ?st\<lparr>nl_skbs := (nl_skbs ?st)(?i \<mapsto> s)\<rparr>)"
    "err = 0 \<longrightarrow> s = ?s\<lparr>nlh_attrs := nlh_attrs ?s @ as\<rparr>" "(\<forall>t a. k_put k t a = 0) \<longrightarrow> err = 0"
    by (rule nla_puts_eq [OF h])
  let ?u = "?st\<lparr>nl_skbs := (nl_skbs ?st)(?i \<mapsto> s)\<rparr>"
  have sd: "same_drivers st ?u" by (simp add: same_drivers_def)
  show thesis
  proof (cases "err = 0")
    case False
    have "nl_answer k cmd info as d st = Some (err, True, ?u\<lparr>nl_skbs := (nl_skbs ?u)(?i := None)\<rparr>)"
      using new p(1) False by (simp add: nl_answer_def nlmsg_free_def)
    then show thesis using that False p(3) assms by (auto simp: nl_room_def same_drivers_def)
  next
    case err: True
    let ?m = "\<lparr>tgd_cmd = cmd, tgd_info = info, tgd_skb = ?i\<rparr>"
    have g: "nl_skbs ?u (tgd_skb ?m) = Some s" by simp
    obtain r v where v: "tgd_send_genl_message k ?m d ?u = Some (r, v)"
      "nl_skbs v = (nl_skbs ?u)(tgd_skb ?m := None)" "nl_next v = nl_next ?u" "same_drivers ?u v"
      "tgd_dbg_enable_level v = tgd_dbg_enable_level ?u"
      "let s' = s\<lparr>nlh_attrs := nlh_attrs s @ [(ATTR_RADIO_MACADDR, le_bytes 8 (unat (drv_macaddr (nl_drivers ?u ! d))))]\<rparr>;
           m = (case tgd_info ?m of Some info \<Rightarrow> Unicast (snd_portid info) | None \<Rightarrow> Multicast, s')
       in nl_out v = nl_out ?u @ [m] \<or> nl_out v = nl_out ?u \<and> \<not> (\<forall>t a. k_put k t a = 0)"
      by (rule send_genl_message_eq [OF g])
    have out: "nl_out v = nl_out st @ [answer_msg cmd info as (nl_drivers st ! d)] \<or> nl_out v = nl_out st \<and> \<not> nl_room k"
      using v(6) p(2) err by (auto simp: answer_msg_def Let_def nl_room_def)
    have "nl_answer k cmd info as d st = Some (0, False, v)"
      using new p(1) err v(1) by (simp add: nl_answer_def)
    then show thesis using that v(2,5) out assms same_drivers_trans [OF sd v(4)] by auto
  qed
qed

section \<open>No message is lost and no fault\<close>

text \<open>Between operations no message is left behind and the link tables of the \<open>n\<close> drivers are consistent.\<close>

definition nl_ok :: "nat \<Rightarrow> 'b nlsdn \<Rightarrow> bool" where
  "nl_ok n st \<longleftrightarrow> nl_skbs st = Map.empty \<and> length (nl_drivers st) = n \<and> (\<forall>drv \<in> set (nl_drivers st). table_ok drv)"

definition nl_safe :: "nat \<Rightarrow> ('a \<times> 'b nlsdn) option \<Rightarrow> bool" where
  "nl_safe n r \<longleftrightarrow> (\<exists>x st. r = Some (x, st) \<and> nl_ok n st)"

lemma nl_return: "nl_ok n st \<Longrightarrow> nl_safe n (Some (x, st))"
  by (simp add: nl_safe_def)

lemma nl_bind: "nl_safe n m \<Longrightarrow> (\<And>x st. nl_ok n st \<Longrightarrow> nl_safe n (g (x, st))) \<Longrightarrow> nl_safe n (Option.bind m g)"
  by (auto simp: nl_safe_def)

lemma table_ok_core: "table_ok (drv_core drv) = table_ok drv"
  by (simp add: drv_core_def table_ok_def)

lemma nl_ok_same:
  assumes "nl_ok n st" and "same_drivers st st'" and "nl_skbs st' = Map.empty"
  shows "nl_ok n st'"
proof -
  have "list_all table_ok (map drv_core (nl_drivers st'))"
    using assms(1,2) by (auto simp: nl_ok_def same_drivers_def list_all_iff table_ok_core)
  moreover have "length (nl_drivers st') = length (nl_drivers st)"
    using assms(2) by (simp add: same_drivers_def) (metis length_map)
  ultimately show ?thesis using assms(1,3) by (auto simp: nl_ok_def list_all_iff table_ok_core)
qed

lemma answer_safe: "nl_ok n st \<Longrightarrow> \<exists>err f st'. nl_answer k cmd info as d st = Some (err, f, st') \<and> nl_ok n st'"
  using nl_answer_eq [of st k cmd info as d] nl_ok_same [of n st] by (metis nl_ok_def)

lemma reply_safe: "nl_ok n st \<Longrightarrow> nl_safe n (nl_reply k cmd info as d st)"
  using answer_safe [of n st k cmd info as d] by (auto simp: nl_reply_def nl_safe_def)

text \<open>The same with another code for success.\<close>

lemma stats_end_safe:
  assumes "nl_ok n st"
  shows "nl_safe n (do { (err, msg, st) \<leftarrow> tgd_new_genl_message k (TGD_NLMSG_INIT cmd info) st;
         if err \<noteq> 0 then Some (err, st)
         else do {
           (err, st) \<leftarrow> nla_puts k (tgd_skb msg) as st;
           if err \<noteq> 0 then do { st \<leftarrow> nlmsg_free (tgd_skb msg) st; Some (err, st) }
           else do { (r, st) \<leftarrow> tgd_send_genl_message k msg d st; Some (c, st) } } })"
  using reply_safe [OF assms, of k cmd info as d]
  by (auto simp: nl_reply_split nl_safe_def bind_eq_Some_conv split: if_splits) (blast+)?

lemma nl_ok_upd:
  assumes "nl_ok n st" and "d < n \<Longrightarrow> table_ok (f (nl_drivers st ! d))"
  shows "nl_ok n (upd_drv d f st)"
  using assms by (cases "d < n")
    (auto simp: nl_ok_def upd_drv_def list_update_beyond dest!: set_update_subset_insert [THEN subsetD])

lemma stats_ok: "nl_ok n st \<Longrightarrow> nl_ok n (NL_CMD_STATS_INC d k st)"
  unfolding NL_CMD_STATS_INC_def by (rule nl_ok_upd) (auto simp: nl_ok_def nl_inc_def table_ok_def)

lemma on_drv_safe:
  assumes "nl_ok n st" and "d < n"
    and "\<And>drv. table_ok drv \<Longrightarrow> \<exists>x drv'. f drv = Some (x, drv') \<and> table_ok drv'"
  shows "nl_safe n (on_drv d f st)"
proof -
  obtain x drv' where "f (nl_drivers st ! d) = Some (x, drv')" "table_ok drv'"
    using assms by (metis nl_ok_def nth_mem)
  then show ?thesis using assms(1) by (auto simp: on_drv_def nl_safe_def intro: nl_ok_upd)
qed

lemma get_fb_drv_bound: "tgd_nl_get_fb_drv info st = Some d \<Longrightarrow> nl_ok n st \<Longrightarrow> d < n"
  by (auto simp: tgd_nl_get_fb_drv_def tgd_find_fb_drv_def nl_ok_def dest: find_idx_Some split: option.splits)

text \<open>Requests to the firmware leave the link table alone.\<close>

lemma sb_ioctl_devs [simp]: "devs (snd (sb_ioctl ops env req drv)) = devs drv"
  by (simp add: sb_ioctl_def fb_tgd_bh_ioctl_def Let_def split_def split: option.splits)

lemma sb_ioctl_ok [simp]: "table_ok (snd (sb_ioctl ops env req drv)) = table_ok drv"
  by (rule table_ok_cong) simp

lemma sb_ioctl_cases: "\<exists>x drv'. Some (sb_ioctl ops env req drv) = Some (x, drv') \<and> table_ok drv' = table_ok drv"
  by (metis prod.collapse sb_ioctl_ok)

lemma length_to_mac [simp]: "length (TGD_CONVERT_LONG_TO_MACADDR m) = 6"
  by (simp add: TGD_CONVERT_LONG_TO_MACADDR_def)

lemma net_if_stat_keeps: "link_sta_addr (snd (net_if_stat ops ctx p)) = link_sta_addr p" "dev_ok p \<Longrightarrow> dev_ok (snd (net_if_stat ops ctx p))"
  by (auto simp: net_if_stat_def tgd_terra_get_net_if_stat_def tgd_terra_link_stats_def Let_def dev_ok_def)

lemma get_stats_ok:
  assumes "table_ok drv" and "at + room \<le> length buf"
  shows "\<exists>s n buf' drv'. tgd_get_stats ops at buf room drv = Some ((s, n, buf'), drv') \<and> table_ok drv' \<and>
    s \<le> room \<and> length buf' = length buf"
proof -
  obtain s n buf' ps' where l: "get_stats_loop ops (bh_ctx drv) room at 0 0 buf (devs drv) = Some (s, n, buf', ps')"
    "s \<le> room" "length buf' = length buf" "length ps' = length (devs drv)"
    "\<forall>i < length (devs drv). ps' ! i = devs drv ! i \<or> ps' ! i = snd (net_if_stat ops (bh_ctx drv) (devs drv ! i))"
    using get_stats_loop_fits [of 0 room at buf ops "bh_ctx drv" 0 "devs drv"] assms(2) by auto
  have nth: "link_sta_addr (ps' ! i) = link_sta_addr (devs drv ! i)" "dev_ok (ps' ! i)" if "i < length (devs drv)" for i
    using l(5) that assms(1) net_if_stat_keeps(1) [of ops "bh_ctx drv" "devs drv ! i"]
      net_if_stat_keeps(2) [of "devs drv ! i" ops "bh_ctx drv"] by (auto simp: table_ok_def)
  then have "map link_sta_addr ps' = map link_sta_addr (devs drv)" using l(4) by (intro nth_equalityI) auto
  moreover have "dev_ok p" if "p \<in> set ps'" for p using that l(4) nth(2) by (auto simp: in_set_conv_nth)
  ultimately show ?thesis using l assms(1) by (auto simp: tgd_get_stats_def table_ok_def)
qed

text \<open>What the policy promises of the attributes the handlers read at a fixed width.\<close>

lemma attr_minlens:
  "attr_minlen ATTR_BMFMROLE = 4" "attr_minlen ATTR_DBGMASK = 4" "attr_minlen ATTR_PASSTHRU_NOACK = 1"
  "attr_minlen ATTR_PASSTHRU_TYPE = 1" "attr_minlen ATTR_MACADDR = 8" "attr_minlen ATTR_RADIO_MACADDR = 8"
  "attr_minlen ATTR_GPS_TIME_S = 8"
  by (simp_all add: attr_minlen_def attr_enum_def tgd_nlsdn_policy_def nla_minlen_def)

text \<open>The nanoseconds of the GPS time are not checked.\<close>

lemma gps_time_ns_unchecked: "attr_minlen ATTR_GPS_TIME_NS = 0"
  by (simp add: attr_minlen_def attr_enum_def tgd_nlsdn_policy_def)

lemma attr_enum_all: "a \<in> set attr_enum"
  by (cases a) (simp_all add: attr_enum_def)

lemma attr_valid: "attrs_valid info \<Longrightarrow> attrs info a = Some b \<Longrightarrow> attr_minlen a \<le> length b"
  using attr_enum_all [of a] by (auto simp: attrs_valid_def list_all_iff split: option.splits)

lemma get_u32_valid: "attrs_valid info \<Longrightarrow> attrs info a = Some b \<Longrightarrow> attr_minlen a = 4 \<Longrightarrow> \<exists>v. nla_get_u32 b = Some v"
  using attr_valid [of info a b] by (auto simp: nla_get_u32_def mem_read_def)

lemma get_u8_valid: "attrs_valid info \<Longrightarrow> attrs info a = Some b \<Longrightarrow> attr_minlen a = 1 \<Longrightarrow> \<exists>v. nla_get_u8 b = Some v"
  using attr_valid [of info a b] by (auto simp: nla_get_u8_def mem_read_def)

lemma tginit_safe: "nl_ok n st \<Longrightarrow> nl_safe n (tgd_nlsdn_tginit k ops env info st)"
  by (auto simp: tginit_eq Let_def send_fw_init_eq split: option.splits
      intro!: nl_return nl_bind on_drv_safe reply_safe stats_ok dest: get_fb_drv_bound)
    (metis sb_ioctl_cases option.inject)

lemma bmfm_safe:
  assumes "nl_ok n st" and "attrs_valid info"
  shows "nl_safe n (tgd_nlsdn_set_bmfmconfig k ops env info st)"
proof -
  have send: "nl_safe n (on_drv d (tgd_send_bmfm_cfg_req ops env (TGD_CONVERT_LONG_TO_MACADDR m) r (length data) data) s)"
    if "nl_ok n s" "d < n" for d m r data and s :: "'a nlsdn"
    using that sb_ioctl_cases by (intro on_drv_safe) (auto simp: send_bmfm_eq, metis sb_ioctl_cases option.inject)
  have ans: "nl_safe n (Option.bind (nl_answer k cmd i as d s) (\<lambda>(err, f, st). Some (if f then - EMSGSIZE else err, st)))"
    if "nl_ok n s" for cmd i as d and s :: "'a nlsdn"
    using answer_safe [OF that, of k cmd i as d] by (auto simp: nl_safe_def)
  show ?thesis
    using assms get_u32_valid [OF assms(2), of ATTR_BMFMROLE]
    by (auto simp: tgd_nlsdn_set_bmfmconfig_def bmfm_end_eq Let_def attr_minlens split: option.splits
        intro!: nl_return nl_bind [OF send] ans stats_ok get_fb_drv_bound [OF _ assms(1)])
qed

lemma dbgmask_safe:
  assumes "nl_ok n st" and "attrs_valid info"
  shows "nl_safe n (tgd_nlsdn_set_dbgmask k info st)"
proof -
  have m: "nl_ok n (snd (set_debug_mask v s)) = nl_ok n s" for v and s :: "'a nlsdn"
    by (simp add: set_debug_mask_def nl_ok_def)
  show ?thesis
    using assms get_u32_valid [OF assms(2), of ATTR_DBGMASK]
    by (auto simp: dbgmask_eq Let_def attr_minlens split_def m split: option.splits
        intro!: nl_return reply_safe stats_ok)
qed

lemma get_stats_safe:
  assumes "nl_ok n st"
  shows "nl_safe n (tgd_nlsdn_get_stats k ops env info st)"
proof (cases "tgd_nl_get_fb_drv info st")
  case None
  then show ?thesis using assms by (simp add: tgd_nlsdn_get_stats_def nl_return)
next
  case (Some d)
  let ?st = "NL_CMD_STATS_INC d NL_CMD_GET_STATS st"
  let ?c = "max_link_count (nl_drivers ?st ! d)"
  let ?sz = "LINK_STATS_SIZE * nat ?c"
  have ok: "nl_ok n ?st" "d < n" using assms stats_ok get_fb_drv_bound [OF Some] by auto
  obtain buf where b: "mem_write 0 (int_bytes 0) (req_buf env (?sz + TGD_STATS_SIZE)) = Some buf" "length buf = ?sz + TGD_STATS_SIZE"
    by (simp add: mem_write_def int_bytes_def req_buf_def)
  define first where "first = (if ?c > 0
     then do { ((ret_len, ret_link_count, stat_data), st) \<leftarrow> on_drv d (tgd_get_stats ops TGD_STATS_SIZE buf ?sz) ?st;
               stat_data \<leftarrow> mem_write 0 (int_bytes (int ret_link_count)) stat_data;
               Some ((ret_len, stat_data), st) }
     else Some ((0, buf), ?st))"
  obtain len dat s where f: "first = Some ((len, dat), s)" "nl_ok n s" "len + TGD_STATS_SIZE \<le> length dat"
  proof (cases "?c > 0")
    case True
    have t: "table_ok (nl_drivers ?st ! d)" using ok by (auto simp: nl_ok_def)
    obtain s n' buf' drv' where g: "tgd_get_stats ops TGD_STATS_SIZE buf ?sz (nl_drivers ?st ! d) = Some ((s, n', buf'), drv')"
      "table_ok drv'" "s \<le> ?sz" "length buf' = length buf"
      using get_stats_ok [OF t, of TGD_STATS_SIZE ?sz buf ops] b(2) by auto
    have "nl_ok n (upd_drv d (\<lambda>_. drv') ?st)" using ok g(2) by (intro nl_ok_upd) auto
    moreover have "\<exists>dat. first = Some ((s, dat), upd_drv d (\<lambda>_. drv') ?st) \<and> length dat = length buf"
      using True g(1,4) b(2) by (simp add: first_def on_drv_def mem_write_def int_bytes_def)
    ultimately show thesis using that g(3) b(2) by force
  qed (use that ok b in \<open>simp add: first_def\<close>)
  obtain stats where r: "mem_read 0 (len + TGD_STATS_SIZE) dat = Some stats" using f(3) mem_read_defined [of 0] by fastforce
  have e: "nl_safe n (do { (err, msg, st) \<leftarrow> tgd_new_genl_message k (TGD_NLMSG_INIT CMD_GET_STATS (Some info)) s;
         if err \<noteq> 0 then Some (err, st)
         else do {
           stats \<leftarrow> mem_read 0 (len + TGD_STATS_SIZE) dat;
           (err, st) \<leftarrow> nla_puts k (tgd_skb msg) [(ATTR_STATS, stats), (ATTR_SUCCESS, [0])] st;
           if err \<noteq> 0 then do { st \<leftarrow> nlmsg_free (tgd_skb msg) st; Some (err, st) }
           else do {
             (r, st) \<leftarrow> tgd_send_genl_message k msg d st;
             Some (if 0 < len then 0 else - 1, st) } } })"
    unfolding r bind.bind_lunit by (rule stats_end_safe [OF f(2)])
  have "tgd_nlsdn_get_stats k ops env info st = Option.bind first (\<lambda>((ret_len, stat_data), st).
      do { (err, msg, st) \<leftarrow> tgd_new_genl_message k (TGD_NLMSG_INIT CMD_GET_STATS (Some info)) st;
         if err \<noteq> 0 then Some (err, st)
         else do {
           stats \<leftarrow> mem_read 0 (ret_len + TGD_STATS_SIZE) stat_data;
           (err, st) \<leftarrow> nla_puts k (tgd_skb msg) [(ATTR_STATS, stats), (ATTR_SUCCESS, [0])] st;
           if err \<noteq> 0 then do { st \<leftarrow> nlmsg_free (tgd_skb msg) st; Some (err, st) }
           else do {
             (r, st) \<leftarrow> tgd_send_genl_message k msg d st;
             Some (if 0 < ret_len then 0 else - 1, st) } } })" if "k_alloc k 0"
    unfolding tgd_nlsdn_get_stats_def Some option.case Let_def b(1) bind.bind_lunit first_def using that by simp
  then show ?thesis using f(1) e ok(1) Some
    by (cases "k_alloc k 0") (simp_all add: tgd_nlsdn_get_stats_def nl_return del: nla_puts.simps)
qed

lemma passthrough_safe:
  assumes "nl_ok n st" and "attrs_valid info"
  shows "nl_safe n (tgd_nlsdn_send_sb_passthrough k ops env info st)"
proof -
  have send: "nl_safe n (on_drv d (tgd_send_passthrough_to_fw ops env al data (length data)) s)"
    if "nl_ok n s" "d < n" for d al data and s :: "'a nlsdn"
    using that by (intro on_drv_safe) (auto simp: send_passthrough_eq Let_def split_def)
  obtain sub where sub: "passthru_sub info = Some sub"
    using get_u8_valid [OF assms(2), of ATTR_PASSTHRU_TYPE]
    by (cases "attrs info ATTR_PASSTHRU_TYPE") (auto simp: passthru_sub_def attr_minlens)
  have ack: "\<exists>v. (case attrs info ATTR_PASSTHRU_NOACK of None \<Rightarrow> Some 0 | Some na \<Rightarrow> nla_get_u8 na) = Some v"
    using get_u8_valid [OF assms(2), of ATTR_PASSTHRU_NOACK] by (auto simp: attr_minlens split: option.splits)
  have rest: "nl_safe n (Option.bind (case attrs info ATTR_PASSTHRU_NOACK of None \<Rightarrow> Some 0 | Some na \<Rightarrow> nla_get_u8 na)
      (\<lambda>noack. if noack \<noteq> 0 then Some (0, s) else nl_reply k CMD_PASSTHRU_SB (Some info) ((ATTR_SUCCESS, [ret]) # sub) d s))"
    if "nl_ok n s" for ret d and s :: "'a nlsdn"
    using ack reply_safe [OF that] nl_return [OF that] by auto
  show ?thesis
  proof (cases "tgd_nl_get_fb_drv info st")
    case None
    then show ?thesis using assms(1) by (simp add: tgd_nlsdn_send_sb_passthrough_def nl_return)
  next
    case (Some d)
    let ?data = "tgd_get_nl_var_data info SB_PASSTHROUGH_MAX"
    let ?st = "NL_CMD_STATS_INC d NL_CMD_PASSTHRU_SB st"
    have ok: "nl_ok n ?st" "d < n" using assms(1) stats_ok get_fb_drv_bound [OF Some] by auto
    have "nl_safe n (if ?data \<noteq> [] then Option.bind
        (on_drv d (tgd_send_passthrough_to_fw ops env (k_alloc k 0) ?data (length ?data)) ?st)
        (\<lambda>(err, st). Some (if err = PASSTHRU_SUCCESS_CODE then 0 else 1 :: u8, st)) else Some (1, ?st))"
      using ok by (auto intro!: nl_bind [OF send] nl_return)
    then show ?thesis using Some rest
      by (simp only: tgd_nlsdn_send_sb_passthrough_def passthru_end_eq [OF sub] Let_def option.case) (erule nl_bind, simp only: prod.case)
  qed
qed

text \<open>The GPS driver keeps to the buffer it is given.\<close>

definition gps_fits :: "nl_kernel \<Rightarrow> bool" where
  "gps_fits k \<longleftrightarrow> (\<forall>cmd. fst (k_gps k cmd) \<le> 512 \<and> nat (fst (k_gps k cmd)) \<le> length (snd (k_gps k cmd)))"

lemma drv_cfg_answer_defined: "gps_fits k \<Longrightarrow> \<exists>as ret. drv_cfg_answer k data drv = Some (as, ret)"
proof -
  assume g: "gps_fits k"
  obtain l buf where r: "tgd_gps_get_nl_rsp k (gps_state drv) data = (l, buf)" by fastforce
  have "l \<le> 512 \<and> nat l \<le> length buf"
    using g r by (auto simp: gps_fits_def tgd_gps_get_nl_rsp_def split: if_splits) (metis fst_conv snd_conv)+
  then show ?thesis using r by (auto simp: drv_cfg_answer_def Let_def mem_read_def)
qed

lemma drvr_config_safe:
  assumes "nl_ok n st" and "gps_fits k"
  shows "nl_safe n (tgd_nlsdn_handle_drvr_config k info st)"
proof -
  have h: "nl_safe n (tgd_handle_drv_cfg_data k d data s)" if ok: "nl_ok n s" for d data and s :: "'a nlsdn"
  proof -
    obtain as ret where "drv_cfg_answer k data (nl_drivers s ! d) = Some (as, ret)"
      using drv_cfg_answer_defined [OF assms(2)] by blast
    then show ?thesis using ok by (auto simp: drv_cfg_data_eq intro!: reply_safe)
  qed
  show ?thesis using assms(1)
    by (auto simp: tgd_nlsdn_handle_drvr_config_def Let_def split: option.splits
        intro!: nl_return nl_bind [OF h] stats_ok)
qed

lemma dev_alloc_safe:
  assumes "nl_ok n st" and "\<And>b. attrs info ATTR_MACADDR = Some b \<Longrightarrow> TGD_CONVERT_LONG_TO_MACADDR (nla_get_u64 b) \<noteq> zero_mac"
  shows "nl_safe n (tgd_nlsdn_dev_alloc k info st)"
proof -
  have r: "nl_safe n (on_drv d (\<lambda>drv. Some (tgd_terra_dev_reserve (TGD_CONVERT_LONG_TO_MACADDR m) drv)) s)"
    if "nl_ok n s" "d < n" "TGD_CONVERT_LONG_TO_MACADDR m \<noteq> zero_mac" for d m and s :: "'a nlsdn"
    using that table_ok_reserve [OF _ that(3)]
    by (intro on_drv_safe) (auto intro!: exI [of _ "fst _"] simp: prod_eq_iff)
  show ?thesis using assms
    by (auto simp: dev_alloc_eq Let_def split: option.splits
        intro!: nl_return nl_bind [OF r] reply_safe stats_ok get_fb_drv_bound [OF _ assms(1)])
qed

lemma send_gps_time_ok: "table_ok drv \<Longrightarrow> \<exists>x drv'. tgd_send_gps_time ops env t drv = Some (x, drv') \<and> table_ok drv'"
  using send_gps_time_eq [of ops env t drv] by (metis prod.collapse sb_ioctl_ok)

lemma gps_time_safe: "nl_ok n st \<Longrightarrow> nl_safe n (tgd_nlsdn_set_gps_time ops env info st)"
  by (auto simp: tgd_nlsdn_set_gps_time_def split: option.splits
      intro!: nl_return nl_bind on_drv_safe send_gps_time_ok elim: get_fb_drv_bound)

lemma gps_pos_safe:
  assumes "nl_ok n st" and "\<And>b. attrs info ATTR_VARDATA = Some b \<Longrightarrow> b \<noteq> [] \<Longrightarrow> 32 \<le> length b"
  shows "nl_safe n (tgd_nlsdn_set_gps_pos ops env info st)"
proof -
  let ?d = "tgd_get_nl_var_data info SB_PASSTHROUGH_MAX"
  have l: "?d = [] \<or> 32 \<le> length ?d"
    using assms(2) by (auto simp: tgd_get_nl_var_data_def split: option.splits)
  have "table_ok (tgd_send_gps_pos ops env b x) = table_ok x" for b and x :: "'a terra_driver"
    by (simp add: table_ok_def)
  then show ?thesis using l assms(1)
    by (auto simp: tgd_nlsdn_set_gps_pos_def Let_def mem_read_def nl_ok_def split: option.splits
        intro!: nl_return nl_ok_upd)
qed

text \<open>What the callers promise: a position has its 32 bytes, a device is asked for a peer that has an
  address, and the operations name a driver.\<close>

definition op_ok :: "nat \<Rightarrow> nl_kernel \<Rightarrow> nl_op \<Rightarrow> bool" where
  "op_ok n k op = (gps_fits k \<and> (case op of
     Request cmd info \<Rightarrow>
       (cmd = CMD_SET_GPS_POS \<longrightarrow> (case attrs info ATTR_VARDATA of Some b \<Rightarrow> b = [] \<or> 32 \<le> length b | None \<Rightarrow> True)) \<and>
       (cmd = CMD_DEV_ALLOC \<longrightarrow> (case attrs info ATTR_MACADDR of
          Some b \<Rightarrow> TGD_CONVERT_LONG_TO_MACADDR (nla_get_u64 b) \<noteq> zero_mac | None \<Rightarrow> True))
   | Notice d _ \<Rightarrow> d < n | Gps_time d _ \<Rightarrow> d < n | Gps_stat d _ \<Rightarrow> d < n | Linkup d _ \<Rightarrow> d < n | Updown d _ \<Rightarrow> d < n))"

lemma genl_rcv_safe:
  assumes "nl_ok n st" and "op_ok n k (Request cmd info)"
  shows "nl_safe n (genl_rcv k ops env cmd info st)"
proof -
  have "nl_safe n (tgd_nlsdn_grantalloc info st)"
    using assms(1) by (auto simp: tgd_nlsdn_grantalloc_def split: option.splits intro!: nl_return stats_ok)
  then show ?thesis using assms
    by (cases cmd) (auto simp: genl_rcv_def tgd_nlsdn_ops_def op_ok_def split: option.splits
        intro!: nl_return tginit_safe bmfm_safe dbgmask_safe get_stats_safe passthrough_safe drvr_config_safe
          dev_alloc_safe gps_time_safe gps_pos_safe)
qed

lemma notify_all_safe: "nl_ok n st \<Longrightarrow> \<exists>st'. notify_all k ms d st = Some st' \<and> nl_ok n st'"
proof (induction ms arbitrary: st)
  case (Cons m ms)
  obtain st1 where "notify k m d st = Some st1" "nl_ok n st1"
  proof (cases "notify_of k m")
    case (Some p)
    then show thesis using that reply_safe [OF Cons.prems, of k "fst p" None "snd p" d]
      by (auto simp: notify_eq nl_safe_def split_def)
  qed (use that Cons.prems in \<open>simp add: notify_eq\<close>)
  then show ?case using Cons.IH [of st1] by simp
qed simp

lemma time_update_ok:
  assumes "table_ok drv" and "gps_state drv \<noteq> None"
  shows "\<exists>x drv'. tgd_gps_time_update ops env ts drv = Some (x, drv') \<and> table_ok drv'"
  using assms send_gps_time_ok [OF assms(1), of ops env ts] by (auto simp: tgd_gps_time_update_def)

lemma nl_exec_safe:
  assumes "nl_ok n st" and "op_ok n k op"
  shows "\<exists>st'. nl_exec k ops env op st = Some st' \<and> nl_ok n st'"
proof (cases op)
  case (Request cmd info)
  then have "nl_safe n (genl_rcv k ops env cmd info st)" using genl_rcv_safe assms by blast
  then show ?thesis using Request by (auto simp: nl_exec_def nl_safe_def)
next
  case (Notice d m)
  then show ?thesis using notify_all_safe [OF assms(1), of k "[m]" d] by (simp add: nl_exec_def)
next
  case (Gps_time d ts)
  have "table_ok (nl_drivers st ! d)" using assms Gps_time by (auto simp: op_ok_def nl_ok_def)
  then have "nl_safe n (on_drv d (tgd_gps_time_update ops env ts) st)" if "gps_state (nl_drivers st ! d) \<noteq> None"
    using time_update_ok [OF _ that, of ops env ts] assms(1) by (auto simp: on_drv_def nl_safe_def intro: nl_ok_upd)
  then show ?thesis using Gps_time assms(1) by (auto simp: nl_exec_def nl_safe_def)
next
  case (Gps_stat d buf)
  have "nl_safe n (tgd_nlsdn_push_gps_stat_nb k d buf st)"
    using assms(1) by (simp add: gps_stat_nb_eq reply_safe nl_return)
  then show ?thesis using Gps_stat by (auto simp: nl_exec_def tgd_gps_stat_update_def nl_safe_def)
next
  case (Linkup d buf)
  have "nl_safe n (tgd_nlsdn_send_wsec_linkup_status k d buf st)"
    using assms(1) by (simp add: linkup_status_eq reply_safe nl_return)
  then show ?thesis using Linkup by (auto simp: nl_exec_def nl_safe_def)
next
  case (Updown d s)
  have "nl_safe n (tgd_nlsdn_send_device_updown_status k d s st)"
    using assms(1) by (simp add: updown_status_eq reply_safe)
  then show ?thesis using Updown by (auto simp: nl_exec_def nl_safe_def)
qed

text \<open>
  C17. Through any sequence of netlink requests, notifications and calls of the GPS driver, whatever allocations
  fail, attributes do not fit or messages are not delivered, no operation faults: nothing is read outside of an
  attribute or written outside of a request or of the buffer for the statistics, no message is used after it is
  gone, every message that was allocated has been handed to netlink or freed exactly once, and the link tables stay
  consistent. The sequence is within \<open>op_ok\<close>: the data of a SET_GPS_POS request is empty or has at least the 32 bytes
  that the handler reads without checking, the address of a DEV_ALLOC request is not zero, the GPS driver keeps
  to the buffer of 512 bytes it is given, and the operations of the driver itself name one of its radios.
\<close>

theorem nl_messages_accounted:
  assumes "nl_skbs st = Map.empty" and "\<forall>drv \<in> set (nl_drivers st). table_ok drv"
    and "\<forall>(k, env, op) \<in> set xs. op_ok (length (nl_drivers st)) k op"
  shows "\<exists>st'. nl_run ops xs st = Some st' \<and> nl_skbs st' = Map.empty \<and>
    length (nl_drivers st') = length (nl_drivers st) \<and> (\<forall>drv \<in> set (nl_drivers st'). table_ok drv)"
proof -
  define n where "n = length (nl_drivers st)"
  have "nl_ok n st" using assms(1,2) by (simp add: nl_ok_def n_def)
  then have "\<exists>st'. nl_run ops xs st = Some st' \<and> nl_ok n st'"
    using assms(3) [folded n_def]
  proof (induction xs arbitrary: st)
    case (Cons x xs)
    obtain k env op where x: "x = (k, env, op)" by (cases x)
    obtain st1 where "nl_exec k ops env op st = Some st1" "nl_ok n st1"
      using nl_exec_safe [of n st k op ops env] Cons.prems x by auto
    then show ?case using Cons.IH [of st1] Cons.prems(2) x by auto
  qed simp
  then show ?thesis by (auto simp: nl_ok_def n_def)
qed

section \<open>Requests reach the firmware\<close>

lemma sb_ioctl_inc: "sb_ioctl ops env req (nl_inc k drv) = apsnd (nl_inc k) (sb_ioctl ops env req drv)"
  by (simp add: sb_ioctl_def fb_tgd_bh_ioctl_def nl_inc_def Let_def split_def split: option.splits)

lemma sb_ioctl_mac [simp]: "drv_macaddr (snd (sb_ioctl ops env req drv)) = drv_macaddr drv"
  by (simp add: sb_ioctl_def fb_tgd_bh_ioctl_def Let_def split_def split: option.splits)

lemma drv_core_other:
  assumes "same_drivers (upd_drv d f st) st'" and "d < length (nl_drivers st)"
  shows "drv_core (nl_drivers st' ! d) = drv_core (f (nl_drivers st ! d))"
    and "j \<noteq> d \<Longrightarrow> j < length (nl_drivers st) \<Longrightarrow> drv_core (nl_drivers st' ! j) = drv_core (nl_drivers st ! j)"
proof -
  have m: "map drv_core (nl_drivers st') = map drv_core ((nl_drivers st)[d := f (nl_drivers st ! d)])"
    using assms(1) by (simp add: same_drivers_def upd_drv_def)
  then have l: "length (nl_drivers st') = length (nl_drivers st)" by (metis length_list_update length_map)
  have e: "drv_core (nl_drivers st' ! i) = drv_core ((nl_drivers st)[d := f (nl_drivers st ! d)] ! i)"
    if "i < length (nl_drivers st)" for i
    using arg_cong [OF m, of "\<lambda>xs. xs ! i"] that l by simp
  show "drv_core (nl_drivers st' ! d) = drv_core (f (nl_drivers st ! d))" using e [OF assms(2)] assms(2) by simp
  show "j \<noteq> d \<Longrightarrow> j < length (nl_drivers st) \<Longrightarrow> drv_core (nl_drivers st' ! j) = drv_core (nl_drivers st ! j)"
    using e [of j] by simp
qed

text \<open>The common end of the forwarding handlers: one request, then the answer.\<close>

lemma forward_reply:
  assumes "nl_skbs st = Map.empty" and "d < length (nl_drivers st)" and "nl_room k"
    and "sb_ioctl ops env req (nl_drivers st ! d) = (r, drv')"
  shows "\<exists>st'. nl_reply k cmd (Some info) as d (upd_drv d (\<lambda>drv. nl_inc a (nl_inc b drv')) st) = Some (0, st') \<and>
    nl_out st' = nl_out st @ [answer_msg cmd (Some info) as (nl_drivers st ! d)] \<and>
    drv_core (nl_drivers st' ! d) = drv_core drv' \<and>
    (\<forall>j < length (nl_drivers st). j \<noteq> d \<longrightarrow> drv_core (nl_drivers st' ! j) = drv_core (nl_drivers st ! j))"
proof -
  let ?st = "upd_drv d (\<lambda>drv. nl_inc a (nl_inc b drv')) st"
  have h: "nl_skbs ?st = Map.empty" using assms(1) by simp
  obtain err f st' where st': "nl_answer k cmd (Some info) as d ?st = Some (err, f, st')" "same_drivers ?st st'"
    "nl_out st' = nl_out ?st @ [answer_msg cmd (Some info) as (nl_drivers ?st ! d)] \<or> nl_out st' = nl_out ?st \<and> \<not> nl_room k"
    "nl_room k \<longrightarrow> err = 0"
    by (rule nl_answer_eq [OF h])
  have "drv_macaddr drv' = drv_macaddr (nl_drivers st ! d)"
    using sb_ioctl_mac [of ops env req "nl_drivers st ! d"] assms(4) by simp
  then have "answer_msg cmd (Some info) as (nl_drivers ?st ! d) = answer_msg cmd (Some info) as (nl_drivers st ! d)"
    using assms(2) by (simp add: answer_msg_def upd_drv_def nl_inc_def)
  then show ?thesis using st' assms(3) drv_core_other [OF st'(2) assms(2)]
    by (intro exI [of _ st']) (simp add: nl_reply_def)
qed

lemma upd_drv_upd: "d < length (nl_drivers st) \<Longrightarrow> upd_drv d f (upd_drv d g st) = upd_drv d (f \<circ> g) st"
  by (simp add: upd_drv_def)

lemma on_drv_stats:
  assumes "d < length (nl_drivers st)" and "\<And>drv. f drv = map_option (apfst h) (Some (sb_ioctl ops env req drv))"
    and "sb_ioctl ops env req (nl_drivers st ! d) = (r, drv')"
  shows "on_drv d f (NL_CMD_STATS_INC d c st) = Some (h r, upd_drv d (\<lambda>drv. nl_inc c (nl_inc NL_MSG_RCVD drv')) st)"
  using assms by (simp add: on_drv_def NL_CMD_STATS_INC_def upd_drv_upd comp_def sb_ioctl_inc)
    (simp add: upd_drv_def sb_ioctl_inc)

text \<open>
  The end of the pass-through handler when its attributes obey the policy: the sender may ask for no answer, and
  gets back the subtype it gave.
\<close>

definition wants_answer :: "genl_info \<Rightarrow> bool" where
  "wants_answer info \<longleftrightarrow> (case attrs info ATTR_PASSTHRU_NOACK of None \<Rightarrow> True | Some na \<Rightarrow> hd na = 0)"

definition subtype :: "genl_info \<Rightarrow> nl_attr list" where
  "subtype info = (case attrs info ATTR_PASSTHRU_TYPE of None \<Rightarrow> [] | Some na \<Rightarrow> [(ATTR_PASSTHRU_TYPE, [hd na])])"

lemma get_u8_hd: "nla_get_u8 b = Some v \<Longrightarrow> v = hd b"
  by (cases b) (auto simp: nla_get_u8_def mem_read_def split: if_splits)

lemma passthru_attrs:
  assumes "attrs_valid info"
  shows "passthru_sub info = Some (subtype info)"
    and "\<exists>v. (case attrs info ATTR_PASSTHRU_NOACK of None \<Rightarrow> Some 0 | Some na \<Rightarrow> nla_get_u8 na) = Some v \<and> (v = 0 \<longleftrightarrow> wants_answer info)"
  using get_u8_valid [OF assms, of ATTR_PASSTHRU_TYPE] get_u8_valid [OF assms, of ATTR_PASSTHRU_NOACK] get_u8_hd
  by (fastforce simp: passthru_sub_def subtype_def wants_answer_def attr_minlens split: option.splits)+

text \<open>
  C18. A request of user space for the firmware (initialisation or pass-through) that names a radio and has data
  within the limit that netlink sets for its command, 512 or 1024 bytes, while the kernel has memory for the request
  and the answer (\<open>k_alloc\<close>, \<open>nl_room\<close>): the firmware of that radio is sent exactly one request. It carries the length
  and all of the data if these fit in the request behind its eight bytes of header, and no data otherwise (data of
  505 to 512 bytes, for pass-through 1017 to 1024). No other radio is touched. The sender is answered with its
  sequence number plus one, the code of the firmware (for pass-through, whether it is the code of success), the
  subtype it gave for pass-through and the address of the radio; a pass-through request that asks for no answer
  gets none.
\<close>

theorem nl_request_forwarded:
  assumes "nl_skbs st = Map.empty" and "attrs_valid info" and "tgd_nl_get_fb_drv info st = Some d"
    and "attrs info ATTR_VARDATA = Some data" and "data \<noteq> []" and "nl_room k" and "k_alloc k 0"
    and "cmd = CMD_TGINIT \<and> ty = 100 \<and> limit = 512 \<or> cmd = CMD_PASSTHRU_SB \<and> ty = 107 \<and> limit = 1024"
    and "length data \<le> limit"
  shows "\<exists>sent r drv' st'. sent = (if 8 + length data \<le> limit then data else []) \<and>
    sb_ioctl ops env (ty # sb_pad env @ le_bytes 4 (length sent) @ sent) (nl_drivers st ! d) = (r, drv') \<and>
    genl_rcv k ops env cmd info st = Some (0, st') \<and>
    nl_out st' = nl_out st @
      (if cmd = CMD_TGINIT then [answer_msg cmd (Some info) [(ATTR_SUCCESS, [r])] (nl_drivers st ! d)]
       else if wants_answer info
       then [answer_msg cmd (Some info) ((ATTR_SUCCESS, [if r = 101 then 0 else 1]) # subtype info) (nl_drivers st ! d)]
       else []) \<and>
    drv_core (nl_drivers st' ! d) = drv_core drv' \<and>
    (\<forall>j < length (nl_drivers st). j \<noteq> d \<longrightarrow> drv_core (nl_drivers st' ! j) = drv_core (nl_drivers st ! j))"
proof -
  define sent where "sent = (if 8 + length data \<le> limit then data else [])"
  let ?req = "ty # sb_pad env @ le_bytes 4 (length sent) @ sent"
  obtain r drv' where io: "sb_ioctl ops env ?req (nl_drivers st ! d) = (r, drv')" by fastforce
  have d: "d < length (nl_drivers st)"
    using assms(3) by (auto simp: tgd_nl_get_fb_drv_def tgd_find_fb_drv_def dest: find_idx_Some split: option.splits)
  note fwd = forward_reply [OF assms(1) d assms(6) io]
  show ?thesis using assms(8)
  proof
    assume c: "cmd = CMD_TGINIT \<and> ty = 100 \<and> limit = 512"
    then have v: "tgd_get_nl_var_data info MAX_VAR_DATA_LEN = data" "var_payload 8 LOCAL_IOCTL_BUF_SIZE data = sent"
      using assms(4,5,9) by (simp_all add: tgd_get_nl_var_data_def var_payload_def sent_def)
    have f: "tgd_send_fw_init ops env (length data) data drv = map_option (apfst id) (Some (sb_ioctl ops env ?req drv))" for drv
      using c v(2) by (simp add: send_fw_init_eq)
    have "on_drv d (tgd_send_fw_init ops env (length data) data) (NL_CMD_STATS_INC d NL_CMD_TGINIT st) =
        Some (r, upd_drv d (\<lambda>drv. nl_inc NL_CMD_TGINIT (nl_inc NL_MSG_RCVD drv')) st)"
      using on_drv_stats [OF d f io] by simp
    then have "genl_rcv k ops env cmd info st = nl_reply k cmd (Some info) [(ATTR_SUCCESS, [r])] d
        (upd_drv d (\<lambda>drv. nl_inc NL_CMD_TGINIT (nl_inc NL_MSG_RCVD drv')) st)"
      using c assms(2,3) v(1) by (simp add: genl_rcv_def tgd_nlsdn_ops_def tginit_eq)
    then show ?thesis using fwd [of cmd info "[(ATTR_SUCCESS, [r])]" NL_CMD_TGINIT NL_MSG_RCVD] io c sent_def by auto
  next
    assume c: "cmd = CMD_PASSTHRU_SB \<and> ty = 107 \<and> limit = 1024"
    then have v: "tgd_get_nl_var_data info SB_PASSTHROUGH_MAX = data" "var_payload 8 VENDOR_IOCTL_MAX_SIZE data = sent"
      using assms(4,5,9) by (simp_all add: tgd_get_nl_var_data_def var_payload_def sent_def)
    let ?st = "upd_drv d (\<lambda>drv. nl_inc NL_CMD_PASSTHRU_SB (nl_inc NL_MSG_RCVD drv')) st"
    have f: "tgd_send_passthrough_to_fw ops env True data (length data) drv =
        map_option (apfst uint) (Some (sb_ioctl ops env ?req drv))" for drv
      using c v(2) by (simp add: send_passthrough_eq split_def Let_def prod_eq_iff)
    have od: "on_drv d (tgd_send_passthrough_to_fw ops env True data (length data)) (NL_CMD_STATS_INC d NL_CMD_PASSTHRU_SB st) =
        Some (uint r, ?st)"
      using on_drv_stats [OF d f io] by simp
    obtain ack where ack: "(case attrs info ATTR_PASSTHRU_NOACK of None \<Rightarrow> Some 0 | Some na \<Rightarrow> nla_get_u8 na) = Some ack"
      "ack = 0 \<longleftrightarrow> wants_answer info" using passthru_attrs(2) [OF assms(2)] by blast
    have "uint r = PASSTHRU_SUCCESS_CODE \<longleftrightarrow> r = 101" using word_uint_eq_iff [of r 101] by simp
    then have e: "genl_rcv k ops env cmd info st = (if ack \<noteq> 0 then Some (0, ?st) else
        nl_reply k cmd (Some info) ((ATTR_SUCCESS, [if r = 101 then 0 else 1]) # subtype info) d ?st)"
      using c assms(2,3,5,7) v(1) od ack(1)
      by (simp add: genl_rcv_def tgd_nlsdn_ops_def tgd_nlsdn_send_sb_passthrough_def passthru_end_eq [OF passthru_attrs(1)])
    show ?thesis
    proof (cases "wants_answer info")
      case True
      then show ?thesis
        using fwd [of cmd info "(ATTR_SUCCESS, [if r = 101 then 0 else 1]) # subtype info" NL_CMD_PASSTHRU_SB NL_MSG_RCVD]
          io c e ack(2) sent_def by auto
    next
      case False
      then show ?thesis
        using io c e ack(2) sent_def d by (intro exI [of _ sent] exI [of _ r] exI [of _ drv'] exI [of _ ?st]) (auto simp: upd_drv_def)
    qed
  qed
qed

section \<open>Events of the firmware\<close>

text \<open>The notifications an event asks for are multicast in order, each with the address of the radio.\<close>

lemma notify_all_out:
  assumes "nl_skbs st = Map.empty" and "nl_room k" and "d < length (nl_drivers st)"
  shows "\<exists>st'. notify_all k ms d st = Some st' \<and> nl_skbs st' = Map.empty \<and> same_drivers st st' \<and>
    nl_out st' = nl_out st @ map (\<lambda>(cmd, as). answer_msg cmd None as (nl_drivers st ! d)) (List.map_filter (notify_of k) ms)"
  using assms
proof (induction ms arbitrary: st)
  case Nil
  then show ?case by (simp add: map_filter_def)
next
  case (Cons m ms)
  show ?case
  proof (cases "notify_of k m")
    case None
    then show ?thesis using Cons by (simp add: map_filter_def notify_eq)
  next
    case (Some p)
    obtain cmd as where p: "p = (cmd, as)" by (cases p)
    obtain err f st1 where st1: "nl_answer k cmd None as d st = Some (err, f, st1)" "nl_skbs st1 = Map.empty" "same_drivers st st1"
      "tgd_dbg_enable_level st1 = tgd_dbg_enable_level st"
      "nl_out st1 = nl_out st @ [answer_msg cmd None as (nl_drivers st ! d)] \<or> nl_out st1 = nl_out st \<and> \<not> nl_room k"
      "nl_room k \<longrightarrow> err = 0"
      by (rule nl_answer_eq [OF Cons.prems(1)])
    have l: "length (nl_drivers st1) = length (nl_drivers st)"
      using st1(3) by (simp add: same_drivers_def) (metis length_map)
    have "drv_core (nl_drivers st1 ! d) = drv_core (nl_drivers st ! d)"
      using st1(3) Cons.prems(3) l by (simp add: same_drivers_def) (metis nth_map)
    then have "drv_macaddr (nl_drivers st1 ! d) = drv_macaddr (nl_drivers st ! d)"
      by (simp add: drv_core_def) (metis terra_driver.select_convs(9) terra_driver.surjective terra_driver.update_convs(11))
    then have same: "answer_msg c None a (nl_drivers st1 ! d) = answer_msg c None a (nl_drivers st ! d)" for c a
      by (simp add: answer_msg_def)
    show ?thesis
      using Cons.IH [of st1] st1 Some p Cons.prems l same same_drivers_trans [OF st1(3)]
      by (auto simp: notify_eq nl_reply_def map_filter_def)
  qed
qed

theorem nl_event_notified:
  assumes "nl_skbs st = Map.empty" and "nl_room k" and "d < length (nl_drivers st)"
    and "tgd_fw_msg_handler ops env cpu ev (nl_drivers st ! d) = Some drv'"
  shows "\<exists>st'. nl_fw_event k ops env cpu d ev st = Some st' \<and> nl_skbs st' = Map.empty \<and>
    drv_core (nl_drivers st' ! d) = drv_core drv' \<and>
    nl_out st' = nl_out st @ map (\<lambda>(cmd, as). answer_msg cmd None as drv')
      (List.map_filter (notify_of k) (drop (length (nl_log (nl_drivers st ! d))) (nl_log drv')))"
proof -
  let ?st = "upd_drv d (\<lambda>_. drv') st"
  have d: "nl_drivers ?st ! d = drv'" using assms(3) by (simp add: upd_drv_def)
  obtain st' where st': "notify_all k (drop (length (nl_log (nl_drivers st ! d))) (nl_log drv')) d ?st = Some st'"
    "nl_skbs st' = Map.empty" "same_drivers ?st st'"
    "nl_out st' = nl_out st @ map (\<lambda>(cmd, as). answer_msg cmd None as drv')
      (List.map_filter (notify_of k) (drop (length (nl_log (nl_drivers st ! d))) (nl_log drv')))"
    using notify_all_out [of ?st k d] assms(1-3) d by auto
  then show ?thesis using assms(3,4) drv_core_other(1) [OF st'(3)] by (simp add: nl_fw_event_def)
qed

section \<open>Instances\<close>

definition sample_kernel :: nl_kernel where
  "sample_kernel = \<lparr>k_new = True, k_hdr = True, k_put = (\<lambda>_ _. 0), k_send = (\<lambda>_ _. 0), k_alloc = (\<lambda>_. True),
     k_ifname = (\<lambda>i. [116, 101, of_nat i]), k_ifindex = of_nat, k_vendor_version = 0x80000, k_gps = (\<lambda>_. (2, [7, 7]))\<rparr>"

definition sample_nl :: "u8 list list nlsdn" where
  "sample_nl = \<lparr>nl_drivers = [two_devs\<lparr>drv_macaddr := 5\<rparr>], nl_skbs = Map.empty, nl_next = 0, nl_out = [], tgd_dbg_enable_level = 0\<rparr>"

definition sample_info :: genl_info where
  "sample_info = \<lparr>snd_seq = 41, snd_portid = 7,
     attrs = [ATTR_RADIO_MACADDR \<mapsto> le_bytes 8 5, ATTR_VARDATA \<mapsto> [1, 2, 3]]\<rparr>"

text \<open>A kernel without memory and one where no attribute fits, and requests that meet them.\<close>

definition mixed_ops :: "(nl_kernel \<times> terra_env \<times> nl_op) list" where
  "mixed_ops = [(sample_kernel, sample_env, Request CMD_TGINIT sample_info),
     (sample_kernel\<lparr>k_new := False\<rparr>, sample_env, Request CMD_PASSTHRU_SB sample_info),
     (sample_kernel\<lparr>k_put := (\<lambda>_ _. - EMSGSIZE)\<rparr>, sample_env, Updown 0 1),
     (sample_kernel, sample_env, Notice 0 (Nl_bmfmconfig 4))]"

lemma sample_fits: "gps_fits k" if "k_gps k = (\<lambda>_. (2, [7, 7]))" for k
  using that by (simp add: gps_fits_def)

lemma mixed_op_ok: "\<forall>(k, env, op) \<in> set mixed_ops. op_ok (length (nl_drivers sample_nl)) k op"
  by (auto simp: mixed_ops_def op_ok_def sample_nl_def sample_kernel_def intro!: sample_fits)

lemma sample_nl_ok: "nl_skbs sample_nl = Map.empty" "\<forall>drv \<in> set (nl_drivers sample_nl). table_ok drv"
  using terra_reach_table_ok [OF two_devs_reach] by (simp_all add: sample_nl_def table_ok_def)

theorem nl_messages_accounted_witness:
  "\<exists>st'. nl_run sample_ops mixed_ops sample_nl = Some st' \<and> nl_skbs st' = Map.empty \<and> length (nl_drivers st') = 1"
  using nl_messages_accounted [OF sample_nl_ok mixed_op_ok, of sample_ops] by (auto simp: sample_nl_def)

theorem nl_request_forwarded_witness:
  "\<exists>st'. genl_rcv sample_kernel sample_ops sample_env CMD_PASSTHRU_SB sample_info sample_nl = Some (0, st') \<and>
     nl_out st' = [(Unicast 7, \<lparr>nlh_seq = 42, nlh_cmd = CMD_PASSTHRU_SB,
       nlh_attrs = [(ATTR_SUCCESS, [1]), (ATTR_RADIO_MACADDR, le_bytes 8 5)]\<rparr>)]"
proof -
  have v: "attrs_valid sample_info"
    by (simp add: attrs_valid_def attr_enum_def sample_info_def attr_minlens) (simp add: attr_minlen_def attr_enum_def tgd_nlsdn_policy_def nla_minlen_def)
  have d: "tgd_nl_get_fb_drv sample_info sample_nl = Some 0"
    by (simp add: tgd_nl_get_fb_drv_def sample_info_def sample_nl_def tgd_find_fb_drv_def nla_get_u64_def take_le_bytes le_val_le_bytes)
  have data: "attrs sample_info ATTR_VARDATA = Some [1, 2, 3]" by (simp add: sample_info_def)
  have room: "nl_room sample_kernel" "k_alloc sample_kernel 0" by (simp_all add: nl_room_def sample_kernel_def)
  have "sb_ioctl sample_ops sample_env req drv = (0, drv\<lparr>bh_ctx := bh_ctx drv\<rparr>)" for req and drv :: "u8 list list terra_driver"
    by (cases "bh_ctx drv") (simp_all add: sb_ioctl_def fb_tgd_bh_ioctl_def sample_ops_def sample_env_def rsp_errCode_def)
  then show ?thesis
    using nl_request_forwarded [OF sample_nl_ok(1) v d data _ room, of CMD_PASSTHRU_SB 107 1024 sample_ops sample_env]
    by (auto simp: sample_info_def sample_nl_def answer_msg_def wants_answer_def subtype_def)
qed

definition first_stats :: stats_thread_data where
  "first_stats = \<lparr>queue_stats = replicate 16 zero_queue_stats,
     cumulative_stats = replicate 16 \<lparr>tot_arrived_bytes = 0, avg_arrived_bytes_per_ms = 8, tlast = \<lparr>tv_sec = 0, tv_nsec = 0\<rparr>\<rparr>\<rparr>"

definition busy_ops :: "u8 list list bh_ops" where
  "busy_ops = sample_ops\<lparr>op_link_stats := (\<lambda>i b. Some (zero_stats\<lparr>bytes_enqueued := 5000\<rparr>))\<rparr>"

definition second_clock :: "nat \<Rightarrow> timespec \<times> timespec" where
  "second_clock = (\<lambda>_. (\<lparr>tv_sec = 1, tv_nsec = 0\<rparr>, \<lparr>tv_sec = 1, tv_nsec = 0\<rparr>))"

lemma busy_rates:
  "link_rate busy_ops (bh_ctx one_up) (fst (second_clock 0)) (devs one_up ! 0) (cumulative_stats first_stats ! 0) \<le> 100"
  "link_rate busy_ops (bh_ctx one_up) (fst (second_clock (Suc 0))) (devs one_up ! Suc 0) (cumulative_stats first_stats ! Suc 0) \<le> 100"
  "since_last busy_ops (bh_ctx one_up) (devs one_up ! 0) (cumulative_stats first_stats ! 0) = 5000"
  "link_sta_addr (devs one_up ! 0) = peer9"
  by code_simp+

theorem queue_report_witness:
  "\<exists>d' drv'. queue_stats_thread_main 0xFFFFFFFFFFFFFFFF busy_ops sample_env second_clock first_stats one_up = Some (d', drv') \<and>
     dstMacAddr (queue_stats d' ! 0) = peer9 \<and> arrivalRate (queue_stats d' ! 0) \<noteq> 0 \<and> unat (arrivalRate (queue_stats d' ! 0)) \<le> 100"
proof -
  have two: "j = 0 \<or> j = Suc 0" if "j < min 16 (length (devs one_up))" for j using that one_up_devs(1) by auto
  have avg: "\<forall>j < min 16 (length (devs one_up)). avg_arrived_bytes_per_ms (cumulative_stats first_stats ! j) \<le> 100"
    by (auto dest!: two simp: first_stats_def)
  have rate: "\<forall>j < min 16 (length (devs one_up)).
      link_rate busy_ops (bh_ctx one_up) (fst (second_clock j)) (devs one_up ! j) (cumulative_stats first_stats ! j) \<le> 100"
    using two busy_rates(1,2) by blast
  have len: "length (queue_stats first_stats) = 16" "length (cumulative_stats first_stats) = 16" "devs one_up \<noteq> []"
    using one_up_devs(1) by (auto simp: first_stats_def)
  have z: "0 < min 16 (length (devs one_up))" using one_up_devs(1) by simp
  show ?thesis
    using queue_report [OF len terra_reach_table_ok [OF one_up_reach] _ _ _ avg rate, where ulong_max = "0xFFFFFFFFFFFFFFFF" and env = sample_env]
      z one_up_devs(4) busy_rates(3,4) by (fastforce simp: Let_def)
qed

end
