(* ===== verification/QueueMgr.thy ===== *)
theory QueueMgr
  imports Prelude
begin

text \<open>
  The message queue of the u-blox driver (\<open>ublox-mod/files/src/fb_tgd_queue_mgr.c\<close>): commands are
  copied to blocks of kernel memory, linked into a list of bounded length, and handed to a consumer
  that frees them.

  Blocks are named by their position in \<open>q_heap\<close>; a freed block is \<open>None\<close> there and its name is not
  used again. An access to a freed block, to a freed descriptor or through a NULL pointer is the
  value \<open>None\<close>. The spin lock makes each operation atomic. Log messages are left out.
\<close>

section \<open>Descriptor and blocks\<close>

abbreviation INIT_MAGIC :: u32 where "INIT_MAGIC \<equiv> 0xFE01DC23"

record t_list_q_data =
  data_len :: int
  priv_data :: u32
  block_magic :: u32
  data_bytes :: "u8 list"

record t_queue_desc =
  desc_magic :: u32
  num_entries :: int
  max_q_depth :: int
  dbg_mask :: u32
  q_list :: "nat list"

datatype q_handle = Q_null | Q_live t_queue_desc | Q_dead

record queue_mem =
  q_handle :: q_handle
  q_heap :: "t_list_q_data option list"

definition block_get :: "queue_mem \<Rightarrow> nat \<Rightarrow> t_list_q_data option" where
  "block_get m a = (if a < length (q_heap m) then q_heap m ! a else None)"

definition kfree :: "nat \<Rightarrow> queue_mem \<Rightarrow> queue_mem option" where
  "kfree a m = (if block_get m a = None then None else Some (m\<lparr>q_heap := (q_heap m)[a := None]\<rparr>))"

text \<open>The check every operation begins with: the descriptor, if it is there and has its magic.\<close>

definition valid_desc :: "queue_mem \<Rightarrow> t_queue_desc option option" where
  "valid_desc m = (case q_handle m of
     Q_null \<Rightarrow> Some None
   | Q_live d \<Rightarrow> Some (if desc_magic d = INIT_MAGIC then Some d else None)
   | Q_dead \<Rightarrow> None)"

section \<open>Operations\<close>

text \<open>\<open>alloc\<close> tells whether the allocation succeeds.\<close>

definition init_tgd_message_queue :: "bool \<Rightarrow> int \<Rightarrow> queue_mem \<Rightarrow> queue_mem" where
  "init_tgd_message_queue alloc q_len m =
     m\<lparr>q_handle := (if alloc
        then Q_live \<lparr>desc_magic = INIT_MAGIC, num_entries = 0, max_q_depth = q_len, dbg_mask = 0, q_list = []\<rparr>
        else Q_null)\<rparr>"

definition tgd_queue_add_entry :: "nat \<Rightarrow> queue_mem \<Rightarrow> (int \<times> queue_mem) option" where
  "tgd_queue_add_entry a m = do {
     h \<leftarrow> valid_desc m;
     (case h of
        None \<Rightarrow> Some (- 1, m)
      | Some d \<Rightarrow>
          if max_q_depth d \<le> num_entries d then Some (- 1, m)
          else Some (0, m\<lparr>q_handle := Q_live (d\<lparr>num_entries := num_entries d + 1, q_list := q_list d @ [a]\<rparr>)\<rparr>))
   }"

text \<open>The block that is detached, its length and its private data.\<close>

definition tgd_queue_get :: "queue_mem \<Rightarrow> (nat option \<times> int \<times> u32 \<times> queue_mem) option" where
  "tgd_queue_get m = do {
     h \<leftarrow> valid_desc m;
     (case h of
        None \<Rightarrow> Some (None, 0, 0, m)
      | Some d \<Rightarrow>
          (case q_list d of
             [] \<Rightarrow> Some (None, 0, 0, m)
           | a # as \<Rightarrow> do {
               b \<leftarrow> block_get m a;
               Some (Some a, data_len b, priv_data b,
                     m\<lparr>q_handle := Q_live (d\<lparr>q_list := as, num_entries := num_entries d - 1\<rparr>)\<rparr>)
             }))
   }"

definition tgd_queue_free_queue :: "nat option \<Rightarrow> queue_mem \<Rightarrow> queue_mem option" where
  "tgd_queue_free_queue cfg_data_p m =
     (case cfg_data_p of
        None \<Rightarrow> Some m
      | Some a \<Rightarrow>
          (case q_handle m of
             Q_live _ \<Rightarrow> do { b \<leftarrow> block_get m a; if block_magic b = INIT_MAGIC then kfree a m else Some m }
           | _ \<Rightarrow> None))"

fun free_all :: "nat list \<Rightarrow> queue_mem \<Rightarrow> queue_mem option" where
  "free_all [] m = Some m"
| "free_all (a # as) m = do { m \<leftarrow> kfree a m; free_all as m }"

definition tgd_queue_deinit_cleanup :: "queue_mem \<Rightarrow> (int \<times> queue_mem) option" where
  "tgd_queue_deinit_cleanup m = do {
     h \<leftarrow> valid_desc m;
     (case h of
        None \<Rightarrow> Some (- 1, m)
      | Some d \<Rightarrow> do { m \<leftarrow> free_all (q_list d) m; Some (0, m\<lparr>q_handle := Q_dead\<rparr>) })
   }"

definition tgd_queue_create_new_entry ::
  "bool \<Rightarrow> u8 list option \<Rightarrow> int \<Rightarrow> u32 \<Rightarrow> queue_mem \<Rightarrow> (int \<times> queue_mem) option" where
  "tgd_queue_create_new_entry alloc data d_len priv_d m = do {
     h \<leftarrow> valid_desc m;
     (case (h, data) of
        (Some _, Some bytes) \<Rightarrow>
          if \<not> alloc then Some (- 1, m)
          else do {
            src \<leftarrow> (if d_len < 0 then None else mem_read 0 (nat d_len) bytes);
            let m_ptr = length (q_heap m);
            let m = m\<lparr>q_heap := q_heap m @ [Some \<lparr>data_len = d_len, priv_data = priv_d,
                       block_magic = INIT_MAGIC, data_bytes = src\<rparr>]\<rparr>;
            (ret_value, m) \<leftarrow> tgd_queue_add_entry m_ptr m;
            if ret_value \<noteq> 0 then do { m \<leftarrow> kfree m_ptr m; Some (- 1, m) } else Some (0, m)
          }
      | _ \<Rightarrow> Some (- 1, m))
   }"

definition tgd_queue_set_dbg_lvl :: "u32 \<Rightarrow> queue_mem \<Rightarrow> queue_mem option" where
  "tgd_queue_set_dbg_lvl lvl m =
     (case q_handle m of Q_live d \<Rightarrow> Some (m\<lparr>q_handle := Q_live (d\<lparr>dbg_mask := lvl\<rparr>)\<rparr>) | _ \<Rightarrow> None)"

section \<open>Ownership\<close>

text \<open>The blocks that are allocated are those in the queue and those the consumer holds.\<close>

definition block_ok :: "t_list_q_data \<Rightarrow> bool" where
  "block_ok b \<longleftrightarrow> block_magic b = INIT_MAGIC \<and> data_len b = int (length (data_bytes b))"

definition queue_ok :: "nat list \<Rightarrow> queue_mem \<Rightarrow> bool" where
  "queue_ok own m \<longleftrightarrow>
     (case q_handle m of
        Q_live d \<Rightarrow> desc_magic d = INIT_MAGIC \<and> num_entries d = int (length (q_list d)) \<and>
          num_entries d \<le> max_q_depth d \<and> distinct (q_list d @ own) \<and>
          set (q_list d @ own) = {a. block_get m a \<noteq> None} \<and>
          (\<forall>a b. block_get m a = Some b \<longrightarrow> block_ok b)
      | _ \<Rightarrow> False)"

definition desc_of :: "queue_mem \<Rightarrow> t_queue_desc" where
  "desc_of m = (case q_handle m of Q_live d \<Rightarrow> d | _ \<Rightarrow> \<lparr>desc_magic = 0, num_entries = 0, max_q_depth = 0,
                                                   dbg_mask = 0, q_list = []\<rparr>)"

definition entry_of :: "queue_mem \<Rightarrow> nat \<Rightarrow> u8 list \<times> u32" where
  "entry_of m a = (case block_get m a of Some b \<Rightarrow> (data_bytes b, priv_data b) | None \<Rightarrow> ([], 0))"

definition entries :: "queue_mem \<Rightarrow> (u8 list \<times> u32) list" where
  "entries m = map (entry_of m) (q_list (desc_of m))"

lemma queue_okE:
  assumes "queue_ok own m"
  obtains d where "q_handle m = Q_live d" "desc_of m = d" "valid_desc m = Some (Some d)"
    "desc_magic d = INIT_MAGIC" "num_entries d = int (length (q_list d))" "num_entries d \<le> max_q_depth d"
    "distinct (q_list d @ own)" "set (q_list d @ own) = {a. block_get m a \<noteq> None}"
    "\<And>a b. block_get m a = Some b \<Longrightarrow> block_ok b"
  using assms by (auto simp: queue_ok_def desc_of_def valid_desc_def split: q_handle.splits)

lemma block_get_handle [simp]: "block_get (m\<lparr>q_handle := h\<rparr>) a = block_get m a"
  by (simp add: block_get_def)

lemma block_get_append:
  "block_get (m\<lparr>q_heap := q_heap m @ [Some b]\<rparr>) a = (if a = length (q_heap m) then Some b else block_get m a)"
  by (auto simp: block_get_def nth_append)

lemma block_get_free:
  "block_get (m\<lparr>q_heap := (q_heap m)[a := None]\<rparr>) c = (if c = a then None else block_get m c)"
  by (auto simp: block_get_def)

lemma block_fresh [simp]: "block_get m (length (q_heap m)) = None"
  by (simp add: block_get_def)

lemma entry_of_cong: "block_get m' a = block_get m a \<Longrightarrow> entry_of m' a = entry_of m a"
  by (simp add: entry_of_def)

text \<open>An accepted entry is appended; an entry that does not fit leaves no block behind.\<close>

lemma create_room:
  assumes "queue_ok own m" and "int (length (entries m)) < max_q_depth (desc_of m)"
  shows "\<exists>m'. tgd_queue_create_new_entry True (Some bs) (int (length bs)) p m = Some (0, m') \<and>
              queue_ok own m' \<and> entries m' = entries m @ [(bs, p)] \<and>
              max_q_depth (desc_of m') = max_q_depth (desc_of m) \<and> (\<forall>a \<in> set own. entry_of m' a = entry_of m a)"
proof -
  obtain d where d: "q_handle m = Q_live d" "desc_of m = d" "valid_desc m = Some (Some d)"
    "desc_magic d = INIT_MAGIC" "num_entries d = int (length (q_list d))" "num_entries d \<le> max_q_depth d"
    "distinct (q_list d @ own)" "set (q_list d @ own) = {a. block_get m a \<noteq> None}"
    "\<And>a b. block_get m a = Some b \<Longrightarrow> block_ok b"
    using queue_okE [OF assms(1)] by blast
  let ?a = "length (q_heap m)"
  let ?b = "\<lparr>data_len = int (length bs), priv_data = p, block_magic = INIT_MAGIC, data_bytes = bs\<rparr>"
  let ?d = "d\<lparr>num_entries := num_entries d + 1, q_list := q_list d @ [?a]\<rparr>"
  let ?m = "m\<lparr>q_heap := q_heap m @ [Some ?b], q_handle := Q_live ?d\<rparr>"
  have room: "num_entries d < max_q_depth d" using assms(2) d(2,5) by (simp add: entries_def)
  have fresh: "?a \<notin> set (q_list d @ own)" using d(8) by simp
  have old: "entry_of ?m c = entry_of m c" if "c \<in> set (q_list d @ own)" for c
    using that fresh by (intro entry_of_cong) (auto simp: block_get_append)
  have "tgd_queue_create_new_entry True (Some bs) (int (length bs)) p m = Some (0, ?m)"
    using d(1,3,4) room
    by (simp add: tgd_queue_create_new_entry_def tgd_queue_add_entry_def valid_desc_def mem_read_def Let_def)
  moreover have "queue_ok own ?m"
  proof -
    have "set (q_list ?d @ own) = {c. block_get ?m c \<noteq> None}" using d(8) by (auto simp: block_get_append)
    moreover have "block_ok b" if "block_get ?m c = Some b" for c b
      using that d(9) by (auto simp: block_get_append block_ok_def split: if_splits)
    ultimately show ?thesis
      using d(4,5,7) room fresh by (auto simp: queue_ok_def)
  qed
  moreover have "entries ?m = entries m @ [(bs, p)]"
    using old d(2) by (simp add: entries_def desc_of_def entry_of_def [of ?m ?a] block_get_append)
  ultimately show ?thesis using old d(2) by (auto simp: desc_of_def)
qed

lemma create_full:
  assumes "queue_ok own m" and "\<not> int (length (entries m)) < max_q_depth (desc_of m)"
  shows "\<exists>m'. tgd_queue_create_new_entry True (Some bs) (int (length bs)) p m = Some (- 1, m') \<and>
              queue_ok own m' \<and> entries m' = entries m \<and>
              max_q_depth (desc_of m') = max_q_depth (desc_of m) \<and> (\<forall>a \<in> set own. entry_of m' a = entry_of m a)"
proof -
  obtain d where d: "q_handle m = Q_live d" "desc_of m = d" "valid_desc m = Some (Some d)"
    "desc_magic d = INIT_MAGIC" "num_entries d = int (length (q_list d))" "num_entries d \<le> max_q_depth d"
    "distinct (q_list d @ own)" "set (q_list d @ own) = {a. block_get m a \<noteq> None}"
    "\<And>a b. block_get m a = Some b \<Longrightarrow> block_ok b"
    using queue_okE [OF assms(1)] by blast
  let ?m = "m\<lparr>q_heap := q_heap m @ [None]\<rparr>"
  have get: "block_get ?m c = block_get m c" for c by (auto simp: block_get_def nth_append)
  have full: "max_q_depth d \<le> num_entries d" using assms(2) d(2,5) by (simp add: entries_def)
  have "tgd_queue_create_new_entry True (Some bs) (int (length bs)) p m = Some (- 1, ?m)"
    using d(1,3,4) full
    by (simp add: tgd_queue_create_new_entry_def tgd_queue_add_entry_def valid_desc_def mem_read_def
        kfree_def block_get_append Let_def)
  moreover have "queue_ok own ?m" using assms(1) d(1) by (simp add: queue_ok_def get)
  moreover have "entry_of ?m = entry_of m" by (simp add: fun_eq_iff entry_of_def get)
  ultimately show ?thesis by (simp add: entries_def desc_of_def)
qed

text \<open>The oldest entry is detached and belongs to the consumer.\<close>

lemma get_Nil: "queue_ok own m \<Longrightarrow> entries m = [] \<Longrightarrow> tgd_queue_get m = Some (None, 0, 0, m)"
  by (erule queue_okE) (simp add: tgd_queue_get_def entries_def)

lemma get_Cons:
  assumes "queue_ok own m" and "entries m = (bs, p) # es"
  shows "\<exists>a m'. tgd_queue_get m = Some (Some a, int (length bs), p, m') \<and> queue_ok (a # own) m' \<and>
                entries m' = es \<and> entry_of m' a = (bs, p) \<and>
                max_q_depth (desc_of m') = max_q_depth (desc_of m) \<and> (\<forall>c \<in> set own. entry_of m' c = entry_of m c)"
proof -
  obtain d where d: "q_handle m = Q_live d" "desc_of m = d" "valid_desc m = Some (Some d)"
    "desc_magic d = INIT_MAGIC" "num_entries d = int (length (q_list d))" "num_entries d \<le> max_q_depth d"
    "distinct (q_list d @ own)" "set (q_list d @ own) = {a. block_get m a \<noteq> None}"
    "\<And>a b. block_get m a = Some b \<Longrightarrow> block_ok b"
    using queue_okE [OF assms(1)] by blast
  obtain a as where as: "q_list d = a # as" "entry_of m a = (bs, p)" "map (entry_of m) as = es"
    using assms(2) d(2) by (auto simp: entries_def)
  have "a \<in> {a. block_get m a \<noteq> None}" using d(8) as(1) by auto
  then obtain b where b: "block_get m a = Some b" by auto
  let ?d = "d\<lparr>q_list := as, num_entries := num_entries d - 1\<rparr>"
  let ?m = "m\<lparr>q_handle := Q_live ?d\<rparr>"
  have e: "entry_of ?m = entry_of m" by (simp add: fun_eq_iff entry_of_def)
  have "data_len b = int (length bs)" "priv_data b = p"
    using as(2) b d(9) [OF b] by (simp_all add: entry_of_def block_ok_def)
  then have "tgd_queue_get m = Some (Some a, int (length bs), p, ?m)"
    using d(3) as(1) b by (simp add: tgd_queue_get_def)
  moreover have "set (q_list ?d @ a # own) = {c. block_get ?m c \<noteq> None}" using d(8) as(1) by auto
  then have "queue_ok (a # own) ?m"
    using d(4-7,9) as(1) by (auto simp: queue_ok_def)
  ultimately show ?thesis using as e d(2) by (auto simp: entries_def desc_of_def)
qed

lemma free_owned:
  assumes "queue_ok (own1 @ a # own2) m"
  shows "\<exists>m'. tgd_queue_free_queue (Some a) m = Some m' \<and> queue_ok (own1 @ own2) m' \<and> entries m' = entries m \<and>
              max_q_depth (desc_of m') = max_q_depth (desc_of m) \<and>
              (\<forall>c \<in> set (own1 @ own2). entry_of m' c = entry_of m c)"
proof -
  obtain d where d: "q_handle m = Q_live d" "desc_of m = d" "valid_desc m = Some (Some d)"
    "desc_magic d = INIT_MAGIC" "num_entries d = int (length (q_list d))" "num_entries d \<le> max_q_depth d"
    "distinct (q_list d @ own1 @ a # own2)" "set (q_list d @ own1 @ a # own2) = {a. block_get m a \<noteq> None}"
    "\<And>a b. block_get m a = Some b \<Longrightarrow> block_ok b"
    using queue_okE [OF assms] by blast
  have "a \<in> {a. block_get m a \<noteq> None}" using d(8) by auto
  then obtain b where b: "block_get m a = Some b" by auto
  let ?m = "m\<lparr>q_heap := (q_heap m)[a := None]\<rparr>"
  have "tgd_queue_free_queue (Some a) m = Some ?m"
    using d(1) d(9) [OF b] b by (simp add: tgd_queue_free_queue_def kfree_def block_ok_def)
  moreover have "set (q_list d @ own1 @ own2) = {c. block_get ?m c \<noteq> None}"
    using d(7,8) by (auto simp: block_get_free)
  then have "queue_ok (own1 @ own2) ?m"
    using d by (auto simp: queue_ok_def block_get_free split: if_splits)
  moreover have "entry_of ?m c = entry_of m c" if "c \<in> set (q_list d @ own1 @ own2)" for c
    using that d(7) by (intro entry_of_cong) (auto simp: block_get_free)
  ultimately show ?thesis using d(1,2) by (auto simp: entries_def desc_of_def)
qed


lemma create_no_memory:
  assumes "queue_ok own m"
  shows "tgd_queue_create_new_entry False (Some bs) n p m = Some (- 1, m)"
  using assms by (auto elim!: queue_okE simp: tgd_queue_create_new_entry_def)

lemma dbg_lvl_ok:
  assumes "queue_ok own m"
  shows "\<exists>m'. tgd_queue_set_dbg_lvl lvl m = Some m' \<and> queue_ok own m' \<and> entries m' = entries m \<and>
              max_q_depth (desc_of m') = max_q_depth (desc_of m) \<and> (\<forall>a. entry_of m' a = entry_of m a)"
  using assms
  by (cases "q_handle m")
    (auto simp: tgd_queue_set_dbg_lvl_def queue_ok_def entries_def desc_of_def entry_of_def)

lemma init_ok:
  assumes "\<And>a. block_get m a = None" and "0 \<le> q_len"
  shows "queue_ok [] (init_tgd_message_queue True q_len m)"
    and "entries (init_tgd_message_queue True q_len m) = []"
    and "max_q_depth (desc_of (init_tgd_message_queue True q_len m)) = q_len"
  using assms by (auto simp: init_tgd_message_queue_def queue_ok_def entries_def desc_of_def)

text \<open>Freeing a list of distinct allocated blocks frees these and no other.\<close>

lemma free_all_ok:
  assumes "distinct as" and "\<forall>a \<in> set as. block_get m a \<noteq> None"
  shows "\<exists>m'. free_all as m = Some m' \<and> q_handle m' = q_handle m \<and>
              (\<forall>c. block_get m' c = (if c \<in> set as then None else block_get m c))"
  using assms
proof (induction as arbitrary: m)
  case (Cons a as)
  let ?m = "m\<lparr>q_heap := (q_heap m)[a := None]\<rparr>"
  have k: "kfree a m = Some ?m" using Cons.prems by (simp add: kfree_def)
  have "\<forall>c \<in> set as. block_get ?m c \<noteq> None" using Cons.prems by (auto simp: block_get_free)
  then obtain m' where "free_all as ?m = Some m'" "q_handle m' = q_handle ?m"
    "\<forall>c. block_get m' c = (if c \<in> set as then None else block_get ?m c)"
    using Cons.IH [of ?m] Cons.prems(1) by auto
  with k show ?case by (auto simp: block_get_free)
qed simp

lemma deinit_ok:
  assumes "queue_ok own m"
  shows "\<exists>m'. tgd_queue_deinit_cleanup m = Some (0, m') \<and> q_handle m' = Q_dead \<and>
              {a. block_get m' a \<noteq> None} = set own"
proof -
  obtain d where d: "valid_desc m = Some (Some d)" "distinct (q_list d @ own)"
    "set (q_list d @ own) = {a. block_get m a \<noteq> None}"
    using queue_okE [OF assms] by blast
  have "\<forall>a \<in> set (q_list d). block_get m a \<noteq> None" using d(3) by auto
  then obtain m' where "free_all (q_list d) m = Some m'"
    and g: "\<forall>c. block_get m' c = (if c \<in> set (q_list d) then None else block_get m c)"
    using free_all_ok d(2) by (metis distinct_append)
  moreover have "{a. block_get m' a \<noteq> None} = set own"
    using d(2,3) g by (auto split: if_splits)
  ultimately show ?thesis using d(1) by (simp add: tgd_queue_deinit_cleanup_def)
qed

section \<open>The contract of a bounded queue\<close>

text \<open>
  What a user of the queue relies on: an entry that finds room is appended, one that does not is
  refused and changes nothing, and entries are taken from the front. \<open>fifo_run\<close> is the list
  specification; \<open>bq_run\<close> runs the same calls on an implementation.
\<close>

datatype 'a bq_op = Put 'a | Take
datatype 'a bq_out = Accepted bool | Taken "'a option"

fun fifo_run :: "int \<Rightarrow> 'a bq_op list \<Rightarrow> 'a list \<Rightarrow> 'a bq_out list \<times> 'a list" where
  "fifo_run cap [] xs = ([], xs)"
| "fifo_run cap (Put x # ops) xs =
     (if int (length xs) < cap
      then (let (outs, ys) = fifo_run cap ops (xs @ [x]) in (Accepted True # outs, ys))
      else (let (outs, ys) = fifo_run cap ops xs in (Accepted False # outs, ys)))"
| "fifo_run cap (Take # ops) xs =
     (case xs of
        [] \<Rightarrow> (let (outs, ys) = fifo_run cap ops [] in (Taken None # outs, ys))
      | x # xs' \<Rightarrow> (let (outs, ys) = fifo_run cap ops xs' in (Taken (Some x) # outs, ys)))"

fun bq_run :: "('a \<Rightarrow> 's \<Rightarrow> (bool \<times> 's) option) \<Rightarrow> ('s \<Rightarrow> ('a option \<times> 's) option) \<Rightarrow>
    'a bq_op list \<Rightarrow> 's \<Rightarrow> ('a bq_out list \<times> 's) option" where
  "bq_run put take1 [] s = Some ([], s)"
| "bq_run put take1 (Put x # ops) s = do {
     (ok, s) \<leftarrow> put x s;
     (outs, s) \<leftarrow> bq_run put take1 ops s;
     Some (Accepted ok # outs, s) }"
| "bq_run put take1 (Take # ops) s = do {
     (x, s) \<leftarrow> take1 s;
     (outs, s) \<leftarrow> bq_run put take1 ops s;
     Some (Taken x # outs, s) }"

locale bounded_queue =
  fixes inv :: "'s \<Rightarrow> bool"
    and items :: "'s \<Rightarrow> 'a list"
    and cap :: "'s \<Rightarrow> int"
    and put :: "'a \<Rightarrow> 's \<Rightarrow> (bool \<times> 's) option"
    and take1 :: "'s \<Rightarrow> ('a option \<times> 's) option"
  assumes put_room: "inv s \<Longrightarrow> int (length (items s)) < cap s \<Longrightarrow>
      \<exists>s'. put x s = Some (True, s') \<and> inv s' \<and> items s' = items s @ [x] \<and> cap s' = cap s"
    and put_full: "inv s \<Longrightarrow> \<not> int (length (items s)) < cap s \<Longrightarrow>
      \<exists>s'. put x s = Some (False, s') \<and> inv s' \<and> items s' = items s \<and> cap s' = cap s"
    and take_Nil: "inv s \<Longrightarrow> items s = [] \<Longrightarrow> take1 s = Some (None, s)"
    and take_Cons: "inv s \<Longrightarrow> items s = x # xs \<Longrightarrow>
      \<exists>s'. take1 s = Some (Some x, s') \<and> inv s' \<and> items s' = xs \<and> cap s' = cap s"
begin

lemma run_refines:
  assumes "inv s"
  shows "\<exists>outs s'. bq_run put take1 ops s = Some (outs, s') \<and> inv s' \<and> cap s' = cap s \<and>
                   fifo_run (cap s) ops (items s) = (outs, items s')"
  using assms
proof (induction ops arbitrary: s)
  case (Cons op ops)
  show ?case
  proof (cases op)
    case (Put x)
    show ?thesis
    proof (cases "int (length (items s)) < cap s")
      case True
      then obtain s' where "put x s = Some (True, s')" "inv s'" "items s' = items s @ [x]" "cap s' = cap s"
        using put_room Cons.prems by blast
      with Cons.IH [of s'] True Put show ?thesis by auto
    next
      case False
      then obtain s' where "put x s = Some (False, s')" "inv s'" "items s' = items s" "cap s' = cap s"
        using put_full Cons.prems by blast
      with Cons.IH [of s'] False Put show ?thesis by auto
    qed
  next
    case Take
    show ?thesis
    proof (cases "items s")
      case Nil
      with take_Nil Cons.prems Cons.IH [of s] Take show ?thesis by auto
    next
      case (Cons x xs)
      then obtain s' where "take1 s = Some (Some x, s')" "inv s'" "items s' = xs" "cap s' = cap s"
        using take_Cons \<open>inv s\<close> by blast
      with \<open>\<And>s. inv s \<Longrightarrow> _\<close> [of s'] Cons Take show ?thesis by auto
    qed
  qed
qed simp

end

text \<open>The calls of the driver: an entry is created from a buffer, and one that is got is used and freed.\<close>

definition q_put :: "u8 list \<times> u32 \<Rightarrow> queue_mem \<Rightarrow> (bool \<times> queue_mem) option" where
  "q_put e m = do {
     (r, m) \<leftarrow> tgd_queue_create_new_entry True (Some (fst e)) (int (length (fst e))) (snd e) m;
     Some (r = 0, m) }"

definition q_take :: "queue_mem \<Rightarrow> ((u8 list \<times> u32) option \<times> queue_mem) option" where
  "q_take m = do {
     (p, len, priv, m) \<leftarrow> tgd_queue_get m;
     (case p of
        None \<Rightarrow> Some (None, m)
      | Some a \<Rightarrow> do {
          b \<leftarrow> block_get m a;
          bs \<leftarrow> mem_read 0 (nat len) (data_bytes b);
          m \<leftarrow> tgd_queue_free_queue (Some a) m;
          Some (Some (bs, priv), m) }) }"

lemma owned_live: "queue_ok own m \<Longrightarrow> a \<in> set own \<Longrightarrow> \<exists>b. block_get m a = Some b"
  by (auto simp: queue_ok_def split: q_handle.splits)

lemma q_take_Cons:
  assumes "queue_ok own m" and "entries m = (bs, p) # es"
  shows "\<exists>m'. q_take m = Some (Some (bs, p), m') \<and> queue_ok own m' \<and> entries m' = es \<and>
              max_q_depth (desc_of m') = max_q_depth (desc_of m)"
proof -
  obtain a m1 where g: "tgd_queue_get m = Some (Some a, int (length bs), p, m1)" "queue_ok (a # own) m1"
    "entries m1 = es" "entry_of m1 a = (bs, p)" "max_q_depth (desc_of m1) = max_q_depth (desc_of m)"
    using get_Cons [OF assms] by auto
  obtain b where b: "block_get m1 a = Some b" "data_bytes b = bs"
    using owned_live [OF g(2), of a] g(4) by (auto simp: entry_of_def)
  obtain m2 where "tgd_queue_free_queue (Some a) m1 = Some m2" "queue_ok own m2" "entries m2 = entries m1"
    "max_q_depth (desc_of m2) = max_q_depth (desc_of m1)"
    using free_owned [of "[]" a own m1] g(2) by auto
  with g b show ?thesis by (simp add: q_take_def mem_read_def)
qed

interpretation msgq: bounded_queue "queue_ok own" entries "\<lambda>m. max_q_depth (desc_of m)" q_put q_take
proof
  show "\<exists>s'. q_put x s = Some (True, s') \<and> queue_ok own s' \<and> entries s' = entries s @ [x] \<and>
             max_q_depth (desc_of s') = max_q_depth (desc_of s)"
    if "queue_ok own s" "int (length (entries s)) < max_q_depth (desc_of s)" for s x
    using create_room [OF that, of "fst x" "snd x"] by (auto simp: q_put_def)
  show "\<exists>s'. q_put x s = Some (False, s') \<and> queue_ok own s' \<and> entries s' = entries s \<and>
             max_q_depth (desc_of s') = max_q_depth (desc_of s)"
    if "queue_ok own s" "\<not> int (length (entries s)) < max_q_depth (desc_of s)" for s x
    using create_full [OF that, of "fst x" "snd x"] by (auto simp: q_put_def)
  show "q_take s = Some (None, s)" if "queue_ok own s" "entries s = []" for s
    using get_Nil [OF that] by (simp add: q_take_def)
  show "\<exists>s'. q_take s = Some (Some x, s') \<and> queue_ok own s' \<and> entries s' = xs \<and>
             max_q_depth (desc_of s') = max_q_depth (desc_of s)"
    if "queue_ok own s" "entries s = x # xs" for s x xs
    using q_take_Cons [of own s "fst x" "snd x" xs] that by simp
qed

section \<open>The queue is a bounded FIFO and does not leak\<close>

text \<open>
  C19. For a queue that was initialised with depth \<open>q_len\<close>, any sequence of entries created and
  entries taken and freed runs without a fault and gives the answers of a FIFO list of at most
  \<open>q_len\<close> entries: the bytes and the private data of each entry come out unchanged, in order, and an
  entry is refused exactly when \<open>q_len\<close> entries wait.
\<close>

theorem queue_refines_fifo:
  assumes "0 \<le> q_len"
  shows "\<exists>outs m'. bq_run q_put q_take ops (init_tgd_message_queue True q_len \<lparr>q_handle = Q_null, q_heap = []\<rparr>) =
                     Some (outs, m') \<and>
                   fifo_run q_len ops [] = (outs, entries m')"
proof -
  let ?m = "init_tgd_message_queue True q_len \<lparr>q_handle = Q_null, q_heap = []\<rparr>"
  have "block_get \<lparr>q_handle = Q_null, q_heap = []\<rparr> a = None" for a by (simp add: block_get_def)
  note i = init_ok [OF this assms]
  show ?thesis using msgq.run_refines [OF i(1), of ops] by (auto simp: i(2,3))
qed

theorem queue_refines_fifo_witness:
  "(0 :: int) \<le> 1 \<and>
   (\<exists>outs m'. bq_run q_put q_take [Put ([0xB5], 7), Put ([0x62], 8), Take]
                (init_tgd_message_queue True 1 \<lparr>q_handle = Q_null, q_heap = []\<rparr>) = Some (outs, m') \<and>
              fifo_run 1 [Put ([0xB5], 7), Put ([0x62], 8), Take] [] = (outs, entries m')) \<and>
   fst (fifo_run 1 [Put ([0xB5 :: u8], 7 :: u32), Put ([0x62], 8), Take] []) =
     [Accepted True, Accepted False, Taken (Some ([0xB5], 7))]"
  using queue_refines_fifo [of 1 "[Put ([0xB5], 7), Put ([0x62], 8), Take]"] by simp

text \<open>A user of the queue that may hold entries, and memory that may run out.\<close>

datatype q_op = Q_add bool "u8 list" u32 | Q_get | Q_free nat | Q_dbg u32

definition q_step :: "q_op \<Rightarrow> nat list \<times> queue_mem \<Rightarrow> (nat list \<times> queue_mem) option" where
  "q_step op s = (case s of (own, m) \<Rightarrow> (case op of
     Q_add alloc bs p \<Rightarrow> do {
       (r, m) \<leftarrow> tgd_queue_create_new_entry alloc (Some bs) (int (length bs)) p m; Some (own, m) }
   | Q_get \<Rightarrow> do {
       (a, len, p, m) \<leftarrow> tgd_queue_get m;
       Some (case a of None \<Rightarrow> own | Some a \<Rightarrow> a # own, m) }
   | Q_free i \<Rightarrow>
       if i < length own
       then do { m \<leftarrow> tgd_queue_free_queue (Some (own ! i)) m; Some (take i own @ drop (Suc i) own, m) }
       else Some (own, m)
   | Q_dbg lvl \<Rightarrow> do { m \<leftarrow> tgd_queue_set_dbg_lvl lvl m; Some (own, m) }))"

fun q_steps :: "q_op list \<Rightarrow> nat list \<times> queue_mem \<Rightarrow> (nat list \<times> queue_mem) option" where
  "q_steps [] s = Some s"
| "q_steps (op # ops) s = do { s \<leftarrow> q_step op s; q_steps ops s }"

lemma q_step_ok:
  assumes "queue_ok own m"
  shows "\<exists>own' m'. q_step op (own, m) = Some (own', m') \<and> queue_ok own' m'"
proof (cases op)
  case (Q_add alloc bs p)
  have "\<exists>r m'. tgd_queue_create_new_entry alloc (Some bs) (int (length bs)) p m = Some (r, m') \<and> queue_ok own m'"
    using create_room [OF assms, of bs p] create_full [OF assms, of bs p] create_no_memory [OF assms, of bs "int (length bs)" p] assms
    by (cases alloc; cases "int (length (entries m)) < max_q_depth (desc_of m)") auto
  with Q_add show ?thesis by (auto simp: q_step_def)
next
  case Q_get
  show ?thesis
  proof (cases "entries m")
    case Nil
    with get_Nil [OF assms] Q_get assms show ?thesis by (simp add: q_step_def)
  next
    case (Cons e es)
    with get_Cons [OF assms, of "fst e" "snd e" es] Q_get show ?thesis by (auto simp: q_step_def)
  qed
next
  case (Q_free i)
  with free_owned [of "take i own" "own ! i" "drop (Suc i) own" m] assms show ?thesis
    by (auto simp: q_step_def id_take_nth_drop [symmetric])
next
  case (Q_dbg lvl)
  with dbg_lvl_ok [OF assms, of lvl] show ?thesis by (auto simp: q_step_def)
qed

lemma q_steps_ok:
  "queue_ok own m \<Longrightarrow> \<exists>own' m'. q_steps ops (own, m) = Some (own', m') \<and> queue_ok own' m'"
proof (induction ops arbitrary: own m)
  case (Cons op ops)
  then obtain own1 m1 where "q_step op (own, m) = Some (own1, m1)" "queue_ok own1 m1"
    using q_step_ok by blast
  with Cons.IH [of own1 m1] show ?case by simp
qed simp

text \<open>
  From the initialised queue, whatever its user does, entries that are created, got and held, each
  freed at most once, with allocations that may fail, no freed block is touched; and at the end
  \<open>tgd_queue_deinit_cleanup\<close> succeeds and leaves allocated just the blocks the user still holds.
\<close>

theorem queue_no_leak:
  assumes "0 \<le> q_len"
  shows "\<exists>own m m'. q_steps ops ([], init_tgd_message_queue True q_len \<lparr>q_handle = Q_null, q_heap = []\<rparr>) = Some (own, m) \<and>
                    tgd_queue_deinit_cleanup m = Some (0, m') \<and> q_handle m' = Q_dead \<and>
                    {a. block_get m' a \<noteq> None} = set own"
proof -
  have "block_get \<lparr>q_handle = Q_null, q_heap = []\<rparr> a = None" for a by (simp add: block_get_def)
  note i = init_ok(1) [OF this assms]
  obtain own m where "q_steps ops ([], init_tgd_message_queue True q_len \<lparr>q_handle = Q_null, q_heap = []\<rparr>) = Some (own, m)"
    "queue_ok own m" using q_steps_ok [OF i] by blast
  with deinit_ok show ?thesis by blast
qed

theorem queue_no_leak_witness:
  "(0 :: int) \<le> 1 \<and>
   (\<exists>own m m'. q_steps [Q_add True [1, 2] 5, Q_add True [3] 6, Q_get, Q_add True [4] 7]
                 ([], init_tgd_message_queue True 1 \<lparr>q_handle = Q_null, q_heap = []\<rparr>) = Some (own, m) \<and>
               tgd_queue_deinit_cleanup m = Some (0, m') \<and> q_handle m' = Q_dead \<and>
               {a. block_get m' a \<noteq> None} = set own)"
  using queue_no_leak [of 1 "[Q_add True [1, 2] 5, Q_add True [3] 6, Q_get, Q_add True [4] 7]"] by simp
end
