(* ===== verification/UbloxI2c.thy ===== *)
theory UbloxI2c
  imports QueueMgr
begin

text \<open>
  The I2C transport of the u-blox driver (\<open>ublox-mod/files/src/fb_tgd_ublox_gps.c\<close>): sending a
  message, and reading what the device has waiting in pieces of at most eight bytes.

  The I2C core is not part of the repository: its three calls are the fields of \<open>i2c_ops\<close>, with the
  state of the bus as their argument and result. \<open>i2c_ok\<close> states the documented behaviour of
  \<open>i2c_master_recv\<close>: a negative error, or the number of bytes read, at most as many as were asked for.
  The counters are unsigned and wrap. Log messages are left out.
\<close>

section \<open>Transport\<close>

abbreviation UBLOX_I2C_DATA_LEN_REG :: u8 where "UBLOX_I2C_DATA_LEN_REG \<equiv> 0xFD"
abbreviation MRVL_I2C_OFFLOAD_THR :: nat where "MRVL_I2C_OFFLOAD_THR \<equiv> 8"

record 'd i2c_ops =
  i2c_smbus_read_word_data :: "u8 \<Rightarrow> 'd \<Rightarrow> int \<times> 'd"
  i2c_master_recv :: "nat \<Rightarrow> 'd \<Rightarrow> int \<times> u8 list \<times> 'd"
  i2c_master_send :: "u8 list \<Rightarrow> 'd \<Rightarrow> int \<times> 'd"

definition i2c_ok :: "'d i2c_ops \<Rightarrow> bool" where
  "i2c_ok ops \<longleftrightarrow> (\<forall>n d. case i2c_master_recv ops n d of (r, bs, d') \<Rightarrow>
     r \<le> int n \<and> length bs = nat r)"

record tgd_i2c_if_stat =
  rx_fifo_empty_count :: u32
  rx_len_zero_count :: u32
  rx_len_truncated_count :: u32
  rx_poll_count :: u32
  rx_pkt_count :: u32
  rx_loop_break_count :: u32
  rx_error_count :: u32
  tx_byte_count :: u32
  tx_pkt_count :: u32
  tx_error_count :: u32

record 'd tgd_ublox_gps_prv_data =
  client :: 'd
  i2c_stats :: tgd_i2c_if_stat

definition ublox_i2c_send ::
  "'d i2c_ops \<Rightarrow> u8 list \<Rightarrow> 'd tgd_ublox_gps_prv_data \<Rightarrow> int \<times> 'd tgd_ublox_gps_prv_data" where
  "ublox_i2c_send ops tx_msg prv =
     (let (ret_stat, d) = i2c_master_send ops tx_msg (client prv); prv = prv\<lparr>client := d\<rparr>; st = i2c_stats prv in
      if ret_stat < 0 then (- 1, prv\<lparr>i2c_stats := st\<lparr>tx_error_count := tx_error_count st + 1\<rparr>\<rparr>)
      else (0, prv\<lparr>i2c_stats := st\<lparr>tx_byte_count := tx_byte_count st + of_nat (length tx_msg),
                                   tx_pkt_count := tx_pkt_count st + 1\<rparr>\<rparr>))"

text \<open>The length register is read with its two bytes exchanged.\<close>

definition tgd_ublox_dev_data_len :: "'d i2c_ops \<Rightarrow> 'd \<Rightarrow> int \<times> 'd" where
  "tgd_ublox_dev_data_len ops d =
     (let (gps_buflen, d) = i2c_smbus_read_word_data ops UBLOX_I2C_DATA_LEN_REG d in
      if gps_buflen < 0 then (0, d)
      else ((gps_buflen * 256) mod 65536 + (gps_buflen div 256) mod 256, d))"

text \<open>
  The pieces after the first byte; \<open>buf_at\<close> is the position of the caller's pointer in the buffer. The
  last component of the result tells whether the loop ended without an error.
\<close>

function rx_pieces :: "'d i2c_ops \<Rightarrow> nat \<Rightarrow> nat \<Rightarrow> nat \<Rightarrow> 'd \<Rightarrow> u8 list \<Rightarrow> (nat \<times> 'd \<times> u8 list \<times> bool) option" where
  "rx_pieces ops buf_at gps_buf_size rx_count d buf =
     (let rd_req_size = (if MRVL_I2C_OFFLOAD_THR \<le> gps_buf_size - rx_count then MRVL_I2C_OFFLOAD_THR
                         else gps_buf_size - rx_count);
          (buf_size, bs, d) = i2c_master_recv ops rd_req_size d in
      do {
        buf \<leftarrow> mem_write (buf_at + rx_count) bs buf;
        if buf_size \<noteq> int rd_req_size then Some (rx_count, d, buf, False)
        else if rx_count + rd_req_size < gps_buf_size
          then rx_pieces ops buf_at gps_buf_size (rx_count + rd_req_size) d buf
          else Some (rx_count + rd_req_size, d, buf, True)
      })"
  by pat_completeness auto
termination
  by (relation "measure (\<lambda>(ops, buf_at, gps_buf_size, rx_count, d, buf). gps_buf_size - rx_count)") auto

declare rx_pieces.simps [simp del]

definition ublox_i2c_receive ::
  "'d i2c_ops \<Rightarrow> nat \<Rightarrow> nat \<Rightarrow> 'd tgd_ublox_gps_prv_data \<Rightarrow> u8 list \<Rightarrow>
     (int \<times> 'd tgd_ublox_gps_prv_data \<times> u8 list) option" where
  "ublox_i2c_receive ops buf_at buf_max_size prv buf =
     (let st = i2c_stats prv; st = st\<lparr>rx_poll_count := rx_poll_count st + 1\<rparr>;
          (gps_buf_size, d) = tgd_ublox_dev_data_len ops (client prv) in
      if gps_buf_size \<le> 0 then
        Some (0, \<lparr>client = d, i2c_stats = st\<lparr>rx_len_zero_count := rx_len_zero_count st + 1\<rparr>\<rparr>, buf)
      else
        let st = (if int buf_max_size < gps_buf_size
                  then st\<lparr>rx_len_truncated_count := rx_len_truncated_count st + 1\<rparr> else st);
            size = (if int buf_max_size < gps_buf_size then buf_max_size else nat gps_buf_size) in
        do {
          buf \<leftarrow> mem_write buf_at (replicate size 0) buf;
          let (buf_size, bs, d) = i2c_master_recv ops 1 d;
          buf \<leftarrow> mem_write buf_at bs buf;
          if buf_size \<noteq> 1 then
            Some (0, \<lparr>client = d, i2c_stats = st\<lparr>rx_error_count := rx_error_count st + 1\<rparr>\<rparr>, buf)
          else do {
            first \<leftarrow> arr_get buf buf_at;
            if first = 0xFF then
              Some (- 1, \<lparr>client = d, i2c_stats = st\<lparr>rx_fifo_empty_count := rx_fifo_empty_count st + 1\<rparr>\<rparr>, buf)
            else do {
              (rx_count, d, buf, ok) \<leftarrow> rx_pieces ops buf_at size 1 d buf;
              Some (int rx_count, \<lparr>client = d, i2c_stats =
                (if ok then st\<lparr>rx_pkt_count := rx_pkt_count st + 1\<rparr>
                 else st\<lparr>rx_error_count := rx_error_count st + 1\<rparr>)\<rparr>, buf)
            }
          }
        })"

section \<open>Bounds\<close>

text \<open>A read stays in the part of the buffer it is given, and returns at most the size of that part.\<close>

lemma bus_okD:
  assumes "i2c_ok ops" and "i2c_master_recv ops n d = (r, bs, d')"
  shows "r \<le> int n" "length bs = nat r" "length bs \<le> n"
proof -
  have "r \<le> int n \<and> length bs = nat r"
    using assms(1) [unfolded i2c_ok_def, rule_format, of n d] assms(2) by simp
  then show "r \<le> int n" "length bs = nat r" "length bs \<le> n" by auto
qed

lemma rx_pieces_ok:
  assumes "i2c_ok ops" and "rx_count \<le> gps_buf_size" and "buf_at + gps_buf_size \<le> length buf"
  shows "\<exists>n d' buf' ok. rx_pieces ops buf_at gps_buf_size rx_count d buf = Some (n, d', buf', ok) \<and>
           rx_count \<le> n \<and> n \<le> gps_buf_size \<and> length buf' = length buf \<and> take buf_at buf' = take buf_at buf"
  using assms
proof (induction ops buf_at gps_buf_size rx_count d buf rule: rx_pieces.induct)
  case (1 ops buf_at gps_buf_size rx_count d buf)
  define req where "req = (if MRVL_I2C_OFFLOAD_THR \<le> gps_buf_size - rx_count then MRVL_I2C_OFFLOAD_THR
                           else gps_buf_size - rx_count)"
  have req: "rx_count + req \<le> gps_buf_size" using "1.prems"(2) by (auto simp: req_def)
  obtain r bs d1 where rec: "i2c_master_recv ops req d = (r, bs, d1)" by (cases "i2c_master_recv ops req d") auto
  have len: "length bs \<le> req" using bus_okD [OF "1.prems"(1) rec] by simp
  then obtain buf1 where w: "mem_write (buf_at + rx_count) bs buf = Some buf1"
    using mem_write_defined [of "buf_at + rx_count" bs buf] req "1.prems"(3) by auto
  have buf1: "length buf1 = length buf" "take buf_at buf1 = take buf_at buf"
    using w by (auto simp: mem_simps)
  show ?case
  proof (cases "r = int req \<and> rx_count + req < gps_buf_size")
    case True
    have "\<exists>n d' buf' ok. rx_pieces ops buf_at gps_buf_size (rx_count + req) d1 buf1 = Some (n, d', buf', ok) \<and>
        rx_count + req \<le> n \<and> n \<le> gps_buf_size \<and> length buf' = length buf1 \<and> take buf_at buf' = take buf_at buf1"
      using "1.IH" [OF req_def rec [symmetric] refl refl, of buf1] w True "1.prems" req buf1 by simp
    then show ?thesis
      using w True rec buf1
      by (subst rx_pieces.simps) (auto simp: req_def [symmetric])
  next
    case False
    then show ?thesis
      using w rec buf1 req "1.prems"
      by (subst rx_pieces.simps) (auto simp: req_def [symmetric])
  qed
qed

lemma ublox_i2c_receive_ok:
  assumes "i2c_ok ops" and "buf_at + buf_max_size \<le> length buf" and "0 < buf_max_size"
  shows "\<exists>r prv' buf'. ublox_i2c_receive ops buf_at buf_max_size prv buf = Some (r, prv', buf') \<and>
           r \<le> int buf_max_size \<and> length buf' = length buf \<and> take buf_at buf' = take buf_at buf"
proof -
  obtain z d where z: "tgd_ublox_dev_data_len ops (client prv) = (z, d)" by (cases "tgd_ublox_dev_data_len ops (client prv)")
  define size where "size = (if int buf_max_size < z then buf_max_size else nat z)"
  obtain r bs d1 where rec: "i2c_master_recv ops 1 d = (r, bs, d1)" by (cases "i2c_master_recv ops 1 d") auto
  have bs: "length bs \<le> 1" using bus_okD [OF assms(1) rec] by simp
  show ?thesis
  proof (cases "z \<le> 0")
    case True
    with z show ?thesis by (simp add: ublox_i2c_receive_def Let_def)
  next
    case False
    then have size: "1 \<le> size" "size \<le> buf_max_size" using assms(3) by (auto simp: size_def)
    obtain b1 where b1: "mem_write buf_at (replicate size 0) buf = Some b1"
      using mem_write_defined [of buf_at "replicate size 0" buf] size assms(2) by auto
    have b1': "length b1 = length buf" "take buf_at b1 = take buf_at buf" using b1 by (auto simp: mem_simps)
    obtain b2 where b2: "mem_write buf_at bs b1 = Some b2"
      using mem_write_defined [of buf_at bs b1] bs b1' size assms(2) by auto
    have b2': "length b2 = length buf" "take buf_at b2 = take buf_at buf" using b2 b1' by (auto simp: mem_simps)
    have first: "arr_get b2 buf_at = Some (b2 ! buf_at)" using b2' size assms(2) by (simp add: arr_get_def)
    obtain n d2 b3 ok where p: "rx_pieces ops buf_at size 1 d1 b2 = Some (n, d2, b3, ok)"
      "n \<le> size" "length b3 = length buf" "take buf_at b3 = take buf_at buf"
      using rx_pieces_ok [OF assms(1) size(1), of buf_at b2 d1] b2' size assms(2) by auto
    show ?thesis
      using False z b1 b2 b2' rec first p size
      by (auto simp: ublox_i2c_receive_def Let_def size_def [symmetric])
  qed
qed

end
