(* ===== verification/UbloxMsg.thy ===== *)
theory UbloxMsg
  imports UbloxI2c
begin

text \<open>
  The messages of the u-blox receiver (\<open>ublox-mod/files/src/fb_tgd_ublox_msg_handler.c\<close>, the first
  half): the framing of commands with header and checksum, the tables of messages, the handlers that
  keep the status of the receiver, and the parser of the byte stream that is read from the device.

  A pointer into the receive buffer is the list of the bytes from there to the end of the buffer, so
  that an access behind the buffer is the value \<open>None\<close>. \<open>char\<close> is unsigned, as on the ARM targets of
  the driver. C integers are words and wrap; lengths that are not negative are naturals. The calls of
  the clients' callbacks, the commands taken into the queue and those sent from it are recorded in \<open>ub_log\<close>; the head of
  \<open>kmalloc_fails\<close> tells whether the next allocation fails. Log messages are left out.
\<close>

section \<open>State of the driver\<close>

abbreviation I2C_MSG_MAX_SIZE :: nat where "I2C_MSG_MAX_SIZE \<equiv> 2048"
abbreviation CFG_RSP_MAX :: nat where "CFG_RSP_MAX \<equiv> 512"
abbreviation UBLX_CFG_ACK_MAX_SIZE :: nat where "UBLX_CFG_ACK_MAX_SIZE \<equiv> 16"
abbreviation UBX_MSG_HDR_AND_CHEKSUM_SIZE :: nat where "UBX_MSG_HDR_AND_CHEKSUM_SIZE \<equiv> 8"
abbreviation MSG_HDR_SIZE :: nat where "MSG_HDR_SIZE \<equiv> 6"
abbreviation UBX_MSG_CTRL_SIZE :: nat where "UBX_MSG_CTRL_SIZE \<equiv> 8"
abbreviation UBX_CHAR_SYNC0 :: u8 where "UBX_CHAR_SYNC0 \<equiv> 0xB5"
abbreviation UBX_CHAR_SYNC1 :: u8 where "UBX_CHAR_SYNC1 \<equiv> 0x62"
abbreviation NMEA_START_CH0 :: u8 where "NMEA_START_CH0 \<equiv> 0x24"
abbreviation NMEA_START_CH1 :: u8 where "NMEA_START_CH1 \<equiv> 0x47"
abbreviation MSG_CR :: u8 where "MSG_CR \<equiv> 0x0D"
abbreviation MSG_LF :: u8 where "MSG_LF \<equiv> 0x0A"
abbreviation NMEA_MSG_MAX_CHR :: u8 where "NMEA_MSG_MAX_CHR \<equiv> 0x7F"
abbreviation MAX_FF_COUNT_FOR_DISCARD :: nat where "MAX_FF_COUNT_FOR_DISCARD \<equiv> 16"
abbreviation MAX_NUM_SV :: nat where "MAX_NUM_SV \<equiv> 16"
abbreviation NUM_SEC_IN_WEEK :: u32 where "NUM_SEC_IN_WEEK \<equiv> 604800"
abbreviation TIM_TOS_DISP_SOURCE :: u32 where "TIM_TOS_DISP_SOURCE \<equiv> 0x0700"
abbreviation TIM_TOS_PULS_LOCKED :: u32 where "TIM_TOS_PULS_LOCKED \<equiv> 0x2000"
abbreviation eUBLOX_RSP_DST_NONE :: u8 where "eUBLOX_RSP_DST_NONE \<equiv> 0"
abbreviation eUBLOX_RSP_DST_TMR :: u8 where "eUBLOX_RSP_DST_TMR \<equiv> 1"
abbreviation eUBLOX_RSP_DST_USR :: u8 where "eUBLOX_RSP_DST_USR \<equiv> 2"

datatype eTime_sync_mode = eTIME_MODE_GNSS | eTIME_MODE_SURVEY | eTIME_MODE_FIXED | eTIME_MODE_UNKNOWN
datatype eMsg_enable = eMSG_NA | eMSG_DISABLD | eMSG_SING_RD | eMSG_REPT_RD
datatype eUblox_init_state = eUBLX_STATE_DOWN | eGPS_STATE_INIT | eGPS_STATE_WAIT_SYNC | eGPS_STATE_TIME_IN_SYNC
datatype eUblox_msg_type = eUBLOX_MSG_NONE | eUBLOX_MSG_NMEA | eUBLOX_MSG_CFG
datatype eUblox_sync_sgnl_state = eSIGNAL_NOT_DSPLNED | eSIGNAL_DSPLNED

record t_ublox_space_veh_info =
  sv_sat_id :: u8
  sv_flags :: u8
  sv_qlty :: u8
  sv_snr :: u8
  sv_elev :: u8

record t_nav_pos_vel_time =
  pv_tow_ms :: u32
  pv_year :: u16
  pv_month :: u8
  pv_day :: u8
  pv_hour :: u8
  pv_minute :: u8
  pv_second :: u8
  pv_valid_flag :: u8
  pv_f_second_ns :: u32
  pv_fix_type :: u8
  pv_fix_status :: u8
  pv_num_sat_used :: u8
  pv_long_value :: u32
  pv_lat_value :: u32
  pv_hgt_ellipsoid :: u32
  pv_hgt_sea_lvl :: u32

record t_ublox_time_pulse_info =
  tp_year :: u32
  tp_utc_tm_ofst :: u32
  tp_gns_top_ofst :: u32
  tp_int_osc_ofst :: u32
  tp_flags :: u32
  tp_utc_uncert :: u32
  tp_gnss_uncert :: u32
  tp_int_osc_uncert :: u32
  tp_gnss_week_num :: u32
  tp_gnss_week_time :: u32
  tp_month :: u8
  tp_day :: u8
  tp_hour :: u8
  tp_minute :: u8
  tp_seconds :: u8

record t_sync_mgr_stat =
  sync_sgnl_state :: eUblox_sync_sgnl_state
  int_osc_dsp_src :: u8
  gnss_present :: u8

record ublox_rd_wr_stat =
  rd_pkt_count :: u32
  rd_pkt_len_error :: u32
  cheksum_error :: u32
  tim_tos_count :: u32
  tim_tos_pkt_error :: u32
  tim_tos_to_fw_count :: u32
  skip_invalid_msg_hdr :: u32
  gnss_fix_time_count :: u32
  int_osc_fix_time_count :: u32

record t_ublox_srvy_in_result =
  si_survey_time :: u32
  si_mean_x :: u32
  si_mean_y :: u32
  si_mean_z :: u32
  si_variance_3d :: u32
  si_num_pos_observed :: u32
  si_valid_flag :: u8
  si_in_progress :: u8
  si_is_stale :: u8

record t_ublox_stat_data =
  num_space_veh :: nat
  space_veh_info :: "t_ublox_space_veh_info list"
  gnss_fix :: nat
  pos_time_info :: t_nav_pos_vel_time
  tm_puls_info :: t_ublox_time_pulse_info
  srvy_in_stat :: t_ublox_srvy_in_result
  sync_mgr_stat :: t_sync_mgr_stat
  meas_valid_falg :: bool
  ublox_stat :: ublox_rd_wr_stat

text \<open>
  A client of the driver, by the name of its callback data; what the callbacks are called with, and
  the commands that the worker sends.
\<close>

record ublox_msg_client =
  gps_clnt_data :: nat
  send_to_clnt :: bool

datatype ub_event = Time_update nat u64 | Stat_update nat "u8 list" | Cmd_queued "u8 list" | Cmd_sent "u8 list"

record 'd ublox_msg_data =
  init_flag :: bool
  timer_running :: bool
  tm_exp_in_ms :: u32
  ublox_state :: eUblox_init_state
  ublox_sm_state_count :: u32
  gps_time_in_sec :: u64
  one_sec_count :: u32
  timer_shutting_down :: bool
  accmulated_ms :: u32
  i2c_data_len :: nat
  i2c_data :: "u8 list option"
  ublx_cfg_rsp_len :: nat
  cfg_rsp_copy :: "u8 list option"
  rsp_clsid :: "u8 \<times> u8"
  rsp_dst :: u8
  cfg_cmd_ack_rsp_len :: nat
  cfg_cmd_ack_rsp :: "u8 list"
  gps_timer :: "u64 option"
  work_pending :: bool
  q_hndlr :: queue_mem
  ublox_handle :: "'d tgd_ublox_gps_prv_data"
  time_sync_mode :: eTime_sync_mode
  dev_busy_time :: u32
  srvy_in_start_time :: u32
  prev_one_sec_count :: u32
  stat_push_armed :: bool
  stat_push_interval :: u32
  prev_time_sec :: u64
  gps_time_sec :: u64
  adj_timer_value_ms :: u32
  clnt_list :: "ublox_msg_client list"
  stat_d :: t_ublox_stat_data
  platform_dev :: bool
  nmea_msg_enable :: "eMsg_enable list"
  g_dbg_mask :: u32
  kmalloc_fails :: "bool list"
  ub_log :: "ub_event list"

section \<open>Framing\<close>

definition nmea_checksum :: "u8 list \<Rightarrow> u8 \<times> u8" where
  "nmea_checksum msg = fold (\<lambda>b (ckA, ckB). (ckA + b, ckB + (ckA + b))) msg (0, 0)"

definition prep_cmd_with_hdr_chk_sum ::
  "u8 \<Rightarrow> u8 \<Rightarrow> u8 list \<Rightarrow> nat \<Rightarrow> u8 list \<Rightarrow> nat \<Rightarrow> (int \<times> u8 list) option" where
  "prep_cmd_with_hdr_chk_sum cls_id msg_id cmd_p cmd_size dst dst_max_size =
     (if dst_max_size < UBX_MSG_HDR_AND_CHEKSUM_SIZE + cmd_size then Some (- 1, dst)
      else do {
        dst \<leftarrow> mem_write 0 [UBX_CHAR_SYNC0, UBX_CHAR_SYNC1, cls_id, msg_id,
                          of_nat cmd_size, of_nat (cmd_size div 256)] dst;
        cmd \<leftarrow> mem_read 0 cmd_size cmd_p;
        dst \<leftarrow> mem_write MSG_HDR_SIZE cmd dst;
        body \<leftarrow> mem_read 2 (cmd_size + 4) dst;
        let (ck0, ck1) = nmea_checksum body;
        dst \<leftarrow> mem_write (6 + cmd_size) [ck0, ck1] dst;
        Some (int (cmd_size + UBX_MSG_HDR_AND_CHEKSUM_SIZE), dst)
      })"

section \<open>Tables\<close>

datatype ublox_msg_hndlr =
  Ignore_nmea_rsp | Nmea_txt_msg | Time_tos | Nav_svinf_msg | Nav_pvt_msg | Time_srvyin | Mon_smgr_msg | Ignore_cfg_rsp

record t_ublx_msg_desc =
  um_name :: string
  proc_msg :: ublox_msg_hndlr
  um_clsid :: "u8 \<times> u8"

abbreviation INIT_UMSG :: "string \<Rightarrow> ublox_msg_hndlr \<Rightarrow> u8 \<Rightarrow> u8 \<Rightarrow> t_ublx_msg_desc" where
  "INIT_UMSG n h c1 c2 \<equiv> \<lparr>um_name = n, proc_msg = h, um_clsid = (c1, c2)\<rparr>"

definition table_nmea_ubx_msg :: "t_ublx_msg_desc list" where
  "table_nmea_ubx_msg = [
     INIT_UMSG ''ZDA'' Ignore_nmea_rsp 0xF0 0x08,
     INIT_UMSG ''GSV'' Ignore_nmea_rsp 0xF0 0x03,
     INIT_UMSG ''VTG'' Ignore_nmea_rsp 0xF0 0x05,
     INIT_UMSG ''RMC'' Ignore_nmea_rsp 0xF0 0x04,
     INIT_UMSG ''GSA'' Ignore_nmea_rsp 0xF0 0x02,
     INIT_UMSG ''GLL'' Ignore_nmea_rsp 0xF0 0x01,
     INIT_UMSG ''GGA'' Ignore_nmea_rsp 0xF0 0x00,
     INIT_UMSG ''TXT'' Nmea_txt_msg 0xF0 0x41]"

definition table_cfg_ubx_msg :: "t_ublx_msg_desc list" where
  "table_cfg_ubx_msg = [
     INIT_UMSG ''TIM_TOS'' Time_tos 0x0D 0x12,
     INIT_UMSG ''NAV_SVIN'' Nav_svinf_msg 0x01 0x30,
     INIT_UMSG ''NAV_PVT'' Nav_pvt_msg 0x01 0x07,
     INIT_UMSG ''TIM_SVIN'' Time_srvyin 0x0D 0x04,
     INIT_UMSG ''MON_SMGR'' Mon_smgr_msg 0x0A 0x2E,
     INIT_UMSG ''CFG_RST'' Ignore_cfg_rsp 0x06 0x04,
     INIT_UMSG ''CFG_SMGR'' Ignore_cfg_rsp 0x06 0x62,
     INIT_UMSG ''CFG_NAV5'' Ignore_cfg_rsp 0x06 0x24,
     INIT_UMSG ''CFG_TMODE2'' Ignore_cfg_rsp 0x06 0x3D]"

definition chars :: "string \<Rightarrow> u8 list" where
  "chars s = map (\<lambda>c. of_nat (of_char c)) s"

fun index_of :: "('a \<Rightarrow> bool) \<Rightarrow> 'a list \<Rightarrow> nat option" where
  "index_of P [] = None"
| "index_of P (x # xs) = (if P x then Some 0 else map_option Suc (index_of P xs))"

text \<open>The three bytes of the tag are compared with the names of the table.\<close>

definition get_nmea_msg_table_index :: "u8 list \<Rightarrow> nat option option" where
  "get_nmea_msg_table_index msg_tag = do {
     t \<leftarrow> mem_read 0 3 msg_tag;
     Some (index_of (\<lambda>e. t = chars (um_name e)) table_nmea_ubx_msg) }"

definition lookup_cfg_msg :: "u8 \<Rightarrow> u8 \<Rightarrow> t_ublx_msg_desc option" where
  "lookup_cfg_msg clsid0 clsid1 = find (\<lambda>e. um_clsid e = (clsid0, clsid1)) table_cfg_ubx_msg"

definition get_cfg_msg_table_index :: "string \<Rightarrow> nat option" where
  "get_cfg_msg_table_index tag =
     (if tag = [] then None
      else index_of (\<lambda>e. take 7 tag = take (min (length tag) 7) (um_name e)) table_cfg_ubx_msg)"

definition prep_cfg_cmd :: "string \<Rightarrow> u8 list option \<Rightarrow> nat \<Rightarrow> u8 list \<Rightarrow> nat \<Rightarrow> (int \<times> u8 list) option" where
  "prep_cfg_cmd cfg_tag cfg_data dlen buf buf_len =
     (if dlen \<noteq> 0 \<and> cfg_data = None then Some (- 1, buf)
      else if buf_len < dlen + UBX_MSG_HDR_AND_CHEKSUM_SIZE then Some (- 1, buf)
      else (case get_cfg_msg_table_index cfg_tag of
        None \<Rightarrow> Some (- 1, buf)
      | Some index \<Rightarrow> do {
          let (c0, c1) = um_clsid (table_cfg_ubx_msg ! index);
          buf \<leftarrow> mem_write 0 [UBX_CHAR_SYNC0, UBX_CHAR_SYNC1, c0, c1, of_nat dlen, of_nat (dlen div 256)] buf;
          data \<leftarrow> (case cfg_data of None \<Rightarrow> Some [] | Some d \<Rightarrow> mem_read 0 dlen d);
          buf \<leftarrow> mem_write MSG_HDR_SIZE data buf;
          body \<leftarrow> mem_read 2 (dlen + 4) buf;
          let (ck0, ck1) = nmea_checksum body;
          buf \<leftarrow> mem_write (MSG_HDR_SIZE + dlen) [ck0, ck1] buf;
          Some (int (dlen + UBX_MSG_HDR_AND_CHEKSUM_SIZE), buf)
        }))"

text \<open>The command that turns a message on or off; it records the setting in the table of NMEA messages.\<close>

definition prep_on_off_cmd :: "eUblox_msg_type \<Rightarrow> u8 list \<Rightarrow> eMsg_enable \<Rightarrow> u8 list \<Rightarrow> nat \<Rightarrow>
    'd ublox_msg_data \<Rightarrow> (int \<times> u8 list \<times> 'd ublox_msg_data) option" where
  "prep_on_off_cmd msg_type tag msg_enable dst dst_max st =
     (if dst_max < UBX_MSG_HDR_AND_CHEKSUM_SIZE + UBX_MSG_CTRL_SIZE then Some (- 1, dst, st)
      else do {
        let enable_flag = (if msg_enable \<noteq> eMSG_DISABLD then 1 else 0 :: u8);
        r \<leftarrow> (case msg_type of
                eUBLOX_MSG_NONE \<Rightarrow> None
              | eUBLOX_MSG_NMEA \<Rightarrow> do {
                  i \<leftarrow> get_nmea_msg_table_index tag;
                  Some (map_option (\<lambda>i. (um_clsid (table_nmea_ubx_msg ! i),
                                        st\<lparr>nmea_msg_enable := (nmea_msg_enable st)[i := msg_enable]\<rparr>)) i) }
              | eUBLOX_MSG_CFG \<Rightarrow>
                  Some (map_option (\<lambda>i. (um_clsid (table_cfg_ubx_msg ! i), st))
                          (get_cfg_msg_table_index (map (\<lambda>b. char_of (unat b)) tag))));
        (case r of
           None \<Rightarrow> Some (- 1, dst, st)
         | Some ((c0, c1), st) \<Rightarrow> do {
             (n, dst) \<leftarrow> prep_cmd_with_hdr_chk_sum 0x06 0x01 [c0, c1, enable_flag, 0, 0, 0, 0, 0] UBX_MSG_CTRL_SIZE dst dst_max;
             Some (n, dst, st) })
      })"

section \<open>Device access\<close>

definition ublox_dev_rd :: "'d i2c_ops \<Rightarrow> nat \<Rightarrow> nat \<Rightarrow> u8 list \<Rightarrow> 'd ublox_msg_data \<Rightarrow>
    (int \<times> u8 list \<times> 'd ublox_msg_data) option" where
  "ublox_dev_rd ops buf_at buf_max_size buf st = do {
     (r, prv, buf) \<leftarrow> ublox_i2c_receive ops buf_at buf_max_size (ublox_handle st) buf;
     Some (r, buf, st\<lparr>ublox_handle := prv\<rparr>) }"

definition ublox_dev_wr :: "'d i2c_ops \<Rightarrow> u8 list \<Rightarrow> 'd ublox_msg_data \<Rightarrow> int \<times> 'd ublox_msg_data" where
  "ublox_dev_wr ops bs st =
     (let (r, prv) = ublox_i2c_send ops bs (ublox_handle st) in (r, st\<lparr>ublox_handle := prv\<rparr>))"

definition ubx_write_cfg_msg_on_off :: "'d i2c_ops \<Rightarrow> eUblox_msg_type \<Rightarrow> u8 list \<Rightarrow> eMsg_enable \<Rightarrow>
    'd ublox_msg_data \<Rightarrow> (int \<times> 'd ublox_msg_data) option" where
  "ubx_write_cfg_msg_on_off ops msg_type nmea_msg msg_enable st = do {
     (ret_size, cmd, st) \<leftarrow> prep_on_off_cmd msg_type nmea_msg msg_enable (replicate 48 0) 48 st;
     if ret_size < int UBX_MSG_HDR_AND_CHEKSUM_SIZE then Some (- 1, st)
     else do {
       bs \<leftarrow> mem_read 0 (nat ret_size) cmd;
       let (ret_stat, st) = ublox_dev_wr ops bs st;
       Some (if ret_stat \<noteq> 0 then - 1 else 0, st) } }"

definition ublox_msg_rate_set :: "'d i2c_ops \<Rightarrow> nat \<Rightarrow> 'd ublox_msg_data \<Rightarrow> (int \<times> 'd ublox_msg_data) option" where
  "ublox_msg_rate_set ops time_in_ms st = do {
     (ret_size, cmd) \<leftarrow> prep_cmd_with_hdr_chk_sum 0x06 0x08
        [of_nat time_in_ms, of_nat (time_in_ms div 256), 1, 0, 1, 0] 6 (replicate 32 0) 32;
     if ret_size < int UBX_MSG_HDR_AND_CHEKSUM_SIZE then Some (- 1, st)
     else do {
       bs \<leftarrow> mem_read 0 (nat ret_size) cmd;
       let (ret_stat, st) = ublox_dev_wr ops bs st;
       Some (if ret_stat \<noteq> 0 then - 1 else 0, st) } }"

definition clear_ublox_device_busy :: "'d ublox_msg_data \<Rightarrow> 'd ublox_msg_data" where
  "clear_ublox_device_busy st = st\<lparr>dev_busy_time := 0\<rparr>"

definition set_ublox_device_busy :: "'d ublox_msg_data \<Rightarrow> 'd ublox_msg_data" where
  "set_ublox_device_busy st = st\<lparr>dev_busy_time := 1\<rparr>"


section \<open>Handlers\<close>

text \<open>Fields of a message, little-endian.\<close>

definition LE_HOST_UINT :: "nat \<Rightarrow> u8 list \<Rightarrow> u32 option" where
  "LE_HOST_UINT off m = do { bs \<leftarrow> mem_read off 4 m; Some (of_nat (le_val bs)) }"

definition LE_HOST_SHORT :: "nat \<Rightarrow> u8 list \<Rightarrow> u16 option" where
  "LE_HOST_SHORT off m = do { bs \<leftarrow> mem_read off 2 m; Some (of_nat (le_val bs)) }"

text \<open>\<open>abs\<close> of the kernel; the least integer is its own absolute value.\<close>

definition c_abs :: "u32 \<Rightarrow> u32" where
  "c_abs x = (if sint x < 0 then - x else x)"

definition mon_smgr_msg_handler :: "u8 list \<Rightarrow> nat \<Rightarrow> 'd ublox_msg_data \<Rightarrow> (int \<times> 'd ublox_msg_data) option" where
  "mon_smgr_msg_handler p len st =
     (if len < 20 then Some (- 1, st)
      else do {
        b14 \<leftarrow> arr_get p 14; b18 \<leftarrow> arr_get p 18; b19 \<leftarrow> arr_get p 19;
        Some (0, st\<lparr>stat_d := (stat_d st)\<lparr>sync_mgr_stat :=
          \<lparr>sync_sgnl_state = (if b14 AND 0x40 \<noteq> 0 then eSIGNAL_DSPLNED else eSIGNAL_NOT_DSPLNED),
           int_osc_dsp_src = (if 6 \<le> b18 then 6 else b18),
           gnss_present = b19 AND 1\<rparr>\<rparr>\<rparr>) })"

definition nav_pvt_msg_handler :: "u8 list \<Rightarrow> nat \<Rightarrow> 'd ublox_msg_data \<Rightarrow> (int \<times> 'd ublox_msg_data) option" where
  "nav_pvt_msg_handler p len st =
     (if len < 48 then Some (- 1, st)
      else do {
        fix_b \<leftarrow> arr_get p 26;
        let msg_index = (if fix_b \<le> 5 then unat fix_b else 6);
        tow_ms \<leftarrow> LE_HOST_UINT 6 p; year \<leftarrow> LE_HOST_SHORT 10 p;
        month \<leftarrow> arr_get p 12; day \<leftarrow> arr_get p 13; hour \<leftarrow> arr_get p 14; minute \<leftarrow> arr_get p 15; second \<leftarrow> arr_get p 16;
        f_second_ns \<leftarrow> LE_HOST_UINT 22 p; valid_flag \<leftarrow> arr_get p 17;
        fix_status \<leftarrow> arr_get p 27; num_sat_used \<leftarrow> arr_get p 29;
        long_value \<leftarrow> LE_HOST_UINT 30 p; lat_value \<leftarrow> LE_HOST_UINT 34 p;
        hgt_ellipsoid \<leftarrow> LE_HOST_UINT 38 p; hgt_sea_lvl \<leftarrow> LE_HOST_UINT 42 p;
        Some (0, st\<lparr>stat_d := (stat_d st)\<lparr>gnss_fix := msg_index, pos_time_info :=
          \<lparr>pv_tow_ms = tow_ms, pv_year = year, pv_month = month, pv_day = day, pv_hour = hour, pv_minute = minute,
           pv_second = second, pv_valid_flag = valid_flag, pv_f_second_ns = f_second_ns, pv_fix_type = fix_b,
           pv_fix_status = fix_status, pv_num_sat_used = num_sat_used, pv_long_value = long_value,
           pv_lat_value = lat_value, pv_hgt_ellipsoid = hgt_ellipsoid, pv_hgt_sea_lvl = hgt_sea_lvl\<rparr>\<rparr>\<rparr>) })"

text \<open>The channels \<open>i\<close> to \<open>i + n\<close> of a satellite report.\<close>

fun svinf_channels :: "u8 list \<Rightarrow> nat \<Rightarrow> nat \<Rightarrow> t_ublox_space_veh_info list \<Rightarrow> t_ublox_space_veh_info list option" where
  "svinf_channels p i 0 vs = Some vs"
| "svinf_channels p i (Suc n) vs = do {
     sat_id \<leftarrow> arr_get p (i * 12 + 15); flags \<leftarrow> arr_get p (i * 12 + 16); qlty \<leftarrow> arr_get p (i * 12 + 17);
     snr \<leftarrow> arr_get p (i * 12 + 18); elev \<leftarrow> arr_get p (i * 12 + 19);
     vs \<leftarrow> arr_set vs i \<lparr>sv_sat_id = sat_id, sv_flags = flags, sv_qlty = qlty, sv_snr = snr, sv_elev = elev\<rparr>;
     svinf_channels p (Suc i) n vs }"

definition nav_svinf_msg_handler :: "u8 list \<Rightarrow> nat \<Rightarrow> 'd ublox_msg_data \<Rightarrow> (int \<times> 'd ublox_msg_data) option" where
  "nav_svinf_msg_handler p len st =
     (if len < 14 then Some (- 1, st)
      else do {
        b10 \<leftarrow> arr_get p 10;
        let num_channels = unat b10;
        if len < num_channels * 12 + 14 then Some (- 1, st)
        else do {
          let num_channels = (if MAX_NUM_SV < num_channels then MAX_NUM_SV else num_channels);
          vs \<leftarrow> svinf_channels p 0 num_channels (space_veh_info (stat_d st));
          Some (0, st\<lparr>stat_d := (stat_d st)\<lparr>space_veh_info := vs, num_space_veh := num_channels\<rparr>\<rparr>) } })"

text \<open>Every client that asked for the time is called.\<close>

definition ublox_gps_update_time :: "u64 \<Rightarrow> 'd ublox_msg_data \<Rightarrow> 'd ublox_msg_data" where
  "ublox_gps_update_time ts st =
     st\<lparr>ub_log := ub_log st @ map (\<lambda>c. Time_update (gps_clnt_data c) ts) (filter send_to_clnt (clnt_list st))\<rparr>"

definition tos_read :: "u8 list \<Rightarrow> t_ublox_time_pulse_info option" where
  "tos_read p = do {
     flags \<leftarrow> LE_HOST_UINT 10 p; year \<leftarrow> LE_HOST_SHORT 14 p;
     month \<leftarrow> arr_get p 16; day \<leftarrow> arr_get p 17; hour \<leftarrow> arr_get p 18; minute \<leftarrow> arr_get p 19; seconds \<leftarrow> arr_get p 20;
     utc_tm_ofst \<leftarrow> LE_HOST_UINT 22 p; utc_uncert \<leftarrow> LE_HOST_UINT 26 p;
     gnss_week_num \<leftarrow> LE_HOST_UINT 30 p; gnss_week_time \<leftarrow> LE_HOST_UINT 34 p;
     gns_top_ofst \<leftarrow> LE_HOST_UINT 38 p; gnss_uncert \<leftarrow> LE_HOST_UINT 42 p;
     int_osc_ofst \<leftarrow> LE_HOST_UINT 46 p; int_osc_uncert \<leftarrow> LE_HOST_UINT 50 p;
     Some \<lparr>tp_year = ucast year, tp_utc_tm_ofst = utc_tm_ofst, tp_gns_top_ofst = gns_top_ofst,
       tp_int_osc_ofst = int_osc_ofst, tp_flags = flags, tp_utc_uncert = utc_uncert, tp_gnss_uncert = gnss_uncert,
       tp_int_osc_uncert = int_osc_uncert, tp_gnss_week_num = gnss_week_num, tp_gnss_week_time = gnss_week_time,
       tp_month = month, tp_day = day, tp_hour = hour, tp_minute = minute, tp_seconds = seconds\<rparr> }"

definition TIM_DISP_SRC :: "u32 \<Rightarrow> u32" where
  "TIM_DISP_SRC flag = drop_bit 8 (flag AND TIM_TOS_DISP_SOURCE)"

text \<open>The limits: 500 ns on the pulse, 500 ppb on the oscillator (in units of \<open>2\<^sup>-\<^sup>8\<close> ppb).\<close>

definition tos_accurate :: "t_ublox_time_pulse_info \<Rightarrow> bool" where
  "tos_accurate tp \<longleftrightarrow>
     sint (c_abs (tp_gns_top_ofst tp)) < 500 \<and> unat (tp_gnss_uncert tp) < 500 \<and>
     sint (c_abs (tp_int_osc_ofst tp)) < 500 * 256 \<and> unat (tp_int_osc_uncert tp) < 500 * 256"

definition rw_stat :: "(ublox_rd_wr_stat \<Rightarrow> ublox_rd_wr_stat) \<Rightarrow> 'd ublox_msg_data \<Rightarrow> 'd ublox_msg_data" where
  "rw_stat f st = st\<lparr>stat_d := (stat_d st)\<lparr>ublox_stat := f (ublox_stat (stat_d st))\<rparr>\<rparr>"

definition time_tos_handler :: "u8 list \<Rightarrow> nat \<Rightarrow> 'd ublox_msg_data \<Rightarrow> (int \<times> 'd ublox_msg_data) option" where
  "time_tos_handler p len st =
     (if len < 60 then Some (- 1, rw_stat (\<lambda>s. s\<lparr>tim_tos_pkt_error := tim_tos_pkt_error s + 1\<rparr>) st)
      else do {
        tp \<leftarrow> tos_read p;
        let st = st\<lparr>stat_d := (stat_d st)\<lparr>tm_puls_info := tp\<rparr>\<rparr>;
        let st = st\<lparr>gps_time_sec := ucast (tp_gnss_week_num tp * NUM_SEC_IN_WEEK + tp_gnss_week_time tp)\<rparr>;
        let st = (if prev_time_sec st \<noteq> gps_time_sec st \<or> gps_time_sec st = 0 then
                    let st = st\<lparr>prev_time_sec := gps_time_sec st, gps_time_in_sec := gps_time_sec st\<rparr>;
                        st = (if clnt_list st \<noteq> [] \<and> tos_accurate tp
                              then rw_stat (\<lambda>s. s\<lparr>tim_tos_to_fw_count := tim_tos_to_fw_count s + 1\<rparr>)
                                     (ublox_gps_update_time (gps_time_sec st) st)
                              else st);
                        st = (if TIM_DISP_SRC (tp_flags tp) = 1
                              then rw_stat (\<lambda>s. s\<lparr>gnss_fix_time_count := gnss_fix_time_count s + 1\<rparr>) st else st)
                    in (if TIM_DISP_SRC (tp_flags tp) = 0
                        then rw_stat (\<lambda>s. s\<lparr>int_osc_fix_time_count := int_osc_fix_time_count s + 1\<rparr>) st else st)
                  else st);
        Some (0, rw_stat (\<lambda>s. s\<lparr>tim_tos_count := tim_tos_count s + 1\<rparr>) st) })"

definition time_srvyin_handler :: "u8 list \<Rightarrow> nat \<Rightarrow> 'd ublox_msg_data \<Rightarrow> (int \<times> 'd ublox_msg_data) option" where
  "time_srvyin_handler p len st = do {
     survey_time \<leftarrow> LE_HOST_UINT 6 p; mean_x \<leftarrow> LE_HOST_UINT 10 p; mean_y \<leftarrow> LE_HOST_UINT 14 p;
     mean_z \<leftarrow> LE_HOST_UINT 18 p; variance_3d \<leftarrow> LE_HOST_UINT 22 p; num_pos_observed \<leftarrow> LE_HOST_UINT 26 p;
     valid_flag \<leftarrow> arr_get p 30; in_progress \<leftarrow> arr_get p 31;
     Some (0, st\<lparr>stat_d := (stat_d st)\<lparr>srvy_in_stat :=
       \<lparr>si_survey_time = survey_time, si_mean_x = mean_x, si_mean_y = mean_y, si_mean_z = mean_z,
        si_variance_3d = variance_3d, si_num_pos_observed = num_pos_observed, si_valid_flag = valid_flag,
        si_in_progress = in_progress, si_is_stale = 0\<rparr>\<rparr>\<rparr>) }"

text \<open>An NMEA message is not wanted: it is turned off.\<close>

definition ignore_nmea_rsp_hndlr :: "'d i2c_ops \<Rightarrow> u8 list \<Rightarrow> nat \<Rightarrow> 'd ublox_msg_data \<Rightarrow> (int \<times> 'd ublox_msg_data) option" where
  "ignore_nmea_rsp_hndlr ops p len st =
     (if len < 6 then Some (0, st)
      else do {
        tag \<leftarrow> mem_read 3 3 p;
        (r, st) \<leftarrow> ubx_write_cfg_msg_on_off ops eUBLOX_MSG_NMEA (tag @ [0]) eMSG_DISABLD st;
        _ \<leftarrow> mem_read 0 6 p;
        Some (0, st) })"

definition call_hndlr :: "'d i2c_ops \<Rightarrow> ublox_msg_hndlr \<Rightarrow> u8 list \<Rightarrow> nat \<Rightarrow> 'd ublox_msg_data \<Rightarrow>
    (int \<times> 'd ublox_msg_data) option" where
  "call_hndlr ops h p len st = (case h of
     Ignore_nmea_rsp \<Rightarrow> ignore_nmea_rsp_hndlr ops p len st
   | Nmea_txt_msg \<Rightarrow> Some (0, st)
   | Time_tos \<Rightarrow> time_tos_handler p len st
   | Nav_svinf_msg \<Rightarrow> nav_svinf_msg_handler p len st
   | Nav_pvt_msg \<Rightarrow> nav_pvt_msg_handler p len st
   | Time_srvyin \<Rightarrow> time_srvyin_handler p len st
   | Mon_smgr_msg \<Rightarrow> mon_smgr_msg_handler p len st
   | Ignore_cfg_rsp \<Rightarrow> Some (0, st))"

section \<open>The parser\<close>

definition process_cur_nmea_msg :: "'d i2c_ops \<Rightarrow> u8 list \<Rightarrow> nat \<Rightarrow> 'd ublox_msg_data \<Rightarrow> (int \<times> 'd ublox_msg_data) option" where
  "process_cur_nmea_msg ops dat_p len st = do {
     i \<leftarrow> get_nmea_msg_table_index (drop 3 dat_p);
     (case i of
        None \<Rightarrow> Some (- 1, st)
      | Some i \<Rightarrow> do { (r, st) \<leftarrow> call_hndlr ops (proc_msg (table_nmea_ubx_msg ! i)) dat_p len st; Some (0, st) }) }"

definition handle_config_resp :: "'d i2c_ops \<Rightarrow> u8 list \<Rightarrow> nat \<Rightarrow> 'd ublox_msg_data \<Rightarrow> (int \<times> 'd ublox_msg_data) option" where
  "handle_config_resp ops rsp len st =
     (if len < 6 then Some (- 1, st)
      else do {
        c0 \<leftarrow> arr_get rsp 2; c1 \<leftarrow> arr_get rsp 3;
        (case lookup_cfg_msg c0 c1 of
           None \<Rightarrow> Some (- 1, st)
         | Some d \<Rightarrow> do { (r, st) \<leftarrow> call_hndlr ops (proc_msg d) rsp len st; Some (0, st) }) })"

text \<open>What is done with a message whose checksum is right; \<open>n\<close> is its length, \<open>cp\<close> the copy index.\<close>

definition cfg_dispatch :: "'d i2c_ops \<Rightarrow> u8 list \<Rightarrow> nat \<Rightarrow> nat \<Rightarrow> 'd ublox_msg_data \<Rightarrow>
    (nat \<times> 'd ublox_msg_data) option" where
  "cfg_dispatch ops rsp n cp st = do {
     b2 \<leftarrow> arr_get rsp 2; b3 \<leftarrow> arr_get rsp 3; b6 \<leftarrow> arr_get rsp 6; b7 \<leftarrow> arr_get rsp 7;
     if b2 = 0x05 \<and> b3 = 0x01 \<and> rsp_clsid st = (b6, b7) then do {
       let k = (if UBLX_CFG_ACK_MAX_SIZE < n then UBLX_CFG_ACK_MAX_SIZE else n);
       bs \<leftarrow> mem_read 0 k rsp;
       ack \<leftarrow> mem_write 0 bs (cfg_cmd_ack_rsp st);
       Some (cp, clear_ublox_device_busy (st\<lparr>cfg_cmd_ack_rsp_len := k, cfg_cmd_ack_rsp := ack\<rparr>)) }
     else if rsp_clsid st = (b2, b3) then do {
       (cp, st) \<leftarrow>
         (if rsp_dst st = eUBLOX_RSP_DST_TMR then do { (r, st) \<leftarrow> handle_config_resp ops rsp n st; Some (cp, st) }
          else (case cfg_rsp_copy st of
            None \<Rightarrow> Some (cp, st)
          | Some copy \<Rightarrow>
              if cp + n < CFG_RSP_MAX then do {
                bs \<leftarrow> mem_read 0 n rsp;
                copy \<leftarrow> mem_write cp bs copy;
                Some (cp + n, st\<lparr>cfg_rsp_copy := Some copy, ublx_cfg_rsp_len := cp + n\<rparr>) }
              else Some (cp, st)));
       Some (cp, clear_ublox_device_busy (st\<lparr>rsp_clsid := (0, 0), rsp_dst := eUBLOX_RSP_DST_NONE\<rparr>)) }
     else if b2 = 0x0D \<and> b3 = 0x12 then do {
       (r, st) \<leftarrow> handle_config_resp ops rsp n st; Some (cp, st) }
     else Some (cp, st) }"

definition process_cfg_data :: "'d i2c_ops \<Rightarrow> u8 list \<Rightarrow> nat \<Rightarrow> nat \<Rightarrow> 'd ublox_msg_data \<Rightarrow>
    (int \<times> nat \<times> 'd ublox_msg_data) option" where
  "process_cfg_data ops rsp rsp_len cp st = do {
     b5 \<leftarrow> arr_get rsp 5; b4 \<leftarrow> arr_get rsp 4;
     let clen = unat b5 * 256 + unat b4;
     let cfg_total_len = clen + UBX_MSG_HDR_AND_CHEKSUM_SIZE;
     if rsp_len < cfg_total_len then Some (- 1, cp, st)
     else do {
       body \<leftarrow> mem_read 2 (clen + 4) rsp;
       k0 \<leftarrow> arr_get rsp (clen + MSG_HDR_SIZE); k1 \<leftarrow> arr_get rsp (clen + MSG_HDR_SIZE + 1);
       if nmea_checksum body \<noteq> (k0, k1) then
         Some (1, cp, rw_stat (\<lambda>s. s\<lparr>cheksum_error := cheksum_error s + 1\<rparr>) st)
       else do {
         (cp, st) \<leftarrow> cfg_dispatch ops rsp cfg_total_len cp st;
         Some (int cfg_total_len, cp, st) } } }"

text \<open>The search for the end of an NMEA message, from index \<open>i\<close> on.\<close>

function nmea_scan :: "'d i2c_ops \<Rightarrow> u8 list \<Rightarrow> nat \<Rightarrow> nat \<Rightarrow> 'd ublox_msg_data \<Rightarrow> (int \<times> 'd ublox_msg_data) option" where
  "nmea_scan ops msg_p len i st =
     (if len < i then Some (- 1, st)
      else do {
        c \<leftarrow> arr_get msg_p i;
        if c = MSG_CR \<or> c = MSG_LF then do {
          (r, st) \<leftarrow> process_cur_nmea_msg ops msg_p (i + 1) st;
          c' \<leftarrow> arr_get msg_p (i + 1);
          Some (int (if c' = MSG_CR \<or> c' = MSG_LF then i + 2 else i + 1), st) }
        else if NMEA_MSG_MAX_CHR < c then Some (int i, st)
        else nmea_scan ops msg_p len (i + 1) st })"
  by pat_completeness auto
termination by (relation "measure (\<lambda>(ops, msg_p, len, i, st). Suc len - i)") auto

declare nmea_scan.simps [simp del]

definition process_nmea_data :: "'d i2c_ops \<Rightarrow> u8 list \<Rightarrow> nat \<Rightarrow> 'd ublox_msg_data \<Rightarrow> (int \<times> 'd ublox_msg_data) option" where
  "process_nmea_data ops msg_p len st = nmea_scan ops msg_p len 0 st"

text \<open>Both branches of the parser move on by at least one byte, which is why its loop ends.\<close>

lemma process_cfg_data_progress:
  "process_cfg_data ops rsp rsp_len cp st = Some (r, cp', st') \<Longrightarrow> r = - 1 \<or> 1 \<le> r"
  by (auto simp: process_cfg_data_def Let_def split: Option.bind_splits if_splits)

lemma nmea_scan_progress:
  assumes "nmea_scan ops msg_p len i st = Some (r, st')" and "1 \<le> i"
  shows "r = - 1 \<or> 1 \<le> r"
  using assms
proof (induction ops msg_p len i st rule: nmea_scan.induct)
  case (1 ops msg_p len i st)
  from "1.prems"(1) show ?case
    by (subst (asm) nmea_scan.simps)
      (use "1.IH" "1.prems"(2) in \<open>auto split: Option.bind_splits if_splits\<close>)
qed

lemma process_nmea_data_progress:
  assumes "process_nmea_data ops msg_p len st = Some (r, st')" and "arr_get msg_p 0 = Some NMEA_START_CH0"
  shows "r = - 1 \<or> 1 \<le> r"
proof -
  have "nmea_scan ops msg_p len 1 st = Some (r, st')"
    using assms by (simp add: process_nmea_data_def nmea_scan.simps [of ops msg_p len 0])
  then show ?thesis by (rule nmea_scan_progress) simp
qed

function parse_loop :: "'d i2c_ops \<Rightarrow> u8 list \<Rightarrow> nat \<Rightarrow> nat \<Rightarrow> nat \<Rightarrow> nat \<Rightarrow> 'd ublox_msg_data \<Rightarrow>
    (int \<times> 'd ublox_msg_data) option" where
  "parse_loop ops dtp len di cp ff st =
     (if di + UBX_MSG_HDR_AND_CHEKSUM_SIZE < len then do {
        c0 \<leftarrow> arr_get dtp di; c1 \<leftarrow> arr_get dtp (di + 1);
        if c0 = UBX_CHAR_SYNC0 \<and> c1 = UBX_CHAR_SYNC1 then
          (case process_cfg_data ops (drop di dtp) (len - di) cp st of
             None \<Rightarrow> None
           | Some (r, cp, st) \<Rightarrow>
               if r < 0 then Some (- 1, st) else parse_loop ops dtp len (di + nat r) cp 0 st)
        else if c0 = NMEA_START_CH0 \<and> c1 = NMEA_START_CH1 then
          (case process_nmea_data ops (drop di dtp) (len - di) st of
             None \<Rightarrow> None
           | Some (r, st) \<Rightarrow>
               if r < 0 then Some (- 1, st) else parse_loop ops dtp len (di + nat r) cp 0 st)
        else if c0 = 0xFF \<and> MAX_FF_COUNT_FOR_DISCARD < ff + 1 then Some (- 1, st)
        else parse_loop ops dtp len (di + 1) cp (if c0 = 0xFF then ff + 1 else ff)
               (rw_stat (\<lambda>s. s\<lparr>skip_invalid_msg_hdr := skip_invalid_msg_hdr s + 1\<rparr>) st) }
      else Some (0, st))"
  by pat_completeness auto
termination
proof (relation "measure (\<lambda>(ops, dtp, len, di, cp, ff, st). len - di)", goal_cases)
  case (2 ops dtp len di cp ff st c0 c1 x r y cp' st')
  then have "process_cfg_data ops (drop di dtp) (len - di) cp st = Some (r, cp', st')" by simp
  from process_cfg_data_progress [OF this] 2 show ?case by auto
next
  case (3 ops dtp len di cp ff st c0 c1 x r st')
  then have "process_nmea_data ops (drop di dtp) (len - di) st = Some (r, st')" by simp
  moreover have "arr_get (drop di dtp) 0 = Some NMEA_START_CH0"
    using 3 by (auto simp: arr_get_def split: if_splits)
  ultimately show ?case using process_nmea_data_progress 3 by fastforce
qed auto

declare parse_loop.simps [simp del]

definition parse_nmea_and_cfg_msg :: "'d i2c_ops \<Rightarrow> u8 list \<Rightarrow> nat \<Rightarrow> 'd ublox_msg_data \<Rightarrow> (int \<times> 'd ublox_msg_data) option" where
  "parse_nmea_and_cfg_msg ops dtp len st = parse_loop ops dtp len 0 0 0 st"

text \<open>Reading the device until it has no more or the buffer is full, starting with \<open>len\<close> bytes in it.\<close>

function rd_loop :: "'d i2c_ops \<Rightarrow> nat \<Rightarrow> u8 list \<Rightarrow> 'd ublox_msg_data \<Rightarrow> (nat \<times> u8 list \<times> 'd ublox_msg_data) option" where
  "rd_loop ops len buf st =
     (case ublox_dev_rd ops len (I2C_MSG_MAX_SIZE - len) buf st of
        None \<Rightarrow> None
      | Some (r, buf, st) \<Rightarrow>
          if r < 0 then Some (len, buf, st\<lparr>adj_timer_value_ms := 20\<rparr>)
          else if 0 < r \<and> len + nat r < I2C_MSG_MAX_SIZE then rd_loop ops (len + nat r) buf st
          else Some (len + nat r, buf, st))"
  by pat_completeness auto
termination by (relation "measure (\<lambda>(ops, len, buf, st). I2C_MSG_MAX_SIZE - len)") auto

declare rd_loop.simps [simp del]

definition do_tgd_ublox_msg_processing :: "'d i2c_ops \<Rightarrow> 'd ublox_msg_data \<Rightarrow> (int \<times> 'd ublox_msg_data) option" where
  "do_tgd_ublox_msg_processing ops st =
     (case i2c_data st of
        None \<Rightarrow> Some (- 1, st)
      | Some buf \<Rightarrow> do {
          (len, buf, st) \<leftarrow> rd_loop ops 0 buf st;
          let st = st\<lparr>i2c_data := Some buf\<rparr>;
          if len < UBX_MSG_HDR_AND_CHEKSUM_SIZE then
            Some (- 1, if len \<noteq> 0 then rw_stat (\<lambda>s. s\<lparr>rd_pkt_len_error := rd_pkt_len_error s + 1\<rparr>) st else st)
          else
            parse_nmea_and_cfg_msg ops buf len
              ((rw_stat (\<lambda>s. s\<lparr>rd_pkt_count := rd_pkt_count s + 1\<rparr>) st)\<lparr>i2c_data_len := len\<rparr>) })"
end
