(* ===== verification/UbloxParse.thy ===== *)
theory UbloxParse
  imports UbloxMsg
begin

text \<open>
  The u-blox message layer is correct: commands are framed as the parser expects them, a message with
  a damaged byte is refused, a stream of messages is delivered in order, the parser stays in its
  buffer and keeps the rest of the driver's state, and the time the clients are given is the time of
  the receiver.
\<close>

section \<open>Frames\<close>

text \<open>The wire format: synchronisation, class and message id, length, payload and checksum.\<close>

definition ubx_body :: "u8 \<Rightarrow> u8 \<Rightarrow> u8 list \<Rightarrow> u8 list" where
  "ubx_body c0 c1 p = [c0, c1, of_nat (length p), of_nat (length p div 256)] @ p"

definition ubx_frame :: "u8 \<Rightarrow> u8 \<Rightarrow> u8 list \<Rightarrow> u8 list" where
  "ubx_frame c0 c1 p = [UBX_CHAR_SYNC0, UBX_CHAR_SYNC1] @ ubx_body c0 c1 p @
     [fst (nmea_checksum (ubx_body c0 c1 p)), snd (nmea_checksum (ubx_body c0 c1 p))]"

lemma length_ubx_body [simp]: "length (ubx_body c0 c1 p) = length p + 4"
  by (simp add: ubx_body_def)

lemma length_ubx_frame [simp]: "length (ubx_frame c0 c1 p) = length p + 8"
  by (simp add: ubx_frame_def)

text \<open>Writing a frame piece by piece.\<close>

lemma frame_writes:
  assumes "length p + 8 \<le> length dst"
  shows "do {
      dst \<leftarrow> mem_write 0 [UBX_CHAR_SYNC0, UBX_CHAR_SYNC1, c0, c1, of_nat (length p), of_nat (length p div 256)] dst;
      dst \<leftarrow> mem_write MSG_HDR_SIZE p dst;
      body \<leftarrow> mem_read 2 (length p + 4) dst;
      let (ck0, ck1) = nmea_checksum body;
      mem_write (6 + length p) [ck0, ck1] dst
    } = Some (ubx_frame c0 c1 p @ drop (length p + 8) dst)"
proof -
  define h where "h = [UBX_CHAR_SYNC0, UBX_CHAR_SYNC1, c0, c1, of_nat (length p), of_nat (length p div 256)]"
  have h: "length h = 6" by (simp add: h_def)
  have w1: "mem_write 0 h dst = Some (h @ drop 6 dst)"
    using assms h by (simp add: mem_write_def)
  have w2: "mem_write 6 p (h @ drop 6 dst) = Some (h @ p @ drop (length p + 6) dst)"
    using assms h by (simp add: mem_write_def add.commute)
  have "drop 2 h @ p = ubx_body c0 c1 p" by (simp add: h_def ubx_body_def)
  then have r: "mem_read 2 (length p + 4) (h @ p @ drop (length p + 6) dst) = Some (ubx_body c0 c1 p)"
    using assms h by (simp add: mem_read_def)
  have w3: "mem_write (6 + length p) [k0, k1] (h @ p @ drop (length p + 6) dst) =
      Some (h @ p @ [k0, k1] @ drop (length p + 8) dst)" for k0 k1
    using assms h by (simp add: mem_write_def add.commute)
  have f: "ubx_frame c0 c1 p = h @ p @ [fst (nmea_checksum (ubx_body c0 c1 p)), snd (nmea_checksum (ubx_body c0 c1 p))]"
    by (simp add: ubx_frame_def ubx_body_def h_def)
  show ?thesis
    unfolding h_def [symmetric]
    by (cases "nmea_checksum (ubx_body c0 c1 p)") (simp add: w1 w2 r w3 f Let_def)
qed

lemma prep_cmd_frame:
  assumes "length p + 8 \<le> length dst"
  shows "prep_cmd_with_hdr_chk_sum c0 c1 p (length p) dst (length dst) =
           Some (int (length p + 8), ubx_frame c0 c1 p @ drop (length p + 8) dst)"
proof -
  have "mem_read 0 (length p) p = Some p" by (simp add: mem_read_def)
  then show ?thesis
    using frame_writes [OF assms, of c0 c1] assms
    by (auto simp: prep_cmd_with_hdr_chk_sum_def Let_def split: Option.bind_splits prod.splits)
qed


lemma prep_cfg_frame:
  assumes "length p + 8 \<le> length dst" and "get_cfg_msg_table_index tag = Some i"
    and "d = Some p \<or> d = None \<and> p = []"
  shows "prep_cfg_cmd tag d (length p) dst (length dst) =
           Some (int (length p + 8),
                 ubx_frame (fst (um_clsid (table_cfg_ubx_msg ! i))) (snd (um_clsid (table_cfg_ubx_msg ! i))) p @
                 drop (length p + 8) dst)"
proof -
  have "(case d of None \<Rightarrow> Some [] | Some d \<Rightarrow> mem_read 0 (length p) d) = Some p"
    using assms(3) by (auto simp: mem_read_def)
  then show ?thesis
    using frame_writes [OF assms(1), of "fst (um_clsid (table_cfg_ubx_msg ! i))" "snd (um_clsid (table_cfg_ubx_msg ! i))"]
      assms(2,3)
    by (cases "um_clsid (table_cfg_ubx_msg ! i)")
      (use assms(1) in \<open>auto simp: prep_cfg_cmd_def Let_def split: Option.bind_splits prod.splits option.splits\<close>)
qed

text \<open>The parser takes a frame for what it is, whatever follows it.\<close>

lemma frame_bytes:
  shows "arr_get (ubx_frame c0 c1 p @ rest) 0 = Some UBX_CHAR_SYNC0"
    and "arr_get (ubx_frame c0 c1 p @ rest) 1 = Some UBX_CHAR_SYNC1"
    and "arr_get (ubx_frame c0 c1 p @ rest) 2 = Some c0"
    and "arr_get (ubx_frame c0 c1 p @ rest) 3 = Some c1"
    and "arr_get (ubx_frame c0 c1 p @ rest) 4 = Some (of_nat (length p))"
    and "arr_get (ubx_frame c0 c1 p @ rest) 5 = Some (of_nat (length p div 256))"
  by (simp_all add: arr_get_def ubx_frame_def ubx_body_def nth_Cons')

lemma frame_body: "mem_read 2 (length p + 4) (ubx_frame c0 c1 p @ rest) = Some (ubx_body c0 c1 p)"
  by (simp add: mem_read_def ubx_frame_def)

lemma frame_checksum:
  "arr_get (ubx_frame c0 c1 p @ rest) (length p + 6) = Some (fst (nmea_checksum (ubx_body c0 c1 p)))"
  "arr_get (ubx_frame c0 c1 p @ rest) (7 + length p) = Some (snd (nmea_checksum (ubx_body c0 c1 p)))"
  by (simp_all add: arr_get_def ubx_frame_def nth_append)

lemma len_field:
  assumes "n < 65536"
  shows "unat (of_nat (n div 256) :: u8) * 256 + unat (of_nat n :: u8) = n"
  using assms by (simp add: unat_of_nat_u8)

lemma process_cfg_frame:
  assumes "length p < 65536" and "length p + 8 \<le> rsp_len"
  shows "process_cfg_data ops (ubx_frame c0 c1 p @ rest) rsp_len cp st =
     do { (cp, st) \<leftarrow> cfg_dispatch ops (ubx_frame c0 c1 p @ rest) (length p + 8) cp st;
          Some (int (length p + 8), cp, st) }"
  using assms
  by (simp add: process_cfg_data_def frame_bytes frame_body frame_checksum len_field Let_def)

section \<open>Damaged messages\<close>

lemma checksum_fold:
  "fold (\<lambda>b (ckA, ckB). (ckA + b, ckB + (ckA + b))) msg (a, c :: u8) =
     (a + sum_list msg, c + snd (fold (\<lambda>b (ckA, ckB). (ckA + b, ckB + (ckA + b))) msg (a, 0)))"
proof (induction msg arbitrary: a c)
  case (Cons b msg)
  show ?case
    using Cons.IH [of "a + b" "c + (a + b)"] Cons.IH [of "a + b" "a + b"] by (simp add: add.assoc)
qed simp

lemma fst_nmea_checksum: "fst (nmea_checksum msg) = sum_list msg"
  unfolding nmea_checksum_def by (subst checksum_fold) simp

text \<open>The first checksum byte is the sum of the bytes, so changing one byte changes it.\<close>

lemma checksum_one_byte:
  assumes "i < length msg" and "x \<noteq> msg ! i"
  shows "nmea_checksum (msg[i := x]) \<noteq> nmea_checksum msg"
proof -
  have "sum_list (msg[i := x]) + msg ! i = sum_list msg + x"
    using sum_list_map_update [OF assms(1), of "\<lambda>x. x" x] by simp
  then have "sum_list (msg[i := x]) \<noteq> sum_list msg" using assms(2) by (metis add_left_cancel)
  then show ?thesis by (metis fst_nmea_checksum)
qed

text \<open>
  C40. A message in which one byte of the class, the message id, the payload or the checksum was
  changed on the way is refused: the parser counts a checksum error, skips one byte, and leaves the
  rest of the state as it was. The sync bytes and the length are not covered: without its sync bytes a
  message is not recognised as one, and a changed length changes which bytes the checksum is compared with.
\<close>

theorem damaged_message_refused:
  assumes "length p < 65536" and "length p + 8 \<le> rsp_len"
    and "i \<in> {2, 3} \<union> {6..<length p + 8}" and "x \<noteq> ubx_frame c0 c1 p ! i"
  shows "process_cfg_data ops ((ubx_frame c0 c1 p)[i := x] @ rest) rsp_len cp st =
           Some (1, cp, rw_stat (\<lambda>s. s\<lparr>cheksum_error := cheksum_error s + 1\<rparr>) st)"
proof -
  let ?f = "ubx_frame c0 c1 p" and ?b = "ubx_body c0 c1 p"
  let ?g = "?f[i := x] @ rest"
  have i: "i < length p + 8" "2 \<le> i" "i \<noteq> 4" "i \<noteq> 5" using assms(3) by auto
  have get: "arr_get ?g k = (if k = i then Some x else arr_get (?f @ rest) k)" for k
    using i(1) by (auto simp: arr_get_def nth_append)
  have "take (length p + 4) (drop 2 ?f) = ?b" using frame_body [of p c0 c1 "[]"] by (simp add: mem_read_def)
  then have body: "mem_read 2 (length p + 4) ?g = Some (?b[i - 2 := x])"
    using i(2) by (simp add: mem_read_def drop_update_swap take_update_swap)
  have fb: "?f ! i = ?b ! (i - 2)" if "i < length p + 6"
    using i(2) that by (auto simp: ubx_frame_def nth_append nth_Cons' numeral_2_eq_2)
  have fk: "arr_get (?f @ rest) i = Some (?f ! i)" using i(1) by (simp add: arr_get_def nth_append)
  define k0 where "k0 = (if length p + 6 = i then x else fst (nmea_checksum ?b))"
  define k1 where "k1 = (if 7 + length p = i then x else snd (nmea_checksum ?b))"
  have "nmea_checksum (?b[i - 2 := x]) \<noteq> (k0, k1)"
  proof (cases "i < length p + 6")
    case True
    then have "nmea_checksum (?b[i - 2 := x]) \<noteq> nmea_checksum ?b"
      using i(2) assms(4) fb by (intro checksum_one_byte) auto
    then show ?thesis using True by (simp add: k0_def k1_def)
  next
    case False
    then have "?b[i - 2 := x] = ?b" by (simp add: list_update_beyond)
    moreover consider "i = length p + 6" | "i = 7 + length p" using False i(1) by linarith
    then have "nmea_checksum ?b \<noteq> (k0, k1)"
      using assms(4) fk frame_checksum [of c0 c1 p rest] by cases (auto simp: prod_eq_iff k0_def k1_def)
    ultimately show ?thesis by simp
  qed
  moreover have "arr_get ?g (length p + 6) = Some k0" "arr_get ?g (7 + length p) = Some k1"
    by (simp_all add: get frame_checksum k0_def k1_def)
  ultimately show ?thesis
    using assms(1,2) i(3,4) by (simp add: process_cfg_data_def get [of 4] get [of 5] body frame_bytes len_field Let_def)
qed


section \<open>A message is handled by its own bytes\<close>

text \<open>
  A computation that reads a buffer without leaving it gives the same result when more bytes follow
  the buffer: \<open>le_opt\<close>, a fault is below every result.
\<close>

definition le_opt :: "'a option \<Rightarrow> 'a option \<Rightarrow> bool" where
  "le_opt a b \<longleftrightarrow> (\<forall>v. a = Some v \<longrightarrow> b = Some v)"

lemma le_optD: "le_opt a b \<Longrightarrow> a = Some v \<Longrightarrow> b = Some v"
  by (simp add: le_opt_def)

named_theorems grow \<open>reads in a buffer that grows at its end\<close>

lemma le_opt_refl [grow]: "le_opt a a"
  by (simp add: le_opt_def)

lemma le_opt_bind [grow]:
  "le_opt m m' \<Longrightarrow> (\<And>v. le_opt (f v) (f' v)) \<Longrightarrow> le_opt (Option.bind m f) (Option.bind m' f')"
  by (auto simp: le_opt_def bind_eq_Some_conv)

lemma le_opt_if [grow]: "le_opt a a' \<Longrightarrow> le_opt c c' \<Longrightarrow> le_opt (if b then a else c) (if b then a' else c')"
  by simp

lemma le_opt_prod [grow]: "(\<And>a b. le_opt (f a b) (g a b)) \<Longrightarrow> le_opt (case_prod f v) (case_prod g v)"
  by (simp split: prod.splits)

lemma le_opt_option [grow]:
  "le_opt a a' \<Longrightarrow> (\<And>x. le_opt (f x) (f' x)) \<Longrightarrow> le_opt (case_option a f v) (case_option a' f' v)"
  by (simp split: option.splits)

lemma le_opt_arr_get [grow]: "le_opt (arr_get p i) (arr_get (p @ x) i)"
  by (auto simp: le_opt_def arr_get_def nth_append split: if_splits)

lemma le_opt_mem_read [grow]: "le_opt (mem_read off n p) (mem_read off n (p @ x))"
  by (auto simp: le_opt_def mem_simps)

lemma le_opt_LE [grow]:
  "le_opt (LE_HOST_UINT off p) (LE_HOST_UINT off (p @ x))" "le_opt (LE_HOST_SHORT off p) (LE_HOST_SHORT off (p @ x))"
  unfolding LE_HOST_UINT_def LE_HOST_SHORT_def by (intro grow)+

lemma le_opt_svinf [grow]: "le_opt (svinf_channels p i n vs) (svinf_channels (p @ x) i n vs)"
  by (induction n arbitrary: i vs) (auto intro!: grow)

lemma le_opt_tos_read [grow]: "le_opt (tos_read p) (tos_read (p @ x))"
  unfolding tos_read_def by (intro grow)

lemma le_opt_handlers [grow]:
  "le_opt (time_tos_handler p len st) (time_tos_handler (p @ x) len st)"
  "le_opt (nav_svinf_msg_handler p len st) (nav_svinf_msg_handler (p @ x) len st)"
  "le_opt (nav_pvt_msg_handler p len st) (nav_pvt_msg_handler (p @ x) len st)"
  "le_opt (time_srvyin_handler p len st) (time_srvyin_handler (p @ x) len st)"
  "le_opt (mon_smgr_msg_handler p len st) (mon_smgr_msg_handler (p @ x) len st)"
  unfolding time_tos_handler_def nav_svinf_msg_handler_def nav_pvt_msg_handler_def time_srvyin_handler_def
    mon_smgr_msg_handler_def Let_def
  by (intro grow)+

lemma le_opt_call_hndlr:
  "h \<noteq> Ignore_nmea_rsp \<Longrightarrow> le_opt (call_hndlr ops h p len st) (call_hndlr ops h (p @ x) len st)"
  by (cases h) (simp_all add: call_hndlr_def grow)

lemma lookup_cfg_hndlr: "lookup_cfg_msg c0 c1 = Some d \<Longrightarrow> proc_msg d \<noteq> Ignore_nmea_rsp"
  by (auto simp: lookup_cfg_msg_def table_cfg_ubx_msg_def split: if_splits)

lemma le_opt_dispatch: "le_opt (cfg_dispatch ops p n cp st) (cfg_dispatch ops (p @ x) n cp st)"
proof -
  have "le_opt (case lookup_cfg_msg c0 c1 of None \<Rightarrow> Some (- 1, st)
        | Some d \<Rightarrow> do { (r, st) \<leftarrow> call_hndlr ops (proc_msg d) p n st; Some (0, st) })
      (case lookup_cfg_msg c0 c1 of None \<Rightarrow> Some (- 1, st)
        | Some d \<Rightarrow> do { (r, st) \<leftarrow> call_hndlr ops (proc_msg d) (p @ x) n st; Some (0, st) })"
    for c0 c1 and st :: "'a ublox_msg_data"
    by (auto intro!: le_opt_bind le_opt_refl le_opt_call_hndlr split: option.splits dest: lookup_cfg_hndlr)
  then have "le_opt (handle_config_resp ops p n st) (handle_config_resp ops (p @ x) n st)" for st
    unfolding handle_config_resp_def by (intro le_opt_if le_opt_bind le_opt_arr_get le_opt_refl)
  note [grow] = this
  show ?thesis unfolding cfg_dispatch_def Let_def by (intro grow)
qed

section \<open>A stream of messages\<close>

text \<open>The specification: each message is dispatched on its own bytes, in the order of the stream.\<close>

type_synonym ubx_msg = "u8 \<times> u8 \<times> u8 list"

definition wire :: "ubx_msg \<Rightarrow> u8 list" where
  "wire m = (case m of (c0, c1, p) \<Rightarrow> ubx_frame c0 c1 p)"

lemma wire_tuple [simp]: "wire (c0, c1, p) = ubx_frame c0 c1 p"
  by (simp add: wire_def)

fun deliver_all :: "'d i2c_ops \<Rightarrow> ubx_msg list \<Rightarrow> nat \<Rightarrow> 'd ublox_msg_data \<Rightarrow> (nat \<times> 'd ublox_msg_data) option" where
  "deliver_all ops [] cp st = Some (cp, st)"
| "deliver_all ops (m # ms) cp st = do {
     (cp, st) \<leftarrow> cfg_dispatch ops (wire m) (length (wire m)) cp st;
     deliver_all ops ms cp st }"

lemma parse_loop_frames:
  assumes "deliver_all ops ms cp st = Some (cp', st')"
    and "\<forall>(c0, c1, p) \<in> set ms. p \<noteq> [] \<and> length p < 65536"
  shows "parse_loop ops (pre @ concat (map wire ms) @ rest) (length pre + length (concat (map wire ms)))
           (length pre) cp ff st = Some (0, st')"
  using assms
proof (induction ms arbitrary: pre cp ff st)
  case Nil
  then show ?case by (simp add: parse_loop.simps)
next
  case (Cons m ms)
  obtain c0 c1 p where m: "m = (c0, c1, p)" by (cases m)
  have p: "p \<noteq> []" "length p < 65536" using Cons.prems(2) m by auto
  let ?f = "ubx_frame c0 c1 p" and ?tail = "concat (map wire ms) @ rest"
  obtain cp1 st1 where d: "cfg_dispatch ops ?f (length p + 8) cp st = Some (cp1, st1)"
    and ds: "deliver_all ops ms cp1 st1 = Some (cp', st')"
    using Cons.prems(1) m by (auto split: Option.bind_splits)
  have d': "cfg_dispatch ops (?f @ ?tail) (length p + 8) cp st = Some (cp1, st1)"
    using le_optD [OF le_opt_dispatch d] .
  let ?n = "length (concat (map wire ms))"
  have proc: "process_cfg_data ops (?f @ ?tail) (length p + 8 + ?n) cp st = Some (int (length p + 8), cp1, st1)"
    using process_cfg_frame [OF p(2), of "length p + 8 + ?n" ops c0 c1 ?tail cp st] d' by simp
  have b: "arr_get (pre @ ?f @ ?tail) (length pre) = Some UBX_CHAR_SYNC0"
    "arr_get (pre @ ?f @ ?tail) (Suc (length pre)) = Some UBX_CHAR_SYNC1"
    using frame_bytes(1,2) [of c0 c1 p ?tail] by (auto simp: arr_get_def nth_append split: if_splits)
  have step: "parse_loop ops (pre @ ?f @ ?tail) (length pre + (length p + 8 + ?n)) (length pre) cp ff st =
      parse_loop ops (pre @ ?f @ ?tail) (length pre + (length p + 8 + ?n)) (length pre + (length p + 8)) cp1 0 st1"
    using b proc p(1) by (subst parse_loop.simps) (simp add: nat_add_distrib)
  have "parse_loop ops ((pre @ ?f) @ concat (map wire ms) @ rest) (length (pre @ ?f) + ?n) (length (pre @ ?f)) cp1 0 st1 =
      Some (0, st')"
    by (rule Cons.IH [OF ds]) (use Cons.prems(2) in simp)
  then have "parse_loop ops (pre @ ?f @ ?tail) (length pre + (length p + 8 + ?n)) (length pre + (length p + 8)) cp1 0 st1 =
      Some (0, st')"
    by (simp add: add.assoc)
  with step show ?case by (simp add: m add.assoc)
qed

text \<open>
  C24. A read that holds complete messages, each with a payload, is delivered message by message: the
  parser does for each of them, in order and once, what the dispatch of that message by its own bytes
  does, whatever bytes lie behind them in the buffer.
\<close>

theorem stream_delivered_in_order:
  assumes "deliver_all ops ms 0 st = Some (cp, st')"
    and "\<forall>(c0, c1, p) \<in> set ms. p \<noteq> [] \<and> length p < 65536"
  shows "parse_nmea_and_cfg_msg ops (concat (map wire ms) @ rest) (length (concat (map wire ms))) st = Some (0, st')"
  using parse_loop_frames [OF assms, of "[]" rest 0] by (simp add: parse_nmea_and_cfg_msg_def)

section \<open>The parser stays in its buffers\<close>

text \<open>The commands among the recorded events: those that were sent, and those that were taken into the queue.\<close>

definition cmds :: "ub_event list \<Rightarrow> u8 list list" where
  "cmds es = concat (map (\<lambda>e. case e of Cmd_sent b \<Rightarrow> [b] | _ \<Rightarrow> []) es)"

definition queued :: "ub_event list \<Rightarrow> u8 list list" where
  "queued es = concat (map (\<lambda>e. case e of Cmd_queued b \<Rightarrow> [b] | _ \<Rightarrow> []) es)"

lemma cmds_simps [simp]: "cmds [] = []" "cmds (xs @ ys) = cmds xs @ cmds ys" "cmds [Cmd_sent b] = [b]"
  "cmds [Cmd_queued b] = []" "cmds [Stat_update c s] = []" "cmds (map (\<lambda>c. Time_update (f c) t) cs) = []"
  by (simp_all add: cmds_def comp_def)

lemma queued_simps [simp]: "queued [] = []" "queued (xs @ ys) = queued xs @ queued ys" "queued [Cmd_queued b] = [b]"
  "queued [Cmd_sent b] = []" "queued [Stat_update c s] = []" "queued (map (\<lambda>c. Time_update (f c) t) cs) = []"
  by (simp_all add: queued_def comp_def)

definition stat_wf :: "t_ublox_stat_data \<Rightarrow> bool" where
  "stat_wf s \<longleftrightarrow> length (space_veh_info s) = MAX_NUM_SV \<and> num_space_veh s \<le> MAX_NUM_SV \<and> gnss_fix s \<le> 6"

definition ub_wf :: "'d ublox_msg_data \<Rightarrow> bool" where
  "ub_wf st \<longleftrightarrow>
     length (cfg_cmd_ack_rsp st) = UBLX_CFG_ACK_MAX_SIZE \<and> cfg_cmd_ack_rsp_len st \<le> UBLX_CFG_ACK_MAX_SIZE \<and>
     pred_option (\<lambda>c. length c = CFG_RSP_MAX) (cfg_rsp_copy st) \<and> ublx_cfg_rsp_len st \<le> CFG_RSP_MAX \<and>
     pred_option (\<lambda>b. length b = I2C_MSG_MAX_SIZE) (i2c_data st) \<and>
     length (nmea_msg_enable st) = length table_nmea_ubx_msg \<and> stat_wf (stat_d st)"

text \<open>What a handler leaves alone; it may end the wait for an answer.\<close>

definition keeps :: "'d ublox_msg_data \<Rightarrow> 'd ublox_msg_data \<Rightarrow> bool" where
  "keeps st st' \<longleftrightarrow>
     init_flag st' = init_flag st \<and> timer_running st' = timer_running st \<and> tm_exp_in_ms st' = tm_exp_in_ms st \<and>
     ublox_state st' = ublox_state st \<and> ublox_sm_state_count st' = ublox_sm_state_count st \<and>
     one_sec_count st' = one_sec_count st \<and> timer_shutting_down st' = timer_shutting_down st \<and>
     accmulated_ms st' = accmulated_ms st \<and> gps_timer st' = gps_timer st \<and>
     work_pending st' = work_pending st \<and> cmds (ub_log st') = cmds (ub_log st) \<and>
     queued (ub_log st') = queued (ub_log st) \<and> q_hndlr st' = q_hndlr st \<and> time_sync_mode st' = time_sync_mode st \<and>
     srvy_in_start_time st' = srvy_in_start_time st \<and> prev_one_sec_count st' = prev_one_sec_count st \<and>
     stat_push_armed st' = stat_push_armed st \<and> stat_push_interval st' = stat_push_interval st \<and>
     clnt_list st' = clnt_list st \<and>
     platform_dev st' = platform_dev st \<and> g_dbg_mask st' = g_dbg_mask st \<and> kmalloc_fails st' = kmalloc_fails st \<and>
     (i2c_data st' = None \<longleftrightarrow> i2c_data st = None) \<and> (cfg_rsp_copy st' = None \<longleftrightarrow> cfg_rsp_copy st = None) \<and>
     (dev_busy_time st' = dev_busy_time st \<or> dev_busy_time st' = 0)"

lemma keeps_refl [simp]: "keeps st st"
  by (simp add: keeps_def)

lemma keeps_trans: "keeps st st' \<Longrightarrow> keeps st' st'' \<Longrightarrow> keeps st st''"
  unfolding keeps_def by (elim conjE) (intro conjI; force)

lemma LE_HOST_defined [simp]:
  "off + 4 \<le> length p \<Longrightarrow> LE_HOST_UINT off p = Some (of_nat (le_val (take 4 (drop off p))))"
  "off + 2 \<le> length p \<Longrightarrow> LE_HOST_SHORT off p = Some (of_nat (le_val (take 2 (drop off p))))"
  by (simp_all add: LE_HOST_UINT_def LE_HOST_SHORT_def mem_read_def)

lemma arr_get_defined: "i < length p \<Longrightarrow> arr_get p i = Some (p ! i)"
  by (simp add: arr_get_def)

lemma rw_stat_keeps [simp]: "keeps (rw_stat f st) st' = keeps st st'" "keeps st (rw_stat f st') = keeps st st'"
  by (simp_all add: keeps_def rw_stat_def)

lemma rw_stat_wf [simp]: "ub_wf (rw_stat f st) = ub_wf st"
  by (simp add: ub_wf_def rw_stat_def stat_wf_def)

lemma svinf_channels_ok:
  assumes "(i + n) * 12 + 14 \<le> length p" and "i + n \<le> length vs"
  shows "\<exists>vs'. svinf_channels p i n vs = Some vs' \<and> length vs' = length vs"
  using assms
proof (induction n arbitrary: i vs)
  case (Suc n)
  have "\<exists>vs'. svinf_channels p (Suc i) n (vs[i := v]) = Some vs' \<and> length vs' = length vs" for v
    using Suc.IH [of "Suc i" "vs[i := v]"] Suc.prems by simp
  then show ?case using Suc.prems by (simp add: arr_get_defined arr_set_def)
qed simp

lemma tos_read_ok: "54 \<le> length p \<Longrightarrow> \<exists>tp. tos_read p = Some tp"
  by (simp add: tos_read_def arr_get_defined)

definition fine :: "'d ublox_msg_data \<Rightarrow> (int \<times> 'd ublox_msg_data) option \<Rightarrow> bool" where
  "fine st res \<longleftrightarrow> (\<exists>r st'. res = Some (r, st') \<and> ub_wf st' \<and> keeps st st')"

lemma time_tos_ok: "ub_wf st \<Longrightarrow> len \<le> length p \<Longrightarrow> fine st (time_tos_handler p len st)"
  using tos_read_ok [of p]
  by (auto simp: time_tos_handler_def fine_def Let_def ublox_gps_update_time_def ub_wf_def stat_wf_def keeps_def rw_stat_def)

lemma nav_svinf_ok:
  assumes "ub_wf st" and "len \<le> length p"
  shows "fine st (nav_svinf_msg_handler p len st)"
proof (cases "len < 14")
  case False
  let ?n = "unat (p ! 10)"
  let ?k = "if MAX_NUM_SV < ?n then MAX_NUM_SV else ?n"
  show ?thesis
  proof (cases "len < ?n * 12 + 14")
    case len: False
    have "(0 + ?k) * 12 + 14 \<le> length p" using len assms(2) by auto
    moreover have "0 + ?k \<le> length (space_veh_info (stat_d st))" using assms(1) by (simp add: ub_wf_def stat_wf_def)
    ultimately obtain vs where "svinf_channels p 0 ?k (space_veh_info (stat_d st)) = Some vs"
      "length vs = length (space_veh_info (stat_d st))" using svinf_channels_ok by blast
    with False len assms show ?thesis
      by (auto simp: nav_svinf_msg_handler_def arr_get_defined fine_def Let_def ub_wf_def stat_wf_def keeps_def)
  qed (use False assms in \<open>simp add: nav_svinf_msg_handler_def arr_get_defined fine_def\<close>)
qed (use assms in \<open>simp add: nav_svinf_msg_handler_def fine_def\<close>)

lemma nav_pvt_ok: "ub_wf st \<Longrightarrow> len \<le> length p \<Longrightarrow> fine st (nav_pvt_msg_handler p len st)"
  by (auto simp: nav_pvt_msg_handler_def arr_get_defined fine_def Let_def ub_wf_def stat_wf_def keeps_def word_le_nat_alt)

lemma mon_smgr_ok: "ub_wf st \<Longrightarrow> len \<le> length p \<Longrightarrow> fine st (mon_smgr_msg_handler p len st)"
  by (auto simp: mon_smgr_msg_handler_def arr_get_defined fine_def ub_wf_def stat_wf_def keeps_def)

lemma time_srvyin_ok: "ub_wf st \<Longrightarrow> 32 \<le> length p \<Longrightarrow> fine st (time_srvyin_handler p len st)"
  by (simp add: time_srvyin_handler_def arr_get_defined fine_def ub_wf_def stat_wf_def keeps_def)

lemma index_of_less: "index_of P xs = Some i \<Longrightarrow> i < length xs"
  by (induction xs arbitrary: i) (auto split: if_splits)

text \<open>The command that turns a message on or off is a frame of 16 bytes.\<close>

lemma prep_on_off_ok:
  assumes "ub_wf st" and "16 \<le> length dst" and "msg_type = eUBLOX_MSG_NMEA \<and> 3 \<le> length tag \<or> msg_type = eUBLOX_MSG_CFG"
  shows "\<exists>n dst' st'. prep_on_off_cmd msg_type tag e dst (length dst) st = Some (n, dst', st') \<and>
           (n = - 1 \<or> (\<exists>c0 c1. n = 16 \<and>
             dst' = ubx_frame 0x06 0x01 [c0, c1, if e \<noteq> eMSG_DISABLD then 1 else 0, 0, 0, 0, 0, 0] @ drop 16 dst)) \<and>
           ub_wf st' \<and> st' = st\<lparr>nmea_msg_enable := nmea_msg_enable st'\<rparr>"
proof -
  have f: "prep_cmd_with_hdr_chk_sum 0x06 0x01 [c0, c1, g, 0, 0, 0, 0, 0] UBX_MSG_CTRL_SIZE dst (length dst) =
      Some (16, ubx_frame 0x06 0x01 [c0, c1, g, 0, 0, 0, 0, 0] @ drop 16 dst)" for c0 c1 g
  proof -
    have l: "length [c0, c1, g, 0, 0, 0, 0, 0] = 8" by simp
    show ?thesis using prep_cmd_frame [of "[c0, c1, g, 0, 0, 0, 0, 0]" dst "0x06" "0x01", unfolded l] assms(2) by simp
  qed
  from assms(3) show ?thesis
  proof (elim disjE conjE)
    assume m: "msg_type = eUBLOX_MSG_NMEA" "3 \<le> length tag"
    then obtain i where i: "get_nmea_msg_table_index tag = Some i"
      by (simp add: get_nmea_msg_table_index_def mem_read_def)
    show ?thesis using assms(1,2) m(1) i
      by (cases i; cases "um_clsid (table_nmea_ubx_msg ! the i)")
        (auto simp: prep_on_off_cmd_def f ub_wf_def Let_def)
  next
    assume m: "msg_type = eUBLOX_MSG_CFG"
    let ?i = "get_cfg_msg_table_index (map (\<lambda>b. char_of (unat b)) tag)"
    show ?thesis using assms(1,2) m
      by (cases ?i; cases "um_clsid (table_cfg_ubx_msg ! the ?i)")
        (auto simp: prep_on_off_cmd_def f Let_def)
  qed
qed

lemma keeps_handle [simp]: "keeps st (st'\<lparr>ublox_handle := x\<rparr>) = keeps st st'"
  by (simp add: keeps_def)

lemma keeps_enable [simp]: "keeps st (st'\<lparr>nmea_msg_enable := x\<rparr>) = keeps st st'"
  by (simp add: keeps_def)

lemma wf_handle [simp]: "ub_wf (st\<lparr>ublox_handle := x\<rparr>) = ub_wf st"
  by (simp add: ub_wf_def)

lemma write_on_off_ok:
  assumes "ub_wf st" and "3 \<le> length tag"
  shows "fine st (ubx_write_cfg_msg_on_off ops eUBLOX_MSG_NMEA tag e st)"
proof -
  obtain n dst st' where p: "prep_on_off_cmd eUBLOX_MSG_NMEA tag e (replicate 48 0) 48 st = Some (n, dst, st')"
    "n = - 1 \<or> n = 16 \<and> 16 \<le> length dst" "ub_wf st'" "st' = st\<lparr>nmea_msg_enable := nmea_msg_enable st'\<rparr>"
    using prep_on_off_ok [OF assms(1), of "replicate 48 0" eUBLOX_MSG_NMEA tag e] assms(2) by auto
  have k: "keeps st st'" by (subst p(4)) simp
  from p(2) show ?thesis
  proof
    assume "n = 16 \<and> 16 \<le> length dst"
    then have "mem_read 0 (nat n) dst = Some (take 16 dst)" "n = 16" by (simp_all add: mem_read_def)
    with p(1,3) k show ?thesis
      by (auto simp: ubx_write_cfg_msg_on_off_def fine_def ublox_dev_wr_def split: prod.splits)
  qed (use p k in \<open>simp add: ubx_write_cfg_msg_on_off_def fine_def\<close>)
qed

lemma ignore_nmea_ok:
  assumes "ub_wf st" and "6 \<le> length p"
  shows "fine st (ignore_nmea_rsp_hndlr ops p len st)"
proof (cases "len < 6")
  case False
  have r: "mem_read 3 3 p = Some (take 3 (drop 3 p))" "mem_read 0 6 p = Some (take 6 p)"
    using assms(2) by (simp_all add: mem_read_def)
  have "fine st (ubx_write_cfg_msg_on_off ops eUBLOX_MSG_NMEA (take 3 (drop 3 p) @ [0]) eMSG_DISABLD st)"
    using assms by (intro write_on_off_ok) auto
  with False r show ?thesis by (auto simp: ignore_nmea_rsp_hndlr_def fine_def)
qed (use assms in \<open>simp add: ignore_nmea_rsp_hndlr_def fine_def\<close>)

lemma call_hndlr_ok:
  assumes "ub_wf st" and "len \<le> length p" and "h = Time_srvyin \<Longrightarrow> 32 \<le> length p"
    and "h = Ignore_nmea_rsp \<Longrightarrow> 6 \<le> length p"
  shows "fine st (call_hndlr ops h p len st)"
proof (cases h)
  case Nmea_txt_msg
  with assms(1) show ?thesis by (simp add: call_hndlr_def fine_def)
next
  case Ignore_cfg_rsp
  with assms(1) show ?thesis by (simp add: call_hndlr_def fine_def)
qed (use assms time_tos_ok nav_svinf_ok nav_pvt_ok mon_smgr_ok time_srvyin_ok ignore_nmea_ok in \<open>auto simp: call_hndlr_def\<close>)

lemma process_cur_nmea_ok:
  assumes "ub_wf st" and "6 \<le> length p" and "len \<le> length p"
  shows "fine st (process_cur_nmea_msg ops p len st)"
proof -
  have "mem_read 0 3 (drop 3 p) = Some (take 3 (drop 3 p))" using assms(2) by (simp add: mem_read_def)
  then obtain i where i: "get_nmea_msg_table_index (drop 3 p) = Some i"
    by (simp add: get_nmea_msg_table_index_def)
  have nmea: "proc_msg (table_nmea_ubx_msg ! j) \<noteq> Time_srvyin" if "i = Some j" for j
  proof -
    have "j < length table_nmea_ubx_msg"
      using i that by (auto simp: get_nmea_msg_table_index_def split: Option.bind_splits dest: index_of_less)
    then show ?thesis by (auto simp: table_nmea_ubx_msg_def less_Suc_eq)
  qed
  show ?thesis
  proof (cases i)
    case None
    with i assms(1) show ?thesis by (simp add: process_cur_nmea_msg_def fine_def)
  next
    case (Some j)
    have "fine st (call_hndlr ops (proc_msg (table_nmea_ubx_msg ! j)) p len st)"
      using call_hndlr_ok [OF assms(1,3)] nmea [OF Some] assms(2) by blast
    with i Some show ?thesis by (auto simp: process_cur_nmea_msg_def fine_def)
  qed
qed

lemma fineE:
  assumes "fine st res"
  obtains r st' where "res = Some (r, st')" "ub_wf st'" "keeps st st'"
  using assms by (auto simp: fine_def)

lemma fine_trans: "keeps st st1 \<Longrightarrow> fine st1 res \<Longrightarrow> fine st res"
  by (auto simp: fine_def intro: keeps_trans)

lemma nmea_scan_ok:
  assumes "ub_wf st" and "len + 2 \<le> length p" and "6 \<le> length p"
  shows "fine st (nmea_scan ops p len i st)"
  using assms
proof (induction ops p len i st rule: nmea_scan.induct)
  case (1 ops p len i st)
  show ?case
  proof (cases "len < i")
    case True
    with "1.prems"(1) show ?thesis by (simp add: nmea_scan.simps fine_def)
  next
    case i: False
    then have c: "arr_get p i = Some (p ! i)" "arr_get p (i + 1) = Some (p ! (i + 1))"
      using "1.prems"(2) by (simp_all add: arr_get_defined)
    consider (eol) "p ! i = MSG_CR \<or> p ! i = MSG_LF" | (bad) "\<not> (p ! i = MSG_CR \<or> p ! i = MSG_LF)" "NMEA_MSG_MAX_CHR < p ! i"
      | (more) "\<not> (p ! i = MSG_CR \<or> p ! i = MSG_LF)" "\<not> NMEA_MSG_MAX_CHR < p ! i" by blast
    then show ?thesis
    proof cases
      case eol
      have "fine st (process_cur_nmea_msg ops p (i + 1) st)"
        using i "1.prems" by (intro process_cur_nmea_ok) auto
      then show ?thesis
        using i c eol by (subst nmea_scan.simps) (auto simp: fine_def)
    next
      case bad
      with i c "1.prems"(1) show ?thesis by (simp add: nmea_scan.simps fine_def)
    next
      case more
      have "fine st (nmea_scan ops p len (i + 1) st)"
        using "1.IH" [OF i c(1) more] "1.prems" by simp
      with i c more show ?thesis by (subst nmea_scan.simps) simp
    qed
  qed
qed

lemma handle_config_ok:
  assumes "ub_wf st" and "n \<le> length rsp" and "32 \<le> length rsp"
  shows "fine st (handle_config_resp ops rsp n st)"
proof -
  have c: "arr_get rsp 2 = Some (rsp ! 2)" "arr_get rsp 3 = Some (rsp ! 3)"
    using assms(3) by (auto intro!: arr_get_defined)
  have "\<exists>r st'. call_hndlr ops h rsp n st = Some (r, st') \<and> ub_wf st' \<and> keeps st st'" for h
    using call_hndlr_ok [OF assms(1,2), of h ops] assms(3) by (simp add: fine_def)
  from this [of "proc_msg (the (lookup_cfg_msg (rsp ! 2) (rsp ! 3)))"] show ?thesis
    using assms(1) c by (auto simp: handle_config_resp_def fine_def split: option.splits)
qed

definition fine_cp :: "'d ublox_msg_data \<Rightarrow> (nat \<times> 'd ublox_msg_data) option \<Rightarrow> bool" where
  "fine_cp st res \<longleftrightarrow> (\<exists>cp st'. res = Some (cp, st') \<and> cp \<le> CFG_RSP_MAX \<and> ub_wf st' \<and> keeps st st')"

lemma clear_busy_ok [simp]:
  "ub_wf (clear_ublox_device_busy st) = ub_wf st"
  "keeps st st' \<Longrightarrow> keeps st (clear_ublox_device_busy st')"
  by (simp_all add: clear_ublox_device_busy_def ub_wf_def keeps_def)

lemma rsp_fields_ok [simp]:
  "keeps st (st'\<lparr>rsp_clsid := c\<rparr>) = keeps st st'" "keeps st (st'\<lparr>rsp_dst := x\<rparr>) = keeps st st'"
  "ub_wf (st\<lparr>rsp_clsid := c\<rparr>) = ub_wf st" "ub_wf (st\<lparr>rsp_dst := x\<rparr>) = ub_wf st"
  by (simp_all add: keeps_def ub_wf_def)

lemma cfg_dispatch_ok:
  assumes "ub_wf st" and "n \<le> length rsp" and "32 \<le> length rsp" and "8 \<le> n" and "cp \<le> CFG_RSP_MAX"
  shows "fine_cp st (cfg_dispatch ops rsp n cp st)"
proof -
  have b: "arr_get rsp 2 = Some (rsp ! 2)" "arr_get rsp 3 = Some (rsp ! 3)"
    "arr_get rsp 6 = Some (rsp ! 6)" "arr_get rsp 7 = Some (rsp ! 7)"
    using assms(3) by (auto intro!: arr_get_defined)
  obtain r st1 where h: "handle_config_resp ops rsp n st = Some (r, st1)" "ub_wf st1" "keeps st st1"
    using handle_config_ok [OF assms(1-3), of ops] by (auto simp: fine_def)
  have rd: "mem_read 0 k rsp = Some (take k rsp)" if "k \<le> n" for k using assms(2) that by (simp add: mem_read_def)
  let ?k = "if UBLX_CFG_ACK_MAX_SIZE < n then UBLX_CFG_ACK_MAX_SIZE else n"
  consider (ack) "rsp ! 2 = 0x05 \<and> rsp ! 3 = 0x01 \<and> rsp_clsid st = (rsp ! 6, rsp ! 7)"
    | (rsp) "\<not> (rsp ! 2 = 0x05 \<and> rsp ! 3 = 0x01 \<and> rsp_clsid st = (rsp ! 6, rsp ! 7))" "rsp_clsid st = (rsp ! 2, rsp ! 3)"
    | (other) "\<not> (rsp ! 2 = 0x05 \<and> rsp ! 3 = 0x01 \<and> rsp_clsid st = (rsp ! 6, rsp ! 7))" "rsp_clsid st \<noteq> (rsp ! 2, rsp ! 3)"
    by blast
  then show ?thesis
  proof cases
    case ack
    have "0 + length (take ?k rsp) \<le> length (cfg_cmd_ack_rsp st)"
      using assms(1) by (auto simp: ub_wf_def min_le_iff_disj)
    from mem_write_defined [OF this]
    obtain a where a: "mem_write 0 (take ?k rsp) (cfg_cmd_ack_rsp st) = Some a" by blast
    then have "length a = UBLX_CFG_ACK_MAX_SIZE" using mem_write_length [OF a] assms(1) by (simp add: ub_wf_def)
    with a ack b rd [of ?k] assms(1,5) show ?thesis
      by (simp add: cfg_dispatch_def fine_cp_def Let_def clear_ublox_device_busy_def ub_wf_def keeps_def)
  next
    case rsp
    note eq = cfg_dispatch_def [of ops rsp n cp st, unfolded b Option.bind.simps if_not_P [OF rsp(1)] if_P [OF rsp(2)]]
    consider (tmr) "rsp_dst st = eUBLOX_RSP_DST_TMR"
      | (none) "rsp_dst st \<noteq> eUBLOX_RSP_DST_TMR" "cfg_rsp_copy st = None \<or> \<not> cp + n < CFG_RSP_MAX"
      | (copy) "rsp_dst st \<noteq> eUBLOX_RSP_DST_TMR" "cfg_rsp_copy st \<noteq> None" "cp + n < CFG_RSP_MAX" by blast
    then show ?thesis
    proof cases
      case tmr
      with h assms(5) show ?thesis by (simp add: eq fine_cp_def)
    next
      case none
      with assms(1,5) show ?thesis
        by (cases "cfg_rsp_copy st") (auto simp: eq fine_cp_def)
    next
      case False: copy
      then obtain copy where copy: "cfg_rsp_copy st = Some copy" "length copy = CFG_RSP_MAX"
        using assms(1) by (auto simp: ub_wf_def)
      then obtain copy' where c: "mem_write cp (take n rsp) copy = Some copy'"
        using mem_write_defined [of cp "take n rsp" copy] False(3) assms(2) by auto
      then have "length copy' = CFG_RSP_MAX" using mem_write_length [OF c] copy(2) by simp
      with c False rd [of n] copy assms(1) show ?thesis
        by (simp add: eq fine_cp_def clear_ublox_device_busy_def ub_wf_def keeps_def)
    qed
  next
    case other
    with b h assms(1,5) show ?thesis by (auto simp: cfg_dispatch_def fine_cp_def)
  qed
qed

lemma process_cfg_ok:
  assumes "ub_wf st" and "rsp_len + 23 \<le> length rsp" and "9 \<le> rsp_len" and "cp \<le> CFG_RSP_MAX"
  shows "\<exists>r cp' st'. process_cfg_data ops rsp rsp_len cp st = Some (r, cp', st') \<and>
           cp' \<le> CFG_RSP_MAX \<and> ub_wf st' \<and> keeps st st'"
proof -
  let ?clen = "unat (rsp ! 5) * 256 + unat (rsp ! 4)"
  have b: "arr_get rsp 5 = Some (rsp ! 5)" "arr_get rsp 4 = Some (rsp ! 4)"
    using assms(2,3) by (auto intro!: arr_get_defined)
  show ?thesis
  proof (cases "rsp_len < ?clen + 8")
    case False
    then have k: "arr_get rsp (?clen + 6) = Some (rsp ! (?clen + 6))"
      "arr_get rsp (?clen + 6 + 1) = Some (rsp ! (?clen + 6 + 1))"
      "mem_read 2 (?clen + 4) rsp = Some (take (?clen + 4) (drop 2 rsp))"
      using assms(2) by (auto intro!: arr_get_defined simp: mem_read_def)
    have "fine_cp st (cfg_dispatch ops rsp (?clen + 8) cp st)"
      using False assms by (intro cfg_dispatch_ok) auto
    then obtain cp1 st1 where "cfg_dispatch ops rsp (?clen + 8) cp st = Some (cp1, st1)"
      "cp1 \<le> CFG_RSP_MAX" "ub_wf st1" "keeps st st1" by (auto simp: fine_cp_def)
    with False b k assms(1,4) show ?thesis by (auto simp: process_cfg_data_def Let_def)
  qed (use b assms(1,4) in \<open>simp add: process_cfg_data_def Let_def\<close>)
qed

lemma process_nmea_ok:
  "ub_wf st \<Longrightarrow> len + 2 \<le> length p \<Longrightarrow> 6 \<le> length p \<Longrightarrow> fine st (process_nmea_data ops p len st)"
  unfolding process_nmea_data_def by (rule nmea_scan_ok)

lemma parse_loop_ok:
  assumes "ub_wf st" and "len + 23 \<le> length dtp" and "cp \<le> CFG_RSP_MAX"
  shows "fine st (parse_loop ops dtp len di cp ff st)"
  using assms
proof (induction ops dtp len di cp ff st rule: parse_loop.induct)
  case (1 ops dtp len di cp ff st)
  show ?case
  proof (cases "di + UBX_MSG_HDR_AND_CHEKSUM_SIZE < len")
    case False
    with "1.prems"(1) show ?thesis by (simp add: parse_loop.simps fine_def)
  next
    case more: True
    have c: "arr_get dtp di = Some (dtp ! di)" "arr_get dtp (di + 1) = Some (dtp ! (di + 1))"
      using more "1.prems"(2) by (auto intro!: arr_get_defined)
    have room: "len - di + 23 \<le> length (drop di dtp)" "9 \<le> len - di" using more "1.prems"(2) by auto
    note unf = parse_loop.simps [of ops dtp len di cp ff st, unfolded if_P [OF more] c Option.bind.simps]
    consider (cfg) "dtp ! di = UBX_CHAR_SYNC0 \<and> dtp ! (di + 1) = UBX_CHAR_SYNC1"
      | (nmea) "\<not> (dtp ! di = UBX_CHAR_SYNC0 \<and> dtp ! (di + 1) = UBX_CHAR_SYNC1)"
          "dtp ! di = NMEA_START_CH0 \<and> dtp ! (di + 1) = NMEA_START_CH1"
      | (skip) "\<not> (dtp ! di = UBX_CHAR_SYNC0 \<and> dtp ! (di + 1) = UBX_CHAR_SYNC1)"
          "\<not> (dtp ! di = NMEA_START_CH0 \<and> dtp ! (di + 1) = NMEA_START_CH1)" by blast
    then show ?thesis
    proof cases
      case cfg
      obtain r cp1 st1 where p: "process_cfg_data ops (drop di dtp) (len - di) cp st = Some (r, cp1, st1)"
        and st1: "cp1 \<le> CFG_RSP_MAX" "ub_wf st1" "keeps st st1"
        using process_cfg_ok [OF "1.prems"(1) room "1.prems"(3), of ops] by auto
      show ?thesis
      proof (cases "r < 0")
        case False
        have "fine st1 (parse_loop ops dtp len (di + nat r) cp1 0 st1)"
          using "1.IH"(1) [OF more c cfg p refl refl False st1(2) "1.prems"(2) st1(1)] .
        with fine_trans [OF st1(3)] False show ?thesis unfolding unf if_P [OF cfg] p by simp
      next
        case True
        with st1 show ?thesis unfolding unf if_P [OF cfg] p by (simp add: fine_def)
      qed
    next
      case nmea
      obtain r st1 where p: "process_nmea_data ops (drop di dtp) (len - di) st = Some (r, st1)"
        and st1: "ub_wf st1" "keeps st st1"
      proof -
        have "len - di + 2 \<le> length (drop di dtp)" "6 \<le> length (drop di dtp)" using room by linarith+
        from process_nmea_ok [OF "1.prems"(1) this, of ops] that show ?thesis by (auto simp: fine_def)
      qed
      show ?thesis
      proof (cases "r < 0")
        case False
        have "fine st1 (parse_loop ops dtp len (di + nat r) cp 0 st1)"
          using "1.IH"(2) [OF more c nmea p refl False st1(1) "1.prems"(2,3)] .
        with fine_trans [OF st1(2)] False show ?thesis unfolding unf if_not_P [OF nmea(1)] if_P [OF nmea(2)] p by simp
      next
        case True
        with st1 show ?thesis unfolding unf if_not_P [OF nmea(1)] if_P [OF nmea(2)] p by (simp add: fine_def)
      qed
    next
      case skip
      show ?thesis
      proof (cases "dtp ! di = 0xFF \<and> MAX_FF_COUNT_FOR_DISCARD < ff + 1")
        case True
        with "1.prems"(1) show ?thesis
          unfolding unf if_not_P [OF skip(1)] if_not_P [OF skip(2)] by (simp add: fine_def)
      next
        case False
        let ?st = "rw_stat (\<lambda>s. s\<lparr>skip_invalid_msg_hdr := skip_invalid_msg_hdr s + 1\<rparr>) st"
        have "fine ?st (parse_loop ops dtp len (di + 1) cp (if dtp ! di = 0xFF then ff + 1 else ff) ?st)"
          using "1.IH"(3) [OF more c skip False _ "1.prems"(2,3)] "1.prems"(1) by simp
        then show ?thesis
          unfolding unf if_not_P [OF skip(1)] if_not_P [OF skip(2)] if_not_P [OF False]
          by (auto simp: fine_def)
      qed
    qed
  qed
qed

text \<open>
  C25. Whatever bytes the device sends, the parser ends, reads and writes nothing outside its buffers
  and keeps their sizes and the state of the rest of the driver, as long as 23 bytes of the receive
  buffer lie behind the bytes that were read.
\<close>

theorem parser_in_bounds:
  assumes "ub_wf st" and "len + 23 \<le> length dtp"
  shows "\<exists>r st'. parse_nmea_and_cfg_msg ops dtp len st = Some (r, st') \<and> ub_wf st' \<and> keeps st st'"
  using parse_loop_ok [OF assms, of 0 ops 0 0] by (simp add: parse_nmea_and_cfg_msg_def fine_def)

text \<open>Reading fills the buffer from the front and touches nothing else but the timer correction.\<close>

lemma rd_loop_ok:
  assumes "i2c_ok ops" and "length buf = I2C_MSG_MAX_SIZE" and "len < I2C_MSG_MAX_SIZE" and "ub_wf st"
  shows "\<exists>len' buf' st'. rd_loop ops len buf st = Some (len', buf', st') \<and> len' \<le> I2C_MSG_MAX_SIZE \<and>
           length buf' = I2C_MSG_MAX_SIZE \<and> ub_wf st' \<and> keeps st st'"
  using assms
proof (induction ops len buf st rule: rd_loop.induct)
  case (1 ops len buf st)
  obtain r prv buf1 where rx: "ublox_i2c_receive ops len (I2C_MSG_MAX_SIZE - len) (ublox_handle st) buf = Some (r, prv, buf1)"
    "r \<le> int (I2C_MSG_MAX_SIZE - len)" "length buf1 = length buf"
    using ublox_i2c_receive_ok [OF "1.prems"(1), of len "I2C_MSG_MAX_SIZE - len" buf "ublox_handle st"] "1.prems"(2,3) by auto
  let ?st = "st\<lparr>ublox_handle := prv\<rparr>"
  have rd: "ublox_dev_rd ops len (I2C_MSG_MAX_SIZE - len) buf st = Some (r, buf1, ?st)"
    using rx(1) by (simp add: ublox_dev_rd_def)
  consider (err) "r < 0" | (more) "\<not> r < 0" "0 < r \<and> len + nat r < I2C_MSG_MAX_SIZE"
    | (stop) "\<not> r < 0" "\<not> (0 < r \<and> len + nat r < I2C_MSG_MAX_SIZE)" by blast
  then show ?case
  proof cases
    case err
    with rd rx(3) "1.prems" show ?thesis by (subst rd_loop.simps) (simp add: ub_wf_def keeps_def)
  next
    case more
    obtain len' buf' st' where "rd_loop ops (len + nat r) buf1 ?st = Some (len', buf', st')" "len' \<le> I2C_MSG_MAX_SIZE"
      "length buf' = I2C_MSG_MAX_SIZE" "ub_wf st'" "keeps ?st st'"
      using "1.IH" [OF rd refl refl more] "1.prems" rx(3) more by auto
    moreover from this have "keeps st st'" using keeps_trans [of st ?st st'] by simp
    ultimately show ?thesis using rd more by (subst rd_loop.simps) simp
  next
    case stop
    with rd rx(2,3) "1.prems" show ?thesis by (subst rd_loop.simps) (auto simp: nat_le_iff)
  qed
qed

text \<open>A poll that leaves the bytes the parser may look at behind what was read.\<close>

definition poll_fits :: "'d i2c_ops \<Rightarrow> 'd ublox_msg_data \<Rightarrow> bool" where
  "poll_fits ops st = (case i2c_data st of None \<Rightarrow> True
     | Some buf \<Rightarrow> (case rd_loop ops 0 buf st of None \<Rightarrow> False | Some (len, _, _) \<Rightarrow> len + 23 \<le> I2C_MSG_MAX_SIZE))"

lemma processing_ok:
  assumes "i2c_ok ops" and "ub_wf st" and "poll_fits ops st"
  shows "fine st (do_tgd_ublox_msg_processing ops st)"
proof (cases "i2c_data st")
  case None
  with assms(2) show ?thesis by (simp add: do_tgd_ublox_msg_processing_def fine_def)
next
  case (Some buf)
  then have buf: "length buf = I2C_MSG_MAX_SIZE" using assms(2) by (simp add: ub_wf_def)
  obtain len buf' st1 where rd: "rd_loop ops 0 buf st = Some (len, buf', st1)" "length buf' = I2C_MSG_MAX_SIZE"
    "ub_wf st1" "keeps st st1" using rd_loop_ok [OF assms(1) buf _ assms(2), of 0] by auto
  let ?st = "st1\<lparr>i2c_data := Some buf'\<rparr>"
  have st: "ub_wf ?st" "keeps st ?st" using rd Some by (auto simp: ub_wf_def keeps_def)
  let ?st2 = "(rw_stat (\<lambda>s. s\<lparr>rd_pkt_count := rd_pkt_count s + 1\<rparr>) ?st)\<lparr>i2c_data_len := len\<rparr>"
  have st2: "ub_wf ?st2" "keeps st ?st2" using st by (auto simp: ub_wf_def keeps_def rw_stat_def stat_wf_def)
  have "len + 23 \<le> length buf'" using assms(3) Some rd(1,2) by (simp add: poll_fits_def)
  from parse_loop_ok [OF st2(1) this, of 0 ops 0 0] have "fine ?st2 (parse_nmea_and_cfg_msg ops buf' len ?st2)"
    by (simp add: parse_nmea_and_cfg_msg_def)
  then have "fine st (parse_nmea_and_cfg_msg ops buf' len ?st2)" by (rule fine_trans [OF st2(2)])
  moreover have "fine st (Some (- 1, if len \<noteq> 0
      then rw_stat (\<lambda>s. s\<lparr>rd_pkt_len_error := rd_pkt_len_error s + 1\<rparr>) ?st else ?st))"
    using st by (auto simp: fine_def)
  ultimately show ?thesis using rd(1) Some by (simp add: do_tgd_ublox_msg_processing_def Let_def)
qed

text \<open>
  Without these bytes the search for the end of an NMEA message runs out of the buffer: a read that
  fills the buffer with the start of a message and plain characters is enough.
\<close>

lemma nmea_scan_overrun:
  assumes "\<forall>b \<in> set p. b \<noteq> MSG_CR \<and> b \<noteq> MSG_LF \<and> \<not> NMEA_MSG_MAX_CHR < b" and "i \<le> length p"
  shows "nmea_scan ops p (length p) i st = None"
  using assms(2)
proof (induction "length p - i" arbitrary: i)
  case 0
  then show ?case by (subst nmea_scan.simps) (simp add: arr_get_def)
next
  case (Suc n)
  then have i: "i < length p" by simp
  then have "arr_get p i = Some (p ! i)" "\<not> (p ! i = MSG_CR \<or> p ! i = MSG_LF)" "\<not> NMEA_MSG_MAX_CHR < p ! i"
    using assms(1) by (auto simp: arr_get_def)
  moreover have "nmea_scan ops p (length p) (i + 1) st = None" using Suc i by simp
  ultimately show ?case using i by (subst nmea_scan.simps) simp
qed

lemma full_read_overruns:
  assumes "7 \<le> n"
  shows "parse_nmea_and_cfg_msg ops (NMEA_START_CH0 # NMEA_START_CH1 # replicate n 0x41) (n + 2) st = None"
proof -
  have "nmea_scan ops (NMEA_START_CH0 # NMEA_START_CH1 # replicate n 0x41) (n + 2) 0 st = None"
    using nmea_scan_overrun [of "NMEA_START_CH0 # NMEA_START_CH1 # replicate n 0x41" 0 ops st] by simp
  then show ?thesis
    using assms
    by (simp add: parse_nmea_and_cfg_msg_def parse_loop.simps [of _ _ _ 0] process_nmea_data_def arr_get_def)
qed

section \<open>Time for the clients\<close>

text \<open>The GPS time of a message in seconds, not bounded by the width of an integer.\<close>

definition gps_secs :: "t_ublox_time_pulse_info \<Rightarrow> nat" where
  "gps_secs tp = unat (tp_gnss_week_num tp) * 604800 + unat (tp_gnss_week_time tp)"

lemma secs_exact:
  assumes "gps_secs tp < 2 ^ 32"
  shows "unat (ucast (tp_gnss_week_num tp * NUM_SEC_IN_WEEK + tp_gnss_week_time tp) :: u64) = gps_secs tp"
proof -
  have m: "unat (tp_gnss_week_num tp * NUM_SEC_IN_WEEK) = unat (tp_gnss_week_num tp) * 604800"
    using assms unat_mult_lem [of "tp_gnss_week_num tp" "NUM_SEC_IN_WEEK"] by (simp add: gps_secs_def)
  then have "unat (tp_gnss_week_num tp * NUM_SEC_IN_WEEK + tp_gnss_week_time tp) = gps_secs tp"
    using assms unat_add_lem [of "tp_gnss_week_num tp * NUM_SEC_IN_WEEK" "tp_gnss_week_time tp"]
    by (simp add: gps_secs_def)
  then show ?thesis using assms by (simp add: unsigned_ucast_eq take_bit_nat_eq_self)
qed

text \<open>
  What a client is to be told: the time of each message that is accurate and differs from the time of
  the message before it (a time of zero is always told).
\<close>

fun due :: "nat \<Rightarrow> t_ublox_time_pulse_info list \<Rightarrow> nat list" where
  "due prev [] = []"
| "due prev (tp # tps) =
     (if (prev \<noteq> gps_secs tp \<or> gps_secs tp = 0) \<and> tos_accurate tp then [gps_secs tp] else []) @ due (gps_secs tp) tps"

fun updates :: "nat \<Rightarrow> ub_event list \<Rightarrow> u64 list" where
  "updates c [] = []"
| "updates c (Time_update d t # es) = (if d = c then t # updates c es else updates c es)"
| "updates c (Stat_update d s # es) = updates c es"
| "updates c (Cmd_queued b # es) = updates c es"
| "updates c (Cmd_sent b # es) = updates c es"

fun tos_run :: "u8 list list \<Rightarrow> 'd ublox_msg_data \<Rightarrow> 'd ublox_msg_data option" where
  "tos_run [] st = Some st"
| "tos_run (p # ps) st = do { (r, st) \<leftarrow> time_tos_handler p (length p) st; tos_run ps st }"

lemma updates_append [simp]: "updates c (xs @ ys) = updates c xs @ updates c ys"
  by (induction c xs rule: updates.induct) auto

lemma updates_clients:
  assumes "distinct (map gps_clnt_data cs)" and "cl \<in> set cs" and "send_to_clnt cl"
  shows "updates (gps_clnt_data cl) (map (\<lambda>c. Time_update (gps_clnt_data c) ts) (filter send_to_clnt cs)) = [ts]"
proof -
  have none: "updates d (map (\<lambda>c. Time_update (gps_clnt_data c) ts) (filter send_to_clnt xs)) = []"
    if "d \<notin> gps_clnt_data ` set xs" for d xs
    using that by (induction xs) auto
  show ?thesis using assms
  proof (induction cs)
    case (Cons x xs)
    then show ?case by (cases "x = cl") (auto simp: none image_iff)
  qed simp
qed

lemma time_tos_log:
  assumes "60 \<le> len" and "tos_read p = Some tp"
  shows "\<exists>st'. time_tos_handler p len st = Some (0, st') \<and> clnt_list st' = clnt_list st \<and>
     prev_time_sec st' = ucast (tp_gnss_week_num tp * NUM_SEC_IN_WEEK + tp_gnss_week_time tp) \<and>
     gps_time_sec st' = prev_time_sec st' \<and>
     ub_log st' = ub_log st @
       (if (prev_time_sec st \<noteq> prev_time_sec st' \<or> prev_time_sec st' = 0) \<and> tos_accurate tp
        then map (\<lambda>c. Time_update (gps_clnt_data c) (prev_time_sec st')) (filter send_to_clnt (clnt_list st)) else [])"
  using assms
  by (auto simp: time_tos_handler_def Let_def rw_stat_def ublox_gps_update_time_def)

lemma tos_run_due:
  assumes "\<forall>p \<in> set ps. 60 \<le> length p \<and> pred_option (\<lambda>tp. gps_secs tp < 2 ^ 32) (tos_read p)"
    and "distinct (map gps_clnt_data (clnt_list st))" and "cl \<in> set (clnt_list st)" and "send_to_clnt cl"
  shows "\<exists>st' ev. tos_run ps st = Some st' \<and> ub_log st' = ub_log st @ ev \<and>
           map unat (updates (gps_clnt_data cl) ev) = due (unat (prev_time_sec st)) (map (\<lambda>p. the (tos_read p)) ps)"
  using assms
proof (induction ps arbitrary: st)
  case (Cons p ps)
  have len: "60 \<le> length p" using Cons.prems(1) by simp
  then obtain tp where tp: "tos_read p = Some tp" using tos_read_ok [of p] by auto
  let ?T = "ucast (tp_gnss_week_num tp * NUM_SEC_IN_WEEK + tp_gnss_week_time tp) :: u64"
  have T: "unat ?T = gps_secs tp" using secs_exact Cons.prems(1) tp by simp
  obtain st1 where s1: "time_tos_handler p (length p) st = Some (0, st1)" "clnt_list st1 = clnt_list st"
    "prev_time_sec st1 = ?T"
    "ub_log st1 = ub_log st @
       (if (prev_time_sec st \<noteq> ?T \<or> ?T = 0) \<and> tos_accurate tp
        then map (\<lambda>c. Time_update (gps_clnt_data c) ?T) (filter send_to_clnt (clnt_list st)) else [])"
    using time_tos_log [OF len tp, of st] by auto
  obtain st' ev where r: "tos_run ps st1 = Some st'" "ub_log st' = ub_log st1 @ ev"
    "map unat (updates (gps_clnt_data cl) ev) = due (unat (prev_time_sec st1)) (map (\<lambda>p. the (tos_read p)) ps)"
    using Cons.IH [of st1] Cons.prems s1(2) by auto
  have "(prev_time_sec st \<noteq> ?T) = (unat (prev_time_sec st) \<noteq> gps_secs tp)" "(?T = 0) = (gps_secs tp = 0)"
    using T by (metis unsigned_word_eqI, metis unat_0 unat_eq_zero)
  with updates_clients [OF Cons.prems(2-4), of ?T] s1 r T tp show ?case by auto
qed simp

text \<open>The due times of messages that do not go back in time strictly increase.\<close>

lemma due_above:
  assumes "sorted (prev # map gps_secs tps)" and "\<forall>tp \<in> set tps. 0 < gps_secs tp"
  shows "sorted_wrt (<) (due prev tps) \<and> (\<forall>t \<in> set (due prev tps). prev < t)"
  using assms
proof (induction tps arbitrary: prev)
  case (Cons tp tps)
  have "sorted_wrt (<) (due (gps_secs tp) tps) \<and> (\<forall>t \<in> set (due (gps_secs tp) tps). gps_secs tp < t)"
    using Cons by simp
  with Cons.prems show ?case by fastforce
qed simp

lemma due_increasing:
  assumes "sorted (map gps_secs tps)" and "\<forall>tp \<in> set tps. 0 < gps_secs tp"
  shows "sorted_wrt (<) (due prev tps)"
proof (cases tps)
  case (Cons tp tps')
  with assms due_above [of "gps_secs tp" tps'] show ?thesis by auto
qed simp

text \<open>
  C21. Over any sequence of TIM-TOS messages whose GPS time fits 32 bits (weeks up to 7100), a client
  that asked for the time is called with exactly the times that are due, in seconds since the GPS
  epoch, in order: once per second, and only when the receiver reports the pulse and the oscillator
  within the limits. When the receiver's time does not go back, the times a client is told strictly
  increase.
\<close>

theorem clients_get_gps_time:
  assumes "\<forall>p \<in> set ps. 60 \<le> length p \<and> pred_option (\<lambda>tp. gps_secs tp < 2 ^ 32) (tos_read p)"
    and "distinct (map gps_clnt_data (clnt_list st))" and "cl \<in> set (clnt_list st)" and "send_to_clnt cl"
    and "tps = map (\<lambda>p. the (tos_read p)) ps"
  shows "\<exists>st' ev. tos_run ps st = Some st' \<and> ub_log st' = ub_log st @ ev \<and>
           map unat (updates (gps_clnt_data cl) ev) = due (unat (prev_time_sec st)) tps \<and>
           (sorted (map gps_secs tps) \<and> (\<forall>tp \<in> set tps. 0 < gps_secs tp) \<longrightarrow>
              sorted_wrt (<) (updates (gps_clnt_data cl) ev))"
proof -
  obtain st' ev where r: "tos_run ps st = Some st'" "ub_log st' = ub_log st @ ev"
    "map unat (updates (gps_clnt_data cl) ev) = due (unat (prev_time_sec st)) tps"
    using tos_run_due [OF assms(1-4)] assms(5) by auto
  have "sorted_wrt (<) (updates (gps_clnt_data cl) ev)"
    if "sorted (map gps_secs tps)" "\<forall>tp \<in> set tps. 0 < gps_secs tp"
    using due_increasing [OF that, of "unat (prev_time_sec st)"] r(3) [symmetric]
    by (auto simp: sorted_wrt_map word_less_nat_alt elim!: sorted_wrt_mono_rel [rotated])
  with r show ?thesis by blast
qed

lemma c_abs_less:
  assumes "0 < k"
  shows "sint (c_abs x) < k \<longleftrightarrow> \<bar>sint x\<bar> < k \<or> sint x = - (2 ^ 31)"
proof (cases "sint x < 0")
  case neg: True
  have ge: "- (2 ^ 31) \<le> sint x" using sint_ge [of x] by simp
  have s: "sint (- x) = signed_take_bit 31 (- sint x)" by (simp add: sint_word_ariths)
  show ?thesis
  proof (cases "sint x = - (2 ^ 31)")
    case True
    then show ?thesis using assms by (simp add: c_abs_def s signed_take_bit_eq_if_negative bit_simps)
  next
    case False
    then have "signed_take_bit 31 (- sint x) = - sint x" using ge neg by (intro signed_take_bit_int_eq_self) auto
    with False neg show ?thesis by (simp add: c_abs_def s)
  qed
qed (use assms in \<open>simp add: c_abs_def\<close>)

text \<open>
  The check the driver makes on the accuracy of the time: the offset of the pulse is below 500 ns
  and that of the oscillator below 500 ppb, in absolute value, and so are the uncertainties; but an
  offset of \<open>-2\<^sup>3\<^sup>1\<close> passes as well, because it has no absolute value in 32 bits.
\<close>

theorem accuracy_limits:
  "tos_accurate tp \<longleftrightarrow>
     (\<bar>sint (tp_gns_top_ofst tp)\<bar> < 500 \<or> sint (tp_gns_top_ofst tp) = - (2 ^ 31)) \<and>
     uint (tp_gnss_uncert tp) < 500 \<and>
     (\<bar>sint (tp_int_osc_ofst tp)\<bar> < 128000 \<or> sint (tp_int_osc_ofst tp) = - (2 ^ 31)) \<and>
     uint (tp_int_osc_uncert tp) < 128000"
  using uint_cmp_nat(4) [of "tp_gnss_uncert tp" 500] uint_cmp_nat(4) [of "tp_int_osc_uncert tp" 128000]
  by (simp add: tos_accurate_def c_abs_less)

end
