(* ===== verification/Ublox.thy ===== *)
theory Ublox
  imports UbloxParse
begin

text \<open>
  The u-blox driver (\<open>ublox-mod/files/src/fb_tgd_ublox_msg_handler.c\<close>, the second half, and the probe
  and remove functions of \<open>fb_tgd_ublox_gps.c\<close>): the commands that are put into the queue, the worker
  and its states, the timer, loading and unloading, the sysfs and netlink interfaces and the clients.

  Each operation runs to its end before the next one begins; the locks of the driver protect less
  than that. \<open>msecs_to_jiffies\<close> and \<open>simple_strtol\<close> are parameters. The texts of the sysfs files that
  are only read are left out. Memory that is not initialised is taken as zeros.
\<close>

section \<open>Commands\<close>

definition PREP_PRIV_DATA :: "u8 \<Rightarrow> u8 \<Rightarrow> u8 \<Rightarrow> u32" where
  "PREP_PRIV_DATA b1 b2 dst = (push_bit 16 (ucast dst) AND 0xFFFF0000) + (push_bit 8 (ucast b1) AND 0xFF00) + (ucast b2 AND 0xFF)"

definition EXTRACT_PRIV_DATA :: "u32 \<Rightarrow> u8 \<times> u8 \<times> u8" where
  "EXTRACT_PRIV_DATA p = (ucast (drop_bit 8 p AND 0xFF), ucast (p AND 0xFF), ucast (drop_bit 16 p AND 0xFF))"

definition kmalloc :: "'d ublox_msg_data \<Rightarrow> bool \<times> 'd ublox_msg_data" where
  "kmalloc st = (case kmalloc_fails st of [] \<Rightarrow> (True, st) | b # bs \<Rightarrow> (\<not> b, st\<lparr>kmalloc_fails := bs\<rparr>))"

text \<open>A command that the queue takes is recorded.\<close>

definition queue_cmd :: "u8 list \<Rightarrow> int \<Rightarrow> u32 \<Rightarrow> 'd ublox_msg_data \<Rightarrow> (int \<times> 'd ublox_msg_data) option" where
  "queue_cmd buf rlen priv st = do {
     let (ok, st) = kmalloc st;
     (r, q) \<leftarrow> tgd_queue_create_new_entry ok (Some buf) rlen priv (q_hndlr st);
     Some (r, st\<lparr>q_hndlr := q, ub_log := ub_log st @ (if r = 0 then [Cmd_queued (take (nat rlen) buf)] else [])\<rparr>) }"

definition schedule_ublox_reset :: "u8 \<Rightarrow> 'd ublox_msg_data \<Rightarrow> 'd ublox_msg_data option" where
  "schedule_ublox_reset dst st = do {
     (rlen, buf) \<leftarrow> prep_cfg_cmd ''CFG_RST'' (Some [0xFF, 0xFF, 0, 0]) 4 (replicate 32 0) 32;
     b2 \<leftarrow> arr_get buf 2; b3 \<leftarrow> arr_get buf 3;
     (r, st) \<leftarrow> queue_cmd buf rlen (PREP_PRIV_DATA b2 b3 dst) st;
     Some st }"

definition config_sync_manager :: "'d ublox_msg_data \<Rightarrow> (int \<times> 'd ublox_msg_data) option" where
  "config_sync_manager st = do {
     (rlen, buf) \<leftarrow> prep_cfg_cmd ''CFG_SMGR''
        (Some [0x00, 0x0F, 0x1E, 0x00, 0x50, 0x00, 0x00, 0x00, 0xFA, 0x00, 0xD0, 0x07, 0x0F, 0x00,
               0x10, 0x27, 0xCA, 0x74, 0x00, 0x00]) 20 (replicate 32 0) 32;
     b2 \<leftarrow> arr_get buf 2; b3 \<leftarrow> arr_get buf 3;
     (r, st) \<leftarrow> queue_cmd buf rlen (PREP_PRIV_DATA b2 b3 eUBLOX_RSP_DST_NONE) st;
     Some (0, st) }"

definition config_nav_engine :: "'d ublox_msg_data \<Rightarrow> (int \<times> 'd ublox_msg_data) option" where
  "config_nav_engine st = do {
     (rlen, buf) \<leftarrow> prep_cfg_cmd ''CFG_NAV5''
        (Some [0x02, 0x00, 0x02, 0x03, 0x00, 0x00, 0x00, 0x00, 0x10, 0x27, 0x00, 0x00, 0x0F, 0x00, 0xFA, 0x00, 0xFA, 0x00,
               0x64, 0x00, 0x2C, 0x01, 0x00, 0x3C, 0x00, 0x00, 0x00, 0x00, 0xC8, 0x00, 0x03, 0x00, 0x00, 0x00, 0x00, 0x00])
        36 (replicate 64 0) 64;
     b2 \<leftarrow> arr_get buf 2; b3 \<leftarrow> arr_get buf 3;
     (r, st) \<leftarrow> queue_cmd buf rlen (PREP_PRIV_DATA b2 b3 eUBLOX_RSP_DST_NONE) st;
     Some (0, st) }"

definition schedule_config_cmd :: "string \<Rightarrow> u8 list option \<Rightarrow> nat \<Rightarrow> 'd ublox_msg_data \<Rightarrow> (int \<times> 'd ublox_msg_data) option" where
  "schedule_config_cmd tag data n st = do {
     (rlen, buf) \<leftarrow> prep_cfg_cmd tag data n (replicate 32 0) 32;
     b2 \<leftarrow> arr_get buf 2; b3 \<leftarrow> arr_get buf 3;
     queue_cmd buf rlen (PREP_PRIV_DATA b2 b3 eUBLOX_RSP_DST_TMR) st }"

definition schedule_cfg_msg_on_off :: "eUblox_msg_type \<Rightarrow> u8 list \<Rightarrow> eMsg_enable \<Rightarrow> 'd ublox_msg_data \<Rightarrow>
    (int \<times> 'd ublox_msg_data) option" where
  "schedule_cfg_msg_on_off mtype mtag msg_enable st = do {
     (rsize, buf, st) \<leftarrow> prep_on_off_cmd mtype mtag msg_enable (replicate 32 0) 32 st;
     b6 \<leftarrow> arr_get buf 6; b7 \<leftarrow> arr_get buf 7;
     queue_cmd buf rsize (PREP_PRIV_DATA b6 b7 eUBLOX_RSP_DST_TMR) st }"

definition update_cfg_stat :: "'d ublox_msg_data \<Rightarrow> (int \<times> 'd ublox_msg_data) option" where
  "update_cfg_stat st = do {
     (r, st) \<leftarrow> schedule_config_cmd ''NAV_PVT'' None 0 st;
     (r, st) \<leftarrow> schedule_cfg_msg_on_off eUBLOX_MSG_CFG (chars ''TIM_TOS'') eMSG_REPT_RD st;
     (r, st) \<leftarrow> schedule_config_cmd ''NAV_SVIN'' None 0 st;
     Some (0, st) }"

text \<open>UBX-CFG-TMODE2: the position mode. The array has 40 bytes, of which 36 are sent.\<close>

definition tmode2_finish :: "u8 list \<Rightarrow> 'd ublox_msg_data \<Rightarrow> (int \<times> 'd ublox_msg_data) option" where
  "tmode2_finish hex_ar st = do {
     body \<leftarrow> mem_read 2 32 hex_ar;
     let (ck0, ck1) = nmea_checksum body;
     hex_ar \<leftarrow> mem_write 34 [ck0, ck1] hex_ar;
     b2 \<leftarrow> arr_get hex_ar 2; b3 \<leftarrow> arr_get hex_ar 3;
     queue_cmd hex_ar 36 (PREP_PRIV_DATA b2 b3 eUBLOX_RSP_DST_USR) st }"

definition config_single_satellite :: "u8 list \<Rightarrow> nat \<Rightarrow> 'd ublox_msg_data \<Rightarrow> (int \<times> 'd ublox_msg_data) option" where
  "config_single_satellite cmd cmd_len st =
     (if cmd_len < 16 then Some (- 1, st)
      else do {
        latitude \<leftarrow> mem_read 4 4 cmd; longitude \<leftarrow> mem_read 8 4 cmd; height \<leftarrow> mem_read 12 4 cmd; accuracy \<leftarrow> mem_read 28 4 cmd;
        let hex_ar = [UBX_CHAR_SYNC0, UBX_CHAR_SYNC1, 0x06, 0x3D, 0x1C, 0x00, 0x02, 0x00, 0x01, 0x00] @ replicate 30 0;
        hex_ar \<leftarrow> mem_write 10 latitude hex_ar;
        hex_ar \<leftarrow> mem_write 14 longitude hex_ar;
        hex_ar \<leftarrow> mem_write 18 height hex_ar;
        hex_ar \<leftarrow> mem_write 22 accuracy hex_ar;
        let st = st\<lparr>time_sync_mode := eTIME_MODE_FIXED\<rparr>;
        hex_ar \<leftarrow> mem_write 26 (replicate 14 0) hex_ar;
        (r, st) \<leftarrow> tmode2_finish hex_ar st;
        Some (0, st) })"

definition config_survey_in :: "'d ublox_msg_data \<Rightarrow> (int \<times> 'd ublox_msg_data) option" where
  "config_survey_in st = do {
     let hex_ar = [UBX_CHAR_SYNC0, UBX_CHAR_SYNC1, 0x06, 0x3D, 0x1C, 0x00, 0x01] @ replicate 33 0;
     hex_ar \<leftarrow> mem_write 26 (le_bytes 4 (24 * 60 * 60)) hex_ar;
     hex_ar \<leftarrow> mem_write 30 (le_bytes 4 (5 * 1000)) hex_ar;
     (r, st) \<leftarrow> tmode2_finish hex_ar st;
     if r \<noteq> 0 then Some (- 1, st)
     else Some (0, st\<lparr>srvy_in_start_time := one_sec_count st, time_sync_mode := eTIME_MODE_SURVEY\<rparr>) }"

section \<open>Netlink interface and statistics\<close>

text \<open>The channels \<open>i\<close> to \<open>i + n\<close> of the satellite report, five bytes each.\<close>

fun svd_channels :: "t_ublox_space_veh_info list \<Rightarrow> nat \<Rightarrow> nat \<Rightarrow> nat \<Rightarrow> u8 list \<Rightarrow> u8 list option" where
  "svd_channels vs at i 0 rsp = Some rsp"
| "svd_channels vs at i (Suc n) rsp = do {
     v \<leftarrow> arr_get vs i;
     rsp \<leftarrow> mem_write (at + 5 * i) [sv_sat_id v, sv_flags v, sv_qlty v, sv_snr v, sv_elev v] rsp;
     svd_channels vs at (Suc i) n rsp }"

definition w32 :: "u32 \<Rightarrow> u8 list" where
  "w32 x = le_bytes 4 (unat x)"

text \<open>\<open>at\<close> is the position of the response in its buffer, \<open>rsp_len\<close> the space the caller gives.\<close>

definition get_gps_nl_rsp :: "u8 list option \<Rightarrow> nat \<Rightarrow> nat \<Rightarrow> u8 list option \<Rightarrow> int \<Rightarrow> 'd ublox_msg_data \<Rightarrow>
    (int \<times> u8 list option \<times> 'd ublox_msg_data) option" where
  "get_gps_nl_rsp cmd_ptr cmd_len at rsp_buf rsp_len st = (case (cmd_ptr, rsp_buf) of
     (Some cmd, Some rsp) \<Rightarrow>
       if cmd_len < 4 \<or> rsp_len < 4 then Some (- 1, rsp_buf, st)
       else do {
         c \<leftarrow> arr_get cmd 2;
         hdr \<leftarrow> mem_read 0 4 cmd;
         let s = stat_d st;
         if c = 0x01 then do {
           rsp \<leftarrow> mem_write at hdr rsp;
           let data_len = num_space_veh s * 5 + 8;
           if rsp_len < int data_len then Some (- 1, Some rsp, st)
           else do {
             rsp \<leftarrow> mem_write (at + 4) (le_bytes 4 (num_space_veh s)) rsp;
             rsp \<leftarrow> svd_channels (space_veh_info s) (at + 8) 0 (num_space_veh s) rsp;
             Some (int data_len, Some rsp, st) } }
         else if c = 0x02 then do {
           rsp \<leftarrow> mem_write at hdr rsp;
           let t = tm_puls_info s;
           if rsp_len < 41 then Some (- 1, Some rsp, st)
           else do {
             rsp \<leftarrow> mem_write (at + 4)
               (w32 (tp_year t) @ w32 (tp_gns_top_ofst t) @ w32 (tp_int_osc_ofst t) @ w32 (tp_utc_tm_ofst t) @
                w32 (tp_flags t) @ w32 (tp_utc_uncert t) @ w32 (tp_gnss_uncert t) @ w32 (tp_int_osc_uncert t) @
                [tp_month t, tp_day t, tp_hour t, tp_minute t, tp_seconds t]) rsp;
             Some (41, Some rsp, st) } }
         else if c = 0x03 then do {
           rsp \<leftarrow> mem_write at hdr rsp;
           let p = pos_time_info s;
           if rsp_len < 22 then Some (- 1, Some rsp, st)
           else do {
             rsp \<leftarrow> mem_write (at + 4)
               ([pv_fix_type p, pv_num_sat_used p] @ w32 (pv_long_value p) @ w32 (pv_lat_value p) @
                w32 (pv_hgt_ellipsoid p) @ w32 (pv_hgt_sea_lvl p)) rsp;
             Some (22, Some rsp, st) } }
         else if c = 0x05 then do { st \<leftarrow> schedule_ublox_reset eUBLOX_RSP_DST_NONE st; Some (0, Some rsp, st) }
         else if c = 0x04 then do {
           (r, st) \<leftarrow> config_single_satellite cmd cmd_len st;
           if rsp_len < 32 then Some (- 1, Some rsp, st)
           else do {
             bs \<leftarrow> mem_read 0 32 cmd;
             rsp \<leftarrow> mem_write at bs rsp;
             Some (32, Some rsp, st) } }
         else if c = 0x07 then
           (if rsp_len < 32 then Some (- 1, Some rsp, st)
            else do {
              bs \<leftarrow> mem_read 0 32 cmd;
              rsp \<leftarrow> mem_write at bs rsp;
              let v = srvy_in_stat s;
              let p = pos_time_info s;
              let st = st\<lparr>stat_d := s\<lparr>srvy_in_stat := v\<lparr>si_is_stale := 1\<rparr>\<rparr>\<rparr>;
              if si_in_progress v \<noteq> 0 then do {
                rsp \<leftarrow> mem_write (at + 4)
                  (w32 (pv_lat_value p) @ w32 (pv_long_value p) @ w32 (pv_hgt_ellipsoid p) @
                   w32 (si_mean_x v) @ w32 (si_mean_y v) @ w32 (si_mean_z v) @ w32 (si_variance_3d v)) rsp;
                Some (32, Some rsp, st) }
              else do {
                rsp \<leftarrow> mem_write (at + 4) (replicate 24 0 @ [0xFF, 0xFF, 0xFF, 0xFF]) rsp;
                (r, st) \<leftarrow> config_survey_in st;
                Some (32, Some rsp, st) } })
         else Some (0, Some rsp, st) }
   | _ \<Rightarrow> Some (- 1, rsp_buf, st))"

definition sar8 :: "u32 \<Rightarrow> u32" where
  "sar8 x = of_int (sint x div 256)"

text \<open>The statistics message: type, time, position fix (44 bytes), time pulse (24 bytes), satellites.\<close>

definition update_gps_pos_fix_stat :: "t_ublox_stat_data \<Rightarrow> u8 list" where
  "update_gps_pos_fix_stat s = (let p = pos_time_info s; v = srvy_in_stat s in
     w32 (pv_lat_value p) @ w32 (pv_long_value p) @ w32 (pv_hgt_sea_lvl p) @ w32 (pv_hgt_ellipsoid p) @
     w32 (ucast (pv_num_sat_used p)) @ w32 (ucast (pv_fix_type p)) @
     w32 (si_mean_x v) @ w32 (si_mean_y v) @ w32 (si_mean_z v) @ w32 (si_num_pos_observed v) @ w32 (si_variance_3d v))"

definition update_gps_tim_tos_stat :: "t_ublox_stat_data \<Rightarrow> u8 list" where
  "update_gps_tim_tos_stat s = (let t = tm_puls_info s in
     w32 (tp_gns_top_ofst t) @ w32 (tp_gnss_uncert t) @ w32 (sar8 (tp_int_osc_ofst t)) @
     w32 (drop_bit 8 (tp_int_osc_uncert t)) @ w32 (TIM_DISP_SRC (tp_flags t)) @ w32 (tp_flags t))"

definition push_gps_stats_nb :: "'d ublox_msg_data \<Rightarrow> (int \<times> 'd ublox_msg_data) option" where
  "push_gps_stats_nb st = do {
     let (ok, st) = kmalloc st;
     if \<not> ok then Some (- 1, st)
     else do {
       buf \<leftarrow> mem_write 0 (le_bytes 2 6 @ le_bytes 4 (unat (gps_time_sec st))) (replicate 512 0);
       buf \<leftarrow> mem_write 6 (update_gps_pos_fix_stat (stat_d st)) buf;
       buf \<leftarrow> mem_write 50 (update_gps_tim_tos_stat (stat_d st)) buf;
       (n, buf, st) \<leftarrow> get_gps_nl_rsp (Some [0, 0, 0x01, 0]) 4 74 (Some buf) (512 - 74) st;
       (case (buf, clnt_list st) of
          (Some buf, c # _) \<Rightarrow> do {
            bs \<leftarrow> mem_read 0 (nat (74 + n)) buf;
            Some (0, st\<lparr>ub_log := ub_log st @ [Stat_update (gps_clnt_data c) bs]\<rparr>) }
        | _ \<Rightarrow> Some (0, st)) } }"


section \<open>The worker\<close>

abbreviation I2C_RSP_MAX_WAIT :: int where "I2C_RSP_MAX_WAIT \<equiv> 10"

definition is_ublox_device_busy :: "'d ublox_msg_data \<Rightarrow> bool \<times> 'd ublox_msg_data" where
  "is_ublox_device_busy st =
     (if dev_busy_time st = 0 then (False, st)
      else
        let st' = st\<lparr>dev_busy_time := dev_busy_time st + 1\<rparr> in
        if sint (dev_busy_time st) < I2C_RSP_MAX_WAIT then (dev_busy_time st' \<noteq> 0, st') else (False, st'))"

definition check_ublox_sync_stat :: "'d ublox_msg_data \<Rightarrow> (eUblox_init_state \<times> 'd ublox_msg_data) option" where
  "check_ublox_sync_stat st =
     (let flags = tp_flags (tm_puls_info (stat_d st));
          disp_src = drop_bit 8 (flags AND TIM_TOS_DISP_SOURCE) AND 7 in
      if flags AND TIM_TOS_PULS_LOCKED \<noteq> 0 \<and> disp_src = 1 then do {
        (r, st) \<leftarrow> update_cfg_stat st;
        Some (eGPS_STATE_TIME_IN_SYNC, st) }
      else Some (eGPS_STATE_WAIT_SYNC, st))"

definition stat_zero :: t_ublox_stat_data where
  "stat_zero = \<lparr>num_space_veh = 0,
     space_veh_info = replicate MAX_NUM_SV \<lparr>sv_sat_id = 0, sv_flags = 0, sv_qlty = 0, sv_snr = 0, sv_elev = 0\<rparr>,
     gnss_fix = 0,
     pos_time_info = \<lparr>pv_tow_ms = 0, pv_year = 0, pv_month = 0, pv_day = 0, pv_hour = 0, pv_minute = 0, pv_second = 0,
       pv_valid_flag = 0, pv_f_second_ns = 0, pv_fix_type = 0, pv_fix_status = 0, pv_num_sat_used = 0, pv_long_value = 0,
       pv_lat_value = 0, pv_hgt_ellipsoid = 0, pv_hgt_sea_lvl = 0\<rparr>,
     tm_puls_info = \<lparr>tp_year = 0, tp_utc_tm_ofst = 0, tp_gns_top_ofst = 0, tp_int_osc_ofst = 0, tp_flags = 0,
       tp_utc_uncert = 0, tp_gnss_uncert = 0, tp_int_osc_uncert = 0, tp_gnss_week_num = 0, tp_gnss_week_time = 0,
       tp_month = 0, tp_day = 0, tp_hour = 0, tp_minute = 0, tp_seconds = 0\<rparr>,
     srvy_in_stat = \<lparr>si_survey_time = 0, si_mean_x = 0, si_mean_y = 0, si_mean_z = 0, si_variance_3d = 0,
       si_num_pos_observed = 0, si_valid_flag = 0, si_in_progress = 0, si_is_stale = 0\<rparr>,
     sync_mgr_stat = \<lparr>sync_sgnl_state = eSIGNAL_NOT_DSPLNED, int_osc_dsp_src = 0, gnss_present = 0\<rparr>,
     meas_valid_falg = False,
     ublox_stat = \<lparr>rd_pkt_count = 0, rd_pkt_len_error = 0, cheksum_error = 0, tim_tos_count = 0, tim_tos_pkt_error = 0,
       tim_tos_to_fw_count = 0, skip_invalid_msg_hdr = 0, gnss_fix_time_count = 0, int_osc_fix_time_count = 0\<rparr>\<rparr>"

text \<open>The first pass: when the device has nothing waiting, it is configured.\<close>

definition worker_init :: "'d i2c_ops \<Rightarrow> 'd ublox_msg_data \<Rightarrow> 'd ublox_msg_data option" where
  "worker_init ops st = do {
     buf \<leftarrow> i2c_data st;
     (len, buf, st) \<leftarrow> ublox_dev_rd ops 0 I2C_MSG_MAX_SIZE buf st;
     let st = st\<lparr>i2c_data := Some buf\<rparr>;
     if len = 0 then do {
       (r, st) \<leftarrow> schedule_cfg_msg_on_off eUBLOX_MSG_CFG (chars ''TIM_TOS'') eMSG_REPT_RD st;
       (r, st) \<leftarrow> config_sync_manager st;
       (r, st) \<leftarrow> config_nav_engine st;
       (r, st) \<leftarrow> config_survey_in st;
       Some (st\<lparr>stat_d := stat_zero, ublox_state := eGPS_STATE_WAIT_SYNC\<rparr>) }
     else Some st }"

text \<open>Sending the next command, unless an answer is awaited.\<close>

definition worker_send :: "'d i2c_ops \<Rightarrow> 'd ublox_msg_data \<Rightarrow> 'd ublox_msg_data option" where
  "worker_send ops st = do {
     (p, len, priv, q) \<leftarrow> tgd_queue_get (q_hndlr st);
     let st = st\<lparr>q_hndlr := q\<rparr>;
     (case p of
        None \<Rightarrow> Some st
      | Some a \<Rightarrow>
          if len \<le> 0 then Some st
          else do {
            let (c0, c1, dst) = EXTRACT_PRIV_DATA priv;
            let st = set_ublox_device_busy (st\<lparr>rsp_clsid := (c0, c1), rsp_dst := dst\<rparr>);
            b \<leftarrow> block_get q a;
            bs \<leftarrow> mem_read 0 (nat len) (data_bytes b);
            let (r, st) = ublox_dev_wr ops bs st;
            let st = st\<lparr>ub_log := ub_log st @ [Cmd_sent bs]\<rparr>;
            q \<leftarrow> tgd_queue_free_queue (Some a) (q_hndlr st);
            Some (st\<lparr>q_hndlr := q\<rparr>) }) }"

definition worker_push :: "'d ublox_msg_data \<Rightarrow> 'd ublox_msg_data option" where
  "worker_push st = do {
     st \<leftarrow> (if stat_push_armed st
           then do { (r, st) \<leftarrow> push_gps_stats_nb (st\<lparr>stat_push_armed := False\<rparr>); Some st } else Some st);
     if prev_one_sec_count st \<noteq> 0 \<and> prev_one_sec_count st mod stat_push_interval st = 0 then do {
       let st = st\<lparr>stat_push_armed := True\<rparr>;
       (r, st) \<leftarrow> schedule_config_cmd ''NAV_SVIN'' None 0 st;
       (r, st) \<leftarrow> schedule_config_cmd ''NAV_PVT'' None 0 st;
       (r, st) \<leftarrow> schedule_config_cmd ''TIM_SVIN'' None 0 st;
       Some st }
     else Some st }"

definition worker_run :: "'d i2c_ops \<Rightarrow> bool \<Rightarrow> 'd ublox_msg_data \<Rightarrow> 'd ublox_msg_data option" where
  "worker_run ops in_new_sec st = do {
     let st = st\<lparr>ublox_sm_state_count := ublox_sm_state_count st + 1\<rparr>;
     (r, st) \<leftarrow> do_tgd_ublox_msg_processing ops st;
     let (busy, st) = is_ublox_device_busy st;
     if busy then Some st
     else do {
       st \<leftarrow> worker_send ops st;
       if in_new_sec \<and> stat_push_interval st \<noteq> 0 then worker_push st else Some st } }"

definition tgd_ublox_msg_handler_worker :: "'d i2c_ops \<Rightarrow> 'd ublox_msg_data \<Rightarrow> 'd ublox_msg_data option" where
  "tgd_ublox_msg_handler_worker ops st =
     (let in_new_sec = (one_sec_count st \<noteq> prev_one_sec_count st);
          st = (if in_new_sec then st\<lparr>prev_one_sec_count := one_sec_count st\<rparr> else st) in
      case ublox_state st of
        eUBLX_STATE_DOWN \<Rightarrow> Some st
      | eGPS_STATE_INIT \<Rightarrow> worker_init ops st
      | eGPS_STATE_WAIT_SYNC \<Rightarrow> do {
          st \<leftarrow> (if in_new_sec then do { (s, st) \<leftarrow> check_ublox_sync_stat st; Some (st\<lparr>ublox_state := s\<rparr>) } else Some st);
          worker_run ops in_new_sec st }
      | eGPS_STATE_TIME_IN_SYNC \<Rightarrow> worker_run ops in_new_sec st)"

section \<open>Timer, start and stop\<close>

definition rearm_timer :: "(u32 \<Rightarrow> u64) \<Rightarrow> u32 \<Rightarrow> 'd ublox_msg_data \<Rightarrow> int \<times> 'd ublox_msg_data" where
  "rearm_timer msecs_to_jiffies time_intrvl_ms st =
     (let time_intrvl_ms = (if adj_timer_value_ms st \<noteq> 0 then time_intrvl_ms + adj_timer_value_ms st else time_intrvl_ms);
          st = st\<lparr>adj_timer_value_ms := 0\<rparr>;
          acc = accmulated_ms st + time_intrvl_ms;
          st = (if 1000 \<le> acc then st\<lparr>one_sec_count := one_sec_count st + acc div 1000, accmulated_ms := acc mod 1000\<rparr>
                else st\<lparr>accmulated_ms := acc\<rparr>) in
      if \<not> timer_shutting_down st
      then (0, st\<lparr>gps_timer := map_option (\<lambda>e. e + msecs_to_jiffies time_intrvl_ms) (gps_timer st)\<rparr>)
      else (- 1, st\<lparr>gps_timer := None\<rparr>))"

definition ublox_timer_handler_fn :: "(u32 \<Rightarrow> u64) \<Rightarrow> 'd ublox_msg_data \<Rightarrow> 'd ublox_msg_data" where
  "ublox_timer_handler_fn msecs_to_jiffies st =
     (let (r, st) = rearm_timer msecs_to_jiffies (tm_exp_in_ms st) st in
      if r \<noteq> 0 then st else st\<lparr>work_pending := True\<rparr>)"

definition stop_all_nmea_msgs :: "'d i2c_ops \<Rightarrow> nat \<Rightarrow> 'd ublox_msg_data \<Rightarrow> (int \<times> 'd ublox_msg_data) option" where
  "stop_all_nmea_msgs ops msg_rate_ms st = do {
     (r, st) \<leftarrow> ublox_msg_rate_set ops msg_rate_ms st;
     (r, st) \<leftarrow> ubx_write_cfg_msg_on_off ops eUBLOX_MSG_NMEA (chars ''VTG'') eMSG_DISABLD st;
     (r, st) \<leftarrow> ubx_write_cfg_msg_on_off ops eUBLOX_MSG_NMEA (chars ''RMC'') eMSG_DISABLD st;
     (r, st) \<leftarrow> ubx_write_cfg_msg_on_off ops eUBLOX_MSG_NMEA (chars ''GSV'') eMSG_DISABLD st;
     (r, st) \<leftarrow> ubx_write_cfg_msg_on_off ops eUBLOX_MSG_NMEA (chars ''GSA'') eMSG_DISABLD st;
     (r, st) \<leftarrow> ubx_write_cfg_msg_on_off ops eUBLOX_MSG_NMEA (chars ''GLL'') eMSG_DISABLD st;
     (r, st) \<leftarrow> ubx_write_cfg_msg_on_off ops eUBLOX_MSG_NMEA (chars ''GGA'') eMSG_DISABLD st;
     (r, st) \<leftarrow> ubx_write_cfg_msg_on_off ops eUBLOX_MSG_NMEA (chars ''ZDA'') eMSG_DISABLD st;
     Some (0, st) }"

text \<open>\<open>jiffies\<close> is the time of the call.\<close>

definition start_ublox_polling :: "(u32 \<Rightarrow> u64) \<Rightarrow> u64 \<Rightarrow> u32 \<Rightarrow> 'd ublox_msg_data \<Rightarrow> int \<times> 'd ublox_msg_data" where
  "start_ublox_polling msecs_to_jiffies jiffies tm_exp st =
     (if \<not> init_flag st then (- 1, st)
      else if timer_running st then (- 1, st)
      else (0, st\<lparr>work_pending := False, timer_shutting_down := False, one_sec_count := 0, accmulated_ms := 0,
          tm_exp_in_ms := tm_exp, ublox_state := eGPS_STATE_INIT, cfg_cmd_ack_rsp_len := 0, rsp_clsid := (0, 0),
          time_sync_mode := eTIME_MODE_UNKNOWN, dev_busy_time := 0, srvy_in_start_time := 0, stat_push_interval := 5,
          stat_d := (stat_d st)\<lparr>gnss_fix := 0,
            sync_mgr_stat := (sync_mgr_stat (stat_d st))\<lparr>sync_sgnl_state := eSIGNAL_NOT_DSPLNED\<rparr>, meas_valid_falg := False\<rparr>,
          gps_timer := Some (msecs_to_jiffies tm_exp + jiffies), timer_running := True\<rparr>))"

definition tgd_ublox_gps_start_msgs :: "'d i2c_ops \<Rightarrow> (u32 \<Rightarrow> u64) \<Rightarrow> u64 \<Rightarrow> 'd ublox_msg_data \<Rightarrow>
    (int \<times> 'd ublox_msg_data) option" where
  "tgd_ublox_gps_start_msgs ops msecs_to_jiffies jiffies st =
     (if \<not> init_flag st then Some (- 1, st)
      else if timer_running st then Some (- 1, st)
      else do {
        (r, st) \<leftarrow> ublox_msg_rate_set ops 1000 (st\<lparr>ublox_sm_state_count := 0\<rparr>);
        let (r, st) = start_ublox_polling msecs_to_jiffies jiffies 200 st;
        Some (0, st) })"

text \<open>Stopping: work that is still pending is run to its end by \<open>flush_work\<close>.\<close>

definition stop_ublox_polling :: "'d i2c_ops \<Rightarrow> 'd ublox_msg_data \<Rightarrow> (int \<times> 'd ublox_msg_data) option" where
  "stop_ublox_polling ops st =
     (if i2c_data st = None then Some (- 1, st)
      else do {
        let st = (if timer_running st then st\<lparr>timer_shutting_down := True, gps_timer := None, timer_running := False\<rparr> else st);
        let st = st\<lparr>ublox_state := eUBLX_STATE_DOWN\<rparr>;
        st \<leftarrow> (if work_pending st then tgd_ublox_msg_handler_worker ops (st\<lparr>work_pending := False\<rparr>) else Some st);
        Some (0, st) })"

definition tgd_ublox_gps_stop_msgs :: "'d i2c_ops \<Rightarrow> 'd ublox_msg_data \<Rightarrow> (int \<times> 'd ublox_msg_data) option" where
  "tgd_ublox_gps_stop_msgs ops st = do { (r, st) \<leftarrow> stop_ublox_polling ops st; Some (0, st) }"

section \<open>Loading and unloading\<close>

definition tgd_ublox_msg_handler_deinit :: "'d i2c_ops \<Rightarrow> 'd ublox_msg_data \<Rightarrow> (int \<times> 'd ublox_msg_data) option" where
  "tgd_ublox_msg_handler_deinit ops st = do {
     (r, st) \<leftarrow> (if timer_running st then tgd_ublox_gps_stop_msgs ops st else Some (0, st));
     let st = st\<lparr>platform_dev := False, init_flag := False, cfg_rsp_copy := None, i2c_data := None\<rparr>;
     (r, q) \<leftarrow> tgd_queue_deinit_cleanup (q_hndlr st);
     Some (0, st\<lparr>q_hndlr := q\<rparr>) }"

text \<open>The first argument tells whether a device handle is given.\<close>

definition ublox_dev_load_init :: "'d i2c_ops \<Rightarrow> (u32 \<Rightarrow> u64) \<Rightarrow> u64 \<Rightarrow> 'd tgd_ublox_gps_prv_data option \<Rightarrow>
    'd ublox_msg_data \<Rightarrow> (int \<times> 'd ublox_msg_data) option" where
  "ublox_dev_load_init ops msecs_to_jiffies jiffies dev st =
     (if init_flag st then Some (- 1, st)
      else (case dev of
        None \<Rightarrow> Some (- 1, st)
      | Some prv \<Rightarrow>
          let (ok1, st) = kmalloc st in
          if \<not> ok1 then Some (- 1, st\<lparr>i2c_data := None\<rparr>)
          else let (ok2, st) = kmalloc st in
          if \<not> ok2 then Some (- 1, st\<lparr>i2c_data := None, cfg_rsp_copy := None\<rparr>)
          else do {
            let (ok3, st) = kmalloc st;
            let st = st\<lparr>i2c_data := Some (replicate I2C_MSG_MAX_SIZE 0), cfg_rsp_copy := Some (replicate CFG_RSP_MAX 0),
                        clnt_list := [], ublox_handle := prv, init_flag := True, timer_running := False,
                        ublx_cfg_rsp_len := 0, q_hndlr := init_tgd_message_queue ok3 16 (q_hndlr st)\<rparr>;
            (ret, st) \<leftarrow> stop_all_nmea_msgs ops 1000 st;
            (ret, st) \<leftarrow> (if ret \<noteq> 0 then Some (ret, st) else tgd_ublox_gps_start_msgs ops msecs_to_jiffies jiffies st);
            if ret \<noteq> 0 then do { (r, st) \<leftarrow> tgd_ublox_msg_handler_deinit ops st; Some (ret, st) }
            else Some (ret, st) }))"

text \<open>\<open>reg\<close> is the answer of \<open>platform_device_register_full\<close>, zero for success.\<close>

definition tgd_ublox_msg_handler_init :: "'d i2c_ops \<Rightarrow> (u32 \<Rightarrow> u64) \<Rightarrow> u64 \<Rightarrow> int \<Rightarrow> 'd tgd_ublox_gps_prv_data option \<Rightarrow>
    'd ublox_msg_data \<Rightarrow> (bool \<times> 'd ublox_msg_data) option" where
  "tgd_ublox_msg_handler_init ops msecs_to_jiffies jiffies reg dev st = do {
     (ret, st) \<leftarrow> ublox_dev_load_init ops msecs_to_jiffies jiffies dev st;
     if ret \<noteq> 0 then Some (False, st)
     else if reg \<noteq> 0 then do {
       (r, st) \<leftarrow> tgd_ublox_msg_handler_deinit ops (st\<lparr>platform_dev := False\<rparr>);
       Some (False, st) }
     else Some (True, st\<lparr>platform_dev := True\<rparr>) }"

text \<open>The functions of the I2C driver; \<open>func\<close> tells whether the adapter is an I2C adapter.\<close>

definition tgd_ublox_gps_probe :: "'d i2c_ops \<Rightarrow> (u32 \<Rightarrow> u64) \<Rightarrow> u64 \<Rightarrow> bool \<Rightarrow> int \<Rightarrow> 'd \<Rightarrow> 'd ublox_msg_data \<Rightarrow>
    (int \<times> bool \<times> 'd ublox_msg_data) option" where
  "tgd_ublox_gps_probe ops msecs_to_jiffies jiffies func reg d st =
     (if \<not> func then Some (- 19, False, st)
      else let (ok, st) = kmalloc st in
      if \<not> ok then Some (- 12, False, st)
      else do {
        (up, st) \<leftarrow> tgd_ublox_msg_handler_init ops msecs_to_jiffies jiffies reg
          (Some \<lparr>client = d, i2c_stats = \<lparr>rx_fifo_empty_count = 0, rx_len_zero_count = 0, rx_len_truncated_count = 0,
             rx_poll_count = 0, rx_pkt_count = 0, rx_loop_break_count = 0, rx_error_count = 0, tx_byte_count = 0,
             tx_pkt_count = 0, tx_error_count = 0\<rparr>\<rparr>) st;
        Some (if up then 0 else - 19, up, st) })"

text \<open>\<open>msg_handler\<close> tells whether the handler of the device is set; shutting down clears it.\<close>

definition tgd_ublox_gps_remove :: "'d i2c_ops \<Rightarrow> bool \<Rightarrow> 'd ublox_msg_data \<Rightarrow> (int \<times> 'd ublox_msg_data) option" where
  "tgd_ublox_gps_remove ops msg_handler st =
     (if msg_handler then do { (r, st) \<leftarrow> tgd_ublox_msg_handler_deinit ops st; Some (0, st) } else Some (0, st))"

definition tgd_ublox_gps_shutdown :: "'d i2c_ops \<Rightarrow> bool \<Rightarrow> 'd ublox_msg_data \<Rightarrow> (bool \<times> 'd ublox_msg_data) option" where
  "tgd_ublox_gps_shutdown ops msg_handler st =
     (if msg_handler then do { (r, st) \<leftarrow> tgd_ublox_msg_handler_deinit ops st; Some (False, st) } else Some (False, st))"

section \<open>Sysfs\<close>

text \<open>
  \<open>simple_strtol\<close> of base 16 gives the value and the number of characters it took. The text is the
  \<open>count\<close> characters that were written and the zero behind them. \<open>i\<close> counts the passes of the loop.
\<close>

function hex_loop :: "(u8 list \<Rightarrow> int \<times> nat) \<Rightarrow> u8 list \<Rightarrow> nat \<Rightarrow> nat \<Rightarrow> nat \<Rightarrow> nat \<Rightarrow> u8 list \<Rightarrow> (nat \<times> u8 list) option" where
  "hex_loop simple_strtol asc_data asc_data_len i workptr dst_index hex_ar =
     (if i \<le> asc_data_len then do {
        c \<leftarrow> arr_get asc_data workptr;
        if c = 0x20 then hex_loop simple_strtol asc_data asc_data_len (i + 1) (workptr + 1) dst_index hex_ar
        else
          (let (long_val, taken) = simple_strtol (drop workptr asc_data) in
           if taken = 0 \<or> asc_data_len \<le> workptr + taken then Some (dst_index, hex_ar)
           else do {
             hex_ar \<leftarrow> arr_set hex_ar dst_index (of_int long_val);
             hex_loop simple_strtol asc_data asc_data_len (i + 1) (workptr + taken) (dst_index + 1) hex_ar }) }
      else Some (dst_index, hex_ar))"
  by pat_completeness auto
termination by (relation "measure (\<lambda>(s, a, asc_data_len, i, w, d, h). Suc asc_data_len - i)") auto

declare hex_loop.simps [simp del]

definition fb_strto_hex_array :: "(u8 list \<Rightarrow> int \<times> nat) \<Rightarrow> u8 list \<Rightarrow> nat \<Rightarrow> u8 list \<Rightarrow> (nat \<times> u8 list) option" where
  "fb_strto_hex_array simple_strtol asc_data asc_data_len hex_ar = hex_loop simple_strtol asc_data asc_data_len 0 0 0 hex_ar"

definition poll_start_store :: "'d i2c_ops \<Rightarrow> (u32 \<Rightarrow> u64) \<Rightarrow> u64 \<Rightarrow> u8 list \<Rightarrow> 'd ublox_msg_data \<Rightarrow> 'd ublox_msg_data option" where
  "poll_start_store ops msecs_to_jiffies jiffies buf st = do {
     c \<leftarrow> arr_get buf 0;
     (r, st) \<leftarrow> (if c = 0x31 then tgd_ublox_gps_start_msgs ops msecs_to_jiffies jiffies st
                else tgd_ublox_gps_stop_msgs ops st);
     Some st }"

definition time_enable_store :: "u8 list \<Rightarrow> 'd ublox_msg_data \<Rightarrow> 'd ublox_msg_data option" where
  "time_enable_store buf st = do {
     c \<leftarrow> arr_get buf 0;
     (r, st) \<leftarrow> schedule_cfg_msg_on_off eUBLOX_MSG_CFG (chars ''TIM_TOS'') (if c = 0x31 then eMSG_REPT_RD else eMSG_DISABLD) st;
     Some st }"

definition ublox_reset_store :: "'d i2c_ops \<Rightarrow> 'd ublox_msg_data \<Rightarrow> 'd ublox_msg_data option" where
  "ublox_reset_store ops st = do {
     st \<leftarrow> schedule_ublox_reset eUBLOX_RSP_DST_NONE st;
     (r, st) \<leftarrow> stop_all_nmea_msgs ops 1000 st;
     (r, st) \<leftarrow> schedule_cfg_msg_on_off eUBLOX_MSG_CFG (chars ''TIM_TOS'') eMSG_REPT_RD st;
     (r, st) \<leftarrow> config_sync_manager st;
     (r, st) \<leftarrow> config_nav_engine st;
     (r, st) \<leftarrow> config_survey_in st;
     Some st }"

definition stat_push_intrvl_store :: "(u8 list \<Rightarrow> int \<times> nat) \<Rightarrow> u8 list \<Rightarrow> nat \<Rightarrow> 'd ublox_msg_data \<Rightarrow> 'd ublox_msg_data option" where
  "stat_push_intrvl_store simple_strtol buf count st = do {
     (ret_len, hex_ar) \<leftarrow> fb_strto_hex_array simple_strtol buf count (replicate 4 0);
     if ret_len = 0 then Some st
     else do {
       v \<leftarrow> arr_get hex_ar 0;
       Some (st\<lparr>stat_push_interval := (if v = 0 then 0 else if v < 3 then 3 else ucast v)\<rparr>) } }"

definition tmr_adj_store :: "(u8 list \<Rightarrow> int \<times> nat) \<Rightarrow> u8 list \<Rightarrow> nat \<Rightarrow> 'd ublox_msg_data \<Rightarrow> 'd ublox_msg_data option" where
  "tmr_adj_store simple_strtol buf count st = do {
     (ret_len, hex_ar) \<leftarrow> fb_strto_hex_array simple_strtol buf count (replicate 4 0);
     if ret_len = 0 then Some st
     else do {
       v \<leftarrow> arr_get hex_ar 0;
       Some (if v < 200 then st\<lparr>adj_timer_value_ms := ucast v\<rparr> else st) } }"

definition dbg_lvl_store :: "(u8 list \<Rightarrow> int \<times> nat) \<Rightarrow> u8 list \<Rightarrow> nat \<Rightarrow> 'd ublox_msg_data \<Rightarrow> 'd ublox_msg_data option" where
  "dbg_lvl_store simple_strtol buf count st = do {
     (ret_len, hex_ar) \<leftarrow> fb_strto_hex_array simple_strtol buf count (replicate 4 0);
     if ret_len = 0 then Some st
     else do {
       v \<leftarrow> arr_get hex_ar 0;
       let lvl = (ucast v :: u32);
       q \<leftarrow> (if ((g_dbg_mask st AND 2) XOR (lvl AND 2)) \<noteq> 0 then tgd_queue_set_dbg_lvl (lvl AND 2) (q_hndlr st)
            else Some (q_hndlr st));
       Some (st\<lparr>q_hndlr := q, g_dbg_mask := lvl\<rparr>) } }"

definition cmd_cfg_store :: "(u8 list \<Rightarrow> int \<times> nat) \<Rightarrow> u8 list \<Rightarrow> nat \<Rightarrow> 'd ublox_msg_data \<Rightarrow> 'd ublox_msg_data option" where
  "cmd_cfg_store simple_strtol buf count st = do {
     (ret_len, hex_ar) \<leftarrow> fb_strto_hex_array simple_strtol buf count (replicate 256 0);
     if ret_len < 6 then Some st
     else do {
       body \<leftarrow> mem_read 2 (ret_len - 2) hex_ar;
       let (ck0, ck1) = nmea_checksum body;
       hex_ar \<leftarrow> mem_write ret_len [ck0, ck1] hex_ar;
       b2 \<leftarrow> arr_get hex_ar 2; b3 \<leftarrow> arr_get hex_ar 3;
       (r, st) \<leftarrow> queue_cmd hex_ar (int (ret_len + 2)) (PREP_PRIV_DATA b2 b3 eUBLOX_RSP_DST_USR) st;
       Some st } }"

text \<open>Reading the position or the satellites also asks the device for new values.\<close>

definition tgd_get_gps_lat_long :: "'d ublox_msg_data \<Rightarrow> 'd ublox_msg_data option" where
  "tgd_get_gps_lat_long st = do { (r, st) \<leftarrow> schedule_config_cmd ''NAV_PVT'' None 0 st; Some st }"

definition tgd_get_gps_sat_in_view :: "'d ublox_msg_data \<Rightarrow> 'd ublox_msg_data option" where
  "tgd_get_gps_sat_in_view st = do { (r, st) \<leftarrow> schedule_config_cmd ''NAV_SVIN'' None 0 st; Some st }"

section \<open>Clients\<close>

definition ublox_gps_init_client :: "nat \<Rightarrow> 'd ublox_msg_data \<Rightarrow> int \<times> 'd ublox_msg_data" where
  "ublox_gps_init_client clnt_data st =
     (if \<not> init_flag st then (- 19, st)
      else let (ok, st) = kmalloc st in
      if \<not> ok then (- 12, st)
      else (0, st\<lparr>clnt_list := clnt_list st @ [\<lparr>gps_clnt_data = clnt_data, send_to_clnt = False\<rparr>]\<rparr>))"

text \<open>A client is named by its data; a client that is not in the list is a pointer to freed memory.\<close>

definition is_client :: "nat \<Rightarrow> 'd ublox_msg_data \<Rightarrow> bool" where
  "is_client c st \<longleftrightarrow> c \<in> gps_clnt_data ` set (clnt_list st)"

definition ublox_gps_fini_client :: "nat \<Rightarrow> 'd ublox_msg_data \<Rightarrow> 'd ublox_msg_data option" where
  "ublox_gps_fini_client c st =
     (if is_client c st then Some (st\<lparr>clnt_list := filter (\<lambda>x. gps_clnt_data x \<noteq> c) (clnt_list st)\<rparr>) else None)"

definition set_sync :: "bool \<Rightarrow> nat \<Rightarrow> 'd ublox_msg_data \<Rightarrow> 'd ublox_msg_data option" where
  "set_sync b c st =
     (if is_client c st
      then Some (st\<lparr>clnt_list := map (\<lambda>x. if gps_clnt_data x = c then x\<lparr>send_to_clnt := b\<rparr> else x) (clnt_list st)\<rparr>)
      else None)"

definition ublox_gps_start_sync :: "nat \<Rightarrow> 'd ublox_msg_data \<Rightarrow> 'd ublox_msg_data option" where
  "ublox_gps_start_sync c st = set_sync True c st"

definition ublox_gps_stop_sync :: "nat \<Rightarrow> 'd ublox_msg_data \<Rightarrow> 'd ublox_msg_data option" where
  "ublox_gps_stop_sync c st = set_sync False c st"

definition ublox_gps_handle_nl_msg :: "nat \<Rightarrow> u8 list \<Rightarrow> nat \<Rightarrow> u8 list \<Rightarrow> int \<Rightarrow> 'd ublox_msg_data \<Rightarrow>
    (int \<times> u8 list option \<times> 'd ublox_msg_data) option" where
  "ublox_gps_handle_nl_msg c cmd cmd_len rsp rsp_len st =
     (if is_client c st then get_gps_nl_rsp (Some cmd) cmd_len 0 (Some rsp) rsp_len st else None)"
end
