(* ===== verification/UbloxDriver.thy ===== *)
theory UbloxDriver
  imports Ublox
begin

text \<open>
  Properties of the whole u-blox driver: loading, any sequence of its operations and unloading run
  without a fault and without a leak; the commands are sent in the order they were queued, one at a
  time; and the state machine reaches its states only in their order.
\<close>

section \<open>What queueing a command changes\<close>

definition q_inv :: "'d ublox_msg_data \<Rightarrow> bool" where
  "q_inv st \<longleftrightarrow> queue_ok [] (q_hndlr st) \<and> max_q_depth (desc_of (q_hndlr st)) = 16 \<and>
     (\<forall>e \<in> set (entries (q_hndlr st)). fst e \<noteq> [])"

text \<open>The fields that queueing leaves alone.\<close>

definition core :: "'d ublox_msg_data \<Rightarrow> _" where
  "core st = ((init_flag st, timer_running st, ublox_state st, gps_timer st, work_pending st, timer_shutting_down st),
     (i2c_data st, cfg_rsp_copy st, ublox_handle st, clnt_list st, platform_dev st),
     (dev_busy_time st, one_sec_count st, prev_one_sec_count st, stat_push_interval st))"

definition enq :: "'d ublox_msg_data \<Rightarrow> 'd ublox_msg_data \<Rightarrow> bool" where
  "enq st st' \<longleftrightarrow> q_inv st' \<and> ub_wf st' \<and> core st' = core st \<and> cmds (ub_log st') = cmds (ub_log st) \<and>
     (\<exists>new. entries (q_hndlr st') = entries (q_hndlr st) @ new \<and> queued (ub_log st') = queued (ub_log st) @ map fst new)"

definition enqs :: "'d ublox_msg_data \<Rightarrow> ('a \<times> 'd ublox_msg_data) option \<Rightarrow> bool" where
  "enqs st res \<longleftrightarrow> (\<exists>r st'. res = Some (r, st') \<and> enq st st')"

lemma enq_refl: "q_inv st \<Longrightarrow> ub_wf st \<Longrightarrow> enq st st"
  by (simp add: enq_def)

lemma enq_trans: "enq st st1 \<Longrightarrow> enq st1 st2 \<Longrightarrow> enq st st2"
  by (auto simp: enq_def)

lemma enqsE: "enqs st res \<Longrightarrow> (\<And>r st'. res = Some (r, st') \<Longrightarrow> enq st st' \<Longrightarrow> P) \<Longrightarrow> P"
  by (auto simp: enqs_def)

lemma enqsI: "res = Some (r, st') \<Longrightarrow> enq st st' \<Longrightarrow> enqs st res"
  by (auto simp: enqs_def)

text \<open>Running one queueing operation after another.\<close>

lemma enqs_bind:
  assumes "enqs st res" and "\<And>r st'. q_inv st' \<Longrightarrow> ub_wf st' \<Longrightarrow> enqs st' (f (r, st'))"
  shows "enqs st (Option.bind res f)"
proof -
  obtain r st1 where 1: "res = Some (r, st1)" "enq st st1" using assms(1) by (auto simp: enqs_def)
  then have "enqs st1 (f (r, st1))" using assms(2) by (simp add: enq_def)
  with 1 show ?thesis by (auto simp: enqs_def intro: enq_trans)
qed

lemma create_prefix:
  assumes "n \<le> length buf"
  shows "tgd_queue_create_new_entry ok (Some buf) (int n) p m =
         tgd_queue_create_new_entry ok (Some (take n buf)) (int (length (take n buf))) p m"
  using assms by (simp add: tgd_queue_create_new_entry_def mem_read_def min_absorb2 split: option.splits)

text \<open>A command is appended to the queue, or refused for want of room or memory.\<close>

lemma queue_cmd_ok:
  assumes "q_inv st" and "0 < n" and "n \<le> length buf"
  shows "\<exists>r q f l. queue_cmd buf (int n) priv st = Some (r, st\<lparr>kmalloc_fails := f, q_hndlr := q, ub_log := ub_log st @ l\<rparr>) \<and>
           (r = 0 \<or> r = - 1) \<and> q_inv (st\<lparr>kmalloc_fails := f, q_hndlr := q, ub_log := ub_log st @ l\<rparr>) \<and>
           entries q = entries (q_hndlr st) @ (if r = 0 then [(take n buf, priv)] else []) \<and>
           l = (if r = 0 then [Cmd_queued (take n buf)] else []) \<and>
           (kmalloc_fails st = [] \<and> length (entries (q_hndlr st)) < 16 \<longrightarrow> r = 0)"
proof -
  let ?q = "q_hndlr st" and ?bs = "take n buf"
  have q: "queue_ok [] ?q" "max_q_depth (desc_of ?q) = 16" using assms(1) by (auto simp: q_inv_def)
  have ne: "?bs \<noteq> []" using assms(2,3) by auto
  define ok where "ok = fst (kmalloc st)"
  define f where "f = kmalloc_fails (snd (kmalloc st))"
  have k: "kmalloc st = (ok, st\<lparr>kmalloc_fails := f\<rparr>)" "kmalloc_fails st = [] \<Longrightarrow> ok"
    by (auto simp: ok_def f_def kmalloc_def split: list.splits)
  consider (room) "ok" "int (length (entries ?q)) < 16" | (full) "ok" "\<not> int (length (entries ?q)) < 16" | (nomem) "\<not> ok"
    by blast
  then show ?thesis
  proof cases
    case room
    obtain q' where q': "tgd_queue_create_new_entry True (Some ?bs) (int (length ?bs)) priv ?q = Some (0, q')"
      "queue_ok [] q'" "entries q' = entries ?q @ [(?bs, priv)]" "max_q_depth (desc_of q') = 16"
      using create_room [OF q(1), of ?bs priv] room(2) q(2) by auto
    have "queue_cmd buf (int n) priv st = Some (0, st\<lparr>kmalloc_fails := f, q_hndlr := q', ub_log := ub_log st @ [Cmd_queued ?bs]\<rparr>)"
      using q'(1) room(1) k(1) by (simp add: queue_cmd_def create_prefix [OF assms(3)])
    moreover have "q_inv (st\<lparr>kmalloc_fails := f, q_hndlr := q', ub_log := ub_log st @ [Cmd_queued ?bs]\<rparr>)" using q' ne assms(1) by (auto simp: q_inv_def)
    ultimately show ?thesis using q'(3) by auto
  next
    case full
    obtain q' where q': "tgd_queue_create_new_entry True (Some ?bs) (int (length ?bs)) priv ?q = Some (- 1, q')"
      "queue_ok [] q'" "entries q' = entries ?q" "max_q_depth (desc_of q') = 16"
      using create_full [OF q(1), of ?bs priv] full(2) q(2) by auto
    have "queue_cmd buf (int n) priv st = Some (- 1, st\<lparr>kmalloc_fails := f, q_hndlr := q', ub_log := ub_log st @ []\<rparr>)"
      using q'(1) full(1) k(1) by (simp add: queue_cmd_def create_prefix [OF assms(3)])
    moreover have "q_inv (st\<lparr>kmalloc_fails := f, q_hndlr := q', ub_log := ub_log st @ []\<rparr>)" using q' assms(1) by (auto simp: q_inv_def)
    ultimately show ?thesis using q'(3) full(2) by auto
  next
    case nomem
    have "queue_cmd buf (int n) priv st = Some (- 1, st\<lparr>kmalloc_fails := f, q_hndlr := ?q, ub_log := ub_log st @ []\<rparr>)"
      using create_no_memory [OF q(1), of ?bs "int (length ?bs)" priv] nomem k(1)
      by (simp add: queue_cmd_def create_prefix [OF assms(3)])
    moreover have "q_inv (st\<lparr>kmalloc_fails := f, q_hndlr := ?q, ub_log := ub_log st @ []\<rparr>)" using assms(1) by (auto simp: q_inv_def)
    ultimately show ?thesis
      using nomem k(2) by (intro exI [of _ "- 1"] exI [of _ ?q] exI [of _ f] exI [of _ "[]"]) auto
  qed
qed

lemma queue_cmd_enq:
  assumes "q_inv st" and "ub_wf st" and "0 < n" and "n \<le> length buf"
  shows "enqs st (queue_cmd buf (int n) priv st)"
proof -
  obtain r q f l where "queue_cmd buf (int n) priv st = Some (r, st\<lparr>kmalloc_fails := f, q_hndlr := q, ub_log := ub_log st @ l\<rparr>)"
    "q_inv (st\<lparr>kmalloc_fails := f, q_hndlr := q, ub_log := ub_log st @ l\<rparr>)" "l = (if r = 0 then [Cmd_queued (take n buf)] else [])"
    "entries q = entries (q_hndlr st) @ (if r = 0 then [(take n buf, priv)] else [])"
    using queue_cmd_ok [OF assms(1,3,4), of priv] by auto
  with assms(2) show ?thesis by (auto simp: enqs_def enq_def core_def ub_wf_def)
qed


section \<open>The commands of the driver\<close>

lemma cfg_index [simp]:
  "get_cfg_msg_table_index ''CFG_RST'' = Some 5" "get_cfg_msg_table_index ''CFG_SMGR'' = Some 6"
  "get_cfg_msg_table_index ''CFG_NAV5'' = Some 7" "get_cfg_msg_table_index ''NAV_PVT'' = Some 2"
  "get_cfg_msg_table_index ''NAV_SVIN'' = Some 1" "get_cfg_msg_table_index ''TIM_SVIN'' = Some 3"
  "get_cfg_msg_table_index ''TIM_TOS'' = Some 0"
  by (simp_all add: get_cfg_msg_table_index_def table_cfg_ubx_msg_def)

lemma chars_back [simp]: "map (\<lambda>b. char_of (unat b)) (chars s) = s"
proof -
  have "char_of (unat (of_nat (of_char c) :: u8)) = c" for c :: char
    by (simp add: unat_of_nat_u8)
  then show ?thesis by (simp add: chars_def comp_def map_idI)
qed

text \<open>A command of the table is queued as one frame, whose class is kept for its answer.\<close>

lemma prep_queue_cmd:
  assumes "get_cfg_msg_table_index tag = Some i" and "length p + 8 \<le> sz" and "d = Some p \<or> d = None \<and> p = []"
    and "n = length p" and "um_clsid (table_cfg_ubx_msg ! i) = (c0, c1)"
  shows "do { (rlen, buf) \<leftarrow> prep_cfg_cmd tag d n (replicate sz 0) sz;
              b2 \<leftarrow> arr_get buf 2; b3 \<leftarrow> arr_get buf 3;
              queue_cmd buf rlen (PREP_PRIV_DATA b2 b3 dst) st } =
         queue_cmd (ubx_frame c0 c1 p @ replicate (sz - (length p + 8)) 0) (int (length p + 8)) (PREP_PRIV_DATA c0 c1 dst) st"
  using prep_cfg_frame [of p "replicate sz 0" tag i d] assms
  by (simp add: frame_bytes)

lemma schedule_config_cmd_eq:
  assumes "get_cfg_msg_table_index tag = Some i" and "um_clsid (table_cfg_ubx_msg ! i) = (c0, c1)"
  shows "schedule_config_cmd tag None 0 st =
           queue_cmd (ubx_frame c0 c1 [] @ replicate 24 0) 8 (PREP_PRIV_DATA c0 c1 eUBLOX_RSP_DST_TMR) st"
  unfolding schedule_config_cmd_def using prep_queue_cmd [OF assms(1), of "[]" 32 None 0 c0 c1] assms(2) by simp

lemma frame_queued: "q_inv st \<Longrightarrow> ub_wf st \<Longrightarrow> enqs st (queue_cmd (ubx_frame c0 c1 p @ x) (int (length p + 8)) priv st)"
  by (rule queue_cmd_enq) auto

lemma frame_queued_num:
  "q_inv st \<Longrightarrow> ub_wf st \<Longrightarrow> n = int (length p + 8) \<Longrightarrow> enqs st (queue_cmd (ubx_frame c0 c1 p @ x) n priv st)"
  using frame_queued by simp

named_theorems enq_intros \<open>operations that only queue commands\<close>

lemma enqs_Some [enq_intros]: "q_inv st \<Longrightarrow> ub_wf st \<Longrightarrow> enqs st (Some (r, st))"
  by (auto simp: enqs_def intro: enq_refl)

lemma schedule_config_cmd_enq:
  assumes "q_inv st" and "ub_wf st" and "get_cfg_msg_table_index tag = Some i"
  shows "enqs st (schedule_config_cmd tag None 0 st)"
proof -
  obtain c0 c1 where "um_clsid (table_cfg_ubx_msg ! i) = (c0, c1)" by (cases "um_clsid (table_cfg_ubx_msg ! i)")
  from schedule_config_cmd_eq [OF assms(3) this, of st] show ?thesis
    using frame_queued_num [OF assms(1,2), of 8 "[]"] by simp
qed

lemma schedule_on_off_eq:
  "schedule_cfg_msg_on_off eUBLOX_MSG_CFG (chars ''TIM_TOS'') e st =
     queue_cmd (ubx_frame 0x06 0x01 [0x0D, 0x12, if e \<noteq> eMSG_DISABLD then 1 else 0, 0, 0, 0, 0, 0] @ replicate 16 0) 16
       (PREP_PRIV_DATA 0x0D 0x12 eUBLOX_RSP_DST_TMR) st"
proof -
  let ?p = "[0x0D, 0x12, if e \<noteq> eMSG_DISABLD then 1 else 0, 0, 0, 0, 0, 0] :: u8 list"
  have l: "length ?p = 8" by simp
  have i: "prep_on_off_cmd eUBLOX_MSG_CFG (chars ''TIM_TOS'') e (replicate 32 0) 32 st =
      Some (16, ubx_frame 0x06 0x01 ?p @ replicate 16 0, st)"
    using prep_cmd_frame [of ?p "replicate 32 0" "0x06" "0x01", unfolded l]
    by (simp add: prep_on_off_cmd_def table_cfg_ubx_msg_def Let_def)
  have "arr_get (ubx_frame 0x06 0x01 ?p @ replicate 16 0) 6 = Some 0x0D"
    "arr_get (ubx_frame 0x06 0x01 ?p @ replicate 16 0) 7 = Some 0x12"
    by (simp_all add: arr_get_def ubx_frame_def ubx_body_def nth_Cons')
  then show ?thesis unfolding schedule_cfg_msg_on_off_def i by simp
qed

lemma schedule_on_off_enq [enq_intros]:
  assumes "q_inv st" and "ub_wf st"
  shows "enqs st (schedule_cfg_msg_on_off eUBLOX_MSG_CFG (chars ''TIM_TOS'') e st)"
  unfolding schedule_on_off_eq by (rule frame_queued_num [OF assms]) simp


definition enq1 :: "'d ublox_msg_data \<Rightarrow> 'd ublox_msg_data option \<Rightarrow> bool" where
  "enq1 st res \<longleftrightarrow> (\<exists>st'. res = Some st' \<and> enq st st')"

lemma enq1_bind:
  assumes "enqs st res" and "\<And>r st'. q_inv st' \<Longrightarrow> ub_wf st' \<Longrightarrow> enq1 st' (f (r, st'))"
  shows "enq1 st (Option.bind res f)"
proof -
  obtain r st1 where 1: "res = Some (r, st1)" "enq st st1" using assms(1) by (auto simp: enqs_def)
  then have "enq1 st1 (f (r, st1))" using assms(2) by (simp add: enq_def)
  with 1 show ?thesis by (auto simp: enq1_def intro: enq_trans)
qed

lemma enqs_bind1:
  assumes "enq1 st res" and "\<And>st'. q_inv st' \<Longrightarrow> ub_wf st' \<Longrightarrow> enqs st' (f st')"
  shows "enqs st (Option.bind res f)"
proof -
  obtain st1 where 1: "res = Some st1" "enq st st1" using assms(1) by (auto simp: enq1_def)
  then have "enqs st1 (f st1)" using assms(2) by (simp add: enq_def)
  with 1 show ?thesis by (auto simp: enqs_def intro: enq_trans)
qed

lemma enq1_bind1:
  assumes "enq1 st res" and "\<And>st'. q_inv st' \<Longrightarrow> ub_wf st' \<Longrightarrow> enq1 st' (f st')"
  shows "enq1 st (Option.bind res f)"
proof -
  obtain st1 where 1: "res = Some st1" "enq st st1" using assms(1) by (auto simp: enq1_def)
  then have "enq1 st1 (f st1)" using assms(2) by (simp add: enq_def)
  with 1 show ?thesis by (auto simp: enq1_def intro: enq_trans)
qed

lemma enq1_Some: "q_inv st \<Longrightarrow> ub_wf st \<Longrightarrow> enq1 st (Some st)"
  by (auto simp: enq1_def intro: enq_refl)

lemma prep_queue_bind:
  assumes "get_cfg_msg_table_index tag = Some i" and "length p + 8 \<le> sz" and "n = length p"
    and "um_clsid (table_cfg_ubx_msg ! i) = (c0, c1)"
  shows "do { (rlen, buf) \<leftarrow> prep_cfg_cmd tag (Some p) n (replicate sz 0) sz;
              b2 \<leftarrow> arr_get buf 2; b3 \<leftarrow> arr_get buf 3;
              x \<leftarrow> queue_cmd buf rlen (PREP_PRIV_DATA b2 b3 dst) st; g x } =
         do { x \<leftarrow> queue_cmd (ubx_frame c0 c1 p @ replicate (sz - (length p + 8)) 0) (int (length p + 8)) (PREP_PRIV_DATA c0 c1 dst) st; g x }"
  using prep_cfg_frame [of p "replicate sz 0" tag i "Some p"] assms by (simp add: frame_bytes)

lemma reset_enq: "q_inv st \<Longrightarrow> ub_wf st \<Longrightarrow> enq1 st (schedule_ublox_reset dst st)"
  unfolding schedule_ublox_reset_def
  by (subst prep_queue_bind [where i = 5 and ?c0.0 = "0x06" and ?c1.0 = "0x04"])
    (auto simp: table_cfg_ubx_msg_def intro!: enq1_bind frame_queued_num enq1_Some)

lemma sync_manager_enq [enq_intros]: "q_inv st \<Longrightarrow> ub_wf st \<Longrightarrow> enqs st (config_sync_manager st)"
  unfolding config_sync_manager_def
  by (subst prep_queue_bind [where i = 6 and ?c0.0 = "0x06" and ?c1.0 = "0x62"])
    (auto simp: table_cfg_ubx_msg_def intro!: enqs_bind frame_queued_num enqs_Some)

lemma nav_engine_enq [enq_intros]: "q_inv st \<Longrightarrow> ub_wf st \<Longrightarrow> enqs st (config_nav_engine st)"
  unfolding config_nav_engine_def
  by (subst prep_queue_bind [where i = 7 and ?c0.0 = "0x06" and ?c1.0 = "0x24"])
    (auto simp: table_cfg_ubx_msg_def intro!: enqs_bind frame_queued_num enqs_Some)

lemma update_cfg_stat_enq [enq_intros]: "q_inv st \<Longrightarrow> ub_wf st \<Longrightarrow> enqs st (update_cfg_stat st)"
  unfolding update_cfg_stat_def
  by (rule enqs_bind enq_intros schedule_config_cmd_enq cfg_index | assumption | simp)+

lemma check_sync_enq: "q_inv st \<Longrightarrow> ub_wf st \<Longrightarrow> enqs st (check_ublox_sync_stat st)"
  unfolding check_ublox_sync_stat_def Let_def
  by (auto intro!: enqs_bind update_cfg_stat_enq enqs_Some)

lemma tmode2_enq:
  assumes "q_inv st" and "ub_wf st" and "length hex_ar = 40"
  shows "enqs st (tmode2_finish hex_ar st)"
proof -
  obtain k0 k1 where k: "nmea_checksum (take 32 (drop 2 hex_ar)) = (k0, k1)" by (cases "nmea_checksum (take 32 (drop 2 hex_ar))")
  define h where "h = take 34 hex_ar @ [k0, k1] @ drop 36 hex_ar"
  have h: "mem_write 34 [k0, k1] hex_ar = Some h" "length h = 40"
    using assms(3) by (simp_all add: mem_write_def h_def)
  have "arr_get h 2 = Some (h ! 2)" "arr_get h 3 = Some (h ! 3)" using h(2) by (simp_all add: arr_get_def)
  moreover have "enqs st (queue_cmd h (int 36) priv st)" for priv
    using queue_cmd_enq [OF assms(1,2), of 36 h priv] h(2) by simp
  ultimately show ?thesis using k h(1) assms(3) by (simp add: tmode2_finish_def mem_read_def)
qed

lemma enq_fields [simp]:
  "enq st (st'\<lparr>time_sync_mode := x\<rparr>) = enq st st'" "enq st (st'\<lparr>srvy_in_start_time := y\<rparr>) = enq st st'"
  "q_inv (st\<lparr>time_sync_mode := x\<rparr>) = q_inv st" "ub_wf (st\<lparr>time_sync_mode := x\<rparr>) = ub_wf st"
  "enqs (st\<lparr>time_sync_mode := x\<rparr>) res = enqs st res"
  by (simp_all add: enq_def q_inv_def ub_wf_def core_def enqs_def)

lemma survey_in_enq [enq_intros]:
  assumes "q_inv st" and "ub_wf st"
  shows "enqs st (config_survey_in st)"
proof -
  define h0 where "h0 = [UBX_CHAR_SYNC0, UBX_CHAR_SYNC1, 0x06, 0x3D, 0x1C, 0x00, 0x01 :: u8] @ replicate 33 0"
  have h0: "length h0 = 40" by (simp add: h0_def)
  obtain h1 where h1: "mem_write 26 (le_bytes 4 (24 * 60 * 60)) h0 = Some h1" "length h1 = 40"
    using h0 by (auto simp: mem_write_def)
  obtain h2 where h2: "mem_write 30 (le_bytes 4 (5 * 1000)) h1 = Some h2" "length h2 = 40"
    using h1(2) by (auto simp: mem_write_def)
  obtain r st1 where "tmode2_finish h2 st = Some (r, st1)" "enq st st1"
    using tmode2_enq [OF assms h2(2)] by (auto simp: enqs_def)
  then show ?thesis
    unfolding config_survey_in_def Let_def h0_def [symmetric] h1(1) Option.bind.simps h2(1)
    by (auto simp: enqs_def)
qed

lemma single_satellite_enq:
  assumes "q_inv st" and "ub_wf st" and "32 \<le> length cmd"
  shows "enqs st (config_single_satellite cmd cmd_len st)"
proof (cases "cmd_len < 16")
  case False
  define h0 where "h0 = UBX_CHAR_SYNC0 # UBX_CHAR_SYNC1 # 0x06 # 0x3D # 0x1C # 0 # 0x02 # 0 # 1 # (0 :: u8) # replicate 30 0"
  have w: "\<exists>h'. mem_write off (take 4 (drop k cmd)) h = Some h' \<and> length h' = 40" if "length h = 40" "off \<le> 36" for off k h
    using that by (auto simp: mem_write_def)
  have h0: "length h0 = 40" by (simp add: h0_def)
  obtain h1 where h1: "mem_write 10 (take 4 (drop 4 cmd)) h0 = Some h1" "length h1 = 40" using w [OF h0, of 10 4] by auto
  obtain h2 where h2: "mem_write 14 (take 4 (drop 8 cmd)) h1 = Some h2" "length h2 = 40" using w [OF h1(2), of 14 8] by auto
  obtain h3 where h3: "mem_write 18 (take 4 (drop 12 cmd)) h2 = Some h3" "length h3 = 40" using w [OF h2(2), of 18 12] by auto
  obtain h4 where h4: "mem_write 22 (take 4 (drop 28 cmd)) h3 = Some h4" "length h4 = 40" using w [OF h3(2), of 22 28] by auto
  obtain h5 where h5: "mem_write 26 (replicate 14 0) h4 = Some h5" "length h5 = 40"
    using h4(2) by (auto simp: mem_write_def)
  have rd: "mem_read k 4 cmd = Some (take 4 (drop k cmd))" if "k \<le> 28" for k using assms(3) that by (simp add: mem_read_def)
  have "enqs st (tmode2_finish h5 (st\<lparr>time_sync_mode := eTIME_MODE_FIXED\<rparr>))"
    using tmode2_enq [of "st\<lparr>time_sync_mode := eTIME_MODE_FIXED\<rparr>" h5] assms h5(2) by simp
  then show ?thesis
    using False h1(1) h2(1) h3(1) h4(1) h5(1)
    by (auto simp: config_single_satellite_def h0_def [symmetric] rd enqs_def)
qed (use assms in \<open>simp add: config_single_satellite_def enqs_Some\<close>)

section \<open>Netlink requests and statistics\<close>

lemma length_w32 [simp]: "length (w32 x) = 4"
  by (simp add: w32_def)

lemma mem_write_ok: "off + length bs \<le> length m \<Longrightarrow> \<exists>m'. mem_write off bs m = Some m' \<and> length m' = length m"
  using mem_write_defined mem_write_length by blast

lemma svd_channels_ok:
  assumes "at + 5 * (i + n) \<le> length rsp" and "i + n \<le> length vs"
  shows "\<exists>rsp'. svd_channels vs at i n rsp = Some rsp' \<and> length rsp' = length rsp"
  using assms
proof (induction n arbitrary: i rsp)
  case (Suc n)
  let ?v = "vs ! i"
  let ?bs = "[sv_sat_id ?v, sv_flags ?v, sv_qlty ?v, sv_snr ?v, sv_elev ?v]"
  obtain r1 where r1: "mem_write (at + 5 * i) ?bs rsp = Some r1" "length r1 = length rsp"
    using mem_write_ok [of "at + 5 * i" ?bs rsp] Suc.prems by auto
  have "\<exists>rsp'. svd_channels vs at (Suc i) n r1 = Some rsp' \<and> length rsp' = length r1"
    using Suc.IH [of "Suc i" r1] Suc.prems r1(2) by simp
  with r1 Suc.prems show ?case by (simp add: arr_get_defined)
qed simp

definition nl_fine :: "'d ublox_msg_data \<Rightarrow> u8 list \<Rightarrow> (int \<times> u8 list option \<times> 'd ublox_msg_data) option \<Rightarrow> bool" where
  "nl_fine st rsp res \<longleftrightarrow> (\<exists>r rsp' st'. res = Some (r, Some rsp', st') \<and> length rsp' = length rsp \<and> enq st st')"

lemma nl_SomeI: "q_inv st \<Longrightarrow> ub_wf st \<Longrightarrow> nl_fine st rsp (Some (r, Some rsp, st))"
  by (auto simp: nl_fine_def intro: enq_refl)

lemma nl_write:
  assumes "off + length bs \<le> length rsp" and "\<And>rsp'. length rsp' = length rsp \<Longrightarrow> nl_fine st rsp' (f rsp')"
  shows "nl_fine st rsp (Option.bind (mem_write off bs rsp) f)"
proof -
  obtain r1 where r1: "mem_write off bs rsp = Some r1" "length r1 = length rsp" using mem_write_ok [OF assms(1)] by auto
  from assms(2) [OF r1(2)] r1 show ?thesis by (simp add: nl_fine_def)
qed

lemma nl_enqs:
  assumes "enqs st res" and "\<And>r st'. f (r, st') = Some (k, Some rsp, st')"
  shows "nl_fine st rsp (Option.bind res f)"
  using assms by (auto simp: enqs_def nl_fine_def)

lemma stale_enq:
  assumes "q_inv st" and "ub_wf st"
  shows "enq st (st\<lparr>stat_d := (stat_d st)\<lparr>srvy_in_stat := v\<rparr>\<rparr>)"
  using assms by (simp add: enq_def q_inv_def ub_wf_def stat_wf_def core_def)

lemma nl_rsp_ok:
  assumes "q_inv st" and "ub_wf st" and "4 \<le> length cmd"
    and "cmd ! 2 \<in> {0x04, 0x07} \<Longrightarrow> 32 \<le> length cmd"
    and "at + nat rsp_len \<le> length rsp"
  shows "nl_fine st rsp (get_gps_nl_rsp (Some cmd) cmd_len at (Some rsp) rsp_len st)"
proof (cases "cmd_len < 4 \<or> rsp_len < 4")
  case False
  have c: "arr_get cmd 2 = Some (cmd ! 2)" "mem_read 0 4 cmd = Some (take 4 cmd)"
    using assms(3) by (auto simp: arr_get_def mem_read_def)
  have room: "at + 4 \<le> length rsp" and room': "\<And>k. \<not> rsp_len < int k \<Longrightarrow> at + k \<le> length rsp"
    using False assms(5) by auto
  let ?s = "stat_d st"
  have sv: "num_space_veh ?s \<le> length (space_veh_info ?s)" using assms(2) by (simp add: ub_wf_def stat_wf_def)
  note unf = get_gps_nl_rsp_def [of "Some cmd" cmd_len at "Some rsp" rsp_len st, simplified prod.case option.case if_not_P [OF False] c Option.bind.simps Let_def]
  have hdr: "at + length (take 4 cmd) \<le> length rsp" using room assms(3) by simp
  consider "cmd ! 2 = 0x01" | "cmd ! 2 = 0x02" | "cmd ! 2 = 0x03" | "cmd ! 2 = 0x05" | "cmd ! 2 = 0x04" | "cmd ! 2 = 0x07"
    | "cmd ! 2 \<notin> {0x01, 0x02, 0x03, 0x04, 0x05, 0x07}" by blast
  then show ?thesis
  proof cases
    case 1
    have "nl_fine st rsp' (do {
        rsp \<leftarrow> mem_write (at + 4) (le_bytes 4 (num_space_veh ?s)) rsp';
        rsp \<leftarrow> svd_channels (space_veh_info ?s) (at + 8) 0 (num_space_veh ?s) rsp;
        Some (int (num_space_veh ?s * 5 + 8), Some rsp, st) })"
      if l: "length rsp' = length rsp" and big: "\<not> rsp_len < int (num_space_veh ?s * 5 + 8)" for rsp'
    proof (rule nl_write)
      have r: "at + (num_space_veh ?s * 5 + 8) \<le> length rsp" using room' big by blast
      then show "at + 4 + length (le_bytes 4 (num_space_veh ?s)) \<le> length rsp'" using l by simp
      fix r1 :: "u8 list" assume "length r1 = length rsp'"
      then obtain r2 where "svd_channels (space_veh_info ?s) (at + 8) 0 (num_space_veh ?s) r1 = Some r2" "length r2 = length r1"
        using svd_channels_ok [of "at + 8" 0 "num_space_veh ?s" r1 "space_veh_info ?s"] r sv l by auto
      then show "nl_fine st r1 (do { rsp \<leftarrow> svd_channels (space_veh_info ?s) (at + 8) 0 (num_space_veh ?s) r1;
          Some (int (num_space_veh ?s * 5 + 8), Some rsp, st) })"
        using enq_refl [OF assms(1,2)] by (auto simp: nl_fine_def)
    qed
    with 1 show ?thesis
      unfolding unf by (auto intro!: nl_write [OF hdr] nl_SomeI assms)
  next
    case 2
    then show ?thesis
      unfolding unf using room' [of 41] by (auto intro!: nl_write [OF hdr] nl_write nl_SomeI assms)
  next
    case 3
    then show ?thesis
      unfolding unf using room' [of 22] by (auto intro!: nl_write [OF hdr] nl_write nl_SomeI assms)
  next
    case 4
    obtain st1 where "schedule_ublox_reset eUBLOX_RSP_DST_NONE st = Some st1" "enq st st1"
      using reset_enq [OF assms(1,2)] by (auto simp: enq1_def)
    with 4 show ?thesis unfolding unf by (auto simp: nl_fine_def)
  next
    case 5
    then have l: "32 \<le> length cmd" using assms(4) by simp
    obtain r st1 where s: "config_single_satellite cmd cmd_len st = Some (r, st1)" "enq st st1"
      using single_satellite_enq [OF assms(1,2) l, of cmd_len] by (auto simp: enqs_def)
    show ?thesis
    proof (cases "rsp_len < 32")
      case less: False
      obtain r1 where "mem_write at (take 32 cmd) rsp = Some r1" "length r1 = length rsp"
        using mem_write_ok [of at "take 32 cmd" rsp] room' [of 32] less l by auto
      with 5 s less l show ?thesis unfolding unf by (auto simp: nl_fine_def mem_read_def)
    qed (use 5 s in \<open>auto simp: unf nl_fine_def\<close>)
  next
    case 6
    then have l: "32 \<le> length cmd" using assms(4) by simp
    let ?st = "st\<lparr>stat_d := ?s\<lparr>srvy_in_stat := (srvy_in_stat ?s)\<lparr>si_is_stale := 1\<rparr>\<rparr>\<rparr>"
    have e: "enq st ?st" by (rule stale_enq [OF assms(1,2)])
    obtain r st1 where s: "config_survey_in ?st = Some (r, st1)" "enq ?st st1"
      using survey_in_enq [of ?st] e by (auto simp: enqs_def enq_def)
    show ?thesis
    proof (cases "rsp_len < 32")
      case less: False
      obtain r1 where r1: "mem_write at (take 32 cmd) rsp = Some r1" "length r1 = length rsp"
        using mem_write_ok [of at "take 32 cmd" rsp] room' [of 32] less l by auto
      have w: "\<exists>r2. mem_write (at + 4) bs r1 = Some r2 \<and> length r2 = length rsp" if "length bs = 28" for bs
        using mem_write_ok [of "at + 4" bs r1] room' [of 32] less r1(2) that by auto
      let ?p = "pos_time_info ?s" and ?v = "srvy_in_stat ?s"
      obtain r2 where r2: "mem_write (at + 4) (w32 (pv_lat_value ?p) @ w32 (pv_long_value ?p) @ w32 (pv_hgt_ellipsoid ?p) @
          w32 (si_mean_x ?v) @ w32 (si_mean_y ?v) @ w32 (si_mean_z ?v) @ w32 (si_variance_3d ?v)) r1 = Some r2" "length r2 = length rsp"
        using w by force
      obtain r3 where r3: "mem_write (at + 4) (replicate 24 0 @ [0xFF, 0xFF, 0xFF, 0xFF]) r1 = Some r3" "length r3 = length rsp"
        using w by force
      from 6 s r1 r2 r3 less l e enq_trans [OF e s(2)] show ?thesis unfolding unf by (auto simp: nl_fine_def mem_read_def)
    qed (use 6 assms in \<open>auto simp: unf intro: nl_SomeI\<close>)
  next
    case 7
    then show ?thesis unfolding unf using nl_SomeI assms(1,2) by auto
  qed
qed (use assms in \<open>auto simp: get_gps_nl_rsp_def intro: nl_SomeI\<close>)

lemma kmalloc_enq: "q_inv st \<Longrightarrow> ub_wf st \<Longrightarrow> enq st (snd (kmalloc st))"
  by (simp add: kmalloc_def enq_def q_inv_def ub_wf_def core_def split: list.splits)

lemma push_stats_ok:
  assumes "q_inv st" and "ub_wf st"
  shows "enqs st (push_gps_stats_nb st)"
proof -
  obtain ok st1 where k: "kmalloc st = (ok, st1)" by (cases "kmalloc st")
  have e1: "enq st st1" using kmalloc_enq [OF assms] k by simp
  then have inv1: "q_inv st1" "ub_wf st1" by (auto simp: enq_def)
  show ?thesis
  proof (cases ok)
    case True
    obtain b1 where b1: "mem_write 0 (le_bytes 2 6 @ le_bytes 4 (unat (gps_time_sec st1))) (replicate 512 0) = Some b1" "length b1 = 512"
      using mem_write_ok [of 0 "le_bytes 2 6 @ le_bytes 4 (unat (gps_time_sec st1))" "replicate 512 0"] by auto
    obtain b2 where b2: "mem_write 6 (update_gps_pos_fix_stat (stat_d st1)) b1 = Some b2" "length b2 = 512"
      using mem_write_ok [of 6 "update_gps_pos_fix_stat (stat_d st1)" b1] b1(2) by (auto simp: update_gps_pos_fix_stat_def Let_def)
    obtain b3 where b3: "mem_write 50 (update_gps_tim_tos_stat (stat_d st1)) b2 = Some b3" "length b3 = 512"
      using mem_write_ok [of 50 "update_gps_tim_tos_stat (stat_d st1)" b2] b2(2) by (auto simp: update_gps_tim_tos_stat_def Let_def)
    have "nl_fine st1 b3 (get_gps_nl_rsp (Some [0, 0, 0x01, 0]) 4 74 (Some b3) (512 - 74) st1)"
      using b3(2) by (intro nl_rsp_ok [OF inv1]) auto
    then obtain n b4 st2 where n: "get_gps_nl_rsp (Some [0, 0, 0x01, 0]) 4 74 (Some b3) (512 - 74) st1 = Some (n, Some b4, st2)"
      "length b4 = 512" "enq st1 st2" using b3(2) by (auto simp: nl_fine_def)
    have "n \<le> 438"
    proof -
      have "num_space_veh (stat_d st1) \<le> 16" using inv1(2) by (simp add: ub_wf_def stat_wf_def)
      with n(1) show ?thesis
        by (auto simp: get_gps_nl_rsp_def arr_get_def mem_read_def Let_def split: Option.bind_splits if_splits)
    qed
    then have rd: "mem_read 0 (nat (74 + n)) b4 = Some (take (nat (74 + n)) b4)" using n(2) by (simp add: mem_read_def)
    have e: "enq st st2" using e1 n(3) by (rule enq_trans)
    show ?thesis
    proof (cases "clnt_list st2")
      case Nil
      with k True b1 b2 b3 n e show ?thesis by (simp add: push_gps_stats_nb_def enqs_def)
    next
      case (Cons c cs)
      have "enq st (st2\<lparr>ub_log := ub_log st2 @ [Stat_update (gps_clnt_data c) (take (nat (74 + n)) b4)]\<rparr>)"
        using e by (auto simp: enq_def q_inv_def ub_wf_def core_def)
      with k True b1 b2 b3 n rd Cons show ?thesis by (simp add: push_gps_stats_nb_def enqs_def)
    qed
  qed (use k e1 in \<open>simp add: push_gps_stats_nb_def enqs_def\<close>)
qed

section \<open>The worker\<close>

definition ub_inv :: "'d ublox_msg_data \<Rightarrow> bool" where
  "ub_inv st \<longleftrightarrow> ub_wf st \<and> q_inv st \<and> init_flag st \<and> i2c_data st \<noteq> None \<and> cfg_rsp_copy st \<noteq> None \<and>
     (timer_running st \<longleftrightarrow> gps_timer st \<noteq> None) \<and> (timer_running st \<or> ublox_state st = eUBLX_STATE_DOWN) \<and>
     (work_pending st \<longrightarrow> timer_running st) \<and> (timer_running st \<longrightarrow> \<not> timer_shutting_down st)"

text \<open>
  What was queued is sent in order: the commands that waited, followed by those the queue took, are
  the commands that were sent, followed by those that wait.
\<close>

definition fifo :: "'d ublox_msg_data \<Rightarrow> 'd ublox_msg_data \<Rightarrow> bool" where
  "fifo st st' \<longleftrightarrow> (\<exists>sent new. cmds (ub_log st') = cmds (ub_log st) @ sent \<and> queued (ub_log st') = queued (ub_log st) @ new \<and>
     map fst (entries (q_hndlr st)) @ new = sent @ map fst (entries (q_hndlr st')))"

text \<open>A step that leaves the state machine alone, and one after which it is in a state of \<open>S\<close>.\<close>

definition step_keep :: "'d ublox_msg_data \<Rightarrow> 'd ublox_msg_data option \<Rightarrow> bool" where
  "step_keep st res \<longleftrightarrow> (\<exists>st'. res = Some st' \<and> ub_inv st' \<and> fifo st st' \<and> ublox_state st' = ublox_state st)"

definition step_to :: "eUblox_init_state set \<Rightarrow> 'd ublox_msg_data \<Rightarrow> 'd ublox_msg_data option \<Rightarrow> bool" where
  "step_to S st res \<longleftrightarrow> (\<exists>st'. res = Some st' \<and> ub_inv st' \<and> fifo st st' \<and> ublox_state st' \<in> S)"

lemma step_keep_to: "step_keep st res \<Longrightarrow> ublox_state st \<in> S \<Longrightarrow> step_to S st res"
  by (auto simp: step_keep_def step_to_def)

lemma fifo_refl: "fifo st st"
  by (simp add: fifo_def)

lemma fifo_trans: "fifo st st1 \<Longrightarrow> fifo st1 st2 \<Longrightarrow> fifo st st2"
  unfolding fifo_def by (metis append.assoc)

lemma enq_inv: "ub_inv st \<Longrightarrow> enq st st' \<Longrightarrow> ub_inv st' \<and> fifo st st' \<and> ublox_state st' = ublox_state st"
  by (auto simp: ub_inv_def enq_def core_def fifo_def)

lemma keeps_inv: "ub_inv st \<Longrightarrow> keeps st st' \<Longrightarrow> ub_wf st' \<Longrightarrow> ub_inv st' \<and> fifo st st' \<and> ublox_state st' = ublox_state st"
  by (auto simp: ub_inv_def keeps_def fifo_def q_inv_def)

lemma step_keep_bind:
  assumes "step_keep st res" and "\<And>st'. ub_inv st' \<Longrightarrow> step_keep st' (f st')"
  shows "step_keep st (Option.bind res f)"
  using assms by (fastforce simp: step_keep_def intro: fifo_trans)

lemma step_keep_enqs:
  assumes "ub_inv st" and "enqs st res" and "\<And>r st'. ub_inv st' \<Longrightarrow> enq st st' \<Longrightarrow> step_keep st' (f (r, st'))"
  shows "step_keep st (Option.bind res f)"
proof -
  obtain r st1 where 1: "res = Some (r, st1)" "enq st st1" using assms(2) by (auto simp: enqs_def)
  then have "ub_inv st1 \<and> fifo st st1 \<and> ublox_state st1 = ublox_state st" using enq_inv assms(1) by blast
  with 1 assms(3) [of st1 r] show ?thesis by (force simp: step_keep_def intro: fifo_trans)
qed

lemma step_keep_Some: "ub_inv st \<Longrightarrow> step_keep st (Some st)"
  by (simp add: step_keep_def fifo_refl)

lemma ub_invD: "ub_inv st \<Longrightarrow> q_inv st" "ub_inv st \<Longrightarrow> ub_wf st"
  by (simp_all add: ub_inv_def)

lemma worker_send_Nil: "q_inv st \<Longrightarrow> entries (q_hndlr st) = [] \<Longrightarrow> worker_send ops st = Some st"
  using get_Nil [of "[]" "q_hndlr st"] by (simp add: worker_send_def q_inv_def)

text \<open>The command at the front of the queue is sent, its block freed, and its answer awaited.\<close>

lemma worker_send_Cons:
  assumes "q_inv st" and "ub_wf st" and "entries (q_hndlr st) = (bs, p) # es"
  shows "\<exists>st'. worker_send ops st = Some st' \<and> q_inv st' \<and> ub_wf st' \<and> entries (q_hndlr st') = es \<and>
     cmds (ub_log st') = cmds (ub_log st) @ [bs] \<and> queued (ub_log st') = queued (ub_log st) \<and> dev_busy_time st' = 1 \<and>
     (rsp_clsid st', rsp_dst st') = (case EXTRACT_PRIV_DATA p of (c0, c1, d) \<Rightarrow> ((c0, c1), d)) \<and>
     core st' = core (st\<lparr>ublox_handle := ublox_handle st', dev_busy_time := 1\<rparr>)"
proof -
  let ?q = "q_hndlr st"
  have q: "queue_ok [] ?q" "max_q_depth (desc_of ?q) = 16" "bs \<noteq> []" "\<forall>e \<in> set es. fst e \<noteq> []"
    using assms(1,3) by (auto simp: q_inv_def)
  obtain a q1 where g: "tgd_queue_get ?q = Some (Some a, int (length bs), p, q1)" "queue_ok [a] q1" "entries q1 = es"
    "entry_of q1 a = (bs, p)" "max_q_depth (desc_of q1) = 16"
    using get_Cons [OF q(1) assms(3)] q(2) by auto
  obtain b where b: "block_get q1 a = Some b" "data_bytes b = bs"
    using owned_live [OF g(2), of a] g(4) by (auto simp: entry_of_def)
  obtain q2 where f: "tgd_queue_free_queue (Some a) q1 = Some q2" "queue_ok [] q2" "entries q2 = es"
    "max_q_depth (desc_of q2) = 16"
    using free_owned [of "[]" a "[]" q1] g by auto
  obtain c0 c1 d where x: "EXTRACT_PRIV_DATA p = (c0, c1, d)" by (cases "EXTRACT_PRIV_DATA p")
  obtain r prv where w: "ublox_i2c_send ops bs (ublox_handle st) = (r, prv)" by (cases "ublox_i2c_send ops bs (ublox_handle st)")
  let ?st = "st\<lparr>rsp_clsid := (c0, c1), rsp_dst := d, dev_busy_time := 1, ublox_handle := prv,
               ub_log := ub_log st @ [Cmd_sent bs], q_hndlr := q2\<rparr>"
  have "worker_send ops st = Some ?st"
    using g(1) b f(1) x w q(3)
    by (simp add: worker_send_def set_ublox_device_busy_def ublox_dev_wr_def mem_read_def)
  moreover have "q_inv ?st" "ub_wf ?st" using f q(4) assms(2) by (auto simp: q_inv_def ub_wf_def)
  ultimately show ?thesis using f(3) x by (simp add: core_def)
qed

lemma worker_send_step: "ub_inv st \<Longrightarrow> step_keep st (worker_send ops st)"
proof -
  assume inv: "ub_inv st"
  then have i: "q_inv st" "ub_wf st" by (auto dest: ub_invD)
  show ?thesis
  proof (cases "entries (q_hndlr st)")
    case Nil
    with worker_send_Nil [OF i(1)] inv show ?thesis by (simp add: step_keep_Some)
  next
    case (Cons e es)
    then obtain st' where s: "worker_send ops st = Some st'" "q_inv st'" "ub_wf st'" "entries (q_hndlr st') = es"
      "cmds (ub_log st') = cmds (ub_log st) @ [fst e]" "queued (ub_log st') = queued (ub_log st)" "core st' = core (st\<lparr>ublox_handle := ublox_handle st', dev_busy_time := 1\<rparr>)"
      using worker_send_Cons [OF i, of "fst e" "snd e" es ops] by auto
    then have "ub_inv st'" "ublox_state st' = ublox_state st" using inv by (auto simp: ub_inv_def core_def)
    with s Cons show ?thesis by (simp add: step_keep_def fifo_def)
  qed
qed

lemma enq_armed [simp]:
  "enq (st\<lparr>stat_push_armed := b\<rparr>) st' = enq st st'" "q_inv (st\<lparr>stat_push_armed := b\<rparr>) = q_inv st"
  "ub_wf (st\<lparr>stat_push_armed := b\<rparr>) = ub_wf st" "enqs (st\<lparr>stat_push_armed := b\<rparr>) res = enqs st res"
  by (simp_all add: enq_def core_def q_inv_def ub_wf_def enqs_def)

lemma worker_push_enq:
  assumes "q_inv st" and "ub_wf st"
  shows "enq1 st (worker_push st)"
  unfolding worker_push_def
proof (rule enq1_bind1)
  have "enqs st (push_gps_stats_nb (st\<lparr>stat_push_armed := False\<rparr>))"
    using push_stats_ok [of "st\<lparr>stat_push_armed := False\<rparr>"] assms by simp
  then show "enq1 st (if stat_push_armed st then do { (r, st) \<leftarrow> push_gps_stats_nb (st\<lparr>stat_push_armed := False\<rparr>); Some st }
      else Some st)"
    using assms by (auto intro!: enq1_bind enq1_Some)
  fix s :: "'a ublox_msg_data" assume s: "q_inv s" "ub_wf s"
  have "enqs s (schedule_config_cmd ''NAV_SVIN'' None 0 (s\<lparr>stat_push_armed := True\<rparr>))"
    using schedule_config_cmd_enq [of "s\<lparr>stat_push_armed := True\<rparr>", OF _ _ cfg_index(5)] s by simp
  then show "enq1 s (if prev_one_sec_count s \<noteq> 0 \<and> prev_one_sec_count s mod stat_push_interval s = 0
      then let st = s\<lparr>stat_push_armed := True\<rparr> in do { (r, st) \<leftarrow> schedule_config_cmd ''NAV_SVIN'' None 0 st;
        (r, st) \<leftarrow> schedule_config_cmd ''NAV_PVT'' None 0 st; (r, st) \<leftarrow> schedule_config_cmd ''TIM_SVIN'' None 0 st; Some st }
      else Some s)"
    using s by (auto intro!: enq1_bind enq1_Some schedule_config_cmd_enq cfg_index simp: Let_def)
qed

lemma worker_push_step: "ub_inv st \<Longrightarrow> step_keep st (worker_push st)"
  using worker_push_enq [of st] enq_inv [of st] by (auto simp: enq1_def step_keep_def dest: ub_invD)

text \<open>How much a poll reads depends on the device and the buffer only.\<close>

lemma rd_loop_len:
  "ublox_handle st' = ublox_handle st \<Longrightarrow> map_option fst (rd_loop ops len buf st') = map_option fst (rd_loop ops len buf st)"
proof (induction ops len buf st arbitrary: st' rule: rd_loop.induct)
  case (1 ops len buf st)
  show ?case
  proof (cases "ublox_i2c_receive ops len (I2C_MSG_MAX_SIZE - len) (ublox_handle st) buf")
    case None
    with "1.prems" show ?thesis by (simp add: rd_loop.simps [of ops len buf] ublox_dev_rd_def)
  next
    case (Some x)
    obtain r prv buf1 where x: "x = (r, prv, buf1)" by (cases x)
    have d: "ublox_dev_rd ops len (I2C_MSG_MAX_SIZE - len) buf s = Some (r, buf1, s\<lparr>ublox_handle := prv\<rparr>)"
      if "ublox_handle s = ublox_handle st" for s
      using Some x that by (simp add: ublox_dev_rd_def)
    have "map_option fst (rd_loop ops (len + nat r) buf1 (st'\<lparr>ublox_handle := prv\<rparr>)) =
        map_option fst (rd_loop ops (len + nat r) buf1 (st\<lparr>ublox_handle := prv\<rparr>))"
      if "\<not> r < 0" "0 < r \<and> len + nat r < I2C_MSG_MAX_SIZE"
      using "1.IH" [OF d [OF refl] refl refl that, of "st'\<lparr>ublox_handle := prv\<rparr>"] by simp
    then show ?thesis
      using d [OF refl] d [OF "1.prems"] by (simp add: rd_loop.simps [of ops len buf])
  qed
qed

lemma poll_fits_cong:
  assumes "i2c_data st' = i2c_data st" and "ublox_handle st' = ublox_handle st"
  shows "poll_fits ops st' = poll_fits ops st"
proof (cases "i2c_data st")
  case (Some buf)
  from rd_loop_len [OF assms(2), of ops 0 buf] show ?thesis
    using assms(1) Some
    by (cases "rd_loop ops 0 buf st'"; cases "rd_loop ops 0 buf st") (auto simp: poll_fits_def)
qed (use assms in \<open>simp add: poll_fits_def\<close>)

lemma busy_ok:
  assumes "is_ublox_device_busy st = (b, st')"
  shows "\<exists>t. st' = st\<lparr>dev_busy_time := t\<rparr>"
  using assms by (auto simp: is_ublox_device_busy_def Let_def split: if_splits intro: exI [of _ "dev_busy_time st"])

lemma ub_inv_fields [simp]:
  "ub_inv (st\<lparr>dev_busy_time := t\<rparr>) = ub_inv st" "ub_inv (st\<lparr>ublox_sm_state_count := n\<rparr>) = ub_inv st"
  "ub_inv (st\<lparr>prev_one_sec_count := n\<rparr>) = ub_inv st"
  by (simp_all add: ub_inv_def q_inv_def ub_wf_def)

lemma fifo_fields [simp]:
  "fifo (st\<lparr>dev_busy_time := t\<rparr>) st' = fifo st st'" "fifo (st\<lparr>ublox_sm_state_count := n\<rparr>) st' = fifo st st'"
  "fifo (st\<lparr>prev_one_sec_count := n\<rparr>) st' = fifo st st'" "fifo st (st'\<lparr>dev_busy_time := t\<rparr>) = fifo st st'"
  "fifo (st\<lparr>ublox_state := s\<rparr>) st' = fifo st st'" "fifo st (st'\<lparr>ublox_state := s\<rparr>) = fifo st st'"
  by (simp_all add: fifo_def)

lemma worker_run_step:
  assumes "i2c_ok ops" and "ub_inv st" and "poll_fits ops st"
  shows "step_keep st (worker_run ops in_new_sec st)"
proof -
  let ?st = "st\<lparr>ublox_sm_state_count := ublox_sm_state_count st + 1\<rparr>"
  have pf: "poll_fits ops ?st" using poll_fits_cong [of ?st st ops] assms(3) by simp
  have "fine ?st (do_tgd_ublox_msg_processing ops ?st)"
    using processing_ok [OF assms(1) _ pf] assms(2) by (simp add: ub_inv_def ub_wf_def)
  then obtain r st1 where p: "do_tgd_ublox_msg_processing ops ?st = Some (r, st1)" "ub_wf st1" "keeps ?st st1"
    by (auto simp: fine_def)
  have 1: "ub_inv st1" "fifo st st1" "ublox_state st1 = ublox_state st" using keeps_inv [OF _ p(3,2)] assms(2) by auto
  obtain b st2 where b: "is_ublox_device_busy st1 = (b, st2)" by (cases "is_ublox_device_busy st1")
  then have 2: "ub_inv st2" "fifo st st2" "ublox_state st2 = ublox_state st" using busy_ok [OF b] 1 by auto
  have "step_keep st2 (do { st \<leftarrow> worker_send ops st2; if in_new_sec \<and> stat_push_interval st \<noteq> 0 then worker_push st else Some st })"
    by (rule step_keep_bind [OF worker_send_step [OF 2(1)]]) (auto intro: worker_push_step step_keep_Some)
  with 2 b p(1) show ?thesis
    by (auto simp: worker_run_def step_keep_def intro: fifo_trans)
qed

lemma worker_init_step:
  assumes "i2c_ok ops" and "ub_inv st" and "ublox_state st = eGPS_STATE_INIT"
  shows "step_to {eGPS_STATE_INIT, eGPS_STATE_WAIT_SYNC} st (worker_init ops st)"
proof -
  obtain buf where buf: "i2c_data st = Some buf" "length buf = I2C_MSG_MAX_SIZE"
    using assms(2) by (auto simp: ub_inv_def ub_wf_def)
  obtain len prv buf1 where rx: "ublox_i2c_receive ops 0 I2C_MSG_MAX_SIZE (ublox_handle st) buf = Some (len, prv, buf1)"
    "length buf1 = I2C_MSG_MAX_SIZE"
    using ublox_i2c_receive_ok [OF assms(1), of 0 I2C_MSG_MAX_SIZE buf "ublox_handle st"] buf(2) by auto
  let ?st = "st\<lparr>ublox_handle := prv, i2c_data := Some buf1\<rparr>"
  have inv: "ub_inv ?st" using assms(2) rx(2) by (auto simp: ub_inv_def ub_wf_def q_inv_def)
  have run: "timer_running st" using assms(2,3) by (auto simp: ub_inv_def)
  have conf: "enqs ?st (do {
      (r, st) \<leftarrow> schedule_cfg_msg_on_off eUBLOX_MSG_CFG (chars ''TIM_TOS'') eMSG_REPT_RD ?st;
      (r, st) \<leftarrow> config_sync_manager st; (r, st) \<leftarrow> config_nav_engine st; config_survey_in st })"
    using ub_invD [OF inv] by (auto intro!: enqs_bind enq_intros)
  have "step_to {eGPS_STATE_WAIT_SYNC} ?st (do {
      (r, st) \<leftarrow> schedule_cfg_msg_on_off eUBLOX_MSG_CFG (chars ''TIM_TOS'') eMSG_REPT_RD ?st;
      (r, st) \<leftarrow> config_sync_manager st; (r, st) \<leftarrow> config_nav_engine st; (r, st) \<leftarrow> config_survey_in st;
      Some (st\<lparr>stat_d := stat_zero, ublox_state := eGPS_STATE_WAIT_SYNC\<rparr>) })"
  proof -
    obtain r st1 where c: "(do {
        (r, st) \<leftarrow> schedule_cfg_msg_on_off eUBLOX_MSG_CFG (chars ''TIM_TOS'') eMSG_REPT_RD ?st;
        (r, st) \<leftarrow> config_sync_manager st; (r, st) \<leftarrow> config_nav_engine st; config_survey_in st }) = Some (r, st1)" "enq ?st st1"
      using conf by (auto simp: enqs_def)
    have "ub_inv st1" "fifo ?st st1" "timer_running st1" using enq_inv [OF inv c(2)] c(2) run by (auto simp: enq_def core_def)
    then have "ub_inv (st1\<lparr>stat_d := stat_zero, ublox_state := eGPS_STATE_WAIT_SYNC\<rparr>)"
      "fifo ?st (st1\<lparr>stat_d := stat_zero, ublox_state := eGPS_STATE_WAIT_SYNC\<rparr>)"
      by (auto simp: ub_inv_def ub_wf_def q_inv_def stat_wf_def stat_zero_def fifo_def)
    with c(1) show ?thesis
      by (auto simp: step_to_def split: Option.bind_splits)
  qed
  then show ?thesis
    using buf(1) rx(1) inv assms(3)
    by (auto simp: worker_init_def ublox_dev_rd_def step_to_def fifo_def Let_def)
qed

text \<open>The receiver reports a locked pulse that is disciplined by GNSS.\<close>

definition pps_in_sync :: "'d ublox_msg_data \<Rightarrow> bool" where
  "pps_in_sync st \<longleftrightarrow> (let flags = tp_flags (tm_puls_info (stat_d st)) in
     flags AND TIM_TOS_PULS_LOCKED \<noteq> 0 \<and> drop_bit 8 (flags AND TIM_TOS_DISP_SOURCE) AND 7 = 1)"

text \<open>The states the worker may leave the driver in.\<close>

definition work_next :: "'d ublox_msg_data \<Rightarrow> eUblox_init_state set" where
  "work_next st = (case ublox_state st of
     eGPS_STATE_INIT \<Rightarrow> {eGPS_STATE_INIT, eGPS_STATE_WAIT_SYNC}
   | eGPS_STATE_WAIT_SYNC \<Rightarrow> (if one_sec_count st \<noteq> prev_one_sec_count st \<and> pps_in_sync st
                              then {eGPS_STATE_TIME_IN_SYNC} else {eGPS_STATE_WAIT_SYNC})
   | s \<Rightarrow> {s})"

lemma check_sync_state:
  "check_ublox_sync_stat st = Some (x, st') \<Longrightarrow>
     x = (if pps_in_sync st then eGPS_STATE_TIME_IN_SYNC else eGPS_STATE_WAIT_SYNC)"
  by (auto simp: check_ublox_sync_stat_def pps_in_sync_def Let_def split: Option.bind_splits if_splits)

lemma worker_step:
  assumes "i2c_ok ops" and "ub_inv st" and "poll_fits ops st"
  shows "step_to (work_next st) st (tgd_ublox_msg_handler_worker ops st)"
proof -
  let ?n = "one_sec_count st \<noteq> prev_one_sec_count st"
  define s where "s = (if ?n then st\<lparr>prev_one_sec_count := one_sec_count st\<rparr> else st)"
  have s: "ub_inv s" "fifo s = fifo st" "ublox_state s = ublox_state st"
    "i2c_data s = i2c_data st" "ublox_handle s = ublox_handle st" "pps_in_sync s = pps_in_sync st"
    using assms(2) by (auto simp: s_def fun_eq_iff pps_in_sync_def)
  have pf: "poll_fits ops s" using poll_fits_cong [of s st ops] s assms(3) by simp
  have eq: "step_to S st = step_to S s" for S using s(2) by (simp add: step_to_def fun_eq_iff)
  note unf = tgd_ublox_msg_handler_worker_def [of ops st, unfolded s_def [symmetric] Let_def]
  show ?thesis
  proof (cases "ublox_state st")
    case eUBLX_STATE_DOWN
    then show ?thesis unfolding unf eq using s by (simp add: step_keep_to step_keep_Some work_next_def)
  next
    case eGPS_STATE_INIT
    then show ?thesis unfolding unf eq using s worker_init_step [OF assms(1) s(1)] by (simp add: work_next_def)
  next
    case eGPS_STATE_TIME_IN_SYNC
    then show ?thesis
      unfolding unf eq using s worker_run_step [OF assms(1) s(1) pf] by (simp add: work_next_def step_keep_to)
  next
    case eGPS_STATE_WAIT_SYNC
    have run: "timer_running s" using s eGPS_STATE_WAIT_SYNC by (auto simp: ub_inv_def)
    obtain x st1 where c: "check_ublox_sync_stat s = Some (x, st1)" "enq s st1"
      using check_sync_enq [OF ub_invD [OF s(1)]] by (auto simp: enqs_def)
    let ?st = "st1\<lparr>ublox_state := x\<rparr>"
    have "ub_inv st1" "fifo s st1" using enq_inv [OF s(1) c(2)] by auto
    then have 1: "ub_inv ?st" "fifo s ?st" using run c(2) by (auto simp: ub_inv_def ub_wf_def q_inv_def enq_def core_def)
    have pf1: "poll_fits ops ?st" using poll_fits_cong [of ?st s ops] pf c(2) by (simp add: enq_def core_def)
    have "step_to {x} s (worker_run ops True ?st)"
      using worker_run_step [OF assms(1) 1(1) pf1, of True] 1(2) by (auto simp: step_to_def step_keep_def intro: fifo_trans)
    then show ?thesis
      unfolding unf eq
      using s c(1) check_sync_state [OF c(1)] eGPS_STATE_WAIT_SYNC worker_run_step [OF assms(1) s(1) pf, of False]
      by (auto simp: work_next_def step_keep_to)
  qed
qed

section \<open>Timer, start and stop\<close>

lemma fine_bind:
  assumes "fine st res" and "\<And>r st'. ub_wf st' \<Longrightarrow> fine st' (f (r, st'))"
  shows "fine st (Option.bind res f)"
proof -
  obtain r st1 where 1: "res = Some (r, st1)" "ub_wf st1" "keeps st st1" using assms(1) by (auto simp: fine_def)
  then have "fine st1 (f (r, st1))" using assms(2) by simp
  with 1 show ?thesis by (simp add: fine_trans)
qed

lemma fine_Some: "ub_wf st \<Longrightarrow> fine st (Some (r, st))"
  by (simp add: fine_def)

lemma rate_set_fine:
  assumes "ub_wf st"
  shows "fine st (ublox_msg_rate_set ops n st)"
proof -
  let ?p = "[of_nat n, of_nat (n div 256), 1, 0, 1, 0] :: u8 list"
  have l: "length ?p = 6" by simp
  have "prep_cmd_with_hdr_chk_sum 0x06 0x08 ?p 6 (replicate 32 0) 32 = Some (14, ubx_frame 0x06 0x08 ?p @ replicate 18 0)"
    using prep_cmd_frame [of ?p "replicate 32 0" "0x06" "0x08", unfolded l] by simp
  then show ?thesis
    using assms
    by (auto simp: ublox_msg_rate_set_def mem_read_def fine_def ublox_dev_wr_def split: prod.splits)
qed

lemma stop_all_fine:
  assumes "ub_wf st"
  shows "fine st (stop_all_nmea_msgs ops n st)"
  unfolding stop_all_nmea_msgs_def using assms
  by (auto intro!: fine_bind rate_set_fine write_on_off_ok fine_Some simp: chars_def)

lemma step_keep_fine:
  assumes "ub_inv st" and "fine st res" and "\<And>r st'. ub_inv st' \<Longrightarrow> keeps st st' \<Longrightarrow> step_keep st' (f (r, st'))"
  shows "step_keep st (Option.bind res f)"
proof -
  obtain r st1 where 1: "res = Some (r, st1)" "ub_wf st1" "keeps st st1" using assms(2) by (auto simp: fine_def)
  then have "ub_inv st1 \<and> fifo st st1 \<and> ublox_state st1 = ublox_state st" using keeps_inv assms(1) by blast
  with 1 assms(3) [of st1 r] show ?thesis by (force simp: step_keep_def intro: fifo_trans)
qed

lemma timer_step:
  assumes "ub_inv st" and "gps_timer st \<noteq> None"
  shows "step_keep st (Some (ublox_timer_handler_fn m2j st))"
  using assms
  by (auto simp: step_keep_def ublox_timer_handler_fn_def rearm_timer_def Let_def ub_inv_def ub_wf_def q_inv_def fifo_def)

lemma start_step:
  assumes "ub_inv st"
  shows "step_to (if timer_running st then {ublox_state st} else {eGPS_STATE_INIT}) st
           (do { (r, st) \<leftarrow> tgd_ublox_gps_start_msgs ops m2j jif st; Some st })"
proof (cases "timer_running st")
  case False
  let ?st = "st\<lparr>ublox_sm_state_count := 0\<rparr>"
  obtain r st1 where r: "ublox_msg_rate_set ops 1000 ?st = Some (r, st1)" "ub_wf st1" "keeps ?st st1"
    using rate_set_fine [of ?st ops 1000] assms by (auto simp: fine_def ub_inv_def ub_wf_def)
  have 1: "ub_inv st1" "fifo st st1" using keeps_inv [OF _ r(3,2)] assms by auto
  have "\<not> timer_running st1" "init_flag st1" using r(3) False assms by (auto simp: keeps_def ub_inv_def)
  then have "step_to {eGPS_STATE_INIT} st1 (Some (snd (start_ublox_polling m2j jif 200 st1)))"
    using 1(1) by (auto simp: start_ublox_polling_def step_to_def ub_inv_def ub_wf_def q_inv_def stat_wf_def fifo_def)
  with r(1) 1(2) False assms show ?thesis
    by (auto simp: tgd_ublox_gps_start_msgs_def step_to_def ub_inv_def intro: fifo_trans split: prod.splits)
qed (use assms in \<open>simp add: tgd_ublox_gps_start_msgs_def step_keep_to step_keep_Some\<close>)

text \<open>After stopping nothing is left to run: no timer, no pending work.\<close>

lemma stop_step:
  assumes "ub_inv st"
  shows "\<exists>r st'. tgd_ublox_gps_stop_msgs ops st = Some (r, st') \<and> ub_inv st' \<and> fifo st st' \<and>
           \<not> timer_running st' \<and> \<not> work_pending st' \<and> ublox_state st' = eUBLX_STATE_DOWN"
proof -
  obtain buf where buf: "i2c_data st = Some buf" using assms by (auto simp: ub_inv_def)
  have "gps_timer st = None" if "\<not> timer_running st" using assms that by (simp add: ub_inv_def)
  moreover have "\<not> work_pending st" if "\<not> timer_running st" using assms that by (simp add: ub_inv_def)
  ultimately show ?thesis
    using assms buf
    by (auto simp: tgd_ublox_gps_stop_msgs_def stop_ublox_polling_def tgd_ublox_msg_handler_worker_def Let_def
        ub_inv_def ub_wf_def q_inv_def fifo_def)
qed

section \<open>Sysfs and clients\<close>

text \<open>A text written to a sysfs file: the characters and the zero behind them.\<close>

definition sys_text :: "nat \<Rightarrow> u8 list \<Rightarrow> nat \<Rightarrow> bool" where
  "sys_text lim asc count \<longleftrightarrow> length asc = Suc count \<and> asc ! count = 0 \<and> count \<le> lim"

lemma hex_loop_ok:
  assumes "length asc = Suc count" and "asc ! count = 0" and "workptr \<le> count" and "dst \<le> workptr"
    and "count \<le> Suc (length hex)"
  shows "\<exists>n hex'. hex_loop strtol asc count i workptr dst hex = Some (n, hex') \<and> length hex' = length hex \<and>
           (n \<le> dst \<or> n < count)"
  using assms
proof (induction strtol asc count i workptr dst hex rule: hex_loop.induct)
  case (1 strtol asc count i workptr dst hex)
  show ?case
  proof (cases "i \<le> count")
    case False
    then show ?thesis by (simp add: hex_loop.simps)
  next
    case i: True
    have c: "arr_get asc workptr = Some (asc ! workptr)" using "1.prems" by (simp add: arr_get_def)
    obtain v taken where st: "strtol (drop workptr asc) = (v, taken)" by (cases "strtol (drop workptr asc)")
    consider (space) "asc ! workptr = 0x20" | (stop) "asc ! workptr \<noteq> 0x20" "taken = 0 \<or> count \<le> workptr + taken"
      | (num) "asc ! workptr \<noteq> 0x20" "\<not> (taken = 0 \<or> count \<le> workptr + taken)" by blast
    then show ?thesis
    proof cases
      case space
      then have "workptr \<noteq> count" using "1.prems"(2) by auto
      then have "\<exists>n hex'. hex_loop strtol asc count (i + 1) (workptr + 1) dst hex = Some (n, hex') \<and>
          length hex' = length hex \<and> (n \<le> dst \<or> n < count)"
        using "1.IH"(1) [OF i c space] "1.prems" by simp
      then show ?thesis using i c space by (subst hex_loop.simps) simp
    next
      case stop
      then show ?thesis using i c st by (subst hex_loop.simps) simp
    next
      case num
      then have d: "dst < length hex" "dst + 1 \<le> workptr + taken" "workptr + taken \<le> count" using "1.prems" by auto
      let ?h = "hex[dst := of_int v]"
      have "\<exists>n hex'. hex_loop strtol asc count (i + 1) (workptr + taken) (dst + 1) ?h = Some (n, hex') \<and>
          length hex' = length ?h \<and> (n \<le> dst + 1 \<or> n < count)"
        using "1.IH"(2) [OF i c num(1) st [symmetric] refl num(2), of ?h] "1.prems" d by (simp add: arr_set_def)
      moreover have "dst + 1 < count" using num(2) "1.prems"(4) by auto
      ultimately show ?thesis using i c st num d(1) by (subst hex_loop.simps) (auto simp: arr_set_def)
    qed
  qed
qed

lemma hex_array_ok:
  assumes "sys_text lim asc count" and "lim \<le> Suc (length hex)"
  shows "\<exists>n hex'. fb_strto_hex_array strtol asc count hex = Some (n, hex') \<and> length hex' = length hex \<and> (n = 0 \<or> n < count)"
  using hex_loop_ok [of asc count 0 0 hex strtol 0] assms by (simp add: sys_text_def fb_strto_hex_array_def)

lemma interval_step:
  assumes "ub_inv st" and "sys_text 5 asc count"
  shows "step_keep st (stat_push_intrvl_store strtol asc count st)" and "step_keep st (tmr_adj_store strtol asc count st)"
    and "step_keep st (dbg_lvl_store strtol asc count st)"
proof -
  obtain n hex where h: "fb_strto_hex_array strtol asc count (replicate 4 0) = Some (n, hex)" "length hex = 4"
    using hex_array_ok [OF assms(2), of "replicate 4 0" strtol] by auto
  have g: "arr_get hex 0 = Some (hex ! 0)" using h(2) by (simp add: arr_get_def)
  show "step_keep st (stat_push_intrvl_store strtol asc count st)"
    using assms(1) h g by (auto simp: stat_push_intrvl_store_def step_keep_def ub_inv_def ub_wf_def q_inv_def fifo_def)
  show "step_keep st (tmr_adj_store strtol asc count st)"
    using assms(1) h g by (auto simp: tmr_adj_store_def step_keep_def ub_inv_def ub_wf_def q_inv_def fifo_def)
  let ?l = "(ucast (hex ! 0) :: u32) AND 2"
  obtain q where "tgd_queue_set_dbg_lvl ?l (q_hndlr st) = Some q" "queue_ok [] q" "entries q = entries (q_hndlr st)"
    "max_q_depth (desc_of q) = max_q_depth (desc_of (q_hndlr st))"
    using dbg_lvl_ok [of "[]" "q_hndlr st" ?l] assms(1) by (auto simp: ub_inv_def q_inv_def)
  then show "step_keep st (dbg_lvl_store strtol asc count st)"
    using assms(1) h g by (auto simp: dbg_lvl_store_def step_keep_def ub_inv_def ub_wf_def q_inv_def fifo_def Let_def)
qed

lemma cmd_cfg_step:
  assumes "ub_inv st" and "sys_text 255 asc count"
  shows "step_keep st (cmd_cfg_store strtol asc count st)"
proof -
  obtain n hex where h: "fb_strto_hex_array strtol asc count (replicate 256 0) = Some (n, hex)" "length hex = 256"
    "n = 0 \<or> n < count"
    using hex_array_ok [OF assms(2), of "replicate 256 0" strtol] by auto
  have n: "n \<le> 254" using h(3) assms(2) by (auto simp: sys_text_def)
  show ?thesis
  proof (cases "n < 6")
    case False
    obtain k0 k1 where k: "nmea_checksum (take (n - 2) (drop 2 hex)) = (k0, k1)" by (cases "nmea_checksum (take (n - 2) (drop 2 hex))")
    obtain h1 where h1: "mem_write n [k0, k1] hex = Some h1" "length h1 = 256"
      using mem_write_ok [of n "[k0, k1]" hex] h(2) n by auto
    have "arr_get h1 2 = Some (h1 ! 2)" "arr_get h1 3 = Some (h1 ! 3)" using h1(2) by (simp_all add: arr_get_def)
    moreover have "enqs st (queue_cmd h1 (int (n + 2)) p st)" for p
      using queue_cmd_enq [OF ub_invD [OF assms(1)], of "n + 2" h1 p] h1(2) n by simp
    moreover have "mem_read 2 (n - 2) hex = Some (take (n - 2) (drop 2 hex))" using h(2) n by (simp add: mem_read_def)
    ultimately show ?thesis
      using False h(1) k h1(1) step_keep_enqs [OF assms(1), of _ "\<lambda>(r, st). Some st"]
      by (auto simp: cmd_cfg_store_def step_keep_Some)
  qed (use h assms(1) in \<open>simp add: cmd_cfg_store_def step_keep_Some\<close>)
qed

section \<open>The loaded driver\<close>

text \<open>The outside world: the I2C core, the time of the kernel, the conversion of numbers.\<close>

record 'd ub_env =
  env_i2c :: "'d i2c_ops"
  env_m2j :: "u32 \<Rightarrow> u64"
  env_strtol :: "u8 list \<Rightarrow> int \<times> nat"

datatype ub_op =
    Op_timer | Op_work
  | Op_poll_start "u8 list" u64 | Op_time_enable "u8 list" | Op_reset
  | Op_push_intrvl "u8 list" nat | Op_tmr_adj "u8 list" nat | Op_dbg_lvl "u8 list" nat | Op_cmd_cfg "u8 list" nat
  | Op_lat_long | Op_sat_in_view
  | Op_init_client nat | Op_fini_client nat | Op_start_sync nat | Op_stop_sync nat
  | Op_nl_msg nat "u8 list" "u8 list" int

definition ub_step :: "'d ub_env \<Rightarrow> ub_op \<Rightarrow> 'd ublox_msg_data \<Rightarrow> 'd ublox_msg_data option" where
  "ub_step env op st = (case op of
     Op_timer \<Rightarrow> Some (ublox_timer_handler_fn (env_m2j env) st)
   | Op_work \<Rightarrow> tgd_ublox_msg_handler_worker (env_i2c env) (st\<lparr>work_pending := False\<rparr>)
   | Op_poll_start buf jif \<Rightarrow> poll_start_store (env_i2c env) (env_m2j env) jif buf st
   | Op_time_enable buf \<Rightarrow> time_enable_store buf st
   | Op_reset \<Rightarrow> ublox_reset_store (env_i2c env) st
   | Op_push_intrvl buf n \<Rightarrow> stat_push_intrvl_store (env_strtol env) buf n st
   | Op_tmr_adj buf n \<Rightarrow> tmr_adj_store (env_strtol env) buf n st
   | Op_dbg_lvl buf n \<Rightarrow> dbg_lvl_store (env_strtol env) buf n st
   | Op_cmd_cfg buf n \<Rightarrow> cmd_cfg_store (env_strtol env) buf n st
   | Op_lat_long \<Rightarrow> tgd_get_gps_lat_long st
   | Op_sat_in_view \<Rightarrow> tgd_get_gps_sat_in_view st
   | Op_init_client c \<Rightarrow> Some (snd (ublox_gps_init_client c st))
   | Op_fini_client c \<Rightarrow> ublox_gps_fini_client c st
   | Op_start_sync c \<Rightarrow> ublox_gps_start_sync c st
   | Op_stop_sync c \<Rightarrow> ublox_gps_stop_sync c st
   | Op_nl_msg c cmd rsp rsp_len \<Rightarrow> do {
       (r, rsp, st) \<leftarrow> ublox_gps_handle_nl_msg c cmd (length cmd) rsp rsp_len st; Some st })"

text \<open>
  What the driver relies on in a state: the timer fires when it is armed and the work runs when it is
  pending; a poll does not fill the receive buffer to its end; a sysfs text is short enough for the
  array it is converted into; only registered clients call, and the position commands have the size of
  their structure.
\<close>

definition op_ok :: "'d ub_env \<Rightarrow> 'd ublox_msg_data \<Rightarrow> ub_op \<Rightarrow> bool" where
  "op_ok env st op = (case op of
     Op_timer \<Rightarrow> gps_timer st \<noteq> None
   | Op_work \<Rightarrow> poll_fits (env_i2c env) st
   | Op_poll_start buf jif \<Rightarrow> buf \<noteq> []
   | Op_time_enable buf \<Rightarrow> buf \<noteq> []
   | Op_push_intrvl buf n \<Rightarrow> sys_text 5 buf n
   | Op_tmr_adj buf n \<Rightarrow> sys_text 5 buf n
   | Op_dbg_lvl buf n \<Rightarrow> sys_text 5 buf n
   | Op_cmd_cfg buf n \<Rightarrow> sys_text 255 buf n
   | Op_fini_client c \<Rightarrow> is_client c st
   | Op_start_sync c \<Rightarrow> is_client c st
   | Op_stop_sync c \<Rightarrow> is_client c st
   | Op_nl_msg c cmd rsp rsp_len \<Rightarrow>
       is_client c st \<and> 4 \<le> length cmd \<and> (cmd ! 2 = 0x04 \<or> cmd ! 2 = 0x07 \<longrightarrow> 32 \<le> length cmd) \<and>
       nat rsp_len \<le> length rsp
   | _ \<Rightarrow> True)"

fun ub_run :: "'d ub_env \<Rightarrow> ub_op list \<Rightarrow> 'd ublox_msg_data \<Rightarrow> 'd ublox_msg_data option" where
  "ub_run env [] st = Some st"
| "ub_run env (op # ops) st = do { st \<leftarrow> ub_step env op st; ub_run env ops st }"

fun ok_run :: "'d ub_env \<Rightarrow> ub_op list \<Rightarrow> 'd ublox_msg_data \<Rightarrow> bool" where
  "ok_run env [] st = True"
| "ok_run env (op # ops) st =
     (op_ok env st op \<and> (case ub_step env op st of None \<Rightarrow> True | Some st' \<Rightarrow> ok_run env ops st'))"

lemma step_keep_enq1: "ub_inv st \<Longrightarrow> enq1 st res \<Longrightarrow> step_keep st res"
  by (auto simp: enq1_def step_keep_def dest: enq_inv)

lemma step_keep_enq_last: "ub_inv st \<Longrightarrow> enqs st res \<Longrightarrow> step_keep st (Option.bind res (\<lambda>(r, st). Some st))"
  by (rule step_keep_enqs) (auto intro: step_keep_Some)

lemma reset_step:
  assumes "ub_inv st"
  shows "step_keep st (ublox_reset_store ops st)"
  unfolding ublox_reset_store_def
proof (rule step_keep_bind)
  show "step_keep st (schedule_ublox_reset eUBLOX_RSP_DST_NONE st)"
    using assms by (intro step_keep_enq1 reset_enq) (auto dest: ub_invD)
  fix s :: "'a ublox_msg_data" assume s: "ub_inv s"
  show "step_keep s (do { (r, st) \<leftarrow> stop_all_nmea_msgs ops 1000 s;
      (r, st) \<leftarrow> schedule_cfg_msg_on_off eUBLOX_MSG_CFG (chars ''TIM_TOS'') eMSG_REPT_RD st;
      (r, st) \<leftarrow> config_sync_manager st; (r, st) \<leftarrow> config_nav_engine st; (r, st) \<leftarrow> config_survey_in st; Some st })"
    by (rule step_keep_fine [OF s stop_all_fine [OF ub_invD(2) [OF s]]])
      (auto intro!: step_keep_enqs enq_intros step_keep_Some dest: ub_invD)
qed

lemma clients_step:
  assumes "ub_inv st"
  shows "step_keep st (Some (snd (ublox_gps_init_client c st)))"
    and "is_client c st \<Longrightarrow> step_keep st (ublox_gps_fini_client c st)"
    and "is_client c st \<Longrightarrow> step_keep st (set_sync b c st)"
  using assms
  by (auto simp: ublox_gps_init_client_def kmalloc_def ublox_gps_fini_client_def set_sync_def step_keep_def ub_inv_def
      ub_wf_def q_inv_def fifo_def split: list.splits)

text \<open>The states an operation may lead to.\<close>

definition op_next :: "'d ublox_msg_data \<Rightarrow> ub_op \<Rightarrow> eUblox_init_state set" where
  "op_next st op = (case op of
     Op_work \<Rightarrow> work_next st
   | Op_poll_start buf jif \<Rightarrow>
       if hd buf = 0x31 then (if timer_running st then {ublox_state st} else {eGPS_STATE_INIT}) else {eUBLX_STATE_DOWN}
   | _ \<Rightarrow> {ublox_state st})"

lemma ub_step_keep:
  assumes "i2c_ok (env_i2c env)" and "ub_inv st" and "op_ok env st op"
    and "op \<noteq> Op_work" and "\<And>buf jif. op \<noteq> Op_poll_start buf jif"
  shows "step_keep st (ub_step env op st)"
proof (cases op)
  case Op_timer
  with assms show ?thesis by (auto simp: ub_step_def op_ok_def intro: timer_step)
next
  case (Op_time_enable buf)
  then have c: "arr_get buf 0 = Some (buf ! 0)" using assms(3) by (cases buf) (auto simp: op_ok_def arr_get_def)
  show ?thesis using c Op_time_enable step_keep_enq_last [OF assms(2) schedule_on_off_enq [OF ub_invD [OF assms(2)]]]
    by (simp add: ub_step_def time_enable_store_def)
next
  case Op_reset
  with reset_step [OF assms(2)] show ?thesis by (simp add: ub_step_def)
next
  case Op_lat_long
  with step_keep_enq_last [OF assms(2) schedule_config_cmd_enq [OF ub_invD [OF assms(2)] cfg_index(4)]]
  show ?thesis by (simp add: ub_step_def tgd_get_gps_lat_long_def)
next
  case Op_sat_in_view
  with step_keep_enq_last [OF assms(2) schedule_config_cmd_enq [OF ub_invD [OF assms(2)] cfg_index(5)]]
  show ?thesis by (simp add: ub_step_def tgd_get_gps_sat_in_view_def)
next
  case (Op_nl_msg c cmd rsp rsp_len)
  then have o: "is_client c st" "4 \<le> length cmd" "cmd ! 2 \<in> {0x04, 0x07} \<Longrightarrow> 32 \<le> length cmd" "0 + nat rsp_len \<le> length rsp"
    using assms(3) by (auto simp: op_ok_def)
  from nl_rsp_ok [OF ub_invD [OF assms(2)] o(2-4)] obtain r rsp' st' where
    "get_gps_nl_rsp (Some cmd) (length cmd) 0 (Some rsp) rsp_len st = Some (r, rsp', st')" "enq st st'"
    by (force simp: nl_fine_def)
  with Op_nl_msg o(1) enq_inv [OF assms(2)] show ?thesis
    by (auto simp: ub_step_def ublox_gps_handle_nl_msg_def step_keep_def)
qed (use assms interval_step [OF assms(2)] cmd_cfg_step [OF assms(2)] clients_step [OF assms(2)] in
    \<open>auto simp: ub_step_def op_ok_def ublox_gps_start_sync_def ublox_gps_stop_sync_def\<close>)

lemma ub_step_to:
  assumes "i2c_ok (env_i2c env)" and "ub_inv st" and "op_ok env st op"
  shows "step_to (op_next st op) st (ub_step env op st)"
proof -
  consider (work) "op = Op_work" | (poll) buf jif where "op = Op_poll_start buf jif"
    | (other) "op \<noteq> Op_work" "\<And>buf jif. op \<noteq> Op_poll_start buf jif" by blast
  then show ?thesis
  proof cases
    case work
    let ?st = "st\<lparr>work_pending := False\<rparr>"
    have "ub_inv ?st" "poll_fits (env_i2c env) ?st" "work_next ?st = work_next st"
      using assms(2,3) work poll_fits_cong [of ?st st]
      by (auto simp: op_ok_def ub_inv_def ub_wf_def q_inv_def work_next_def pps_in_sync_def)
    with worker_step [OF assms(1), of ?st] work show ?thesis by (simp add: ub_step_def step_to_def fifo_def op_next_def)
  next
    case poll
    then have c: "arr_get buf 0 = Some (hd buf)" using assms(3) by (cases buf) (auto simp: op_ok_def arr_get_def)
    have "step_to {eUBLX_STATE_DOWN} st (do { (r, st) \<leftarrow> tgd_ublox_gps_stop_msgs (env_i2c env) st; Some st })"
      using stop_step [OF assms(2), of "env_i2c env"] by (auto simp: step_to_def)
    with c poll start_step [OF assms(2)] show ?thesis by (simp add: ub_step_def poll_start_store_def op_next_def)
  next
    case other
    have "ublox_state st \<in> op_next st op" using other by (cases op) (auto simp: op_next_def)
    with ub_step_keep [OF assms other] step_keep_to show ?thesis by blast
  qed
qed

lemma ub_run_to:
  assumes "i2c_ok (env_i2c env)" and "ub_inv st" and "ok_run env ops st"
  shows "step_to UNIV st (ub_run env ops st)"
  using assms(2,3)
proof (induction ops arbitrary: st)
  case (Cons op ops)
  from ub_step_to [OF assms(1) Cons.prems(1)] Cons.prems(2) obtain st1 where
    s: "ub_step env op st = Some st1" "ub_inv st1" "fifo st st1" by (auto simp: step_to_def)
  with Cons.IH [of st1] Cons.prems(2) show ?case by (auto simp: step_to_def intro: fifo_trans)
qed (simp add: step_to_def fifo_refl)

text \<open>
  C20. The state machine of the driver: it goes from down to initialisation when polling is started,
  to waiting when the device was configured, and to synchronised only in a pass of the worker, once
  per second at most, in which the receiver reports a locked time pulse disciplined by GNSS; it goes
  down only when polling is stopped, and no other operation changes it.
\<close>

theorem state_machine_edges:
  assumes "i2c_ok (env_i2c env)" and "ub_inv st" and "op_ok env st op"
  shows "\<exists>st'. ub_step env op st = Some st' \<and>
     (ublox_state st' = ublox_state st \<or>
      (case op of
         Op_poll_start buf jif \<Rightarrow>
           (if hd buf = 0x31 then ublox_state st = eUBLX_STATE_DOWN \<and> ublox_state st' = eGPS_STATE_INIT
            else ublox_state st' = eUBLX_STATE_DOWN)
       | Op_work \<Rightarrow>
           ublox_state st = eGPS_STATE_INIT \<and> ublox_state st' = eGPS_STATE_WAIT_SYNC \<or>
           ublox_state st = eGPS_STATE_WAIT_SYNC \<and> ublox_state st' = eGPS_STATE_TIME_IN_SYNC \<and>
           one_sec_count st \<noteq> prev_one_sec_count st \<and> pps_in_sync st
       | _ \<Rightarrow> False))"
proof -
  obtain st' where s: "ub_step env op st = Some st'" "ublox_state st' \<in> op_next st op"
    using ub_step_to [OF assms] by (auto simp: step_to_def)
  moreover have "ublox_state st = eUBLX_STATE_DOWN" if "\<not> timer_running st" using assms(2) that by (simp add: ub_inv_def)
  ultimately show ?thesis
    by (cases op; cases "ublox_state st") (auto simp: op_next_def work_next_def split: if_splits)
qed

section \<open>Loading and unloading\<close>

definition unloaded :: "'d ublox_msg_data \<Rightarrow> bool" where
  "unloaded st \<longleftrightarrow> \<not> init_flag st \<and> \<not> timer_running st \<and> gps_timer st = None \<and> \<not> work_pending st \<and>
     ublox_state st = eUBLX_STATE_DOWN \<and> i2c_data st = None \<and> cfg_rsp_copy st = None \<and> \<not> platform_dev st \<and>
     (\<forall>a. block_get (q_hndlr st) a = None) \<and> ub_wf st"

lemma unload_ok:
  assumes "ub_inv st"
  shows "\<exists>st'. tgd_ublox_msg_handler_deinit ops st = Some (0, st') \<and> unloaded st'"
proof -
  obtain r st1 where s: "(if timer_running st then tgd_ublox_gps_stop_msgs ops st else Some (0, st)) = Some (r, st1)"
    "ub_inv st1" "\<not> timer_running st1" "\<not> work_pending st1" "ublox_state st1 = eUBLX_STATE_DOWN"
    using stop_step [OF assms, of ops] assms by (cases "timer_running st") (auto simp: ub_inv_def)
  let ?st = "st1\<lparr>platform_dev := False, init_flag := False, cfg_rsp_copy := None, i2c_data := None\<rparr>"
  obtain q where q: "tgd_queue_deinit_cleanup (q_hndlr st1) = Some (0, q)" "{a. block_get q a \<noteq> None} = set []"
    using deinit_ok [of "[]" "q_hndlr st1"] s(2) by (auto simp: ub_inv_def q_inv_def)
  have "block_get q a = None" for a using q(2) by auto
  then have "unloaded (?st\<lparr>q_hndlr := q\<rparr>)"
    using s by (auto simp: unloaded_def ub_inv_def ub_wf_def)
  then show ?thesis using s(1) q(1) by (auto simp: tgd_ublox_msg_handler_deinit_def)
qed

lemma load_init_ok:
  assumes "unloaded st" and "kmalloc_fails st = []"
  shows "\<exists>st'. ublox_dev_load_init ops m2j jif (Some prv) st = Some (0, st') \<and> ub_inv st' \<and>
     entries (q_hndlr st') = [] \<and> cmds (ub_log st') = cmds (ub_log st) \<and> clnt_list st' = [] \<and>
     ublox_state st' = eGPS_STATE_INIT \<and> timer_running st'"
proof -
  let ?q = "init_tgd_message_queue True 16 (q_hndlr st)"
  let ?st = "st\<lparr>i2c_data := Some (replicate I2C_MSG_MAX_SIZE 0), cfg_rsp_copy := Some (replicate CFG_RSP_MAX 0),
      clnt_list := [], ublox_handle := prv, init_flag := True, timer_running := False, ublx_cfg_rsp_len := 0, q_hndlr := ?q\<rparr>"
  have q: "queue_ok [] ?q" "entries ?q = []" "max_q_depth (desc_of ?q) = 16"
    using init_ok [of "q_hndlr st" 16] assms(1) by (auto simp: unloaded_def)
  have inv: "ub_inv ?st" using assms(1) q by (auto simp: ub_inv_def ub_wf_def q_inv_def unloaded_def)
  obtain r st1 where r: "stop_all_nmea_msgs ops 1000 ?st = Some (0, st1)" "ub_wf st1" "keeps ?st st1"
  proof -
    have "fine ?st (stop_all_nmea_msgs ops 1000 ?st)" by (rule stop_all_fine [OF ub_invD(2) [OF inv]])
    moreover have "ret = 0" if "stop_all_nmea_msgs ops 1000 ?st = Some (ret, x)" for ret x
      using that unfolding stop_all_nmea_msgs_def by (auto split: Option.bind_splits)
    ultimately show thesis using that by (auto simp: fine_def)
  qed
  have 1: "ub_inv st1" using keeps_inv [OF inv r(3,2)] by simp
  let ?st2 = "st1\<lparr>ublox_sm_state_count := 0\<rparr>"
  obtain r2 st2 where s: "ublox_msg_rate_set ops 1000 ?st2 = Some (r2, st2)" "ub_wf st2" "keeps ?st2 st2"
    using rate_set_fine [of ?st2 ops 1000] r(2) by (auto simp: fine_def ub_wf_def)
  have 2: "ub_inv st2" using keeps_inv [OF _ s(3,2)] 1 by simp
  have k: "\<not> timer_running st1" "init_flag st1" "\<not> timer_running st2" "init_flag st2" "entries (q_hndlr st2) = []"
    "cmds (ub_log st2) = cmds (ub_log st)" "clnt_list st2 = []"
    using r(3) s(3) q(2) by (auto simp: keeps_def)
  let ?st3 = "snd (start_ublox_polling m2j jif 200 st2)"
  have "tgd_ublox_gps_start_msgs ops m2j jif st1 = Some (0, ?st3)"
    using s(1) k by (simp add: tgd_ublox_gps_start_msgs_def split: prod.splits)
  moreover have "ub_inv ?st3" "entries (q_hndlr ?st3) = []" "cmds (ub_log ?st3) = cmds (ub_log st)" "clnt_list ?st3 = []"
    "ublox_state ?st3 = eGPS_STATE_INIT" "timer_running ?st3"
    using 2 k by (auto simp: start_ublox_polling_def ub_inv_def ub_wf_def q_inv_def stat_wf_def)
  ultimately show ?thesis
    using assms r(1) by (auto simp: ublox_dev_load_init_def kmalloc_def unloaded_def)
qed

lemma unloaded_fields: "unloaded st \<Longrightarrow> unloaded (st\<lparr>kmalloc_fails := f\<rparr>)"
  by (auto simp: unloaded_def ub_wf_def)


text \<open>
  Loading that fails leaves the driver unloaded: when there is no memory for one of the two
  buffers, and when the platform device cannot be registered, the answer is NULL and all that was
  allocated and started is undone.
\<close>

theorem load_failure_undone:
  assumes "unloaded st"
    and "kmalloc_fails st = [True] \<or> kmalloc_fails st = [False, True] \<or> kmalloc_fails st = [] \<and> reg \<noteq> 0"
  shows "\<exists>st'. tgd_ublox_msg_handler_init ops m2j jif reg (Some prv) st = Some (False, st') \<and> unloaded st'"
  using assms(2)
proof (elim disjE conjE)
  assume m: "kmalloc_fails st = []" and reg: "reg \<noteq> 0"
  obtain st1 where l: "ublox_dev_load_init ops m2j jif (Some prv) st = Some (0, st1)" "ub_inv st1"
    using load_init_ok [OF assms(1) m, of ops m2j jif prv] by auto
  have "ub_inv (st1\<lparr>platform_dev := False\<rparr>)" using l(2) by (auto simp: ub_inv_def ub_wf_def q_inv_def)
  from unload_ok [OF this, of ops] l(1) reg show ?thesis by (auto simp: tgd_ublox_msg_handler_init_def)
qed (use assms(1) in \<open>auto simp: tgd_ublox_msg_handler_init_def ublox_dev_load_init_def kmalloc_def unloaded_def ub_wf_def\<close>)

section \<open>One command at a time\<close>

text \<open>A poll with a command waiting: it is sent, or the answer to the last one is still awaited.\<close>

lemma worker_run_poll:
  assumes "i2c_ok ops" and "ub_inv st" and "poll_fits ops st" and "entries (q_hndlr st) = e # es"
  shows "\<exists>st'. worker_run ops in_new_sec st = Some st' \<and>
     ((cmds (ub_log st') = cmds (ub_log st) \<and> q_hndlr st' = q_hndlr st \<and> dev_busy_time st \<noteq> 0 \<and>
       sint (dev_busy_time st) < I2C_RSP_MAX_WAIT \<and> dev_busy_time st' = dev_busy_time st + 1) \<or>
      cmds (ub_log st') = cmds (ub_log st) @ [fst e])"
proof -
  let ?st = "st\<lparr>ublox_sm_state_count := ublox_sm_state_count st + 1\<rparr>"
  have pf: "poll_fits ops ?st" using poll_fits_cong [of ?st st ops] assms(3) by simp
  have "fine ?st (do_tgd_ublox_msg_processing ops ?st)"
    using processing_ok [OF assms(1) _ pf] assms(2) by (simp add: ub_inv_def ub_wf_def)
  then obtain r st1 where p: "do_tgd_ublox_msg_processing ops ?st = Some (r, st1)" "ub_wf st1" "keeps ?st st1"
    by (auto simp: fine_def)
  have 1: "ub_inv st1" "q_hndlr st1 = q_hndlr st" "cmds (ub_log st1) = cmds (ub_log st)"
    "dev_busy_time st1 = dev_busy_time st \<or> dev_busy_time st1 = 0"
    using keeps_inv [OF _ p(3,2)] p(3) assms(2) by (auto simp: keeps_def)
  obtain b st2 where b: "is_ublox_device_busy st1 = (b, st2)" by (cases "is_ublox_device_busy st1")
  obtain t where t: "st2 = st1\<lparr>dev_busy_time := t\<rparr>" using busy_ok [OF b] by auto
  show ?thesis
  proof (cases b)
    case True
    then have "dev_busy_time st1 \<noteq> 0" "sint (dev_busy_time st1) < I2C_RSP_MAX_WAIT" "dev_busy_time st2 = dev_busy_time st1 + 1"
      using b by (auto simp: is_ublox_device_busy_def Let_def split: if_splits)
    with True 1 p(1) b t show ?thesis by (auto simp: worker_run_def)
  next
    case False
    have inv2: "ub_inv st2" using 1(1) t by simp
    have e2: "entries (q_hndlr st2) = (fst e, snd e) # es" using 1(2) t assms(4) by simp
    obtain st3 where s: "worker_send ops st2 = Some st3" "cmds (ub_log st3) = cmds (ub_log st2) @ [fst e]" "ub_inv st3"
      using worker_send_Cons [OF ub_invD [OF inv2] e2, of ops] worker_send_step [OF inv2, of ops]
      by (auto simp: step_keep_def)
    have "\<exists>st4. (if in_new_sec \<and> stat_push_interval st3 \<noteq> 0 then worker_push st3 else Some st3) = Some st4 \<and>
        cmds (ub_log st4) = cmds (ub_log st3)"
      using worker_push_enq [OF ub_invD [OF s(3)]] by (auto simp: enq1_def enq_def)
    with False 1(3) p(1) b t s show ?thesis by (auto simp: worker_run_def)
  qed
qed

definition polling :: "'d ublox_msg_data \<Rightarrow> bool" where
  "polling st \<longleftrightarrow> ublox_state st = eGPS_STATE_WAIT_SYNC \<or> ublox_state st = eGPS_STATE_TIME_IN_SYNC"

lemma worker_poll:
  assumes "i2c_ok (env_i2c env)" and "ub_inv st" and "op_ok env st Op_work" and "polling st"
    and "entries (q_hndlr st) = e # es"
  shows "\<exists>st'. ub_step env Op_work st = Some st' \<and> ub_inv st' \<and> polling st' \<and> fifo st st' \<and>
     ((cmds (ub_log st') = cmds (ub_log st) \<and> dev_busy_time st \<noteq> 0 \<and>
       sint (dev_busy_time st) < I2C_RSP_MAX_WAIT \<and> dev_busy_time st' = dev_busy_time st + 1) \<or>
      cmds (ub_log st') = cmds (ub_log st) @ [fst e])"
proof -
  let ?ops = "env_i2c env"
  let ?w = "st\<lparr>work_pending := False\<rparr>"
  let ?n = "one_sec_count st \<noteq> prev_one_sec_count st"
  define s where "s = (if ?n then ?w\<lparr>prev_one_sec_count := one_sec_count st\<rparr> else ?w)"
  have s: "ub_inv s" "q_hndlr s = q_hndlr st" "ub_log s = ub_log st" "dev_busy_time s = dev_busy_time st"
    "i2c_data s = i2c_data st" "ublox_handle s = ublox_handle st" "ublox_state s = ublox_state st"
    using assms(2) by (auto simp: s_def ub_inv_def ub_wf_def q_inv_def)
  have pf: "poll_fits ?ops s" using poll_fits_cong [of s st ?ops] s assms(3) by (simp add: op_ok_def)
  obtain st' where st': "ub_step env Op_work st = Some st'" "ub_inv st'" "fifo st st'" "ublox_state st' \<in> work_next st"
    using ub_step_to [OF assms(1-3)] by (auto simp: step_to_def op_next_def)
  have pol: "polling st'" using st'(4) assms(4) by (auto simp: polling_def work_next_def split: if_splits)
  have unf: "ub_step env Op_work st = (case ublox_state s of
        eUBLX_STATE_DOWN \<Rightarrow> Some s
      | eGPS_STATE_INIT \<Rightarrow> worker_init ?ops s
      | eGPS_STATE_WAIT_SYNC \<Rightarrow> do {
          st \<leftarrow> (if ?n then do { (s', st) \<leftarrow> check_ublox_sync_stat s; Some (st\<lparr>ublox_state := s'\<rparr>) } else Some s);
          worker_run ?ops ?n st }
      | eGPS_STATE_TIME_IN_SYNC \<Rightarrow> worker_run ?ops ?n s)"
    unfolding ub_step_def tgd_ublox_msg_handler_worker_def s_def Let_def by (cases "ublox_state st") simp_all
  obtain x st1 where c: "check_ublox_sync_stat s = Some (x, st1)" "enq s st1"
    using check_sync_enq [OF ub_invD [OF s(1)]] by (auto simp: enqs_def)
  let ?c = "st1\<lparr>ublox_state := x\<rparr>"
  show ?thesis
  proof (cases "ublox_state st = eGPS_STATE_WAIT_SYNC \<and> ?n")
    case True
    have "timer_running s" using s(1,7) True by (auto simp: ub_inv_def)
    with c(2) enq_inv [OF s(1) c(2)] have inv: "ub_inv ?c" by (auto simp: ub_inv_def ub_wf_def q_inv_def enq_def core_def)
    have pfc: "poll_fits ?ops ?c" using poll_fits_cong [of ?c s ?ops] pf c(2) by (simp add: enq_def core_def)
    obtain new where new: "entries (q_hndlr ?c) = e # es @ new" using c(2) s(2) assms(5) by (auto simp: enq_def)
    have same: "cmds (ub_log ?c) = cmds (ub_log st)" "dev_busy_time ?c = dev_busy_time st"
      using c(2) s by (auto simp: enq_def core_def)
    have "ub_step env Op_work st = worker_run ?ops True ?c" using unf True s(7) c(1) by simp
    with worker_run_poll [OF assms(1) inv pfc new, of True] st' pol same show ?thesis by auto
  next
    case False
    have new: "entries (q_hndlr s) = e # es" using s(2) assms(5) by simp
    have "ub_step env Op_work st = worker_run ?ops ?n s" using unf False s(7) assms(4) by (auto simp: polling_def)
    with worker_run_poll [OF assms(1) s(1) pf new, of ?n] st' pol s show ?thesis by auto
  qed
qed

text \<open>How many more polls an answer may be awaited.\<close>

definition wait_left :: "u32 \<Rightarrow> nat" where
  "wait_left t = (if t = 0 then 0 else nat (I2C_RSP_MAX_WAIT - sint t))"

lemma wait_left_step:
  assumes "t \<noteq> 0" and "0 \<le> sint t" and "sint t < I2C_RSP_MAX_WAIT"
  shows "wait_left (t + 1) < wait_left t" and "0 \<le> sint (t + 1)"
proof -
  have "sint t \<noteq> 0" using assms(1) by (metis signed_0 signed_word_eqI)
  then obtain k where t: "t = word_of_int k" and k: "1 \<le> k" "k < 10"
    using assms(2,3) by (intro that [of "sint t"]) auto
  have "k = 1 \<or> k = 2 \<or> k = 3 \<or> k = 4 \<or> k = 5 \<or> k = 6 \<or> k = 7 \<or> k = 8 \<or> k = 9" using k by linarith
  then show "wait_left (t + 1) < wait_left t" "0 \<le> sint (t + 1)"
    by (elim disjE; simp add: t wait_left_def)+
qed

lemma polls_send:
  assumes "i2c_ok (env_i2c env)" and "ub_inv st" and "ok_run env (replicate (Suc n) Op_work) st" and "polling st"
    and "entries (q_hndlr st) = e # es" and "0 \<le> sint (dev_busy_time st)" and "wait_left (dev_busy_time st) \<le> n"
  shows "\<exists>st' more. ub_run env (replicate (Suc n) Op_work) st = Some st' \<and>
           cmds (ub_log st') = cmds (ub_log st) @ fst e # more"
  using assms(2-)
proof (induction n arbitrary: st e es)
  case 0
  obtain st' where "ub_step env Op_work st = Some st'" and
    s: "(cmds (ub_log st') = cmds (ub_log st) \<and> dev_busy_time st \<noteq> 0 \<and>
       sint (dev_busy_time st) < I2C_RSP_MAX_WAIT \<and> dev_busy_time st' = dev_busy_time st + 1) \<or>
      cmds (ub_log st') = cmds (ub_log st) @ [fst e]"
    using worker_poll [OF assms(1) "0.prems"(1) _ "0.prems"(3,4)] "0.prems"(2) by auto
  moreover have "\<not> (dev_busy_time st \<noteq> 0 \<and> sint (dev_busy_time st) < I2C_RSP_MAX_WAIT)"
    using "0.prems"(6) by (auto simp: wait_left_def split: if_splits)
  ultimately show ?case by auto
next
  case (Suc n)
  obtain st1 where s: "ub_step env Op_work st = Some st1" "ub_inv st1" "polling st1" "fifo st st1" and
    c: "(cmds (ub_log st1) = cmds (ub_log st) \<and> dev_busy_time st \<noteq> 0 \<and>
       sint (dev_busy_time st) < I2C_RSP_MAX_WAIT \<and> dev_busy_time st1 = dev_busy_time st + 1) \<or>
      cmds (ub_log st1) = cmds (ub_log st) @ [fst e]"
    using worker_poll [OF assms(1) Suc.prems(1) _ Suc.prems(3,4)] Suc.prems(2) by auto
  have ok: "ok_run env (replicate (Suc n) Op_work) st1" using Suc.prems(2) s(1) by simp
  from c show ?case
  proof
    assume b: "cmds (ub_log st1) = cmds (ub_log st) \<and> dev_busy_time st \<noteq> 0 \<and>
       sint (dev_busy_time st) < I2C_RSP_MAX_WAIT \<and> dev_busy_time st1 = dev_busy_time st + 1"
    then obtain es' where "map fst (entries (q_hndlr st1)) = fst e # es'"
      using s(4) Suc.prems(4) by (auto simp: fifo_def Cons_eq_append_conv)
    then obtain e1 es1 where e1: "entries (q_hndlr st1) = e1 # es1" "fst e1 = fst e" by auto
    have w: "0 \<le> sint (dev_busy_time st1)" "wait_left (dev_busy_time st1) \<le> n"
      using wait_left_step [of "dev_busy_time st"] b Suc.prems(5,6) by auto
    show ?case
      using Suc.IH [OF s(2) ok s(3) e1(1) w] s(1) b e1(2) by auto
  next
    assume sent: "cmds (ub_log st1) = cmds (ub_log st) @ [fst e]"
    obtain st2 where "ub_run env (replicate (Suc n) Op_work) st1 = Some st2" "fifo st1 st2"
      using ub_run_to [OF assms(1) s(2) ok] by (auto simp: step_to_def)
    with s(1) sent show ?case by (auto simp: fifo_def)
  qed
qed

text \<open>
  C23. A command that waits at the front of the queue is sent within ten polls of the worker, whether
  or not the device answers the command before it.
\<close>

theorem next_command_sent:
  assumes "i2c_ok (env_i2c env)" and "ub_inv st" and "ok_run env (replicate 10 Op_work) st" and "polling st"
    and "entries (q_hndlr st) = e # es" and "0 \<le> sint (dev_busy_time st)"
  shows "\<exists>st' more. ub_run env (replicate 10 Op_work) st = Some st' \<and>
           cmds (ub_log st') = cmds (ub_log st) @ fst e # more"
proof -
  have "sint (dev_busy_time st) \<noteq> 0" if "dev_busy_time st \<noteq> 0" using that by (metis signed_0 signed_word_eqI)
  then have "wait_left (dev_busy_time st) \<le> 9" using assms(6) by (auto simp: wait_left_def)
  moreover have "replicate 10 Op_work = replicate (Suc 9) Op_work" by simp
  ultimately show ?thesis using polls_send [OF assms(1,2) _ assms(4-6), of 9] assms(3) by simp
qed

section \<open>A command and its answer\<close>

text \<open>The class of a command and the destination of its answer survive the queue's 32 bits.\<close>

lemma priv_roundtrip: "EXTRACT_PRIV_DATA (PREP_PRIV_DATA b1 b2 d) = (b1, b2, d)"
proof -
  have m: "(0xFF :: u32) = mask 8" "(0xFF00 :: u32) = push_bit 8 (mask 8)" "(0xFFFF0000 :: u32) = push_bit 16 (mask 16)"
    by (simp_all add: mask_eq_exp_minus_1 push_bit_eq_mult)
  let ?a = "push_bit 16 (ucast d :: u32) AND 0xFFFF0000" and ?b = "push_bit 8 (ucast b1 :: u32) AND 0xFF00"
    and ?c = "ucast b2 AND (0xFF :: u32)"
  have ab: "?a + ?b = ?a OR ?b"
    by (rule disjunctive_add) (auto simp: m bit_simps dest: bit_imp_le_length)
  have abc: "?a + ?b + ?c = ?a OR ?b OR ?c"
    unfolding ab
    by (subst disjunctive_add) (auto simp: m bit_simps or.assoc dest: bit_imp_le_length)
  show ?thesis
    unfolding PREP_PRIV_DATA_def EXTRACT_PRIV_DATA_def abc
    by (auto simp: m intro!: bit_word_eqI simp: bit_simps dest: bit_imp_le_length)
qed

lemma dispatch_answer:
  assumes "rsp_clsid st = (c0, c1)" and "rsp_dst st = eUBLOX_RSP_DST_TMR" and "c0 \<noteq> 0x05"
  shows "cfg_dispatch ops (ubx_frame c0 c1 p @ rest) n cp st = do {
           (r, st) \<leftarrow> handle_config_resp ops (ubx_frame c0 c1 p @ rest) n st;
           Some (cp, clear_ublox_device_busy (st\<lparr>rsp_clsid := (0, 0), rsp_dst := eUBLOX_RSP_DST_NONE\<rparr>)) }"
proof -
  have "6 < length (ubx_frame c0 c1 p @ rest)" "7 < length (ubx_frame c0 c1 p @ rest)" by simp_all
  then obtain b6 b7 where "arr_get (ubx_frame c0 c1 p @ rest) 6 = Some b6" "arr_get (ubx_frame c0 c1 p @ rest) 7 = Some b7"
    using arr_get_defined by blast
  with assms show ?thesis
    by (auto simp: cfg_dispatch_def frame_bytes(3,4) Let_def split: Option.bind_splits)
qed

text \<open>
  C22. A command and its answer, through all layers: a request for a message of the table is framed,
  queued and, when the queue was empty, sent by the next call that may send; the driver then waits, and
  the answer of the receiver, when it is parsed, is given to the handler of that message and ends the
  wait.
\<close>

theorem command_gets_answer:
  assumes "ub_inv st" and "entries (q_hndlr st) = []" and "kmalloc_fails st = []"
    and "get_cfg_msg_table_index tag = Some i" and "um_clsid (table_cfg_ubx_msg ! i) = (c0, c1)" and "c0 \<noteq> 0x05"
    and "length p < 65536" and "length p + 8 \<le> n"
  shows "\<exists>st1 st2. schedule_config_cmd tag None 0 st = Some (0, st1) \<and> worker_send ops st1 = Some st2 \<and>
     cmds (ub_log st2) = cmds (ub_log st) @ [ubx_frame c0 c1 []] \<and> dev_busy_time st2 = 1 \<and>
     process_cfg_data ops (ubx_frame c0 c1 p @ rest) n cp st2 = do {
       (r, st) \<leftarrow> handle_config_resp ops (ubx_frame c0 c1 p @ rest) (length p + 8) st2;
       Some (int (length p + 8), cp,
             clear_ublox_device_busy (st\<lparr>rsp_clsid := (0, 0), rsp_dst := eUBLOX_RSP_DST_NONE\<rparr>)) }"
proof -
  let ?f = "ubx_frame c0 c1 []" and ?p = "PREP_PRIV_DATA c0 c1 eUBLOX_RSP_DST_TMR"
  have inv: "q_inv st" "ub_wf st" using assms(1) by (auto dest: ub_invD)
  obtain q f where q: "queue_cmd (?f @ replicate 24 0) (int 8) ?p st =
      Some (0, st\<lparr>kmalloc_fails := f, q_hndlr := q, ub_log := ub_log st @ [Cmd_queued ?f]\<rparr>)"
    "q_inv (st\<lparr>kmalloc_fails := f, q_hndlr := q, ub_log := ub_log st @ [Cmd_queued ?f]\<rparr>)" "entries q = [(?f, ?p)]"
    using queue_cmd_ok [OF inv(1), of 8 "?f @ replicate 24 0" ?p] assms(2,3) by auto
  let ?st = "st\<lparr>kmalloc_fails := f, q_hndlr := q, ub_log := ub_log st @ [Cmd_queued ?f]\<rparr>"
  have "ub_wf ?st" using inv(2) by (simp add: ub_wf_def)
  then obtain st2 where s: "worker_send ops ?st = Some st2" "cmds (ub_log st2) = cmds (ub_log st) @ [?f]"
    "dev_busy_time st2 = 1" "rsp_clsid st2 = (c0, c1)" "rsp_dst st2 = eUBLOX_RSP_DST_TMR"
    using worker_send_Cons [OF q(2), of ?f ?p "[]" ops] q(3) by (auto simp: priv_roundtrip)
  have "process_cfg_data ops (ubx_frame c0 c1 p @ rest) n cp st2 = do {
       (r, st) \<leftarrow> handle_config_resp ops (ubx_frame c0 c1 p @ rest) (length p + 8) st2;
       Some (int (length p + 8), cp,
             clear_ublox_device_busy (st\<lparr>rsp_clsid := (0, 0), rsp_dst := eUBLOX_RSP_DST_NONE\<rparr>)) }"
    unfolding process_cfg_frame [OF assms(7,8)] dispatch_answer [OF s(4,5) assms(6)]
    by (cases "handle_config_resp ops (ubx_frame c0 c1 p @ rest) (length p + 8) st2") auto
  moreover have "schedule_config_cmd tag None 0 st = Some (0, ?st)"
    using schedule_config_cmd_eq [OF assms(4,5), of st] q(1) by simp
  ultimately show ?thesis using s by blast
qed

section \<open>Examples\<close>

text \<open>A bus with a silent device, and the state of the driver before and after loading.\<close>

definition quiet_env :: "unit ub_env" where
  "quiet_env = \<lparr>env_i2c = \<lparr>i2c_smbus_read_word_data = (\<lambda>r d. (0, d)), i2c_master_recv = (\<lambda>n d. (- 5, [], d)),
      i2c_master_send = (\<lambda>bs d. (int (length bs), d))\<rparr>,
     env_m2j = ucast, env_strtol = (\<lambda>s. (2, if s \<noteq> [] \<and> hd s = 0x32 then 1 else 0))\<rparr>"

definition quiet_dev :: "unit tgd_ublox_gps_prv_data" where
  "quiet_dev = \<lparr>client = (), i2c_stats = \<lparr>rx_fifo_empty_count = 0, rx_len_zero_count = 0, rx_len_truncated_count = 0,
     rx_poll_count = 0, rx_pkt_count = 0, rx_loop_break_count = 0, rx_error_count = 0, tx_byte_count = 0,
     tx_pkt_count = 0, tx_error_count = 0\<rparr>\<rparr>"

definition ub_zero :: "unit ublox_msg_data" where
  "ub_zero = \<lparr>init_flag = False, timer_running = False, tm_exp_in_ms = 0, ublox_state = eUBLX_STATE_DOWN,
     ublox_sm_state_count = 0, gps_time_in_sec = 0, one_sec_count = 0, timer_shutting_down = False, accmulated_ms = 0,
     i2c_data_len = 0, i2c_data = None, ublx_cfg_rsp_len = 0, cfg_rsp_copy = None, rsp_clsid = (0, 0), rsp_dst = 0,
     cfg_cmd_ack_rsp_len = 0, cfg_cmd_ack_rsp = replicate 16 0, gps_timer = None, work_pending = False,
     q_hndlr = \<lparr>q_handle = Q_null, q_heap = []\<rparr>, ublox_handle = quiet_dev, time_sync_mode = eTIME_MODE_GNSS,
     dev_busy_time = 0, srvy_in_start_time = 0, prev_one_sec_count = 0, stat_push_armed = False, stat_push_interval = 0,
     prev_time_sec = 0, gps_time_sec = 0, adj_timer_value_ms = 0, clnt_list = [], stat_d = stat_zero,
     platform_dev = False, nmea_msg_enable = replicate 8 eMSG_DISABLD, g_dbg_mask = 0, kmalloc_fails = [], ub_log = []\<rparr>"

definition ub_up :: "unit ublox_msg_data" where
  "ub_up = ub_zero\<lparr>init_flag := True, timer_running := True, gps_timer := Some 200, ublox_state := eGPS_STATE_WAIT_SYNC,
     i2c_data := Some (replicate I2C_MSG_MAX_SIZE 0), cfg_rsp_copy := Some (replicate CFG_RSP_MAX 0),
     q_hndlr := init_tgd_message_queue True 16 (q_hndlr ub_zero)\<rparr>"

lemma quiet_ok: "i2c_ok (env_i2c quiet_env)"
  by (simp add: i2c_ok_def quiet_env_def)

lemma ub_zero_unloaded: "unloaded ub_zero"
  by (simp add: unloaded_def ub_zero_def ub_wf_def stat_wf_def stat_zero_def block_get_def table_nmea_ubx_msg_def)

lemma ub_up_inv: "ub_inv ub_up"
  by (simp add: ub_inv_def ub_up_def ub_zero_def ub_wf_def stat_wf_def stat_zero_def q_inv_def table_nmea_ubx_msg_def
      init_ok block_get_def)

lemma quiet_poll: "op_ok quiet_env s Op_work"
  by (auto simp: op_ok_def poll_fits_def rd_loop.simps ublox_dev_rd_def ublox_i2c_receive_def tgd_ublox_dev_data_len_def
      quiet_env_def Let_def split: option.splits)

lemma ok_runI: "(\<And>op s. op \<in> set ops \<Longrightarrow> op_ok env s op) \<Longrightarrow> ok_run env ops st"
  by (induction ops arbitrary: st) (auto split: option.splits)

lemma quiet_polls: "ok_run quiet_env (replicate n Op_work) st"
  by (rule ok_runI) (auto simp: quiet_poll)

text \<open>A day of the driver: polls, a client that comes and goes, a reset and the sysfs reads.\<close>

definition quiet_day :: "ub_op list" where
  "quiet_day = [Op_work, Op_init_client 5, Op_reset, Op_lat_long, Op_work, Op_sat_in_view, Op_poll_start [0x30] 0, Op_work]"

lemma quiet_day_ok: "ok_run quiet_env quiet_day st"
  by (rule ok_runI) (auto simp: quiet_day_def quiet_poll, auto simp: op_ok_def)


theorem load_failure_undone_witness:
  "unloaded (ub_zero\<lparr>kmalloc_fails := [False, True]\<rparr>) \<and>
   (\<exists>st'. tgd_ublox_msg_handler_init (env_i2c quiet_env) ucast 0 0 (Some quiet_dev) (ub_zero\<lparr>kmalloc_fails := [False, True]\<rparr>) =
      Some (False, st') \<and> unloaded st')"
  using load_failure_undone [OF unloaded_fields [OF ub_zero_unloaded], of "[False, True]" 0 "env_i2c quiet_env" ucast 0 quiet_dev]
    unloaded_fields [OF ub_zero_unloaded, of "[False, True]"] by simp

theorem state_machine_edges_witness:
  "ub_inv ub_up \<and> op_ok quiet_env ub_up Op_work \<and>
   (\<exists>st'. ub_step quiet_env Op_work ub_up = Some st' \<and>
      (ublox_state st' = eGPS_STATE_WAIT_SYNC \<or>
       ublox_state st' = eGPS_STATE_TIME_IN_SYNC \<and> one_sec_count ub_up \<noteq> prev_one_sec_count ub_up \<and> pps_in_sync ub_up))"
  using state_machine_edges [OF quiet_ok ub_up_inv quiet_poll] ub_up_inv quiet_poll [of ub_up]
  by (auto simp: ub_up_def)

text \<open>The driver with a command in its queue, three polls after the last command was sent.\<close>

definition ub_waiting :: "unit ublox_msg_data" where
  "ub_waiting = ub_up\<lparr>dev_busy_time := 3, q_hndlr := snd (the (q_put ([0xB5, 0x62], 7) (q_hndlr ub_up)))\<rparr>"

lemma ub_up_queue: "queue_ok [] (q_hndlr ub_up)" "entries (q_hndlr ub_up) = []" "max_q_depth (desc_of (q_hndlr ub_up)) = 16"
  by (simp_all add: ub_up_def ub_zero_def init_ok block_get_def)

lemma ub_waiting_inv: "ub_inv ub_waiting" "entries (q_hndlr ub_waiting) = [([0xB5, 0x62], 7)]"
proof -
  obtain m where m: "q_put ([0xB5, 0x62], 7) (q_hndlr ub_up) = Some (True, m)" "queue_ok [] m"
    "entries m = [([0xB5, 0x62], 7)]" "max_q_depth (desc_of m) = 16"
    using create_room [OF ub_up_queue(1), of "[0xB5, 0x62]" 7] ub_up_queue(2,3) by (auto simp: q_put_def)
  then show "entries (q_hndlr ub_waiting) = [([0xB5, 0x62], 7)]" "ub_inv ub_waiting"
    using ub_up_inv by (auto simp: ub_waiting_def ub_inv_def ub_wf_def q_inv_def)
qed

theorem next_command_sent_witness:
  "ub_inv ub_waiting \<and> dev_busy_time ub_waiting = 3 \<and>
   (\<exists>st' more. ub_run quiet_env (replicate 10 Op_work) ub_waiting = Some st' \<and>
      cmds (ub_log st') = [0xB5, 0x62] # more)"
proof -
  have p: "polling ub_waiting" "0 \<le> sint (dev_busy_time ub_waiting)" "cmds (ub_log ub_waiting) = []"
    "dev_busy_time ub_waiting = 3"
    by (simp_all add: ub_waiting_def ub_up_def ub_zero_def polling_def cmds_def)
  show ?thesis
    using next_command_sent [OF quiet_ok ub_waiting_inv(1) quiet_polls p(1) ub_waiting_inv(2) p(2)] ub_waiting_inv(1) p(3,4)
    by simp
qed

theorem command_gets_answer_witness:
  "\<exists>st1 st2. schedule_config_cmd ''NAV_PVT'' None 0 ub_up = Some (0, st1) \<and>
     worker_send (env_i2c quiet_env) st1 = Some st2 \<and>
     cmds (ub_log st2) = [[0xB5, 0x62, 0x01, 0x07, 0, 0, 0x08, 0x19]] \<and> dev_busy_time st2 = 1 \<and>
     process_cfg_data (env_i2c quiet_env) (ubx_frame 0x01 0x07 [1, 2, 3] @ [9]) 11 0 st2 = do {
       (r, st) \<leftarrow> handle_config_resp (env_i2c quiet_env) (ubx_frame 0x01 0x07 [1, 2, 3] @ [9]) 11 st2;
       Some (11, 0, clear_ublox_device_busy (st\<lparr>rsp_clsid := (0, 0), rsp_dst := eUBLOX_RSP_DST_NONE\<rparr>)) }"
proof -
  have i: "get_cfg_msg_table_index ''NAV_PVT'' = Some 2"
    and c: "um_clsid (table_cfg_ubx_msg ! 2) = (0x01, 0x07)" by (simp_all add: table_cfg_ubx_msg_def)
  have u: "kmalloc_fails ub_up = []" "cmds (ub_log ub_up) = []" by (simp_all add: ub_up_def ub_zero_def cmds_def)
  have f: "ubx_frame 0x01 0x07 [] = [0xB5, 0x62, 0x01, 0x07, 0, 0, 0x08, 0x19]" by code_simp
  show ?thesis
    using command_gets_answer [OF ub_up_inv ub_up_queue(2) u(1) i c, of "[1, 2, 3]" 11 "env_i2c quiet_env" "[9]" 0] u(2) f
    by simp
qed

theorem damaged_message_refused_witness:
  "process_cfg_data (env_i2c quiet_env) ((ubx_frame 0x0D 0x04 [1, 2, 3])[7 := 9] @ [5]) 12 0 ub_zero =
     Some (1, 0, rw_stat (\<lambda>s. s\<lparr>cheksum_error := cheksum_error s + 1\<rparr>) ub_zero)"
proof -
  have "(9 :: u8) \<noteq> ubx_frame 0x0D 0x04 [1, 2, 3] ! 7" by code_simp
  then show ?thesis
    using damaged_message_refused [of "[1, 2, 3]" 12 7 9 "0x0D" "0x04" "env_i2c quiet_env" "[5]" 0 ub_zero] by simp
qed

theorem parser_in_bounds_witness:
  "ub_wf ub_zero \<and>
   (\<exists>r st'. parse_nmea_and_cfg_msg (env_i2c quiet_env) ([0x24, 0x47, 0x4E] @ replicate 30 0x41) 10 ub_zero = Some (r, st') \<and>
      ub_wf st' \<and> keeps ub_zero st')"
  using parser_in_bounds [of ub_zero 10 "[0x24, 0x47, 0x4E] @ replicate 30 0x41" "env_i2c quiet_env"] ub_zero_unloaded
  by (simp add: unloaded_def)

text \<open>A survey-in message followed by an acknowledgement.\<close>

definition two_messages :: "ubx_msg list" where
  "two_messages = [(0x0D, 0x04, replicate 28 1), (0x05, 0x01, [0x06, 0x62])]"

theorem stream_delivered_in_order_witness:
  "parse_nmea_and_cfg_msg (env_i2c quiet_env) (concat (map wire two_messages) @ [7])
     (length (concat (map wire two_messages))) ub_zero =
   Some (0, snd (the (deliver_all (env_i2c quiet_env) two_messages 0 ub_zero)))"
proof -
  have "deliver_all (env_i2c quiet_env) two_messages 0 ub_zero \<noteq> None" by code_simp
  then show ?thesis
    using stream_delivered_in_order [of "env_i2c quiet_env" two_messages ub_zero _ _ "[7]"]
    by (auto simp: two_messages_def)
qed

text \<open>A time pulse message of week 2100, second 5, and a client that asked for the time.\<close>

definition tos_5 :: "u8 list" where
  "tos_5 = replicate 30 0 @ [0x34, 0x08, 0, 0] @ [5, 0, 0, 0] @ replicate 26 0"

definition ub_client :: "unit ublox_msg_data" where
  "ub_client = ub_zero\<lparr>clnt_list := [\<lparr>gps_clnt_data = 5, send_to_clnt = True\<rparr>]\<rparr>"

definition tp_5 :: t_ublox_time_pulse_info where
  "tp_5 = \<lparr>tp_year = 0, tp_utc_tm_ofst = 0, tp_gns_top_ofst = 0, tp_int_osc_ofst = 0, tp_flags = 0, tp_utc_uncert = 0,
     tp_gnss_uncert = 0, tp_int_osc_uncert = 0, tp_gnss_week_num = 2100, tp_gnss_week_time = 5, tp_month = 0, tp_day = 0,
     tp_hour = 0, tp_minute = 0, tp_seconds = 0\<rparr>"

theorem clients_get_gps_time_witness:
  "\<exists>st' ev. tos_run [tos_5, tos_5] ub_client = Some st' \<and> ub_log st' = ub_log ub_client @ ev \<and>
     map unat (updates 5 ev) = [1270080005]"
proof -
  have r: "tos_read tos_5 = Some tp_5" by code_simp
  have "tos_accurate tp_5" by (simp add: tos_accurate_def c_abs_def tp_5_def)
  moreover have "60 \<le> length tos_5" by (simp add: tos_5_def)
  ultimately show ?thesis
    using clients_get_gps_time [of "[tos_5, tos_5]" ub_client "\<lparr>gps_clnt_data = 5, send_to_clnt = True\<rparr>" "[tp_5, tp_5]"]
    by (auto simp: ub_client_def ub_zero_def r gps_secs_def tp_5_def)
qed
end
