(* ===== verification/VppNode.thy ===== *)
theory VppNode
  imports Prelude
begin

text \<open>
  The loop of a VPP graph node. A node takes a frame of packets; while at least four are left and the
  next frame has room for two it handles a pair, and otherwise one packet. \<open>node_loop\<close> is that loop
  over the two bodies; \<open>room\<close> tells, for the number of packets left, whether two fit. The locale
  \<open>vpp_node\<close> states when the two bodies implement one function on packets: the frame is then handled
  packet by packet, in order, whatever the room. The bodies keep an invariant that may depend on the
  number of packets handled so far, up to the size of a frame.
\<close>

section \<open>The loop\<close>

fun node_loop ::
  "('b \<Rightarrow> 'b \<Rightarrow> 's \<Rightarrow> ('o \<times> 'o \<times> 's) option) \<Rightarrow> ('b \<Rightarrow> 's \<Rightarrow> ('o \<times> 's) option) \<Rightarrow> (nat \<Rightarrow> bool) \<Rightarrow>
   'b list \<Rightarrow> 's \<Rightarrow> ('o list \<times> 's) option" where
  "node_loop two one room [] s = Some ([], s)"
| "node_loop two one room (b0 # bs) s =
     (case bs of
        b1 # b2 # b3 # r \<Rightarrow>
          if room (length (b0 # bs)) then do {
            (o0, o1, s) \<leftarrow> two b0 b1 s;
            (out, s) \<leftarrow> node_loop two one room (b2 # b3 # r) s;
            Some (o0 # o1 # out, s) }
          else do {
            (o0, s) \<leftarrow> one b0 s;
            (out, s) \<leftarrow> node_loop two one room bs s;
            Some (o0 # out, s) }
      | _ \<Rightarrow> do {
            (o0, s) \<leftarrow> one b0 s;
            (out, s) \<leftarrow> node_loop two one room bs s;
            Some (o0 # out, s) })"

text \<open>The reference: one packet after the other.\<close>

fun each :: "('b \<Rightarrow> 'a \<Rightarrow> 'o \<times> 'a) \<Rightarrow> 'b list \<Rightarrow> 'a \<Rightarrow> 'o list \<times> 'a" where
  "each f [] a = ([], a)"
| "each f (b # bs) a = (let (o0, a1) = f b a; (out, a2) = each f bs a1 in (o0 # out, a2))"

lemma each_map: "each (\<lambda>b a. (g b, h b a)) bs a = (map g bs, fold h bs a)"
  by (induction bs arbitrary: a) auto

section \<open>The contract\<close>

locale vpp_node =
  fixes two :: "'b \<Rightarrow> 'b \<Rightarrow> 's \<Rightarrow> ('o \<times> 'o \<times> 's) option"
    and one :: "'b \<Rightarrow> 's \<Rightarrow> ('o \<times> 's) option"
    and fits :: "'b \<Rightarrow> bool"
    and inv :: "nat \<Rightarrow> 's \<Rightarrow> bool"
    and cap :: nat
    and abs :: "'s \<Rightarrow> 'a"
    and spec :: "'b \<Rightarrow> 'a \<Rightarrow> 'o \<times> 'a"
  assumes one_refines: "fits b \<Longrightarrow> inv k s \<Longrightarrow> k < cap \<Longrightarrow>
      \<exists>o0 s'. one b s = Some (o0, s') \<and> inv (Suc k) s' \<and> spec b (abs s) = (o0, abs s')"
    and two_refines: "fits b0 \<Longrightarrow> fits b1 \<Longrightarrow> inv k s \<Longrightarrow> Suc k < cap \<Longrightarrow>
      \<exists>o0 o1 a s'. two b0 b1 s = Some (o0, o1, s') \<and> inv (Suc (Suc k)) s' \<and>
        spec b0 (abs s) = (o0, a) \<and> spec b1 a = (o1, abs s')"
begin

lemma loop_refines:
  assumes "\<forall>b \<in> set bs. fits b" and "inv k s" and "k + length bs \<le> cap"
  shows "\<exists>out s'. node_loop two one room bs s = Some (out, s') \<and> inv (k + length bs) s' \<and>
           each spec bs (abs s) = (out, abs s')"
  using assms
proof (induction bs arbitrary: k s rule: length_induct)
  case (1 bs)
  have IH: "\<exists>out s'. node_loop two one room r s = Some (out, s') \<and> inv (k + length r) s' \<and>
        each spec r (abs s) = (out, abs s')"
    if "length r < length bs" "\<forall>b \<in> set r. fits b" "inv k s" "k + length r \<le> cap" for r k s
    using "1.IH" that by blast
  show ?case
  proof (cases bs)
    case (Cons b0 r)
    have single: "\<exists>out s'. Option.bind (one b0 s) (\<lambda>(o0, s). Option.bind (node_loop two one room r s)
          (\<lambda>(out, s). Some (o0 # out, s))) = Some (out, s') \<and> inv (k + length bs) s' \<and>
        each spec bs (abs s) = (out, abs s')"
    proof -
      obtain o0 s1 where a: "one b0 s = Some (o0, s1)" "inv (Suc k) s1" "spec b0 (abs s) = (o0, abs s1)"
        using one_refines [of b0 k s] "1.prems" Cons by auto
      obtain out s' where "node_loop two one room r s1 = Some (out, s')" "inv (Suc k + length r) s'"
        "each spec r (abs s1) = (out, abs s')"
        using IH [of r "Suc k" s1] a(2) "1.prems" Cons by auto
      with a Cons show ?thesis by simp
    qed
    show ?thesis
    proof (cases "\<exists>b1 b2 b3 q. r = b1 # b2 # b3 # q \<and> room (length bs)")
      case True
      then obtain b1 b2 b3 q where r: "r = b1 # b2 # b3 # q" "room (length bs)" by blast
      obtain o0 o1 a s1 where t: "two b0 b1 s = Some (o0, o1, s1)" "inv (Suc (Suc k)) s1"
        "spec b0 (abs s) = (o0, a)" "spec b1 a = (o1, abs s1)"
        using two_refines [of b0 b1 k s] "1.prems" Cons r(1) by auto
      obtain out s' where u: "node_loop two one room (b2 # b3 # q) s1 = Some (out, s')"
        "inv (Suc (Suc k) + length (b2 # b3 # q)) s'" "each spec (b2 # b3 # q) (abs s1) = (out, abs s')"
        using IH [of "b2 # b3 # q" "Suc (Suc k)" s1] t(2) "1.prems" Cons r(1) by auto
      have "node_loop two one room bs s = Some (o0 # o1 # out, s')"
        using r(2) unfolding Cons r(1) node_loop.simps(2) [of two one room b0]
        by (simp add: t(1) u(1) del: node_loop.simps)
      moreover have "each spec bs (abs s) = (o0 # o1 # out, abs s')"
        using t(3,4) u(3) Cons r(1) by (simp del: each.simps(2) add: each.simps(2) [of spec b0] each.simps(2) [of spec b1])
      ultimately show ?thesis using u(2) Cons r(1) by auto
    next
      case False
      then have "node_loop two one room bs s = Option.bind (one b0 s) (\<lambda>(o0, s). Option.bind (node_loop two one room r s)
          (\<lambda>(out, s). Some (o0 # out, s)))"
        unfolding Cons node_loop.simps(2) [of two one room b0 r] by (auto split: list.split)
      with single show ?thesis by simp
    qed
  qed (use "1.prems" in simp)
qed

end

section \<open>Vectors\<close>

text \<open>\<open>vec_validate_init_empty\<close>: grow the vector so that the index exists. A vector that is \<open>NULL\<close> is empty.\<close>

definition vec_grow :: "nat \<Rightarrow> 'a \<Rightarrow> 'a list \<Rightarrow> 'a list" where
  "vec_grow i x v = v @ replicate (Suc i - length v) x"

lemma length_vec_grow [simp]: "length (vec_grow i x v) = max (Suc i) (length v)"
  by (auto simp: vec_grow_def)

lemma nth_vec_grow: "j < length (vec_grow i x v) \<Longrightarrow> vec_grow i x v ! j = (if j < length v then v ! j else x)"
  by (auto simp: vec_grow_def nth_append)

lemma set_vec_grow: "set (vec_grow i x v) \<subseteq> insert x (set v)"
  by (auto simp: vec_grow_def)

end
