(* ===== verification/TgCfg.thy ===== *)
theory TgCfg
  imports VppNode
begin

text \<open>
  The control plane of the Terragraph configuration plugin of VPP (\<open>vpp_plugins/tgcfg/tgcfg/tgcfg.h\<close>,
  \<open>tgcfg_main.c\<close>, \<open>tgcfg_cli.c\<close>, \<open>tgcfg_api.c\<close>): it creates an interface for every radio link, maps
  link ids to interfaces and back, connects wired ports to Linux tap devices, and handles the link
  events of the radio driver.

  The plugin's globals are the record \<open>tgcfg_main\<close>. VPP and the radio driver are the argument
  \<open>vpp_ops\<close> over a state of their own (\<open>vnet\<close>): what the plugin asks them, and the calls that have a
  result. The other calls of VPP are the values of \<open>vcall\<close>; they are made with \<open>vpp_call\<close>, which also
  records them in order in \<open>vcalls\<close>. VPP calls the hooks of the plugin from within these calls; in the
  model a hook is an operation of its own. A pool or vector access that is not there is \<open>None\<close>. The
  parsers of the configuration and the command line take the values \<open>unformat\<close> recognises, in order.
  Log messages and packet traces are left out.
\<close>

section \<open>State\<close>

abbreviation NO_IF :: u32 where "NO_IF \<equiv> - 1"
abbreviation VNET_API_ERROR_INVALID_SW_IF_INDEX :: int where "VNET_API_ERROR_INVALID_SW_IF_INDEX \<equiv> - 2"
abbreviation VNET_API_ERROR_UNSUPPORTED :: int where "VNET_API_ERROR_UNSUPPORTED \<equiv> - 126"

record tgcfg_link =
  bb_sw_if_index :: u32
  tg_sw_if_index :: u32
  tg_peer_id :: u32

record tgcfg_wired =
  eth_sw_if_index :: u32
  tap_sw_if_index :: u32

definition TG_LINK_INVALID :: tgcfg_link where
  "TG_LINK_INVALID = \<lparr>bb_sw_if_index = NO_IF, tg_sw_if_index = NO_IF, tg_peer_id = NO_IF\<rparr>"

definition TG_WIRED_INVALID :: tgcfg_wired where
  "TG_WIRED_INVALID = \<lparr>eth_sw_if_index = NO_IF, tap_sw_if_index = NO_IF\<rparr>"

text \<open>What the radio driver tells of a device and its links.\<close>

record wigig_link_info =
  if_nameunit :: u32
  if_peer_id :: u32

record wigig_dev_info =
  port_id :: u32
  data_fd :: int
  dev_links :: "wigig_link_info list"

record tgcfg_wdev =
  wd_di :: wigig_dev_info
  wd_sw_if_index :: u32
  wd_dev :: nat
  rx_ready :: bool
  clib_file_index :: "nat option"
  wdev_index :: nat

record tgcfg_slowpath_map =
  sm_vpp_name :: string
  sm_tap_name :: "string option"
  wired_security_enable :: bool
  ipv6_slowpath_enable :: bool

datatype vcall =
    Sw_set_flags u32 bool
  | Hw_set_link u32 bool
  | Eapol_only u32 bool
  | Neighbor_add "u8 list" u32
  | Neighbor_del "u8 list" u32
  | Feature string string u32
  | Redirect_802_1x string u32 bool
  | Ip6_link_enable u32
  | Ip6_ra_suppress u32
  | Ip4_enable u32
  | Tx_next u32
  | Set_max_packet u32 u32
  | Set_link_speed u32 u32
  | Set_mtu u32 u32
  | Set_client_ops nat
  | File_add int nat
  | Map_details u32 string

text \<open>
  An event for the plugin's process: a new port, or a device that came up. The device is named by a
  pointer into the vector of devices: its position, and the length of the vector at that time.
\<close>

datatype tg_event = Port_add u32 | Port_up nat nat

record 'v tgcfg_main =
  auto_probe :: bool
  slowpath_enable :: bool
  wsec_enable :: bool
  host_iface_name :: "string option"
  terra_links :: "tgcfg_link list"
  wigig_devs :: "tgcfg_wdev list"
  wired_links :: "tgcfg_wired list"
  local_links :: "u32 list"
  slowpath_maps :: "tgcfg_slowpath_map list"
  host_sw_if_index :: u32
  loop_sw_if_index :: u32
  ula_test_prefix :: "u64 \<times> u64"
  n_files :: nat
  tg_events :: "tg_event list"
  vcalls :: "vcall list"
  vnet :: 'v

record 'v vpp_ops =
  vpp_step :: "vcall \<Rightarrow> 'v \<Rightarrow> 'v"
  sw_free :: "'v \<Rightarrow> u32 \<Rightarrow> bool"
  hw_free :: "'v \<Rightarrow> u32 \<Rightarrow> bool"
  sw_hardware :: "'v \<Rightarrow> u32 \<Rightarrow> bool"
  sw_hw :: "'v \<Rightarrow> u32 \<Rightarrow> u32"
  sup_hw :: "'v \<Rightarrow> u32 \<Rightarrow> u32"
  hw_sw :: "'v \<Rightarrow> u32 \<Rightarrow> u32"
  hw_instance :: "'v \<Rightarrow> u32 \<Rightarrow> u32"
  hw_address :: "'v \<Rightarrow> u32 \<Rightarrow> u8 list"
  hw_name :: "'v \<Rightarrow> u32 \<Rightarrow> string"
  hw_class :: "'v \<Rightarrow> u32 \<Rightarrow> string"
  hw_max_packet :: "'v \<Rightarrow> u32 \<Rightarrow> u32"
  hw_speed :: "'v \<Rightarrow> u32 \<Rightarrow> u32"
  sw_mtu :: "'v \<Rightarrow> u32 \<Rightarrow> u32"
  sw_admin_up :: "'v \<Rightarrow> u32 \<Rightarrow> bool"
  set_flags_fails :: "'v \<Rightarrow> u32 \<Rightarrow> bool"
  register_interface :: "u32 \<Rightarrow> u8 list \<Rightarrow> 'v \<Rightarrow> (u32 \<times> 'v) option"
  tap_connect :: "string \<Rightarrow> u8 list \<Rightarrow> 'v \<Rightarrow> int \<times> u32 \<times> 'v"
  tap_delete :: "u32 \<Rightarrow> 'v \<Rightarrow> 'v"
  set_l2_xc :: "u32 \<Rightarrow> u32 \<Rightarrow> 'v \<Rightarrow> int \<times> 'v"
  create_loopback :: "'v \<Rightarrow> int \<times> u32 \<times> 'v"
  device_lookup :: "u8 list \<Rightarrow> nat option"
  device_info :: "'v \<Rightarrow> nat \<Rightarrow> wigig_dev_info option"
  MODE_ERROR_ETH :: int
  MODE_ERROR_BVI_DEF :: int
  VNET_API_ERROR_NON_ETHERNET :: int
  VNET_API_ERROR_BD_ALREADY_HAS_BVI :: int
  vec_moved :: "nat \<Rightarrow> nat \<Rightarrow> bool"
  MAX_LINKS :: nat

definition vpp_call :: "'v vpp_ops \<Rightarrow> vcall \<Rightarrow> 'v tgcfg_main \<Rightarrow> 'v tgcfg_main" where
  "vpp_call env c tm = tm\<lparr>vnet := vpp_step env c (vnet tm), vcalls := vcalls tm @ [c]\<rparr>"

text \<open>\<open>vec_elt_at_index\<close>: the element, if it is there.\<close>

definition vec_elt :: "'a list \<Rightarrow> u32 \<Rightarrow> 'a option" where
  "vec_elt v i = (if unat i < length v then Some (v ! unat i) else None)"

text \<open>
  \<open>vnet_get_sw_interface\<close>, \<open>vnet_get_hw_interface\<close> and \<open>vnet_get_sup_hw_interface\<close> read the pools of VPP:
  an index that is free there is a fault.
\<close>

definition vnet_get_sw_interface :: "'v vpp_ops \<Rightarrow> u32 \<Rightarrow> 'v tgcfg_main \<Rightarrow> u32 option" where
  "vnet_get_sw_interface env sw tm = (if sw_free env (vnet tm) sw then None else Some sw)"

definition vnet_get_hw_interface :: "'v vpp_ops \<Rightarrow> u32 \<Rightarrow> 'v tgcfg_main \<Rightarrow> u32 option" where
  "vnet_get_hw_interface env hw tm = (if hw_free env (vnet tm) hw then None else Some hw)"

definition vnet_get_sup_hw_interface :: "'v vpp_ops \<Rightarrow> u32 \<Rightarrow> 'v tgcfg_main \<Rightarrow> u32 option" where
  "vnet_get_sup_hw_interface env sw tm = do {
     sw \<leftarrow> vnet_get_sw_interface env sw tm;
     vnet_get_hw_interface env (sup_hw env (vnet tm) sw) tm }"

section \<open>Lookups\<close>

fun wdev_scan :: "(tgcfg_wdev \<Rightarrow> bool) \<Rightarrow> nat \<Rightarrow> tgcfg_wdev list \<Rightarrow> nat option" where
  "wdev_scan P i [] = None"
| "wdev_scan P i (w # ws) = (if P w then Some i else wdev_scan P (Suc i) ws)"

definition tg_get_wdev_by_sw_if_index :: "u32 \<Rightarrow> 'v tgcfg_main \<Rightarrow> nat option" where
  "tg_get_wdev_by_sw_if_index sw tm = wdev_scan (\<lambda>w. wd_sw_if_index w = sw) 0 (wigig_devs tm)"

definition tg_get_wdev_index_by_port_id :: "u32 \<Rightarrow> 'v tgcfg_main \<Rightarrow> nat option" where
  "tg_get_wdev_index_by_port_id p tm = wdev_scan (\<lambda>w. port_id (wd_di w) = p) 0 (wigig_devs tm)"

definition tg_get_link_if_by_dev_instance :: "u32 \<Rightarrow> 'v tgcfg_main \<Rightarrow> u32 option" where
  "tg_get_link_if_by_dev_instance inst tm = (case vec_elt (terra_links tm) inst of
     None \<Rightarrow> None
   | Some li \<Rightarrow> if tg_sw_if_index li \<noteq> NO_IF then Some (tg_sw_if_index li) else None)"

section \<open>Configuration\<close>

datatype if_option = Opt_tap string | Opt_ipv6_slowpath bool | Opt_wired_security bool | Opt_unknown

fun if_options :: "if_option list \<Rightarrow> tgcfg_slowpath_map \<Rightarrow> tgcfg_slowpath_map option" where
  "if_options [] sp = Some sp"
| "if_options (c # cs) sp = (case c of
     Opt_tap t \<Rightarrow> if_options cs (sp\<lparr>sm_tap_name := Some t\<rparr>)
   | Opt_ipv6_slowpath b \<Rightarrow> if_options cs (sp\<lparr>ipv6_slowpath_enable := b\<rparr>)
   | Opt_wired_security b \<Rightarrow> if_options cs (sp\<lparr>wired_security_enable := b\<rparr>)
   | Opt_unknown \<Rightarrow> None)"

definition tgcfg_interface_config :: "string \<Rightarrow> if_option list \<Rightarrow> tgcfg_slowpath_map option" where
  "tgcfg_interface_config name cs = do {
     sp \<leftarrow> if_options cs \<lparr>sm_vpp_name = name, sm_tap_name = None, wired_security_enable = False, ipv6_slowpath_enable = True\<rparr>;
     if sm_tap_name sp = None then None else Some sp }"

definition tgcfg_setup_host_interface :: "'v vpp_ops \<Rightarrow> 'v tgcfg_main \<Rightarrow> bool \<times> 'v tgcfg_main" where
  "tgcfg_setup_host_interface env tm = (case host_iface_name tm of
     None \<Rightarrow> (False, tm)
   | Some name \<Rightarrow>
       let (rc, sw, v) = tap_connect env name [] (vnet tm); tm = tm\<lparr>vnet := v\<rparr>
       in if rc \<noteq> 0 then (False, tm)
          else
            let tm = tm\<lparr>host_sw_if_index := sw\<rparr>;
                tm = vpp_call env (Sw_set_flags sw True) (vpp_call env (Ip6_link_enable sw) tm);
                (rc, lo, v) = create_loopback env (vnet tm); tm = tm\<lparr>vnet := v\<rparr>
            in if rc \<noteq> 0 then (False, tm)
               else (True, vpp_call env (Sw_set_flags lo True) (tm\<lparr>loop_sw_if_index := lo\<rparr>)))"

datatype cfg_item =
    Cfg_auto_probe bool | Cfg_slowpath bool | Cfg_wsec bool | Cfg_host string
  | Cfg_interface string "if_option list" | Cfg_ula "u64 \<times> u64" nat | Cfg_unknown

text \<open>The first two bytes of an address, as its first 16-bit word in the order of the host.\<close>

definition first_u16 :: "u64 \<times> u64 \<Rightarrow> u16" where
  "first_u16 a = ucast (fst a)"

fun cfg_items :: "cfg_item list \<Rightarrow> 'v tgcfg_main \<Rightarrow> bool \<times> 'v tgcfg_main" where
  "cfg_items [] tm = (True, tm)"
| "cfg_items (c # cs) tm = (case c of
     Cfg_auto_probe b \<Rightarrow> cfg_items cs (tm\<lparr>auto_probe := b\<rparr>)
   | Cfg_slowpath b \<Rightarrow> cfg_items cs (tm\<lparr>slowpath_enable := b\<rparr>)
   | Cfg_wsec b \<Rightarrow> cfg_items cs (tm\<lparr>wsec_enable := b\<rparr>)
   | Cfg_host n \<Rightarrow> cfg_items cs (tm\<lparr>host_iface_name := Some n\<rparr>)
   | Cfg_interface n os \<Rightarrow> (case tgcfg_interface_config n os of
       None \<Rightarrow> (False, tm)
     | Some sp \<Rightarrow> cfg_items cs (tm\<lparr>slowpath_maps := slowpath_maps tm @ [sp]\<rparr>))
   | Cfg_ula a len \<Rightarrow>
       let tm = tm\<lparr>ula_test_prefix := a\<rparr>
       in if len \<noteq> 64 \<or> first_u16 a \<noteq> 0x00FD then (False, tm) else cfg_items cs tm
   | Cfg_unknown \<Rightarrow> (False, tm))"

definition tgcfg_config :: "'v vpp_ops \<Rightarrow> cfg_item list \<Rightarrow> 'v tgcfg_main \<Rightarrow> bool \<times> 'v tgcfg_main" where
  "tgcfg_config env cs tm =
     (let (ok, tm) = cfg_items cs (tm\<lparr>auto_probe := True, slowpath_enable := True, wsec_enable := False\<rparr>)
      in if \<not> ok then (False, tm)
         else if host_iface_name tm \<noteq> None then tgcfg_setup_host_interface env tm else (True, tm))"

definition tgcfg_init :: "bool \<Rightarrow> bool \<Rightarrow> bool \<Rightarrow> 'v tgcfg_main \<Rightarrow> bool \<times> 'v tgcfg_main" where
  "tgcfg_init get_ops ops dynfield_lookup tm =
     (get_ops \<and> ops \<and> dynfield_lookup, tm\<lparr>host_sw_if_index := NO_IF, ula_test_prefix := (0, 0)\<rparr>)"

definition tgcfg_exit :: "'v vpp_ops \<Rightarrow> 'v tgcfg_main \<Rightarrow> 'v tgcfg_main" where
  "tgcfg_exit env tm = fold (\<lambda>w. vpp_call env (Sw_set_flags (wd_sw_if_index w) False)) (wigig_devs tm) tm"

section \<open>Radio interfaces\<close>

definition copy_link_flags :: "'v vpp_ops \<Rightarrow> bool \<Rightarrow> wigig_link_info \<Rightarrow> 'v tgcfg_main \<Rightarrow> 'v tgcfg_main" where
  "copy_link_flags env up l tm = (case tg_get_link_if_by_dev_instance (if_nameunit l) tm of
     None \<Rightarrow> tm
   | Some sw \<Rightarrow> vpp_call env (Sw_set_flags sw up) tm)"

definition tg_interface_copy_flags :: "'v vpp_ops \<Rightarrow> u32 \<Rightarrow> bool \<Rightarrow> 'v tgcfg_main \<Rightarrow> 'v tgcfg_main" where
  "tg_interface_copy_flags env sw up tm =
     (let tm = (case vec_elt (wired_links tm) sw of
                  None \<Rightarrow> tm
                | Some wl \<Rightarrow>
                    if tap_sw_if_index wl \<noteq> NO_IF \<and> tap_sw_if_index wl \<noteq> sw
                    then vpp_call env (Sw_set_flags (tap_sw_if_index wl) up) tm else tm)
      in case tg_get_wdev_by_sw_if_index sw tm of
           None \<Rightarrow> tm
         | Some i \<Rightarrow> fold (copy_link_flags env up) (dev_links (wd_di (wigig_devs tm ! i))) tm)"

definition file_add :: "'v vpp_ops \<Rightarrow> int \<Rightarrow> nat \<Rightarrow> 'v tgcfg_main \<Rightarrow> nat \<times> 'v tgcfg_main" where
  "file_add env fd priv tm = (n_files tm, vpp_call env (File_add fd priv) (tm\<lparr>n_files := n_files tm + 1\<rparr>))"

definition tg_wigig_device_up :: "'v vpp_ops \<Rightarrow> nat \<Rightarrow> nat \<Rightarrow> 'v tgcfg_main \<Rightarrow> 'v tgcfg_main option" where
  "tg_wigig_device_up env i n tm =
     (if length (wigig_devs tm) \<le> i \<or> vec_moved env n (length (wigig_devs tm)) then None
      else
        let w = wigig_devs tm ! i in
        case device_info env (vnet tm) (wd_dev w) of
          None \<Rightarrow> Some tm
        | Some wi \<Rightarrow>
            let (w, tm) = (if slowpath_enable tm
                           then let (f, tm) = file_add env (data_fd wi) (wdev_index w) tm in (w\<lparr>clib_file_index := Some f\<rparr>, tm)
                           else (w, tm))
            in Some (tm\<lparr>wigig_devs := (wigig_devs tm)[i := w\<lparr>wd_di := wi\<rparr>]\<rparr>))"

section \<open>Events of the radio driver\<close>

record link_updown_info =
  ud_nameunit :: u32
  ud_peer_macaddr :: "u8 list"

definition link_sw :: "'v vpp_ops \<Rightarrow> u32 \<Rightarrow> 'v tgcfg_main \<Rightarrow> (u32 \<times> u32) option" where
  "link_sw env n tm = do {
     li \<leftarrow> vec_elt (terra_links tm) n;
     sw \<leftarrow> vnet_get_sw_interface env (tg_sw_if_index li) tm;
     Some (sw, sw_hw env (vnet tm) sw) }"

definition tg_link_up_handler :: "'v vpp_ops \<Rightarrow> link_updown_info \<Rightarrow> 'v tgcfg_main \<Rightarrow> 'v tgcfg_main option" where
  "tg_link_up_handler env d tm = do {
     (sw, hw) \<leftarrow> link_sw env (ud_nameunit d) tm;
     let tm = vpp_call env (Neighbor_add (ud_peer_macaddr d) sw) tm;
     let tm = vpp_call env (Hw_set_link hw True) tm;
     Some (if wsec_enable tm then vpp_call env (Eapol_only hw True) tm else tm) }"

definition tg_link_down_handler :: "'v vpp_ops \<Rightarrow> link_updown_info \<Rightarrow> 'v tgcfg_main \<Rightarrow> 'v tgcfg_main option" where
  "tg_link_down_handler env d tm = do {
     (sw, hw) \<leftarrow> link_sw env (ud_nameunit d) tm;
     let tm = vpp_call env (Hw_set_link hw False) tm;
     Some (vpp_call env (Neighbor_del (ud_peer_macaddr d) sw) tm) }"

definition tg_wigig_recovery_handler :: "'v vpp_ops \<Rightarrow> u32 \<Rightarrow> 'v tgcfg_main \<Rightarrow> 'v tgcfg_main" where
  "tg_wigig_recovery_handler env p tm = (case tg_get_wdev_index_by_port_id p tm of
     None \<Rightarrow> tm
   | Some i \<Rightarrow>
       let sw = wd_sw_if_index (wigig_devs tm ! i)
       in vpp_call env (Sw_set_flags sw True) (vpp_call env (Sw_set_flags sw False) tm))"

definition tg_wigig_down_handler :: "'v vpp_ops \<Rightarrow> u32 \<Rightarrow> 'v tgcfg_main \<Rightarrow> 'v tgcfg_main" where
  "tg_wigig_down_handler env p tm = (case tg_get_wdev_index_by_port_id p tm of
     None \<Rightarrow> tm
   | Some i \<Rightarrow> vpp_call env (Sw_set_flags (wd_sw_if_index (wigig_devs tm ! i)) False) tm)"

definition tg_link_key_set_handler :: "'v vpp_ops \<Rightarrow> u32 \<Rightarrow> 'v tgcfg_main \<Rightarrow> 'v tgcfg_main option" where
  "tg_link_key_set_handler env n tm = do {
     (sw, hw) \<leftarrow> link_sw env n tm;
     Some (vpp_call env (Eapol_only hw False) tm) }"

section \<open>Enabling a radio\<close>

text \<open>One link of the device; \<open>hw\<close> is the hardware interface of the radio port \<open>sw\<close>.\<close>

definition enable_slowpath_on :: "'v vpp_ops \<Rightarrow> u32 \<Rightarrow> 'v tgcfg_main \<Rightarrow> 'v tgcfg_main" where
  "enable_slowpath_on env tsw tm =
     (let tm = tm\<lparr>local_links := (vec_grow (unat tsw) NO_IF (local_links tm))[unat tsw := tsw]\<rparr>
      in vpp_call env (Redirect_802_1x ''tg-link-local-tx'' tsw False)
           (vpp_call env (Feature ''ip6-local'' ''tg-slowpath-terra-rx'' tsw) tm))"

definition enable_link :: "'v vpp_ops \<Rightarrow> u32 \<Rightarrow> bool \<Rightarrow> u32 \<Rightarrow> wigig_link_info \<Rightarrow> 'v tgcfg_main \<Rightarrow> 'v tgcfg_main option" where
  "enable_link env sw slow hw l tm = do {
     (thw, v) \<leftarrow> register_interface env (if_nameunit l) (hw_address env (vnet tm) hw) (vnet tm);
     let tm = tm\<lparr>vnet := v\<rparr>;
     thw \<leftarrow> vnet_get_hw_interface env thw tm;
     let tm = vpp_call env (Tx_next thw) tm;
     hw \<leftarrow> vnet_get_sup_hw_interface env sw tm;
     let tsw = hw_sw env (vnet tm) thw;
     let tm = vpp_call env (Set_max_packet thw (hw_max_packet env (vnet tm) hw)) tm;
     let tm = vpp_call env (Set_link_speed tsw (hw_speed env (vnet tm) hw)) tm;
     let tm = vpp_call env (Set_mtu tsw (sw_mtu env (vnet tm) sw)) tm;
     _ \<leftarrow> vec_elt (terra_links tm) (if_nameunit l);
     let tm = tm\<lparr>terra_links := (terra_links tm)[unat (if_nameunit l) :=
                 \<lparr>bb_sw_if_index = sw, tg_sw_if_index = tsw, tg_peer_id = if_peer_id l\<rparr>]\<rparr>;
     let tm = (if slow then enable_slowpath_on env tsw tm else tm);
     Some (vpp_call env (Ip4_enable tsw) (vpp_call env (Ip6_ra_suppress tsw) (vpp_call env (Ip6_link_enable tsw) tm))) }"

fun enable_links :: "'v vpp_ops \<Rightarrow> u32 \<Rightarrow> bool \<Rightarrow> u32 \<Rightarrow> wigig_link_info list \<Rightarrow> 'v tgcfg_main \<Rightarrow> 'v tgcfg_main option" where
  "enable_links env sw slow hw [] tm = Some tm"
| "enable_links env sw slow hw (l # ls) tm = do {
     tm \<leftarrow> enable_link env sw slow hw l tm;
     enable_links env sw slow (sup_hw env (vnet tm) sw) ls tm }"

definition tg_interface_enable :: "'v vpp_ops \<Rightarrow> u32 \<Rightarrow> bool \<Rightarrow> 'v tgcfg_main \<Rightarrow> (int \<times> 'v tgcfg_main) option" where
  "tg_interface_enable env sw slow tm =
     (if sw_free env (vnet tm) sw then Some (VNET_API_ERROR_INVALID_SW_IF_INDEX, tm)
      else if \<not> sw_hardware env (vnet tm) sw then Some (VNET_API_ERROR_INVALID_SW_IF_INDEX, tm)
      else case vnet_get_hw_interface env (sw_hw env (vnet tm) sw) tm of None \<Rightarrow> None | Some hw \<Rightarrow>
       (case device_lookup env (hw_address env (vnet tm) hw) of
          None \<Rightarrow> Some (VNET_API_ERROR_UNSUPPORTED, tm)
        | Some dev \<Rightarrow> (case device_info env (vnet tm) dev of
            None \<Rightarrow> Some (VNET_API_ERROR_UNSUPPORTED, tm)
          | Some wi \<Rightarrow> do {
              let tm = vpp_call env (Set_client_ops dev) tm;
              let tm = (if terra_links tm = [] then tm\<lparr>terra_links := vec_grow (MAX_LINKS env) TG_LINK_INVALID []\<rparr> else tm);
              tm \<leftarrow> enable_links env sw slow hw (dev_links wi) tm;
              let (f, tm) = (if slow then let (f, tm) = file_add env (data_fd wi) (length (wigig_devs tm)) tm in (Some f, tm)
                             else (None, tm));
              let wdev = \<lparr>wd_di = wi, wd_sw_if_index = sw, wd_dev = dev, rx_ready = False, clib_file_index = f,
                          wdev_index = length (wigig_devs tm)\<rparr>;
              let tm = tm\<lparr>wigig_devs := wigig_devs tm @ [wdev]\<rparr>;
              Some (0, vpp_call env (Feature ''device-input'' ''tg-link-input'' sw) tm) })))"

datatype setup_word = Word_disable | Word_noslowpath | Word_if u32

fun setup_words :: "setup_word list \<Rightarrow> u32 \<times> bool \<Rightarrow> u32 \<times> bool" where
  "setup_words [] a = a"
| "setup_words (w # ws) (sw, slow) = (case w of
     Word_disable \<Rightarrow> setup_words ws (sw, slow)
   | Word_noslowpath \<Rightarrow> setup_words ws (sw, False)
   | Word_if i \<Rightarrow> setup_words ws (i, slow))"

definition tg_interface_enable_disable_command_fn ::
  "'v vpp_ops \<Rightarrow> setup_word list \<Rightarrow> 'v tgcfg_main \<Rightarrow> (bool \<times> 'v tgcfg_main) option" where
  "tg_interface_enable_disable_command_fn env ws tm =
     (let (sw, slow) = setup_words ws (NO_IF, True)
      in if sw = NO_IF then Some (False, tm)
         else do { (rv, tm) \<leftarrow> tg_interface_enable env sw slow tm; Some (rv = 0, tm) })"

section \<open>Wired interfaces\<close>

definition enable_wired_slowpath :: "'v vpp_ops \<Rightarrow> u32 \<Rightarrow> 'v tgcfg_main \<Rightarrow> 'v tgcfg_main" where
  "enable_wired_slowpath env sw tm =
     vpp_call env (Ip6_ra_suppress sw) (vpp_call env (Feature ''ip6-local'' ''tg-slowpath-wired-rx'' sw)
       (tm\<lparr>local_links := (local_links tm)[unat sw := sw]\<rparr>))"

definition wired_maps :: "u32 \<Rightarrow> u32 \<Rightarrow> 'v tgcfg_main \<Rightarrow> 'v tgcfg_main" where
  "wired_maps sw tap tm =
     (let top = max (unat sw) (unat tap); wl = \<lparr>eth_sw_if_index = sw, tap_sw_if_index = tap\<rparr>
      in tm\<lparr>wired_links := (vec_grow top TG_WIRED_INVALID (wired_links tm))[unat sw := wl, unat tap := wl],
            local_links := vec_grow top NO_IF (local_links tm)\<rparr>)"

definition l2_rc :: "'v vpp_ops \<Rightarrow> int \<Rightarrow> int" where
  "l2_rc env rc = (if rc = MODE_ERROR_ETH env then VNET_API_ERROR_NON_ETHERNET env
     else if rc = MODE_ERROR_BVI_DEF env then VNET_API_ERROR_BD_ALREADY_HAS_BVI env else rc)"

definition tg_wired_interface_enable ::
  "'v vpp_ops \<Rightarrow> u32 \<Rightarrow> tgcfg_slowpath_map \<Rightarrow> 'v tgcfg_main \<Rightarrow> (int \<times> 'v tgcfg_main) option" where
  "tg_wired_interface_enable env sw sp tm =
     (if sw_free env (vnet tm) sw then Some (VNET_API_ERROR_INVALID_SW_IF_INDEX, tm)
      else if \<not> sw_hardware env (vnet tm) sw then Some (VNET_API_ERROR_INVALID_SW_IF_INDEX, tm)
      else case vnet_get_hw_interface env sw tm of None \<Rightarrow> None | Some hw \<Rightarrow>
      if hw_class env (vnet tm) hw \<noteq> ''dpdk'' then Some (VNET_API_ERROR_UNSUPPORTED, tm)
      else if device_lookup env (hw_address env (vnet tm) hw) \<noteq> None then Some (VNET_API_ERROR_UNSUPPORTED, tm)
      else
        let (rc, tap, v) = tap_connect env (case sm_tap_name sp of None \<Rightarrow> [] | Some t \<Rightarrow> t) (hw_address env (vnet tm) hw) (vnet tm);
            tm = tm\<lparr>vnet := v\<rparr>
        in if rc \<noteq> 0 then Some (rc, tm)
           else
             let (rc, v) = set_l2_xc env tap sw (vnet tm); tm = tm\<lparr>vnet := v\<rparr>;
                 rc = l2_rc env rc
             in if rc \<noteq> 0 then Some (rc, tm\<lparr>vnet := tap_delete env tap (vnet tm)\<rparr>)
                else
                  let tm = wired_maps sw tap tm;
                      tm = (if ipv6_slowpath_enable sp then enable_wired_slowpath env sw tm else tm);
                      tm = vpp_call env (Feature ''device-input'' ''tg-wired-local-rx'' tap) tm;
                      tm = vpp_call env (Ip4_enable sw) (vpp_call env (Ip6_link_enable sw) tm);
                      tm = vpp_call env (Sw_set_flags tap (sw_admin_up env (vnet tm) sw)) tm;
                      tm = vpp_call env (Redirect_802_1x ''tg-wired-local-tx'' sw True) tm
                  in Some (0, if wired_security_enable sp then vpp_call env (Eapol_only (sw_hw env (vnet tm) sw) True) tm else tm))"

datatype wired_word = Wired_if u32 | Wired_tap string | Wired_security_on | Wired_slowpath_off

fun wired_words :: "wired_word list \<Rightarrow> u32 \<times> tgcfg_slowpath_map \<Rightarrow> u32 \<times> tgcfg_slowpath_map" where
  "wired_words [] a = a"
| "wired_words (w # ws) (sw, sp) = (case w of
     Wired_if i \<Rightarrow> wired_words ws (i, sp)
   | Wired_tap t \<Rightarrow> wired_words ws (sw, sp\<lparr>sm_tap_name := Some t\<rparr>)
   | Wired_security_on \<Rightarrow> wired_words ws (sw, sp\<lparr>wired_security_enable := True\<rparr>)
   | Wired_slowpath_off \<Rightarrow> wired_words ws (sw, sp\<lparr>ipv6_slowpath_enable := False\<rparr>))"

definition tg_wired_interface_enable_command_fn :: "'v vpp_ops \<Rightarrow> wired_word list \<Rightarrow> 'v tgcfg_main \<Rightarrow> (bool \<times> 'v tgcfg_main) option" where
  "tg_wired_interface_enable_command_fn env ws tm =
     (let (sw, sp) = wired_words ws (NO_IF, \<lparr>sm_vpp_name = [], sm_tap_name = None, wired_security_enable = False,
                                             ipv6_slowpath_enable = True\<rparr>)
      in if sm_tap_name sp = None then Some (False, tm)
         else if sw = NO_IF then Some (False, tm)
         else do { (rc, tm) \<leftarrow> tg_wired_interface_enable env sw sp tm; Some (rc = 0, tm) })"

definition tg_interface_check_enable_tap :: "'v vpp_ops \<Rightarrow> u32 \<Rightarrow> 'v tgcfg_main \<Rightarrow> 'v tgcfg_main option" where
  "tg_interface_check_enable_tap env sw tm = do {
     si \<leftarrow> vnet_get_sw_interface env sw tm;
     if \<not> sw_hardware env (vnet tm) si then Some tm
     else do {
       hw \<leftarrow> vnet_get_hw_interface env (sw_hw env (vnet tm) si) tm;
       case find (\<lambda>m. sm_vpp_name m = hw_name env (vnet tm) hw) (slowpath_maps tm) of
         None \<Rightarrow> Some tm
       | Some m \<Rightarrow> do { (rc, tm) \<leftarrow> tg_wired_interface_enable env sw m tm; Some tm } } }"

section \<open>The process and the hooks\<close>

definition port_added :: "'v vpp_ops \<Rightarrow> u32 \<Rightarrow> 'v tgcfg_main \<Rightarrow> 'v tgcfg_main option" where
  "port_added env sw tm = do {
     let err = set_flags_fails env (vnet tm) sw;
     let tm = vpp_call env (Sw_set_flags sw True) tm;
     (rc, tm) \<leftarrow> tg_interface_enable env sw (slowpath_enable tm) tm;
     if err then Some tm
     else tg_interface_check_enable_tap env sw (tg_interface_copy_flags env sw True tm) }"

text \<open>
  One pass of the process: VPP hands it all pending events of one type, in order; events that are
  signalled meanwhile wait.
\<close>

fun ports_added :: "'v vpp_ops \<Rightarrow> tg_event list \<Rightarrow> 'v tgcfg_main \<Rightarrow> 'v tgcfg_main option" where
  "ports_added env [] tm = Some tm"
| "ports_added env (Port_add sw # es) tm = do { tm \<leftarrow> port_added env sw tm; ports_added env es tm }"
| "ports_added env (Port_up i n # es) tm = ports_added env es tm"

fun ports_up :: "'v vpp_ops \<Rightarrow> tg_event list \<Rightarrow> 'v tgcfg_main \<Rightarrow> 'v tgcfg_main option" where
  "ports_up env [] tm = Some tm"
| "ports_up env (Port_up i n # es) tm = do { tm \<leftarrow> tg_wigig_device_up env i n tm; ports_up env es tm }"
| "ports_up env (Port_add sw # es) tm = ports_up env es tm"

fun is_port_add :: "tg_event \<Rightarrow> bool" where
  "is_port_add (Port_add sw) = True"
| "is_port_add (Port_up i n) = False"

definition tgcfg_interface_event_process :: "'v vpp_ops \<Rightarrow> bool \<Rightarrow> 'v tgcfg_main \<Rightarrow> 'v tgcfg_main option" where
  "tgcfg_interface_event_process env adds tm =
     (if adds then ports_added env (tg_events tm) (tm\<lparr>tg_events := filter (\<lambda>e. \<not> is_port_add e) (tg_events tm)\<rparr>)
      else ports_up env (tg_events tm) (tm\<lparr>tg_events := filter is_port_add (tg_events tm)\<rparr>))"

definition tg_interface_add_del_function :: "'v vpp_ops \<Rightarrow> u32 \<Rightarrow> bool \<Rightarrow> 'v tgcfg_main \<Rightarrow> 'v tgcfg_main option" where
  "tg_interface_add_del_function env sw is_add tm =
     (if \<not> is_add then Some tm
      else
        let tm = tm\<lparr>local_links := vec_grow (unat sw) NO_IF (local_links tm)\<rparr>
        in if \<not> auto_probe tm then Some tm
           else do {
             hw \<leftarrow> vnet_get_sup_hw_interface env sw tm;
             if hw_class env (vnet tm) hw \<noteq> ''dpdk'' then Some tm
             else Some (tm\<lparr>tg_events := tg_events tm @ [Port_add sw]\<rparr>) })"

definition tg_interface_up_down :: "'v vpp_ops \<Rightarrow> u32 \<Rightarrow> bool \<Rightarrow> 'v tgcfg_main \<Rightarrow> 'v tgcfg_main" where
  "tg_interface_up_down env sw up tm =
     (let tm = tg_interface_copy_flags env sw up tm
      in case tg_get_wdev_by_sw_if_index sw tm of
           None \<Rightarrow> tm
         | Some i \<Rightarrow> if up then tm\<lparr>tg_events := tg_events tm @ [Port_up i (length (wigig_devs tm))]\<rparr> else tm)"

text \<open>The interface map of the binary API: the wired interface of each tap device, if the client is known (\<open>rp\<close>).\<close>

definition vl_api_interface_map_dump_t_handler ::
  "'v vpp_ops \<Rightarrow> bool \<Rightarrow> (u32 \<times> string) list \<Rightarrow> 'v tgcfg_main \<Rightarrow> 'v tgcfg_main" where
  "vl_api_interface_map_dump_t_handler env rp taps tm =
     (if \<not> rp then tm
      else fold (\<lambda>(sw, name) tm. case find (\<lambda>wl. tap_sw_if_index wl = sw) (wired_links tm) of
             None \<Rightarrow> tm
           | Some wl \<Rightarrow> vpp_call env (Map_details (eth_sw_if_index wl) (take 63 name)) tm) taps tm)"

end
