(* ===== verification/TgNode.thy ===== *)
theory TgNode
  imports TgCfg
begin

text \<open>
  The packet nodes of the Terragraph configuration plugin (\<open>vpp_plugins/tgcfg/tgcfg/tgcfg_node.c\<close>, and
  the transmit function of the link interfaces in \<open>tgcfg_cli.c\<close>): packets of a radio are given to the
  interface of their link, packets for the node itself go to Linux over the slow path, and packets
  from Linux leave by the radio or the wired port they are meant for.

  A packet is the record \<open>tg_buf\<close>: the fields of the VPP buffer and of the DPDK mbuf that the code uses,
  with the bytes of the buffer as a function of the offset from its start, so that bytes behind the
  end of the packet can be read, as in the code. The record \<open>node_env\<close> holds what VPP decides: the next
  feature of a packet, the interface of a receive entry, resetting and copying of buffers (a copy may
  fail; the number is that of the packet in the frame), and the slow path of the radio driver. Each node
  has the two bodies of its pair loop and its single loop; they run under \<open>node_loop\<close>. Packet traces and
  prefetching are left out.
\<close>

section \<open>Packets\<close>

record tg_buf =
  link_id :: u16
  rx_if :: u32
  tx_if :: u32
  cur_data :: int
  cur_len :: u16
  rest_len :: u32
  buf_flags :: u32
  l2_hdr_offset :: int
  adj_index :: u32
  arc_index :: u8
  mbuf_len :: u16
  pdata :: "int \<Rightarrow> u8"

record node_env =
  feature_next :: "tg_buf \<Rightarrow> nat"
  receive_dpo :: "u32 \<Rightarrow> u32"
  dev_instance :: "u32 \<Rightarrow> u32"
  buffer_reset :: "tg_buf \<Rightarrow> tg_buf"
  buffer_copy :: "nat \<Rightarrow> tg_buf \<Rightarrow> tg_buf option"
  slowpath_tx :: "tg_buf list \<Rightarrow> int"
  slowpath_rx :: "nat \<Rightarrow> tg_buf list"

abbreviation VLIB_FRAME_SIZE :: nat where "VLIB_FRAME_SIZE \<equiv> 256"
abbreviation VLIB_BUFFER_TOTAL_LENGTH_VALID :: u32 where "VLIB_BUFFER_TOTAL_LENGTH_VALID \<equiv> 4"
abbreviation ETHERNET_TYPE_IP6 :: u16 where "ETHERNET_TYPE_IP6 \<equiv> 0x86DD"
abbreviation IP_PROTOCOL_ICMP6 :: u8 where "IP_PROTOCOL_ICMP6 \<equiv> 58"
abbreviation ICMP6_neighbor_solicitation :: u8 where "ICMP6_neighbor_solicitation \<equiv> 135"
abbreviation ICMP6_neighbor_advertisement :: u8 where "ICMP6_neighbor_advertisement \<equiv> 136"

definition net_u16 :: "(int \<Rightarrow> u8) \<Rightarrow> int \<Rightarrow> u16" where
  "net_u16 d i = ucast (d i) * 256 + ucast (d (i + 1))"

text \<open>The first eight bytes of an address, as the code compares them.\<close>

definition as_u64 :: "(int \<Rightarrow> u8) \<Rightarrow> int \<Rightarrow> u64" where
  "as_u64 d i = of_nat (le_val (map (\<lambda>k. d (i + k)) [0, 1, 2, 3, 4, 5, 6, 7]))"

section \<open>Link input\<close>

text \<open>The combined counters of the interfaces: packets and bytes.\<close>

type_synonym if_counters = "u32 \<Rightarrow> u64 \<times> u64"

definition vlib_increment_combined_counter :: "u32 \<Rightarrow> u32 \<Rightarrow> u32 \<Rightarrow> if_counters \<Rightarrow> if_counters" where
  "vlib_increment_combined_counter sw n b c = c(sw := (fst (c sw) + ucast n, snd (c sw) + ucast b))"

record link_input_state =
  packets_ok :: u32
  packets_dropped :: u32
  stats_sw_if_index :: u32
  stats_n_packets :: u32
  stats_n_bytes :: u32
  if_stats :: if_counters

datatype link_input_next = Next_ethernet_input | Next_error_drop

text \<open>Where a packet belongs: its next node, the interface of its link, the packet and the state.\<close>

definition link_input_lookup ::
  "tgcfg_link list \<Rightarrow> tg_buf \<Rightarrow> link_input_state \<Rightarrow> link_input_next \<times> u32 \<times> tg_buf \<times> link_input_state" where
  "link_input_lookup links b s =
     (if unat (link_id b) < length links then
        let tg = tg_sw_if_index (links ! unat (link_id b)) in
        if tg \<noteq> NO_IF then (Next_ethernet_input, tg, b\<lparr>rx_if := tg\<rparr>, s\<lparr>packets_ok := packets_ok s + 1\<rparr>)
        else (Next_error_drop, tg, b, s\<lparr>packets_dropped := packets_dropped s + 1\<rparr>)
      else (Next_error_drop, NO_IF, b, s\<lparr>packets_dropped := packets_dropped s + 1\<rparr>))"

definition count_now :: "u32 \<Rightarrow> u32 \<Rightarrow> u32 \<Rightarrow> link_input_state \<Rightarrow> link_input_state" where
  "count_now sw n b s = s\<lparr>if_stats := vlib_increment_combined_counter sw n b (if_stats s)\<rparr>"

definition switch_batch :: "u32 \<Rightarrow> link_input_state \<Rightarrow> link_input_state" where
  "switch_batch sw s =
     (let s = (if stats_n_packets s > 0
               then (count_now (stats_sw_if_index s) (stats_n_packets s) (stats_n_bytes s) s)\<lparr>stats_n_packets := 0, stats_n_bytes := 0\<rparr>
               else s)
      in s\<lparr>stats_sw_if_index := sw\<rparr>)"

definition link_input_one :: "tgcfg_link list \<Rightarrow> tg_buf \<Rightarrow> link_input_state \<Rightarrow> ((link_input_next \<times> tg_buf) \<times> link_input_state) option" where
  "link_input_one links b0 s =
     (let (next0, tg0, b0, s) = link_input_lookup links b0 s;
          s = (if tg0 \<noteq> NO_IF then
                 let len0 = ucast (cur_len b0);
                     s = s\<lparr>stats_n_packets := stats_n_packets s + 1, stats_n_bytes := stats_n_bytes s + len0\<rparr>
                 in if tg0 \<noteq> stats_sw_if_index s then
                      let s = s\<lparr>stats_n_packets := stats_n_packets s - 1, stats_n_bytes := stats_n_bytes s - len0\<rparr>
                      in switch_batch tg0 (count_now tg0 1 len0 s)
                    else s
               else s)
      in Some ((next0, b0), s))"

definition link_input_two ::
  "tgcfg_link list \<Rightarrow> tg_buf \<Rightarrow> tg_buf \<Rightarrow> link_input_state \<Rightarrow>
   ((link_input_next \<times> tg_buf) \<times> (link_input_next \<times> tg_buf) \<times> link_input_state) option" where
  "link_input_two links b0 b1 s =
     (let (next0, tg0, b0, s) = link_input_lookup links b0 s;
          (next1, tg1, b1, s) = link_input_lookup links b1 s;
          s = (if tg0 \<noteq> NO_IF \<or> tg1 \<noteq> NO_IF then
                 let len0 = ucast (cur_len b0); len1 = ucast (cur_len b1);
                     s = s\<lparr>stats_n_packets := stats_n_packets s + 2, stats_n_bytes := stats_n_bytes s + (len0 + len1)\<rparr>
                 in if tg0 \<noteq> stats_sw_if_index s \<or> tg1 \<noteq> stats_sw_if_index s then
                      let s = s\<lparr>stats_n_packets := stats_n_packets s - 2, stats_n_bytes := stats_n_bytes s - (len0 + len1)\<rparr>;
                          s = (if tg0 \<noteq> NO_IF then count_now tg0 1 len0 s else s);
                          s = (if tg1 \<noteq> NO_IF then count_now tg1 1 len1 s else s)
                      in if tg0 = tg1 then switch_batch tg0 s else s
                    else s
               else s)
      in Some ((next0, b0), (next1, b1), s))"

text \<open>The result: where the packets go, the interface counters, the cached interface, dropped and forwarded.\<close>

definition tg_link_input ::
  "(nat \<Rightarrow> bool) \<Rightarrow> u32 \<Rightarrow> if_counters \<Rightarrow> tg_buf list \<Rightarrow> 'v tgcfg_main \<Rightarrow>
   ((link_input_next \<times> tg_buf) list \<times> if_counters \<times> u32 \<times> u32 \<times> u32) option" where
  "tg_link_input room cached c bs tm = do {
     (out, s) \<leftarrow> node_loop (link_input_two (terra_links tm)) (link_input_one (terra_links tm)) room bs
       \<lparr>packets_ok = 0, packets_dropped = 0, stats_sw_if_index = cached, stats_n_packets = 0, stats_n_bytes = 0, if_stats = c\<rparr>;
     let (c, cached) = (if stats_n_packets s > 0
        then (vlib_increment_combined_counter (stats_sw_if_index s) (stats_n_packets s) (stats_n_bytes s) (if_stats s),
              stats_sw_if_index s)
        else (if_stats s, cached));
     Some (out, c, cached, packets_dropped s, packets_ok s) }"

section \<open>Slow path\<close>

text \<open>Whether the packet is the given neighbour discovery message, and its target address if it was read.\<close>

definition tg_packet_check_for_nd :: "tg_buf \<Rightarrow> u8 \<Rightarrow> bool \<times> u64 option" where
  "tg_packet_check_for_nd b ty =
     (let ip0 = cur_data b in
      if net_u16 (pdata b) (l2_hdr_offset b + 12) \<noteq> ETHERNET_TYPE_IP6 then (False, None)
      else if pdata b (ip0 + 6) = IP_PROTOCOL_ICMP6 \<and> net_u16 (pdata b) (ip0 + 4) > 4 \<and> cur_len b \<ge> 44
      then (pdata b (ip0 + 40) = ty, Some (as_u64 (pdata b) (ip0 + 48)))
      else (False, None))"

definition tg_packet_is_test_ula :: "u64 \<times> u64 \<Rightarrow> tg_buf \<Rightarrow> bool" where
  "tg_packet_is_test_ula ula b =
     (case tg_packet_check_for_nd b ICMP6_neighbor_solicitation of
        (True, Some ta) \<Rightarrow> ta = fst ula
      | _ \<Rightarrow> (case tg_packet_check_for_nd b ICMP6_neighbor_advertisement of
          (True, Some ta) \<Rightarrow> ta = fst ula
        | _ \<Rightarrow>
            if net_u16 (pdata b) (l2_hdr_offset b + 12) \<noteq> ETHERNET_TYPE_IP6 then False
            else as_u64 (pdata b) (cur_data b + 24) = fst ula))"

abbreviation TG_SLOWPATH_RECEIVE_NEXT_LOCAL_TX :: nat where "TG_SLOWPATH_RECEIVE_NEXT_LOCAL_TX \<equiv> 0"

definition slowpath_one :: "node_env \<Rightarrow> 'v tgcfg_main \<Rightarrow> tg_buf \<Rightarrow> unit \<Rightarrow> ((nat \<times> tg_buf) \<times> unit) option" where
  "slowpath_one ne tm b0 s = do {
     let next0 = feature_next ne b0;
     let rd_sw_if_index0 = receive_dpo ne (adj_index b0);
     special0 \<leftarrow> (if rd_sw_if_index0 = NO_IF then Some True
                 else do { l0 \<leftarrow> vec_elt (local_links tm) rd_sw_if_index0; Some (l0 \<noteq> NO_IF) });
     let next0 = (if special0 \<and> \<not> tg_packet_is_test_ula (ula_test_prefix tm) b0 then TG_SLOWPATH_RECEIVE_NEXT_LOCAL_TX else next0);
     Some ((next0, b0), s) }"

definition slowpath_two :: "node_env \<Rightarrow> 'v tgcfg_main \<Rightarrow> tg_buf \<Rightarrow> tg_buf \<Rightarrow> unit \<Rightarrow> ((nat \<times> tg_buf) \<times> (nat \<times> tg_buf) \<times> unit) option" where
  "slowpath_two ne tm b0 b1 s = do {
     let next0 = feature_next ne b0;
     let next1 = feature_next ne b1;
     let rd_sw_if_index0 = receive_dpo ne (adj_index b0);
     let rd_sw_if_index1 = receive_dpo ne (adj_index b1);
     special0 \<leftarrow> (if rd_sw_if_index0 = NO_IF then Some True
                 else do { l0 \<leftarrow> vec_elt (local_links tm) rd_sw_if_index0; Some (l0 \<noteq> NO_IF) });
     let next0 = (if special0 \<and> \<not> tg_packet_is_test_ula (ula_test_prefix tm) b0 then TG_SLOWPATH_RECEIVE_NEXT_LOCAL_TX else next0);
     special1 \<leftarrow> (if rd_sw_if_index1 = NO_IF then Some True
                 else do { l1 \<leftarrow> vec_elt (local_links tm) rd_sw_if_index1; Some (l1 \<noteq> NO_IF) });
     let next1 = (if special1 \<and> \<not> tg_packet_is_test_ula (ula_test_prefix tm) b1 then TG_SLOWPATH_RECEIVE_NEXT_LOCAL_TX else next1);
     Some ((next0, b0), (next1, b1), s) }"

definition tg_slowpath_receive :: "node_env \<Rightarrow> (nat \<Rightarrow> bool) \<Rightarrow> tg_buf list \<Rightarrow> 'v tgcfg_main \<Rightarrow> (nat \<times> tg_buf) list option" where
  "tg_slowpath_receive ne room bs tm = do {
     (out, s) \<leftarrow> node_loop (slowpath_two ne tm) (slowpath_one ne tm) room bs ();
     Some out }"

section \<open>Local packets of the radio\<close>

definition mark_link :: "node_env \<Rightarrow> tg_buf \<Rightarrow> tg_buf" where
  "mark_link ne b = b\<lparr>link_id := ucast (dev_instance ne (rx_if b))\<rparr>"

text \<open>
  The packets are handed to the radio driver; what it does not take is freed. The result is what was
  sent and what was freed, and the counts of dropped and forwarded packets.
\<close>

definition tg_link_local_tx :: "node_env \<Rightarrow> tg_buf list \<Rightarrow> (tg_buf list \<times> tg_buf list \<times> nat \<times> nat) option" where
  "tg_link_local_tx ne bs =
     (let bs = map (mark_link ne) bs;
          n_sent = slowpath_tx ne bs;
          packets_sent = (if n_sent < 0 then 0 else nat n_sent)
      in if length bs < packets_sent then None
         else Some (take packets_sent bs, drop packets_sent bs, length bs - packets_sent, packets_sent))"

definition local_rx_packet :: "tgcfg_wdev \<Rightarrow> 'v tgcfg_main \<Rightarrow> tg_buf \<Rightarrow> tg_buf option" where
  "local_rx_packet w tm b = do {
     li \<leftarrow> vec_elt (terra_links tm) (ucast (link_id b));
     Some (b\<lparr>cur_data := 0, cur_len := mbuf_len b, rest_len := 0, buf_flags := VLIB_BUFFER_TOTAL_LENGTH_VALID,
             link_id := ucast (tg_peer_id li), tx_if := wd_sw_if_index w, rx_if := wd_sw_if_index w\<rparr>) }"

fun local_rx_packets :: "tgcfg_wdev \<Rightarrow> 'v tgcfg_main \<Rightarrow> tg_buf list \<Rightarrow> tg_buf list option" where
  "local_rx_packets w tm [] = Some []"
| "local_rx_packets w tm (b # bs) = do {
     b \<leftarrow> local_rx_packet w tm b; bs \<leftarrow> local_rx_packets w tm bs; Some (b # bs) }"

definition tg_link_local_rx_dev :: "node_env \<Rightarrow> tgcfg_wdev \<Rightarrow> 'v tgcfg_main \<Rightarrow> tg_buf list option" where
  "tg_link_local_rx_dev ne w tm = local_rx_packets w tm (take VLIB_FRAME_SIZE (slowpath_rx ne (wd_dev w)))"

fun local_rx_devs :: "node_env \<Rightarrow> nat list \<Rightarrow> 'v tgcfg_main \<Rightarrow> (tg_buf list \<times> 'v tgcfg_main) option" where
  "local_rx_devs ne [] tm = Some ([], tm)"
| "local_rx_devs ne (i # is) tm =
     (if \<not> rx_ready (wigig_devs tm ! i) then local_rx_devs ne is tm
      else do {
        let tm = tm\<lparr>wigig_devs := (wigig_devs tm)[i := (wigig_devs tm ! i)\<lparr>rx_ready := False\<rparr>]\<rparr>;
        out \<leftarrow> tg_link_local_rx_dev ne (wigig_devs tm ! i) tm;
        (rest, tm) \<leftarrow> local_rx_devs ne is tm;
        Some (out @ rest, tm) })"

definition tg_link_local_rx :: "node_env \<Rightarrow> 'v tgcfg_main \<Rightarrow> (tg_buf list \<times> 'v tgcfg_main) option" where
  "tg_link_local_rx ne tm = local_rx_devs ne [0..<length (wigig_devs tm)] tm"

text \<open>The driver has packets for the device with this private number; the result tells if the node is scheduled.\<close>

definition tg_link_local_rx_fd_read_ready :: "nat \<Rightarrow> 'v tgcfg_main \<Rightarrow> bool \<times> 'v tgcfg_main" where
  "tg_link_local_rx_fd_read_ready i tm =
     (if i < length (wigig_devs tm)
      then (True, tm\<lparr>wigig_devs := (wigig_devs tm)[i := (wigig_devs tm ! i)\<lparr>rx_ready := True\<rparr>]\<rparr>)
      else (False, tm))"

section \<open>Transmission on a link interface\<close>

definition link_tx_packet :: "node_env \<Rightarrow> 'v tgcfg_main \<Rightarrow> tg_buf \<Rightarrow> tg_buf option" where
  "link_tx_packet ne tm b = do {
     li \<leftarrow> vec_elt (terra_links tm) (dev_instance ne (tx_if b));
     Some (b\<lparr>tx_if := bb_sw_if_index li, link_id := ucast (tg_peer_id li)\<rparr>) }"

fun tg_link_interface_tx :: "node_env \<Rightarrow> 'v tgcfg_main \<Rightarrow> tg_buf list \<Rightarrow> tg_buf list option" where
  "tg_link_interface_tx ne tm [] = Some []"
| "tg_link_interface_tx ne tm (b # bs) = do {
     b \<leftarrow> link_tx_packet ne tm b; bs \<leftarrow> tg_link_interface_tx ne tm bs; Some (b # bs) }"

section \<open>Local packets of the wired ports\<close>

datatype wired_next = Next_interface_output | Next_bypass | Next_drop

record wired_state =
  wired_ok :: nat
  wired_dropped :: nat
  na_buffer :: "tg_buf list"
  frame_pos :: nat

definition clone_na :: "node_env \<Rightarrow> bool \<Rightarrow> tg_buf \<Rightarrow> wired_state \<Rightarrow> wired_state" where
  "clone_na ne is_tx b s =
     (if is_tx \<and> fst (tg_packet_check_for_nd b ICMP6_neighbor_advertisement)
      then (case buffer_copy ne (frame_pos s) b of
              None \<Rightarrow> s
            | Some c \<Rightarrow> s\<lparr>na_buffer := na_buffer s @ [c\<lparr>arc_index := arc_index b\<rparr>]\<rparr>)
      else s)"

definition wired_lookup :: "node_env \<Rightarrow> tgcfg_wired list \<Rightarrow> bool \<Rightarrow> tg_buf \<Rightarrow> wired_state \<Rightarrow> (wired_next \<times> tg_buf) \<times> wired_state" where
  "wired_lookup ne links is_tx b s =
     (let s = s\<lparr>frame_pos := frame_pos s + 1\<rparr> in
      if unat (rx_if b) < length links then
        let li = links ! unat (rx_if b); dst = (if is_tx then tap_sw_if_index li else eth_sw_if_index li) in
        if dst \<noteq> NO_IF
        then ((Next_interface_output, (buffer_reset ne b)\<lparr>tx_if := dst\<rparr>), s\<lparr>wired_ok := wired_ok s + 1\<rparr>)
        else ((Next_drop, b), s\<lparr>wired_dropped := wired_dropped s + 1\<rparr>)
      else ((Next_drop, b), s\<lparr>wired_dropped := wired_dropped s + 1\<rparr>))"

definition wired_one :: "node_env \<Rightarrow> tgcfg_wired list \<Rightarrow> bool \<Rightarrow> tg_buf \<Rightarrow> wired_state \<Rightarrow> ((wired_next \<times> tg_buf) \<times> wired_state) option" where
  "wired_one ne links is_tx b0 s = Some (wired_lookup ne links is_tx b0 (clone_na ne is_tx b0 s))"

definition wired_two ::
  "node_env \<Rightarrow> tgcfg_wired list \<Rightarrow> bool \<Rightarrow> tg_buf \<Rightarrow> tg_buf \<Rightarrow> wired_state \<Rightarrow>
   ((wired_next \<times> tg_buf) \<times> (wired_next \<times> tg_buf) \<times> wired_state) option" where
  "wired_two ne links is_tx b0 b1 s =
     (let s = clone_na ne is_tx b0 s;
          pos = frame_pos s;
          s = (clone_na ne is_tx b1 (s\<lparr>frame_pos := pos + 1\<rparr>))\<lparr>frame_pos := pos\<rparr>;
          (o0, s) = wired_lookup ne links is_tx b0 s;
          (o1, s) = wired_lookup ne links is_tx b1 s
      in Some (o0, o1, s))"

definition tg_wired_handle_na :: "tg_buf list \<Rightarrow> (wired_next \<times> tg_buf) list" where
  "tg_wired_handle_na bs = map (\<lambda>b. (Next_bypass, b)) bs"

definition tg_wired_local_impl ::
  "node_env \<Rightarrow> bool \<Rightarrow> (nat \<Rightarrow> bool) \<Rightarrow> tg_buf list \<Rightarrow> 'v tgcfg_main \<Rightarrow> ((wired_next \<times> tg_buf) list \<times> nat \<times> nat) option" where
  "tg_wired_local_impl ne is_tx room bs tm = do {
     (out, s) \<leftarrow> node_loop (wired_two ne (wired_links tm) is_tx) (wired_one ne (wired_links tm) is_tx) room bs
       \<lparr>wired_ok = 0, wired_dropped = 0, na_buffer = [], frame_pos = 0\<rparr>;
     Some (out @ (if na_buffer s \<noteq> [] then tg_wired_handle_na (na_buffer s) else []), wired_dropped s, wired_ok s) }"

definition tg_wired_local_tx where "tg_wired_local_tx ne room bs tm = tg_wired_local_impl ne True room bs tm"

definition tg_wired_local_rx where "tg_wired_local_rx ne room bs tm = tg_wired_local_impl ne False room bs tm"

section \<open>Link input is exact\<close>

text \<open>The interface of a packet's link, if the link is there, and what becomes of the packet.\<close>

definition link_if :: "tgcfg_link list \<Rightarrow> tg_buf \<Rightarrow> u32 option" where
  "link_if links b =
     (if unat (link_id b) < length links \<and> tg_sw_if_index (links ! unat (link_id b)) \<noteq> NO_IF
      then Some (tg_sw_if_index (links ! unat (link_id b))) else None)"

definition deliver :: "tgcfg_link list \<Rightarrow> tg_buf \<Rightarrow> link_input_next \<times> tg_buf" where
  "deliver links b = (case link_if links b of
     None \<Rightarrow> (Next_error_drop, b) | Some tg \<Rightarrow> (Next_ethernet_input, b\<lparr>rx_if := tg\<rparr>))"

text \<open>The reference: every packet is counted at once. The counters hold the batch that is still open.\<close>

type_synonym input_totals = "u32 \<times> u32 \<times> if_counters"

definition count_packet :: "tgcfg_link list \<Rightarrow> tg_buf \<Rightarrow> input_totals \<Rightarrow> input_totals" where
  "count_packet links b a = (case a of (ok, dropped, c) \<Rightarrow> (case link_if links b of
     None \<Rightarrow> (ok, dropped + 1, c)
   | Some tg \<Rightarrow> (ok + 1, dropped, vlib_increment_combined_counter tg 1 (ucast (cur_len b)) c)))"

definition input_abs :: "link_input_state \<Rightarrow> input_totals" where
  "input_abs s = (packets_ok s, packets_dropped s,
     vlib_increment_combined_counter (stats_sw_if_index s) (stats_n_packets s) (stats_n_bytes s) (if_stats s))"

definition input_inv :: "nat \<Rightarrow> link_input_state \<Rightarrow> bool" where
  "input_inv k s \<longleftrightarrow> unat (stats_n_packets s) \<le> k \<and> unat (stats_n_bytes s) \<le> 65535 * k \<and>
     (stats_n_packets s = 0 \<longrightarrow> stats_n_bytes s = 0)"

lemma lookup_link_if:
  "link_input_lookup links b s = (case link_if links b of
     None \<Rightarrow> (Next_error_drop, NO_IF, b, s\<lparr>packets_dropped := packets_dropped s + 1\<rparr>)
   | Some tg \<Rightarrow> (Next_ethernet_input, tg, b\<lparr>rx_if := tg\<rparr>, s\<lparr>packets_ok := packets_ok s + 1\<rparr>))"
  by (auto simp: link_input_lookup_def link_if_def Let_def)

lemma link_if_valid: "link_if links b = Some tg \<Longrightarrow> tg \<noteq> NO_IF"
  by (auto simp: link_if_def split: if_splits)

lemma inc_zero [simp]: "vlib_increment_combined_counter sw 0 0 c = c"
  by (simp add: vlib_increment_combined_counter_def)

lemma inc_comm:
  "vlib_increment_combined_counter x n b (vlib_increment_combined_counter y m d c) =
   vlib_increment_combined_counter y m d (vlib_increment_combined_counter x n b c)"
  by (auto simp: vlib_increment_combined_counter_def fun_eq_iff)

text \<open>Counters add up as long as the 32-bit sums of the batch do not wrap.\<close>

lemma ucast_add_u32:
  assumes "unat (x :: u32) + unat y < 2 ^ 32"
  shows "(ucast (x + y) :: u64) = ucast x + ucast y"
proof -
  have "unat (ucast (x + y) :: u64) = unat x + unat y"
    using assms by (simp add: unat_plus_if_size word_size unsigned_ucast_eq take_bit_nat_eq_self)
  moreover have "unat (ucast x + ucast y :: u64) = unat x + unat y"
    using assms unsigned_less [of x, where ?'a = nat] unsigned_less [of y, where ?'a = nat]
    by (simp add: unat_plus_if_size word_size unsigned_ucast_eq take_bit_nat_eq_self)
  ultimately show ?thesis by (simp add: word_unat_eq_iff)
qed

lemma inc_add:
  assumes "unat n + unat m < 2 ^ 32" and "unat b + unat d < 2 ^ 32"
  shows "vlib_increment_combined_counter sw n b (vlib_increment_combined_counter sw m d c) =
         vlib_increment_combined_counter sw (m + n) (d + b) c"
  using assms by (simp add: vlib_increment_combined_counter_def ucast_add_u32 add.commute add.left_commute fun_eq_iff)

lemma cur_len_bound: "unat (ucast (cur_len b) :: u32) \<le> 65535"
  using unsigned_less [of "cur_len b", where ?'a = nat]
  by (simp add: unsigned_ucast_eq take_bit_nat_eq_self)

lemma switch_batch_inv: "input_inv k s \<Longrightarrow> input_inv k (switch_batch sw s)"
  by (auto simp: input_inv_def switch_batch_def count_now_def Let_def)

lemma switch_batch_abs: "input_inv k s \<Longrightarrow> input_abs (switch_batch sw s) = input_abs s"
  by (auto simp: input_inv_def switch_batch_def count_now_def input_abs_def Let_def word_gt_0)

lemma count_now_abs:
  "input_abs (count_now sw n b s) = (fst (input_abs s), fst (snd (input_abs s)),
     vlib_increment_combined_counter sw n b (snd (snd (input_abs s))))"
  by (simp add: input_abs_def count_now_def inc_comm)

lemma count_now_inv: "input_inv k (count_now sw n b s) = input_inv k s"
  by (simp add: input_inv_def count_now_def)

text \<open>Adding packets to the open batch.\<close>

lemma batch_more:
  assumes "input_inv k s" and "unat n \<le> 2" and "unat b \<le> 65535 * unat n" and "k + unat n \<le> VLIB_FRAME_SIZE"
    and "s' = s\<lparr>stats_n_packets := stats_n_packets s + n, stats_n_bytes := stats_n_bytes s + b\<rparr>" and "n \<noteq> 0"
  shows "input_inv (k + unat n) s'"
    and "input_abs s' = (packets_ok s, packets_dropped s,
           vlib_increment_combined_counter (stats_sw_if_index s) n b (snd (snd (input_abs s))))"
proof -
  have p: "unat (stats_n_packets s) \<le> k" "unat (stats_n_bytes s) \<le> 65535 * k" using assms(1) by (auto simp: input_inv_def)
  have np: "unat (stats_n_packets s) + unat n < 2 ^ 32" "unat (stats_n_bytes s) + unat b < 2 ^ 32"
    using p assms(2-4) by auto
  then have un: "unat (stats_n_packets s + n) = unat (stats_n_packets s) + unat n"
    "unat (stats_n_bytes s + b) = unat (stats_n_bytes s) + unat b"
    by (auto simp: unat_plus_if_size word_size)
  have "stats_n_packets s + n \<noteq> 0"
  proof
    assume "stats_n_packets s + n = 0"
    then have "unat n = 0" using un(1) by simp
    with assms(6) show False by (simp add: unat_eq_zero)
  qed
  then show "input_inv (k + unat n) s'" using p assms(3) un by (simp add: input_inv_def assms(5))
  show "input_abs s' = (packets_ok s, packets_dropped s,
           vlib_increment_combined_counter (stats_sw_if_index s) n b (snd (snd (input_abs s))))"
    using inc_add [of n "stats_n_packets s" b "stats_n_bytes s"] np by (simp add: input_abs_def assms(5) add.commute)
qed

lemma inv_mono: "input_inv k s \<Longrightarrow> k \<le> m \<Longrightarrow> input_inv m s"
  by (auto simp: input_inv_def)

lemma input_fields [simp]:
  "input_inv k (s\<lparr>packets_ok := x\<rparr>) = input_inv k s" "input_inv k (s\<lparr>packets_dropped := x\<rparr>) = input_inv k s"
  "input_abs (s\<lparr>packets_ok := x\<rparr>) = (x, snd (input_abs s))"
  "input_abs (s\<lparr>packets_dropped := x\<rparr>) = (fst (input_abs s), x, snd (snd (input_abs s)))"
  "fst (input_abs s) = packets_ok s" "fst (snd (input_abs s)) = packets_dropped s"
  by (simp_all add: input_inv_def input_abs_def)

lemma batch_fields [simp]:
  "s\<lparr>stats_n_packets := stats_n_packets s, stats_n_bytes := stats_n_bytes s\<rparr> = (s :: link_input_state)"
  by simp

text \<open>Counting a packet outside the batch and making its interface the new batch, and adding it to the batch.\<close>

lemma count_outside:
  assumes "input_inv k s"
  shows "input_inv k (count_now tg 1 b s)"
    and "input_inv k (switch_batch sw (count_now tg 1 b s))"
    and "input_abs (switch_batch sw (count_now tg 1 b s)) = input_abs (count_now tg 1 b s)"
  using assms switch_batch_inv [of k "count_now tg 1 b s" sw] switch_batch_abs [of k "count_now tg 1 b s" sw]
  by (auto simp: count_now_inv)

lemma count_packet_eq:
  "count_packet links b a = (case link_if links b of
     None \<Rightarrow> (fst a, fst (snd a) + 1, snd (snd a))
   | Some tg \<Rightarrow> (fst a + 1, fst (snd a), vlib_increment_combined_counter tg 1 (ucast (cur_len b)) (snd (snd a))))"
  by (cases a) (simp add: count_packet_def split: option.split)

lemma link_input_one_refines:
  assumes "input_inv k s" and "k < VLIB_FRAME_SIZE"
  shows "\<exists>o0 s'. link_input_one links b s = Some (o0, s') \<and> input_inv (Suc k) s' \<and>
           (deliver links b, count_packet links b (input_abs s)) = (o0, input_abs s')"
proof (cases "link_if links b")
  case None
  with inv_mono [OF assms(1), of "Suc k"] show ?thesis
    by (simp add: link_input_one_def lookup_link_if deliver_def count_packet_eq)
next
  case (Some tg)
  let ?l = "ucast (cur_len b) :: u32" and ?s = "s\<lparr>packets_ok := packets_ok s + 1\<rparr>"
  have inv: "input_inv k ?s" using assms(1) by simp
  show ?thesis
  proof (cases "tg = stats_sw_if_index s")
    case True
    note m = batch_more [OF inv, of 1 ?l _, OF _ _ _ refl] 
    have "unat (1 :: u32) = 1" by simp
    then show ?thesis using m cur_len_bound [of b] assms(2) Some True link_if_valid [OF Some]
      by (auto simp: link_input_one_def lookup_link_if deliver_def count_packet_eq Let_def)
  next
    case False
    from count_outside(2,3) [OF inv, where sw = tg and tg = tg and b = ?l] inv_mono [of k _ "Suc k"] False Some link_if_valid [OF Some]
    show ?thesis
      by (auto simp: link_input_one_def lookup_link_if deliver_def count_packet_eq Let_def count_now_abs)
  qed
qed

lemma link_input_two_refines:
  assumes "input_inv k s" and "Suc k < VLIB_FRAME_SIZE"
  shows "\<exists>o0 o1 a s'. link_input_two links b0 b1 s = Some (o0, o1, s') \<and> input_inv (Suc (Suc k)) s' \<and>
           (deliver links b0, count_packet links b0 (input_abs s)) = (o0, a) \<and>
           (deliver links b1, count_packet links b1 a) = (o1, input_abs s')"
proof -
  let ?l0 = "ucast (cur_len b0) :: u32" and ?l1 = "ucast (cur_len b1) :: u32"
  let ?tg = "\<lambda>b. case link_if links b of None \<Rightarrow> NO_IF | Some tg \<Rightarrow> tg"
  have valid: "link_if links b0 \<noteq> Some NO_IF" "link_if links b1 \<noteq> Some NO_IF" using link_if_valid by blast+
  have l: "unat (?l0 + ?l1) = unat ?l0 + unat ?l1" "unat ?l0 + unat ?l1 \<le> 65535 * 2"
    using cur_len_bound [of b0] cur_len_bound [of b1] by (auto simp: unat_plus_if_size word_size)
  have two: "unat (2 :: u32) = 2" by simp
  let ?s = "snd (snd (snd (link_input_lookup links b1 (snd (snd (snd (link_input_lookup links b0 s)))))))"
  have inv: "input_inv k ?s" using assms(1) by (simp add: lookup_link_if split: option.split)
  have sw: "stats_sw_if_index ?s = stats_sw_if_index s" by (simp add: lookup_link_if split: option.split)
  show ?thesis
  proof (cases "?tg b0 = stats_sw_if_index s \<and> ?tg b1 = stats_sw_if_index s \<and> stats_sw_if_index s \<noteq> NO_IF")
    case True
    then have t: "link_if links b0 = Some (stats_sw_if_index s)" "link_if links b1 = Some (stats_sw_if_index s)"
      by (auto split: option.splits)
    note m = batch_more [OF inv, of 2 "?l0 + ?l1" _, OF _ _ _ refl]
    have "vlib_increment_combined_counter (stats_sw_if_index s) 1 ?l1
            (vlib_increment_combined_counter (stats_sw_if_index s) 1 ?l0 c) =
          vlib_increment_combined_counter (stats_sw_if_index s) 2 (?l0 + ?l1) c" for c
      using inc_add [of 1 1 ?l1 ?l0] l by simp
    with m l two assms(2) t True show ?thesis
      by (auto simp: link_input_two_def lookup_link_if deliver_def count_packet_eq Let_def add.commute)
  next
    case False
    note c0 = count_outside(1) [OF inv, where tg = "?tg b0" and b = ?l0] and c1 = count_outside(1) [OF inv, where tg = "?tg b1" and b = ?l1]
    have up: "input_inv k s' \<Longrightarrow> input_inv (Suc (Suc k)) s'" for s' by (rule inv_mono) auto
    show ?thesis
      using False valid inv c0 c1 count_outside(1) [OF c0, where tg = "?tg b1" and b = ?l1]
        count_outside(2,3) [OF c0, where tg = "?tg b1" and b = ?l1 and sw = "?tg b0"] up sw
      by (cases "link_if links b0"; cases "link_if links b1")
        (auto simp: link_input_two_def lookup_link_if deliver_def count_packet_eq Let_def count_now_abs)
  qed
qed

interpretation li: vpp_node "link_input_two links" "link_input_one links" "\<lambda>_. True" input_inv VLIB_FRAME_SIZE input_abs
    "\<lambda>b a. (deliver links b, count_packet links b a)"
  by unfold_locales (use link_input_one_refines link_input_two_refines in blast)+

definition packets_of :: "tgcfg_link list \<Rightarrow> u32 \<Rightarrow> tg_buf list \<Rightarrow> tg_buf list" where
  "packets_of links sw bs = filter (\<lambda>b. link_if links b = Some sw) bs"

lemma count_packets:
  "fold (count_packet links) bs (ok, dropped, c) =
     (ok + of_nat (length (filter (\<lambda>b. link_if links b \<noteq> None) bs)),
      dropped + of_nat (length (filter (\<lambda>b. link_if links b = None) bs)),
      \<lambda>sw. (fst (c sw) + of_nat (length (packets_of links sw bs)),
            snd (c sw) + of_nat (sum_list (map (\<lambda>b. unat (cur_len b)) (packets_of links sw bs)))))"
proof (induction bs arbitrary: ok dropped c)
  case (Cons b bs)
  have "(ucast (ucast (cur_len b) :: u32) :: u64) = ucast (cur_len b)"
    by (rule bit_word_eqI) (auto simp: bit_unsigned_iff dest: bit_imp_le_length)
  then show ?case
    by (cases "link_if links b")
      (auto simp: Cons.IH count_packet_eq [of links b] vlib_increment_combined_counter_def packets_of_def fun_eq_iff add.assoc)
qed (simp add: packets_of_def)

text \<open>
  C10. The input node gives every packet of a frame to the interface of its link, and drops those whose
  link is not there, in order and whatever the sizes of the next frames. Although it collects the
  counters of an interface over several packets, every interface is credited with exactly its packets
  and bytes, and every packet is counted as forwarded or dropped.
\<close>

theorem link_input_exact:
  assumes "length bs \<le> VLIB_FRAME_SIZE"
  shows "\<exists>c' cached'. tg_link_input room cached c bs tm =
     Some (map (deliver (terra_links tm)) bs, c', cached',
           of_nat (length (filter (\<lambda>b. link_if (terra_links tm) b = None) bs)),
           of_nat (length (filter (\<lambda>b. link_if (terra_links tm) b \<noteq> None) bs))) \<and>
     (\<forall>sw. c' sw = (fst (c sw) + of_nat (length (packets_of (terra_links tm) sw bs)),
                    snd (c sw) + of_nat (sum_list (map (\<lambda>b. unat (cur_len b)) (packets_of (terra_links tm) sw bs)))))"
proof -
  let ?l = "terra_links tm"
  let ?s = "\<lparr>packets_ok = 0, packets_dropped = 0, stats_sw_if_index = cached, stats_n_packets = 0, stats_n_bytes = 0, if_stats = c\<rparr>"
  have "input_inv 0 ?s" by (simp add: input_inv_def)
  from li.loop_refines [OF _ this, of bs ?l room] assms obtain out s'
    where r: "node_loop (link_input_two ?l) (link_input_one ?l) room bs ?s = Some (out, s')" "input_inv (length bs) s'"
      "(map (deliver ?l) bs, fold (count_packet ?l) bs (0, 0, c)) = (out, input_abs s')"
    by (auto simp: each_map input_abs_def)
  let ?c = "if stats_n_packets s' > 0
      then vlib_increment_combined_counter (stats_sw_if_index s') (stats_n_packets s') (stats_n_bytes s') (if_stats s')
      else if_stats s'"
  have "input_abs s' = (packets_ok s', packets_dropped s', ?c)" using r(2) by (auto simp: input_abs_def input_inv_def word_gt_0)
  with r(3) have e: "fold (count_packet ?l) bs (0, 0, c) = (packets_ok s', packets_dropped s', ?c)" "out = map (deliver ?l) bs"
    by auto
  have t: "tg_link_input room cached c bs tm = Some (out, ?c, if stats_n_packets s' > 0 then stats_sw_if_index s' else cached,
      packets_dropped s', packets_ok s')" using r(1) by (simp add: tg_link_input_def)
  show ?thesis
    by (rule exI [of _ ?c], rule exI [of _ "if stats_n_packets s' > 0 then stats_sw_if_index s' else cached"])
      (use t e in \<open>simp only: count_packets, simp add: fun_eq_iff\<close>)
qed

section \<open>The slow path\<close>

text \<open>
  The addresses by which a packet is judged, as bytes of the packet. An IPv6 frame has type 86DD; a neighbour
  solicitation or advertisement is recognised by its protocol, its ICMP type, a payload of more than four bytes and
  44 bytes in the buffer. Its target address begins 48 bytes behind the IPv6 header, the destination of any other
  packet 24 bytes; the first eight bytes of it are compared with the prefix.
\<close>

definition pkt_bytes :: "tg_buf \<Rightarrow> int \<Rightarrow> nat \<Rightarrow> u8 list" where
  "pkt_bytes b i n = map (\<lambda>k. pdata b (i + int k)) [0..<n]"

definition ip6_frame :: "tg_buf \<Rightarrow> bool" where
  "ip6_frame b \<longleftrightarrow> pkt_bytes b (l2_hdr_offset b + 12) 2 = [0x86, 0xDD]"

definition nd_message :: "tg_buf \<Rightarrow> bool" where
  "nd_message b \<longleftrightarrow> pdata b (cur_data b + 6) = 58 \<and> pdata b (cur_data b + 40) \<in> {135, 136} \<and>
     4 < 256 * unat (pdata b (cur_data b + 4)) + unat (pdata b (cur_data b + 5)) \<and> 44 \<le> unat (cur_len b)"

definition test_address :: "u8 list \<Rightarrow> tg_buf \<Rightarrow> bool" where
  "test_address prefix b \<longleftrightarrow> ip6_frame b \<and> pkt_bytes b (cur_data b + (if nd_message b then 48 else 24)) 8 = prefix"

text \<open>A packet for the node itself: received by a special interface or by no interface in particular.\<close>

definition for_linux :: "node_env \<Rightarrow> 'v tgcfg_main \<Rightarrow> tg_buf \<Rightarrow> bool" where
  "for_linux ne tm b \<longleftrightarrow>
     (receive_dpo ne (adj_index b) = NO_IF \<or> local_links tm ! unat (receive_dpo ne (adj_index b)) \<noteq> NO_IF) \<and>
     \<not> test_address (le_bytes 8 (unat (fst (ula_test_prefix tm)))) b"

definition slow_in_range :: "node_env \<Rightarrow> 'v tgcfg_main \<Rightarrow> tg_buf \<Rightarrow> bool" where
  "slow_in_range ne tm b \<longleftrightarrow>
     receive_dpo ne (adj_index b) = NO_IF \<or> unat (receive_dpo ne (adj_index b)) < length (local_links tm)"

lemma unat_u8_less: "unat (x :: u8) < 256"
  using unsigned_less [of x, where ?'a = nat] by simp

lemma unat_net_u16: "unat (net_u16 d i) = 256 * unat (d i) + unat (d (i + 1))"
proof -
  let ?n = "256 * unat (d i) + unat (d (i + 1))"
  have "?n < 2 ^ 16" using unat_u8_less [of "d i"] unat_u8_less [of "d (i + 1)"] by simp
  then have "unat (of_nat ?n :: u16) = ?n" by (simp only: unat_of_nat take_bit_nat_eq_self) simp
  moreover have "net_u16 d i = of_nat ?n" by (simp add: net_u16_def mult.commute)
  ultimately show ?thesis by metis
qed

lemma ip6_frame_eq: "net_u16 (pdata b) (l2_hdr_offset b + 12) = 0x86DD \<longleftrightarrow> ip6_frame b"
proof -
  let ?x = "pdata b (l2_hdr_offset b + 12)" and ?y = "pdata b (l2_hdr_offset b + 13)"
  have y: "l2_hdr_offset b + 12 + 1 = l2_hdr_offset b + 13" by simp
  have "256 * unat ?x + unat ?y = 256 * 0x86 + 0xDD \<longleftrightarrow> unat ?x = 0x86 \<and> unat ?y = 0xDD"
    using unat_u8_less [of ?x] unat_u8_less [of ?y] by presburger
  moreover have "net_u16 (pdata b) (l2_hdr_offset b + 12) = 0x86DD \<longleftrightarrow> 256 * unat ?x + unat ?y = 256 * 0x86 + 0xDD"
    using unat_net_u16 [of "pdata b" "l2_hdr_offset b + 12"] by (simp only: word_unat_eq_iff y) simp
  moreover have "ip6_frame b \<longleftrightarrow> ?x = 0x86 \<and> ?y = 0xDD"
    by (simp add: ip6_frame_def pkt_bytes_def numeral_2_eq_2 ac_simps)
  ultimately show ?thesis by (simp add: word_unat_eq_iff)
qed

lemma as_u64_eq: "as_u64 (pdata b) i = w \<longleftrightarrow> pkt_bytes b i 8 = le_bytes 8 (unat w)"
proof -
  have l: "map (\<lambda>k. pdata b (i + k)) [0, 1, 2, 3, 4, 5, 6, 7] = pkt_bytes b i 8"
    by (simp add: pkt_bytes_def upt_rec)
  have len: "length (pkt_bytes b i 8) = 8" by (simp add: pkt_bytes_def)
  then have "le_val (pkt_bytes b i 8) < 2 ^ 64" using le_val_bound [of "pkt_bytes b i 8"] by simp
  then have "as_u64 (pdata b) i = w \<longleftrightarrow> le_val (pkt_bytes b i 8) = unat w"
    unfolding as_u64_def l by (auto simp: unsigned_of_nat take_bit_nat_eq_self)
  moreover have "le_val (le_bytes 8 (unat w)) = unat w"
    using unsigned_less [of w, where ?'a = nat] by (simp add: le_val_le_bytes)
  ultimately show ?thesis using len le_bytes_le_val [of "pkt_bytes b i 8"] by metis
qed

lemma check_for_nd_eq:
  "tg_packet_check_for_nd b ty =
     (let long = (ip6_frame b \<and> pdata b (cur_data b + 6) = 58 \<and>
            4 < 256 * unat (pdata b (cur_data b + 4)) + unat (pdata b (cur_data b + 5)) \<and> 44 \<le> unat (cur_len b)) in
      if long then (pdata b (cur_data b + 40) = ty, Some (as_u64 (pdata b) (cur_data b + 48))) else (False, None))"
proof -
  have c: "cur_data b + 4 + 1 = cur_data b + 5" by simp
  have "net_u16 (pdata b) (cur_data b + 4) > 4 \<longleftrightarrow> 4 < 256 * unat (pdata b (cur_data b + 4)) + unat (pdata b (cur_data b + 5))"
    using unat_net_u16 [of "pdata b" "cur_data b + 4"] by (simp only: word_less_nat_alt c) simp
  moreover have "cur_len b \<ge> 44 \<longleftrightarrow> 44 \<le> unat (cur_len b)" by (simp add: word_le_nat_alt)
  ultimately show ?thesis by (simp add: tg_packet_check_for_nd_def Let_def ip6_frame_eq)
qed

lemma is_test_ula_eq: "tg_packet_is_test_ula ula b \<longleftrightarrow> test_address (le_bytes 8 (unat (fst ula))) b"
  by (auto simp: tg_packet_is_test_ula_def check_for_nd_eq test_address_def nd_message_def ip6_frame_eq as_u64_eq Let_def)

lemma slowpath_one_eq:
  "slow_in_range ne tm b \<Longrightarrow>
   slowpath_one ne tm b s = Some ((if for_linux ne tm b then TG_SLOWPATH_RECEIVE_NEXT_LOCAL_TX else feature_next ne b, b), s)"
  by (auto simp: slow_in_range_def slowpath_one_def for_linux_def is_test_ula_eq vec_elt_def Let_def)

lemma slowpath_two_eq:
  "slow_in_range ne tm b0 \<Longrightarrow> slow_in_range ne tm b1 \<Longrightarrow>
   slowpath_two ne tm b0 b1 s =
     Some ((if for_linux ne tm b0 then TG_SLOWPATH_RECEIVE_NEXT_LOCAL_TX else feature_next ne b0, b0),
           (if for_linux ne tm b1 then TG_SLOWPATH_RECEIVE_NEXT_LOCAL_TX else feature_next ne b1, b1), s)"
  by (auto simp: slow_in_range_def slowpath_two_def for_linux_def is_test_ula_eq vec_elt_def Let_def)

interpretation slow: vpp_node "slowpath_two ne tm" "slowpath_one ne tm" "slow_in_range ne tm" "\<lambda>_ _. True" n "\<lambda>s. s"
    "\<lambda>b s. ((if for_linux ne tm b then TG_SLOWPATH_RECEIVE_NEXT_LOCAL_TX else feature_next ne b, b), s)"
  by unfold_locales (simp_all add: slowpath_one_eq slowpath_two_eq)

text \<open>
  C30. For packets whose receive entry names an interface of the table of local interfaces, or none (VPP gives it;
  the code indexes the table without a check): the slow path sends a packet to Linux exactly when its receive entry
  belongs to an interface whose local traffic is intercepted, or to none, as with multicast, and the packet is not
  for a test address. That is decided by the bytes of the packet: of an IPv6 frame, the first eight bytes of the
  target of a neighbour solicitation or advertisement, or else of the destination, equal the stored prefix. The code
  recognises such a message from 44 bytes on, so that the bytes of the target may lie behind the end of a short one,
  and without a configured prefix the stored one is zero. Every other packet continues with the next feature. All packets
  stay in order and unchanged.
\<close>

theorem slowpath_decides:
  assumes "\<forall>b \<in> set bs. slow_in_range ne tm b"
  shows "tg_slowpath_receive ne room bs tm =
     Some (map (\<lambda>b. (if for_linux ne tm b then TG_SLOWPATH_RECEIVE_NEXT_LOCAL_TX else feature_next ne b, b)) bs)"
  using slow.loop_refines [OF assms, where k = 0 and s = "()" and n = "length bs" and room = room]
  by (auto simp: tg_slowpath_receive_def each_map)

section \<open>Wired ports\<close>

definition wired_out :: "node_env \<Rightarrow> tgcfg_wired list \<Rightarrow> bool \<Rightarrow> tg_buf \<Rightarrow> wired_next \<times> tg_buf" where
  "wired_out ne links is_tx b =
     (if unat (rx_if b) < length links
      then let li = links ! unat (rx_if b); dst = (if is_tx then tap_sw_if_index li else eth_sw_if_index li) in
           if dst \<noteq> NO_IF then (Next_interface_output, (buffer_reset ne b)\<lparr>tx_if := dst\<rparr>) else (Next_drop, b)
      else (Next_drop, b))"

definition wired_count :: "node_env \<Rightarrow> tgcfg_wired list \<Rightarrow> bool \<Rightarrow> tg_buf \<Rightarrow> wired_state \<Rightarrow> wired_state" where
  "wired_count ne links is_tx b s =
     (let s = clone_na ne is_tx b s; s = s\<lparr>frame_pos := frame_pos s + 1\<rparr> in
      if fst (wired_out ne links is_tx b) = Next_drop then s\<lparr>wired_dropped := wired_dropped s + 1\<rparr>
      else s\<lparr>wired_ok := wired_ok s + 1\<rparr>)"

lemma wired_lookup_eq:
  "wired_lookup ne links is_tx b (clone_na ne is_tx b s) = (wired_out ne links is_tx b, wired_count ne links is_tx b s)"
  by (simp add: wired_lookup_def wired_out_def wired_count_def Let_def)

lemma clone_na_fields [simp]:
  "frame_pos (clone_na ne is_tx b s) = frame_pos s" "wired_ok (clone_na ne is_tx b s) = wired_ok s"
  "wired_dropped (clone_na ne is_tx b s) = wired_dropped s"
  by (auto simp: clone_na_def split: option.split)

lemma clone_na_length: "length (na_buffer (clone_na ne is_tx b s)) \<le> Suc (length (na_buffer s))"
  by (auto simp: clone_na_def split: option.split)

text \<open>Copying the advertisements of a pair first, or each packet in turn, makes no difference.\<close>

lemma wired_two_eq:
  "wired_two ne links is_tx b0 b1 s =
     Some (wired_out ne links is_tx b0, wired_out ne links is_tx b1,
           wired_count ne links is_tx b1 (wired_count ne links is_tx b0 s))"
  by (auto simp: wired_two_def wired_lookup_def wired_out_def wired_count_def clone_na_def Let_def split: option.split)

lemma wired_count_na:
  "length (na_buffer (wired_count ne links is_tx b s)) \<le> Suc (length (na_buffer s))"
  using clone_na_length [of ne is_tx b s] by (simp add: wired_count_def Let_def)

interpretation wired: vpp_node "wired_two ne links is_tx" "wired_one ne links is_tx" "\<lambda>_. True"
    "\<lambda>k s. length (na_buffer s) \<le> k" n "\<lambda>s. s" "\<lambda>b s. (wired_out ne links is_tx b, wired_count ne links is_tx b s)"
proof
  fix b k and s :: wired_state
  assume "length (na_buffer s) \<le> k"
  then show "\<exists>o0 s'. wired_one ne links is_tx b s = Some (o0, s') \<and> length (na_buffer s') \<le> Suc k \<and>
      (wired_out ne links is_tx b, wired_count ne links is_tx b s) = (o0, s')"
    using wired_count_na [of ne links is_tx b s] by (simp add: wired_one_def wired_lookup_eq)
next
  fix b0 b1 k and s :: wired_state
  assume "length (na_buffer s) \<le> k"
  then show "\<exists>o0 o1 a s'. wired_two ne links is_tx b0 b1 s = Some (o0, o1, s') \<and> length (na_buffer s') \<le> Suc (Suc k) \<and>
      (wired_out ne links is_tx b0, wired_count ne links is_tx b0 s) = (o0, a) \<and>
      (wired_out ne links is_tx b1, wired_count ne links is_tx b1 a) = (o1, s')"
    using wired_count_na [of ne links is_tx b0 s] wired_count_na [of ne links is_tx b1 "wired_count ne links is_tx b0 s"]
    by (simp add: wired_two_eq)
qed

text \<open>The copies of the neighbour advertisements among the packets from position \<open>k\<close> on.\<close>

fun na_clones :: "node_env \<Rightarrow> bool \<Rightarrow> nat \<Rightarrow> tg_buf list \<Rightarrow> tg_buf list" where
  "na_clones ne is_tx k [] = []"
| "na_clones ne is_tx k (b # bs) =
     (if is_tx \<and> fst (tg_packet_check_for_nd b ICMP6_neighbor_advertisement)
      then (case buffer_copy ne k b of None \<Rightarrow> [] | Some c \<Rightarrow> [c\<lparr>arc_index := arc_index b\<rparr>]) else []) @
     na_clones ne is_tx (Suc k) bs"

lemma wired_counts:
  "fold (wired_count ne links is_tx) bs s =
     s\<lparr>wired_ok := wired_ok s + length (filter (\<lambda>b. fst (wired_out ne links is_tx b) \<noteq> Next_drop) bs),
       wired_dropped := wired_dropped s + length (filter (\<lambda>b. fst (wired_out ne links is_tx b) = Next_drop) bs),
       na_buffer := na_buffer s @ na_clones ne is_tx (frame_pos s) bs, frame_pos := frame_pos s + length bs\<rparr>"
  by (induction bs arbitrary: s) (auto simp: wired_count_def clone_na_def Let_def split: option.split)

text \<open>
  C31. The node between a wired port and its tap device sends every packet to the other end, or drops it
  if the interface is not mapped, in order. In the direction of Linux every neighbour advertisement is
  also copied, and the copies go on to VPP, unless the copy failed. The array of copies does not
  overflow, and the counters are exact.
\<close>

theorem wired_local_exact:
  assumes "length bs \<le> VLIB_FRAME_SIZE"
  shows "tg_wired_local_impl ne is_tx room bs tm =
     Some (map (wired_out ne (wired_links tm) is_tx) bs @ map (\<lambda>b. (Next_bypass, b)) (na_clones ne is_tx 0 bs),
           length (filter (\<lambda>b. fst (wired_out ne (wired_links tm) is_tx b) = Next_drop) bs),
           length (filter (\<lambda>b. fst (wired_out ne (wired_links tm) is_tx b) \<noteq> Next_drop) bs)) \<and>
     length (na_clones ne is_tx 0 bs) \<le> VLIB_FRAME_SIZE"
  using wired.loop_refines [where bs = bs and k = 0 and s = "\<lparr>wired_ok = 0, wired_dropped = 0, na_buffer = [], frame_pos = 0\<rparr>"
      and n = "length bs" and ne = ne and links = "wired_links tm" and is_tx = is_tx and room = room] assms
  by (auto simp: tg_wired_local_impl_def each_map wired_counts tg_wired_handle_na_def)
end
