(* ===== verification/TgPlugin.thy ===== *)
theory TgPlugin
  imports TgNode
begin

text \<open>
  What the Terragraph configuration plugin promises as a whole. \<open>tg_exec\<close> is one operation of the
  plugin: an event of the radio driver, a hook or the process of VPP, a command, a node of the slow path,
  or a change of VPP's own; \<open>tg_run\<close> is a sequence of them. \<open>vnet_ok\<close> states what VPP and the driver
  promise: interfaces keep their identity while they exist, a live interface has a live hardware interface,
  a registration that succeeds gives an interface with the instance it was made for, connecting a tap
  device adds this one interface or fails and adds none, and link numbers are in range. A registration may
  fail; \<open>tg_op_ok\<close> names what each operation relies on beyond that. \<open>tg_inv\<close> is the invariant of the
  plugin's state.
\<close>

section \<open>What VPP promises\<close>

definition if_kept :: "'v vpp_ops \<Rightarrow> 'v \<Rightarrow> 'v \<Rightarrow> u32 \<Rightarrow> bool" where
  "if_kept env v v' sw \<longleftrightarrow> \<not> sw_free env v' sw \<and> sw_hw env v' sw = sw_hw env v sw \<and> sup_hw env v' sw = sup_hw env v sw \<and>
     hw_instance env v' (sup_hw env v sw) = hw_instance env v (sup_hw env v sw) \<and>
     hw_sw env v' (sw_hw env v sw) = hw_sw env v (sw_hw env v sw)"

definition persist :: "'v vpp_ops \<Rightarrow> 'v \<Rightarrow> 'v \<Rightarrow> bool" where
  "persist env v v' \<longleftrightarrow> (\<forall>sw. \<not> sw_free env v sw \<longrightarrow> if_kept env v v' sw) \<and> (\<forall>hw. \<not> hw_free env v hw \<longrightarrow> \<not> hw_free env v' hw)"

text \<open>The same interfaces exist.\<close>

definition same_ifs :: "'v vpp_ops \<Rightarrow> 'v \<Rightarrow> 'v \<Rightarrow> bool" where
  "same_ifs env v v' \<longleftrightarrow> (\<forall>sw. sw_free env v' sw = sw_free env v sw) \<and> (\<forall>hw. hw_free env v' hw = hw_free env v hw)"

text \<open>The interface \<open>sw\<close> is that of the link with number \<open>n\<close>.\<close>

definition link_live :: "'v vpp_ops \<Rightarrow> 'v \<Rightarrow> nat \<Rightarrow> u32 \<Rightarrow> bool" where
  "link_live env v n sw \<longleftrightarrow> \<not> sw_free env v sw \<and> sup_hw env v sw = sw_hw env v sw \<and>
     unat (hw_instance env v (sw_hw env v sw)) = n \<and> hw_sw env v (sw_hw env v sw) = sw"

definition register_law :: "'v vpp_ops \<Rightarrow> u32 \<Rightarrow> u8 list \<Rightarrow> 'v \<Rightarrow> bool" where
  "register_law env inst a v \<longleftrightarrow> (case register_interface env inst a v of
     None \<Rightarrow> True
   | Some (hw, v') \<Rightarrow> persist env v v' \<and> sw_hw env v' (hw_sw env v' hw) = hw \<and> link_live env v' (unat inst) (hw_sw env v' hw))"

text \<open>\<open>v'\<close> has the interfaces of \<open>v\<close> and one more, \<open>tap\<close> with a hardware interface of its own.\<close>

definition one_more :: "'v vpp_ops \<Rightarrow> u32 \<Rightarrow> 'v \<Rightarrow> 'v \<Rightarrow> bool" where
  "one_more env tap v v' \<longleftrightarrow> sw_free env v tap \<and> hw_free env v (sw_hw env v' tap) \<and>
     (\<forall>sw. sw_free env v' sw \<longleftrightarrow> sw \<noteq> tap \<and> sw_free env v sw) \<and>
     (\<forall>hw. hw_free env v' hw \<longleftrightarrow> hw \<noteq> sw_hw env v' tap \<and> hw_free env v hw)"

text \<open>
  \<open>vnet_tap_connect\<close> adds a tap device or fails and adds none; \<open>vnet_tap_delete\<close> of a device that was
  connected, whether or not it was joined to the port \<open>sw\<close>, removes this device only.
\<close>

definition tap_law :: "'v vpp_ops \<Rightarrow> string \<Rightarrow> u8 list \<Rightarrow> 'v \<Rightarrow> bool" where
  "tap_law env name a v \<longleftrightarrow> (case tap_connect env name a v of (rc, tap, v') \<Rightarrow>
     persist env v v' \<and> (if rc = 0 then one_more env tap v v' else same_ifs env v v'))"

definition tap_delete_law :: "'v vpp_ops \<Rightarrow> string \<Rightarrow> u8 list \<Rightarrow> u32 \<Rightarrow> 'v \<Rightarrow> bool" where
  "tap_delete_law env name a sw u \<longleftrightarrow> (case tap_connect env name a u of (rc, tap, v) \<Rightarrow> rc = 0 \<longrightarrow>
     (let w = snd (set_l2_xc env tap sw v); w' = tap_delete env tap w in
      (\<forall>s. sw_free env w' s \<longleftrightarrow> s = tap \<or> sw_free env w s) \<and>
      (\<forall>h. hw_free env w' h \<longleftrightarrow> h = sw_hw env w tap \<or> hw_free env w h) \<and>
      (\<forall>s. \<not> sw_free env w s \<longrightarrow> s \<noteq> tap \<longrightarrow> if_kept env w w' s)))"

definition vnet_ok :: "'v vpp_ops \<Rightarrow> bool" where
  "vnet_ok env \<longleftrightarrow>
     (\<forall>v. sw_free env v NO_IF) \<and>
     (\<forall>v sw. \<not> sw_free env v sw \<longrightarrow> \<not> hw_free env v (sup_hw env v sw) \<and> (sw_hardware env v sw \<longrightarrow> \<not> hw_free env v (sw_hw env v sw))) \<and>
     (\<forall>c v. persist env v (vpp_step env c v)) \<and>
     (\<forall>inst a v. register_law env inst a v) \<and>
     (\<forall>name a v. tap_law env name a v) \<and>
     (\<forall>tap sw v. persist env v (snd (set_l2_xc env tap sw v)) \<and> same_ifs env v (snd (set_l2_xc env tap sw v))) \<and>
     (\<forall>v. persist env v (snd (snd (create_loopback env v)))) \<and>
     (\<forall>name a sw v. tap_delete_law env name a sw v) \<and>
     (\<forall>v dev wi. device_info env v dev = Some wi \<longrightarrow> (\<forall>l \<in> set (dev_links wi). unat (if_nameunit l) \<le> MAX_LINKS env))"

lemma if_kept_refl: "\<not> sw_free env v sw \<Longrightarrow> if_kept env v v sw"
  by (simp add: if_kept_def)

lemma persist_refl [simp]: "persist env v v"
  by (simp add: persist_def if_kept_refl)

lemma persist_trans: "persist env u v \<Longrightarrow> persist env v w \<Longrightarrow> persist env u w"
  by (auto simp: persist_def if_kept_def)

lemma live_persist: "persist env v v' \<Longrightarrow> link_live env v n sw \<Longrightarrow> link_live env v' n sw"
  by (auto simp: persist_def if_kept_def link_live_def)

lemma free_persist: "persist env v v' \<Longrightarrow> \<not> sw_free env v sw \<Longrightarrow> \<not> sw_free env v' sw"
  by (auto simp: persist_def if_kept_def)

lemma vpp_lawD:
  assumes "vnet_ok env"
  shows "sw_free env v NO_IF" and "persist env v (vpp_step env c v)"
    and "persist env v (snd (set_l2_xc env tap sw v))" and "persist env v (snd (snd (create_loopback env v)))"
    and "tap_law env name a v" and "register_law env inst a v" and "tap_delete_law env name a sw v"
    and "same_ifs env v (snd (set_l2_xc env tap sw v))"
  using assms by (simp_all add: vnet_ok_def)

lemma vpp_hw:
  assumes "vnet_ok env" and "\<not> sw_free env v sw"
  shows "\<not> hw_free env v (sup_hw env v sw)" and "sw_hardware env v sw \<Longrightarrow> \<not> hw_free env v (sw_hw env v sw)"
  using assms by (simp_all add: vnet_ok_def)

lemma get_hw: "\<not> hw_free env (vnet tm) hw \<Longrightarrow> vnet_get_hw_interface env hw tm = Some hw"
  by (simp add: vnet_get_hw_interface_def)

lemma get_sup:
  "vnet_ok env \<Longrightarrow> \<not> sw_free env (vnet tm) sw \<Longrightarrow> vnet_get_sup_hw_interface env sw tm = Some (sup_hw env (vnet tm) sw)"
  by (simp add: vnet_get_sup_hw_interface_def vnet_get_sw_interface_def get_hw vpp_hw(1))

lemma vpp_register:
  assumes "vnet_ok env" and "register_interface env inst a v \<noteq> None"
  obtains hw v' where "register_interface env inst a v = Some (hw, v')" "persist env v v'"
    "sw_hw env v' (hw_sw env v' hw) = hw" "link_live env v' (unat inst) (hw_sw env v' hw)"
  using vpp_lawD(6) [OF assms(1), of inst a v] assms(2) by (auto simp: register_law_def split: option.splits prod.splits)

lemma vpp_tap:
  assumes "vnet_ok env" and "tap_connect env n a v = (rc, tap, v')"
  shows "persist env v v'" and "rc = 0 \<Longrightarrow> one_more env tap v v'" and "rc \<noteq> 0 \<Longrightarrow> same_ifs env v v'"
  using vpp_lawD(5) [OF assms(1), of n a v] assms(2) by (simp_all add: tap_law_def split: if_splits)

text \<open>A tap device that is connected, joined and deleted again leaves the interfaces as they were.\<close>

lemma vpp_tap_delete:
  assumes ok: "vnet_ok env" and t: "tap_connect env n a u = (0, tap, v)" and x: "set_l2_xc env tap sw v = (rc, w)"
  shows "persist env u (tap_delete env tap w)" and "same_ifs env u (tap_delete env tap w)"
proof -
  let ?w = "tap_delete env tap w"
  have o: "one_more env tap u v" "persist env u v" using vpp_tap [OF ok t] by simp_all
  have s: "same_ifs env v w" "persist env v w" using vpp_lawD(3,8) [OF ok, of v tap sw] x by simp_all
  have d: "sw_free env ?w s \<longleftrightarrow> s = tap \<or> sw_free env w s" "hw_free env ?w h \<longleftrightarrow> h = sw_hw env w tap \<or> hw_free env w h"
    "\<not> sw_free env w s \<Longrightarrow> s \<noteq> tap \<Longrightarrow> if_kept env w ?w s" for s h
    using vpp_lawD(7) [OF ok, of n a sw u] t x by (simp_all add: tap_delete_law_def Let_def)
  have tap: "sw_hw env w tap = sw_hw env v tap" using o(1) s(2) by (simp add: one_more_def persist_def if_kept_def)
  have "sw_free env ?w s = sw_free env u s" for s using d(1) [of s] o(1) s(1) by (auto simp: one_more_def same_ifs_def)
  moreover have "hw_free env ?w h = hw_free env u h" for h
    using d(2) [of h] o(1) s(1) tap by (auto simp: one_more_def same_ifs_def)
  ultimately show f: "same_ifs env u ?w" by (simp add: same_ifs_def)
  have "if_kept env u ?w s" if "\<not> sw_free env u s" for s
  proof -
    have k: "if_kept env u w s" using that persist_trans [OF o(2) s(2)] by (simp add: persist_def)
    moreover have "s \<noteq> tap" using that o(1) by (auto simp: one_more_def)
    ultimately show ?thesis using d(3) [of s] by (simp add: if_kept_def)
  qed
  then show "persist env u ?w" using f by (simp add: persist_def same_ifs_def)
qed

lemma vpp_device_links:
  "vnet_ok env \<Longrightarrow> device_info env v dev = Some wi \<Longrightarrow> l \<in> set (dev_links wi) \<Longrightarrow> unat (if_nameunit l) \<le> MAX_LINKS env"
  by (simp add: vnet_ok_def)

section \<open>The invariant\<close>

definition terra_ok :: "'v vpp_ops \<Rightarrow> 'v \<Rightarrow> tgcfg_link list \<Rightarrow> bool" where
  "terra_ok env v links \<longleftrightarrow> (links = [] \<or> length links = Suc (MAX_LINKS env)) \<and>
     (\<forall>n < length links. tg_sw_if_index (links ! n) \<noteq> NO_IF \<longrightarrow> link_live env v n (tg_sw_if_index (links ! n)))"

definition wired_at :: "'v vpp_ops \<Rightarrow> 'v \<Rightarrow> tgcfg_wired list \<Rightarrow> nat \<Rightarrow> bool" where
  "wired_at env v links i \<longleftrightarrow> links ! i = TG_WIRED_INVALID \<or>
     ((unat (eth_sw_if_index (links ! i)) = i \<or> unat (tap_sw_if_index (links ! i)) = i) \<and>
      \<not> sw_free env v (eth_sw_if_index (links ! i)) \<and> \<not> sw_free env v (tap_sw_if_index (links ! i)) \<and>
      unat (eth_sw_if_index (links ! i)) < length links \<and>
      eth_sw_if_index (links ! unat (eth_sw_if_index (links ! i))) = eth_sw_if_index (links ! i))"

definition local_ok :: "u32 list \<Rightarrow> bool" where
  "local_ok ls \<longleftrightarrow> (\<forall>i < length ls. ls ! i = NO_IF \<or> unat (ls ! i) = i)"

definition devs_ok :: "tgcfg_wdev list \<Rightarrow> tg_event list \<Rightarrow> bool" where
  "devs_ok ws es \<longleftrightarrow> (\<forall>i < length ws. wdev_index (ws ! i) = i) \<and>
     (\<forall>i n. Port_up i n \<in> set es \<longrightarrow> i < n \<and> n \<le> length ws)"

definition tg_inv :: "'v vpp_ops \<Rightarrow> 'v tgcfg_main \<Rightarrow> bool" where
  "tg_inv env tm \<longleftrightarrow> terra_ok env (vnet tm) (terra_links tm) \<and>
     (\<forall>i < length (wired_links tm). wired_at env (vnet tm) (wired_links tm) i) \<and>
     local_ok (local_links tm) \<and> devs_ok (wigig_devs tm) (tg_events tm)"

text \<open>
  What an operation may do: keep the invariant and the interfaces, and make calls of which none lets
  other traffic than authentication pass.
\<close>

definition adv :: "'v vpp_ops \<Rightarrow> 'v tgcfg_main \<Rightarrow> 'v tgcfg_main \<Rightarrow> bool" where
  "adv env tm tm' \<longleftrightarrow> tg_inv env tm' \<and> persist env (vnet tm) (vnet tm') \<and>
     (\<exists>cs. vcalls tm' = vcalls tm @ cs \<and> (\<forall>hw. Eapol_only hw False \<notin> set cs))"

definition safe :: "'v vpp_ops \<Rightarrow> 'v tgcfg_main \<Rightarrow> 'v tgcfg_main option \<Rightarrow> bool" where
  "safe env tm r \<longleftrightarrow> (\<exists>tm'. r = Some tm' \<and> adv env tm tm')"

lemma adv_refl: "tg_inv env tm \<Longrightarrow> adv env tm tm"
  by (simp add: adv_def)

lemma adv_trans: "adv env a b \<Longrightarrow> adv env b c \<Longrightarrow> adv env a c"
  by (auto simp: adv_def intro: persist_trans)

lemma adv_inv: "adv env a b \<Longrightarrow> tg_inv env b"
  by (simp add: adv_def)

lemma safeI: "adv env tm tm' \<Longrightarrow> safe env tm (Some tm')"
  by (simp add: safe_def)

lemma safe_bind:
  assumes "safe env tm r" and "\<And>tm'. r = Some tm' \<Longrightarrow> adv env tm tm' \<Longrightarrow> safe env tm' (f tm')"
  shows "safe env tm (Option.bind r f)"
proof -
  obtain t where t: "r = Some t" "adv env tm t" using assms(1) by (auto simp: safe_def)
  then have "safe env t (f t)" using assms(2) by blast
  with t show ?thesis by (auto simp: safe_def dest: adv_trans)
qed

lemma safe_after: "adv env tm tm' \<Longrightarrow> safe env tm' r \<Longrightarrow> safe env tm r"
  by (auto simp: safe_def dest: adv_trans)

lemma wired_at_persist:
  "persist env v v' \<Longrightarrow> wired_at env v links i \<Longrightarrow> wired_at env v' links i"
  by (auto simp: wired_at_def dest: free_persist)

lemma terra_ok_persist: "persist env v v' \<Longrightarrow> terra_ok env v links \<Longrightarrow> terra_ok env v' links"
  by (auto simp: terra_ok_def dest: live_persist)

lemma adv_vnet: "tg_inv env tm \<Longrightarrow> persist env (vnet tm) v \<Longrightarrow> adv env tm (tm\<lparr>vnet := v\<rparr>)"
  by (auto simp: adv_def tg_inv_def dest: wired_at_persist terra_ok_persist)

lemma adv_call:
  "vnet_ok env \<Longrightarrow> tg_inv env tm \<Longrightarrow> (\<And>hw. c \<noteq> Eapol_only hw False) \<Longrightarrow> adv env tm (vpp_call env c tm)"
  using vpp_lawD(2) [of env "vnet tm" c] adv_vnet [of env tm "vpp_step env c (vnet tm)"]
  by (auto simp: adv_def tg_inv_def vpp_call_def)

text \<open>Calls after calls.\<close>

lemma adv_then_call:
  "vnet_ok env \<Longrightarrow> adv env tm tm' \<Longrightarrow> (\<And>hw. c \<noteq> Eapol_only hw False) \<Longrightarrow> adv env tm (vpp_call env c tm')"
  by (blast intro: adv_trans adv_call adv_inv)

lemma call_fields [simp]:
  "terra_links (vpp_call env c tm) = terra_links tm" "wigig_devs (vpp_call env c tm) = wigig_devs tm"
  "wired_links (vpp_call env c tm) = wired_links tm" "local_links (vpp_call env c tm) = local_links tm"
  "tg_events (vpp_call env c tm) = tg_events tm" "wsec_enable (vpp_call env c tm) = wsec_enable tm"
  "slowpath_enable (vpp_call env c tm) = slowpath_enable tm" "slowpath_maps (vpp_call env c tm) = slowpath_maps tm"
  "n_files (vpp_call env c tm) = n_files tm" "vcalls (vpp_call env c tm) = vcalls tm @ [c]"
  "vnet (vpp_call env c tm) = vpp_step env c (vnet tm)"
  by (simp_all add: vpp_call_def)

section \<open>Operations that make calls only\<close>

lemma adv_same: "tg_inv env tm' \<Longrightarrow> vnet tm' = vnet tm \<Longrightarrow> vcalls tm' = vcalls tm \<Longrightarrow> adv env tm tm'"
  by (simp add: adv_def)

lemma adv_fold:
  assumes "\<And>x t. x \<in> set xs \<Longrightarrow> tg_inv env t \<Longrightarrow> adv env t (f x t)" and "tg_inv env tm"
  shows "adv env tm (fold f xs tm)"
  using assms
proof (induction xs arbitrary: tm)
  case (Cons x xs)
  then have x: "adv env tm (f x tm)" by simp
  moreover have "adv env (f x tm) (fold f xs (f x tm))" using Cons adv_inv [OF x] by simp
  ultimately show ?case by (auto intro: adv_trans)
qed (simp add: adv_refl)

lemma adv_copy_flags:
  assumes "vnet_ok env" and "tg_inv env tm"
  shows "adv env tm (tg_interface_copy_flags env sw up tm)"
proof -
  have links: "adv env t (fold (copy_link_flags env up) ls t)" if "tg_inv env t" for ls t
    by (rule adv_fold [OF _ that]) (auto simp: copy_link_flags_def adv_refl assms(1) intro: adv_call split: option.split)
  have tap: "adv env tm (vpp_call env (Sw_set_flags x up) tm)" for x using assms by (simp add: adv_call)
  show ?thesis
    using links [OF assms(2)] adv_trans [OF tap links [OF adv_inv [OF tap]]] tap assms(2)
    by (auto simp: tg_interface_copy_flags_def Let_def adv_refl split: option.split)
qed

lemma adv_exit: "vnet_ok env \<Longrightarrow> tg_inv env tm \<Longrightarrow> adv env tm (tgcfg_exit env tm)"
  by (auto simp: tgcfg_exit_def intro: adv_fold adv_call)

lemma adv_recovery: "vnet_ok env \<Longrightarrow> tg_inv env tm \<Longrightarrow> adv env tm (tg_wigig_recovery_handler env p tm)"
  by (auto simp: tg_wigig_recovery_handler_def Let_def adv_refl intro: adv_then_call adv_call split: option.split)

lemma adv_wigig_down: "vnet_ok env \<Longrightarrow> tg_inv env tm \<Longrightarrow> adv env tm (tg_wigig_down_handler env p tm)"
  by (auto simp: tg_wigig_down_handler_def adv_refl intro: adv_call split: option.split)

lemma adv_dump: "vnet_ok env \<Longrightarrow> tg_inv env tm \<Longrightarrow> adv env tm (vl_api_interface_map_dump_t_handler env rp taps tm)"
  unfolding vl_api_interface_map_dump_t_handler_def
  by (cases rp; simp add: adv_refl; rule adv_fold) (auto simp: adv_refl intro: adv_call split: option.split)

text \<open>The link handlers: the interface of a link that is set up is found, and is that link's.\<close>

definition link_set :: "u32 \<Rightarrow> 'v tgcfg_main \<Rightarrow> bool" where
  "link_set n tm \<longleftrightarrow> unat n < length (terra_links tm) \<and> tg_sw_if_index (terra_links tm ! unat n) \<noteq> NO_IF"

lemma link_sw_live:
  assumes "tg_inv env tm" and "link_set n tm"
  obtains sw where "link_sw env n tm = Some (sw, sw_hw env (vnet tm) sw)" "link_live env (vnet tm) (unat n) sw"
    "sw = tg_sw_if_index (terra_links tm ! unat n)"
  using assms by (auto simp: link_set_def tg_inv_def terra_ok_def link_sw_def vec_elt_def link_live_def vnet_get_sw_interface_def)

lemma safe_link_up:
  assumes "vnet_ok env" and "tg_inv env tm" and "link_set (ud_nameunit d) tm"
  shows "safe env tm (tg_link_up_handler env d tm)"
proof -
  obtain sw hw where "link_sw env (ud_nameunit d) tm = Some (sw, hw)" using link_sw_live [OF assms(2,3)] by metis
  then show ?thesis
    by (auto simp: tg_link_up_handler_def Let_def intro!: safeI adv_then_call [OF assms(1)] adv_call [OF assms(1,2)])
qed

lemma safe_link_down:
  assumes "vnet_ok env" and "tg_inv env tm" and "link_set (ud_nameunit d) tm"
  shows "safe env tm (tg_link_down_handler env d tm)"
proof -
  obtain sw hw where "link_sw env (ud_nameunit d) tm = Some (sw, hw)" using link_sw_live [OF assms(2,3)] by metis
  then show ?thesis
    by (auto simp: tg_link_down_handler_def Let_def intro!: safeI adv_then_call [OF assms(1)] adv_call [OF assms(1,2)])
qed

section \<open>Configuration and the device vector\<close>

text \<open>Fields that the invariant does not mention.\<close>

lemma inv_fields [simp]:
  "tg_inv env (tm\<lparr>auto_probe := a\<rparr>) = tg_inv env tm" "tg_inv env (tm\<lparr>slowpath_enable := b\<rparr>) = tg_inv env tm"
  "tg_inv env (tm\<lparr>wsec_enable := b\<rparr>) = tg_inv env tm" "tg_inv env (tm\<lparr>host_iface_name := h\<rparr>) = tg_inv env tm"
  "tg_inv env (tm\<lparr>slowpath_maps := m\<rparr>) = tg_inv env tm" "tg_inv env (tm\<lparr>ula_test_prefix := u\<rparr>) = tg_inv env tm"
  "tg_inv env (tm\<lparr>host_sw_if_index := i\<rparr>) = tg_inv env tm" "tg_inv env (tm\<lparr>loop_sw_if_index := i\<rparr>) = tg_inv env tm"
  "tg_inv env (tm\<lparr>n_files := k\<rparr>) = tg_inv env tm"
  by (simp_all add: tg_inv_def)

lemma adv_cfg_items: "tg_inv env tm \<Longrightarrow> adv env tm (snd (cfg_items cs tm))"
proof (induction cs tm rule: cfg_items.induct)
  case (2 c cs tm)
  then show ?case by (cases c) (auto simp: adv_def Let_def split: option.split)
qed (simp add: adv_refl)

lemma adv_host:
  assumes "vnet_ok env" and "tg_inv env tm"
  shows "adv env tm (snd (tgcfg_setup_host_interface env tm))"
proof (cases "host_iface_name tm")
  case (Some name)
  obtain rc sw v where t: "tap_connect env name [] (vnet tm) = (rc, sw, v)" by (metis prod_cases3)
  let ?t = "tm\<lparr>vnet := v\<rparr>"
  let ?u = "vpp_call env (Sw_set_flags sw True) (vpp_call env (Ip6_link_enable sw) (?t\<lparr>host_sw_if_index := sw\<rparr>))"
  have t1: "adv env tm ?t" using adv_vnet [OF assms(2)] vpp_tap(1) [OF assms(1) t] by blast
  then have "adv env tm (?t\<lparr>host_sw_if_index := sw\<rparr>)" by (simp add: adv_def)
  then have u: "adv env tm ?u" using assms(1) by (auto intro: adv_then_call)
  obtain rc' lo v' where l: "create_loopback env (vnet ?u) = (rc', lo, v')" by (metis prod_cases3)
  have w: "adv env tm (?u\<lparr>vnet := v'\<rparr>)"
    using adv_trans [OF u adv_vnet [OF adv_inv [OF u]]] vpp_lawD(4) [OF assms(1), of "vnet ?u"] l by simp
  then have "adv env tm (?u\<lparr>vnet := v', loop_sw_if_index := lo\<rparr>)" by (simp add: adv_def)
  then show ?thesis using Some t t1 w l assms(1)
    by (auto simp: tgcfg_setup_host_interface_def Let_def intro: adv_then_call)
qed (simp add: tgcfg_setup_host_interface_def adv_refl assms)

lemma adv_config:
  assumes "vnet_ok env" and "tg_inv env tm"
  shows "adv env tm (snd (tgcfg_config env cs tm))"
proof -
  let ?t = "tm\<lparr>auto_probe := True, slowpath_enable := True, wsec_enable := False\<rparr>"
  have "adv env tm (snd (cfg_items cs ?t))"
    using adv_cfg_items [of env ?t cs] assms(2) by (simp add: adv_def)
  with adv_trans [OF this adv_host [OF assms(1) adv_inv [OF this]]] show ?thesis
    by (auto simp: tgcfg_config_def split: prod.split)
qed

lemma devs_update:
  assumes "tg_inv env tm" and "i < length (wigig_devs tm)" and "wdev_index w = i"
  shows "tg_inv env (tm\<lparr>wigig_devs := (wigig_devs tm)[i := w]\<rparr>)"
  using assms by (auto simp: tg_inv_def devs_ok_def nth_list_update)

lemma dev_index: "tg_inv env tm \<Longrightarrow> i < length (wigig_devs tm) \<Longrightarrow> wdev_index (wigig_devs tm ! i) = i"
  by (simp add: tg_inv_def devs_ok_def)

lemma adv_file_add:
  "vnet_ok env \<Longrightarrow> tg_inv env tm \<Longrightarrow> adv env tm (snd (file_add env fd k tm))"
  using adv_call [of env "tm\<lparr>n_files := n_files tm + 1\<rparr>" "File_add fd k"] by (simp add: file_add_def adv_def)

lemma file_add_fields [simp]: "wigig_devs (snd (file_add env fd k tm)) = wigig_devs tm" "fst (file_add env fd k tm) = n_files tm"
  "terra_links (snd (file_add env fd k tm)) = terra_links tm" "tg_events (snd (file_add env fd k tm)) = tg_events tm"
  by (simp_all add: file_add_def)

lemma safe_device_up:
  assumes "vnet_ok env" and "tg_inv env tm" and "i < length (wigig_devs tm)" and "\<not> vec_moved env n (length (wigig_devs tm))"
  shows "safe env tm (tg_wigig_device_up env i n tm)"
proof (cases "device_info env (vnet tm) (wd_dev (wigig_devs tm ! i))")
  case None
  then show ?thesis using assms by (simp add: tg_wigig_device_up_def safeI adv_refl)
next
  case (Some wi)
  have put: "adv env tm (t\<lparr>wigig_devs := (wigig_devs t)[i := w]\<rparr>)"
    if "adv env tm t" "wigig_devs t = wigig_devs tm" "wdev_index w = i" for t w
    using that assms(3) devs_update [of env t i w] by (auto simp: adv_def)
  obtain f t where f: "file_add env (data_fd wi) i tm = (f, t)" by force
  then have t: "adv env tm t" "wigig_devs t = wigig_devs tm"
    using adv_file_add [OF assms(1,2), of "data_fd wi" i] file_add_fields(1) [of env "data_fd wi" i tm]
    by (simp_all only: f snd_conv)
  show ?thesis
    using Some assms(3,4) put [OF adv_refl [OF assms(2)] refl] put [OF t] dev_index [OF assms(2,3)]
    by (cases "slowpath_enable tm") (simp_all add: tg_wigig_device_up_def Let_def f safeI)
qed

section \<open>Setting up a radio\<close>

lemma adv_terra:
  assumes "tg_inv env tm" and "terra_ok env (vnet tm) links"
  shows "adv env tm (tm\<lparr>terra_links := links\<rparr>)"
  using assms by (simp add: adv_def tg_inv_def)

lemma adv_local:
  assumes "tg_inv env tm" and "local_ok ls"
  shows "adv env tm (tm\<lparr>local_links := ls\<rparr>)"
  using assms by (simp add: adv_def tg_inv_def)

lemma local_ok_grow: "local_ok ls \<Longrightarrow> local_ok (vec_grow i NO_IF ls)"
  by (auto simp: local_ok_def nth_vec_grow)

lemma local_ok_put: "local_ok ls \<Longrightarrow> local_ok (ls[unat sw := sw])"
  unfolding local_ok_def by (metis length_list_update nth_list_update_eq nth_list_update_neq)

lemma adv_slowpath_on:
  assumes "vnet_ok env" and "tg_inv env tm"
  shows "adv env tm (enable_slowpath_on env tsw tm)"
proof -
  have "local_ok (local_links tm)" using assms(2) by (simp add: tg_inv_def)
  then have "adv env tm (tm\<lparr>local_links := (vec_grow (unat tsw) NO_IF (local_links tm))[unat tsw := tsw]\<rparr>)"
    using assms(2) by (simp add: adv_local local_ok_grow local_ok_put)
  then show ?thesis using assms(1) by (auto simp: enable_slowpath_on_def Let_def intro: adv_then_call)
qed

lemma slowpath_on_fields [simp]:
  "terra_links (enable_slowpath_on env tsw tm) = terra_links tm" "wigig_devs (enable_slowpath_on env tsw tm) = wigig_devs tm"
  "tg_events (enable_slowpath_on env tsw tm) = tg_events tm" "wired_links (enable_slowpath_on env tsw tm) = wired_links tm"
  by (simp_all add: enable_slowpath_on_def Let_def)

lemma terra_ok_put:
  "terra_ok env v links \<Longrightarrow> n < length links \<Longrightarrow> link_live env v n (tg_sw_if_index l) \<Longrightarrow> terra_ok env v (links[n := l])"
  by (auto simp: terra_ok_def nth_list_update)

text \<open>What setting up one link does: the link's entry names the radio, the peer and the link's new interface.\<close>

definition link_added :: "'v vpp_ops \<Rightarrow> u32 \<Rightarrow> wigig_link_info \<Rightarrow> 'v tgcfg_main \<Rightarrow> 'v tgcfg_main \<Rightarrow> bool" where
  "link_added env sw l tm tm' \<longleftrightarrow> adv env tm tm' \<and> wigig_devs tm' = wigig_devs tm \<and> tg_events tm' = tg_events tm \<and>
     wired_links tm' = wired_links tm \<and>
     (\<exists>tsw. terra_links tm' = (terra_links tm)[unat (if_nameunit l) :=
          \<lparr>bb_sw_if_index = sw, tg_sw_if_index = tsw, tg_peer_id = if_peer_id l\<rparr>] \<and>
        link_live env (vnet tm') (unat (if_nameunit l)) tsw)"

lemma enable_link_adds:
  assumes ok: "vnet_ok env" and inv: "tg_inv env tm" and "terra_links tm \<noteq> []" and l: "unat (if_nameunit l) \<le> MAX_LINKS env"
    and sw: "\<not> sw_free env (vnet tm) sw" and reg: "register_interface env (if_nameunit l) (hw_address env (vnet tm) hw) (vnet tm) \<noteq> None"
  shows "\<exists>tm'. enable_link env sw slow hw l tm = Some tm' \<and> link_added env sw l tm tm'"
proof -
  let ?n = "unat (if_nameunit l)"
  have len: "?n < length (terra_links tm)" using inv assms(3) l by (auto simp: tg_inv_def terra_ok_def)
  obtain thw v where r: "register_interface env (if_nameunit l) (hw_address env (vnet tm) hw) (vnet tm) = Some (thw, v)"
    "persist env (vnet tm) v" "link_live env v ?n (hw_sw env v thw)" "sw_hw env v (hw_sw env v thw) = thw"
    using vpp_register [OF ok reg] by metis
  have thw: "vnet_get_hw_interface env thw (tm\<lparr>vnet := v\<rparr>) = Some thw"
    using r(3,4) vpp_hw(1) [OF ok, of v "hw_sw env v thw"] by (simp add: link_live_def get_hw)
  define t1 where "t1 = vpp_call env (Tx_next thw) (tm\<lparr>vnet := v\<rparr>)"
  define tsw where "tsw = hw_sw env (vnet t1) thw"
  define m1 where "m1 = vpp_call env (Set_max_packet thw (hw_max_packet env (vnet t1) (sup_hw env (vnet t1) sw))) t1"
  define m2 where "m2 = vpp_call env (Set_link_speed tsw (hw_speed env (vnet m1) (sup_hw env (vnet t1) sw))) m1"
  define t2 where "t2 = vpp_call env (Set_mtu tsw (sw_mtu env (vnet m2) sw)) m2"
  define t3 where "t3 = t2\<lparr>terra_links := (terra_links tm)[?n := \<lparr>bb_sw_if_index = sw, tg_sw_if_index = tsw, tg_peer_id = if_peer_id l\<rparr>]\<rparr>"
  define t4 where "t4 = (if slow then enable_slowpath_on env tsw t3 else t3)"
  let ?t5 = "vpp_call env (Ip4_enable tsw) (vpp_call env (Ip6_ra_suppress tsw) (vpp_call env (Ip6_link_enable tsw) t4))"
  have a1: "adv env tm t1" unfolding t1_def by (intro adv_then_call [OF ok] adv_vnet inv r(2)) simp
  have "persist env v (vnet t1)" using vpp_lawD(2) [OF ok] by (simp add: t1_def)
  then have sup: "vnet_get_sup_hw_interface env sw t1 = Some (sup_hw env (vnet t1) sw)"
    using free_persist [OF persist_trans [OF r(2)] sw] by (intro get_sup [OF ok])
  have "tsw = hw_sw env v thw" and live: "link_live env (vnet t1) ?n (hw_sw env v thw)"
    using r(3,4) live_persist [of env v "vnet t1"] \<open>persist env v (vnet t1)\<close>
    by (auto simp: tsw_def persist_def if_kept_def link_live_def)
  then have live: "link_live env (vnet t1) ?n tsw" by simp
  have a2: "adv env t1 t2" unfolding t2_def m2_def m1_def by (intro adv_then_call [OF ok] adv_refl adv_inv [OF a1]) simp_all
  have live2: "link_live env (vnet t2) ?n tsw" using live_persist [OF _ live] a2 by (simp add: adv_def)
  have f2: "terra_links t2 = terra_links tm" "wigig_devs t2 = wigig_devs tm" "tg_events t2 = tg_events tm" "wired_links t2 = wired_links tm"
    by (simp_all add: t2_def m2_def m1_def t1_def)
  have "terra_ok env (vnet t2) (terra_links tm)" using adv_inv [OF a2] f2 by (simp add: tg_inv_def)
  then have a3: "adv env t2 t3" unfolding t3_def using live2 len by (intro adv_terra adv_inv [OF a2] terra_ok_put) simp_all
  have a4: "adv env t3 t4" unfolding t4_def using adv_slowpath_on [OF ok adv_inv [OF a3]] adv_refl [OF adv_inv [OF a3]] by simp
  have a5: "adv env t4 ?t5" by (intro adv_then_call [OF ok] adv_refl adv_inv [OF a4]) simp_all
  have a: "adv env tm ?t5" using a1 a2 a3 a4 a5 adv_trans by blast
  have live5: "link_live env (vnet ?t5) ?n tsw"
    using adv_trans [OF a3 adv_trans [OF a4 a5]] unfolding adv_def by (blast intro: live_persist live2)
  have "enable_link env sw slow hw l tm = Some ?t5"
    using r(1) thw sup len by (simp del: call_fields add: enable_link_def Let_def t1_def [symmetric] tsw_def [symmetric] m1_def [symmetric] m2_def [symmetric] t2_def [symmetric] vec_elt_def f2 t3_def t4_def)
  moreover have "link_added env sw l tm ?t5" using a live5 f2 by (auto simp: link_added_def t4_def t3_def)
  ultimately show ?thesis by blast
qed

text \<open>The entry of a link of the radio \<open>sw\<close>.\<close>

definition radio_link :: "'v vpp_ops \<Rightarrow> u32 \<Rightarrow> wigig_link_info \<Rightarrow> 'v tgcfg_main \<Rightarrow> bool" where
  "radio_link env sw l tm \<longleftrightarrow> unat (if_nameunit l) < length (terra_links tm) \<and>
     (let li = terra_links tm ! unat (if_nameunit l) in
      bb_sw_if_index li = sw \<and> tg_peer_id li = if_peer_id l \<and> tg_sw_if_index li \<noteq> NO_IF \<and>
      link_live env (vnet tm) (unat (if_nameunit l)) (tg_sw_if_index li))"

definition links_added :: "'v vpp_ops \<Rightarrow> u32 \<Rightarrow> wigig_link_info list \<Rightarrow> 'v tgcfg_main \<Rightarrow> 'v tgcfg_main \<Rightarrow> bool" where
  "links_added env sw ls tm tm' \<longleftrightarrow> adv env tm tm' \<and> wigig_devs tm' = wigig_devs tm \<and> tg_events tm' = tg_events tm \<and>
     wired_links tm' = wired_links tm \<and> length (terra_links tm') = length (terra_links tm) \<and>
     (\<forall>n. n \<notin> unat ` if_nameunit ` set ls \<longrightarrow> terra_links tm' ! n = terra_links tm ! n) \<and>
     (distinct (map if_nameunit ls) \<longrightarrow> (\<forall>l \<in> set ls. radio_link env sw l tm'))"

lemma live_not_free: "vnet_ok env \<Longrightarrow> link_live env v n sw \<Longrightarrow> sw \<noteq> NO_IF"
  using vpp_lawD(1) [of env v] by (auto simp: link_live_def)

lemma radio_link_kept:
  "radio_link env sw l tm \<Longrightarrow> persist env (vnet tm) (vnet tm') \<Longrightarrow> length (terra_links tm') = length (terra_links tm) \<Longrightarrow>
   terra_links tm' ! unat (if_nameunit l) = terra_links tm ! unat (if_nameunit l) \<Longrightarrow> radio_link env sw l tm'"
  by (auto simp: radio_link_def Let_def dest: live_persist)

lemma link_added_radio_link:
  assumes "vnet_ok env" and "link_added env sw l tm tm'" and "unat (if_nameunit l) < length (terra_links tm)"
  shows "radio_link env sw l tm'"
  using assms live_not_free [OF assms(1)] by (auto simp: link_added_def radio_link_def Let_def)

text \<open>Every registration made while the links are set up succeeds.\<close>

fun links_register :: "'v vpp_ops \<Rightarrow> u32 \<Rightarrow> bool \<Rightarrow> u32 \<Rightarrow> wigig_link_info list \<Rightarrow> 'v tgcfg_main \<Rightarrow> bool" where
  "links_register env sw slow hw [] tm = True"
| "links_register env sw slow hw (l # ls) tm =
     (register_interface env (if_nameunit l) (hw_address env (vnet tm) hw) (vnet tm) \<noteq> None \<and>
      (case enable_link env sw slow hw l tm of None \<Rightarrow> True
       | Some tm \<Rightarrow> links_register env sw slow (sup_hw env (vnet tm) sw) ls tm))"

lemma enable_link_registers:
  "enable_link env sw slow hw l tm = Some t \<Longrightarrow> register_interface env (if_nameunit l) (hw_address env (vnet tm) hw) (vnet tm) \<noteq> None"
  by (rule notI) (simp add: enable_link_def)

lemma enable_links_register: "enable_links env sw slow hw ls tm = Some t \<Longrightarrow> links_register env sw slow hw ls tm"
proof (induction ls arbitrary: hw tm)
  case (Cons l ls)
  then obtain u where u: "enable_link env sw slow hw l tm = Some u" "enable_links env sw slow (sup_hw env (vnet u) sw) ls u = Some t"
    by (auto simp: bind_eq_Some_conv)
  with Cons.IH [OF u(2)] enable_link_registers [OF u(1)] show ?case by simp
qed simp

lemma enable_links_add:
  assumes "vnet_ok env" and "tg_inv env tm" and "terra_links tm \<noteq> []"
    and "\<And>l. l \<in> set ls \<Longrightarrow> unat (if_nameunit l) \<le> MAX_LINKS env" and "\<not> sw_free env (vnet tm) sw" and "links_register env sw slow hw ls tm"
  shows "\<exists>tm'. enable_links env sw slow hw ls tm = Some tm' \<and> links_added env sw ls tm tm'"
  using assms(2-)
proof (induction ls arbitrary: hw tm)
  case Nil
  then show ?case by (simp add: links_added_def adv_refl)
next
  case (Cons l ls)
  obtain t where t: "enable_link env sw slow hw l tm = Some t" "link_added env sw l tm t"
    using enable_link_adds [OF assms(1) Cons.prems(1,2), of l sw hw slow] Cons.prems(3-) by auto
  then have i: "tg_inv env t" "length (terra_links t) = length (terra_links tm)"
    by (auto simp: link_added_def intro: adv_inv)
  moreover from i(2) Cons.prems(2) have "terra_links t \<noteq> []" by (metis length_0_conv)
  ultimately have u: "tg_inv env t" "terra_links t \<noteq> []" "length (terra_links t) = length (terra_links tm)" by simp_all
  have "\<not> sw_free env (vnet t) sw" using t(2) Cons.prems(4) by (auto simp: link_added_def adv_def dest: free_persist)
  then obtain t' where t': "enable_links env sw slow (sup_hw env (vnet t) sw) ls t = Some t'" "links_added env sw ls t t'"
    using Cons.IH [OF u(1,2), of "sup_hw env (vnet t) sw"] Cons.prems(3,5) t(1) by auto
  have "unat (if_nameunit l) < length (terra_links tm)"
    using Cons.prems(1,2) Cons.prems(3) [of l] by (auto simp: tg_inv_def terra_ok_def)
  then have l: "radio_link env sw l t" using link_added_radio_link [OF assms(1) t(2)] by simp
  have "radio_link env sw l t'" if "if_nameunit l \<notin> if_nameunit ` set ls"
  proof -
    have "unat (if_nameunit l) \<notin> unat ` if_nameunit ` set ls" using that by (auto simp: image_iff word_unat_eq_iff)
    then show ?thesis using radio_link_kept [OF l, of t'] t'(2) by (simp add: links_added_def adv_def)
  qed
  then have "links_added env sw (l # ls) tm t'"
    using t(2) t'(2) u(3) by (auto simp: links_added_def link_added_def intro: adv_trans)
  with t(1) t'(1) show ?case by auto
qed

lemma inv_new_dev:
  assumes "tg_inv env tm" and "wdev_index w = length (wigig_devs tm)"
  shows "tg_inv env (tm\<lparr>wigig_devs := wigig_devs tm @ [w]\<rparr>)"
  using assms by (fastforce simp: tg_inv_def devs_ok_def nth_append less_Suc_eq)

text \<open>
  Setting up a radio: it is refused and nothing changes, or all links of the device get interfaces and
  the device is added.
\<close>

definition radio_set_up :: "'v vpp_ops \<Rightarrow> u32 \<Rightarrow> wigig_dev_info \<Rightarrow> 'v tgcfg_main \<Rightarrow> 'v tgcfg_main \<Rightarrow> bool" where
  "radio_set_up env sw wi tm tm' \<longleftrightarrow>
     (\<exists>w. wigig_devs tm' = wigig_devs tm @ [w] \<and> wd_di w = wi \<and> wd_sw_if_index w = sw) \<and>
     (\<forall>n < length (terra_links tm). n \<notin> unat ` if_nameunit ` set (dev_links wi) \<longrightarrow> terra_links tm' ! n = terra_links tm ! n) \<and>
     (distinct (map if_nameunit (dev_links wi)) \<longrightarrow> (\<forall>l \<in> set (dev_links wi). radio_link env sw l tm'))"

text \<open>The state in which the links of a device are set up, and whether all registrations succeed there.\<close>

definition links_start :: "'v vpp_ops \<Rightarrow> nat \<Rightarrow> 'v tgcfg_main \<Rightarrow> 'v tgcfg_main" where
  "links_start env dev tm = (let tm = vpp_call env (Set_client_ops dev) tm
     in if terra_links tm = [] then tm\<lparr>terra_links := vec_grow (MAX_LINKS env) TG_LINK_INVALID []\<rparr> else tm)"

definition setup_registers :: "'v vpp_ops \<Rightarrow> u32 \<Rightarrow> bool \<Rightarrow> 'v tgcfg_main \<Rightarrow> bool" where
  "setup_registers env sw slow tm =
     (let hw = sw_hw env (vnet tm) sw in
      sw_free env (vnet tm) sw \<or> \<not> sw_hardware env (vnet tm) sw \<or>
      (case device_lookup env (hw_address env (vnet tm) hw) of None \<Rightarrow> True
       | Some dev \<Rightarrow> (case device_info env (vnet tm) dev of None \<Rightarrow> True
          | Some wi \<Rightarrow> links_register env sw slow hw (dev_links wi) (links_start env dev tm))))"

text \<open>
  The error of a registration is ignored and the index is then read uninitialised: the set-up does not
  come to an end in the model.
\<close>

lemma failed_registration_faults:
  assumes "\<not> setup_registers env sw slow tm"
  shows "tg_interface_enable env sw slow tm = None"
proof -
  let ?hw = "sw_hw env (vnet tm) sw"
  obtain dev wi where d: "\<not> sw_free env (vnet tm) sw" "sw_hardware env (vnet tm) sw"
      "device_lookup env (hw_address env (vnet tm) ?hw) = Some dev" "device_info env (vnet tm) dev = Some wi"
      "\<not> links_register env sw slow ?hw (dev_links wi) (links_start env dev tm)"
    using assms by (auto simp: setup_registers_def Let_def split: option.splits)
  have "enable_links env sw slow ?hw (dev_links wi) (links_start env dev tm) = None"
    using d(5) enable_links_register [of env sw slow ?hw "dev_links wi"] by fastforce
  with d(1-4) show ?thesis
    by (simp add: tg_interface_enable_def vnet_get_hw_interface_def links_start_def Let_def)
qed

lemma interface_enable_device:
  assumes ok: "vnet_ok env" and inv: "tg_inv env tm" and free: "\<not> sw_free env (vnet tm) sw" "sw_hardware env (vnet tm) sw"
    and dev: "device_lookup env (hw_address env (vnet tm) (sw_hw env (vnet tm) sw)) = Some dev" "device_info env (vnet tm) dev = Some wi"
    and reg: "setup_registers env sw slow tm"
  shows "\<exists>tm'. tg_interface_enable env sw slow tm = Some (0, tm') \<and> adv env tm tm' \<and> radio_set_up env sw wi tm tm'"
proof -
  define t0 where "t0 = vpp_call env (Set_client_ops dev) tm"
  define t1 where "t1 = (if terra_links t0 = [] then t0\<lparr>terra_links := vec_grow (MAX_LINKS env) TG_LINK_INVALID []\<rparr> else t0)"
  have a0: "adv env tm t0" unfolding t0_def by (intro adv_call ok inv) simp
  have e: "terra_ok env v (vec_grow (MAX_LINKS env) TG_LINK_INVALID [])" for v
    by (auto simp: terra_ok_def nth_vec_grow TG_LINK_INVALID_def)
  have a1: "adv env t0 t1" unfolding t1_def using adv_terra [OF adv_inv [OF a0] e] adv_refl [OF adv_inv [OF a0]] by simp
  have "terra_links t1 \<noteq> []" by (simp add: t1_def vec_grow_def)
  moreover have "unat (if_nameunit l) \<le> MAX_LINKS env" if "l \<in> set (dev_links wi)" for l
    using vpp_device_links [OF ok dev(2) that] .
  moreover have "\<not> sw_free env (vnet t1) sw" using free(1) a0 a1 by (auto simp: adv_def dest: free_persist)
  moreover have "links_register env sw slow (sw_hw env (vnet tm) sw) (dev_links wi) t1"
    using reg free dev by (simp add: setup_registers_def links_start_def Let_def t1_def t0_def split: if_splits)
  ultimately obtain t2 where t2: "enable_links env sw slow (sw_hw env (vnet tm) sw) (dev_links wi) t1 = Some t2"
      "links_added env sw (dev_links wi) t1 t2"
    using enable_links_add [OF ok adv_inv [OF a1]] by metis
  have a2: "adv env t1 t2" using t2(2) by (simp add: links_added_def)
  define ft where "ft = (if slow then let (f, tm) = file_add env (data_fd wi) (length (wigig_devs t2)) t2 in (Some f, tm) else (None, t2))"
  define t3 where "t3 = snd ft"
  have t3: "t3 = (if slow then snd (file_add env (data_fd wi) (length (wigig_devs t2)) t2) else t2)"
    by (simp add: t3_def ft_def split: prod.split)
  have a3: "adv env t2 t3" unfolding t3 using adv_file_add [OF ok adv_inv [OF a2]] adv_refl [OF adv_inv [OF a2]] by simp
  define w where "w = \<lparr>wd_di = wi, wd_sw_if_index = sw, wd_dev = dev, rx_ready = False, clib_file_index = fst ft, wdev_index = length (wigig_devs t3)\<rparr>"
  define t4 where "t4 = t3\<lparr>wigig_devs := wigig_devs t3 @ [w]\<rparr>"
  have a4: "adv env t3 t4" unfolding t4_def by (rule adv_same [OF inv_new_dev [OF adv_inv [OF a3]]]) (simp_all add: w_def)
  let ?t5 = "vpp_call env (Feature ''device-input'' ''tg-link-input'' sw) t4"
  have a5: "adv env t4 ?t5" by (intro adv_call ok adv_inv [OF a4]) simp
  have "tg_interface_enable env sw slow tm = Some (0, ?t5)"
    using free dev t2(1) get_hw [of env tm] vpp_hw(2) [OF ok free]
    by (simp del: call_fields add: tg_interface_enable_def Let_def t0_def [symmetric] t1_def [symmetric] ft_def [symmetric]
        t3_def [symmetric] w_def [symmetric] t4_def [symmetric] prod.case_eq_if)
  moreover have "adv env tm ?t5" using a0 a1 a2 a3 a4 a5 adv_trans by blast
  moreover have "radio_set_up env sw wi tm ?t5"
  proof -
    have f: "wigig_devs t3 = wigig_devs tm" "terra_links ?t5 = terra_links t2"
      using t2(2) by (simp_all add: t4_def t3 links_added_def t1_def t0_def)
    have "persist env (vnet t2) (vnet ?t5)" using adv_trans [OF a3 adv_trans [OF a4 a5]] by (simp add: adv_def)
    then have "radio_link env sw l ?t5" if "radio_link env sw l t2" for l using radio_link_kept [OF that] f(2) by simp
    then show ?thesis using t2(2) f
      by (auto simp: radio_set_up_def links_added_def t4_def w_def t1_def t0_def)
  qed
  ultimately show ?thesis by blast
qed

lemma interface_enable_refused:
  assumes "vnet_ok env" and "sw_free env (vnet tm) sw \<or> \<not> sw_hardware env (vnet tm) sw \<or>
    (case device_lookup env (hw_address env (vnet tm) (sw_hw env (vnet tm) sw)) of None \<Rightarrow> True
     | Some dev \<Rightarrow> device_info env (vnet tm) dev = None)"
  shows "\<exists>rc. rc \<noteq> 0 \<and> tg_interface_enable env sw slow tm = Some (rc, tm)"
  using assms vpp_hw(2) [OF assms(1), of "vnet tm" sw]
  by (auto simp: tg_interface_enable_def Let_def get_hw split: option.splits)

lemma safe_interface_enable:
  assumes "vnet_ok env" and "tg_inv env tm" and "setup_registers env sw slow tm"
  obtains rc tm' where "tg_interface_enable env sw slow tm = Some (rc, tm')" "adv env tm tm'"
proof -
  let ?bad = "sw_free env (vnet tm) sw \<or> \<not> sw_hardware env (vnet tm) sw \<or>
    (case device_lookup env (hw_address env (vnet tm) (sw_hw env (vnet tm) sw)) of None \<Rightarrow> True
     | Some dev \<Rightarrow> device_info env (vnet tm) dev = None)"
  show thesis
  proof (cases ?bad)
    case True
    with interface_enable_refused [OF assms(1) True] adv_refl [OF assms(2)] that show ?thesis by blast
  next
    case False
    then obtain dev wi where d: "\<not> sw_free env (vnet tm) sw" "sw_hardware env (vnet tm) sw"
      "device_lookup env (hw_address env (vnet tm) (sw_hw env (vnet tm) sw)) = Some dev" "device_info env (vnet tm) dev = Some wi"
      by (auto split: option.splits)
    with interface_enable_device [OF assms(1,2) d assms(3)] that show ?thesis by blast
  qed
qed

section \<open>Wired ports and their tap devices\<close>

lemma wired_maps_inv:
  assumes inv: "\<And>i. i < length links \<Longrightarrow> wired_at env v links i" and p: "persist env v v'"
    and tap: "sw_free env v tap" "\<not> sw_free env v' tap" and sw: "\<not> sw_free env v sw"
    and "links' = (vec_grow (max (unat sw) (unat tap)) TG_WIRED_INVALID links)
           [unat sw := \<lparr>eth_sw_if_index = sw, tap_sw_if_index = tap\<rparr>, unat tap := \<lparr>eth_sw_if_index = sw, tap_sw_if_index = tap\<rparr>]"
    and i: "i < length links'"
  shows "wired_at env v' links' i"
proof -
  let ?wl = "\<lparr>eth_sw_if_index = sw, tap_sw_if_index = tap\<rparr>"
  have len: "length links' = max (Suc (max (unat sw) (unat tap))) (length links)" using assms(6) by simp
  then have at: "links' ! j = (if j = unat sw \<or> j = unat tap then ?wl else if j < length links then links ! j else TG_WIRED_INVALID)"
    if "j < length links'" for j
    using that by (auto simp: assms(6) nth_list_update nth_vec_grow)
  have new: "links' ! unat sw = ?wl" "unat sw < length links'" using at len by auto
  show ?thesis
  proof (cases "i = unat sw \<or> i = unat tap")
    case True
    then show ?thesis using at [OF i] new tap(2) free_persist [OF p sw] by (auto simp: wired_at_def)
  next
    case False
    show ?thesis
    proof (cases "i < length links \<and> links ! i \<noteq> TG_WIRED_INVALID")
      case True
      let ?e = "eth_sw_if_index (links ! i)"
      have w: "unat ?e = i \<or> unat (tap_sw_if_index (links ! i)) = i" "\<not> sw_free env v ?e"
        "\<not> sw_free env v (tap_sw_if_index (links ! i))" "unat ?e < length links" "eth_sw_if_index (links ! unat ?e) = ?e"
        using inv [of i] True by (auto simp: wired_at_def)
      have "?e \<noteq> tap" using w(2) tap(1) by auto
      then have "eth_sw_if_index (links' ! unat ?e) = ?e" "unat ?e < length links'"
        using at [of "unat ?e"] w(4,5) len by (auto simp: word_unat_eq_iff)
      moreover have "links' ! i = links ! i" using at [OF i] False True by simp
      ultimately show ?thesis using w(1) free_persist [OF p w(2)] free_persist [OF p w(3)] by (simp add: wired_at_def)
    qed (use at [OF i] False in \<open>auto simp: wired_at_def\<close>)
  qed
qed

lemma adv_wired_maps:
  assumes "tg_inv env tm" and "persist env (vnet tm) v" and "sw_free env (vnet tm) tap" and "\<not> sw_free env v tap"
    and "\<not> sw_free env (vnet tm) sw"
  shows "adv env tm (wired_maps sw tap (tm\<lparr>vnet := v\<rparr>))"
proof -
  have "tg_inv env (tm\<lparr>vnet := v\<rparr>)" using adv_inv [OF adv_vnet [OF assms(1,2)]] .
  then show ?thesis
    using wired_maps_inv [of "wired_links tm" env "vnet tm" v tap sw] assms
    by (auto simp: adv_def tg_inv_def wired_maps_def Let_def local_ok_grow)
qed

lemma adv_wired_slowpath:
  assumes "vnet_ok env" and "tg_inv env tm"
  shows "adv env tm (enable_wired_slowpath env sw tm)"
proof -
  have "adv env tm (tm\<lparr>local_links := (local_links tm)[unat sw := sw]\<rparr>)"
    using assms(2) by (intro adv_local local_ok_put) (auto simp: tg_inv_def)
  then show ?thesis using assms(1) by (auto simp: enable_wired_slowpath_def intro: adv_then_call)
qed

lemma wired_slowpath_fields [simp]:
  "wired_links (enable_wired_slowpath env sw tm) = wired_links tm" "terra_links (enable_wired_slowpath env sw tm) = terra_links tm"
  "wigig_devs (enable_wired_slowpath env sw tm) = wigig_devs tm" "tg_events (enable_wired_slowpath env sw tm) = tg_events tm"
  by (simp_all add: enable_wired_slowpath_def)

text \<open>
  The outcomes: refused with nothing done; the tap device could not be connected to the port and is
  deleted again; or both directions are mapped to each other.
\<close>

definition wired_pair :: "'v vpp_ops \<Rightarrow> u32 \<Rightarrow> 'v tgcfg_main \<Rightarrow> 'v tgcfg_main \<Rightarrow> bool" where
  "wired_pair env sw tm tm' \<longleftrightarrow> (\<exists>tap. sw_free env (vnet tm) tap \<and> \<not> sw_free env (vnet tm') tap \<and> tap \<noteq> sw \<and>
     unat sw < length (wired_links tm') \<and> unat tap < length (wired_links tm') \<and>
     wired_links tm' ! unat sw = \<lparr>eth_sw_if_index = sw, tap_sw_if_index = tap\<rparr> \<and>
     wired_links tm' ! unat tap = \<lparr>eth_sw_if_index = sw, tap_sw_if_index = tap\<rparr> \<and>
     (\<forall>i < length (wired_links tm). i \<noteq> unat sw \<longrightarrow> i \<noteq> unat tap \<longrightarrow> wired_links tm' ! i = wired_links tm ! i))"

definition same_maps :: "'v vpp_ops \<Rightarrow> 'v tgcfg_main \<Rightarrow> 'v tgcfg_main \<Rightarrow> bool" where
  "same_maps env tm tm' \<longleftrightarrow> tm' = tm\<lparr>vnet := vnet tm'\<rparr> \<and> same_ifs env (vnet tm) (vnet tm')"

text \<open>
  The result that is expected: the error of the first check that fails, of the tap device, or of the
  connection between the two, with the two errors that the binary API names differently.
\<close>

definition wired_answer :: "'v vpp_ops \<Rightarrow> u32 \<Rightarrow> string \<Rightarrow> 'v \<Rightarrow> int" where
  "wired_answer env sw name v =
     (if sw_free env v sw \<or> \<not> sw_hardware env v sw then - 2
      else if hw_class env v sw \<noteq> ''dpdk'' \<or> device_lookup env (hw_address env v sw) \<noteq> None then - 126
      else case tap_connect env name (hw_address env v sw) v of (rc, tap, v') \<Rightarrow>
        if rc \<noteq> 0 then rc
        else case set_l2_xc env tap sw v' of (x, _) \<Rightarrow>
          if x = MODE_ERROR_ETH env then VNET_API_ERROR_NON_ETHERNET env
          else if x = MODE_ERROR_BVI_DEF env then VNET_API_ERROR_BD_ALREADY_HAS_BVI env else x)"

text \<open>The number of a port, where the code reads a hardware interface with it, is one.\<close>

definition port_number_ok :: "'v vpp_ops \<Rightarrow> 'v \<Rightarrow> u32 \<Rightarrow> bool" where
  "port_number_ok env v sw \<longleftrightarrow> sw_free env v sw \<or> \<not> sw_hardware env v sw \<or> \<not> hw_free env v sw"

definition tap_of :: "tgcfg_slowpath_map \<Rightarrow> string" where
  "tap_of sp = (case sm_tap_name sp of None \<Rightarrow> [] | Some t \<Rightarrow> t)"

lemma wired_enable_faults:
  "\<not> port_number_ok env (vnet tm) sw \<Longrightarrow> tg_wired_interface_enable env sw sp tm = None"
  by (simp add: port_number_ok_def tg_wired_interface_enable_def vnet_get_hw_interface_def)

lemma wired_enable_outcome:
  assumes ok: "vnet_ok env" and inv: "tg_inv env tm" and num: "port_number_ok env (vnet tm) sw"
  obtains rc tm' where "tg_wired_interface_enable env sw sp tm = Some (rc, tm')" "adv env tm tm'"
    "rc = wired_answer env sw (tap_of sp) (vnet tm)"
    "rc = 0 \<and> wired_pair env sw tm tm' \<or> rc \<noteq> 0 \<and> same_maps env tm tm'"
proof (cases "sw_free env (vnet tm) sw \<or> \<not> sw_hardware env (vnet tm) sw \<or> hw_class env (vnet tm) sw \<noteq> ''dpdk'' \<or>
    device_lookup env (hw_address env (vnet tm) sw) \<noteq> None")
  case True
  then have "wired_answer env sw (tap_of sp) (vnet tm) \<noteq> 0 \<and>
      tg_wired_interface_enable env sw sp tm = Some (wired_answer env sw (tap_of sp) (vnet tm), tm)"
    using num by (auto simp: tg_wired_interface_enable_def wired_answer_def port_number_ok_def vnet_get_hw_interface_def)
  then show ?thesis using that adv_refl [OF inv] by (simp add: same_maps_def same_ifs_def)
next
  case False
  then have hw: "vnet_get_hw_interface env sw tm = Some sw" using num by (simp add: port_number_ok_def get_hw)
  obtain rc tap v where t: "tap_connect env (tap_of sp) (hw_address env (vnet tm) sw) (vnet tm) = (rc, tap, v)" by (metis prod_cases3)
  note tap = vpp_tap [OF ok t]
  obtain rc' v' where x: "set_l2_xc env tap sw v = (rc', v')" by force
  have p: "persist env (vnet tm) v'" using tap(1) vpp_lawD(3) [OF ok, of v tap sw] x persist_trans by fastforce
  consider "rc \<noteq> 0" | "rc = 0" "l2_rc env rc' \<noteq> 0" | "rc = 0" "l2_rc env rc' = 0" by blast
  then show ?thesis
  proof cases
    case 1
    then have "tg_wired_interface_enable env sw sp tm = Some (rc, tm\<lparr>vnet := v\<rparr>)"
      using False t hw by (simp add: tg_wired_interface_enable_def Let_def tap_of_def)
    then show ?thesis using that 1 adv_vnet [OF inv tap(1)] tap(3) False t by (simp add: same_maps_def wired_answer_def)
  next
    case 2
    then have "tg_wired_interface_enable env sw sp tm = Some (l2_rc env rc', tm\<lparr>vnet := tap_delete env tap v'\<rparr>)"
      using False t x hw by (simp add: tg_wired_interface_enable_def Let_def tap_of_def)
    moreover have "persist env (vnet tm) (tap_delete env tap v')" "same_ifs env (vnet tm) (tap_delete env tap v')"
      using vpp_tap_delete [OF ok _ x] t 2(1) by simp_all
    ultimately show ?thesis
      using that 2 adv_vnet [OF inv] False t x by (simp add: same_maps_def wired_answer_def l2_rc_def)
  next
    case 3
    have f: "sw_free env (vnet tm) tap" "\<not> sw_free env v' tap" "\<not> sw_free env (vnet tm) sw"
      using tap(2) 3 False free_persist [of env v v' tap] vpp_lawD(3) [OF ok, of v tap sw] x by (auto simp: one_more_def)
    define t1 where "t1 = wired_maps sw tap (tm\<lparr>vnet := v'\<rparr>)"
    define t2 where "t2 = (if ipv6_slowpath_enable sp then enable_wired_slowpath env sw t1 else t1)"
    define t3 where "t3 = vpp_call env (Ip4_enable sw) (vpp_call env (Ip6_link_enable sw)
        (vpp_call env (Feature ''device-input'' ''tg-wired-local-rx'' tap) t2))"
    define t4 where "t4 = vpp_call env (Redirect_802_1x ''tg-wired-local-tx'' sw True)
        (vpp_call env (Sw_set_flags tap (sw_admin_up env (vnet t3) sw)) t3)"
    define t5 where "t5 = (if wired_security_enable sp then vpp_call env (Eapol_only (sw_hw env (vnet t4) sw) True) t4 else t4)"
    have a1: "adv env tm t1" unfolding t1_def using adv_wired_maps [OF inv p f] .
    have a2: "adv env tm t2" unfolding t2_def
      using adv_trans [OF a1 adv_wired_slowpath [OF ok adv_inv [OF a1]]] a1 by simp
    have a3: "adv env tm t3" unfolding t3_def by (intro adv_then_call [OF ok] a2) simp_all
    have a4: "adv env tm t4" unfolding t4_def by (intro adv_then_call [OF ok] a3) simp_all
    have a5: "adv env tm t5" unfolding t5_def using a4 adv_then_call [OF ok a4] by simp
    have e: "tg_wired_interface_enable env sw sp tm = Some (0, t5)" "wired_answer env sw (tap_of sp) (vnet tm) = 0"
      using False t x hw 3
      by (simp_all del: call_fields add: tg_wired_interface_enable_def tap_of_def Let_def t1_def t2_def t3_def t4_def t5_def wired_answer_def l2_rc_def)
    have w: "wired_links t5 = wired_links t1" by (simp add: t5_def t4_def t3_def t2_def)
    have "adv env t1 t5" unfolding t5_def t4_def t3_def t2_def
      using adv_wired_slowpath [OF ok adv_inv [OF a1]] adv_refl [OF adv_inv [OF a1]] 
      by (auto intro!: adv_then_call [OF ok])
    then have "\<not> sw_free env (vnet t5) tap" 
      using f(2) free_persist [of env v' "vnet t5" tap] by (auto simp: adv_def t1_def wired_maps_def Let_def)
    moreover have ne: "tap \<noteq> sw" using f by auto
    moreover from ne have "unat tap \<noteq> unat sw" by (simp add: word_unat_eq_iff)
    ultimately have "wired_pair env sw tm t5"
      using f(1) unfolding wired_pair_def w t1_def wired_maps_def Let_def
      by (intro exI [of _ tap]) (auto simp: nth_list_update nth_vec_grow)
    then show ?thesis using that e a5 by simp
  qed
qed

lemma safe_wired_enable:
  assumes "vnet_ok env" and "tg_inv env tm" and "port_number_ok env (vnet tm) sw"
  shows "safe env tm (map_option snd (tg_wired_interface_enable env sw sp tm))"
  using wired_enable_outcome [OF assms, of sp] by (metis option.simps(9) safeI snd_conv)

lemma safe_check_tap:
  assumes "vnet_ok env" and "tg_inv env tm" and "\<not> sw_free env (vnet tm) sw" and "\<not> hw_free env (vnet tm) sw"
  shows "safe env tm (tg_interface_check_enable_tap env sw tm)"
proof -
  have sw: "vnet_get_sw_interface env sw tm = Some sw" using assms(3) by (simp add: vnet_get_sw_interface_def)
  have hw: "sw_hardware env (vnet tm) sw \<Longrightarrow> vnet_get_hw_interface env (sw_hw env (vnet tm) sw) tm = Some (sw_hw env (vnet tm) sw)"
    by (rule get_hw [OF vpp_hw(2) [OF assms(1,3)]])
  have w: "safe env tm (Option.bind (tg_wired_interface_enable env sw m tm) (\<lambda>(rc, tm). Some tm))" for m
    using safe_wired_enable [OF assms(1,2), of sw m] assms(4)
    by (cases "tg_wired_interface_enable env sw m tm") (auto simp: port_number_ok_def split: prod.split)
  show ?thesis using sw hw w safeI [OF adv_refl [OF assms(2)]]
    by (simp add: tg_interface_check_enable_tap_def split: option.split)
qed

section \<open>The process and the nodes of the slow path\<close>

text \<open>A new port is there, and its number is that of a hardware interface too.\<close>

definition port_there :: "'v vpp_ops \<Rightarrow> u32 \<Rightarrow> 'v tgcfg_main \<Rightarrow> bool" where
  "port_there env sw tm \<longleftrightarrow> \<not> sw_free env (vnet tm) sw \<and> \<not> hw_free env (vnet tm) sw"

lemma port_stays: "port_there env sw tm \<Longrightarrow> adv env tm t \<Longrightarrow> port_there env sw t"
  by (auto simp: port_there_def adv_def persist_def if_kept_def)

lemma safe_port_added:
  assumes "vnet_ok env" and "tg_inv env tm" and "port_there env sw tm"
    and "setup_registers env sw (slowpath_enable tm) (vpp_call env (Sw_set_flags sw True) tm)"
  shows "safe env tm (port_added env sw tm)"
proof -
  let ?t = "vpp_call env (Sw_set_flags sw True) tm"
  have a: "adv env tm ?t" using assms by (simp add: adv_call)
  obtain rc t where t: "tg_interface_enable env sw (slowpath_enable ?t) ?t = Some (rc, t)" "adv env ?t t"
    using safe_interface_enable [OF assms(1) adv_inv [OF a], of sw "slowpath_enable ?t"] assms(4) by auto
  let ?u = "tg_interface_copy_flags env sw True t"
  have b: "adv env t ?u" using adv_copy_flags [OF assms(1) adv_inv [OF t(2)]] .
  have "port_there env sw ?u" using port_stays [OF port_stays [OF port_stays [OF assms(3) a] t(2)] b] .
  then have "safe env t (tg_interface_check_enable_tap env sw ?u)"
    using safe_after [OF b safe_check_tap [OF assms(1) adv_inv [OF b]]] by (simp add: port_there_def)
  then have "safe env t (if set_flags_fails env (vnet tm) sw then Some t else tg_interface_check_enable_tap env sw ?u)"
    using adv_refl [OF adv_inv [OF t(2)]] by (simp add: safeI)
  then have "safe env ?t (port_added env sw tm)"
    using safe_after [OF t(2)] t(1) by (simp add: port_added_def)
  then show ?thesis using safe_after [OF a] by blast
qed

text \<open>All registrations succeed that are made for the ports of the events.\<close>

fun ports_register :: "'v vpp_ops \<Rightarrow> tg_event list \<Rightarrow> 'v tgcfg_main \<Rightarrow> bool" where
  "ports_register env [] tm = True"
| "ports_register env (Port_add sw # es) tm =
     (setup_registers env sw (slowpath_enable tm) (vpp_call env (Sw_set_flags sw True) tm) \<and>
      (case port_added env sw tm of None \<Rightarrow> True | Some tm \<Rightarrow> ports_register env es tm))"
| "ports_register env (Port_up i n # es) tm = ports_register env es tm"

lemma safe_ports_added:
  "vnet_ok env \<Longrightarrow> tg_inv env tm \<Longrightarrow> ports_register env es tm \<Longrightarrow> (\<And>sw. Port_add sw \<in> set es \<Longrightarrow> port_there env sw tm) \<Longrightarrow>
   safe env tm (ports_added env es tm)"
proof (induction env es tm rule: ports_added.induct)
  case (2 env sw es tm)
  have p: "safe env tm (port_added env sw tm)" using 2 by (intro safe_port_added) auto
  have "safe env t (ports_added env es t)" if "port_added env sw tm = Some t" "adv env tm t" for t
    using 2 that adv_inv [OF that(2)] by (auto intro: port_stays)
  with p show ?case by (auto intro: safe_bind)
qed (auto simp: safeI adv_refl)

lemma device_up_length: "tg_wigig_device_up env i n tm = Some tm' \<Longrightarrow> length (wigig_devs tm') = length (wigig_devs tm)"
  by (auto simp: tg_wigig_device_up_def Let_def file_add_def split: if_splits option.splits prod.splits)

definition devs_stay :: "'v vpp_ops \<Rightarrow> tg_event list \<Rightarrow> nat \<Rightarrow> bool" where
  "devs_stay env es len \<longleftrightarrow> (\<forall>i n. Port_up i n \<in> set es \<longrightarrow> i < len \<and> \<not> vec_moved env n len)"

lemma safe_ports_up:
  "vnet_ok env \<Longrightarrow> tg_inv env tm \<Longrightarrow> devs_stay env es (length (wigig_devs tm)) \<Longrightarrow> safe env tm (ports_up env es tm)"
proof (induction env es tm rule: ports_up.induct)
  case (2 env i n es tm)
  then have "safe env tm (tg_wigig_device_up env i n tm)" by (intro safe_device_up) (auto simp: devs_stay_def)
  then obtain t where t: "tg_wigig_device_up env i n tm = Some t" "adv env tm t" by (auto simp: safe_def)
  then have "safe env t (ports_up env es t)"
    using 2 device_up_length [OF t(1)] adv_inv [OF t(2)] by (auto simp: devs_stay_def)
  then show ?case using safe_after [OF t(2)] t(1) by simp
qed (auto simp: safeI adv_refl devs_stay_def)

lemma adv_events:
  assumes "tg_inv env tm" and "\<And>i n. Port_up i n \<in> set es \<Longrightarrow> i < n \<and> n \<le> length (wigig_devs tm)"
  shows "adv env tm (tm\<lparr>tg_events := es\<rparr>)"
  using assms by (auto intro: adv_same simp: tg_inv_def devs_ok_def)

lemma event_bound: "tg_inv env tm \<Longrightarrow> Port_up i n \<in> set (tg_events tm) \<Longrightarrow> i < n \<and> n \<le> length (wigig_devs tm)"
  by (auto simp: tg_inv_def devs_ok_def)

text \<open>The devices of the pending events are where they were when the events were signalled.\<close>

definition events_ok :: "'v vpp_ops \<Rightarrow> 'v tgcfg_main \<Rightarrow> bool" where
  "events_ok env tm \<longleftrightarrow> (\<forall>e \<in> set (tg_events tm). case e of Port_up i n \<Rightarrow> \<not> vec_moved env n (length (wigig_devs tm)) | _ \<Rightarrow> True)"

lemma events_ok_stay:
  assumes "tg_inv env tm" and "events_ok env tm"
  shows "devs_stay env (tg_events tm) (length (wigig_devs tm))"
  unfolding devs_stay_def
proof (intro allI impI)
  fix i n
  assume "Port_up i n \<in> set (tg_events tm)"
  with event_bound [OF assms(1) this] assms(2) show "i < length (wigig_devs tm) \<and> \<not> vec_moved env n (length (wigig_devs tm))"
    unfolding events_ok_def by fastforce
qed

text \<open>The new ports of the pending events are there, and their registrations succeed.\<close>

definition ports_ok :: "'v vpp_ops \<Rightarrow> 'v tgcfg_main \<Rightarrow> bool" where
  "ports_ok env tm \<longleftrightarrow> (\<forall>e \<in> set (tg_events tm). case e of Port_add sw \<Rightarrow> port_there env sw tm | _ \<Rightarrow> True) \<and>
     ports_register env (tg_events tm) (tm\<lparr>tg_events := filter (\<lambda>e. \<not> is_port_add e) (tg_events tm)\<rparr>)"

lemma safe_process:
  assumes "vnet_ok env" and "tg_inv env tm" and "if adds then ports_ok env tm else events_ok env tm"
  shows "safe env tm (tgcfg_interface_event_process env adds tm)"
proof -
  have a: "adv env tm (tm\<lparr>tg_events := filter P (tg_events tm)\<rparr>)" for P
    by (rule adv_events [OF assms(2)]) (auto dest: event_bound [OF assms(2)])
  show ?thesis
  proof (cases adds)
    case True
    let ?t = "tm\<lparr>tg_events := filter (\<lambda>e. \<not> is_port_add e) (tg_events tm)\<rparr>"
    have "ports_register env (tg_events tm) ?t" "\<And>sw. Port_add sw \<in> set (tg_events tm) \<Longrightarrow> port_there env sw ?t"
      using True assms(3) port_stays [OF _ a] by (fastforce simp: ports_ok_def)+
    with True show ?thesis using safe_after [OF a safe_ports_added [OF assms(1) adv_inv [OF a]]]
      by (simp add: tgcfg_interface_event_process_def)
  next
    case False
    then show ?thesis using safe_after [OF a safe_ports_up [OF assms(1) adv_inv [OF a]]] events_ok_stay [OF assms(2)] assms(3)
      by (simp add: tgcfg_interface_event_process_def)
  qed
qed

lemma safe_add_del:
  assumes "vnet_ok env" and inv: "tg_inv env tm" and "is_add \<Longrightarrow> \<not> sw_free env (vnet tm) sw"
  shows "safe env tm (tg_interface_add_del_function env sw is_add tm)"
proof -
  have a: "adv env tm (tm\<lparr>local_links := vec_grow (unat sw) NO_IF (local_links tm)\<rparr>)"
    using inv by (intro adv_local local_ok_grow) (auto simp: tg_inv_def)
  have b: "adv env t (t\<lparr>tg_events := tg_events t @ [Port_add sw]\<rparr>)" if "tg_inv env t" for t
    by (rule adv_events [OF that]) (auto dest: event_bound [OF that])
  have s: "vnet_get_sup_hw_interface env sw (tm\<lparr>local_links := ls\<rparr>) = Some (sup_hw env (vnet tm) sw)" if is_add for ls
    using get_sup [OF assms(1), of "tm\<lparr>local_links := ls\<rparr>" sw] assms(3) [OF that] by simp
  show ?thesis using safeI [OF a] safeI [OF adv_trans [OF a b [OF adv_inv [OF a]]]] safeI [OF adv_refl [OF inv]] s
    by (simp add: tg_interface_add_del_function_def Let_def)
qed

lemma wdev_scan_bound: "wdev_scan P k ws = Some i \<Longrightarrow> k \<le> i \<and> i < k + length ws"
  by (induction P k ws rule: wdev_scan.induct) (auto split: if_splits)

lemma adv_up_down: 
  assumes "vnet_ok env" and "tg_inv env tm"
  shows "adv env tm (tg_interface_up_down env sw up tm)"
proof -
  let ?t = "tg_interface_copy_flags env sw up tm"
  have a: "adv env tm ?t" using adv_copy_flags [OF assms] .
  have "adv env ?t (?t\<lparr>tg_events := tg_events ?t @ [Port_up i (length (wigig_devs ?t))]\<rparr>)" if "i < length (wigig_devs ?t)" for i
    using that by (intro adv_events [OF adv_inv [OF a]]) (auto dest: event_bound [OF adv_inv [OF a]])
  then show ?thesis using a wdev_scan_bound [of _ 0 "wigig_devs ?t"] adv_trans [OF a]
    by (auto simp: tg_interface_up_down_def Let_def tg_get_wdev_by_sw_if_index_def split: option.split)
qed

lemma adv_rx_ready:
  assumes "tg_inv env tm" and "i < length (wigig_devs tm)"
  shows "adv env tm (tm\<lparr>wigig_devs := (wigig_devs tm)[i := (wigig_devs tm ! i)\<lparr>rx_ready := b\<rparr>]\<rparr>)"
  using assms dev_index [OF assms] by (intro adv_same devs_update) simp_all

lemma adv_fd_ready: "tg_inv env tm \<Longrightarrow> adv env tm (snd (tg_link_local_rx_fd_read_ready i tm))"
  by (simp add: tg_link_local_rx_fd_read_ready_def adv_rx_ready adv_refl)

text \<open>The packets the driver gives for the slow path name links of the table.\<close>

definition rx_links_ok :: "node_env \<Rightarrow> 'v tgcfg_main \<Rightarrow> bool" where
  "rx_links_ok ne tm \<longleftrightarrow> (\<forall>w \<in> set (wigig_devs tm). \<forall>b \<in> set (slowpath_rx ne (wd_dev w)). unat (link_id b) < length (terra_links tm))"

lemma local_rx_some:
  "(\<And>b. b \<in> set bs \<Longrightarrow> unat (link_id b) < length (terra_links tm)) \<Longrightarrow> \<exists>out. local_rx_packets w tm bs = Some out"
proof (induction bs)
  case (Cons b bs)
  have "unat (ucast (link_id b) :: u32) = unat (link_id b)"
    using unsigned_less [of "link_id b", where ?'a = nat] by (simp add: unsigned_ucast_eq take_bit_nat_eq_self)
  with Cons show ?case by (auto simp: local_rx_packet_def vec_elt_def)
qed simp

lemma rx_links_ready:
  assumes "rx_links_ok ne tm" and "i < length (wigig_devs tm)"
  shows "rx_links_ok ne (tm\<lparr>wigig_devs := (wigig_devs tm)[i := (wigig_devs tm ! i)\<lparr>rx_ready := b\<rparr>]\<rparr>)"
proof -
  have "\<exists>w' \<in> set (wigig_devs tm). wd_dev w = wd_dev w'"
    if "w \<in> set ((wigig_devs tm)[i := (wigig_devs tm ! i)\<lparr>rx_ready := b\<rparr>])" for w
  proof -
    have "w = (wigig_devs tm ! i)\<lparr>rx_ready := b\<rparr> \<or> w \<in> set (wigig_devs tm)"
      using that set_update_subset_insert [of "wigig_devs tm" i "(wigig_devs tm ! i)\<lparr>rx_ready := b\<rparr>"] by blast
    then show ?thesis using nth_mem [OF assms(2)] by auto
  qed
  with assms(1) show ?thesis by (fastforce simp: rx_links_ok_def)
qed

lemma safe_local_rx_devs:
  "tg_inv env tm \<Longrightarrow> rx_links_ok ne tm \<Longrightarrow> (\<And>i. i \<in> set is \<Longrightarrow> i < length (wigig_devs tm)) \<Longrightarrow>
   safe env tm (map_option snd (local_rx_devs ne is tm))"
proof (induction "is" arbitrary: tm)
  case (Cons i "is")
  let ?t = "tm\<lparr>wigig_devs := (wigig_devs tm)[i := (wigig_devs tm ! i)\<lparr>rx_ready := False\<rparr>]\<rparr>"
  have i: "i < length (wigig_devs tm)" using Cons.prems(3) by simp
  have a: "adv env tm ?t" using adv_rx_ready [OF Cons.prems(1) i] .
  have r: "rx_links_ok ne ?t" using rx_links_ready [OF Cons.prems(2) i] .
  have "wigig_devs ?t ! i \<in> set (wigig_devs ?t)" using i by (intro nth_mem) simp
  then have "\<exists>out. tg_link_local_rx_dev ne (wigig_devs ?t ! i) ?t = Some out"
    unfolding tg_link_local_rx_dev_def using r unfolding rx_links_ok_def
    by (intro local_rx_some) (blast dest: in_set_takeD)
  then obtain out where o: "tg_link_local_rx_dev ne (wigig_devs ?t ! i) ?t = Some out" ..
  have "safe env ?t (map_option snd (local_rx_devs ne is ?t))"
    by (rule Cons.IH [OF adv_inv [OF a] r]) (use Cons.prems(3) in simp)
  then have s: "safe env tm (map_option snd (local_rx_devs ne is ?t))" by (rule safe_after [OF a])
  show ?case
  proof (cases "rx_ready (wigig_devs tm ! i)")
    case True
    with s o show ?thesis by (cases "local_rx_devs ne is ?t") (auto simp: safe_def Let_def)
  next
    case False
    have "safe env tm (map_option snd (local_rx_devs ne is tm))"
      by (rule Cons.IH [OF Cons.prems(1,2)]) (use Cons.prems(3) in simp)
    with False show ?thesis by simp
  qed
qed (simp add: safeI adv_refl)

lemma safe_local_rx: "tg_inv env tm \<Longrightarrow> rx_links_ok ne tm \<Longrightarrow> safe env tm (map_option snd (tg_link_local_rx ne tm))"
  unfolding tg_link_local_rx_def by (rule safe_local_rx_devs) auto

section \<open>Runs of the plugin\<close>

datatype 'v tg_op =
    Tg_config "cfg_item list"
  | Tg_process bool
  | Tg_add_del u32 bool
  | Tg_up_down u32 bool
  | Tg_link_up link_updown_info
  | Tg_link_down link_updown_info
  | Tg_recovery u32
  | Tg_wigig_down u32
  | Tg_key_set u32
  | Tg_setup "setup_word list"
  | Tg_setup_wired "wired_word list"
  | Tg_dump bool "(u32 \<times> string) list"
  | Tg_rx_ready nat
  | Tg_local_rx node_env
  | Tg_exit
  | Tg_vpp 'v

fun tg_exec :: "'v vpp_ops \<Rightarrow> 'v tg_op \<Rightarrow> 'v tgcfg_main \<Rightarrow> 'v tgcfg_main option" where
  "tg_exec env (Tg_config cs) tm = Some (snd (tgcfg_config env cs tm))"
| "tg_exec env (Tg_process adds) tm = tgcfg_interface_event_process env adds tm"
| "tg_exec env (Tg_add_del sw is_add) tm = tg_interface_add_del_function env sw is_add tm"
| "tg_exec env (Tg_up_down sw up) tm = Some (tg_interface_up_down env sw up tm)"
| "tg_exec env (Tg_link_up d) tm = tg_link_up_handler env d tm"
| "tg_exec env (Tg_link_down d) tm = tg_link_down_handler env d tm"
| "tg_exec env (Tg_recovery p) tm = Some (tg_wigig_recovery_handler env p tm)"
| "tg_exec env (Tg_wigig_down p) tm = Some (tg_wigig_down_handler env p tm)"
| "tg_exec env (Tg_key_set n) tm = tg_link_key_set_handler env n tm"
| "tg_exec env (Tg_setup ws) tm = map_option snd (tg_interface_enable_disable_command_fn env ws tm)"
| "tg_exec env (Tg_setup_wired ws) tm = map_option snd (tg_wired_interface_enable_command_fn env ws tm)"
| "tg_exec env (Tg_dump rp taps) tm = Some (vl_api_interface_map_dump_t_handler env rp taps tm)"
| "tg_exec env (Tg_rx_ready i) tm = Some (snd (tg_link_local_rx_fd_read_ready i tm))"
| "tg_exec env (Tg_local_rx ne) tm = map_option snd (tg_link_local_rx ne tm)"
| "tg_exec env Tg_exit tm = Some (tgcfg_exit env tm)"
| "tg_exec env (Tg_vpp v) tm = Some (tm\<lparr>vnet := v\<rparr>)"

text \<open>
  What the plugin relies on from one operation to the next: the driver reports events and packets of
  links that are set up; a hook is called for an interface that exists; VPP keeps interfaces; the devices
  of pending events have not been moved; the registrations of a set-up succeed; and the number of a new
  or wired port is that of a hardware interface, because the code looks the port up among these.
\<close>

definition wired_words_of :: "wired_word list \<Rightarrow> u32 \<times> tgcfg_slowpath_map" where
  "wired_words_of ws = wired_words ws (NO_IF, \<lparr>sm_vpp_name = [], sm_tap_name = None, wired_security_enable = False,
     ipv6_slowpath_enable = True\<rparr>)"

fun tg_op_ok :: "'v vpp_ops \<Rightarrow> 'v tg_op \<Rightarrow> 'v tgcfg_main \<Rightarrow> bool" where
  "tg_op_ok env (Tg_process adds) tm = (if adds then ports_ok env tm else events_ok env tm)"
| "tg_op_ok env (Tg_add_del sw is_add) tm = (is_add \<longrightarrow> \<not> sw_free env (vnet tm) sw)"
| "tg_op_ok env (Tg_setup ws) tm = (let (sw, slow) = setup_words ws (NO_IF, True) in setup_registers env sw slow tm)"
| "tg_op_ok env (Tg_setup_wired ws) tm = port_number_ok env (vnet tm) (fst (wired_words_of ws))"
| "tg_op_ok env (Tg_link_up d) tm = link_set (ud_nameunit d) tm"
| "tg_op_ok env (Tg_link_down d) tm = link_set (ud_nameunit d) tm"
| "tg_op_ok env (Tg_key_set n) tm = link_set n tm"
| "tg_op_ok env (Tg_local_rx ne) tm = rx_links_ok ne tm"
| "tg_op_ok env (Tg_vpp v) tm = persist env (vnet tm) v"
| "tg_op_ok env _ tm = True"

fun tg_run :: "'v vpp_ops \<Rightarrow> 'v tg_op list \<Rightarrow> 'v tgcfg_main \<Rightarrow> 'v tgcfg_main option" where
  "tg_run env [] tm = Some tm"
| "tg_run env (x # xs) tm = do { tm \<leftarrow> tg_exec env x tm; tg_run env xs tm }"

fun tg_run_ok :: "'v vpp_ops \<Rightarrow> 'v tg_op list \<Rightarrow> 'v tgcfg_main \<Rightarrow> bool" where
  "tg_run_ok env [] tm = True"
| "tg_run_ok env (x # xs) tm = (tg_op_ok env x tm \<and> (case tg_exec env x tm of None \<Rightarrow> True | Some tm' \<Rightarrow> tg_run_ok env xs tm'))"

lemma safe_setup:
  assumes "vnet_ok env" and "tg_inv env tm" and "tg_op_ok env (Tg_setup ws) tm"
  shows "safe env tm (map_option snd (tg_interface_enable_disable_command_fn env ws tm))"
proof -
  obtain sw slow where w: "setup_words ws (NO_IF, True) = (sw, slow)" by force
  with assms(3) have "setup_registers env sw slow tm" by simp
  then obtain rc t where "tg_interface_enable env sw slow tm = Some (rc, t)" "adv env tm t"
    using safe_interface_enable [OF assms(1,2)] by metis
  then show ?thesis using w adv_refl [OF assms(2)] by (simp add: tg_interface_enable_disable_command_fn_def safeI)
qed

lemma safe_setup_wired:
  assumes "vnet_ok env" and "tg_inv env tm" and "port_number_ok env (vnet tm) (fst (wired_words_of ws))"
  shows "safe env tm (map_option snd (tg_wired_interface_enable_command_fn env ws tm))"
proof -
  obtain sw sp where w: "wired_words ws (NO_IF, \<lparr>sm_vpp_name = [], sm_tap_name = None, wired_security_enable = False,
      ipv6_slowpath_enable = True\<rparr>) = (sw, sp)" by force
  then have "safe env tm (map_option snd (tg_wired_interface_enable env sw sp tm))"
    using safe_wired_enable [OF assms(1,2), of sw sp] assms(3) by (simp add: wired_words_of_def)
  then show ?thesis using w safeI [OF adv_refl [OF assms(2)]]
    by (cases "tg_wired_interface_enable env sw sp tm") (auto simp: tg_wired_interface_enable_command_fn_def Let_def)
qed

lemmas adv_ops = adv_config adv_up_down adv_recovery adv_wigig_down adv_dump adv_exit

lemma exec_safe:
  assumes "vnet_ok env" and "tg_inv env tm" and "tg_op_ok env x tm" and "\<And>n. x \<noteq> Tg_key_set n"
  shows "safe env tm (tg_exec env x tm)"
  using assms
  by (cases x) (auto intro: safeI adv_ops safe_process safe_add_del safe_link_up safe_link_down safe_setup safe_setup_wired adv_fd_ready
      safe_local_rx adv_vnet)

text \<open>A call that lets all traffic pass is only made for the interface of a link whose key was set.\<close>

lemma exec_step:
  assumes "vnet_ok env" and "tg_inv env tm" and "tg_op_ok env x tm"
  obtains tm' cs where "tg_exec env x tm = Some tm'" "tg_inv env tm'" "persist env (vnet tm) (vnet tm')" "vcalls tm' = vcalls tm @ cs"
    "\<And>hw. Eapol_only hw False \<in> set cs \<Longrightarrow>
       \<exists>n sw. x = Tg_key_set n \<and> link_live env (vnet tm) (unat n) sw \<and> hw = sw_hw env (vnet tm) sw"
proof (cases "\<exists>n. x = Tg_key_set n")
  case True
  then obtain n where x: "x = Tg_key_set n" by blast
  then have "link_set n tm" using assms(3) by simp
  then obtain sw where sw: "link_sw env n tm = Some (sw, sw_hw env (vnet tm) sw)" "link_live env (vnet tm) (unat n) sw"
    using link_sw_live [OF assms(2)] by metis
  let ?t = "vpp_call env (Eapol_only (sw_hw env (vnet tm) sw) False) tm"
  have p: "persist env (vnet tm) (vpp_step env (Eapol_only (sw_hw env (vnet tm) sw) False) (vnet tm))" using vpp_lawD(2) [OF assms(1)] .
  then have "tg_inv env ?t" using adv_inv [OF adv_vnet [OF assms(2) p]] by (simp add: tg_inv_def)
  with that [of ?t "[Eapol_only (sw_hw env (vnet tm) sw) False]"] sw x p show ?thesis
    by (auto simp: tg_link_key_set_handler_def)
next
  case False
  with exec_safe [OF assms] obtain tm' where t: "tg_exec env x tm = Some tm'" "adv env tm tm'" by (auto simp: safe_def)
  then obtain cs where "vcalls tm' = vcalls tm @ cs" "\<forall>hw. Eapol_only hw False \<notin> set cs" by (auto simp: adv_def)
  with t show ?thesis using that [of tm' cs] by (auto simp: adv_def)
qed

lemma run_step:
  assumes "vnet_ok env" and "tg_inv env tm" and "tg_run_ok env xs tm"
  shows "\<exists>tm'. tg_run env xs tm = Some tm' \<and> tg_inv env tm' \<and> persist env (vnet tm) (vnet tm')"
  using assms(2,3)
proof (induction xs arbitrary: tm)
  case (Cons x xs)
  then obtain t where t: "tg_exec env x tm = Some t" "tg_inv env t" "persist env (vnet tm) (vnet t)"
    using exec_step [OF assms(1), of tm x] by (metis tg_run_ok.simps(2))
  then obtain t' where "tg_run env xs t = Some t'" "tg_inv env t'" "persist env (vnet t) (vnet t')"
    using Cons.IH [of t] Cons.prems(2) by auto
  with t show ?case by (auto intro: persist_trans)
qed simp

text \<open>Whether the last call for the interface restricts it to authentication.\<close>

definition eapol_set :: "u32 \<Rightarrow> vcall list \<Rightarrow> bool" where
  "eapol_set hw cs = foldl (\<lambda>s c. case c of Eapol_only h b \<Rightarrow> if h = hw then b else s | _ \<Rightarrow> s) False cs"

lemma eapol_stays: "eapol_set hw cs \<Longrightarrow> Eapol_only hw False \<notin> set ds \<Longrightarrow> eapol_set hw (cs @ ds)"
proof (induction ds arbitrary: cs)
  case (Cons d ds)
  have "eapol_set hw (cs @ [d])" using Cons.prems by (cases d) (auto simp: eapol_set_def)
  with Cons.IH [of "cs @ [d]"] Cons.prems(2) show ?case by simp
qed simp

lemma live_hw_inst: "link_live env v n sw \<Longrightarrow> unat (hw_instance env v (sw_hw env v sw)) = n"
  by (simp add: link_live_def)

lemma eapol_run:
  assumes "vnet_ok env" and "tg_inv env tm" and "tg_run_ok env xs tm" and "link_live env (vnet tm) (unat n) sw"
    and "eapol_set (sw_hw env (vnet tm) sw) (vcalls tm)" and "Tg_key_set n \<notin> set xs"
  shows "\<exists>tm'. tg_run env xs tm = Some tm' \<and> eapol_set (sw_hw env (vnet tm) sw) (vcalls tm')"
  using assms(2-)
proof (induction xs arbitrary: tm)
  case (Cons x xs)
  let ?hw = "sw_hw env (vnet tm) sw"
  obtain t cs where t: "tg_exec env x tm = Some t" "tg_inv env t" "persist env (vnet tm) (vnet t)" "vcalls t = vcalls tm @ cs"
    "\<And>hw. Eapol_only hw False \<in> set cs \<Longrightarrow> \<exists>m s. x = Tg_key_set m \<and> link_live env (vnet tm) (unat m) s \<and> hw = sw_hw env (vnet tm) s"
    using exec_step [OF assms(1), of tm x] Cons.prems(1,2) by (metis tg_run_ok.simps(2))
  have "Eapol_only ?hw False \<notin> set cs"
  proof
    assume "Eapol_only ?hw False \<in> set cs"
    then obtain m s where m: "x = Tg_key_set m" "link_live env (vnet tm) (unat m) s" "?hw = sw_hw env (vnet tm) s"
      using t(5) by blast
    then have "unat m = unat n" using live_hw_inst [OF m(2)] live_hw_inst [OF Cons.prems(3)] by simp
    then show False using m(1) Cons.prems(5) by (simp add: word_unat_eq_iff)
  qed
  then have e: "eapol_set ?hw (vcalls t)" using Cons.prems(4) t(4) eapol_stays by simp
  have hw: "sw_hw env (vnet t) sw = ?hw" using t(3) Cons.prems(3) by (simp add: persist_def if_kept_def link_live_def)
  show ?case
    using Cons.IH [OF t(2) _ live_persist [OF t(3) Cons.prems(3)]] e hw t(1) Cons.prems(2,5) by auto
qed simp

text \<open>Only setting up a radio, by command or for a new port, changes the interfaces of the links.\<close>

fun sets_up :: "'v tg_op \<Rightarrow> bool" where
  "sets_up (Tg_setup ws) = True"
| "sets_up (Tg_process adds) = adds"
| "sets_up _ = False"

lemma fold_links: "(\<And>x t. terra_links (f x t) = terra_links t) \<Longrightarrow> terra_links (fold f xs tm) = terra_links tm"
  by (induction xs arbitrary: tm) simp_all

lemma cfg_items_links: "terra_links (snd (cfg_items cs tm)) = terra_links tm"
proof (induction cs arbitrary: tm)
  case (Cons c cs)
  then show ?case by (cases c) (simp_all add: Let_def split: option.split)
qed simp

lemma config_links: "terra_links (snd (tgcfg_config env cs tm)) = terra_links tm"
  using cfg_items_links [of cs "tm\<lparr>auto_probe := True, slowpath_enable := True, wsec_enable := False\<rparr>"]
  by (auto simp: tgcfg_config_def tgcfg_setup_host_interface_def Let_def split: prod.split option.split)

lemma copy_flags_links: "terra_links (tg_interface_copy_flags env sw up tm) = terra_links tm"
  by (auto simp: tg_interface_copy_flags_def Let_def fold_links copy_link_flags_def split: option.split)

lemma ports_up_links: "ports_up env es tm = Some t \<Longrightarrow> terra_links t = terra_links tm"
proof (induction env es tm rule: ports_up.induct)
  case (2 env i n es tm)
  then obtain u where u: "tg_wigig_device_up env i n tm = Some u" "terra_links t = terra_links u" by (auto simp: bind_eq_Some_conv)
  then show ?case by (auto simp: tg_wigig_device_up_def file_add_def Let_def split: if_splits option.splits)
qed simp_all

lemma wired_enable_links: "tg_wired_interface_enable env sw sp tm = Some (rc, t) \<Longrightarrow> terra_links t = terra_links tm"
  by (auto simp: tg_wired_interface_enable_def wired_maps_def Let_def split: if_splits option.splits prod.splits)

lemma local_rx_links: "local_rx_devs ne is tm = Some (out, t) \<Longrightarrow> terra_links t = terra_links tm"
  by (induction "is" arbitrary: tm out) (auto simp: Let_def bind_eq_Some_conv split: if_splits)

lemma dump_links: "terra_links (vl_api_interface_map_dump_t_handler env rp taps tm) = terra_links tm"
  unfolding vl_api_interface_map_dump_t_handler_def
  by (cases rp; simp; rule fold_links) (simp add: case_prod_beta split: option.split)

lemma exec_links: "tg_exec env x tm = Some t \<Longrightarrow> \<not> sets_up x \<Longrightarrow> terra_links t = terra_links tm"
proof (cases x)
  case (Tg_setup_wired ws)
  then show "tg_exec env x tm = Some t \<Longrightarrow> terra_links t = terra_links tm"
    by (auto simp: tg_wired_interface_enable_command_fn_def Let_def bind_eq_Some_conv dest: wired_enable_links split: prod.splits if_splits)
qed (auto simp: config_links copy_flags_links fold_links tgcfg_interface_event_process_def tg_interface_add_del_function_def
    tg_interface_up_down_def tg_link_up_handler_def tg_link_down_handler_def tg_wigig_recovery_handler_def tg_wigig_down_handler_def
    tg_link_key_set_handler_def dump_links tg_link_local_rx_fd_read_ready_def tg_link_local_rx_def
    tgcfg_exit_def Let_def bind_eq_Some_conv dest: ports_up_links local_rx_links split: if_splits option.splits)

section \<open>What the plugin promises\<close>

definition tg_fresh :: "'v tgcfg_main \<Rightarrow> bool" where
  "tg_fresh tm \<longleftrightarrow> terra_links tm = [] \<and> wigig_devs tm = [] \<and> wired_links tm = [] \<and> local_links tm = [] \<and> tg_events tm = []"

lemma fresh_inv: "tg_fresh tm \<Longrightarrow> tg_inv env (snd (tgcfg_init a b c tm))"
  by (simp add: tg_fresh_def tgcfg_init_def tg_inv_def terra_ok_def local_ok_def devs_ok_def)

lemma run_links:
  "tg_run env xs tm = Some t \<Longrightarrow> \<forall>x \<in> set xs. \<not> sets_up x \<Longrightarrow> terra_links t = terra_links tm"
proof (induction xs arbitrary: tm)
  case (Cons x xs)
  then obtain u where "tg_exec env x tm = Some u" "tg_run env xs u = Some t" by (auto simp: bind_eq_Some_conv)
  then show ?case using exec_links [of env x tm u] Cons.IH [of u] Cons.prems(2) by simp
qed simp


text \<open>
  C2. With wireless security, a link that came up is restricted to authentication traffic until its own key
  is set: after the handler of the link-up event, and after any further operations in which neither the
  driver reports the key of this very link nor a radio is set up, the interface that the link then has is
  the one that was restricted, and the last call of the plugin for it is the restricting one.

  The restriction is the last call of the handler, which raises the link first (\<open>tgcfg_cli.c:273\<close>), so
  the claim starts where the handler ends. A radio that is set up a second time gives its links new
  interfaces (\<open>tgcfg_cli.c:582\<close>), which the next link-up event restricts; such operations are excluded
  (\<open>sets_up\<close>). The operations are given what the plugin relies on (\<open>tg_run_ok\<close>).
\<close>

theorem link_stays_locked:
  assumes "vnet_ok env" and "tg_inv env tm" and "wsec_enable tm" and "tg_run_ok env (Tg_link_up d # xs) tm"
    and "Tg_key_set (ud_nameunit d) \<notin> set xs" and "\<forall>x \<in> set xs. \<not> sets_up x"
  shows "\<exists>tm'. tg_run env (Tg_link_up d # xs) tm = Some tm' \<and> tg_inv env tm' \<and> link_set (ud_nameunit d) tm' \<and>
     eapol_set (sw_hw env (vnet tm') (tg_sw_if_index (terra_links tm' ! unat (ud_nameunit d)))) (vcalls tm')"
proof -
  have l: "link_set (ud_nameunit d) tm" using assms(4) by simp
  obtain sw where sw: "link_sw env (ud_nameunit d) tm = Some (sw, sw_hw env (vnet tm) sw)"
      "link_live env (vnet tm) (unat (ud_nameunit d)) sw" "sw = tg_sw_if_index (terra_links tm ! unat (ud_nameunit d))"
    using link_sw_live [OF assms(2) l] by metis
  obtain t where t: "tg_link_up_handler env d tm = Some t" "adv env tm t"
    using safe_link_up [OF assms(1,2) l] by (auto simp: safe_def)
  have e: "eapol_set (sw_hw env (vnet tm) sw) (vcalls t)"
    using t(1) sw(1) assms(3) by (auto simp: tg_link_up_handler_def Let_def eapol_set_def)
  have p: "persist env (vnet tm) (vnet t)" using t(2) by (simp add: adv_def)
  have hw: "sw_hw env (vnet t) sw = sw_hw env (vnet tm) sw" using p sw(2) by (simp add: persist_def if_kept_def link_live_def)
  have ok: "tg_run_ok env xs t" using assms(4) t(1) by simp
  obtain t' where t': "tg_run env xs t = Some t'" "eapol_set (sw_hw env (vnet t) sw) (vcalls t')"
    using eapol_run [OF assms(1) adv_inv [OF t(2)] ok live_persist [OF p sw(2)]] e hw assms(5) by auto
  have r: "tg_inv env t'" "persist env (vnet t) (vnet t')" using run_step [OF assms(1) adv_inv [OF t(2)] ok] t'(1) by auto
  have "terra_links t = terra_links tm" using exec_links [of env "Tg_link_up d" tm t] t(1) by simp
  then have links: "terra_links t' = terra_links tm" using run_links [OF t'(1) assms(6)] by simp
  have "sw_hw env (vnet t') sw = sw_hw env (vnet t) sw"
    using r(2) live_persist [OF p sw(2)] by (simp add: persist_def if_kept_def link_live_def)
  then show ?thesis using t(1) t' r(1) links l sw(3) by (auto simp: link_set_def)
qed

definition both_ways :: "node_env \<Rightarrow> u32 \<Rightarrow> wigig_link_info \<Rightarrow> 'v tgcfg_main \<Rightarrow> u32 \<Rightarrow> tg_buf \<Rightarrow> bool" where
  "both_ways ne sw l tm tsw b \<longleftrightarrow>
     deliver (terra_links tm) (b\<lparr>link_id := ucast (if_nameunit l)\<rparr>) =
       (Next_ethernet_input, b\<lparr>link_id := ucast (if_nameunit l), rx_if := tsw\<rparr>) \<and>
     link_tx_packet ne tm (b\<lparr>tx_if := tsw\<rparr>) = Some (b\<lparr>tx_if := sw, link_id := ucast (if_peer_id l)\<rparr>) \<and>
     mark_link ne (b\<lparr>rx_if := tsw\<rparr>) = b\<lparr>rx_if := tsw, link_id := ucast (if_nameunit l)\<rparr>"

lemma radio_link_packets:
  assumes "radio_link env sw l tm" and "\<forall>s. dev_instance ne s = hw_instance env (vnet tm) (sup_hw env (vnet tm) s)"
    and "if_nameunit l < 0x10000" and "tsw = tg_sw_if_index (terra_links tm ! unat (if_nameunit l))"
  shows "both_ways ne sw l tm tsw b \<and> link_live env (vnet tm) (unat (if_nameunit l)) tsw"
proof -
  have n: "unat (ucast (if_nameunit l) :: u16) = unat (if_nameunit l)"
    using assms(3) by (simp add: unsigned_ucast_eq take_bit_nat_eq_self word_less_nat_alt)
  have "unat (dev_instance ne tsw) = unat (if_nameunit l)"
    using assms(1,2,4) by (simp add: radio_link_def Let_def link_live_def)
  then have inst: "dev_instance ne tsw = if_nameunit l" by (simp add: word_unat_eq_iff)
  show ?thesis
    using assms(1,4) n inst
    by (auto simp: both_ways_def radio_link_def Let_def deliver_def link_if_def link_tx_packet_def vec_elt_def mark_link_def)
qed

text \<open>
  C8. Setting up a radio gives every link of the device an interface of its own, and the two directions
  agree: a packet that the radio received with the link's number is given to this interface; a packet
  sent on the interface leaves by the radio for the link's peer; and a local packet of the interface is
  marked with the link's number. A set-up that is refused changes nothing.
\<close>

theorem radio_links_mapped:
  assumes "vnet_ok env" and "tg_inv env tm" and "tg_interface_enable env sw slow tm = Some (rc, tm')"
    and "\<forall>s. dev_instance ne s = hw_instance env (vnet tm') (sup_hw env (vnet tm') s)"
  shows "if rc \<noteq> 0 then tm' = tm
    else \<exists>dev wi. device_lookup env (hw_address env (vnet tm) (sw_hw env (vnet tm) sw)) = Some dev \<and>
      device_info env (vnet tm) dev = Some wi \<and>
      (distinct (map if_nameunit (dev_links wi)) \<longrightarrow>
       (\<forall>l \<in> set (dev_links wi). if_nameunit l < 0x10000 \<longrightarrow>
          (\<exists>tsw. link_live env (vnet tm') (unat (if_nameunit l)) tsw \<and> (\<forall>b. both_ways ne sw l tm' tsw b))))"
proof (cases "sw_free env (vnet tm) sw \<or> \<not> sw_hardware env (vnet tm) sw \<or>
    (case device_lookup env (hw_address env (vnet tm) (sw_hw env (vnet tm) sw)) of None \<Rightarrow> True
     | Some dev \<Rightarrow> device_info env (vnet tm) dev = None)")
  case True
  from interface_enable_refused [OF assms(1) this, of slow] assms(3) show ?thesis by auto
next
  case False
  then obtain dev wi where d: "\<not> sw_free env (vnet tm) sw" "sw_hardware env (vnet tm) sw"
    "device_lookup env (hw_address env (vnet tm) (sw_hw env (vnet tm) sw)) = Some dev" "device_info env (vnet tm) dev = Some wi"
    by (auto split: option.splits)
  have "setup_registers env sw slow tm" using failed_registration_faults [of env sw slow tm] assms(3) by force
  with d have rc: "rc = 0" and up: "radio_set_up env sw wi tm tm'"
    using interface_enable_device [OF assms(1,2) d, of slow] assms(3) by auto
  have "radio_link env sw l tm'" if "l \<in> set (dev_links wi)" "distinct (map if_nameunit (dev_links wi))" for l
    using up that by (simp add: radio_set_up_def)
  then have "\<exists>tsw. link_live env (vnet tm') (unat (if_nameunit l)) tsw \<and> (\<forall>b. both_ways ne sw l tm' tsw b)"
    if "l \<in> set (dev_links wi)" "distinct (map if_nameunit (dev_links wi))" "if_nameunit l < 0x10000" for l
    using that radio_link_packets [OF _ assms(4) _ refl] by blast
  then show ?thesis using rc d(3,4) by auto
qed


section \<open>A small VPP\<close>

text \<open>
  A VPP with a radio port 0, a wired port 1, an interface for each of the links 0 to 3, and at most one tap
  device; its state tells whether the tap device exists.
\<close>

definition small_vpp :: "bool vpp_ops" where
  "small_vpp = \<lparr>vpp_step = \<lambda>c v. v, sw_free = \<lambda>v sw. \<not> (sw \<in> {0, 1, 100, 101, 102, 103} \<or> sw = 9 \<and> v),
     hw_free = \<lambda>v hw. \<not> (hw \<in> {0, 1, 100, 101, 102, 103} \<or> hw = 9 \<and> v),
     sw_hardware = \<lambda>v sw. True, sw_hw = \<lambda>v sw. sw, sup_hw = \<lambda>v sw. sw, hw_sw = \<lambda>v hw. hw, hw_instance = \<lambda>v hw. hw - 100,
     hw_address = \<lambda>v hw. [ucast hw], hw_name = \<lambda>v hw. ''port'', hw_class = \<lambda>v hw. ''dpdk'', hw_max_packet = \<lambda>v hw. 9000,
     hw_speed = \<lambda>v hw. 1000, sw_mtu = \<lambda>v sw. 1500, sw_admin_up = \<lambda>v sw. True, set_flags_fails = \<lambda>v sw. False,
     register_interface = \<lambda>inst a v. if inst \<in> {0, 1, 2, 3} then Some (100 + inst, v) else None,
     tap_connect = \<lambda>n a v. if v then (- 1, 0, v) else (0, 9, True), tap_delete = \<lambda>tap v. tap \<noteq> 9 \<and> v,
     set_l2_xc = \<lambda>tap sw v. (0, v), create_loopback = \<lambda>v. (- 1, 0, v),
     device_lookup = \<lambda>a. if a = [0] then Some 0 else None,
     device_info = \<lambda>v d. Some \<lparr>port_id = 7, data_fd = 3, dev_links = [\<lparr>if_nameunit = 0, if_peer_id = 5\<rparr>, \<lparr>if_nameunit = 2, if_peer_id = 6\<rparr>]\<rparr>,
     MODE_ERROR_ETH = 1, MODE_ERROR_BVI_DEF = 2, VNET_API_ERROR_NON_ETHERNET = - 20, VNET_API_ERROR_BD_ALREADY_HAS_BVI = - 21,
     vec_moved = \<lambda>n m. n < m, MAX_LINKS = 3\<rparr>"

definition small_main :: "bool tgcfg_main" where
  "small_main = \<lparr>auto_probe = True, slowpath_enable = True, wsec_enable = True, host_iface_name = None, terra_links = [],
     wigig_devs = [], wired_links = [], local_links = [], slowpath_maps = [], host_sw_if_index = NO_IF, loop_sw_if_index = 0,
     ula_test_prefix = (0, 0), n_files = 0, tg_events = [], vcalls = [], vnet = False\<rparr>"

lemma small_persist: "v \<le> v' \<Longrightarrow> persist small_vpp v v'"
  by (auto simp: persist_def if_kept_def small_vpp_def)

lemma small_register: "register_law small_vpp inst a v"
  by (auto simp: register_law_def link_live_def persist_def if_kept_def small_vpp_def)

lemma small_vnet_ok: "vnet_ok small_vpp"
proof -
  have "MAX_LINKS small_vpp = 3" "vpp_step small_vpp c v = v" "snd (set_l2_xc small_vpp tap sw v) = v"
    "snd (snd (create_loopback small_vpp v)) = v" "sw_free small_vpp v NO_IF" for c v tap sw
    by (simp_all add: small_vpp_def)
  moreover have "tap_law small_vpp n a v" for n a v
    by (auto simp: tap_law_def one_more_def same_ifs_def small_vpp_def persist_def if_kept_def)
  moreover have "tap_delete_law small_vpp n a sw v" for n a sw v
    by (auto simp: tap_delete_law_def small_vpp_def if_kept_def Let_def)
  moreover have "\<not> hw_free small_vpp v (sup_hw small_vpp v sw) \<and> \<not> hw_free small_vpp v (sw_hw small_vpp v sw)"
    if "\<not> sw_free small_vpp v sw" for v sw
    using that by (simp add: small_vpp_def)
  moreover have "same_ifs small_vpp v v" for v by (simp add: same_ifs_def)
  moreover have "unat (if_nameunit l) \<le> 3" if "device_info small_vpp v dev = Some wi" "l \<in> set (dev_links wi)" for v dev wi l
    using that by (auto simp: small_vpp_def)
  ultimately show ?thesis using small_register by (simp add: vnet_ok_def)
qed

text \<open>A state in which the radio is set up, and how it is reached.\<close>

definition small_up :: "bool tgcfg_main" where
  "small_up = (case tg_interface_enable small_vpp 0 True small_main of None \<Rightarrow> small_main | Some (rc, tm) \<Rightarrow> tm)"

lemma list4: "replicate 4 x = [x, x, x, x]" "[a, b, c, d][2 := y] = [a, b, y, d]" "[a, b, c, d] ! 2 = c"
  by (simp_all add: numeral_eq_Suc)

lemmas small_eval = list4 vnet_get_sup_hw_interface_def vnet_get_sw_interface_def vnet_get_hw_interface_def tg_interface_enable_def enable_link_def enable_slowpath_on_def file_add_def vpp_call_def vec_elt_def vec_grow_def
  TG_LINK_INVALID_def small_vpp_def small_main_def Let_def

lemma small_up_links: "terra_links small_up =
    [\<lparr>bb_sw_if_index = 0, tg_sw_if_index = 100, tg_peer_id = 5\<rparr>, TG_LINK_INVALID,
     \<lparr>bb_sw_if_index = 0, tg_sw_if_index = 102, tg_peer_id = 6\<rparr>, TG_LINK_INVALID]"
  by (simp add: small_up_def small_eval)

lemma small_main_inv: "tg_inv small_vpp small_main"
  by (simp add: small_main_def tg_inv_def terra_ok_def local_ok_def devs_ok_def)

lemma small_registers: "setup_registers small_vpp 0 True small_main"
  by (simp add: setup_registers_def links_start_def vnet_get_sup_hw_interface_def vnet_get_sw_interface_def vnet_get_hw_interface_def small_eval)

lemma small_enable: "tg_interface_enable small_vpp 0 True small_main = Some (0, small_up)" and small_up_inv: "tg_inv small_vpp small_up"
proof -
  let ?wi = "\<lparr>port_id = 7, data_fd = 3, dev_links = [\<lparr>if_nameunit = 0, if_peer_id = 5\<rparr>, \<lparr>if_nameunit = 2, if_peer_id = 6\<rparr>]\<rparr>"
  have "\<not> sw_free small_vpp (vnet small_main) 0" "sw_hardware small_vpp (vnet small_main) 0"
    "device_lookup small_vpp (hw_address small_vpp (vnet small_main) (sw_hw small_vpp (vnet small_main) 0)) = Some 0"
    "device_info small_vpp (vnet small_main) 0 = Some ?wi"
    by (simp_all add: small_vpp_def)
  from interface_enable_device [OF small_vnet_ok small_main_inv this small_registers] obtain t
    where t: "tg_interface_enable small_vpp 0 True small_main = Some (0, t)" "adv small_vpp small_main t" by blast
  then have "small_up = t" by (simp add: small_up_def)
  with t show "tg_interface_enable small_vpp 0 True small_main = Some (0, small_up)" "tg_inv small_vpp small_up"
    by (auto dest: adv_inv)
qed

lemma small_link_up:
  obtains t where "tg_link_up_handler small_vpp \<lparr>ud_nameunit = 2, ud_peer_macaddr = [1]\<rparr> small_up = Some t" "link_set 2 t" "link_set 0 t"
proof -
  let ?d = "\<lparr>ud_nameunit = 2, ud_peer_macaddr = [1]\<rparr>"
  have l: "link_set 2 small_up" "link_set 0 small_up" by (simp_all add: link_set_def small_up_links)
  then obtain t where t: "tg_link_up_handler small_vpp ?d small_up = Some t"
    using safe_link_up [OF small_vnet_ok small_up_inv, of ?d] by (auto simp: safe_def)
  then have "terra_links t = terra_links small_up" 
    by (auto simp: tg_link_up_handler_def Let_def bind_eq_Some_conv)
  with t l that show thesis by (simp add: link_set_def)
qed


theorem link_stays_locked_witness:
  "\<exists>tm'. tg_run small_vpp [Tg_link_up \<lparr>ud_nameunit = 2, ud_peer_macaddr = [1]\<rparr>, Tg_key_set 0] small_up = Some tm' \<and>
     tg_inv small_vpp tm' \<and> link_set 2 tm' \<and>
     eapol_set (sw_hw small_vpp (vnet tm') (tg_sw_if_index (terra_links tm' ! unat (2 :: u32)))) (vcalls tm')"
proof -
  obtain t where t: "tg_link_up_handler small_vpp \<lparr>ud_nameunit = 2, ud_peer_macaddr = [1]\<rparr> small_up = Some t" "link_set 0 t"
    by (rule small_link_up)
  have "link_set 2 small_up" by (simp add: link_set_def small_up_links)
  with t have "tg_run_ok small_vpp [Tg_link_up \<lparr>ud_nameunit = 2, ud_peer_macaddr = [1]\<rparr>, Tg_key_set 0] small_up"
    by (simp split: option.split)
  moreover have "wsec_enable small_up" by (simp add: small_up_def small_eval)
  ultimately show ?thesis
    using link_stays_locked [OF small_vnet_ok small_up_inv, of "\<lparr>ud_nameunit = 2, ud_peer_macaddr = [1]\<rparr>" "[Tg_key_set 0]"] by simp
qed

definition small_nodes :: node_env where
  "small_nodes = \<lparr>feature_next = \<lambda>b. 3, receive_dpo = \<lambda>i. i, dev_instance = \<lambda>sw. sw - 100, buffer_reset = \<lambda>b. b,
     buffer_copy = \<lambda>k b. Some b, slowpath_tx = \<lambda>bs. int (length bs), slowpath_rx = \<lambda>d. []\<rparr>"

theorem radio_links_mapped_witness:
  "\<exists>tsw. link_live small_vpp (vnet small_up) 2 tsw \<and>
     both_ways small_nodes 0 \<lparr>if_nameunit = 2, if_peer_id = 6\<rparr> small_up tsw
       \<lparr>link_id = 0, rx_if = 0, tx_if = 0, cur_data = 0, cur_len = 60, rest_len = 0, buf_flags = 0, l2_hdr_offset = 0,
        adj_index = 0, arc_index = 0, mbuf_len = 60, pdata = \<lambda>i. 0\<rparr>"
proof -
  have "\<forall>s. dev_instance small_nodes s = hw_instance small_vpp (vnet small_up) (sup_hw small_vpp (vnet small_up) s)"
    by (simp add: small_nodes_def small_vpp_def)
  from radio_links_mapped [OF small_vnet_ok small_main_inv small_enable this]
  show ?thesis by (auto simp: small_vpp_def)
qed


text \<open>The packet nodes on the small plugin: packets of link 2, of a link without interface, and of no link.\<close>

definition small_buf :: "u16 \<Rightarrow> tg_buf" where
  "small_buf n = \<lparr>link_id = n, rx_if = 0, tx_if = 0, cur_data = 0, cur_len = 60, rest_len = 0, buf_flags = 0, l2_hdr_offset = - 14,
     adj_index = 0, arc_index = 0, mbuf_len = 60, pdata = \<lambda>i. 0\<rparr>"

theorem link_input_exact_witness:
  "\<exists>c' cached'. tg_link_input (\<lambda>_. True) 0 (\<lambda>sw. (0, 0)) [small_buf 2, small_buf 1, small_buf 2, small_buf 9] small_up =
     Some ([(Next_ethernet_input, (small_buf 2)\<lparr>rx_if := 102\<rparr>), (Next_error_drop, small_buf 1),
            (Next_ethernet_input, (small_buf 2)\<lparr>rx_if := 102\<rparr>), (Next_error_drop, small_buf 9)], c', cached', 2, 2) \<and>
     c' 102 = (2, 120) \<and> c' 100 = (0, 0)"
proof -
  have if_of: "link_if (terra_links small_up) (small_buf 2) = Some 102" "link_if (terra_links small_up) (small_buf 1) = None"
    "link_if (terra_links small_up) (small_buf 9) = None"
    by (simp_all add: link_if_def small_up_links small_buf_def TG_LINK_INVALID_def)
  have len: "cur_len (small_buf 2) = 60" by (simp add: small_buf_def)
  show ?thesis
    using link_input_exact [of "[small_buf 2, small_buf 1, small_buf 2, small_buf 9]" "\<lambda>_. True" 0 "\<lambda>sw. (0, 0)" small_up]
    by (auto simp: if_of deliver_def packets_of_def len)
qed

theorem slowpath_decides_witness:
  "tg_slowpath_receive small_nodes (\<lambda>_. True) [(small_buf 2)\<lparr>adj_index := 102\<rparr>, (small_buf 2)\<lparr>adj_index := 101\<rparr>] small_up =
     Some [(0, (small_buf 2)\<lparr>adj_index := 102\<rparr>), (3, (small_buf 2)\<lparr>adj_index := 101\<rparr>)]"
proof -
  have l: "length (local_links small_up) = 103" "local_links small_up ! 102 = 102" "local_links small_up ! 101 = NO_IF"
    by (simp_all add: small_up_def small_eval nth_list_update nth_append)
  have "pkt_bytes b i 2 = [pdata b i, pdata b (i + 1)]" for b i by (simp add: pkt_bytes_def upt_rec)
  then have u: "\<not> test_address x ((small_buf 2)\<lparr>adj_index := n\<rparr>)" for x n
    by (simp add: test_address_def ip6_frame_def small_buf_def)
  show ?thesis
    using slowpath_decides [of "[(small_buf 2)\<lparr>adj_index := 102\<rparr>, (small_buf 2)\<lparr>adj_index := 101\<rparr>]" small_nodes small_up "\<lambda>_. True"]
    by (simp add: slow_in_range_def for_linux_def u l) (simp add: small_nodes_def small_buf_def l)
qed

theorem wired_local_exact_witness:
  "tg_wired_local_impl small_nodes True (\<lambda>_. True) [small_buf 0, (small_buf 0)\<lparr>rx_if := 7\<rparr>]
     (small_main\<lparr>wired_links := [\<lparr>eth_sw_if_index = 0, tap_sw_if_index = 1\<rparr>]\<rparr>) =
   Some ([(Next_interface_output, (small_buf 0)\<lparr>tx_if := 1\<rparr>), (Next_drop, (small_buf 0)\<lparr>rx_if := 7\<rparr>)], 1, 1)"
  using wired_local_exact [of "[small_buf 0, (small_buf 0)\<lparr>rx_if := 7\<rparr>]" small_nodes True "\<lambda>_. True"
      "small_main\<lparr>wired_links := [\<lparr>eth_sw_if_index = 0, tap_sw_if_index = 1\<rparr>]\<rparr>"]
  by (simp add: wired_out_def small_buf_def small_nodes_def tg_packet_check_for_nd_def net_u16_def)

text \<open>
  The length check of neighbour discovery messages is for 44 bytes, but the target address ends at byte 64:
  two packets that agree in all their bytes are told apart by what lies behind their end.
\<close>

lemma nd_target_behind_end:
  "\<exists>b b'. cur_len b = 44 \<and> b' = b\<lparr>pdata := pdata b'\<rparr> \<and> (\<forall>i < cur_data b + 44. pdata b' i = pdata b i) \<and>
     tg_packet_is_test_ula (0, 0) b \<and> \<not> tg_packet_is_test_ula (0, 0) b'"
proof -
  define d where "d = (\<lambda>i :: int. if i = - 2 then 0x86 else if i = - 1 then 0xDD else if i = 5 then 24 else if i = 6 then 58
    else if i = 40 then 135 else 0 :: u8)"
  let ?b = "(small_buf 0)\<lparr>cur_len := 44, pdata := d\<rparr>" and ?b' = "(small_buf 0)\<lparr>cur_len := 44, pdata := d(48 := 1)\<rparr>"
  have "tg_packet_is_test_ula (0, 0) ?b" "\<not> tg_packet_is_test_ula (0, 0) ?b'"
    by (simp_all add: tg_packet_is_test_ula_def tg_packet_check_for_nd_def net_u16_def as_u64_def small_buf_def d_def)
  then show ?thesis by (intro exI [of _ ?b] exI [of _ ?b']) (simp add: small_buf_def)
qed

end
