(* ===== verification/Spec2Isabelle.thy ===== *)
theory Spec2Isabelle
  imports FwParamPack DvppModule SyncE Ptptc TerraNl UbloxDriver TgPlugin
begin

text \<open>
  A verification library for the C code of the Terragraph build layer (meta-terragraph): the code a
  node runs to move packets between its 60 GHz radios and VPP and to keep its clocks in step.

  \<^bold>\<open>Parts and theories.\<close>
  \<^item> \<open>Prelude\<close>: byte buffers with explicit faults, little-endian encodings, word and list lemmas.
  \<^item> \<open>FwParamPack\<close>: the parameter pack exchanged with the radio firmware
    (\<open>wireless-fw-interface/files/M44.21/fb-fw-if/fb_tg_fw_param_pack.c\<close>), an encoder and decoder of
    (id, value) entries over a byte buffer. The handle is the record \<open>fw_par_hnd\<close>; every access to
    the buffer is checked, and \<open>None\<close> is an access outside of it.
  \<^item> \<open>DvppCache\<close>, \<open>DvppAllocator\<close>, \<open>DvppModule\<close>: the direct-vpp kernel module
    (\<open>direct-vpp/allocator.c\<close>, \<open>direct_vpp.c\<close>), which shares packet buffers between VPP and the
    radio driver: the ring of free descriptors, the vector synchronisation and address translation,
    and the character device with its life cycle. The module globals are the record \<open>dvpp_state\<close>,
    the radio driver and the kernel services are arguments.
  \<^item> \<open>Pfifofc\<close>: the pfifofc queueing discipline (\<open>qdisc-mod/files/src/fb_qdisc_pfifofc.c\<close>), four
    priority bands with flow control. The kernel's packet lists are the argument \<open>skb_ops\<close>.
  \<^item> \<open>Zl3079x\<close>: the PLL driver (\<open>microsemi-dpll/files/src/fb_tgd_zl3079x.c\<close>), which disciplines the
    node clock from timestamps of a radio. The I2C bus is the argument \<open>i2c_ops\<close>.
  \<^item> \<open>Esmc\<close>: the ESMC plugin of VPP (\<open>vpp_plugins/esmc/esmc/node.c\<close>, \<open>esmc.c\<close>), which selects the
    timing source and announces the quality of the node clock.
  \<^item> \<open>SyncE\<close>: the ESMC plugin over the PLL driver.
  \<^item> \<open>Wriop\<close>, \<open>GpsSync\<close>, \<open>Ptptc\<close>: the PTP transparent clock plugin of VPP (\<open>vpp_plugins/ptptc/ptptc\<close>):
    access to the 1588 timer (\<open>dpaa2_wriop.c\<close>), the GPS discipline of that timer (\<open>gps_sync.c\<close>), and
    the packet node with its configuration (\<open>node.c\<close>, \<open>ptptc.c\<close>). The timer registers are the
    argument \<open>wriop_ops\<close>, VPP and DPDK the argument \<open>ptp_env\<close>.
  \<^item> \<open>Amsdu\<close>, \<open>TerraLink\<close>, \<open>TerraPort\<close>, \<open>TerraData\<close>, \<open>TerraDriver\<close>: the Terragraph wireless driver
    (\<open>wireless-mod/files/fb_terragraph\<close>): aggregation of frames (\<open>fb_tgd_amsdu.c\<close>,
    \<open>fb_tgd_route_linux.c\<close>), the table of links, their counters and the calls to the vendor driver
    (\<open>fb_tgd_terragraph_linux.c\<close>, \<open>fb_tgd_backhaul.c\<close>), the security of links (\<open>fb_tgd_cfg80211.c\<close>),
    transmission, reception, flow control and the events of the firmware (\<open>fb_tgd_fw_if.c\<close>,
    \<open>fb_tgd_gps_if.c\<close>), and what the driver promises as a whole. The driver of a radio is the record
    \<open>terra_driver\<close> with its list of \<open>dev_priv\<close>; the vendor driver is the argument \<open>bh_ops\<close>. The function
    \<open>terra_exec\<close> is one request, \<open>terra_reach\<close> the states the driver reaches.
  \<^item> \<open>TerraSb\<close>, \<open>TerraNl\<close>: the other side of that driver: the requests it builds for the firmware and the thread that
    reports the queues (\<open>fb_tgd_fw_if.c\<close>, \<open>fb_tgd_queue_stats.c\<close>), and the netlink interface with the GPS client
    (\<open>fb_tgd_nlsdn.c\<close>, \<open>fb_tgd_nlsdn_common.h\<close>, \<open>fb_tgd_gps_if.c\<close>). The state is the record \<open>nlsdn\<close>: the drivers of all
    radios and the messages that are allocated; the kernel and the GPS driver are the argument \<open>nl_kernel\<close>. The
    function \<open>genl_rcv\<close> is one request, \<open>nl_run\<close> a sequence of operations.
  \<^item> \<open>QueueMgr\<close>, \<open>UbloxI2c\<close>, \<open>UbloxMsg\<close>, \<open>UbloxParse\<close>, \<open>Ublox\<close>, \<open>UbloxDriver\<close>: the driver of the
    u-blox GPS receiver (\<open>ublox-mod/files/src\<close>): the message queue over allocated blocks
    (\<open>fb_tgd_queue_mgr.c\<close>), the transport (\<open>fb_tgd_ublox_gps.c\<close>), framing, handlers and parser, and then
    commands, worker, timer, sysfs, clients and life cycle (\<open>fb_tgd_ublox_msg_handler.c\<close>).
    \<open>UbloxParse\<close> has the theorems of the parser, \<open>UbloxDriver\<close> those of the whole driver. The state is
    the record \<open>ublox_msg_data\<close>, the bus the argument \<open>i2c_ops\<close>; \<open>ub_step\<close> is one operation of the
    driver, \<open>ub_inv\<close> its invariant. The queue is the locale \<open>bounded_queue\<close>, interpreted on \<open>q_put\<close> and
    \<open>q_take\<close>.
  \<^item> \<open>VppNode\<close>, \<open>TgCfg\<close>, \<open>TgNode\<close>, \<open>TgPlugin\<close>: the Terragraph plugin of VPP (\<open>vpp_plugins/tgcfg/tgcfg\<close>):
    the loop of a packet node with its pair and single bodies, as the locale \<open>vpp_node\<close>; configuration,
    set-up of radio and wired ports, link events, hooks and the process (\<open>tgcfg_main.c\<close>, \<open>tgcfg_cli.c\<close>,
    \<open>tgcfg_api.c\<close>); the packet nodes (\<open>tgcfg_node.c\<close>), which interpret the locale; and what the plugin
    promises as a whole. The plugin's globals are the record \<open>tgcfg_main\<close>; VPP and the radio driver are
    the arguments \<open>vpp_ops\<close> and \<open>node_env\<close>, with the laws \<open>vnet_ok\<close>. \<open>tg_exec\<close> is one operation, \<open>tg_inv\<close>
    the invariant.

  \<^bold>\<open>How they interact.\<close> The wireless driver reports the statistics of its qdisc and receives its
  flow-control signals, hands the timestamps of the radio to the PLL driver, and is a client of the u-blox
  driver, whose time updates it passes to the firmware; the parameter pack
  and direct-vpp are used by the radio firmware and the vendor driver, each through
  its own interface. The ESMC plugin reaches the PLL driver through the three ioctls of its device file, which is
  the locale \<open>pll_contract\<close>, interpreted on \<open>tgd_zl_ioctl\<close>. Under VPP the tgcfg plugin takes the place of the
  wireless driver: the radio driver of DPDK calls its link handlers, and its nodes pass the packets of the links
  to the other plugins and, over the slow path and the tap devices, to Linux.

  \<^bold>\<open>What is shown.\<close> Round trips of the parameter pack and of the ESMC PDU; refinement of the
  descriptor ring to a queue and of the qdisc to strict-priority bounded queues; equivalence of the
  fixed-point loop filter with the control law over the integers; invariants of every state the
  direct-vpp module, the PLL driver and the ESMC plugin reach; absence of timing loops, holdover
  behaviour, rate limit and source selection of the ESMC plugin; agreement of plugin and PLL driver;
  the residence time of PTP messages in hardware and software mode, what the packet node may write,
  the reading of GPS sentences independently of how they arrive, and the corrections of a pulse;
  the aggregation of frames as a round trip and a refinement of splitting bytes; that nothing but
  authentication passes a closed port, whatever requests come in between; the consistency of the link
  table, the accounting of every frame, the order of events, the installation of keys, the
  conservation of counters, and the silence of the wireless driver after its shutdown; that a netlink
  request reaches the firmware of its radio unchanged, that no message is lost or freed twice whatever fails in
  the kernel, and that the queue report stays within its bounds; the life of the
  u-blox driver without faults, leaks or lost commands, its state machine, the delivery of messages and
  of the time, the refusal of damaged messages, and that a waiting command is sent;
  for the tgcfg plugin, that its tables stay consistent and no access leaves them, that a link carries only
  authentication until its key is set, that both directions of a radio link and of a wired port agree, and
  that its nodes handle a frame packet by packet with exact counters; and, where the code departs from its documentation or intent, theorems that show how.

  \<^bold>\<open>Bounds and termination.\<close> Loops are structural recursion or \<open>function\<close> with a measure. The loop that
  polls the timer until its buffer is empty is a \<open>partial_function\<close>, and is shown to return. No
  fuel is used. Machine integers keep their width as words, except where the code cannot wrap. The
  theorems on the u-blox driver ask that a read ends 23 bytes before the end of the receive buffer and
  that a sysfs text fits the array it is converted into, because the code checks neither; those on the
  tgcfg plugin ask that events and packets of the driver name links that were set up, and that the vector
  of devices has not moved while an event with a pointer into it is pending, for the same reason; those on the
  netlink interface ask that a GPS position has its 32 bytes and a reserved device a peer address that is not zero. A frame
  has at most 256 packets, the size VPP gives it.

  \<^bold>\<open>Not modelled.\<close> Log messages, packet traces, debugfs output and module registration; locking
  beyond the order of the operations; the probe sequence, the qwilmaster hook and the other routing
  backends of the wireless driver, the text of the sysfs reads of the u-blox driver, the
  simulation module, the ESP firmware and the C++ services.
\<close>

end
